(* ===== verification/Prelude.thy ===== *)
theory Prelude
  imports Main "HOL-Library.Word"
begin

text \<open>
  What the components share: Go's machine integers and byte slices, the values that errors take,
  the big-endian byte conversions that the protocol code spells out with shifts, the reader of
  \<open>io.ReadFull\<close>, and the generic lemmas on them.

  A Go byte slice is a list of bytes. An operation of the source that returns a value and an error
  returns a value of type \<open>'a result\<close>: \<open>Inl\<close> the error, or \<open>Inr\<close> the value. A run-time panic is an
  error of its own, so that a theorem about a result also says that the code did not panic.
\<close>

unbundle bit_operations_syntax

section \<open>Machine integers, errors and results\<close>

type_synonym byte = "8 word"
type_synonym u8 = "8 word"
type_synonym u16 = "16 word"
type_synonym u32 = "32 word"
type_synonym u64 = "64 word"
type_synonym bytes = "byte list"

text \<open>
  Errors: the sentinel errors of the standard library and of the source, \<open>fmt.Errorf\<close> with its
  format and integer arguments, \<open>fmt.Errorf\<close> that wraps another error, an error of a collaborator
  outside the source (named by a number), a run-time panic, and a call that does not return.
\<close>

datatype go_error =
    EOF
  | UnexpectedEOF
  | MoreChunksNeeded
  | Errorf string "int list"
  | Wrapped string go_error
  | External nat
  | Panic
  | Diverges

type_synonym 'a result = "go_error + 'a"

definition bindE :: "'a result \<Rightarrow> ('a \<Rightarrow> 'b result) \<Rightarrow> 'b result" where
  "bindE x f = (case x of Inl e \<Rightarrow> Inl e | Inr v \<Rightarrow> f v)"

lemma bindE_simps [simp]:
  "bindE (Inl e) f = Inl e"
  "bindE (Inr v) f = f v"
  by (simp_all add: bindE_def)

lemma bindE_eq_Inr: "bindE x f = Inr w \<longleftrightarrow> (\<exists>v. x = Inr v \<and> f v = Inr w)"
  by (cases x) auto

lemma bindE_split:
  "P (bindE x f) \<longleftrightarrow> (\<forall>e. x = Inl e \<longrightarrow> P (Inl e)) \<and> (\<forall>v. x = Inr v \<longrightarrow> P (f v))"
  by (cases x) auto

lemma map_result_simps [simp]:
  "map_sum id f x = Inl e \<longleftrightarrow> x = Inl e"
  "map_sum id f x = Inr w \<longleftrightarrow> (\<exists>v. x = Inr v \<and> w = f v)"
  by (cases x; auto)+

text \<open>Integer division of Go truncates towards zero.\<close>

definition go_div :: "int \<Rightarrow> int \<Rightarrow> int" where
  "go_div a b = sgn a * sgn b * (\<bar>a\<bar> div \<bar>b\<bar>)"

lemma go_div_nonneg: "0 \<le> a \<Longrightarrow> 0 < b \<Longrightarrow> go_div a b = a div b"
  by (cases "a = 0") (auto simp: go_div_def)

text \<open>\<open>time.Duration\<close> counts nanoseconds.\<close>

type_synonym duration = int

abbreviation millisecond :: duration where
  "millisecond \<equiv> 1000000"

abbreviation second :: duration where
  "second \<equiv> 1000000000"

lemma go_div_mult_millisecond [simp]: "go_div (n * millisecond) millisecond = n"
  by (cases "n = 0") (auto simp: go_div_def abs_mult sgn_mult sgn_if)

section \<open>Big-endian conversions\<close>

definition be16 :: "byte \<Rightarrow> byte \<Rightarrow> u16" where
  "be16 a b = (push_bit 8 (ucast a) OR ucast b)"

definition be24 :: "byte \<Rightarrow> byte \<Rightarrow> byte \<Rightarrow> u32" where
  "be24 a b c = (push_bit 16 (ucast a) OR push_bit 8 (ucast b) OR ucast c)"

definition be32 :: "byte \<Rightarrow> byte \<Rightarrow> byte \<Rightarrow> byte \<Rightarrow> u32" where
  "be32 a b c d = (push_bit 24 (ucast a) OR push_bit 16 (ucast b) OR push_bit 8 (ucast c) OR ucast d)"

definition be64 :: "byte \<Rightarrow> byte \<Rightarrow> byte \<Rightarrow> byte \<Rightarrow> byte \<Rightarrow> byte \<Rightarrow> byte \<Rightarrow> byte \<Rightarrow> u64" where
  "be64 a b c d e f g h =
     (push_bit 56 (ucast a) OR push_bit 48 (ucast b) OR push_bit 40 (ucast c) OR push_bit 32 (ucast d) OR
      push_bit 24 (ucast e) OR push_bit 16 (ucast f) OR push_bit 8 (ucast g) OR ucast h)"

definition put16 :: "u16 \<Rightarrow> bytes" where
  "put16 v = [ucast (drop_bit 8 v), ucast v]"

definition put24 :: "u32 \<Rightarrow> bytes" where
  "put24 v = [ucast (drop_bit 16 v), ucast (drop_bit 8 v), ucast v]"

definition put32 :: "u32 \<Rightarrow> bytes" where
  "put32 v = [ucast (drop_bit 24 v), ucast (drop_bit 16 v), ucast (drop_bit 8 v), ucast v]"

definition put64 :: "u64 \<Rightarrow> bytes" where
  "put64 v = [ucast (drop_bit 56 v), ucast (drop_bit 48 v), ucast (drop_bit 40 v), ucast (drop_bit 32 v),
              ucast (drop_bit 24 v), ucast (drop_bit 16 v), ucast (drop_bit 8 v), ucast v]"

lemma byte_join:
  "push_bit k (ucast (ucast (drop_bit k v) :: byte)) OR take_bit k v = take_bit (k + 8) (v :: 'a::len word)"
proof (rule bit_word_eqI)
  fix n
  assume "n < LENGTH('a)"
  then show "bit (push_bit k (ucast (ucast (drop_bit k v) :: byte)) OR take_bit k v) n = bit (take_bit (k + 8) v) n"
    by (cases "k \<le> n") (auto simp: bit_simps)
qed

lemma low_byte: "ucast (ucast v :: byte) = take_bit 8 (v :: 'a::len word)"
  by (rule bit_word_eqI) (auto simp: bit_simps)

lemma be16_put16 [simp]: "be16 (ucast (drop_bit 8 v)) (ucast v) = v"
  using byte_join [of 8 v] by (simp add: be16_def low_byte take_bit_word_eq_self)

lemma be24_put24: "be24 (ucast (drop_bit 16 v)) (ucast (drop_bit 8 v)) (ucast v) = take_bit 24 v"
  using byte_join [of 8 v] byte_join [of 16 v] by (simp add: be24_def low_byte)

lemma be32_put32 [simp]:
  "be32 (ucast (drop_bit 24 v)) (ucast (drop_bit 16 v)) (ucast (drop_bit 8 v)) (ucast v) = v"
  using byte_join [of 8 v] byte_join [of 16 v] byte_join [of 24 v]
  by (simp add: be32_def low_byte take_bit_word_eq_self)

lemma be64_put64 [simp]:
  "be64 (ucast (drop_bit 56 v)) (ucast (drop_bit 48 v)) (ucast (drop_bit 40 v)) (ucast (drop_bit 32 v))
        (ucast (drop_bit 24 v)) (ucast (drop_bit 16 v)) (ucast (drop_bit 8 v)) (ucast v) = v"
  using byte_join [of 8 v] byte_join [of 16 v] byte_join [of 24 v] byte_join [of 32 v]
    byte_join [of 40 v] byte_join [of 48 v] byte_join [of 56 v]
  by (simp add: be64_def low_byte take_bit_word_eq_self)

lemma put_length [simp]:
  "length (put16 h) = 2" "length (put24 v) = 3" "length (put32 v) = 4" "length (put64 w) = 8"
  by (simp_all add: put16_def put24_def put32_def put64_def)

lemma byte_of_be16 [simp]:
  "ucast (drop_bit 8 (be16 a b)) = a" "ucast (be16 a b) = b"
  by (rule bit_word_eqI; auto simp: be16_def bit_simps dest: bit_imp_le_length)+

lemma unat_word_of_nat_16: "n < 65536 \<Longrightarrow> unat (word_of_nat n :: u16) = n"
  by (simp add: unat_of_nat)

lemma unat_word_of_nat_32: "n < 4294967296 \<Longrightarrow> unat (word_of_nat n :: u32) = n"
  by (simp add: unat_of_nat)

lemma word_of_unat [simp]: "word_of_nat (unat v) = (v :: 'a::len word)"
  by simp

lemma be16_0 [simp]: "be16 0 0 = 0"
  by (simp add: be16_def)

section \<open>Strings\<close>

text \<open>A Go string is a sequence of bytes; \<open>string(b)\<close> and \<open>[]byte(s)\<close> copy them.\<close>

definition string_of :: "bytes \<Rightarrow> string" where
  "string_of bs = map (\<lambda>b. char_of (unat b)) bs"

definition bytes_of :: "string \<Rightarrow> bytes" where
  "bytes_of s = map (\<lambda>c. word_of_nat (of_char c)) s"

lemma of_char_less_256 [simp]: "(of_char c :: nat) < 256"
  using mod_less_divisor [of 256 "of_char c :: nat"] by simp

lemma length_string_of [simp]: "length (string_of bs) = length bs"
  by (simp add: string_of_def)

lemma length_bytes_of [simp]: "length (bytes_of s) = length s"
  by (simp add: bytes_of_def)

lemma string_of_bytes_of [simp]: "string_of (bytes_of s) = s"
  by (simp add: string_of_def bytes_of_def unat_of_nat comp_def)

lemma unat_byte_less [simp]: "unat (b :: byte) < 256"
  using unsigned_less [of b, where ?'a = nat] by simp

lemma unat_u16_less [simp]: "unat (v :: u16) < 65536"
  using unsigned_less [of v, where ?'a = nat] by simp

lemma unat_u32_less [simp]: "unat (v :: u32) < 4294967296"
  using unsigned_less [of v, where ?'a = nat] by simp

lemma bytes_of_string_of [simp]: "bytes_of (string_of bs) = bs"
  by (induction bs) (simp_all add: string_of_def bytes_of_def)

lemma string_of_eq_Nil [simp]: "string_of bs = [] \<longleftrightarrow> bs = []"
  by (simp add: string_of_def)

lemma bytes_of_eq_Nil [simp]: "bytes_of s = [] \<longleftrightarrow> s = []"
  by (simp add: bytes_of_def)

section \<open>Buffers\<close>

text \<open>A buffer of \<open>n\<close> zero bytes with \<open>bs\<close> copied to its start: \<open>make\<close> and \<open>copy\<close>.\<close>

definition fill :: "nat \<Rightarrow> bytes \<Rightarrow> bytes" where
  "fill n bs = take n bs @ replicate (n - length bs) 0"

lemma fill_length [simp]: "length (fill n bs) = n"
  by (simp add: fill_def)

lemma fill_exact [simp]: "fill (length bs) bs = bs"
  by (simp add: fill_def)

lemma fill_exact' [simp]: "n = length bs \<Longrightarrow> fill n bs = bs"
  by simp

lemma fill_Cons: "0 < n \<Longrightarrow> fill n (b # bs) = b # fill (n - 1) bs"
  by (cases n) (simp_all add: fill_def)

section \<open>Reading from a stream\<close>

text \<open>
  A byte stream that a connection delivers is the list of the bytes not consumed yet.
  \<open>io.ReadFull\<close> on a buffer of \<open>n\<close> bytes fills it, or consumes what is left and fails: with
  \<open>EOF\<close> when nothing was left, with \<open>UnexpectedEOF\<close> otherwise.
\<close>

definition read_full :: "nat \<Rightarrow> bytes \<Rightarrow> bytes result \<times> bytes" where
  "read_full n s =
     (if length s < n then (Inl (if s = [] then EOF else UnexpectedEOF), [])
      else (Inr (take n s), drop n s))"

lemma read_full_append [simp]: "n = length xs \<Longrightarrow> read_full n (xs @ rest) = (Inr xs, rest)"
  by (simp add: read_full_def)

lemma read_full_self [simp]: "n = length xs \<Longrightarrow> read_full n xs = (Inr xs, [])"
  by (simp add: read_full_def)

lemma read_full_Inr: "read_full n s = (Inr xs, rest) \<longleftrightarrow> n = length xs \<and> s = xs @ rest"
  by (auto simp: read_full_def min_def split: if_splits)

lemma read_full_length: "read_full n s = (res, rest) \<Longrightarrow> length rest \<le> length s"
  by (auto simp: read_full_def split: if_splits)

text \<open>Sequencing of operations that act on a state, the stream that they read from or more, and may fail.\<close>

definition bindS :: "'a result \<times> 's \<Rightarrow> ('a \<Rightarrow> 's \<Rightarrow> 'b result \<times> 's) \<Rightarrow> 'b result \<times> 's" where
  "bindS r f = (case r of (Inl e, s) \<Rightarrow> (Inl e, s) | (Inr v, s) \<Rightarrow> f v s)"

lemma bindS_simps [simp]:
  "bindS (Inl e, s) f = (Inl e, s)"
  "bindS (Inr v, s) f = f v s"
  by (simp_all add: bindS_def)

lemma bindS_Inr: "bindS r f = (Inr w, rest) \<longleftrightarrow> (\<exists>v s. r = (Inr v, s) \<and> f v s = (Inr w, rest))"
  by (cases r; cases "fst r") auto

lemma bindS_length:
  assumes "bindS r f = (res, rest)" "length (snd r) \<le> n"
    and "\<And>v s res rest. f v s = (res, rest) \<Longrightarrow> length rest \<le> length s"
  shows "length rest \<le> n"
  using assms by (cases r; cases "fst r") fastforce+

lemma take_bit_self: "unat v < 2 ^ n \<Longrightarrow> take_bit n (v :: 'a::len word) = v"
  by (rule word_unat_eq_iff [THEN iffD2]) (simp only: unsigned_take_bit_eq take_bit_nat_eq_self)

lemma take_bit_24_self: "v < 0x1000000 \<Longrightarrow> take_bit 24 (v :: u32) = v"
  by (rule take_bit_self) (simp add: word_less_nat_alt)

lemma take_bit_6_self: "v < 64 \<Longrightarrow> take_bit 6 (v :: byte) = v"
  by (rule take_bit_self) (simp add: word_less_nat_alt)

lemma take_bit_less: "unat (take_bit n (v :: 'a::len word)) < 2 ^ n"
  by (simp only: unsigned_take_bit_eq take_bit_nat_less_exp)

lemma be24_less: "be24 a b c < 0x1000000"
proof -
  have "be24 a b c = take_bit 24 (be24 a b c)"
    unfolding be24_def by (rule bit_word_eqI) (auto simp: bit_simps dest: bit_imp_le_length)
  then have "unat (be24 a b c) < 2 ^ 24"
    by (metis take_bit_less)
  then show ?thesis by (simp add: word_less_nat_alt)
qed

lemma mask_6_less: "(i :: byte) AND 0x3F < 64"
proof -
  have "i AND 0x3F = take_bit 6 i"
    by (simp add: take_bit_eq_mask mask_eq_exp_minus_1)
  then have "unat (i AND 0x3F) < 2 ^ 6"
    by (simp only: take_bit_less)
  then show ?thesis by (simp add: word_less_nat_alt)
qed

end
