(* ===== verification/Chunk.thy ===== *)
theory Chunk
  imports Prelude
begin

text \<open>
  Package chunk (src/mediamtx/internal/protocols/rtmp/chunk): the four types of RTMP chunks, each
  with a reader and an encoder, and the Go interface that they share, as a locale with the laws
  that the message reader and writer rely on.
\<close>

section \<open>Chunk types\<close>

record chunk0 =
  c0_ChunkStreamID :: byte
  c0_Timestamp :: u32
  c0_BodyLen :: u32
  c0_Type :: u8
  c0_MessageStreamID :: u32
  c0_Body :: bytes

record chunk1 =
  c1_ChunkStreamID :: byte
  c1_TimestampDelta :: u32
  c1_BodyLen :: u32
  c1_Type :: u8
  c1_Body :: bytes

record chunk2 =
  c2_ChunkStreamID :: byte
  c2_TimestampDelta :: u32
  c2_Body :: bytes

record chunk3 =
  c3_ChunkStreamID :: byte
  c3_Body :: bytes

text \<open>
  The extended timestamp: when the 24-bit field is saturated, the value is in the next four bytes.
\<close>

definition read_extended :: "u32 \<Rightarrow> bytes \<Rightarrow> u32 result \<times> bytes" where
  "read_extended ts s =
     (if ts \<ge> 0xFFFFFF then
        bindS (read_full 4 s) (\<lambda>h s. (Inr (be32 (h ! 0) (h ! 1) (h ! 2) (h ! 3)), s))
      else (Inr ts, s))"

definition put_timestamp :: "u32 \<Rightarrow> bytes" where
  "put_timestamp ts = (if ts \<ge> 0xFFFFFF then [0xFF, 0xFF, 0xFF] else put24 ts)"

definition put_extended :: "u32 \<Rightarrow> bytes" where
  "put_extended ts = (if ts \<ge> 0xFFFFFF then put32 ts else [])"

section \<open>Readers\<close>

definition chunk0_read :: "u32 \<Rightarrow> bool \<Rightarrow> bytes \<Rightarrow> chunk0 result \<times> bytes" where
  "chunk0_read maxBodyLen ext s =
     bindS (read_full 12 s) (\<lambda>header s.
     bindS (read_extended (be24 (header ! 1) (header ! 2) (header ! 3)) s) (\<lambda>timestamp s.
     let bodyLen = be24 (header ! 4) (header ! 5) (header ! 6);
         chunkBodyLen = (if bodyLen > maxBodyLen then maxBodyLen else bodyLen)
     in bindS (read_full (unat chunkBodyLen) s) (\<lambda>body s.
          (Inr \<lparr>c0_ChunkStreamID = header ! 0 AND 0x3F,
                c0_Timestamp = timestamp,
                c0_BodyLen = bodyLen,
                c0_Type = header ! 7,
                c0_MessageStreamID = be32 (header ! 8) (header ! 9) (header ! 10) (header ! 11),
                c0_Body = body\<rparr>, s))))"

definition chunk1_read :: "u32 \<Rightarrow> bool \<Rightarrow> bytes \<Rightarrow> chunk1 result \<times> bytes" where
  "chunk1_read maxBodyLen ext s =
     bindS (read_full 8 s) (\<lambda>header s.
     bindS (read_extended (be24 (header ! 1) (header ! 2) (header ! 3)) s) (\<lambda>delta s.
     let bodyLen = be24 (header ! 4) (header ! 5) (header ! 6);
         chunkBodyLen = (if bodyLen > maxBodyLen then maxBodyLen else bodyLen)
     in bindS (read_full (unat chunkBodyLen) s) (\<lambda>body s.
          (Inr \<lparr>c1_ChunkStreamID = header ! 0 AND 0x3F,
                c1_TimestampDelta = delta,
                c1_BodyLen = bodyLen,
                c1_Type = header ! 7,
                c1_Body = body\<rparr>, s))))"

definition chunk2_read :: "u32 \<Rightarrow> bool \<Rightarrow> bytes \<Rightarrow> chunk2 result \<times> bytes" where
  "chunk2_read bodyLen ext s =
     bindS (read_full 4 s) (\<lambda>header s.
     bindS (read_extended (be24 (header ! 1) (header ! 2) (header ! 3)) s) (\<lambda>delta s.
     bindS (read_full (unat bodyLen) s) (\<lambda>body s.
          (Inr \<lparr>c2_ChunkStreamID = header ! 0 AND 0x3F,
                c2_TimestampDelta = delta,
                c2_Body = body\<rparr>, s))))"

definition chunk3_read :: "u32 \<Rightarrow> bool \<Rightarrow> bytes \<Rightarrow> chunk3 result \<times> bytes" where
  "chunk3_read bodyLen ext s =
     bindS (read_full 1 s) (\<lambda>header s.
     bindS (if ext then read_full 4 s else (Inr header, s)) (\<lambda>_ s.
     bindS (read_full (unat bodyLen) s) (\<lambda>body s.
          (Inr \<lparr>c3_ChunkStreamID = header ! 0 AND 0x3F, c3_Body = body\<rparr>, s))))"

section \<open>Encoders\<close>

definition chunk0_marshal :: "bool \<Rightarrow> chunk0 \<Rightarrow> bytes" where
  "chunk0_marshal ext c =
     [c0_ChunkStreamID c] @ put_timestamp (c0_Timestamp c) @ put24 (c0_BodyLen c) @ [c0_Type c] @
     put32 (c0_MessageStreamID c) @ put_extended (c0_Timestamp c) @ c0_Body c"

definition chunk1_marshal :: "bool \<Rightarrow> chunk1 \<Rightarrow> bytes" where
  "chunk1_marshal ext c =
     [push_bit 6 1 OR c1_ChunkStreamID c] @ put_timestamp (c1_TimestampDelta c) @ put24 (c1_BodyLen c) @
     [c1_Type c] @ put_extended (c1_TimestampDelta c) @ c1_Body c"

definition chunk2_marshal :: "bool \<Rightarrow> chunk2 \<Rightarrow> bytes" where
  "chunk2_marshal ext c =
     [push_bit 6 2 OR c2_ChunkStreamID c] @ put_timestamp (c2_TimestampDelta c) @
     put_extended (c2_TimestampDelta c) @ c2_Body c"

text \<open>A type 3 chunk leaves the four bytes of an extended timestamp zero.\<close>

definition chunk3_marshal :: "bool \<Rightarrow> chunk3 \<Rightarrow> bytes" where
  "chunk3_marshal ext c =
     [push_bit 6 3 OR c3_ChunkStreamID c] @ (if ext then [0, 0, 0, 0] else []) @ c3_Body c"

definition chunk0_marshalSize :: "chunk0 \<Rightarrow> nat" where
  "chunk0_marshalSize c = 12 + length (c0_Body c) + (if c0_Timestamp c \<ge> 0xFFFFFF then 4 else 0)"

definition chunk1_marshalSize :: "chunk1 \<Rightarrow> nat" where
  "chunk1_marshalSize c = 8 + length (c1_Body c) + (if c1_TimestampDelta c \<ge> 0xFFFFFF then 4 else 0)"

definition chunk2_marshalSize :: "chunk2 \<Rightarrow> nat" where
  "chunk2_marshalSize c = 4 + length (c2_Body c) + (if c2_TimestampDelta c \<ge> 0xFFFFFF then 4 else 0)"

definition chunk3_marshalSize :: "bool \<Rightarrow> chunk3 \<Rightarrow> nat" where
  "chunk3_marshalSize ext c = 1 + length (c3_Body c) + (if ext then 4 else 0)"

lemma marshal_size_exact:
  "length (chunk0_marshal ext c0) = chunk0_marshalSize c0"
  "length (chunk1_marshal ext c1) = chunk1_marshalSize c1"
  "length (chunk2_marshal ext c2) = chunk2_marshalSize c2"
  "length (chunk3_marshal ext c3) = chunk3_marshalSize ext c3"
  by (simp_all add: chunk0_marshal_def chunk1_marshal_def chunk2_marshal_def chunk3_marshal_def
      chunk0_marshalSize_def chunk1_marshalSize_def chunk2_marshalSize_def chunk3_marshalSize_def
      put_timestamp_def put_extended_def)

section \<open>The chunk interface\<close>

text \<open>
  \<open>fits n c\<close>: chunk \<open>c\<close> can be carried when the reader's body limit is \<open>n\<close>. The laws: a chunk that
  fits is read back from its encoding, which starts with the type and the chunk stream ID; a reader
  only returns chunks that fit, never gives bytes back, consumes at least one byte when it succeeds, and fails only with the errors
  of \<open>io.ReadFull\<close>.
\<close>

locale chunk_codec =
  fixes read :: "u32 \<Rightarrow> bool \<Rightarrow> bytes \<Rightarrow> 'c result \<times> bytes"
    and marshal :: "bool \<Rightarrow> 'c \<Rightarrow> bytes"
    and fmt :: byte
    and csid :: "'c \<Rightarrow> byte"
    and fits :: "u32 \<Rightarrow> 'c \<Rightarrow> bool"
  assumes read_marshal: "fits n c \<Longrightarrow> read n ext (marshal ext c @ rest) = (Inr c, rest)"
    and marshal_head: "\<exists>tl. marshal ext c = (push_bit 6 fmt OR csid c) # tl"
    and read_Inr_shorter: "read n ext s = (Inr c, rest) \<Longrightarrow> length rest < length s"
    and read_not_longer: "read n ext s = (res, rest) \<Longrightarrow> length rest \<le> length s"
    and read_fits: "read n ext s = (Inr c, rest) \<Longrightarrow> fits n c"
    and read_error: "read n ext s = (Inl e, rest) \<Longrightarrow> e = EOF \<or> e = UnexpectedEOF"
begin

lemma marshal_nonempty: "marshal ext c \<noteq> []"
  using marshal_head [of ext c] by auto

lemma marshal_append_head: "\<exists>xs. marshal ext c @ rest = (push_bit 6 fmt OR csid c) # xs"
  using marshal_head [of ext c] by auto

lemma marshal_inject:
  assumes "fits n c" "fits n d" "marshal ext c @ r = marshal ext d @ r'"
  shows "c = d \<and> r = r'"
proof -
  have "(Inr c, r) = (Inr d :: 'c result, r')"
    using read_marshal [OF assms(1), of ext r] read_marshal [OF assms(2), of ext r'] unfolding assms(3)
    by (rule trans [OF sym])
  then show ?thesis by simp
qed

lemma read_marshals:
  assumes "fits n c" "fits m d"
  shows "bindS (read n e (marshal e c @ marshal f d @ rest)) (\<lambda>x s. bindS (read m f s) (\<lambda>y s. (Inr (x, y), s)))
       = (Inr (c, d), rest)"
  using assms by (simp add: read_marshal)

end

section \<open>The four types implement it\<close>

definition chunk0_fits :: "u32 \<Rightarrow> chunk0 \<Rightarrow> bool" where
  "chunk0_fits n c \<longleftrightarrow> c0_ChunkStreamID c < 64 \<and> c0_BodyLen c < 0x1000000 \<and>
     length (c0_Body c) = unat (min (c0_BodyLen c) n)"

definition chunk1_fits :: "u32 \<Rightarrow> chunk1 \<Rightarrow> bool" where
  "chunk1_fits n c \<longleftrightarrow> c1_ChunkStreamID c < 64 \<and> c1_BodyLen c < 0x1000000 \<and>
     length (c1_Body c) = unat (min (c1_BodyLen c) n)"

definition chunk2_fits :: "u32 \<Rightarrow> chunk2 \<Rightarrow> bool" where
  "chunk2_fits n c \<longleftrightarrow> c2_ChunkStreamID c < 64 \<and> length (c2_Body c) = unat n"

definition chunk3_fits :: "u32 \<Rightarrow> chunk3 \<Rightarrow> bool" where
  "chunk3_fits n c \<longleftrightarrow> c3_ChunkStreamID c < 64 \<and> length (c3_Body c) = unat n"

lemmas chunk_defs =
  chunk0_read_def chunk1_read_def chunk2_read_def chunk3_read_def
  chunk0_marshal_def chunk1_marshal_def chunk2_marshal_def chunk3_marshal_def
  chunk0_fits_def chunk1_fits_def chunk2_fits_def chunk3_fits_def

lemma mask_6: "(i :: byte) AND 0x3F = take_bit 6 i"
  by (simp add: take_bit_eq_mask mask_eq_exp_minus_1)

lemma csid_mask [simp]: "i < 64 \<Longrightarrow> (i :: byte) AND 0x3F = i"
  by (simp only: mask_6 take_bit_6_self)

lemma csid_mask_typ [simp]: "i < 64 \<Longrightarrow> (push_bit 6 t OR (i :: byte)) AND 0x3F = i"
  unfolding mask_6 take_bit_or take_bit_push_bit by (simp only: take_bit_6_self) simp

lemma typ_of_head [simp]:
  assumes "i < 64" "t < 4"
  shows "drop_bit 6 (push_bit 6 t OR (i :: byte)) = t"
proof -
  have "drop_bit 6 i = 0"
    using take_bit_6_self [OF assms(1)] by (metis drop_bit_take_bit cancel_comm_monoid_add_class.diff_cancel take_bit_0)
  moreover have "drop_bit 6 (push_bit 6 t) = take_bit 2 t"
    by (rule bit_word_eqI) (auto simp: bit_simps)
  moreover have "take_bit 2 t = t"
    using assms(2) by (intro take_bit_self) (simp add: word_less_nat_alt)
  ultimately show ?thesis by (simp only: drop_bit_or or.right_neutral)
qed

text \<open>What the 24-bit timestamp field of a chunk holds.\<close>

definition capped :: "u32 \<Rightarrow> u32" where
  "capped ts = (if ts \<ge> 0xFFFFFF then 0xFFFFFF else ts)"

lemma timestamp_bytes: "\<exists>a b c. put_timestamp ts = [a, b, c] \<and> be24 a b c = capped ts"
proof (cases "ts \<ge> 0xFFFFFF")
  case True
  have "be24 0xFF 0xFF 0xFF = 0xFFFFFF" by (simp add: be24_def)
  with True show ?thesis by (simp add: put_timestamp_def capped_def)
next
  case False
  then have "take_bit 24 ts = ts"
    by (intro take_bit_24_self) (simp add: not_le word_less_nat_alt)
  with False show ?thesis by (auto simp: put_timestamp_def put24_def be24_put24 capped_def)
qed

lemma read_extended_put [simp]: "read_extended (capped ts) (put_extended ts @ rest) = (Inr ts, rest)"
  by (simp add: read_extended_def put_extended_def put32_def read_full_def capped_def)

lemma unat_min_body: "unat (if m < n then m else n) = unat (min n (m :: u32))"
  by (auto simp: min_def not_less intro: order.antisym)

lemmas read_length_simps = bindS_def read_full_def read_extended_def Let_def

interpretation c0: chunk_codec chunk0_read chunk0_marshal 0 c0_ChunkStreamID chunk0_fits
proof
  fix n ext c rest
  assume fits: "chunk0_fits n c"
  obtain a b d where ts: "put_timestamp (c0_Timestamp c) = [a, b, d]" "be24 a b d = capped (c0_Timestamp c)"
    using timestamp_bytes by blast
  have h: "read_full 12 (chunk0_marshal ext c @ rest) =
    (Inr ([c0_ChunkStreamID c, a, b, d] @ put24 (c0_BodyLen c) @ [c0_Type c] @ put32 (c0_MessageStreamID c)),
     put_extended (c0_Timestamp c) @ c0_Body c @ rest)"
    by (simp add: chunk0_marshal_def ts(1) read_full_def put24_def put32_def)
  show "chunk0_read n ext (chunk0_marshal ext c @ rest) = (Inr c, rest)"
    using fits unfolding chunk0_read_def h
    by (simp add: ts(2) put24_def put32_def be24_put24 take_bit_24_self chunk0_fits_def Let_def unat_min_body)
next
  show "\<exists>tl. chunk0_marshal ext c = (push_bit 6 0 OR c0_ChunkStreamID c) # tl" for ext c
    by (simp add: chunk0_marshal_def)
next
  show "length rest < length s" if "chunk0_read n ext s = (Inr c, rest)" for n ext s c rest
    using that by (auto simp: chunk0_read_def bindS_Inr read_full_Inr read_extended_def Let_def split: if_splits)
next
  show "length rest \<le> length s" if "chunk0_read n ext s = (res, rest)" for n ext s res rest
    using that by (auto simp: chunk0_read_def read_length_simps split: if_splits)
next
  show "chunk0_fits n c" if "chunk0_read n ext s = (Inr c, rest)" for n ext s c rest
    using that be24_less mask_6_less
    by (auto simp: chunk0_read_def chunk0_fits_def bindS_Inr read_full_Inr Let_def unat_min_body)
next
  show "e = EOF \<or> e = UnexpectedEOF" if "chunk0_read n ext s = (Inl e, rest)" for n ext s e rest
    using that by (auto simp: chunk0_read_def read_length_simps split: if_splits)
qed

interpretation c1: chunk_codec chunk1_read chunk1_marshal 1 c1_ChunkStreamID chunk1_fits
proof
  fix n ext c rest
  assume fits: "chunk1_fits n c"
  obtain a b d where ts: "put_timestamp (c1_TimestampDelta c) = [a, b, d]" "be24 a b d = capped (c1_TimestampDelta c)"
    using timestamp_bytes by blast
  have h: "read_full 8 (chunk1_marshal ext c @ rest) =
    (Inr ([push_bit 6 1 OR c1_ChunkStreamID c, a, b, d] @ put24 (c1_BodyLen c) @ [c1_Type c]),
     put_extended (c1_TimestampDelta c) @ c1_Body c @ rest)"
    by (simp add: chunk1_marshal_def ts(1) read_full_def put24_def)
  have m: "(push_bit 6 1 OR c1_ChunkStreamID c) AND 0x3F = c1_ChunkStreamID c"
    using fits by (intro csid_mask_typ) (simp add: chunk1_fits_def)
  show "chunk1_read n ext (chunk1_marshal ext c @ rest) = (Inr c, rest)"
    using fits unfolding chunk1_read_def h
    by (simp add: ts(2) m[simplified] put24_def be24_put24 take_bit_24_self chunk1_fits_def Let_def unat_min_body)
next
  show "\<exists>tl. chunk1_marshal ext c = (push_bit 6 1 OR c1_ChunkStreamID c) # tl" for ext c
    by (simp add: chunk1_marshal_def)
next
  show "length rest < length s" if "chunk1_read n ext s = (Inr c, rest)" for n ext s c rest
    using that by (auto simp: chunk1_read_def bindS_Inr read_full_Inr read_extended_def Let_def split: if_splits)
next
  show "length rest \<le> length s" if "chunk1_read n ext s = (res, rest)" for n ext s res rest
    using that by (auto simp: chunk1_read_def read_length_simps split: if_splits)
next
  show "chunk1_fits n c" if "chunk1_read n ext s = (Inr c, rest)" for n ext s c rest
    using that be24_less mask_6_less
    by (auto simp: chunk1_read_def chunk1_fits_def bindS_Inr read_full_Inr Let_def unat_min_body)
next
  show "e = EOF \<or> e = UnexpectedEOF" if "chunk1_read n ext s = (Inl e, rest)" for n ext s e rest
    using that by (auto simp: chunk1_read_def read_length_simps split: if_splits)
qed

interpretation c2: chunk_codec chunk2_read chunk2_marshal 2 c2_ChunkStreamID chunk2_fits
proof
  fix n ext c rest
  assume fits: "chunk2_fits n c"
  obtain a b d where ts: "put_timestamp (c2_TimestampDelta c) = [a, b, d]" "be24 a b d = capped (c2_TimestampDelta c)"
    using timestamp_bytes by blast
  have h: "read_full 4 (chunk2_marshal ext c @ rest) =
    (Inr [push_bit 6 2 OR c2_ChunkStreamID c, a, b, d], put_extended (c2_TimestampDelta c) @ c2_Body c @ rest)"
    by (simp add: chunk2_marshal_def ts(1) read_full_def)
  have m: "(push_bit 6 2 OR c2_ChunkStreamID c) AND 0x3F = c2_ChunkStreamID c"
    using fits by (intro csid_mask_typ) (simp add: chunk2_fits_def)
  show "chunk2_read n ext (chunk2_marshal ext c @ rest) = (Inr c, rest)"
    using fits unfolding chunk2_read_def h
    by (simp add: ts(2) m[simplified] chunk2_fits_def)
next
  show "\<exists>tl. chunk2_marshal ext c = (push_bit 6 2 OR c2_ChunkStreamID c) # tl" for ext c
    by (simp add: chunk2_marshal_def)
next
  show "length rest < length s" if "chunk2_read n ext s = (Inr c, rest)" for n ext s c rest
    using that by (auto simp: chunk2_read_def bindS_Inr read_full_Inr read_extended_def Let_def split: if_splits)
next
  show "length rest \<le> length s" if "chunk2_read n ext s = (res, rest)" for n ext s res rest
    using that by (auto simp: chunk2_read_def read_length_simps split: if_splits)
next
  show "chunk2_fits n c" if "chunk2_read n ext s = (Inr c, rest)" for n ext s c rest
    using that be24_less mask_6_less
    by (auto simp: chunk2_read_def chunk2_fits_def bindS_Inr read_full_Inr Let_def unat_min_body)
next
  show "e = EOF \<or> e = UnexpectedEOF" if "chunk2_read n ext s = (Inl e, rest)" for n ext s e rest
    using that by (auto simp: chunk2_read_def read_length_simps split: if_splits)
qed

interpretation c3: chunk_codec chunk3_read chunk3_marshal 3 c3_ChunkStreamID chunk3_fits
proof
  fix n ext c rest
  assume fits: "chunk3_fits n c"
  have m: "(push_bit 6 3 OR c3_ChunkStreamID c) AND 0x3F = c3_ChunkStreamID c"
    using fits by (intro csid_mask_typ) (simp add: chunk3_fits_def)
  show "chunk3_read n ext (chunk3_marshal ext c @ rest) = (Inr c, rest)"
    using fits unfolding chunk3_read_def chunk3_marshal_def
    by (simp add: m[simplified] chunk3_fits_def read_full_def)
next
  show "\<exists>tl. chunk3_marshal ext c = (push_bit 6 3 OR c3_ChunkStreamID c) # tl" for ext c
    by (simp add: chunk3_marshal_def)
next
  show "length rest < length s" if "chunk3_read n ext s = (Inr c, rest)" for n ext s c rest
    using that by (auto simp: chunk3_read_def bindS_Inr read_full_Inr split: if_splits)
next
  show "length rest \<le> length s" if "chunk3_read n ext s = (res, rest)" for n ext s res rest
    using that by (auto simp: chunk3_read_def read_length_simps split: if_splits)
next
  show "chunk3_fits n c" if "chunk3_read n ext s = (Inr c, rest)" for n ext s c rest
    using that be24_less mask_6_less
    by (auto simp: chunk3_read_def chunk3_fits_def bindS_Inr read_full_Inr Let_def unat_min_body)
next
  show "e = EOF \<or> e = UnexpectedEOF" if "chunk3_read n ext s = (Inl e, rest)" for n ext s e rest
    using that by (auto simp: chunk3_read_def read_length_simps split: if_splits)
qed

text \<open>
  Each of the four types of chunk is read back from its encoding, whatever follows it in the stream,
  and the size that the encoder allocates is exactly what it fills.
\<close>

theorem chunk_roundtrip:
  assumes "chunk0_fits n0 c0" "chunk1_fits n1 c1" "chunk2_fits n2 c2" "chunk3_fits n3 c3"
  shows "chunk0_read n0 ext (chunk0_marshal ext c0 @ rest) = (Inr c0, rest) \<and>
    chunk1_read n1 ext (chunk1_marshal ext c1 @ rest) = (Inr c1, rest) \<and>
    chunk2_read n2 ext (chunk2_marshal ext c2 @ rest) = (Inr c2, rest) \<and>
    chunk3_read n3 ext (chunk3_marshal ext c3 @ rest) = (Inr c3, rest) \<and>
    length (chunk0_marshal ext c0) = chunk0_marshalSize c0 \<and> length (chunk1_marshal ext c1) = chunk1_marshalSize c1 \<and>
    length (chunk2_marshal ext c2) = chunk2_marshalSize c2 \<and> length (chunk3_marshal ext c3) = chunk3_marshalSize ext c3"
  using assms by (simp add: c0.read_marshal c1.read_marshal c2.read_marshal c3.read_marshal marshal_size_exact)

lemma chunk_roundtrip_witness:
  "\<exists>c0 c1 c2 c3. chunk0_read 2 True (chunk0_marshal True c0 @ [9]) = (Inr c0, [9]) \<and> c0_Timestamp c0 = 0x1000000 \<and>
    chunk1_read 2 True (chunk1_marshal True c1 @ [9]) = (Inr c1, [9]) \<and>
    chunk2_read 2 True (chunk2_marshal True c2 @ [9]) = (Inr c2, [9]) \<and>
    chunk3_read 2 True (chunk3_marshal True c3 @ [9]) = (Inr c3, [9])"
  using chunk_roundtrip [of 2 "\<lparr>c0_ChunkStreamID = 4, c0_Timestamp = 0x1000000, c0_BodyLen = 5, c0_Type = 8,
      c0_MessageStreamID = 1, c0_Body = [1, 2]\<rparr>" 2 "\<lparr>c1_ChunkStreamID = 4, c1_TimestampDelta = 7, c1_BodyLen = 2,
      c1_Type = 8, c1_Body = [1, 2]\<rparr>" 2 "\<lparr>c2_ChunkStreamID = 4, c2_TimestampDelta = 7, c2_Body = [1, 2]\<rparr>"
      2 "\<lparr>c3_ChunkStreamID = 4, c3_Body = [1, 2]\<rparr>" True "[9]"]
  by (intro exI conjI) (auto simp: chunk0_fits_def chunk1_fits_def chunk2_fits_def chunk3_fits_def min_def)

end
