(* ===== verification/RawReader.thy ===== *)
theory RawReader
  imports Chunk
begin

text \<open>
  The reader of package rawmessage (src/mediamtx/internal/protocols/rtmp/rawmessage/reader.go): it
  reads chunks of interleaved chunk streams and assembles them into messages.

  The bytes that \<open>br\<close> will deliver are a list. The number of bytes that the byte counter reports is
  a function of the number of bytes consumed so far, because \<open>bufio\<close> reads ahead by an amount that
  depends on the network: \<open>r_count\<close> may be any function. The callback \<open>onAckNeeded\<close> acts on a state
  of its own, \<open>r_sink\<close>. The fields \<open>msg\<close> and \<open>c0\<close> to \<open>c3\<close> of the source are scratch space that every
  operation fills in before it reads it; the model passes their values on instead.
\<close>

section \<open>State\<close>

record raw_message =
  m_ChunkStreamID :: byte
  m_Timestamp :: duration
  m_Type :: u8
  m_MessageStreamID :: u32
  m_Body :: bytes

record reader_chunk_stream =
  curTimestamp :: u32
  curTimestampAvailable :: bool
  curType :: u8
  curMessageStreamID :: u32
  curBodyLen :: u32
  curBodyFragments :: "bytes list"
  curBodyRecv :: u32
  curTimestampDelta :: u32
  curTimestampDeltaAvailable :: bool
  rc_hasExtendedTimestamp :: bool

record 'w raw_reader =
  r_br :: bytes
  r_consumed :: nat
  r_count :: "nat \<Rightarrow> u64"
  r_chunkSize :: u32
  r_ackWindowSize :: u32
  r_lastAckCount :: u32
  r_chunkStreams :: "byte \<Rightarrow> reader_chunk_stream option"
  r_sink :: 'w

type_synonym 'w ack = "u32 \<Rightarrow> 'w \<Rightarrow> go_error option \<times> 'w"

definition maxBodySize :: u32 where
  "maxBodySize = 10 * 1024 * 1024"

definition new_reader_chunk_stream :: reader_chunk_stream where
  "new_reader_chunk_stream =
     \<lparr>curTimestamp = 0, curTimestampAvailable = False, curType = 0, curMessageStreamID = 0,
      curBodyLen = 0, curBodyFragments = [], curBodyRecv = 0, curTimestampDelta = 0,
      curTimestampDeltaAvailable = False, rc_hasExtendedTimestamp = False\<rparr>"

definition raw_NewReader :: "bytes \<Rightarrow> (nat \<Rightarrow> u64) \<Rightarrow> 'w \<Rightarrow> 'w raw_reader" where
  "raw_NewReader br count sink =
     \<lparr>r_br = br, r_consumed = 0, r_count = count, r_chunkSize = 128, r_ackWindowSize = 0,
      r_lastAckCount = 0, r_chunkStreams = Map.empty, r_sink = sink\<rparr>"

section \<open>Operations\<close>

definition Reader_SetChunkSize :: "u32 \<Rightarrow> 'w raw_reader \<Rightarrow> 'w raw_reader \<times> unit result" where
  "Reader_SetChunkSize v r =
     (if v > maxBodySize
      then (r, Inl (Errorf ''chunk size (%d) exceeds maximum (%d)'' [uint v, uint maxBodySize]))
      else (r\<lparr>r_chunkSize := v\<rparr>, Inr ()))"

definition Reader_SetWindowAckSize :: "u32 \<Rightarrow> 'w raw_reader \<Rightarrow> 'w raw_reader" where
  "Reader_SetWindowAckSize v r = r\<lparr>r_ackWindowSize := v\<rparr>"

text \<open>A buffer of the given size, filled with the fragments; what they do not fill stays zero.\<close>

definition joinFragments :: "bytes list \<Rightarrow> u32 \<Rightarrow> bytes" where
  "joinFragments fragments sz =
     (let n = unat sz; p = take n (concat fragments) in p @ replicate (n - length p) 0)"

definition readChunk ::
  "'w ack \<Rightarrow> (bytes \<Rightarrow> 'c result \<times> bytes) \<Rightarrow> 'w raw_reader \<Rightarrow> 'w raw_reader \<times> 'c result" where
  "readChunk ack read r =
     (case read (r_br r) of (res, br') \<Rightarrow>
        let r1 = r\<lparr>r_br := br', r_consumed := r_consumed r + (length (r_br r) - length br')\<rparr> in
        case res of
          Inl e \<Rightarrow> (r1, Inl e)
        | Inr c \<Rightarrow>
            if r_ackWindowSize r1 \<noteq> 0 then
              let count = ucast (r_count r1 (r_consumed r1)); diff = count - r_lastAckCount r1 in
              if diff > r_ackWindowSize r1 then
                (case ack count (r_sink r1) of
                   (Some e, sink) \<Rightarrow> (r1\<lparr>r_sink := sink\<rparr>, Inl e)
                 | (None, sink) \<Rightarrow>
                     (r1\<lparr>r_sink := sink, r_lastAckCount := r_lastAckCount r1 + r_ackWindowSize r1\<rparr>, Inr c))
              else (r1, Inr c)
            else (r1, Inr c))"

text \<open>
  \<open>readMessage\<close>, one definition per chunk type. Each returns the chunk stream, the reader and the
  outcome; \<open>MoreChunksNeeded\<close> says that the message is not complete yet. The chunk stream ID of the
  message is filled in by \<open>Read\<close>.
\<close>

type_synonym 'w message_step = "reader_chunk_stream \<times> 'w raw_reader \<times> raw_message result"

definition readMessage0 :: "'w ack \<Rightarrow> reader_chunk_stream \<Rightarrow> 'w raw_reader \<Rightarrow> 'w message_step" where
  "readMessage0 ack rc r =
     (if curBodyRecv rc \<noteq> 0
      then (rc, r, Inl (Errorf ''received type 0 chunk but expected type 3 chunk'' []))
      else case readChunk ack (chunk0_read (r_chunkSize r) False) r of
        (r', Inl e) \<Rightarrow> (rc, r', Inl e)
      | (r', Inr c) \<Rightarrow>
          let rc' = rc\<lparr>curMessageStreamID := c0_MessageStreamID c,
                       curType := c0_Type c,
                       curTimestamp := c0_Timestamp c,
                       curTimestampAvailable := True,
                       curTimestampDeltaAvailable := False,
                       curBodyLen := c0_BodyLen c,
                       rc_hasExtendedTimestamp := c0_Timestamp c \<ge> 0xFFFFFF\<rparr>
          in if curBodyLen rc' > maxBodySize
             then (rc', r', Inl (Errorf ''body size (%d) exceeds maximum (%d)'' [uint (curBodyLen rc'), uint maxBodySize]))
             else let le = word_of_nat (length (c0_Body c)) in
               if c0_BodyLen c \<noteq> le
               then (rc'\<lparr>curBodyFragments := curBodyFragments rc' @ [c0_Body c], curBodyRecv := le\<rparr>, r',
                     Inl MoreChunksNeeded)
               else (rc', r',
                     Inr \<lparr>m_ChunkStreamID = 0,
                          m_Timestamp = uint (c0_Timestamp c) * millisecond,
                          m_Type = c0_Type c,
                          m_MessageStreamID = c0_MessageStreamID c,
                          m_Body = c0_Body c\<rparr>))"

definition readMessage1 :: "'w ack \<Rightarrow> reader_chunk_stream \<Rightarrow> 'w raw_reader \<Rightarrow> 'w message_step" where
  "readMessage1 ack rc r =
     (if \<not> curTimestampAvailable rc
      then (rc, r, Inl (Errorf ''received type 1 chunk without previous chunk'' []))
      else if curBodyRecv rc \<noteq> 0
      then (rc, r, Inl (Errorf ''received type 1 chunk but expected type 3 chunk'' []))
      else case readChunk ack (chunk1_read (r_chunkSize r) False) r of
        (r', Inl e) \<Rightarrow> (rc, r', Inl e)
      | (r', Inr c) \<Rightarrow>
          let rc' = rc\<lparr>curType := c1_Type c,
                       curTimestamp := curTimestamp rc + c1_TimestampDelta c,
                       curTimestampDelta := c1_TimestampDelta c,
                       curTimestampDeltaAvailable := True,
                       curBodyLen := c1_BodyLen c,
                       rc_hasExtendedTimestamp := c1_TimestampDelta c \<ge> 0xFFFFFF\<rparr>
          in if curBodyLen rc' > maxBodySize
             then (rc', r', Inl (Errorf ''body size (%d) exceeds maximum (%d)'' [uint (curBodyLen rc'), uint maxBodySize]))
             else let le = word_of_nat (length (c1_Body c)) in
               if c1_BodyLen c \<noteq> le
               then (rc'\<lparr>curBodyFragments := curBodyFragments rc' @ [c1_Body c], curBodyRecv := le\<rparr>, r',
                     Inl MoreChunksNeeded)
               else (rc', r',
                     Inr \<lparr>m_ChunkStreamID = 0,
                          m_Timestamp = uint (curTimestamp rc') * millisecond,
                          m_Type = c1_Type c,
                          m_MessageStreamID = curMessageStreamID rc',
                          m_Body = c1_Body c\<rparr>))"

definition readMessage2 :: "'w ack \<Rightarrow> reader_chunk_stream \<Rightarrow> 'w raw_reader \<Rightarrow> 'w message_step" where
  "readMessage2 ack rc r =
     (if \<not> curTimestampAvailable rc
      then (rc, r, Inl (Errorf ''received type 2 chunk without previous chunk'' []))
      else if curBodyRecv rc \<noteq> 0
      then (rc, r, Inl (Errorf ''received type 2 chunk but expected type 3 chunk'' []))
      else
        let chunkBodyLen = (if curBodyLen rc > r_chunkSize r then r_chunkSize r else curBodyLen rc) in
        case readChunk ack (chunk2_read chunkBodyLen False) r of
          (r', Inl e) \<Rightarrow> (rc, r', Inl e)
        | (r', Inr c) \<Rightarrow>
            let rc' = rc\<lparr>curTimestamp := curTimestamp rc + c2_TimestampDelta c,
                         curTimestampDelta := c2_TimestampDelta c,
                         curTimestampDeltaAvailable := True,
                         rc_hasExtendedTimestamp := c2_TimestampDelta c \<ge> 0xFFFFFF\<rparr>;
                le = word_of_nat (length (c2_Body c))
            in if curBodyLen rc' \<noteq> le
               then (rc'\<lparr>curBodyFragments := curBodyFragments rc' @ [c2_Body c], curBodyRecv := le\<rparr>, r',
                     Inl MoreChunksNeeded)
               else (rc', r',
                     Inr \<lparr>m_ChunkStreamID = 0,
                          m_Timestamp = uint (curTimestamp rc') * millisecond,
                          m_Type = curType rc',
                          m_MessageStreamID = curMessageStreamID rc',
                          m_Body = c2_Body c\<rparr>))"

text \<open>A type 3 chunk continues a message, or starts one like the message before it.\<close>

definition readMessage3_continue :: "'w ack \<Rightarrow> reader_chunk_stream \<Rightarrow> 'w raw_reader \<Rightarrow> 'w message_step" where
  "readMessage3_continue ack rc r =
     (let left = curBodyLen rc - curBodyRecv rc;
          chunkBodyLen = (if left > r_chunkSize r then r_chunkSize r else left)
      in case readChunk ack (chunk3_read chunkBodyLen (rc_hasExtendedTimestamp rc)) r of
           (r', Inl e) \<Rightarrow> (rc, r', Inl e)
         | (r', Inr c) \<Rightarrow>
             let rc' = rc\<lparr>curBodyFragments := curBodyFragments rc @ [c3_Body c],
                          curBodyRecv := curBodyRecv rc + word_of_nat (length (c3_Body c))\<rparr>
             in if curBodyLen rc' \<noteq> curBodyRecv rc'
                then (rc', r', Inl MoreChunksNeeded)
                else (rc'\<lparr>curBodyFragments := [], curBodyRecv := 0\<rparr>, r',
                      Inr \<lparr>m_ChunkStreamID = 0,
                           m_Timestamp = uint (curTimestamp rc') * millisecond,
                           m_Type = curType rc',
                           m_MessageStreamID = curMessageStreamID rc',
                           m_Body = joinFragments (curBodyFragments rc') (curBodyRecv rc')\<rparr>))"

definition readMessage3_start :: "'w ack \<Rightarrow> reader_chunk_stream \<Rightarrow> 'w raw_reader \<Rightarrow> 'w message_step" where
  "readMessage3_start ack rc r =
     (if \<not> curTimestampDeltaAvailable rc
      then (rc, r, Inl (Errorf ''received type 3 chunk without previous chunk'' []))
      else
        let chunkBodyLen = (if curBodyLen rc > r_chunkSize r then r_chunkSize r else curBodyLen rc) in
        case readChunk ack (chunk3_read chunkBodyLen (rc_hasExtendedTimestamp rc)) r of
          (r', Inl e) \<Rightarrow> (rc, r', Inl e)
        | (r', Inr c) \<Rightarrow>
            let rc' = rc\<lparr>curTimestamp := curTimestamp rc + curTimestampDelta rc\<rparr>;
                le = word_of_nat (length (c3_Body c))
            in if curBodyLen rc' \<noteq> le
               then (rc'\<lparr>curBodyFragments := curBodyFragments rc' @ [c3_Body c], curBodyRecv := le\<rparr>, r',
                     Inl MoreChunksNeeded)
               else (rc', r',
                     Inr \<lparr>m_ChunkStreamID = 0,
                          m_Timestamp = uint (curTimestamp rc') * millisecond,
                          m_Type = curType rc',
                          m_MessageStreamID = curMessageStreamID rc',
                          m_Body = c3_Body c\<rparr>))"

definition readMessage :: "'w ack \<Rightarrow> byte \<Rightarrow> reader_chunk_stream \<Rightarrow> 'w raw_reader \<Rightarrow> 'w message_step" where
  "readMessage ack fmt rc r =
     (if fmt = 0 then readMessage0 ack rc r
      else if fmt = 1 then readMessage1 ack rc r
      else if fmt = 2 then readMessage2 ack rc r
      else if curBodyRecv rc \<noteq> 0 then readMessage3_continue ack rc r
      else readMessage3_start ack rc r)"

text \<open>
  One turn of the loop of \<open>Read\<close>: peek at the first byte of a chunk, find or create its chunk stream
  and read the chunk.
\<close>

definition readStep :: "'w ack \<Rightarrow> 'w raw_reader \<Rightarrow> 'w raw_reader \<times> raw_message result" where
  "readStep ack r =
     (case r_br r of
        [] \<Rightarrow> (r, Inl EOF)
      | byt # _ \<Rightarrow>
          let fmt = drop_bit 6 byt; chunkStreamID = byt AND 0x3F in
          if chunkStreamID < 2
          then (r, Inl (Errorf ''extended chunk stream IDs are not supported (yet)'' []))
          else
            let rc = (case r_chunkStreams r chunkStreamID of
                        None \<Rightarrow> new_reader_chunk_stream | Some rc \<Rightarrow> rc)
            in case readMessage ack fmt rc r of
                 (rc', r', res) \<Rightarrow>
                   (r'\<lparr>r_chunkStreams := (r_chunkStreams r')(chunkStreamID \<mapsto> rc')\<rparr>,
                    map_sum id (\<lambda>msg. msg\<lparr>m_ChunkStreamID := chunkStreamID\<rparr>) res))"

text \<open>
  What \<open>readChunk\<close> does to the reader when the chunk was read: it consumes the bytes of the chunk and
  may acknowledge; the settings and the chunk streams stay.
\<close>

definition advanced :: "'w raw_reader \<Rightarrow> bytes \<Rightarrow> 'w raw_reader \<Rightarrow> bool" where
  "advanced r br' r' \<longleftrightarrow>
     r_br r' = br' \<and> r_consumed r' = r_consumed r + (length (r_br r) - length br') \<and>
     r_count r' = r_count r \<and> r_chunkSize r' = r_chunkSize r \<and> r_ackWindowSize r' = r_ackWindowSize r \<and>
     r_chunkStreams r' = r_chunkStreams r"

lemma readChunk_advanced:
  assumes "readChunk ack read r = (r', res)" "read (r_br r) = (x, br')"
  shows "advanced r br' r'" "\<And>c. res = Inr c \<Longrightarrow> x = Inr c" "\<And>e. x = Inl e \<Longrightarrow> res = Inl e"
  using assms
  by (auto simp: readChunk_def advanced_def Let_def split: sum.splits if_splits prod.splits option.splits)

context chunk_codec
begin

lemma readChunk_Inr:
  assumes "readChunk ack (read n ext) r = (r', Inr c)"
  shows "\<exists>rest. read n ext (r_br r) = (Inr c, rest) \<and> advanced r rest r'"
  using readChunk_advanced [OF assms] by (metis surj_pair)

lemma readChunk_done:
  assumes "readChunk ack (read n ext) r = (r', Inr c)"
  shows "fits n c" "r_chunkSize r' = r_chunkSize r" "r_chunkStreams r' = r_chunkStreams r"
  using readChunk_Inr [OF assms] read_fits by (auto simp: advanced_def)

lemma readChunk_frame:
  assumes "readChunk ack (read n ext) r = (r', res)"
  shows "r_chunkSize r' = r_chunkSize r \<and> r_chunkStreams r' = r_chunkStreams r \<and>
    r_ackWindowSize r' = r_ackWindowSize r \<and> r_count r' = r_count r"
  using readChunk_advanced(1) [OF assms prod.collapse [symmetric]] by (auto simp: advanced_def)

lemma readChunk_shorter:
  assumes "readChunk ack (read n ext) r = (r', res)" "\<And>e. res = Inl e \<Longrightarrow> e = MoreChunksNeeded"
  shows "length (r_br r') < length (r_br r)"
proof -
  obtain x br' where x: "read n ext (r_br r) = (x, br')" by fastforce
  note adv = readChunk_advanced [OF assms(1) x]
  have "\<exists>c. x = Inr c"
    using adv(3) assms(2) x read_error by (cases x) fastforce+
  with x adv(1) read_Inr_shorter show ?thesis by (auto simp: advanced_def)
qed

end

lemmas readMessage_defs = readMessage0_def readMessage1_def readMessage2_def readMessage3_continue_def
  readMessage3_start_def

lemma readMessage_shorter:
  assumes "readMessage ack fmt rc r = (rc', r', Inl MoreChunksNeeded)"
  shows "length (r_br r') < length (r_br r)"
  using assms
  by (auto simp: readMessage_def readMessage_defs Let_def
      split: if_splits prod.splits sum.splits
      dest!: c0.readChunk_shorter c1.readChunk_shorter c2.readChunk_shorter c3.readChunk_shorter)

lemma readStep_shorter:
  assumes "readStep ack r = (r', Inl MoreChunksNeeded)"
  shows "length (r_br r') < length (r_br r)"
  using assms
  by (auto simp: readStep_def Let_def split: list.splits if_splits prod.splits sum.splits dest!: readMessage_shorter)

text \<open>\<open>Read\<close>: the loop, until a message is complete or an error occurs.\<close>

function Read :: "'w ack \<Rightarrow> 'w raw_reader \<Rightarrow> 'w raw_reader \<times> raw_message result" where
  "Read ack r =
     (case readStep ack r of
        (r', Inl e) \<Rightarrow> if e = MoreChunksNeeded then Read ack r' else (r', Inl e)
      | (r', Inr msg) \<Rightarrow> (r', Inr msg))"
  by pat_completeness auto
termination
  by (relation "measure (\<lambda>(ack, r). length (r_br r))") (auto dest!: readStep_shorter [OF sym])

declare Read.simps [simp del]

section \<open>Invariant\<close>

text \<open>
  Between two chunks, a chunk stream holds exactly the bytes that it counts, a message is pending only
  if its bytes are still fewer than its announced length, and that length is within the maximum.
\<close>

definition stream_ok :: "reader_chunk_stream \<Rightarrow> bool" where
  "stream_ok rc \<longleftrightarrow>
     length (concat (curBodyFragments rc)) = unat (curBodyRecv rc) \<and>
     (curBodyRecv rc \<noteq> 0 \<longrightarrow> curBodyRecv rc < curBodyLen rc) \<and>
     curBodyLen rc \<le> maxBodySize \<and>
     (curTimestampDeltaAvailable rc \<longrightarrow> curTimestampAvailable rc)"

definition reader_ok :: "'w raw_reader \<Rightarrow> bool" where
  "reader_ok r \<longleftrightarrow>
     r_chunkSize r \<le> maxBodySize \<and>
     (\<forall>i rc. r_chunkStreams r i = Some rc \<longrightarrow> 2 \<le> i \<and> i < 64 \<and> stream_ok rc)"

lemma joinFragments_concat:
  "length (concat fragments) = unat sz \<Longrightarrow> joinFragments fragments sz = concat fragments"
  by (simp add: joinFragments_def Let_def)

lemma stream_ok_new [simp]: "stream_ok new_reader_chunk_stream"
  by (simp add: stream_ok_def new_reader_chunk_stream_def)

text \<open>A step that does not fail: the message is complete, or more chunks are needed.\<close>

definition step_ok :: "reader_chunk_stream \<Rightarrow> raw_message result \<Rightarrow> bool" where
  "step_ok rc res \<longleftrightarrow>
     stream_ok rc \<and>
     (\<forall>msg. res = Inr msg \<longrightarrow> curBodyRecv rc = 0 \<and> length (m_Body msg) = unat (curBodyLen rc))"

lemma readMessage0_ok:
  assumes "readMessage0 ack rc r = (rc', r', res)" "stream_ok rc"
    "\<And>e. res = Inl e \<Longrightarrow> e = MoreChunksNeeded"
  shows "step_ok rc' res"
  using assms
  by (auto simp: readMessage0_def Let_def step_ok_def stream_ok_def chunk0_fits_def min_def
      split: if_splits prod.splits sum.splits dest!: c0.readChunk_done(1))

lemma readMessage1_ok:
  assumes "readMessage1 ack rc r = (rc', r', res)" "stream_ok rc"
    "\<And>e. res = Inl e \<Longrightarrow> e = MoreChunksNeeded"
  shows "step_ok rc' res"
  using assms
  by (auto simp: readMessage1_def Let_def step_ok_def stream_ok_def chunk1_fits_def min_def
      split: if_splits prod.splits sum.splits dest!: c1.readChunk_done(1))

lemma readMessage2_ok:
  assumes "readMessage2 ack rc r = (rc', r', res)" "stream_ok rc"
    "\<And>e. res = Inl e \<Longrightarrow> e = MoreChunksNeeded"
  shows "step_ok rc' res"
  using assms
  by (auto simp: readMessage2_def Let_def step_ok_def stream_ok_def chunk2_fits_def min_def
      split: if_splits prod.splits sum.splits dest!: c2.readChunk_done(1))

lemma readMessage3_start_ok:
  assumes "readMessage3_start ack rc r = (rc', r', res)" "stream_ok rc" "curBodyRecv rc = 0"
    "\<And>e. res = Inl e \<Longrightarrow> e = MoreChunksNeeded"
  shows "step_ok rc' res"
  using assms
  by (auto simp: readMessage3_start_def Let_def step_ok_def stream_ok_def chunk3_fits_def min_def
      split: if_splits prod.splits sum.splits dest!: c3.readChunk_done(1))

lemma unat_add_left:
  assumes "n \<le> m - k" "k \<le> (m :: u32)"
  shows "k + n \<le> m" "unat (k + n) = unat k + unat n"
proof -
  have "unat k + unat n \<le> unat m"
    using assms by (simp add: word_le_nat_alt unat_sub)
  moreover from this have "unat k + unat n < 4294967296"
    using unat_u32_less [of m] by linarith
  ultimately show "k + n \<le> m" "unat (k + n) = unat k + unat n"
    by (simp_all add: word_le_nat_alt unat_word_ariths)
qed

lemma readMessage3_continue_ok:
  assumes "readMessage3_continue ack rc r = (rc', r', res)" "stream_ok rc" "curBodyRecv rc \<noteq> 0"
    "\<And>e. res = Inl e \<Longrightarrow> e = MoreChunksNeeded"
  shows "step_ok rc' res"
proof -
  let ?left = "curBodyLen rc - curBodyRecv rc"
  let ?n = "if ?left > r_chunkSize r then r_chunkSize r else ?left"
  show ?thesis
  proof (cases "readChunk ack (chunk3_read ?n (rc_hasExtendedTimestamp rc)) r")
    case (Pair r1 x)
    show ?thesis
    proof (cases x)
      case (Inl e)
      with Pair assms show ?thesis by (auto simp: readMessage3_continue_def Let_def step_ok_def)
    next
      case (Inr c)
      have "length (c3_Body c) = unat ?n"
        using c3.readChunk_done(1) [OF Pair [unfolded Inr]] by (simp only: chunk3_fits_def)
      moreover have "?n \<le> ?left" by (simp add: order.strict_implies_order)
      moreover have "curBodyRecv rc < curBodyLen rc" using assms by (simp add: stream_ok_def)
      ultimately have len: "curBodyRecv rc + word_of_nat (length (c3_Body c)) \<le> curBodyLen rc"
        "unat (curBodyRecv rc + word_of_nat (length (c3_Body c))) = unat (curBodyRecv rc) + length (c3_Body c)"
        using unat_add_left [of ?n "curBodyLen rc" "curBodyRecv rc"] by auto
      have frags: "length (concat (curBodyFragments rc @ [c3_Body c])) =
          unat (curBodyRecv rc + word_of_nat (length (c3_Body c)))"
        using assms(2) by (simp add: len(2) stream_ok_def)
      show ?thesis
        using assms(1,2) len frags unfolding readMessage3_continue_def Let_def Pair Inr
        by (auto simp: step_ok_def stream_ok_def joinFragments_concat order.order_iff_strict split: if_splits)
    qed
  qed
qed

lemma readMessage_ok:
  assumes "readMessage ack fmt rc r = (rc', r', res)" "stream_ok rc"
    "\<And>e. res = Inl e \<Longrightarrow> e = MoreChunksNeeded"
  shows "step_ok rc' res"
  using assms readMessage0_ok readMessage1_ok readMessage2_ok readMessage3_start_ok readMessage3_continue_ok
  by (metis readMessage_def)

lemma readMessage_frame:
  assumes "readMessage ack fmt rc r = (rc', r', res)"
  shows "r_chunkSize r' = r_chunkSize r \<and> r_chunkStreams r' = r_chunkStreams r \<and>
    r_ackWindowSize r' = r_ackWindowSize r \<and> r_count r' = r_count r"
  using assms
  by (auto simp: readMessage_def readMessage_defs Let_def split: if_splits prod.splits sum.splits
      dest!: c0.readChunk_frame c1.readChunk_frame c2.readChunk_frame c3.readChunk_frame)

lemma readStep_ok:
  assumes "readStep ack r = (r', res)" "reader_ok r" "\<And>e. res = Inl e \<Longrightarrow> e = MoreChunksNeeded"
  shows "reader_ok r' \<and> r_chunkSize r' = r_chunkSize r \<and>
    (\<forall>msg. res = Inr msg \<longrightarrow> length (m_Body msg) \<le> unat maxBodySize \<and> 2 \<le> m_ChunkStreamID msg \<and> m_ChunkStreamID msg < 64)"
proof (cases "r_br r")
  case Nil
  with assms show ?thesis by (auto simp: readStep_def)
next
  case (Cons b bs)
  let ?i = "b AND 0x3F" and ?fmt = "drop_bit 6 b"
  let ?rc = "case r_chunkStreams r ?i of None \<Rightarrow> new_reader_chunk_stream | Some rc \<Rightarrow> rc"
  have i: "\<not> ?i < 2" using assms Cons by (auto simp: readStep_def Let_def split: if_splits)
  obtain rc' r1 x where m: "readMessage ack ?fmt ?rc r = (rc', r1, x)" by (metis prod_cases3)
  have res: "res = map_sum id (\<lambda>msg. msg\<lparr>m_ChunkStreamID := ?i\<rparr>) x"
    and r': "r' = r1\<lparr>r_chunkStreams := (r_chunkStreams r1)(?i \<mapsto> rc')\<rparr>"
    using assms(1) i m Cons by (auto simp: readStep_def Let_def)
  have "stream_ok ?rc" using assms(2) by (auto simp: reader_ok_def split: option.splits)
  with m have "step_ok rc' x" by (rule readMessage_ok) (use res assms(3) in auto)
  with readMessage_frame [OF m] assms(2) i mask_6_less [of b] res r' show ?thesis
    by (auto simp: reader_ok_def step_ok_def stream_ok_def word_le_nat_alt not_less)
qed

lemma Read_ok:
  "Read ack r = (r', Inr msg) \<Longrightarrow> reader_ok r \<Longrightarrow>
    reader_ok r' \<and> r_chunkSize r' = r_chunkSize r \<and> length (m_Body msg) \<le> unat maxBodySize \<and>
    2 \<le> m_ChunkStreamID msg \<and> m_ChunkStreamID msg < 64"
proof (induction ack r arbitrary: r' msg rule: Read.induct)
  case (1 ack r)
  show ?case
  proof (cases "readStep ack r")
    case (Pair r1 res)
    show ?thesis
    proof (cases res)
      case (Inl e)
      with Pair "1.prems"(1) have "e = MoreChunksNeeded" "Read ack r1 = (r', Inr msg)"
        by (simp_all add: Read.simps [of ack r] split: if_splits)
      with Pair Inl "1.IH" [OF Pair [symmetric]] "1.prems"(2) readStep_ok [OF Pair] show ?thesis by auto
    next
      case (Inr m)
      with Pair "1.prems" readStep_ok [OF Pair] show ?thesis
        by (auto simp: Read.simps [of ack r])
    qed
  qed
qed

section \<open>Reachable readers\<close>

text \<open>
  The states of a reader that has not failed: \<open>NewReader\<close>, successful reads, changes of the settings,
  and whatever else happens to the state that the callback acts on.
\<close>

inductive raw_reachable :: "'w ack \<Rightarrow> 'w raw_reader \<Rightarrow> bool" for ack where
  new: "raw_reachable ack (raw_NewReader br count sink)"
| read: "raw_reachable ack r \<Longrightarrow> Read ack r = (r', Inr msg) \<Longrightarrow> raw_reachable ack r'"
| chunk_size: "raw_reachable ack r \<Longrightarrow> Reader_SetChunkSize v r = (r', res) \<Longrightarrow> raw_reachable ack r'"
| window: "raw_reachable ack r \<Longrightarrow> raw_reachable ack (Reader_SetWindowAckSize v r)"
| sink: "raw_reachable ack r \<Longrightarrow> raw_reachable ack (r\<lparr>r_sink := sink\<rparr>)"

lemma raw_reachable_ok: "raw_reachable ack r \<Longrightarrow> reader_ok r"
proof (induction rule: raw_reachable.induct)
  case (read r r' msg)
  then show ?case using Read_ok by blast
next
  case (chunk_size r v r' res)
  then show ?case by (auto simp: Reader_SetChunkSize_def reader_ok_def not_less split: if_splits)
qed (simp_all add: reader_ok_def raw_NewReader_def Reader_SetWindowAckSize_def maxBodySize_def)

lemma reader_ok_buffered:
  "reader_ok r \<Longrightarrow> r_chunkStreams r i = Some rc \<Longrightarrow> length (concat (curBodyFragments rc)) < 10 * 1024 * 1024"
  by (cases "curBodyRecv rc = 0") (fastforce simp: reader_ok_def stream_ok_def maxBodySize_def word_less_nat_alt word_le_nat_alt)+

text \<open>
  Whatever bytes arrive, in every state that a reader reaches without an error: a message that it
  returns is at most 10 MiB long and has a chunk stream ID from 2 to 63, and no chunk stream ever
  buffers 10 MiB of an incomplete message.
\<close>

theorem raw_reader_bounds:
  assumes "raw_reachable ack r" "Read ack r = (r', Inr msg)"
  shows "length (m_Body msg) \<le> 10 * 1024 * 1024 \<and> 2 \<le> m_ChunkStreamID msg \<and> m_ChunkStreamID msg < 64 \<and>
    (\<forall>i rc. r_chunkStreams r' i = Some rc \<longrightarrow> length (concat (curBodyFragments rc)) < 10 * 1024 * 1024)"
  using Read_ok [OF assms(2) raw_reachable_ok [OF assms(1)]] reader_ok_buffered [of r']
  by (auto simp: maxBodySize_def)

definition sample_chunk :: bytes where
  "sample_chunk = [4, 0, 0, 7, 0, 0, 2, 8, 0, 0, 0, 0, 0xAA, 0xBB]"

lemma sample_chunk_read:
  "snd (Read (\<lambda>_ s. (None, s)) (raw_NewReader sample_chunk (\<lambda>_. 0) ())) =
    Inr \<lparr>m_ChunkStreamID = 4, m_Timestamp = 7 * millisecond, m_Type = 8, m_MessageStreamID = 0,
         m_Body = [0xAA, 0xBB]\<rparr>"
  by code_simp

lemma raw_reader_bounds_witness:
  "\<exists>r' msg. Read (\<lambda>_ s. (None, s)) (raw_NewReader sample_chunk (\<lambda>_. 0) ()) = (r', Inr msg) \<and>
    m_Body msg = [0xAA, 0xBB] \<and> length (m_Body msg) \<le> 10 * 1024 * 1024"
  using sample_chunk_read raw_reader_bounds [OF raw_reachable.new] by (metis prod.collapse raw_message.select_convs(5))

end
