(* ===== verification/RawWriter.thy ===== *)
theory RawWriter
  imports RawReader
begin

text \<open>
  The writer of package rawmessage (src/mediamtx/internal/protocols/rtmp/rawmessage/writer.go): it
  splits messages into chunks, and chooses for the first chunk the shortest type that the previous
  message of the chunk stream allows.

  \<open>w_out\<close> holds the bytes that \<open>bw\<close> has accepted, in order. The connection may fail: \<open>w_fail n\<close> is the
  error that the \<open>n\<close>-th call on \<open>bw\<close> returns, if any. \<open>w_count n\<close> is what the byte counter reports when
  \<open>bw\<close> has accepted \<open>n\<close> bytes; both may be any function. Pointers that may be nil are options.
\<close>

section \<open>State\<close>

record writer_chunk_stream =
  lastMessageStreamID :: "u32 option"
  lastType :: "u8 option"
  lastBodyLen :: "u32 option"
  lastTimestamp :: "int option"
  lastTimestampDelta :: "int option"
  wc_hasExtendedTimestamp :: bool

record raw_writer =
  w_out :: bytes
  w_calls :: nat
  w_fail :: "nat \<Rightarrow> go_error option"
  w_count :: "nat \<Rightarrow> u64"
  w_checkAcknowledge :: bool
  w_chunkSize :: u32
  w_ackWindowSize :: u32
  w_ackValue :: u32
  w_chunkStreams :: "byte \<Rightarrow> writer_chunk_stream option"

definition new_writer_chunk_stream :: writer_chunk_stream where
  "new_writer_chunk_stream =
     \<lparr>lastMessageStreamID = None, lastType = None, lastBodyLen = None, lastTimestamp = None,
      lastTimestampDelta = None, wc_hasExtendedTimestamp = False\<rparr>"

definition raw_NewWriter :: "(nat \<Rightarrow> go_error option) \<Rightarrow> (nat \<Rightarrow> u64) \<Rightarrow> bool \<Rightarrow> raw_writer" where
  "raw_NewWriter fail count checkAcknowledge =
     \<lparr>w_out = [], w_calls = 0, w_fail = fail, w_count = count, w_checkAcknowledge = checkAcknowledge,
      w_chunkSize = 128, w_ackWindowSize = 0, w_ackValue = 0, w_chunkStreams = Map.empty\<rparr>"

definition Writer_SetChunkSize :: "u32 \<Rightarrow> raw_writer \<Rightarrow> raw_writer" where
  "Writer_SetChunkSize v w = w\<lparr>w_chunkSize := v\<rparr>"

definition Writer_SetWindowAckSize :: "u32 \<Rightarrow> raw_writer \<Rightarrow> raw_writer" where
  "Writer_SetWindowAckSize v w = w\<lparr>w_ackWindowSize := v\<rparr>"

definition Writer_SetAcknowledgeValue :: "u32 \<Rightarrow> raw_writer \<Rightarrow> raw_writer" where
  "Writer_SetAcknowledgeValue v w = w\<lparr>w_ackValue := v\<rparr>"

section \<open>Writing chunks\<close>

definition bw_Write :: "bytes \<Rightarrow> raw_writer \<Rightarrow> raw_writer \<times> go_error option" where
  "bw_Write buf w =
     (let w' = w\<lparr>w_calls := Suc (w_calls w)\<rparr> in
      case w_fail w (w_calls w) of
        Some e \<Rightarrow> (w', Some e)
      | None \<Rightarrow> (w'\<lparr>w_out := w_out w @ buf\<rparr>, None))"

definition bw_Flush :: "raw_writer \<Rightarrow> raw_writer \<times> go_error option" where
  "bw_Flush w = (w\<lparr>w_calls := Suc (w_calls w)\<rparr>, w_fail w (w_calls w))"

definition writeChunk :: "bytes \<Rightarrow> raw_writer \<Rightarrow> raw_writer \<times> go_error option" where
  "writeChunk buf w =
     (if w_checkAcknowledge w \<and> w_ackWindowSize w \<noteq> 0 \<and>
         ucast (w_count w (length (w_out w))) - w_ackValue w > w_ackWindowSize w * 3 div 2
      then (w, Some (Errorf ''no acknowledge received within window'' []))
      else bw_Write buf w)"

text \<open>The timestamp of a message in milliseconds, and its distance to the previous one, if positive.\<close>

definition msg_timestamp :: "raw_message \<Rightarrow> int" where
  "msg_timestamp msg = go_div (m_Timestamp msg) millisecond"

definition timestamp_delta :: "writer_chunk_stream \<Rightarrow> int \<Rightarrow> int option" where
  "timestamp_delta wc timestamp =
     (case lastTimestamp wc of
        None \<Rightarrow> None
      | Some prev \<Rightarrow> if timestamp - prev \<ge> 0 then Some (timestamp - prev) else None)"

text \<open>
  The first chunk of a message, with body \<open>body\<close>: its bytes, and whether it has an extended timestamp.
  What the source dereferences is non-nil whenever it does: \<open>lastType\<close> and \<open>lastBodyLen\<close> are set
  together with \<open>lastMessageStreamID\<close>. The result \<open>None\<close> stands for a nil dereference.
\<close>

definition firstChunk ::
  "raw_message \<Rightarrow> u32 \<Rightarrow> bytes \<Rightarrow> writer_chunk_stream \<Rightarrow> (bytes \<times> bool) option" where
  "firstChunk msg bodyLen body wc =
     (let timestamp = msg_timestamp msg;
          full = Some (chunk0_marshal False
                         \<lparr>c0_ChunkStreamID = m_ChunkStreamID msg, c0_Timestamp = of_int timestamp,
                          c0_BodyLen = bodyLen, c0_Type = m_Type msg,
                          c0_MessageStreamID = m_MessageStreamID msg, c0_Body = body\<rparr>,
                       (of_int timestamp :: u32) \<ge> 0xFFFFFF)
      in case (lastMessageStreamID wc, timestamp_delta wc timestamp) of
           (Some lastID, Some d) \<Rightarrow>
             if lastID \<noteq> m_MessageStreamID msg then full
             else (case (lastType wc, lastBodyLen wc) of
               (Some lastTyp, Some lastLen) \<Rightarrow>
                 if lastTyp \<noteq> m_Type msg \<or> lastLen \<noteq> bodyLen then
                   Some (chunk1_marshal False
                           \<lparr>c1_ChunkStreamID = m_ChunkStreamID msg, c1_TimestampDelta = of_int d,
                            c1_BodyLen = bodyLen, c1_Type = m_Type msg, c1_Body = body\<rparr>,
                         (of_int d :: u32) \<ge> 0xFFFFFF)
                 else if lastTimestampDelta wc \<noteq> Some d then
                   Some (chunk2_marshal False
                           \<lparr>c2_ChunkStreamID = m_ChunkStreamID msg, c2_TimestampDelta = of_int d, c2_Body = body\<rparr>,
                         (of_int d :: u32) \<ge> 0xFFFFFF)
                 else
                   Some (chunk3_marshal (wc_hasExtendedTimestamp wc)
                           \<lparr>c3_ChunkStreamID = m_ChunkStreamID msg, c3_Body = body\<rparr>,
                         wc_hasExtendedTimestamp wc)
             | _ \<Rightarrow> None)
         | _ \<Rightarrow> full)"

definition put_first ::
  "raw_message \<Rightarrow> u32 \<Rightarrow> bytes \<Rightarrow> writer_chunk_stream \<Rightarrow> raw_writer \<Rightarrow> writer_chunk_stream \<times> raw_writer \<times> go_error option" where
  "put_first msg bodyLen body wc w =
     (case firstChunk msg bodyLen body wc of
        None \<Rightarrow> (wc, w, Some Panic)
      | Some (buf, ext) \<Rightarrow>
          (case writeChunk buf w of
             (w', Some e) \<Rightarrow> (wc, w', Some e)
           | (w', None) \<Rightarrow> (wc\<lparr>wc_hasExtendedTimestamp := ext\<rparr>, w', None)))"

definition remember :: "raw_message \<Rightarrow> u32 \<Rightarrow> writer_chunk_stream \<Rightarrow> writer_chunk_stream" where
  "remember msg bodyLen wc =
     (let timestamp = msg_timestamp msg in
      wc\<lparr>lastMessageStreamID := Some (m_MessageStreamID msg),
         lastType := Some (m_Type msg),
         lastBodyLen := Some bodyLen,
         lastTimestamp := Some timestamp,
         lastTimestampDelta :=
           (case timestamp_delta wc timestamp of Some d \<Rightarrow> Some d | None \<Rightarrow> lastTimestampDelta wc)\<rparr>)"

text \<open>
  The chunks after the first one. With a chunk size of zero the loop of the source makes no progress,
  so it is a partial function.
\<close>

definition chunk_len :: "u32 \<Rightarrow> u32 \<Rightarrow> raw_writer \<Rightarrow> u32" where
  "chunk_len bodyLen pos w =
     (if bodyLen - pos > w_chunkSize w then w_chunkSize w else bodyLen - pos)"

partial_function (option) writeRest ::
  "raw_message \<Rightarrow> u32 \<Rightarrow> u32 \<Rightarrow> bool \<Rightarrow> raw_writer \<Rightarrow> (raw_writer \<times> go_error option) option" where
  "writeRest msg bodyLen pos ext w =
     (let n = chunk_len bodyLen pos w in
      case writeChunk (chunk3_marshal ext \<lparr>c3_ChunkStreamID = m_ChunkStreamID msg,
                                           c3_Body = take (unat n) (drop (unat pos) (m_Body msg))\<rparr>) w of
        (w', Some e) \<Rightarrow> Some (w', Some e)
      | (w', None) \<Rightarrow>
          if bodyLen - (pos + n) = 0 then Some (bw_Flush w')
          else writeRest msg bodyLen (pos + n) ext w')"

definition writeMessage ::
  "raw_message \<Rightarrow> writer_chunk_stream \<Rightarrow> raw_writer \<Rightarrow> (writer_chunk_stream \<times> raw_writer \<times> go_error option) option" where
  "writeMessage msg wc w =
     (let bodyLen = word_of_nat (length (m_Body msg));
          n = chunk_len bodyLen 0 w
      in case put_first msg bodyLen (take (unat n) (m_Body msg)) wc w of
           (wc1, w1, Some e) \<Rightarrow> Some (wc1, w1, Some e)
         | (wc1, w1, None) \<Rightarrow>
             let wc2 = remember msg bodyLen wc1 in
             if bodyLen - n = 0 then Some (wc2, bw_Flush w1)
             else map_option (\<lambda>r. (wc2, r)) (writeRest msg bodyLen n (wc_hasExtendedTimestamp wc2) w1))"

text \<open>\<open>Write\<close>; a call that does not return is the error \<open>Diverges\<close>.\<close>

definition Write :: "raw_message \<Rightarrow> raw_writer \<Rightarrow> raw_writer \<times> go_error option" where
  "Write msg w =
     (let wc = (case w_chunkStreams w (m_ChunkStreamID msg) of
                  None \<Rightarrow> new_writer_chunk_stream | Some wc \<Rightarrow> wc)
      in case writeMessage msg wc w of
           None \<Rightarrow> (w, Some Diverges)
         | Some (wc', w', e) \<Rightarrow>
             (w'\<lparr>w_chunkStreams := (w_chunkStreams w')(m_ChunkStreamID msg \<mapsto> wc')\<rparr>, e))"

section \<open>What is written\<close>

text \<open>
  A connection that accepts every write, no check of acknowledgements, and a chunk size that lets
  messages through.
\<close>

definition writer_live :: "raw_writer \<Rightarrow> bool" where
  "writer_live w \<longleftrightarrow> (\<forall>k. w_fail w k = None) \<and> \<not> w_checkAcknowledge w \<and> 0 < w_chunkSize w"

lemma writeChunk_live:
  "writer_live w \<Longrightarrow> writeChunk buf w = (w\<lparr>w_calls := Suc (w_calls w), w_out := w_out w @ buf\<rparr>, None)"
  by (simp add: writeChunk_def bw_Write_def writer_live_def)

lemma writer_live_update [simp]:
  "writer_live (w\<lparr>w_calls := k, w_out := buf\<rparr>) = writer_live w"
  "writer_live (w\<lparr>w_calls := k\<rparr>) = writer_live w"
  "writer_live (w\<lparr>w_chunkStreams := s\<rparr>) = writer_live w"
  by (simp_all add: writer_live_def)

text \<open>The bytes of the chunks that carry the rest of a body, \<open>n\<close> bytes at a time.\<close>

function rest_bytes :: "nat \<Rightarrow> bool \<Rightarrow> byte \<Rightarrow> bytes \<Rightarrow> bytes" where
  "rest_bytes n ext i body =
     (if body = [] \<or> n = 0 then []
      else chunk3_marshal ext \<lparr>c3_ChunkStreamID = i, c3_Body = take n body\<rparr> @ rest_bytes n ext i (drop n body))"
  by pat_completeness auto
termination
  by (relation "measure (\<lambda>(n, ext, i, body). length body)") auto

declare rest_bytes.simps [simp del]

lemma rest_bytes_Nil [simp]: "rest_bytes n ext i [] = []"
  by (simp add: rest_bytes.simps)

lemma chunk_len_unat:
  assumes "bodyLen = word_of_nat (length body)" "length body < 4294967296" "unat pos \<le> length body"
  shows "unat (chunk_len bodyLen pos w) = min (unat (w_chunkSize w)) (length (drop (unat pos) body))"
    and "bodyLen - (pos + chunk_len bodyLen pos w) = 0 \<longleftrightarrow>
      length (drop (unat pos) body) \<le> unat (w_chunkSize w)"
    and "unat (pos + chunk_len bodyLen pos w) = unat pos + unat (chunk_len bodyLen pos w)"
proof -
  have b: "unat bodyLen = length body"
    using assms(1,2) by (simp add: unat_word_of_nat_32)
  have p: "pos \<le> bodyLen"
    using assms(3) b by (simp add: word_le_nat_alt)
  have l: "unat (bodyLen - pos) = length body - unat pos"
    using p b by (simp add: unat_sub)
  show n: "unat (chunk_len bodyLen pos w) = min (unat (w_chunkSize w)) (length (drop (unat pos) body))"
    using l by (simp add: chunk_len_def word_less_nat_alt)
  have le: "chunk_len bodyLen pos w \<le> bodyLen - pos"
    by (simp add: chunk_len_def order.strict_implies_order)
  show s: "unat (pos + chunk_len bodyLen pos w) = unat pos + unat (chunk_len bodyLen pos w)"
    using unat_add_left(2) [OF le p] .
  have "bodyLen - (pos + chunk_len bodyLen pos w) = 0 \<longleftrightarrow> unat bodyLen = unat pos + unat (chunk_len bodyLen pos w)"
    by (metis right_minus_eq s word_unat_eq_iff)
  then show "bodyLen - (pos + chunk_len bodyLen pos w) = 0 \<longleftrightarrow>
      length (drop (unat pos) body) \<le> unat (w_chunkSize w)"
    using assms(3) by (simp add: b n) linarith
qed

lemma writeRest_live:
  assumes "writer_live w" "length (m_Body msg) < 4294967296" "unat pos \<le> length (m_Body msg)" "unat pos < length (m_Body msg)"
  shows "\<exists>k. writeRest msg (word_of_nat (length (m_Body msg))) pos ext w =
    Some (w\<lparr>w_calls := k, w_out := w_out w @
      rest_bytes (unat (w_chunkSize w)) ext (m_ChunkStreamID msg) (drop (unat pos) (m_Body msg))\<rparr>, None)"
  using assms
proof (induction "length (m_Body msg) - unat pos" arbitrary: pos w rule: less_induct)
  case less
  let ?body = "m_Body msg" and ?len = "word_of_nat (length (m_Body msg)) :: u32"
  let ?n = "chunk_len ?len pos w" and ?size = "unat (w_chunkSize w)"
  let ?buf = "chunk3_marshal ext \<lparr>c3_ChunkStreamID = m_ChunkStreamID msg, c3_Body = take (unat ?n) (drop (unat pos) ?body)\<rparr>"
  let ?w = "w\<lparr>w_calls := Suc (w_calls w), w_out := w_out w @ ?buf\<rparr>"
  note len = chunk_len_unat [OF refl less.prems(2,3), of w]
  have size: "0 < ?size"
    using less.prems(1) by (simp add: writer_live_def word_less_nat_alt)
  have take: "take (unat ?n) (drop (unat pos) ?body) = take ?size (drop (unat pos) ?body)"
    by (simp add: len(1) min_def)
  have rest: "rest_bytes ?size ext (m_ChunkStreamID msg) (drop (unat pos) ?body) =
    ?buf @ rest_bytes ?size ext (m_ChunkStreamID msg) (drop (unat pos + ?size) ?body)"
    using size less.prems(4) unfolding take
    by (subst rest_bytes.simps) (simp add: add.commute)
  have eq: "writeRest msg ?len pos ext w =
    (if ?len - (pos + ?n) = 0 then Some (bw_Flush ?w) else writeRest msg ?len (pos + ?n) ext ?w)"
    using less.prems(1) by (subst writeRest.simps) (simp add: writeChunk_live Let_def)
  show ?case
  proof (cases "?len - (pos + ?n) = 0")
    case True
    then have "drop (unat pos + ?size) ?body = []" using len(2) by simp
    with True eq rest less.prems(1) show ?thesis
      by (auto simp: bw_Flush_def writer_live_def intro!: exI [of _ "Suc (Suc (w_calls w))"])
  next
    case False
    then have long: "?size < length ?body - unat pos" using len(2) by simp
    then have n: "unat ?n = ?size" "unat (pos + ?n) = unat pos + ?size" using len by (simp_all add: min_def)
    have "length ?body - unat (pos + ?n) < length ?body - unat pos" "unat (pos + ?n) \<le> length ?body"
      "unat (pos + ?n) < length ?body"
      using long size n by simp_all
    then obtain k where "writeRest msg ?len (pos + ?n) ext ?w =
        Some (?w\<lparr>w_calls := k, w_out := w_out ?w @
          rest_bytes (unat (w_chunkSize ?w)) ext (m_ChunkStreamID msg) (drop (unat (pos + ?n)) ?body)\<rparr>, None)"
      using less.hyps [of "pos + ?n" ?w] less.prems(1,2) by auto
    with False eq rest n show ?thesis by auto
  qed
qed

text \<open>
  The chunk stream of a writer: what the next message is compared with is set all together, the
  timestamp delta only with it.
\<close>

definition writer_stream_ok :: "writer_chunk_stream \<Rightarrow> bool" where
  "writer_stream_ok wc \<longleftrightarrow>
     (lastMessageStreamID wc = None \<longleftrightarrow> lastType wc = None) \<and>
     (lastMessageStreamID wc = None \<longleftrightarrow> lastBodyLen wc = None) \<and>
     (lastMessageStreamID wc = None \<longleftrightarrow> lastTimestamp wc = None) \<and>
     (lastMessageStreamID wc = None \<longrightarrow> lastTimestampDelta wc = None)"

lemma firstChunk_total:
  "writer_stream_ok wc \<Longrightarrow> \<exists>buf ext. firstChunk msg bodyLen body wc = Some (buf, ext)"
  by (auto simp: firstChunk_def writer_stream_ok_def Let_def split: option.split)

lemma writer_stream_ok_remember [simp]: "writer_stream_ok (remember msg bodyLen wc)"
  by (simp add: writer_stream_ok_def remember_def Let_def)

lemma writer_stream_ok_new [simp]: "writer_stream_ok new_writer_chunk_stream"
  by (simp add: writer_stream_ok_def new_writer_chunk_stream_def)

text \<open>The bytes of a whole message, and the state of its chunk stream after it.\<close>

definition message_bytes :: "nat \<Rightarrow> raw_message \<Rightarrow> writer_chunk_stream \<Rightarrow> bytes" where
  "message_bytes n msg wc =
     (case firstChunk msg (word_of_nat (length (m_Body msg))) (take n (m_Body msg)) wc of
        None \<Rightarrow> []
      | Some (buf, ext) \<Rightarrow> buf @ rest_bytes n ext (m_ChunkStreamID msg) (drop n (m_Body msg)))"

definition after_message :: "raw_message \<Rightarrow> writer_chunk_stream \<Rightarrow> writer_chunk_stream" where
  "after_message msg wc =
     (case firstChunk msg (word_of_nat (length (m_Body msg))) [] wc of
        None \<Rightarrow> wc
      | Some (_, ext) \<Rightarrow> remember msg (word_of_nat (length (m_Body msg))) (wc\<lparr>wc_hasExtendedTimestamp := ext\<rparr>))"

lemma firstChunk_ext:
  "map_option snd (firstChunk msg bodyLen body wc) = map_option snd (firstChunk msg bodyLen body' wc)"
  by (auto simp: firstChunk_def Let_def split: option.split)

lemma remember_ext [simp]: "wc_hasExtendedTimestamp (remember msg n wc) = wc_hasExtendedTimestamp wc"
  by (simp add: remember_def Let_def)

lemma writeMessage_live:
  assumes "writer_live w" "length (m_Body msg) < 4294967296" "writer_stream_ok wc"
  shows "\<exists>k. writeMessage msg wc w = Some (after_message msg wc,
    w\<lparr>w_calls := k, w_out := w_out w @ message_bytes (unat (w_chunkSize w)) msg wc\<rparr>, None)"
proof -
  let ?body = "m_Body msg" and ?len = "word_of_nat (length (m_Body msg)) :: u32"
  let ?n = "chunk_len ?len 0 w" and ?size = "unat (w_chunkSize w)"
  note len = chunk_len_unat [OF refl assms(2), of 0 w, simplified]
  have take: "take (unat ?n) ?body = take ?size ?body"
    by (simp add: len(1) min_def)
  obtain buf ext where f: "firstChunk msg ?len (take ?size ?body) wc = Some (buf, ext)"
    using firstChunk_total [OF assms(3)] by blast
  have "map_option snd (firstChunk msg ?len [] wc) = Some ext"
    using firstChunk_ext [of msg ?len "[]" wc "take ?size ?body"] f by simp
  then obtain buf' where f': "firstChunk msg ?len [] wc = Some (buf', ext)"
    by auto
  let ?w = "w\<lparr>w_calls := Suc (w_calls w), w_out := w_out w @ buf\<rparr>"
  let ?wc = "remember msg ?len (wc\<lparr>wc_hasExtendedTimestamp := ext\<rparr>)"
  have after: "after_message msg wc = ?wc" by (simp add: after_message_def f')
  have bytes: "message_bytes ?size msg wc = buf @ rest_bytes ?size ext (m_ChunkStreamID msg) (drop ?size ?body)"
    by (simp add: message_bytes_def f)
  have put: "put_first msg ?len (take ?size ?body) wc w = (wc\<lparr>wc_hasExtendedTimestamp := ext\<rparr>, ?w, None)"
    using assms(1) by (simp add: put_first_def f writeChunk_live)
  have eq: "writeMessage msg wc w =
    (if ?len - ?n = 0 then Some (?wc, bw_Flush ?w)
     else map_option (\<lambda>r. (?wc, r)) (writeRest msg ?len ?n ext ?w))"
    by (simp only: writeMessage_def Let_def take put prod.case option.case remember_ext) simp
  show ?thesis
  proof (cases "?len - ?n = 0")
    case True
    then have "drop ?size ?body = []" using len(2) by simp
    with True bytes after assms(1) show ?thesis
      unfolding eq by (auto simp: bw_Flush_def writer_live_def intro!: exI [of _ "Suc (Suc (w_calls w))"])
  next
    case False
    then have "unat ?n = ?size" "unat ?n < length ?body" using len by (simp_all add: min_def)
    with writeRest_live [of ?w msg ?n ext] False bytes after assms(1,2) show ?thesis
      unfolding eq by auto
  qed
qed

lemma Write_live:
  assumes "writer_live w" "length (m_Body msg) < 4294967296"
    "wc = (case w_chunkStreams w (m_ChunkStreamID msg) of None \<Rightarrow> new_writer_chunk_stream | Some wc \<Rightarrow> wc)"
    "writer_stream_ok wc"
  shows "\<exists>k. Write msg w = (w\<lparr>w_calls := k, w_out := w_out w @ message_bytes (unat (w_chunkSize w)) msg wc,
    w_chunkStreams := (w_chunkStreams w)(m_ChunkStreamID msg \<mapsto> after_message msg wc)\<rparr>, None)"
  using writeMessage_live [OF assms(1,2,4)] assms(3) by (auto simp: Write_def Let_def)

section \<open>Termination\<close>

lemma writeChunk_frame:
  "w_chunkSize (fst (writeChunk buf w)) = w_chunkSize w"
  by (auto simp: writeChunk_def bw_Write_def Let_def split: option.split)

lemma put_first_frame:
  "put_first msg n body wc w = (wc', w', e) \<Longrightarrow> w_chunkSize w' = w_chunkSize w"
  using writeChunk_frame [of _ w] by (auto simp: put_first_def split: option.splits prod.splits) (metis fst_conv)+

lemma writeRest_returns:
  assumes "0 < w_chunkSize w" "length (m_Body msg) < 4294967296" "unat pos \<le> length (m_Body msg)"
    "unat pos < length (m_Body msg)"
  shows "writeRest msg (word_of_nat (length (m_Body msg))) pos ext w \<noteq> None"
  using assms
proof (induction "length (m_Body msg) - unat pos" arbitrary: pos w rule: less_induct)
  case less
  let ?len = "word_of_nat (length (m_Body msg)) :: u32"
  let ?n = "chunk_len ?len pos w"
  note len = chunk_len_unat [OF refl less.prems(2,3), of w]
  have n: "0 < unat ?n"
    using less.prems(1,4) by (simp add: len(1) word_less_nat_alt)
  have "writeRest msg ?len (pos + ?n) ext w' \<noteq> None"
    if "w_chunkSize w' = w_chunkSize w" "?len - (pos + ?n) \<noteq> 0" for w'
  proof (rule less.hyps)
    have "unat (w_chunkSize w) < length (drop (unat pos) (m_Body msg))" using that(2) len(2) by linarith
    then have "unat (pos + ?n) < length (m_Body msg)" using len(1,3) by (simp add: min_def)
    then show "unat (pos + ?n) < length (m_Body msg)" "unat (pos + ?n) \<le> length (m_Body msg)"
      "length (m_Body msg) - unat (pos + ?n) < length (m_Body msg) - unat pos"
      using n len(3) less.prems(4) by simp_all
  qed (use less.prems that in simp_all)
  then show ?case
    using writeChunk_frame [of _ w]
    by (subst writeRest.simps) (auto simp: Let_def split: prod.splits option.splits, metis fst_conv)
qed

text \<open>
  When no chunk may carry a byte, the loop goes on for ever.
\<close>

lemma writeRest_stuck:
  "writeRest msg bodyLen pos ext w = Some res \<Longrightarrow>
    (\<forall>k. w_fail w k = None) \<and> \<not> w_checkAcknowledge w \<and> w_chunkSize w = 0 \<longrightarrow> bodyLen = pos"
proof (induction rule: writeRest.raw_induct [rotated, consumes 1, case_names step])
  case (step writeRest msg bodyLen pos ext w res)
  show ?case
  proof (intro impI)
    assume w: "(\<forall>k. w_fail w k = None) \<and> \<not> w_checkAcknowledge w \<and> w_chunkSize w = 0"
    then have n: "chunk_len bodyLen pos w = 0" by (simp add: chunk_len_def word_gt_0)
    show "bodyLen = pos"
    proof (rule ccontr)
      assume "bodyLen \<noteq> pos"
      with step(2) n w have "\<exists>w'. writeRest msg bodyLen pos ext w' = Some res \<and> w_fail w' = w_fail w \<and>
          w_checkAcknowledge w' = w_checkAcknowledge w \<and> w_chunkSize w' = w_chunkSize w"
        by (auto simp: Let_def writeChunk_def bw_Write_def)
      with step(1) w \<open>bodyLen \<noteq> pos\<close> show False by metis
    qed
  qed
qed

text \<open>
  C21. With a chunk size other than zero, writing a message returns, whatever the connection does; a
  writer whose connection never fails and whose chunk size is zero never returns from writing a message
  that has a body.
\<close>

theorem writeMessage_termination:
  assumes "length (m_Body msg) < 2 ^ 32"
  shows "(0 < w_chunkSize w \<longrightarrow> writeMessage msg wc w \<noteq> None) \<and>
    ((\<forall>k. w_fail w k = None) \<and> \<not> w_checkAcknowledge w \<and> w_chunkSize w = 0 \<and> m_Body msg \<noteq> [] \<and> writer_stream_ok wc
      \<longrightarrow> writeMessage msg wc w = None)"
proof (intro conjI impI)
  let ?len = "word_of_nat (length (m_Body msg)) :: u32"
  let ?n = "chunk_len ?len 0 w"
  have small: "length (m_Body msg) < 4294967296" using assms by simp
  note len = chunk_len_unat [OF refl small, of 0 w, simplified]
  show "writeMessage msg wc w \<noteq> None" if w: "0 < w_chunkSize w"
  proof -
    have "writeRest msg ?len ?n ext w' \<noteq> None" if "w_chunkSize w' = w_chunkSize w" "?len - ?n \<noteq> 0" for ext w'
    proof (rule writeRest_returns [OF _ small])
      show "unat ?n \<le> length (m_Body msg)" "unat ?n < length (m_Body msg)"
        using that(2) len by (auto simp: min_def)
    qed (use w that in simp)
    then show ?thesis
      using put_first_frame [of msg ?len _ wc w]
      by (auto simp: writeMessage_def Let_def split: prod.splits option.splits)
  qed
  show "writeMessage msg wc w = None"
    if w: "(\<forall>k. w_fail w k = None) \<and> \<not> w_checkAcknowledge w \<and> w_chunkSize w = 0 \<and> m_Body msg \<noteq> [] \<and> writer_stream_ok wc"
  proof -
    have "?len \<noteq> 0"
      using w small by (metis length_0_conv unat_0 unat_word_of_nat_32)
    moreover have "?n = 0" using w by (simp add: chunk_len_def word_gt_0)
    moreover have "writeRest msg ?len 0 ext w' = None" if "w_fail w' = w_fail w" "w_checkAcknowledge w' = w_checkAcknowledge w"
        "w_chunkSize w' = w_chunkSize w" for ext w'
      using writeRest_stuck [of msg ?len 0 ext w'] w that \<open>?len \<noteq> 0\<close> by (cases "writeRest msg ?len 0 ext w'") auto
    moreover obtain buf ext where "firstChunk msg ?len [] wc = Some (buf, ext)"
      using firstChunk_total w by blast
    ultimately show ?thesis
      using w by (auto simp: writeMessage_def Let_def put_first_def writeChunk_def bw_Write_def)
  qed
qed

lemma writeMessage_termination_witness:
  "let w = raw_NewWriter (\<lambda>_. None) (\<lambda>_. 0) False;
       msg = \<lparr>m_ChunkStreamID = 4, m_Timestamp = 0, m_Type = 8, m_MessageStreamID = 1, m_Body = [7]\<rparr>
   in writeMessage msg new_writer_chunk_stream w \<noteq> None \<and>
      writeMessage msg new_writer_chunk_stream (Writer_SetChunkSize 0 w) = None"
  using writeMessage_termination [of "\<lparr>m_ChunkStreamID = 4, m_Timestamp = 0, m_Type = 8, m_MessageStreamID = 1, m_Body = [7]\<rparr>"
      "raw_NewWriter (\<lambda>_. None) (\<lambda>_. 0) False" new_writer_chunk_stream]
    writeMessage_termination [of "\<lparr>m_ChunkStreamID = 4, m_Timestamp = 0, m_Type = 8, m_MessageStreamID = 1, m_Body = [7]\<rparr>"
      "Writer_SetChunkSize 0 (raw_NewWriter (\<lambda>_. None) (\<lambda>_. 0) False)" new_writer_chunk_stream]
  by (simp add: Let_def raw_NewWriter_def Writer_SetChunkSize_def)

end
