(* ===== verification/RawRoundtrip.thy ===== *)
theory RawRoundtrip
  imports RawWriter
begin

text \<open>
  The reader and the writer of package rawmessage against each other: a reader that has read all that
  a writer has written is in step with it, chunk stream by chunk stream, and stays so message by message.

  The callback of the reader is an interface of its own: \<open>ack_handler\<close> promises that acknowledgements
  can be sent, given an invariant of the state that they act on.
\<close>

section \<open>The acknowledge callback\<close>

locale ack_handler =
  fixes ack :: "'w ack" and inv :: "'w \<Rightarrow> bool"
  assumes acked: "inv s \<Longrightarrow> fst (ack v s) = None \<and> inv (snd (ack v s))"
begin

text \<open>The reader has moved on to \<open>rest\<close>, with chunk stream \<open>i\<close> in state \<open>rc\<close> and all else the same.\<close>

definition moved :: "'w raw_reader \<Rightarrow> bytes \<Rightarrow> (byte \<Rightarrow> reader_chunk_stream option) \<Rightarrow> 'w raw_reader \<Rightarrow> bool" where
  "moved r rest streams r' \<longleftrightarrow>
     r_br r' = rest \<and> r_chunkStreams r' = streams \<and> r_count r' = r_count r \<and>
     r_chunkSize r' = r_chunkSize r \<and> r_ackWindowSize r' = r_ackWindowSize r \<and> inv (r_sink r')"

lemma readChunk_acked:
  assumes "inv (r_sink r)" "read (r_br r) = (Inr c, rest)"
  shows "\<exists>r'. readChunk ack read r = (r', Inr c) \<and> moved r rest (r_chunkStreams r) r'"
  using assms acked [of "r_sink r"]
  by (auto simp: readChunk_def moved_def Let_def split: prod.split option.split dest!: spec [of _ "ucast _"])
    (metis fst_conv snd_conv option.distinct(1))+

end

section \<open>A writer and a reader in step\<close>

definition idle :: "reader_chunk_stream \<Rightarrow> bool" where
  "idle rc \<longleftrightarrow> curBodyFragments rc = [] \<and> curBodyRecv rc = 0"

definition in_step :: "writer_chunk_stream \<Rightarrow> reader_chunk_stream \<Rightarrow> bool" where
  "in_step wc rc \<longleftrightarrow>
     (\<forall>i. lastMessageStreamID wc = Some i \<longrightarrow>
       curMessageStreamID rc = i \<and>
       lastType wc = Some (curType rc) \<and>
       lastBodyLen wc = Some (curBodyLen rc) \<and>
       (\<exists>t. lastTimestamp wc = Some t \<and> curTimestamp rc = of_int t) \<and>
       curTimestampAvailable rc \<and>
       wc_hasExtendedTimestamp wc = rc_hasExtendedTimestamp rc \<and>
       (\<forall>d. curTimestampDeltaAvailable rc \<and> lastTimestampDelta wc = Some d \<longrightarrow> curTimestampDelta rc = of_int d))"

text \<open>
  The writer may choose a chunk of type 3 only if it remembers a timestamp delta: then the reader must
  have one too.
\<close>

definition delta_known :: "writer_chunk_stream \<Rightarrow> reader_chunk_stream \<Rightarrow> bool" where
  "delta_known wc rc \<longleftrightarrow> (lastTimestampDelta wc = None \<or> curTimestampDeltaAvailable rc)"

text \<open>The message that a reader makes of one: the timestamp is cut to 32 bits of milliseconds.\<close>

definition received :: "raw_message \<Rightarrow> raw_message" where
  "received msg = msg\<lparr>m_Timestamp := uint (of_int (msg_timestamp msg) :: u32) * millisecond\<rparr>"

definition message_of :: "byte \<Rightarrow> reader_chunk_stream \<Rightarrow> bytes \<Rightarrow> raw_message" where
  "message_of i rc body =
     \<lparr>m_ChunkStreamID = i, m_Timestamp = uint (curTimestamp rc) * millisecond, m_Type = curType rc,
      m_MessageStreamID = curMessageStreamID rc, m_Body = body\<rparr>"

text \<open>
  The state of the reader once the first chunk of a message is read: \<open>body\<close> is what the chunk carries,
  \<open>delta\<close> the timestamp delta that the reader has, if any.
\<close>

definition first_ok :: "raw_message \<Rightarrow> bool \<Rightarrow> u32 option \<Rightarrow> bytes \<Rightarrow> reader_chunk_stream \<Rightarrow> bool" where
  "first_ok msg ext delta body rc \<longleftrightarrow>
     curMessageStreamID rc = m_MessageStreamID msg \<and> curType rc = m_Type msg \<and>
     curBodyLen rc = word_of_nat (length (m_Body msg)) \<and>
     curTimestamp rc = of_int (msg_timestamp msg) \<and> curTimestampAvailable rc \<and>
     rc_hasExtendedTimestamp rc = ext \<and>
     curTimestampDeltaAvailable rc = (delta \<noteq> None) \<and> (\<forall>d. delta = Some d \<longrightarrow> curTimestampDelta rc = d) \<and>
     curBodyFragments rc = (if body = m_Body msg then [] else [body]) \<and>
     curBodyRecv rc = (if body = m_Body msg then 0 else word_of_nat (length body))"

lemma body_whole:
  "length full < 4294967296 \<Longrightarrow>
    (word_of_nat (length full) :: u32) = word_of_nat (length (take n full)) \<longleftrightarrow> take n full = full"
  by (auto simp: word_unat_eq_iff unat_word_of_nat_32)

lemma first_part:
  assumes "length full \<le> 10485760"
  shows "length (take (unat n) full) = unat (min (word_of_nat (length full)) n :: u32)"
    and "\<not> maxBodySize < word_of_nat (length full)" "word_of_nat (length full) < (0x1000000 :: u32)"
  using assms by (simp_all add: min_def word_le_nat_alt word_less_nat_alt unat_word_of_nat_32 maxBodySize_def)

lemma readStep_head:
  assumes "r_br r = (push_bit 6 fmt OR i) # xs" "2 \<le> i" "i < 64" "fmt < 4"
    "rc = (case r_chunkStreams r i of None \<Rightarrow> new_reader_chunk_stream | Some rc \<Rightarrow> rc)"
    "readMessage ack fmt rc r = (rc', r', res)"
  shows "readStep ack r =
    (r'\<lparr>r_chunkStreams := (r_chunkStreams r')(i \<mapsto> rc')\<rparr>, map_sum id (\<lambda>msg. msg\<lparr>m_ChunkStreamID := i\<rparr>) res)"
proof -
  have "drop_bit 6 (push_bit 6 fmt OR i) = fmt" "(push_bit 6 fmt OR i) AND 0x3F = i" "\<not> i < 2"
    using assms(2-4) by (simp_all only: typ_of_head csid_mask_typ not_less)
  then show ?thesis
    unfolding readStep_def assms(1) by (simp only: list.case Let_def if_False assms(5) [symmetric] assms(6) prod.case)
qed

context ack_handler
begin

lemma readStep_moved:
  assumes "r_br r = (push_bit 6 fmt OR i) # xs" "2 \<le> i" "i < 64" "fmt < 4"
    "rc = (case r_chunkStreams r i of None \<Rightarrow> new_reader_chunk_stream | Some rc \<Rightarrow> rc)"
    "readMessage ack fmt rc r = (rc', r', res)" "moved r rest (r_chunkStreams r) r'"
  shows "\<exists>r'. readStep ack r = (r', map_sum id (\<lambda>msg. msg\<lparr>m_ChunkStreamID := i\<rparr>) res) \<and>
    moved r rest ((r_chunkStreams r)(i \<mapsto> rc')) r'"
  using readStep_head [OF assms(1-6)] assms(7) by (simp add: moved_def)

text \<open>A type 3 chunk that continues a message.\<close>

lemma readMessage3_continue_step:
  assumes "inv (r_sink r)"
    "r_br r = chunk3_marshal (rc_hasExtendedTimestamp rc) \<lparr>c3_ChunkStreamID = i, c3_Body = body\<rparr> @ rest"
    "i < 64" "curBodyRecv rc < curBodyLen rc"
    "length body = min (unat (r_chunkSize r)) (unat (curBodyLen rc) - unat (curBodyRecv rc))"
    "length (concat (curBodyFragments rc)) = unat (curBodyRecv rc)"
  shows "\<exists>r'. readMessage3_continue ack rc r =
      (if unat (curBodyRecv rc) + length body = unat (curBodyLen rc)
       then (rc\<lparr>curBodyFragments := [], curBodyRecv := 0\<rparr>, r',
             Inr \<lparr>m_ChunkStreamID = 0, m_Timestamp = uint (curTimestamp rc) * millisecond, m_Type = curType rc,
                  m_MessageStreamID = curMessageStreamID rc, m_Body = concat (curBodyFragments rc) @ body\<rparr>)
       else (rc\<lparr>curBodyFragments := curBodyFragments rc @ [body],
                curBodyRecv := curBodyRecv rc + word_of_nat (length body)\<rparr>, r', Inl MoreChunksNeeded)) \<and>
      moved r rest (r_chunkStreams r) r'"
proof -
  let ?left = "curBodyLen rc - curBodyRecv rc"
  define n where "n = (if ?left > r_chunkSize r then r_chunkSize r else ?left)"
  have le: "curBodyRecv rc \<le> curBodyLen rc" using assms(4) by simp
  have left: "unat ?left = unat (curBodyLen rc) - unat (curBodyRecv rc)" using le by (simp add: unat_sub)
  have n: "unat n = length body" using assms(5) left by (simp add: n_def word_less_nat_alt)
  then have n': "word_of_nat (length body) = n" by (metis word_of_unat)
  have "n \<le> ?left" by (simp add: n_def order.strict_implies_order)
  from unat_add_left(2) [OF this le]
  have sum: "unat (curBodyRecv rc + n) = unat (curBodyRecv rc) + length body"
    by (simp only: n)
  then have eq: "curBodyLen rc = curBodyRecv rc + n \<longleftrightarrow>
      unat (curBodyRecv rc) + length body = unat (curBodyLen rc)"
    by (metis word_unat_eq_iff)
  have "chunk3_read n (rc_hasExtendedTimestamp rc) (r_br r) = (Inr \<lparr>c3_ChunkStreamID = i, c3_Body = body\<rparr>, rest)"
    unfolding assms(2) by (rule c3.read_marshal) (use assms(3) n in \<open>simp add: chunk3_fits_def\<close>)
  from readChunk_acked [of r "chunk3_read n (rc_hasExtendedTimestamp rc)", OF assms(1) this]
  obtain r' where rd: "readChunk ack (chunk3_read n (rc_hasExtendedTimestamp rc)) r =
      (r', Inr \<lparr>c3_ChunkStreamID = i, c3_Body = body\<rparr>)" and mv: "moved r rest (r_chunkStreams r) r'" by blast
  have "joinFragments (curBodyFragments rc @ [body]) (curBodyRecv rc + n) =
      concat (curBodyFragments rc) @ body"
    using assms(6) by (subst joinFragments_concat) (simp_all add: sum)
  with eq mv show ?thesis
    unfolding readMessage3_continue_def Let_def n_def [symmetric] rd by (auto simp: eq n')
qed

lemma moved_trans:
  "moved r s1 f1 r1 \<Longrightarrow> moved r1 s2 f2 r2 \<Longrightarrow> moved r s2 f2 r2"
  by (simp add: moved_def)

lemma Read_step:
  "readStep ack r = (r', res) \<Longrightarrow> Read ack r = (if res = Inl MoreChunksNeeded then Read ack r' else (r', res))"
  by (auto simp: Read.simps [of ack r] split: sum.split)

lemma Read_rest:
  assumes "inv (r_sink r)" "r_br r = rest_bytes (unat (r_chunkSize r)) (rc_hasExtendedTimestamp rc) i todo @ rest"
    "0 < r_chunkSize r" "todo \<noteq> []" "r_chunkStreams r i = Some rc" "2 \<le> i" "i < 64"
    "length (concat (curBodyFragments rc)) = unat (curBodyRecv rc)" "0 < unat (curBodyRecv rc)"
    "unat (curBodyRecv rc) + length todo = unat (curBodyLen rc)"
  shows "\<exists>r'. Read ack r = (r', Inr (message_of i rc (concat (curBodyFragments rc) @ todo))) \<and>
    moved r rest ((r_chunkStreams r)(i \<mapsto> rc\<lparr>curBodyFragments := [], curBodyRecv := 0\<rparr>)) r'"
  using assms
proof (induction "length todo" arbitrary: todo r rc rule: less_induct)
  case less
  let ?n = "unat (r_chunkSize r)" and ?ext = "rc_hasExtendedTimestamp rc"
  let ?body = "take ?n todo" and ?todo = "drop ?n todo"
  let ?sum = "curBodyRecv rc + word_of_nat (length ?body)"
  let ?rest = "rest_bytes ?n ?ext i ?todo @ rest"
  have n: "0 < ?n" using less.prems(3) by (simp add: word_less_nat_alt)
  have br: "r_br r = chunk3_marshal ?ext \<lparr>c3_ChunkStreamID = i, c3_Body = ?body\<rparr> @ ?rest"
    using less.prems(2,4) n by (subst (asm) rest_bytes.simps) simp
  obtain xs where head: "r_br r = (push_bit 6 3 OR i) # xs"
    using c3.marshal_append_head [of ?ext "\<lparr>c3_ChunkStreamID = i, c3_Body = ?body\<rparr>" ?rest]
    unfolding br chunk3.select_convs by blast
  have lt: "curBodyRecv rc < curBodyLen rc"
    using less.prems(4,10) unfolding word_less_nat_alt by (cases todo) auto
  have body: "length ?body = min ?n (unat (curBodyLen rc) - unat (curBodyRecv rc))"
    using less.prems(10) by simp
  obtain r1 where step: "readMessage3_continue ack rc r =
      (if unat (curBodyRecv rc) + length ?body = unat (curBodyLen rc)
       then (rc\<lparr>curBodyFragments := [], curBodyRecv := 0\<rparr>, r1, Inr (message_of 0 rc (concat (curBodyFragments rc) @ ?body)))
       else (rc\<lparr>curBodyFragments := curBodyFragments rc @ [?body], curBodyRecv := ?sum\<rparr>, r1, Inl MoreChunksNeeded))"
    and mv: "moved r ?rest (r_chunkStreams r) r1"
    using readMessage3_continue_step [OF less.prems(1) br less.prems(7) lt body less.prems(8)]
    unfolding message_of_def by blast
  have m: "readMessage ack 3 rc r = readMessage3_continue ack rc r"
    using less.prems(9) by (auto simp: readMessage_def)
  have rc: "rc = (case r_chunkStreams r i of None \<Rightarrow> new_reader_chunk_stream | Some rc \<Rightarrow> rc)"
    using less.prems(5) by simp
  show ?case
  proof (cases "length todo \<le> ?n")
    case True
    then have all: "?body = todo" "?todo = []" by simp_all
    have "readMessage ack 3 rc r = (rc\<lparr>curBodyFragments := [], curBodyRecv := 0\<rparr>, r1, Inr (message_of 0 rc (concat (curBodyFragments rc) @ todo)))"
      using m step less.prems(10) by (simp add: all(1))
    from readStep_moved [OF head less.prems(6,7) _ rc this mv]
    obtain r2 where "readStep ack r = (r2, Inr (message_of i rc (concat (curBodyFragments rc) @ todo)))"
      "moved r ?rest ((r_chunkStreams r)(i \<mapsto> rc\<lparr>curBodyFragments := [], curBodyRecv := 0\<rparr>)) r2"
      by (auto simp: message_of_def)
    then show ?thesis using all(2) by (auto dest!: Read_step)
  next
    case False
    then have len: "length ?body = ?n" "?todo \<noteq> []" "length ?todo < length todo" using n by simp_all
    let ?rc = "rc\<lparr>curBodyFragments := curBodyFragments rc @ [?body], curBodyRecv := ?sum\<rparr>"
    have "unat (curBodyRecv rc) + ?n < 4294967296"
      using False less.prems(10) unat_u32_less [of "curBodyLen rc"] by linarith
    then have sum: "unat ?sum = unat (curBodyRecv rc) + ?n"
      using len(1) by (simp add: unat_word_ariths)
    have "readMessage ack 3 rc r = (?rc, r1, Inl MoreChunksNeeded)"
      using m step False less.prems(10) by simp
    from readStep_moved [OF head less.prems(6,7) _ rc this mv]
    obtain r2 where r2: "readStep ack r = (r2, Inl MoreChunksNeeded)"
      "moved r ?rest ((r_chunkStreams r)(i \<mapsto> ?rc)) r2" by auto
    have "\<exists>r'. Read ack r2 = (r', Inr (message_of i ?rc (concat (curBodyFragments ?rc) @ ?todo))) \<and>
        moved r2 rest ((r_chunkStreams r2)(i \<mapsto> ?rc\<lparr>curBodyFragments := [], curBodyRecv := 0\<rparr>)) r'"
      by (rule less.hyps [OF len(3) _ _ _ len(2)])
        (use r2(2) less.prems sum len(1) False n in \<open>simp_all add: moved_def\<close>)
    then obtain r' where "Read ack r2 = (r', Inr (message_of i ?rc (concat (curBodyFragments ?rc) @ ?todo)))"
        "moved r2 rest ((r_chunkStreams r2)(i \<mapsto> ?rc\<lparr>curBodyFragments := [], curBodyRecv := 0\<rparr>)) r'" by blast
    with r2 show ?thesis
      by (intro exI [of _ r']) (auto dest!: Read_step simp: message_of_def moved_def)
  qed
qed

definition ready :: "raw_message \<Rightarrow> reader_chunk_stream \<Rightarrow> 'w raw_reader \<Rightarrow> bool" where
  "ready msg rc r \<longleftrightarrow>
     inv (r_sink r) \<and> m_ChunkStreamID msg < 64 \<and> length (m_Body msg) \<le> 10 * 1024 * 1024 \<and> idle rc"

lemma readMessage0_first:
  assumes "ready msg rc r" "body = take (unat (r_chunkSize r)) (m_Body msg)"
    "r_br r = chunk0_marshal False
       \<lparr>c0_ChunkStreamID = m_ChunkStreamID msg, c0_Timestamp = of_int (msg_timestamp msg),
        c0_BodyLen = word_of_nat (length (m_Body msg)), c0_Type = m_Type msg,
        c0_MessageStreamID = m_MessageStreamID msg, c0_Body = body\<rparr> @ rest"
  shows "\<exists>r1 rc'. readMessage ack 0 rc r =
      (rc', r1, if body = m_Body msg then Inr (message_of 0 rc' body) else Inl MoreChunksNeeded) \<and>
    moved r rest (r_chunkStreams r) r1 \<and>
    first_ok msg ((of_int (msg_timestamp msg) :: u32) \<ge> 0xFFFFFF) None body rc'"
proof -
  let ?c = "\<lparr>c0_ChunkStreamID = m_ChunkStreamID msg, c0_Timestamp = of_int (msg_timestamp msg),
        c0_BodyLen = word_of_nat (length (m_Body msg)), c0_Type = m_Type msg,
        c0_MessageStreamID = m_MessageStreamID msg, c0_Body = body\<rparr>"
  have len: "length (m_Body msg) \<le> 10485760" and idle: "curBodyFragments rc = []" "curBodyRecv rc = 0"
    using assms(1) by (simp_all add: ready_def idle_def)
  note part = first_part [OF len]
  have "chunk0_fits (r_chunkSize r) ?c"
    using assms(1) part by (simp add: chunk0_fits_def ready_def assms(2) del: length_take)
  then have "chunk0_read (r_chunkSize r) False (r_br r) = (Inr ?c, rest)"
    unfolding assms(3) by (rule c0.read_marshal)
  with readChunk_acked [of r "chunk0_read (r_chunkSize r) False" ?c rest] assms(1)
  obtain r1 where rd: "readChunk ack (chunk0_read (r_chunkSize r) False) r = (r1, Inr ?c)"
    and mv: "moved r rest (r_chunkStreams r) r1" by (auto simp: ready_def)
  have whole: "(word_of_nat (length (m_Body msg)) :: u32) = word_of_nat (length body) \<longleftrightarrow> body = m_Body msg"
    unfolding assms(2) by (rule body_whole) (use len in simp)
  show ?thesis
    using mv part(2) by (auto simp: readMessage_def readMessage0_def rd idle whole first_ok_def message_of_def Let_def)
qed

lemma readMessage1_first:
  assumes "ready msg rc r" "body = take (unat (r_chunkSize r)) (m_Body msg)"
    "curTimestampAvailable rc" "curMessageStreamID rc = m_MessageStreamID msg"
    "curTimestamp rc + of_int d = of_int (msg_timestamp msg)"
    "r_br r = chunk1_marshal False
       \<lparr>c1_ChunkStreamID = m_ChunkStreamID msg, c1_TimestampDelta = of_int d,
        c1_BodyLen = word_of_nat (length (m_Body msg)), c1_Type = m_Type msg, c1_Body = body\<rparr> @ rest"
  shows "\<exists>r1 rc'. readMessage ack 1 rc r =
      (rc', r1, if body = m_Body msg then Inr (message_of 0 rc' body) else Inl MoreChunksNeeded) \<and>
    moved r rest (r_chunkStreams r) r1 \<and>
    first_ok msg ((of_int d :: u32) \<ge> 0xFFFFFF) (Some (of_int d)) body rc'"
proof -
  let ?c = "\<lparr>c1_ChunkStreamID = m_ChunkStreamID msg, c1_TimestampDelta = of_int d,
        c1_BodyLen = word_of_nat (length (m_Body msg)), c1_Type = m_Type msg, c1_Body = body\<rparr>"
  have len: "length (m_Body msg) \<le> 10485760" and idle: "curBodyFragments rc = []" "curBodyRecv rc = 0"
    using assms(1) by (simp_all add: ready_def idle_def)
  note part = first_part [OF len]
  have "chunk1_fits (r_chunkSize r) ?c"
    using assms(1) part by (simp add: chunk1_fits_def ready_def assms(2) del: length_take)
  then have "chunk1_read (r_chunkSize r) False (r_br r) = (Inr ?c, rest)"
    unfolding assms(6) by (rule c1.read_marshal)
  with readChunk_acked [of r "chunk1_read (r_chunkSize r) False" ?c rest] assms(1)
  obtain r1 where rd: "readChunk ack (chunk1_read (r_chunkSize r) False) r = (r1, Inr ?c)"
    and mv: "moved r rest (r_chunkStreams r) r1" by (auto simp: ready_def)
  have whole: "(word_of_nat (length (m_Body msg)) :: u32) = word_of_nat (length body) \<longleftrightarrow> body = m_Body msg"
    unfolding assms(2) by (rule body_whole) (use len in simp)
  show ?thesis
    using mv part(2) assms(3-5)
    by (auto simp: readMessage_def readMessage1_def rd idle whole first_ok_def message_of_def Let_def)
qed

lemma readMessage2_first:
  assumes "ready msg rc r" "body = take (unat (r_chunkSize r)) (m_Body msg)"
    "curTimestampAvailable rc" "curMessageStreamID rc = m_MessageStreamID msg"
    "curTimestamp rc + of_int d = of_int (msg_timestamp msg)"
    "curType rc = m_Type msg" "curBodyLen rc = word_of_nat (length (m_Body msg))"
    "r_br r = chunk2_marshal False
       \<lparr>c2_ChunkStreamID = m_ChunkStreamID msg, c2_TimestampDelta = of_int d, c2_Body = body\<rparr> @ rest"
  shows "\<exists>r1 rc'. readMessage ack 2 rc r =
      (rc', r1, if body = m_Body msg then Inr (message_of 0 rc' body) else Inl MoreChunksNeeded) \<and>
    moved r rest (r_chunkStreams r) r1 \<and>
    first_ok msg ((of_int d :: u32) \<ge> 0xFFFFFF) (Some (of_int d)) body rc'"
proof -
  let ?c = "\<lparr>c2_ChunkStreamID = m_ChunkStreamID msg, c2_TimestampDelta = of_int d, c2_Body = body\<rparr>"
  let ?n = "if curBodyLen rc > r_chunkSize r then r_chunkSize r else curBodyLen rc"
  have len: "length (m_Body msg) \<le> 10485760" and idle: "curBodyFragments rc = []" "curBodyRecv rc = 0"
    using assms(1) by (simp_all add: ready_def idle_def)
  have "unat ?n = length body"
    unfolding assms(2,7) first_part(1) [OF len] by (rule unat_min_body [THEN trans]) (simp add: min.commute)
  then have "chunk2_fits ?n ?c"
    using assms(1) by (simp only: chunk2_fits_def ready_def chunk2.select_convs simp_thms)
  then have "chunk2_read ?n False (r_br r) = (Inr ?c, rest)"
    unfolding assms(8) by (rule c2.read_marshal)
  with readChunk_acked [of r "chunk2_read ?n False" ?c rest] assms(1)
  obtain r1 where rd: "readChunk ack (chunk2_read ?n False) r = (r1, Inr ?c)"
    and mv: "moved r rest (r_chunkStreams r) r1" by (auto simp: ready_def)
  have whole: "(word_of_nat (length (m_Body msg)) :: u32) = word_of_nat (length body) \<longleftrightarrow> body = m_Body msg"
    unfolding assms(2) by (rule body_whole) (use len in simp)
  have eq: "readMessage ack 2 rc r = readMessage2 ack rc r" by (simp add: readMessage_def)
  show ?thesis
    unfolding eq readMessage2_def Let_def rd using mv assms(3-7)
    by (auto simp: idle whole first_ok_def message_of_def)
qed

lemma readMessage3_first:
  assumes "ready msg rc r" "body = take (unat (r_chunkSize r)) (m_Body msg)"
    "curTimestampAvailable rc" "curMessageStreamID rc = m_MessageStreamID msg"
    "curTimestamp rc + curTimestampDelta rc = of_int (msg_timestamp msg)" "curTimestampDeltaAvailable rc"
    "curType rc = m_Type msg" "curBodyLen rc = word_of_nat (length (m_Body msg))"
    "r_br r = chunk3_marshal (rc_hasExtendedTimestamp rc)
       \<lparr>c3_ChunkStreamID = m_ChunkStreamID msg, c3_Body = body\<rparr> @ rest"
  shows "\<exists>r1 rc'. readMessage ack 3 rc r =
      (rc', r1, if body = m_Body msg then Inr (message_of 0 rc' body) else Inl MoreChunksNeeded) \<and>
    moved r rest (r_chunkStreams r) r1 \<and>
    first_ok msg (rc_hasExtendedTimestamp rc) (Some (curTimestampDelta rc)) body rc'"
proof -
  let ?c = "\<lparr>c3_ChunkStreamID = m_ChunkStreamID msg, c3_Body = body\<rparr>"
  let ?n = "if curBodyLen rc > r_chunkSize r then r_chunkSize r else curBodyLen rc"
  let ?read = "chunk3_read ?n (rc_hasExtendedTimestamp rc)"
  have len: "length (m_Body msg) \<le> 10485760" and idle: "curBodyFragments rc = []" "curBodyRecv rc = 0"
    using assms(1) by (simp_all add: ready_def idle_def)
  have "unat ?n = length body"
    unfolding assms(2,8) first_part(1) [OF len] by (rule unat_min_body [THEN trans]) (simp add: min.commute)
  then have "chunk3_fits ?n ?c"
    using assms(1) by (simp only: chunk3_fits_def ready_def chunk3.select_convs simp_thms)
  then have "?read (r_br r) = (Inr ?c, rest)"
    unfolding assms(9) by (rule c3.read_marshal)
  with readChunk_acked [of r ?read ?c rest] assms(1)
  obtain r1 where rd: "readChunk ack ?read r = (r1, Inr ?c)"
    and mv: "moved r rest (r_chunkStreams r) r1" by (auto simp: ready_def)
  have whole: "(word_of_nat (length (m_Body msg)) :: u32) = word_of_nat (length body) \<longleftrightarrow> body = m_Body msg"
    unfolding assms(2) by (rule body_whole) (use len in simp)
  have eq: "readMessage ack 3 rc r = readMessage3_start ack rc r" by (simp add: readMessage_def idle)
  show ?thesis
    unfolding eq readMessage3_start_def Let_def rd using mv assms(3-8)
    by (auto simp: idle whole first_ok_def message_of_def)
qed

lemma readStep_first:
  assumes rdy: "ready msg rc r" and i: "2 \<le> m_ChunkStreamID msg"
    and rc: "rc = (case r_chunkStreams r (m_ChunkStreamID msg) of None \<Rightarrow> new_reader_chunk_stream | Some rc \<Rightarrow> rc)"
    and step: "in_step wc rc" "delta_known wc rc"
    and body: "body = take (unat (r_chunkSize r)) (m_Body msg)"
    and first: "firstChunk msg (word_of_nat (length (m_Body msg))) body wc = Some (buf, ext)"
    and br: "r_br r = buf @ rest"
  shows "\<exists>r' rc' delta. readStep ack r =
      (r', if body = m_Body msg then Inr (message_of (m_ChunkStreamID msg) rc' body) else Inl MoreChunksNeeded) \<and>
    moved r rest ((r_chunkStreams r)(m_ChunkStreamID msg \<mapsto> rc')) r' \<and>
    first_ok msg ext delta body rc' \<and>
    (delta = None \<or> (\<exists>d. timestamp_delta wc (msg_timestamp msg) = Some d \<and> delta = Some (of_int d))) \<and>
    (delta = None \<longrightarrow> timestamp_delta wc (msg_timestamp msg) = None \<or> lastMessageStreamID wc \<noteq> Some (m_MessageStreamID msg))"
proof -
  let ?i = "m_ChunkStreamID msg"
  have read: ?thesis
    if "readMessage ack fmt rc r =
        (rc', r1, if body = m_Body msg then Inr (message_of 0 rc' body) else Inl MoreChunksNeeded)"
      "moved r rest (r_chunkStreams r) r1" "first_ok msg ext delta body rc'"
      "delta = None \<or> (\<exists>d. timestamp_delta wc (msg_timestamp msg) = Some d \<and> delta = Some (of_int d))"
      "delta = None \<longrightarrow> timestamp_delta wc (msg_timestamp msg) = None \<or> lastMessageStreamID wc \<noteq> Some (m_MessageStreamID msg)"
      "fmt < 4" "buf @ rest = (push_bit 6 fmt OR ?i) # xs" for fmt rc' r1 delta xs
  proof -
    have "?i < 64" using rdy by (simp add: ready_def)
    from readStep_moved [OF br [unfolded that(7)] i this that(6) rc that(1,2)]
    obtain r' where "readStep ack r = (r', if body = m_Body msg then Inr (message_of ?i rc' body) else Inl MoreChunksNeeded)"
      "moved r rest ((r_chunkStreams r)(?i \<mapsto> rc')) r'"
      by (auto simp: message_of_def split: if_splits)
    with that(3-5) show ?thesis by blast
  qed
  have t0: ?thesis
    if "buf = chunk0_marshal False
         \<lparr>c0_ChunkStreamID = ?i, c0_Timestamp = of_int (msg_timestamp msg), c0_BodyLen = word_of_nat (length (m_Body msg)),
          c0_Type = m_Type msg, c0_MessageStreamID = m_MessageStreamID msg, c0_Body = body\<rparr>"
      "ext = ((of_int (msg_timestamp msg) :: u32) \<ge> 0xFFFFFF)"
      "timestamp_delta wc (msg_timestamp msg) = None \<or> lastMessageStreamID wc \<noteq> Some (m_MessageStreamID msg)"
  proof -
    note t = that
    obtain xs where xs: "buf @ rest = (push_bit 6 0 OR ?i) # xs"
      using c0.marshal_append_head [of False "\<lparr>c0_ChunkStreamID = ?i, c0_Timestamp = of_int (msg_timestamp msg),
          c0_BodyLen = word_of_nat (length (m_Body msg)), c0_Type = m_Type msg,
          c0_MessageStreamID = m_MessageStreamID msg, c0_Body = body\<rparr>" rest]
      unfolding t(1) chunk0.select_convs by blast
    obtain r1 rc' where a: "readMessage ack 0 rc r =
        (rc', r1, if body = m_Body msg then Inr (message_of 0 rc' body) else Inl MoreChunksNeeded)"
      "moved r rest (r_chunkStreams r) r1" "first_ok msg ext None body rc'"
      using readMessage0_first [OF rdy body br [unfolded t(1)]] unfolding t(2) by blast
    show ?thesis by (rule read [OF a _ _ _ xs]) (use t(3) in simp_all)
  qed
  show ?thesis
  proof (cases "timestamp_delta wc (msg_timestamp msg) = None \<or> lastMessageStreamID wc \<noteq> Some (m_MessageStreamID msg)")
    case True
    then show ?thesis
      using first by (intro t0) (auto simp: firstChunk_def Let_def split: option.splits if_splits)
  next
    case False
    then obtain d where d: "timestamp_delta wc (msg_timestamp msg) = Some d"
      and id: "lastMessageStreamID wc = Some (m_MessageStreamID msg)" by auto
    from d obtain t where t: "lastTimestamp wc = Some t" "d = msg_timestamp msg - t"
      by (auto simp: timestamp_delta_def split: option.splits if_splits)
    have st: "curTimestampAvailable rc" "curMessageStreamID rc = m_MessageStreamID msg"
      "curTimestamp rc + of_int d = of_int (msg_timestamp msg)" "lastType wc = Some (curType rc)"
      "lastBodyLen wc = Some (curBodyLen rc)" "wc_hasExtendedTimestamp wc = rc_hasExtendedTimestamp rc"
      using step(1) id t by (auto simp: in_step_def)
    have head: "\<exists>xs. chunk1_marshal False c1 @ rest = (push_bit 6 1 OR c1_ChunkStreamID c1) # xs"
      "\<exists>xs. chunk2_marshal False c2 @ rest = (push_bit 6 2 OR c2_ChunkStreamID c2) # xs"
      "\<exists>xs. chunk3_marshal ext c3 @ rest = (push_bit 6 3 OR c3_ChunkStreamID c3) # xs" for c1 c2 c3 ext
      by (rule c1.marshal_append_head c2.marshal_append_head c3.marshal_append_head)+
    consider (1) "curType rc \<noteq> m_Type msg \<or> curBodyLen rc \<noteq> word_of_nat (length (m_Body msg))"
      | (2) "curType rc = m_Type msg" "curBodyLen rc = word_of_nat (length (m_Body msg))" "lastTimestampDelta wc \<noteq> Some d"
      | (3) "curType rc = m_Type msg" "curBodyLen rc = word_of_nat (length (m_Body msg))" "lastTimestampDelta wc = Some d"
      by blast
    then show ?thesis
    proof cases
      case 1
      let ?c = "\<lparr>c1_ChunkStreamID = ?i, c1_TimestampDelta = of_int d, c1_BodyLen = word_of_nat (length (m_Body msg)),
                 c1_Type = m_Type msg, c1_Body = body\<rparr>"
      from 1 have f: "buf = chunk1_marshal False ?c" "ext = ((of_int d :: u32) \<ge> 0xFFFFFF)"
        using first st d id by (auto simp: firstChunk_def Let_def split: if_splits)
      obtain xs where xs: "buf @ rest = (push_bit 6 1 OR ?i) # xs"
        using head(1) [of ?c] unfolding f(1) chunk1.select_convs by blast
      obtain r1 rc' where a: "readMessage ack 1 rc r =
          (rc', r1, if body = m_Body msg then Inr (message_of 0 rc' body) else Inl MoreChunksNeeded)"
        "moved r rest (r_chunkStreams r) r1" "first_ok msg ext (Some (of_int d)) body rc'"
        using readMessage1_first [OF rdy body st(1-3) br [unfolded f(1)]] unfolding f(2) by blast
      show ?thesis by (rule read [OF a _ _ _ xs]) (use d in simp_all)
    next
      case 2
      let ?c = "\<lparr>c2_ChunkStreamID = ?i, c2_TimestampDelta = of_int d, c2_Body = body\<rparr>"
      from 2 have f: "buf = chunk2_marshal False ?c" "ext = ((of_int d :: u32) \<ge> 0xFFFFFF)"
        using first st d id by (auto simp: firstChunk_def Let_def split: if_splits)
      obtain xs where xs: "buf @ rest = (push_bit 6 2 OR ?i) # xs"
        using head(2) [of ?c] unfolding f(1) chunk2.select_convs by blast
      obtain r1 rc' where a: "readMessage ack 2 rc r =
          (rc', r1, if body = m_Body msg then Inr (message_of 0 rc' body) else Inl MoreChunksNeeded)"
        "moved r rest (r_chunkStreams r) r1" "first_ok msg ext (Some (of_int d)) body rc'"
        using readMessage2_first [OF rdy body st(1-3) 2(1,2) br [unfolded f(1)]] unfolding f(2) by blast
      show ?thesis by (rule read [OF a _ _ _ xs]) (use d in simp_all)
    next
      case 3
      let ?c = "\<lparr>c3_ChunkStreamID = ?i, c3_Body = body\<rparr>"
      from 3 have f: "buf = chunk3_marshal (rc_hasExtendedTimestamp rc) ?c" "ext = rc_hasExtendedTimestamp rc"
        using first st d id by (auto simp: firstChunk_def Let_def split: if_splits)
      have av: "curTimestampDeltaAvailable rc" "curTimestampDelta rc = of_int d"
        using 3(3) step id by (auto simp: delta_known_def in_step_def)
      obtain xs where xs: "buf @ rest = (push_bit 6 3 OR ?i) # xs"
        using head(3) [of "rc_hasExtendedTimestamp rc" ?c] unfolding f(1) chunk3.select_convs by blast
      obtain r1 rc' where a: "readMessage ack 3 rc r =
          (rc', r1, if body = m_Body msg then Inr (message_of 0 rc' body) else Inl MoreChunksNeeded)"
        "moved r rest (r_chunkStreams r) r1" "first_ok msg ext (Some (of_int d)) body rc'"
        using readMessage3_first [OF rdy body st(1,2) st(3) [folded av(2)] av(1) 3(1,2) br [unfolded f(1)]] unfolding f(2) av(2) by blast
      show ?thesis by (rule read [OF a _ _ _ xs]) (use d in simp_all)
    qed
  qed
qed

end

text \<open>What the writer remembers agrees with what the reader has once the first chunk is read.\<close>

lemma in_step_after:
  assumes "first_ok msg ext delta body rc" "firstChunk msg (word_of_nat (length (m_Body msg))) body' wc = Some (buf, ext)"
    "delta = None \<or> (\<exists>d. timestamp_delta wc (msg_timestamp msg) = Some d \<and> delta = Some (of_int d))"
    "delta = None \<longrightarrow> timestamp_delta wc (msg_timestamp msg) = None \<or> lastMessageStreamID wc \<noteq> Some (m_MessageStreamID msg)"
    "writer_stream_ok wc"
  shows "in_step (after_message msg wc) rc"
    and "lastMessageStreamID wc = None \<or> lastMessageStreamID wc = Some (m_MessageStreamID msg) \<and>
      (\<exists>t. lastTimestamp wc = Some t \<and> t \<le> msg_timestamp msg) \<Longrightarrow> delta_known (after_message msg wc) rc"
proof -
  have "map_option snd (firstChunk msg (word_of_nat (length (m_Body msg))) [] wc) = Some ext"
    using firstChunk_ext [of msg _ "[]" wc body'] assms(2) by simp
  then obtain buf' where after: "after_message msg wc =
      remember msg (word_of_nat (length (m_Body msg))) (wc\<lparr>wc_hasExtendedTimestamp := ext\<rparr>)"
    by (auto simp: after_message_def)
  have [simp]: "timestamp_delta (wc\<lparr>wc_hasExtendedTimestamp := e\<rparr>) = timestamp_delta wc" for e
    by (simp add: timestamp_delta_def fun_eq_iff)
  show "in_step (after_message msg wc) rc"
    using assms(1,3,4) by (auto simp: in_step_def after first_ok_def remember_def Let_def split: option.splits)
  show "delta_known (after_message msg wc) rc"
    if "lastMessageStreamID wc = None \<or> lastMessageStreamID wc = Some (m_MessageStreamID msg) \<and>
      (\<exists>t. lastTimestamp wc = Some t \<and> t \<le> msg_timestamp msg)"
    using that assms(1,3,4,5)
    by (auto simp: delta_known_def after first_ok_def remember_def Let_def timestamp_delta_def writer_stream_ok_def
        split: option.splits)
qed

lemma received_eq:
  "first_ok msg ext delta body rc \<Longrightarrow> message_of (m_ChunkStreamID msg) rc (m_Body msg) = received msg"
  by (simp add: first_ok_def message_of_def received_def)

lemma in_step_idle [simp]: "in_step wc (rc\<lparr>curBodyFragments := [], curBodyRecv := n\<rparr>) = in_step wc rc"
  by (simp add: in_step_def)

lemma delta_known_idle [simp]: "delta_known wc (rc\<lparr>curBodyFragments := [], curBodyRecv := n\<rparr>) = delta_known wc rc"
  by (simp add: delta_known_def)

context ack_handler
begin

text \<open>A whole message.\<close>

lemma Read_message:
  assumes "inv (r_sink r)" "0 < r_chunkSize r" "2 \<le> m_ChunkStreamID msg" "m_ChunkStreamID msg < 64"
    "length (m_Body msg) \<le> 10 * 1024 * 1024" "writer_stream_ok wc"
    "rc = (case r_chunkStreams r (m_ChunkStreamID msg) of None \<Rightarrow> new_reader_chunk_stream | Some rc \<Rightarrow> rc)"
    "idle rc" "in_step wc rc" "delta_known wc rc"
    "r_br r = message_bytes (unat (r_chunkSize r)) msg wc @ rest"
  shows "\<exists>r' rc'. Read ack r = (r', Inr (received msg)) \<and>
    moved r rest ((r_chunkStreams r)(m_ChunkStreamID msg \<mapsto> rc')) r' \<and> idle rc' \<and>
    in_step (after_message msg wc) rc' \<and>
    (lastMessageStreamID wc = None \<or> lastMessageStreamID wc = Some (m_MessageStreamID msg) \<and>
      (\<exists>t. lastTimestamp wc = Some t \<and> t \<le> msg_timestamp msg) \<longrightarrow> delta_known (after_message msg wc) rc')"
proof -
  let ?i = "m_ChunkStreamID msg" and ?n = "unat (r_chunkSize r)"
  let ?body = "take ?n (m_Body msg)"
  obtain buf ext where f: "firstChunk msg (word_of_nat (length (m_Body msg))) ?body wc = Some (buf, ext)"
    using firstChunk_total [OF assms(6)] by blast
  let ?rest = "rest_bytes ?n ext ?i (drop ?n (m_Body msg)) @ rest"
  have rdy: "ready msg rc r" using assms by (simp add: ready_def)
  have br: "r_br r = buf @ ?rest" using assms(11) by (simp add: message_bytes_def f)
  obtain r1 rc1 delta where s1: "readStep ack r =
      (r1, if ?body = m_Body msg then Inr (message_of ?i rc1 ?body) else Inl MoreChunksNeeded)"
    and mv: "moved r ?rest ((r_chunkStreams r)(?i \<mapsto> rc1)) r1" and ok: "first_ok msg ext delta ?body rc1"
    and d: "delta = None \<or> (\<exists>d. timestamp_delta wc (msg_timestamp msg) = Some d \<and> delta = Some (of_int d))"
      "delta = None \<longrightarrow> timestamp_delta wc (msg_timestamp msg) = None \<or> lastMessageStreamID wc \<noteq> Some (m_MessageStreamID msg)"
    using readStep_first [OF rdy assms(3,7,9,10) refl f br] by blast
  note after = in_step_after [OF ok f d assms(6)]
  show ?thesis
  proof (cases "?body = m_Body msg")
    case True
    then have "drop ?n (m_Body msg) = []" by (metis drop_all take_all_iff)
    moreover have "idle rc1" using ok True by (simp add: first_ok_def idle_def)
    moreover have "Read ack r = (r1, Inr (received msg))"
      using Read_step [OF s1] True received_eq [OF ok] by simp
    ultimately show ?thesis using mv after by auto
  next
    case False
    then have long: "drop ?n (m_Body msg) \<noteq> []" "length ?body = ?n" by (auto simp: min_def not_le)
    have n: "0 < ?n" using assms(2) by (simp add: word_less_nat_alt)
    have recv: "unat (curBodyRecv rc1) = ?n" and len: "unat (curBodyLen rc1) = length (m_Body msg)"
      and frags: "concat (curBodyFragments rc1) = ?body" and ext: "rc_hasExtendedTimestamp rc1 = ext"
      using ok False assms(5) long(2) by (simp_all add: first_ok_def unat_word_of_nat_32)
    have sum: "?n + length (drop ?n (m_Body msg)) = length (m_Body msg)"
      using long by simp
    have "\<exists>r'. Read ack r1 = (r', Inr (message_of ?i rc1 (concat (curBodyFragments rc1) @ drop ?n (m_Body msg)))) \<and>
        moved r1 rest ((r_chunkStreams r1)(?i \<mapsto> rc1\<lparr>curBodyFragments := [], curBodyRecv := 0\<rparr>)) r'"
      by (rule Read_rest)
        (use mv assms(2-4) long n recv len frags ext sum in \<open>simp_all add: moved_def\<close>)
    then obtain r2 where "Read ack r1 = (r2, Inr (message_of ?i rc1 (m_Body msg)))"
      "moved r1 rest ((r_chunkStreams r1)(?i \<mapsto> rc1\<lparr>curBodyFragments := [], curBodyRecv := 0\<rparr>)) r2"
      by (auto simp: frags)
    then show ?thesis
      using mv after Read_step [OF s1] False received_eq [OF ok]
      by (intro exI [of _ r2] exI [of _ "rc1\<lparr>curBodyFragments := [], curBodyRecv := 0\<rparr>"])
        (auto simp: moved_def idle_def)
  qed
qed

end

section \<open>Whole sessions\<close>

text \<open>Writing messages until one fails, and reading a number of messages.\<close>

fun write_all :: "raw_message list \<Rightarrow> raw_writer \<Rightarrow> raw_writer \<times> go_error option" where
  "write_all [] w = (w, None)"
| "write_all (msg # msgs) w =
     (case Write msg w of
        (w', Some e) \<Rightarrow> (w', Some e)
      | (w', None) \<Rightarrow> write_all msgs w')"

fun read_all :: "'w ack \<Rightarrow> nat \<Rightarrow> 'w raw_reader \<Rightarrow> 'w raw_reader \<times> raw_message list result" where
  "read_all ack 0 r = (r, Inr [])"
| "read_all ack (Suc n) r =
     (case Read ack r of
        (r', Inl e) \<Rightarrow> (r', Inl e)
      | (r', Inr msg) \<Rightarrow>
          (case read_all ack n r' of
             (r'', Inl e) \<Rightarrow> (r'', Inl e)
           | (r'', Inr msgs) \<Rightarrow> (r'', Inr (msg # msgs))))"

definition writer_stream :: "(byte \<Rightarrow> writer_chunk_stream option) \<Rightarrow> byte \<Rightarrow> writer_chunk_stream" where
  "writer_stream f i = (case f i of None \<Rightarrow> new_writer_chunk_stream | Some wc \<Rightarrow> wc)"

definition reader_stream :: "(byte \<Rightarrow> reader_chunk_stream option) \<Rightarrow> byte \<Rightarrow> reader_chunk_stream" where
  "reader_stream f i = (case f i of None \<Rightarrow> new_reader_chunk_stream | Some rc \<Rightarrow> rc)"

lemma stream_update [simp]:
  "writer_stream (f(i \<mapsto> wc)) j = (if i = j then wc else writer_stream f j)"
  "reader_stream (g(i \<mapsto> rc)) j = (if i = j then rc else reader_stream g j)"
  by (simp_all add: writer_stream_def reader_stream_def)

lemma stream_empty [simp]:
  "writer_stream Map.empty i = new_writer_chunk_stream" "reader_stream Map.empty i = new_reader_chunk_stream"
  by (simp_all add: writer_stream_def reader_stream_def)

fun session_bytes :: "nat \<Rightarrow> raw_message list \<Rightarrow> (byte \<Rightarrow> writer_chunk_stream option) \<Rightarrow> bytes" where
  "session_bytes n [] f = []"
| "session_bytes n (msg # msgs) f =
     (let wc = writer_stream f (m_ChunkStreamID msg) in
      message_bytes n msg wc @ session_bytes n msgs (f(m_ChunkStreamID msg \<mapsto> after_message msg wc)))"

lemma writer_stream_ok_after [simp]: "writer_stream_ok wc \<Longrightarrow> writer_stream_ok (after_message msg wc)"
  by (auto simp: after_message_def split: option.split)

lemma write_all_live:
  assumes "writer_live w" "\<forall>msg\<in>set msgs. length (m_Body msg) < 4294967296"
    "\<forall>i. writer_stream_ok (writer_stream (w_chunkStreams w) i)"
  shows "\<exists>k f. write_all msgs w = (w\<lparr>w_calls := k,
    w_out := w_out w @ session_bytes (unat (w_chunkSize w)) msgs (w_chunkStreams w), w_chunkStreams := f\<rparr>, None)"
  using assms
proof (induction msgs arbitrary: w)
  case Nil
  have "w = w\<lparr>w_calls := w_calls w, w_out := w_out w, w_chunkStreams := w_chunkStreams w\<rparr>" by simp
  then show ?case by (metis append_Nil2 session_bytes.simps(1) write_all.simps(1))
next
  case (Cons msg msgs)
  let ?wc = "writer_stream (w_chunkStreams w) (m_ChunkStreamID msg)"
  obtain k where k: "Write msg w = (w\<lparr>w_calls := k, w_out := w_out w @ message_bytes (unat (w_chunkSize w)) msg ?wc,
    w_chunkStreams := (w_chunkStreams w)(m_ChunkStreamID msg \<mapsto> after_message msg ?wc)\<rparr>, None)" (is "_ = (?w, None)")
    using Write_live [of w msg ?wc] Cons.prems by (auto simp: writer_stream_def)
  have "\<exists>k f. write_all msgs ?w = (?w\<lparr>w_calls := k,
    w_out := w_out ?w @ session_bytes (unat (w_chunkSize ?w)) msgs (w_chunkStreams ?w), w_chunkStreams := f\<rparr>, None)"
  proof (rule Cons.IH)
    show "\<forall>i. writer_stream_ok (writer_stream (w_chunkStreams ?w) i)"
      using Cons.prems(3) by simp
  qed (use Cons.prems in \<open>simp_all add: writer_live_def\<close>)
  with k show ?case by (auto simp: Let_def)
qed

text \<open>
  The messages that a session sends: chunk stream IDs and sizes within the bounds of the reader, and
  on each chunk stream one message stream and timestamps that do not go back.
\<close>

definition sendable :: "raw_message \<Rightarrow> bool" where
  "sendable msg \<longleftrightarrow> 2 \<le> m_ChunkStreamID msg \<and> m_ChunkStreamID msg < 64 \<and> length (m_Body msg) \<le> 10 * 1024 * 1024"

definition follows :: "raw_message \<Rightarrow> raw_message \<Rightarrow> bool" where
  "follows a b \<longleftrightarrow> (m_ChunkStreamID a = m_ChunkStreamID b \<longrightarrow>
     m_MessageStreamID a = m_MessageStreamID b \<and> msg_timestamp a \<le> msg_timestamp b)"

definition continues :: "writer_chunk_stream \<Rightarrow> raw_message \<Rightarrow> bool" where
  "continues wc msg \<longleftrightarrow> lastMessageStreamID wc = None \<or> lastMessageStreamID wc = Some (m_MessageStreamID msg) \<and>
     (\<exists>t. lastTimestamp wc = Some t \<and> t \<le> msg_timestamp msg)"

lemma continues_after:
  "follows a b \<Longrightarrow> m_ChunkStreamID a = m_ChunkStreamID b \<Longrightarrow> writer_stream_ok wc \<Longrightarrow> continues (after_message a wc) b"
  using firstChunk_total [of wc a "word_of_nat (length (m_Body a))" "[]"]
  by (auto simp: continues_def after_message_def follows_def remember_def Let_def)

definition streams_in_step :: "(byte \<Rightarrow> writer_chunk_stream option) \<Rightarrow> (byte \<Rightarrow> reader_chunk_stream option) \<Rightarrow> bool" where
  "streams_in_step f g \<longleftrightarrow>
     (\<forall>i. writer_stream_ok (writer_stream f i) \<and> in_step (writer_stream f i) (reader_stream g i) \<and>
          idle (reader_stream g i) \<and> delta_known (writer_stream f i) (reader_stream g i))"

context ack_handler
begin

lemma read_all_session:
  assumes "inv (r_sink r)" "0 < r_chunkSize r" "\<forall>msg\<in>set msgs. sendable msg" "sorted_wrt follows msgs"
    "streams_in_step f (r_chunkStreams r)" "\<forall>msg\<in>set msgs. continues (writer_stream f (m_ChunkStreamID msg)) msg"
    "r_br r = session_bytes (unat (r_chunkSize r)) msgs f @ rest"
  shows "\<exists>r'. read_all ack (length msgs) r = (r', Inr (map received msgs)) \<and> r_br r' = rest \<and> inv (r_sink r')"
  using assms
proof (induction msgs arbitrary: r f)
  case Nil
  then show ?case by simp
next
  case (Cons msg msgs)
  let ?i = "m_ChunkStreamID msg" and ?wc = "writer_stream f (m_ChunkStreamID msg)"
  let ?f = "f(?i \<mapsto> after_message msg ?wc)"
  let ?rest = "session_bytes (unat (r_chunkSize r)) msgs ?f @ rest"
  have br: "r_br r = message_bytes (unat (r_chunkSize r)) msg ?wc @ ?rest"
    using Cons.prems(7) by (simp add: Let_def)
  have st: "writer_stream_ok ?wc" "in_step ?wc (reader_stream (r_chunkStreams r) ?i)"
    "idle (reader_stream (r_chunkStreams r) ?i)" "delta_known ?wc (reader_stream (r_chunkStreams r) ?i)"
    using Cons.prems(5) by (auto simp: streams_in_step_def)
  have snd: "2 \<le> ?i" "?i < 64" "length (m_Body msg) \<le> 10 * 1024 * 1024"
    using Cons.prems(3) by (auto simp: sendable_def)
  have cont: "lastMessageStreamID ?wc = None \<or> lastMessageStreamID ?wc = Some (m_MessageStreamID msg) \<and>
      (\<exists>t. lastTimestamp ?wc = Some t \<and> t \<le> msg_timestamp msg)"
    using Cons.prems(6) by (simp add: continues_def)
  from Read_message [OF Cons.prems(1,2) snd st(1) reader_stream_def st(3,2,4) br] cont
  obtain r1 rc1 where r1: "Read ack r = (r1, Inr (received msg))"
    "moved r ?rest ((r_chunkStreams r)(?i \<mapsto> rc1)) r1" "idle rc1" "in_step (after_message msg ?wc) rc1"
    "delta_known (after_message msg ?wc) rc1" by blast
  have "\<exists>r'. read_all ack (length msgs) r1 = (r', Inr (map received msgs)) \<and> r_br r' = rest \<and> inv (r_sink r')"
  proof (rule Cons.IH)
    show "streams_in_step ?f (r_chunkStreams r1)"
      using Cons.prems(5) r1(2-5) st(1) by (auto simp: streams_in_step_def moved_def)
    show "\<forall>m\<in>set msgs. continues (writer_stream ?f (m_ChunkStreamID m)) m"
      using Cons.prems(4,6) continues_after [OF _ _ st(1)] by auto
    show "inv (r_sink r1)" "0 < r_chunkSize r1" "r_br r1 = session_bytes (unat (r_chunkSize r1)) msgs ?f @ rest"
      using r1(2) Cons.prems(2) by (simp_all add: moved_def)
  qed (use Cons.prems(3,4) in simp_all)
  with r1(1) show ?case by auto
qed

end

lemma in_step_new [simp]:
  "in_step new_writer_chunk_stream rc" "delta_known new_writer_chunk_stream rc" "idle new_reader_chunk_stream"
  "continues new_writer_chunk_stream msg"
  by (simp_all add: in_step_def delta_known_def idle_def continues_def new_writer_chunk_stream_def new_reader_chunk_stream_def)

text \<open>
  C18. End to end, over any mix of chunk streams: if the connection accepts every write, the messages of
  a session whose timestamps do not go back within a chunk stream are read back one by one, in order,
  unchanged but for the timestamp, which the protocol cuts to 32 bits of milliseconds, and no byte is
  left over. Writer and reader use the same chunk size, between 1 and 10 MiB.
\<close>

theorem raw_session_roundtrip:
  assumes "\<forall>msg\<in>set msgs. sendable msg" "sorted_wrt follows msgs" "0 < n" "n \<le> maxBodySize"
    and "\<And>v s. fst (ack v s) = None"
  shows "\<exists>w' r r'.
    write_all msgs (Writer_SetChunkSize n (raw_NewWriter (\<lambda>_. None) wcount False)) = (w', None) \<and>
    Reader_SetChunkSize n (raw_NewReader (w_out w') rcount sink) = (r, Inr ()) \<and>
    read_all ack (length msgs) r = (r', Inr (map received msgs)) \<and> r_br r' = []"
proof -
  let ?w = "Writer_SetChunkSize n (raw_NewWriter (\<lambda>_. None) wcount False)"
  let ?bytes = "session_bytes (unat n) msgs Map.empty"
  have "\<forall>msg\<in>set msgs. length (m_Body msg) < 4294967296"
    using assms(1) by (auto simp: sendable_def)
  with assms(3) obtain k f where w: "write_all msgs ?w = (?w\<lparr>w_calls := k, w_out := ?bytes, w_chunkStreams := f\<rparr>, None)"
    using write_all_live [of ?w msgs] by (auto simp: writer_live_def Writer_SetChunkSize_def raw_NewWriter_def)
  let ?r = "raw_NewReader ?bytes rcount sink\<lparr>r_chunkSize := n\<rparr>"
  have "ack_handler ack (\<lambda>_. True)"
    by standard (use assms(5) in simp)
  from ack_handler.read_all_session [OF this, of ?r msgs Map.empty "[]"] assms(1-3)
  obtain r' where "read_all ack (length msgs) ?r = (r', Inr (map received msgs))" "r_br r' = []"
    by (auto simp: raw_NewReader_def streams_in_step_def)
  with w assms(4) show ?thesis by (auto simp: Reader_SetChunkSize_def)
qed

definition sample_message :: "int \<Rightarrow> raw_message" where
  "sample_message t = \<lparr>m_ChunkStreamID = 4, m_Timestamp = t * millisecond, m_Type = 8, m_MessageStreamID = 1,
     m_Body = [1, 2, 3, 4, 5]\<rparr>"

lemma sample_message_ts [simp]: "msg_timestamp (sample_message t) = t"
  by (simp add: msg_timestamp_def sample_message_def)

lemma raw_session_roundtrip_witness:
  "\<exists>w' r r'.
    write_all [sample_message 0, sample_message 10, sample_message 20, sample_message 30]
      (Writer_SetChunkSize 2 (raw_NewWriter (\<lambda>_. None) (\<lambda>_. 0) False)) = (w', None) \<and>
    Reader_SetChunkSize 2 (raw_NewReader (w_out w') (\<lambda>_. 0) ()) = (r, Inr ()) \<and>
    read_all (\<lambda>_ s. (None, s)) (length [sample_message 0, sample_message 10, sample_message 20, sample_message 30]) r =
      (r', Inr (map received [sample_message 0, sample_message 10, sample_message 20, sample_message 30])) \<and> r_br r' = []"
  by (rule raw_session_roundtrip)
    (simp_all add: sendable_def follows_def maxBodySize_def, simp_all add: sample_message_def)

text \<open>
  The condition on timestamps is needed. When a timestamp goes back the writer sends a chunk of
  type 0 but still remembers the delta of an earlier chunk; a message that repeats this delta is then sent
  as a chunk of type 3, which the reader refuses, since a chunk of type 0 resets its delta.
\<close>

theorem raw_session_timestamp_back:
  "\<exists>w'. write_all [sample_message 0, sample_message 10, sample_message 5, sample_message 15]
      (raw_NewWriter (\<lambda>_. None) (\<lambda>_. 0) False) = (w', None) \<and>
    snd (read_all (\<lambda>_ s. (None, s)) 3 (raw_NewReader (w_out w') (\<lambda>_. 0) ())) =
      Inr [sample_message 0, sample_message 10, sample_message 5] \<and>
    snd (read_all (\<lambda>_ s. (None, s)) 4 (raw_NewReader (w_out w') (\<lambda>_. 0) ())) =
      Inl (Errorf ''received type 3 chunk without previous chunk'' [])"
proof -
  have "snd (write_all [sample_message 0, sample_message 10, sample_message 5, sample_message 15]
      (raw_NewWriter (\<lambda>_. None) (\<lambda>_. 0) False)) = None"
    by code_simp
  moreover have "snd (read_all (\<lambda>_ s. (None, s)) 3 (raw_NewReader (w_out (fst (
      write_all [sample_message 0, sample_message 10, sample_message 5, sample_message 15]
        (raw_NewWriter (\<lambda>_. None) (\<lambda>_. 0) False)))) (\<lambda>_. 0) ())) =
      Inr [sample_message 0, sample_message 10, sample_message 5]"
    by code_simp
  moreover have "snd (read_all (\<lambda>_ s. (None, s)) 4 (raw_NewReader (w_out (fst (
      write_all [sample_message 0, sample_message 10, sample_message 5, sample_message 15]
        (raw_NewWriter (\<lambda>_. None) (\<lambda>_. 0) False)))) (\<lambda>_. 0) ())) =
      Inl (Errorf ''received type 3 chunk without previous chunk'' [])"
    by code_simp
  ultimately show ?thesis by (metis prod.collapse)
qed

end
