(* ===== verification/Amf0.thy ===== *)
theory Amf0
  imports Prelude
begin

text \<open>
  Package amf0 (src/mediamtx/internal/protocols/rtmp/amf0): the decoder and encoder of AMF0 data,
  the payload of the command, data and metadata messages of RTMP, and the lookups in AMF0 objects.

  \<open>float64\<close> values are their IEEE 754 bit patterns, since \<open>math.Float64bits\<close> and
  \<open>math.Float64frombits\<close> copy bits. \<open>AOther\<close> stands for a Go value of any type that the encoder does
  not support.
\<close>

section \<open>Data\<close>

datatype amf =
    ANumber u64
  | ABoolean bool
  | AString string
  | AECMAArray "(string \<times> amf) list"
  | AObject "(string \<times> amf) list"
  | ANull
  | AStrictArray "amf list"
  | AOther

definition markerNumber :: byte where "markerNumber = 0x00"
definition markerBoolean :: byte where "markerBoolean = 0x01"
definition markerString :: byte where "markerString = 0x02"
definition markerObject :: byte where "markerObject = 0x03"
definition markerNull :: byte where "markerNull = 0x05"
definition markerECMAArray :: byte where "markerECMAArray = 0x08"
definition markerObjectEnd :: byte where "markerObjectEnd = 0x09"
definition markerStrictArray :: byte where "markerStrictArray = 0x0A"

lemmas marker_defs = markerNumber_def markerBoolean_def markerString_def markerObject_def
  markerNull_def markerECMAArray_def markerObjectEnd_def markerStrictArray_def

definition errBufferTooShort :: go_error where
  "errBufferTooShort = Errorf ''buffer is too short'' []"

section \<open>Decoder\<close>

text \<open>The check that ends an object and an ECMA array.\<close>

fun object_end :: "((string \<times> amf) list \<Rightarrow> amf) \<Rightarrow> ((string \<times> amf) list \<times> bytes) result \<Rightarrow> (amf \<times> bytes) result" where
  "object_end mk (Inl e) = Inl e"
| "object_end mk (Inr (out, [])) = Inl errBufferTooShort"
| "object_end mk (Inr (out, b # buf)) =
     (if b \<noteq> markerObjectEnd then Inl (Errorf ''object end not found'' []) else Inr (mk out, buf))"

text \<open>
  \<open>unmarshal\<close> decodes one value and returns the bytes after it; \<open>unmarshal_entries\<close> is the loop over
  the entries of an object or an ECMA array, up to the empty key; \<open>unmarshal_items\<close> is the loop over
  the items of a strict array.
\<close>

function (sequential) unmarshal :: "bytes \<Rightarrow> (amf \<times> bytes) result"
  and unmarshal_entries :: "bytes \<Rightarrow> ((string \<times> amf) list \<times> bytes) result"
  and unmarshal_items :: "nat \<Rightarrow> bytes \<Rightarrow> (amf list \<times> bytes) result"
where
  "unmarshal [] = Inl errBufferTooShort"
| "unmarshal (marker # buf) =
     (if marker = markerNumber then
        (case buf of b0 # b1 # b2 # b3 # b4 # b5 # b6 # b7 # buf' \<Rightarrow>
           Inr (ANumber (be64 b0 b1 b2 b3 b4 b5 b6 b7), buf')
         | _ \<Rightarrow> Inl errBufferTooShort)
      else if marker = markerBoolean then
        (case buf of b0 # buf' \<Rightarrow> Inr (ABoolean (b0 \<noteq> 0), buf') | [] \<Rightarrow> Inl errBufferTooShort)
      else if marker = markerString then
        (case buf of b0 # b1 # buf' \<Rightarrow>
           let le = unat (be16 b0 b1) in
             if length buf' < le then Inl errBufferTooShort
             else Inr (AString (string_of (take le buf')), drop le buf')
         | _ \<Rightarrow> Inl errBufferTooShort)
      else if marker = markerECMAArray then
        (if length buf < 4 then Inl errBufferTooShort
         else object_end AECMAArray (unmarshal_entries (drop 4 buf)))
      else if marker = markerObject then object_end AObject (unmarshal_entries buf)
      else if marker = markerNull then Inr (ANull, buf)
      else if marker = markerStrictArray then
        (case buf of b0 # b1 # b2 # b3 # buf' \<Rightarrow>
           (case unmarshal_items (unat (be32 b0 b1 b2 b3)) buf' of
              Inl e \<Rightarrow> Inl e
            | Inr (out, buf'') \<Rightarrow> Inr (AStrictArray out, buf''))
         | _ \<Rightarrow> Inl errBufferTooShort)
      else Inl (Errorf ''unsupported marker 0x%.2x'' [uint marker]))"
| "unmarshal_entries (b0 # b1 # buf) =
     (let keyLen = unat (be16 b0 b1) in
        if keyLen = 0 then Inr ([], buf)
        else if length buf < keyLen then Inl errBufferTooShort
        else case unmarshal (drop keyLen buf) of
          Inl e \<Rightarrow> Inl e
        | Inr (value, buf') \<Rightarrow>
            (case unmarshal_entries buf' of
               Inl e \<Rightarrow> Inl e
             | Inr (out, buf'') \<Rightarrow> Inr ((string_of (take keyLen buf), value) # out, buf'')))"
| "unmarshal_entries _ = Inl errBufferTooShort"
| "unmarshal_items 0 buf = Inr ([], buf)"
| "unmarshal_items (Suc n) buf =
     (case unmarshal buf of
        Inl e \<Rightarrow> Inl e
      | Inr (value, buf') \<Rightarrow>
          (case unmarshal_items n buf' of
             Inl e \<Rightarrow> Inl e
           | Inr (out, buf'') \<Rightarrow> Inr (value # out, buf'')))"
  by pat_completeness auto

lemma object_end_Inr:
  "object_end mk r = Inr (v, rest) \<longleftrightarrow>
     (\<exists>out. r = Inr (out, markerObjectEnd # rest) \<and> v = mk out)"
  by (cases "(mk, r)" rule: object_end.cases) auto

lemma unmarshal_shorter_dom:
  "unmarshal_unmarshal_entries_unmarshal_items_dom (Inl buf) \<Longrightarrow> unmarshal buf = Inr (v, rest) \<Longrightarrow> length rest < length buf"
  "unmarshal_unmarshal_entries_unmarshal_items_dom (Inr (Inl buf)) \<Longrightarrow> unmarshal_entries buf = Inr (es, rest) \<Longrightarrow> length rest < length buf"
  "unmarshal_unmarshal_entries_unmarshal_items_dom (Inr (Inr (n, buf))) \<Longrightarrow> unmarshal_items n buf = Inr (vs, rest) \<Longrightarrow> length rest \<le> length buf"
proof (induction buf and buf and n buf arbitrary: v rest and es rest and vs rest
    rule: unmarshal_unmarshal_entries_unmarshal_items.pinduct)
  case 1
  then show ?case by (simp add: unmarshal.psimps)
next
  case (2 marker buf)
  have ecma: "unmarshal_entries (drop 4 buf) = Inr (es, r) \<Longrightarrow> marker = markerECMAArray \<Longrightarrow>
      4 \<le> length buf \<Longrightarrow> length r < length buf - 4" for es r
    using 2(2) by (auto simp: marker_defs)
  have obj: "unmarshal_entries buf = Inr (es, r) \<Longrightarrow> marker = markerObject \<Longrightarrow> length r < length buf" for es r
    using 2(3) by (auto simp: marker_defs)
  have arr: "unmarshal_items (unat (be32 b0 b1 b2 b3)) buf' = Inr (vs, r) \<Longrightarrow> marker = markerStrictArray \<Longrightarrow>
      buf = b0 # b1 # b2 # b3 # buf' \<Longrightarrow> length r \<le> length buf'" for b0 b1 b2 b3 buf' vs r
    using 2(4) by (auto simp: marker_defs)
  from 2(1) 2(5) show ?case
    by (auto simp: unmarshal.psimps object_end_Inr Let_def split: if_splits list.splits sum.splits
        dest!: ecma obj arr)
next
  case (3 b0 b1 buf)
  let ?k = "unat (be16 b0 b1)"
  have val: "unmarshal (drop ?k buf) = Inr (w, r) \<Longrightarrow> ?k \<noteq> 0 \<Longrightarrow> ?k \<le> length buf \<Longrightarrow>
      length r < length buf - ?k" for w r
    using 3(2) by auto
  have ents: "unmarshal_entries buf' = Inr (out, r) \<Longrightarrow> unmarshal (drop ?k buf) = Inr (w, buf') \<Longrightarrow>
      ?k \<noteq> 0 \<Longrightarrow> ?k \<le> length buf \<Longrightarrow> length r < length buf'" for w buf' out r
    using 3(3) by auto
  from 3(1,4) show ?case
    by (auto simp: unmarshal_entries.psimps Let_def not_less split: if_splits sum.splits)
      (use val ents in fastforce)
next
  case (5 buf)
  then show ?case by (simp add: unmarshal_items.psimps)
next
  case (6 n buf)
  from 6(1,4) obtain w buf' out where "unmarshal buf = Inr (w, buf')" "unmarshal_items n buf' = Inr (out, rest)"
    by (auto simp: unmarshal_items.psimps split: sum.splits)
  with 6(2) 6(3) show ?case by fastforce
qed (simp_all add: unmarshal_entries.psimps)

lemma unmarshal_total: "All unmarshal_unmarshal_entries_unmarshal_items_dom"
  by (relation "measure (\<lambda>x. case x of Inl buf \<Rightarrow> 2 * length buf | Inr (Inl buf) \<Rightarrow> 2 * length buf
        | Inr (Inr (n, buf)) \<Rightarrow> 2 * length buf + 1)")
    (auto dest!: unmarshal_shorter_dom)

termination unmarshal
  by (rule unmarshal_total)

lemma unmarshal_shorter: "unmarshal buf = Inr (v, rest) \<Longrightarrow> length rest < length buf"
  by (rule unmarshal_shorter_dom(1)) (use unmarshal_total in simp_all)

declare unmarshal.simps(2) [simp del]

text \<open>\<open>Unmarshal\<close> decodes values until the buffer is empty.\<close>

function Unmarshal :: "bytes \<Rightarrow> amf list result" where
  "Unmarshal buf =
     (if buf = [] then Inr []
      else case unmarshal buf of
        Inl e \<Rightarrow> Inl e
      | Inr (item, buf') \<Rightarrow> bindE (Unmarshal buf') (\<lambda>out. Inr (item # out)))"
  by pat_completeness auto
termination
  by (relation "measure length") (auto dest: unmarshal_shorter)

declare Unmarshal.simps [simp del]

section \<open>Encoder\<close>

text \<open>
  The size that the encoder reserves, and the bytes that \<open>marshalItem\<close> writes into the zeroed buffer
  of that size. Lengths are written modulo their field, as the conversions to \<open>byte\<close> do.
\<close>

fun marshalSizeItem :: "amf \<Rightarrow> nat result"
  and marshalSizeEntries :: "(string \<times> amf) list \<Rightarrow> nat result"
  and marshalSizeItems :: "amf list \<Rightarrow> nat result"
where
  "marshalSizeItem (ANumber _) = Inr 9"
| "marshalSizeItem (ABoolean _) = Inr 2"
| "marshalSizeItem (AString s) = Inr (3 + length s)"
| "marshalSizeItem (AECMAArray es) = bindE (marshalSizeEntries es) (\<lambda>n. Inr (5 + n + 3))"
| "marshalSizeItem (AObject es) = bindE (marshalSizeEntries es) (\<lambda>n. Inr (1 + n + 3))"
| "marshalSizeItem (AStrictArray vs) = bindE (marshalSizeItems vs) (\<lambda>n. Inr (5 + n))"
| "marshalSizeItem ANull = Inr 1"
| "marshalSizeItem AOther = Inl (Errorf ''unsupported data type: %T'' [])"
| "marshalSizeEntries [] = Inr 0"
| "marshalSizeEntries ((k, v) # es) =
     bindE (marshalSizeItem v) (\<lambda>en. bindE (marshalSizeEntries es) (\<lambda>n. Inr (2 + length k + en + n)))"
| "marshalSizeItems [] = Inr 0"
| "marshalSizeItems (v # vs) =
     bindE (marshalSizeItem v) (\<lambda>en. bindE (marshalSizeItems vs) (\<lambda>n. Inr (en + n)))"

fun marshalItem :: "amf \<Rightarrow> bytes"
  and marshalEntries :: "(string \<times> amf) list \<Rightarrow> bytes"
  and marshalItems :: "amf list \<Rightarrow> bytes"
where
  "marshalItem (ANumber v) = markerNumber # put64 v"
| "marshalItem (ABoolean b) = [markerBoolean, if b then 1 else 0]"
| "marshalItem (AString s) = markerString # put16 (word_of_nat (length s)) @ bytes_of s"
| "marshalItem (AECMAArray es) =
     markerECMAArray # put32 (word_of_nat (length es)) @ marshalEntries es @ [0, 0, markerObjectEnd]"
| "marshalItem (AObject es) = markerObject # marshalEntries es @ [0, 0, markerObjectEnd]"
| "marshalItem (AStrictArray vs) =
     markerStrictArray # put32 (word_of_nat (length vs)) @ marshalItems vs"
| "marshalItem _ = [markerNull]"
| "marshalEntries [] = []"
| "marshalEntries ((k, v) # es) =
     put16 (word_of_nat (length k)) @ bytes_of k @ marshalItem v @ marshalEntries es"
| "marshalItems [] = []"
| "marshalItems (v # vs) = marshalItem v @ marshalItems vs"

definition MarshalSize :: "amf list \<Rightarrow> nat result" where
  "MarshalSize data = marshalSizeItems data"

definition MarshalTo :: "amf list \<Rightarrow> bytes" where
  "MarshalTo data = marshalItems data"

definition Marshal :: "amf list \<Rightarrow> bytes result" where
  "Marshal data = bindE (MarshalSize data) (\<lambda>n. Inr (MarshalTo data))"

section \<open>Object lookups\<close>

fun Get :: "(string \<times> amf) list \<Rightarrow> string \<Rightarrow> amf option" where
  "Get [] key = None"
| "Get ((k, v) # o') key = (if k = key then Some v else Get o' key)"

definition GetString :: "(string \<times> amf) list \<Rightarrow> string \<Rightarrow> string option" where
  "GetString o' key = (case Get o' key of Some (AString v) \<Rightarrow> Some v | _ \<Rightarrow> None)"

definition GetFloat64 :: "(string \<times> amf) list \<Rightarrow> string \<Rightarrow> u64 option" where
  "GetFloat64 o' key = (case Get o' key of Some (ANumber v) \<Rightarrow> Some v | _ \<Rightarrow> None)"

lemma Get_map_of: "Get o' key = map_of o' key"
  by (induction o' key rule: Get.induct) auto

section \<open>Correctness\<close>

text \<open>
  The values that AMF0 can carry: strings and keys fit their 16-bit length, no key is empty (an empty
  key ends an object), arrays fit their 32-bit count, and no value has an unsupported type.
\<close>

fun amf_ok :: "amf \<Rightarrow> bool" and entries_ok :: "(string \<times> amf) list \<Rightarrow> bool" and items_ok :: "amf list \<Rightarrow> bool"
where
  "amf_ok (AString s) = (length s < 65536)"
| "amf_ok (AECMAArray es) = entries_ok es"
| "amf_ok (AObject es) = entries_ok es"
| "amf_ok (AStrictArray vs) = (length vs < 4294967296 \<and> items_ok vs)"
| "amf_ok AOther = False"
| "amf_ok _ = True"
| "entries_ok [] = True"
| "entries_ok ((k, v) # es) = (k \<noteq> [] \<and> length k < 65536 \<and> amf_ok v \<and> entries_ok es)"
| "items_ok [] = True"
| "items_ok (v # vs) = (amf_ok v \<and> items_ok vs)"

lemma marshal_sizes:
  "marshalSizeItem v = Inr n \<Longrightarrow> length (marshalItem v) = n"
  "marshalSizeEntries es = Inr n \<Longrightarrow> length (marshalEntries es) = n"
  "marshalSizeItems vs = Inr n \<Longrightarrow> length (marshalItems vs) = n"
  by (induction v and es and vs arbitrary: n and n and n rule: marshalSizeItem_marshalSizeEntries_marshalSizeItems.induct)
    (auto simp: bindE_eq_Inr)

lemma marshal_sizes_ok:
  "amf_ok v \<Longrightarrow> \<exists>n. marshalSizeItem v = Inr n"
  "entries_ok es \<Longrightarrow> \<exists>n. marshalSizeEntries es = Inr n"
  "items_ok vs \<Longrightarrow> \<exists>n. marshalSizeItems vs = Inr n"
  by (induction v and es and vs rule: amf_ok_entries_ok_items_ok.induct) auto

lemma unmarshal_marshal:
  "amf_ok v \<Longrightarrow> unmarshal (marshalItem v @ rest) = Inr (v, rest)"
  "entries_ok es \<Longrightarrow> unmarshal_entries (marshalEntries es @ 0 # 0 # rest) = Inr (es, rest)"
  "items_ok vs \<Longrightarrow> unmarshal_items (length vs) (marshalItems vs @ rest) = Inr (vs, rest)"
proof (induction v and es and vs arbitrary: rest and rest and rest rule: amf_ok_entries_ok_items_ok.induct)
qed (auto simp: unmarshal.simps marker_defs put16_def put32_def put64_def unat_word_of_nat_16 unat_word_of_nat_32)

lemma unmarshal_ok:
  "unmarshal buf = Inr (v, rest) \<Longrightarrow> amf_ok v"
  "unmarshal_entries buf = Inr (es, rest) \<Longrightarrow> entries_ok es"
  "unmarshal_items n buf = Inr (vs, rest) \<Longrightarrow> items_ok vs \<and> length vs = n"
proof (induction buf and buf and n buf arbitrary: v rest and es rest and vs rest
    rule: unmarshal_unmarshal_entries_unmarshal_items.induct)
  case (2 marker buf)
  have arr: "items_ok vs \<and> length vs = unat (be32 b0 b1 b2 b3)"
    if "unmarshal_items (unat (be32 b0 b1 b2 b3)) buf' = Inr (vs, r)" "marker = markerStrictArray"
      "buf = b0 # b1 # b2 # b3 # buf'" for b0 b1 b2 b3 buf' vs r
    using 2(3) that by (auto simp: marker_defs)
  show ?case
    using 2(4) 2(1) 2(2)
    by (auto simp: unmarshal.simps(2) object_end_Inr Let_def split: if_splits list.splits sum.splits dest!: arr)
next
  case (3 b0 b1 buf)
  then show ?case
    by (fastforce simp: Let_def split: if_splits sum.splits)
next
  case (6 n buf)
  then show ?case
    by (fastforce split: sum.splits)
qed auto

lemma Unmarshal_append:
  "items_ok vs \<Longrightarrow> Unmarshal (marshalItems vs) = Inr vs"
proof (induction vs)
  case (Cons v vs)
  moreover from Cons.prems have "marshalItem v \<noteq> []" by (cases v) auto
  ultimately show ?case
    by (subst Unmarshal.simps) (simp add: unmarshal_marshal)
qed (simp add: Unmarshal.simps)

lemma Unmarshal_items_ok: "Unmarshal buf = Inr vs \<Longrightarrow> items_ok vs"
proof (induction buf arbitrary: vs rule: Unmarshal.induct)
  case (1 buf)
  then show ?case
    by (subst (asm) (2) Unmarshal.simps)
      (fastforce simp: bindE_eq_Inr split: if_splits sum.splits dest: unmarshal_ok(1))
qed

text \<open>Every sequence of AMF0 values is encoded without an error, into exactly the number of bytes
  that \<open>MarshalSize\<close> reserved, and decoding these bytes gives the sequence back.\<close>

theorem amf0_roundtrip:
  assumes "items_ok data"
  shows "\<exists>buf. Marshal data = Inr buf \<and> MarshalSize data = Inr (length buf) \<and> Unmarshal buf = Inr data"
proof -
  from marshal_sizes_ok(3) [OF assms] obtain n where "marshalSizeItems data = Inr n" by blast
  with marshal_sizes(3) [OF this] Unmarshal_append [OF assms] show ?thesis
    by (simp add: Marshal_def MarshalSize_def MarshalTo_def)
qed

lemma amf0_roundtrip_witness:
  "\<exists>buf. Marshal [AString ''connect'', AObject [(''app'', AString ''live''), (''fpad'', ABoolean False)], AStrictArray [ANull]]
      = Inr buf \<and> Unmarshal buf =
     Inr [AString ''connect'', AObject [(''app'', AString ''live''), (''fpad'', ABoolean False)], AStrictArray [ANull]]"
  using amf0_roundtrip [of "[AString ''connect'', AObject [(''app'', AString ''live''), (''fpad'', ABoolean False)],
     AStrictArray [ANull]]"] by auto

text \<open>Whatever the decoder accepts is encodable, and survives being encoded and decoded again; so a
  message that was received and is sent on keeps its meaning.\<close>

theorem amf0_accepted_stable:
  assumes "Unmarshal buf = Inr data"
  shows "items_ok data \<and> (\<exists>buf'. Marshal data = Inr buf' \<and> Unmarshal buf' = Inr data)"
proof -
  from assms have "items_ok data" by (rule Unmarshal_items_ok)
  with marshal_sizes_ok(3) [OF this] Unmarshal_append [OF this] show ?thesis
    by (auto simp: Marshal_def MarshalSize_def MarshalTo_def)
qed

lemma amf0_accepted_stable_witness:
  "Unmarshal [2, 0, 1, 97, 1, 7] = Inr [AString ''a'', ABoolean True] \<and>
     items_ok [AString ''a'', ABoolean True]"
proof -
  have u: "Unmarshal [2, 0, 1, 97, 1, 7] = Inr [AString ''a'', ABoolean True]"
    by (simp add: Unmarshal.simps unmarshal.simps marker_defs be16_def string_of_def char_of_eq_iff)
  with amf0_accepted_stable [OF u] show ?thesis by blast
qed

end
