(* ===== verification/Float64.thy ===== *)
theory Float64
  imports Prelude
begin

text \<open>
  Go's conversions between \<open>int\<close> (64 bits) and \<open>float64\<close>, which the AMF0 messages use for transaction
  numbers and bit rates. A \<open>float64\<close> is its 64 bits (IEEE 754 binary64), as \<open>math.Float64frombits\<close> and
  \<open>math.Float64bits\<close> see it. An integer is rounded to the nearest float, ties to even. A float is cut
  to an integer; the language leaves the result open when it does not fit (and for NaN), and the model
  takes what the code compiles to on amd64, the smallest integer.
\<close>

section \<open>Conversions\<close>

fun bit_length :: "nat \<Rightarrow> nat" where
  "bit_length n = (if n = 0 then 0 else Suc (bit_length (n div 2)))"

declare bit_length.simps [simp del]

text \<open>The mantissa, of 53 bits, and the exponent of a positive number.\<close>

definition round_mantissa :: "nat \<Rightarrow> nat \<times> nat" where
  "round_mantissa a =
     (let e = bit_length a - 1 in
      if e \<le> 52 then (a * 2 ^ (52 - e), e)
      else let s = e - 52; q = a div 2 ^ s; r = a mod 2 ^ s; h = 2 ^ (s - 1);
               q' = (if r > h \<or> r = h \<and> odd q then q + 1 else q)
           in if q' = 2 ^ 53 then (2 ^ 52, e + 1) else (q', e))"

definition float64_of_int :: "int \<Rightarrow> u64" where
  "float64_of_int n =
     (if n = 0 then 0
      else case round_mantissa (nat \<bar>n\<bar>) of (m, e) \<Rightarrow>
        word_of_nat ((if n < 0 then 2 ^ 63 else 0) + (e + 1023) * 2 ^ 52 + (m - 2 ^ 52)))"

definition int_of_float64 :: "u64 \<Rightarrow> int" where
  "int_of_float64 w =
     (let bits = unat w; neg = (2 ^ 63 \<le> bits); ex = bits div 2 ^ 52 mod 2 ^ 11; m = 2 ^ 52 + bits mod 2 ^ 52;
          v = (if ex < 1023 then 0
               else if ex - 1023 \<le> 52 then int (m div 2 ^ (52 - (ex - 1023)))
               else int (m * 2 ^ (ex - 1023 - 52)));
          i = (if neg then - v else v)
      in if ex = 2047 \<or> i < - (2 ^ 63) \<or> 2 ^ 63 \<le> i then - (2 ^ 63) else i)"

section \<open>Integers up to 53 bits survive\<close>

lemma bit_length_bounds: "0 < n \<Longrightarrow> 2 ^ (bit_length n - 1) \<le> n \<and> n < 2 ^ bit_length n \<and> 0 < bit_length n"
proof (induction n rule: bit_length.induct)
  case (1 n)
  show ?case
  proof (cases "n div 2 = 0")
    case True
    with 1(2) have "n = 1" by simp
    then show ?thesis by (simp add: bit_length.simps)
  next
    case False
    then have "2 ^ (bit_length (n div 2) - 1) \<le> n div 2 \<and> n div 2 < 2 ^ bit_length (n div 2) \<and> 0 < bit_length (n div 2)"
      using 1 by simp
    moreover from this have "(2::nat) ^ bit_length (n div 2) = 2 * 2 ^ (bit_length (n div 2) - 1)"
      by (metis Suc_diff_1 power_Suc)
    moreover have "2 * p \<le> n \<and> n < 4 * p" if "p \<le> n div 2" "n div 2 < 2 * p" for p :: nat
      using that by presburger
    ultimately show ?thesis
      using 1(2) by (subst (1 2 3) bit_length.simps) simp
  qed
qed

lemma unat_word_of_nat_64: "n < 2 ^ 64 \<Longrightarrow> unat (word_of_nat n :: u64) = n"
  by (simp add: unat_of_nat)

lemma fields: "f < b \<Longrightarrow> (x * b + f) div b = x" "f < b \<Longrightarrow> (x * b + f) mod b = (f :: nat)"
  by auto

lemma float64_exact:
  assumes "\<bar>n\<bar> < 2 ^ 53"
  shows "int_of_float64 (float64_of_int n) = n"
proof (cases "n = 0")
  case True
  then show ?thesis by (simp add: float64_of_int_def int_of_float64_def Let_def)
next
  case False
  let ?a = "nat \<bar>n\<bar>"
  define e where "e = bit_length ?a - 1"
  have a: "0 < ?a" "?a < 2 ^ 53" using False assms by auto
  have bl: "2 ^ e \<le> ?a" "?a < 2 ^ (e + 1)"
    using bit_length_bounds [OF a(1)] by (auto simp: e_def)
  then have "(2::nat) ^ e < 2 ^ 53" using a(2) by linarith
  then have e: "e \<le> 52" by (simp only: power_strict_increasing_iff)
  define m where "m = ?a * 2 ^ (52 - e)"
  have m: "2 ^ 52 \<le> m" "m < 2 ^ 53"
  proof -
    have p: "(2::nat) ^ e * 2 ^ (52 - e) = 2 ^ 52" "(2::nat) ^ (e + 1) * 2 ^ (52 - e) = 2 ^ 53"
      using e by (simp_all flip: power_add)
    show "2 ^ 52 \<le> m" unfolding m_def p(1) [symmetric] using bl(1) by simp
    show "m < 2 ^ 53" unfolding m_def p(2) [symmetric] using bl(2) by simp
  qed
  define s :: nat where "s = (if n < 0 then 1 else 0)"
  define f where "f = m - 2 ^ 52"
  have f: "f < 2 ^ 52" "2 ^ 52 + f = m" using m by (simp_all add: f_def)
  let ?bits = "(if n < 0 then 2 ^ 63 else 0) + (e + 1023) * 2 ^ 52 + f :: nat"
  have bits: "?bits = (s * 2 ^ 11 + (e + 1023)) * 2 ^ 52 + f" by (simp add: s_def)
  have s: "s \<le> 1" by (simp add: s_def)
  then have lt: "(s * 2 ^ 11 + (e + 1023)) * 2 ^ 52 + f < 2 ^ 64" using e f(1) by simp
  have rm: "round_mantissa ?a = (m, e)"
    using e by (simp only: round_mantissa_def Let_def e_def [symmetric] m_def if_True)
  have F: "float64_of_int n = word_of_nat ((s * 2 ^ 11 + (e + 1023)) * 2 ^ 52 + f)"
    using False by (simp only: bits [symmetric] float64_of_int_def rm prod.case f_def [symmetric] if_False)
  have u: "unat (float64_of_int n) = (s * 2 ^ 11 + (e + 1023)) * 2 ^ 52 + f"
    unfolding F using lt by (rule unat_word_of_nat_64)
  have k: "e + 1023 < 2 ^ 11" using e by simp
  have d: "((s * 2 ^ 11 + (e + 1023)) * 2 ^ 52 + f) div 2 ^ 52 mod 2 ^ 11 = e + 1023"
    "((s * 2 ^ 11 + (e + 1023)) * 2 ^ 52 + f) mod 2 ^ 52 = f"
    unfolding fields(1) [OF f(1)] fields(2) [OF f(1)] fields(2) [OF k] by (rule refl)+
  have "(e + 1023) * 2 ^ 52 + f < 2 ^ 63"
  proof -
    have "(e + 1023) * 2 ^ 52 \<le> 1075 * 2 ^ 52" using e by (intro mult_right_mono) simp_all
    with f(1) show ?thesis by simp
  qed
  then have neg: "2 ^ 63 \<le> (s * 2 ^ 11 + (e + 1023)) * 2 ^ 52 + f \<longleftrightarrow> n < 0"
    by (cases "n < 0") (simp_all add: s_def)
  have v: "m div 2 ^ (52 - e) = ?a" by (simp add: m_def)
  show ?thesis
    unfolding int_of_float64_def Let_def u d neg f(2) using e v assms by (simp add: abs_less_iff)
qed

end
