(* ===== verification/MessageControl.thy ===== *)
theory MessageControl
  imports RawReader Amf0 Float64
begin

text \<open>
  The control and command messages of package message (src/mediamtx/internal/protocols/rtmp/message): the
  codes of message.go, what every struct of the package promises (\<open>message_struct\<close>), and the structs
  that set up and control a connection. A struct with one field is that field.

  A decoder takes the bytes it needs out of the body by pattern matching; where the source would index
  out of range the result is \<open>Panic\<close>.
\<close>

section \<open>Codes\<close>

definition ControlChunkStreamID :: byte where "ControlChunkStreamID = 2"

definition TypeSetChunkSize :: u8 where "TypeSetChunkSize = 1"
definition TypeAcknowledge :: u8 where "TypeAcknowledge = 3"
definition TypeUserControl :: u8 where "TypeUserControl = 4"
definition TypeSetWindowAckSize :: u8 where "TypeSetWindowAckSize = 5"
definition TypeSetPeerBandwidth :: u8 where "TypeSetPeerBandwidth = 6"
definition TypeAudio :: u8 where "TypeAudio = 8"
definition TypeVideo :: u8 where "TypeVideo = 9"
definition TypeDataAMF0 :: u8 where "TypeDataAMF0 = 18"
definition TypeCommandAMF0 :: u8 where "TypeCommandAMF0 = 20"

lemmas Type_defs = TypeSetChunkSize_def TypeAcknowledge_def TypeUserControl_def TypeSetWindowAckSize_def
  TypeSetPeerBandwidth_def TypeAudio_def TypeVideo_def TypeDataAMF0_def TypeCommandAMF0_def

definition UserControlTypeStreamBegin :: u16 where "UserControlTypeStreamBegin = 0"
definition UserControlTypeStreamEOF :: u16 where "UserControlTypeStreamEOF = 1"
definition UserControlTypeStreamDry :: u16 where "UserControlTypeStreamDry = 2"
definition UserControlTypeSetBufferLength :: u16 where "UserControlTypeSetBufferLength = 3"
definition UserControlTypeStreamIsRecorded :: u16 where "UserControlTypeStreamIsRecorded = 4"
definition UserControlTypePingRequest :: u16 where "UserControlTypePingRequest = 6"
definition UserControlTypePingResponse :: u16 where "UserControlTypePingResponse = 7"

lemmas UserControlType_defs = UserControlTypeStreamBegin_def UserControlTypeStreamEOF_def
  UserControlTypeStreamDry_def UserControlTypeSetBufferLength_def UserControlTypeStreamIsRecorded_def
  UserControlTypePingRequest_def UserControlTypePingResponse_def

section \<open>What a message struct promises\<close>

text \<open>
  \<open>marshal\<close> and \<open>unmarshal\<close> of a struct, with the values that the wire format can carry (\<open>ok\<close>), the
  message type and a predicate on the body by which the reader recognises the struct (\<open>tagged\<close>). What is
  carried comes back, and no input makes the decoder panic.
\<close>

locale message_struct =
  fixes marshal :: "'m \<Rightarrow> raw_message result" and unmarshal :: "raw_message \<Rightarrow> 'm result"
    and ok :: "'m \<Rightarrow> bool" and typ' :: u8 and tagged :: "bytes \<Rightarrow> bool"
  assumes read_back_law: "ok m \<Longrightarrow> bindE (marshal m) unmarshal = Inr m"
    and marshal_tag: "ok m \<Longrightarrow> marshal m = Inr raw \<Longrightarrow> m_Type raw = typ' \<and> tagged (m_Body raw)"
    and unmarshal_no_panic: "unmarshal raw \<noteq> Inl Panic"
begin

lemma read_back: "ok m \<Longrightarrow> marshal m = Inr raw \<Longrightarrow> unmarshal raw = Inr m"
  using read_back_law [of m] by simp

lemma marshal_injective:
  assumes "ok m" "ok n" "marshal m = marshal n"
  shows "m = n"
  using read_back_law [OF assms(1)] read_back_law [OF assms(2)] unfolding assms(3) by (rule Inr_inject [OF trans [OF sym]])

lemma marshalled:
  assumes "ok m"
  obtains raw where "marshal m = Inr raw" "m_Type raw = typ'" "tagged (m_Body raw)" "unmarshal raw = Inr m"
  using read_back_law [OF assms] marshal_tag [OF assms] by (auto simp: bindE_eq_Inr)

end

text \<open>The raw message that every \<open>marshal\<close> builds; fields that the source leaves out are zero.\<close>

definition mk_raw :: "byte \<Rightarrow> duration \<Rightarrow> u8 \<Rightarrow> u32 \<Rightarrow> bytes \<Rightarrow> raw_message" where
  "mk_raw csid ts ty msid body =
     \<lparr>m_ChunkStreamID = csid, m_Timestamp = ts, m_Type = ty, m_MessageStreamID = msid, m_Body = body\<rparr>"

lemma mk_raw_simps [simp]:
  "m_ChunkStreamID (mk_raw csid ts ty msid body) = csid"
  "m_Timestamp (mk_raw csid ts ty msid body) = ts"
  "m_Type (mk_raw csid ts ty msid body) = ty"
  "m_MessageStreamID (mk_raw csid ts ty msid body) = msid"
  "m_Body (mk_raw csid ts ty msid body) = body"
  by (simp_all add: mk_raw_def)

lemma be32_list_put32: "[ucast (drop_bit 24 v), ucast (drop_bit 16 v), ucast (drop_bit 8 v), ucast v] = put32 v"
  by (simp add: put32_def)

section \<open>Protocol control messages\<close>

definition SetChunkSize_unmarshal :: "raw_message \<Rightarrow> u32 result" where
  "SetChunkSize_unmarshal raw =
     (if m_ChunkStreamID raw \<noteq> ControlChunkStreamID then Inl (Errorf ''unexpected chunk stream ID'' [])
      else if length (m_Body raw) \<noteq> 4 then Inl (Errorf ''invalid body size'' [])
      else case m_Body raw of [a, b, c, d] \<Rightarrow> Inr (be32 a b c d) | _ \<Rightarrow> Inl Panic)"

definition SetChunkSize_marshal :: "u32 \<Rightarrow> raw_message result" where
  "SetChunkSize_marshal m = Inr (mk_raw ControlChunkStreamID 0 TypeSetChunkSize 0 (put32 m))"

definition Acknowledge_unmarshal :: "raw_message \<Rightarrow> u32 result" where
  "Acknowledge_unmarshal raw =
     (if m_ChunkStreamID raw \<noteq> ControlChunkStreamID then Inl (Errorf ''unexpected chunk stream ID'' [])
      else if length (m_Body raw) \<noteq> 4 then Inl (Errorf ''unexpected body size'' [])
      else case m_Body raw of [a, b, c, d] \<Rightarrow> Inr (be32 a b c d) | _ \<Rightarrow> Inl Panic)"

definition Acknowledge_marshal :: "u32 \<Rightarrow> raw_message result" where
  "Acknowledge_marshal m = Inr (mk_raw ControlChunkStreamID 0 TypeAcknowledge 0 (put32 m))"

definition SetWindowAckSize_unmarshal :: "raw_message \<Rightarrow> u32 result" where
  "SetWindowAckSize_unmarshal raw =
     (if m_ChunkStreamID raw \<noteq> ControlChunkStreamID then Inl (Errorf ''unexpected chunk stream ID'' [])
      else if length (m_Body raw) \<noteq> 4 then Inl (Errorf ''invalid body size'' [])
      else case m_Body raw of [a, b, c, d] \<Rightarrow> Inr (be32 a b c d) | _ \<Rightarrow> Inl Panic)"

definition SetWindowAckSize_marshal :: "u32 \<Rightarrow> raw_message result" where
  "SetWindowAckSize_marshal m = Inr (mk_raw ControlChunkStreamID 0 TypeSetWindowAckSize 0 (put32 m))"

record SetPeerBandwidth =
  pb_Value :: u32
  pb_Type :: byte

definition SetPeerBandwidth_unmarshal :: "raw_message \<Rightarrow> SetPeerBandwidth result" where
  "SetPeerBandwidth_unmarshal raw =
     (if m_ChunkStreamID raw \<noteq> ControlChunkStreamID then Inl (Errorf ''unexpected chunk stream ID'' [])
      else if length (m_Body raw) \<noteq> 5 then Inl (Errorf ''invalid body size'' [])
      else case m_Body raw of [a, b, c, d, e] \<Rightarrow> Inr \<lparr>pb_Value = be32 a b c d, pb_Type = e\<rparr> | _ \<Rightarrow> Inl Panic)"

definition SetPeerBandwidth_marshal :: "SetPeerBandwidth \<Rightarrow> raw_message result" where
  "SetPeerBandwidth_marshal m =
     Inr (mk_raw ControlChunkStreamID 0 TypeSetPeerBandwidth 0 (put32 (pb_Value m) @ [pb_Type m]))"

section \<open>User control messages\<close>

definition UserControlStreamBegin_unmarshal :: "raw_message \<Rightarrow> u32 result" where
  "UserControlStreamBegin_unmarshal raw =
     (if m_ChunkStreamID raw \<noteq> ControlChunkStreamID then Inl (Errorf ''unexpected chunk stream ID'' [])
      else if length (m_Body raw) \<noteq> 6 then Inl (Errorf ''invalid body size'' [])
      else case m_Body raw of [_, _, a, b, c, d] \<Rightarrow> Inr (be32 a b c d) | _ \<Rightarrow> Inl Panic)"

definition UserControlStreamBegin_marshal :: "u32 \<Rightarrow> raw_message result" where
  "UserControlStreamBegin_marshal m =
     Inr (mk_raw ControlChunkStreamID 0 TypeUserControl 0 (put16 UserControlTypeStreamBegin @ put32 m))"

definition UserControlStreamEOF_unmarshal :: "raw_message \<Rightarrow> u32 result" where
  "UserControlStreamEOF_unmarshal raw =
     (if m_ChunkStreamID raw \<noteq> ControlChunkStreamID then Inl (Errorf ''unexpected chunk stream ID'' [])
      else if length (m_Body raw) \<noteq> 6 then Inl (Errorf ''invalid body size'' [])
      else case m_Body raw of [_, _, a, b, c, d] \<Rightarrow> Inr (be32 a b c d) | _ \<Rightarrow> Inl Panic)"

definition UserControlStreamEOF_marshal :: "u32 \<Rightarrow> raw_message result" where
  "UserControlStreamEOF_marshal m =
     Inr (mk_raw ControlChunkStreamID 0 TypeUserControl 0 (put16 UserControlTypeStreamEOF @ put32 m))"

definition UserControlStreamDry_unmarshal :: "raw_message \<Rightarrow> u32 result" where
  "UserControlStreamDry_unmarshal raw =
     (if m_ChunkStreamID raw \<noteq> ControlChunkStreamID then Inl (Errorf ''unexpected chunk stream ID'' [])
      else if length (m_Body raw) \<noteq> 6 then Inl (Errorf ''invalid body size'' [])
      else case m_Body raw of [_, _, a, b, c, d] \<Rightarrow> Inr (be32 a b c d) | _ \<Rightarrow> Inl Panic)"

definition UserControlStreamDry_marshal :: "u32 \<Rightarrow> raw_message result" where
  "UserControlStreamDry_marshal m =
     Inr (mk_raw ControlChunkStreamID 0 TypeUserControl 0 (put16 UserControlTypeStreamDry @ put32 m))"

definition UserControlStreamIsRecorded_unmarshal :: "raw_message \<Rightarrow> u32 result" where
  "UserControlStreamIsRecorded_unmarshal raw =
     (if m_ChunkStreamID raw \<noteq> ControlChunkStreamID then Inl (Errorf ''unexpected chunk stream ID'' [])
      else if length (m_Body raw) \<noteq> 6 then Inl (Errorf ''invalid body size'' [])
      else case m_Body raw of [_, _, a, b, c, d] \<Rightarrow> Inr (be32 a b c d) | _ \<Rightarrow> Inl Panic)"

definition UserControlStreamIsRecorded_marshal :: "u32 \<Rightarrow> raw_message result" where
  "UserControlStreamIsRecorded_marshal m =
     Inr (mk_raw ControlChunkStreamID 0 TypeUserControl 0 (put16 UserControlTypeStreamIsRecorded @ put32 m))"

definition UserControlPingRequest_unmarshal :: "raw_message \<Rightarrow> u32 result" where
  "UserControlPingRequest_unmarshal raw =
     (if m_ChunkStreamID raw \<noteq> ControlChunkStreamID then Inl (Errorf ''unexpected chunk stream ID'' [])
      else if length (m_Body raw) \<noteq> 6 then Inl (Errorf ''invalid body size'' [])
      else case m_Body raw of [_, _, a, b, c, d] \<Rightarrow> Inr (be32 a b c d) | _ \<Rightarrow> Inl Panic)"

definition UserControlPingRequest_marshal :: "u32 \<Rightarrow> raw_message result" where
  "UserControlPingRequest_marshal m =
     Inr (mk_raw ControlChunkStreamID 0 TypeUserControl 0 (put16 UserControlTypePingRequest @ put32 m))"

definition UserControlPingResponse_unmarshal :: "raw_message \<Rightarrow> u32 result" where
  "UserControlPingResponse_unmarshal raw =
     (if m_ChunkStreamID raw \<noteq> ControlChunkStreamID then Inl (Errorf ''unexpected chunk stream ID'' [])
      else if length (m_Body raw) \<noteq> 6 then Inl (Errorf ''invalid body size'' [])
      else case m_Body raw of [_, _, a, b, c, d] \<Rightarrow> Inr (be32 a b c d) | _ \<Rightarrow> Inl Panic)"

definition UserControlPingResponse_marshal :: "u32 \<Rightarrow> raw_message result" where
  "UserControlPingResponse_marshal m =
     Inr (mk_raw ControlChunkStreamID 0 TypeUserControl 0 (put16 UserControlTypePingResponse @ put32 m))"

record UserControlSetBufferLength =
  bl_StreamID :: u32
  bl_BufferLength :: u32

definition UserControlSetBufferLength_unmarshal :: "raw_message \<Rightarrow> UserControlSetBufferLength result" where
  "UserControlSetBufferLength_unmarshal raw =
     (if m_ChunkStreamID raw \<noteq> ControlChunkStreamID then Inl (Errorf ''unexpected chunk stream ID'' [])
      else if length (m_Body raw) \<noteq> 10 then Inl (Errorf ''invalid body size'' [])
      else case m_Body raw of
        [_, _, a, b, c, d, e, f, g, h] \<Rightarrow> Inr \<lparr>bl_StreamID = be32 a b c d, bl_BufferLength = be32 e f g h\<rparr>
      | _ \<Rightarrow> Inl Panic)"

definition UserControlSetBufferLength_marshal :: "UserControlSetBufferLength \<Rightarrow> raw_message result" where
  "UserControlSetBufferLength_marshal m =
     Inr (mk_raw ControlChunkStreamID 0 TypeUserControl 0
       (put16 UserControlTypeSetBufferLength @ put32 (bl_StreamID m) @ put32 (bl_BufferLength m)))"

text \<open>They all keep the promise.\<close>

lemma length_list_cases:
  "length xs = 4 \<Longrightarrow> \<exists>a b c d. xs = [a, b, c, d]"
  "length xs = 5 \<Longrightarrow> \<exists>a b c d e. xs = [a, b, c, d, e]"
  "length xs = 6 \<Longrightarrow> \<exists>a b c d e f. xs = [a, b, c, d, e, f]"
  "length xs = 10 \<Longrightarrow> \<exists>a b c d e f g h i j. xs = [a, b, c, d, e, f, g, h, i, j]"
  by (auto simp: numeral_eq_Suc length_Suc_conv)

definition any_body :: "bytes \<Rightarrow> bool" where
  "any_body b \<longleftrightarrow> True"

definition control_tag :: "u16 \<Rightarrow> bytes \<Rightarrow> bool" where
  "control_tag t b \<longleftrightarrow> take 2 b = put16 t"

interpretation SetChunkSize: message_struct SetChunkSize_marshal SetChunkSize_unmarshal "\<lambda>_. True" TypeSetChunkSize any_body
  by standard (auto simp: SetChunkSize_marshal_def SetChunkSize_unmarshal_def put32_def any_body_def dest!: length_list_cases)

interpretation Acknowledge: message_struct Acknowledge_marshal Acknowledge_unmarshal "\<lambda>_. True" TypeAcknowledge any_body
  by standard (auto simp: Acknowledge_marshal_def Acknowledge_unmarshal_def put32_def any_body_def dest!: length_list_cases)

interpretation SetWindowAckSize: message_struct SetWindowAckSize_marshal SetWindowAckSize_unmarshal "\<lambda>_. True" TypeSetWindowAckSize any_body
  by standard (auto simp: SetWindowAckSize_marshal_def SetWindowAckSize_unmarshal_def put32_def any_body_def dest!: length_list_cases)

interpretation SetPeerBandwidth: message_struct SetPeerBandwidth_marshal SetPeerBandwidth_unmarshal "\<lambda>_. True"
  TypeSetPeerBandwidth any_body
  by standard (auto simp: SetPeerBandwidth_marshal_def SetPeerBandwidth_unmarshal_def put32_def any_body_def dest!: length_list_cases)

interpretation StreamBegin: message_struct UserControlStreamBegin_marshal UserControlStreamBegin_unmarshal "\<lambda>_. True"
  TypeUserControl "control_tag UserControlTypeStreamBegin"
  by standard (auto simp: UserControlStreamBegin_marshal_def UserControlStreamBegin_unmarshal_def put32_def put16_def
      control_tag_def dest!: length_list_cases)

interpretation StreamEOF: message_struct UserControlStreamEOF_marshal UserControlStreamEOF_unmarshal "\<lambda>_. True"
  TypeUserControl "control_tag UserControlTypeStreamEOF"
  by standard (auto simp: UserControlStreamEOF_marshal_def UserControlStreamEOF_unmarshal_def put32_def put16_def
      control_tag_def dest!: length_list_cases)

interpretation StreamDry: message_struct UserControlStreamDry_marshal UserControlStreamDry_unmarshal "\<lambda>_. True"
  TypeUserControl "control_tag UserControlTypeStreamDry"
  by standard (auto simp: UserControlStreamDry_marshal_def UserControlStreamDry_unmarshal_def put32_def put16_def
      control_tag_def dest!: length_list_cases)

interpretation StreamIsRecorded: message_struct UserControlStreamIsRecorded_marshal UserControlStreamIsRecorded_unmarshal "\<lambda>_. True"
  TypeUserControl "control_tag UserControlTypeStreamIsRecorded"
  by standard (auto simp: UserControlStreamIsRecorded_marshal_def UserControlStreamIsRecorded_unmarshal_def put32_def put16_def
      control_tag_def dest!: length_list_cases)

interpretation PingRequest: message_struct UserControlPingRequest_marshal UserControlPingRequest_unmarshal "\<lambda>_. True"
  TypeUserControl "control_tag UserControlTypePingRequest"
  by standard (auto simp: UserControlPingRequest_marshal_def UserControlPingRequest_unmarshal_def put32_def put16_def
      control_tag_def dest!: length_list_cases)

interpretation PingResponse: message_struct UserControlPingResponse_marshal UserControlPingResponse_unmarshal "\<lambda>_. True"
  TypeUserControl "control_tag UserControlTypePingResponse"
  by standard (auto simp: UserControlPingResponse_marshal_def UserControlPingResponse_unmarshal_def put32_def put16_def
      control_tag_def dest!: length_list_cases)

interpretation SetBufferLength: message_struct UserControlSetBufferLength_marshal UserControlSetBufferLength_unmarshal
  "\<lambda>_. True" TypeUserControl "control_tag UserControlTypeSetBufferLength"
  by standard (auto simp: UserControlSetBufferLength_marshal_def UserControlSetBufferLength_unmarshal_def put32_def
      put16_def control_tag_def dest!: length_list_cases)

section \<open>Commands and data\<close>

record CommandAMF0 =
  cm_ChunkStreamID :: byte
  cm_MessageStreamID :: u32
  cm_Name :: string
  cm_CommandID :: int
  cm_Arguments :: "amf list"

definition CommandAMF0_unmarshal :: "raw_message \<Rightarrow> CommandAMF0 result" where
  "CommandAMF0_unmarshal raw =
     bindE (Unmarshal (m_Body raw)) (\<lambda>payload.
       if length payload < 3 then Inl (Errorf ''invalid command payload'' [])
       else case payload of
         AString name # ANumber tmp # arguments \<Rightarrow>
           Inr \<lparr>cm_ChunkStreamID = m_ChunkStreamID raw, cm_MessageStreamID = m_MessageStreamID raw,
                cm_Name = name, cm_CommandID = int_of_float64 tmp, cm_Arguments = arguments\<rparr>
       | _ \<Rightarrow> Inl (Errorf ''invalid command payload'' []))"

definition CommandAMF0_marshal :: "CommandAMF0 \<Rightarrow> raw_message result" where
  "CommandAMF0_marshal m =
     bindE (Marshal ([AString (cm_Name m), ANumber (float64_of_int (cm_CommandID m))] @ cm_Arguments m)) (\<lambda>body.
       Inr (mk_raw (cm_ChunkStreamID m) 0 TypeCommandAMF0 (cm_MessageStreamID m) body))"

record DataAMF0 =
  da_ChunkStreamID :: byte
  da_MessageStreamID :: u32
  da_Payload :: "amf list"

definition DataAMF0_unmarshal :: "raw_message \<Rightarrow> DataAMF0 result" where
  "DataAMF0_unmarshal raw =
     bindE (Unmarshal (m_Body raw)) (\<lambda>payload.
       Inr \<lparr>da_ChunkStreamID = m_ChunkStreamID raw, da_MessageStreamID = m_MessageStreamID raw, da_Payload = payload\<rparr>)"

definition DataAMF0_marshal :: "DataAMF0 \<Rightarrow> raw_message result" where
  "DataAMF0_marshal m =
     bindE (Marshal (da_Payload m)) (\<lambda>body.
       Inr (mk_raw (da_ChunkStreamID m) 0 TypeDataAMF0 (da_MessageStreamID m) body))"

text \<open>The AMF0 decoder fails with an error of its own, never by indexing out of range.\<close>

lemma object_end_no_panic: "r \<noteq> Inl Panic \<Longrightarrow> object_end mk r \<noteq> Inl Panic"
  by (cases "(mk, r)" rule: object_end.cases) (auto simp: errBufferTooShort_def)

lemma unmarshal_no_panic:
  "unmarshal buf \<noteq> Inl Panic" "unmarshal_entries buf \<noteq> Inl Panic" "unmarshal_items n buf \<noteq> Inl Panic"
proof (induction buf and buf and n buf rule: unmarshal_unmarshal_entries_unmarshal_items.induct)
  case (2 marker buf)
  then show ?case
    by (auto simp: unmarshal.simps(2) errBufferTooShort_def Let_def object_end_no_panic split: list.split sum.split)
next
  case (3 b0 b1 buf)
  have "unmarshal_entries buf' \<noteq> Inl Panic"
    if "unat (be16 b0 b1) \<noteq> 0" "\<not> length buf < unat (be16 b0 b1)" "unmarshal (drop (unat (be16 b0 b1)) buf) = Inr (w, buf')"
    for w buf'
    using 3(2) that by auto
  moreover have "unmarshal (drop (unat (be16 b0 b1)) buf) \<noteq> Inl Panic"
    if "unat (be16 b0 b1) \<noteq> 0" "\<not> length buf < unat (be16 b0 b1)"
    using 3(1) that by auto
  ultimately show ?case
    by (auto simp: errBufferTooShort_def Let_def split: sum.split)
qed (auto simp: errBufferTooShort_def split: sum.splits)

lemma Unmarshal_no_panic: "Unmarshal buf \<noteq> Inl Panic"
proof (induction buf rule: Unmarshal.induct)
  case (1 buf)
  then show ?case
    using unmarshal_no_panic(1) [of buf]
    by (subst Unmarshal.simps) (auto simp: bindE_def split: sum.splits)
qed

text \<open>What a command can carry: at least one argument, since the reader refuses less.\<close>

definition CommandAMF0_ok :: "CommandAMF0 \<Rightarrow> bool" where
  "CommandAMF0_ok m \<longleftrightarrow> length (cm_Name m) < 65536 \<and> \<bar>cm_CommandID m\<bar> < 2 ^ 53 \<and>
     cm_Arguments m \<noteq> [] \<and> items_ok (cm_Arguments m)"

lemma Marshal_items_ok: "items_ok data \<Longrightarrow> \<exists>buf. Marshal data = Inr buf \<and> Unmarshal buf = Inr data"
  using marshal_sizes_ok(3) [of data] Unmarshal_append [of data]
  by (auto simp: Marshal_def MarshalSize_def MarshalTo_def)

interpretation CommandAMF0: message_struct CommandAMF0_marshal CommandAMF0_unmarshal CommandAMF0_ok TypeCommandAMF0 any_body
proof
  fix m
  assume ok: "CommandAMF0_ok m"
  let ?data = "[AString (cm_Name m), ANumber (float64_of_int (cm_CommandID m))] @ cm_Arguments m"
  obtain buf where buf: "Marshal ?data = Inr buf" "Unmarshal buf = Inr ?data"
    using Marshal_items_ok [of ?data] ok by (auto simp: CommandAMF0_ok_def)
  have id: "int_of_float64 (float64_of_int (cm_CommandID m)) = cm_CommandID m"
    using ok by (intro float64_exact) (simp only: CommandAMF0_ok_def)
  have "\<not> length ?data < 3" using ok by (cases "cm_Arguments m") (auto simp: CommandAMF0_ok_def)
  with buf id show "bindE (CommandAMF0_marshal m) CommandAMF0_unmarshal = Inr m"
    by (simp add: CommandAMF0_marshal_def CommandAMF0_unmarshal_def)
next
  show "m_Type raw = TypeCommandAMF0 \<and> any_body (m_Body raw)" if "CommandAMF0_marshal m = Inr raw" for m raw
    using that by (auto simp: CommandAMF0_marshal_def bindE_eq_Inr any_body_def)
next
  show "CommandAMF0_unmarshal raw \<noteq> Inl Panic" for raw
    using Unmarshal_no_panic [of "m_Body raw"]
    by (auto simp: CommandAMF0_unmarshal_def bindE_def split: sum.splits list.splits amf.splits)
qed

interpretation DataAMF0: message_struct DataAMF0_marshal DataAMF0_unmarshal "\<lambda>m. items_ok (da_Payload m)" TypeDataAMF0 any_body
proof
  show "bindE (DataAMF0_marshal m) DataAMF0_unmarshal = Inr m" if "items_ok (da_Payload m)" for m
    using Marshal_items_ok [OF that] by (auto simp: DataAMF0_marshal_def DataAMF0_unmarshal_def)
  show "m_Type raw = TypeDataAMF0 \<and> any_body (m_Body raw)" if "DataAMF0_marshal m = Inr raw" for m raw
    using that by (auto simp: DataAMF0_marshal_def bindE_eq_Inr any_body_def)
  show "DataAMF0_unmarshal raw \<noteq> Inl Panic" for raw
    using Unmarshal_no_panic [of "m_Body raw"]
    by (auto simp: DataAMF0_unmarshal_def bindE_def split: sum.splits)
qed

end
