(* ===== verification/MessageCodecs.thy ===== *)
theory MessageCodecs
  imports MessageControl
begin

text \<open>
  What the audio and video messages share: the codec identifiers of message.go, the Opus header of
  opus_id_header.go, and the configuration records that are decoded and encoded outside the source
  (package go-mp4 and package mpeg4audio), which are parameters.
\<close>

section \<open>Codec identifiers\<close>

definition fourcc :: "string \<Rightarrow> u32" where
  "fourcc s = (case bytes_of s of [a, b, c, d] \<Rightarrow> be32 a b c d | _ \<Rightarrow> 0)"

definition FourCCAV1 :: u32 where "FourCCAV1 = 0x61763031"
definition FourCCVP9 :: u32 where "FourCCVP9 = 0x76703039"
definition FourCCHEVC :: u32 where "FourCCHEVC = 0x68766331"
definition FourCCAVC :: u32 where "FourCCAVC = 0x61766331"
definition FourCCOpus :: u32 where "FourCCOpus = 0x4F707573"
definition FourCCAC3 :: u32 where "FourCCAC3 = 0x61632D33"
definition FourCCMP4A :: u32 where "FourCCMP4A = 0x6D703461"
definition FourCCMP3 :: u32 where "FourCCMP3 = 0x2E6D7033"

lemmas FourCC_defs = FourCCAV1_def FourCCVP9_def FourCCHEVC_def FourCCAVC_def FourCCOpus_def
  FourCCAC3_def FourCCMP4A_def FourCCMP3_def

lemma FourCC_values:
  "FourCCAV1 = fourcc ''av01''" "FourCCVP9 = fourcc ''vp09''" "FourCCHEVC = fourcc ''hvc1''"
  "FourCCAVC = fourcc ''avc1''" "FourCCOpus = fourcc ''Opus''" "FourCCAC3 = fourcc ''ac-3''"
  "FourCCMP4A = fourcc ''mp4a''" "FourCCMP3 = fourcc ''.mp3''"
  by code_simp+

lemma FourCC_distinct [simp]:
  "FourCCAV1 \<noteq> FourCCVP9" "FourCCAV1 \<noteq> FourCCHEVC" "FourCCAV1 \<noteq> FourCCAVC" "FourCCAV1
  \<noteq> FourCCOpus" "FourCCAV1 \<noteq> FourCCAC3" "FourCCAV1 \<noteq> FourCCMP4A" "FourCCAV1 \<noteq>
  FourCCMP3" "FourCCVP9 \<noteq> FourCCAV1" "FourCCVP9 \<noteq> FourCCHEVC" "FourCCVP9 \<noteq> FourCCAVC"
  "FourCCVP9 \<noteq> FourCCOpus" "FourCCVP9 \<noteq> FourCCAC3" "FourCCVP9 \<noteq> FourCCMP4A" "FourCCVP9
  \<noteq> FourCCMP3" "FourCCHEVC \<noteq> FourCCAV1" "FourCCHEVC \<noteq> FourCCVP9" "FourCCHEVC \<noteq>
  FourCCAVC" "FourCCHEVC \<noteq> FourCCOpus" "FourCCHEVC \<noteq> FourCCAC3" "FourCCHEVC \<noteq> FourCCMP4A"
  "FourCCHEVC \<noteq> FourCCMP3" "FourCCAVC \<noteq> FourCCAV1" "FourCCAVC \<noteq> FourCCVP9" "FourCCAVC
  \<noteq> FourCCHEVC" "FourCCAVC \<noteq> FourCCOpus" "FourCCAVC \<noteq> FourCCAC3" "FourCCAVC \<noteq>
  FourCCMP4A" "FourCCAVC \<noteq> FourCCMP3" "FourCCOpus \<noteq> FourCCAV1" "FourCCOpus \<noteq> FourCCVP9"
  "FourCCOpus \<noteq> FourCCHEVC" "FourCCOpus \<noteq> FourCCAVC" "FourCCOpus \<noteq> FourCCAC3" "FourCCOpus
  \<noteq> FourCCMP4A" "FourCCOpus \<noteq> FourCCMP3" "FourCCAC3 \<noteq> FourCCAV1" "FourCCAC3 \<noteq>
  FourCCVP9" "FourCCAC3 \<noteq> FourCCHEVC" "FourCCAC3 \<noteq> FourCCAVC" "FourCCAC3 \<noteq> FourCCOpus"
  "FourCCAC3 \<noteq> FourCCMP4A" "FourCCAC3 \<noteq> FourCCMP3" "FourCCMP4A \<noteq> FourCCAV1" "FourCCMP4A
  \<noteq> FourCCVP9" "FourCCMP4A \<noteq> FourCCHEVC" "FourCCMP4A \<noteq> FourCCAVC" "FourCCMP4A \<noteq>
  FourCCOpus" "FourCCMP4A \<noteq> FourCCAC3" "FourCCMP4A \<noteq> FourCCMP3" "FourCCMP3 \<noteq> FourCCAV1"
  "FourCCMP3 \<noteq> FourCCVP9" "FourCCMP3 \<noteq> FourCCHEVC" "FourCCMP3 \<noteq> FourCCAVC" "FourCCMP3
  \<noteq> FourCCOpus" "FourCCMP3 \<noteq> FourCCAC3" "FourCCMP3 \<noteq> FourCCMP4A"
  by (simp_all add: FourCC_defs)

definition is_audio_fourcc :: "u32 \<Rightarrow> bool" where
  "is_audio_fourcc f \<longleftrightarrow> f = FourCCOpus \<or> f = FourCCAC3 \<or> f = FourCCMP4A \<or> f = FourCCMP3"

definition is_video_fourcc :: "u32 \<Rightarrow> bool" where
  "is_video_fourcc f \<longleftrightarrow> f = FourCCAV1 \<or> f = FourCCVP9 \<or> f = FourCCHEVC \<or> f = FourCCAVC"

definition unsupported_fourcc :: "u32 \<Rightarrow> go_error" where
  "unsupported_fourcc f = Errorf ''unsupported fourCC: %v'' [uint f]"

section \<open>Codec configurations\<close>

text \<open>
  The five kinds of configuration record that the messages carry for other packages. A decoder fails
  with an error of that package (a number); an encoder too.
\<close>

datatype cfg_kind = Av1C | VpcC | HvcC | AVCDecoderConfiguration | AudioSpecificConfig

record 'cfg codecs =
  cfg_decode :: "cfg_kind \<Rightarrow> bytes \<Rightarrow> nat + 'cfg"
  cfg_encode :: "cfg_kind \<Rightarrow> 'cfg \<Rightarrow> nat + bytes"

definition decode_cfg :: "'cfg codecs \<Rightarrow> cfg_kind \<Rightarrow> string \<Rightarrow> bytes \<Rightarrow> 'cfg result" where
  "decode_cfg cs k what buf =
     (case cfg_decode cs k buf of Inl n \<Rightarrow> Inl (Wrapped what (External n)) | Inr h \<Rightarrow> Inr h)"

text \<open>A nil header panics inside the package.\<close>

definition encode_cfg :: "'cfg codecs \<Rightarrow> cfg_kind \<Rightarrow> 'cfg option \<Rightarrow> bytes result" where
  "encode_cfg cs k h =
     (case h of None \<Rightarrow> Inl Panic
      | Some h \<Rightarrow> (case cfg_encode cs k h of Inl n \<Rightarrow> Inl (External n) | Inr buf \<Rightarrow> Inr buf))"

text \<open>A configuration that its package encodes and decodes back.\<close>

definition cfg_carried :: "'cfg codecs \<Rightarrow> cfg_kind \<Rightarrow> 'cfg option \<Rightarrow> bool" where
  "cfg_carried cs k h \<longleftrightarrow>
     (case h of None \<Rightarrow> False
      | Some v \<Rightarrow> (case cfg_encode cs k v of Inl _ \<Rightarrow> False | Inr buf \<Rightarrow> cfg_decode cs k buf = Inr v))"

lemma cfg_carriedE:
  assumes "cfg_carried cs k h"
  obtains v buf where "h = Some v" "encode_cfg cs k h = Inr buf" "\<And>what. decode_cfg cs k what buf = Inr v"
  using assms by (auto simp: cfg_carried_def encode_cfg_def decode_cfg_def split: option.splits sum.splits)

lemma decode_cfg_no_panic [simp]: "decode_cfg cs k what buf \<noteq> Inl Panic"
  by (simp add: decode_cfg_def split: sum.split)

section \<open>The Opus header\<close>

definition magicSignature :: bytes where
  "magicSignature = bytes_of ''OpusHead''"

record OpusIDHeader =
  op_Version :: u8
  op_ChannelCount :: u8
  op_PreSkip :: u16
  op_InputSampleRate :: u32
  op_OutputGain :: u16
  op_ChannelMappingFamily :: u8
  op_ChannelMappingTable :: bytes

definition OpusIDHeader_unmarshal :: "bytes \<Rightarrow> OpusIDHeader result" where
  "OpusIDHeader_unmarshal buf =
     (if length buf < 19 then Inl (Errorf ''not enough bytes'' [])
      else if take 8 buf \<noteq> magicSignature then Inl (Errorf ''magic signature not corresponds'' [])
      else case drop 8 buf of
        v # cc # s0 # s1 # r0 # r1 # r2 # r3 # g0 # g1 # f # table \<Rightarrow>
          if v \<noteq> 1 then Inl (Errorf ''invalid version: %v'' [uint v])
          else Inr \<lparr>op_Version = v, op_ChannelCount = cc, op_PreSkip = be16 s0 s1,
                    op_InputSampleRate = be32 r0 r1 r2 r3, op_OutputGain = be16 g0 g1,
                    op_ChannelMappingFamily = f, op_ChannelMappingTable = table\<rparr>
      | _ \<Rightarrow> Inl Panic)"

definition OpusIDHeader_marshalSize :: "OpusIDHeader \<Rightarrow> nat" where
  "OpusIDHeader_marshalSize h = 19 + length (op_ChannelMappingTable h)"

definition OpusIDHeader_marshalTo :: "OpusIDHeader \<Rightarrow> bytes" where
  "OpusIDHeader_marshalTo h =
     magicSignature @ [1, op_ChannelCount h] @ put16 (op_PreSkip h) @ put32 (op_InputSampleRate h) @
     put16 (op_OutputGain h) @ [op_ChannelMappingFamily h] @ op_ChannelMappingTable h"

definition OpusIDHeader_marshal :: "OpusIDHeader \<Rightarrow> bytes result" where
  "OpusIDHeader_marshal h = Inr (fill (OpusIDHeader_marshalSize h) (OpusIDHeader_marshalTo h))"

lemma magicSignature_length [simp]: "length magicSignature = 8"
  by (simp add: magicSignature_def)

lemma OpusIDHeader_exact: "length (OpusIDHeader_marshalTo h) = OpusIDHeader_marshalSize h"
  by (simp add: OpusIDHeader_marshalTo_def OpusIDHeader_marshalSize_def)

lemma OpusIDHeader_no_panic: "OpusIDHeader_unmarshal buf \<noteq> Inl Panic"
proof (cases "length buf < 19")
  case False
  then have "11 \<le> length (drop 8 buf)" by simp
  then show ?thesis
    by (auto simp: OpusIDHeader_unmarshal_def split: list.split dest!: arg_cong [of "drop 8 buf" _ length])
qed (simp add: OpusIDHeader_unmarshal_def)

lemma OpusIDHeader_read_back:
  assumes "op_Version h = 1"
  obtains buf where "OpusIDHeader_marshal h = Inr buf" "OpusIDHeader_unmarshal buf = Inr h"
proof
  show "OpusIDHeader_marshal h = Inr (OpusIDHeader_marshalTo h)"
    by (simp add: OpusIDHeader_marshal_def OpusIDHeader_exact [symmetric])
  show "OpusIDHeader_unmarshal (OpusIDHeader_marshalTo h) = Inr h"
    using assms by (simp add: OpusIDHeader_unmarshal_def OpusIDHeader_marshalTo_def put16_def put32_def)
qed

end
