(* ===== verification/MessageAudio.thy ===== *)
theory MessageAudio
  imports MessageCodecs
begin

text \<open>
  The audio messages of package message: Audio and the extended ones (msg_audio.go and msg_audio_ex_*.go),
  apart from AudioExMultitrack, which wraps other messages and is in Message.
\<close>

section \<open>Audio\<close>

definition CodecMPEG1Audio :: u8 where "CodecMPEG1Audio = 2"
definition CodecLPCM :: u8 where "CodecLPCM = 3"
definition CodecPCMA :: u8 where "CodecPCMA = 7"
definition CodecPCMU :: u8 where "CodecPCMU = 8"
definition CodecMPEG4Audio :: u8 where "CodecMPEG4Audio = 10"
definition AudioAACTypeConfig :: u8 where "AudioAACTypeConfig = 0"
definition AudioAACTypeAU :: u8 where "AudioAACTypeAU = 1"

lemmas AudioCodec_defs = CodecMPEG1Audio_def CodecLPCM_def CodecPCMA_def CodecPCMU_def CodecMPEG4Audio_def
  AudioAACTypeConfig_def AudioAACTypeAU_def

record Audio =
  au_ChunkStreamID :: byte
  au_DTS :: duration
  au_MessageStreamID :: u32
  au_Codec :: u8
  au_Rate :: u8
  au_Depth :: u8
  au_IsStereo :: bool
  au_AACType :: u8
  au_Payload :: bytes

definition is_audio_codec :: "u8 \<Rightarrow> bool" where
  "is_audio_codec c \<longleftrightarrow>
     c = CodecMPEG4Audio \<or> c = CodecMPEG1Audio \<or> c = CodecPCMA \<or> c = CodecPCMU \<or> c = CodecLPCM"

definition Audio_unmarshal :: "raw_message \<Rightarrow> Audio result" where
  "Audio_unmarshal raw =
     (if length (m_Body raw) < 2 then Inl (Errorf ''invalid body size'' [])
      else case m_Body raw of
        b0 # b1 # rest \<Rightarrow>
          let codec = drop_bit 4 b0;
              m = \<lparr>au_ChunkStreamID = m_ChunkStreamID raw, au_DTS = m_Timestamp raw,
                   au_MessageStreamID = m_MessageStreamID raw, au_Codec = codec,
                   au_Rate = drop_bit 2 b0 AND 3, au_Depth = drop_bit 1 b0 AND 1,
                   au_IsStereo = (b0 AND 1 \<noteq> 0), au_AACType = 0, au_Payload = []\<rparr>
          in if \<not> is_audio_codec codec then Inl (Errorf ''unsupported audio codec: %d'' [uint codec])
             else if codec = CodecMPEG4Audio then
               if b1 \<noteq> AudioAACTypeConfig \<and> b1 \<noteq> AudioAACTypeAU
               then Inl (Errorf ''unsupported audio message type: %d'' [uint b1])
               else Inr (m\<lparr>au_AACType := b1, au_Payload := rest\<rparr>)
             else Inr (m\<lparr>au_Payload := b1 # rest\<rparr>)
      | _ \<Rightarrow> Inl Panic)"

definition Audio_marshalBodySize :: "Audio \<Rightarrow> nat" where
  "Audio_marshalBodySize m =
     (if au_Codec m = CodecMPEG1Audio then 1 + length (au_Payload m) else 2 + length (au_Payload m))"

definition Audio_head :: "Audio \<Rightarrow> byte" where
  "Audio_head m =
     (push_bit 4 (au_Codec m) OR push_bit 2 (au_Rate m) OR push_bit 1 (au_Depth m) OR (if au_IsStereo m then 1 else 0))"

definition Audio_marshal :: "Audio \<Rightarrow> raw_message result" where
  "Audio_marshal m =
     Inr (mk_raw (au_ChunkStreamID m) (au_DTS m) TypeAudio (au_MessageStreamID m)
       (fill (Audio_marshalBodySize m)
         (Audio_head m #
          (if au_Codec m = CodecMPEG4Audio then au_AACType m # au_Payload m else au_Payload m))))"

text \<open>The fields of the first byte do not overlap.\<close>

definition Audio_bits :: "Audio \<Rightarrow> bool" where
  "Audio_bits m \<longleftrightarrow> is_audio_codec (au_Codec m) \<and> au_Rate m < 4 \<and> au_Depth m < 2"

lemma word_less_cases:
  "x < 2 \<Longrightarrow> x = 0 \<or> x = (1 :: byte)"
  "x < 4 \<Longrightarrow> x = 0 \<or> x = 1 \<or> x = 2 \<or> x = (3 :: byte)"
  by (simp add: word_unat_eq_iff word_less_nat_alt, linarith)+

lemma Audio_head_fields:
  assumes "Audio_bits m"
  shows "drop_bit 4 (Audio_head m) = au_Codec m" "drop_bit 2 (Audio_head m) AND 3 = au_Rate m"
    "drop_bit 1 (Audio_head m) AND 1 = au_Depth m" "Audio_head m AND 1 \<noteq> 0 \<longleftrightarrow> au_IsStereo m"
  using assms unfolding Audio_bits_def
  by (auto simp: Audio_head_def is_audio_codec_def AudioCodec_defs dest!: word_less_cases)

definition Audio_ok :: "Audio \<Rightarrow> bool" where
  "Audio_ok m \<longleftrightarrow> Audio_bits m \<and>
     (if au_Codec m = CodecMPEG4Audio then au_AACType m < 2
      else au_Codec m = CodecMPEG1Audio \<and> au_AACType m = 0 \<and> au_Payload m \<noteq> [])"

definition audio_tag :: "bytes \<Rightarrow> bool" where
  "audio_tag b \<longleftrightarrow> b \<noteq> [] \<and> drop_bit 4 (hd b) \<noteq> 9"

lemma Audio_no_panic: "Audio_unmarshal raw \<noteq> Inl Panic"
  by (auto simp: Audio_unmarshal_def Let_def split: list.split)

interpretation Audio: message_struct Audio_marshal Audio_unmarshal Audio_ok TypeAudio audio_tag
proof
  fix m
  assume ok: "Audio_ok m"
  then have bits: "Audio_bits m" by (simp add: Audio_ok_def)
  let ?body = "Audio_head m # (if au_Codec m = CodecMPEG4Audio then au_AACType m # au_Payload m else au_Payload m)"
  have *: "fill (Audio_marshalBodySize m) ?body = ?body"
    using ok by (intro fill_exact') (auto simp: Audio_marshalBodySize_def Audio_ok_def AudioCodec_defs)
  have **: "is_audio_codec (au_Codec m)" "au_Codec m \<noteq> 9"
    using bits by (auto simp: Audio_bits_def is_audio_codec_def AudioCodec_defs)
  show "bindE (Audio_marshal m) Audio_unmarshal = Inr m"
  proof (cases "au_Codec m = CodecMPEG4Audio")
    case True
    then have "au_AACType m = AudioAACTypeConfig \<or> au_AACType m = AudioAACTypeAU"
      using ok by (auto simp: Audio_ok_def AudioCodec_defs dest!: word_less_cases)
    with True * ** Audio_head_fields [OF bits] show ?thesis
      by (auto simp: Audio_marshal_def Audio_unmarshal_def Let_def)
  next
    case False
    then obtain p ps where "au_Payload m = p # ps" "au_AACType m = 0"
      using ok by (cases "au_Payload m") (auto simp: Audio_ok_def)
    with False * ** Audio_head_fields [OF bits] show ?thesis
      by (auto simp: Audio_marshal_def Audio_unmarshal_def Let_def)
  qed
  show "m_Type raw = TypeAudio \<and> audio_tag (m_Body raw)" if "Audio_marshal m = Inr raw" for raw
    using that * ** Audio_head_fields [OF bits] by (auto simp: Audio_marshal_def audio_tag_def)
qed (rule Audio_no_panic)

section \<open>Extended messages\<close>

definition AudioExTypeSequenceStart :: byte where "AudioExTypeSequenceStart = 0"
definition AudioExTypeCodedFrames :: byte where "AudioExTypeCodedFrames = 1"
definition AudioExTypeSequenceEnd :: byte where "AudioExTypeSequenceEnd = 2"
definition AudioExTypeMultichannelConfig :: byte where "AudioExTypeMultichannelConfig = 4"
definition AudioExTypeMultitrack :: byte where "AudioExTypeMultitrack = 5"

lemmas AudioExType_defs = AudioExTypeSequenceStart_def AudioExTypeCodedFrames_def AudioExTypeSequenceEnd_def
  AudioExTypeMultichannelConfig_def AudioExTypeMultitrack_def

text \<open>The first byte of an extended audio message.\<close>

definition audio_ex_head :: "byte \<Rightarrow> byte" where
  "audio_ex_head ty = push_bit 4 9 OR ty"

definition audio_ex_tag :: "byte \<Rightarrow> bytes \<Rightarrow> bool" where
  "audio_ex_tag ty b \<longleftrightarrow> b \<noteq> [] \<and> drop_bit 4 (hd b) = 9 \<and> hd b AND 0x0F = ty"

text \<open>
  A struct that can be wrapped in a multitrack message: its encoding starts with a byte that holds the
  packet type and with a codec identifier, and its decoder looks neither at that byte nor at the type.
\<close>

locale wrappable_struct = message_struct +
  fixes packet :: byte
  assumes marshal_head: "marshal m = Inr raw \<Longrightarrow> 5 \<le> length (m_Body raw) \<and> m_Body raw ! 0 AND 0x0F = packet"
    and unmarshal_head_free: "unmarshal (mk_raw i ts t s (b # bs)) = unmarshal (mk_raw i ts t' s (b' # bs))"
begin

lemma wrapped_back:
  assumes "ok m" "marshal m = Inr raw"
  shows "unmarshal (mk_raw (m_ChunkStreamID raw) (m_Timestamp raw) 0 (m_MessageStreamID raw) (0 # drop 1 (m_Body raw))) = Inr m"
proof -
  obtain b bs where b: "m_Body raw = b # bs"
    using marshal_head [OF assms(2)] by (cases "m_Body raw") auto
  have "raw = mk_raw (m_ChunkStreamID raw) (m_Timestamp raw) (m_Type raw) (m_MessageStreamID raw) (b # bs)"
    by (simp add: mk_raw_def flip: b)
  then show ?thesis
    using read_back [OF assms] unmarshal_head_free by (metis b drop0 drop_Suc_Cons One_nat_def)
qed

end

subsection \<open>AudioExSequenceStart\<close>

record 'cfg AudioExSequenceStart =
  as_ChunkStreamID :: byte
  as_MessageStreamID :: u32
  as_FourCC :: u32
  as_OpusHeader :: "OpusIDHeader option"
  as_AACHeader :: "'cfg option"

definition AudioExSequenceStart_unmarshal :: "'cfg codecs \<Rightarrow> raw_message \<Rightarrow> 'cfg AudioExSequenceStart result" where
  "AudioExSequenceStart_unmarshal cs raw =
     (if length (m_Body raw) < 5 then Inl (Errorf ''not enough bytes'' [])
      else case m_Body raw of
        _ # f0 # f1 # f2 # f3 # rest \<Rightarrow>
          let m = \<lparr>as_ChunkStreamID = m_ChunkStreamID raw, as_MessageStreamID = m_MessageStreamID raw,
                   as_FourCC = be32 f0 f1 f2 f3, as_OpusHeader = None, as_AACHeader = None\<rparr>
          in if as_FourCC m = FourCCOpus then
               (case OpusIDHeader_unmarshal rest of
                  Inl e \<Rightarrow> Inl (Wrapped ''invalid Opus ID header'' e)
                | Inr h \<Rightarrow> Inr (m\<lparr>as_OpusHeader := Some h\<rparr>))
             else if as_FourCC m = FourCCAC3 \<or> as_FourCC m = FourCCMP3 then
               (if length (m_Body raw) \<noteq> 5 then Inl (Errorf ''unexpected size'' []) else Inr m)
             else if as_FourCC m = FourCCMP4A then
               bindE (decode_cfg cs AudioSpecificConfig ''invalid MPEG-4 audio config'' rest) (\<lambda>h.
                 Inr (m\<lparr>as_AACHeader := Some h\<rparr>))
             else Inl (unsupported_fourcc (as_FourCC m))
      | _ \<Rightarrow> Inl Panic)"

definition AudioExSequenceStart_marshal :: "'cfg codecs \<Rightarrow> 'cfg AudioExSequenceStart \<Rightarrow> raw_message result" where
  "AudioExSequenceStart_marshal cs m =
     bindE (if as_FourCC m = FourCCOpus then
              (case as_OpusHeader m of None \<Rightarrow> Inl Panic | Some h \<Rightarrow> OpusIDHeader_marshal h)
            else if as_FourCC m = FourCCMP4A then encode_cfg cs AudioSpecificConfig (as_AACHeader m)
            else Inr []) (\<lambda>addBody.
       Inr (mk_raw (as_ChunkStreamID m) 0 TypeAudio (as_MessageStreamID m)
         ([audio_ex_head AudioExTypeSequenceStart] @ put32 (as_FourCC m) @ addBody)))"

definition AudioExSequenceStart_ok :: "'cfg codecs \<Rightarrow> 'cfg AudioExSequenceStart \<Rightarrow> bool" where
  "AudioExSequenceStart_ok cs m \<longleftrightarrow> is_audio_fourcc (as_FourCC m) \<and>
     (if as_FourCC m = FourCCOpus then (case as_OpusHeader m of None \<Rightarrow> False | Some h \<Rightarrow> op_Version h = 1)
      else as_OpusHeader m = None) \<and>
     (if as_FourCC m = FourCCMP4A then cfg_carried cs AudioSpecificConfig (as_AACHeader m) else as_AACHeader m = None)"

interpretation AudioExSequenceStart: wrappable_struct "AudioExSequenceStart_marshal cs" "AudioExSequenceStart_unmarshal cs"
  "AudioExSequenceStart_ok cs" TypeAudio "audio_ex_tag AudioExTypeSequenceStart" AudioExTypeSequenceStart for cs
proof
  fix m :: "'a AudioExSequenceStart"
  assume ok: "AudioExSequenceStart_ok cs m"
  have "as_FourCC m = FourCCOpus \<or> as_FourCC m = FourCCAC3 \<or> as_FourCC m = FourCCMP4A \<or> as_FourCC m = FourCCMP3"
    using ok by (simp add: AudioExSequenceStart_ok_def is_audio_fourcc_def)
  then show "bindE (AudioExSequenceStart_marshal cs m) (AudioExSequenceStart_unmarshal cs) = Inr m"
    using ok
    by (elim disjE; cases m)
      (auto simp: AudioExSequenceStart_ok_def AudioExSequenceStart_marshal_def AudioExSequenceStart_unmarshal_def
        put32_def elim!: OpusIDHeader_read_back cfg_carriedE split: option.splits)
next
  show "m_Type raw = TypeAudio \<and> audio_ex_tag AudioExTypeSequenceStart (m_Body raw)"
    if "AudioExSequenceStart_marshal cs m = Inr raw" for m raw
    using that
    by (auto simp: AudioExSequenceStart_marshal_def bindE_eq_Inr audio_ex_tag_def audio_ex_head_def AudioExType_defs)
next
  show "AudioExSequenceStart_unmarshal cs raw \<noteq> Inl Panic" for raw
    by (auto simp: AudioExSequenceStart_unmarshal_def Let_def unsupported_fourcc_def bindE_def split: list.split sum.split)
next
  show "5 \<le> length (m_Body raw) \<and> m_Body raw ! 0 AND 0x0F = AudioExTypeSequenceStart"
    if "AudioExSequenceStart_marshal cs m = Inr raw" for m raw
    using that by (auto simp: AudioExSequenceStart_marshal_def bindE_eq_Inr audio_ex_head_def AudioExType_defs)
next
  show "AudioExSequenceStart_unmarshal cs (mk_raw i ts t s (b # bs)) = AudioExSequenceStart_unmarshal cs (mk_raw i ts t' s (b' # bs))"
    for i ts t t' s b b' bs
    by (simp add: AudioExSequenceStart_unmarshal_def Let_def split: list.split)
qed

subsection \<open>AudioExSequenceEnd and AudioExCodedFrames\<close>

record AudioExSequenceEnd =
  ae_ChunkStreamID :: byte
  ae_MessageStreamID :: u32
  ae_FourCC :: u32

definition AudioExSequenceEnd_unmarshal :: "raw_message \<Rightarrow> AudioExSequenceEnd result" where
  "AudioExSequenceEnd_unmarshal raw =
     (if length (m_Body raw) \<noteq> 5 then Inl (Errorf ''not enough bytes'' [])
      else case m_Body raw of
        [_, f0, f1, f2, f3] \<Rightarrow>
          if \<not> is_audio_fourcc (be32 f0 f1 f2 f3) then Inl (unsupported_fourcc (be32 f0 f1 f2 f3))
          else Inr \<lparr>ae_ChunkStreamID = m_ChunkStreamID raw, ae_MessageStreamID = m_MessageStreamID raw,
                    ae_FourCC = be32 f0 f1 f2 f3\<rparr>
      | _ \<Rightarrow> Inl Panic)"

definition AudioExSequenceEnd_marshal :: "AudioExSequenceEnd \<Rightarrow> raw_message result" where
  "AudioExSequenceEnd_marshal m =
     Inr (mk_raw (ae_ChunkStreamID m) 0 TypeAudio (ae_MessageStreamID m)
       ([audio_ex_head AudioExTypeSequenceEnd] @ put32 (ae_FourCC m)))"

record AudioExCodedFrames =
  ac_ChunkStreamID :: byte
  ac_DTS :: duration
  ac_MessageStreamID :: u32
  ac_FourCC :: u32
  ac_Payload :: bytes

definition AudioExCodedFrames_unmarshal :: "raw_message \<Rightarrow> AudioExCodedFrames result" where
  "AudioExCodedFrames_unmarshal raw =
     (if length (m_Body raw) < 5 then Inl (Errorf ''not enough bytes'' [])
      else case m_Body raw of
        _ # f0 # f1 # f2 # f3 # rest \<Rightarrow>
          if \<not> is_audio_fourcc (be32 f0 f1 f2 f3) then Inl (unsupported_fourcc (be32 f0 f1 f2 f3))
          else Inr \<lparr>ac_ChunkStreamID = m_ChunkStreamID raw, ac_DTS = m_Timestamp raw,
                    ac_MessageStreamID = m_MessageStreamID raw, ac_FourCC = be32 f0 f1 f2 f3, ac_Payload = rest\<rparr>
      | _ \<Rightarrow> Inl Panic)"

definition AudioExCodedFrames_marshalBodySize :: "AudioExCodedFrames \<Rightarrow> nat" where
  "AudioExCodedFrames_marshalBodySize m = 5 + length (ac_Payload m)"

definition AudioExCodedFrames_marshal :: "AudioExCodedFrames \<Rightarrow> raw_message result" where
  "AudioExCodedFrames_marshal m =
     Inr (mk_raw (ac_ChunkStreamID m) (ac_DTS m) TypeAudio (ac_MessageStreamID m)
       (fill (AudioExCodedFrames_marshalBodySize m)
         ([audio_ex_head AudioExTypeCodedFrames] @ put32 (ac_FourCC m) @ ac_Payload m)))"

lemmas audio_ex_simps = put32_def audio_ex_tag_def audio_ex_head_def AudioExType_defs unsupported_fourcc_def Let_def

interpretation AudioExSequenceEnd: wrappable_struct AudioExSequenceEnd_marshal AudioExSequenceEnd_unmarshal
  "\<lambda>m. is_audio_fourcc (ae_FourCC m)" TypeAudio "audio_ex_tag AudioExTypeSequenceEnd" AudioExTypeSequenceEnd
  by standard (auto simp: AudioExSequenceEnd_marshal_def AudioExSequenceEnd_unmarshal_def audio_ex_simps
      split: list.split)

interpretation AudioExCodedFrames: wrappable_struct AudioExCodedFrames_marshal AudioExCodedFrames_unmarshal
  "\<lambda>m. is_audio_fourcc (ac_FourCC m)" TypeAudio "audio_ex_tag AudioExTypeCodedFrames" AudioExTypeCodedFrames
  by standard (auto simp: AudioExCodedFrames_marshal_def AudioExCodedFrames_unmarshal_def
      AudioExCodedFrames_marshalBodySize_def audio_ex_simps split: list.split)

subsection \<open>AudioExMultichannelConfig\<close>

definition AudioExChannelOrderUnspecified :: u8 where "AudioExChannelOrderUnspecified = 0"
definition AudioExChannelOrderNative :: u8 where "AudioExChannelOrderNative = 1"
definition AudioExChannelOrderCustom :: u8 where "AudioExChannelOrderCustom = 2"

lemmas AudioExChannelOrder_defs = AudioExChannelOrderUnspecified_def AudioExChannelOrderNative_def
  AudioExChannelOrderCustom_def

record AudioExMultichannelConfig =
  am_ChunkStreamID :: byte
  am_MessageStreamID :: u32
  am_FourCC :: u32
  am_AudioChannelOrder :: u8
  am_ChannelCount :: u8
  am_AudioChannelMapping :: u8
  am_AudioChannelFlags :: u32

definition AudioExMultichannelConfig_unmarshal :: "raw_message \<Rightarrow> AudioExMultichannelConfig result" where
  "AudioExMultichannelConfig_unmarshal raw =
     (if length (m_Body raw) < 7 then Inl (Errorf ''not enough bytes'' [])
      else case m_Body raw of
        _ # f0 # f1 # f2 # f3 # order # count # rest \<Rightarrow>
          let m = \<lparr>am_ChunkStreamID = m_ChunkStreamID raw, am_MessageStreamID = m_MessageStreamID raw,
                   am_FourCC = be32 f0 f1 f2 f3, am_AudioChannelOrder = order, am_ChannelCount = count,
                   am_AudioChannelMapping = 0, am_AudioChannelFlags = 0\<rparr>;
              bad = Inl (Errorf ''invalid AudioExMultichannelConfig size'' [])
          in if \<not> is_audio_fourcc (am_FourCC m) then Inl (unsupported_fourcc (am_FourCC m))
             else if order = AudioExChannelOrderCustom then
               (case rest of [a] \<Rightarrow> Inr (m\<lparr>am_AudioChannelMapping := a\<rparr>) | _ \<Rightarrow> bad)
             else if order = AudioExChannelOrderNative then
               (case rest of [a, b, c, d] \<Rightarrow> Inr (m\<lparr>am_AudioChannelFlags := be32 a b c d\<rparr>) | _ \<Rightarrow> bad)
             else if order = AudioExChannelOrderUnspecified then
               (if rest = [] then Inr m else bad)
             else Inl (Errorf ''invalid AudioChannelOrder: %v'' [uint order])
      | _ \<Rightarrow> Inl Panic)"

definition AudioExMultichannelConfig_marshal :: "AudioExMultichannelConfig \<Rightarrow> raw_message result" where
  "AudioExMultichannelConfig_marshal m =
     (let addBody = (if am_AudioChannelOrder m = AudioExChannelOrderCustom then [am_AudioChannelMapping m]
                     else if am_AudioChannelOrder m = AudioExChannelOrderNative then put32 (am_AudioChannelFlags m)
                     else [])
      in Inr (mk_raw (am_ChunkStreamID m) 0 TypeAudio (am_MessageStreamID m)
           ([audio_ex_head AudioExTypeMultichannelConfig] @ put32 (am_FourCC m) @
            [am_AudioChannelOrder m, am_ChannelCount m] @ addBody)))"

definition AudioExMultichannelConfig_ok :: "AudioExMultichannelConfig \<Rightarrow> bool" where
  "AudioExMultichannelConfig_ok m \<longleftrightarrow> is_audio_fourcc (am_FourCC m) \<and>
     am_AudioChannelOrder m \<in> {AudioExChannelOrderUnspecified, AudioExChannelOrderNative, AudioExChannelOrderCustom} \<and>
     (am_AudioChannelOrder m \<noteq> AudioExChannelOrderCustom \<longrightarrow> am_AudioChannelMapping m = 0) \<and>
     (am_AudioChannelOrder m \<noteq> AudioExChannelOrderNative \<longrightarrow> am_AudioChannelFlags m = 0)"

interpretation AudioExMultichannelConfig: wrappable_struct AudioExMultichannelConfig_marshal
  AudioExMultichannelConfig_unmarshal AudioExMultichannelConfig_ok TypeAudio
  "audio_ex_tag AudioExTypeMultichannelConfig" AudioExTypeMultichannelConfig
proof
  fix m
  assume ok: "AudioExMultichannelConfig_ok m"
  then show "bindE (AudioExMultichannelConfig_marshal m) AudioExMultichannelConfig_unmarshal = Inr m"
    by (cases m) (auto simp: AudioExMultichannelConfig_ok_def AudioExMultichannelConfig_marshal_def
      AudioExMultichannelConfig_unmarshal_def put32_def Let_def AudioExChannelOrder_defs)
next
  show "AudioExMultichannelConfig_unmarshal raw \<noteq> Inl Panic" for raw
    by (auto simp: AudioExMultichannelConfig_unmarshal_def unsupported_fourcc_def Let_def split: list.split)
next
  show "AudioExMultichannelConfig_unmarshal (mk_raw i ts t s (b # bs)) =
      AudioExMultichannelConfig_unmarshal (mk_raw i ts t' s (b' # bs))" for i ts t t' s b b' bs
    by (simp add: AudioExMultichannelConfig_unmarshal_def Let_def cong: list.case_cong)
qed (auto simp: AudioExMultichannelConfig_marshal_def audio_ex_simps)

section \<open>Audio messages that do not survive\<close>

text \<open>
  An Audio message with codec LPCM, PCMA or PCMU is one byte longer on the wire than it should be:
  the reader gets the payload with a zero byte appended. (\<open>marshalBodySize\<close> makes room for a second
  header byte for every codec but MPEG-1, while only MPEG-4 has one.)
\<close>

theorem audio_pcm_grows:
  assumes "au_Codec m \<in> {CodecLPCM, CodecPCMA, CodecPCMU}" "au_Rate m < 4" "au_Depth m < 2" "au_AACType m = 0"
  shows "bindE (Audio_marshal m) Audio_unmarshal = Inr (m\<lparr>au_Payload := au_Payload m @ [0]\<rparr>)"
proof -
  have bits: "Audio_bits m" using assms by (auto simp: Audio_bits_def is_audio_codec_def)
  have codec: "is_audio_codec (au_Codec m)" "au_Codec m \<noteq> CodecMPEG4Audio" "au_Codec m \<noteq> CodecMPEG1Audio"
    using assms(1) by (auto simp: is_audio_codec_def AudioCodec_defs)
  then have "fill (Audio_marshalBodySize m) (Audio_head m # au_Payload m) = Audio_head m # au_Payload m @ [0]"
    by (simp add: fill_def Audio_marshalBodySize_def)
  with codec Audio_head_fields [OF bits] assms(4) show ?thesis
    by (cases "au_Payload m") (auto simp: Audio_marshal_def Audio_unmarshal_def Let_def)
qed

definition sample_pcm :: Audio where
  "sample_pcm = \<lparr>au_ChunkStreamID = 4, au_DTS = 0, au_MessageStreamID = 1, au_Codec = CodecPCMU, au_Rate = 3,
     au_Depth = 1, au_IsStereo = True, au_AACType = 0, au_Payload = [1, 2]\<rparr>"

lemma audio_pcm_grows_witness:
  "bindE (Audio_marshal sample_pcm) Audio_unmarshal = Inr (sample_pcm\<lparr>au_Payload := [1, 2, 0]\<rparr>)"
  using audio_pcm_grows [of sample_pcm] by (simp add: sample_pcm_def)

end
