(* ===== verification/MessageVideo.thy ===== *)
theory MessageVideo
  imports MessageAudio
begin

text \<open>
  The video messages of package message: Video and the extended ones (msg_video.go and msg_video_ex_*.go),
  apart from VideoExMultitrack, which wraps other messages and is in Message.
\<close>

section \<open>Video\<close>

definition CodecH264 :: u8 where "CodecH264 = 7"
definition VideoTypeConfig :: u8 where "VideoTypeConfig = 0"
definition VideoTypeAU :: u8 where "VideoTypeAU = 1"
definition VideoTypeEOS :: u8 where "VideoTypeEOS = 2"

lemmas VideoCodec_defs = CodecH264_def VideoTypeConfig_def VideoTypeAU_def VideoTypeEOS_def

record Video =
  vi_ChunkStreamID :: byte
  vi_DTS :: duration
  vi_MessageStreamID :: u32
  vi_Codec :: u8
  vi_IsKeyFrame :: bool
  vi_Type :: u8
  vi_PTSDelta :: duration
  vi_Payload :: bytes

definition is_video_type :: "u8 \<Rightarrow> bool" where
  "is_video_type t \<longleftrightarrow> t = VideoTypeConfig \<or> t = VideoTypeAU \<or> t = VideoTypeEOS"

text \<open>The composition time: 24 bits of milliseconds.\<close>

definition pts_bytes :: "duration \<Rightarrow> bytes" where
  "pts_bytes d = put24 (of_int (go_div d millisecond))"

definition pts_of :: "byte \<Rightarrow> byte \<Rightarrow> byte \<Rightarrow> duration" where
  "pts_of a b c = uint (be24 a b c) * millisecond"

definition Video_unmarshal :: "raw_message \<Rightarrow> Video result" where
  "Video_unmarshal raw =
     (if length (m_Body raw) < 5 then Inl (Errorf ''invalid body size'' [])
      else case m_Body raw of
        b0 # b1 # p0 # p1 # p2 # rest \<Rightarrow>
          if b0 AND 0x0F \<noteq> CodecH264 then Inl (Errorf ''unsupported video codec: %d'' [uint (b0 AND 0x0F)])
          else if \<not> is_video_type b1 then Inl (Errorf ''unsupported video message type: %d'' [uint b1])
          else Inr \<lparr>vi_ChunkStreamID = m_ChunkStreamID raw, vi_DTS = m_Timestamp raw,
                    vi_MessageStreamID = m_MessageStreamID raw, vi_Codec = b0 AND 0x0F,
                    vi_IsKeyFrame = (drop_bit 4 b0 = 1), vi_Type = b1, vi_PTSDelta = pts_of p0 p1 p2,
                    vi_Payload = rest\<rparr>
      | _ \<Rightarrow> Inl Panic)"

definition Video_marshalBodySize :: "Video \<Rightarrow> nat" where
  "Video_marshalBodySize m = 5 + length (vi_Payload m)"

definition Video_marshal :: "Video \<Rightarrow> raw_message result" where
  "Video_marshal m =
     Inr (mk_raw (vi_ChunkStreamID m) (vi_DTS m) TypeVideo (vi_MessageStreamID m)
       (fill (Video_marshalBodySize m)
         ([(if vi_IsKeyFrame m then push_bit 4 1 else push_bit 4 2) OR vi_Codec m, vi_Type m] @
          pts_bytes (vi_PTSDelta m) @ vi_Payload m)))"

text \<open>The composition times that the field can carry.\<close>

definition pts_ok :: "duration \<Rightarrow> bool" where
  "pts_ok d \<longleftrightarrow> 0 \<le> d \<and> d < 2 ^ 24 * millisecond \<and> d mod millisecond = 0"

lemma pts_bytes_eq:
  "pts_bytes d = (let v = of_int (go_div d millisecond) in [ucast (drop_bit 16 v), ucast (drop_bit 8 v), ucast (v :: u32)])"
  by (simp only: pts_bytes_def put24_def Let_def)

lemma pts_of_put:
  fixes v :: u32
  shows "pts_of (ucast (drop_bit 16 v)) (ucast (drop_bit 8 v)) (ucast v) = uint v mod 2 ^ 24 * millisecond"
  unfolding pts_of_def be24_put24 by (simp only: unsigned_take_bit_eq take_bit_int_def)

lemma pts_back:
  assumes "pts_ok d"
  shows "uint (of_int (go_div d millisecond) :: u32) mod 2 ^ 24 * millisecond = d"
proof -
  define n where "n = d div millisecond"
  have d: "d = n * millisecond" using assms by (auto simp: pts_ok_def n_def)
  then have n: "0 \<le> n" "n < 2 ^ 24" using assms by (simp_all add: pts_ok_def)
  then have "uint (of_int n :: u32) = n" by (simp add: unsigned_of_int take_bit_int_def)
  with d n show ?thesis by simp
qed

definition Video_ok :: "Video \<Rightarrow> bool" where
  "Video_ok m \<longleftrightarrow> vi_Codec m = CodecH264 \<and> is_video_type (vi_Type m) \<and> pts_ok (vi_PTSDelta m)"

definition video_tag :: "bytes \<Rightarrow> bool" where
  "video_tag b \<longleftrightarrow> b \<noteq> [] \<and> hd b AND 0x80 = 0"

interpretation Video: message_struct Video_marshal Video_unmarshal Video_ok TypeVideo video_tag
proof
  show "bindE (Video_marshal m) Video_unmarshal = Inr m" if "Video_ok m" for m
    using that pts_back [of "vi_PTSDelta m"]
    by (cases m) (auto simp: Video_marshal_def Video_unmarshal_def Video_ok_def Video_marshalBodySize_def
        pts_bytes_eq pts_of_put VideoCodec_defs Let_def)
  show "m_Type raw = TypeVideo \<and> video_tag (m_Body raw)" if "Video_ok m" "Video_marshal m = Inr raw" for m raw
    using that by (auto simp: Video_marshal_def Video_ok_def video_tag_def fill_def Video_marshalBodySize_def VideoCodec_defs)
  show "Video_unmarshal raw \<noteq> Inl Panic" for raw
    by (auto simp: Video_unmarshal_def split: list.split)
qed

section \<open>Extended messages\<close>

definition VideoExTypeSequenceStart :: byte where "VideoExTypeSequenceStart = 0"
definition VideoExTypeCodedFrames :: byte where "VideoExTypeCodedFrames = 1"
definition VideoExTypeSequenceEnd :: byte where "VideoExTypeSequenceEnd = 2"
definition VideoExTypeFramesX :: byte where "VideoExTypeFramesX = 3"
definition VideoExTypeMetadata :: byte where "VideoExTypeMetadata = 4"
definition VideoExTypeMultitrack :: byte where "VideoExTypeMultitrack = 6"

lemmas VideoExType_defs = VideoExTypeSequenceStart_def VideoExTypeCodedFrames_def VideoExTypeSequenceEnd_def
  VideoExTypeFramesX_def VideoExTypeMetadata_def VideoExTypeMultitrack_def

definition video_ex_head :: "byte \<Rightarrow> byte" where
  "video_ex_head ty = 0x80 OR ty"

definition video_ex_tag :: "byte \<Rightarrow> bytes \<Rightarrow> bool" where
  "video_ex_tag ty b \<longleftrightarrow> b \<noteq> [] \<and> hd b AND 0x80 \<noteq> 0 \<and> hd b AND 0x0F = ty"

lemmas video_ex_simps = put32_def video_ex_tag_def video_ex_head_def VideoExType_defs unsupported_fourcc_def Let_def

subsection \<open>VideoExSequenceEnd and VideoExFramesX\<close>

record VideoExSequenceEnd =
  ve_ChunkStreamID :: byte
  ve_MessageStreamID :: u32
  ve_FourCC :: u32

definition VideoExSequenceEnd_unmarshal :: "raw_message \<Rightarrow> VideoExSequenceEnd result" where
  "VideoExSequenceEnd_unmarshal raw =
     (if length (m_Body raw) \<noteq> 5 then Inl (Errorf ''not enough bytes'' [])
      else case m_Body raw of
        [_, f0, f1, f2, f3] \<Rightarrow>
          if \<not> is_video_fourcc (be32 f0 f1 f2 f3) then Inl (unsupported_fourcc (be32 f0 f1 f2 f3))
          else Inr \<lparr>ve_ChunkStreamID = m_ChunkStreamID raw, ve_MessageStreamID = m_MessageStreamID raw,
                    ve_FourCC = be32 f0 f1 f2 f3\<rparr>
      | _ \<Rightarrow> Inl Panic)"

definition VideoExSequenceEnd_marshal :: "VideoExSequenceEnd \<Rightarrow> raw_message result" where
  "VideoExSequenceEnd_marshal m =
     Inr (mk_raw (ve_ChunkStreamID m) 0 TypeVideo (ve_MessageStreamID m)
       ([video_ex_head VideoExTypeSequenceEnd] @ put32 (ve_FourCC m)))"

record VideoExFramesX =
  vf_ChunkStreamID :: byte
  vf_DTS :: duration
  vf_MessageStreamID :: u32
  vf_FourCC :: u32
  vf_Payload :: bytes

definition VideoExFramesX_unmarshal :: "raw_message \<Rightarrow> VideoExFramesX result" where
  "VideoExFramesX_unmarshal raw =
     (if length (m_Body raw) < 6 then Inl (Errorf ''not enough bytes'' [])
      else case m_Body raw of
        _ # f0 # f1 # f2 # f3 # rest \<Rightarrow>
          if \<not> is_video_fourcc (be32 f0 f1 f2 f3) then Inl (unsupported_fourcc (be32 f0 f1 f2 f3))
          else Inr \<lparr>vf_ChunkStreamID = m_ChunkStreamID raw, vf_DTS = m_Timestamp raw,
                    vf_MessageStreamID = m_MessageStreamID raw, vf_FourCC = be32 f0 f1 f2 f3, vf_Payload = rest\<rparr>
      | _ \<Rightarrow> Inl Panic)"

definition VideoExFramesX_marshal :: "VideoExFramesX \<Rightarrow> raw_message result" where
  "VideoExFramesX_marshal m =
     Inr (mk_raw (vf_ChunkStreamID m) (vf_DTS m) TypeVideo (vf_MessageStreamID m)
       (fill (5 + length (vf_Payload m))
         ([video_ex_head VideoExTypeFramesX] @ put32 (vf_FourCC m) @ vf_Payload m)))"

interpretation VideoExSequenceEnd: wrappable_struct VideoExSequenceEnd_marshal VideoExSequenceEnd_unmarshal
  "\<lambda>m. is_video_fourcc (ve_FourCC m)" TypeVideo "video_ex_tag VideoExTypeSequenceEnd" VideoExTypeSequenceEnd
  by standard (auto simp: VideoExSequenceEnd_marshal_def VideoExSequenceEnd_unmarshal_def video_ex_simps
      split: list.split)

interpretation VideoExFramesX: wrappable_struct VideoExFramesX_marshal VideoExFramesX_unmarshal
  "\<lambda>m. is_video_fourcc (vf_FourCC m) \<and> vf_Payload m \<noteq> []" TypeVideo "video_ex_tag VideoExTypeFramesX" VideoExTypeFramesX
  by standard (auto simp: VideoExFramesX_marshal_def VideoExFramesX_unmarshal_def video_ex_simps Suc_le_eq
      split: list.split)

subsection \<open>VideoExCodedFrames\<close>

record VideoExCodedFrames =
  vc_ChunkStreamID :: byte
  vc_DTS :: duration
  vc_MessageStreamID :: u32
  vc_FourCC :: u32
  vc_PTSDelta :: duration
  vc_Payload :: bytes

definition VideoExCodedFrames_unmarshal :: "raw_message \<Rightarrow> VideoExCodedFrames result" where
  "VideoExCodedFrames_unmarshal raw =
     (if length (m_Body raw) < 5 then Inl (Errorf ''not enough bytes'' [])
      else case m_Body raw of
        _ # f0 # f1 # f2 # f3 # rest \<Rightarrow>
          let m = \<lparr>vc_ChunkStreamID = m_ChunkStreamID raw, vc_DTS = m_Timestamp raw,
                   vc_MessageStreamID = m_MessageStreamID raw, vc_FourCC = be32 f0 f1 f2 f3,
                   vc_PTSDelta = 0, vc_Payload = []\<rparr>
          in if vc_FourCC m = FourCCAVC \<or> vc_FourCC m = FourCCHEVC then
               (if length (m_Body raw) < 8 then Inl (Errorf ''not enough bytes'' [])
                else case rest of
                  p0 # p1 # p2 # payload \<Rightarrow> Inr (m\<lparr>vc_PTSDelta := pts_of p0 p1 p2, vc_Payload := payload\<rparr>)
                | _ \<Rightarrow> Inl Panic)
             else if vc_FourCC m = FourCCAV1 \<or> vc_FourCC m = FourCCVP9 then Inr (m\<lparr>vc_Payload := rest\<rparr>)
             else Inl (unsupported_fourcc (vc_FourCC m))
      | _ \<Rightarrow> Inl Panic)"

definition VideoExCodedFrames_marshalBodySize :: "VideoExCodedFrames \<Rightarrow> nat" where
  "VideoExCodedFrames_marshalBodySize m =
     (if vc_FourCC m = FourCCAVC \<or> vc_FourCC m = FourCCHEVC then 8 + length (vc_Payload m)
      else 5 + length (vc_Payload m))"

definition VideoExCodedFrames_marshal :: "VideoExCodedFrames \<Rightarrow> raw_message result" where
  "VideoExCodedFrames_marshal m =
     Inr (mk_raw (vc_ChunkStreamID m) (vc_DTS m) TypeVideo (vc_MessageStreamID m)
       (fill (VideoExCodedFrames_marshalBodySize m)
         ([video_ex_head VideoExTypeCodedFrames] @ put32 (vc_FourCC m) @
          (if vc_FourCC m = FourCCHEVC then pts_bytes (vc_PTSDelta m) @ vc_Payload m else vc_Payload m))))"

definition VideoExCodedFrames_ok :: "VideoExCodedFrames \<Rightarrow> bool" where
  "VideoExCodedFrames_ok m \<longleftrightarrow>
     (vc_FourCC m = FourCCHEVC \<and> pts_ok (vc_PTSDelta m)) \<or>
     ((vc_FourCC m = FourCCAV1 \<or> vc_FourCC m = FourCCVP9) \<and> vc_PTSDelta m = 0)"

interpretation VideoExCodedFrames: wrappable_struct VideoExCodedFrames_marshal VideoExCodedFrames_unmarshal
  VideoExCodedFrames_ok TypeVideo "video_ex_tag VideoExTypeCodedFrames" VideoExTypeCodedFrames
proof
  show "bindE (VideoExCodedFrames_marshal m) VideoExCodedFrames_unmarshal = Inr m" if "VideoExCodedFrames_ok m" for m
    using that pts_back [of "vc_PTSDelta m"]
    by (cases m) (auto simp: VideoExCodedFrames_marshal_def VideoExCodedFrames_unmarshal_def VideoExCodedFrames_ok_def
        VideoExCodedFrames_marshalBodySize_def pts_bytes_eq pts_of_put put32_def Let_def)
  show "VideoExCodedFrames_unmarshal raw \<noteq> Inl Panic" for raw
    by (auto simp: VideoExCodedFrames_unmarshal_def unsupported_fourcc_def Let_def split: list.split)
  show "VideoExCodedFrames_unmarshal (mk_raw i ts t s (b # bs)) = VideoExCodedFrames_unmarshal (mk_raw i ts t' s (b' # bs))"
    for i ts t t' s b b' bs
    by (simp add: VideoExCodedFrames_unmarshal_def Let_def split: list.split)
qed (auto simp: VideoExCodedFrames_marshal_def VideoExCodedFrames_marshalBodySize_def fill_Cons video_ex_simps)

subsection \<open>VideoExMetadata\<close>

record VideoExMetadata =
  vm_ChunkStreamID :: byte
  vm_DTS :: duration
  vm_MessageStreamID :: u32
  vm_FourCC :: u32
  vm_Payload :: "amf list"

definition VideoExMetadata_unmarshal :: "raw_message \<Rightarrow> VideoExMetadata result" where
  "VideoExMetadata_unmarshal raw =
     (if length (m_Body raw) < 6 then Inl (Errorf ''invalid body size'' [])
      else case m_Body raw of
        _ # f0 # f1 # f2 # f3 # rest \<Rightarrow>
          let f = be32 f0 f1 f2 f3
          in if f \<noteq> FourCCAV1 \<and> f \<noteq> FourCCVP9 \<and> f \<noteq> FourCCHEVC then Inl (unsupported_fourcc f)
             else bindE (Unmarshal rest) (\<lambda>payload.
               Inr \<lparr>vm_ChunkStreamID = m_ChunkStreamID raw, vm_DTS = m_Timestamp raw,
                    vm_MessageStreamID = m_MessageStreamID raw, vm_FourCC = f, vm_Payload = payload\<rparr>)
      | _ \<Rightarrow> Inl Panic)"

definition VideoExMetadata_marshalBodySize :: "VideoExMetadata \<Rightarrow> nat result" where
  "VideoExMetadata_marshalBodySize m = bindE (MarshalSize (vm_Payload m)) (\<lambda>ms. Inr (5 + ms))"

definition VideoExMetadata_marshal :: "VideoExMetadata \<Rightarrow> raw_message result" where
  "VideoExMetadata_marshal m =
     bindE (VideoExMetadata_marshalBodySize m) (\<lambda>mbs.
       Inr (mk_raw (vm_ChunkStreamID m) (vm_DTS m) TypeVideo (vm_MessageStreamID m)
         (fill mbs ([video_ex_head VideoExTypeMetadata] @ put32 (vm_FourCC m) @ MarshalTo (vm_Payload m)))))"

definition VideoExMetadata_ok :: "VideoExMetadata \<Rightarrow> bool" where
  "VideoExMetadata_ok m \<longleftrightarrow> is_video_fourcc (vm_FourCC m) \<and> vm_FourCC m \<noteq> FourCCAVC \<and>
     vm_Payload m \<noteq> [] \<and> items_ok (vm_Payload m)"

lemma marshalItems_nonempty: "items_ok vs \<Longrightarrow> vs \<noteq> [] \<Longrightarrow> marshalItems vs \<noteq> []"
proof (cases vs)
  case (Cons v vs')
  then show ?thesis by (cases v) auto
qed simp

interpretation VideoExMetadata: message_struct VideoExMetadata_marshal VideoExMetadata_unmarshal VideoExMetadata_ok
  TypeVideo "video_ex_tag VideoExTypeMetadata"
proof
  fix m
  assume ok: "VideoExMetadata_ok m"
  then obtain n where n: "marshalSizeItems (vm_Payload m) = Inr n"
    using marshal_sizes_ok(3) [of "vm_Payload m"] by (auto simp: VideoExMetadata_ok_def)
  have len: "n = length (marshalItems (vm_Payload m))" using marshal_sizes(3) [OF n] by simp
  have un: "Unmarshal (marshalItems (vm_Payload m)) = Inr (vm_Payload m)"
    using ok Unmarshal_append by (simp add: VideoExMetadata_ok_def)
  have m: "VideoExMetadata_marshal m = Inr (mk_raw (vm_ChunkStreamID m) (vm_DTS m) TypeVideo (vm_MessageStreamID m)
      ([video_ex_head VideoExTypeMetadata] @ put32 (vm_FourCC m) @ marshalItems (vm_Payload m)))"
    using n by (simp add: VideoExMetadata_marshal_def VideoExMetadata_marshalBodySize_def MarshalSize_def MarshalTo_def len)
  have "marshalItems (vm_Payload m) \<noteq> []"
    using ok marshalItems_nonempty by (simp add: VideoExMetadata_ok_def)
  then show "bindE (VideoExMetadata_marshal m) VideoExMetadata_unmarshal = Inr m"
    using ok un unfolding m
    by (auto simp: VideoExMetadata_unmarshal_def put32_def Let_def VideoExMetadata_ok_def is_video_fourcc_def Suc_le_eq)
  show "m_Type raw = TypeVideo \<and> video_ex_tag VideoExTypeMetadata (m_Body raw)" if "VideoExMetadata_marshal m = Inr raw" for raw
    using that unfolding m by (auto simp: video_ex_simps)
next
  show "VideoExMetadata_unmarshal raw \<noteq> Inl Panic" for raw
    by (auto simp: VideoExMetadata_unmarshal_def unsupported_fourcc_def Let_def bindE_def Unmarshal_no_panic
        split: list.split sum.split)
qed

subsection \<open>VideoExSequenceStart\<close>

record 'cfg VideoExSequenceStart =
  vs_ChunkStreamID :: byte
  vs_MessageStreamID :: u32
  vs_FourCC :: u32
  vs_AV1Header :: "'cfg option"
  vs_VP9Header :: "'cfg option"
  vs_HEVCHeader :: "'cfg option"
  vs_AVCHeader :: "'cfg option"

definition VideoExSequenceStart_unmarshal :: "'cfg codecs \<Rightarrow> raw_message \<Rightarrow> 'cfg VideoExSequenceStart result" where
  "VideoExSequenceStart_unmarshal cs raw =
     (if length (m_Body raw) < 5 then Inl (Errorf ''not enough bytes'' [])
      else case m_Body raw of
        _ # f0 # f1 # f2 # f3 # rest \<Rightarrow>
          let m = \<lparr>vs_ChunkStreamID = m_ChunkStreamID raw, vs_MessageStreamID = m_MessageStreamID raw,
                   vs_FourCC = be32 f0 f1 f2 f3, vs_AV1Header = None, vs_VP9Header = None,
                   vs_HEVCHeader = None, vs_AVCHeader = None\<rparr>
          in if vs_FourCC m = FourCCAV1 then
               bindE (decode_cfg cs Av1C ''invalid AV1 configuration'' rest) (\<lambda>h. Inr (m\<lparr>vs_AV1Header := Some h\<rparr>))
             else if vs_FourCC m = FourCCVP9 then
               bindE (decode_cfg cs VpcC ''invalid VP9 configuration'' rest) (\<lambda>h. Inr (m\<lparr>vs_VP9Header := Some h\<rparr>))
             else if vs_FourCC m = FourCCHEVC then
               bindE (decode_cfg cs HvcC ''invalid H265 configuration'' rest) (\<lambda>h. Inr (m\<lparr>vs_HEVCHeader := Some h\<rparr>))
             else if vs_FourCC m = FourCCAVC then
               bindE (decode_cfg cs AVCDecoderConfiguration ''invalid H264 configuration'' rest) (\<lambda>h.
                 Inr (m\<lparr>vs_AVCHeader := Some h\<rparr>))
             else Inl (unsupported_fourcc (vs_FourCC m))
      | _ \<Rightarrow> Inl Panic)"

definition VideoExSequenceStart_marshal :: "'cfg codecs \<Rightarrow> 'cfg VideoExSequenceStart \<Rightarrow> raw_message result" where
  "VideoExSequenceStart_marshal cs m =
     bindE (if vs_FourCC m = FourCCAV1 then encode_cfg cs Av1C (vs_AV1Header m)
            else if vs_FourCC m = FourCCVP9 then encode_cfg cs VpcC (vs_VP9Header m)
            else if vs_FourCC m = FourCCHEVC then encode_cfg cs HvcC (vs_HEVCHeader m)
            else if vs_FourCC m = FourCCAVC then encode_cfg cs AVCDecoderConfiguration (vs_AVCHeader m)
            else Inr []) (\<lambda>addBody.
       Inr (mk_raw (vs_ChunkStreamID m) 0 TypeVideo (vs_MessageStreamID m)
         ([video_ex_head VideoExTypeSequenceStart] @ put32 (vs_FourCC m) @ addBody)))"

text \<open>One header, the one of the codec.\<close>

definition VideoExSequenceStart_ok :: "'cfg codecs \<Rightarrow> 'cfg VideoExSequenceStart \<Rightarrow> bool" where
  "VideoExSequenceStart_ok cs m \<longleftrightarrow> is_video_fourcc (vs_FourCC m) \<and>
     (if vs_FourCC m = FourCCAV1 then cfg_carried cs Av1C (vs_AV1Header m) else vs_AV1Header m = None) \<and>
     (if vs_FourCC m = FourCCVP9 then cfg_carried cs VpcC (vs_VP9Header m) else vs_VP9Header m = None) \<and>
     (if vs_FourCC m = FourCCHEVC then cfg_carried cs HvcC (vs_HEVCHeader m) else vs_HEVCHeader m = None) \<and>
     (if vs_FourCC m = FourCCAVC then cfg_carried cs AVCDecoderConfiguration (vs_AVCHeader m) else vs_AVCHeader m = None)"

interpretation VideoExSequenceStart: wrappable_struct "VideoExSequenceStart_marshal cs" "VideoExSequenceStart_unmarshal cs"
  "VideoExSequenceStart_ok cs" TypeVideo "video_ex_tag VideoExTypeSequenceStart" VideoExTypeSequenceStart for cs
proof
  fix m :: "'a VideoExSequenceStart"
  assume ok: "VideoExSequenceStart_ok cs m"
  have "vs_FourCC m = FourCCAV1 \<or> vs_FourCC m = FourCCVP9 \<or> vs_FourCC m = FourCCHEVC \<or> vs_FourCC m = FourCCAVC"
    using ok by (simp add: VideoExSequenceStart_ok_def is_video_fourcc_def)
  then show "bindE (VideoExSequenceStart_marshal cs m) (VideoExSequenceStart_unmarshal cs) = Inr m"
    using ok
    by (elim disjE; cases m)
      (auto simp: VideoExSequenceStart_ok_def VideoExSequenceStart_marshal_def VideoExSequenceStart_unmarshal_def
        put32_def elim!: cfg_carriedE)
next
  show "m_Type raw = TypeVideo \<and> video_ex_tag VideoExTypeSequenceStart (m_Body raw)"
    if "VideoExSequenceStart_marshal cs m = Inr raw" for m raw
    using that by (auto simp: VideoExSequenceStart_marshal_def bindE_eq_Inr video_ex_simps)
next
  show "VideoExSequenceStart_unmarshal cs raw \<noteq> Inl Panic" for raw
    by (auto simp: VideoExSequenceStart_unmarshal_def Let_def unsupported_fourcc_def bindE_def split: list.split sum.split)
next
  show "5 \<le> length (m_Body raw) \<and> m_Body raw ! 0 AND 0x0F = VideoExTypeSequenceStart"
    if "VideoExSequenceStart_marshal cs m = Inr raw" for m raw
    using that by (auto simp: VideoExSequenceStart_marshal_def bindE_eq_Inr video_ex_simps)
next
  show "VideoExSequenceStart_unmarshal cs (mk_raw i ts t s (b # bs)) = VideoExSequenceStart_unmarshal cs (mk_raw i ts t' s (b' # bs))"
    for i ts t t' s b b' bs
    by (simp add: VideoExSequenceStart_unmarshal_def Let_def split: list.split)
qed

section \<open>Video messages that do not survive\<close>

text \<open>
  An extended message with H264 frames is not what its reader expects: the composition time is left
  out, although room was made for it. The reader takes the first three bytes of the payload for
  the composition time, and gets a payload that lacks them and ends with three zero bytes.
\<close>

theorem video_avc_frames_shifted:
  assumes "vc_FourCC m = FourCCAVC" "vc_Payload m = a # b # c # rest"
  shows "bindE (VideoExCodedFrames_marshal m) VideoExCodedFrames_unmarshal =
    Inr (m\<lparr>vc_PTSDelta := pts_of a b c, vc_Payload := rest @ [0, 0, 0]\<rparr>)"
  using assms
  by (cases m) (simp add: VideoExCodedFrames_marshal_def VideoExCodedFrames_unmarshal_def
      VideoExCodedFrames_marshalBodySize_def fill_def put32_def numeral_3_eq_3)

definition sample_avc :: VideoExCodedFrames where
  "sample_avc = \<lparr>vc_ChunkStreamID = 6, vc_DTS = 0, vc_MessageStreamID = 1, vc_FourCC = FourCCAVC,
     vc_PTSDelta = 40 * millisecond, vc_Payload = [0, 0, 1, 9]\<rparr>"

lemma video_avc_frames_shifted_witness:
  "bindE (VideoExCodedFrames_marshal sample_avc) VideoExCodedFrames_unmarshal =
    Inr (sample_avc\<lparr>vc_PTSDelta := pts_of 0 0 1, vc_Payload := [9, 0, 0, 0]\<rparr>)"
  using video_avc_frames_shifted [of sample_avc 0 0 1 "[9]"] by (simp add: sample_avc_def)

text \<open>
  The composition time of a Video message is carried modulo 2^24 milliseconds and read without a
  sign: a frame that is shown before it is decoded comes back with a time of more than four hours.
\<close>

theorem video_pts_wraps:
  assumes "vi_Codec m = CodecH264" "is_video_type (vi_Type m)"
  shows "bindE (Video_marshal m) Video_unmarshal =
    Inr (m\<lparr>vi_PTSDelta := go_div (vi_PTSDelta m) millisecond mod 2 ^ 24 * millisecond\<rparr>)"
proof -
  have "uint (of_int n :: u32) mod 2 ^ 24 = n mod 2 ^ 24" for n :: int
    by (simp add: unsigned_of_int take_bit_int_def mod_mod_cancel)
  with assms show ?thesis
    by (cases m) (auto simp: Video_marshal_def Video_unmarshal_def Video_marshalBodySize_def pts_bytes_eq pts_of_put
        VideoCodec_defs Let_def)
qed

definition sample_video :: Video where
  "sample_video = \<lparr>vi_ChunkStreamID = 6, vi_DTS = 0, vi_MessageStreamID = 1, vi_Codec = CodecH264, vi_IsKeyFrame = True,
     vi_Type = VideoTypeAU, vi_PTSDelta = - 40 * millisecond, vi_Payload = [1]\<rparr>"

lemma video_pts_wraps_witness:
  "bindE (Video_marshal sample_video) Video_unmarshal = Inr (sample_video\<lparr>vi_PTSDelta := 16777176 * millisecond\<rparr>)"
proof -
  have "go_div (vi_PTSDelta sample_video) millisecond mod 2 ^ 24 * millisecond = 16777176 * millisecond" by code_simp
  with video_pts_wraps [of sample_video] show ?thesis by (simp add: sample_video_def is_video_type_def)
qed

end
