(* ===== verification/Message.thy ===== *)
theory Message
  imports RawRoundtrip MessageVideo
begin

text \<open>
  Package message as a whole: the messages, the multitrack messages that wrap others, and the reader,
  the writer and the read-writer on top of package rawmessage (reader.go, writer.go, readwriter.go,
  msg_audio_ex_multitrack.go, msg_video_ex_multitrack.go).
\<close>

section \<open>Messages\<close>

text \<open>The implementations of the interface \<open>Message\<close>. What a multitrack message wraps is never nil.\<close>

datatype 'cfg message =
    MSetChunkSize u32
  | MAcknowledge u32
  | MSetWindowAckSize u32
  | MSetPeerBandwidth SetPeerBandwidth
  | MUserControlStreamBegin u32
  | MUserControlStreamEOF u32
  | MUserControlStreamDry u32
  | MUserControlSetBufferLength UserControlSetBufferLength
  | MUserControlStreamIsRecorded u32
  | MUserControlPingRequest u32
  | MUserControlPingResponse u32
  | MCommandAMF0 CommandAMF0
  | MDataAMF0 DataAMF0
  | MAudio Audio
  | MAudioExSequenceStart "'cfg AudioExSequenceStart"
  | MAudioExSequenceEnd AudioExSequenceEnd
  | MAudioExMultichannelConfig AudioExMultichannelConfig
  | MAudioExCodedFrames AudioExCodedFrames
  | MAudioExMultitrack u8 u8 "'cfg message"
  | MVideo Video
  | MVideoExSequenceStart "'cfg VideoExSequenceStart"
  | MVideoExSequenceEnd VideoExSequenceEnd
  | MVideoExCodedFrames VideoExCodedFrames
  | MVideoExFramesX VideoExFramesX
  | MVideoExMetadata VideoExMetadata
  | MVideoExMultitrack u8 u8 "'cfg message"

datatype message_kind =
    KSetChunkSize
  | KAcknowledge
  | KSetWindowAckSize
  | KSetPeerBandwidth
  | KUserControlStreamBegin
  | KUserControlStreamEOF
  | KUserControlStreamDry
  | KUserControlSetBufferLength
  | KUserControlStreamIsRecorded
  | KUserControlPingRequest
  | KUserControlPingResponse
  | KCommandAMF0
  | KDataAMF0
  | KAudio
  | KAudioExSequenceStart
  | KAudioExSequenceEnd
  | KAudioExMultichannelConfig
  | KAudioExCodedFrames
  | KAudioExMultitrack
  | KVideo
  | KVideoExSequenceStart
  | KVideoExSequenceEnd
  | KVideoExCodedFrames
  | KVideoExFramesX
  | KVideoExMetadata
  | KVideoExMultitrack

section \<open>Recognising a message\<close>

definition user_control_kind :: "u16 \<Rightarrow> message_kind result" where
  "user_control_kind t =
     (if t = UserControlTypeStreamBegin then Inr KUserControlStreamBegin
      else if t = UserControlTypeStreamEOF then Inr KUserControlStreamEOF
      else if t = UserControlTypeStreamDry then Inr KUserControlStreamDry
      else if t = UserControlTypeSetBufferLength then Inr KUserControlSetBufferLength
      else if t = UserControlTypeStreamIsRecorded then Inr KUserControlStreamIsRecorded
      else if t = UserControlTypePingRequest then Inr KUserControlPingRequest
      else if t = UserControlTypePingResponse then Inr KUserControlPingResponse
      else Inl (Errorf ''invalid user control type: %v'' [uint t]))"

definition audio_ex_kind :: "byte \<Rightarrow> message_kind result" where
  "audio_ex_kind t =
     (if t = AudioExTypeSequenceStart then Inr KAudioExSequenceStart
      else if t = AudioExTypeSequenceEnd then Inr KAudioExSequenceEnd
      else if t = AudioExTypeMultichannelConfig then Inr KAudioExMultichannelConfig
      else if t = AudioExTypeCodedFrames then Inr KAudioExCodedFrames
      else if t = AudioExTypeMultitrack then Inr KAudioExMultitrack
      else Inl (Errorf ''unsupported audio extended type: %v'' [uint t]))"

definition video_ex_kind :: "byte \<Rightarrow> message_kind result" where
  "video_ex_kind t =
     (if t = VideoExTypeSequenceStart then Inr KVideoExSequenceStart
      else if t = VideoExTypeSequenceEnd then Inr KVideoExSequenceEnd
      else if t = VideoExTypeCodedFrames then Inr KVideoExCodedFrames
      else if t = VideoExTypeFramesX then Inr KVideoExFramesX
      else if t = VideoExTypeMetadata then Inr KVideoExMetadata
      else if t = VideoExTypeMultitrack then Inr KVideoExMultitrack
      else Inl (Errorf ''unsupported video extended type: %v'' [uint t]))"

definition allocateMessage :: "raw_message \<Rightarrow> message_kind result" where
  "allocateMessage raw =
     (let ty = m_Type raw; body = m_Body raw; short = Inl (Errorf ''not enough bytes'' []) in
      if ty = TypeSetChunkSize then Inr KSetChunkSize
      else if ty = TypeAcknowledge then Inr KAcknowledge
      else if ty = TypeSetWindowAckSize then Inr KSetWindowAckSize
      else if ty = TypeSetPeerBandwidth then Inr KSetPeerBandwidth
      else if ty = TypeUserControl then
        (case body of b0 # b1 # _ \<Rightarrow> user_control_kind (be16 b0 b1) | _ \<Rightarrow> short)
      else if ty = TypeCommandAMF0 then Inr KCommandAMF0
      else if ty = TypeDataAMF0 then Inr KDataAMF0
      else if ty = TypeAudio then
        (case body of [] \<Rightarrow> short
         | b0 # _ \<Rightarrow> if drop_bit 4 b0 = 9 then audio_ex_kind (b0 AND 0x0F) else Inr KAudio)
      else if ty = TypeVideo then
        (case body of [] \<Rightarrow> short
         | b0 # _ \<Rightarrow> if b0 AND 0x80 \<noteq> 0 then video_ex_kind (b0 AND 0x0F) else Inr KVideo)
      else Inl (Errorf ''invalid message type: %v'' [uint ty]))"

section \<open>Multitrack messages\<close>

definition MultitrackTypeOneTrack :: u8 where "MultitrackTypeOneTrack = 0"

text \<open>
  A multitrack message of one track: type and packet type in one byte, the codec identifier of the
  wrapped message, the track, and the rest of the wrapped message. The wrapped message is decoded from
  a body that has a zero as first byte.
\<close>

definition multitrack_unmarshal ::
  "(byte \<Rightarrow> raw_message \<Rightarrow> 'cfg message result) \<Rightarrow> raw_message \<Rightarrow> (u8 \<times> u8 \<times> 'cfg message) result" where
  "multitrack_unmarshal wrapped raw =
     (if length (m_Body raw) < 7 then Inl (Errorf ''not enough bytes'' [])
      else case m_Body raw of
        _ # b1 # f0 # f1 # f2 # f3 # trackID # rest \<Rightarrow>
          let ty = drop_bit 4 b1
          in if ty \<noteq> MultitrackTypeOneTrack then Inl (Errorf ''unsupported multitrack type: %v'' [uint ty])
             else bindE (wrapped (b1 AND 0x0F)
                    (mk_raw (m_ChunkStreamID raw) (m_Timestamp raw) 0 (m_MessageStreamID raw) (0 # f0 # f1 # f2 # f3 # rest)))
                  (\<lambda>m. Inr (ty, trackID, m))
      | _ \<Rightarrow> Inl Panic)"

definition AudioExMultitrack_wrapped :: "'cfg codecs \<Rightarrow> byte \<Rightarrow> raw_message \<Rightarrow> 'cfg message result" where
  "AudioExMultitrack_wrapped cs packetType raw =
     (if packetType = AudioExTypeSequenceStart then map_sum id MAudioExSequenceStart (AudioExSequenceStart_unmarshal cs raw)
      else if packetType = AudioExTypeSequenceEnd then map_sum id MAudioExSequenceEnd (AudioExSequenceEnd_unmarshal raw)
      else if packetType = AudioExTypeMultichannelConfig
        then map_sum id MAudioExMultichannelConfig (AudioExMultichannelConfig_unmarshal raw)
      else if packetType = AudioExTypeCodedFrames then map_sum id MAudioExCodedFrames (AudioExCodedFrames_unmarshal raw)
      else Inl (Errorf ''unsupported audio multitrack packet type: %v'' [uint packetType]))"

definition VideoExMultitrack_wrapped :: "'cfg codecs \<Rightarrow> byte \<Rightarrow> raw_message \<Rightarrow> 'cfg message result" where
  "VideoExMultitrack_wrapped cs packetType raw =
     (if packetType = VideoExTypeSequenceStart then map_sum id MVideoExSequenceStart (VideoExSequenceStart_unmarshal cs raw)
      else if packetType = VideoExTypeSequenceEnd then map_sum id MVideoExSequenceEnd (VideoExSequenceEnd_unmarshal raw)
      else if packetType = VideoExTypeCodedFrames then map_sum id MVideoExCodedFrames (VideoExCodedFrames_unmarshal raw)
      else if packetType = VideoExTypeFramesX then map_sum id MVideoExFramesX (VideoExFramesX_unmarshal raw)
      else Inl (Errorf ''unsupported video multitrack packet type: %v'' [uint packetType]))"

definition AudioExMultitrack_unmarshal :: "'cfg codecs \<Rightarrow> raw_message \<Rightarrow> 'cfg message result" where
  "AudioExMultitrack_unmarshal cs raw =
     bindE (multitrack_unmarshal (AudioExMultitrack_wrapped cs) raw) (\<lambda>(ty, trackID, m). Inr (MAudioExMultitrack ty trackID m))"

definition VideoExMultitrack_unmarshal :: "'cfg codecs \<Rightarrow> raw_message \<Rightarrow> 'cfg message result" where
  "VideoExMultitrack_unmarshal cs raw =
     bindE (multitrack_unmarshal (VideoExMultitrack_wrapped cs) raw) (\<lambda>(ty, trackID, m). Inr (MVideoExMultitrack ty trackID m))"

text \<open>The encoder panics when the wrapped message encodes to less than five bytes.\<close>

definition multitrack_marshal :: "byte \<Rightarrow> u8 \<Rightarrow> u8 \<Rightarrow> raw_message \<Rightarrow> raw_message result" where
  "multitrack_marshal hd0 ty trackID wrappedEnc =
     (case m_Body wrappedEnc of
        b0 # f0 # f1 # f2 # f3 # rest \<Rightarrow>
          Inr (mk_raw (m_ChunkStreamID wrappedEnc) (m_Timestamp wrappedEnc) ty (m_MessageStreamID wrappedEnc)
                 ([hd0, b0 AND 0x0F, f0, f1, f2, f3, trackID] @ rest))
      | _ \<Rightarrow> Inl Panic)"

section \<open>Decoding and encoding any message\<close>

fun unmarshal_as :: "'cfg codecs \<Rightarrow> message_kind \<Rightarrow> raw_message \<Rightarrow> 'cfg message result" where
  "unmarshal_as cs KSetChunkSize raw = map_sum id MSetChunkSize (SetChunkSize_unmarshal raw)"
| "unmarshal_as cs KAcknowledge raw = map_sum id MAcknowledge (Acknowledge_unmarshal raw)"
| "unmarshal_as cs KSetWindowAckSize raw = map_sum id MSetWindowAckSize (SetWindowAckSize_unmarshal raw)"
| "unmarshal_as cs KSetPeerBandwidth raw = map_sum id MSetPeerBandwidth (SetPeerBandwidth_unmarshal raw)"
| "unmarshal_as cs KUserControlStreamBegin raw = map_sum id MUserControlStreamBegin (UserControlStreamBegin_unmarshal raw)"
| "unmarshal_as cs KUserControlStreamEOF raw = map_sum id MUserControlStreamEOF (UserControlStreamEOF_unmarshal raw)"
| "unmarshal_as cs KUserControlStreamDry raw = map_sum id MUserControlStreamDry (UserControlStreamDry_unmarshal raw)"
| "unmarshal_as cs KUserControlSetBufferLength raw = map_sum id MUserControlSetBufferLength (UserControlSetBufferLength_unmarshal raw)"
| "unmarshal_as cs KUserControlStreamIsRecorded raw = map_sum id MUserControlStreamIsRecorded (UserControlStreamIsRecorded_unmarshal raw)"
| "unmarshal_as cs KUserControlPingRequest raw = map_sum id MUserControlPingRequest (UserControlPingRequest_unmarshal raw)"
| "unmarshal_as cs KUserControlPingResponse raw = map_sum id MUserControlPingResponse (UserControlPingResponse_unmarshal raw)"
| "unmarshal_as cs KCommandAMF0 raw = map_sum id MCommandAMF0 (CommandAMF0_unmarshal raw)"
| "unmarshal_as cs KDataAMF0 raw = map_sum id MDataAMF0 (DataAMF0_unmarshal raw)"
| "unmarshal_as cs KAudio raw = map_sum id MAudio (Audio_unmarshal raw)"
| "unmarshal_as cs KAudioExSequenceStart raw = map_sum id MAudioExSequenceStart (AudioExSequenceStart_unmarshal cs raw)"
| "unmarshal_as cs KAudioExSequenceEnd raw = map_sum id MAudioExSequenceEnd (AudioExSequenceEnd_unmarshal raw)"
| "unmarshal_as cs KAudioExMultichannelConfig raw = map_sum id MAudioExMultichannelConfig (AudioExMultichannelConfig_unmarshal raw)"
| "unmarshal_as cs KAudioExCodedFrames raw = map_sum id MAudioExCodedFrames (AudioExCodedFrames_unmarshal raw)"
| "unmarshal_as cs KAudioExMultitrack raw = AudioExMultitrack_unmarshal cs raw"
| "unmarshal_as cs KVideo raw = map_sum id MVideo (Video_unmarshal raw)"
| "unmarshal_as cs KVideoExSequenceStart raw = map_sum id MVideoExSequenceStart (VideoExSequenceStart_unmarshal cs raw)"
| "unmarshal_as cs KVideoExSequenceEnd raw = map_sum id MVideoExSequenceEnd (VideoExSequenceEnd_unmarshal raw)"
| "unmarshal_as cs KVideoExCodedFrames raw = map_sum id MVideoExCodedFrames (VideoExCodedFrames_unmarshal raw)"
| "unmarshal_as cs KVideoExFramesX raw = map_sum id MVideoExFramesX (VideoExFramesX_unmarshal raw)"
| "unmarshal_as cs KVideoExMetadata raw = map_sum id MVideoExMetadata (VideoExMetadata_unmarshal raw)"
| "unmarshal_as cs KVideoExMultitrack raw = VideoExMultitrack_unmarshal cs raw"

definition Message_unmarshal :: "'cfg codecs \<Rightarrow> raw_message \<Rightarrow> 'cfg message result" where
  "Message_unmarshal cs raw = bindE (allocateMessage raw) (\<lambda>k. unmarshal_as cs k raw)"

primrec Message_marshal :: "'cfg codecs \<Rightarrow> 'cfg message \<Rightarrow> raw_message result" where
  "Message_marshal cs (MSetChunkSize m) = SetChunkSize_marshal m"
| "Message_marshal cs (MAcknowledge m) = Acknowledge_marshal m"
| "Message_marshal cs (MSetWindowAckSize m) = SetWindowAckSize_marshal m"
| "Message_marshal cs (MSetPeerBandwidth m) = SetPeerBandwidth_marshal m"
| "Message_marshal cs (MUserControlStreamBegin m) = UserControlStreamBegin_marshal m"
| "Message_marshal cs (MUserControlStreamEOF m) = UserControlStreamEOF_marshal m"
| "Message_marshal cs (MUserControlStreamDry m) = UserControlStreamDry_marshal m"
| "Message_marshal cs (MUserControlSetBufferLength m) = UserControlSetBufferLength_marshal m"
| "Message_marshal cs (MUserControlStreamIsRecorded m) = UserControlStreamIsRecorded_marshal m"
| "Message_marshal cs (MUserControlPingRequest m) = UserControlPingRequest_marshal m"
| "Message_marshal cs (MUserControlPingResponse m) = UserControlPingResponse_marshal m"
| "Message_marshal cs (MCommandAMF0 m) = CommandAMF0_marshal m"
| "Message_marshal cs (MDataAMF0 m) = DataAMF0_marshal m"
| "Message_marshal cs (MAudio m) = Audio_marshal m"
| "Message_marshal cs (MAudioExSequenceStart m) = AudioExSequenceStart_marshal cs m"
| "Message_marshal cs (MAudioExSequenceEnd m) = AudioExSequenceEnd_marshal m"
| "Message_marshal cs (MAudioExMultichannelConfig m) = AudioExMultichannelConfig_marshal m"
| "Message_marshal cs (MAudioExCodedFrames m) = AudioExCodedFrames_marshal m"
| "Message_marshal cs (MAudioExMultitrack ty trackID m) =
     bindE (Message_marshal cs m) (multitrack_marshal (audio_ex_head AudioExTypeMultitrack) TypeAudio trackID)"
| "Message_marshal cs (MVideo m) = Video_marshal m"
| "Message_marshal cs (MVideoExSequenceStart m) = VideoExSequenceStart_marshal cs m"
| "Message_marshal cs (MVideoExSequenceEnd m) = VideoExSequenceEnd_marshal m"
| "Message_marshal cs (MVideoExCodedFrames m) = VideoExCodedFrames_marshal m"
| "Message_marshal cs (MVideoExFramesX m) = VideoExFramesX_marshal m"
| "Message_marshal cs (MVideoExMetadata m) = VideoExMetadata_marshal m"
| "Message_marshal cs (MVideoExMultitrack ty trackID m) =
     bindE (Message_marshal cs m) (multitrack_marshal (video_ex_head VideoExTypeMultitrack) TypeVideo trackID)"

section \<open>What messages can carry\<close>

text \<open>The messages that the wire format can carry, struct by struct.\<close>

fun audio_track_ok :: "'cfg codecs \<Rightarrow> 'cfg message \<Rightarrow> bool" where
  "audio_track_ok cs (MAudioExSequenceStart m) = AudioExSequenceStart_ok cs m"
| "audio_track_ok cs (MAudioExSequenceEnd m) = is_audio_fourcc (ae_FourCC m)"
| "audio_track_ok cs (MAudioExMultichannelConfig m) = AudioExMultichannelConfig_ok m"
| "audio_track_ok cs (MAudioExCodedFrames m) = is_audio_fourcc (ac_FourCC m)"
| "audio_track_ok cs _ = False"

fun video_track_ok :: "'cfg codecs \<Rightarrow> 'cfg message \<Rightarrow> bool" where
  "video_track_ok cs (MVideoExSequenceStart m) = VideoExSequenceStart_ok cs m"
| "video_track_ok cs (MVideoExSequenceEnd m) = is_video_fourcc (ve_FourCC m)"
| "video_track_ok cs (MVideoExCodedFrames m) = VideoExCodedFrames_ok m"
| "video_track_ok cs (MVideoExFramesX m) = (is_video_fourcc (vf_FourCC m) \<and> vf_Payload m \<noteq> [])"
| "video_track_ok cs _ = False"

fun message_ok :: "'cfg codecs \<Rightarrow> 'cfg message \<Rightarrow> bool" where
  "message_ok cs (MCommandAMF0 m) = CommandAMF0_ok m"
| "message_ok cs (MDataAMF0 m) = items_ok (da_Payload m)"
| "message_ok cs (MAudio m) = Audio_ok m"
| "message_ok cs (MAudioExMultitrack ty trackID m) = (ty = MultitrackTypeOneTrack \<and> audio_track_ok cs m)"
| "message_ok cs (MVideo m) = Video_ok m"
| "message_ok cs (MVideoExMetadata m) = VideoExMetadata_ok m"
| "message_ok cs (MVideoExMultitrack ty trackID m) = (ty = MultitrackTypeOneTrack \<and> video_track_ok cs m)"
| "message_ok cs m = (audio_track_ok cs m \<or> video_track_ok cs m \<or>
     (case m of MSetChunkSize _ \<Rightarrow> True | MAcknowledge _ \<Rightarrow> True | MSetWindowAckSize _ \<Rightarrow> True
      | MSetPeerBandwidth _ \<Rightarrow> True | MUserControlStreamBegin _ \<Rightarrow> True | MUserControlStreamEOF _ \<Rightarrow> True
      | MUserControlStreamDry _ \<Rightarrow> True | MUserControlSetBufferLength _ \<Rightarrow> True
      | MUserControlStreamIsRecorded _ \<Rightarrow> True | MUserControlPingRequest _ \<Rightarrow> True
      | MUserControlPingResponse _ \<Rightarrow> True | _ \<Rightarrow> False))"

section \<open>Every message comes back\<close>

lemma allocate_plain:
  "m_Type raw = TypeSetChunkSize \<Longrightarrow> allocateMessage raw = Inr KSetChunkSize"
  "m_Type raw = TypeAcknowledge \<Longrightarrow> allocateMessage raw = Inr KAcknowledge"
  "m_Type raw = TypeSetWindowAckSize \<Longrightarrow> allocateMessage raw = Inr KSetWindowAckSize"
  "m_Type raw = TypeSetPeerBandwidth \<Longrightarrow> allocateMessage raw = Inr KSetPeerBandwidth"
  "m_Type raw = TypeCommandAMF0 \<Longrightarrow> allocateMessage raw = Inr KCommandAMF0"
  "m_Type raw = TypeDataAMF0 \<Longrightarrow> allocateMessage raw = Inr KDataAMF0"
  by (simp_all add: allocateMessage_def Type_defs)

lemma allocate_user_control:
  "m_Type raw = TypeUserControl \<Longrightarrow> control_tag t (m_Body raw) \<Longrightarrow> allocateMessage raw = user_control_kind t"
  by (cases "m_Body raw"; cases "tl (m_Body raw)")
    (auto simp: allocateMessage_def Type_defs control_tag_def put16_def)

lemma allocate_audio:
  "m_Type raw = TypeAudio \<Longrightarrow> audio_tag (m_Body raw) \<Longrightarrow> allocateMessage raw = Inr KAudio"
  "m_Type raw = TypeAudio \<Longrightarrow> audio_ex_tag t (m_Body raw) \<Longrightarrow> allocateMessage raw = audio_ex_kind t"
  by (auto simp: allocateMessage_def Type_defs audio_tag_def audio_ex_tag_def split: list.split)

lemma allocate_video:
  "m_Type raw = TypeVideo \<Longrightarrow> video_tag (m_Body raw) \<Longrightarrow> allocateMessage raw = Inr KVideo"
  "m_Type raw = TypeVideo \<Longrightarrow> video_ex_tag t (m_Body raw) \<Longrightarrow> allocateMessage raw = video_ex_kind t"
  by (auto simp: allocateMessage_def Type_defs video_tag_def video_ex_tag_def split: list.split)

lemmas allocate_simps = allocate_plain allocate_user_control allocate_audio allocate_video Message_unmarshal_def

lemma kind_simps [simp]:
  "user_control_kind UserControlTypeStreamBegin = Inr KUserControlStreamBegin"
  "user_control_kind UserControlTypeStreamEOF = Inr KUserControlStreamEOF"
  "user_control_kind UserControlTypeStreamDry = Inr KUserControlStreamDry"
  "user_control_kind UserControlTypeSetBufferLength = Inr KUserControlSetBufferLength"
  "user_control_kind UserControlTypeStreamIsRecorded = Inr KUserControlStreamIsRecorded"
  "user_control_kind UserControlTypePingRequest = Inr KUserControlPingRequest"
  "user_control_kind UserControlTypePingResponse = Inr KUserControlPingResponse"
  "audio_ex_kind AudioExTypeSequenceStart = Inr KAudioExSequenceStart"
  "audio_ex_kind AudioExTypeSequenceEnd = Inr KAudioExSequenceEnd"
  "audio_ex_kind AudioExTypeMultichannelConfig = Inr KAudioExMultichannelConfig"
  "audio_ex_kind AudioExTypeCodedFrames = Inr KAudioExCodedFrames"
  "audio_ex_kind AudioExTypeMultitrack = Inr KAudioExMultitrack"
  "video_ex_kind VideoExTypeSequenceStart = Inr KVideoExSequenceStart"
  "video_ex_kind VideoExTypeSequenceEnd = Inr KVideoExSequenceEnd"
  "video_ex_kind VideoExTypeCodedFrames = Inr KVideoExCodedFrames"
  "video_ex_kind VideoExTypeFramesX = Inr KVideoExFramesX"
  "video_ex_kind VideoExTypeMetadata = Inr KVideoExMetadata"
  "video_ex_kind VideoExTypeMultitrack = Inr KVideoExMultitrack"
  by (simp_all add: user_control_kind_def UserControlType_defs audio_ex_kind_def AudioExType_defs
      video_ex_kind_def VideoExType_defs)

text \<open>A struct whose tag is recognised comes back through the dispatch.\<close>

context message_struct
begin

lemma dispatched:
  assumes "ok m" "\<And>raw. m_Type raw = typ' \<Longrightarrow> tagged (m_Body raw) \<Longrightarrow> un raw = map_sum id C (unmarshal raw)"
  shows "bindE (marshal m) un = Inr (C m)"
  using marshalled [OF assms(1)] assms(2) by (metis bindE_simps(2) map_sum.simps(2))

end

context wrappable_struct
begin

lemma wrapped_dispatched:
  assumes "ok m" "\<And>raw. wrapped packet raw = map_sum id C (unmarshal raw)"
  shows "bindE (bindE (marshal m) (multitrack_marshal hd0 ty trackID)) (multitrack_unmarshal wrapped) =
    Inr (MultitrackTypeOneTrack, trackID, C m)"
proof -
  obtain raw where raw: "marshal m = Inr raw" using marshalled [OF assms(1)] by blast
  from marshal_head [OF raw] obtain b0 f0 f1 f2 f3 rest where body: "m_Body raw = b0 # f0 # f1 # f2 # f3 # rest"
    and p: "b0 AND 0x0F = packet"
    by (auto simp: numeral_eq_Suc Suc_le_length_iff)
  have "unmarshal (mk_raw (m_ChunkStreamID raw) (m_Timestamp raw) 0 (m_MessageStreamID raw) (0 # f0 # f1 # f2 # f3 # rest)) = Inr m"
    using wrapped_back [OF assms(1) raw] by (simp add: body)
  moreover have "drop_bit 4 packet = 0"
    unfolding p [symmetric] by (rule bit_word_eqI) (auto simp: bit_simps)
  moreover have "packet AND 0x0F = packet"
    unfolding p [symmetric] by (simp add: and.assoc)
  ultimately show ?thesis
    using assms(2) p by (simp add: raw multitrack_marshal_def multitrack_unmarshal_def body MultitrackTypeOneTrack_def)
qed

end

lemma bindE_assoc: "bindE (bindE x f) g = bindE x (\<lambda>v. bindE (f v) g)"
  by (cases x) simp_all

text \<open>A multitrack message is recognised as such.\<close>

lemma multitrack_marshal_tag:
  assumes "multitrack_marshal hd0 ty trackID raw = Inr raw'"
  shows "m_Type raw' = ty \<and> m_Body raw' \<noteq> [] \<and> hd (m_Body raw') = hd0"
  using assms by (auto simp: multitrack_marshal_def split: list.splits)

lemma multitrack_tag:
  assumes "bindE (Message_marshal cs m) (multitrack_marshal hd0 ty trackID) = Inr raw"
  shows "m_Type raw = ty \<and> m_Body raw \<noteq> [] \<and> hd (m_Body raw) = hd0"
  using assms by (auto simp: bindE_eq_Inr dest: multitrack_marshal_tag)

lemma audio_multitrack_back:
  assumes "audio_track_ok cs m"
  shows "bindE (bindE (Message_marshal cs m) (multitrack_marshal hd0 ty trackID)) (multitrack_unmarshal (AudioExMultitrack_wrapped cs)) =
    Inr (MultitrackTypeOneTrack, trackID, m)"
  using assms
proof (cases rule: audio_track_ok.cases [of "(cs, m)"])
  case (1 c x)
  with assms show ?thesis
    by (simp add: AudioExSequenceStart.wrapped_dispatched AudioExMultitrack_wrapped_def)
next
  case (2 c x)
  with assms show ?thesis
    by (simp add: AudioExSequenceEnd.wrapped_dispatched AudioExMultitrack_wrapped_def AudioExType_defs)
next
  case (3 c x)
  with assms show ?thesis
    by (simp add: AudioExMultichannelConfig.wrapped_dispatched AudioExMultitrack_wrapped_def AudioExType_defs)
next
  case (4 c x)
  with assms show ?thesis
    by (simp add: AudioExCodedFrames.wrapped_dispatched AudioExMultitrack_wrapped_def AudioExType_defs)
qed (use assms in auto)

lemma video_multitrack_back:
  assumes "video_track_ok cs m"
  shows "bindE (bindE (Message_marshal cs m) (multitrack_marshal hd0 ty trackID)) (multitrack_unmarshal (VideoExMultitrack_wrapped cs)) =
    Inr (MultitrackTypeOneTrack, trackID, m)"
  using assms
proof (cases rule: video_track_ok.cases [of "(cs, m)"])
  case (1 c x)
  with assms show ?thesis
    by (simp add: VideoExSequenceStart.wrapped_dispatched VideoExMultitrack_wrapped_def)
next
  case (2 c x)
  with assms show ?thesis
    by (simp add: VideoExSequenceEnd.wrapped_dispatched VideoExMultitrack_wrapped_def VideoExType_defs)
next
  case (3 c x)
  with assms show ?thesis
    by (simp add: VideoExCodedFrames.wrapped_dispatched VideoExMultitrack_wrapped_def VideoExType_defs)
next
  case (4 c x)
  with assms show ?thesis
    by (simp add: VideoExFramesX.wrapped_dispatched VideoExMultitrack_wrapped_def VideoExType_defs)
qed (use assms in auto)

lemma message_back:
  assumes "message_ok cs msg"
  shows "bindE (Message_marshal cs msg) (Message_unmarshal cs) = Inr msg"
proof (cases msg)
  case (MSetChunkSize m)
  then show ?thesis
    using assms SetChunkSize.dispatched [where m = m and un = "Message_unmarshal cs" and C = MSetChunkSize] by (simp add: allocate_simps)
next
  case (MAcknowledge m)
  then show ?thesis
    using assms Acknowledge.dispatched [where m = m and un = "Message_unmarshal cs" and C = MAcknowledge] by (simp add: allocate_simps)
next
  case (MSetWindowAckSize m)
  then show ?thesis
    using assms SetWindowAckSize.dispatched [where m = m and un = "Message_unmarshal cs" and C = MSetWindowAckSize] by (simp add: allocate_simps)
next
  case (MSetPeerBandwidth m)
  then show ?thesis
    using assms SetPeerBandwidth.dispatched [where m = m and un = "Message_unmarshal cs" and C = MSetPeerBandwidth] by (simp add: allocate_simps)
next
  case (MUserControlStreamBegin m)
  then show ?thesis
    using assms StreamBegin.dispatched [where m = m and un = "Message_unmarshal cs" and C = MUserControlStreamBegin] by (simp add: allocate_simps)
next
  case (MUserControlStreamEOF m)
  then show ?thesis
    using assms StreamEOF.dispatched [where m = m and un = "Message_unmarshal cs" and C = MUserControlStreamEOF] by (simp add: allocate_simps)
next
  case (MUserControlStreamDry m)
  then show ?thesis
    using assms StreamDry.dispatched [where m = m and un = "Message_unmarshal cs" and C = MUserControlStreamDry] by (simp add: allocate_simps)
next
  case (MUserControlSetBufferLength m)
  then show ?thesis
    using assms SetBufferLength.dispatched [where m = m and un = "Message_unmarshal cs" and C = MUserControlSetBufferLength] by (simp add: allocate_simps)
next
  case (MUserControlStreamIsRecorded m)
  then show ?thesis
    using assms StreamIsRecorded.dispatched [where m = m and un = "Message_unmarshal cs" and C = MUserControlStreamIsRecorded] by (simp add: allocate_simps)
next
  case (MUserControlPingRequest m)
  then show ?thesis
    using assms PingRequest.dispatched [where m = m and un = "Message_unmarshal cs" and C = MUserControlPingRequest] by (simp add: allocate_simps)
next
  case (MUserControlPingResponse m)
  then show ?thesis
    using assms PingResponse.dispatched [where m = m and un = "Message_unmarshal cs" and C = MUserControlPingResponse] by (simp add: allocate_simps)
next
  case (MCommandAMF0 m)
  then show ?thesis
    using assms CommandAMF0.dispatched [where m = m and un = "Message_unmarshal cs" and C = MCommandAMF0] by (simp add: allocate_simps)
next
  case (MDataAMF0 m)
  then show ?thesis
    using assms DataAMF0.dispatched [where m = m and un = "Message_unmarshal cs" and C = MDataAMF0] by (simp add: allocate_simps)
next
  case (MAudio m)
  then show ?thesis
    using assms Audio.dispatched [where m = m and un = "Message_unmarshal cs" and C = MAudio] by (simp add: allocate_simps)
next
  case (MAudioExSequenceStart m)
  then show ?thesis
    using assms AudioExSequenceStart.dispatched [where cs = cs and m = m and un = "Message_unmarshal cs" and C = MAudioExSequenceStart] by (simp add: allocate_simps)
next
  case (MAudioExSequenceEnd m)
  then show ?thesis
    using assms AudioExSequenceEnd.dispatched [where m = m and un = "Message_unmarshal cs" and C = MAudioExSequenceEnd] by (simp add: allocate_simps)
next
  case (MAudioExMultichannelConfig m)
  then show ?thesis
    using assms AudioExMultichannelConfig.dispatched [where m = m and un = "Message_unmarshal cs" and C = MAudioExMultichannelConfig] by (simp add: allocate_simps)
next
  case (MAudioExCodedFrames m)
  then show ?thesis
    using assms AudioExCodedFrames.dispatched [where m = m and un = "Message_unmarshal cs" and C = MAudioExCodedFrames] by (simp add: allocate_simps)
next
  case (MAudioExMultitrack ty trackID m)
  let ?enc = "bindE (Message_marshal cs m) (multitrack_marshal (audio_ex_head AudioExTypeMultitrack) TypeAudio trackID)"
  have ok: "ty = MultitrackTypeOneTrack" "audio_track_ok cs m" using assms MAudioExMultitrack by simp_all
  note rd = audio_multitrack_back [OF ok(2), of "audio_ex_head AudioExTypeMultitrack" TypeAudio trackID]
  then obtain raw where raw: "?enc = Inr raw" by (cases ?enc) auto
  have "audio_ex_tag AudioExTypeMultitrack (m_Body raw)" "m_Type raw = TypeAudio"
    using multitrack_tag [OF raw] by (auto simp: audio_ex_tag_def audio_ex_head_def AudioExType_defs)
  then show ?thesis
    using rd raw ok(1) by (simp add: MAudioExMultitrack allocate_simps AudioExMultitrack_unmarshal_def)
next
  case (MVideo m)
  then show ?thesis
    using assms Video.dispatched [where m = m and un = "Message_unmarshal cs" and C = MVideo] by (simp add: allocate_simps)
next
  case (MVideoExSequenceStart m)
  then show ?thesis
    using assms VideoExSequenceStart.dispatched [where cs = cs and m = m and un = "Message_unmarshal cs" and C = MVideoExSequenceStart] by (simp add: allocate_simps)
next
  case (MVideoExSequenceEnd m)
  then show ?thesis
    using assms VideoExSequenceEnd.dispatched [where m = m and un = "Message_unmarshal cs" and C = MVideoExSequenceEnd] by (simp add: allocate_simps)
next
  case (MVideoExCodedFrames m)
  then show ?thesis
    using assms VideoExCodedFrames.dispatched [where m = m and un = "Message_unmarshal cs" and C = MVideoExCodedFrames] by (simp add: allocate_simps)
next
  case (MVideoExFramesX m)
  then show ?thesis
    using assms VideoExFramesX.dispatched [where m = m and un = "Message_unmarshal cs" and C = MVideoExFramesX] by (simp add: allocate_simps)
next
  case (MVideoExMetadata m)
  then show ?thesis
    using assms VideoExMetadata.dispatched [where m = m and un = "Message_unmarshal cs" and C = MVideoExMetadata] by (simp add: allocate_simps)
next
  case (MVideoExMultitrack ty trackID m)
  let ?enc = "bindE (Message_marshal cs m) (multitrack_marshal (video_ex_head VideoExTypeMultitrack) TypeVideo trackID)"
  have ok: "ty = MultitrackTypeOneTrack" "video_track_ok cs m" using assms MVideoExMultitrack by simp_all
  note rd = video_multitrack_back [OF ok(2), of "video_ex_head VideoExTypeMultitrack" TypeVideo trackID]
  then obtain raw where raw: "?enc = Inr raw" by (cases ?enc) auto
  have "video_ex_tag VideoExTypeMultitrack (m_Body raw)" "m_Type raw = TypeVideo"
    using multitrack_tag [OF raw] by (auto simp: video_ex_tag_def video_ex_head_def VideoExType_defs)
  then show ?thesis
    using rd raw ok(1) by (simp add: MVideoExMultitrack allocate_simps VideoExMultitrack_unmarshal_def)
qed


definition no_cfg :: "unit codecs" where
  "no_cfg = \<lparr>cfg_decode = \<lambda>_ _. Inl 0, cfg_encode = \<lambda>_ _. Inl 0\<rparr>"


end
