(* ===== verification/MessageConn.thy ===== *)
theory MessageConn
  imports Message
begin

text \<open>
  The reader, the writer and the read-writer of package message (reader.go, writer.go, readwriter.go).
  A \<open>message.Writer\<close> is its raw writer, a \<open>message.Reader\<close> its raw reader. The callback that sends
  acknowledgements acts on the writer, so a \<open>message.ReadWriter\<close> is a raw reader whose \<open>r_sink\<close> is the
  raw writer.
\<close>

section \<open>Operations\<close>

definition Message_Write :: "'cfg codecs \<Rightarrow> 'cfg message \<Rightarrow> raw_writer \<Rightarrow> raw_writer \<times> go_error option" where
  "Message_Write cs msg w =
     (case Message_marshal cs msg of
        Inl e \<Rightarrow> (w, Some e)
      | Inr raw \<Rightarrow>
          (case Write raw w of
             (w', Some e) \<Rightarrow> (w', Some e)
           | (w', None) \<Rightarrow>
               (case msg of
                  MSetChunkSize v \<Rightarrow> Writer_SetChunkSize v w'
                | MSetWindowAckSize v \<Rightarrow> Writer_SetWindowAckSize v w'
                | _ \<Rightarrow> w', None)))"

definition Message_Read :: "'cfg codecs \<Rightarrow> 'w ack \<Rightarrow> 'w raw_reader \<Rightarrow> 'w raw_reader \<times> 'cfg message result" where
  "Message_Read cs ack r =
     (case Read ack r of
        (r', Inl e) \<Rightarrow> (r', Inl e)
      | (r', Inr raw) \<Rightarrow>
          (case Message_unmarshal cs raw of
             Inl e \<Rightarrow> (r', Inl e)
           | Inr msg \<Rightarrow>
               (case msg of
                  MSetChunkSize v \<Rightarrow>
                    (case Reader_SetChunkSize v r' of
                       (r'', Inl e) \<Rightarrow> (r'', Inl e)
                     | (r'', Inr _) \<Rightarrow> (r'', Inr msg))
                | MSetWindowAckSize v \<Rightarrow> (Reader_SetWindowAckSize v r', Inr msg)
                | _ \<Rightarrow> (r', Inr msg))))"

text \<open>The callback of \<open>NewReadWriter\<close>.\<close>

definition rw_ack :: "'cfg codecs \<Rightarrow> raw_writer ack" where
  "rw_ack cs count w = (case Message_Write cs (MAcknowledge count) w of (w', e) \<Rightarrow> (e, w'))"

definition NewReadWriter ::
  "bytes \<Rightarrow> (nat \<Rightarrow> u64) \<Rightarrow> (nat \<Rightarrow> go_error option) \<Rightarrow> (nat \<Rightarrow> u64) \<Rightarrow> bool \<Rightarrow> raw_writer raw_reader" where
  "NewReadWriter br rcount fail wcount checkAcknowledge =
     raw_NewReader br rcount (raw_NewWriter fail wcount checkAcknowledge)"

definition ReadWriter_Read :: "'cfg codecs \<Rightarrow> raw_writer raw_reader \<Rightarrow> raw_writer raw_reader \<times> 'cfg message result" where
  "ReadWriter_Read cs rw =
     (case Message_Read cs (rw_ack cs) rw of
        (rw', Inl e) \<Rightarrow> (rw', Inl e)
      | (rw', Inr msg) \<Rightarrow>
          (case msg of
             MAcknowledge v \<Rightarrow> (rw'\<lparr>r_sink := Writer_SetAcknowledgeValue v (r_sink rw')\<rparr>, Inr msg)
           | MUserControlPingRequest t \<Rightarrow>
               (case Message_Write cs (MUserControlPingResponse t) (r_sink rw') of
                  (w', Some e) \<Rightarrow> (rw'\<lparr>r_sink := w'\<rparr>, Inl e)
                | (w', None) \<Rightarrow> (rw'\<lparr>r_sink := w'\<rparr>, Inr msg))
           | _ \<Rightarrow> (rw', Inr msg)))"

definition ReadWriter_Write ::
  "'cfg codecs \<Rightarrow> 'cfg message \<Rightarrow> raw_writer raw_reader \<Rightarrow> raw_writer raw_reader \<times> go_error option" where
  "ReadWriter_Write cs msg rw =
     (case Message_Write cs msg (r_sink rw) of (w', e) \<Rightarrow> (rw\<lparr>r_sink := w'\<rparr>, e))"

section \<open>The acknowledge callback keeps its promise\<close>

definition writer_ready :: "raw_writer \<Rightarrow> bool" where
  "writer_ready w \<longleftrightarrow> writer_live w \<and> (\<forall>i. writer_stream_ok (writer_stream (w_chunkStreams w) i))"

lemma Write_ready:
  assumes "writer_ready w" "length (m_Body raw) < 4294967296"
  shows "\<exists>k. Write raw w = (w\<lparr>w_calls := k,
      w_out := w_out w @ message_bytes (unat (w_chunkSize w)) raw (writer_stream (w_chunkStreams w) (m_ChunkStreamID raw)),
      w_chunkStreams := (w_chunkStreams w)
        (m_ChunkStreamID raw \<mapsto> after_message raw (writer_stream (w_chunkStreams w) (m_ChunkStreamID raw)))\<rparr>, None)"
  using assms by (intro Write_live) (auto simp: writer_ready_def writer_stream_def)

lemma writer_ready_update:
  "writer_ready w \<Longrightarrow> writer_ready (w\<lparr>w_calls := k, w_out := out,
     w_chunkStreams := (w_chunkStreams w)(i \<mapsto> after_message raw (writer_stream (w_chunkStreams w) i))\<rparr>)"
  by (auto simp: writer_ready_def writer_live_def)

interpretation rw: ack_handler "rw_ack cs" writer_ready for cs
proof
  fix w v
  assume ready: "writer_ready w"
  let ?raw = "mk_raw ControlChunkStreamID 0 TypeAcknowledge 0 (put32 v)"
  obtain k where "Write ?raw w = (w\<lparr>w_calls := k,
      w_out := w_out w @ message_bytes (unat (w_chunkSize w)) ?raw (writer_stream (w_chunkStreams w) ControlChunkStreamID),
      w_chunkStreams := (w_chunkStreams w)
        (ControlChunkStreamID \<mapsto> after_message ?raw (writer_stream (w_chunkStreams w) ControlChunkStreamID))\<rparr>, None)"
    using Write_ready [OF ready, of ?raw] by auto
  then show "fst (rw_ack cs v w) = None \<and> writer_ready (snd (rw_ack cs v w))"
    using writer_ready_update [OF ready] by (simp add: rw_ack_def Message_Write_def Acknowledge_marshal_def)
qed

section \<open>No input makes the reader panic\<close>

lemma multitrack_no_panic:
  "(\<And>p raw. wrapped p raw \<noteq> Inl Panic) \<Longrightarrow> multitrack_unmarshal wrapped raw \<noteq> Inl Panic"
  by (auto simp: multitrack_unmarshal_def Let_def bindE_def split: list.split sum.split)

lemmas struct_no_panic = SetChunkSize.unmarshal_no_panic Acknowledge.unmarshal_no_panic
  SetWindowAckSize.unmarshal_no_panic SetPeerBandwidth.unmarshal_no_panic StreamBegin.unmarshal_no_panic
  StreamEOF.unmarshal_no_panic StreamDry.unmarshal_no_panic SetBufferLength.unmarshal_no_panic
  StreamIsRecorded.unmarshal_no_panic PingRequest.unmarshal_no_panic PingResponse.unmarshal_no_panic
  CommandAMF0.unmarshal_no_panic DataAMF0.unmarshal_no_panic Audio.unmarshal_no_panic
  AudioExSequenceStart.unmarshal_no_panic AudioExSequenceEnd.unmarshal_no_panic
  AudioExMultichannelConfig.unmarshal_no_panic AudioExCodedFrames.unmarshal_no_panic Video.unmarshal_no_panic
  VideoExSequenceStart.unmarshal_no_panic VideoExSequenceEnd.unmarshal_no_panic
  VideoExCodedFrames.unmarshal_no_panic VideoExFramesX.unmarshal_no_panic VideoExMetadata.unmarshal_no_panic

lemma wrapped_no_panic:
  "AudioExMultitrack_wrapped cs p raw \<noteq> Inl Panic" "VideoExMultitrack_wrapped cs p raw \<noteq> Inl Panic"
  by (auto simp: AudioExMultitrack_wrapped_def VideoExMultitrack_wrapped_def struct_no_panic)

lemma unmarshal_as_no_panic: "unmarshal_as cs k raw \<noteq> Inl Panic"
  using multitrack_no_panic [of "AudioExMultitrack_wrapped cs" raw, OF wrapped_no_panic(1)]
    multitrack_no_panic [of "VideoExMultitrack_wrapped cs" raw, OF wrapped_no_panic(2)]
  by (cases k) (auto simp: struct_no_panic AudioExMultitrack_unmarshal_def VideoExMultitrack_unmarshal_def bindE_def
      split: sum.split)

lemma kind_no_panic: "user_control_kind t \<noteq> Inl Panic" "audio_ex_kind b \<noteq> Inl Panic" "video_ex_kind b \<noteq> Inl Panic"
  by (simp_all add: user_control_kind_def audio_ex_kind_def video_ex_kind_def)

lemma allocateMessage_no_panic: "allocateMessage raw \<noteq> Inl Panic"
  by (simp add: allocateMessage_def Let_def kind_no_panic split: list.split)

lemma Message_unmarshal_no_panic: "Message_unmarshal cs raw \<noteq> Inl Panic"
  using allocateMessage_no_panic [of raw] unmarshal_as_no_panic [of cs _ raw]
  by (auto simp: Message_unmarshal_def bindE_def split: sum.split)

context chunk_codec
begin

lemma readChunk_no_panic:
  assumes "readChunk ack (read n ext) r = (r', Inl e)" "\<And>v s. fst (ack v s) \<noteq> Some Panic"
  shows "e \<noteq> Panic"
proof -
  obtain x br' where x: "read n ext (r_br r) = (x, br')" by fastforce
  have "x = Inl Panic \<Longrightarrow> False" using x read_error by fastforce
  then show ?thesis
    using assms x by (auto simp: readChunk_def Let_def split: sum.splits if_splits prod.splits option.splits) (metis fst_conv)
qed

end

lemma readMessage_no_panic:
  assumes "readMessage ack fmt rc r = (rc', r', Inl e)" "\<And>v s. fst (ack v s) \<noteq> Some Panic"
  shows "e \<noteq> Panic"
  using assms
  by (auto simp: readMessage_def readMessage_defs Let_def split: if_splits prod.splits sum.splits
      dest!: c0.readChunk_no_panic c1.readChunk_no_panic c2.readChunk_no_panic c3.readChunk_no_panic)

lemma readStep_no_panic:
  assumes "readStep ack r = (r', Inl e)" "\<And>v s. fst (ack v s) \<noteq> Some Panic"
  shows "e \<noteq> Panic"
  using assms
  by (auto simp: readStep_def Let_def split: list.splits if_splits prod.splits dest!: readMessage_no_panic)

lemma Read_no_panic:
  assumes "\<And>v s. fst (ack v s) \<noteq> Some Panic"
  shows "snd (Read ack r) \<noteq> Inl Panic"
  using assms
proof (induction ack r rule: Read.induct)
  case (1 ack r)
  obtain r1 res where s: "readStep ack r = (r1, res)" by fastforce
  show ?case
  proof (cases "res = Inl MoreChunksNeeded")
    case True
    with s 1 show ?thesis by (simp add: Read.simps [of ack r])
  next
    case False
    with s readStep_no_panic [of ack r r1 Panic] 1(2) show ?thesis
      by (auto simp: Read.simps [of ack r] split: sum.split)
  qed
qed

text \<open>
  C19. Whatever bytes a peer sends, reading a message returns a message or an error: no index is out of
  range in the chunk reader, in the decoders of the messages or in the AMF0 decoder, and no header
  is dereferenced when it is nil. (Sending acknowledgements, and the decoders of the other packages, are
  assumed not to panic.)
\<close>

theorem message_reader_no_panic:
  assumes "\<And>v s. fst (ack v s) \<noteq> Some Panic"
  shows "snd (Message_Read cs ack r) \<noteq> Inl Panic"
proof -
  obtain r' res where r: "Read ack r = (r', res)" by fastforce
  with Read_no_panic [of ack r] assms have "res \<noteq> Inl Panic" by simp
  with Message_unmarshal_no_panic [of cs] show ?thesis
    by (auto simp: Message_Read_def r Reader_SetChunkSize_def split: sum.split message.split)
qed

lemma message_reader_no_panic_witness:
  "snd (Message_Read no_cfg (\<lambda>_ s. (None, s)) (raw_NewReader sample_chunk (\<lambda>_. 0) ())) \<noteq> Inl Panic"
  by (rule message_reader_no_panic) simp

end
