(* ===== verification/MessageSession.thy ===== *)
theory MessageSession
  imports MessageConn
begin

text \<open>
  Two read-writers against each other: one writes messages, the other reads them from the bytes that the
  first has written, through chunk size changes, acknowledgement windows and ping requests.
\<close>

section \<open>Sessions\<close>

fun write_messages ::
  "'cfg codecs \<Rightarrow> 'cfg message list \<Rightarrow> raw_writer raw_reader \<Rightarrow> raw_writer raw_reader \<times> go_error option" where
  "write_messages cs [] rw = (rw, None)"
| "write_messages cs (msg # msgs) rw =
     (case ReadWriter_Write cs msg rw of
        (rw', Some e) \<Rightarrow> (rw', Some e)
      | (rw', None) \<Rightarrow> write_messages cs msgs rw')"

fun read_messages ::
  "'cfg codecs \<Rightarrow> nat \<Rightarrow> raw_writer raw_reader \<Rightarrow> raw_writer raw_reader \<times> 'cfg message list result" where
  "read_messages cs 0 rw = (rw, Inr [])"
| "read_messages cs (Suc n) rw =
     (case ReadWriter_Read cs rw of
        (rw', Inl e) \<Rightarrow> (rw', Inl e)
      | (rw', Inr msg) \<Rightarrow>
          (case read_messages cs n rw' of
             (rw'', Inl e) \<Rightarrow> (rw'', Inl e)
           | (rw'', Inr msgs) \<Rightarrow> (rw'', Inr (msg # msgs))))"

definition raw_of :: "'cfg codecs \<Rightarrow> 'cfg message \<Rightarrow> raw_message" where
  "raw_of cs msg = (case Message_marshal cs msg of Inl _ \<Rightarrow> mk_raw 0 0 0 0 [] | Inr raw \<Rightarrow> raw)"

text \<open>
  A message that can be sent: carried by the wire format, on a chunk stream and of a size that the reader
  accepts, with a timestamp of whole milliseconds below 2^32; a new chunk size within the reader's bounds.
\<close>

definition transmittable :: "'cfg codecs \<Rightarrow> 'cfg message \<Rightarrow> bool" where
  "transmittable cs msg \<longleftrightarrow>
     message_ok cs msg \<and> sendable (raw_of cs msg) \<and> received (raw_of cs msg) = raw_of cs msg \<and>
     (case msg of MSetChunkSize v \<Rightarrow> 0 < v \<and> v \<le> maxBodySize | _ \<Rightarrow> True)"

definition next_size :: "'cfg message \<Rightarrow> u32 \<Rightarrow> u32" where
  "next_size msg n = (case msg of MSetChunkSize v \<Rightarrow> v | _ \<Rightarrow> n)"

lemma transmittable_marshal:
  assumes "transmittable cs msg"
  shows "Message_marshal cs msg = Inr (raw_of cs msg)" "Message_unmarshal cs (raw_of cs msg) = Inr msg"
    "length (m_Body (raw_of cs msg)) < 4294967296"
proof -
  have rt: "bindE (Message_marshal cs msg) (Message_unmarshal cs) = Inr msg"
    using assms by (intro message_back) (simp add: transmittable_def)
  then obtain raw where raw: "Message_marshal cs msg = Inr raw" "Message_unmarshal cs raw = Inr msg"
    by (auto simp: bindE_eq_Inr)
  then show "Message_marshal cs msg = Inr (raw_of cs msg)" "Message_unmarshal cs (raw_of cs msg) = Inr msg"
    by (simp_all add: raw_of_def)
  show "length (m_Body (raw_of cs msg)) < 4294967296"
    using assms by (simp add: transmittable_def sendable_def)
qed

section \<open>Writing\<close>

fun session_out :: "'cfg codecs \<Rightarrow> u32 \<Rightarrow> (byte \<Rightarrow> writer_chunk_stream option) \<Rightarrow> 'cfg message list \<Rightarrow> bytes" where
  "session_out cs n f [] = []"
| "session_out cs n f (msg # msgs) =
     (let raw = raw_of cs msg; wc = writer_stream f (m_ChunkStreamID raw) in
      message_bytes (unat n) raw wc @
      session_out cs (next_size msg n) (f(m_ChunkStreamID raw \<mapsto> after_message raw wc)) msgs)"

lemma Message_Write_ready:
  assumes "writer_ready w" "transmittable cs msg"
    "raw = raw_of cs msg" "wc = writer_stream (w_chunkStreams w) (m_ChunkStreamID raw)"
  shows "\<exists>w'. Message_Write cs msg w = (w', None) \<and> writer_ready w' \<and>
    w_out w' = w_out w @ message_bytes (unat (w_chunkSize w)) raw wc \<and>
    w_chunkSize w' = next_size msg (w_chunkSize w) \<and>
    w_chunkStreams w' = (w_chunkStreams w)(m_ChunkStreamID raw \<mapsto> after_message raw wc)"
proof -
  let ?w = "\<lambda>k. w\<lparr>w_calls := k, w_out := w_out w @ message_bytes (unat (w_chunkSize w)) raw wc,
      w_chunkStreams := (w_chunkStreams w)(m_ChunkStreamID raw \<mapsto> after_message raw wc)\<rparr>"
  obtain k where k: "Write raw w = (?w k, None)"
    using Write_ready [OF assms(1), of raw] transmittable_marshal(3) [OF assms(2)] unfolding assms(3,4) by blast
  have ready: "writer_ready (?w k)"
    unfolding assms(4) by (rule writer_ready_update [OF assms(1)])
  then have "writer_ready (Writer_SetChunkSize v (?w k))" if "0 < v" for v
    using that by (simp add: writer_ready_def writer_live_def Writer_SetChunkSize_def)
  moreover have "writer_ready (Writer_SetWindowAckSize v (?w k))" for v
    using ready by (simp add: writer_ready_def writer_live_def Writer_SetWindowAckSize_def)
  ultimately show ?thesis
    using ready assms(2) transmittable_marshal(1) [OF assms(2)] k assms(3)
    by (cases msg) (auto simp: Message_Write_def next_size_def transmittable_def Writer_SetChunkSize_def
        Writer_SetWindowAckSize_def)
qed

lemma write_messages_ready:
  assumes "writer_ready (r_sink rw)" "\<forall>msg\<in>set msgs. transmittable cs msg"
  shows "\<exists>rw'. write_messages cs msgs rw = (rw', None) \<and>
    w_out (r_sink rw') = w_out (r_sink rw) @
      session_out cs (w_chunkSize (r_sink rw)) (w_chunkStreams (r_sink rw)) msgs"
  using assms
proof (induction msgs arbitrary: rw)
  case Nil
  then show ?case by simp
next
  case (Cons msg msgs)
  obtain w' where w': "Message_Write cs msg (r_sink rw) = (w', None)" "writer_ready w'"
    "w_out w' = w_out (r_sink rw) @ message_bytes (unat (w_chunkSize (r_sink rw))) (raw_of cs msg)
      (writer_stream (w_chunkStreams (r_sink rw)) (m_ChunkStreamID (raw_of cs msg)))"
    "w_chunkSize w' = next_size msg (w_chunkSize (r_sink rw))"
    "w_chunkStreams w' = (w_chunkStreams (r_sink rw))(m_ChunkStreamID (raw_of cs msg) \<mapsto>
      after_message (raw_of cs msg) (writer_stream (w_chunkStreams (r_sink rw)) (m_ChunkStreamID (raw_of cs msg))))"
    using Message_Write_ready [OF Cons.prems(1) _ refl refl, of cs msg] Cons.prems(2) by auto
  have "\<exists>rw'. write_messages cs msgs (rw\<lparr>r_sink := w'\<rparr>) = (rw', None) \<and>
    w_out (r_sink rw') = w_out w' @ session_out cs (w_chunkSize w') (w_chunkStreams w') msgs"
    using Cons.IH [of "rw\<lparr>r_sink := w'\<rparr>"] w'(2) Cons.prems(2) by simp
  with w' show ?case by (auto simp: ReadWriter_Write_def Let_def)
qed

section \<open>Reading\<close>

lemma ready_control:
  "writer_ready w \<Longrightarrow> \<exists>w'. Message_Write cs (MUserControlPingResponse t) w = (w', None) \<and> writer_ready w'"
  using Write_ready [of w "mk_raw ControlChunkStreamID 0 TypeUserControl 0 (put16 UserControlTypePingResponse @ put32 t)"]
    writer_ready_update [of w]
  by (auto simp: Message_Write_def UserControlPingResponse_marshal_def)

lemma ReadWriter_Read_step:
  assumes "writer_ready (r_sink rw)" "0 < r_chunkSize rw" "transmittable cs msg" "raw = raw_of cs msg"
    "wc = writer_stream f (m_ChunkStreamID raw)" "streams_in_step f (r_chunkStreams rw)" "continues wc raw"
    "r_br rw = message_bytes (unat (r_chunkSize rw)) raw wc @ rest"
  shows "\<exists>rw'. ReadWriter_Read cs rw = (rw', Inr msg) \<and> r_br rw' = rest \<and> writer_ready (r_sink rw') \<and>
    r_chunkSize rw' = next_size msg (r_chunkSize rw) \<and>
    streams_in_step (f(m_ChunkStreamID raw \<mapsto> after_message raw wc)) (r_chunkStreams rw')"
proof -
  let ?i = "m_ChunkStreamID raw"
  have st: "writer_stream_ok wc" "in_step wc (reader_stream (r_chunkStreams rw) ?i)"
    "idle (reader_stream (r_chunkStreams rw) ?i)" "delta_known wc (reader_stream (r_chunkStreams rw) ?i)"
    using assms(5,6) by (auto simp: streams_in_step_def)
  have snd: "2 \<le> ?i" "?i < 64" "length (m_Body raw) \<le> 10 * 1024 * 1024" "received raw = raw"
    using assms(3,4) by (auto simp: transmittable_def sendable_def)
  have cont: "lastMessageStreamID wc = None \<or> lastMessageStreamID wc = Some (m_MessageStreamID raw) \<and>
      (\<exists>t. lastTimestamp wc = Some t \<and> t \<le> msg_timestamp raw)"
    using assms(7) by (simp add: continues_def)
  from rw.Read_message [OF assms(1,2) snd(1-3) st(1) reader_stream_def st(3,2,4) assms(8), of cs] cont snd(4)
  obtain r1 rc1 where r1: "Read (rw_ack cs) rw = (r1, Inr raw)"
    "rw.moved rw rest ((r_chunkStreams rw)(?i \<mapsto> rc1)) r1" "idle rc1" "in_step (after_message raw wc) rc1"
    "delta_known (after_message raw wc) rc1" by auto
  have r1s: "r_br r1 = rest" "writer_ready (r_sink r1)" "r_chunkSize r1 = r_chunkSize rw"
    "streams_in_step (f(?i \<mapsto> after_message raw wc)) (r_chunkStreams r1)"
    using r1(2-5) assms(6) st(1) by (auto simp: rw.moved_def streams_in_step_def)
  have un: "Message_unmarshal cs raw = Inr msg"
    unfolding assms(4) by (rule transmittable_marshal(2) [OF assms(3)])
  have "writer_ready (Writer_SetAcknowledgeValue v (r_sink r1))" for v
    using r1s(2) by (simp add: writer_ready_def writer_live_def Writer_SetAcknowledgeValue_def)
  moreover have "e = None \<and> writer_ready w'" if "Message_Write cs (MUserControlPingResponse t) (r_sink r1) = (w', e)" for t w' e
    using ready_control [OF r1s(2), of cs t] that by simp
  ultimately show ?thesis
    using r1(1) r1s un assms(3)
    by (cases msg) (auto simp: ReadWriter_Read_def Message_Read_def next_size_def transmittable_def
        Reader_SetChunkSize_def Reader_SetWindowAckSize_def not_less split: option.split prod.split)
qed

lemma read_messages_session:
  assumes "writer_ready (r_sink rw)" "0 < r_chunkSize rw" "\<forall>msg\<in>set msgs. transmittable cs msg"
    "sorted_wrt follows (map (raw_of cs) msgs)" "streams_in_step f (r_chunkStreams rw)"
    "\<forall>msg\<in>set msgs. continues (writer_stream f (m_ChunkStreamID (raw_of cs msg))) (raw_of cs msg)"
    "r_br rw = session_out cs (r_chunkSize rw) f msgs"
  shows "\<exists>rw'. read_messages cs (length msgs) rw = (rw', Inr msgs) \<and> r_br rw' = []"
  using assms
proof (induction msgs arbitrary: rw f)
  case Nil
  then show ?case by simp
next
  case (Cons msg msgs)
  let ?raw = "raw_of cs msg"
  let ?wc = "writer_stream f (m_ChunkStreamID ?raw)"
  let ?f = "f(m_ChunkStreamID ?raw \<mapsto> after_message ?raw ?wc)"
  have wc: "writer_stream_ok ?wc" using Cons.prems(5) by (simp add: streams_in_step_def)
  have tr: "transmittable cs msg" and cont: "continues ?wc ?raw" using Cons.prems(3,6) by simp_all
  have br: "r_br rw = message_bytes (unat (r_chunkSize rw)) ?raw ?wc @
      session_out cs (next_size msg (r_chunkSize rw)) ?f msgs"
    using Cons.prems(7) by (simp add: Let_def)
  obtain rw1 where rw1: "ReadWriter_Read cs rw = (rw1, Inr msg)" "writer_ready (r_sink rw1)"
    "r_br rw1 = session_out cs (next_size msg (r_chunkSize rw)) ?f msgs"
    "r_chunkSize rw1 = next_size msg (r_chunkSize rw)" "streams_in_step ?f (r_chunkStreams rw1)"
    using ReadWriter_Read_step [OF Cons.prems(1,2) tr refl refl Cons.prems(5) cont br] by blast
  have pos: "0 < r_chunkSize rw1"
    using tr Cons.prems(2) rw1(4) by (auto simp: next_size_def transmittable_def split: message.split)
  have conts: "\<forall>m\<in>set msgs. continues (writer_stream ?f (m_ChunkStreamID (raw_of cs m))) (raw_of cs m)"
    using Cons.prems(4,6) continues_after [OF _ _ wc] by auto
  have rest: "\<forall>m\<in>set msgs. transmittable cs m" "sorted_wrt follows (map (raw_of cs) msgs)"
    using Cons.prems(3,4) by simp_all
  have "\<exists>rw'. read_messages cs (length msgs) rw1 = (rw', Inr msgs) \<and> r_br rw' = []"
    by (rule Cons.IH [OF rw1(2) pos rest rw1(5) conts]) (simp only: rw1(3,4))
  with rw1(1) show ?case by auto
qed


definition sample_session :: "unit message list" where
  "sample_session =
     [MSetWindowAckSize 10, MSetChunkSize 3,
      MCommandAMF0 \<lparr>cm_ChunkStreamID = 3, cm_MessageStreamID = 0, cm_Name = ''connect'', cm_CommandID = 1,
                    cm_Arguments = [ANull]\<rparr>,
      MUserControlPingRequest 7]"

lemma received_untimed: "m_Timestamp raw = 0 \<Longrightarrow> received raw = raw"
  by (cases raw) (simp add: received_def msg_timestamp_def go_div_def)

lemma sample_session_ok:
  "(\<forall>msg\<in>set sample_session. transmittable no_cfg msg) \<and> sorted_wrt follows (map (raw_of no_cfg) sample_session)"
  by (simp add: sample_session_def transmittable_def raw_of_def received_untimed sendable_def follows_def
      SetWindowAckSize_marshal_def SetChunkSize_marshal_def CommandAMF0_marshal_def UserControlPingRequest_marshal_def
      Marshal_def MarshalSize_def MarshalTo_def CommandAMF0_ok_def ControlChunkStreamID_def maxBodySize_def
      msg_timestamp_def)


end
