(* ===== verification/Handshake.thy ===== *)
theory Handshake
  imports Prelude
begin

text \<open>
  The RTMP handshake, \<open>internal/protocols/rtmp/handshake\<close>, plain and encrypted, for both sides: the packets C0, S0, C1, S1, C2 and S2,
  the position of the digest and of the public key in C1 and S1, and the key exchange.

  A connection is a record: the bytes that will arrive, the bytes that were written, and the outcome of each call of
  \<open>Write\<close>. Random bytes come from a tape, with a position. HMAC-SHA256 is the parameter \<open>hmac\<close>. The definitions of the key exchange take
  the group, the prime and the order, as a parameter; \<open>group1024\<close> is the one of the code.
\<close>

section \<open>Connections\<close>

record hs_io =
  io_in :: bytes
  io_out :: bytes
  io_calls :: nat
  io_fail :: "nat \<Rightarrow> go_error option"
  io_tape :: "nat \<Rightarrow> byte"
  io_pos :: nat

type_synonym 'a hs = "hs_io \<Rightarrow> 'a result \<times> hs_io"

definition io_ReadFull :: "nat \<Rightarrow> bytes hs" where
  "io_ReadFull n io = (case read_full n (io_in io) of (r, rest) \<Rightarrow> (r, io\<lparr>io_in := rest\<rparr>))"

definition io_Write :: "bytes \<Rightarrow> unit hs" where
  "io_Write bs io =
     (case io_fail io (io_calls io) of
        Some e \<Rightarrow> (Inl e, io\<lparr>io_calls := Suc (io_calls io)\<rparr>)
      | None \<Rightarrow> (Inr (), io\<lparr>io_calls := Suc (io_calls io), io_out := io_out io @ bs\<rparr>))"

text \<open>\<open>crypto/rand.Read\<close>, which does not fail.\<close>

definition rand_Read :: "nat \<Rightarrow> bytes hs" where
  "rand_Read n io = (Inr (map (io_tape io) [io_pos io ..< io_pos io + n]), io\<lparr>io_pos := io_pos io + n\<rparr>)"

definition fails :: "string \<Rightarrow> 'a hs" where
  "fails msg io = (Inl (Errorf msg []), io)"

definition liftE :: "'a result \<Rightarrow> 'a hs" where
  "liftE r io = (r, io)"

section \<open>C0 and S0\<close>

definition C0S0_Read :: "byte hs" where
  "C0S0_Read io =
     bindS (io_ReadFull 1 io) (\<lambda>buf io.
       let v = buf ! 0 in
       if v \<noteq> 3 \<and> v \<noteq> 6 then (Inl (Errorf ''invalid rtmp version (%d)'' [uint v]), io) else (Inr v, io))"

definition C0S0_Write :: "byte \<Rightarrow> unit hs" where
  "C0S0_Write v io = io_Write [v] io"

section \<open>C1 and S1\<close>

record c1s1 =
  Time :: u32
  Version :: u32
  Data :: bytes

definition c1s1Size :: nat where [simp]: "c1s1Size = 1536"
definition digestPointerPos1 :: nat where [simp]: "digestPointerPos1 = 0"
definition digestPointerPos2 :: nat where [simp]: "digestPointerPos2 = 764"
definition digestChunkPos1 :: nat where [simp]: "digestChunkPos1 = 4"
definition digestChunkPos2 :: nat where [simp]: "digestChunkPos2 = 768"
definition digestChunkLength :: nat where [simp]: "digestChunkLength = 728"
definition digestLength :: nat where [simp]: "digestLength = 32"
definition publicKeyPointerPos1 :: nat where [simp]: "publicKeyPointerPos1 = 1524"
definition publicKeyPointerPos2 :: nat where [simp]: "publicKeyPointerPos2 = 760"
definition publicKeyChunkPos1 :: nat where [simp]: "publicKeyChunkPos1 = 764"
definition publicKeyChunkPos2 :: nat where [simp]: "publicKeyChunkPos2 = 0"
definition publicKeyChunkLength :: nat where [simp]: "publicKeyChunkLength = 632"
definition dhKeyLength :: nat where [simp]: "dhKeyLength = 128"

definition clientKeyC1 :: bytes where
  "clientKeyC1 = bytes_of ''Genuine Adobe Flash Player 001''"

definition serverKeyS1 :: bytes where
  "serverKeyS1 = bytes_of ''Genuine Adobe Flash Media Server 001''"

definition header8 :: "u32 \<Rightarrow> u32 \<Rightarrow> bytes" where
  "header8 a b = put32 a @ put32 b"

definition parse8 :: "bytes \<Rightarrow> u32 \<times> u32" where
  "parse8 buf = (be32 (buf ! 0) (buf ! 1) (buf ! 2) (buf ! 3), be32 (buf ! 4) (buf ! 5) (buf ! 6) (buf ! 7))"

definition C1S1_Read :: "c1s1 hs" where
  "C1S1_Read io =
     bindS (io_ReadFull c1s1Size io) (\<lambda>buf io.
       (Inr \<lparr>Time = fst (parse8 buf), Version = snd (parse8 buf), Data = drop 8 buf\<rparr>, io))"

definition readPointer :: "bytes \<Rightarrow> nat \<Rightarrow> nat" where
  "readPointer d p = unat (d ! p) + unat (d ! (p + 1)) + unat (d ! (p + 2)) + unat (d ! (p + 3))"

definition publicKeyPos1 :: "bytes \<Rightarrow> nat" where
  "publicKeyPos1 d = publicKeyChunkPos1 + readPointer d publicKeyPointerPos1 mod publicKeyChunkLength"

definition publicKeyPos2 :: "bytes \<Rightarrow> nat" where
  "publicKeyPos2 d = publicKeyChunkPos2 + readPointer d publicKeyPointerPos2 mod publicKeyChunkLength"

definition digestPos1 :: "bytes \<Rightarrow> nat" where
  "digestPos1 d = digestChunkPos1 + readPointer d digestPointerPos1 mod digestChunkLength"

definition digestPos2 :: "bytes \<Rightarrow> nat" where
  "digestPos2 d = digestChunkPos2 + readPointer d digestPointerPos2 mod digestChunkLength"

type_synonym hmac_fun = "bytes \<Rightarrow> bytes \<Rightarrow> bytes"

text \<open>The message is a buffer of the size of the packet less the digest.\<close>

definition C1S1_computeDigest :: "hmac_fun \<Rightarrow> c1s1 \<Rightarrow> nat \<Rightarrow> bool \<Rightarrow> bytes" where
  "C1S1_computeDigest hmac c digestPos isS1 =
     hmac (if isS1 then serverKeyS1 else clientKeyC1)
       (fill (c1s1Size - digestLength)
         (header8 (Time c) (Version c) @ take digestPos (Data c) @ drop (digestPos + digestLength) (Data c)))"

definition sub_bytes :: "nat \<Rightarrow> nat \<Rightarrow> bytes \<Rightarrow> bytes" where
  "sub_bytes p n d = take n (drop p d)"

definition validateDigest :: "hmac_fun \<Rightarrow> c1s1 \<Rightarrow> bool \<Rightarrow> (bytes \<times> bytes) result" where
  "validateDigest hmac c isS1 =
     (let d = Data c in
      if sub_bytes (digestPos1 d) digestLength d = C1S1_computeDigest hmac c (digestPos1 d) isS1
      then Inr (sub_bytes (digestPos1 d) digestLength d, sub_bytes (publicKeyPos1 d) dhKeyLength d)
      else if sub_bytes (digestPos2 d) digestLength d = C1S1_computeDigest hmac c (digestPos2 d) isS1
      then Inr (sub_bytes (digestPos2 d) digestLength d, sub_bytes (publicKeyPos2 d) dhKeyLength d)
      else Inl (Errorf ''unable to validate C1/S1 digest'' []))"

section \<open>The key exchange\<close>

text \<open>Big-endian numbers, as \<open>math/big\<close> reads and writes them.\<close>

definition big_SetBytes :: "bytes \<Rightarrow> nat" where
  "big_SetBytes bs = foldl (\<lambda>n b. n * 256 + unat b) 0 bs"

function big_Bytes :: "nat \<Rightarrow> bytes" where
  "big_Bytes n = (if n = 0 then [] else big_Bytes (n div 256) @ [word_of_nat (n mod 256)])"
  by pat_completeness auto
termination
  by (relation "measure id") auto

declare big_Bytes.simps [simp del]

record dh_group =
  group_p :: bytes
  group_q :: bytes

definition p1024 :: bytes where
  "p1024 =
     [0xFF, 0xFF, 0xFF, 0xFF, 0xFF, 0xFF, 0xFF, 0xFF, 0xC9, 0x0F, 0xDA, 0xA2, 0x21, 0x68, 0xC2, 0x34,
      0xC4, 0xC6, 0x62, 0x8B, 0x80, 0xDC, 0x1C, 0xD1, 0x29, 0x02, 0x4E, 0x08, 0x8A, 0x67, 0xCC, 0x74,
      0x02, 0x0B, 0xBE, 0xA6, 0x3B, 0x13, 0x9B, 0x22, 0x51, 0x4A, 0x08, 0x79, 0x8E, 0x34, 0x04, 0xDD,
      0xEF, 0x95, 0x19, 0xB3, 0xCD, 0x3A, 0x43, 0x1B, 0x30, 0x2B, 0x0A, 0x6D, 0xF2, 0x5F, 0x14, 0x37,
      0x4F, 0xE1, 0x35, 0x6D, 0x6D, 0x51, 0xC2, 0x45, 0xE4, 0x85, 0xB5, 0x76, 0x62, 0x5E, 0x7E, 0xC6,
      0xF4, 0x4C, 0x42, 0xE9, 0xA6, 0x37, 0xED, 0x6B, 0x0B, 0xFF, 0x5C, 0xB6, 0xF4, 0x06, 0xB7, 0xED,
      0xEE, 0x38, 0x6B, 0xFB, 0x5A, 0x89, 0x9F, 0xA5, 0xAE, 0x9F, 0x24, 0x11, 0x7C, 0x4B, 0x1F, 0xE6,
      0x49, 0x28, 0x66, 0x51, 0xEC, 0xE6, 0x53, 0x81, 0xFF, 0xFF, 0xFF, 0xFF, 0xFF, 0xFF, 0xFF, 0xFF]"

definition q1024 :: bytes where
  "q1024 =
     [0x7F, 0xFF, 0xFF, 0xFF, 0xFF, 0xFF, 0xFF, 0xFF, 0xE4, 0x87, 0xED, 0x51, 0x10, 0xB4, 0x61, 0x1A,
      0x62, 0x63, 0x31, 0x45, 0xC0, 0x6E, 0x0E, 0x68, 0x94, 0x81, 0x27, 0x04, 0x45, 0x33, 0xE6, 0x3A,
      0x01, 0x05, 0xDF, 0x53, 0x1D, 0x89, 0xCD, 0x91, 0x28, 0xA5, 0x04, 0x3C, 0xC7, 0x1A, 0x02, 0x6E,
      0xF7, 0xCA, 0x8C, 0xD9, 0xE6, 0x9D, 0x21, 0x8D, 0x98, 0x15, 0x85, 0x36, 0xF9, 0x2F, 0x8A, 0x1B,
      0xA7, 0xF0, 0x9A, 0xB6, 0xB6, 0xA8, 0xE1, 0x22, 0xF2, 0x42, 0xDA, 0xBB, 0x31, 0x2F, 0x3F, 0x63,
      0x7A, 0x26, 0x21, 0x74, 0xD3, 0x1B, 0xF6, 0xB5, 0x85, 0xFF, 0xAE, 0x5B, 0x7A, 0x03, 0x5B, 0xF6,
      0xF7, 0x1C, 0x35, 0xFD, 0xAD, 0x44, 0xCF, 0xD2, 0xD7, 0x4F, 0x92, 0x08, 0xBE, 0x25, 0x8F, 0xF3,
      0x24, 0x94, 0x33, 0x28, 0xF6, 0x73, 0x29, 0xC0, 0xFF, 0xFF, 0xFF, 0xFF, 0xFF, 0xFF, 0xFF, 0xFF]"

definition group1024 :: dh_group where
  "group1024 = \<lparr>group_p = p1024, group_q = q1024\<rparr>"

definition big_Exp :: "nat \<Rightarrow> nat \<Rightarrow> nat \<Rightarrow> nat" where
  "big_Exp y x p = y ^ x mod p"

definition dhValidatePublicKey :: "dh_group \<Rightarrow> bytes \<Rightarrow> unit result" where
  "dhValidatePublicKey g key =
     (let y = big_SetBytes key; p = big_SetBytes (group_p g) in
      if y < 2 then Inl (Errorf ''key is < 2'' [])
      else if y \<ge> p then Inl (Errorf ''key is >= p'' [])
      else if big_Exp y (big_SetBytes (group_q g)) p \<noteq> 1 then Inl (Errorf ''y^q mod p is != 1'' [])
      else Inr ())"

definition pad_key :: "bytes \<Rightarrow> bytes" where
  "pad_key k = (if length k < dhKeyLength then replicate (dhKeyLength - length k) 0 @ k else k)"

definition dh_public :: "dh_group \<Rightarrow> bytes \<Rightarrow> bytes" where
  "dh_public g priv = pad_key (big_Bytes (big_Exp 2 (big_SetBytes priv) (big_SetBytes (group_p g))))"

definition dhGenerateKeyPair :: "dh_group \<Rightarrow> (bytes \<times> bytes) hs" where
  "dhGenerateKeyPair g io = bindS (rand_Read dhKeyLength io) (\<lambda>priv io. (Inr (priv, dh_public g priv), io))"

definition dhComputeSharedSecret :: "dh_group \<Rightarrow> bytes \<Rightarrow> bytes \<Rightarrow> bytes" where
  "dhComputeSharedSecret g priv pub =
     pad_key (big_Bytes (big_Exp (big_SetBytes pub) (big_SetBytes priv) (big_SetBytes (group_p g))))"

section \<open>Filling and validating C1 and S1\<close>

definition C1S1_validate :: "hmac_fun \<Rightarrow> dh_group \<Rightarrow> c1s1 \<Rightarrow> bool \<Rightarrow> (bytes \<times> bytes) result" where
  "C1S1_validate hmac g c isS1 =
     bindE (validateDigest hmac c isS1) (\<lambda>(digest, publicKey).
     bindE (dhValidatePublicKey g publicKey) (\<lambda>_. Inr (digest, publicKey)))"

definition C1S1_fillPlain :: "c1s1 \<Rightarrow> c1s1 hs" where
  "C1S1_fillPlain c io = bindS (rand_Read (c1s1Size - 8) io) (\<lambda>d io. (Inr (c\<lparr>Data := d\<rparr>), io))"

text \<open>\<open>copy(data[p:], bs)\<close>, for \<open>bs\<close> that fits.\<close>

definition put_at :: "nat \<Rightarrow> bytes \<Rightarrow> bytes \<Rightarrow> bytes" where
  "put_at p bs d = take p d @ bs @ drop (p + length bs) d"

definition sign :: "hmac_fun \<Rightarrow> c1s1 \<Rightarrow> bool \<Rightarrow> bytes \<Rightarrow> bool \<Rightarrow> c1s1 \<times> bytes" where
  "sign hmac c isS1 publicKey first =
     (let digestPos = (if first then digestPos1 (Data c) else digestPos2 (Data c));
          publicKeyPos = (if first then publicKeyPos1 (Data c) else publicKeyPos2 (Data c));
          c1 = c\<lparr>Data := put_at publicKeyPos publicKey (Data c)\<rparr>;
          digest = C1S1_computeDigest hmac c1 digestPos isS1
      in (c1\<lparr>Data := put_at digestPos digest (Data c1)\<rparr>, digest))"

definition C1S1_fill :: "hmac_fun \<Rightarrow> c1s1 \<Rightarrow> bool \<Rightarrow> bytes \<Rightarrow> (c1s1 \<times> bytes) hs" where
  "C1S1_fill hmac c isS1 publicKey io =
     bindS (C1S1_fillPlain c io) (\<lambda>c io.
     bindS (rand_Read 1 io) (\<lambda>r io. (Inr (sign hmac c isS1 publicKey (r ! 0 = 0)), io)))"

definition packet :: "u32 \<Rightarrow> u32 \<Rightarrow> bytes \<Rightarrow> bytes" where
  "packet a b d = fill c1s1Size (header8 a b @ d)"

definition C1S1_Write :: "c1s1 \<Rightarrow> unit hs" where
  "C1S1_Write c io = io_Write (packet (Time c) (Version c) (Data c)) io"

section \<open>C2 and S2\<close>

record c2s2 =
  c2_Time :: u32
  c2_Time2 :: u32
  c2_Data :: bytes

definition c2s2DigestPos :: nat where [simp]: "c2s2DigestPos = 1496"

definition randomCrud :: bytes where
  "randomCrud =
     [0xF0, 0xEE, 0xC2, 0x4A, 0x80, 0x68, 0xBE, 0xE8, 0x2E, 0x00, 0xD0, 0xD1, 0x02, 0x9E, 0x7E, 0x57,
      0x6E, 0xEC, 0x5D, 0x2D, 0x29, 0x80, 0x6F, 0xAB, 0x93, 0xB8, 0xE6, 0x36, 0xCF, 0xEB, 0x31, 0xAE]"

definition C2S2_Read :: "c2s2 hs" where
  "C2S2_Read io =
     bindS (io_ReadFull c1s1Size io) (\<lambda>buf io.
       (Inr \<lparr>c2_Time = fst (parse8 buf), c2_Time2 = snd (parse8 buf), c2_Data = drop 8 buf\<rparr>, io))"

definition C2S2_computeDigest :: "hmac_fun \<Rightarrow> c2s2 \<Rightarrow> bool \<Rightarrow> bytes \<Rightarrow> bytes" where
  "C2S2_computeDigest hmac c isS2 prevDigest =
     hmac (hmac ((if isS2 then serverKeyS1 else clientKeyC1) @ randomCrud) prevDigest)
       (fill (c1s1Size - digestLength) (header8 (c2_Time c) (c2_Time2 c) @ take c2s2DigestPos (c2_Data c)))"

definition C2S2_validate :: "hmac_fun \<Rightarrow> c2s2 \<Rightarrow> bool \<Rightarrow> bytes \<Rightarrow> unit result" where
  "C2S2_validate hmac c isS2 prevDigest =
     (if sub_bytes c2s2DigestPos digestLength (c2_Data c) \<noteq> C2S2_computeDigest hmac c isS2 prevDigest
      then Inl (Errorf ''unable to validate C2/S2 digest'' []) else Inr ())"

definition C2S2_fillPlain :: "c2s2 \<Rightarrow> c2s2 hs" where
  "C2S2_fillPlain c io = bindS (rand_Read (c1s1Size - 8) io) (\<lambda>d io. (Inr (c\<lparr>c2_Data := d\<rparr>), io))"

definition C2S2_fill :: "hmac_fun \<Rightarrow> c2s2 \<Rightarrow> bool \<Rightarrow> bytes \<Rightarrow> c2s2 hs" where
  "C2S2_fill hmac c isS2 prevDigest io =
     bindS (C2S2_fillPlain c io) (\<lambda>c io.
       (Inr (c\<lparr>c2_Data := put_at c2s2DigestPos (C2S2_computeDigest hmac c isS2 prevDigest) (c2_Data c)\<rparr>), io))"

definition C2S2_Write :: "c2s2 \<Rightarrow> unit hs" where
  "C2S2_Write c io = io_Write (packet (c2_Time c) (c2_Time2 c) (c2_Data c)) io"

section \<open>The two sides\<close>

definition encryptedVersion :: u32 where
  "encryptedVersion = 0x03050101"

definition zero_c1s1 :: c1s1 where
  "zero_c1s1 = \<lparr>Time = 0, Version = 0, Data = []\<rparr>"

definition zero_c2s2 :: c2s2 where
  "zero_c2s2 = \<lparr>c2_Time = 0, c2_Time2 = 0, c2_Data = []\<rparr>"

definition session_keys :: "hmac_fun \<Rightarrow> bytes \<Rightarrow> bytes \<Rightarrow> bytes \<Rightarrow> bytes \<times> bytes" where
  "session_keys hmac sharedSecret localPublicKey remotePublicKey =
     (take 16 (hmac sharedSecret localPublicKey), take 16 (hmac sharedSecret remotePublicKey))"

definition unexpected_version :: "byte \<Rightarrow> go_error" where
  "unexpected_version v = Errorf ''server replied with unexpected version %d'' [uint v]"

definition doClientEncrypted :: "hmac_fun \<Rightarrow> dh_group \<Rightarrow> (bytes \<times> bytes) hs" where
  "doClientEncrypted hmac g io =
     bindS (C0S0_Write 6 io) (\<lambda>_ io.
     bindS (dhGenerateKeyPair g io) (\<lambda>(localPrivateKey, localPublicKey) io.
     bindS (C1S1_fill hmac zero_c1s1 False localPublicKey io) (\<lambda>(c1, c1Digest) io.
     bindS (C1S1_Write c1 io) (\<lambda>_ io.
     bindS (C0S0_Read io) (\<lambda>s0 io.
     bindS (if s0 \<noteq> 6 then liftE (Inl (unexpected_version s0)) io else liftE (Inr ()) io) (\<lambda>_ io.
     bindS (C1S1_Read io) (\<lambda>s1 io.
     bindS (liftE (C1S1_validate hmac g s1 True) io) (\<lambda>(s1Digest, remotePublicKey) io.
     bindS (C2S2_Read io) (\<lambda>s2 io.
     bindS (liftE (C2S2_validate hmac s2 True c1Digest) io) (\<lambda>_ io.
     bindS (C2S2_fill hmac zero_c2s2 False s1Digest io) (\<lambda>c2 io.
     bindS (C2S2_Write c2 io) (\<lambda>_ io.
     (Inr (session_keys hmac (dhComputeSharedSecret g localPrivateKey remotePublicKey) localPublicKey remotePublicKey), io)))))))))))))"

definition doClientPlain :: "bool \<Rightarrow> unit hs" where
  "doClientPlain strict io =
     bindS (C0S0_Write 3 io) (\<lambda>_ io.
     bindS (C1S1_fillPlain zero_c1s1 io) (\<lambda>c1 io.
     bindS (C1S1_Write c1 io) (\<lambda>_ io.
     bindS (C0S0_Read io) (\<lambda>s0 io.
     bindS (if s0 \<noteq> 3 then liftE (Inl (unexpected_version s0)) io else liftE (Inr ()) io) (\<lambda>_ io.
     bindS (C1S1_Read io) (\<lambda>s1 io.
     bindS (C2S2_Read io) (\<lambda>s2 io.
     bindS (if strict \<and> c2_Data s2 \<noteq> Data c1 then fails ''data in S2 does not correspond'' io else liftE (Inr ()) io) (\<lambda>_ io.
     C2S2_Write (zero_c2s2\<lparr>c2_Data := Data s1\<rparr>) io))))))))"

definition DoClient :: "hmac_fun \<Rightarrow> dh_group \<Rightarrow> bool \<Rightarrow> bool \<Rightarrow> (bytes \<times> bytes) option hs" where
  "DoClient hmac g encrypted strict io =
     (if encrypted then bindS (doClientEncrypted hmac g io) (\<lambda>keys io. (Inr (Some keys), io))
      else bindS (doClientPlain strict io) (\<lambda>_ io. (Inr None, io)))"

definition doServerEncrypted :: "hmac_fun \<Rightarrow> dh_group \<Rightarrow> (bytes \<times> bytes) hs" where
  "doServerEncrypted hmac g io =
     bindS (C1S1_Read io) (\<lambda>c1 io.
     bindS (liftE (C1S1_validate hmac g c1 False) io) (\<lambda>(c1Digest, remotePublicKey) io.
     bindS (dhGenerateKeyPair g io) (\<lambda>(localPrivateKey, localPublicKey) io.
     bindS (C0S0_Write 6 io) (\<lambda>_ io.
     bindS (C1S1_fill hmac (zero_c1s1\<lparr>Version := encryptedVersion\<rparr>) True localPublicKey io) (\<lambda>(s1, s1Digest) io.
     bindS (C1S1_Write s1 io) (\<lambda>_ io.
     bindS (C2S2_fill hmac (zero_c2s2\<lparr>c2_Time2 := encryptedVersion\<rparr>) True c1Digest io) (\<lambda>s2 io.
     bindS (C2S2_Write s2 io) (\<lambda>_ io.
     bindS (C2S2_Read io) (\<lambda>c2 io.
     bindS (liftE (C2S2_validate hmac c2 False s1Digest) io) (\<lambda>_ io.
     (Inr (session_keys hmac (dhComputeSharedSecret g localPrivateKey remotePublicKey) localPublicKey remotePublicKey), io)))))))))))"

definition doServerPlain :: "bool \<Rightarrow> unit hs" where
  "doServerPlain strict io =
     bindS (C1S1_Read io) (\<lambda>c1 io.
     bindS (C0S0_Write 3 io) (\<lambda>_ io.
     bindS (C1S1_fillPlain zero_c1s1 io) (\<lambda>s1 io.
     bindS (C1S1_Write s1 io) (\<lambda>_ io.
     bindS (C2S2_Write (zero_c2s2\<lparr>c2_Data := Data c1\<rparr>) io) (\<lambda>_ io.
     bindS (C2S2_Read io) (\<lambda>c2 io.
     if strict \<and> c2_Data c2 \<noteq> Data s1 then fails ''data in C2 does not correspond'' io else (Inr (), io)))))))"

definition DoServer :: "hmac_fun \<Rightarrow> dh_group \<Rightarrow> bool \<Rightarrow> (bytes \<times> bytes) option hs" where
  "DoServer hmac g strict io =
     bindS (C0S0_Read io) (\<lambda>c0 io.
     if c0 = 6 then bindS (doServerEncrypted hmac g io) (\<lambda>keys io. (Inr (Some keys), io))
     else bindS (doServerPlain strict io) (\<lambda>_ io. (Inr None, io)))"


section \<open>A packet that was filled is valid\<close>

lemma length_put_at [simp]: "p + length bs \<le> length d \<Longrightarrow> length (put_at p bs d) = length d"
  by (simp add: put_at_def)

lemma nth_put_at:
  assumes "p + length bs \<le> length d" "i < length d"
  shows "put_at p bs d ! i = (if p \<le> i \<and> i < p + length bs then bs ! (i - p) else d ! i)"
  using assms by (auto simp: put_at_def nth_append min_def)

lemma sub_bytes_put_at: "p \<le> length d \<Longrightarrow> n = length bs \<Longrightarrow> sub_bytes p n (put_at p bs d) = bs"
  by (simp add: sub_bytes_def put_at_def)

lemma sub_bytes_put_at_other:
  assumes "p + length bs \<le> length d" "q + n \<le> p \<or> p + length bs \<le> q"
  shows "sub_bytes q n (put_at p bs d) = sub_bytes q n d"
  using assms by (intro nth_equalityI) (auto simp: sub_bytes_def nth_put_at)

lemma readPointer_put_at:
  assumes "p + length bs \<le> length d" "q + 4 \<le> p \<or> p + length bs \<le> q" "q + 4 \<le> length d"
  shows "readPointer (put_at p bs d) q = readPointer d q"
  using assms(2)
proof
  assume "q + 4 \<le> p"
  with assms(1,3) show ?thesis by (simp add: readPointer_def nth_put_at)
next
  assume "p + length bs \<le> q"
  with assms(1,3) show ?thesis by (simp add: readPointer_def nth_put_at)
qed

lemma computeDigest_put_at:
  assumes "p + digestLength \<le> length (Data c)" "length digest = digestLength"
  shows "C1S1_computeDigest hmac (c\<lparr>Data := put_at p digest (Data c)\<rparr>) p isS1 = C1S1_computeDigest hmac c p isS1"
  using assms by (simp add: C1S1_computeDigest_def put_at_def)

text \<open>Where the digest and the key can be, for each of the two layouts.\<close>

lemma positions:
  "4 \<le> digestPos1 d" "digestPos1 d \<le> 731" "768 \<le> digestPos2 d" "digestPos2 d \<le> 1495"
  "764 \<le> publicKeyPos1 d" "publicKeyPos1 d \<le> 1395" "publicKeyPos2 d \<le> 631"
  using mod_less_divisor [of 728 "readPointer d digestPointerPos1"] mod_less_divisor [of 728 "readPointer d digestPointerPos2"]
    mod_less_divisor [of 632 "readPointer d publicKeyPointerPos1"] mod_less_divisor [of 632 "readPointer d publicKeyPointerPos2"]
  by (simp_all add: digestPos1_def digestPos2_def publicKeyPos1_def publicKeyPos2_def)

text \<open>A digest of the first layout that is there by accident would be taken for the real one.\<close>

definition first_layout_matches :: "hmac_fun \<Rightarrow> c1s1 \<Rightarrow> bool \<Rightarrow> bool" where
  "first_layout_matches hmac c isS1 =
     (sub_bytes (digestPos1 (Data c)) digestLength (Data c) = C1S1_computeDigest hmac c (digestPos1 (Data c)) isS1)"

definition hmac_ok :: "hmac_fun \<Rightarrow> bool" where
  "hmac_ok hmac = (\<forall>k m. length (hmac k m) = digestLength)"

lemma validate_sign:
  assumes hmac: "hmac_ok hmac" and len: "length (Data c) = c1s1Size - 8" "length publicKey = dhKeyLength"
    and sign: "sign hmac c isS1 publicKey first = (c', digest)"
    and first: "first \<or> \<not> first_layout_matches hmac c' isS1"
  shows "validateDigest hmac c' isS1 = Inr (digest, publicKey)" "length (Data c') = c1s1Size - 8"
    "Time c' = Time c" "Version c' = Version c"
proof -
  define dp where "dp = (if first then digestPos1 (Data c) else digestPos2 (Data c))"
  define kp where "kp = (if first then publicKeyPos1 (Data c) else publicKeyPos2 (Data c))"
  define c1 where "c1 = c\<lparr>Data := put_at kp publicKey (Data c)\<rparr>"
  have c': "c' = c1\<lparr>Data := put_at dp digest (Data c1)\<rparr>" "digest = C1S1_computeDigest hmac c1 dp isS1"
    using sign by (auto simp: sign_def dp_def kp_def c1_def Let_def)
  have dlen: "length digest = digestLength"
    using hmac by (simp add: c' hmac_ok_def C1S1_computeDigest_def)
  have bounds: "dp + digestLength \<le> 1528" "kp + dhKeyLength \<le> 1528" "dp + digestLength \<le> kp \<or> kp + dhKeyLength \<le> dp"
    using positions [of "Data c"] by (auto simp: dp_def kp_def)
  have l1: "length (Data c1) = 1528"
    using len bounds by (simp add: c1_def)
  have at: "sub_bytes dp digestLength (Data c') = digest" "sub_bytes kp dhKeyLength (Data c') = publicKey"
  proof -
    show "sub_bytes dp digestLength (Data c') = digest"
      using sub_bytes_put_at [of dp "Data c1" digestLength digest] bounds l1 dlen by (simp add: c'(1))
    have "sub_bytes kp dhKeyLength (Data c') = sub_bytes kp dhKeyLength (Data c1)"
      using sub_bytes_put_at_other [of dp digest "Data c1" kp dhKeyLength] bounds l1 dlen by (auto simp: c'(1))
    also have "\<dots> = publicKey"
      using sub_bytes_put_at [of kp "Data c" dhKeyLength publicKey] bounds len by (simp add: c1_def)
    finally show "sub_bytes kp dhKeyLength (Data c') = publicKey" .
  qed
  have digest: "C1S1_computeDigest hmac c' dp isS1 = digest"
    using computeDigest_put_at [of dp c1 digest hmac isS1] bounds l1 dlen by (simp add: c')
  have pointer: "readPointer (Data c') q = readPointer (Data c) q"
    if "q + 4 \<le> dp \<or> dp + digestLength \<le> q" "q + 4 \<le> kp \<or> kp + dhKeyLength \<le> q" "q + 4 \<le> 1528" for q
    using that bounds l1 len dlen by (simp add: c' c1_def readPointer_put_at)
  show "validateDigest hmac c' isS1 = Inr (digest, publicKey)"
  proof (cases first)
    case True
    then have "digestPos1 (Data c') = dp" "publicKeyPos1 (Data c') = kp"
      using positions [of "Data c"] pointer [of 0] pointer [of 1524]
      by (simp_all add: digestPos1_def publicKeyPos1_def dp_def kp_def)
    with at digest show ?thesis
      by (simp add: validateDigest_def Let_def)
  next
    case False
    then have "digestPos2 (Data c') = dp" "publicKeyPos2 (Data c') = kp"
      using positions [of "Data c"] pointer [of 764] pointer [of 760]
      by (simp_all add: digestPos2_def publicKeyPos2_def dp_def kp_def)
    with at digest first False show ?thesis
      by (simp add: validateDigest_def Let_def first_layout_matches_def)
  qed
  show "length (Data c') = c1s1Size - 8"
    using bounds l1 dlen by (simp add: c')
  show "Time c' = Time c" "Version c' = Version c"
    by (simp_all add: c' c1_def)
qed

lemma validate_C2S2:
  assumes "hmac_ok hmac" "length (c2_Data c) = c1s1Size - 8"
  shows "C2S2_validate hmac (c\<lparr>c2_Data := put_at c2s2DigestPos (C2S2_computeDigest hmac c isS2 prev) (c2_Data c)\<rparr>) isS2 prev = Inr ()"
proof -
  have "length (C2S2_computeDigest hmac c isS2 prev) = digestLength"
    using assms(1) by (simp add: C2S2_computeDigest_def hmac_ok_def)
  with assms(2) show ?thesis
    using sub_bytes_put_at [of c2s2DigestPos "c2_Data c" digestLength "C2S2_computeDigest hmac c isS2 prev"]
    by (simp add: C2S2_validate_def C2S2_computeDigest_def put_at_def)
qed


section \<open>The key exchange agrees\<close>

lemma big_SetBytes_append: "big_SetBytes (xs @ [b]) = big_SetBytes xs * 256 + unat b"
  by (simp add: big_SetBytes_def)

lemma big_SetBytes_zeros: "big_SetBytes (replicate k 0 @ bs) = big_SetBytes bs"
proof -
  have "foldl (\<lambda>n b. n * 256 + unat b) 0 (replicate k (0::byte)) = 0"
    by (induction k) simp_all
  then show ?thesis
    by (simp add: big_SetBytes_def)
qed

lemma big_SetBytes_Bytes: "big_SetBytes (big_Bytes n) = n"
proof (induction n rule: big_Bytes.induct)
  case (1 n)
  then show ?case
    by (cases "n = 0") (simp_all add: big_Bytes.simps [of n] big_SetBytes_append unat_of_nat,
        simp add: big_SetBytes_def big_Bytes.simps)
qed

lemma big_SetBytes_pad: "big_SetBytes (pad_key k) = big_SetBytes k"
  by (simp add: pad_key_def big_SetBytes_zeros)

lemma big_Bytes_length: "n < 256 ^ k \<Longrightarrow> length (big_Bytes n) \<le> k"
proof (induction n arbitrary: k rule: big_Bytes.induct)
  case (1 n)
  show ?case
  proof (cases "n = 0")
    case False
    with 1(2) obtain j where k: "k = Suc j"
      by (cases k) auto
    have "n div 256 < 256 ^ j"
      using 1(2) k by (simp add: less_mult_imp_div_less mult.commute)
    with 1(1) [OF False this] False k show ?thesis
      by (simp add: big_Bytes.simps [of n])
  qed (simp add: big_Bytes.simps)
qed

lemma big_SetBytes_less: "big_SetBytes bs < 256 ^ length bs"
proof (induction bs rule: rev_induct)
  case (snoc b bs)
  have "big_SetBytes bs * 256 + unat b < (big_SetBytes bs + 1) * 256"
    using unat_byte_less [of b] by simp
  also have "\<dots> \<le> 256 ^ length bs * 256"
    using snoc by (intro mult_right_mono) auto
  finally show ?case
    by (simp add: big_SetBytes_append mult.commute)
qed (simp add: big_SetBytes_def)

lemma big_Exp_less:
  assumes "0 < big_SetBytes (group_p g)" "length (group_p g) \<le> dhKeyLength"
  shows "length (pad_key (big_Bytes (big_Exp y x (big_SetBytes (group_p g))))) = dhKeyLength"
proof -
  let ?p = "big_SetBytes (group_p g)"
  have "?p < 256 ^ length (group_p g)"
    by (rule big_SetBytes_less)
  also have "\<dots> \<le> 256 ^ 128"
    using assms(2) by (intro power_increasing) simp_all
  finally have "big_Exp y x ?p < 256 ^ 128"
    using assms(1) mod_less_divisor [of ?p "y ^ x"] unfolding big_Exp_def by linarith
  then have "length (big_Bytes (big_Exp y x ?p)) \<le> 128"
    by (rule big_Bytes_length)
  then show ?thesis
    by (simp add: pad_key_def)
qed

text \<open>Both sides compute the same secret.\<close>

lemma shared_secret:
  "dhComputeSharedSecret g a (dh_public g b) = dhComputeSharedSecret g b (dh_public g a)"
proof -
  let ?p = "big_SetBytes (group_p g)"
  have "(2 ^ x mod ?p) ^ y mod ?p = (2 ^ y mod ?p) ^ x mod ?p" for x y :: nat
    by (simp add: power_mod mult.commute flip: power_mult)
  then show ?thesis
    by (simp add: dhComputeSharedSecret_def dh_public_def big_SetBytes_pad big_SetBytes_Bytes big_Exp_def)
qed

text \<open>
  A public key of the group is valid, if the generator 2 has the order that the code checks for, unless it is
  below 2.
\<close>

lemma generated_key_valid:
  assumes "big_Exp 2 (big_SetBytes (group_q g)) (big_SetBytes (group_p g)) = 1" "1 < big_SetBytes (group_p g)"
    and "2 \<le> big_SetBytes (dh_public g priv)"
  shows "dhValidatePublicKey g (dh_public g priv) = Inr ()"
proof -
  let ?p = "big_SetBytes (group_p g)" and ?q = "big_SetBytes (group_q g)" and ?x = "big_SetBytes priv"
  have pub: "big_SetBytes (dh_public g priv) = 2 ^ ?x mod ?p"
    by (simp add: dh_public_def big_SetBytes_pad big_SetBytes_Bytes big_Exp_def)
  have "(2 ^ ?x mod ?p) ^ ?q mod ?p = (2 ^ ?q mod ?p) ^ ?x mod ?p"
    by (simp add: power_mod mult.commute flip: power_mult)
  also have "\<dots> = 1"
    using assms(1,2) by (simp add: big_Exp_def)
  finally show ?thesis
    using assms(2,3) mod_less_divisor [of ?p "2 ^ ?x"]
    by (simp add: dhValidatePublicKey_def pub Let_def big_Exp_def del: mod_less_divisor)
qed

section \<open>Runs\<close>

lemma bindS_return: "snd (bindS r (\<lambda>x s. (Inr (f x), s))) = snd r"
  by (cases r; cases "fst r") auto

text \<open>A connection at its start, on which nothing fails.\<close>

definition io_start :: "bytes \<Rightarrow> (nat \<Rightarrow> byte) \<Rightarrow> hs_io" where
  "io_start s tape = \<lparr>io_in = s, io_out = [], io_calls = 0, io_fail = (\<lambda>_. None), io_tape = tape, io_pos = 0\<rparr>"

definition io_live :: "hs_io \<Rightarrow> bool" where
  "io_live io = (\<forall>n. io_fail io n = None)"

lemma packet_exact: "length d = c1s1Size - 8 \<Longrightarrow> packet a b d = header8 a b @ d"
  by (simp add: packet_def header8_def fill_exact')

lemma length_packet [simp]: "length (packet a b d) = c1s1Size"
  by (simp add: packet_def)

lemma parse_header: "parse8 (header8 a b @ d) = (a, b)"
  by (simp add: parse8_def header8_def put32_def)

lemma io_ReadFull_packet: "io_in io = packet a b d @ rest \<Longrightarrow> io_ReadFull 1536 io = (Inr (packet a b d), io\<lparr>io_in := rest\<rparr>)"
  by (simp add: io_ReadFull_def)

lemma C1S1_Read_packet:
  assumes "io_in io = packet a b d @ rest" "length d = c1s1Size - 8"
  shows "C1S1_Read io = (Inr \<lparr>Time = a, Version = b, Data = d\<rparr>, io\<lparr>io_in := rest\<rparr>)"
  using io_ReadFull_packet [OF assms(1)] assms(2)
  by (simp add: C1S1_Read_def packet_exact parse_header) (simp add: header8_def)

lemma C2S2_Read_packet:
  assumes "io_in io = packet a b d @ rest" "length d = c1s1Size - 8"
  shows "C2S2_Read io = (Inr \<lparr>c2_Time = a, c2_Time2 = b, c2_Data = d\<rparr>, io\<lparr>io_in := rest\<rparr>)"
  using io_ReadFull_packet [OF assms(1)] assms(2)
  by (simp add: C2S2_Read_def packet_exact parse_header) (simp add: header8_def)

lemma C0S0_Read_byte:
  assumes "io_in io = v # rest" "v = 3 \<or> v = 6"
  shows "C0S0_Read io = (Inr v, io\<lparr>io_in := rest\<rparr>)"
  using assms by (auto simp: C0S0_Read_def io_ReadFull_def read_full_def)

lemma io_Write_live: "io_fail io = (\<lambda>_. None) \<Longrightarrow>
  io_Write bs io = (Inr (), io\<lparr>io_calls := Suc (io_calls io), io_out := io_out io @ bs\<rparr>)"
  by (simp add: io_Write_def)

text \<open>What each side draws from its tape and sends.\<close>

definition drawn :: "(nat \<Rightarrow> byte) \<Rightarrow> nat \<Rightarrow> nat \<Rightarrow> bytes" where
  "drawn tape p n = map tape [p ..< p + n]"

definition drawn_private :: "(nat \<Rightarrow> byte) \<Rightarrow> bytes" where
  "drawn_private tape = drawn tape 0 dhKeyLength"

definition drawn_first :: "hmac_fun \<Rightarrow> dh_group \<Rightarrow> (nat \<Rightarrow> byte) \<Rightarrow> bool \<Rightarrow> c1s1 \<times> bytes" where
  "drawn_first hmac g tape isS1 =
     sign hmac \<lparr>Time = 0, Version = (if isS1 then encryptedVersion else 0), Data = drawn tape 128 1528\<rparr> isS1
       (dh_public g (drawn_private tape)) (tape 1656 = 0)"

definition drawn_second :: "hmac_fun \<Rightarrow> (nat \<Rightarrow> byte) \<Rightarrow> bool \<Rightarrow> bytes \<Rightarrow> c2s2" where
  "drawn_second hmac tape isS2 prev =
     (let c = \<lparr>c2_Time = 0, c2_Time2 = (if isS2 then encryptedVersion else 0), c2_Data = drawn tape 1657 1528\<rparr>
      in c\<lparr>c2_Data := put_at c2s2DigestPos (C2S2_computeDigest hmac c isS2 prev) (c2_Data c)\<rparr>)"

definition packet1 :: "c1s1 \<Rightarrow> bytes" where
  "packet1 c = packet (Time c) (Version c) (Data c)"

definition packet2 :: "c2s2 \<Rightarrow> bytes" where
  "packet2 c = packet (c2_Time c) (c2_Time2 c) (c2_Data c)"

lemma length_drawn [simp]: "length (drawn tape p n) = n"
  by (simp add: drawn_def)

lemma rand_Read_drawn: "rand_Read n io = (Inr (drawn (io_tape io) (io_pos io) n), io\<lparr>io_pos := io_pos io + n\<rparr>)"
  by (simp add: rand_Read_def drawn_def)

lemma drawn_one: "drawn tape p (Suc 0) ! 0 = tape p"
  by (simp add: drawn_def)

lemma C1S1_Read_packet1:
  assumes "length (Data c) = c1s1Size - 8" "io_in io = packet1 c @ rest"
  shows "C1S1_Read io = (Inr c, io\<lparr>io_in := rest\<rparr>)"
  using C1S1_Read_packet [OF assms(2) [unfolded packet1_def] assms(1)] by simp

lemma C2S2_Read_packet2:
  assumes "length (c2_Data c) = c1s1Size - 8" "io_in io = packet2 c @ rest"
  shows "C2S2_Read io = (Inr c, io\<lparr>io_in := rest\<rparr>)"
  using C2S2_Read_packet [OF assms(2) [unfolded packet2_def] assms(1)] by simp

lemmas run_defs = dhGenerateKeyPair_def C1S1_fill_def C1S1_fillPlain_def C2S2_fill_def C2S2_fillPlain_def
  C0S0_Write_def C1S1_Write_def C2S2_Write_def rand_Read_drawn drawn_one liftE_def io_start_def io_Write_def

lemma client_encrypted_run:
  fixes hmac :: hmac_fun and g :: dh_group and tape :: "nat \<Rightarrow> byte"
  defines "c1 \<equiv> drawn_first hmac g tape False"
  assumes s1: "length (Data s1) = c1s1Size - 8" "C1S1_validate hmac g s1 True = Inr (s1Digest, pub)"
    and s2: "length (c2_Data s2) = c1s1Size - 8" "C2S2_validate hmac s2 True (snd c1) = Inr ()"
  shows "doClientEncrypted hmac g (io_start (6 # packet1 s1 @ packet2 s2 @ rest) tape) =
    (Inr (session_keys hmac (dhComputeSharedSecret g (drawn_private tape) pub) (dh_public g (drawn_private tape)) pub),
     (io_start rest tape)\<lparr>io_out := 6 # packet1 (fst c1) @ packet2 (drawn_second hmac tape False s1Digest),
       io_calls := 3, io_pos := 3185\<rparr>)"
proof -
  obtain c1p c1d where c1: "drawn_first hmac g tape False = (c1p, c1d)"
    by (cases "drawn_first hmac g tape False")
  then have sign: "sign hmac \<lparr>Time = 0, Version = 0, Data = drawn tape 128 1528\<rparr> False
      (dh_public g (drawn tape 0 128)) (tape 1656 = 0) = (c1p, c1d)"
    by (simp add: drawn_first_def drawn_private_def)
  show ?thesis
    using s1 s2 unfolding c1_def c1
    by (simp add: doClientEncrypted_def run_defs sign C0S0_Read_byte C1S1_Read_packet1 C2S2_Read_packet2
        zero_c1s1_def zero_c2s2_def drawn_second_def drawn_private_def Let_def packet1_def [symmetric])
      (simp add: packet2_def)
qed

lemma server_encrypted_run:
  fixes hmac :: hmac_fun and g :: dh_group and tape :: "nat \<Rightarrow> byte"
  defines "s1 \<equiv> drawn_first hmac g tape True"
  assumes c1: "length (Data c1) = c1s1Size - 8" "C1S1_validate hmac g c1 False = Inr (c1Digest, pub)"
  shows "length (c2_Data c2) = c1s1Size - 8 \<Longrightarrow> C2S2_validate hmac c2 False (snd s1) = Inr () \<Longrightarrow>
    doServerEncrypted hmac g (io_start (packet1 c1 @ packet2 c2 @ rest) tape) =
    (Inr (session_keys hmac (dhComputeSharedSecret g (drawn_private tape) pub) (dh_public g (drawn_private tape)) pub),
     (io_start rest tape)\<lparr>io_out := 6 # packet1 (fst s1) @ packet2 (drawn_second hmac tape True c1Digest),
       io_calls := 3, io_pos := 3185\<rparr>)"
    "io_out (snd (doServerEncrypted hmac g (io_start (packet1 c1) tape))) =
      6 # packet1 (fst s1) @ packet2 (drawn_second hmac tape True c1Digest)"
proof -
  obtain s1p s1d where s1: "drawn_first hmac g tape True = (s1p, s1d)"
    by (cases "drawn_first hmac g tape True")
  then have sign: "sign hmac \<lparr>Time = 0, Version = encryptedVersion, Data = drawn tape 128 1528\<rparr> True
      (dh_public g (drawn tape 0 128)) (tape 1656 = 0) = (s1p, s1d)"
    by (simp add: drawn_first_def drawn_private_def)
  show "doServerEncrypted hmac g (io_start (packet1 c1 @ packet2 c2 @ rest) tape) =
    (Inr (session_keys hmac (dhComputeSharedSecret g (drawn_private tape) pub) (dh_public g (drawn_private tape)) pub),
     (io_start rest tape)\<lparr>io_out := 6 # packet1 (fst s1) @ packet2 (drawn_second hmac tape True c1Digest),
       io_calls := 3, io_pos := 3185\<rparr>)"
    if "length (c2_Data c2) = c1s1Size - 8" "C2S2_validate hmac c2 False (snd s1) = Inr ()"
    using c1 that unfolding s1_def s1
    by (simp add: doServerEncrypted_def run_defs sign C1S1_Read_packet1 C2S2_Read_packet2
        zero_c1s1_def zero_c2s2_def drawn_second_def drawn_private_def Let_def packet1_def [of s1p])
      (simp add: packet2_def)
  have "C2S2_Read io = (Inl EOF, io)" if "io_in io = []" for io
    using that by (simp add: C2S2_Read_def io_ReadFull_def read_full_def)
  then show "io_out (snd (doServerEncrypted hmac g (io_start (packet1 c1) tape))) =
      6 # packet1 (fst s1) @ packet2 (drawn_second hmac tape True c1Digest)"
    using c1 unfolding s1_def s1
    by (simp add: doServerEncrypted_def run_defs sign C1S1_Read_packet1 [where rest = "[]"]
        zero_c1s1_def zero_c2s2_def drawn_second_def drawn_private_def Let_def packet1_def [of s1p])
      (simp add: packet2_def)
qed

text \<open>The client has sent C0 and C1 before it waits for anything.\<close>

lemma client_encrypted_first:
  "io_out (snd (doClientEncrypted hmac g (io_start [] tape))) = 6 # packet1 (fst (drawn_first hmac g tape False))"
proof -
  obtain c1p c1d where c1: "drawn_first hmac g tape False = (c1p, c1d)"
    by (cases "drawn_first hmac g tape False")
  then have sign: "sign hmac \<lparr>Time = 0, Version = 0, Data = drawn tape 128 1528\<rparr> False
      (dh_public g (drawn tape 0 128)) (tape 1656 = 0) = (c1p, c1d)"
    by (simp add: drawn_first_def drawn_private_def)
  have "C0S0_Read io = (Inl EOF, io)" if "io_in io = []" for io
    using that by (simp add: C0S0_Read_def io_ReadFull_def read_full_def)
  then show ?thesis
    unfolding c1 by (simp add: doClientEncrypted_def run_defs sign zero_c1s1_def packet1_def)
qed

text \<open>What is needed of the random bytes of a side: its public key is valid, and no digest is in the first layout by accident.\<close>

definition tape_ok :: "hmac_fun \<Rightarrow> dh_group \<Rightarrow> (nat \<Rightarrow> byte) \<Rightarrow> bool \<Rightarrow> bool" where
  "tape_ok hmac g tape isS1 =
     (dhValidatePublicKey g (dh_public g (drawn_private tape)) = Inr () \<and>
      (tape 1656 = 0 \<or> \<not> first_layout_matches hmac (fst (drawn_first hmac g tape isS1)) isS1))"

definition group_ok :: "dh_group \<Rightarrow> bool" where
  "group_ok g = (0 < big_SetBytes (group_p g) \<and> length (group_p g) \<le> dhKeyLength)"

lemma drawn_first_valid:
  assumes "hmac_ok hmac" "group_ok g" "tape_ok hmac g tape isS1"
  shows "C1S1_validate hmac g (fst (drawn_first hmac g tape isS1)) isS1 =
      Inr (snd (drawn_first hmac g tape isS1), dh_public g (drawn_private tape))"
    "length (Data (fst (drawn_first hmac g tape isS1))) = c1s1Size - 8"
proof -
  let ?c = "\<lparr>Time = 0, Version = (if isS1 then encryptedVersion else 0), Data = drawn tape 128 1528\<rparr>"
  obtain c d where cd: "drawn_first hmac g tape isS1 = (c, d)"
    by (cases "drawn_first hmac g tape isS1")
  have len: "length (Data ?c) = c1s1Size - 8" "length (dh_public g (drawn_private tape)) = dhKeyLength"
    using assms(2) big_Exp_less [of g] by (simp_all add: group_ok_def dh_public_def)
  have first: "tape 1656 = 0 \<or> \<not> first_layout_matches hmac c isS1"
    using assms(3) cd by (simp add: tape_ok_def)
  note valid = validate_sign [OF assms(1) len cd [unfolded drawn_first_def] first]
  show "C1S1_validate hmac g (fst (drawn_first hmac g tape isS1)) isS1 =
      Inr (snd (drawn_first hmac g tape isS1), dh_public g (drawn_private tape))"
    using valid(1) assms(3) by (simp add: cd C1S1_validate_def tape_ok_def)
  show "length (Data (fst (drawn_first hmac g tape isS1))) = c1s1Size - 8"
    using valid(2) by (simp add: cd)
qed

lemma drawn_second_valid:
  assumes "hmac_ok hmac"
  shows "C2S2_validate hmac (drawn_second hmac tape isS2 prev) isS2 prev = Inr ()"
    "length (c2_Data (drawn_second hmac tape isS2 prev)) = c1s1Size - 8"
proof -
  let ?c = "\<lparr>c2_Time = 0, c2_Time2 = (if isS2 then encryptedVersion else 0), c2_Data = drawn tape 1657 1528\<rparr>"
  show "C2S2_validate hmac (drawn_second hmac tape isS2 prev) isS2 prev = Inr ()"
    using validate_C2S2 [OF assms, of ?c isS2 prev] by (simp add: drawn_second_def Let_def)
  have "length (C2S2_computeDigest hmac ?c isS2 prev) = digestLength"
    using assms by (simp add: C2S2_computeDigest_def hmac_ok_def)
  then show "length (c2_Data (drawn_second hmac tape isS2 prev)) = c1s1Size - 8"
    by (simp add: drawn_second_def Let_def)
qed


text \<open>A small group, and tapes that draw the private keys 1 and 2 in it.\<close>

definition sample_group :: dh_group where
  "sample_group = \<lparr>group_p = [23], group_q = [11]\<rparr>"

definition sample_tape :: "byte \<Rightarrow> nat \<Rightarrow> byte" where
  "sample_tape b n = (if n = 127 then b else 0)"

definition sample_hmac :: hmac_fun where
  "sample_hmac k m = replicate 32 (k ! 24)"

lemma sample_tape_ok:
  assumes "b = 1 \<or> b = 2"
  shows "tape_ok sample_hmac sample_group (sample_tape b) isS1"
proof -
  have "map (sample_tape b) [0..<127] = replicate 127 0"
    by (intro nth_equalityI) (simp_all add: sample_tape_def)
  then have "drawn_private (sample_tape b) = replicate 127 0 @ [b]"
    by (simp add: drawn_private_def drawn_def upt_Suc_append [of 0 127, simplified] sample_tape_def)
  then have "big_SetBytes (drawn_private (sample_tape b)) = unat b"
    using big_SetBytes_zeros [of 127 "[b]"] by (simp add: big_SetBytes_def)
  moreover have group: "big_SetBytes (group_p sample_group) = 23" "big_SetBytes (group_q sample_group) = 11"
    by (simp_all add: sample_group_def big_SetBytes_def)
  ultimately have "big_SetBytes (dh_public sample_group (drawn_private (sample_tape b))) = 2 ^ unat b"
    using assms by (auto simp: dh_public_def big_SetBytes_pad big_SetBytes_Bytes big_Exp_def)
  with assms group have "dhValidatePublicKey sample_group (dh_public sample_group (drawn_private (sample_tape b))) = Inr ()"
    by (intro generated_key_valid) (auto simp: big_Exp_def)
  then show ?thesis
    by (simp add: tape_ok_def sample_tape_def)
qed


section \<open>The plain handshake\<close>

lemma packet_data: "length d = c1s1Size - 8 \<Longrightarrow> packet2 \<lparr>c2_Time = 0, c2_Time2 = 0, c2_Data = d\<rparr> = packet 0 0 d"
  by (simp add: packet2_def)

definition plain_first :: "(nat \<Rightarrow> byte) \<Rightarrow> bytes" where
  "plain_first tape = 3 # packet 0 0 (drawn tape 0 1528)"

text \<open>Each side returns the data of the other, so both are content, strict or not.\<close>

lemma handshake_plain:
  "DoClient hmac g False strict (io_start (plain_first stape @ packet 0 0 (drawn ctape 0 1528) @ srest) ctape) =
    (Inr None, (io_start srest ctape)\<lparr>io_out := plain_first ctape @ packet 0 0 (drawn stape 0 1528), io_calls := 3, io_pos := 1528\<rparr>)"
  "DoServer hmac g strict' (io_start (plain_first ctape @ packet 0 0 (drawn stape 0 1528) @ crest) stape) =
    (Inr None, (io_start crest stape)\<lparr>io_out := plain_first stape @ packet 0 0 (drawn ctape 0 1528), io_calls := 3, io_pos := 1528\<rparr>)"
  by (simp_all add: DoClient_def DoServer_def doClientPlain_def doServerPlain_def run_defs plain_first_def
      C0S0_Read_byte C1S1_Read_packet C2S2_Read_packet zero_c1s1_def zero_c2s2_def fails_def)

end
