(* ===== verification/Rc4.thy ===== *)
theory Rc4
  imports Prelude
begin

text \<open>
  The stream cipher of an encrypted RTMP connection: Go's \<open>crypto/rc4\<close>, and the read-writer of
  internal/protocols/rtmp/rc4_readwriter.go, whose ciphers have skipped 1536 bytes.
\<close>

section \<open>The cipher\<close>

record rc4 =
  rc_i :: byte
  rc_j :: byte
  rc_s :: bytes

definition swap :: "nat \<Rightarrow> nat \<Rightarrow> bytes \<Rightarrow> bytes" where
  "swap i j s = s[i := s ! j, j := s ! i]"

fun schedule :: "bytes \<Rightarrow> nat list \<Rightarrow> byte \<Rightarrow> bytes \<Rightarrow> bytes" where
  "schedule key [] j s = s"
| "schedule key (i # is) j s =
     (let j' = j + s ! i + key ! (i mod length key) in schedule key is j' (swap i (unat j') s))"

definition rc4_NewCipher :: "bytes \<Rightarrow> rc4 result" where
  "rc4_NewCipher key =
     (if length key < 1 \<or> 256 < length key
      then Inl (Errorf ''crypto/rc4: invalid key size %d'' [int (length key)])
      else Inr \<lparr>rc_i = 0, rc_j = 0, rc_s = schedule key [0..<256] 0 (map word_of_nat [0..<256])\<rparr>)"

definition rc4_next :: "rc4 \<Rightarrow> byte \<times> rc4" where
  "rc4_next c =
     (let i = rc_i c + 1; x = rc_s c ! unat i; j = rc_j c + x; y = rc_s c ! unat j
      in ((rc_s c)[unat i := y, unat j := x] ! unat (x + y), \<lparr>rc_i = i, rc_j = j, rc_s = (rc_s c)[unat i := y, unat j := x]\<rparr>))"

fun XORKeyStream :: "rc4 \<Rightarrow> bytes \<Rightarrow> bytes \<times> rc4" where
  "XORKeyStream c [] = ([], c)"
| "XORKeyStream c (b # bs) =
     (case rc4_next c of (k, c') \<Rightarrow> case XORKeyStream c' bs of (out, c'') \<Rightarrow> ((b XOR k) # out, c''))"

section \<open>The read-writer\<close>

record rc4_readwriter =
  rw_in :: rc4
  rw_out :: rc4

definition newRC4ReadWriter :: "bytes \<Rightarrow> bytes \<Rightarrow> rc4_readwriter result" where
  "newRC4ReadWriter keyIn keyOut =
     bindE (rc4_NewCipher keyIn) (\<lambda>cin.
     bindE (rc4_NewCipher keyOut) (\<lambda>cout.
     Inr \<lparr>rw_in = snd (XORKeyStream cin (replicate 1536 0)), rw_out = snd (XORKeyStream cout (replicate 1536 0))\<rparr>))"

text \<open>What the read-writer makes of the next bytes that it reads, and of those that it is to write.\<close>

definition rc4_Read :: "bytes \<Rightarrow> rc4_readwriter \<Rightarrow> bytes \<times> rc4_readwriter" where
  "rc4_Read p r =
     (if p = [] then ([], r) else case XORKeyStream (rw_in r) p of (q, c) \<Rightarrow> (q, r\<lparr>rw_in := c\<rparr>))"

definition rc4_Write :: "bytes \<Rightarrow> rc4_readwriter \<Rightarrow> bytes \<times> rc4_readwriter" where
  "rc4_Write p r = (case XORKeyStream (rw_out r) p of (q, c) \<Rightarrow> (q, r\<lparr>rw_out := c\<rparr>))"

section \<open>Two ends of a connection\<close>

lemma XORKeyStream_append:
  "XORKeyStream c (xs @ ys) =
    (case XORKeyStream c xs of (o1, c1) \<Rightarrow> case XORKeyStream c1 ys of (o2, c2) \<Rightarrow> (o1 @ o2, c2))"
  by (induction xs arbitrary: c) (auto split: prod.split)

lemma XORKeyStream_twice: "XORKeyStream c (fst (XORKeyStream c xs)) = (xs, snd (XORKeyStream c xs))"
  by (induction xs arbitrary: c) (simp_all add: case_prod_unfold xor.assoc)

lemma XORKeyStream_length: "length (fst (XORKeyStream c xs)) = length xs"
  by (induction xs arbitrary: c) (simp_all add: case_prod_unfold)

text \<open>However the bytes are cut into writes at one end and into reads at the other, they arrive as they were.\<close>

fun rc4_write_all :: "bytes list \<Rightarrow> rc4_readwriter \<Rightarrow> bytes" where
  "rc4_write_all [] r = []"
| "rc4_write_all (p # ps) r = (case rc4_Write p r of (q, r') \<Rightarrow> q @ rc4_write_all ps r')"

fun rc4_read_all :: "bytes list \<Rightarrow> rc4_readwriter \<Rightarrow> bytes" where
  "rc4_read_all [] r = []"
| "rc4_read_all (p # ps) r = (case rc4_Read p r of (q, r') \<Rightarrow> q @ rc4_read_all ps r')"

lemma rc4_write_all_eq: "rc4_write_all ps r = fst (XORKeyStream (rw_out r) (concat ps))"
  by (induction ps arbitrary: r) (auto simp: rc4_Write_def XORKeyStream_append split: prod.split)

lemma rc4_read_all_eq: "rc4_read_all ps r = fst (XORKeyStream (rw_in r) (concat ps))"
  by (induction ps arbitrary: r) (auto simp: rc4_Read_def XORKeyStream_append split: prod.split)

lemma rc4_transport:
  assumes "newRC4ReadWriter kin kout = Inr a" "newRC4ReadWriter kout kin = Inr b"
    "concat reads = rc4_write_all writes a"
  shows "rc4_read_all reads b = concat writes"
proof -
  have "rw_in b = rw_out a"
    using assms(1,2) by (auto simp: newRC4ReadWriter_def bindE_eq_Inr)
  then show ?thesis
    using XORKeyStream_twice [of "rw_out a" "concat writes"] by (simp add: rc4_read_all_eq assms(3) rc4_write_all_eq)
qed

lemma newRC4ReadWriter_keys:
  "\<exists>r. newRC4ReadWriter kin kout = Inr r" if "0 < length kin" "length kin \<le> 256" "0 < length kout" "length kout \<le> 256"
  using that by (simp add: newRC4ReadWriter_def rc4_NewCipher_def)

end
