(* ===== verification/GoString.thy ===== *)
theory GoString
  imports Prelude
begin

text \<open>
  The functions of Go's packages \<open>strings\<close> and \<open>strconv\<close> that the core of the server calls, on strings as
  lists of bytes, with the facts that the components share.
\<close>

definition HasPrefix :: "string \<Rightarrow> string \<Rightarrow> bool" where
  "HasPrefix s p = (take (length p) s = p)"

fun Contains :: "string \<Rightarrow> string \<Rightarrow> bool" where
  "Contains [] p = (p = [])"
| "Contains (c # s) p = (HasPrefix (c # s) p \<or> Contains s p)"

text \<open>\<open>strings.Split\<close> with a separator of one byte: at least one part, and one more than there are separators.\<close>

fun Split :: "string \<Rightarrow> char \<Rightarrow> string list" where
  "Split [] sep = [[]]"
| "Split (c # s) sep =
     (if c = sep then [] # Split s sep
      else case Split s sep of p # ps \<Rightarrow> (c # p) # ps | [] \<Rightarrow> [[c]])"

text \<open>\<open>strings.ReplaceAll\<close>, from left to right and without overlaps, for a pattern that is not empty.\<close>

function ReplaceAll :: "string \<Rightarrow> string \<Rightarrow> string \<Rightarrow> string" where
  "ReplaceAll [] old new = []"
| "ReplaceAll (c # s) old new =
     (if old \<noteq> [] \<and> HasPrefix (c # s) old then new @ ReplaceAll (drop (length old) (c # s)) old new
      else c # ReplaceAll s old new)"
  by pat_completeness auto
termination
  by (relation "measure (\<lambda>(s, _, _). length s)") auto

text \<open>\<open>strconv.FormatInt\<close> in base ten, for a number that is not negative.\<close>

definition digit :: "nat \<Rightarrow> char" where
  "digit d = char_of (48 + d)"

fun FormatInt :: "nat \<Rightarrow> string" where
  "FormatInt n = (if n < 10 then [digit n] else FormatInt (n div 10) @ [digit (n mod 10)])"

declare FormatInt.simps [simp del]

definition slash :: char where
  "slash = CHR ''/''"

text \<open>The verb \<open>'%s'\<close> of a format: the string between single quotes.\<close>

definition quoted :: "string \<Rightarrow> string" where
  "quoted s = CHR 0x27 # s @ [CHR 0x27]"

lemma HasPrefix_Nil [simp]: "HasPrefix s []"
  by (simp add: HasPrefix_def)

lemma HasPrefix_Cons [simp]:
  "HasPrefix [] (p # ps) = False"
  "HasPrefix (c # s) (p # ps) = (c = p \<and> HasPrefix s ps)"
  by (auto simp: HasPrefix_def)

lemma HasPrefix_append [simp]: "HasPrefix (p @ s) p"
  by (simp add: HasPrefix_def)

lemma HasPrefix_split: "HasPrefix s p \<longleftrightarrow> (\<exists>t. s = p @ t)"
  by (metis HasPrefix_append HasPrefix_def append_take_drop_id)

lemma Split_nonempty [simp]: "Split s sep \<noteq> []"
  by (cases s) (auto split: list.splits)

lemma Split_length: "length (Split s sep) = Suc (count_list s sep)"
  by (induction s) (auto split: list.splits)

lemma Split_no_sep: "sep \<notin> set s \<Longrightarrow> Split s sep = [s]"
  by (induction s) auto

lemma Split_append: "sep \<notin> set a \<Longrightarrow> Split (a @ sep # s) sep = a # Split s sep"
  by (induction a) auto

lemma Split_tail_empty: "tl (Split s sep) = [] \<longleftrightarrow> sep \<notin> set s"
  using Split_length [of s sep] by (cases "Split s sep") (auto simp: count_list_0_iff)

lemma ReplaceAll_absent: "\<not> Contains s old \<Longrightarrow> ReplaceAll s old new = s"
  by (induction s) auto

lemma ReplaceAll_head:
  assumes "old \<noteq> []"
  shows "ReplaceAll (old @ s) old new = new @ ReplaceAll s old new"
  using assms by (cases "old") (auto simp: HasPrefix_def)

end
