(* ===== verification/GoUrl.thy ===== *)
theory GoUrl
  imports GoString "HOL-Library.AList" "HOL-Library.List_Lexorder" "HOL-Library.Char_ord"
begin

text \<open>
  The queries of Go's package \<open>net/url\<close>: escaping, \<open>ParseQuery\<close> and \<open>Values.Encode\<close>, with the fact that parsing
  what was encoded gives the values back.

  Values are an association list from keys to the values of the key, in the order in which they were added.
\<close>

type_synonym url_values = "(string \<times> string list) list"

section \<open>Escaping\<close>

definition unreserved :: "char \<Rightarrow> bool" where
  "unreserved c =
     (let n = of_char c :: nat in
      (97 \<le> n \<and> n \<le> 122) \<or> (65 \<le> n \<and> n \<le> 90) \<or> (48 \<le> n \<and> n \<le> 57) \<or> c \<in> set ''-_.~'')"

definition upperhex :: "nat \<Rightarrow> char" where
  "upperhex n = (if n < 10 then char_of (48 + n) else char_of (55 + n))"

definition unhex :: "char \<Rightarrow> nat option" where
  "unhex c =
     (let n = of_char c :: nat in
      if 48 \<le> n \<and> n \<le> 57 then Some (n - 48)
      else if 97 \<le> n \<and> n \<le> 102 then Some (n - 87)
      else if 65 \<le> n \<and> n \<le> 70 then Some (n - 55)
      else None)"

definition escape_char :: "char \<Rightarrow> string" where
  "escape_char c =
     (if unreserved c then [c]
      else if c = CHR '' '' then ''+''
      else CHR ''%'' # upperhex (of_char c div 16) # [upperhex (of_char c mod 16)])"

definition QueryEscape :: "string \<Rightarrow> string" where
  "QueryEscape s = concat (map escape_char s)"

definition invalid_escape :: "string \<Rightarrow> go_error" where
  "invalid_escape s = Errorf (''invalid URL escape '' @ take 3 s) []"

function QueryUnescape :: "string \<Rightarrow> string result" where
  "QueryUnescape [] = Inr []"
| "QueryUnescape (c # s) =
     (if c = CHR ''%'' then
        (case s of
           a # b # r \<Rightarrow>
             (case (unhex a, unhex b) of
                (Some h, Some l) \<Rightarrow> map_sum id ((#) (char_of (h * 16 + l))) (QueryUnescape r)
              | _ \<Rightarrow> Inl (invalid_escape (c # s)))
         | _ \<Rightarrow> Inl (invalid_escape (c # s)))
      else map_sum id ((#) (if c = CHR ''+'' then CHR '' '' else c)) (QueryUnescape s))"
  by pat_completeness auto
termination
  by (relation "measure length") auto

section \<open>Queries\<close>

text \<open>\<open>strings.Cut\<close> at a separator of one byte.\<close>

fun Cut :: "string \<Rightarrow> char \<Rightarrow> string \<times> string" where
  "Cut [] sep = ([], [])"
| "Cut (c # s) sep = (if c = sep then ([], s) else (case Cut s sep of (a, b) \<Rightarrow> (c # a, b)))"

definition values_of :: "url_values \<Rightarrow> string \<Rightarrow> string list" where
  "values_of v k = (case map_of v k of None \<Rightarrow> [] | Some xs \<Rightarrow> xs)"

definition values_add :: "string \<Rightarrow> string \<Rightarrow> url_values \<Rightarrow> url_values" where
  "values_add k x v = AList.update k (values_of v k @ [x]) v"

definition values_get :: "url_values \<Rightarrow> string \<Rightarrow> string" where
  "values_get v k = (case values_of v k of [] \<Rightarrow> [] | x # _ \<Rightarrow> x)"

definition values_set :: "string \<Rightarrow> string \<Rightarrow> url_values \<Rightarrow> url_values" where
  "values_set k x v = AList.update k [x] v"

text \<open>\<open>ParseQuery\<close> goes on after an error, and returns the first error with all the values that it could read.\<close>

definition parse_part :: "string \<Rightarrow> url_values \<times> go_error option \<Rightarrow> url_values \<times> go_error option" where
  "parse_part part st =
     (let (v, err) = st; fail = (\<lambda>e. (v, case err of None \<Rightarrow> Some e | Some _ \<Rightarrow> err)) in
      if Contains part '';'' then (v, Some (Errorf ''invalid semicolon separator in query'' []))
      else if part = [] then st
      else
        (let (k, x) = Cut part CHR ''='' in
         case QueryUnescape k of
           Inl e \<Rightarrow> fail e
         | Inr k' \<Rightarrow>
             (case QueryUnescape x of
                Inl e \<Rightarrow> fail e
              | Inr x' \<Rightarrow> (values_add k' x' v, err))))"

definition ParseQuery :: "string \<Rightarrow> url_values \<times> go_error option" where
  "ParseQuery q = (if q = [] then ([], None) else fold parse_part (Split q CHR ''&'') ([], None))"

text \<open>\<open>Values.Encode\<close>: the keys in ascending order, and all the values of each.\<close>

definition encode_pairs :: "url_values \<Rightarrow> (string \<times> string) list" where
  "encode_pairs v = concat (map (\<lambda>k. map (Pair k) (values_of v k)) (sort (remdups (map fst v))))"

definition encode_pair :: "string \<times> string \<Rightarrow> string" where
  "encode_pair kx = QueryEscape (fst kx) @ CHR ''='' # QueryEscape (snd kx)"

fun join_parts :: "string list \<Rightarrow> string" where
  "join_parts [] = []"
| "join_parts [p] = p"
| "join_parts (p # q # ps) = p @ CHR ''&'' # join_parts (q # ps)"

definition Values_Encode :: "url_values \<Rightarrow> string" where
  "Values_Encode v = join_parts (map encode_pair (encode_pairs v))"


section \<open>Parsing what was encoded\<close>

lemma unhex_upperhex: "n < 16 \<Longrightarrow> unhex (upperhex n) = Some n"
  by (auto simp: unhex_def upperhex_def Let_def)

lemma hex_digits: "of_char (c :: char) div 16 < (16::nat)" "of_char (c :: char) mod 16 < (16::nat)"
  using of_char_less_256 [of c] by (simp_all add: less_mult_imp_div_less)

lemma QueryUnescape_escape: "QueryUnescape (escape_char c @ s) = map_sum id ((#) c) (QueryUnescape s)"
proof (cases "unreserved c \<or> c = CHR '' ''")
  case True
  then have "c \<noteq> CHR ''%''" "c \<noteq> CHR ''+''"
    by (auto simp: unreserved_def)
  with True show ?thesis
    by (auto simp: escape_char_def unreserved_def)
next
  case False
  have "char_of (of_char c div 16 * 16 + of_char c mod 16 :: nat) = c"
    by (simp only: div_mult_mod_eq char_of_char)
  with False show ?thesis
    by (simp add: escape_char_def unhex_upperhex hex_digits)
qed

lemma QueryUnescape_QueryEscape: "QueryUnescape (QueryEscape s) = Inr s"
  by (induction s) (simp_all add: QueryEscape_def QueryUnescape_escape)

definition query_char :: "char \<Rightarrow> bool" where
  "query_char c = (unreserved c \<or> c = CHR ''+'' \<or> c = CHR ''%'')"

lemma upperhex_unreserved: "n < 16 \<Longrightarrow> unreserved (upperhex n)"
  by (auto simp: unreserved_def upperhex_def Let_def)

lemma escape_chars: "c \<in> set (QueryEscape s) \<Longrightarrow> query_char c"
proof -
  have "query_char c" if "c \<in> set (escape_char d)" for d
    using that upperhex_unreserved [OF hex_digits(1), of d] upperhex_unreserved [OF hex_digits(2), of d]
    by (auto simp: escape_char_def query_char_def split: if_splits)
  then show "c \<in> set (QueryEscape s) \<Longrightarrow> query_char c"
    by (auto simp: QueryEscape_def)
qed

lemma escape_not: "\<not> query_char c \<Longrightarrow> c \<notin> set (QueryEscape s)"
  using escape_chars by blast

lemma separators: "\<not> query_char CHR ''&''" "\<not> query_char CHR ''=''" "\<not> query_char CHR '';''"
  by (simp_all add: query_char_def unreserved_def)

lemma Cut_at: "sep \<notin> set a \<Longrightarrow> Cut (a @ sep # b) sep = (a, b)"
  by (induction a) auto

lemma Contains_char: "Contains s [c] \<longleftrightarrow> c \<in> set s"
  by (induction s) auto

lemma parse_part_pair: "parse_part (encode_pair (k, x)) (v, err) = (values_add k x v, err)"
proof -
  have "CHR '';'' \<notin> set (encode_pair (k, x))"
    by (simp add: encode_pair_def escape_not separators)
  moreover have "Cut (encode_pair (k, x)) CHR ''='' = (QueryEscape k, QueryEscape x)"
    by (simp add: encode_pair_def Cut_at escape_not separators)
  ultimately show ?thesis
    by (simp add: parse_part_def Let_def Contains_char QueryUnescape_QueryEscape encode_pair_def)
qed

lemma Split_join:
  assumes "ps \<noteq> []" "\<forall>p \<in> set ps. CHR ''&'' \<notin> set p"
  shows "Split (join_parts ps) CHR ''&'' = ps"
  using assms by (induction ps rule: join_parts.induct) (simp_all add: Split_no_sep Split_append)

lemma fold_parse_pairs:
  "fold parse_part (map encode_pair kxs) (v, err) = (fold (\<lambda>(k, x). values_add k x) kxs v, err)"
  by (induction kxs arbitrary: v) (auto simp: parse_part_pair)

lemma ParseQuery_join:
  "ParseQuery (join_parts (map encode_pair kxs)) = (fold (\<lambda>(k, x). values_add k x) kxs [], None)"
proof (cases kxs)
  case (Cons kx rest)
  have "join_parts (map encode_pair kxs) \<noteq> []"
    using Cons by (cases rest) (auto simp: encode_pair_def)
  moreover have "Split (join_parts (map encode_pair kxs)) CHR ''&'' = map encode_pair kxs"
    using Cons by (intro Split_join) (auto simp: encode_pair_def escape_not separators)
  ultimately show ?thesis
    by (simp add: ParseQuery_def fold_parse_pairs)
qed (simp add: ParseQuery_def)

lemma values_of_add: "values_of (values_add k x v) k' = (if k' = k then values_of v k @ [x] else values_of v k')"
  by (simp add: values_add_def values_of_def update_conv')

lemma values_of_fold:
  "values_of (fold (\<lambda>(k, x). values_add k x) kxs v) k = values_of v k @ map snd (filter (\<lambda>kx. fst kx = k) kxs)"
  by (induction kxs arbitrary: v) (auto simp: values_of_add)

lemma filter_pairs:
  "distinct ks \<Longrightarrow> map snd (filter (\<lambda>kx. fst kx = k) (concat (map (\<lambda>k. map (Pair k) (f k)) ks))) = (if k \<in> set ks then f k else [])"
proof (induction ks)
  case (Cons a ks)
  then show ?case
    by (cases "a = k") (auto simp: filter_map comp_def)
qed simp

lemma Encode_values: "values_of (fst (ParseQuery (Values_Encode v))) k = values_of v k"
proof -
  have "values_of v k = []" if "k \<notin> fst ` set v"
  proof -
    have "map_of v k = None"
      using that by (simp add: map_of_eq_None_iff)
    then show ?thesis by (simp add: values_of_def)
  qed
  moreover have "values_of [] k = []"
    by (simp add: values_of_def)
  ultimately show ?thesis
    by (auto simp: Values_Encode_def ParseQuery_join values_of_fold encode_pairs_def filter_pairs)
qed

lemma Encode_no_error: "snd (ParseQuery (Values_Encode v)) = None"
  by (simp add: Values_Encode_def ParseQuery_join)

end
