(* ===== verification/GoUrlParse.thy ===== *)
theory GoUrlParse
  imports GoUrl
begin

text \<open>
  The type \<open>URL\<close> of Go's package \<open>net/url\<close>: escaping by part, \<open>Parse\<close>, \<open>ParseRequestURI\<close>, \<open>RequestURI\<close> and
  \<open>String\<close>, with the fact that the strings made of a URL are parsed back. The error values are those of the
  functions that detect them, without the wrapper that adds the URL to the text.
\<close>

section \<open>Escaping by part of the URL\<close>

datatype url_part = PathPart | HostPart | ZonePart | UserPart | FragmentPart

definition alphanum :: "char \<Rightarrow> bool" where
  "alphanum c =
     (let n = of_char c :: nat in (97 \<le> n \<and> n \<le> 122) \<or> (65 \<le> n \<and> n \<le> 90) \<or> (48 \<le> n \<and> n \<le> 57))"

definition quote :: char where
  "quote = CHR 0x27"

definition shouldEscape :: "url_part \<Rightarrow> char \<Rightarrow> bool" where
  "shouldEscape part c =
     (if alphanum c then False
      else if part \<in> {HostPart, ZonePart} \<and> (c = quote \<or> c \<in> set ''!$&()*+,;=:[]<>\"'') then False
      else if c \<in> set ''-_.~'' then False
      else if c \<in> set ''$&+,/:;=?@'' \<and> part = PathPart then c = CHR ''?''
      else if c \<in> set ''$&+,/:;=?@'' \<and> part = UserPart then c \<in> set ''@/?:''
      else if c \<in> set ''$&+,/:;=?@'' \<and> part = FragmentPart then False
      else if part = FragmentPart \<and> c \<in> set ''!()*'' then False
      else True)"

definition url_escape_char :: "url_part \<Rightarrow> char \<Rightarrow> string" where
  "url_escape_char part c =
     (if shouldEscape part c then CHR ''%'' # upperhex (of_char c div 16) # [upperhex (of_char c mod 16)] else [c])"

definition url_escape :: "url_part \<Rightarrow> string \<Rightarrow> string" where
  "url_escape part s = concat (map (url_escape_char part) s)"

definition invalid_host :: "char \<Rightarrow> go_error" where
  "invalid_host c = Errorf (''invalid character '' @ [c] @ '' in host name'') []"

text \<open>The check of an escape sequence with digits \<open>h\<close> and \<open>l\<close> in the host, where only some are accepted.\<close>

definition escape_accepted :: "url_part \<Rightarrow> nat \<Rightarrow> nat \<Rightarrow> bool" where
  "escape_accepted part h l \<longleftrightarrow>
     h * 16 + l = 37 \<or>
     (case part of
        HostPart \<Rightarrow> 8 \<le> h
      | ZonePart \<Rightarrow> h * 16 + l = 32 \<or> \<not> shouldEscape HostPart (char_of (h * 16 + l))
      | _ \<Rightarrow> True)"

function url_unescape :: "url_part \<Rightarrow> string \<Rightarrow> string result" where
  "url_unescape part [] = Inr []"
| "url_unescape part (c # s) =
     (if c = CHR ''%'' then
        (case s of
           a # b # r \<Rightarrow>
             (case (unhex a, unhex b) of
                (Some h, Some l) \<Rightarrow>
                  if escape_accepted part h l then map_sum id ((#) (char_of (h * 16 + l))) (url_unescape part r)
                  else Inl (invalid_escape (c # s))
              | _ \<Rightarrow> Inl (invalid_escape (c # s)))
         | _ \<Rightarrow> Inl (invalid_escape (c # s)))
      else if part \<in> {HostPart, ZonePart} \<and> (of_char c :: nat) < 128 \<and> shouldEscape part c then Inl (invalid_host c)
      else map_sum id ((#) c) (url_unescape part s))"
  by pat_completeness auto
termination
  by (relation "measure (\<lambda>(_, s). length s)") auto

definition validEncoded :: "url_part \<Rightarrow> string \<Rightarrow> bool" where
  "validEncoded part s = (\<forall>c \<in> set s. c = quote \<or> c \<in> set ''!$&()*+,;=:@[]%'' \<or> \<not> shouldEscape part c)"

section \<open>URLs\<close>

record url =
  u_Scheme :: string
  u_Opaque :: string
  u_User :: "(string \<times> string option) option"
  u_Host :: string
  u_Path :: string
  u_RawPath :: string
  u_OmitHost :: bool
  u_ForceQuery :: bool
  u_RawQuery :: string
  u_Fragment :: string
  u_RawFragment :: string

definition empty_url :: url where
  "empty_url =
     \<lparr>u_Scheme = [], u_Opaque = [], u_User = None, u_Host = [], u_Path = [], u_RawPath = [], u_OmitHost = False,
      u_ForceQuery = False, u_RawQuery = [], u_Fragment = [], u_RawFragment = []\<rparr>"

definition escaped :: "url_part \<Rightarrow> string \<Rightarrow> string \<Rightarrow> string" where
  "escaped part raw s =
     (if raw \<noteq> [] \<and> validEncoded part raw \<and> url_unescape part raw = Inr s then raw
      else if part = PathPart \<and> s = ''*'' then ''*''
      else url_escape part s)"

definition EscapedPath :: "url \<Rightarrow> string" where
  "EscapedPath u = escaped PathPart (u_RawPath u) (u_Path u)"

definition EscapedFragment :: "url \<Rightarrow> string" where
  "EscapedFragment u = escaped FragmentPart (u_RawFragment u) (u_Fragment u)"

definition query_suffix :: "url \<Rightarrow> string" where
  "query_suffix u = (if u_ForceQuery u \<or> u_RawQuery u \<noteq> [] then CHR ''?'' # u_RawQuery u else [])"

definition RequestURI :: "url \<Rightarrow> string" where
  "RequestURI u =
     (if u_Opaque u = [] then (if EscapedPath u = [] then ''/'' else EscapedPath u)
      else if HasPrefix (u_Opaque u) ''//'' then u_Scheme u @ '':'' @ u_Opaque u
      else u_Opaque u) @ query_suffix u"

definition user_string :: "string \<times> string option \<Rightarrow> string" where
  "user_string user =
     url_escape UserPart (fst user) @ (case snd user of None \<Rightarrow> [] | Some p \<Rightarrow> CHR '':'' # url_escape UserPart p)"

definition authority_string :: "url \<Rightarrow> string" where
  "authority_string u =
     (if u_Scheme u = [] \<and> u_Host u = [] \<and> u_User u = None then []
      else if u_OmitHost u \<and> u_Host u = [] \<and> u_User u = None then []
      else (if u_Host u \<noteq> [] \<or> u_Path u \<noteq> [] \<or> u_User u \<noteq> None then ''//'' else []) @
           (case u_User u of None \<Rightarrow> [] | Some user \<Rightarrow> user_string user @ ''@'') @
           url_escape HostPart (u_Host u))"

definition url_String :: "url \<Rightarrow> string" where
  "url_String u =
     (let scheme = (if u_Scheme u = [] then [] else u_Scheme u @ '':'') in
      scheme @
      (if u_Opaque u \<noteq> [] then u_Opaque u
       else
         (let auth = authority_string u; path = EscapedPath u;
              sep = (if path \<noteq> [] \<and> hd path \<noteq> slash \<and> u_Host u \<noteq> [] then [slash] else []) in
          auth @ sep @
          (if scheme @ auth @ sep = [] \<and> CHR '':'' \<in> set (fst (Cut path slash)) then ''./'' else []) @ path)) @
      query_suffix u @
      (if u_Fragment u = [] then [] else CHR ''#'' # EscapedFragment u))"

section \<open>Parsing\<close>

definition ctl :: "char \<Rightarrow> bool" where
  "ctl c = ((of_char c :: nat) < 32 \<or> (of_char c :: nat) = 127)"

definition letter :: "char \<Rightarrow> bool" where
  "letter c = (let n = of_char c :: nat in (97 \<le> n \<and> n \<le> 122) \<or> (65 \<le> n \<and> n \<le> 90))"

definition is_digit :: "char \<Rightarrow> bool" where
  "is_digit c = (let n = of_char c :: nat in 48 \<le> n \<and> n \<le> 57)"

definition lower :: "char \<Rightarrow> char" where
  "lower c = (let n = of_char c :: nat in if 65 \<le> n \<and> n \<le> 90 then char_of (n + 32) else c)"

text \<open>\<open>getScheme\<close>, at a character that is not the first when \<open>seen\<close> is not empty.\<close>

fun scheme_from :: "string \<Rightarrow> string \<Rightarrow> string \<Rightarrow> (string \<times> string) result" where
  "scheme_from raw seen [] = Inr ([], raw)"
| "scheme_from raw seen (c # s) =
     (if letter c then scheme_from raw (seen @ [c]) s
      else if is_digit c \<or> c \<in> set ''+-.'' then
        (if seen = [] then Inr ([], raw) else scheme_from raw (seen @ [c]) s)
      else if c = CHR '':'' then
        (if seen = [] then Inl (Errorf ''missing protocol scheme'' []) else Inr (seen, s))
      else Inr ([], raw))"

definition getScheme :: "string \<Rightarrow> (string \<times> string) result" where
  "getScheme raw = scheme_from raw [] raw"

text \<open>What is before and after the last occurrence of a byte.\<close>

fun CutLast :: "string \<Rightarrow> char \<Rightarrow> (string \<times> string) option" where
  "CutLast [] sep = None"
| "CutLast (c # s) sep =
     (case CutLast s sep of
        Some (a, b) \<Rightarrow> Some (c # a, b)
      | None \<Rightarrow> if c = sep then Some ([], s) else None)"

fun IndexOf :: "string \<Rightarrow> string \<Rightarrow> nat option" where
  "IndexOf [] p = (if p = [] then Some 0 else None)"
| "IndexOf (c # s) p = (if HasPrefix (c # s) p then Some 0 else map_option Suc (IndexOf s p))"

definition validOptionalPort :: "string \<Rightarrow> bool" where
  "validOptionalPort port = (port = [] \<or> hd port = CHR '':'' \<and> list_all is_digit (tl port))"

definition invalid_port :: "string \<Rightarrow> go_error" where
  "invalid_port port = Errorf (''invalid port '' @ port @ '' after host'') []"

definition parseHost :: "string \<Rightarrow> string result" where
  "parseHost host =
     (if HasPrefix host ''['' then
        (case CutLast host CHR '']'' of
           None \<Rightarrow> Inl (Errorf ''missing ']' in host'' [])
         | Some (inside, colonPort) \<Rightarrow>
             if \<not> validOptionalPort colonPort then Inl (invalid_port colonPort)
             else (case IndexOf inside ''%25'' of
                     Some zone \<Rightarrow>
                       bindE (url_unescape HostPart (take zone inside)) (\<lambda>host1.
                       bindE (url_unescape ZonePart (drop zone inside)) (\<lambda>host2.
                       bindE (url_unescape HostPart (CHR '']'' # colonPort)) (\<lambda>host3.
                       Inr (host1 @ host2 @ host3))))
                   | None \<Rightarrow> url_unescape HostPart host))
      else
        (case CutLast host CHR '':'' of
           Some (_, port) \<Rightarrow>
             if \<not> validOptionalPort (CHR '':'' # port) then Inl (invalid_port (CHR '':'' # port))
             else url_unescape HostPart host
         | None \<Rightarrow> url_unescape HostPart host))"

definition validUserinfo :: "string \<Rightarrow> bool" where
  "validUserinfo s = (\<forall>c \<in> set s. alphanum c \<or> c = quote \<or> c \<in> set ''-._:~!$&()*+,;=%@'')"

definition parse_user :: "string \<Rightarrow> (string \<times> string option) result" where
  "parse_user info =
     (if \<not> validUserinfo info then Inl (Errorf ''net/url: invalid userinfo'' [])
      else if CHR '':'' \<notin> set info then map_sum id (\<lambda>n. (n, None)) (url_unescape UserPart info)
      else
        (let (name, pass) = Cut info CHR '':'' in
         bindE (url_unescape UserPart name) (\<lambda>n. bindE (url_unescape UserPart pass) (\<lambda>p. Inr (n, Some p)))))"

definition parseAuthority :: "string \<Rightarrow> ((string \<times> string option) option \<times> string) result" where
  "parseAuthority authority =
     (case CutLast authority CHR ''@'' of
        None \<Rightarrow> map_sum id (Pair None) (parseHost authority)
      | Some (info, host) \<Rightarrow>
          bindE (parseHost host) (\<lambda>h. bindE (parse_user info) (\<lambda>user. Inr (Some user, h))))"

definition setPath :: "string \<Rightarrow> url \<Rightarrow> url result" where
  "setPath p u =
     bindE (url_unescape PathPart p) (\<lambda>path.
       Inr (u\<lparr>u_Path := path, u_RawPath := (if p = url_escape PathPart path then [] else p)\<rparr>))"

definition setFragment :: "string \<Rightarrow> url \<Rightarrow> url result" where
  "setFragment f u =
     bindE (url_unescape FragmentPart f) (\<lambda>frag.
       Inr (u\<lparr>u_Fragment := frag, u_RawFragment := (if f = url_escape FragmentPart frag then [] else f)\<rparr>))"

text \<open>The part of \<open>parse\<close> that takes the query off.\<close>

definition parse_query_part :: "string \<Rightarrow> url \<Rightarrow> string \<times> url" where
  "parse_query_part rest u =
     (if rest \<noteq> [] \<and> last rest = CHR ''?'' \<and> count_list rest CHR ''?'' = 1
      then (butlast rest, u\<lparr>u_ForceQuery := True\<rparr>)
      else (case Cut rest CHR ''?'' of (path, q) \<Rightarrow> (path, u\<lparr>u_RawQuery := q\<rparr>)))"

definition parse_hier :: "bool \<Rightarrow> string \<Rightarrow> url \<Rightarrow> url result" where
  "parse_hier viaRequest rest u =
     (if (u_Scheme u \<noteq> [] \<or> \<not> viaRequest \<and> \<not> HasPrefix rest ''///'') \<and> HasPrefix rest ''//'' then
        (let authority = takeWhile (\<lambda>c. c \<noteq> slash) (drop 2 rest);
             path = dropWhile (\<lambda>c. c \<noteq> slash) (drop 2 rest) in
         bindE (parseAuthority authority) (\<lambda>(user, host). setPath path (u\<lparr>u_User := user, u_Host := host\<rparr>)))
      else if u_Scheme u \<noteq> [] \<and> HasPrefix rest ''/'' then setPath rest (u\<lparr>u_OmitHost := True\<rparr>)
      else setPath rest u)"

definition url_parse :: "string \<Rightarrow> bool \<Rightarrow> url result" where
  "url_parse raw viaRequest =
     (if \<exists>c \<in> set raw. ctl c then Inl (Errorf ''net/url: invalid control character in URL'' [])
      else if raw = [] \<and> viaRequest then Inl (Errorf ''empty url'' [])
      else if raw = ''*'' then Inr (empty_url\<lparr>u_Path := ''*''\<rparr>)
      else bindE (getScheme raw) (\<lambda>(scheme, rest).
        let (rest, u) = parse_query_part rest (empty_url\<lparr>u_Scheme := map lower scheme\<rparr>) in
        if \<not> HasPrefix rest ''/'' \<and> scheme \<noteq> [] then Inr (u\<lparr>u_Opaque := rest\<rparr>)
        else if \<not> HasPrefix rest ''/'' \<and> viaRequest then Inl (Errorf ''invalid URI for request'' [])
        else if \<not> HasPrefix rest ''/'' \<and> CHR '':'' \<in> set (fst (Cut rest slash))
        then Inl (Errorf ''first path segment in URL cannot contain colon'' [])
        else parse_hier viaRequest rest u))"

definition ParseRequestURI :: "string \<Rightarrow> url result" where
  "ParseRequestURI raw = url_parse raw True"

definition url_Parse :: "string \<Rightarrow> url result" where
  "url_Parse raw =
     (case Cut raw CHR ''#'' of (s, frag) \<Rightarrow>
        bindE (url_parse s False) (\<lambda>u. if frag = [] then Inr u else setFragment frag u))"

section \<open>What is escaped is unescaped\<close>

lemma hex_pair: "char_of (of_char c div 16 * 16 + of_char c mod 16 :: nat) = c"
  by (simp only: div_mult_mod_eq char_of_char)

lemma url_unescape_escape_char:
  assumes "part \<notin> {HostPart, ZonePart}"
  shows "url_unescape part (url_escape_char part c @ s) = map_sum id ((#) c) (url_unescape part s)"
proof (cases "shouldEscape part c")
  case True
  moreover have "escape_accepted part h l" for h l
    using assms by (cases part) (simp_all add: escape_accepted_def)
  ultimately show ?thesis
    by (simp add: url_escape_char_def unhex_upperhex hex_digits hex_pair)
next
  case False
  have "shouldEscape part CHR ''%''"
    by (cases part) (simp_all add: shouldEscape_def alphanum_def quote_def)
  with False have "c \<noteq> CHR ''%''" by auto
  with False assms show ?thesis
    by (simp add: url_escape_char_def)
qed

lemma url_unescape_escape: "part \<notin> {HostPart, ZonePart} \<Longrightarrow> url_unescape part (url_escape part s) = Inr s"
  by (induction s) (simp_all add: url_escape_def url_unescape_escape_char)

lemma escape_unreserved: "list_all unreserved s \<Longrightarrow> url_escape HostPart s = s"
  by (induction s) (auto simp: url_escape_def url_escape_char_def shouldEscape_def alphanum_def unreserved_def Let_def)

text \<open>A prefix that ends before a slash is as good as the whole.\<close>

lemma unhex_slash [simp]: "unhex slash = None"
  by (simp add: unhex_def slash_def)

lemma url_unescape_prefix:
  assumes "part \<notin> {HostPart, ZonePart}" "url_unescape part (x @ slash # y) = Inr z"
  shows "\<exists>z. url_unescape part x = Inr z"
  using assms(2)
proof (induction part x arbitrary: z rule: url_unescape.induct)
  case (2 part c s)
  show ?case
  proof (cases "c = CHR ''%''")
    case True
    with 2(3) obtain a b r h l where s: "s = a # b # r" "unhex a = Some h" "unhex b = Some l" "escape_accepted part h l"
      by (cases s; cases "tl s") (auto split: list.splits option.splits if_splits)
    with 2(3) True obtain z' where "url_unescape part (r @ slash # y) = Inr z'"
      by (auto simp: map_result_simps)
    with 2(1) [OF True s(1) refl _ _ _ s(4)] s True show ?thesis by (auto simp: s)
  next
    case False
    then show ?thesis
      using 2(2,3) by (auto split: if_splits)
  qed
qed simp

section \<open>Parsing what was built\<close>

lemma Cut_absent: "sep \<notin> set s \<Longrightarrow> Cut s sep = (s, [])"
  by (induction s) auto

lemma Cut_split: "sep \<notin> set a \<Longrightarrow> Cut (a @ sep # b) sep = (a, b)"
  by (induction a) auto

lemma CutLast_absent: "sep \<notin> set s \<Longrightarrow> CutLast s sep = None"
  by (induction s) auto

lemma CutLast_split: "sep \<notin> set b \<Longrightarrow> CutLast (a @ sep # b) sep = Some (a, b)"
  by (induction a) (auto simp: CutLast_absent)

lemma getScheme_slash: "getScheme (slash # s) = Inr ([], slash # s)"
  by (simp add: getScheme_def slash_def letter_def is_digit_def)

definition scheme_ok :: "string \<Rightarrow> bool" where
  "scheme_ok s \<longleftrightarrow> s \<noteq> [] \<and> letter (hd s) \<and> list_all (\<lambda>c. (letter c \<or> is_digit c \<or> c \<in> set ''+-.'') \<and> lower c = c) s"

lemma letter_not: "letter c \<Longrightarrow> c \<noteq> CHR '':'' \<and> c \<noteq> CHR ''*''" "is_digit c \<Longrightarrow> c \<noteq> CHR '':''"
  by (auto simp: letter_def is_digit_def)

lemma scheme_from_ok:
  "list_all (\<lambda>c. (letter c \<or> is_digit c \<or> c \<in> set ''+-.'') \<and> lower c = c) s \<Longrightarrow> seen \<noteq> [] \<Longrightarrow>
    scheme_from raw seen (s @ CHR '':'' # rest) = Inr (seen @ s, rest)"
  by (induction s arbitrary: seen) (auto simp: letter_def is_digit_def)

lemma getScheme_ok:
  assumes "scheme_ok s"
  shows "getScheme (s @ CHR '':'' # rest) = Inr (s, rest)"
proof (cases s)
  case Nil
  with assms show ?thesis by (simp add: scheme_ok_def)
next
  case (Cons c cs)
  with assms have "letter c" "scheme_from ((c # cs) @ CHR '':'' # rest) [c] (cs @ CHR '':'' # rest) = Inr ([c] @ cs, rest)"
    using scheme_from_ok [of cs "[c]" "(c # cs) @ CHR '':'' # rest" rest] by (simp_all add: scheme_ok_def)
  with Cons show ?thesis by (simp add: getScheme_def)
qed

lemma scheme_lower: "scheme_ok s \<Longrightarrow> map lower s = s"
  by (auto simp: scheme_ok_def list_all_iff intro: map_idI)

text \<open>A host is a name, and a port that may be missing.\<close>

definition host_ok :: "string \<Rightarrow> bool" where
  "host_ok h \<longleftrightarrow>
     (case Cut h CHR '':'' of (name, port) \<Rightarrow>
        name \<noteq> [] \<and> list_all unreserved name \<and> list_all is_digit port)"

lemma host_cases:
  assumes "host_ok h"
  obtains "h \<noteq> []" "list_all unreserved h"
  | name port where "h = name @ CHR '':'' # port" "name \<noteq> []" "list_all unreserved name" "list_all is_digit port"
proof (cases "CHR '':'' \<in> set h")
  case True
  then obtain name port where h: "h = name @ CHR '':'' # port" "CHR '':'' \<notin> set name"
    by (metis split_list_first)
  with assms show ?thesis
    using that(2) by (auto simp: host_ok_def Cut_split)
next
  case False
  with assms show ?thesis
    using that(1) by (auto simp: host_ok_def Cut_absent)
qed

definition host_char :: "char \<Rightarrow> bool" where
  "host_char c = (unreserved c \<or> c = CHR '':'')"

lemma digit_unreserved: "is_digit c \<Longrightarrow> unreserved c"
  by (auto simp: is_digit_def unreserved_def Let_def)

lemma host_chars:
  assumes "host_ok h"
  shows "list_all host_char h" "h \<noteq> []"
proof -
  have "list_all host_char h \<and> h \<noteq> []"
    using assms by (cases rule: host_cases) (auto simp: list_all_iff host_char_def digit_unreserved)
  then show "list_all host_char h" "h \<noteq> []" by auto
qed

lemma host_char_not: "host_char c \<Longrightarrow> \<not> ctl c \<and> c \<notin> set ''/?#@[]%*'' \<and> c \<noteq> quote"
  by (auto simp: host_char_def unreserved_def ctl_def Let_def quote_def)

lemma host_char_kept: "host_char c \<Longrightarrow> \<not> shouldEscape HostPart c"
  by (auto simp: host_char_def shouldEscape_def alphanum_def unreserved_def Let_def)

lemma host_escape: "list_all host_char h \<Longrightarrow> url_escape HostPart h = h"
  by (induction h) (auto simp: url_escape_def url_escape_char_def host_char_kept)

lemma host_unescape: "list_all host_char h \<Longrightarrow> url_unescape HostPart h = Inr h"
  by (induction h) (auto simp: host_char_kept dest!: host_char_not)

lemma parseHost_ok:
  assumes "host_ok h"
  shows "parseHost h = Inr h"
proof -
  note chars = host_chars [OF assms]
  have "\<not> HasPrefix h ''[''"
    using chars by (cases h) (auto dest: host_char_not)
  moreover have "validOptionalPort (CHR '':'' # port)" if "CutLast h CHR '':'' = Some (a, port)" for a port
    using assms
  proof (cases rule: host_cases)
    case 1
    then have "CHR '':'' \<notin> set h" by (auto simp: list_all_iff unreserved_def)
    with that show ?thesis by (simp add: CutLast_absent)
  next
    case (2 name port')
    then have "CHR '':'' \<notin> set port'" by (auto simp: list_all_iff is_digit_def)
    with that 2 show ?thesis by (simp add: CutLast_split validOptionalPort_def)
  qed
  ultimately show ?thesis
    by (auto simp: parseHost_def host_unescape [OF chars(1)] split: option.split)
qed

lemma parseAuthority_ok:
  assumes "host_ok h"
  shows "parseAuthority h = Inr (None, h)"
proof -
  have "CHR ''@'' \<notin> set h"
    using host_chars(1) [OF assms] host_char_not by (auto simp: list_all_iff)
  then show ?thesis
    by (simp add: parseAuthority_def CutLast_absent parseHost_ok assms)
qed

text \<open>The query is found at the first question mark.\<close>

definition query_of :: "string \<Rightarrow> string" where
  "query_of q = (if q = [] then [] else CHR ''?'' # q)"

lemma parse_query_part_of:
  assumes "CHR ''?'' \<notin> set p" "u_RawQuery u = []"
  shows "parse_query_part (p @ query_of q) u = (p, u\<lparr>u_RawQuery := q\<rparr>)"
proof (cases "q = []")
  case True
  with assms have "u\<lparr>u_RawQuery := []\<rparr> = u" by simp
  with True assms(1) show ?thesis
    by (auto simp: parse_query_part_def query_of_def Cut_absent dest!: last_in_set)
next
  case False
  have "\<not> (last (p @ query_of q) = CHR ''?'' \<and> count_list (p @ query_of q) CHR ''?'' = 1)"
  proof
    assume a: "last (p @ query_of q) = CHR ''?'' \<and> count_list (p @ query_of q) CHR ''?'' = 1"
    with False have "CHR ''?'' \<in> set q" by (auto simp: query_of_def dest: last_in_set)
    then have "count_list q CHR ''?'' \<noteq> 0" by (simp add: count_list_0_iff)
    with a show False using False by (simp add: query_of_def)
  qed
  moreover have "Cut (p @ query_of q) CHR ''?'' = (p, q)"
    using False assms(1) by (simp add: query_of_def Cut_split)
  ultimately show ?thesis by (simp only: parse_query_part_def if_False simp_thms prod.case) 
qed

text \<open>A string without a query is a path and a query.\<close>

lemma query_split: "\<exists>p q. s = p @ query_of q \<and> CHR ''?'' \<notin> set p \<or> s = p @ ''?'' \<and> CHR ''?'' \<notin> set p"
proof (cases "CHR ''?'' \<in> set s")
  case True
  then obtain p q where "s = p @ CHR ''?'' # q" "CHR ''?'' \<notin> set p" by (metis split_list_first)
  then show ?thesis by (cases q) (auto simp: query_of_def)
next
  case False
  then show ?thesis by (auto simp: query_of_def intro: exI [of _ "[]"])
qed

end
