(* ===== verification/ConnUrl.thy ===== *)
theory ConnUrl
  imports GoUrlParse
begin

text \<open>
  The URLs of an RTMP connection (internal/protocols/rtmp/conn.go): the client splits its URL into an application
  and a stream, which it sends in separate commands with the rest of the URL; the server puts them together.
\<close>

section \<open>Operations\<close>

text \<open>\<open>strings.Join\<close> with a separator of one byte, and \<open>strings.Trim\<close> with a cutset of one byte.\<close>

fun Join :: "string list \<Rightarrow> char \<Rightarrow> string" where
  "Join [] sep = []"
| "Join [p] sep = p"
| "Join (p # q # ps) sep = p @ sep # Join (q # ps) sep"

definition Trim :: "char \<Rightarrow> string \<Rightarrow> string" where
  "Trim c s = rev (dropWhile (\<lambda>x. x = c) (rev (dropWhile (\<lambda>x. x = c) s)))"

definition splitPath :: "url \<Rightarrow> string \<times> string" where
  "splitPath u =
     (let pathsegs = Split (RequestURI (u\<lparr>u_ForceQuery := False\<rparr>)) slash in
      if length pathsegs = 2 then (pathsegs ! 1, [])
      else if length pathsegs = 3 then (pathsegs ! 1, pathsegs ! 2)
      else if 3 < length pathsegs then (Join (take 2 (drop 1 pathsegs)) slash, Join (drop 3 pathsegs) slash)
      else ([], []))"

text \<open>The error of the inner \<open>Parse\<close> is ignored, so that its nil result is dereferenced.\<close>

definition getTcURL :: "url \<Rightarrow> string result" where
  "getTcURL u =
     (case url_Parse (url_String u) of
        Inl _ \<Rightarrow> Inl Panic
      | Inr nu \<Rightarrow> Inr (url_String (nu\<lparr>u_RawQuery := [], u_Path := [slash]\<rparr>) @ fst (splitPath u)))"

definition createURL :: "string \<Rightarrow> string \<Rightarrow> string \<Rightarrow> url result" where
  "createURL tcURL app play =
     bindE (ParseRequestURI (slash # app @ slash # play)) (\<lambda>u.
     bindE (url_Parse tcURL) (\<lambda>tu.
       if u_Host tu = [] then Inl (Errorf ''invalid host'' [])
       else if u_Scheme tu = [] then Inl (Errorf ''invalid scheme'' [])
       else Inr (u\<lparr>u_Host := u_Host tu, u_Scheme := u_Scheme tu\<rparr>)))"

section \<open>Splitting and joining\<close>

lemma Join_Cons: "ps \<noteq> [] \<Longrightarrow> Join (p # ps) sep = p @ sep # Join ps sep"
  by (cases ps) auto

lemma Join_Split: "Join (Split s sep) sep = s"
proof (induction s)
  case (Cons c s)
  then show ?case
    by (cases "Split s sep"; cases "tl (Split s sep)") (auto simp: Join_Cons)
qed simp

lemma splitPath_parts:
  assumes "RequestURI u = slash # t" "slash \<in> set t" "\<not> u_ForceQuery u"
  shows "\<exists>app stream. splitPath u = (app, stream) \<and> RequestURI u = slash # app @ slash # stream"
proof -
  from assms(2) obtain a r where t: "t = a @ slash # r" "slash \<notin> set a" by (metis split_list_first)
  have same: "u\<lparr>u_ForceQuery := False\<rparr> = u" using assms(3) by (cases u) simp
  have segs: "Split (RequestURI u) slash = [] # a # Split r slash"
    by (simp add: assms(1) t Split_append)
  show ?thesis
  proof (cases "slash \<in> set r")
    case False
    then have "splitPath u = (a, r)" by (simp add: splitPath_def same segs Split_no_sep)
    then show ?thesis using assms(1) t by simp
  next
    case True
    then obtain b r' where r: "r = b @ slash # r'" "slash \<notin> set b" by (metis split_list_first)
    then have "Split (RequestURI u) slash = [] # a # b # Split r' slash" by (simp add: segs Split_append)
    moreover have "length (Split r' slash) \<noteq> 0" by simp
    ultimately have "splitPath u = (a @ slash # b, r')"
      unfolding splitPath_def same Let_def by (simp add: Join_Split)
    then show ?thesis using assms(1) t r by simp
  qed
qed

section \<open>What the client sends and the server understands\<close>

text \<open>
  The URL of a stream: a scheme, a host that may have a port, and a path that names an application and a stream,
  as \<open>Parse\<close> sets it. A query must not contain a fragment mark or a quote.
\<close>

definition plain_char :: "char \<Rightarrow> bool" where
  "plain_char c = (\<not> ctl c \<and> c \<noteq> CHR ''#'' \<and> c \<noteq> quote)"

definition stream_url :: "url \<Rightarrow> bool" where
  "stream_url u \<longleftrightarrow>
     scheme_ok (u_Scheme u) \<and> host_ok (u_Host u) \<and> u_Opaque u = [] \<and> u_User u = None \<and> \<not> u_OmitHost u \<and>
     \<not> u_ForceQuery u \<and> u_Fragment u = [] \<and> u_RawFragment u = [] \<and> setPath (EscapedPath u) u = Inr u \<and>
     HasPrefix (EscapedPath u) [slash] \<and> slash \<in> set (tl (RequestURI u)) \<and> list_all plain_char (RequestURI u)"

lemma escape_char_no_query: "CHR ''?'' \<notin> set (url_escape_char PathPart c)"
proof (cases "shouldEscape PathPart c")
  case True
  have "upperhex (of_char c div 16) \<noteq> CHR ''?''" "upperhex (of_char c mod 16) \<noteq> CHR ''?''"
    using upperhex_unreserved [OF hex_digits(1) [of c]] upperhex_unreserved [OF hex_digits(2) [of c]]
    by (auto simp: unreserved_def)
  with True show ?thesis by (simp add: url_escape_char_def)
next
  case False
  then show ?thesis by (auto simp: url_escape_char_def shouldEscape_def alphanum_def)
qed

lemma escape_no_query: "CHR ''?'' \<notin> set (url_escape PathPart s)"
  by (simp add: url_escape_def escape_char_no_query)

lemma EscapedPath_no_query: "CHR ''?'' \<notin> set (EscapedPath u)"
  using escape_no_query
  by (auto simp: EscapedPath_def escaped_def validEncoded_def shouldEscape_def alphanum_def quote_def)

lemma parse_query_part_fst: "fst (parse_query_part s u) = fst (Cut s CHR ''?'')"
proof -
  have "butlast s = fst (Cut s CHR ''?'')"
    if "s \<noteq> []" "last s = CHR ''?''" "count_list s CHR ''?'' = 1"
  proof -
    from that have s: "s = butlast s @ [CHR ''?'']" by (metis append_butlast_last_id)
    then have "count_list (butlast s) CHR ''?'' = 0" using that(3) by (metis add_diff_cancel_right' count_list_append
          count_list.simps(1,2) cancel_comm_monoid_add_class.diff_cancel add_0)
    then have "CHR ''?'' \<notin> set (butlast s)" by (simp add: count_list_0_iff)
    then have "Cut (butlast s @ [CHR ''?'']) CHR ''?'' = (butlast s, [])" by (rule Cut_split)
    then show ?thesis using s by simp
  qed
  then show ?thesis by (auto simp: parse_query_part_def split: prod.split)
qed

lemma parse_query_part_scheme: "u_Scheme (snd (parse_query_part s u)) = u_Scheme u"
  by (simp add: parse_query_part_def split: prod.split)

lemma Cut_append: "sep \<notin> set a \<Longrightarrow> Cut (a @ s) sep = (a @ fst (Cut s sep), snd (Cut s sep))"
  by (induction a) (auto split: prod.split)

lemma parse_query_part_append:
  assumes "CHR ''?'' \<notin> set a" "s \<noteq> []"
  shows "parse_query_part (a @ s) u = (a @ fst (parse_query_part s u), snd (parse_query_part s u))"
  using assms by (simp add: parse_query_part_def Cut_append butlast_append count_list_0_iff split: prod.split)

lemma url_parse_built:
  assumes "scheme_ok s" "host_ok h" "list_all plain_char t"
  shows "url_Parse (s @ CHR '':'' # slash # slash # h @ slash # t) =
    (case parse_query_part (slash # t) (empty_url\<lparr>u_Scheme := s\<rparr>) of
       (p, v) \<Rightarrow> setPath p (v\<lparr>u_User := None, u_Host := h\<rparr>))"
proof -
  let ?raw = "s @ CHR '':'' # slash # slash # h @ slash # t"
  let ?u = "empty_url\<lparr>u_Scheme := s\<rparr>"
  obtain p v where pv: "parse_query_part (slash # t) ?u = (p, v)" by fastforce
  have p: "p = slash # fst (Cut t CHR ''?'')"
    using parse_query_part_fst [of "slash # t" ?u] pv by (simp add: slash_def split: prod.splits)
  have v: "u_Scheme v = s" "s \<noteq> []"
    using parse_query_part_scheme [of "slash # t" ?u] pv assms(1) by (simp_all add: scheme_ok_def)
  have host: "list_all host_char h" using host_chars [OF assms(2)] by simp
  then have hq: "CHR ''?'' \<notin> set (slash # slash # h)" "slash \<notin> set h" "list_all (\<lambda>c. \<not> ctl c \<and> c \<noteq> CHR ''#'') h"
    using host_char_not by (auto simp: list_all_iff slash_def)
  have sch: "list_all (\<lambda>c. \<not> ctl c \<and> c \<noteq> CHR ''#'') s"
    using assms(1) by (auto simp: scheme_ok_def list_all_iff letter_def is_digit_def ctl_def Let_def)
  have ok: "CHR ''#'' \<notin> set ?raw" "\<not> (\<exists>c \<in> set ?raw. ctl c)"
    using hq(3) sch assms(3) by (auto simp: list_all_iff plain_char_def slash_def ctl_def)
  have authority: "takeWhile (\<lambda>c. c \<noteq> CHR ''/'') (h @ CHR ''/'' # x) = h"
    "dropWhile (\<lambda>c. c \<noteq> CHR ''/'') (h @ CHR ''/'' # x) = CHR ''/'' # x" for x
    using hq(2) by (auto simp: slash_def takeWhile_append dropWhile_append)
  have "?raw \<noteq> ''*''" by (cases s) auto
  then have "url_parse ?raw False = setPath p (v\<lparr>u_User := None, u_Host := h\<rparr>)"
    using ok(2) parse_query_part_append [OF hq(1), of "slash # t" ?u] pv v(2) hq(2) p
    by (simp add: url_parse_def getScheme_ok assms(1) scheme_lower parse_hier_def v(1) parseAuthority_ok assms(2) Let_def
        authority slash_def)
  then show ?thesis
    unfolding url_Parse_def Cut_absent [OF ok(1)] pv by (simp add: bindE_def split: sum.split)
qed

text \<open>The strings that the URL of a stream is turned into.\<close>

lemma stream_url_strings:
  assumes "stream_url u"
  shows "RequestURI u = EscapedPath u @ query_of (u_RawQuery u)"
    "url_String u = u_Scheme u @ CHR '':'' # slash # slash # u_Host u @ RequestURI u"
    "\<exists>e. EscapedPath u = slash # e"
proof -
  have u: "u_Scheme u \<noteq> []" "u_Host u \<noteq> []" "host_ok (u_Host u)" "u_Opaque u = []" "u_User u = None"
    "\<not> u_ForceQuery u" "u_Fragment u = []"
    using assms host_chars(2) by (auto simp: stream_url_def scheme_ok_def)
  show path: "\<exists>e. EscapedPath u = slash # e"
    using assms by (cases "EscapedPath u") (auto simp: stream_url_def)
  then have hd: "EscapedPath u \<noteq> []" "hd (EscapedPath u) = slash" by auto
  show "RequestURI u = EscapedPath u @ query_of (u_RawQuery u)"
    using u hd by (simp add: RequestURI_def query_suffix_def query_of_def)
  with u hd show "url_String u = u_Scheme u @ CHR '':'' # slash # slash # u_Host u @ RequestURI u"
    by (simp add: url_String_def authority_string_def query_suffix_def query_of_def Let_def
        host_escape [OF host_chars(1)] slash_def)
qed

text \<open>All that \<open>parse\<close> does with such a string is to set the path and the query.\<close>

lemma setPath_other:
  assumes "setPath p u = Inr u" "v\<lparr>u_Path := u_Path u, u_RawPath := u_RawPath u\<rparr> = w"
  shows "setPath p v = Inr w"
proof -
  let ?raw = "\<lambda>path. if p = url_escape PathPart path then [] else p"
  obtain path where path: "url_unescape PathPart p = Inr path" "u\<lparr>u_Path := path, u_RawPath := ?raw path\<rparr> = u"
    using assms(1) unfolding setPath_def bindE_eq_Inr by blast
  have "u_Path u = path" "u_RawPath u = ?raw path"
    using arg_cong [OF path(2), of u_Path] arg_cong [OF path(2), of u_RawPath] by simp_all
  with path(1) assms(2) show ?thesis by (simp add: setPath_def)
qed

lemma stream_url_parsed:
  assumes "stream_url u"
  shows "url_Parse (url_String u) = Inr u"
    "ParseRequestURI (RequestURI u) = Inr (u\<lparr>u_Scheme := [], u_Host := []\<rparr>)"
proof -
  note str = stream_url_strings [OF assms]
  let ?q = "u_RawQuery u" and ?e = "EscapedPath u"
  have set: "setPath ?e u = Inr u" and u: "scheme_ok (u_Scheme u)" "host_ok (u_Host u)"
    using assms by (simp_all add: stream_url_def)
  have plain: "list_all plain_char (RequestURI u)" using assms by (simp add: stream_url_def)
  have parts: "parse_query_part (RequestURI u) (empty_url\<lparr>u_Scheme := x\<rparr>) = (?e, empty_url\<lparr>u_Scheme := x, u_RawQuery := ?q\<rparr>)" for x
    unfolding str(1) by (rule parse_query_part_of [OF EscapedPath_no_query]) (simp add: empty_url_def)
  obtain e where e: "?e = slash # e" using str(3) by blast
  then have uri: "RequestURI u = slash # e @ query_of ?q" by (simp add: str(1))
  have eq: "(empty_url\<lparr>u_Scheme := u_Scheme u, u_RawQuery := ?q, u_User := None, u_Host := u_Host u,
      u_Path := u_Path u, u_RawPath := u_RawPath u\<rparr>) = u"
    "(empty_url\<lparr>u_RawQuery := ?q, u_Path := u_Path u, u_RawPath := u_RawPath u\<rparr>) = u\<lparr>u_Scheme := [], u_Host := []\<rparr>"
    using assms by (cases u; simp add: empty_url_def stream_url_def)+
  have "list_all plain_char (e @ query_of ?q)" using plain by (simp add: uri)
  from url_parse_built [OF u this] show "url_Parse (url_String u) = Inr u"
    unfolding str(2) uri [symmetric] parts prod.case by (simp only: setPath_other [OF set eq(1)])
  have noctl: "\<not> (\<exists>c \<in> set (RequestURI u). ctl c)"
    using plain by (auto simp: list_all_iff plain_char_def)
  have "HasPrefix ?e ''/''" "RequestURI u \<noteq> ''*''" "RequestURI u \<noteq> []" "getScheme (RequestURI u) = Inr ([], RequestURI u)"
    using getScheme_slash [of "e @ query_of ?q"] unfolding uri e by (simp_all add: slash_def)
  then show "ParseRequestURI (RequestURI u) = Inr (u\<lparr>u_Scheme := [], u_Host := []\<rparr>)"
    using noctl parts [of "[]"] setPath_other [OF set eq(2)]
    by (simp add: ParseRequestURI_def url_parse_def parse_hier_def empty_url_def)
qed

lemma setPath_exists: "url_unescape PathPart p = Inr path \<Longrightarrow> \<exists>w. setPath p v = Inr w \<and> u_Host w = u_Host v \<and> u_Scheme w = u_Scheme v"
  by (simp add: setPath_def)

text \<open>The text before the query of the first part of a URI can be unescaped if that of the whole can.\<close>

lemma unescape_before_slash:
  assumes "url_unescape PathPart (fst (Cut (a @ slash # b) CHR ''?'')) = Inr path"
  shows "\<exists>path. url_unescape PathPart (fst (Cut a CHR ''?'')) = Inr path"
proof (cases "CHR ''?'' \<in> set a")
  case True
  then obtain x y where a: "a = x @ CHR ''?'' # y" "CHR ''?'' \<notin> set x" by (metis split_list_first)
  then have "Cut a CHR ''?'' = (x, y)" "Cut (a @ slash # b) CHR ''?'' = (x, y @ slash # b)"
    by (simp_all add: Cut_split)
  with assms show ?thesis by simp
next
  case False
  then have "fst (Cut (a @ slash # b) CHR ''?'') = a @ slash # fst (Cut b CHR ''?'')" "fst (Cut a CHR ''?'') = a"
    by (simp_all add: Cut_append Cut_absent slash_def split: prod.split)
  with assms show ?thesis using url_unescape_prefix [of PathPart a] by auto
qed

lemma Trim_id: "s \<noteq> [] \<Longrightarrow> hd s \<noteq> c \<Longrightarrow> last s \<noteq> c \<Longrightarrow> Trim c s = s"
proof -
  assume "s \<noteq> []" "hd s \<noteq> c" "last s \<noteq> c"
  then have "dropWhile (\<lambda>x. x = c) s = s" "dropWhile (\<lambda>x. x = c) (rev s) = rev s"
    by (simp_all add: dropWhile_eq_self_iff hd_rev)
  then show ?thesis by (simp add: Trim_def)
qed

lemma tcURL_of:
  assumes "stream_url u"
  shows "getTcURL u = Inr (u_Scheme u @ CHR '':'' # slash # slash # u_Host u @ slash # fst (splitPath u))"
proof -
  let ?nu = "u\<lparr>u_RawQuery := [], u_Path := [slash]\<rparr>"
  have u: "u_Scheme u \<noteq> []" "u_Host u \<noteq> []" "host_ok (u_Host u)" "u_Opaque u = []" "u_User u = None"
    "\<not> u_ForceQuery u" "u_Fragment u = []" "setPath (EscapedPath u) u = Inr u"
    using assms host_chars(2) by (auto simp: stream_url_def scheme_ok_def)
  obtain e where e: "EscapedPath u = slash # e" using stream_url_strings(3) [OF assms] by blast
  have "\<not> (u_RawPath u \<noteq> [] \<and> url_unescape PathPart (u_RawPath u) = Inr [slash])"
  proof
    assume a: "u_RawPath u \<noteq> [] \<and> url_unescape PathPart (u_RawPath u) = Inr [slash]"
    obtain path where path: "url_unescape PathPart (EscapedPath u) = Inr path"
      "u\<lparr>u_Path := path, u_RawPath := (if EscapedPath u = url_escape PathPart path then [] else EscapedPath u)\<rparr> = u"
      using u(8) unfolding setPath_def bindE_eq_Inr by blast
    from arg_cong [OF path(2), of u_RawPath] a have raw: "u_RawPath u = EscapedPath u" "EscapedPath u \<noteq> url_escape PathPart path"
      by (auto split: if_splits)
    with a path(1) have "path = [slash]" "url_unescape PathPart (slash # e) = Inr [slash]" by (simp_all add: e)
    then have "map_sum id ((#) slash) (url_unescape PathPart e) = Inr [slash]" by (simp add: slash_def)
    then have "url_unescape PathPart e = Inr []" by (cases "url_unescape PathPart e") auto
    then have "e = []"
      by (cases e) (auto simp: map_result_simps split: if_splits list.splits option.splits)
    with raw(2) e \<open>path = [slash]\<close> show False
      by (simp add: url_escape_def url_escape_char_def shouldEscape_def slash_def alphanum_def)
  qed
  then have "EscapedPath ?nu = [slash]"
    by (auto simp: EscapedPath_def escaped_def url_escape_def url_escape_char_def shouldEscape_def slash_def alphanum_def)
  with u show ?thesis
    unfolding getTcURL_def stream_url_parsed(1) [OF assms]
    by (simp add: url_String_def authority_string_def query_suffix_def Let_def host_escape [OF host_chars(1)] slash_def)
qed

lemma stream_url_back:
  assumes "stream_url u"
  shows "bindE (getTcURL u) (\<lambda>tcURL. createURL (Trim quote tcURL) (fst (splitPath u)) (snd (splitPath u))) = Inr u"
proof -
  note str = stream_url_strings [OF assms]
  obtain e where e: "EscapedPath u = slash # e" using str(3) by blast
  have uri: "RequestURI u = slash # e @ query_of (u_RawQuery u)" "slash \<in> set (e @ query_of (u_RawQuery u))"
    using str(1) e assms by (simp_all add: stream_url_def)
  obtain app stream where sp: "splitPath u = (app, stream)" "RequestURI u = slash # app @ slash # stream"
    using splitPath_parts [OF uri] assms by (auto simp: stream_url_def)
  have u: "scheme_ok (u_Scheme u)" "host_ok (u_Host u)" "u_Host u \<noteq> []" "u_Scheme u \<noteq> []" "list_all plain_char (RequestURI u)"
    "setPath (EscapedPath u) u = Inr u"
    using assms host_chars(2) by (auto simp: stream_url_def scheme_ok_def)
  let ?tc = "u_Scheme u @ CHR '':'' # slash # slash # u_Host u @ slash # app"
  have "hd (u_Scheme u) \<noteq> quote"
    using u(1) by (auto simp: scheme_ok_def letter_def quote_def)
  moreover have "last (slash # app) \<noteq> quote"
    using u(5) unfolding sp(2) by (auto simp: list_all_iff plain_char_def slash_def quote_def)
  ultimately have trim: "Trim quote ?tc = ?tc"
    using u(4) by (intro Trim_id) auto
  have plain: "list_all plain_char app" using u(5) by (simp add: sp(2))
  obtain path where "url_unescape PathPart (EscapedPath u) = Inr path"
    using u(6) unfolding setPath_def bindE_eq_Inr by blast
  moreover have "fst (Cut ((slash # app) @ slash # stream) CHR ''?'') = EscapedPath u"
    using parse_query_part_of [OF EscapedPath_no_query, of "empty_url" u "u_RawQuery u"] parse_query_part_fst [of "RequestURI u" empty_url]
    by (simp add: str(1) sp(2) [symmetric] empty_url_def)
  ultimately obtain path' where "url_unescape PathPart (fst (Cut (slash # app) CHR ''?'')) = Inr path'"
    using unescape_before_slash [of "slash # app" stream path] by auto
  moreover obtain p v where pv: "parse_query_part (slash # app) (empty_url\<lparr>u_Scheme := u_Scheme u\<rparr>) = (p, v)"
    by fastforce
  ultimately have "url_unescape PathPart p = Inr path'" "u_Scheme v = u_Scheme u"
    using parse_query_part_fst [of "slash # app" "empty_url\<lparr>u_Scheme := u_Scheme u\<rparr>"]
      parse_query_part_scheme [of "slash # app" "empty_url\<lparr>u_Scheme := u_Scheme u\<rparr>"] by simp_all
  then obtain w where "url_Parse ?tc = Inr w" "u_Host w = u_Host u" "u_Scheme w = u_Scheme u"
    using setPath_exists [of p path' "v\<lparr>u_User := None, u_Host := u_Host u\<rparr>"] url_parse_built [OF u(1,2) plain] pv by auto
  then show ?thesis
    unfolding tcURL_of [OF assms] sp(1) using u(3,4) stream_url_parsed(2) [OF assms]
    by (simp add: trim createURL_def sp(2))
qed


definition sample_url :: url where
  "sample_url = empty_url\<lparr>u_Scheme := ''rtmp'', u_Host := ''cam.local:1935'', u_Path := ''/live/a b/door'', u_RawQuery := ''user=x?''\<rparr>"

lemma sample_url_ok: "stream_url sample_url"
  by code_simp


end
