(* ===== verification/Conn.thy ===== *)
theory Conn
  imports MessageSession Handshake Rc4 ConnUrl
begin

text \<open>
  An RTMP connection (internal/protocols/rtmp/conn.go, rc4_readwriter.go): after the handshake, the client sends
  commands to connect and to play or to publish, and waits for the results that it needs; the server answers until
  the client plays or publishes. The state of the commands is a \<open>message.ReadWriter\<close>, which is a raw reader with the
  raw writer as its sink.
\<close>

section \<open>Reading and writing messages\<close>

type_synonym 'a conn_step = "raw_writer raw_reader \<Rightarrow> 'a result \<times> raw_writer raw_reader"

definition Conn_Read :: "'cfg codecs \<Rightarrow> 'cfg message conn_step" where
  "Conn_Read cs rw = (case ReadWriter_Read cs rw of (rw', r) \<Rightarrow> (r, rw'))"

definition Conn_Write :: "'cfg codecs \<Rightarrow> 'cfg message \<Rightarrow> unit conn_step" where
  "Conn_Write cs msg rw =
     (case ReadWriter_Write cs msg rw of (rw', None) \<Rightarrow> (Inr (), rw') | (rw', Some e) \<Rightarrow> (Inl e, rw'))"

text \<open>Every message consumes bytes, so the loops that read messages come to an end.\<close>

lemma readMessage_consumes:
  assumes "readMessage ack fmt rc r = (rc', r', Inr msg)"
  shows "length (r_br r') < length (r_br r)"
  using assms
  by (auto simp: readMessage_def readMessage_defs Let_def
      split: if_splits prod.splits sum.splits
      dest!: c0.readChunk_shorter c1.readChunk_shorter c2.readChunk_shorter c3.readChunk_shorter)

lemma readStep_consumes:
  assumes "readStep ack r = (r', Inr msg)"
  shows "length (r_br r') < length (r_br r)"
  using assms
  by (auto simp: readStep_def Let_def split: list.splits if_splits prod.splits sum.splits option.splits
      dest!: readMessage_consumes)

lemma Read_consumes: "Read ack r = (r', Inr msg) \<Longrightarrow> length (r_br r') < length (r_br r)"
proof (induction ack r rule: Read.induct)
  case (1 ack r)
  obtain s res where s: "readStep ack r = (s, res)" by fastforce
  show ?case
  proof (cases res)
    case (Inl e)
    show ?thesis
    proof (cases "e = MoreChunksNeeded")
      case True
      with 1(2) s Inl have "Read ack s = (r', Inr msg)" by (subst (asm) Read.simps) simp
      with 1(1) [OF s [symmetric] Inl True] readStep_shorter [of ack r s] s Inl True show ?thesis by simp
    next
      case False
      with 1(2) s Inl show ?thesis by (subst (asm) Read.simps) simp
    qed
  next
    case (Inr m)
    with 1(2) s readStep_consumes [of ack r s m] show ?thesis by (subst (asm) Read.simps) simp
  qed
qed

lemma Conn_Read_consumes:
  assumes "Conn_Read cs rw = (Inr msg, rw')"
  shows "length (r_br rw') < length (r_br rw)"
proof -
  obtain r1 res where r1: "Read (rw_ack cs) rw = (r1, res)" by fastforce
  with assms obtain raw where raw: "res = Inr raw"
    by (cases res) (auto simp: Conn_Read_def ReadWriter_Read_def Message_Read_def)
  have "r_br rw' = r_br r1"
    using assms r1 raw
    by (auto simp: Conn_Read_def ReadWriter_Read_def Message_Read_def Reader_SetChunkSize_def Reader_SetWindowAckSize_def
        split: sum.splits message.splits prod.splits option.splits if_splits)
  with Read_consumes r1 raw show ?thesis by fastforce
qed

lemma Conn_Write_keeps: "r_br (snd (Conn_Write cs msg rw)) = r_br rw"
  by (simp add: Conn_Write_def ReadWriter_Write_def split: prod.split option.split)

lemma Conn_Write_consumes: "(r, rw') = Conn_Write cs msg rw \<Longrightarrow> r_br rw' = r_br rw"
  using Conn_Write_keeps [of cs msg rw] by (metis snd_conv)

section \<open>Commands\<close>

definition command :: "byte \<Rightarrow> u32 \<Rightarrow> string \<Rightarrow> int \<Rightarrow> amf list \<Rightarrow> 'cfg message" where
  "command chunkStream messageStream name i args =
     MCommandAMF0 \<lparr>cm_ChunkStreamID = chunkStream, cm_MessageStreamID = messageStream, cm_Name = name,
       cm_CommandID = i, cm_Arguments = args\<rparr>"

definition number :: "int \<Rightarrow> amf" where
  "number n = ANumber (float64_of_int n)"

definition resultIsOK1 :: "CommandAMF0 \<Rightarrow> bool" where
  "resultIsOK1 res =
     (case cm_Arguments res of
        _ # AObject ma # _ \<Rightarrow> Get ma ''level'' = Some (AString ''status'')
      | _ # AECMAArray ma # _ \<Rightarrow> Get ma ''level'' = Some (AString ''status'')
      | _ \<Rightarrow> False)"

definition resultIsOK2 :: "CommandAMF0 \<Rightarrow> bool" where
  "resultIsOK2 res = (case cm_Arguments res of _ # ANumber v # _ \<Rightarrow> v = float64_of_int 1 | _ \<Rightarrow> False)"

text \<open>The type assertion \<open>msg.(*message.CommandAMF0)\<close>.\<close>

definition as_command :: "'cfg message \<Rightarrow> CommandAMF0 option" where
  "as_command msg = (case msg of MCommandAMF0 cmd \<Rightarrow> Some cmd | _ \<Rightarrow> None)"

function readCommand :: "'cfg codecs \<Rightarrow> CommandAMF0 conn_step" where
  "readCommand cs rw =
     (case Conn_Read cs rw of
        (Inl e, rw') \<Rightarrow> (Inl e, rw')
      | (Inr msg, rw') \<Rightarrow>
          (case as_command msg of
             Some cmd \<Rightarrow> (Inr cmd, rw')
           | None \<Rightarrow> readCommand cs rw'))"
  by pat_completeness auto
termination
  by (relation "measure (\<lambda>(_, rw). length (r_br rw))") (auto dest!: sym [THEN Conn_Read_consumes])

function readCommandResult :: "'cfg codecs \<Rightarrow> int \<Rightarrow> string \<Rightarrow> (CommandAMF0 \<Rightarrow> bool) \<Rightarrow> unit conn_step" where
  "readCommandResult cs commandID commandName isValid rw =
     (case Conn_Read cs rw of
        (Inl e, rw') \<Rightarrow> (Inl e, rw')
      | (Inr msg, rw') \<Rightarrow>
          (case as_command msg of
             Some cmd \<Rightarrow>
               if (cm_CommandID cmd = commandID \<or> cm_CommandID cmd = 0) \<and> cm_Name cmd = commandName then
                 (if \<not> isValid cmd then (Inl (Errorf ''server refused connect request'' []), rw') else (Inr (), rw'))
               else readCommandResult cs commandID commandName isValid rw'
           | None \<Rightarrow> readCommandResult cs commandID commandName isValid rw'))"
  by pat_completeness auto
termination
  by (relation "measure (\<lambda>(_, _, _, _, rw). length (r_br rw))") (auto dest!: sym [THEN Conn_Read_consumes])

declare readCommand.simps [simp del] readCommandResult.simps [simp del]

section \<open>The client\<close>

definition windowAckSize :: u32 where
  "windowAckSize = 2500000"

definition announce :: "'cfg codecs \<Rightarrow> unit conn_step" where
  "announce cs rw =
     bindS (Conn_Write cs (MSetWindowAckSize windowAckSize) rw) (\<lambda>_ rw.
     bindS (Conn_Write cs (MSetPeerBandwidth \<lparr>pb_Value = windowAckSize, pb_Type = 2\<rparr>) rw) (\<lambda>_ rw.
     Conn_Write cs (MSetChunkSize 65536) rw))"

definition client_connect :: "string \<Rightarrow> string \<Rightarrow> 'cfg message" where
  "client_connect app tcURL =
     command 3 0 ''connect'' 1
       [AObject
          [(''app'', AString app), (''flashVer'', AString ''LNX 9,0,124,2''), (''tcUrl'', AString tcURL),
           (''fpad'', ABoolean False), (''capabilities'', number 15), (''audioCodecs'', number 4071),
           (''videoCodecs'', number 252), (''videoFunction'', number 1)]]"

definition client_play :: "'cfg codecs \<Rightarrow> string \<Rightarrow> unit conn_step" where
  "client_play cs actionpath rw =
     bindS (Conn_Write cs (command 3 0 ''createStream'' 2 [ANull]) rw) (\<lambda>_ rw.
     bindS (readCommandResult cs 2 ''_result'' resultIsOK2 rw) (\<lambda>_ rw.
     bindS (Conn_Write cs (MUserControlSetBufferLength \<lparr>bl_StreamID = 0, bl_BufferLength = 0x64\<rparr>) rw) (\<lambda>_ rw.
     bindS (Conn_Write cs (command 4 0x1000000 ''play'' 3 [ANull, AString actionpath]) rw) (\<lambda>_ rw.
     readCommandResult cs 3 ''onStatus'' resultIsOK1 rw))))"

definition client_publish :: "'cfg codecs \<Rightarrow> string \<Rightarrow> string \<Rightarrow> unit conn_step" where
  "client_publish cs connectpath actionpath rw =
     bindS (Conn_Write cs (command 3 0 ''releaseStream'' 2 [ANull, AString actionpath]) rw) (\<lambda>_ rw.
     bindS (Conn_Write cs (command 3 0 ''FCPublish'' 3 [ANull, AString actionpath]) rw) (\<lambda>_ rw.
     bindS (Conn_Write cs (command 3 0 ''createStream'' 4 [ANull]) rw) (\<lambda>_ rw.
     bindS (readCommandResult cs 4 ''_result'' resultIsOK2 rw) (\<lambda>_ rw.
     bindS (Conn_Write cs (command 4 0x1000000 ''publish'' 5 [ANull, AString actionpath, AString connectpath]) rw) (\<lambda>_ rw.
     readCommandResult cs 5 ''onStatus'' resultIsOK1 rw)))))"

text \<open>\<open>initializeClient\<close> from the end of the handshake on.\<close>

definition client_commands :: "'cfg codecs \<Rightarrow> url \<Rightarrow> bool \<Rightarrow> unit conn_step" where
  "client_commands cs u publish rw =
     (let (connectpath, actionpath) = splitPath u in
      bindS (announce cs rw) (\<lambda>_ rw.
      bindS (getTcURL u, rw) (\<lambda>tcURL rw.
      bindS (Conn_Write cs (client_connect connectpath tcURL) rw) (\<lambda>_ rw.
      bindS (readCommandResult cs 1 ''_result'' resultIsOK1 rw) (\<lambda>_ rw.
      if \<not> publish then client_play cs actionpath rw else client_publish cs connectpath actionpath rw)))))"

section \<open>The server\<close>

definition invalid_connect :: go_error where
  "invalid_connect = Errorf ''invalid connect command'' []"

definition server_result :: "CommandAMF0 \<Rightarrow> u64 \<Rightarrow> 'cfg message" where
  "server_result cmd oe =
     command (cm_ChunkStreamID cmd) 0 ''_result'' (cm_CommandID cmd)
       [AObject [(''fmsVer'', AString ''LNX 9,0,124,2''), (''capabilities'', number 31)],
        AObject
          [(''level'', AString ''status''), (''code'', AString ''NetConnection.Connect.Success''),
           (''description'', AString ''Connection succeeded.''), (''objectEncoding'', ANumber oe)]]"

definition on_status :: "int \<Rightarrow> string \<Rightarrow> string \<Rightarrow> 'cfg message" where
  "on_status i code description =
     command 5 0x1000000 ''onStatus'' i
       [ANull, AObject [(''level'', AString ''status''), (''code'', AString code), (''description'', AString description)]]"

definition server_stream_created :: "CommandAMF0 \<Rightarrow> 'cfg message" where
  "server_stream_created cmd =
     command (cm_ChunkStreamID cmd) 0 ''_result'' (cm_CommandID cmd) [ANull, number 1]"

definition server_play :: "'cfg codecs \<Rightarrow> string \<Rightarrow> string \<Rightarrow> CommandAMF0 \<Rightarrow> (url \<times> bool) conn_step" where
  "server_play cs tcURL connectpath cmd rw =
     (case cm_Arguments cmd of
        _ # AString actionpath # _ \<Rightarrow>
          bindS (createURL tcURL connectpath actionpath, rw) (\<lambda>u rw.
          bindS (Conn_Write cs (MUserControlStreamIsRecorded 1) rw) (\<lambda>_ rw.
          bindS (Conn_Write cs (MUserControlStreamBegin 1) rw) (\<lambda>_ rw.
          bindS (Conn_Write cs (on_status (cm_CommandID cmd) ''NetStream.Play.Reset'' ''play reset'') rw) (\<lambda>_ rw.
          bindS (Conn_Write cs (on_status (cm_CommandID cmd) ''NetStream.Play.Start'' ''play start'') rw) (\<lambda>_ rw.
          bindS (Conn_Write cs (on_status (cm_CommandID cmd) ''NetStream.Data.Start'' ''data start'') rw) (\<lambda>_ rw.
          bindS (Conn_Write cs (on_status (cm_CommandID cmd) ''NetStream.Play.PublishNotify'' ''publish notify'') rw) (\<lambda>_ rw.
          (Inr (u, False), rw))))))))
      | _ \<Rightarrow> (Inl (Errorf ''invalid play command arguments'' []), rw))"

definition server_publish :: "'cfg codecs \<Rightarrow> string \<Rightarrow> string \<Rightarrow> CommandAMF0 \<Rightarrow> (url \<times> bool) conn_step" where
  "server_publish cs tcURL connectpath cmd rw =
     (case cm_Arguments cmd of
        _ # AString actionpath # _ \<Rightarrow>
          bindS (createURL tcURL connectpath actionpath, rw) (\<lambda>u rw.
          bindS (Conn_Write cs (on_status (cm_CommandID cmd) ''NetStream.Publish.Start'' ''publish start'') rw) (\<lambda>_ rw.
          (Inr (u, True), rw)))
      | _ \<Rightarrow> (Inl (Errorf ''invalid publish command arguments'' []), rw))"

lemma readCommand_consumes: "readCommand cs rw = (Inr cmd, rw') \<Longrightarrow> length (r_br rw') < length (r_br rw)"
proof (induction cs rw rule: readCommand.induct)
  case (1 cs rw)
  obtain res rw1 where r: "Conn_Read cs rw = (res, rw1)" by fastforce
  then obtain msg where msg: "res = Inr msg"
    using 1(2) by (cases res) (auto simp: readCommand.simps [of cs rw])
  with r Conn_Read_consumes have "length (r_br rw1) < length (r_br rw)" by blast
  then show ?case
    using 1 r msg by (cases "as_command msg") (auto simp: readCommand.simps [of cs rw])
qed

text \<open>The loop of \<open>initializeServer\<close>.\<close>

function server_loop :: "'cfg codecs \<Rightarrow> string \<Rightarrow> string \<Rightarrow> (url \<times> bool) conn_step" where
  "server_loop cs tcURL connectpath rw =
     (case readCommand cs rw of
        (Inl e, rw1) \<Rightarrow> (Inl e, rw1)
      | (Inr cmd, rw1) \<Rightarrow>
          if cm_Name cmd = ''createStream'' then
            (case Conn_Write cs (server_stream_created cmd) rw1 of
               (Inl e, rw2) \<Rightarrow> (Inl e, rw2)
             | (Inr _, rw2) \<Rightarrow> server_loop cs tcURL connectpath rw2)
          else if cm_Name cmd = ''play'' then server_play cs tcURL connectpath cmd rw1
          else if cm_Name cmd = ''publish'' then server_publish cs tcURL connectpath cmd rw1
          else server_loop cs tcURL connectpath rw1)"
  by pat_completeness auto
termination
  by (relation "measure (\<lambda>(_, _, _, rw). length (r_br rw))")
    (auto dest!: sym [of _ "readCommand _ _", THEN readCommand_consumes] dest: Conn_Write_consumes)

declare server_loop.simps [simp del]

text \<open>\<open>initializeServer\<close> from the end of the handshake on.\<close>

definition object_of :: "amf \<Rightarrow> (string \<times> amf) list option" where
  "object_of v = (case v of AObject ma \<Rightarrow> Some ma | AECMAArray ma \<Rightarrow> Some ma | _ \<Rightarrow> None)"

definition connect_params :: "CommandAMF0 \<Rightarrow> (string \<times> string \<times> u64) result" where
  "connect_params cmd =
     (if cm_Name cmd \<noteq> ''connect'' then Inl (Errorf ''unexpected command'' [])
      else case cm_Arguments cmd of
        [] \<Rightarrow> Inl invalid_connect
      | arg # _ \<Rightarrow>
          (case object_of arg of
             None \<Rightarrow> Inl invalid_connect
           | Some ma \<Rightarrow>
               (case GetString ma ''app'' of
                  None \<Rightarrow> Inl invalid_connect
                | Some connectpath \<Rightarrow>
                    (case (case GetString ma ''tcUrl'' of None \<Rightarrow> GetString ma ''tcurl'' | Some v \<Rightarrow> Some v) of
                       None \<Rightarrow> Inl invalid_connect
                     | Some tcURL \<Rightarrow>
                         Inr (connectpath, Trim quote tcURL,
                              case GetFloat64 ma ''objectEncoding'' of None \<Rightarrow> 0 | Some oe \<Rightarrow> oe)))))"

definition server_commands :: "'cfg codecs \<Rightarrow> (url \<times> bool) conn_step" where
  "server_commands cs rw =
     bindS (readCommand cs rw) (\<lambda>cmd rw.
     bindS (connect_params cmd, rw) (\<lambda>(connectpath, tcURL, oe) rw.
     bindS (announce cs rw) (\<lambda>_ rw.
     bindS (Conn_Write cs (server_result cmd oe) rw) (\<lambda>_ rw.
     server_loop cs tcURL connectpath rw))))"

section \<open>Connections\<close>

text \<open>
  What a connection is made with: the codec configurations, HMAC-SHA256, the group of the key exchange, the counts of
  the byte counters and the outcomes of the writes after the handshake.
\<close>

record 'cfg conn_env =
  ce_codecs :: "'cfg codecs"
  ce_hmac :: hmac_fun
  ce_group :: dh_group
  ce_rcount :: "nat \<Rightarrow> u64"
  ce_wcount :: "nat \<Rightarrow> u64"
  ce_fail :: "nat \<Rightarrow> go_error option"

text \<open>The state of a connection: what the handshake left, the ciphers if it is encrypted, and the read-writer.\<close>

record conn =
  c_io :: hs_io
  c_rc4 :: "rc4_readwriter option"
  c_mrw :: "raw_writer raw_reader option"

definition new_mrw :: "'cfg conn_env \<Rightarrow> bytes \<Rightarrow> raw_writer raw_reader" where
  "new_mrw env br = NewReadWriter br (ce_rcount env) (ce_fail env) (ce_wcount env) False"

definition NewClientConn :: "'cfg conn_env \<Rightarrow> url \<Rightarrow> bool \<Rightarrow> hs_io \<Rightarrow> unit result \<times> conn" where
  "NewClientConn env u publish io =
     (case DoClient (ce_hmac env) (ce_group env) False False io of
        (Inl e, io') \<Rightarrow> (Inl e, \<lparr>c_io = io', c_rc4 = None, c_mrw = None\<rparr>)
      | (Inr _, io') \<Rightarrow>
          (case client_commands (ce_codecs env) u publish (new_mrw env (io_in io')) of
             (r, rw) \<Rightarrow> (r, \<lparr>c_io = io', c_rc4 = None, c_mrw = Some rw\<rparr>)))"

definition NewServerConn :: "'cfg conn_env \<Rightarrow> hs_io \<Rightarrow> (url \<times> bool) result \<times> conn" where
  "NewServerConn env io =
     (case DoServer (ce_hmac env) (ce_group env) False io of
        (Inl e, io') \<Rightarrow> (Inl e, \<lparr>c_io = io', c_rc4 = None, c_mrw = None\<rparr>)
      | (Inr None, io') \<Rightarrow>
          (case server_commands (ce_codecs env) (new_mrw env (io_in io')) of
             (r, rw) \<Rightarrow> (r, \<lparr>c_io = io', c_rc4 = None, c_mrw = Some rw\<rparr>))
      | (Inr (Some (keyIn, keyOut)), io') \<Rightarrow>
          (case newRC4ReadWriter keyIn keyOut of
             Inl e \<Rightarrow> (Inl e, \<lparr>c_io = io', c_rc4 = None, c_mrw = None\<rparr>)
           | Inr rc \<Rightarrow>
               (case server_commands (ce_codecs env) (new_mrw env (fst (rc4_Read (io_in io') rc))) of
                  (r, rw) \<Rightarrow> (r, \<lparr>c_io = io', c_rc4 = Some rc, c_mrw = Some rw\<rparr>))))"

definition newNoHandshakeConn :: "'cfg conn_env \<Rightarrow> hs_io \<Rightarrow> conn" where
  "newNoHandshakeConn env io = \<lparr>c_io = io, c_rc4 = None, c_mrw = Some (new_mrw env (io_in io))\<rparr>"

text \<open>All the bytes that a connection has sent.\<close>

definition sent :: "conn \<Rightarrow> bytes" where
  "sent c =
     io_out (c_io c) @
     (case c_mrw c of
        None \<Rightarrow> []
      | Some rw \<Rightarrow>
          (case c_rc4 c of None \<Rightarrow> w_out (r_sink rw) | Some rc \<Rightarrow> fst (rc4_Write (w_out (r_sink rw)) rc)))"

end
