(* ===== verification/ConnSession.thy ===== *)
theory ConnSession
  imports Conn
begin

text \<open>
  A client and a server against each other: the handshake, the commands that connect, and those that play or publish.
  The exchange is proved step by step over an interface, the port: what a side still has to receive and to send.
\<close>

section \<open>Acknowledgements that are not due\<close>

text \<open>
  The reader sends an acknowledgement when it has received more bytes than the window. A reader whose counter stays
  within the window leaves the writer alone.
\<close>

definition quiet :: "'w raw_reader \<Rightarrow> bool" where
  "quiet r \<longleftrightarrow> r_lastAckCount r = 0 \<and> (\<forall>n. (ucast (r_count r n) :: u32) \<le> windowAckSize) \<and>
     (r_ackWindowSize r = 0 \<or> windowAckSize \<le> r_ackWindowSize r)"

definition unmoved :: "'w raw_reader \<Rightarrow> 'w raw_reader \<Rightarrow> bool" where
  "unmoved r r' \<longleftrightarrow> r_sink r' = r_sink r \<and> r_lastAckCount r' = r_lastAckCount r \<and> r_count r' = r_count r \<and>
     r_ackWindowSize r' = r_ackWindowSize r"

lemma unmoved_refl [simp]: "unmoved r r"
  by (simp add: unmoved_def)

lemma unmoved_quiet: "unmoved r r' \<Longrightarrow> quiet r \<Longrightarrow> quiet r'"
  by (simp add: unmoved_def quiet_def)

lemma unmoved_trans: "unmoved r s \<Longrightarrow> unmoved s t \<Longrightarrow> unmoved r t"
  by (simp add: unmoved_def)

lemma not_due:
  assumes "quiet r" "r_ackWindowSize r \<noteq> 0"
  shows "\<not> r_ackWindowSize r < ucast (r_count r n) - r_lastAckCount r"
proof -
  have "(ucast (r_count r n) :: u32) \<le> r_ackWindowSize r"
    using assms unfolding quiet_def by (meson order_trans)
  then show ?thesis using assms(1) by (simp add: quiet_def not_less)
qed

lemma readChunk_unmoved:
  assumes "readChunk ack read r = (r', res)" "quiet r"
  shows "unmoved r r'"
proof -
  let ?r1 = "\<lambda>br'. r\<lparr>r_br := br', r_consumed := r_consumed r + (length (r_br r) - length br')\<rparr>"
  have q: "quiet (?r1 br)" for br using assms(2) by (simp add: quiet_def)
  have "readChunk ack read r = (case read (r_br r) of (res, br') \<Rightarrow> (?r1 br', res))"
    using not_due [OF q] by (auto simp: readChunk_def Let_def split: prod.split sum.split)
  with assms(1) show ?thesis
    by (auto simp: unmoved_def split: prod.splits)
qed

lemma readMessage_unmoved:
  assumes "readMessage ack fmt rc r = (rc', r', res)" "quiet r"
  shows "unmoved r r'"
  using assms(1)
  by (auto simp: readMessage_def readMessage_defs Let_def
      split: if_splits prod.splits sum.splits dest!: readChunk_unmoved [OF _ assms(2)])

lemma readStep_unmoved:
  assumes "readStep ack r = (r', res)" "quiet r"
  shows "unmoved r r'"
proof (cases "r_br r")
  case Nil
  with assms(1) show ?thesis by (simp add: readStep_def)
next
  case (Cons byt br)
  show ?thesis
  proof (cases "byt AND 0x3F < 2")
    case True
    with assms(1) Cons show ?thesis by (simp add: readStep_def)
  next
    case False
    obtain rc' r1 out where m: "readMessage ack (drop_bit 6 byt) (case r_chunkStreams r (byt AND 0x3F) of
        None \<Rightarrow> new_reader_chunk_stream | Some rc \<Rightarrow> rc) r = (rc', r1, out)"
      by (metis prod_cases3)
    with assms(1) Cons False have "r' = r1\<lparr>r_chunkStreams := (r_chunkStreams r1)(byt AND 0x3F \<mapsto> rc')\<rparr>"
      by (simp add: readStep_def Let_def)
    with readMessage_unmoved [OF m assms(2)] show ?thesis by (simp add: unmoved_def)
  qed
qed

lemma Read_unmoved: "Read ack r = (r', res) \<Longrightarrow> quiet r \<Longrightarrow> unmoved r r'"
proof (induction ack r arbitrary: r' res rule: Read.induct)
  case (1 ack r)
  obtain s out where s: "readStep ack r = (s, out)" by fastforce
  note here = readStep_unmoved [OF s 1(3)]
  show ?case
  proof (cases "out = Inl MoreChunksNeeded")
    case True
    with 1(2) s have "Read ack s = (r', res)" by (subst (asm) Read.simps) simp
    with 1(1) [OF s [symmetric] True refl] unmoved_quiet [OF here 1(3)] unmoved_trans [OF here] show ?thesis
      by blast
  next
    case False
    with 1(2) s have "r' = s" by (subst (asm) Read.simps) (auto split: sum.splits if_splits)
    with here show ?thesis by simp
  qed
qed

section \<open>The port of one side\<close>

text \<open>Messages that the read-writer passes on without an answer, and a window that keeps the reader quiet.\<close>

definition unanswered :: "'cfg message \<Rightarrow> bool" where
  "unanswered msg =
     (case msg of
        MAcknowledge _ \<Rightarrow> False
      | MUserControlPingRequest _ \<Rightarrow> False
      | MSetWindowAckSize v \<Rightarrow> windowAckSize \<le> v
      | _ \<Rightarrow> True)"

lemma ReadWriter_Read_unanswered:
  assumes "ReadWriter_Read cs rw = (rw', Inr msg)" "unanswered msg" "quiet rw"
  shows "quiet rw' \<and> r_sink rw' = r_sink rw"
proof -
  obtain r1 res where r1: "Read (rw_ack cs) rw = (r1, res)" by fastforce
  note un = Read_unmoved [OF r1 assms(3)]
  from assms(1) r1 obtain raw where raw: "res = Inr raw"
    by (cases res) (auto simp: ReadWriter_Read_def Message_Read_def)
  with assms(1) r1 obtain msg' where "Message_unmarshal cs raw = Inr msg'"
    by (cases "Message_unmarshal cs raw") (auto simp: ReadWriter_Read_def Message_Read_def)
  moreover from this assms(1) r1 raw have "msg' = msg"
    by (auto simp: ReadWriter_Read_def Message_Read_def split: message.splits prod.splits sum.splits option.splits)
  ultimately show ?thesis
    using assms(1,2) r1 raw un unmoved_quiet [OF un assms(3)]
    by (cases msg)
      (auto simp: ReadWriter_Read_def Message_Read_def unanswered_def unmoved_def quiet_def Reader_SetChunkSize_def
        Reader_SetWindowAckSize_def split: if_splits)
qed

text \<open>
  \<open>port cs wire ins outs rw\<close>: the bytes that will arrive are those of the messages \<open>ins\<close>, and once the messages
  \<open>outs\<close> are written the bytes written are \<open>wire\<close>.
\<close>

definition port :: "'cfg codecs \<Rightarrow> bytes \<Rightarrow> 'cfg message list \<Rightarrow> 'cfg message list \<Rightarrow> raw_writer raw_reader \<Rightarrow> bool" where
  "port cs wire ins outs rw \<longleftrightarrow>
     writer_ready (r_sink rw) \<and> 0 < r_chunkSize rw \<and> quiet rw \<and>
     (\<forall>msg\<in>set ins. transmittable cs msg \<and> unanswered msg) \<and> sorted_wrt follows (map (raw_of cs) ins) \<and>
     (\<exists>f. streams_in_step f (r_chunkStreams rw) \<and>
       (\<forall>msg\<in>set ins. continues (writer_stream f (m_ChunkStreamID (raw_of cs msg))) (raw_of cs msg)) \<and>
       r_br rw = session_out cs (r_chunkSize rw) f ins) \<and>
     (\<forall>msg\<in>set outs. transmittable cs msg) \<and>
     w_out (r_sink rw) @ session_out cs (w_chunkSize (r_sink rw)) (w_chunkStreams (r_sink rw)) outs = wire"

lemma port_read:
  assumes "port cs wire (msg # ins) outs rw"
  shows "\<exists>rw'. Conn_Read cs rw = (Inr msg, rw') \<and> port cs wire ins outs rw'"
proof -
  let ?raw = "raw_of cs msg"
  obtain f where f: "streams_in_step f (r_chunkStreams rw)"
    "\<forall>m\<in>set (msg # ins). continues (writer_stream f (m_ChunkStreamID (raw_of cs m))) (raw_of cs m)"
    "r_br rw = session_out cs (r_chunkSize rw) f (msg # ins)"
    using assms by (auto simp: port_def)
  let ?wc = "writer_stream f (m_ChunkStreamID ?raw)"
  let ?f = "f(m_ChunkStreamID ?raw \<mapsto> after_message ?raw ?wc)"
  have p: "writer_ready (r_sink rw)" "0 < r_chunkSize rw" "quiet rw" "transmittable cs msg" "unanswered msg"
    "sorted_wrt follows (map (raw_of cs) (msg # ins))"
    using assms by (auto simp: port_def)
  have wc: "writer_stream_ok ?wc" using f(1) by (simp add: streams_in_step_def)
  have br: "r_br rw = message_bytes (unat (r_chunkSize rw)) ?raw ?wc @
      session_out cs (next_size msg (r_chunkSize rw)) ?f ins"
    using f(3) by (simp add: Let_def)
  have cont: "continues ?wc ?raw" using f(2) by simp
  obtain rw' where rw': "ReadWriter_Read cs rw = (rw', Inr msg)"
    "r_br rw' = session_out cs (next_size msg (r_chunkSize rw)) ?f ins" "writer_ready (r_sink rw')"
    "r_chunkSize rw' = next_size msg (r_chunkSize rw)" "streams_in_step ?f (r_chunkStreams rw')"
    using ReadWriter_Read_step [OF p(1,2,4) refl refl f(1) cont br] by blast
  have "0 < r_chunkSize rw'"
    using p(2,4) rw'(4) by (auto simp: next_size_def transmittable_def split: message.split)
  moreover have "\<forall>m\<in>set ins. continues (writer_stream ?f (m_ChunkStreamID (raw_of cs m))) (raw_of cs m)"
    using f(2) p(6) continues_after [OF _ _ wc] by auto
  ultimately have "port cs wire ins outs rw'"
    using assms rw'(2-5) ReadWriter_Read_unanswered [OF rw'(1) p(5,3)] by (auto simp: port_def)
  with rw'(1) show ?thesis by (simp add: Conn_Read_def)
qed

lemma port_write:
  assumes "port cs wire ins (msg # outs) rw"
  shows "\<exists>rw'. Conn_Write cs msg rw = (Inr (), rw') \<and> port cs wire ins outs rw'"
proof -
  let ?w = "r_sink rw"
  let ?raw = "raw_of cs msg"
  have p: "writer_ready ?w" "transmittable cs msg" using assms by (auto simp: port_def)
  obtain w' where w': "Message_Write cs msg ?w = (w', None)" "writer_ready w'"
    "w_out w' = w_out ?w @ message_bytes (unat (w_chunkSize ?w)) ?raw (writer_stream (w_chunkStreams ?w) (m_ChunkStreamID ?raw))"
    "w_chunkSize w' = next_size msg (w_chunkSize ?w)"
    "w_chunkStreams w' = (w_chunkStreams ?w)(m_ChunkStreamID ?raw \<mapsto>
      after_message ?raw (writer_stream (w_chunkStreams ?w) (m_ChunkStreamID ?raw)))"
    using Message_Write_ready [OF p refl refl] by blast
  have "w_out w' @ session_out cs (w_chunkSize w') (w_chunkStreams w') outs = wire"
    using assms w'(3-5) by (simp add: port_def Let_def)
  then have "port cs wire ins outs (rw\<lparr>r_sink := w'\<rparr>)"
    using assms w'(2) by (auto simp: port_def quiet_def)
  with w'(1) show ?thesis by (simp add: Conn_Write_def ReadWriter_Write_def)
qed

text \<open>At the end of the input, the reader reports it.\<close>

lemma port_end:
  assumes "port cs wire [] outs rw"
  shows "Conn_Read cs rw = (Inl EOF, rw)"
proof -
  have "r_br rw = []" using assms by (auto simp: port_def)
  then have "readStep ack rw = (rw, Inl EOF)" for ack :: "raw_writer ack" by (simp add: readStep_def)
  then have "Read ack rw = (rw, Inl EOF)" for ack :: "raw_writer ack" by (subst Read.simps) simp
  then show ?thesis by (simp add: Conn_Read_def ReadWriter_Read_def Message_Read_def)
qed

lemma port_new:
  assumes "\<forall>n. (ucast (ce_rcount env n) :: u32) \<le> windowAckSize" "ce_fail env = (\<lambda>_. None)"
    "\<forall>msg\<in>set ins. transmittable cs msg \<and> unanswered msg" "sorted_wrt follows (map (raw_of cs) ins)"
    "\<forall>msg\<in>set outs. transmittable cs msg"
  shows "port cs (session_out cs 128 Map.empty outs) ins outs (new_mrw env (session_out cs 128 Map.empty ins))"
  using assms
  by (auto simp: port_def new_mrw_def NewReadWriter_def raw_NewReader_def raw_NewWriter_def writer_ready_def
      writer_live_def quiet_def streams_in_step_def intro: exI [of _ Map.empty])

lemma port_done: "port cs wire ins [] rw \<Longrightarrow> w_out (r_sink rw) = wire"
  by (simp add: port_def)

section \<open>Programs over a port\<close>

text \<open>
  A client of this interface needs no more of the connection than this: what is to arrive is read, what is to be sent
  is written, and after that the input ends.
\<close>

locale message_port =
  fixes cs :: "'cfg codecs" and prt :: "'cfg message list \<Rightarrow> 'cfg message list \<Rightarrow> raw_writer raw_reader \<Rightarrow> bool"
  assumes reads: "prt (msg # ins) outs rw \<Longrightarrow> \<exists>rw'. Conn_Read cs rw = (Inr msg, rw') \<and> prt ins outs rw'"
    and writes: "prt ins (msg # outs) rw \<Longrightarrow> \<exists>rw'. Conn_Write cs msg rw = (Inr (), rw') \<and> prt ins outs rw'"
    and ends: "prt [] outs rw \<Longrightarrow> Conn_Read cs rw = (Inl EOF, rw)"
begin

text \<open>\<open>goes\<close>: the program returns \<open>v\<close> having moved the port on. \<open>waits\<close>: it needs input that is not there.\<close>

definition goes where
  "goes ins outs c v ins' outs' \<longleftrightarrow> (\<forall>rw. prt ins outs rw \<longrightarrow> (\<exists>rw'. c rw = (Inr v, rw') \<and> prt ins' outs' rw'))"

definition waits where
  "waits ins outs c \<longleftrightarrow> (\<forall>rw. prt ins outs rw \<longrightarrow> (\<exists>rw'. c rw = (Inl EOF, rw') \<and> prt [] [] rw'))"

lemma goes_write: "goes ins (msg # outs) (Conn_Write cs msg) () ins outs"
  using writes by (simp add: goes_def)

lemma goes_value: "r = Inr v \<Longrightarrow> goes ins outs (\<lambda>rw. (r, rw)) v ins outs"
  by (simp add: goes_def)

lemma goes_bind:
  "goes ins outs c v ins' outs' \<Longrightarrow> goes ins' outs' (k v) w ins2 outs2 \<Longrightarrow>
    goes ins outs (\<lambda>rw. bindS (c rw) (\<lambda>v rw. k v rw)) w ins2 outs2"
  unfolding goes_def by (metis bindS_simps(2))

lemma waits_bind: "waits ins outs c \<Longrightarrow> waits ins outs (\<lambda>rw. bindS (c rw) k)"
  unfolding waits_def by (metis bindS_simps(1))

lemma waits_after:
  "goes ins outs c v ins' outs' \<Longrightarrow> waits ins' outs' (k v) \<Longrightarrow> waits ins outs (\<lambda>rw. bindS (c rw) (\<lambda>v rw. k v rw))"
  unfolding goes_def waits_def by (metis bindS_simps(2))

lemma goes_readCommand:
  "\<forall>msg\<in>set skipped. as_command msg = None \<Longrightarrow> as_command msg = Some cmd \<Longrightarrow>
    goes (skipped @ msg # ins) outs (readCommand cs) cmd ins outs"
proof (induction skipped)
  case Nil
  show ?case
    unfolding goes_def append_Nil
  proof (intro allI impI)
    fix rw
    assume "prt (msg # ins) outs rw"
    then obtain rw' where "Conn_Read cs rw = (Inr msg, rw')" "prt ins outs rw'" using reads by blast
    with Nil(2) show "\<exists>rw'. readCommand cs rw = (Inr cmd, rw') \<and> prt ins outs rw'"
      by (simp add: readCommand.simps [of cs rw])
  qed
next
  case (Cons m skipped)
  then have ih: "goes (skipped @ msg # ins) outs (readCommand cs) cmd ins outs" "as_command m = None" by simp_all
  show ?case
    unfolding goes_def append_Cons
  proof (intro allI impI)
    fix rw
    assume "prt (m # skipped @ msg # ins) outs rw"
    then obtain rw' where "Conn_Read cs rw = (Inr m, rw')" "prt (skipped @ msg # ins) outs rw'" using reads by blast
    with ih show "\<exists>rw'. readCommand cs rw = (Inr cmd, rw') \<and> prt ins outs rw'"
      by (simp add: readCommand.simps [of cs rw] goes_def)
  qed
qed

lemma waits_readCommand: "\<forall>msg\<in>set skipped. as_command msg = None \<Longrightarrow> waits skipped [] (readCommand cs)"
proof (induction skipped)
  case Nil
  then show ?case using ends by (auto simp: waits_def readCommand.simps)
next
  case (Cons m skipped)
  show ?case
    unfolding waits_def
  proof (intro allI impI)
    fix rw
    assume "prt (m # skipped) [] rw"
    then obtain rw' where "Conn_Read cs rw = (Inr m, rw')" "prt skipped [] rw'" using reads by blast
    with Cons show "\<exists>rw'. readCommand cs rw = (Inl EOF, rw') \<and> prt [] [] rw'"
      by (simp add: readCommand.simps [of cs rw] waits_def)
  qed
qed

text \<open>The messages that a wait for a result passes over.\<close>

definition no_answer where
  "no_answer i name msg \<longleftrightarrow>
     (\<forall>cmd. as_command msg = Some cmd \<longrightarrow> \<not> ((cm_CommandID cmd = i \<or> cm_CommandID cmd = 0) \<and> cm_Name cmd = name))"

lemma result_step:
  assumes "prt (m # ins) outs rw" "no_answer i name m"
  shows "\<exists>rw'. readCommandResult cs i name ok rw = readCommandResult cs i name ok rw' \<and> prt ins outs rw'"
proof -
  obtain rw' where "Conn_Read cs rw = (Inr m, rw')" "prt ins outs rw'" using reads [OF assms(1)] by blast
  with assms(2) show ?thesis
    by (auto simp: readCommandResult.simps [of cs i name ok rw] no_answer_def split: option.split)
qed

lemma goes_result:
  assumes "\<forall>msg\<in>set skipped. no_answer i name msg" "as_command msg = Some cmd" "cm_CommandID cmd = i"
    "cm_Name cmd = name" "ok cmd"
  shows "goes (skipped @ msg # ins) outs (readCommandResult cs i name ok) () ins outs"
  using assms(1)
proof (induction skipped)
  case Nil
  show ?case
    unfolding goes_def append_Nil
  proof (intro allI impI)
    fix rw
    assume "prt (msg # ins) outs rw"
    then obtain rw' where "Conn_Read cs rw = (Inr msg, rw')" "prt ins outs rw'" using reads by blast
    with assms(2-) show "\<exists>rw'. readCommandResult cs i name ok rw = (Inr (), rw') \<and> prt ins outs rw'"
      by (simp add: readCommandResult.simps [of cs i name ok rw])
  qed
next
  case (Cons m skipped)
  then show ?case
    unfolding goes_def append_Cons using result_step by (metis list.set_intros(1,2))
qed

lemma waits_result: "\<forall>msg\<in>set skipped. no_answer i name msg \<Longrightarrow> waits skipped [] (readCommandResult cs i name ok)"
proof (induction skipped)
  case Nil
  then show ?case using ends by (auto simp: waits_def readCommandResult.simps)
next
  case (Cons m skipped)
  then show ?case
    unfolding waits_def using result_step by (metis list.set_intros(1,2))
qed

end

interpretation conn: message_port cs "port cs wire" for cs wire
  using port_read port_write port_end by unfold_locales

section \<open>The exchange\<close>

text \<open>What each side sends, turn by turn.\<close>

definition announcements :: "'cfg message list" where
  "announcements =
     [MSetWindowAckSize windowAckSize, MSetPeerBandwidth \<lparr>pb_Value = windowAckSize, pb_Type = 2\<rparr>, MSetChunkSize 65536]"

definition client_turn1 :: "string \<Rightarrow> string \<Rightarrow> 'cfg message list" where
  "client_turn1 app tc = announcements @ [client_connect app tc]"

definition client_turn2 :: "bool \<Rightarrow> string \<Rightarrow> 'cfg message list" where
  "client_turn2 publish stream =
     (if publish
      then [command 3 0 ''releaseStream'' 2 [ANull, AString stream], command 3 0 ''FCPublish'' 3 [ANull, AString stream],
            command 3 0 ''createStream'' 4 [ANull]]
      else [command 3 0 ''createStream'' 2 [ANull]])"

definition client_turn3 :: "bool \<Rightarrow> string \<Rightarrow> string \<Rightarrow> 'cfg message list" where
  "client_turn3 publish app stream =
     (if publish then [command 4 0x1000000 ''publish'' 5 [ANull, AString stream, AString app]]
      else [MUserControlSetBufferLength \<lparr>bl_StreamID = 0, bl_BufferLength = 0x64\<rparr>,
            command 4 0x1000000 ''play'' 3 [ANull, AString stream]])"

definition simple_command :: "string \<Rightarrow> int \<Rightarrow> amf list \<Rightarrow> CommandAMF0" where
  "simple_command name i args =
     \<lparr>cm_ChunkStreamID = 3, cm_MessageStreamID = 0, cm_Name = name, cm_CommandID = i, cm_Arguments = args\<rparr>"

definition server_turn1 :: "'cfg message list" where
  "server_turn1 = announcements @ [server_result (simple_command ''connect'' 1 []) 0]"

definition server_turn2 :: "bool \<Rightarrow> 'cfg message list" where
  "server_turn2 publish = [server_stream_created (simple_command ''createStream'' (if publish then 4 else 2) [])]"

definition play_notices :: "'cfg message list" where
  "play_notices =
     [on_status 3 ''NetStream.Play.Start'' ''play start'', on_status 3 ''NetStream.Data.Start'' ''data start'',
      on_status 3 ''NetStream.Play.PublishNotify'' ''publish notify'']"

definition server_turn3 :: "bool \<Rightarrow> 'cfg message list" where
  "server_turn3 publish =
     (if publish then [on_status 5 ''NetStream.Publish.Start'' ''publish start'']
      else [MUserControlStreamIsRecorded 1, MUserControlStreamBegin 1, on_status 3 ''NetStream.Play.Reset'' ''play reset''] @
           play_notices)"

lemma as_command_simps [simp]:
  "as_command (command c m name i args) =
    Some \<lparr>cm_ChunkStreamID = c, cm_MessageStreamID = m, cm_Name = name, cm_CommandID = i, cm_Arguments = args\<rparr>"
  "as_command (MSetWindowAckSize v) = None" "as_command (MSetPeerBandwidth b) = None" "as_command (MSetChunkSize v) = None"
  "as_command (MUserControlSetBufferLength l) = None" "as_command (MUserControlStreamIsRecorded v) = None"
  "as_command (MUserControlStreamBegin v) = None"
  by (simp_all add: as_command_def command_def)

lemma result_simps [simp]:
  "as_command (server_result cmd oe) = Some \<lparr>cm_ChunkStreamID = cm_ChunkStreamID cmd, cm_MessageStreamID = 0,
      cm_Name = ''_result'', cm_CommandID = cm_CommandID cmd,
      cm_Arguments = [AObject [(''fmsVer'', AString ''LNX 9,0,124,2''), (''capabilities'', number 31)],
        AObject [(''level'', AString ''status''), (''code'', AString ''NetConnection.Connect.Success''),
          (''description'', AString ''Connection succeeded.''), (''objectEncoding'', ANumber oe)]]\<rparr>"
  "as_command (server_stream_created cmd) = Some \<lparr>cm_ChunkStreamID = cm_ChunkStreamID cmd, cm_MessageStreamID = 0,
      cm_Name = ''_result'', cm_CommandID = cm_CommandID cmd, cm_Arguments = [ANull, number 1]\<rparr>"
  "as_command (on_status i code desc) = Some \<lparr>cm_ChunkStreamID = 5, cm_MessageStreamID = 0x1000000, cm_Name = ''onStatus'',
      cm_CommandID = i,
      cm_Arguments = [ANull, AObject [(''level'', AString ''status''), (''code'', AString code), (''description'', AString desc)]]\<rparr>"
  "as_command (client_connect app tc) = Some (simple_command ''connect'' 1
      [AObject
          [(''app'', AString app), (''flashVer'', AString ''LNX 9,0,124,2''), (''tcUrl'', AString tc),
           (''fpad'', ABoolean False), (''capabilities'', number 15), (''audioCodecs'', number 4071),
           (''videoCodecs'', number 252), (''videoFunction'', number 1)]])"
  by (simp_all add: server_result_def server_stream_created_def on_status_def client_connect_def simple_command_def)

context message_port
begin

lemma announce_eq: "announce cs =
  (\<lambda>rw. bindS (Conn_Write cs (MSetWindowAckSize windowAckSize) rw) (\<lambda>_ rw.
     bindS (Conn_Write cs (MSetPeerBandwidth \<lparr>pb_Value = windowAckSize, pb_Type = 2\<rparr>) rw) (\<lambda>_ rw.
     Conn_Write cs (MSetChunkSize 65536) rw)))"
  by (rule ext) (simp add: announce_def)

lemma goes_announce: "goes ins (announcements @ outs) (announce cs) () ins outs"
  unfolding announce_eq announcements_def append_Cons append_Nil
  by ((rule goes_bind [OF goes_write])+, rule goes_write)

lemma waits_first:
  assumes "\<forall>msg\<in>set skipped. no_answer i name msg"
  shows "waits skipped [] (\<lambda>rw. bindS (readCommandResult cs i name ok rw) k)"
  by (rule waits_bind [OF waits_result [OF assms]])

lemma no_answers:
  "\<forall>msg\<in>set announcements. no_answer i name msg"
  "no_answer i name (MUserControlStreamIsRecorded v)" "no_answer i name (MUserControlStreamBegin v)"
  by (simp_all add: announcements_def no_answer_def)

lemma goes_connected:
  "goes (server_turn1 @ ins) outs (readCommandResult cs 1 ''_result'' resultIsOK1) () ins outs"
  unfolding server_turn1_def append_assoc append_Cons append_Nil
  by (rule goes_result [OF no_answers(1) result_simps(1)]) (simp_all add: simple_command_def resultIsOK1_def)

lemma goes_created:
  "goes (server_turn2 publish @ ins) outs (readCommandResult cs (if publish then 4 else 2) ''_result'' resultIsOK2) () ins outs"
  using goes_result [of "[]" "if publish then 4 else 2" "''_result''"
      "server_stream_created (simple_command ''createStream'' (if publish then 4 else 2) [])" _ resultIsOK2 ins outs]
  by (simp add: server_turn2_def simple_command_def resultIsOK2_def number_def)

lemma goes_status:
  "goes (server_turn3 publish @ ins) outs (readCommandResult cs (if publish then 5 else 3) ''onStatus'' resultIsOK1) ()
    ((if publish then [] else play_notices) @ ins) outs"
  using goes_result [of "[]" 5 "''onStatus''" "on_status 5 ''NetStream.Publish.Start'' ''publish start''" _ resultIsOK1 ins outs]
    goes_result [of "[MUserControlStreamIsRecorded 1, MUserControlStreamBegin 1]" 3 "''onStatus''"
      "on_status 3 ''NetStream.Play.Reset'' ''play reset''" _ resultIsOK1 "play_notices @ ins" outs]
  by (auto simp: server_turn3_def resultIsOK1_def no_answers)

text \<open>The client, up to the end of each turn of the server.\<close>

definition client_rest where
  "client_rest publish app stream rw =
     (if \<not> publish then client_play cs stream rw else client_publish cs app stream rw)"

lemma client_commands_eq:
  assumes "splitPath u = (app, stream)" "getTcURL u = Inr tc"
  shows "client_commands cs u publish =
    (\<lambda>rw. bindS (announce cs rw) (\<lambda>_ rw.
      bindS (Conn_Write cs (client_connect app tc) rw) (\<lambda>_ rw.
      bindS (readCommandResult cs 1 ''_result'' resultIsOK1 rw) (\<lambda>_ rw. client_rest publish app stream rw))))"
  by (rule ext) (simp add: client_commands_def assms client_rest_def)

definition client_ask where
  "client_ask publish stream rw =
     (if publish then
        bindS (Conn_Write cs (command 3 0 ''releaseStream'' 2 [ANull, AString stream]) rw) (\<lambda>_ rw.
        bindS (Conn_Write cs (command 3 0 ''FCPublish'' 3 [ANull, AString stream]) rw) (\<lambda>_ rw.
        Conn_Write cs (command 3 0 ''createStream'' 4 [ANull]) rw))
      else Conn_Write cs (command 3 0 ''createStream'' 2 [ANull]) rw)"

definition client_start where
  "client_start publish app stream rw =
     (if publish then Conn_Write cs (command 4 0x1000000 ''publish'' 5 [ANull, AString stream, AString app]) rw
      else
        bindS (Conn_Write cs (MUserControlSetBufferLength \<lparr>bl_StreamID = 0, bl_BufferLength = 0x64\<rparr>) rw) (\<lambda>_ rw.
        Conn_Write cs (command 4 0x1000000 ''play'' 3 [ANull, AString stream]) rw))"

lemma bindS_assoc: "bindS (bindS r f) g = bindS r (\<lambda>v s. bindS (f v s) g)"
  by (cases r; cases "fst r") auto

lemma client_rest_eq: "client_rest publish app stream =
    (\<lambda>rw. bindS (client_ask publish stream rw) (\<lambda>_ rw.
      bindS (readCommandResult cs (if publish then 4 else 2) ''_result'' resultIsOK2 rw) (\<lambda>_ rw.
      bindS (client_start publish app stream rw) (\<lambda>_ rw.
      readCommandResult cs (if publish then 5 else 3) ''onStatus'' resultIsOK1 rw))))"
  by (rule ext) (simp add: client_rest_def client_play_def client_publish_def client_ask_def client_start_def bindS_assoc)

lemma goes_ask: "goes ins (client_turn2 publish stream @ outs) (client_ask publish stream) () ins outs"
proof (cases publish)
  case True
  have "client_ask True stream = (\<lambda>rw. bindS (Conn_Write cs (command 3 0 ''releaseStream'' 2 [ANull, AString stream]) rw) (\<lambda>_ rw.
        bindS (Conn_Write cs (command 3 0 ''FCPublish'' 3 [ANull, AString stream]) rw) (\<lambda>_ rw.
        Conn_Write cs (command 3 0 ''createStream'' 4 [ANull]) rw)))"
    by (rule ext) (simp add: client_ask_def)
  then show ?thesis
    using True by (simp only: client_turn2_def if_True append_Cons append_Nil)
      ((rule goes_bind [OF goes_write])+, rule goes_write)
next
  case False
  have "client_ask False stream = Conn_Write cs (command 3 0 ''createStream'' 2 [ANull])"
    by (rule ext) (simp add: client_ask_def)
  then show ?thesis using False by (simp add: client_turn2_def goes_write)
qed

lemma goes_start: "goes ins (client_turn3 publish app stream @ outs) (client_start publish app stream) () ins outs"
proof (cases publish)
  case True
  have "client_start True app stream = Conn_Write cs (command 4 0x1000000 ''publish'' 5 [ANull, AString stream, AString app])"
    by (rule ext) (simp add: client_start_def)
  then show ?thesis using True by (simp add: client_turn3_def goes_write)
next
  case False
  have "client_start False app stream =
    (\<lambda>rw. bindS (Conn_Write cs (MUserControlSetBufferLength \<lparr>bl_StreamID = 0, bl_BufferLength = 0x64\<rparr>) rw) (\<lambda>_ rw.
        Conn_Write cs (command 4 0x1000000 ''play'' 3 [ANull, AString stream]) rw))"
    by (rule ext) (simp add: client_start_def)
  then show ?thesis
    using False by (simp only: client_turn3_def if_False append_Cons append_Nil)
      (rule goes_bind [OF goes_write goes_write])
qed

lemma client_turns:
  assumes "splitPath u = (app, stream)" "getTcURL u = Inr tc"
  shows "waits [] (client_turn1 app tc) (client_commands cs u publish)"
    "waits server_turn1 (client_turn1 app tc @ client_turn2 publish stream) (client_commands cs u publish)"
    "waits (server_turn1 @ server_turn2 publish) (client_turn1 app tc @ client_turn2 publish stream @ client_turn3 publish app stream)
      (client_commands cs u publish)"
    "goes (server_turn1 @ server_turn2 publish @ server_turn3 publish)
      (client_turn1 app tc @ client_turn2 publish stream @ client_turn3 publish app stream)
      (client_commands cs u publish) () (if publish then [] else play_notices) []"
proof -
  note eq = client_commands_eq [OF assms]
  have w: "waits [] [] (\<lambda>rw. bindS (readCommandResult cs i name ok rw) k)" for i name ok k
    by (rule waits_first) simp
  have connect: "goes ins (client_connect app tc # outs) (Conn_Write cs (client_connect app tc)) () ins outs" for ins outs
    by (rule goes_write)
  show "waits [] (client_turn1 app tc) (client_commands cs u publish)"
    unfolding eq client_turn1_def by (rule waits_after [OF goes_announce], rule waits_after [OF connect], rule w)
  show "waits server_turn1 (client_turn1 app tc @ client_turn2 publish stream) (client_commands cs u publish)"
    unfolding eq client_turn1_def client_rest_eq append_assoc append_Cons append_Nil
    by (rule waits_after [OF goes_announce], rule waits_after [OF connect],
        rule waits_after [OF goes_connected [of "[]", unfolded append_Nil2]],
        rule waits_after [OF goes_ask [of _ _ _ "[]", unfolded append_Nil2]], rule w)
  show "waits (server_turn1 @ server_turn2 publish) (client_turn1 app tc @ client_turn2 publish stream @ client_turn3 publish app stream)
      (client_commands cs u publish)"
    unfolding eq client_turn1_def client_rest_eq append_assoc append_Cons append_Nil
    by (rule waits_after [OF goes_announce], rule waits_after [OF connect],
        rule waits_after [OF goes_connected], rule waits_after [OF goes_ask],
        rule waits_after [OF goes_created [of _ "[]", unfolded append_Nil2]],
        rule waits_after [OF goes_start [of _ _ _ _ "[]", unfolded append_Nil2]], rule waits_result) simp
  show "goes (server_turn1 @ server_turn2 publish @ server_turn3 publish)
      (client_turn1 app tc @ client_turn2 publish stream @ client_turn3 publish app stream)
      (client_commands cs u publish) () (if publish then [] else play_notices) []"
    unfolding eq client_turn1_def client_rest_eq append_assoc append_Cons append_Nil
    by (rule goes_bind [OF goes_announce], rule goes_bind [OF connect],
        rule goes_bind [OF goes_connected], rule goes_bind [OF goes_ask], rule goes_bind [OF goes_created],
        rule goes_bind [OF goes_start [of _ _ _ _ "[]", unfolded append_Nil2]],
        rule goes_status [of _ "[]", unfolded append_Nil2])
qed

text \<open>The server: one turn of its loop for each command.\<close>

lemma loop_command:
  assumes "\<forall>msg\<in>set skipped. as_command msg = None" "as_command msg = Some cmd" "prt (skipped @ msg # ins) outs rw"
  shows "\<exists>rw1. readCommand cs rw = (Inr cmd, rw1) \<and> prt ins outs rw1"
  using goes_readCommand [OF assms(1,2)] assms(3) unfolding goes_def by blast

lemma loop_created:
  assumes "\<forall>msg\<in>set skipped. as_command msg = None" "as_command msg = Some cmd" "cm_Name cmd = ''createStream''"
    "prt (skipped @ msg # ins) (server_stream_created cmd # outs) rw"
  shows "\<exists>rw2. server_loop cs tc app rw = server_loop cs tc app rw2 \<and> prt ins outs rw2"
proof -
  obtain rw1 where rw1: "readCommand cs rw = (Inr cmd, rw1)" "prt ins (server_stream_created cmd # outs) rw1"
    using loop_command [OF assms(1,2,4)] by blast
  obtain rw2 where "Conn_Write cs (server_stream_created cmd) rw1 = (Inr (), rw2)" "prt ins outs rw2"
    using writes [OF rw1(2)] by blast
  with rw1(1) assms(3) show ?thesis by (auto simp: server_loop.simps [of cs tc app rw])
qed

lemma loop_ignored:
  assumes "\<forall>msg\<in>set skipped. as_command msg = None" "as_command msg = Some cmd"
    "cm_Name cmd \<notin> {''createStream'', ''play'', ''publish''}" "prt (skipped @ msg # ins) outs rw"
  shows "\<exists>rw2. server_loop cs tc app rw = server_loop cs tc app rw2 \<and> prt ins outs rw2"
proof -
  obtain rw1 where "readCommand cs rw = (Inr cmd, rw1)" "prt ins outs rw1"
    using loop_command [OF assms(1,2,4)] by blast
  with assms(3) show ?thesis by (auto simp: server_loop.simps [of cs tc app rw])
qed

lemma loop_ignored1:
  "prt (command c m name i args # ins) outs rw \<Longrightarrow> name \<notin> {''createStream'', ''play'', ''publish''} \<Longrightarrow>
    \<exists>rw2. server_loop cs tc app rw = server_loop cs tc app rw2 \<and> prt ins outs rw2"
  using loop_ignored [of "[]", OF _ as_command_simps(1)] by simp

lemma loop_command1:
  "prt (skipped @ command c m name i args # ins) outs rw \<Longrightarrow> \<forall>msg\<in>set skipped. as_command msg = None \<Longrightarrow>
    \<exists>rw1. readCommand cs rw = (Inr \<lparr>cm_ChunkStreamID = c, cm_MessageStreamID = m, cm_Name = name, cm_CommandID = i,
      cm_Arguments = args\<rparr>, rw1) \<and> prt ins outs rw1"
  using loop_command [OF _ as_command_simps(1)] by blast

text \<open>The commands of the second turn of the client, and the answer to the last of them.\<close>

lemma loop_asked:
  assumes "prt (client_turn2 publish stream @ ins) (server_turn2 publish @ outs) rw"
  shows "\<exists>rw2. server_loop cs tc app rw = server_loop cs tc app rw2 \<and> prt ins outs rw2"
proof (cases publish)
  case True
  let ?cmd = "\<lambda>name i args. command 3 0 name i args"
  let ?outs = "server_stream_created (simple_command ''createStream'' 4 []) # outs"
  have same: "server_stream_created (simple_command ''createStream'' 4 []) = server_stream_created (simple_command ''createStream'' 4 [ANull])"
    by (simp add: server_stream_created_def simple_command_def)
  have p: "prt (?cmd ''releaseStream'' 2 [ANull, AString stream] # ?cmd ''FCPublish'' 3 [ANull, AString stream] #
      ?cmd ''createStream'' 4 [ANull] # ins) ?outs rw"
    using assms True by (simp add: client_turn2_def server_turn2_def)
  obtain a where a: "server_loop cs tc app rw = server_loop cs tc app a"
    "prt (?cmd ''FCPublish'' 3 [ANull, AString stream] # ?cmd ''createStream'' 4 [ANull] # ins) ?outs a"
    using loop_ignored1 [OF p, of tc app] by auto
  obtain b where b: "server_loop cs tc app a = server_loop cs tc app b"
    "prt (?cmd ''createStream'' 4 [ANull] # ins) (server_stream_created (simple_command ''createStream'' 4 [ANull]) # outs) b"
    using loop_ignored1 [OF a(2), of tc app] by (auto simp: same)
  with a show ?thesis
    using loop_created [of "[]" "?cmd ''createStream'' 4 [ANull]" _ ins outs b tc app] by (auto simp: simple_command_def)
next
  case False
  have "prt (command 3 0 ''createStream'' 2 [ANull] # ins) (server_stream_created (simple_command ''createStream'' 2 [ANull]) # outs) rw"
    using assms False by (simp add: client_turn2_def server_turn2_def server_stream_created_def simple_command_def)
  then show ?thesis
    using loop_created [of "[]" "command 3 0 ''createStream'' 2 [ANull]" _ ins outs rw tc app] by (auto simp: simple_command_def)
qed

lemma goes_server_play:
  assumes "createURL tc app stream = Inr u" "cm_Arguments cmd = [ANull, AString stream]" "cm_CommandID cmd = 3"
  shows "goes ins (server_turn3 False) (server_play cs tc app cmd) (u, False) ins []"
proof -
  have eq: "server_play cs tc app cmd =
    (\<lambda>rw. bindS (Conn_Write cs (MUserControlStreamIsRecorded 1) rw) (\<lambda>_ rw.
        bindS (Conn_Write cs (MUserControlStreamBegin 1) rw) (\<lambda>_ rw.
        bindS (Conn_Write cs (on_status 3 ''NetStream.Play.Reset'' ''play reset'') rw) (\<lambda>_ rw.
        bindS (Conn_Write cs (on_status 3 ''NetStream.Play.Start'' ''play start'') rw) (\<lambda>_ rw.
        bindS (Conn_Write cs (on_status 3 ''NetStream.Data.Start'' ''data start'') rw) (\<lambda>_ rw.
        bindS (Conn_Write cs (on_status 3 ''NetStream.Play.PublishNotify'' ''publish notify'') rw) (\<lambda>_ rw.
        (Inr (u, False), rw))))))))"
    by (rule ext) (simp add: server_play_def assms)
  show ?thesis
    unfolding eq server_turn3_def play_notices_def if_False append_Cons append_Nil
    by ((rule goes_bind [OF goes_write])+, rule goes_value, rule refl)
qed

lemma goes_server_publish:
  assumes "createURL tc app stream = Inr u" "cm_Arguments cmd = [ANull, AString stream, AString app]" "cm_CommandID cmd = 5"
  shows "goes ins (server_turn3 True) (server_publish cs tc app cmd) (u, True) ins []"
proof -
  have eq: "server_publish cs tc app cmd =
    (\<lambda>rw. bindS (Conn_Write cs (on_status 5 ''NetStream.Publish.Start'' ''publish start'') rw) (\<lambda>_ rw. (Inr (u, True), rw)))"
    by (rule ext) (simp add: server_publish_def assms)
  show ?thesis
    unfolding eq server_turn3_def if_True
    by (rule goes_bind [OF goes_write], rule goes_value, rule refl)
qed

lemma goes_started:
  assumes "createURL tc app stream = Inr u"
  shows "goes (client_turn3 publish app stream) (server_turn3 publish) (server_loop cs tc app) (u, publish) [] []"
  unfolding goes_def
proof (intro allI impI)
  fix rw
  assume prt: "prt (client_turn3 publish app stream) (server_turn3 publish) rw"
  show "\<exists>rw'. server_loop cs tc app rw = (Inr (u, publish), rw') \<and> prt [] [] rw'"
  proof (cases publish)
    case True
    then obtain cmd rw1 where cmd: "readCommand cs rw = (Inr cmd, rw1)" "prt [] (server_turn3 True) rw1"
      "cm_Name cmd = ''publish''" "cm_Arguments cmd = [ANull, AString stream, AString app]" "cm_CommandID cmd = 5"
      using loop_command1 [of "[]" 4 "0x1000000" "''publish''" 5 "[ANull, AString stream, AString app]" "[]" "server_turn3 True" rw] prt
      by (auto simp: client_turn3_def)
    then have "server_loop cs tc app rw = server_publish cs tc app cmd rw1"
      by (simp add: server_loop.simps [of cs tc app rw])
    with goes_server_publish [OF assms cmd(4,5), of "[]"] cmd(2) True show ?thesis by (simp add: goes_def)
  next
    case False
    then obtain cmd rw1 where cmd: "readCommand cs rw = (Inr cmd, rw1)" "prt [] (server_turn3 False) rw1"
      "cm_Name cmd = ''play''" "cm_Arguments cmd = [ANull, AString stream]" "cm_CommandID cmd = 3"
      using loop_command1 [of "[MUserControlSetBufferLength \<lparr>bl_StreamID = 0, bl_BufferLength = 0x64\<rparr>]"
          4 "0x1000000" "''play''" 3 "[ANull, AString stream]" "[]" "server_turn3 False" rw] prt
      by (auto simp: client_turn3_def)
    then have "server_loop cs tc app rw = server_play cs tc app cmd rw1"
      by (simp add: server_loop.simps [of cs tc app rw])
    with goes_server_play [OF assms cmd(4,5), of "[]"] cmd(2) False show ?thesis by (simp add: goes_def)
  qed
qed

lemma waits_loop: "waits [] [] (server_loop cs tc app)"
  using waits_readCommand [of "[]"] unfolding waits_def by (auto simp: server_loop.simps [of cs tc app])

lemma goes_connect:
  "goes (client_turn1 app tc @ ins) outs (readCommand cs) (simple_command ''connect'' 1
      [AObject
          [(''app'', AString app), (''flashVer'', AString ''LNX 9,0,124,2''), (''tcUrl'', AString tc),
           (''fpad'', ABoolean False), (''capabilities'', number 15), (''audioCodecs'', number 4071),
           (''videoCodecs'', number 252), (''videoFunction'', number 1)]]) ins outs"
  unfolding client_turn1_def append_assoc append_Cons append_Nil
  by (rule goes_readCommand) (simp_all add: announcements_def)

lemma server_eq: "server_commands cs = (\<lambda>rw. bindS (readCommand cs rw) (\<lambda>cmd rw.
     bindS (connect_params cmd, rw) (\<lambda>p rw.
     bindS (announce cs rw) (\<lambda>_ rw.
     bindS (Conn_Write cs (server_result cmd (snd (snd p))) rw) (\<lambda>_ rw.
     server_loop cs (fst (snd p)) (fst p) rw)))))"
  by (rule ext) (simp add: server_commands_def case_prod_unfold)

definition connect_command where
  "connect_command app tc = simple_command ''connect'' 1
      [AObject
          [(''app'', AString app), (''flashVer'', AString ''LNX 9,0,124,2''), (''tcUrl'', AString tc),
           (''fpad'', ABoolean False), (''capabilities'', number 15), (''audioCodecs'', number 4071),
           (''videoCodecs'', number 252), (''videoFunction'', number 1)]]"

lemma connect_command_params: "connect_params (connect_command app tc) = Inr (app, Trim quote tc, 0)"
  by (simp add: connect_command_def connect_params_def simple_command_def object_of_def GetString_def GetFloat64_def)

lemma server_turn1_eq: "server_turn1 = announcements @ [server_result (connect_command app tc) 0]"
  by (simp add: server_turn1_def server_result_def connect_command_def simple_command_def)

lemma server_turns:
  shows "waits [] [] (server_commands cs)"
    "waits (client_turn1 app tc) server_turn1 (server_commands cs)"
    "waits (client_turn1 app tc @ client_turn2 publish stream) (server_turn1 @ server_turn2 publish) (server_commands cs)"
    "createURL (Trim quote tc) app stream = Inr u \<Longrightarrow>
     goes (client_turn1 app tc @ client_turn2 publish stream @ client_turn3 publish app stream)
       (server_turn1 @ server_turn2 publish @ server_turn3 publish) (server_commands cs) (u, publish) [] []"
proof -
  note connect = goes_connect [of app tc, folded connect_command_def]
  note eq = server_eq server_turn1_eq [of app tc] append_assoc append_Cons append_Nil
  show "waits [] [] (server_commands cs)"
    unfolding server_eq by (rule waits_bind [OF waits_readCommand]) simp
  show "waits (client_turn1 app tc) server_turn1 (server_commands cs)"
    unfolding eq
    by (rule waits_after [OF connect [of "[]", unfolded append_Nil2]], rule waits_after [OF goes_value [OF connect_command_params]],
        rule waits_after [OF goes_announce], simp only: fst_conv snd_conv, rule waits_after [OF goes_write], rule waits_loop)
  have asked: "waits (client_turn2 publish stream) (server_turn2 publish) (server_loop cs t a)" for t a
    using loop_asked [of publish stream "[]" "[]", unfolded append_Nil2] waits_loop unfolding waits_def by metis
  show "waits (client_turn1 app tc @ client_turn2 publish stream) (server_turn1 @ server_turn2 publish) (server_commands cs)"
    unfolding eq
    by (rule waits_after [OF connect], rule waits_after [OF goes_value [OF connect_command_params]],
        rule waits_after [OF goes_announce], simp only: fst_conv snd_conv, rule waits_after [OF goes_write], rule asked)
  assume url: "createURL (Trim quote tc) app stream = Inr u"
  have started: "goes (client_turn2 publish stream @ client_turn3 publish app stream) (server_turn2 publish @ server_turn3 publish)
      (server_loop cs (Trim quote tc) app) (u, publish) [] []"
    using loop_asked [of publish stream "client_turn3 publish app stream" "server_turn3 publish"] goes_started [OF url]
    unfolding goes_def by metis
  show "goes (client_turn1 app tc @ client_turn2 publish stream @ client_turn3 publish app stream)
       (server_turn1 @ server_turn2 publish @ server_turn3 publish) (server_commands cs) (u, publish) [] []"
    unfolding eq
    by (rule goes_bind [OF connect], rule goes_bind [OF goes_value [OF connect_command_params]],
        rule goes_bind [OF goes_announce], simp only: fst_conv snd_conv, rule goes_bind [OF goes_write], rule started)
qed

end

section \<open>The messages can be transmitted\<close>

lemma length_marshal_items: "items_ok vs \<Longrightarrow> \<exists>body. Marshal vs = Inr body \<and> body = marshalItems vs"
  using marshal_sizes_ok(3) [of vs] by (auto simp: Marshal_def MarshalSize_def MarshalTo_def)

definition command_body :: "string \<Rightarrow> int \<Rightarrow> amf list \<Rightarrow> bytes" where
  "command_body name i args = marshalItems ([AString name, ANumber (float64_of_int i)] @ args)"

lemma command_raw:
  assumes "items_ok args" "length name < 65536"
  shows "raw_of cs (command c m name i args) = mk_raw c 0 TypeCommandAMF0 m (command_body name i args)"
  using length_marshal_items [of "[AString name, ANumber (float64_of_int i)] @ args"] assms
  by (auto simp: raw_of_def command_def CommandAMF0_marshal_def command_body_def)

lemma command_transmittable:
  assumes "2 \<le> c" "c < 64" "length name < 65536" "\<bar>i\<bar> < 2 ^ 53" "args \<noteq> []" "items_ok args"
    "length (marshalItems args) < 1000000"
  shows "transmittable cs (command c m name i args)"
proof -
  have "length (command_body name i args) \<le> 10 * 1024 * 1024"
    using assms(3,7) by (simp add: command_body_def)
  then show ?thesis
    using assms unfolding transmittable_def command_raw [OF assms(6,3)]
    by (simp add: command_def CommandAMF0_ok_def sendable_def received_untimed)
qed

text \<open>Messages without a timestamp, each chunk stream on a message stream of its own.\<close>

definition regular :: "'cfg codecs \<Rightarrow> 'cfg message \<Rightarrow> bool" where
  "regular cs msg \<longleftrightarrow>
     transmittable cs msg \<and> unanswered msg \<and> m_Timestamp (raw_of cs msg) = 0 \<and>
     m_MessageStreamID (raw_of cs msg) = (if m_ChunkStreamID (raw_of cs msg) \<in> {4, 5} then 0x1000000 else 0)"

lemma regular_follows: "regular cs a \<Longrightarrow> regular cs b \<Longrightarrow> follows (raw_of cs a) (raw_of cs b)"
  by (auto simp: regular_def follows_def msg_timestamp_def go_div_def)

lemma regular_sorted: "\<forall>msg\<in>set msgs. regular cs msg \<Longrightarrow> sorted_wrt follows (map (raw_of cs) msgs)"
  by (induction msgs) (auto intro: regular_follows)

lemma command_regular:
  assumes "2 \<le> c" "c < 64" "length name < 65536" "\<bar>i\<bar> < 2 ^ 53" "args \<noteq> []" "items_ok args"
    "length (marshalItems args) < 1000000" "m = (if c \<in> {4, 5} then 0x1000000 else 0)"
  shows "regular cs (command c m name i args)"
proof -
  have un: "unanswered (command c m name i args)" by (simp add: unanswered_def command_def)
  have "m_MessageStreamID (mk_raw c 0 TypeCommandAMF0 m body) = (if m_ChunkStreamID (mk_raw c 0 TypeCommandAMF0 m body) \<in> {4, 5}
      then 0x1000000 else 0)" "m_Timestamp (mk_raw c 0 TypeCommandAMF0 m body) = 0" for body
    using assms(8) by simp_all
  then show ?thesis
    unfolding regular_def command_raw [OF assms(6,3)] using command_transmittable [OF assms(1-7)] un by blast
qed

lemma control_regular:
  "regular cs (MSetWindowAckSize windowAckSize)" "regular cs (MSetPeerBandwidth b)" "regular cs (MSetChunkSize 65536)"
  "regular cs (MUserControlSetBufferLength l)" "regular cs (MUserControlStreamIsRecorded v)"
  "regular cs (MUserControlStreamBegin v)"
  by (simp_all add: regular_def unanswered_def transmittable_def raw_of_def received_untimed sendable_def
      SetWindowAckSize_marshal_def SetPeerBandwidth_marshal_def SetChunkSize_marshal_def
      UserControlSetBufferLength_marshal_def UserControlStreamIsRecorded_marshal_def UserControlStreamBegin_marshal_def
      ControlChunkStreamID_def maxBodySize_def)

lemma announcements_regular: "\<forall>msg\<in>set announcements. regular cs msg"
  by (simp add: announcements_def control_regular)

definition short :: "string \<Rightarrow> bool" where
  "short s \<longleftrightarrow> length s < 65536"

lemma client_regular:
  assumes "short app" "short stream" "short tc"
  shows "\<forall>msg\<in>set (client_turn1 app tc). regular cs msg" "\<forall>msg\<in>set (client_turn2 publish stream). regular cs msg"
    "\<forall>msg\<in>set (client_turn3 publish app stream). regular cs msg"
proof -
  have "regular cs (client_connect app tc)"
    using assms unfolding client_connect_def short_def by (intro command_regular) (simp_all add: number_def)
  then show "\<forall>msg\<in>set (client_turn1 app tc). regular cs msg"
    using announcements_regular by (auto simp: client_turn1_def)
  have "regular cs (command 3 0 name i [ANull, AString stream])" if "length name < 65536" "\<bar>i\<bar> < 2 ^ 53" for name i
    using assms that unfolding short_def by (intro command_regular) simp_all
  moreover have "regular cs (command 3 0 ''createStream'' i [ANull])" if "\<bar>i\<bar> < 2 ^ 53" for i
    using that by (intro command_regular) simp_all
  ultimately show "\<forall>msg\<in>set (client_turn2 publish stream). regular cs msg"
    by (simp add: client_turn2_def)
  have "regular cs (command 4 0x1000000 ''publish'' 5 [ANull, AString stream, AString app])"
    "regular cs (command 4 0x1000000 ''play'' 3 [ANull, AString stream])"
    using assms unfolding short_def by (intro command_regular; simp)+
  then show "\<forall>msg\<in>set (client_turn3 publish app stream). regular cs msg"
    by (simp add: client_turn3_def control_regular)
qed

lemma server_regular:
  "\<forall>msg\<in>set server_turn1. regular cs msg" "\<forall>msg\<in>set (server_turn2 publish). regular cs msg"
  "\<forall>msg\<in>set (server_turn3 publish). regular cs msg"
proof -
  have "regular cs (server_result (simple_command ''connect'' 1 []) 0)"
    unfolding server_result_def simple_command_def by (intro command_regular) (simp_all add: number_def)
  then show "\<forall>msg\<in>set server_turn1. regular cs msg"
    using announcements_regular by (auto simp: server_turn1_def)
  have "regular cs (command 3 0 ''_result'' i [ANull, number 1])" if "\<bar>i\<bar> < 2 ^ 53" for i
    using that by (intro command_regular) (simp_all add: number_def)
  then show "\<forall>msg\<in>set (server_turn2 publish). regular cs msg"
    by (simp add: server_turn2_def server_stream_created_def simple_command_def)
  have "regular cs (on_status i code desc)" if "\<bar>i\<bar> < 2 ^ 53" "length code < 1000" "length desc < 1000" for i code desc
    using that unfolding on_status_def by (intro command_regular) simp_all
  then show "\<forall>msg\<in>set (server_turn3 publish). regular cs msg"
    by (simp add: server_turn3_def play_notices_def control_regular)
qed

lemma port_regular:
  assumes "\<forall>n. (ucast (ce_rcount env n) :: u32) \<le> windowAckSize" "ce_fail env = (\<lambda>_. None)"
    "\<forall>msg\<in>set ins. regular cs msg" "\<forall>msg\<in>set outs. regular cs msg"
  shows "port cs (session_out cs 128 Map.empty outs) ins outs (new_mrw env (session_out cs 128 Map.empty ins))"
  using port_new [OF assms(1,2) _ regular_sorted [OF assms(3)]] assms(3,4) by (simp add: regular_def)

section \<open>The whole conversation\<close>

text \<open>What the handshake leaves when the other side has sent no more than its first part.\<close>

lemma client_handshake_starts:
  "\<exists>e io. DoClient hmac g False strict (io_start [] ctape) = (Inl e, io) \<and> io_out io = plain_first ctape"
  by (simp add: DoClient_def doClientPlain_def run_defs plain_first_def C0S0_Read_def io_ReadFull_def read_full_def
      zero_c1s1_def)

lemma server_handshake_starts:
  "\<exists>e io. DoServer hmac g strict (io_start (plain_first ctape) stape) = (Inl e, io) \<and>
    io_out io = plain_first stape @ packet 0 0 (drawn ctape 0 1528)"
  using C1S1_Read_packet [of _ 0 0 "drawn ctape 0 1528" "[]"]
  by (simp add: DoServer_def doServerPlain_def run_defs plain_first_def C0S0_Read_byte C2S2_Read_def io_ReadFull_def read_full_def
      zero_c1s1_def zero_c2s2_def)

definition env_quiet :: "'cfg conn_env \<Rightarrow> bool" where
  "env_quiet env \<longleftrightarrow> (\<forall>n. (ucast (ce_rcount env n) :: u32) \<le> windowAckSize) \<and> ce_fail env = (\<lambda>_. None)"

definition bytes_for :: "'cfg codecs \<Rightarrow> 'cfg message list \<Rightarrow> bytes" where
  "bytes_for cs msgs = session_out cs 128 Map.empty msgs"

definition client_hello :: "(nat \<Rightarrow> byte) \<Rightarrow> (nat \<Rightarrow> byte) \<Rightarrow> bytes" where
  "client_hello ctape stape = plain_first ctape @ packet 0 0 (drawn stape 0 1528)"

definition server_hello :: "(nat \<Rightarrow> byte) \<Rightarrow> (nat \<Rightarrow> byte) \<Rightarrow> bytes" where
  "server_hello ctape stape = plain_first stape @ packet 0 0 (drawn ctape 0 1528)"

lemma client_conn:
  assumes "env_quiet env" "\<forall>msg\<in>set ins. regular (ce_codecs env) msg" "\<forall>msg\<in>set outs. regular (ce_codecs env) msg"
  shows "(\<And>wire. conn.waits (ce_codecs env) wire ins outs (client_commands (ce_codecs env) u publish)) \<Longrightarrow>
      sent (snd (NewClientConn env u publish (io_start (server_hello ctape stape @ bytes_for (ce_codecs env) ins) ctape))) = client_hello ctape stape @ bytes_for (ce_codecs env) outs"
    "\<And>ins'. (\<And>wire. conn.goes (ce_codecs env) wire ins outs (client_commands (ce_codecs env) u publish) () ins' []) \<Longrightarrow>
      fst (NewClientConn env u publish (io_start (server_hello ctape stape @ bytes_for (ce_codecs env) ins) ctape)) = Inr ()"
proof -
  let ?cs = "ce_codecs env"
  let ?rw = "new_mrw env (bytes_for ?cs ins)"
  have port: "port ?cs (bytes_for ?cs outs) ins outs ?rw"
    unfolding bytes_for_def using assms(1-3) by (intro port_regular) (auto simp: env_quiet_def)
  note hs = handshake_plain(1) [of "ce_hmac env" "ce_group env" False stape ctape "bytes_for ?cs ins"]
  have run: "NewClientConn env u publish (io_start (server_hello ctape stape @ bytes_for (ce_codecs env) ins) ctape) =
      (case client_commands ?cs u publish ?rw of (r, rw) \<Rightarrow>
        (r, \<lparr>c_io = (io_start (bytes_for ?cs ins) ctape)\<lparr>io_out := client_hello ctape stape, io_calls := 3, io_pos := 1528\<rparr>,
             c_rc4 = None, c_mrw = Some rw\<rparr>))"
    using hs by (simp add: NewClientConn_def server_hello_def client_hello_def io_start_def)
  show "sent (snd (NewClientConn env u publish (io_start (server_hello ctape stape @ bytes_for (ce_codecs env) ins) ctape))) = client_hello ctape stape @ bytes_for ?cs outs"
    if "\<And>wire. conn.waits ?cs wire ins outs (client_commands ?cs u publish)"
    using that [of "bytes_for ?cs outs"] port port_done unfolding conn.waits_def run by (fastforce simp: sent_def)
  show "fst (NewClientConn env u publish (io_start (server_hello ctape stape @ bytes_for (ce_codecs env) ins) ctape)) = Inr ()"
    if "\<And>wire. conn.goes ?cs wire ins outs (client_commands ?cs u publish) () ins' []" for ins'
    using that [of "bytes_for ?cs outs"] port unfolding conn.goes_def run by fastforce
qed

lemma server_conn:
  assumes "env_quiet env" "\<forall>msg\<in>set ins. regular (ce_codecs env) msg" "\<forall>msg\<in>set outs. regular (ce_codecs env) msg"
  shows "(\<And>wire. conn.waits (ce_codecs env) wire ins outs (server_commands (ce_codecs env))) \<Longrightarrow>
      sent (snd (NewServerConn env (io_start (client_hello ctape stape @ bytes_for (ce_codecs env) ins) stape))) = server_hello ctape stape @ bytes_for (ce_codecs env) outs"
    "(\<And>wire. conn.goes (ce_codecs env) wire ins outs (server_commands (ce_codecs env)) v [] []) \<Longrightarrow>
      fst (NewServerConn env (io_start (client_hello ctape stape @ bytes_for (ce_codecs env) ins) stape)) = Inr v \<and>
      sent (snd (NewServerConn env (io_start (client_hello ctape stape @ bytes_for (ce_codecs env) ins) stape))) = server_hello ctape stape @ bytes_for (ce_codecs env) outs"
proof -
  let ?cs = "ce_codecs env"
  let ?rw = "new_mrw env (bytes_for ?cs ins)"
  have port: "port ?cs (bytes_for ?cs outs) ins outs ?rw"
    unfolding bytes_for_def using assms(1-3) by (intro port_regular) (auto simp: env_quiet_def)
  note hs = handshake_plain(2) [of "ce_hmac env" "ce_group env" False ctape stape "bytes_for ?cs ins"]
  have run: "NewServerConn env (io_start (client_hello ctape stape @ bytes_for (ce_codecs env) ins) stape) =
      (case server_commands ?cs ?rw of (r, rw) \<Rightarrow>
        (r, \<lparr>c_io = (io_start (bytes_for ?cs ins) stape)\<lparr>io_out := server_hello ctape stape, io_calls := 3, io_pos := 1528\<rparr>,
             c_rc4 = None, c_mrw = Some rw\<rparr>))"
    using hs by (simp add: NewServerConn_def server_hello_def client_hello_def io_start_def)
  show "sent (snd (NewServerConn env (io_start (client_hello ctape stape @ bytes_for (ce_codecs env) ins) stape))) = server_hello ctape stape @ bytes_for ?cs outs"
    if "\<And>wire. conn.waits ?cs wire ins outs (server_commands ?cs)"
    using that [of "bytes_for ?cs outs"] port port_done unfolding conn.waits_def run by (fastforce simp: sent_def)
  show "fst (NewServerConn env (io_start (client_hello ctape stape @ bytes_for (ce_codecs env) ins) stape)) = Inr v \<and>
      sent (snd (NewServerConn env (io_start (client_hello ctape stape @ bytes_for (ce_codecs env) ins) stape))) = server_hello ctape stape @ bytes_for ?cs outs"
    if "\<And>wire. conn.goes ?cs wire ins outs (server_commands ?cs) v [] []"
    using that [of "bytes_for ?cs outs"] port port_done unfolding conn.goes_def run by (fastforce simp: sent_def)
qed

text \<open>
  The conversation in rounds: each side runs on what the other has sent in the round before, from the start, since it
  is deterministic, and stops when it needs more.
\<close>

fun dialogue ::
  "'cfg conn_env \<Rightarrow> 'cfg conn_env \<Rightarrow> url \<Rightarrow> bool \<Rightarrow> (nat \<Rightarrow> byte) \<Rightarrow> (nat \<Rightarrow> byte) \<Rightarrow> nat \<Rightarrow> bytes \<times> bytes" where
  "dialogue cenv senv u publish ctape stape 0 = ([], [])"
| "dialogue cenv senv u publish ctape stape (Suc n) =
     (let (_, s) = dialogue cenv senv u publish ctape stape n;
          c' = sent (snd (NewClientConn cenv u publish (io_start s ctape)));
          s' = sent (snd (NewServerConn senv (io_start c' stape)))
      in (c', s'))"

lemma dialogue_start:
  "dialogue cenv senv u publish ctape stape (Suc 0) = (plain_first ctape, server_hello ctape stape)"
proof -
  obtain e io where c: "DoClient (ce_hmac cenv) (ce_group cenv) False False (io_start [] ctape) = (Inl e, io)"
    "io_out io = plain_first ctape"
    using client_handshake_starts by blast
  obtain e' io' where s: "DoServer (ce_hmac senv) (ce_group senv) False (io_start (plain_first ctape) stape) = (Inl e', io')"
    "io_out io' = server_hello ctape stape"
    using server_handshake_starts unfolding server_hello_def by blast
  show ?thesis by (simp add: NewClientConn_def NewServerConn_def c s sent_def)
qed

lemma stream_url_short:
  assumes "stream_url u" "length (url_String u) < 65536"
  shows "\<exists>app stream tc. splitPath u = (app, stream) \<and> getTcURL u = Inr tc \<and> short app \<and> short stream \<and> short tc"
proof -
  note str = stream_url_strings [OF assms(1)]
  obtain e where e: "EscapedPath u = slash # e" using str(3) by blast
  have "RequestURI u = slash # e @ query_of (u_RawQuery u)" "slash \<in> set (e @ query_of (u_RawQuery u))" "\<not> u_ForceQuery u"
    using str(1) e assms by (simp_all add: stream_url_def)
  then obtain app stream where sp: "splitPath u = (app, stream)" "RequestURI u = slash # app @ slash # stream"
    using splitPath_parts by blast
  have "length (url_String u) = length (u_Scheme u) + length (u_Host u) + length app + length stream + 5"
    unfolding str(2) sp(2) by simp
  with assms(2) sp show ?thesis
    by (simp add: tcURL_of [OF assms(1)] short_def)
qed


definition sample_env :: "unit conn_env" where
  "sample_env =
     \<lparr>ce_codecs = no_cfg, ce_hmac = (\<lambda>_ _. []), ce_group = sample_group, ce_rcount = (\<lambda>_. 3073), ce_wcount = (\<lambda>_. 0),
      ce_fail = (\<lambda>_. None)\<rparr>"

lemma sample_env_quiet: "env_quiet sample_env"
  by (simp add: env_quiet_def sample_env_def windowAckSize_def)


end
