(* ===== verification/LiveStream.thy ===== *)
theory LiveStream
  imports GoString
begin

text \<open>
  The link to the transcoder: the retried HTTP call of \<open>internal/utils/apiRetry.go\<close> and the live stream
  instances of \<open>internal/liveStream/liveStream.go\<close>, which ask the transcoder to start and to stop.

  The server on the other side of the network is an argument: for the i-th attempt of a call, how many
  bytes of the body the transport read, whether the deadline of the attempt had passed when the attempt
  was over, and the body of the response if there was one. An operation returns the requests that
  it sent, with what was left of the body when each was built, and its result. Printing is left out, and
  so are the five seconds of sleep between two attempts.
\<close>

section \<open>The retried call\<close>

record api_request =
  req_method :: string
  req_url :: string
  req_body :: bytes
  req_header :: "(string \<times> string) list"

record api_attempt =
  attempt_consumed :: nat
  attempt_expired :: bool
  attempt_response :: "bytes option"

type_synonym api_server = "nat \<Rightarrow> api_attempt"

definition defaultDelay :: duration where
  "defaultDelay = 5 * second"

definition defaultMaxRetries :: nat where
  "defaultMaxRetries = 3"

text \<open>
  \<open>apiCall\<close>: a context whose timeout is not positive is over before the request is sent. Otherwise the
  request carries what is left in the body.
\<close>

definition apiCall :: "duration \<Rightarrow> api_attempt \<Rightarrow> api_request \<Rightarrow> api_request list \<times> api_attempt" where
  "apiCall timeout a req =
     (if timeout \<le> 0 then ([], \<lparr>attempt_consumed = 0, attempt_expired = True, attempt_response = None\<rparr>)
      else ([req], a))"

fun retry_loop :: "nat \<Rightarrow> nat \<Rightarrow> duration \<Rightarrow> api_server \<Rightarrow> api_request \<Rightarrow> api_request list \<times> bytes result" where
  "retry_loop 0 i timeout srv req = ([], Inl (Errorf ''API call failed after retries'' []))"
| "retry_loop (Suc k) i timeout srv req =
     (let (sent, a) = apiCall timeout (srv i) req in
      case attempt_response a of
        Some response \<Rightarrow> (sent, Inr response)
      | None \<Rightarrow>
          if attempt_expired a then
            (sent, Inl (Wrapped ''retry operation cancelled :: %v'' (Errorf ''context deadline exceeded'' [])))
          else
            let (sents, res) = retry_loop k (Suc i) timeout srv
                  (req\<lparr>req_body := drop (attempt_consumed a) (req_body req)\<rparr>)
            in (sent @ sents, res))"

definition retryApi ::
    "api_server \<Rightarrow> string \<Rightarrow> string \<Rightarrow> bytes \<Rightarrow> (string \<times> string) list \<Rightarrow> bool \<Rightarrow> int \<Rightarrow>
     api_request list \<times> bytes result" where
  "retryApi srv meth apiUrl body header isFile fileSize =
     retry_loop defaultMaxRetries 0
       (if isFile then go_div (go_div fileSize 1024) 1024 * 2 * second else defaultDelay * 4)
       srv \<lparr>req_method = meth, req_url = apiUrl, req_body = body, req_header = header\<rparr>"

definition RetryApi ::
    "api_server \<Rightarrow> string \<Rightarrow> string \<Rightarrow> bytes \<Rightarrow> (string \<times> string) list \<Rightarrow> api_request list \<times> bytes result" where
  "RetryApi srv meth apiUrl body header = retryApi srv meth apiUrl body header False 0"

definition RetryApiFile ::
    "api_server \<Rightarrow> string \<Rightarrow> string \<Rightarrow> bytes \<Rightarrow> (string \<times> string) list \<Rightarrow> int \<Rightarrow>
     api_request list \<times> bytes result" where
  "RetryApiFile srv meth apiUrl body header fileSize = retryApi srv meth apiUrl body header True fileSize"

section \<open>Live streams\<close>

record live_stream =
  Id :: string
  Namespace :: string
  streamName :: string
  video_codec :: string
  audio_codec :: string
  resolutions :: "string list"

text \<open>\<open>GlobalLiveStreamInstance\<close> is a map of the process: it is an argument and a result.\<close>

type_synonym live_streams = "string \<Rightarrow> live_stream option"

definition AddLiveStreamInstance :: "live_stream \<Rightarrow> live_streams \<Rightarrow> live_streams" where
  "AddLiveStreamInstance ls m = m(streamName ls \<mapsto> ls)"

definition GetLiveStreamInstance :: "string \<Rightarrow> live_streams \<Rightarrow> live_stream option" where
  "GetLiveStreamInstance nm m = m nm"

text \<open>The index 1 of \<open>strings.Split\<close> is out of range, a panic, for a name without a slash.\<close>

definition NewLiveStream :: "string \<Rightarrow> live_streams \<Rightarrow> (live_stream \<times> live_streams) result" where
  "NewLiveStream nm m =
     (case Split nm slash of
        namespace # ident # _ \<Rightarrow>
          let ls = \<lparr>Id = ident, Namespace = namespace, streamName = nm,
                    video_codec = ''h264'', audio_codec = ''aac'',
                    resolutions = [''144p'', ''240p'', ''360p'', ''480p'', ''720p'', ''1080p'']\<rparr>
          in Inr (ls, AddLiveStreamInstance ls m)
      | _ \<Rightarrow> Inl Panic)"

text \<open>The environment variables of the process.\<close>

record process_env =
  API_BASE_URL :: string
  RTMP_SERVER_URL :: string

text \<open>
  \<open>json.Marshal\<close> of the payload: strings between double quotes, with the escapes of \<open>encoding/json\<close> on ASCII.
  Path names, the codecs and the resolutions need none.
\<close>

definition dquote :: char where
  "dquote = CHR 0x22"

definition hex_digit :: "nat \<Rightarrow> char" where
  "hex_digit d = (if d < 10 then char_of (48 + d) else char_of (87 + d))"

definition json_char :: "char \<Rightarrow> string" where
  "json_char c =
     (let n = of_char c :: nat in
      if c = dquote \<or> c = CHR 0x5C then [CHR 0x5C, c]
      else if n = 10 then [CHR 0x5C, CHR ''n'']
      else if n = 13 then [CHR 0x5C, CHR ''r'']
      else if n = 9 then [CHR 0x5C, CHR ''t'']
      else if n = 8 then [CHR 0x5C, CHR ''b'']
      else if n = 12 then [CHR 0x5C, CHR ''f'']
      else if n < 32 \<or> c \<in> set ''<>&'' then
        [CHR 0x5C, CHR ''u'', CHR ''0'', CHR ''0'', hex_digit (n div 16), hex_digit (n mod 16)]
      else [c])"

definition json_string :: "string \<Rightarrow> string" where
  "json_string s = dquote # concat (map json_char s) @ [dquote]"

definition json_join :: "string list \<Rightarrow> string" where
  "json_join xs = (case xs of [] \<Rightarrow> [] | x # r \<Rightarrow> x @ concat (map ((#) CHR '','') r))"

definition json_field :: "string \<Rightarrow> string \<Rightarrow> string" where
  "json_field k v = json_string k @ CHR '':'' # v"

definition json_object :: "string list \<Rightarrow> string" where
  "json_object fs = CHR ''{'' # json_join fs @ ''}''"

definition payload_json :: "process_env \<Rightarrow> live_stream \<Rightarrow> string" where
  "payload_json pe ls =
     json_object
       [json_field ''id'' (json_string (Id ls)),
        json_field ''namespace'' (json_string (Namespace ls)),
        json_field ''streamName'' (json_string (streamName ls)),
        json_field ''rtmpUrl'' (json_string (RTMP_SERVER_URL pe @ slash # streamName ls)),
        json_field ''Config''
          (json_object
             [json_field ''codecs''
                (json_object [json_field ''video'' (json_string (video_codec ls)),
                              json_field ''audio'' (json_string (audio_codec ls))]),
              json_field ''resolutions''
                (CHR ''['' # json_join (map json_string (resolutions ls)) @ '']'')])]"

definition json_header :: "(string \<times> string) list" where
  "json_header = [(''Content-Type'', ''application/json'')]"

text \<open>A response body that \<open>io.ReadAll\<close> returned is never a nil slice.\<close>

definition StartPublishToTranscoder ::
    "process_env \<Rightarrow> api_server \<Rightarrow> live_stream \<Rightarrow> api_request list \<times> unit result" where
  "StartPublishToTranscoder pe srv ls =
     (let (sent, res) = RetryApi srv ''POST'' (API_BASE_URL pe) (bytes_of (payload_json pe ls)) json_header
      in (sent, map_sum id (\<lambda>_. ()) res))"

text \<open>The receiver may be nil; reading its fields is a panic then.\<close>

definition stop_url :: "process_env \<Rightarrow> live_stream \<Rightarrow> string" where
  "stop_url pe ls = API_BASE_URL pe @ ''/?id='' @ Id ls @ ''&namespace='' @ Namespace ls"

definition StopPublishToTranscoder ::
    "process_env \<Rightarrow> api_server \<Rightarrow> live_stream option \<Rightarrow> api_request list \<times> unit result" where
  "StopPublishToTranscoder pe srv receiver =
     (case receiver of
        None \<Rightarrow> ([], Inl Panic)
      | Some ls \<Rightarrow>
          let (sent, res) = RetryApi srv ''DELETE'' (stop_url pe ls) [] json_header
          in (sent, map_sum id (\<lambda>_. ()) res))"


section \<open>Lemmas\<close>

lemma GetLiveStreamInstance_Add [simp]:
  "GetLiveStreamInstance nm (AddLiveStreamInstance ls m) =
     (if nm = streamName ls then Some ls else GetLiveStreamInstance nm m)"
  by (simp add: GetLiveStreamInstance_def AddLiveStreamInstance_def)

lemma NewLiveStream_panic: "NewLiveStream nm m = Inl e \<longleftrightarrow> e = Panic \<and> slash \<notin> set nm"
proof -
  obtain p ps where "Split nm slash = p # ps"
    by (cases "Split nm slash") auto
  then show ?thesis
    using Split_tail_empty [of nm slash] by (auto simp: NewLiveStream_def Let_def split: list.splits)
qed

lemma NewLiveStream_live:
  assumes "slash \<in> set nm"
  obtains ls where "NewLiveStream nm m = Inr (ls, AddLiveStreamInstance ls m)" "streamName ls = nm"
proof -
  have "NewLiveStream nm m \<noteq> Inl Panic"
    using assms by (simp add: NewLiveStream_panic)
  then obtain a b r where "Split nm slash = a # b # r"
    by (auto simp: NewLiveStream_def split: list.splits)
  then show thesis
    using that by (auto simp: NewLiveStream_def Let_def)
qed

lemma retry_loop_no_panic:
  "snd (retry_loop k i t srv req) \<noteq> Inl Panic"
  by (induction k i t srv req rule: retry_loop.induct)
    (auto simp: apiCall_def case_prod_unfold Let_def split: option.split)

lemma StartPublishToTranscoder_no_panic:
  "snd (StartPublishToTranscoder pe srv ls) \<noteq> Inl Panic"
  using retry_loop_no_panic
  by (auto simp: StartPublishToTranscoder_def RetryApi_def retryApi_def split: prod.splits) (metis snd_conv)+

lemma StopPublishToTranscoder_panic:
  "snd (StopPublishToTranscoder pe srv r) = Inl Panic \<longleftrightarrow> r = None"
  using retry_loop_no_panic
  by (auto simp: StopPublishToTranscoder_def RetryApi_def retryApi_def split: prod.splits option.splits)
    (metis snd_conv)+

lemma retry_loop_count: "length (fst (retry_loop k i t srv req)) \<le> k"
  by (induction k i t srv req rule: retry_loop.induct)
    (auto simp: apiCall_def Let_def split: prod.splits option.splits if_splits)

text \<open>The attempts that the loop makes: up to the first that has a response or whose deadline passed.\<close>

definition attempt_over :: "api_attempt \<Rightarrow> bool" where
  "attempt_over a = (attempt_response a \<noteq> None \<or> attempt_expired a)"

text \<open>What is left of the body when attempt \<open>n\<close> is built.\<close>

definition body_left :: "api_server \<Rightarrow> nat \<Rightarrow> nat \<Rightarrow> bytes \<Rightarrow> bytes" where
  "body_left srv i n body = drop (sum_list (map (attempt_consumed \<circ> srv) [i ..< i + n])) body"

lemma body_left_Suc:
  "body_left srv (Suc i) j (drop (attempt_consumed (srv i)) b) = body_left srv i (Suc j) b"
proof -
  have "[i ..< i + Suc j] = i # [Suc i ..< Suc i + j]"
    by (subst upt_conv_Cons) simp_all
  then show ?thesis
    by (simp add: body_left_def add.commute del: upt_Suc)
qed

lemma retry_loop_stops:
  assumes "0 < t" "n < k" "\<forall>j < n. \<not> attempt_over (srv (i + j))" "attempt_over (srv (i + n))"
  shows "retry_loop k i t srv req =
    (map (\<lambda>j. req\<lparr>req_body := body_left srv i j (req_body req)\<rparr>) [0 ..< Suc n],
     case attempt_response (srv (i + n)) of
       Some r \<Rightarrow> Inr r
     | None \<Rightarrow> Inl (Wrapped ''retry operation cancelled :: %v'' (Errorf ''context deadline exceeded'' [])))"
  using assms
proof (induction n arbitrary: k i req)
  case 0
  then show ?case
    by (cases k) (auto simp: apiCall_def attempt_over_def body_left_def split: option.split)
next
  case (Suc n)
  obtain k' where k: "k = Suc k'" "n < k'"
    using Suc.prems(2) by (cases k) auto
  have first: "attempt_response (srv i) = None" "\<not> attempt_expired (srv i)"
    using Suc.prems(3) [rule_format, of 0] by (auto simp: attempt_over_def)
  let ?req = "req\<lparr>req_body := drop (attempt_consumed (srv i)) (req_body req)\<rparr>"
  have rest: "retry_loop k' (Suc i) t srv ?req =
    (map (\<lambda>j. ?req\<lparr>req_body := body_left srv (Suc i) j (req_body ?req)\<rparr>) [0 ..< Suc n],
     case attempt_response (srv (Suc i + n)) of
       Some r \<Rightarrow> Inr r
     | None \<Rightarrow> Inl (Wrapped ''retry operation cancelled :: %v'' (Errorf ''context deadline exceeded'' [])))"
    using Suc.prems(1,3,4) k(2) by (intro Suc.IH) (auto dest: spec [of _ "Suc _"])
  have heads: "[0 ..< Suc (Suc n)] = 0 # map Suc [0 ..< Suc n]"
    by (simp add: map_Suc_upt upt_conv_Cons del: upt_Suc)
  show ?case
    using Suc.prems(1) first rest unfolding k(1) heads
    by (simp add: apiCall_def body_left_Suc body_left_def [of srv i 0] comp_def del: upt_Suc)
qed


lemma retry_loop_exhausted:
  assumes "0 < t" "\<forall>j < k. \<not> attempt_over (srv (i + j))"
  shows "retry_loop k i t srv req =
    (map (\<lambda>j. req\<lparr>req_body := body_left srv i j (req_body req)\<rparr>) [0 ..< k],
     Inl (Errorf ''API call failed after retries'' []))"
  using assms
proof (induction k arbitrary: i req)
  case 0
  then show ?case by simp
next
  case (Suc k)
  have first: "attempt_response (srv i) = None" "\<not> attempt_expired (srv i)"
    using Suc.prems(2) [rule_format, of 0] by (auto simp: attempt_over_def)
  have later: "\<forall>j < k. \<not> attempt_over (srv (Suc i + j))"
    using Suc.prems(2) by (auto dest: spec [of _ "Suc _"])
  have heads: "[0 ..< Suc k] = 0 # map Suc [0 ..< k]"
    by (simp add: map_Suc_upt upt_conv_Cons del: upt_Suc)
  show ?case
    using Suc.prems(1) first Suc.IH [OF Suc.prems(1) later] unfolding heads
    by (simp add: apiCall_def body_left_Suc body_left_def [of srv i 0] comp_def del: upt_Suc)
qed

section \<open>Properties\<close>

text \<open>
  The start of the transcoding of a stream is retried as far as the attempts allow. If attempt
  \<open>n < 3\<close> is the first that is over (it has a response, or its deadline passed), exactly the requests 0 to
  \<open>n\<close> are sent, all of them to the URL of the environment, and the result is a success exactly if that attempt has a response;
  but the body of a retry is only what the failed attempts left of the one buffer that all of them share.
\<close>

theorem start_publish_retries:
  assumes "n < 3" "\<forall>j < n. \<not> attempt_over (srv j)" "attempt_over (srv n)"
  shows "fst (StartPublishToTranscoder pe srv ls) =
      map (\<lambda>j. \<lparr>req_method = ''POST'', req_url = API_BASE_URL pe,
                req_body = body_left srv 0 j (bytes_of (payload_json pe ls)), req_header = json_header\<rparr>)
        [0 ..< Suc n] \<and>
    (snd (StartPublishToTranscoder pe srv ls) = Inr () \<longleftrightarrow> attempt_response (srv n) \<noteq> None)"
proof -
  have "(0::duration) < defaultDelay * 4" "n < defaultMaxRetries"
    using assms(1) by (simp_all add: defaultDelay_def defaultMaxRetries_def)
  from retry_loop_stops [OF this, of srv 0] assms(2,3)
  show ?thesis
    by (auto simp: StartPublishToTranscoder_def RetryApi_def retryApi_def split: option.splits)
qed

text \<open>A server that takes the first request and does not answer it, and answers the second one.\<close>

definition flaky_server :: api_server where
  "flaky_server i =
     (if i = 0 then \<lparr>attempt_consumed = 1000, attempt_expired = False, attempt_response = None\<rparr>
      else \<lparr>attempt_consumed = 0, attempt_expired = False, attempt_response = Some []\<rparr>)"

definition sample_process_env :: process_env where
  "sample_process_env =
     \<lparr>API_BASE_URL = ''http://backend:8000/livestream'', RTMP_SERVER_URL = ''rtmp://mediamtx:1935''\<rparr>"

definition sample_live_stream :: live_stream where
  "sample_live_stream =
     \<lparr>Id = ''cam'', Namespace = ''live'', streamName = ''live/cam'', video_codec = ''h264'',
      audio_codec = ''aac'', resolutions = [''144p'', ''240p'']\<rparr>"

lemma payload_short: "length (payload_json sample_process_env sample_live_stream) < 1000"
  by code_simp

lemma start_publish_retries_witness:
  "snd (StartPublishToTranscoder sample_process_env flaky_server sample_live_stream) = Inr () \<and>
   map req_body (fst (StartPublishToTranscoder sample_process_env flaky_server sample_live_stream)) =
     [bytes_of (payload_json sample_process_env sample_live_stream), []]"
  using payload_short
    start_publish_retries [of 1 flaky_server sample_process_env sample_live_stream]
  by (simp add: flaky_server_def attempt_over_def body_left_def upt_conv_Cons)

text \<open>
  The retried call that sends a file scales its deadline with the size of the file, in steps of a
  mebibyte: for a file below one mebibyte the deadline is already over, nothing is sent, and the call fails.
\<close>

theorem retry_file_small:
  assumes "0 \<le> fileSize" "fileSize < 1048576"
  shows "\<exists>e. RetryApiFile srv meth apiUrl body header fileSize = ([], Inl e)"
proof -
  have "0 \<le> fileSize div 1024" "fileSize div 1024 < 1024"
    using assms by auto
  then have "go_div (go_div fileSize 1024) 1024 = 0"
    using assms by (simp add: go_div_nonneg)
  then show ?thesis
    by (simp add: RetryApiFile_def retryApi_def defaultMaxRetries_def numeral_3_eq_3 apiCall_def)
qed

lemma retry_file_small_witness:
  "\<exists>e. RetryApiFile flaky_server ''POST'' ''http://backend'' [1, 2] [] 2 = ([], Inl e)"
  by (rule retry_file_small) simp_all

end
