(* ===== verification/AuthUser.thy ===== *)
theory AuthUser
  imports GoString
begin

text \<open>
  The internal users of the authentication: credentials (\<open>internal/conf/credential.go\<close>), IP networks
  (\<open>internal/conf/ip_networks.go\<close>) and permissions (\<open>internal/conf/auth_action.go\<close>, \<open>auth_internal_users.go\<close>).

  The digest of SHA-256 and the verification of an Argon2 hash are parameters; the base64 encoding of the standard library
  and \<open>net.IPNet.Contains\<close> are modelled.
\<close>

section \<open>Permissions\<close>

datatype auth_action =
    AuthActionPublish | AuthActionRead | AuthActionPlayback | AuthActionAPI | AuthActionMetrics | AuthActionPprof

text \<open>The text of an action, which its JSON form is.\<close>

fun action_text :: "auth_action \<Rightarrow> string" where
  "action_text AuthActionPublish = ''publish''"
| "action_text AuthActionRead = ''read''"
| "action_text AuthActionPlayback = ''playback''"
| "action_text AuthActionAPI = ''api''"
| "action_text AuthActionMetrics = ''metrics''"
| "action_text AuthActionPprof = ''pprof''"

definition AuthAction_UnmarshalJSON :: "string \<Rightarrow> auth_action result" where
  "AuthAction_UnmarshalJSON s =
     (case find (\<lambda>a. action_text a = s)
        [AuthActionPublish, AuthActionRead, AuthActionPlayback, AuthActionAPI, AuthActionMetrics, AuthActionPprof] of
        Some a \<Rightarrow> Inr a
      | None \<Rightarrow> Inl (Errorf (''invalid auth action: '' @ quoted s) []))"

record permission =
  PermAction :: auth_action
  PermPath :: string

section \<open>IP networks\<close>

text \<open>An address is a byte slice, of 4 or 16 bytes when it is valid.\<close>

type_synonym ip = bytes

record ip_net =
  net_IP :: ip
  net_Mask :: bytes

definition To4 :: "ip \<Rightarrow> ip option" where
  "To4 a =
     (if length a = 4 then Some a
      else if length a = 16 \<and> take 12 a = replicate 10 0 @ [0xFF, 0xFF] then Some (drop 12 a)
      else None)"

definition networkNumberAndMask :: "ip_net \<Rightarrow> ip \<times> bytes" where
  "networkNumberAndMask n =
     (case (case To4 (net_IP n) of Some a \<Rightarrow> Some a
            | None \<Rightarrow> if length (net_IP n) = 16 then Some (net_IP n) else None) of
        None \<Rightarrow> ([], [])
      | Some a \<Rightarrow>
          if length (net_Mask n) = 4 then (if length a = 4 then (a, net_Mask n) else ([], []))
          else if length (net_Mask n) = 16 then (a, if length a = 4 then drop 12 (net_Mask n) else net_Mask n)
          else ([], []))"

definition IPNet_Contains :: "ip_net \<Rightarrow> ip \<Rightarrow> bool" where
  "IPNet_Contains n a =
     (let (nn, m) = networkNumberAndMask n;
          x = (case To4 a of Some x \<Rightarrow> x | None \<Rightarrow> a)
      in length x = length nn \<and> map2 (AND) nn m = map2 (AND) x m)"

definition IPNetworks_Contains :: "ip_net list \<Rightarrow> ip \<Rightarrow> bool" where
  "IPNetworks_Contains d a = list_ex (\<lambda>n. IPNet_Contains n a) d"

text \<open>\<open>mustParseCIDR("0.0.0.0/0")\<close>.\<close>

definition any_ipv4 :: ip_net where
  "any_ipv4 = \<lparr>net_IP = [0, 0, 0, 0], net_Mask = [0, 0, 0, 0]\<rparr>"

section \<open>Users\<close>

record auth_internal_user =
  User :: string
  Pass :: string
  IPs :: "ip_net list"
  Permissions :: "permission list"

section \<open>Credentials\<close>

record hash_env =
  sha256 :: "string \<Rightarrow> string"
  argon2_VerifyEncoded :: "string \<Rightarrow> string \<Rightarrow> bool result"
  argon2_Decode :: "string \<Rightarrow> unit result"

text \<open>The standard base64 encoding, with padding.\<close>

definition base64_char :: "nat \<Rightarrow> char" where
  "base64_char n =
     (if n < 26 then char_of (65 + n)
      else if n < 52 then char_of (71 + n)
      else if n < 62 then char_of (n - 4)
      else if n = 62 then CHR ''+'' else CHR ''/'')"

fun base64_bytes :: "nat list \<Rightarrow> string" where
  "base64_bytes [] = []"
| "base64_bytes [a] = [base64_char (a div 4), base64_char (a mod 4 * 16), CHR ''='', CHR ''='']"
| "base64_bytes [a, b] =
     [base64_char (a div 4), base64_char (a mod 4 * 16 + b div 16), base64_char (b mod 16 * 4), CHR ''='']"
| "base64_bytes (a # b # c # s) =
     [base64_char (a div 4), base64_char (a mod 4 * 16 + b div 16), base64_char (b mod 16 * 4 + c div 64),
      base64_char (c mod 64)] @ base64_bytes s"

definition sha256Base64 :: "hash_env \<Rightarrow> string \<Rightarrow> string" where
  "sha256Base64 h s = base64_bytes (map of_char (sha256 h s))"

definition IsSha256 :: "string \<Rightarrow> bool" where
  "IsSha256 d = HasPrefix d ''sha256:''"

definition IsArgon2 :: "string \<Rightarrow> bool" where
  "IsArgon2 d = HasPrefix d ''argon2:''"

definition IsHashed :: "string \<Rightarrow> bool" where
  "IsHashed d = (IsSha256 d \<or> IsArgon2 d)"

definition Credential_Check :: "hash_env \<Rightarrow> string \<Rightarrow> string \<Rightarrow> bool" where
  "Credential_Check h d guess =
     (if IsSha256 d then drop (length ''sha256:'') d = sha256Base64 h guess
      else if IsArgon2 d then
        (case argon2_VerifyEncoded h guess (drop (length ''argon2:'') d) of Inl _ \<Rightarrow> False | Inr ok \<Rightarrow> ok)
      else if d \<noteq> [] then d = guess
      else True)"

definition alnum :: "char \<Rightarrow> bool" where
  "alnum c =
     (let n = of_char c :: nat in (97 \<le> n \<and> n \<le> 122) \<or> (65 \<le> n \<and> n \<le> 90) \<or> (48 \<le> n \<and> n \<le> 57))"

definition plain_credential_char :: "char \<Rightarrow> bool" where
  "plain_credential_char c = (alnum c \<or> c \<in> set ''!$()*+.;<=>[]^_-{}@#&'')"

definition base64_credential_char :: "char \<Rightarrow> bool" where
  "base64_credential_char c = (alnum c \<or> c \<in> set ''+/='')"

definition Credential_validate :: "hash_env \<Rightarrow> string \<Rightarrow> unit result" where
  "Credential_validate h d =
     (if d = [] then Inr ()
      else if IsSha256 d then
        (let s = drop (length ''sha256:'') d in
         if s \<noteq> [] \<and> list_all base64_credential_char s then Inr ()
         else Inl (Errorf ''credential contains unsupported characters, sha256 hash must be base64 encoded'' []))
      else if IsArgon2 d then
        (case argon2_Decode h (drop (length ''argon2:'') d) of
           Inl e \<Rightarrow> Inl (Wrapped ''invalid argon2 hash: %w'' e)
         | Inr _ \<Rightarrow> Inr ())
      else if list_all plain_credential_char d then Inr ()
      else Inl (Errorf (''credential contains unsupported characters. Supported are: '' @
        ''A-Z,0-9,!,$,(,),*,+,.,;,<,=,>,[,],^,_,-,'' @ [CHR 0x22, CHR '','', CHR 0x22] @ '',@,#,&'') []))"

end
