(* ===== verification/PathConf.thy ===== *)
theory PathConf
  imports AuthUser
begin

text \<open>
  The configuration of a path, \<open>internal/conf/path.go\<close>: the record, its defaults, its validation, the
  predicates that the path itself branches on, and the lookup of the configuration that a path name
  belongs to.

  The regular expressions of the standard library and the URL parsers (\<open>net/url\<close>, \<open>net\<close>, and
  \<open>base.ParseURL\<close> of gortsplib) are parameters of the definitions that use them, collected in the record
  \<open>conf_env\<close>. A compiled expression is represented by its pattern. The fields of the Raspberry Pi camera,
  which share the prefix \<open>RPICamera\<close> in the source, are a record of their own, and so are the deprecated
  ones. A floating point number is represented by its 64 bits.
\<close>

section \<open>The record\<close>

datatype record_format = RecordFormatFMP4 | RecordFormatMPEGTS
datatype rtsp_range_type = RTSPRangeTypeUndefined | RTSPRangeTypeClock | RTSPRangeTypeNPT | RTSPRangeTypeSMPTE
datatype rtsp_transport = TransportAutomatic | TransportUDP | TransportMulticast | TransportTCP

record rpi_camera =
  RPICameraCamID :: u64
  RPICameraWidth :: u64
  RPICameraHeight :: u64
  RPICameraHFlip :: bool
  RPICameraVFlip :: bool
  RPICameraBrightness :: u64
  RPICameraContrast :: u64
  RPICameraSaturation :: u64
  RPICameraSharpness :: u64
  RPICameraExposure :: string
  RPICameraAWB :: string
  RPICameraAWBGains :: "u64 list"
  RPICameraDenoise :: string
  RPICameraShutter :: u64
  RPICameraMetering :: string
  RPICameraGain :: u64
  RPICameraEV :: u64
  RPICameraROI :: string
  RPICameraHDR :: bool
  RPICameraTuningFile :: string
  RPICameraMode :: string
  RPICameraFPS :: u64
  RPICameraAfMode :: string
  RPICameraAfRange :: string
  RPICameraAfSpeed :: string
  RPICameraLensPosition :: u64
  RPICameraAfWindow :: string
  RPICameraFlickerPeriod :: u64
  RPICameraTextOverlayEnable :: bool
  RPICameraTextOverlay :: string
  RPICameraCodec :: string
  RPICameraIDRPeriod :: u64
  RPICameraBitrate :: u64
  RPICameraProfile :: string
  RPICameraLevel :: string

record deprecated_conf =
  Playback :: "bool option"
  PublishUser :: "string option"
  PublishPass :: "string option"
  PublishIPs :: "ip_net list option"
  ReadUser :: "string option"
  ReadPass :: "string option"
  ReadIPs :: "ip_net list option"
  DisablePublisherOverride :: "bool option"
  SourceProtocol :: "rtsp_transport option"
  SourceAnyPortEnable :: "bool option"

record path_conf =
  Regexp :: "string option"
  Name :: string
  Source :: string
  SourceFingerprint :: string
  SourceOnDemand :: bool
  SourceOnDemandStartTimeout :: duration
  SourceOnDemandCloseAfter :: duration
  MaxReaders :: int
  SRTReadPassphrase :: string
  Fallback :: string
  Record :: bool
  RecordPath :: string
  RecordFormat :: record_format
  RecordPartDuration :: duration
  RecordSegmentDuration :: duration
  RecordDeleteAfter :: duration
  OverridePublisher :: bool
  SRTPublishPassphrase :: string
  RTSPTransport :: rtsp_transport
  RTSPAnyPort :: bool
  RTSPRangeType :: rtsp_range_type
  RTSPRangeStart :: string
  SourceRedirect :: string
  RPICamera :: rpi_camera
  Deprecated :: deprecated_conf
  RunOnInit :: string
  RunOnInitRestart :: bool
  RunOnDemand :: string
  RunOnDemandRestart :: bool
  RunOnDemandStartTimeout :: duration
  RunOnDemandCloseAfter :: duration
  RunOnUnDemand :: string
  RunOnReady :: string
  RunOnReadyRestart :: bool
  RunOnNotReady :: string
  RunOnRead :: string
  RunOnReadRestart :: bool
  RunOnUnread :: string
  RunOnRecordSegmentCreate :: string
  RunOnRecordSegmentComplete :: string


text \<open>The zero value of the structure, and the defaults that \<open>setDefaults\<close> puts on it.\<close>

definition zero_camera :: rpi_camera where
  "zero_camera =
     \<lparr>RPICameraCamID = 0, RPICameraWidth = 0, RPICameraHeight = 0, RPICameraHFlip = False,
      RPICameraVFlip = False, RPICameraBrightness = 0, RPICameraContrast = 0, RPICameraSaturation = 0,
      RPICameraSharpness = 0, RPICameraExposure = [], RPICameraAWB = [], RPICameraAWBGains = [],
      RPICameraDenoise = [], RPICameraShutter = 0, RPICameraMetering = [], RPICameraGain = 0, RPICameraEV = 0,
      RPICameraROI = [], RPICameraHDR = False, RPICameraTuningFile = [], RPICameraMode = [], RPICameraFPS = 0,
      RPICameraAfMode = [], RPICameraAfRange = [], RPICameraAfSpeed = [], RPICameraLensPosition = 0,
      RPICameraAfWindow = [], RPICameraFlickerPeriod = 0, RPICameraTextOverlayEnable = False,
      RPICameraTextOverlay = [], RPICameraCodec = [], RPICameraIDRPeriod = 0, RPICameraBitrate = 0,
      RPICameraProfile = [], RPICameraLevel = []\<rparr>"

definition no_deprecated :: deprecated_conf where
  "no_deprecated =
     \<lparr>Playback = None, PublishUser = None, PublishPass = None, PublishIPs = None, ReadUser = None,
      ReadPass = None, ReadIPs = None, DisablePublisherOverride = None, SourceProtocol = None,
      SourceAnyPortEnable = None\<rparr>"

definition zero_conf :: path_conf where
  "zero_conf =
     \<lparr>Regexp = None, Name = [], Source = [], SourceFingerprint = [], SourceOnDemand = False,
      SourceOnDemandStartTimeout = 0, SourceOnDemandCloseAfter = 0, MaxReaders = 0, SRTReadPassphrase = [],
      Fallback = [], Record = False, RecordPath = [], RecordFormat = RecordFormatFMP4, RecordPartDuration = 0,
      RecordSegmentDuration = 0, RecordDeleteAfter = 0, OverridePublisher = False, SRTPublishPassphrase = [],
      RTSPTransport = TransportAutomatic, RTSPAnyPort = False, RTSPRangeType = RTSPRangeTypeUndefined,
      RTSPRangeStart = [], SourceRedirect = [], RPICamera = zero_camera, Deprecated = no_deprecated,
      RunOnInit = [], RunOnInitRestart = False, RunOnDemand = [], RunOnDemandRestart = False,
      RunOnDemandStartTimeout = 0, RunOnDemandCloseAfter = 0, RunOnUnDemand = [], RunOnReady = [],
      RunOnReadyRestart = False, RunOnNotReady = [], RunOnRead = [], RunOnReadRestart = False,
      RunOnUnread = [], RunOnRecordSegmentCreate = [], RunOnRecordSegmentComplete = []\<rparr>"

text \<open>The 64 bits of the floating point numbers 1 and 30.\<close>

definition float_1 :: u64 where
  "float_1 = 0x3FF0000000000000"

definition float_30 :: u64 where
  "float_30 = 0x403E000000000000"

definition camera_defaults :: "rpi_camera \<Rightarrow> rpi_camera" where
  "camera_defaults r = r
     \<lparr>RPICameraWidth := 1920, RPICameraHeight := 1080, RPICameraContrast := float_1,
      RPICameraSaturation := float_1, RPICameraSharpness := float_1, RPICameraExposure := ''normal'',
      RPICameraAWB := ''auto'', RPICameraAWBGains := [0, 0], RPICameraDenoise := ''off'',
      RPICameraMetering := ''centre'', RPICameraFPS := float_30, RPICameraAfMode := ''continuous'',
      RPICameraAfRange := ''normal'', RPICameraAfSpeed := ''normal'',
      RPICameraTextOverlay := ''%Y-%m-%d %H:%M:%S - MediaMTX'', RPICameraCodec := ''auto'',
      RPICameraIDRPeriod := 60, RPICameraBitrate := 5000000, RPICameraProfile := ''main'',
      RPICameraLevel := ''4.1''\<rparr>"

definition setDefaults :: "path_conf \<Rightarrow> path_conf" where
  "setDefaults c = c
     \<lparr>Source := ''publisher'', SourceOnDemandStartTimeout := 10 * second, SourceOnDemandCloseAfter := 10 * second,
      RecordPath := ''./recordings/%path/%Y-%m-%d_%H-%M-%S-%f'', RecordFormat := RecordFormatFMP4,
      RecordPartDuration := 1 * second, RecordSegmentDuration := 3600 * second,
      RecordDeleteAfter := 24 * 3600 * second, OverridePublisher := True,
      RPICamera := camera_defaults (RPICamera c),
      RunOnDemandStartTimeout := 10 * second, RunOnDemandCloseAfter := 10 * second\<rparr>"

record url =
  url_scheme :: string
  url_user :: "(string \<times> string) option"

record conf_env =
  rx_compiles :: "string \<Rightarrow> bool"
  rx_match :: "string \<Rightarrow> string \<Rightarrow> string list option"
  ParseURL :: "string \<Rightarrow> bool"
  url_Parse :: "string \<Rightarrow> url option"
  SplitHostPort :: "string \<Rightarrow> bool"

section \<open>Names\<close>

definition name_char :: "char \<Rightarrow> bool" where
  "name_char c =
     (let n = of_char c :: nat in
      (48 \<le> n \<and> n \<le> 57) \<or> (97 \<le> n \<and> n \<le> 122) \<or> (65 \<le> n \<and> n \<le> 90) \<or> c \<in> set ''_-/.~'')"

definition isValidPathName :: "string \<Rightarrow> unit result" where
  "isValidPathName nm =
     (if nm = [] then Inl (Errorf ''cannot be empty'' [])
      else if hd nm = slash then Inl (Errorf ''can't begin with a slash'' [])
      else if last nm = slash then Inl (Errorf ''can't end with a slash'' [])
      else if \<not> list_all name_char nm
        then Inl (Errorf ''can contain only alphanumeric characters, underscore, dot, tilde, minus or slash'' [])
      else Inr ())"

definition srtCheckPassphrase :: "string \<Rightarrow> unit result" where
  "srtCheckPassphrase p =
     (if length p < 10 \<or> length p > 79 then Inl (Errorf ''must be between 10 and 79 characters'' []) else Inr ())"

section \<open>What the path branches on\<close>

definition HasStaticSource :: "path_conf \<Rightarrow> bool" where
  "HasStaticSource c = (Source c \<noteq> ''publisher'' \<and> Source c \<noteq> ''redirect'')"

definition HasOnDemandStaticSource :: "path_conf \<Rightarrow> bool" where
  "HasOnDemandStaticSource c = (HasStaticSource c \<and> SourceOnDemand c)"

definition HasOnDemandPublisher :: "path_conf \<Rightarrow> bool" where
  "HasOnDemandPublisher c = (RunOnDemand c \<noteq> [])"

text \<open>
  \<open>Equal\<close> is \<open>reflect.DeepEqual\<close>; \<open>Clone\<close> encodes the configuration as JSON, decodes it into a new record, and
  keeps the compiled expression: a copy.
\<close>

definition conf_Equal :: "path_conf \<Rightarrow> path_conf \<Rightarrow> bool" where
  "conf_Equal a b = (a = b)"

definition conf_Clone :: "path_conf \<Rightarrow> path_conf" where
  "conf_Clone c = c"

text \<open>
  Whether the paths of a configuration can be updated in place (\<open>internal/core/path_manager.go\<close>): recording
  and the parameters that a running camera can change are the only differences.
\<close>

definition hot_camera :: "rpi_camera \<Rightarrow> rpi_camera \<Rightarrow> rpi_camera" where
  "hot_camera old new = old
     \<lparr>RPICameraBrightness := RPICameraBrightness new, RPICameraContrast := RPICameraContrast new,
      RPICameraSaturation := RPICameraSaturation new, RPICameraSharpness := RPICameraSharpness new,
      RPICameraExposure := RPICameraExposure new, RPICameraFlickerPeriod := RPICameraFlickerPeriod new,
      RPICameraAWB := RPICameraAWB new, RPICameraAWBGains := RPICameraAWBGains new,
      RPICameraDenoise := RPICameraDenoise new, RPICameraShutter := RPICameraShutter new,
      RPICameraMetering := RPICameraMetering new, RPICameraGain := RPICameraGain new,
      RPICameraEV := RPICameraEV new, RPICameraFPS := RPICameraFPS new,
      RPICameraIDRPeriod := RPICameraIDRPeriod new, RPICameraBitrate := RPICameraBitrate new\<rparr>"

definition pathConfCanBeUpdated :: "path_conf \<Rightarrow> path_conf \<Rightarrow> bool" where
  "pathConfCanBeUpdated old new =
     conf_Equal new ((conf_Clone old)\<lparr>Record := Record new, RPICamera := hot_camera (RPICamera old) (RPICamera new)\<rparr>)"

lemma updatable_same:
  assumes "pathConfCanBeUpdated old new"
  shows "Regexp new = Regexp old" "Name new = Name old" "Source new = Source old"
    "SourceOnDemand new = SourceOnDemand old" "RunOnDemand new = RunOnDemand old" "MaxReaders new = MaxReaders old"
    "HasStaticSource new = HasStaticSource old" "HasOnDemandStaticSource new = HasOnDemandStaticSource old"
    "HasOnDemandPublisher new = HasOnDemandPublisher old" "OverridePublisher new = OverridePublisher old"
    "Fallback new = Fallback old"
proof -
  have new: "new = old\<lparr>Record := Record new, RPICamera := hot_camera (RPICamera old) (RPICamera new)\<rparr>"
    using assms by (simp add: pathConfCanBeUpdated_def conf_Equal_def conf_Clone_def)
  show "Regexp new = Regexp old" "Name new = Name old" "Source new = Source old"
    "SourceOnDemand new = SourceOnDemand old" "RunOnDemand new = RunOnDemand old" "MaxReaders new = MaxReaders old"
    "HasStaticSource new = HasStaticSource old" "HasOnDemandStaticSource new = HasOnDemandStaticSource old"
    "HasOnDemandPublisher new = HasOnDemandPublisher old" "OverridePublisher new = OverridePublisher old"
    "Fallback new = Fallback old"
    by (subst new, simp add: HasStaticSource_def HasOnDemandStaticSource_def HasOnDemandPublisher_def)+
qed

section \<open>The configuration of a name\<close>

text \<open>
  The map of configurations is iterated twice, in an order that Go leaves open: the configurations are a
  list of pairs with distinct names, in any order. A nil expression under the name \<open>all\<close> is a panic.
\<close>

definition is_catch_all :: "string \<Rightarrow> bool" where
  "is_catch_all k = (k = ''all'' \<or> k = ''all_others'')"

fun find_regexp :: "conf_env \<Rightarrow> (string \<times> path_conf) list \<Rightarrow> string \<Rightarrow> (path_conf \<times> string list) option" where
  "find_regexp env [] nm = None"
| "find_regexp env ((k, c) # cs) nm =
     (case Regexp c of
        None \<Rightarrow> find_regexp env cs nm
      | Some rx \<Rightarrow>
          (if is_catch_all k then find_regexp env cs nm
           else case rx_match env rx nm of
               Some m \<Rightarrow> Some (c, m)
             | None \<Rightarrow> find_regexp env cs nm))"

fun find_all_others ::
    "conf_env \<Rightarrow> (string \<times> path_conf) list \<Rightarrow> string \<Rightarrow> (path_conf \<times> string list) option result" where
  "find_all_others env [] nm = Inr None"
| "find_all_others env ((k, c) # cs) nm =
     (if is_catch_all k then
        case Regexp c of
          None \<Rightarrow> Inl Panic
        | Some rx \<Rightarrow>
            (case rx_match env rx nm of
               Some m \<Rightarrow> Inr (Some (c, m))
             | None \<Rightarrow> find_all_others env cs nm)
      else find_all_others env cs nm)"

definition not_configured :: "string \<Rightarrow> go_error" where
  "not_configured nm = Errorf (''path '' @ quoted nm @ '' is not configured'') []"

definition FindPathConf ::
    "conf_env \<Rightarrow> (string \<times> path_conf) list \<Rightarrow> string \<Rightarrow> (path_conf \<times> string list) result" where
  "FindPathConf env confs nm =
     (case isValidPathName nm of
        Inl e \<Rightarrow> Inl (Wrapped (''invalid path name: %w ('' @ nm @ '')'') e)
      | Inr _ \<Rightarrow>
          (case map_of confs nm of
             Some c \<Rightarrow> Inr (c, [])
           | None \<Rightarrow>
               (case find_regexp env confs nm of
                  Some r \<Rightarrow> Inr r
                | None \<Rightarrow>
                    bindE (find_all_others env confs nm) (\<lambda>r.
                      case r of
                        Some r \<Rightarrow> Inr r
                      | None \<Rightarrow> Inl (not_configured nm)))))"

section \<open>Validation\<close>

text \<open>
  The part of the global configuration that \<open>validate\<close> reads or extends: the other paths, whether the
  playback server is enabled, and the internal users, which the deprecated credentials extend.
\<close>

record global_conf =
  conf_Paths :: "(string \<times> path_conf) list"
  conf_Playback :: bool
  AuthInternalUsers :: "auth_internal_user list"

definition require :: "bool \<Rightarrow> string \<Rightarrow> unit result" where
  "require b msg = (if b then Inr () else Inl (Errorf msg []))"

definition HasAnyPrefix :: "string \<Rightarrow> string list \<Rightarrow> bool" where
  "HasAnyPrefix s ps = list_ex (HasPrefix s) ps"

definition validate_name :: "conf_env \<Rightarrow> string \<Rightarrow> path_conf \<Rightarrow> path_conf result" where
  "validate_name env nm c0 =
     (let c = c0\<lparr>Name := nm\<rparr> in
      if nm = ''all_others'' \<or> nm = ''all'' then Inr (c\<lparr>Regexp := Some ''^.*$''\<rparr>)
      else if nm = [] \<or> hd nm \<noteq> CHR ''~'' then
        (case isValidPathName nm of
           Inl e \<Rightarrow> Inl (Wrapped (''invalid path name '' @ quoted nm @ '': %w'') e)
         | Inr _ \<Rightarrow> Inr c)
      else if rx_compiles env (tl nm) then Inr (c\<lparr>Regexp := Some (tl nm)\<rparr>)
      else Inl (Errorf (''invalid regular expression: '' @ tl nm) []))"

definition validate_common :: "path_conf \<Rightarrow> unit result" where
  "validate_common c =
     bindE (require (\<not> (HasStaticSource c \<and> Regexp c \<noteq> None \<and> \<not> SourceOnDemand c))
       ''a path with a regular expression (or path 'all') and a static source must have 'sourceOnDemand' set to true'') (\<lambda>_.
     bindE (require (\<not> (SRTPublishPassphrase c \<noteq> [] \<and> Source c \<noteq> ''publisher''))
       (quoted ''srtPublishPassphase'' @ '' can only be used when source is '' @ quoted ''publisher'')) (\<lambda>_.
     require (\<not> (SourceOnDemand c \<and> Source c = ''publisher''))
       (quoted ''sourceOnDemand'' @ '' is useless when source is '' @ quoted ''publisher'')))"

definition invalid_url :: "path_conf \<Rightarrow> go_error" where
  "invalid_url c = Errorf (quoted (Source c) @ '' is not a valid URL'') []"

text \<open>The user name and the password of a URL must be both empty or both filled.\<close>

definition credentials_ok :: "url \<Rightarrow> bool" where
  "credentials_ok u =
     (case url_user u of
        None \<Rightarrow> True
      | Some (user, pass) \<Rightarrow> \<not> (user \<noteq> [] \<and> pass = [] \<or> user = [] \<and> pass \<noteq> []))"

definition validate_publisher :: "path_conf \<Rightarrow> path_conf result" where
  "validate_publisher c =
     (let c' = (case DisablePublisherOverride (Deprecated c) of
                  Some d \<Rightarrow> c\<lparr>OverridePublisher := \<not> d\<rparr>
                | None \<Rightarrow> c) in
      if SRTPublishPassphrase c' \<noteq> [] then
        (case srtCheckPassphrase (SRTPublishPassphrase c') of
           Inl e \<Rightarrow> Inl (Wrapped ''invalid 'srtPublishPassphrase': %w'' e)
         | Inr _ \<Rightarrow> Inr c')
      else Inr c')"

definition validate_rtsp :: "conf_env \<Rightarrow> path_conf \<Rightarrow> path_conf result" where
  "validate_rtsp env c =
     (if \<not> ParseURL env (Source c) then Inl (invalid_url c)
      else
        let c1 = (case SourceProtocol (Deprecated c) of Some t \<Rightarrow> c\<lparr>RTSPTransport := t\<rparr> | None \<Rightarrow> c);
            c2 = (case SourceAnyPortEnable (Deprecated c) of Some b \<Rightarrow> c1\<lparr>RTSPAnyPort := b\<rparr> | None \<Rightarrow> c1)
        in Inr c2)"

definition validate_url :: "conf_env \<Rightarrow> path_conf \<Rightarrow> string list \<Rightarrow> bool \<Rightarrow> path_conf result" where
  "validate_url env c schemes credentials =
     (case url_Parse env (Source c) of
        None \<Rightarrow> Inl (invalid_url c)
      | Some u \<Rightarrow>
          bindE (if schemes \<noteq> [] \<and> url_scheme u \<notin> set schemes then Inl (invalid_url c) else Inr ()) (\<lambda>_.
          bindE (require (\<not> credentials \<or> credentials_ok u) ''username and password must be both provided'') (\<lambda>_.
          Inr c)))"

definition validate_redirect :: "conf_env \<Rightarrow> path_conf \<Rightarrow> path_conf result" where
  "validate_redirect env c =
     bindE (require (SourceRedirect c \<noteq> []) ''source redirect must be filled'') (\<lambda>_.
     bindE (require (ParseURL env (SourceRedirect c))
              (quoted (SourceRedirect c) @ '' is not a valid RTSP URL'')) (\<lambda>_.
     Inr c))"

text \<open>\<open>otherPath != pconf\<close> compares pointers: the configuration of another name.\<close>

definition same_camera :: "path_conf \<Rightarrow> string \<Rightarrow> string \<times> path_conf \<Rightarrow> bool" where
  "same_camera c nm other =
     (fst other \<noteq> nm \<and> Source (snd other) = ''rpiCamera'' \<and>
      RPICameraCamID (RPICamera (snd other)) = RPICameraCamID (RPICamera c))"

definition validate_rpicamera :: "global_conf \<Rightarrow> string \<Rightarrow> path_conf \<Rightarrow> path_conf result" where
  "validate_rpicamera g nm c =
     (let r = RPICamera c in
      bindE (case find (same_camera c nm) (conf_Paths g) of
          Some (other, _) \<Rightarrow>
            Inl (Errorf (quoted ''rpiCamera'' @ '' with same camera ID %d is used as source in two paths, '' @ quoted nm @
                         '' and '' @ quoted other) [uint (RPICameraCamID r)])
        | None \<Rightarrow> Inr ()) (\<lambda>_.
      bindE (require (RPICameraExposure r \<in> set [''normal'', ''short'', ''long'', ''custom''])
        ''invalid 'rpiCameraExposure' value'') (\<lambda>_.
      bindE (require (RPICameraAWB r \<in> set [''auto'', ''incandescent'', ''tungsten'', ''fluorescent'', ''indoor'',
                                           ''daylight'', ''cloudy'', ''custom''])
        ''invalid 'rpiCameraAWB' value'') (\<lambda>_.
      bindE (require (length (RPICameraAWBGains r) = 2) ''invalid 'rpiCameraAWBGains' value'') (\<lambda>_.
      bindE (require (RPICameraDenoise r \<in> set [''off'', ''cdn_off'', ''cdn_fast'', ''cdn_hq''])
        ''invalid 'rpiCameraDenoise' value'') (\<lambda>_.
      bindE (require (RPICameraMetering r \<in> set [''centre'', ''spot'', ''matrix'', ''custom''])
        ''invalid 'rpiCameraMetering' value'') (\<lambda>_.
      bindE (require (RPICameraAfMode r \<in> set [''auto'', ''manual'', ''continuous''])
        ''invalid 'rpiCameraAfMode' value'') (\<lambda>_.
      bindE (require (RPICameraAfRange r \<in> set [''normal'', ''macro'', ''full''])
        ''invalid 'rpiCameraAfRange' value'') (\<lambda>_.
      bindE (require (RPICameraAfSpeed r \<in> set [''normal'', ''fast'']) ''invalid 'rpiCameraAfSpeed' value'') (\<lambda>_.
      bindE (require (RPICameraCodec r \<in> set [''auto'', ''hardwareH264'', ''softwareH264''])
        ''invalid 'rpiCameraCodec' value'') (\<lambda>_.
      Inr c)))))))))))"

definition validate_source :: "conf_env \<Rightarrow> global_conf \<Rightarrow> string \<Rightarrow> path_conf \<Rightarrow> path_conf result" where
  "validate_source env g nm c =
     (let src = Source c in
      if src = ''publisher'' then validate_publisher c
      else if HasAnyPrefix src [''rtsp://'', ''rtsps://''] then validate_rtsp env c
      else if HasAnyPrefix src [''rtmp://'', ''rtmps://''] then validate_url env c [] True
      else if HasAnyPrefix src [''http://'', ''https://''] then validate_url env c [''http'', ''https''] True
      else if HasPrefix src ''udp://'' then
        (if SplitHostPort env (drop (length ''udp://'') src) then Inr c
         else Inl (Errorf (quoted src @ '' is not a valid UDP URL'') []))
      else if HasPrefix src ''srt://'' then validate_url env c [] False
      else if HasAnyPrefix src [''whep://'', ''wheps://''] then validate_url env c [] False
      else if src = ''redirect'' then validate_redirect env c
      else if src = ''rpiCamera'' then validate_rpicamera g nm c
      else Inl (Errorf (''invalid source: '' @ quoted src) []))"

definition validate_fallback :: "conf_env \<Rightarrow> path_conf \<Rightarrow> unit result" where
  "validate_fallback env c =
     (if Fallback c = [] then Inr ()
      else if HasPrefix (Fallback c) ''/'' then
        (case isValidPathName (tl (Fallback c)) of
           Inl e \<Rightarrow> Inl (Wrapped (quoted (Fallback c) @ '': %w'') e)
         | Inr _ \<Rightarrow> Inr ())
      else require (ParseURL env (Fallback c)) (quoted (Fallback c) @ '' is not a valid RTSP URL''))"

definition validate_record :: "global_conf \<Rightarrow> path_conf \<Rightarrow> unit result" where
  "validate_record g c =
     bindE (require (\<not> conf_Playback g \<or>
                     list_all (Contains (RecordPath c)) [''%Y'', ''%m'', ''%d'', ''%H'', ''%M'', ''%S'', ''%f''])
              (''record path '' @ quoted (RecordPath c) @ '' is missing one of the mandatory elements'' @
               '' for the playback server to work: %Y %m %d %H %M %S %f'')) (\<lambda>_.
     require (RecordSegmentDuration c \<le> 24 * 3600 * second) ''maximum segment duration is 1 day'')"

definition deprecated_user ::
    "string \<Rightarrow> auth_action \<Rightarrow> string option \<Rightarrow> string option \<Rightarrow> ip_net list option \<Rightarrow> auth_internal_user" where
  "deprecated_user nm action user pass ips =
     \<lparr>User = (case user of Some u \<Rightarrow> if u \<noteq> [] then u else ''any'' | None \<Rightarrow> ''any''),
      Pass = (case pass of Some p \<Rightarrow> p | None \<Rightarrow> []),
      IPs = (case ips of Some l \<Rightarrow> if l \<noteq> [] then l else [any_ipv4] | None \<Rightarrow> [any_ipv4]),
      Permissions = [\<lparr>PermAction = action,
        PermPath = (if nm = ''all_others'' \<or> nm = ''all'' then ''~^.*$'' else nm)\<rparr>]\<rparr>"

definition validate_auth :: "string \<Rightarrow> path_conf \<Rightarrow> global_conf \<Rightarrow> global_conf" where
  "validate_auth nm c g =
     (let d = Deprecated c in
      g\<lparr>AuthInternalUsers := AuthInternalUsers g @
          [deprecated_user nm AuthActionPublish (PublishUser d) (PublishPass d) (PublishIPs d),
           deprecated_user nm AuthActionRead (ReadUser d) (ReadPass d) (ReadIPs d)]\<rparr>)"

definition validate_hooks :: "path_conf \<Rightarrow> unit result" where
  "validate_hooks c =
     bindE (require (\<not> (RunOnInit c \<noteq> [] \<and> Regexp c \<noteq> None))
       ''a path with a regular expression (or path 'all') does not support option 'runOnInit'; use another path'') (\<lambda>_.
     require (\<not> ((RunOnDemand c \<noteq> [] \<or> RunOnUnDemand c \<noteq> []) \<and> Source c \<noteq> ''publisher''))
       (quoted ''runOnDemand'' @ '' and '' @ quoted ''runOnUnDemand'' @ '' can be used only when source is '' @
        quoted ''publisher''))"

definition validate ::
    "conf_env \<Rightarrow> global_conf \<Rightarrow> string \<Rightarrow> bool \<Rightarrow> path_conf \<Rightarrow> (path_conf \<times> global_conf) result" where
  "validate env g nm deprecatedCredentialsMode c0 =
     bindE (validate_name env nm c0) (\<lambda>c1.
     bindE (validate_common c1) (\<lambda>_.
     bindE (validate_source env g nm c1) (\<lambda>c.
     bindE (if SRTReadPassphrase c = [] then Inr ()
            else case srtCheckPassphrase (SRTReadPassphrase c) of
                Inl e \<Rightarrow> Inl (Wrapped ''invalid 'readRTPassphrase': %w'' e)
              | Inr _ \<Rightarrow> Inr ()) (\<lambda>_.
     bindE (validate_fallback env c) (\<lambda>_.
     bindE (validate_record g c) (\<lambda>_.
     let g' = (if deprecatedCredentialsMode then validate_auth nm c g else g) in
     bindE (validate_hooks c) (\<lambda>_.
     Inr (c, g'))))))))"


text \<open>What a configuration that \<open>validate\<close> accepted satisfies, as the path relies on it.\<close>

definition conf_valid :: "path_conf \<Rightarrow> bool" where
  "conf_valid c =
     ((HasStaticSource c \<and> Regexp c \<noteq> None \<longrightarrow> SourceOnDemand c) \<and>
      (HasOnDemandPublisher c \<longrightarrow> Source c = ''publisher'') \<and>
      (SourceOnDemand c \<longrightarrow> Source c \<noteq> ''publisher''))"


lemma require_Inr [simp]: "require b msg = Inr u \<longleftrightarrow> b"
  by (simp add: require_def)

lemma validate_source_same:
  assumes "validate_source env g nm c = Inr c'"
  shows "Source c' = Source c" "Regexp c' = Regexp c" "SourceOnDemand c' = SourceOnDemand c"
    "RunOnDemand c' = RunOnDemand c" "Name c' = Name c"
  using assms
  by (auto simp: validate_source_def validate_publisher_def validate_rtsp_def validate_url_def
      validate_redirect_def validate_rpicamera_def Let_def bindE_eq_Inr
      split: if_splits option.splits sum.splits prod.splits)

lemma validate_parts:
  assumes "validate env g nm d c0 = Inr (c, g')"
  obtains c1 where "validate_name env nm c0 = Inr c1" "validate_common c1 = Inr ()"
    "validate_source env g nm c1 = Inr c" "validate_hooks c = Inr ()"
  using assms by (auto simp: validate_def Let_def bindE_eq_Inr)

lemma validate_valid:
  assumes "validate env g nm d c0 = Inr (c, g')"
  shows "conf_valid c"
proof -
  obtain c1 where c1: "validate_common c1 = Inr ()" "validate_source env g nm c1 = Inr c"
    and hooks: "validate_hooks c = Inr ()"
    using assms by (rule validate_parts)
  show ?thesis
    using c1(1) hooks validate_source_same [OF c1(2)]
    by (auto simp: conf_valid_def validate_common_def validate_hooks_def HasStaticSource_def
        HasOnDemandPublisher_def bindE_eq_Inr)
qed

text \<open>
  A table of configurations: one entry for a name, and an expression under the names \<open>all\<close> and
  \<open>all_others\<close>, which \<open>validate\<close> puts there; and an entry whose expression matches a name.
\<close>

definition conf_table :: "(string \<times> path_conf) list \<Rightarrow> bool" where
  "conf_table cs =
     (distinct (map fst cs) \<and> list_all (\<lambda>(k, c). is_catch_all k \<longrightarrow> Regexp c \<noteq> None) cs)"

definition entry_matches :: "conf_env \<Rightarrow> string \<Rightarrow> string \<times> path_conf \<Rightarrow> string list \<Rightarrow> bool" where
  "entry_matches env nm kc m =
     (case Regexp (snd kc) of None \<Rightarrow> False | Some rx \<Rightarrow> rx_match env rx nm = Some m)"

lemma find_regexp_Some:
  assumes "find_regexp env cs nm = Some (c, m)"
  shows "\<exists>k. (k, c) \<in> set cs \<and> \<not> is_catch_all k \<and> entry_matches env nm (k, c) m"
  using assms
  by (induction env cs nm rule: find_regexp.induct)
    (force simp: entry_matches_def split: option.splits if_splits)+

lemma find_regexp_None:
  assumes "find_regexp env cs nm = None" "kc \<in> set cs" "entry_matches env nm kc m"
  shows "is_catch_all (fst kc)"
  using assms
  by (induction env cs nm rule: find_regexp.induct)
    (auto simp: entry_matches_def split: option.splits if_splits)

lemma find_all_others_Some:
  assumes "find_all_others env cs nm = Inr (Some (c, m))"
  shows "\<exists>k. (k, c) \<in> set cs \<and> is_catch_all k \<and> entry_matches env nm (k, c) m"
  using assms
  by (induction env cs nm rule: find_all_others.induct)
    (force simp: entry_matches_def split: option.splits if_splits)+

lemma find_all_others_None:
  assumes "find_all_others env cs nm = Inr None" "kc \<in> set cs" "is_catch_all (fst kc)"
  shows "\<not> entry_matches env nm kc m"
  using assms
  by (induction env cs nm rule: find_all_others.induct)
    (auto simp: entry_matches_def split: option.splits if_splits; blast)+

lemma find_all_others_table:
  assumes "conf_table cs"
  shows "\<exists>r. find_all_others env cs nm = Inr r"
  using assms
  by (induction env cs nm rule: find_all_others.induct)
    (auto simp: conf_table_def split: option.splits if_splits)

text \<open>What a lookup that returned a configuration says, and what one that found none says.\<close>

definition lookup_found :: "conf_env \<Rightarrow> (string \<times> path_conf) list \<Rightarrow> string \<Rightarrow> path_conf \<times> string list \<Rightarrow> bool" where
  "lookup_found env cs nm r =
     (map_of cs nm = Some (fst r) \<and> snd r = [] \<or>
      map_of cs nm = None \<and>
        (\<exists>k. (k, fst r) \<in> set cs \<and> entry_matches env nm (k, fst r) (snd r) \<and>
           (is_catch_all k \<longrightarrow> (\<forall>kc \<in> set cs. \<forall>m. entry_matches env nm kc m \<longrightarrow> is_catch_all (fst kc)))))"

definition lookup_missing :: "conf_env \<Rightarrow> (string \<times> path_conf) list \<Rightarrow> string \<Rightarrow> bool" where
  "lookup_missing env cs nm =
     (map_of cs nm = None \<and> (\<forall>kc \<in> set cs. \<forall>m. \<not> entry_matches env nm kc m))"

lemma lookup_regexp:
  assumes "map_of cs nm = None" "find_regexp env cs nm = Some r"
  shows "lookup_found env cs nm r"
  using assms find_regexp_Some [of env cs nm "fst r" "snd r"] by (auto simp: lookup_found_def)

lemma lookup_catch_all:
  assumes "map_of cs nm = None" "find_regexp env cs nm = None" "find_all_others env cs nm = Inr (Some r)"
  shows "lookup_found env cs nm r"
  using assms find_all_others_Some [of env cs nm "fst r" "snd r"] find_regexp_None [OF assms(2)]
  by (auto simp: lookup_found_def)

lemma lookup_nothing:
  assumes "map_of cs nm = None" "find_regexp env cs nm = None" "find_all_others env cs nm = Inr None"
  shows "lookup_missing env cs nm"
  unfolding lookup_missing_def
  using assms(1) find_all_others_None [OF assms(3)] find_regexp_None [OF assms(2)] by blast

text \<open>
  C22. The lookup of a configuration. In a table whose catch-all entries have an expression, \<open>FindPathConf\<close>
  does not panic, and for a valid name it returns: the entry with that very name if there is one; else an
  entry whose expression matches, and a catch-all entry only if no other expression matches; else an
  error, and then nothing in the table matches. An invalid name is refused before the table is read.
\<close>

theorem find_path_conf_spec:
  assumes "conf_table confs"
  shows "case isValidPathName nm of
      Inl e \<Rightarrow> FindPathConf env confs nm = Inl (Wrapped (''invalid path name: %w ('' @ nm @ '')'') e)
    | Inr _ \<Rightarrow>
        (\<exists>r. FindPathConf env confs nm = Inr r \<and> lookup_found env confs nm r) \<or>
        FindPathConf env confs nm = Inl (not_configured nm) \<and> lookup_missing env confs nm"
proof -
  obtain r where "find_all_others env confs nm = Inr r"
    using find_all_others_table [OF assms] by blast
  then show ?thesis
    using lookup_regexp [of confs nm env] lookup_catch_all [of confs nm env] lookup_nothing [of confs nm env]
    by (auto simp: FindPathConf_def lookup_found_def [of _ _ _ "(_, [])"] split: sum.split option.split)
qed


text \<open>An environment whose expressions match everything, for the witnesses.\<close>

definition sample_env :: conf_env where
  "sample_env =
     \<lparr>rx_compiles = \<lambda>_. True, rx_match = \<lambda>rx nm. (if rx = ''^.*$'' then Some [nm] else None),
      ParseURL = \<lambda>_. True, url_Parse = \<lambda>_. Some \<lparr>url_scheme = ''http'', url_user = None\<rparr>,
      SplitHostPort = \<lambda>_. True\<rparr>"

definition catch_all_conf :: path_conf where
  "catch_all_conf = (setDefaults zero_conf)\<lparr>Name := ''all_others'', Regexp := Some ''^.*$''\<rparr>"

lemma find_path_conf_spec_witness:
  "conf_table [(''all_others'', catch_all_conf)] \<and>
   (\<exists>r. FindPathConf sample_env [(''all_others'', catch_all_conf)] ''live/cam'' = Inr r \<and>
      lookup_found sample_env [(''all_others'', catch_all_conf)] ''live/cam'' r)"
proof -
  have table: "conf_table [(''all_others'', catch_all_conf)]"
    by (simp add: conf_table_def is_catch_all_def catch_all_conf_def)
  have "isValidPathName ''live/cam'' = Inr ()"
    by (simp add: isValidPathName_def name_char_def slash_def)
  moreover have "\<not> lookup_missing sample_env [(''all_others'', catch_all_conf)] ''live/cam''"
    by (simp add: lookup_missing_def entry_matches_def sample_env_def catch_all_conf_def)
  ultimately show ?thesis
    using table find_path_conf_spec [OF table, of sample_env "''live/cam''"] by simp
qed

end
