(* ===== verification/StaticSource.thy ===== *)
theory StaticSource
  imports PathConf
begin

text \<open>
  The handler of a static source, \<open>internal/core/static_source_handler.go\<close>: the choice of the source from
  the prefix of its URL, the substitution of the groups and of the query in that URL, start, stop and
  reload as the path calls them, and the goroutine of \<open>run\<close>, which keeps one instance of the source
  running and starts it again after an error.

  The instance itself (one package for a protocol) is not modelled: that it returns, with an error, is an
  event of the goroutine.
\<close>

section \<open>Resolving the source\<close>

fun replace_groups :: "nat \<Rightarrow> string list \<Rightarrow> string \<Rightarrow> string" where
  "replace_groups i [] s = s"
| "replace_groups i (ma # mas) s = replace_groups (Suc i) mas (ReplaceAll s (''$G'' @ FormatInt (Suc i)) ma)"

definition resolveSource :: "string \<Rightarrow> string list \<Rightarrow> string \<Rightarrow> string" where
  "resolveSource s matches query =
     ReplaceAll (if 1 < length matches then replace_groups 0 (tl matches) s else s) ''$MTX_QUERY'' query"

section \<open>The handler\<close>

datatype source_kind = RTSPSource | RTMPSource | HLSSource | UDPSource | SRTSource | WebRTCSource | RPICameraSource

record static_handler =
  h_conf :: path_conf
  h_matches :: "string list"
  h_instance :: "source_kind option"
  h_running :: bool
  h_query :: string

definition source_kind_of :: "string \<Rightarrow> source_kind option" where
  "source_kind_of src =
     (if HasAnyPrefix src [''rtsp://'', ''rtsps://''] then Some RTSPSource
      else if HasAnyPrefix src [''rtmp://'', ''rtmps://''] then Some RTMPSource
      else if HasAnyPrefix src [''http://'', ''https://''] then Some HLSSource
      else if HasPrefix src ''udp://'' then Some UDPSource
      else if HasPrefix src ''srt://'' then Some SRTSource
      else if HasAnyPrefix src [''whep://'', ''wheps://''] then Some WebRTCSource
      else if src = ''rpiCamera'' then Some RPICameraSource
      else None)"

definition new_handler :: "path_conf \<Rightarrow> string list \<Rightarrow> static_handler" where
  "new_handler c matches =
     \<lparr>h_conf = c, h_matches = matches, h_instance = None, h_running = False, h_query = []\<rparr>"

definition handler_initialize :: "static_handler \<Rightarrow> static_handler result" where
  "handler_initialize h =
     (case source_kind_of (Source (h_conf h)) of
        Some k \<Rightarrow> Inr (h\<lparr>h_instance := Some k\<rparr>)
      | None \<Rightarrow> Inl Panic)"

text \<open>\<open>start\<close> and \<open>stop\<close> panic when they are called twice; the wait of \<open>stop\<close> for the goroutine is not visible.\<close>

definition handler_start :: "string \<Rightarrow> static_handler \<Rightarrow> static_handler result" where
  "handler_start query h =
     (if h_running h then Inl Panic else Inr (h\<lparr>h_running := True, h_query := query\<rparr>))"

definition handler_stop :: "static_handler \<Rightarrow> static_handler result" where
  "handler_stop h = (if \<not> h_running h then Inl Panic else Inr (h\<lparr>h_running := False\<rparr>))"

text \<open>\<open>reloadConf\<close> sends the configuration to the goroutine, if there is one; the result says whether it does.\<close>

definition handler_reloadConf :: "path_conf \<Rightarrow> static_handler \<Rightarrow> path_conf option" where
  "handler_reloadConf newConf h = (if \<not> h_running h then None else Some newConf)"

section \<open>The goroutine of a running handler\<close>

text \<open>
  The local variables of \<open>run\<close>, the configuration of the handler that it may replace, and whether the
  instance is inside \<open>Run\<close>.
\<close>

record source_loop =
  l_handler :: static_handler
  l_instance_running :: bool
  l_recreating :: bool
  l_recreateTimer :: "duration option"
  l_ended :: bool

datatype loop_event =
    RunErr go_error
  | InstanceSetReady
  | InstanceSetNotReady
  | LoopReloadConf path_conf
  | RecreateTimer
  | CtxDone

datatype loop_effect =
    RunInstance string path_conf
  | RunCtxCancel
  | ForwardSetReady
  | ForwardSetNotReady
  | ForwardReloadConf path_conf

definition staticSourceHandlerRetryPause :: duration where
  "staticSourceHandlerRetryPause = 5 * second"

definition loop_recreate :: "source_loop \<Rightarrow> source_loop \<times> loop_effect list" where
  "loop_recreate l =
     (let h = l_handler l in
      (l\<lparr>l_instance_running := True\<rparr>,
       [RunInstance (resolveSource (Source (h_conf h)) (h_matches h) (h_query h)) (h_conf h)]))"

definition loop_start :: "static_handler \<Rightarrow> source_loop \<times> loop_effect list" where
  "loop_start h =
     loop_recreate \<lparr>l_handler = h, l_instance_running = False, l_recreating = False,
                    l_recreateTimer = None, l_ended = False\<rparr>"

text \<open>
  One turn of the loop. An event is enabled only if the code can receive it: the instance returns only while
  it runs, and calls \<open>SetReady\<close> and \<open>SetNotReady\<close> only then; a timer fires only if it is armed. When the
  context is over, the goroutine cancels the instance, if there is one, and waits for its error.
\<close>

definition loop_enabled :: "source_loop \<Rightarrow> loop_event \<Rightarrow> bool" where
  "loop_enabled l ev =
     (\<not> l_ended l \<and>
      (case ev of
         RunErr _ \<Rightarrow> l_instance_running l
       | InstanceSetReady \<Rightarrow> l_instance_running l
       | InstanceSetNotReady \<Rightarrow> l_instance_running l
       | RecreateTimer \<Rightarrow> l_recreateTimer l \<noteq> None
       | _ \<Rightarrow> True))"

fun loop_turn :: "source_loop \<Rightarrow> loop_event \<Rightarrow> source_loop \<times> loop_effect list" where
  "loop_turn l (RunErr e) =
     (l\<lparr>l_instance_running := False, l_recreating := True, l_recreateTimer := Some staticSourceHandlerRetryPause\<rparr>,
      [RunCtxCancel])"
| "loop_turn l InstanceSetReady = (l, [ForwardSetReady])"
| "loop_turn l InstanceSetNotReady = (l, [ForwardSetNotReady])"
| "loop_turn l (LoopReloadConf c) =
     (l\<lparr>l_handler := (l_handler l)\<lparr>h_conf := c\<rparr>\<rparr>,
      if l_recreating l then [] else [ForwardReloadConf c])"
| "loop_turn l RecreateTimer =
     (let (l', eff) = loop_recreate (l\<lparr>l_recreateTimer := None\<rparr>) in (l'\<lparr>l_recreating := False\<rparr>, eff))"
| "loop_turn l CtxDone =
     (if \<not> l_recreating l then (l\<lparr>l_instance_running := False, l_ended := True\<rparr>, [RunCtxCancel])
      else (l\<lparr>l_ended := True\<rparr>, []))"

inductive loop_reach :: "static_handler \<Rightarrow> source_loop \<Rightarrow> loop_effect list \<Rightarrow> bool" for h where
  loop_init: "loop_start h = (l, eff) \<Longrightarrow> loop_reach h l eff"
| loop_step: "loop_reach h l eff \<Longrightarrow> loop_enabled l ev \<Longrightarrow> loop_turn l ev = (l', eff') \<Longrightarrow>
    loop_reach h l' (eff @ eff')"


section \<open>Lemmas\<close>

lemma handler_calls [simp]:
  "handler_start q h = Inl e \<longleftrightarrow> e = Panic \<and> h_running h"
  "handler_start q h = Inr h' \<longleftrightarrow> \<not> h_running h \<and> h' = h\<lparr>h_running := True, h_query := q\<rparr>"
  "handler_stop h = Inl e \<longleftrightarrow> e = Panic \<and> \<not> h_running h"
  "handler_stop h = Inr h' \<longleftrightarrow> h_running h \<and> h' = h\<lparr>h_running := False\<rparr>"
  by (auto simp: handler_start_def handler_stop_def)

text \<open>A configuration with a static source that \<open>validate\<close> accepted names a source that the handler knows.\<close>

lemma validate_source_kind:
  assumes "validate_source env g nm c = Inr c'" "HasStaticSource c"
  shows "source_kind_of (Source c) \<noteq> None"
  using assms by (auto simp: validate_source_def source_kind_of_def HasStaticSource_def Let_def split: if_splits)

text \<open>
  The handler of a path with a validated configuration never reaches the panic of \<open>initialize\<close>: every
  static source that \<open>validate\<close> accepts has one of the prefixes that the handler distinguishes.
\<close>

theorem validated_source_known:
  assumes "validate env g nm d c0 = Inr (c, g')" "HasStaticSource c"
  shows "\<exists>h k. handler_initialize (new_handler c matches) = Inr h \<and> h_instance h = Some k \<and> \<not> h_running h"
proof -
  obtain c1 where c1: "validate_source env g nm c1 = Inr c"
    using assms(1) by (rule validate_parts)
  moreover have "HasStaticSource c1"
    using assms(2) validate_source_same [OF c1] by (simp add: HasStaticSource_def)
  ultimately have "source_kind_of (Source c) \<noteq> None"
    using validate_source_kind [OF c1] validate_source_same [OF c1] by simp
  then show ?thesis
    by (auto simp: handler_initialize_def new_handler_def)
qed

definition camera_conf :: path_conf where
  "camera_conf = (setDefaults zero_conf)\<lparr>Source := ''rtsp://camera/$G1'', SourceOnDemand := True\<rparr>"

definition empty_global :: global_conf where
  "empty_global = \<lparr>conf_Paths = [], conf_Playback = False, AuthInternalUsers = []\<rparr>"

lemma camera_conf_validated:
  "validate sample_env empty_global ''~^cam/(.+)$'' False camera_conf =
     Inr (camera_conf\<lparr>Name := ''~^cam/(.+)$'', Regexp := Some ''^cam/(.+)$''\<rparr>, empty_global)"
  by code_simp

lemma validated_source_known_witness:
  "\<exists>h k. handler_initialize
      (new_handler (camera_conf\<lparr>Name := ''~^cam/(.+)$'', Regexp := Some ''^cam/(.+)$''\<rparr>) []) = Inr h \<and>
    h_instance h = Some k \<and> \<not> h_running h"
  by (rule validated_source_known [OF camera_conf_validated])
    (simp add: HasStaticSource_def camera_conf_def)

section \<open>The goroutine\<close>

text \<open>The instances that were started and not yet cancelled.\<close>

definition started :: "loop_effect list \<Rightarrow> nat" where
  "started eff = length (filter (\<lambda>e. case e of RunInstance _ _ \<Rightarrow> True | _ \<Rightarrow> False) eff)"

definition cancelled :: "loop_effect list \<Rightarrow> nat" where
  "cancelled eff = length (filter (\<lambda>e. e = RunCtxCancel) eff)"

lemma counts_append [simp]:
  "started (a @ b) = started a + started b" "cancelled (a @ b) = cancelled a + cancelled b"
  "started [] = 0" "cancelled [] = 0"
  "started (e # b) = (case e of RunInstance _ _ \<Rightarrow> 1 | _ \<Rightarrow> 0) + started b"
  "cancelled (e # b) = (if e = RunCtxCancel then 1 else 0) + cancelled b"
  by (auto simp: started_def cancelled_def split: loop_effect.split)

definition loop_inv :: "source_loop \<Rightarrow> loop_effect list \<Rightarrow> bool" where
  "loop_inv l eff =
     ((l_recreating l \<longleftrightarrow> l_recreateTimer l \<noteq> None) \<and>
      (l_instance_running l \<longleftrightarrow> \<not> l_recreating l \<and> \<not> l_ended l) \<and>
      started eff = cancelled eff + (if l_instance_running l then 1 else 0))"

lemma loop_turn_inv:
  assumes "loop_inv l eff" "loop_enabled l ev" "loop_turn l ev = (l', eff')"
  shows "loop_inv l' (eff @ eff')"
  using assms
  by (cases ev)
    (auto simp: loop_inv_def loop_enabled_def loop_recreate_def Let_def split: if_splits)

lemma loop_reach_inv:
  assumes "loop_reach h l eff"
  shows "loop_inv l eff"
  using assms
proof induction
  case (loop_init l eff)
  then show ?case
    by (auto simp: loop_start_def loop_recreate_def loop_inv_def Let_def)
next
  case (loop_step l eff ev l' eff')
  then show ?case
    by (blast intro: loop_turn_inv)
qed

text \<open>
  C23. The goroutine of a handler keeps at most one instance of the source running: in every run all
  instances that were started are cancelled, except the last one while it runs; when none runs, the next start is a
  timer that is armed, or the goroutine is over.
\<close>

theorem static_source_single_instance:
  assumes "loop_reach h l eff"
  shows "started eff = cancelled eff + (if l_instance_running l then 1 else 0) \<and>
    (l_instance_running l \<or> l_recreateTimer l \<noteq> None \<or> l_ended l) \<and>
    \<not> (l_ended l \<and> l_instance_running l)"
  using loop_reach_inv [OF assms] by (auto simp: loop_inv_def)

definition sample_handler :: static_handler where
  "sample_handler = new_handler camera_conf [''cam/1'', ''1'']"

text \<open>An instance that fails, is started again after the pause, and is stopped.\<close>

lemma static_source_single_instance_witness:
  "\<exists>l eff. loop_reach sample_handler l eff \<and> l_ended l \<and> started eff = 2 \<and> cancelled eff = 2"
proof -
  define l0 where "l0 = fst (loop_start sample_handler)"
  define l1 where "l1 = fst (loop_turn l0 (RunErr EOF))"
  define l2 where "l2 = fst (loop_turn l1 RecreateTimer)"
  define l3 where "l3 = fst (loop_turn l2 CtxDone)"
  define eff where "eff = snd (loop_start sample_handler) @ snd (loop_turn l0 (RunErr EOF)) @
    snd (loop_turn l1 RecreateTimer) @ snd (loop_turn l2 CtxDone)"
  have "loop_reach sample_handler l0 (snd (loop_start sample_handler))"
    by (rule loop_init) (simp add: l0_def)
  then have "loop_reach sample_handler l1 (snd (loop_start sample_handler) @ snd (loop_turn l0 (RunErr EOF)))"
    by (rule loop_step [where ev = "RunErr EOF"])
      (simp_all add: l1_def l0_def loop_start_def loop_recreate_def loop_enabled_def Let_def)
  then have "loop_reach sample_handler l2 ((snd (loop_start sample_handler) @ snd (loop_turn l0 (RunErr EOF))) @
      snd (loop_turn l1 RecreateTimer))"
    by (rule loop_step [where ev = RecreateTimer])
      (simp_all add: l2_def l1_def l0_def loop_start_def loop_recreate_def loop_enabled_def Let_def)
  then have reach: "loop_reach sample_handler l3 eff"
    unfolding eff_def append_assoc [symmetric]
    by (rule loop_step [where ev = CtxDone])
      (simp_all add: l3_def l2_def l1_def l0_def loop_start_def loop_recreate_def loop_enabled_def Let_def)
  moreover have "l_ended l3" "cancelled eff = 2"
    by (simp_all add: eff_def l3_def l2_def l1_def l0_def loop_start_def loop_recreate_def Let_def)
  ultimately show ?thesis
    using static_source_single_instance [OF reach] by (intro exI [of _ l3] exI [of _ eff]) simp
qed

section \<open>Substitution\<close>

lemma FormatInt_1: "FormatInt (Suc 0) = ''1''"
  by code_simp

lemma ReplaceAll_no_head:
  assumes "CHR ''$'' \<notin> set s"
  shows "ReplaceAll s (CHR ''$'' # old) new = s"
  using assms by (induction s) auto

lemma ReplaceAll_once:
  assumes "CHR ''$'' \<notin> set pre"
  shows "ReplaceAll (pre @ (CHR ''$'' # old) @ post) (CHR ''$'' # old) new =
    pre @ new @ ReplaceAll post (CHR ''$'' # old) new"
  using assms ReplaceAll_head [of "CHR ''$'' # old" post new] by (induction pre) (auto simp del: ReplaceAll.simps(2) simp: ReplaceAll.simps(2) [of "_ :: char" "_ @ _"])


lemma replace_groups_no_dollar:
  "CHR ''$'' \<notin> set s \<Longrightarrow> replace_groups i mas s = s"
  by (induction mas arbitrary: i) (auto simp: ReplaceAll_no_head)

text \<open>
  A group of the expression is put in its place: in a source that mentions the first group once, and
  nothing else that starts with a dollar sign, \<open>$G1\<close> becomes the value of the group, whatever the
  query and the other groups are.
\<close>

theorem resolve_source_group:
  assumes "CHR ''$'' \<notin> set pre" "CHR ''$'' \<notin> set post" "CHR ''$'' \<notin> set g1"
  shows "resolveSource (pre @ ''$G1'' @ post) (m0 # g1 # gs) query = pre @ g1 @ post"
proof -
  have "ReplaceAll (pre @ ''$G1'' @ post) ''$G1'' g1 = pre @ g1 @ post"
    using ReplaceAll_once [OF assms(1), of "''G1''" post g1] assms(2) by (simp add: ReplaceAll_no_head)
  then show ?thesis
    using assms by (simp add: resolveSource_def FormatInt_1 replace_groups_no_dollar ReplaceAll_no_head)
qed

lemma resolve_source_group_witness:
  "resolveSource ''rtsp://camera/$G1/main'' [''cam/7'', ''7''] ''a=b'' = ''rtsp://camera/7/main''"
  using resolve_source_group [of "''rtsp://camera/''" "''/main''" "''7''" "''cam/7''" "[]" "''a=b''"] by simp

text \<open>
  The tenth group cannot be used. Because the groups are substituted in ascending order, \<open>$G10\<close> is read
  as \<open>$G1\<close> followed by a zero, for every number of groups and every value of the tenth one.
\<close>

theorem resolve_source_tenth_group:
  assumes "CHR ''$'' \<notin> set pre" "CHR ''$'' \<notin> set g1"
  shows "resolveSource (pre @ ''$G10'') (m0 # g1 # gs) query = pre @ g1 @ ''0''"
  using resolve_source_group [OF assms(1) _ assms(2), of "''0''" m0 gs query] by simp

lemma resolve_source_tenth_group_witness:
  "resolveSource ''udp://h:$G10'' [''x'', ''1'', ''2'', ''3'', ''4'', ''5'', ''6'', ''7'', ''8'', ''9'', ''99''] [] =
     ''udp://h:10''"
  using resolve_source_tenth_group [of "''udp://h:''" "''1''" "''x''"] by simp

end
