(* ===== verification/PathState.thy ===== *)
theory PathState
  imports LiveStream StaticSource
begin

text \<open>
  The state of a path, \<open>internal/core/path.go\<close>, and the operations that its handlers share: the on-demand
  source and the on-demand publisher, readiness, recording, readers and the requests on hold.

  A path is a goroutine that owns its state and receives requests from channels. Readers, publishers and
  requests are numbers. What a handler does to others (replies, closed readers, hooks, calls of the parent) is
  appended to the list of effects \<open>pa_out\<close>, in order. A timer is armed (\<open>Some\<close> its duration) or not; \<open>emptyTimer\<close>
  and \<open>Stop\<close> both leave one that never fires. Outcomes of collaborators (the transcoder, \<open>stream.New\<close>) are
  arguments. The readers are a map in the source, whose keys are kept here in order of insertion.

  A nil function that is called, a failed type assertion and an explicit \<open>panic\<close> are the error \<open>Panic\<close>.
\<close>

section \<open>Data\<close>

datatype on_demand_state = OnDemandInitial | OnDemandWaitingReady | OnDemandReady | OnDemandClosing

datatype path_source = SourceRedirection | SourceStatic static_handler | SourcePublisher nat

text \<open>The URL of the RTSP request that a description came with, if it came with one.\<close>

record rtsp_url =
  ru_scheme :: string
  ru_user :: "string option"
  ru_host :: string

datatype redirect =
    RedirectTo string
  | RedirectOnHost rtsp_url string

record describe_req =
  dr_id :: nat
  dr_query :: string
  dr_rtsp :: "rtsp_url option"

record reader_req =
  rr_id :: nat
  rr_author :: nat
  rr_query :: string

datatype api_source = ApiRedirect | ApiStatic "source_kind option" | ApiPublisher nat

record api_path =
  ap_name :: string
  ap_confName :: string
  ap_source :: "api_source option"
  ap_ready :: bool
  ap_readers :: "nat list"

datatype path_reply =
    ReplyStream "nat option"
  | ReplyRedirect redirect
  | ReplyErr go_error
  | ReplyPath
  | ReplyReader "nat option"
  | ReplyClosed
  | ReplyAPI api_path

datatype path_effect =
    Reply nat path_reply
  | CloseReader nat
  | ClosePublisher nat
  | StreamClosed nat
  | RecorderInitialize "nat option"
  | RecorderClose
  | HookInit
  | HookUnInit
  | HookReady
  | HookNotReady
  | HookDemand string
  | HookUnDemand string
  | SourceStarted bool string
  | SourceStopped string
  | SourceReload path_conf
  | ParentReady
  | ParentNotReady
  | ParentClose
  | ApiCall api_request

record path =
  pa_conf :: path_conf
  pa_name :: string
  pa_matches :: "string list"
  pa_process :: process_env
  pa_live :: live_streams
  pa_source :: "path_source option"
  pa_publisherQuery :: string
  pa_stream :: "nat option"
  pa_recorder :: bool
  pa_onUnDemandHook :: bool
  pa_onNotReadyHook :: bool
  pa_readers :: "nat list"
  pa_describeOnHold :: "describe_req list"
  pa_readerAddOnHold :: "reader_req list"
  pa_staticState :: on_demand_state
  pa_staticReadyTimer :: "duration option"
  pa_staticCloseTimer :: "duration option"
  pa_publisherState :: on_demand_state
  pa_publisherReadyTimer :: "duration option"
  pa_publisherCloseTimer :: "duration option"
  pa_streams :: nat
  pa_out :: "path_effect list"

definition emit :: "path_effect list \<Rightarrow> path \<Rightarrow> path" where
  "emit effs pa = pa\<lparr>pa_out := pa_out pa @ effs\<rparr>"

section \<open>Errors\<close>

definition terminated :: go_error where
  "terminated = Errorf ''terminated'' []"

definition not_in_use :: go_error where
  "not_in_use = Errorf ''not in use'' []"

definition source_timed_out :: "string \<Rightarrow> go_error" where
  "source_timed_out nm = Errorf (''source of path '' @ quoted nm @ '' has timed out'') []"

definition no_one_publishing :: "string \<Rightarrow> go_error" where
  "no_one_publishing nm = Errorf (''no one is publishing to path '' @ quoted nm) []"

definition cant_publish :: "string \<Rightarrow> go_error" where
  "cant_publish nm =
     Errorf (''can't publish to path '' @ quoted nm @ '' since '' @ quoted ''source'' @ '' is not '' @
             quoted ''publisher'') []"

definition already_publishing :: "string \<Rightarrow> go_error" where
  "already_publishing nm = Errorf (''someone is already publishing to path '' @ quoted nm) []"

definition not_assigned :: go_error where
  "not_assigned = Errorf ''publisher is not assigned to this path anymore'' []"

definition max_readers_reached :: go_error where
  "max_readers_reached = Errorf ''maximum reader count reached'' []"

section \<open>The on-demand static source\<close>

text \<open>The assertion that the source is a static one, and a call of its handler.\<close>

definition with_handler :: "(static_handler \<Rightarrow> static_handler result) \<Rightarrow> path \<Rightarrow> path result" where
  "with_handler f pa =
     (case pa_source pa of
        Some (SourceStatic h) \<Rightarrow> bindE (f h) (\<lambda>h'. Inr (pa\<lparr>pa_source := Some (SourceStatic h')\<rparr>))
      | _ \<Rightarrow> Inl Panic)"

definition onDemandStaticSourceStart :: "string \<Rightarrow> path \<Rightarrow> path result" where
  "onDemandStaticSourceStart query pa =
     bindE (with_handler (handler_start query) pa) (\<lambda>pa1.
     Inr (emit [SourceStarted True query] (pa1
       \<lparr>pa_staticReadyTimer := Some (SourceOnDemandStartTimeout (pa_conf pa1)),
        pa_staticState := OnDemandWaitingReady\<rparr>)))"

definition onDemandStaticSourceScheduleClose :: "path \<Rightarrow> path" where
  "onDemandStaticSourceScheduleClose pa = pa
     \<lparr>pa_staticCloseTimer := Some (SourceOnDemandCloseAfter (pa_conf pa)), pa_staticState := OnDemandClosing\<rparr>"

definition onDemandStaticSourceStop :: "string \<Rightarrow> path \<Rightarrow> path result" where
  "onDemandStaticSourceStop reason pa =
     (let pa1 = (if pa_staticState pa = OnDemandClosing then pa\<lparr>pa_staticCloseTimer := None\<rparr> else pa);
          pa2 = pa1\<lparr>pa_staticState := OnDemandInitial\<rparr>
      in bindE (with_handler handler_stop pa2) (\<lambda>pa3. Inr (emit [SourceStopped reason] pa3)))"

section \<open>The on-demand publisher\<close>

definition onDemandPublisherStart :: "string \<Rightarrow> path \<Rightarrow> path" where
  "onDemandPublisherStart query pa =
     emit [HookDemand query] (pa
       \<lparr>pa_onUnDemandHook := True,
        pa_publisherReadyTimer := Some (RunOnDemandStartTimeout (pa_conf pa)),
        pa_publisherState := OnDemandWaitingReady\<rparr>)"

definition onDemandPublisherScheduleClose :: "path \<Rightarrow> path" where
  "onDemandPublisherScheduleClose pa = pa
     \<lparr>pa_publisherCloseTimer := Some (RunOnDemandCloseAfter (pa_conf pa)), pa_publisherState := OnDemandClosing\<rparr>"

definition onDemandPublisherStop :: "string \<Rightarrow> path \<Rightarrow> path result" where
  "onDemandPublisherStop reason pa =
     (let pa1 = (if pa_publisherState pa = OnDemandClosing then pa\<lparr>pa_publisherCloseTimer := None\<rparr> else pa)
      in if \<not> pa_onUnDemandHook pa1 then Inl Panic
         else Inr (emit [HookUnDemand reason] (pa1
           \<lparr>pa_onUnDemandHook := False, pa_publisherState := OnDemandInitial\<rparr>)))"

section \<open>Readiness\<close>

definition startRecording :: "path \<Rightarrow> path" where
  "startRecording pa = emit [RecorderInitialize (pa_stream pa)] (pa\<lparr>pa_recorder := True\<rparr>)"

definition closeRecorder :: "path \<Rightarrow> path" where
  "closeRecorder pa = (if pa_recorder pa then emit [RecorderClose] (pa\<lparr>pa_recorder := False\<rparr>) else pa)"

text \<open>
  \<open>setReady\<close> returns an error of its collaborators beside the state. \<open>stream.New\<close> returns a nil stream with
  its error, and the field is assigned in either case.
\<close>

definition setReady :: "api_server \<Rightarrow> go_error option \<Rightarrow> path \<Rightarrow> (go_error option \<times> path) result" where
  "setReady srv new_err pa =
     bindE (NewLiveStream (pa_name pa) (pa_live pa)) (\<lambda>(ls, live).
     let (sent, res) = StartPublishToTranscoder (pa_process pa) srv ls;
         pa1 = emit (map ApiCall sent) (pa\<lparr>pa_live := live\<rparr>)
     in case res of
          Inl e \<Rightarrow> Inr (Some e, pa1)
        | Inr _ \<Rightarrow>
            (case new_err of
               Some e \<Rightarrow> Inr (Some e, pa1\<lparr>pa_stream := None\<rparr>)
             | None \<Rightarrow>
                 let pa2 = pa1\<lparr>pa_stream := Some (pa_streams pa1), pa_streams := Suc (pa_streams pa1)\<rparr>;
                     pa3 = (if Record (pa_conf pa2) then startRecording pa2 else pa2)
                 in if pa_source pa3 = None then Inl Panic
                    else Inr (None, emit [HookReady, ParentReady] (pa3\<lparr>pa_onNotReadyHook := True\<rparr>))))"

definition setNotReady :: "path \<Rightarrow> path result" where
  "setNotReady pa =
     (let pa1 = emit (ParentNotReady # map CloseReader (pa_readers pa)) (pa\<lparr>pa_readers := []\<rparr>)
      in if \<not> pa_onNotReadyHook pa1 then Inl Panic
         else
           let pa2 = closeRecorder (emit [HookNotReady] pa1)
           in case pa_stream pa2 of
                None \<Rightarrow> Inr pa2
              | Some s \<Rightarrow> Inr (emit [StreamClosed s] (pa2\<lparr>pa_stream := None\<rparr>)))"

section \<open>Readers and publishers\<close>

definition executeRemoveReader :: "nat \<Rightarrow> path \<Rightarrow> path" where
  "executeRemoveReader r pa = pa\<lparr>pa_readers := remove1 r (pa_readers pa)\<rparr>"

definition executeRemovePublisher :: "path \<Rightarrow> path result" where
  "executeRemovePublisher pa =
     bindE (if pa_stream pa \<noteq> None then setNotReady pa else Inr pa) (\<lambda>pa1.
     Inr (pa1\<lparr>pa_source := None\<rparr>))"

text \<open>A path that was about to close its on-demand source or publisher is needed again.\<close>

definition keep_on_demand :: "path \<Rightarrow> path" where
  "keep_on_demand pa =
     (if HasOnDemandStaticSource (pa_conf pa) then
        (if pa_staticState pa = OnDemandClosing
         then pa\<lparr>pa_staticState := OnDemandReady, pa_staticCloseTimer := None\<rparr> else pa)
      else if HasOnDemandPublisher (pa_conf pa) then
        (if pa_publisherState pa = OnDemandClosing
         then pa\<lparr>pa_publisherState := OnDemandReady, pa_publisherCloseTimer := None\<rparr> else pa)
      else pa)"

definition addReaderPost :: "reader_req \<Rightarrow> path \<Rightarrow> path" where
  "addReaderPost req pa =
     (if rr_author req \<in> set (pa_readers pa) then
        emit [Reply (rr_id req) (ReplyReader (pa_stream pa))] pa
      else if MaxReaders (pa_conf pa) \<noteq> 0 \<and> MaxReaders (pa_conf pa) \<le> int (length (pa_readers pa)) then
        emit [Reply (rr_id req) (ReplyErr max_readers_reached)] pa
      else
        let pa1 = keep_on_demand (pa\<lparr>pa_readers := pa_readers pa @ [rr_author req]\<rparr>)
        in emit [Reply (rr_id req) (ReplyReader (pa_stream pa1))] pa1)"

definition consumeOnHoldRequests :: "path \<Rightarrow> path" where
  "consumeOnHoldRequests pa =
     (let pa1 = (emit (map (\<lambda>req. Reply (dr_id req) (ReplyStream (pa_stream pa))) (pa_describeOnHold pa)) pa)
                  \<lparr>pa_describeOnHold := []\<rparr>;
          pa2 = fold addReaderPost (pa_readerAddOnHold pa1) pa1
      in pa2\<lparr>pa_readerAddOnHold := []\<rparr>)"

text \<open>Every request on hold is refused with an error.\<close>

definition refusals :: "go_error \<Rightarrow> path \<Rightarrow> path_effect list" where
  "refusals e pa =
     map (\<lambda>req. Reply (dr_id req) (ReplyErr e)) (pa_describeOnHold pa) @
     map (\<lambda>req. Reply (rr_id req) (ReplyErr e)) (pa_readerAddOnHold pa)"

definition refuse_on_hold :: "go_error \<Rightarrow> path \<Rightarrow> path" where
  "refuse_on_hold e pa = emit (refusals e pa) (pa\<lparr>pa_describeOnHold := [], pa_readerAddOnHold := []\<rparr>)"

definition shouldClose :: "path \<Rightarrow> bool" where
  "shouldClose pa =
     (Regexp (pa_conf pa) \<noteq> None \<and> pa_source pa = None \<and> pa_readers pa = [] \<and>
      pa_describeOnHold pa = [] \<and> pa_readerAddOnHold pa = [])"

section \<open>Lemmas\<close>

lemma emit_simps [simp]:
  "pa_conf (emit effs pa) = pa_conf pa" "pa_name (emit effs pa) = pa_name pa"
  "pa_process (emit effs pa) = pa_process pa" "pa_live (emit effs pa) = pa_live pa"
  "pa_source (emit effs pa) = pa_source pa" "pa_stream (emit effs pa) = pa_stream pa"
  "pa_recorder (emit effs pa) = pa_recorder pa" "pa_onUnDemandHook (emit effs pa) = pa_onUnDemandHook pa"
  "pa_onNotReadyHook (emit effs pa) = pa_onNotReadyHook pa" "pa_readers (emit effs pa) = pa_readers pa"
  "pa_describeOnHold (emit effs pa) = pa_describeOnHold pa"
  "pa_readerAddOnHold (emit effs pa) = pa_readerAddOnHold pa"
  "pa_staticState (emit effs pa) = pa_staticState pa" "pa_publisherState (emit effs pa) = pa_publisherState pa"
  "pa_staticReadyTimer (emit effs pa) = pa_staticReadyTimer pa"
  "pa_staticCloseTimer (emit effs pa) = pa_staticCloseTimer pa"
  "pa_publisherReadyTimer (emit effs pa) = pa_publisherReadyTimer pa"
  "pa_publisherCloseTimer (emit effs pa) = pa_publisherCloseTimer pa"
  "pa_streams (emit effs pa) = pa_streams pa" "pa_out (emit effs pa) = pa_out pa @ effs"
  "pa_matches (emit effs pa) = pa_matches pa"
  by (simp_all add: emit_def)

text \<open>The three ways in which \<open>setReady\<close> returns.\<close>

definition becomes_ready :: "live_streams \<Rightarrow> api_request list \<Rightarrow> path \<Rightarrow> path" where
  "becomes_ready live sent pa =
     (let pa2 = (emit (map ApiCall sent) (pa\<lparr>pa_live := live\<rparr>))
            \<lparr>pa_stream := Some (pa_streams pa), pa_streams := Suc (pa_streams pa)\<rparr>
      in emit [HookReady, ParentReady]
           ((if Record (pa_conf pa) then startRecording pa2 else pa2)\<lparr>pa_onNotReadyHook := True\<rparr>))"

lemma startRecording_source [simp]: "pa_source (startRecording pa) = pa_source pa"
  by (simp add: startRecording_def)

lemma setReady_cases:
  assumes "setReady srv err pa = Inr (e, pa')"
  obtains (transcoder) live sent x where "e = Some x"
      "pa' = emit (map ApiCall sent) (pa\<lparr>pa_live := live\<rparr>)"
    | (stream_error) live sent x where "e = Some x"
      "pa' = (emit (map ApiCall sent) (pa\<lparr>pa_live := live\<rparr>))\<lparr>pa_stream := None\<rparr>"
    | (ready) live sent where "e = None" "pa_source pa \<noteq> None" "live (pa_name pa) \<noteq> None"
      "pa' = becomes_ready live sent pa"
proof -
  note cases = that
  obtain ls live where live: "NewLiveStream (pa_name pa) (pa_live pa) = Inr (ls, live)"
    using assms by (auto simp: setReady_def bindE_eq_Inr)
  obtain sent res where res: "StartPublishToTranscoder (pa_process pa) srv ls = (sent, res)"
    by fastforce
  have added: "live (pa_name pa) \<noteq> None"
    using live by (auto simp: NewLiveStream_def AddLiveStreamInstance_def Let_def split: list.splits)
  show thesis
  proof (cases res)
    case (Inl x)
    then show thesis using assms live res cases(1) [of x sent live] by (simp add: setReady_def)
  next
    case ok: (Inr u)
    show thesis
    proof (cases err)
      case (Some x)
      then show thesis using assms live res ok cases(2) [of x sent live] by (simp add: setReady_def)
    next
      case None
      then show thesis
        using assms live res ok added cases(3) [of live sent]
        by (auto simp: setReady_def becomes_ready_def Let_def split: if_splits)
    qed
  qed
qed

end
