(* ===== verification/PathHandlers.thy ===== *)
theory PathHandlers
  imports PathState
begin

text \<open>
  The handlers of a path, one for each channel and timer of \<open>internal/core/path.go\<close>, the loop of \<open>runInner\<close> that
  calls them, and the beginning and the end of \<open>run\<close>.
\<close>

section \<open>Timers\<close>

definition doOnDemandStaticSourceReadyTimer :: "path \<Rightarrow> path result" where
  "doOnDemandStaticSourceReadyTimer pa =
     onDemandStaticSourceStop ''timed out'' (refuse_on_hold (source_timed_out (pa_name pa)) pa)"

definition doOnDemandStaticSourceCloseTimer :: "path \<Rightarrow> path result" where
  "doOnDemandStaticSourceCloseTimer pa =
     bindE (setNotReady pa) (onDemandStaticSourceStop ''not needed by anyone'')"

definition doOnDemandPublisherReadyTimer :: "path \<Rightarrow> path result" where
  "doOnDemandPublisherReadyTimer pa =
     onDemandPublisherStop ''timed out'' (refuse_on_hold (source_timed_out (pa_name pa)) pa)"

definition doOnDemandPublisherCloseTimer :: "path \<Rightarrow> path result" where
  "doOnDemandPublisherCloseTimer pa = onDemandPublisherStop ''not needed by anyone'' pa"

section \<open>Configuration\<close>

text \<open>
  The handler of a running static source gets the configuration from a goroutine of its own; here it has
  it at once. That of a source that is not running keeps the old one.
\<close>

definition reload_source :: "path_conf \<Rightarrow> path \<Rightarrow> path result" where
  "reload_source newConf pa =
     (case pa_source pa of
        Some (SourceStatic h) \<Rightarrow>
          (case handler_reloadConf newConf h of
             None \<Rightarrow> Inr pa
           | Some c \<Rightarrow> Inr (emit [SourceReload c] (pa\<lparr>pa_source := Some (SourceStatic (h\<lparr>h_conf := c\<rparr>))\<rparr>)))
      | _ \<Rightarrow> Inl Panic)"

definition doReloadConf :: "path_conf \<Rightarrow> path \<Rightarrow> path result" where
  "doReloadConf newConf pa0 =
     (let pa = pa0\<lparr>pa_conf := newConf\<rparr> in
      bindE (if HasStaticSource (pa_conf pa) then reload_source newConf pa else Inr pa) (\<lambda>pa1.
      Inr (if Record (pa_conf pa1) then
             (if pa_stream pa1 \<noteq> None \<and> \<not> pa_recorder pa1 then startRecording pa1 else pa1)
           else closeRecorder pa1)))"

section \<open>Static sources\<close>

definition doSourceStaticSetReady :: "nat \<Rightarrow> api_server \<Rightarrow> go_error option \<Rightarrow> path \<Rightarrow> path result" where
  "doSourceStaticSetReady rid srv new_err pa =
     bindE (setReady srv new_err pa) (\<lambda>(err, pa1).
     case err of
       Some e \<Rightarrow> Inr (emit [Reply rid (ReplyErr e)] pa1)
     | None \<Rightarrow>
         let pa2 = (if HasOnDemandStaticSource (pa_conf pa1)
                    then onDemandStaticSourceScheduleClose (pa1\<lparr>pa_staticReadyTimer := None\<rparr>) else pa1);
             pa3 = consumeOnHoldRequests pa2
         in Inr (emit [Reply rid (ReplyStream (pa_stream pa3))] pa3))"

definition doSourceStaticSetNotReady :: "nat \<Rightarrow> path \<Rightarrow> path result" where
  "doSourceStaticSetNotReady rid pa =
     bindE (setNotReady pa) (\<lambda>pa1.
     let pa2 = emit [Reply rid ReplyClosed] pa1
     in if HasOnDemandStaticSource (pa_conf pa2) \<and> pa_staticState pa2 \<noteq> OnDemandInitial
        then onDemandStaticSourceStop ''an error occurred'' pa2
        else Inr pa2)"

section \<open>Descriptions\<close>

text \<open>A fallback that begins with a slash is a path on the host of the request; a nil request is a panic.\<close>

definition fallback_reply :: "describe_req \<Rightarrow> string \<Rightarrow> path_reply result" where
  "fallback_reply req fallback =
     (if HasPrefix fallback ''/'' then
        (case dr_rtsp req of
           None \<Rightarrow> Inl Panic
         | Some u \<Rightarrow> Inr (ReplyRedirect (RedirectOnHost u fallback)))
      else Inr (ReplyRedirect (RedirectTo fallback)))"

definition doDescribe :: "describe_req \<Rightarrow> path \<Rightarrow> path result" where
  "doDescribe req pa =
     (if pa_source pa = Some SourceRedirection then
        Inr (emit [Reply (dr_id req) (ReplyRedirect (RedirectTo (SourceRedirect (pa_conf pa))))] pa)
      else if pa_stream pa \<noteq> None then
        Inr (emit [Reply (dr_id req) (ReplyStream (pa_stream pa))] pa)
      else if HasOnDemandStaticSource (pa_conf pa) then
        bindE (if pa_staticState pa = OnDemandInitial then onDemandStaticSourceStart (dr_query req) pa
               else Inr pa) (\<lambda>pa1.
        Inr (pa1\<lparr>pa_describeOnHold := pa_describeOnHold pa1 @ [req]\<rparr>))
      else if HasOnDemandPublisher (pa_conf pa) then
        let pa1 = (if pa_publisherState pa = OnDemandInitial then onDemandPublisherStart (dr_query req) pa
                   else pa)
        in Inr (pa1\<lparr>pa_describeOnHold := pa_describeOnHold pa1 @ [req]\<rparr>)
      else if Fallback (pa_conf pa) \<noteq> [] then
        bindE (fallback_reply req (Fallback (pa_conf pa))) (\<lambda>r. Inr (emit [Reply (dr_id req) r] pa))
      else Inr (emit [Reply (dr_id req) (ReplyErr (no_one_publishing (pa_name pa)))] pa))"

section \<open>Publishers\<close>

text \<open>The transcoder is asked to stop whoever the author of the request is; its error is only logged.\<close>

definition doRemovePublisher :: "nat \<Rightarrow> nat \<Rightarrow> api_server \<Rightarrow> path \<Rightarrow> path result" where
  "doRemovePublisher rid author srv pa =
     bindE (if pa_source pa = Some (SourcePublisher author) then executeRemovePublisher pa else Inr pa) (\<lambda>pa1.
     let (sent, res) = StopPublishToTranscoder (pa_process pa1) srv
                         (GetLiveStreamInstance (pa_name pa1) (pa_live pa1))
     in if res = Inl Panic then Inl Panic
        else Inr (emit (map ApiCall sent @ [Reply rid ReplyClosed]) pa1))"

definition doAddPublisher :: "nat \<Rightarrow> nat \<Rightarrow> string \<Rightarrow> path \<Rightarrow> path result" where
  "doAddPublisher rid author query pa =
     (let take = (\<lambda>pa1. Inr (emit [Reply rid ReplyPath]
                    (pa1\<lparr>pa_source := Some (SourcePublisher author), pa_publisherQuery := query\<rparr>)))
      in if Source (pa_conf pa) \<noteq> ''publisher'' then
           Inr (emit [Reply rid (ReplyErr (cant_publish (pa_name pa)))] pa)
         else
           case pa_source pa of
             None \<Rightarrow> take pa
           | Some src \<Rightarrow>
               if \<not> OverridePublisher (pa_conf pa) then
                 Inr (emit [Reply rid (ReplyErr (already_publishing (pa_name pa)))] pa)
               else
                 (case src of
                    SourcePublisher old \<Rightarrow> bindE (executeRemovePublisher (emit [ClosePublisher old] pa)) take
                  | _ \<Rightarrow> Inl Panic))"

definition doStartPublisher :: "nat \<Rightarrow> nat \<Rightarrow> api_server \<Rightarrow> go_error option \<Rightarrow> path \<Rightarrow> path result" where
  "doStartPublisher rid author srv new_err pa =
     (if pa_source pa \<noteq> Some (SourcePublisher author) then Inr (emit [Reply rid (ReplyErr not_assigned)] pa)
      else
        bindE (setReady srv new_err pa) (\<lambda>(err, pa1).
        case err of
          Some e \<Rightarrow> Inr (emit [Reply rid (ReplyErr e)] pa1)
        | None \<Rightarrow>
            let pa2 = (if HasOnDemandPublisher (pa_conf pa1) \<and> pa_publisherState pa1 \<noteq> OnDemandInitial
                       then onDemandPublisherScheduleClose (pa1\<lparr>pa_publisherReadyTimer := None\<rparr>) else pa1);
                pa3 = consumeOnHoldRequests pa2
            in Inr (emit [Reply rid (ReplyStream (pa_stream pa3))] pa3)))"

definition doStopPublisher :: "nat \<Rightarrow> nat \<Rightarrow> path \<Rightarrow> path result" where
  "doStopPublisher rid author pa =
     bindE (if pa_source pa = Some (SourcePublisher author) \<and> pa_stream pa \<noteq> None then setNotReady pa
            else Inr pa) (\<lambda>pa1.
     Inr (emit [Reply rid ReplyClosed] pa1))"

section \<open>Readers\<close>

definition doAddReader :: "reader_req \<Rightarrow> path \<Rightarrow> path result" where
  "doAddReader req pa =
     (if pa_stream pa \<noteq> None then Inr (addReaderPost req pa)
      else if HasOnDemandStaticSource (pa_conf pa) then
        bindE (if pa_staticState pa = OnDemandInitial then onDemandStaticSourceStart (rr_query req) pa
               else Inr pa) (\<lambda>pa1.
        Inr (pa1\<lparr>pa_readerAddOnHold := pa_readerAddOnHold pa1 @ [req]\<rparr>))
      else if HasOnDemandPublisher (pa_conf pa) then
        let pa1 = (if pa_publisherState pa = OnDemandInitial then onDemandPublisherStart (rr_query req) pa
                   else pa)
        in Inr (pa1\<lparr>pa_readerAddOnHold := pa_readerAddOnHold pa1 @ [req]\<rparr>)
      else Inr (emit [Reply (rr_id req) (ReplyErr (no_one_publishing (pa_name pa)))] pa))"

definition doRemoveReader :: "nat \<Rightarrow> nat \<Rightarrow> path \<Rightarrow> path" where
  "doRemoveReader rid author pa =
     (let pa1 = (if author \<in> set (pa_readers pa) then executeRemoveReader author pa else pa);
          pa2 = emit [Reply rid ReplyClosed] pa1
      in if pa_readers pa2 = [] then
           (if HasOnDemandStaticSource (pa_conf pa2) then
              (if pa_staticState pa2 = OnDemandReady then onDemandStaticSourceScheduleClose pa2 else pa2)
            else if HasOnDemandPublisher (pa_conf pa2) then
              (if pa_publisherState pa2 = OnDemandReady then onDemandPublisherScheduleClose pa2 else pa2)
            else pa2)
         else pa2)"

section \<open>The API\<close>

definition APISourceDescribe :: "path_source \<Rightarrow> api_source" where
  "APISourceDescribe src =
     (case src of
        SourceRedirection \<Rightarrow> ApiRedirect
      | SourceStatic h \<Rightarrow> ApiStatic (h_instance h)
      | SourcePublisher a \<Rightarrow> ApiPublisher a)"

definition doAPIPathsGet :: "nat \<Rightarrow> path \<Rightarrow> path" where
  "doAPIPathsGet rid pa =
     emit [Reply rid (ReplyAPI
       \<lparr>ap_name = pa_name pa, ap_confName = Name (pa_conf pa),
        ap_source = map_option APISourceDescribe (pa_source pa),
        ap_ready = (pa_stream pa \<noteq> None), ap_readers = pa_readers pa\<rparr>)] pa"

section \<open>The loop\<close>

datatype path_event =
    StaticReadyTimer
  | StaticCloseTimer
  | PublisherReadyTimer
  | PublisherCloseTimer
  | ReloadConf path_conf
  | StaticSetReady nat api_server "go_error option"
  | StaticSetNotReady nat
  | Describe describe_req
  | AddPublisher nat nat string
  | RemovePublisher nat nat api_server
  | StartPublisher nat nat api_server "go_error option"
  | StopPublisher nat nat
  | AddReader reader_req
  | RemoveReader nat nat
  | APIPathsGet nat
  | ContextDone

text \<open>
  The handler of an event. Receiving from the channel of a timer leaves a timer that has fired.
\<close>

fun handle :: "path_event \<Rightarrow> path \<Rightarrow> path result" where
  "handle StaticReadyTimer pa = doOnDemandStaticSourceReadyTimer (pa\<lparr>pa_staticReadyTimer := None\<rparr>)"
| "handle StaticCloseTimer pa = doOnDemandStaticSourceCloseTimer (pa\<lparr>pa_staticCloseTimer := None\<rparr>)"
| "handle PublisherReadyTimer pa = doOnDemandPublisherReadyTimer (pa\<lparr>pa_publisherReadyTimer := None\<rparr>)"
| "handle PublisherCloseTimer pa = doOnDemandPublisherCloseTimer (pa\<lparr>pa_publisherCloseTimer := None\<rparr>)"
| "handle (ReloadConf c) pa = doReloadConf c pa"
| "handle (StaticSetReady rid srv err) pa = doSourceStaticSetReady rid srv err pa"
| "handle (StaticSetNotReady rid) pa = doSourceStaticSetNotReady rid pa"
| "handle (Describe req) pa = doDescribe req pa"
| "handle (AddPublisher rid author query) pa = doAddPublisher rid author query pa"
| "handle (RemovePublisher rid author srv) pa = doRemovePublisher rid author srv pa"
| "handle (StartPublisher rid author srv err) pa = doStartPublisher rid author srv err pa"
| "handle (StopPublisher rid author) pa = doStopPublisher rid author pa"
| "handle (AddReader req) pa = doAddReader req pa"
| "handle (RemoveReader rid author) pa = Inr (doRemoveReader rid author pa)"
| "handle (APIPathsGet rid) pa = Inr (doAPIPathsGet rid pa)"
| "handle ContextDone pa = Inr pa"

text \<open>After which events the loop asks whether the path is still in use.\<close>

fun checks_use :: "path_event \<Rightarrow> bool" where
  "checks_use PublisherCloseTimer = False"
| "checks_use (ReloadConf _) = False"
| "checks_use (StaticSetReady _ _ _) = False"
| "checks_use (AddPublisher _ _ _) = False"
| "checks_use (StartPublisher _ _ _ _) = False"
| "checks_use (RemoveReader _ _) = False"
| "checks_use (APIPathsGet _) = False"
| "checks_use ContextDone = False"
| "checks_use _ = True"

text \<open>A turn of the loop: the state, and the error with which the loop is left, if it is.\<close>

fun leaves :: "path_event \<Rightarrow> path \<Rightarrow> go_error option" where
  "leaves ContextDone pa = Some terminated"
| "leaves ev pa = (if checks_use ev \<and> shouldClose pa then Some not_in_use else None)"

definition path_turn :: "path_event \<Rightarrow> path \<Rightarrow> (path \<times> go_error option) result" where
  "path_turn ev pa = bindE (handle ev pa) (\<lambda>pa1. Inr (pa1, leaves ev pa1))"

section \<open>The goroutine\<close>

definition path_initialize ::
    "path_conf \<Rightarrow> string \<Rightarrow> string list \<Rightarrow> process_env \<Rightarrow> live_streams \<Rightarrow> path" where
  "path_initialize c nm matches pe live =
     \<lparr>pa_conf = c, pa_name = nm, pa_matches = matches, pa_process = pe, pa_live = live, pa_source = None,
      pa_publisherQuery = [], pa_stream = None, pa_recorder = False, pa_onUnDemandHook = False,
      pa_onNotReadyHook = False, pa_readers = [], pa_describeOnHold = [], pa_readerAddOnHold = [],
      pa_staticState = OnDemandInitial, pa_staticReadyTimer = None, pa_staticCloseTimer = None,
      pa_publisherState = OnDemandInitial, pa_publisherReadyTimer = None, pa_publisherCloseTimer = None,
      pa_streams = 0, pa_out = []\<rparr>"

text \<open>What \<open>run\<close> does before the loop: the source, and the hook of the initialisation.\<close>

definition run_begin :: "path \<Rightarrow> path result" where
  "run_begin pa =
     bindE
       (if Source (pa_conf pa) = ''redirect'' then Inr (pa\<lparr>pa_source := Some SourceRedirection\<rparr>)
        else if HasStaticSource (pa_conf pa) then
          bindE (handler_initialize (new_handler (pa_conf pa) (pa_matches pa))) (\<lambda>h.
          let pa1 = pa\<lparr>pa_source := Some (SourceStatic h)\<rparr>
          in if \<not> SourceOnDemand (pa_conf pa1)
             then bindE (with_handler (handler_start []) pa1) (\<lambda>pa2. Inr (emit [SourceStarted False []] pa2))
             else Inr pa1)
        else Inr pa)
       (\<lambda>pa1. Inr (emit [HookInit] pa1))"

text \<open>What \<open>run\<close> does after it.\<close>

definition close_source :: "path \<Rightarrow> path result" where
  "close_source pa =
     (case pa_source pa of
        Some (SourceStatic h) \<Rightarrow>
          if \<not> SourceOnDemand (pa_conf pa) \<or> pa_staticState pa \<noteq> OnDemandInitial
          then bindE (with_handler handler_stop pa) (\<lambda>pa1. Inr (emit [SourceStopped ''path is closing''] pa1))
          else Inr pa
      | Some (SourcePublisher a) \<Rightarrow> Inr (emit [ClosePublisher a] pa)
      | _ \<Rightarrow> Inr pa)"

definition run_end :: "path \<Rightarrow> path result" where
  "run_end pa =
     (let pa1 = emit [ParentClose] pa;
          pa2 = pa1\<lparr>pa_staticReadyTimer := None, pa_staticCloseTimer := None,
                    pa_publisherReadyTimer := None, pa_publisherCloseTimer := None\<rparr>;
          pa3 = emit (HookUnInit # refusals terminated pa2) pa2
      in bindE (if pa_stream pa3 \<noteq> None then setNotReady pa3 else Inr pa3) (\<lambda>pa4.
         bindE (close_source pa4) (\<lambda>pa5.
         Inr (if pa_onUnDemandHook pa5 then emit [HookUnDemand ''path destroyed''] pa5 else pa5))))"

text \<open>The life of a path: the loop runs until a turn leaves it; what is sent to it later is not received.\<close>

datatype path_life = Running path | Destroyed path go_error

fun run_events :: "path_event list \<Rightarrow> path \<Rightarrow> path_life result" where
  "run_events [] pa = Inr (Running pa)"
| "run_events (ev # evs) pa =
     bindE (path_turn ev pa) (\<lambda>(pa1, exit).
     case exit of
       None \<Rightarrow> run_events evs pa1
     | Some e \<Rightarrow> bindE (run_end pa1) (\<lambda>pa2. Inr (Destroyed pa2 e)))"

definition run :: "path_event list \<Rightarrow> path \<Rightarrow> path_life result" where
  "run evs pa = bindE (run_begin pa) (run_events evs)"

end
