(* ===== verification/PathAccount.thy ===== *)
theory PathAccount
  imports PathHandlers "HOL-Library.Multiset"
begin

text \<open>
  The accounts of a path: every request that the path receives is answered exactly once, or is on hold.
  The account of a state counts, as a multiset, the requests on hold and the replies among its effects; each
  operation adds to it the request that it serves and nothing else. No assumption on the environment is
  made; an operation that panics has no result.
\<close>

definition held :: "path \<Rightarrow> nat multiset" where
  "held pa = mset (map dr_id (pa_describeOnHold pa)) + mset (map rr_id (pa_readerAddOnHold pa))"

definition reply_ids :: "path_effect list \<Rightarrow> nat list" where
  "reply_ids effs = concat (map (\<lambda>e. case e of Reply rid _ \<Rightarrow> [rid] | _ \<Rightarrow> []) effs)"

definition replied :: "path_effect list \<Rightarrow> nat multiset" where
  "replied effs = mset (reply_ids effs)"

definition account :: "path \<Rightarrow> nat multiset" where
  "account pa = held pa + replied (pa_out pa)"

fun request_of :: "path_event \<Rightarrow> nat multiset" where
  "request_of (StaticSetReady rid _ _) = {#rid#}"
| "request_of (StaticSetNotReady rid) = {#rid#}"
| "request_of (Describe req) = {#dr_id req#}"
| "request_of (AddPublisher rid _ _) = {#rid#}"
| "request_of (RemovePublisher rid _ _) = {#rid#}"
| "request_of (StartPublisher rid _ _ _) = {#rid#}"
| "request_of (StopPublisher rid _) = {#rid#}"
| "request_of (AddReader req) = {#rr_id req#}"
| "request_of (RemoveReader rid _) = {#rid#}"
| "request_of (APIPathsGet rid) = {#rid#}"
| "request_of _ = {#}"

definition requests :: "path_event list \<Rightarrow> nat multiset" where
  "requests evs = sum_list (map request_of evs)"

lemma replied_simps [simp]:
  "replied [] = {#}"
  "replied (a @ b) = replied a + replied b"
  "replied (e # b) = (case e of Reply rid _ \<Rightarrow> {#rid#} | _ \<Rightarrow> {#}) + replied b"
  by (auto simp: replied_def reply_ids_def split: path_effect.split)

lemma replied_maps [simp]:
  "replied (map ApiCall xs) = {#}"
  "replied (map CloseReader rs) = {#}"
  "replied (map (\<lambda>req. Reply (f req) (g req)) reqs) = mset (map f reqs)"
  by (induction xs) (auto, induction rs, auto, induction reqs, auto)

lemma account_emit [simp]: "account (emit effs pa) = account pa + replied effs"
  by (simp add: account_def held_def emit_def)

text \<open>The account reads three fields.\<close>

lemma account_cong:
  "pa_describeOnHold pa = pa_describeOnHold pb \<Longrightarrow> pa_readerAddOnHold pa = pa_readerAddOnHold pb \<Longrightarrow>
   pa_out pa = pa_out pb \<Longrightarrow> account pa = account pb"
  by (simp add: account_def held_def)

lemma account_update [simp]:
  "account (pa\<lparr>pa_conf := c\<rparr>) = account pa"
  "account (pa\<lparr>pa_live := l\<rparr>) = account pa"
  "account (pa\<lparr>pa_source := s\<rparr>) = account pa"
  "account (pa\<lparr>pa_publisherQuery := q\<rparr>) = account pa"
  "account (pa\<lparr>pa_stream := st\<rparr>) = account pa"
  "account (pa\<lparr>pa_recorder := b\<rparr>) = account pa"
  "account (pa\<lparr>pa_onUnDemandHook := b\<rparr>) = account pa"
  "account (pa\<lparr>pa_onNotReadyHook := b\<rparr>) = account pa"
  "account (pa\<lparr>pa_readers := rs\<rparr>) = account pa"
  "account (pa\<lparr>pa_staticState := ss\<rparr>) = account pa"
  "account (pa\<lparr>pa_staticReadyTimer := t\<rparr>) = account pa"
  "account (pa\<lparr>pa_staticCloseTimer := t\<rparr>) = account pa"
  "account (pa\<lparr>pa_publisherState := ss\<rparr>) = account pa"
  "account (pa\<lparr>pa_publisherReadyTimer := t\<rparr>) = account pa"
  "account (pa\<lparr>pa_publisherCloseTimer := t\<rparr>) = account pa"
  "account (pa\<lparr>pa_streams := n\<rparr>) = account pa"
  by (simp_all add: account_def held_def)

lemma account_hold [simp]:
  "account (pa\<lparr>pa_describeOnHold := pa_describeOnHold pa @ [d]\<rparr>) = account pa + {#dr_id d#}"
  "account (pa\<lparr>pa_readerAddOnHold := pa_readerAddOnHold pa @ [r]\<rparr>) = account pa + {#rr_id r#}"
  by (simp_all add: account_def held_def)

section \<open>Operations\<close>

lemma with_handler_account: "with_handler f pa = Inr pa' \<Longrightarrow> account pa' = account pa"
  by (auto simp: with_handler_def bindE_eq_Inr split: option.splits path_source.splits)

lemma static_account:
  "onDemandStaticSourceStart q pa = Inr pa' \<Longrightarrow> account pa' = account pa"
  "onDemandStaticSourceStop reason pa = Inr pa' \<Longrightarrow> account pa' = account pa"
  "account (onDemandStaticSourceScheduleClose pa) = account pa"
  by (auto simp: onDemandStaticSourceStart_def onDemandStaticSourceStop_def
      onDemandStaticSourceScheduleClose_def bindE_eq_Inr Let_def dest!: with_handler_account)

lemma publisher_account:
  "account (onDemandPublisherStart q pa) = account pa"
  "onDemandPublisherStop reason pa = Inr pa' \<Longrightarrow> account pa' = account pa"
  "account (onDemandPublisherScheduleClose pa) = account pa"
  by (auto simp: onDemandPublisherStart_def onDemandPublisherStop_def onDemandPublisherScheduleClose_def
      Let_def split: if_splits)

lemma recorder_account [simp]:
  "account (startRecording pa) = account pa" "account (closeRecorder pa) = account pa"
  by (simp_all add: startRecording_def closeRecorder_def)

lemma setReady_account: "setReady srv err pa = Inr (e, pa') \<Longrightarrow> account pa' = account pa"
  by (erule setReady_cases) (simp_all add: becomes_ready_def Let_def)

lemma setNotReady_account: "setNotReady pa = Inr pa' \<Longrightarrow> account pa' = account pa"
  by (auto simp: setNotReady_def Let_def split: option.splits if_splits)

lemma executeRemovePublisher_account: "executeRemovePublisher pa = Inr pa' \<Longrightarrow> account pa' = account pa"
  by (auto simp: executeRemovePublisher_def bindE_eq_Inr dest: setNotReady_account split: if_splits)

lemma keep_on_demand_account [simp]: "account (keep_on_demand pa) = account pa"
  by (simp add: keep_on_demand_def)

lemma addReaderPost_account: "account (addReaderPost req pa) = account pa + {#rr_id req#}"
  by (simp add: addReaderPost_def Let_def)

lemma fold_addReaderPost_account:
  "account (fold addReaderPost reqs pa) = account pa + mset (map rr_id reqs)"
  by (induction reqs arbitrary: pa) (simp_all add: addReaderPost_account)

lemma keep_on_demand_holds [simp]:
  "pa_readerAddOnHold (keep_on_demand pa) = pa_readerAddOnHold pa"
  "pa_describeOnHold (keep_on_demand pa) = pa_describeOnHold pa"
  by (simp_all add: keep_on_demand_def)

lemma addReaderPost_holds [simp]:
  "pa_readerAddOnHold (addReaderPost req pa) = pa_readerAddOnHold pa"
  "pa_describeOnHold (addReaderPost req pa) = pa_describeOnHold pa"
  by (simp_all add: addReaderPost_def Let_def)

lemma fold_addReaderPost_holds [simp]:
  "pa_readerAddOnHold (fold addReaderPost reqs pa) = pa_readerAddOnHold pa"
  "pa_describeOnHold (fold addReaderPost reqs pa) = pa_describeOnHold pa"
  by (induction reqs arbitrary: pa) simp_all

lemma account_served:
  "account (pa\<lparr>pa_readerAddOnHold := []\<rparr>) + mset (map rr_id (pa_readerAddOnHold pa)) = account pa"
  "account (pa\<lparr>pa_describeOnHold := []\<rparr>) + mset (map dr_id (pa_describeOnHold pa)) = account pa"
  by (simp_all add: account_def held_def ac_simps)

lemma consumeOnHoldRequests_account: "account (consumeOnHoldRequests pa) = account pa"
proof -
  let ?d = "(emit (map (\<lambda>req. Reply (dr_id req) (ReplyStream (pa_stream pa))) (pa_describeOnHold pa)) pa)
              \<lparr>pa_describeOnHold := []\<rparr>"
  have "account ?d = account pa"
    by (simp add: account_def held_def ac_simps)
  moreover have "account (fold addReaderPost (pa_readerAddOnHold ?d) ?d) =
      account ?d + mset (map rr_id (pa_readerAddOnHold pa))"
    by (simp add: fold_addReaderPost_account)
  ultimately show ?thesis
    using account_served(1) [of "fold addReaderPost (pa_readerAddOnHold ?d) ?d"]
    by (simp add: consumeOnHoldRequests_def Let_def)
qed

lemma refuse_on_hold_account: "account (refuse_on_hold e pa) = account pa"
  by (simp add: refuse_on_hold_def refusals_def account_def held_def ac_simps)

lemmas operation_accounts =
  with_handler_account static_account publisher_account setReady_account setNotReady_account
  executeRemovePublisher_account addReaderPost_account consumeOnHoldRequests_account refuse_on_hold_account


section \<open>Handlers and runs\<close>

lemma describe_account: "doDescribe req pa = Inr pa' \<Longrightarrow> account pa' = account pa + {#dr_id req#}"
  by (auto simp: doDescribe_def bindE_eq_Inr Let_def operation_accounts split: if_splits)

lemma addReader_account: "doAddReader req pa = Inr pa' \<Longrightarrow> account pa' = account pa + {#rr_id req#}"
  by (auto simp: doAddReader_def bindE_eq_Inr Let_def operation_accounts split: if_splits)

lemma ready_account:
  "doSourceStaticSetReady rid srv err pa = Inr pa' \<Longrightarrow> account pa' = account pa + {#rid#}"
  "doStartPublisher rid author srv err pa = Inr pa' \<Longrightarrow> account pa' = account pa + {#rid#}"
  by (auto simp: doSourceStaticSetReady_def doStartPublisher_def bindE_eq_Inr Let_def operation_accounts
      split: option.splits if_splits dest: setReady_account)

lemma publisher_handler_account:
  "doAddPublisher rid author q pa = Inr pa' \<Longrightarrow> account pa' = account pa + {#rid#}"
  "doRemovePublisher rid author srv pa = Inr pa' \<Longrightarrow> account pa' = account pa + {#rid#}"
  "doStopPublisher rid author pa = Inr pa' \<Longrightarrow> account pa' = account pa + {#rid#}"
  by (auto simp: doAddPublisher_def doRemovePublisher_def doStopPublisher_def bindE_eq_Inr Let_def case_prod_unfold
      split: option.splits path_source.splits if_splits
      dest!: executeRemovePublisher_account setNotReady_account)

lemma not_ready_account:
  "doSourceStaticSetNotReady rid pa = Inr pa' \<Longrightarrow> account pa' = account pa + {#rid#}"
  by (auto simp: doSourceStaticSetNotReady_def bindE_eq_Inr Let_def
      split: if_splits dest!: setNotReady_account static_account(2))

lemma timer_account:
  "doOnDemandStaticSourceReadyTimer pa = Inr pa' \<Longrightarrow> account pa' = account pa"
  "doOnDemandStaticSourceCloseTimer pa = Inr pa' \<Longrightarrow> account pa' = account pa"
  "doOnDemandPublisherReadyTimer pa = Inr pa' \<Longrightarrow> account pa' = account pa"
  "doOnDemandPublisherCloseTimer pa = Inr pa' \<Longrightarrow> account pa' = account pa"
  by (auto simp: doOnDemandStaticSourceReadyTimer_def doOnDemandStaticSourceCloseTimer_def
      doOnDemandPublisherReadyTimer_def doOnDemandPublisherCloseTimer_def bindE_eq_Inr refuse_on_hold_account
      dest!: setNotReady_account static_account(2) publisher_account(2))

lemma reload_account: "doReloadConf c pa = Inr pa' \<Longrightarrow> account pa' = account pa"
  by (auto simp: doReloadConf_def reload_source_def bindE_eq_Inr Let_def
      split: option.splits path_source.splits if_splits)

lemma reader_handler_account:
  "account (doRemoveReader rid author pa) = account pa + {#rid#}"
  "account (doAPIPathsGet rid pa) = account pa + {#rid#}"
  by (simp_all add: doRemoveReader_def executeRemoveReader_def doAPIPathsGet_def Let_def operation_accounts)

lemma handle_account: "handle ev pa = Inr pa' \<Longrightarrow> account pa' = account pa + request_of ev"
  by (cases ev) (auto simp: reader_handler_account dest!: describe_account addReader_account ready_account
      publisher_handler_account not_ready_account timer_account reload_account)

lemma run_begin_account: "run_begin pa = Inr pa' \<Longrightarrow> account pa' = account pa"
  by (cases "SourceOnDemand (pa_conf pa)")
    (auto simp: run_begin_def bindE_eq_Inr Let_def split: if_splits dest!: with_handler_account)

lemma close_source_account: "close_source pa = Inr pa' \<Longrightarrow> account pa' = account pa"
  by (auto simp: close_source_def bindE_eq_Inr split: option.splits path_source.splits if_splits
      dest!: with_handler_account)

lemma replied_refusals: "replied (refusals e pa) = held pa"
  by (simp add: refusals_def held_def)

text \<open>The requests on hold when the loop ends are answered, once more than the account has them on hold.\<close>

lemma run_end_account: "run_end pa = Inr pa' \<Longrightarrow> account pa' = account pa + held pa"
proof -
  assume "run_end pa = Inr pa'"
  then have "account pa' = account pa + replied (refusals terminated (emit [ParentClose] pa))"
    by (auto simp: run_end_def bindE_eq_Inr Let_def refusals_def split: if_splits
        dest!: close_source_account setNotReady_account)
  then show ?thesis
    by (simp add: replied_refusals) (simp add: held_def)
qed


lemma held_update [simp]:
  "held (emit effs pa) = held pa" "held (pa\<lparr>pa_live := l\<rparr>) = held pa" "held (pa\<lparr>pa_source := s\<rparr>) = held pa" "held (pa\<lparr>pa_stream := st\<rparr>) = held pa"
  "held (pa\<lparr>pa_readers := rs\<rparr>) = held pa" "held (pa\<lparr>pa_recorder := b\<rparr>) = held pa"
  "held (pa\<lparr>pa_staticReadyTimer := t1, pa_staticCloseTimer := t2,
            pa_publisherReadyTimer := t3, pa_publisherCloseTimer := t4\<rparr>) = held pa"
  by (simp_all add: held_def)

lemma run_end_held: "run_end pa = Inr pa' \<Longrightarrow> held pa' = held pa"
  by (auto simp: run_end_def close_source_def setNotReady_def with_handler_def closeRecorder_def bindE_eq_Inr Let_def
      split: if_splits option.splits path_source.splits)

lemma run_end_replied: "run_end pa = Inr pa' \<Longrightarrow> replied (pa_out pa') = account pa"
  using run_end_account [of pa pa'] run_end_held [of pa pa'] by (simp add: account_def)

lemma run_events_account:
  assumes "run_events evs pa = Inr life"
  shows "\<exists>served rest. evs = served @ rest \<and>
    (case life of
       Running pa' \<Rightarrow> rest = [] \<and> account pa' = account pa + requests served
     | Destroyed pa' e \<Rightarrow> replied (pa_out pa') = account pa + requests served)"
  using assms
proof (induction evs arbitrary: pa)
  case Nil
  then show ?case by (auto simp: requests_def)
next
  case (Cons ev evs)
  from Cons.prems obtain pa1 exit where turn: "path_turn ev pa = Inr (pa1, exit)"
    and cont: "(case exit of None \<Rightarrow> run_events evs pa1
        | Some e \<Rightarrow> bindE (run_end pa1) (\<lambda>pa2. Inr (Destroyed pa2 e))) = Inr life"
    by (auto simp: bindE_eq_Inr)
  have acc: "account pa1 = account pa + request_of ev"
    using turn by (auto simp: path_turn_def bindE_eq_Inr dest: handle_account)
  show ?case
  proof (cases exit)
    case None
    then obtain served rest where "evs = served @ rest"
      "case life of
         Running pa' \<Rightarrow> rest = [] \<and> account pa' = account pa1 + requests served
       | Destroyed pa' e \<Rightarrow> replied (pa_out pa') = account pa1 + requests served"
      using Cons.IH [of pa1] cont by auto
    then show ?thesis
      using acc by (intro exI [of _ "ev # served"] exI [of _ rest])
        (auto simp: requests_def ac_simps split: path_life.splits)
  next
    case (Some e)
    then show ?thesis
      using cont acc by (intro exI [of _ "[ev]"] exI [of _ evs])
        (auto simp: requests_def bindE_eq_Inr dest: run_end_replied)
  qed
qed

text \<open>
  C4. Every request that a path receives is answered exactly once, or is on hold: in every run that does
  not panic, whatever the environment does, the requests on hold and the replies are together the requests
  received; and when the path is destroyed, each request that its loop received has had its reply.
\<close>

theorem path_requests_answered:
  assumes "run evs (path_initialize c nm ms pe live) = Inr life"
  shows "\<exists>served rest. evs = served @ rest \<and>
    (case life of
       Running pa \<Rightarrow> rest = [] \<and> held pa + replied (pa_out pa) = requests served
     | Destroyed pa e \<Rightarrow> replied (pa_out pa) = requests served)"
proof -
  obtain pa1 where start: "run_begin (path_initialize c nm ms pe live) = Inr pa1"
    and rest: "run_events evs pa1 = Inr life"
    using assms by (auto simp: run_def bindE_eq_Inr)
  have "account pa1 = {#}"
    using run_begin_account [OF start] by (simp add: account_def held_def path_initialize_def)
  then show ?thesis
    using run_events_account [OF rest] by (cases life) (auto simp: account_def)
qed

section \<open>A sample path\<close>

text \<open>A transcoder that answers, and one that is down.\<close>

definition good_server :: api_server where
  "good_server i = \<lparr>attempt_consumed = 0, attempt_expired = False, attempt_response = Some []\<rparr>"

definition down_server :: api_server where
  "down_server i = \<lparr>attempt_consumed = 0, attempt_expired = False, attempt_response = None\<rparr>"

text \<open>A path that starts a publisher on demand, and the answers of its first requests.\<close>

definition on_demand_conf :: path_conf where
  "on_demand_conf = (setDefaults zero_conf)\<lparr>Name := ''live/cam'', RunOnDemand := ''ffmpeg''\<rparr>"

definition sample_path :: "path_conf \<Rightarrow> path" where
  "sample_path c = path_initialize c ''live/cam'' [] sample_process_env (\<lambda>_. None)"

definition sample_describe :: "nat \<Rightarrow> describe_req" where
  "sample_describe rid = \<lparr>dr_id = rid, dr_query = [], dr_rtsp = None\<rparr>"

definition sample_reader :: "nat \<Rightarrow> nat \<Rightarrow> reader_req" where
  "sample_reader rid author = \<lparr>rr_id = rid, rr_author = author, rr_query = []\<rparr>"


definition sample_session :: "path_event list" where
  "sample_session =
     [Describe (sample_describe 1), AddReader (sample_reader 2 7), AddPublisher 3 9 [],
      StartPublisher 4 9 good_server None, RemoveReader 5 7, ContextDone, APIPathsGet 6]"

text \<open>What can be seen of a life from outside: whether it is over, and the effects.\<close>

definition life_view :: "path_life result \<Rightarrow> (bool \<times> path_effect list) option" where
  "life_view r =
     (case r of
        Inl e \<Rightarrow> None
      | Inr (Running pa) \<Rightarrow> Some (False, pa_out pa)
      | Inr (Destroyed pa e) \<Rightarrow> Some (True, pa_out pa))"

lemma life_view_Destroyed:
  "life_view r = Some (True, effs) \<longleftrightarrow> (\<exists>pa e. r = Inr (Destroyed pa e) \<and> effs = pa_out pa)"
  by (auto simp: life_view_def split: sum.splits path_life.splits)

lemma sample_session_replies:
  "map_option (map_prod id reply_ids) (life_view (run sample_session (sample_path on_demand_conf))) =
     Some (True, [3, 1, 2, 4, 5])"
  by code_simp

lemma path_requests_answered_witness:
  "\<exists>pa e. run sample_session (sample_path on_demand_conf) = Inr (Destroyed pa e) \<and>
     replied (pa_out pa) = {#1, 2, 3, 4, 5#} \<and>
     (\<exists>served rest. sample_session = served @ rest \<and> replied (pa_out pa) = requests served)"
proof -
  obtain effs where view: "life_view (run sample_session (sample_path on_demand_conf)) = Some (True, effs)"
    and ids: "reply_ids effs = [3, 1, 2, 4, 5]"
    using sample_session_replies by (auto simp: map_prod_def)
  then obtain pa e where life: "run sample_session (sample_path on_demand_conf) = Inr (Destroyed pa e)"
    and effs: "effs = pa_out pa"
    by (auto simp: life_view_Destroyed)
  show ?thesis
    using life ids effs path_requests_answered [OF life [unfolded sample_path_def]]
    by (intro exI [of _ pa] exI [of _ e]) (auto simp: replied_def)
qed

end
