(* ===== verification/PathInvariant.thy ===== *)
theory PathInvariant
  imports PathAccount
begin

text \<open>
  The invariant of a path: how its source, its stream, its readers, its hooks, its timers and the states of
  the on-demand source and publisher agree. Every handler keeps it, and does not panic, when the
  environment keeps its side: \<open>env_ok\<close> says what that is, event by event.
\<close>

section \<open>The invariant\<close>

text \<open>The source has the form that the configuration says, and a static source runs exactly when it should.\<close>

definition source_fits :: "path_conf \<Rightarrow> on_demand_state \<Rightarrow> path_source option \<Rightarrow> bool" where
  "source_fits c st src =
     (if Source c = ''redirect'' then src = Some SourceRedirection
      else if HasStaticSource c then
        (case src of
           Some (SourceStatic h) \<Rightarrow> h_running h = (\<not> SourceOnDemand c \<or> st \<noteq> OnDemandInitial)
         | _ \<Rightarrow> False)
      else (case src of None \<Rightarrow> True | Some (SourcePublisher _) \<Rightarrow> True | _ \<Rightarrow> False))"

definition source_ok :: "path \<Rightarrow> bool" where
  "source_ok pa = source_fits (pa_conf pa) (pa_staticState pa) (pa_source pa)"

text \<open>The timers are armed exactly in the states that wait for them.\<close>

definition static_ok :: "path \<Rightarrow> bool" where
  "static_ok pa =
     ((pa_staticReadyTimer pa \<noteq> None) = (pa_staticState pa = OnDemandWaitingReady) \<and>
      (pa_staticCloseTimer pa \<noteq> None) = (pa_staticState pa = OnDemandClosing) \<and>
      (\<not> HasOnDemandStaticSource (pa_conf pa) \<longrightarrow> pa_staticState pa = OnDemandInitial) \<and>
      (HasOnDemandStaticSource (pa_conf pa) \<longrightarrow>
         (pa_stream pa \<noteq> None) = (pa_staticState pa = OnDemandReady \<or> pa_staticState pa = OnDemandClosing) \<and>
         (pa_staticState pa = OnDemandClosing \<longrightarrow> pa_readers pa = []) \<and>
         (pa_staticState pa = OnDemandReady \<longrightarrow> pa_readers pa \<noteq> [])))"

definition publisher_ok :: "path \<Rightarrow> bool" where
  "publisher_ok pa =
     ((pa_publisherReadyTimer pa \<noteq> None) = (pa_publisherState pa = OnDemandWaitingReady) \<and>
      (pa_publisherCloseTimer pa \<noteq> None) = (pa_publisherState pa = OnDemandClosing) \<and>
      (pa_onUnDemandHook pa) = (pa_publisherState pa \<noteq> OnDemandInitial) \<and>
      (\<not> HasOnDemandPublisher (pa_conf pa) \<longrightarrow> pa_publisherState pa = OnDemandInitial))"

text \<open>What a stream needs, and what needs a stream.\<close>

definition stream_ok :: "path \<Rightarrow> bool" where
  "stream_ok pa =
     ((pa_stream pa \<noteq> None \<longrightarrow>
         pa_source pa \<noteq> None \<and> pa_source pa \<noteq> Some SourceRedirection \<and> pa_onNotReadyHook pa \<and>
         pa_recorder pa = Record (pa_conf pa) \<and> pa_live pa (pa_name pa) \<noteq> None) \<and>
      (pa_stream pa = None \<longrightarrow> pa_readers pa = [] \<and> \<not> pa_recorder pa))"

definition readers_ok :: "path \<Rightarrow> bool" where
  "readers_ok pa =
     (distinct (pa_readers pa) \<and>
      (pa_readers pa \<noteq> [] \<longrightarrow>
         MaxReaders (pa_conf pa) = 0 \<or> int (length (pa_readers pa)) \<le> MaxReaders (pa_conf pa)))"

text \<open>Requests are on hold only while there is no stream and someone may still bring one.\<close>

definition hold_ok :: "path \<Rightarrow> bool" where
  "hold_ok pa =
     (pa_describeOnHold pa \<noteq> [] \<or> pa_readerAddOnHold pa \<noteq> [] \<longrightarrow>
        pa_stream pa = None \<and>
        (HasOnDemandStaticSource (pa_conf pa) \<and> pa_staticState pa = OnDemandWaitingReady \<or>
         HasOnDemandPublisher (pa_conf pa)))"

definition path_core :: "path \<Rightarrow> bool" where
  "path_core pa =
     (conf_valid (pa_conf pa) \<and> source_ok pa \<and> static_ok pa \<and> publisher_ok pa \<and> stream_ok pa \<and> readers_ok pa)"

definition path_ok :: "path \<Rightarrow> bool" where
  "path_ok pa = (path_core pa \<and> hold_ok pa)"

lemmas path_parts = source_ok_def static_ok_def publisher_ok_def stream_ok_def readers_ok_def

lemma path_coreI:
  "conf_valid (pa_conf pa) \<Longrightarrow> source_ok pa \<Longrightarrow> static_ok pa \<Longrightarrow> publisher_ok pa \<Longrightarrow> stream_ok pa \<Longrightarrow>
   readers_ok pa \<Longrightarrow> path_core pa"
  by (simp add: path_core_def)

lemma path_coreD:
  assumes "path_core pa"
  shows "conf_valid (pa_conf pa)" "source_ok pa" "static_ok pa" "publisher_ok pa" "stream_ok pa" "readers_ok pa"
  using assms by (simp_all add: path_core_def)

text \<open>The invariant does not read the effects.\<close>

lemma path_core_emit [simp]: "path_core (emit effs pa) = path_core pa"
  by (simp add: path_core_def path_parts)

lemma hold_ok_emit [simp]: "hold_ok (emit effs pa) = hold_ok pa"
  by (simp add: hold_ok_def)

lemma path_ok_emit [simp]: "path_ok (emit effs pa) = path_ok pa"
  by (simp add: path_ok_def)

section \<open>What the environment promises\<close>

text \<open>
  A timer fires only if it is armed. A configuration is replaced only by one that the path manager lets it be
  updated to. A static source is heard only while its handler runs: it becomes ready only when it is not, and not ready only when
  it is; a publisher starts only once before it stops. The rest are assumptions that the code does
  not enforce: the name of a path that becomes ready has a slash; the transcoder was asked once to
  start before a publisher is removed; a description of a path whose fallback is a path comes with an RTSP request.
\<close>

definition static_running :: "path \<Rightarrow> bool" where
  "static_running pa = (case pa_source pa of Some (SourceStatic h) \<Rightarrow> h_running h | _ \<Rightarrow> False)"

fun env_ok :: "path \<Rightarrow> path_event \<Rightarrow> bool" where
  "env_ok pa StaticReadyTimer = (pa_staticReadyTimer pa \<noteq> None)"
| "env_ok pa StaticCloseTimer = (pa_staticCloseTimer pa \<noteq> None)"
| "env_ok pa PublisherReadyTimer = (pa_publisherReadyTimer pa \<noteq> None)"
| "env_ok pa PublisherCloseTimer = (pa_publisherCloseTimer pa \<noteq> None)"
| "env_ok pa (ReloadConf c) = pathConfCanBeUpdated (pa_conf pa) c"
| "env_ok pa (StaticSetReady _ _ _) = (static_running pa \<and> pa_stream pa = None \<and> slash \<in> set (pa_name pa))"
| "env_ok pa (StaticSetNotReady _) = (static_running pa \<and> pa_stream pa \<noteq> None)"
| "env_ok pa (Describe req) = (HasPrefix (Fallback (pa_conf pa)) ''/'' \<longrightarrow> dr_rtsp req \<noteq> None)"
| "env_ok pa (RemovePublisher _ _ _) = (pa_live pa (pa_name pa) \<noteq> None)"
| "env_ok pa (StartPublisher _ author _ _) =
     (pa_source pa = Some (SourcePublisher author) \<longrightarrow> pa_stream pa = None \<and> slash \<in> set (pa_name pa))"
| "env_ok pa _ = True"

section \<open>Operations\<close>

lemma static_source_cases:
  assumes "source_ok pa" "HasStaticSource (pa_conf pa)"
  obtains h where "pa_source pa = Some (SourceStatic h)"
    "h_running h = (\<not> SourceOnDemand (pa_conf pa) \<or> pa_staticState pa \<noteq> OnDemandInitial)"
  using assms by (auto simp: source_ok_def source_fits_def HasStaticSource_def split: option.splits path_source.splits)

text \<open>A path that is ready becomes not ready.\<close>

definition not_ready :: "path \<Rightarrow> path" where
  "not_ready pa = pa\<lparr>pa_readers := [], pa_recorder := False, pa_stream := None\<rparr>"

definition not_ready_effects :: "path \<Rightarrow> path_effect list" where
  "not_ready_effects pa =
     ParentNotReady # map CloseReader (pa_readers pa) @ HookNotReady #
     (if pa_recorder pa then [RecorderClose] else []) @
     (case pa_stream pa of None \<Rightarrow> [] | Some s \<Rightarrow> [StreamClosed s])"

lemma setNotReady_ok:
  "pa_onNotReadyHook pa \<Longrightarrow> setNotReady pa = Inr (emit (not_ready_effects pa) (not_ready pa))"
  by (cases pa)
    (simp add: setNotReady_def not_ready_def not_ready_effects_def closeRecorder_def emit_def split: option.split)

lemma not_ready_fields [simp]:
  "pa_conf (not_ready pa) = pa_conf pa" "pa_name (not_ready pa) = pa_name pa" "pa_live (not_ready pa) = pa_live pa"
  "pa_process (not_ready pa) = pa_process pa" "pa_matches (not_ready pa) = pa_matches pa"
  "pa_source (not_ready pa) = pa_source pa" "pa_stream (not_ready pa) = None" "pa_readers (not_ready pa) = []"
  "\<not> pa_recorder (not_ready pa)" "pa_onNotReadyHook (not_ready pa) = pa_onNotReadyHook pa"
  "pa_onUnDemandHook (not_ready pa) = pa_onUnDemandHook pa"
  "pa_describeOnHold (not_ready pa) = pa_describeOnHold pa"
  "pa_readerAddOnHold (not_ready pa) = pa_readerAddOnHold pa"
  "pa_staticState (not_ready pa) = pa_staticState pa" "pa_publisherState (not_ready pa) = pa_publisherState pa"
  "pa_staticReadyTimer (not_ready pa) = pa_staticReadyTimer pa"
  "pa_staticCloseTimer (not_ready pa) = pa_staticCloseTimer pa"
  "pa_publisherReadyTimer (not_ready pa) = pa_publisherReadyTimer pa"
  "pa_publisherCloseTimer (not_ready pa) = pa_publisherCloseTimer pa"
  by (simp_all add: not_ready_def)

lemma with_handler_static:
  "pa_source pa = Some (SourceStatic h) \<Longrightarrow>
   with_handler f pa = bindE (f h) (\<lambda>h'. Inr (pa\<lparr>pa_source := Some (SourceStatic h')\<rparr>))"
  by (simp add: with_handler_def)

lemma HasOnDemandStaticSource_parts:
  "HasOnDemandStaticSource c \<Longrightarrow> HasStaticSource c \<and> SourceOnDemand c \<and> Source c \<noteq> ''redirect'' \<and> Source c \<noteq> ''publisher''"
  by (simp add: HasOnDemandStaticSource_def HasStaticSource_def)

text \<open>The operations on an on-demand static source, in states that keep the invariant.\<close>

lemma static_start_ok:
  assumes "path_core pa" "HasOnDemandStaticSource (pa_conf pa)" "pa_staticState pa = OnDemandInitial"
  shows "\<exists>pa'. onDemandStaticSourceStart q pa = Inr pa' \<and> path_core pa' \<and> pa_stream pa' = None \<and>
    pa_staticState pa' = OnDemandWaitingReady \<and> pa_conf pa' = pa_conf pa \<and>
    pa_describeOnHold pa' = pa_describeOnHold pa \<and> pa_readerAddOnHold pa' = pa_readerAddOnHold pa"
proof -
  note od = HasOnDemandStaticSource_parts [OF assms(2)]
  obtain h where h: "pa_source pa = Some (SourceStatic h)" "\<not> h_running h"
    using path_coreD(2) [OF assms(1)] od assms(3) by (auto elim!: static_source_cases)
  then show ?thesis
    using assms od
    by (auto simp: onDemandStaticSourceStart_def with_handler_static path_core_def path_parts source_fits_def
        bindE_eq_Inr handler_start_def)
qed

lemma static_stop_ok:
  assumes "source_ok pa" "HasOnDemandStaticSource (pa_conf pa)" "pa_staticState pa \<noteq> OnDemandInitial"
  shows "\<exists>h effs. onDemandStaticSourceStop reason pa = Inr (emit effs (pa
      \<lparr>pa_source := Some (SourceStatic h), pa_staticState := OnDemandInitial,
       pa_staticCloseTimer := (if pa_staticState pa = OnDemandClosing then None else pa_staticCloseTimer pa)\<rparr>)) \<and>
    \<not> h_running h \<and> pa_source pa \<noteq> None"
proof -
  note od = HasOnDemandStaticSource_parts [OF assms(2)]
  obtain h where h: "pa_source pa = Some (SourceStatic h)" "h_running h"
    using assms od by (auto elim!: static_source_cases)
  then show ?thesis
    by (intro exI [of _ "h\<lparr>h_running := False\<rparr>"] exI [of _ "[SourceStopped reason]"])
      (cases pa, simp add: onDemandStaticSourceStop_def with_handler_static handler_stop_def)
qed

text \<open>A result that is a state with the invariant.\<close>

definition result_ok :: "path result \<Rightarrow> bool" where
  "result_ok r = (case r of Inl _ \<Rightarrow> False | Inr pa \<Rightarrow> path_ok pa)"

lemma result_ok_Inr [simp]: "result_ok (Inr pa) = path_ok pa"
  by (simp add: result_ok_def)

lemma waiting_without_stream:
  assumes "static_ok pa" "HasOnDemandStaticSource (pa_conf pa)" "pa_stream pa = None"
  shows "pa_staticState pa = OnDemandInitial \<or> pa_staticState pa = OnDemandWaitingReady"
  using assms by (cases "pa_staticState pa") (auto simp: static_ok_def)

lemma publisher_start_ok:
  assumes "path_core pa" "HasOnDemandPublisher (pa_conf pa)"
  shows "path_core (onDemandPublisherStart q pa) \<or> pa_publisherState pa \<noteq> OnDemandInitial"
    "pa_stream (onDemandPublisherStart q pa) = pa_stream pa"
    "pa_conf (onDemandPublisherStart q pa) = pa_conf pa"
    "pa_describeOnHold (onDemandPublisherStart q pa) = pa_describeOnHold pa"
    "pa_readerAddOnHold (onDemandPublisherStart q pa) = pa_readerAddOnHold pa"
  using assms by (auto simp: onDemandPublisherStart_def path_core_def path_parts)

lemma path_core_hold [simp]:
  "path_core (pa\<lparr>pa_describeOnHold := ds\<rparr>) = path_core pa"
  "path_core (pa\<lparr>pa_readerAddOnHold := rs\<rparr>) = path_core pa"
  by (simp_all add: path_core_def path_parts)

section \<open>Handlers\<close>

text \<open>A request that may have to wait: the state from which it is put on hold.\<close>

lemma hold_static_ok:
  assumes "path_ok pa" "HasOnDemandStaticSource (pa_conf pa)" "pa_stream pa = None"
  shows "\<exists>pa1. (if pa_staticState pa = OnDemandInitial then onDemandStaticSourceStart q pa else Inr pa) = Inr pa1 \<and>
    path_core pa1 \<and> pa_stream pa1 = None \<and> pa_staticState pa1 = OnDemandWaitingReady \<and> pa_conf pa1 = pa_conf pa"
  using assms static_start_ok [of pa q] waiting_without_stream [of pa]
  by (auto simp: path_ok_def path_core_def)

lemma hold_publisher_ok:
  assumes "path_ok pa" "HasOnDemandPublisher (pa_conf pa)" "pa_stream pa = None"
    and "pa1 = (if pa_publisherState pa = OnDemandInitial then onDemandPublisherStart q pa else pa)"
  shows "path_core pa1 \<and> pa_stream pa1 = None \<and> pa_conf pa1 = pa_conf pa"
  using assms publisher_start_ok [of pa q] by (auto simp: path_ok_def)

lemma doDescribe_ok:
  assumes "path_ok pa" "env_ok pa (Describe req)"
  shows "result_ok (doDescribe req pa)"
proof (cases "pa_stream pa")
  case none: None
  show ?thesis
  proof (cases "HasOnDemandStaticSource (pa_conf pa)")
    case True
    then show ?thesis
      using hold_static_ok [OF assms(1) True none, of "dr_query req"] assms(1) none
      by (auto simp: doDescribe_def path_ok_def hold_ok_def)
  next
    case no_static: False
    show ?thesis
    proof (cases "HasOnDemandPublisher (pa_conf pa)")
      case True
      then show ?thesis
        using hold_publisher_ok [OF assms(1) True none refl, of "dr_query req"] assms(1) none no_static
        by (auto simp: doDescribe_def path_ok_def hold_ok_def Let_def)
    next
      case False
      then show ?thesis
        using assms none no_static by (auto simp: doDescribe_def fallback_reply_def)
    qed
  qed
qed (use assms in \<open>simp add: doDescribe_def\<close>)

text \<open>A reader that is added keeps the invariant while there is a stream.\<close>

lemma keep_on_demand_fields [simp]:
  "pa_conf (keep_on_demand pa) = pa_conf pa" "pa_source (keep_on_demand pa) = pa_source pa"
  "pa_stream (keep_on_demand pa) = pa_stream pa" "pa_readers (keep_on_demand pa) = pa_readers pa"
  "pa_recorder (keep_on_demand pa) = pa_recorder pa" "pa_live (keep_on_demand pa) = pa_live pa"
  "pa_name (keep_on_demand pa) = pa_name pa" "pa_onNotReadyHook (keep_on_demand pa) = pa_onNotReadyHook pa"
  "pa_onUnDemandHook (keep_on_demand pa) = pa_onUnDemandHook pa"
  "(pa_staticState (keep_on_demand pa) = OnDemandInitial) = (pa_staticState pa = OnDemandInitial)"
  "(pa_publisherState (keep_on_demand pa) = OnDemandInitial) = (pa_publisherState pa = OnDemandInitial)"
  by (simp_all add: keep_on_demand_def)

lemma source_fits_state:
  "(st = OnDemandInitial) = (st' = OnDemandInitial) \<Longrightarrow> source_fits c st src = source_fits c st' src"
  by (auto simp: source_fits_def split: option.split path_source.split)

lemma keep_on_demand_core:
  assumes "path_core pa" "pa_stream pa \<noteq> None" "r \<notin> set (pa_readers pa)"
    and "MaxReaders (pa_conf pa) = 0 \<or> int (length (pa_readers pa)) < MaxReaders (pa_conf pa)"
  shows "path_core (keep_on_demand (pa\<lparr>pa_readers := pa_readers pa @ [r]\<rparr>))" (is "path_core ?pa")
proof (rule path_coreI)
  note parts = path_coreD [OF assms(1)]
  show "conf_valid (pa_conf ?pa)" using parts(1) by simp
  show "source_ok ?pa"
    using parts(2) source_fits_state [of "pa_staticState ?pa" "pa_staticState pa"] by (simp add: source_ok_def)
  show "static_ok ?pa"
    using parts(3) assms(2)
    by (cases "pa_staticState pa") (auto simp: static_ok_def keep_on_demand_def)
  show "publisher_ok ?pa"
    using parts(4) by (cases "pa_publisherState pa") (auto simp: publisher_ok_def keep_on_demand_def)
  show "stream_ok ?pa" using parts(5) assms(2) by (simp add: stream_ok_def)
  show "readers_ok ?pa" using parts(6) assms(3,4) by (auto simp: readers_ok_def)
qed

lemma addReaderPost_core:
  assumes "path_core pa" "pa_stream pa \<noteq> None"
  shows "path_core (addReaderPost req pa)" "pa_stream (addReaderPost req pa) = pa_stream pa"
  using assms keep_on_demand_core [of pa "rr_author req"]
  by (auto simp: addReaderPost_def Let_def)

lemma fold_addReaderPost_core:
  assumes "path_core pa" "pa_stream pa \<noteq> None"
  shows "path_core (fold addReaderPost reqs pa)" "pa_stream (fold addReaderPost reqs pa) = pa_stream pa"
  using assms by (induction reqs arbitrary: pa) (simp_all add: addReaderPost_core)

lemma consumeOnHoldRequests_ok:
  assumes "path_core pa" "pa_stream pa \<noteq> None"
  shows "path_ok (consumeOnHoldRequests pa)" "pa_stream (consumeOnHoldRequests pa) = pa_stream pa"
  using assms
  by (simp_all add: consumeOnHoldRequests_def Let_def path_ok_def fold_addReaderPost_core hold_ok_def)

lemma addReaderPost_ok:
  assumes "path_ok pa" "pa_stream pa \<noteq> None"
  shows "path_ok (addReaderPost req pa)"
  using assms addReaderPost_core [of pa req] by (auto simp: path_ok_def hold_ok_def)

lemma doAddReader_ok:
  assumes "path_ok pa"
  shows "result_ok (doAddReader req pa)"
proof (cases "pa_stream pa")
  case none: None
  show ?thesis
  proof (cases "HasOnDemandStaticSource (pa_conf pa)")
    case True
    then show ?thesis
      using hold_static_ok [OF assms True none, of "rr_query req"] none
      by (auto simp: doAddReader_def path_ok_def hold_ok_def)
  next
    case no_static: False
    then show ?thesis
      using hold_publisher_ok [OF assms _ none refl, of "rr_query req"] assms none
      by (auto simp: doAddReader_def path_ok_def hold_ok_def Let_def)
  qed
qed (use assms in \<open>simp add: doAddReader_def addReaderPost_ok\<close>)


section \<open>Becoming ready and not ready\<close>

lemma becomes_ready_fields [simp]:
  "pa_conf (becomes_ready live sent pa) = pa_conf pa" "pa_name (becomes_ready live sent pa) = pa_name pa"
  "pa_live (becomes_ready live sent pa) = live" "pa_source (becomes_ready live sent pa) = pa_source pa"
  "pa_stream (becomes_ready live sent pa) = Some (pa_streams pa)"
  "pa_readers (becomes_ready live sent pa) = pa_readers pa"
  "pa_recorder (becomes_ready live sent pa) = (pa_recorder pa \<or> Record (pa_conf pa))"
  "pa_onNotReadyHook (becomes_ready live sent pa)"
  "pa_onUnDemandHook (becomes_ready live sent pa) = pa_onUnDemandHook pa"
  "pa_staticState (becomes_ready live sent pa) = pa_staticState pa"
  "pa_publisherState (becomes_ready live sent pa) = pa_publisherState pa"
  "pa_staticReadyTimer (becomes_ready live sent pa) = pa_staticReadyTimer pa"
  "pa_staticCloseTimer (becomes_ready live sent pa) = pa_staticCloseTimer pa"
  "pa_publisherReadyTimer (becomes_ready live sent pa) = pa_publisherReadyTimer pa"
  "pa_publisherCloseTimer (becomes_ready live sent pa) = pa_publisherCloseTimer pa"
  "pa_describeOnHold (becomes_ready live sent pa) = pa_describeOnHold pa"
  "pa_readerAddOnHold (becomes_ready live sent pa) = pa_readerAddOnHold pa"
  by (simp_all add: becomes_ready_def startRecording_def Let_def)

text \<open>Without a stream, a path whose name has a slash and whose source is there becomes ready, or reports an error and keeps the invariant.\<close>

lemma setReady_returns:
  assumes "slash \<in> set (pa_name pa)" "pa_source pa \<noteq> None"
  obtains e pa' where "setReady srv err pa = Inr (e, pa')"
proof -
  obtain ls live where live: "NewLiveStream (pa_name pa) (pa_live pa) = Inr (ls, live)"
    using assms(1) by (rule NewLiveStream_live [where m = "pa_live pa"])
  show thesis
  proof (cases "setReady srv err pa")
    case (Inl x)
    then have False
      using live assms(2)
      by (auto simp: setReady_def case_prod_unfold Let_def split: sum.splits option.splits if_splits)
    then show thesis by simp
  next
    case (Inr r)
    then show thesis using that by (cases r) simp
  qed
qed

lemma setReady_ok:
  assumes "path_ok pa" "pa_stream pa = None" "slash \<in> set (pa_name pa)" "pa_source pa \<noteq> None"
  shows "\<exists>e pa'. setReady srv err pa = Inr (e, pa') \<and>
    (case e of
       Some _ \<Rightarrow> path_ok pa'
     | None \<Rightarrow> \<exists>live sent. live (pa_name pa) \<noteq> None \<and> pa' = becomes_ready live sent pa)"
proof -
  obtain e pa' where ready: "setReady srv err pa = Inr (e, pa')"
    using assms(3,4) by (rule setReady_returns)
  have keep: "path_ok (pa\<lparr>pa_live := live\<rparr>)" for live
    using assms(1,2) by (simp add: path_ok_def path_core_def path_parts hold_ok_def)
  have same: "(emit effs (pa\<lparr>pa_live := live\<rparr>))\<lparr>pa_stream := None\<rparr> = emit effs (pa\<lparr>pa_live := live\<rparr>)" for effs live
    using assms(2) by (cases pa) (simp add: emit_def)
  from ready show ?thesis
  proof (cases rule: setReady_cases)
    case (transcoder live sent x)
    then show ?thesis using ready keep by simp
  next
    case (stream_error live sent x)
    then show ?thesis using ready keep by (simp add: same)
  next
    case (ready live sent)
    then show ?thesis using \<open>setReady srv err pa = Inr (e, pa')\<close> by auto
  qed
qed


text \<open>The state in which the requests on hold are served when a static source has become ready.\<close>

definition static_served :: "path \<Rightarrow> path" where
  "static_served pa1 =
     (if HasOnDemandStaticSource (pa_conf pa1)
      then onDemandStaticSourceScheduleClose (pa1\<lparr>pa_staticReadyTimer := None\<rparr>) else pa1)"

lemma static_served_core:
  fixes live :: live_streams and sent :: "api_request list"
  assumes "path_ok pa" "env_ok pa (StaticSetReady rid srv err)" "live (pa_name pa) \<noteq> None"
  defines "pa2 \<equiv> static_served (becomes_ready live sent pa)"
  shows "path_core pa2" "pa_stream pa2 \<noteq> None" "pa_readers pa2 = []" "held pa2 = held pa"
    "HasOnDemandStaticSource (pa_conf pa) \<Longrightarrow> pa_staticState pa = OnDemandWaitingReady" "pa_conf pa2 = pa_conf pa"
proof -
  note defs = pa2_def static_served_def onDemandStaticSourceScheduleClose_def
  obtain h where h: "pa_source pa = Some (SourceStatic h)" "h_running h"
    using assms(2) by (auto simp: static_running_def split: option.splits path_source.splits)
  have "path_core pa"
    using assms(1) by (simp add: path_ok_def)
  note parts = path_coreD [OF this]
  show st: "pa_staticState pa = OnDemandWaitingReady" if "HasOnDemandStaticSource (pa_conf pa)"
    using that waiting_without_stream [OF parts(3) that] HasOnDemandStaticSource_parts [OF that] parts(2) h assms(2)
    by (auto simp: source_ok_def source_fits_def)
  have none: "pa_stream pa = None" "pa_readers pa = []" "\<not> pa_recorder pa"
    using assms(2) parts(5) by (auto simp: stream_ok_def)
  show "path_core pa2"
  proof (rule path_coreI)
    show "conf_valid (pa_conf pa2)" using parts(1) by (simp add: defs)
    show "source_ok pa2"
      using parts(2) st source_fits_state [of OnDemandClosing OnDemandWaitingReady]
      by (auto simp: defs source_ok_def)
    show "static_ok pa2" using parts(3) none st by (auto simp: defs static_ok_def)
    show "publisher_ok pa2" using parts(4) by (simp add: defs publisher_ok_def)
    show "stream_ok pa2" using assms(3) h none by (simp add: defs stream_ok_def)
    show "readers_ok pa2" using none by (simp add: defs readers_ok_def)
  qed
  show "pa_stream pa2 \<noteq> None" "pa_readers pa2 = []" "held pa2 = held pa" "pa_conf pa2 = pa_conf pa"
    using none by (simp_all add: defs held_def)
qed

lemma doSourceStaticSetReady_ok:
  assumes "path_ok pa" "env_ok pa (StaticSetReady rid srv err)"
  shows "result_ok (doSourceStaticSetReady rid srv err pa)"
proof -
  obtain h where h: "pa_source pa = Some (SourceStatic h)"
    using assms(2) by (auto simp: static_running_def split: option.splits path_source.splits)
  obtain e pa1 where ready: "setReady srv err pa = Inr (e, pa1)"
    and pa1: "case e of
       Some _ \<Rightarrow> path_ok pa1
     | None \<Rightarrow> \<exists>live sent. live (pa_name pa) \<noteq> None \<and> pa1 = becomes_ready live sent pa"
    using setReady_ok [OF assms(1), of srv err] assms(2) h by auto
  show ?thesis
  proof (cases e)
    case (Some x)
    then show ?thesis using ready pa1 by (simp add: doSourceStaticSetReady_def)
  next
    case None
    then obtain live sent where live: "live (pa_name pa) \<noteq> None" "pa1 = becomes_ready live sent pa"
      using pa1 by auto
    then show ?thesis
      using consumeOnHoldRequests_ok [OF static_served_core(1,2) [where live = live and sent = sent, OF assms live(1)]] ready None
      by (simp add: doSourceStaticSetReady_def static_served_def [symmetric])
  qed
qed

lemma stream_of_path:
  assumes "path_ok pa" "pa_stream pa \<noteq> None"
  shows "pa_onNotReadyHook pa" "pa_describeOnHold pa = []" "pa_readerAddOnHold pa = []" "pa_source pa \<noteq> None"
  using assms by (auto simp: path_ok_def path_core_def stream_ok_def hold_ok_def)

text \<open>Without an on-demand static source, becoming not ready keeps the invariant.\<close>

lemma not_ready_core:
  assumes "path_core pa" "\<not> HasOnDemandStaticSource (pa_conf pa)"
  shows "path_core (not_ready pa)"
proof (rule path_coreI)
  note parts = path_coreD [OF assms(1)]
  show "conf_valid (pa_conf (not_ready pa))" using parts(1) by simp
  show "source_ok (not_ready pa)" using parts(2) by (simp add: source_ok_def)
  show "static_ok (not_ready pa)" using parts(3) assms(2) by (simp add: static_ok_def)
  show "publisher_ok (not_ready pa)" using parts(4) by (simp add: publisher_ok_def)
qed (simp_all add: stream_ok_def readers_ok_def)

lemma not_ready_hold:
  assumes "path_ok pa" "pa_stream pa \<noteq> None"
  shows "hold_ok (not_ready pa)"
  using stream_of_path [OF assms] by (simp add: hold_ok_def)

text \<open>With one, the source is stopped as well.\<close>

lemma stopped_ok:
  assumes "path_ok pa" "pa_stream pa \<noteq> None" "HasOnDemandStaticSource (pa_conf pa)"
    and "pa' = pa \<or> pa' = pa\<lparr>pa_staticCloseTimer := None\<rparr> \<and> pa_staticState pa = OnDemandClosing"
  shows "result_ok (onDemandStaticSourceStop reason (emit effs (not_ready pa')))"
proof -
  have core: "path_core pa" using assms(1) by (simp add: path_ok_def)
  note parts = path_coreD [OF core] and od = HasOnDemandStaticSource_parts [OF assms(3)]
  let ?pa = "emit effs (not_ready pa')"
  have same: "pa_conf pa' = pa_conf pa" "pa_source pa' = pa_source pa" "pa_staticState pa' = pa_staticState pa"
    using assms(4) by auto
  have st: "pa_staticState pa = OnDemandReady \<or> pa_staticState pa = OnDemandClosing"
    using parts(3) assms(2,3) by (simp add: static_ok_def)
  have src: "source_ok ?pa"
    using parts(2) same by (simp add: source_ok_def)
  obtain h effs' where stop: "onDemandStaticSourceStop reason ?pa = Inr (emit effs' (?pa
      \<lparr>pa_source := Some (SourceStatic h), pa_staticState := OnDemandInitial,
       pa_staticCloseTimer := (if pa_staticState ?pa = OnDemandClosing then None else pa_staticCloseTimer ?pa)\<rparr>))"
    and h: "\<not> h_running h"
    using static_stop_ok [OF src, of reason] st assms(3) same by auto
  let ?r = "?pa\<lparr>pa_source := Some (SourceStatic h), pa_staticState := OnDemandInitial,
       pa_staticCloseTimer := (if pa_staticState ?pa = OnDemandClosing then None else pa_staticCloseTimer ?pa)\<rparr>"
  have fields: "pa_staticReadyTimer pa' = pa_staticReadyTimer pa" "pa_publisherState pa' = pa_publisherState pa"
    "pa_publisherReadyTimer pa' = pa_publisherReadyTimer pa" "pa_publisherCloseTimer pa' = pa_publisherCloseTimer pa"
    "pa_onUnDemandHook pa' = pa_onUnDemandHook pa" "pa_describeOnHold pa' = []" "pa_readerAddOnHold pa' = []"
    "pa_staticState pa \<noteq> OnDemandClosing \<Longrightarrow> pa_staticCloseTimer pa' = pa_staticCloseTimer pa"
    using assms(4) stream_of_path [OF assms(1,2)] by auto
  have "path_core ?r"
  proof (rule path_coreI)
    show "conf_valid (pa_conf ?r)" using parts(1) same by simp
    show "source_ok ?r" using od h same by (simp add: source_ok_def source_fits_def)
    show "static_ok ?r" using parts(3) assms(3) st same fields by (auto simp: static_ok_def)
    show "publisher_ok ?r" using parts(4) same fields by (simp add: publisher_ok_def)
    show "stream_ok ?r" by (simp add: stream_ok_def)
    show "readers_ok ?r" by (simp add: readers_ok_def)
  qed
  moreover have "hold_ok ?r" using fields by (simp add: hold_ok_def)
  ultimately show ?thesis
    unfolding stop by (simp add: path_ok_def)
qed

lemma doSourceStaticSetNotReady_ok:
  assumes "path_ok pa" "env_ok pa (StaticSetNotReady rid)"
  shows "result_ok (doSourceStaticSetNotReady rid pa)"
proof -
  have stream: "pa_stream pa \<noteq> None" using assms(2) by simp
  note hook = stream_of_path(1) [OF assms(1) stream]
  show ?thesis
  proof (cases "HasOnDemandStaticSource (pa_conf pa)")
    case True
    moreover have "pa_staticState pa \<noteq> OnDemandInitial"
      using True assms(1) stream by (auto simp: path_ok_def path_core_def static_ok_def)
    moreover have "emit [Reply rid ReplyClosed] (emit effs (not_ready pa)) =
        emit (effs @ [Reply rid ReplyClosed]) (not_ready pa)" for effs
      by (simp add: emit_def)
    ultimately show ?thesis
      using stopped_ok [OF assms(1) stream True] hook
      by (simp add: doSourceStaticSetNotReady_def setNotReady_ok Let_def)
  next
    case False
    then show ?thesis
      using hook not_ready_core not_ready_hold [OF assms(1) stream] assms(1)
      by (simp add: doSourceStaticSetNotReady_def setNotReady_ok path_ok_def)
  qed
qed

lemma doOnDemandStaticSourceCloseTimer_ok:
  assumes "path_ok pa" "env_ok pa StaticCloseTimer"
  shows "result_ok (doOnDemandStaticSourceCloseTimer (pa\<lparr>pa_staticCloseTimer := None\<rparr>))"
proof -
  have st: "pa_staticState pa = OnDemandClosing"
    using assms by (simp add: path_ok_def path_core_def static_ok_def)
  moreover have od: "HasOnDemandStaticSource (pa_conf pa)"
    using assms st by (auto simp: path_ok_def path_core_def static_ok_def)
  moreover have stream: "pa_stream pa \<noteq> None"
    using assms st od by (auto simp: path_ok_def path_core_def static_ok_def)
  ultimately show ?thesis
    using stopped_ok [OF assms(1) stream od, of "pa\<lparr>pa_staticCloseTimer := None\<rparr>"] stream_of_path(1) [OF assms(1) stream]
    by (simp add: doOnDemandStaticSourceCloseTimer_def setNotReady_ok)
qed


section \<open>Timers\<close>

lemma refuse_on_hold_fields [simp]:
  "pa_describeOnHold (refuse_on_hold e pa) = []" "pa_readerAddOnHold (refuse_on_hold e pa) = []"
  "path_core (refuse_on_hold e pa) = path_core pa" "pa_conf (refuse_on_hold e pa) = pa_conf pa"
  "pa_staticState (refuse_on_hold e pa) = pa_staticState pa" "pa_stream (refuse_on_hold e pa) = pa_stream pa"
  "pa_publisherState (refuse_on_hold e pa) = pa_publisherState pa" "pa_source (refuse_on_hold e pa) = pa_source pa"
  "pa_onUnDemandHook (refuse_on_hold e pa) = pa_onUnDemandHook pa"
  "pa_publisherReadyTimer (refuse_on_hold e pa) = pa_publisherReadyTimer pa"
  "pa_publisherCloseTimer (refuse_on_hold e pa) = pa_publisherCloseTimer pa"
  "source_ok (refuse_on_hold e pa) = source_ok pa" "stream_ok (refuse_on_hold e pa) = stream_ok pa"
  "readers_ok (refuse_on_hold e pa) = readers_ok pa" "static_ok (refuse_on_hold e pa) = static_ok pa"
  "publisher_ok (refuse_on_hold e pa) = publisher_ok pa"
  by (simp_all add: refuse_on_hold_def path_core_def path_parts)

lemma refuse_on_hold_timer:
  "refuse_on_hold e (pa\<lparr>pa_staticReadyTimer := t\<rparr>) = (refuse_on_hold e pa)\<lparr>pa_staticReadyTimer := t\<rparr>"
  "refuse_on_hold e (pa\<lparr>pa_publisherReadyTimer := t\<rparr>) = (refuse_on_hold e pa)\<lparr>pa_publisherReadyTimer := t\<rparr>"
  by (simp_all add: refuse_on_hold_def refusals_def emit_def)

lemma doOnDemandStaticSourceReadyTimer_ok:
  assumes "path_ok pa" "env_ok pa StaticReadyTimer"
  shows "result_ok (doOnDemandStaticSourceReadyTimer (pa\<lparr>pa_staticReadyTimer := None\<rparr>))"
proof -
  have core: "path_core pa" using assms(1) by (simp add: path_ok_def)
  note parts = path_coreD [OF core]
  have st: "pa_staticState pa = OnDemandWaitingReady"
    using parts(3) assms(2) by (simp add: static_ok_def)
  then have od: "HasOnDemandStaticSource (pa_conf pa)" and none: "pa_stream pa = None"
    using parts(3) by (auto simp: static_ok_def)
  note odp = HasOnDemandStaticSource_parts [OF od]
  let ?pa = "(refuse_on_hold (source_timed_out (pa_name pa)) pa)\<lparr>pa_staticReadyTimer := None\<rparr>"
  have src: "source_ok ?pa" using parts(2) by (simp add: source_ok_def)
  obtain h effs where stop: "onDemandStaticSourceStop ''timed out'' ?pa = Inr (emit effs (?pa
      \<lparr>pa_source := Some (SourceStatic h), pa_staticState := OnDemandInitial,
       pa_staticCloseTimer := (if pa_staticState ?pa = OnDemandClosing then None else pa_staticCloseTimer ?pa)\<rparr>))"
    and h: "\<not> h_running h"
    using static_stop_ok [OF src, of "''timed out''"] st od by auto
  have handler: "doOnDemandStaticSourceReadyTimer (pa\<lparr>pa_staticReadyTimer := None\<rparr>) =
      onDemandStaticSourceStop ''timed out'' ?pa"
    by (simp add: doOnDemandStaticSourceReadyTimer_def refuse_on_hold_timer)
  let ?r = "?pa\<lparr>pa_source := Some (SourceStatic h), pa_staticState := OnDemandInitial,
       pa_staticCloseTimer := (if pa_staticState ?pa = OnDemandClosing then None else pa_staticCloseTimer ?pa)\<rparr>"
  have core': "path_core (refuse_on_hold (source_timed_out (pa_name pa)) pa)" using core by simp
  note parts' = path_coreD [OF core']
  have "path_core ?r"
  proof (rule path_coreI)
    show "conf_valid (pa_conf ?r)" using parts(1) by simp
    show "source_ok ?r" using odp h by (simp add: source_ok_def source_fits_def)
    show "static_ok ?r" using parts'(3) od st none by (auto simp: static_ok_def)
    show "publisher_ok ?r" using parts'(4) by (simp add: publisher_ok_def)
    show "stream_ok ?r" using parts'(5) none by (simp add: stream_ok_def)
    show "readers_ok ?r" using parts'(6) by (simp add: readers_ok_def)
  qed
  then show ?thesis
    unfolding handler stop by (simp add: path_ok_def hold_ok_def)
qed

text \<open>The on-demand publisher is stopped.\<close>

lemma publisher_stopped:
  assumes "pa_onUnDemandHook pa"
  shows "onDemandPublisherStop reason pa = Inr (emit [HookUnDemand reason] (pa
    \<lparr>pa_onUnDemandHook := False, pa_publisherState := OnDemandInitial,
     pa_publisherCloseTimer := (if pa_publisherState pa = OnDemandClosing then None else pa_publisherCloseTimer pa)\<rparr>))"
  using assms by (cases pa) (simp add: onDemandPublisherStop_def)

lemma publisher_stopped_core:
  assumes "path_core pa" "pa_publisherState pa \<noteq> OnDemandInitial"
    and "pa' = pa\<lparr>pa_publisherReadyTimer := None\<rparr> \<and> pa_publisherState pa = OnDemandWaitingReady \<or>
         pa' = pa\<lparr>pa_publisherCloseTimer := None\<rparr> \<and> pa_publisherState pa = OnDemandClosing"
  shows "\<exists>pr. onDemandPublisherStop reason pa' = Inr (emit [HookUnDemand reason] pr) \<and> path_core pr \<and>
    pa_describeOnHold pr = pa_describeOnHold pa \<and> pa_readerAddOnHold pr = pa_readerAddOnHold pa \<and>
    pa_stream pr = pa_stream pa \<and> pa_conf pr = pa_conf pa \<and> pa_staticState pr = pa_staticState pa"
proof -
  note parts = path_coreD [OF assms(1)]
  let ?pr = "pa'\<lparr>pa_onUnDemandHook := False, pa_publisherState := OnDemandInitial,
     pa_publisherCloseTimer := (if pa_publisherState pa' = OnDemandClosing then None else pa_publisherCloseTimer pa')\<rparr>"
  have fields: "pa_conf pa' = pa_conf pa" "pa_onUnDemandHook pa'" "pa_staticState pa' = pa_staticState pa"
    "pa_source pa' = pa_source pa" "pa_stream pa' = pa_stream pa" "pa_readers pa' = pa_readers pa"
    "pa_staticReadyTimer pa' = pa_staticReadyTimer pa" "pa_staticCloseTimer pa' = pa_staticCloseTimer pa"
    "pa_recorder pa' = pa_recorder pa" "pa_live pa' = pa_live pa" "pa_name pa' = pa_name pa"
    "pa_onNotReadyHook pa' = pa_onNotReadyHook pa" "pa_publisherState pa' = pa_publisherState pa"
    "pa_describeOnHold pa' = pa_describeOnHold pa" "pa_readerAddOnHold pa' = pa_readerAddOnHold pa"
    using assms(2,3) parts(4) by (auto simp: publisher_ok_def)
  have "path_core ?pr"
  proof (rule path_coreI)
    show "conf_valid (pa_conf ?pr)" using parts(1) fields by simp
    show "source_ok ?pr" using parts(2) fields by (simp add: source_ok_def)
    show "static_ok ?pr" using parts(3) fields by (simp add: static_ok_def)
    show "publisher_ok ?pr" using parts(4) assms(3) fields by (auto simp: publisher_ok_def)
    show "stream_ok ?pr" using parts(5) fields by (simp add: stream_ok_def)
    show "readers_ok ?pr" using parts(6) fields by (simp add: readers_ok_def)
  qed
  then show ?thesis
    using publisher_stopped [OF fields(2), of reason] fields by (intro exI [of _ ?pr]) simp
qed

lemma doOnDemandPublisherReadyTimer_ok:
  assumes "path_ok pa" "env_ok pa PublisherReadyTimer"
  shows "result_ok (doOnDemandPublisherReadyTimer (pa\<lparr>pa_publisherReadyTimer := None\<rparr>))"
proof -
  let ?pa = "refuse_on_hold (source_timed_out (pa_name pa)) pa"
  have core: "path_core ?pa" using assms(1) by (simp add: path_ok_def)
  have st: "pa_publisherState ?pa = OnDemandWaitingReady"
    using assms by (simp add: path_ok_def path_core_def publisher_ok_def)
  then have ne: "pa_publisherState ?pa \<noteq> OnDemandInitial" by simp
  obtain pr where pr: "onDemandPublisherStop ''timed out'' (?pa\<lparr>pa_publisherReadyTimer := None\<rparr>) =
      Inr (emit [HookUnDemand ''timed out''] pr)" "path_core pr"
    "pa_describeOnHold pr = pa_describeOnHold ?pa" "pa_readerAddOnHold pr = pa_readerAddOnHold ?pa"
    using publisher_stopped_core [OF core ne, of "?pa\<lparr>pa_publisherReadyTimer := None\<rparr>" "''timed out''"] st
    by blast
  have handler: "doOnDemandPublisherReadyTimer (pa\<lparr>pa_publisherReadyTimer := None\<rparr>) =
      onDemandPublisherStop ''timed out'' (?pa\<lparr>pa_publisherReadyTimer := None\<rparr>)"
    by (simp add: doOnDemandPublisherReadyTimer_def refuse_on_hold_timer)
  show ?thesis
    unfolding handler pr(1)
    using pr(2-4) by (simp add: path_ok_def hold_ok_def)
qed

lemma doOnDemandPublisherCloseTimer_ok:
  assumes "path_ok pa" "env_ok pa PublisherCloseTimer"
  shows "result_ok (doOnDemandPublisherCloseTimer (pa\<lparr>pa_publisherCloseTimer := None\<rparr>))"
proof -
  have core: "path_core pa" using assms(1) by (simp add: path_ok_def)
  have st: "pa_publisherState pa = OnDemandClosing"
    using assms by (simp add: path_ok_def path_core_def publisher_ok_def)
  then have ne: "pa_publisherState pa \<noteq> OnDemandInitial" by simp
  obtain pr where pr: "onDemandPublisherStop ''not needed by anyone'' (pa\<lparr>pa_publisherCloseTimer := None\<rparr>) =
      Inr (emit [HookUnDemand ''not needed by anyone''] pr)" "path_core pr"
    "pa_describeOnHold pr = pa_describeOnHold pa" "pa_readerAddOnHold pr = pa_readerAddOnHold pa"
    "pa_stream pr = pa_stream pa" "pa_conf pr = pa_conf pa" "pa_staticState pr = pa_staticState pa"
    using publisher_stopped_core [OF core ne, of "pa\<lparr>pa_publisherCloseTimer := None\<rparr>" "''not needed by anyone''"] st
    by blast
  show ?thesis
    unfolding doOnDemandPublisherCloseTimer_def pr(1)
    using assms(1) pr(2-) by (simp add: path_ok_def hold_ok_def)
qed


section \<open>Publishers\<close>

lemma publisher_no_static:
  assumes "path_core pa" "pa_source pa = Some (SourcePublisher a)"
  shows "\<not> HasStaticSource (pa_conf pa)" "\<not> HasOnDemandStaticSource (pa_conf pa)" "Source (pa_conf pa) \<noteq> ''redirect''"
  using assms
  by (auto simp: path_core_def source_ok_def source_fits_def HasOnDemandStaticSource_def split: if_splits)

lemma source_change_core:
  assumes "path_core pa" "\<not> HasStaticSource (pa_conf pa)" "Source (pa_conf pa) \<noteq> ''redirect''"
    and "src = None \<and> pa_stream pa = None \<or> (\<exists>a. src = Some (SourcePublisher a))"
  shows "path_core (pa\<lparr>pa_source := src\<rparr>)" (is "path_core ?pa")
proof (rule path_coreI)
  note parts = path_coreD [OF assms(1)]
  show "conf_valid (pa_conf ?pa)" using parts(1) by simp
  show "source_ok ?pa" using assms(2-4) by (auto simp: source_ok_def source_fits_def)
  show "static_ok ?pa" using parts(3) by (simp add: static_ok_def)
  show "publisher_ok ?pa" using parts(4) by (simp add: publisher_ok_def)
  show "stream_ok ?pa" using parts(5) assms(4) by (auto simp: stream_ok_def)
  show "readers_ok ?pa" using parts(6) by (simp add: readers_ok_def)
qed

lemma executeRemovePublisher_ok:
  assumes "path_ok pa" "pa_source pa = Some (SourcePublisher a)"
  shows "\<exists>pa'. executeRemovePublisher pa = Inr pa' \<and> path_ok pa' \<and> pa_source pa' = None \<and>
    pa_stream pa' = None \<and> pa_conf pa' = pa_conf pa \<and> pa_live pa' = pa_live pa \<and> pa_name pa' = pa_name pa"
proof -
  have core: "path_core pa" using assms(1) by (simp add: path_ok_def)
  note pub = publisher_no_static [OF core assms(2)]
  show ?thesis
  proof (cases "pa_stream pa")
    case None
    then have "path_core (pa\<lparr>pa_source := None\<rparr>)"
      using source_change_core [OF core pub(1,3)] by simp
    then show ?thesis
      using None assms(1) by (simp add: executeRemovePublisher_def path_ok_def hold_ok_def)
  next
    case (Some st)
    then have stream: "pa_stream pa \<noteq> None" by simp
    have "path_core (not_ready pa\<lparr>pa_source := None\<rparr>)"
      using not_ready_core [OF core pub(2)] pub source_change_core [of "not_ready pa"] by simp
    moreover have "(emit effs (not_ready pa))\<lparr>pa_source := None\<rparr> = emit effs (not_ready pa\<lparr>pa_source := None\<rparr>)" for effs
      by (simp add: emit_def)
    ultimately show ?thesis
      using Some stream_of_path [OF assms(1) stream]
      by (simp add: executeRemovePublisher_def setNotReady_ok path_ok_def hold_ok_def)
  qed
qed

lemma path_ok_take:
  assumes "path_ok pa" "Source (pa_conf pa) = ''publisher''"
  shows "path_ok (pa\<lparr>pa_source := Some (SourcePublisher a), pa_publisherQuery := q\<rparr>)"
proof -
  have core: "path_core pa" using assms(1) by (simp add: path_ok_def)
  have "path_core (pa\<lparr>pa_source := Some (SourcePublisher a)\<rparr>)"
    using source_change_core [OF core] assms(2) by (simp add: HasStaticSource_def)
  then show ?thesis
    using assms(1) by (simp add: path_ok_def hold_ok_def path_core_def path_parts)
qed

lemma doAddPublisher_ok:
  assumes "path_ok pa"
  shows "result_ok (doAddPublisher rid a q pa)"
proof (cases "Source (pa_conf pa) = ''publisher'' \<and> pa_source pa \<noteq> None \<and> OverridePublisher (pa_conf pa)")
  case True
  then obtain old where old: "pa_source pa = Some (SourcePublisher old)"
    using assms by (auto simp: path_ok_def path_core_def source_ok_def source_fits_def HasStaticSource_def
        split: option.splits path_source.splits)
  have emitted: "path_ok (emit [ClosePublisher old] pa)" using assms by simp
  obtain pa' where "executeRemovePublisher (emit [ClosePublisher old] pa) = Inr pa'" "path_ok pa'"
    "pa_conf pa' = pa_conf pa"
    using executeRemovePublisher_ok [OF emitted, of old] old by auto
  then show ?thesis
    using True old path_ok_take [where pa = pa' and a = a and q = q] by (simp add: doAddPublisher_def)
next
  case False
  then show ?thesis
    using assms path_ok_take [where pa = pa and a = a and q = q] by (auto simp: doAddPublisher_def split: option.split)
qed

lemma doRemovePublisher_ok:
  assumes "path_ok pa" "env_ok pa (RemovePublisher rid a srv)"
  shows "result_ok (doRemovePublisher rid a srv pa)"
proof -
  obtain pa' where pa': "(if pa_source pa = Some (SourcePublisher a) then executeRemovePublisher pa else Inr pa) = Inr pa'"
    "path_ok pa'" "pa_live pa' = pa_live pa" "pa_name pa' = pa_name pa"
    using executeRemovePublisher_ok [OF assms(1), of a] assms(1)
    by (cases "pa_source pa = Some (SourcePublisher a)") auto
  have "snd (StopPublishToTranscoder (pa_process pa') srv (GetLiveStreamInstance (pa_name pa') (pa_live pa'))) \<noteq> Inl Panic"
    using assms(2) pa'(3,4) by (simp add: StopPublishToTranscoder_panic GetLiveStreamInstance_def)
  then show ?thesis
    unfolding doRemovePublisher_def pa'(1) using pa'(2) by (simp add: case_prod_unfold)
qed

lemma doStopPublisher_ok:
  assumes "path_ok pa"
  shows "result_ok (doStopPublisher rid a pa)"
proof (cases "pa_source pa = Some (SourcePublisher a) \<and> pa_stream pa \<noteq> None")
  case True
  have core: "path_core pa" using assms by (simp add: path_ok_def)
  have stream: "pa_stream pa \<noteq> None" using True by simp
  show ?thesis
    using True not_ready_core [OF core] not_ready_hold [OF assms stream] stream_of_path(1) [OF assms stream]
      publisher_no_static(2) [OF core]
    by (simp add: doStopPublisher_def setNotReady_ok path_ok_def)
next
  case False
  then show ?thesis
    using assms by (auto simp: doStopPublisher_def)
qed


lemma doStartPublisher_ok:
  assumes "path_ok pa" "env_ok pa (StartPublisher rid a srv err)"
  shows "result_ok (doStartPublisher rid a srv err pa)"
proof (cases "pa_source pa = Some (SourcePublisher a)")
  case True
  have core: "path_core pa" using assms(1) by (simp add: path_ok_def)
  note parts = path_coreD [OF core] and pub = publisher_no_static [OF core True]
  have none: "pa_stream pa = None" "pa_readers pa = []" "\<not> pa_recorder pa"
    using assms(2) True parts(5) by (auto simp: stream_ok_def)
  obtain e pa1 where ready: "setReady srv err pa = Inr (e, pa1)"
    and pa1: "case e of
       Some _ \<Rightarrow> path_ok pa1
     | None \<Rightarrow> \<exists>live sent. live (pa_name pa) \<noteq> None \<and> pa1 = becomes_ready live sent pa"
    using setReady_ok [OF assms(1), of srv err] assms(2) True by auto
  show ?thesis
  proof (cases e)
    case (Some x)
    then show ?thesis using True ready pa1 by (simp add: doStartPublisher_def)
  next
    case None
    then obtain live sent where live: "live (pa_name pa) \<noteq> None" "pa1 = becomes_ready live sent pa"
      using pa1 by auto
    define pa2 where "pa2 = (if HasOnDemandPublisher (pa_conf pa1) \<and> pa_publisherState pa1 \<noteq> OnDemandInitial
        then onDemandPublisherScheduleClose (pa1\<lparr>pa_publisherReadyTimer := None\<rparr>) else pa1)"
    note defs = pa2_def live(2) onDemandPublisherScheduleClose_def
    have "path_core pa2"
    proof (rule path_coreI)
      show "conf_valid (pa_conf pa2)" using parts(1) by (simp add: defs)
      show "source_ok pa2" using parts(2) by (simp add: defs source_ok_def)
      show "static_ok pa2" using parts(3) pub by (auto simp: defs static_ok_def)
      show "publisher_ok pa2" using parts(4) by (auto simp: defs publisher_ok_def)
      show "stream_ok pa2" using live(1) none True by (simp add: defs stream_ok_def)
      show "readers_ok pa2" using none by (simp add: defs readers_ok_def)
    qed
    moreover have "pa_stream pa2 \<noteq> None" by (simp add: defs)
    ultimately show ?thesis
      using consumeOnHoldRequests_ok [of pa2] ready None True
      by (simp add: doStartPublisher_def pa2_def [symmetric])
  qed
next
  case False
  then show ?thesis using assms(1) by (simp add: doStartPublisher_def)
qed

section \<open>Readers, configuration and the start\<close>

lemma doRemoveReader_ok:
  assumes "path_ok pa"
  shows "path_ok (doRemoveReader rid a pa)"
proof -
  have core: "path_core pa" using assms by (simp add: path_ok_def)
  note parts = path_coreD [OF core]
  let ?rs = "if a \<in> set (pa_readers pa) then remove1 a (pa_readers pa) else pa_readers pa"
  let ?pa = "doRemoveReader rid a pa"
  note defs = doRemoveReader_def executeRemoveReader_def onDemandStaticSourceScheduleClose_def
    onDemandPublisherScheduleClose_def Let_def
  have length: "length ?rs \<le> length (pa_readers pa)"
    by (simp add: length_remove1)
  have "path_core ?pa"
  proof (rule path_coreI)
    show "conf_valid (pa_conf ?pa)" using parts(1) by (simp add: defs)
    show "source_ok ?pa"
      using parts(2) source_fits_state [of OnDemandClosing OnDemandReady] by (auto simp: defs source_ok_def)
    show "static_ok ?pa"
      using parts(3) by (cases "pa_staticState pa") (auto simp: defs static_ok_def)
    show "publisher_ok ?pa"
      using parts(4) by (cases "pa_publisherState pa") (auto simp: defs publisher_ok_def)
    show "stream_ok ?pa" using parts(5) by (auto simp: defs stream_ok_def)
    show "readers_ok ?pa" using parts(6) length by (auto simp: defs readers_ok_def)
  qed
  moreover have "hold_ok ?pa"
    using assms parts(5) by (auto simp: defs path_ok_def hold_ok_def stream_ok_def)
  ultimately show ?thesis by (simp add: path_ok_def)
qed

lemma reload_source_ok:
  assumes "path_ok pa" "pathConfCanBeUpdated (pa_conf pa) c"
  shows "\<exists>src effs. (if HasStaticSource c then reload_source c (pa\<lparr>pa_conf := c\<rparr>) else Inr (pa\<lparr>pa_conf := c\<rparr>)) =
      Inr (emit effs (pa\<lparr>pa_conf := c, pa_source := src\<rparr>)) \<and>
    source_fits c (pa_staticState pa) src \<and> (src = None) = (pa_source pa = None) \<and>
    (src = Some SourceRedirection) = (pa_source pa = Some SourceRedirection)"
proof -
  note same = updatable_same [OF assms(2)]
  have fits: "source_fits (pa_conf pa) (pa_staticState pa) (pa_source pa)"
    using assms(1) by (simp add: path_ok_def path_core_def source_ok_def)
  show ?thesis
  proof (cases "HasStaticSource c")
    case True
    then obtain h where h: "pa_source pa = Some (SourceStatic h)"
      "h_running h = (\<not> SourceOnDemand (pa_conf pa) \<or> pa_staticState pa \<noteq> OnDemandInitial)"
      using fits same static_source_cases [of pa] by (auto simp: source_ok_def)
    have static: "HasStaticSource (pa_conf pa)" "Source (pa_conf pa) \<noteq> ''redirect''"
      using True same by (auto simp: HasStaticSource_def)
    show ?thesis
    proof (cases "h_running h")
      case run: True
      then show ?thesis
        using True h static same
        by (intro exI [of _ "Some (SourceStatic (h\<lparr>h_conf := c\<rparr>))"] exI [of _ "[SourceReload c]"])
          (simp add: reload_source_def handler_reloadConf_def source_fits_def emit_def)
    next
      case stopped: False
      then show ?thesis
        using True h static same
        by (intro exI [of _ "pa_source pa"] exI [of _ "[]"])
          (cases pa, simp add: reload_source_def handler_reloadConf_def source_fits_def emit_def)
    qed
  next
    case False
    then show ?thesis
      using fits same
      by (intro exI [of _ "pa_source pa"] exI [of _ "[]"]) (cases pa, simp add: source_fits_def emit_def)
  qed
qed

lemma doReloadConf_ok:
  assumes "path_ok pa" "env_ok pa (ReloadConf c)"
  shows "result_ok (doReloadConf c pa)"
proof -
  have up: "pathConfCanBeUpdated (pa_conf pa) c" using assms(2) by simp
  note same = updatable_same [OF up]
  have core: "path_core pa" using assms(1) by (simp add: path_ok_def)
  note parts = path_coreD [OF core]
  obtain src effs where src: "(if HasStaticSource c then reload_source c (pa\<lparr>pa_conf := c\<rparr>) else Inr (pa\<lparr>pa_conf := c\<rparr>)) =
      Inr (emit effs (pa\<lparr>pa_conf := c, pa_source := src\<rparr>))"
    and fits: "source_fits c (pa_staticState pa) src" "(src = None) = (pa_source pa = None)"
    "(src = Some SourceRedirection) = (pa_source pa = Some SourceRedirection)"
    using reload_source_ok [OF assms(1) up] by (elim exE conjE) (rule that)
  let ?pa = "emit effs (pa\<lparr>pa_conf := c, pa_source := src\<rparr>)"
  define pr where "pr = (if Record c then
       (if pa_stream ?pa \<noteq> None \<and> \<not> pa_recorder ?pa then startRecording ?pa else ?pa) else closeRecorder ?pa)"
  have result: "doReloadConf c pa = Inr pr"
    by (simp add: doReloadConf_def src pr_def)
  note defs = pr_def startRecording_def closeRecorder_def
  have "path_core pr"
  proof (rule path_coreI)
    show "conf_valid (pa_conf pr)" using parts(1) same by (simp add: defs conf_valid_def)
    show "source_ok pr" using fits(1) by (simp add: defs source_ok_def)
    show "static_ok pr" using parts(3) same by (auto simp: defs static_ok_def)
    show "publisher_ok pr" using parts(4) same by (simp add: defs publisher_ok_def)
    show "stream_ok pr" using parts(5) fits(2,3) by (auto simp: defs stream_ok_def)
    show "readers_ok pr" using parts(6) same by (simp add: defs readers_ok_def)
  qed
  moreover have "hold_ok pr"
    using assms(1) same by (simp add: defs path_ok_def hold_ok_def)
  ultimately show ?thesis by (simp add: result path_ok_def)
qed

text \<open>One handler for each event.\<close>

lemma handle_ok:
  assumes "path_ok pa" "env_ok pa ev"
  shows "result_ok (handle ev pa)"
proof (cases ev)
  case (APIPathsGet rid)
  then show ?thesis using assms(1) by (simp add: doAPIPathsGet_def)
qed (use assms doOnDemandStaticSourceReadyTimer_ok doOnDemandStaticSourceCloseTimer_ok doOnDemandPublisherReadyTimer_ok
    doOnDemandPublisherCloseTimer_ok doReloadConf_ok doSourceStaticSetReady_ok doSourceStaticSetNotReady_ok
    doDescribe_ok doAddPublisher_ok doRemovePublisher_ok doStartPublisher_ok doStopPublisher_ok doAddReader_ok
    doRemoveReader_ok in \<open>simp_all del: env_ok.simps\<close>)


section \<open>Reachable states\<close>

text \<open>A path as the path manager starts it: with a validated configuration whose static source the handler knows.\<close>

definition start_ok :: "path \<Rightarrow> bool" where
  "start_ok pa =
     (\<exists>c nm ms pe live. pa = path_initialize c nm ms pe live \<and> conf_valid c \<and>
        (HasStaticSource c \<longrightarrow> source_kind_of (Source c) \<noteq> None))"

inductive path_reach :: "path \<Rightarrow> path \<Rightarrow> bool" for pa0 where
  reach_begin: "run_begin pa0 = Inr pa \<Longrightarrow> path_reach pa0 pa"
| reach_turn: "path_reach pa0 pa \<Longrightarrow> env_ok pa ev \<Longrightarrow> path_turn ev pa = Inr (pa', exit) \<Longrightarrow> path_reach pa0 pa'"

lemma run_begin_ok:
  assumes "start_ok pa0"
  shows "result_ok (run_begin pa0)"
proof -
  obtain c nm ms pe live where pa0: "pa0 = path_initialize c nm ms pe live" and valid: "conf_valid c"
    and known: "HasStaticSource c \<longrightarrow> source_kind_of (Source c) \<noteq> None"
    using assms by (auto simp: start_ok_def)
  consider (redirect) "Source c = ''redirect''" | (static) "HasStaticSource c" | (publisher) "Source c = ''publisher''"
    by (auto simp: HasStaticSource_def)
  then show ?thesis
  proof cases
    case redirect
    then show ?thesis
      using valid by (simp add: pa0 run_begin_def path_initialize_def path_ok_def hold_ok_def path_core_def path_parts
          source_fits_def HasOnDemandStaticSource_def HasStaticSource_def)
  next
    case static
    then obtain k where "source_kind_of (Source c) = Some k" "Source c \<noteq> ''redirect''"
      using known by (auto simp: HasStaticSource_def)
    then show ?thesis
      using valid static
      by (simp add: pa0 run_begin_def handler_initialize_def new_handler_def path_initialize_def path_ok_def
          hold_ok_def path_core_def path_parts source_fits_def HasOnDemandStaticSource_def with_handler_def
          handler_start_def Let_def)
  next
    case publisher
    then show ?thesis
      using valid by (simp add: pa0 run_begin_def path_initialize_def path_ok_def hold_ok_def path_core_def path_parts
          source_fits_def HasOnDemandStaticSource_def HasStaticSource_def)
  qed
qed

lemma path_turn_ok:
  assumes "path_ok pa" "env_ok pa ev"
  shows "\<exists>pa' exit. path_turn ev pa = Inr (pa', exit) \<and> path_ok pa'"
  using handle_ok [OF assms] by (cases "handle ev pa") (simp_all add: result_ok_def path_turn_def)

lemma path_reach_ok:
  assumes "start_ok pa0" "path_reach pa0 pa"
  shows "path_ok pa"
  using assms(2)
proof induction
  case (reach_begin pa)
  then show ?case using run_begin_ok [OF assms(1)] by simp
next
  case (reach_turn pa ev pa' exit)
  then show ?case using path_turn_ok [of pa ev] by auto
qed

text \<open>
  C2. The invariant of a path. In every state that a path reaches with a validated configuration and an environment
  that keeps its side, its source is the one of its configuration, a static source runs exactly while it is needed,
  the timers are armed exactly in the states that wait for them, readers are there only while there is a stream and
  within the limit, recording follows the configuration, and requests wait only for a stream that may still come.
\<close>

theorem path_invariant:
  assumes "start_ok pa0" "path_reach pa0 pa"
  shows "path_ok pa"
  using assms by (rule path_reach_ok)

end
