(* ===== verification/PathProperties.thy ===== *)
theory PathProperties
  imports PathInvariant
begin

text \<open>
  What follows from the invariant of a path for those who use it: no event makes it panic, the end of its
  goroutine releases everything, requests that wait for a static source time out; and the
  situations in which the code fails those who use it, each with the run that leads there.
\<close>

section \<open>Executable runs\<close>

text \<open>A run that checks the side of the environment at every event.\<close>

fun trace :: "path_event list \<Rightarrow> path \<Rightarrow> path result" where
  "trace [] pa = Inr pa"
| "trace (ev # evs) pa =
     (if env_ok pa ev then bindE (path_turn ev pa) (\<lambda>(pa1, _). trace evs pa1) else Inl (External 0))"

lemma trace_reach:
  assumes "path_reach pa0 pa" "trace evs pa = Inr pa'"
  shows "path_reach pa0 pa'"
  using assms
proof (induction evs arbitrary: pa)
  case (Cons ev evs)
  then obtain pa1 exit where "env_ok pa ev" "path_turn ev pa = Inr (pa1, exit)" "trace evs pa1 = Inr pa'"
    by (auto simp: bindE_eq_Inr split: if_splits)
  then show ?case
    using Cons.IH [of pa1] Cons.prems(1) reach_turn by blast
qed simp

definition trace_from_start :: "path_event list \<Rightarrow> path \<Rightarrow> path result" where
  "trace_from_start evs pa0 = bindE (run_begin pa0) (trace evs)"

lemma trace_from_start_reach: "trace_from_start evs pa0 = Inr pa \<Longrightarrow> path_reach pa0 pa"
  by (auto simp: trace_from_start_def bindE_eq_Inr intro: trace_reach reach_begin)

lemma sample_start: "conf_valid c \<Longrightarrow> Source c = ''publisher'' \<Longrightarrow> start_ok (sample_path c)"
  unfolding start_ok_def sample_path_def by (intro exI conjI) (auto simp: HasStaticSource_def)

lemma on_demand_conf_valid: "conf_valid on_demand_conf" "Source on_demand_conf = ''publisher''"
  by (simp_all add: conf_valid_def on_demand_conf_def setDefaults_def HasStaticSource_def zero_conf_def)

section \<open>No panic, and the end\<close>

lemma close_source_ok:
  assumes "source_ok pa"
  shows "\<exists>src effs. close_source pa = Inr (emit effs (pa\<lparr>pa_source := src\<rparr>)) \<and>
    \<not> static_running (pa\<lparr>pa_source := src\<rparr>) \<and>
    (\<forall>a. pa_source pa = Some (SourcePublisher a) \<longrightarrow> ClosePublisher a \<in> set effs)"
proof -
  have id: "pa = emit [] (pa\<lparr>pa_source := pa_source pa\<rparr>)" by (simp add: emit_def)
  show ?thesis
  proof (cases "HasStaticSource (pa_conf pa)")
    case True
    then obtain h where h: "pa_source pa = Some (SourceStatic h)"
      "h_running h = (\<not> SourceOnDemand (pa_conf pa) \<or> pa_staticState pa \<noteq> OnDemandInitial)"
      using static_source_cases [OF assms] by blast
    show ?thesis
    proof (cases "h_running h")
      case run: True
      then show ?thesis
        using h by (intro exI [of _ "Some (SourceStatic (h\<lparr>h_running := False\<rparr>))"]
            exI [of _ "[SourceStopped ''path is closing'']"])
          (simp add: close_source_def with_handler_static handler_stop_def static_running_def)
    next
      case False
      then show ?thesis
        using h id by (intro exI [of _ "pa_source pa"] exI [of _ "[]"])
          (simp add: close_source_def static_running_def)
    qed
  next
    case False
    then consider "pa_source pa = None" | "pa_source pa = Some SourceRedirection"
      | a where "pa_source pa = Some (SourcePublisher a)"
      using assms by (auto simp: source_ok_def source_fits_def split: if_splits option.splits path_source.splits)
    then show ?thesis
    proof cases
      case (3 a)
      then show ?thesis
        by (intro exI [of _ "pa_source pa"] exI [of _ "[ClosePublisher a]"])
          (cases pa, simp add: close_source_def static_running_def emit_def)
    qed (use id in \<open>auto simp: close_source_def static_running_def intro!: exI [of _ "[]"] exI [of _ "pa_source pa"]\<close>)
  qed
qed

lemma run_end_ok:
  assumes "path_ok pa"
  shows "\<exists>pe effs. run_end pa = Inr pe \<and> pa_stream pe = None \<and> pa_readers pe = [] \<and> \<not> pa_recorder pe \<and>
    \<not> static_running pe \<and> pa_out pe = pa_out pa @ effs \<and>
    (\<forall>r \<in> set (pa_readers pa). CloseReader r \<in> set effs) \<and>
    (\<forall>s. pa_stream pa = Some s \<longrightarrow> StreamClosed s \<in> set effs) \<and>
    (\<forall>a. pa_source pa = Some (SourcePublisher a) \<longrightarrow> ClosePublisher a \<in> set effs) \<and>
    (pa_onUnDemandHook pa \<longrightarrow> HookUnDemand ''path destroyed'' \<in> set effs)"
proof -
  have core: "path_core pa" using assms by (simp add: path_ok_def)
  note parts = path_coreD [OF core]
  let ?pa1 = "emit [ParentClose] pa"
  let ?pa2 = "?pa1\<lparr>pa_staticReadyTimer := None, pa_staticCloseTimer := None,
                   pa_publisherReadyTimer := None, pa_publisherCloseTimer := None\<rparr>"
  let ?pa3 = "emit (HookUnInit # refusals terminated ?pa2) ?pa2"
  define closing where "closing = (if pa_stream pa = None then [] else not_ready_effects ?pa3)"
  obtain pa4 where pa4: "(if pa_stream ?pa3 \<noteq> None then setNotReady ?pa3 else Inr ?pa3) = Inr pa4"
    "pa_out pa4 = pa_out ?pa3 @ closing" "pa_stream pa4 = None" "pa_readers pa4 = []" "\<not> pa_recorder pa4"
    "pa_source pa4 = pa_source pa" "pa_conf pa4 = pa_conf pa" "pa_staticState pa4 = pa_staticState pa"
    "pa_onUnDemandHook pa4 = pa_onUnDemandHook pa"
  proof (cases "pa_stream pa")
    case None
    then show ?thesis using that [of ?pa3] parts(5) by (simp add: closing_def stream_ok_def)
  next
    case (Some s)
    then show ?thesis
      using that [of "emit (not_ready_effects ?pa3) (not_ready ?pa3)"] parts(5)
      by (simp add: closing_def stream_ok_def setNotReady_ok not_ready_def)
  qed
  have closed: "\<forall>r \<in> set (pa_readers pa). CloseReader r \<in> set closing"
    "\<forall>s. pa_stream pa = Some s \<longrightarrow> StreamClosed s \<in> set closing"
    using parts(5) by (auto simp: closing_def not_ready_effects_def stream_ok_def)
  have "source_ok pa4"
    using parts(2) pa4(6-8) by (simp add: source_ok_def)
  then obtain src effs5 where close: "close_source pa4 = Inr (emit effs5 (pa4\<lparr>pa_source := src\<rparr>))"
    "\<not> static_running (pa4\<lparr>pa_source := src\<rparr>)"
    "\<forall>a. pa_source pa4 = Some (SourcePublisher a) \<longrightarrow> ClosePublisher a \<in> set effs5"
    using close_source_ok by blast
  define pa5 where "pa5 = emit effs5 (pa4\<lparr>pa_source := src\<rparr>)"
  have pa5: "close_source pa4 = Inr pa5" "pa_out pa5 = pa_out pa4 @ effs5"
    "pa_stream pa5 = None" "pa_readers pa5 = []" "\<not> pa_recorder pa5" "\<not> static_running pa5"
    "pa_onUnDemandHook pa5 = pa_onUnDemandHook pa"
    "\<forall>a. pa_source pa = Some (SourcePublisher a) \<longrightarrow> ClosePublisher a \<in> set effs5"
    using close pa4 by (simp_all add: pa5_def static_running_def)
  let ?pe = "if pa_onUnDemandHook pa5 then emit [HookUnDemand ''path destroyed''] pa5 else pa5"
  have "run_end pa = Inr ?pe"
    unfolding run_end_def Let_def pa4(1) by (simp add: pa5(1))
  moreover have "\<not> static_running ?pe"
    using pa5(6) by (simp add: static_running_def)
  ultimately show ?thesis
    using pa4(2) pa5 closed by (intro exI [of _ ?pe]) auto
qed




text \<open>A session on a path with an on-demand publisher, up to a reader that reads.\<close>

definition reading_events :: "path_event list" where
  "reading_events =
     [Describe (sample_describe 1), AddReader (sample_reader 2 7), AddPublisher 3 9 [],
      StartPublisher 4 9 good_server None]"

definition path_view :: "path result \<Rightarrow> (nat list \<times> nat option \<times> on_demand_state) option" where
  "path_view r =
     (case r of Inl e \<Rightarrow> None | Inr pa \<Rightarrow> Some (pa_readers pa, pa_stream pa, pa_publisherState pa))"

lemma path_view_Some: "path_view r = Some v \<Longrightarrow> \<exists>pa. r = Inr pa \<and> v = (pa_readers pa, pa_stream pa, pa_publisherState pa)"
  by (auto simp: path_view_def split: sum.splits)

lemma reading_view:
  "path_view (trace_from_start reading_events (sample_path on_demand_conf)) = Some ([7], Some 0, OnDemandReady)"
  by code_simp

lemma path_invariant_witness:
  "\<exists>pa. path_reach (sample_path on_demand_conf) pa \<and> pa_readers pa = [7] \<and> path_ok pa"
proof -
  obtain pa where pa: "trace_from_start reading_events (sample_path on_demand_conf) = Inr pa" "pa_readers pa = [7]"
    using path_view_Some [OF reading_view] by auto
  then show ?thesis
    using path_invariant [OF sample_start [OF on_demand_conf_valid] trace_from_start_reach [OF pa(1)]]
      trace_from_start_reach [OF pa(1)] by blast
qed


text \<open>
  The end of a path releases what it holds. From every reachable state, \<open>run\<close> ends with no stream, no reader, no
  recorder and no running static source; it closes each reader, the stream and the publisher that were there, and takes
  back the demand for a publisher.
\<close>

theorem path_end_releases:
  assumes "start_ok pa0" "path_reach pa0 pa"
  shows "\<exists>pe effs. run_end pa = Inr pe \<and> pa_stream pe = None \<and> pa_readers pe = [] \<and> \<not> pa_recorder pe \<and>
    \<not> static_running pe \<and> pa_out pe = pa_out pa @ effs \<and>
    (\<forall>r \<in> set (pa_readers pa). CloseReader r \<in> set effs) \<and>
    (\<forall>s. pa_stream pa = Some s \<longrightarrow> StreamClosed s \<in> set effs) \<and>
    (\<forall>a. pa_source pa = Some (SourcePublisher a) \<longrightarrow> ClosePublisher a \<in> set effs) \<and>
    (pa_onUnDemandHook pa \<longrightarrow> HookUnDemand ''path destroyed'' \<in> set effs)"
  using run_end_ok [OF path_reach_ok [OF assms]] .

lemma path_end_releases_witness:
  "\<exists>pa pe. path_reach (sample_path on_demand_conf) pa \<and> pa_readers pa = [7] \<and> run_end pa = Inr pe \<and>
     CloseReader 7 \<in> set (pa_out pe)"
proof -
  obtain pa where pa: "trace_from_start reading_events (sample_path on_demand_conf) = Inr pa" "pa_readers pa = [7]"
    using path_view_Some [OF reading_view] by auto
  then show ?thesis
    using path_end_releases [OF sample_start [OF on_demand_conf_valid] trace_from_start_reach [OF pa(1)]]
      trace_from_start_reach [OF pa(1)] by auto
qed

section \<open>Requests that wait\<close>

text \<open>
  C24. Who waits for an on-demand static source is answered. In every reachable state with requests on hold, the timer of
  the start is armed; when it fires, each of them is told that the source has timed out, none is left, and the source is
  stopped.
\<close>

theorem static_requests_time_out:
  assumes "start_ok pa0" "path_reach pa0 pa" "HasOnDemandStaticSource (pa_conf pa)" "held pa \<noteq> {#}"
  shows "pa_staticReadyTimer pa \<noteq> None \<and>
    (\<exists>pa' exit. path_turn StaticReadyTimer pa = Inr (pa', exit) \<and> held pa' = {#} \<and> \<not> static_running pa' \<and>
       pa_out pa' = pa_out pa @ refusals (source_timed_out (pa_name pa)) pa @ [SourceStopped ''timed out''])"
proof -
  have ok: "path_ok pa" using assms(1,2) by (rule path_reach_ok)
  then have core: "path_core pa" and hold: "hold_ok pa" by (simp_all add: path_ok_def)
  note parts = path_coreD [OF core] and od = HasOnDemandStaticSource_parts [OF assms(3)]
  have "\<not> HasOnDemandPublisher (pa_conf pa)"
    using parts(1) od by (auto simp: conf_valid_def)
  then have st: "pa_staticState pa = OnDemandWaitingReady"
    using hold assms(4) by (auto simp: hold_ok_def held_def)
  then have armed: "pa_staticReadyTimer pa \<noteq> None"
    using parts(3) by (simp add: static_ok_def)
  obtain h where h: "pa_source pa = Some (SourceStatic h)" "h_running h"
    using parts(2) od st by (auto elim!: static_source_cases)
  then show ?thesis
    using armed st
    by (simp add: path_turn_def doOnDemandStaticSourceReadyTimer_def onDemandStaticSourceStop_def refuse_on_hold_def
        refusals_def with_handler_def handler_stop_def held_def static_running_def)
qed

text \<open>A camera that is never reached.\<close>

definition on_demand_camera :: path_conf where
  "on_demand_camera = camera_conf\<lparr>Name := ''live/cam''\<rparr>"

lemma camera_start: "start_ok (sample_path on_demand_camera)"
  unfolding start_ok_def sample_path_def
  by (intro exI conjI) (auto simp: on_demand_camera_def camera_conf_def setDefaults_def zero_conf_def conf_valid_def
      HasOnDemandPublisher_def source_kind_of_def HasAnyPrefix_def)

lemma camera_waits:
  "map_sum id (\<lambda>pa. (pa_describeOnHold pa, pa_conf pa))
     (trace_from_start [Describe (sample_describe 1)] (sample_path on_demand_camera)) =
   Inr ([sample_describe 1], on_demand_camera)"
  by code_simp

lemma static_requests_time_out_witness:
  "\<exists>pa pa' exit. path_reach (sample_path on_demand_camera) pa \<and> held pa \<noteq> {#} \<and>
     path_turn StaticReadyTimer pa = Inr (pa', exit) \<and> held pa' = {#}"
proof -
  obtain pa where pa: "trace_from_start [Describe (sample_describe 1)] (sample_path on_demand_camera) = Inr pa"
    "pa_describeOnHold pa = [sample_describe 1]" "pa_conf pa = on_demand_camera"
    using camera_waits by auto
  have "HasOnDemandStaticSource (pa_conf pa)" "held pa \<noteq> {#}"
    by (simp_all add: pa held_def on_demand_camera_def camera_conf_def HasOnDemandStaticSource_def HasStaticSource_def)
  then show ?thesis
    using static_requests_time_out [OF camera_start trace_from_start_reach [OF pa(1)]]
      trace_from_start_reach [OF pa(1)] by blast
qed


text \<open>
  Who waits for an on-demand publisher may wait for ever. When the publisher left while the path was about to
  close, requests are put on hold without a new start; the timer of the closing then fires, takes the demand back and leaves
  the requests on hold, with no timer armed: nothing that the path does by itself will answer them.
\<close>

theorem publisher_requests_starve:
  assumes "start_ok pa0" "path_reach pa0 pa" "pa_publisherState pa = OnDemandClosing" "held pa \<noteq> {#}"
  shows "\<exists>pa'. path_turn PublisherCloseTimer pa = Inr (pa', None) \<and> held pa' = held pa \<and>
    pa_publisherState pa' = OnDemandInitial \<and> pa_stream pa' = None \<and>
    pa_staticReadyTimer pa' = None \<and> pa_staticCloseTimer pa' = None \<and>
    pa_publisherReadyTimer pa' = None \<and> pa_publisherCloseTimer pa' = None"
proof -
  have ok: "path_ok pa" using assms(1,2) by (rule path_reach_ok)
  then have core: "path_core pa" and hold: "hold_ok pa" by (simp_all add: path_ok_def)
  note parts = path_coreD [OF core]
  have hook: "pa_onUnDemandHook pa" and od: "HasOnDemandPublisher (pa_conf pa)" and t: "pa_publisherReadyTimer pa = None"
    using parts(4) assms(3) by (auto simp: publisher_ok_def)
  have "\<not> HasOnDemandStaticSource (pa_conf pa)"
    using parts(1) od by (auto simp: conf_valid_def dest: HasOnDemandStaticSource_parts)
  then have "pa_staticReadyTimer pa = None" "pa_staticCloseTimer pa = None"
    using parts(3) by (auto simp: static_ok_def)
  moreover have "pa_stream pa = None"
    using hold assms(4) by (auto simp: hold_ok_def held_def)
  ultimately show ?thesis
    using hook t assms(3)
    by (simp add: path_turn_def doOnDemandPublisherCloseTimer_def onDemandPublisherStop_def held_def)
qed

text \<open>A publisher that comes, goes before anyone reads, and is asked for again.\<close>

definition starving_events :: "path_event list" where
  "starving_events =
     [Describe (sample_describe 1), AddPublisher 2 9 [], StartPublisher 3 9 good_server None,
      RemovePublisher 4 9 good_server, Describe (sample_describe 5)]"

lemma starving_view:
  "map_sum id (\<lambda>pa. (pa_describeOnHold pa, pa_publisherState pa))
     (trace_from_start starving_events (sample_path on_demand_conf)) =
   Inr ([sample_describe 5], OnDemandClosing)"
  by code_simp

lemma publisher_requests_starve_witness:
  "\<exists>pa pa'. path_reach (sample_path on_demand_conf) pa \<and> held pa \<noteq> {#} \<and>
     path_turn PublisherCloseTimer pa = Inr (pa', None) \<and> held pa' = held pa \<and> pa_publisherReadyTimer pa' = None"
proof -
  obtain pa where pa: "trace_from_start starving_events (sample_path on_demand_conf) = Inr pa"
    "pa_describeOnHold pa = [sample_describe 5]" "pa_publisherState pa = OnDemandClosing"
    using starving_view by auto
  have "held pa \<noteq> {#}" by (simp add: pa held_def)
  then show ?thesis
    using publisher_requests_starve [OF sample_start [OF on_demand_conf_valid] trace_from_start_reach [OF pa(1)] pa(3)]
      trace_from_start_reach [OF pa(1)] by blast
qed

section \<open>Panics and stale requests\<close>

text \<open>
  A publisher that leaves a path to which no one has ever started to publish brings the server down: there is no
  live stream instance, and the handler reads the fields of the nil pointer that it was given instead.
\<close>

theorem unpublished_remove_panics:
  assumes "start_ok pa0" "path_reach pa0 pa" "pa_live pa (pa_name pa) = None"
  shows "path_turn (RemovePublisher rid a srv) pa = Inl Panic"
proof -
  have "path_ok pa" using assms(1,2) by (rule path_reach_ok)
  then have none: "pa_stream pa = None"
    using assms(3) by (auto simp: path_ok_def path_core_def stream_ok_def)
  have "snd (StopPublishToTranscoder (pa_process pa) srv None) = Inl Panic"
    by (simp add: StopPublishToTranscoder_def)
  then show ?thesis
    using none assms(3)
    by (simp add: path_turn_def doRemovePublisher_def executeRemovePublisher_def GetLiveStreamInstance_def
        case_prod_unfold)
qed

definition plain_conf :: path_conf where
  "plain_conf = (setDefaults zero_conf)\<lparr>Name := ''live/cam''\<rparr>"

lemma plain_conf_valid: "conf_valid plain_conf" "Source plain_conf = ''publisher''"
  by (simp_all add: conf_valid_def plain_conf_def setDefaults_def HasStaticSource_def zero_conf_def HasOnDemandPublisher_def)

text \<open>A client that connects, is accepted as a publisher, and leaves before it has described its tracks.\<close>

lemma unpublished_view:
  "map_sum id (\<lambda>pa. (pa_source pa, pa_live pa (pa_name pa)))
     (trace_from_start [AddPublisher 1 9 []] (sample_path plain_conf)) = Inr (Some (SourcePublisher 9), None)"
  by code_simp

lemma unpublished_remove_panics_witness:
  "\<exists>pa. path_reach (sample_path plain_conf) pa \<and> pa_source pa = Some (SourcePublisher 9) \<and>
     path_turn (RemovePublisher 2 9 good_server) pa = Inl Panic"
proof -
  obtain pa where pa: "trace_from_start [AddPublisher 1 9 []] (sample_path plain_conf) = Inr pa"
    "pa_source pa = Some (SourcePublisher 9)" "pa_live pa (pa_name pa) = None"
    using unpublished_view by auto
  then show ?thesis
    using unpublished_remove_panics [OF sample_start [OF plain_conf_valid] trace_from_start_reach [OF pa(1)] pa(3)]
      trace_from_start_reach [OF pa(1)] by blast
qed

text \<open>
  A publisher that starts on a path whose name has no slash brings the server down: the name of the live stream is
  split at the slash, and the second part is taken without a look at how many there are.
\<close>

theorem name_without_slash_panics:
  assumes "slash \<notin> set (pa_name pa)" "pa_source pa = Some (SourcePublisher a)"
  shows "path_turn (StartPublisher rid a srv err) pa = Inl Panic"
proof -
  have "NewLiveStream (pa_name pa) (pa_live pa) = Inl Panic"
    using NewLiveStream_panic [of "pa_name pa" "pa_live pa" Panic] assms(1) by simp
  then show ?thesis
    using assms(2) by (simp add: path_turn_def doStartPublisher_def setReady_def)
qed

lemma name_without_slash_panics_witness:
  "path_turn (StartPublisher 1 9 good_server None)
     ((path_initialize plain_conf ''cam'' [] sample_process_env (\<lambda>_. None))\<lparr>pa_source := Some (SourcePublisher 9)\<rparr>) =
   Inl Panic"
  by (rule name_without_slash_panics) (simp_all add: path_initialize_def slash_def)

text \<open>
  A publisher that was replaced stops the transcoding of the one that replaced it. When the old publisher
  leaves, its removal changes neither the source nor the stream of the path, but the transcoder is asked to delete the
  live stream of that name, which is the one of the new publisher.
\<close>

theorem stale_remove_stops_transcoder:
  assumes "pa_source pa = Some (SourcePublisher b)" "a \<noteq> b" "pa_live pa (pa_name pa) = Some ls"
    and "attempt_response (srv 0) = Some response"
  shows "\<exists>pa' exit req. path_turn (RemovePublisher rid a srv) pa = Inr (pa', exit) \<and>
    pa_source pa' = pa_source pa \<and> pa_stream pa' = pa_stream pa \<and>
    pa_out pa' = pa_out pa @ [ApiCall req, Reply rid ReplyClosed] \<and>
    req_method req = ''DELETE'' \<and> req_url req = stop_url (pa_process pa) ls"
proof -
  have "StopPublishToTranscoder (pa_process pa) srv (Some ls) =
    ([\<lparr>req_method = ''DELETE'', req_url = stop_url (pa_process pa) ls, req_body = [], req_header = json_header\<rparr>],
     Inr ())"
    using assms(4)
    by (simp add: StopPublishToTranscoder_def RetryApi_def retryApi_def defaultMaxRetries_def numeral_3_eq_3
        apiCall_def defaultDelay_def)
  then show ?thesis
    using assms(1-3)
    by (simp add: path_turn_def doRemovePublisher_def GetLiveStreamInstance_def)
qed

definition override_events :: "path_event list" where
  "override_events =
     [AddPublisher 1 9 [], StartPublisher 2 9 good_server None, AddPublisher 3 10 [],
      StartPublisher 4 10 good_server None]"

lemma override_view:
  "map_sum id (\<lambda>pa. (pa_source pa, pa_stream pa, pa_live pa (pa_name pa) = None))
     (trace_from_start override_events (sample_path plain_conf)) =
   Inr (Some (SourcePublisher 10), Some 1, False)"
  by code_simp

lemma stale_remove_stops_transcoder_witness:
  "\<exists>pa pa' exit req. path_reach (sample_path plain_conf) pa \<and> pa_stream pa = Some 1 \<and>
     path_turn (RemovePublisher 5 9 good_server) pa = Inr (pa', exit) \<and> pa_stream pa' = Some 1 \<and>
     ApiCall req \<in> set (pa_out pa') \<and> req_method req = ''DELETE''"
proof -
  obtain pa where pa: "trace_from_start override_events (sample_path plain_conf) = Inr pa"
    "pa_source pa = Some (SourcePublisher 10)" "pa_stream pa = Some 1"
    "pa_live pa (pa_name pa) \<noteq> None"
    using override_view by auto
  then obtain ls where ls: "pa_live pa (pa_name pa) = Some ls" by auto
  show ?thesis
    using stale_remove_stops_transcoder [OF pa(2) _ ls, of 9 good_server "[]" 5] pa(3) trace_from_start_reach [OF pa(1)]
    by (fastforce simp: good_server_def)
qed


text \<open>
  A configuration that is replaced while the on-demand source is not running never reaches the source: the path has
  the new one, its handler keeps the old one, and the next request starts the source with the old one.
\<close>

theorem stopped_source_keeps_conf:
  assumes "start_ok pa0" "path_reach pa0 pa" "HasOnDemandStaticSource (pa_conf pa)" "pa_staticState pa = OnDemandInitial"
    and "pathConfCanBeUpdated (pa_conf pa) c"
  shows "\<exists>h pa1 pa2 exit. pa_source pa = Some (SourceStatic h) \<and> path_turn (ReloadConf c) pa = Inr (pa1, None) \<and>
    pa_conf pa1 = c \<and> path_turn (Describe req) pa1 = Inr (pa2, exit) \<and> pa_conf pa2 = c \<and>
    pa_source pa2 = Some (SourceStatic (h\<lparr>h_running := True, h_query := dr_query req\<rparr>))"
proof -
  have "path_ok pa" using assms(1,2) by (rule path_reach_ok)
  then have core: "path_core pa" by (simp add: path_ok_def)
  note parts = path_coreD [OF core] and od = HasOnDemandStaticSource_parts [OF assms(3)]
  note same = updatable_same [OF assms(5)]
  obtain h where h: "pa_source pa = Some (SourceStatic h)" "\<not> h_running h"
    using parts(2) od assms(4) by (auto elim!: static_source_cases)
  have none: "pa_stream pa = None" "\<not> pa_recorder pa"
    using parts(3,5) assms(3,4) by (auto simp: static_ok_def stream_ok_def)
  have "doReloadConf c pa = Inr (pa\<lparr>pa_conf := c\<rparr>)"
    using h none same od by (simp add: doReloadConf_def reload_source_def handler_reloadConf_def closeRecorder_def Let_def)
  moreover have "\<exists>pa2. doDescribe req (pa\<lparr>pa_conf := c\<rparr>) = Inr pa2 \<and> pa_conf pa2 = c \<and>
      pa_source pa2 = Some (SourceStatic (h\<lparr>h_running := True, h_query := dr_query req\<rparr>))"
    using h none same assms(3,4)
    by (simp add: doDescribe_def onDemandStaticSourceStart_def with_handler_def handler_start_def)
  ultimately show ?thesis
    using h by (auto simp: path_turn_def)
qed

definition brighter :: "path_conf \<Rightarrow> path_conf" where
  "brighter c = c\<lparr>RPICamera := (RPICamera c)\<lparr>RPICameraBrightness := 1\<rparr>\<rparr>"

lemma camera_updatable: "pathConfCanBeUpdated on_demand_camera (brighter on_demand_camera)"
  by (simp add: pathConfCanBeUpdated_def conf_Equal_def conf_Clone_def brighter_def hot_camera_def)

definition source_conf :: "path \<Rightarrow> path_conf" where
  "source_conf pa = (case pa_source pa of Some (SourceStatic h) \<Rightarrow> h_conf h | _ \<Rightarrow> zero_conf)"

lemma camera_started_view:
  "map_sum id (\<lambda>pa. (pa_conf pa, pa_staticState pa, source_conf pa))
     (trace_from_start [] (sample_path on_demand_camera)) =
   Inr (on_demand_camera, OnDemandInitial, on_demand_camera)"
  by code_simp

lemma stopped_source_keeps_conf_witness:
  "\<exists>pa h. path_reach (sample_path on_demand_camera) pa \<and> pa_source pa = Some (SourceStatic h) \<and>
     h_conf h = on_demand_camera \<and>
     (\<exists>pa1 pa2 exit. path_turn (ReloadConf (brighter on_demand_camera)) pa = Inr (pa1, None) \<and>
        path_turn (Describe (sample_describe 1)) pa1 = Inr (pa2, exit) \<and>
        pa_conf pa2 = brighter on_demand_camera \<and>
        (\<exists>h'. pa_source pa2 = Some (SourceStatic h') \<and> h_running h' \<and> h_conf h' = on_demand_camera))"
proof -
  obtain pa where pa: "trace_from_start [] (sample_path on_demand_camera) = Inr pa" "pa_conf pa = on_demand_camera"
    "pa_staticState pa = OnDemandInitial"
    "source_conf pa = on_demand_camera"
    using camera_started_view by auto
  have od: "HasOnDemandStaticSource (pa_conf pa)"
    by (simp add: pa on_demand_camera_def camera_conf_def HasOnDemandStaticSource_def HasStaticSource_def)
  have up: "pathConfCanBeUpdated (pa_conf pa) (brighter on_demand_camera)"
    using camera_updatable pa(2) by simp
  obtain h pa1 pa2 exit where lost: "pa_source pa = Some (SourceStatic h)"
    "path_turn (ReloadConf (brighter on_demand_camera)) pa = Inr (pa1, None)"
    "path_turn (Describe (sample_describe 1)) pa1 = Inr (pa2, exit)" "pa_conf pa2 = brighter on_demand_camera"
    "pa_source pa2 = Some (SourceStatic (h\<lparr>h_running := True, h_query := dr_query (sample_describe 1)\<rparr>))"
    using stopped_source_keeps_conf [OF camera_start trace_from_start_reach [OF pa(1)] od pa(3) up] by blast
  have "h_conf h = on_demand_camera" using pa(4) lost(1) by (simp add: source_conf_def)
  then show ?thesis
    using lost trace_from_start_reach [OF pa(1)] by (intro exI [of _ pa] exI [of _ h]) auto
qed

end
