(* ===== verification/PathRefinement.thy ===== *)
theory PathRefinement
  imports PathProperties
begin

text \<open>
  The abstract specification of an on-demand static source, as a small automaton, and the proof that every
  turn of a path with such a source is a step of it, or does not concern it.

  The automaton knows whether the source is off, starting for a number of requests that wait, serving a number of
  readers, or idle: running with no reader, until it is needed again or expires.
\<close>

datatype on_demand = Off | Starting nat | Serving nat | Idle

inductive on_demand_step :: "on_demand \<Rightarrow> on_demand \<Rightarrow> bool" where
  demanded: "on_demand_step Off (Starting 1)"
| joined_start: "on_demand_step (Starting n) (Starting (Suc n))"
| timed_out: "on_demand_step (Starting n) Off"
| came_unread: "on_demand_step (Starting n) Idle"
| came: "0 < k \<Longrightarrow> k \<le> n \<Longrightarrow> on_demand_step (Starting n) (Serving k)"
| first_reader: "on_demand_step Idle (Serving 1)"
| another_reader: "on_demand_step (Serving k) (Serving (Suc k))"
| reader_left: "0 < k \<Longrightarrow> on_demand_step (Serving (Suc k)) (Serving k)"
| last_reader_left: "on_demand_step (Serving 1) Idle"
| expired: "on_demand_step Idle Off"
| failed: "on_demand_step (Serving k) Off"

text \<open>What the automaton sees of a path.\<close>

definition view :: "path \<Rightarrow> on_demand" where
  "view pa =
     (case pa_staticState pa of
        OnDemandInitial \<Rightarrow> Off
      | OnDemandWaitingReady \<Rightarrow> Starting (size (held pa))
      | OnDemandClosing \<Rightarrow> Idle
      | OnDemandReady \<Rightarrow> Serving (length (pa_readers pa)))"

lemma view_cong:
  "pa_staticState pa = pa_staticState pb \<Longrightarrow> held pa = held pb \<Longrightarrow> length (pa_readers pa) = length (pa_readers pb) \<Longrightarrow>
   view pa = view pb"
  by (simp add: view_def split: on_demand_state.split)

lemma view_emit [simp]: "view (emit effs pa) = view pa"
  by (rule view_cong) simp_all

text \<open>A turn, seen by the automaton.\<close>

definition refines :: "path \<Rightarrow> path result \<Rightarrow> bool" where
  "refines pa r = (case r of Inl _ \<Rightarrow> True | Inr pa' \<Rightarrow> view pa' = view pa \<or> on_demand_step (view pa) (view pa'))"

lemma refinesI: "(\<And>pa'. r = Inr pa' \<Longrightarrow> view pa' = view pa \<or> on_demand_step (view pa) (view pa')) \<Longrightarrow> refines pa r"
  by (simp add: refines_def split: sum.split)

lemma refines_same: "(\<And>pa'. r = Inr pa' \<Longrightarrow> view pa' = view pa) \<Longrightarrow> refines pa r"
  by (simp add: refines_def split: sum.split)

text \<open>The path of which the automaton is a view: with the invariant, and with such a source.\<close>

definition static_path :: "path \<Rightarrow> bool" where
  "static_path pa = (path_ok pa \<and> HasOnDemandStaticSource (pa_conf pa))"

lemma static_path_parts:
  assumes "static_path pa"
  shows "path_core pa" "static_ok pa" "\<not> HasOnDemandPublisher (pa_conf pa)" "Source (pa_conf pa) \<noteq> ''publisher''"
    "pa_publisherReadyTimer pa = None" "pa_publisherCloseTimer pa = None" "pa_source pa \<noteq> Some (SourcePublisher a)"
    "pa_source pa \<noteq> Some SourceRedirection" "pa_publisherState pa = OnDemandInitial"
proof -
  have core: "path_core pa" and od: "HasOnDemandStaticSource (pa_conf pa)"
    using assms by (simp_all add: static_path_def path_ok_def)
  note parts = path_coreD [OF core] and odp = HasOnDemandStaticSource_parts [OF od]
  show "path_core pa" "static_ok pa" by (fact core, fact parts(3))
  show np: "\<not> HasOnDemandPublisher (pa_conf pa)" "Source (pa_conf pa) \<noteq> ''publisher''"
    using parts(1) odp by (auto simp: conf_valid_def)
  show "pa_publisherReadyTimer pa = None" "pa_publisherCloseTimer pa = None" "pa_publisherState pa = OnDemandInitial"
    using parts(4) np(1) by (auto simp: publisher_ok_def)
  obtain h where "pa_source pa = Some (SourceStatic h)"
    using static_source_cases [OF parts(2)] odp by blast
  then show "pa_source pa \<noteq> Some (SourcePublisher a)" "pa_source pa \<noteq> Some SourceRedirection" by simp_all
qed

section \<open>Requests and readers\<close>

lemma view_hold:
  assumes "pa_staticState pa1 = OnDemandWaitingReady" "size (held pa1) = n"
  shows "view (pa1\<lparr>pa_describeOnHold := pa_describeOnHold pa1 @ [d]\<rparr>) = Starting (Suc n)"
    "view (pa1\<lparr>pa_readerAddOnHold := pa_readerAddOnHold pa1 @ [r]\<rparr>) = Starting (Suc n)"
  using assms by (auto simp: view_def held_def)

lemma static_start_view:
  assumes "onDemandStaticSourceStart q pa = Inr pa1"
  shows "pa_staticState pa1 = OnDemandWaitingReady" "held pa1 = held pa"
  using assms by (auto simp: onDemandStaticSourceStart_def with_handler_def bindE_eq_Inr held_def
      split: option.splits path_source.splits)

lemma idle_not_held:
  assumes "static_path pa" "pa_staticState pa = OnDemandInitial"
  shows "held pa = {#}"
  using assms static_path_parts(3) [OF assms(1)] by (auto simp: static_path_def path_ok_def hold_ok_def held_def)

text \<open>The state from which a request is put on hold, seen by the automaton.\<close>

lemma hold_view:
  assumes "static_path pa" "pa_stream pa = None"
    and "(if pa_staticState pa = OnDemandInitial then onDemandStaticSourceStart q pa else Inr pa) = Inr pa1"
  shows "pa_staticState pa1 = OnDemandWaitingReady" "held pa1 = held pa"
    "on_demand_step (view pa) (Starting (Suc (size (held pa))))"
proof -
  have od: "HasOnDemandStaticSource (pa_conf pa)" using assms(1) by (simp add: static_path_def)
  have wait: "pa_staticState pa = OnDemandInitial \<or> pa_staticState pa = OnDemandWaitingReady"
    using waiting_without_stream [OF static_path_parts(2) [OF assms(1)] od assms(2)] .
  then show "pa_staticState pa1 = OnDemandWaitingReady" "held pa1 = held pa"
    using assms(3) static_start_view [of q pa pa1] by (auto split: if_splits)
  show "on_demand_step (view pa) (Starting (Suc (size (held pa))))"
    using wait idle_not_held [OF assms(1)] demanded joined_start by (auto simp: view_def)
qed

lemma doDescribe_refines:
  assumes "static_path pa"
  shows "refines pa (doDescribe req pa)"
proof (rule refinesI)
  fix pa'
  assume r: "doDescribe req pa = Inr pa'"
  have od: "HasOnDemandStaticSource (pa_conf pa)" using assms by (simp add: static_path_def)
  show "view pa' = view pa \<or> on_demand_step (view pa) (view pa')"
  proof (cases "pa_stream pa")
    case None
    then obtain pa1 where "(if pa_staticState pa = OnDemandInitial then onDemandStaticSourceStart (dr_query req) pa
        else Inr pa) = Inr pa1" "pa' = pa1\<lparr>pa_describeOnHold := pa_describeOnHold pa1 @ [req]\<rparr>"
      using r None od static_path_parts(8) [OF assms] by (simp add: doDescribe_def bindE_eq_Inr) blast
    note pa1 = this
    show ?thesis
      using hold_view [OF assms None pa1(1)] view_hold(1) [of pa1] by (simp add: pa1(2))
  next
    case (Some s)
    then show ?thesis using r static_path_parts(8) [OF assms] by (auto simp: doDescribe_def)
  qed
qed

text \<open>A reader that is added to a path that serves, or idles.\<close>

lemma addReaderPost_view:
  assumes "path_core pa" "HasOnDemandStaticSource (pa_conf pa)" "pa_stream pa \<noteq> None"
  shows "view (addReaderPost req pa) = view pa \<or> on_demand_step (view pa) (view (addReaderPost req pa))"
proof -
  have st: "pa_staticState pa = OnDemandReady \<or> pa_staticState pa = OnDemandClosing \<and> pa_readers pa = []"
    using path_coreD(3) [OF assms(1)] assms(2,3) by (auto simp: static_ok_def)
  then show ?thesis
    using assms(2) first_reader another_reader
    by (auto simp: addReaderPost_def keep_on_demand_def view_def)
qed

lemma doAddReader_refines:
  assumes "static_path pa"
  shows "refines pa (doAddReader req pa)"
proof (rule refinesI)
  fix pa'
  assume r: "doAddReader req pa = Inr pa'"
  have od: "HasOnDemandStaticSource (pa_conf pa)" using assms by (simp add: static_path_def)
  show "view pa' = view pa \<or> on_demand_step (view pa) (view pa')"
  proof (cases "pa_stream pa")
    case None
    then obtain pa1 where "(if pa_staticState pa = OnDemandInitial then onDemandStaticSourceStart (rr_query req) pa
        else Inr pa) = Inr pa1" "pa' = pa1\<lparr>pa_readerAddOnHold := pa_readerAddOnHold pa1 @ [req]\<rparr>"
      using r None od by (simp add: doAddReader_def bindE_eq_Inr) blast
    note pa1 = this
    show ?thesis
      using hold_view [OF assms None pa1(1)] view_hold(2) [of pa1] by (simp add: pa1(2))
  next
    case (Some s)
    then show ?thesis
      using r addReaderPost_view [OF static_path_parts(1) [OF assms] od, of req] by (auto simp: doAddReader_def)
  qed
qed

lemma doRemoveReader_refines:
  assumes "static_path pa"
  shows "refines pa (Inr (doRemoveReader rid a pa))"
proof -
  have od: "HasOnDemandStaticSource (pa_conf pa)" using assms by (simp add: static_path_def)
  have st: "static_ok pa" by (rule static_path_parts [OF assms])
  have left: "on_demand_step (Serving (length (pa_readers pa))) (Serving (length (remove1 a (pa_readers pa))))"
    if "a \<in> set (pa_readers pa)" "remove1 a (pa_readers pa) \<noteq> []"
  proof -
    have "length (pa_readers pa) = Suc (length (remove1 a (pa_readers pa)))"
      using that(1) length_pos_if_in_set [OF that(1)] by (simp add: length_remove1)
    then show ?thesis using that(2) reader_left by simp
  qed
  have only: "length (pa_readers pa) = 1" if "a \<in> set (pa_readers pa)" "remove1 a (pa_readers pa) = []"
    using that length_remove1 [of a "pa_readers pa"] by (cases "pa_readers pa") (auto split: if_splits)
  show ?thesis
    using od st left only last_reader_left
    by (cases "pa_staticState pa")
      (auto simp: refines_def doRemoveReader_def executeRemoveReader_def onDemandStaticSourceScheduleClose_def
        view_def held_def static_ok_def Let_def split: if_splits)
qed


section \<open>The source comes and goes\<close>

lemma stop_view:
  "onDemandStaticSourceStop reason pa = Inr pa' \<Longrightarrow> view pa' = Off"
  by (auto simp: onDemandStaticSourceStop_def with_handler_def bindE_eq_Inr view_def Let_def
      split: option.splits path_source.splits)

lemma off_step:
  assumes "view pa \<noteq> Off"
  shows "on_demand_step (view pa) Off"
  using assms timed_out failed expired by (cases "view pa") auto

lemma off_result: "view pa' = Off \<Longrightarrow> view pa' = view pa \<or> on_demand_step (view pa) (view pa')"
  using off_step [of pa] by (cases "view pa = Off") auto

lemma timers_refine:
  assumes "static_path pa"
  shows "env_ok pa StaticReadyTimer \<Longrightarrow> refines pa (handle StaticReadyTimer pa)"
    "env_ok pa StaticCloseTimer \<Longrightarrow> refines pa (handle StaticCloseTimer pa)"
proof -
  have st: "static_ok pa" by (rule static_path_parts [OF assms])
  show "refines pa (handle StaticReadyTimer pa)" if "env_ok pa StaticReadyTimer"
    by (intro refinesI off_result) (auto simp: doOnDemandStaticSourceReadyTimer_def dest!: stop_view)
  show "refines pa (handle StaticCloseTimer pa)" if "env_ok pa StaticCloseTimer"
    by (intro refinesI off_result) (auto simp: doOnDemandStaticSourceCloseTimer_def bindE_eq_Inr dest!: stop_view)
qed

lemma setNotReady_state: "setNotReady pa = Inr pa1 \<Longrightarrow> pa_staticState pa1 = pa_staticState pa \<and> pa_conf pa1 = pa_conf pa"
  by (auto simp: setNotReady_def closeRecorder_def Let_def split: if_splits option.splits)

lemma doSourceStaticSetNotReady_refines:
  assumes "static_path pa" "env_ok pa (StaticSetNotReady rid)"
  shows "refines pa (doSourceStaticSetNotReady rid pa)"
proof (rule refinesI)
  fix pa'
  assume r: "doSourceStaticSetNotReady rid pa = Inr pa'"
  have od: "HasOnDemandStaticSource (pa_conf pa)" using assms(1) by (simp add: static_path_def)
  have "pa_staticState pa \<noteq> OnDemandInitial"
    using static_path_parts(2) [OF assms(1)] od assms(2) by (auto simp: static_ok_def)
  then have "view pa' = Off"
    using r od by (auto simp: doSourceStaticSetNotReady_def bindE_eq_Inr Let_def
        dest!: stop_view dest: setNotReady_state)
  then show "view pa' = view pa \<or> on_demand_step (view pa) (view pa')"
    by (rule off_result)
qed

text \<open>When the source comes, at most as many readers are served as were on hold.\<close>

lemma fold_addReaderPost_count:
  "length (pa_readers (fold addReaderPost reqs pa)) \<le> length (pa_readers pa) + length reqs"
proof (induction reqs arbitrary: pa)
  case (Cons req reqs)
  have "length (pa_readers (addReaderPost req pa)) \<le> Suc (length (pa_readers pa))"
    by (simp add: addReaderPost_def Let_def)
  then show ?case
    using Cons.IH [of "addReaderPost req pa"] by simp
qed simp

lemma fold_addReaderPost_conf: "pa_conf (fold addReaderPost reqs pa) = pa_conf pa"
proof (induction reqs arbitrary: pa)
  case (Cons req reqs)
  have "pa_conf (addReaderPost req pa) = pa_conf pa"
    by (simp add: addReaderPost_def Let_def)
  then show ?case using Cons.IH by simp
qed simp

lemma consume_view:
  assumes "path_core pa" "HasOnDemandStaticSource (pa_conf pa)" "pa_stream pa \<noteq> None" "pa_readers pa = []"
  shows "view (consumeOnHoldRequests pa) = Idle \<or>
    (\<exists>k. 0 < k \<and> k \<le> size (held pa) \<and> view (consumeOnHoldRequests pa) = Serving k)"
proof -
  let ?pa = "consumeOnHoldRequests pa"
  have "path_ok ?pa" "pa_stream ?pa \<noteq> None"
    using consumeOnHoldRequests_ok [OF assms(1,3)] assms(3) by auto
  moreover have "pa_conf ?pa = pa_conf pa"
    by (simp add: consumeOnHoldRequests_def Let_def fold_addReaderPost_conf)
  moreover have "length (pa_readers ?pa) \<le> size (held pa)"
  proof -
    let ?d = "(emit (map (\<lambda>req. Reply (dr_id req) (ReplyStream (pa_stream pa))) (pa_describeOnHold pa)) pa)
        \<lparr>pa_describeOnHold := []\<rparr>"
    have "length (pa_readers ?pa) \<le> length (pa_readers ?d) + length (pa_readerAddOnHold pa)"
      using fold_addReaderPost_count [of "pa_readerAddOnHold pa" ?d] by (simp add: consumeOnHoldRequests_def Let_def)
    then show ?thesis using assms(4) by (simp add: held_def)
  qed
  ultimately show ?thesis
    using assms(2) by (auto simp: path_ok_def path_core_def static_ok_def view_def)
qed

lemma doSourceStaticSetReady_refines:
  assumes "static_path pa" "env_ok pa (StaticSetReady rid srv err)"
  shows "refines pa (doSourceStaticSetReady rid srv err pa)"
proof (rule refinesI)
  fix pa'
  assume r: "doSourceStaticSetReady rid srv err pa = Inr pa'"
  have od: "HasOnDemandStaticSource (pa_conf pa)" and ok: "path_ok pa"
    using assms(1) by (simp_all add: static_path_def)
  have none: "pa_stream pa = None" using assms(2) by simp
  obtain e pa1 where sr: "setReady srv err pa = Inr (e, pa1)"
    using r by (auto simp: doSourceStaticSetReady_def bindE_eq_Inr)
  have failed: "view pa' = view pa1" if "e = Some x" for x
  proof -
    have "pa' = emit [Reply rid (ReplyErr x)] pa1"
      using r sr that by (simp add: doSourceStaticSetReady_def)
    then show ?thesis by simp
  qed
  have served: "view pa' = view (consumeOnHoldRequests (static_served pa1))" if "e = None"
  proof -
    let ?c = "consumeOnHoldRequests (static_served pa1)"
    have "pa' = emit [Reply rid (ReplyStream (pa_stream ?c))] ?c"
      using r sr that by (simp add: doSourceStaticSetReady_def static_served_def [symmetric] Let_def)
    then show ?thesis by simp
  qed
  from sr show "view pa' = view pa \<or> on_demand_step (view pa) (view pa')"
  proof (cases rule: setReady_cases)
    case (transcoder live sent x)
    have "view pa1 = view pa" unfolding transcoder(2) by (rule view_cong) simp_all
    then show ?thesis using failed [OF transcoder(1)] by simp
  next
    case (stream_error live sent x)
    have "view pa1 = view pa" unfolding stream_error(2) by (rule view_cong) simp_all
    then show ?thesis using failed [OF stream_error(1)] by simp
  next
    case (ready live sent)
    note core = static_served_core(1-4,6) [where live = live and sent = sent, OF ok assms(2) ready(3)]
    have "view pa = Starting (size (held pa))"
      using static_served_core(5) [where live = live, OF ok assms(2) ready(3) od] by (simp add: view_def)
    moreover have "view (consumeOnHoldRequests (static_served pa1)) = Idle \<or>
      (\<exists>k. 0 < k \<and> k \<le> size (held pa) \<and> view (consumeOnHoldRequests (static_served pa1)) = Serving k)"
      using consume_view [OF core(1) _ core(2,3)] core(4,5) od by (simp add: ready(4))
    ultimately show ?thesis
      unfolding served [OF ready(1)] by (auto intro: came_unread came)
  qed
qed

text \<open>Events that do not concern the source.\<close>

lemma doReloadConf_refines:
  assumes "static_path pa" "env_ok pa (ReloadConf c)"
  shows "refines pa (doReloadConf c pa)"
  by (rule refines_same, rule view_cong)
    (auto simp: doReloadConf_def reload_source_def bindE_eq_Inr startRecording_def closeRecorder_def held_def Let_def
      split: if_splits option.splits path_source.splits)

lemma publisher_events_refine:
  assumes "static_path pa"
  shows "refines pa (doAddPublisher rid a q pa)" "refines pa (doRemovePublisher rid a srv pa)"
    "refines pa (doStartPublisher rid a srv err pa)" "refines pa (doStopPublisher rid a pa)"
    "refines pa (Inr (doAPIPathsGet rid pa))"
  using static_path_parts(4,7) [OF assms]
  by (auto simp: refines_def doAddPublisher_def doRemovePublisher_def doStartPublisher_def doStopPublisher_def
      doAPIPathsGet_def case_prod_unfold Let_def split: sum.split)

lemma handle_refines:
  assumes "static_path pa" "env_ok pa ev"
  shows "refines pa (handle ev pa)"
proof (cases ev)
  case PublisherReadyTimer
  then show ?thesis using assms(2) static_path_parts(5) [OF assms(1)] by simp
next
  case PublisherCloseTimer
  then show ?thesis using assms(2) static_path_parts(6) [OF assms(1)] by simp
next
  case ContextDone
  then show ?thesis by (simp add: refines_def)
next
  case (RemoveReader rid a)
  then show ?thesis using doRemoveReader_refines [OF assms(1)] by simp
qed (use assms timers_refine doReloadConf_refines doSourceStaticSetReady_refines doSourceStaticSetNotReady_refines
    doDescribe_refines doAddReader_refines publisher_events_refine in \<open>auto simp del: env_ok.simps\<close>)

text \<open>
  C5. A path with an on-demand static source implements the automaton of such a source: in every reachable state, every
  turn of its loop is a step of the automaton or leaves its view as it was. So the source is started only by a request, serves at
  most as many readers as waited for it, idles only without readers, and is switched off only when it idles, fails, or
  has not come in time.
\<close>

theorem on_demand_refinement:
  assumes "start_ok pa0" "path_reach pa0 pa" "HasOnDemandStaticSource (pa_conf pa)" "env_ok pa ev"
    and "path_turn ev pa = Inr (pa', exit)"
  shows "view pa' = view pa \<or> on_demand_step (view pa) (view pa')"
proof -
  have "static_path pa"
    using path_reach_ok [OF assms(1,2)] assms(3) by (simp add: static_path_def)
  then have "refines pa (handle ev pa)"
    using assms(4) by (rule handle_refines)
  then show ?thesis
    using assms(5) by (auto simp: path_turn_def bindE_eq_Inr refines_def)
qed


lemma camera_demand_view:
  "map_sum id (\<lambda>r. (view (fst r), snd r = None))
     (bindE (trace_from_start [] (sample_path on_demand_camera)) (path_turn (Describe (sample_describe 1)))) =
   Inr (Starting 1, True)"
  by code_simp

lemma on_demand_refinement_witness:
  "\<exists>pa pa' exit. path_reach (sample_path on_demand_camera) pa \<and> view pa = Off \<and>
     path_turn (Describe (sample_describe 1)) pa = Inr (pa', exit) \<and> view pa' = Starting 1 \<and>
     on_demand_step (view pa) (view pa')"
proof -
  obtain pa where pa: "trace_from_start [] (sample_path on_demand_camera) = Inr pa" "pa_conf pa = on_demand_camera"
    "pa_staticState pa = OnDemandInitial"
    using camera_started_view by auto
  obtain pa' exit where turn: "path_turn (Describe (sample_describe 1)) pa = Inr (pa', exit)" "view pa' = Starting 1"
    using camera_demand_view pa(1) by (auto simp: bindE_eq_Inr)
  have "HasOnDemandStaticSource (pa_conf pa)" "env_ok pa (Describe (sample_describe 1))"
    by (simp_all add: pa on_demand_camera_def camera_conf_def HasOnDemandStaticSource_def HasStaticSource_def
        setDefaults_def zero_conf_def)
  then have "view pa' = view pa \<or> on_demand_step (view pa) (view pa')"
    using on_demand_refinement [OF camera_start trace_from_start_reach [OF pa(1)] _ _ turn(1)] by blast
  moreover have "view pa = Off" using pa(3) by (simp add: view_def)
  ultimately show ?thesis
    using turn trace_from_start_reach [OF pa(1)] by auto
qed

end
