(* ===== verification/PathManager.thy ===== *)
theory PathManager
  imports PathConf "HOL-Library.AList"
begin

text \<open>
  The path manager, \<open>internal/core/path_manager.go\<close>: the table of the paths that exist, the table of the paths of each
  configuration, and the handlers of its loop, which look configurations up, create paths on demand and follow a reload of the
  configuration.

  A path is a goroutine of its own, referred to by a number, as the code refers to it by a pointer; what the manager
  reads of it (its name and its configuration) is in \<open>pm_ref\<close>. Maps are association lists with distinct keys; the order of a list is one
  order in which Go may iterate over the map. What the manager does to others is appended to \<open>pm_out\<close>. The outcome of the
  authentication is an argument.
\<close>

section \<open>Data\<close>

record path_ref =
  pr_name :: string
  pr_conf :: path_conf

datatype manager_reply =
    ManagerErr go_error
  | ManagerConf path_conf
  | ManagerPath nat
  | ManagerPaths "(string \<times> nat) list"

datatype manager_effect =
    CreatePath nat "string list"
  | ReloadPath nat path_conf
  | ClosePath nat
  | HLSPathReady nat
  | HLSPathNotReady nat
  | ManagerReply nat manager_reply

record manager =
  pm_pathConfs :: "(string \<times> path_conf) list"
  pm_hls :: bool
  pm_paths :: "(string \<times> nat) list"
  pm_pathsByConf :: "(string \<times> nat list) list"
  pm_ref :: "nat \<Rightarrow> path_ref"
  pm_next :: nat
  pm_out :: "manager_effect list"

text \<open>A request for a path, with its number.\<close>

record access_request =
  ar_id :: nat
  ar_name :: string
  ar_skipAuth :: bool

definition say :: "manager_effect list \<Rightarrow> manager \<Rightarrow> manager" where
  "say effs pm = pm\<lparr>pm_out := pm_out pm @ effs\<rparr>"

section \<open>The tables\<close>

definition paths_of_conf :: "string \<Rightarrow> manager \<Rightarrow> nat list" where
  "paths_of_conf k pm = (case map_of (pm_pathsByConf pm) k of None \<Rightarrow> [] | Some ps \<Rightarrow> ps)"

definition createPath :: "path_conf \<Rightarrow> string \<Rightarrow> string list \<Rightarrow> manager \<Rightarrow> manager" where
  "createPath c nm matches pm =
     (let pa = pm_next pm in
      say [CreatePath pa matches] (pm
        \<lparr>pm_next := Suc pa,
         pm_ref := (pm_ref pm)(pa := \<lparr>pr_name = nm, pr_conf = c\<rparr>),
         pm_paths := AList.update nm pa (pm_paths pm),
         pm_pathsByConf := AList.update (Name c) (paths_of_conf (Name c) pm @ [pa]) (pm_pathsByConf pm)\<rparr>))"

definition removePath :: "nat \<Rightarrow> manager \<Rightarrow> manager" where
  "removePath pa pm =
     (let k = Name (pr_conf (pm_ref pm pa));
          left = removeAll pa (paths_of_conf k pm)
      in pm\<lparr>pm_pathsByConf := (if left = [] then AList.delete k (pm_pathsByConf pm)
                              else AList.update k left (pm_pathsByConf pm)),
            pm_paths := AList.delete (pr_name (pm_ref pm pa)) (pm_paths pm)\<rparr>)"

section \<open>Reloading\<close>

text \<open>The configuration reaches the path through a goroutine; here the path has it at once.\<close>

definition update_path :: "path_conf \<Rightarrow> nat \<Rightarrow> manager \<Rightarrow> manager" where
  "update_path c pa pm =
     say [ReloadPath pa c] (pm\<lparr>pm_ref := (pm_ref pm)(pa := (pm_ref pm pa)\<lparr>pr_conf := c\<rparr>)\<rparr>)"

definition close_path :: "nat \<Rightarrow> manager \<Rightarrow> manager" where
  "close_path pa pm = say [ClosePath pa] (removePath pa pm)"

definition reload_entry :: "(string \<times> path_conf) list \<Rightarrow> string \<times> path_conf \<Rightarrow> manager \<Rightarrow> manager" where
  "reload_entry newPaths kc pm =
     (let pas = paths_of_conf (fst kc) pm in
      case map_of newPaths (fst kc) of
        Some new \<Rightarrow>
          if \<not> conf_Equal new (snd kc) then
            (if pathConfCanBeUpdated (snd kc) new then fold (update_path new) pas pm
             else fold close_path pas pm)
          else pm
      | None \<Rightarrow> fold close_path pas pm)"

definition create_missing :: "string \<times> path_conf \<Rightarrow> manager \<Rightarrow> manager" where
  "create_missing kc pm =
     (if map_of (pm_paths pm) (fst kc) = None \<and> Regexp (snd kc) = None
      then createPath (snd kc) (fst kc) [] pm else pm)"

definition manager_doReloadConf :: "(string \<times> path_conf) list \<Rightarrow> manager \<Rightarrow> manager" where
  "manager_doReloadConf newPaths pm =
     (let pm1 = fold (reload_entry newPaths) (pm_pathConfs pm) pm;
          pm2 = pm1\<lparr>pm_pathConfs := newPaths\<rparr>
      in fold create_missing newPaths pm2)"

section \<open>Handlers\<close>

definition doSetHLSServer :: "bool \<Rightarrow> manager \<Rightarrow> manager" where
  "doSetHLSServer b pm = pm\<lparr>pm_hls := b\<rparr>"

definition doClosePath :: "nat \<Rightarrow> manager \<Rightarrow> manager" where
  "doClosePath pa pm =
     (if map_of (pm_paths pm) (pr_name (pm_ref pm pa)) \<noteq> Some pa then pm else removePath pa pm)"

definition doPathReady :: "nat \<Rightarrow> manager \<Rightarrow> manager" where
  "doPathReady pa pm = (if pm_hls pm then say [HLSPathReady pa] pm else pm)"

definition doPathNotReady :: "nat \<Rightarrow> manager \<Rightarrow> manager" where
  "doPathNotReady pa pm = (if pm_hls pm then say [HLSPathNotReady pa] pm else pm)"

definition doFindPathConf ::
    "conf_env \<Rightarrow> access_request \<Rightarrow> go_error option \<Rightarrow> manager \<Rightarrow> manager" where
  "doFindPathConf env req auth pm =
     say [ManagerReply (ar_id req)
       (case FindPathConf env (pm_pathConfs pm) (ar_name req) of
          Inl e \<Rightarrow> ManagerErr e
        | Inr (c, _) \<Rightarrow> (case auth of Some e \<Rightarrow> ManagerErr e | None \<Rightarrow> ManagerConf c))] pm"

text \<open>The path of a request, which is created if it does not exist.\<close>

definition ensure_path :: "path_conf \<Rightarrow> string list \<Rightarrow> string \<Rightarrow> manager \<Rightarrow> manager" where
  "ensure_path c matches nm pm =
     (if map_of (pm_paths pm) nm = None then createPath c nm matches pm else pm)"

definition reply_path :: "access_request \<Rightarrow> manager \<Rightarrow> manager" where
  "reply_path req pm = say [ManagerReply (ar_id req) (ManagerPath (the (map_of (pm_paths pm) (ar_name req))))] pm"

definition manager_doDescribe ::
    "conf_env \<Rightarrow> access_request \<Rightarrow> go_error option \<Rightarrow> manager \<Rightarrow> manager" where
  "manager_doDescribe env req auth pm =
     (case FindPathConf env (pm_pathConfs pm) (ar_name req) of
        Inl e \<Rightarrow> say [ManagerReply (ar_id req) (ManagerErr e)] pm
      | Inr (c, matches) \<Rightarrow>
          (case auth of
             Some e \<Rightarrow> say [ManagerReply (ar_id req) (ManagerErr e)] pm
           | None \<Rightarrow> reply_path req (ensure_path c matches (ar_name req) pm)))"

text \<open>Readers and publishers that the server itself makes skip the authentication.\<close>

definition manager_doAddReader ::
    "conf_env \<Rightarrow> access_request \<Rightarrow> go_error option \<Rightarrow> manager \<Rightarrow> manager" where
  "manager_doAddReader env req auth pm =
     (case FindPathConf env (pm_pathConfs pm) (ar_name req) of
        Inl e \<Rightarrow> say [ManagerReply (ar_id req) (ManagerErr e)] pm
      | Inr (c, matches) \<Rightarrow>
          (case if ar_skipAuth req then None else auth of
             Some e \<Rightarrow> say [ManagerReply (ar_id req) (ManagerErr e)] pm
           | None \<Rightarrow> reply_path req (ensure_path c matches (ar_name req) pm)))"

definition manager_doAddPublisher ::
    "conf_env \<Rightarrow> access_request \<Rightarrow> go_error option \<Rightarrow> manager \<Rightarrow> manager" where
  "manager_doAddPublisher env req auth pm =
     (case FindPathConf env (pm_pathConfs pm) (ar_name req) of
        Inl e \<Rightarrow> say [ManagerReply (ar_id req) (ManagerErr e)] pm
      | Inr (c, matches) \<Rightarrow>
          (case if ar_skipAuth req then None else auth of
             Some e \<Rightarrow> say [ManagerReply (ar_id req) (ManagerErr e)] pm
           | None \<Rightarrow> reply_path req (ensure_path c matches (ar_name req) pm)))"

definition doAPIPathsList :: "nat \<Rightarrow> manager \<Rightarrow> manager" where
  "doAPIPathsList rid pm = say [ManagerReply rid (ManagerPaths (pm_paths pm))] pm"

definition ErrPathNotFound :: go_error where
  "ErrPathNotFound = Errorf ''path not found'' []"

definition manager_doAPIPathsGet :: "nat \<Rightarrow> string \<Rightarrow> manager \<Rightarrow> manager" where
  "manager_doAPIPathsGet rid nm pm =
     say [ManagerReply rid (case map_of (pm_paths pm) nm of None \<Rightarrow> ManagerErr ErrPathNotFound | Some pa \<Rightarrow> ManagerPath pa)] pm"

section \<open>The loop\<close>

datatype manager_event =
    ManagerReloadConf "(string \<times> path_conf) list"
  | SetHLSServer bool
  | PathCloses nat
  | PathReady nat
  | PathNotReady nat
  | ManagerFindPathConf access_request "go_error option"
  | ManagerDescribe access_request "go_error option"
  | ManagerAddReader access_request "go_error option"
  | ManagerAddPublisher access_request "go_error option"
  | ManagerAPIPathsList nat
  | ManagerAPIPathsGet nat string

fun manager_handle :: "conf_env \<Rightarrow> manager_event \<Rightarrow> manager \<Rightarrow> manager" where
  "manager_handle env (ManagerReloadConf cs) pm = manager_doReloadConf cs pm"
| "manager_handle env (SetHLSServer b) pm = doSetHLSServer b pm"
| "manager_handle env (PathCloses pa) pm = doClosePath pa pm"
| "manager_handle env (PathReady pa) pm = doPathReady pa pm"
| "manager_handle env (PathNotReady pa) pm = doPathNotReady pa pm"
| "manager_handle env (ManagerFindPathConf req auth) pm = doFindPathConf env req auth pm"
| "manager_handle env (ManagerDescribe req auth) pm = manager_doDescribe env req auth pm"
| "manager_handle env (ManagerAddReader req auth) pm = manager_doAddReader env req auth pm"
| "manager_handle env (ManagerAddPublisher req auth) pm = manager_doAddPublisher env req auth pm"
| "manager_handle env (ManagerAPIPathsList rid) pm = doAPIPathsList rid pm"
| "manager_handle env (ManagerAPIPathsGet rid nm) pm = manager_doAPIPathsGet rid nm pm"

definition manager_initialize :: "(string \<times> path_conf) list \<Rightarrow> manager" where
  "manager_initialize cs =
     fold (\<lambda>(k, c) pm. if Regexp c = None then createPath c (Name c) [] pm else pm) cs
       \<lparr>pm_pathConfs = cs, pm_hls = False, pm_paths = [], pm_pathsByConf = [],
        pm_ref = (\<lambda>_. \<lparr>pr_name = [], pr_conf = zero_conf\<rparr>), pm_next = 0, pm_out = []\<rparr>"


section \<open>The tables as a registry\<close>

text \<open>
  What the handlers rely on: a registry of paths under names. A path is added under a name that is free, and a
  path that is registered is removed; neither concerns the other names.
\<close>

locale registry =
  fixes ok :: "'s \<Rightarrow> bool"
    and find :: "'s \<Rightarrow> 'k \<Rightarrow> 'p option"
    and add :: "'c \<Rightarrow> 'k \<Rightarrow> 's \<Rightarrow> 's"
    and remove :: "'p \<Rightarrow> 's \<Rightarrow> 's"
  assumes add_ok: "ok s \<Longrightarrow> find s k = None \<Longrightarrow> ok (add c k s)"
    and add_find: "(find (add c k s) k' = None) = (k' \<noteq> k \<and> find s k' = None)"
    and add_keeps: "find s k = None \<Longrightarrow> find s k' = Some p \<Longrightarrow> find (add c k s) k' = Some p"
    and remove_ok: "ok s \<Longrightarrow> find s k = Some p \<Longrightarrow> ok (remove p s)"
    and remove_find: "ok s \<Longrightarrow> find s k = Some p \<Longrightarrow> find (remove p s) k' = (if k' = k then None else find s k')"
    and one_name: "ok s \<Longrightarrow> find s k = Some p \<Longrightarrow> find s k' = Some p \<Longrightarrow> k = k'"
begin

lemma find_remove_iff:
  assumes "ok s" "find s k = Some p"
  shows "find (remove p s) k' = (if find s k' = Some p then None else find s k')"
proof (cases "k' = k")
  case True
  with remove_find [OF assms, of k'] assms(2) show ?thesis by simp
next
  case False
  then have "find s k' \<noteq> Some p"
    using one_name [OF assms, of k'] by blast
  with False remove_find [OF assms, of k'] show ?thesis by simp
qed

text \<open>Removing several, as a reload does; and adding those that are missing.\<close>

lemma remove_all:
  assumes "ok s" "distinct ps" "\<forall>p \<in> set ps. \<exists>k. find s k = Some p"
  shows "ok (fold remove ps s) \<and>
    (\<forall>k. find (fold remove ps s) k = (if \<exists>p \<in> set ps. find s k = Some p then None else find s k))"
  using assms
proof (induction ps arbitrary: s)
  case (Cons p ps)
  obtain k where k: "find s k = Some p"
    using Cons.prems(3) by auto
  note after = find_remove_iff [OF Cons.prems(1) k]
  have left: "\<exists>k'. find (remove p s) k' = Some q" if "q \<in> set ps" for q
  proof -
    have "\<exists>k'. find s k' = Some q"
      using Cons.prems(3) that by simp
    then obtain k' where "find s k' = Some q" ..
    moreover have "q \<noteq> p"
      using that Cons.prems(2) by auto
    ultimately have "find (remove p s) k' = Some q"
      by (simp add: after)
    then show ?thesis by blast
  qed
  have ih: "ok (fold remove ps (remove p s)) \<and> (\<forall>k. find (fold remove ps (remove p s)) k =
      (if \<exists>q \<in> set ps. find (remove p s) k = Some q then None else find (remove p s) k))"
  proof (rule Cons.IH)
    show "ok (remove p s)"
      using Cons.prems(1) k by (rule remove_ok)
    show "distinct ps"
      using Cons.prems(2) by simp
    show "\<forall>q \<in> set ps. \<exists>k. find (remove p s) k = Some q"
      using left by blast
  qed
  have "find (fold remove (p # ps) s) k' = (if \<exists>q \<in> set (p # ps). find s k' = Some q then None else find s k')" for k'
  proof -
    have "find (fold remove (p # ps) s) k' =
        (if \<exists>q \<in> set ps. find (remove p s) k' = Some q then None else find (remove p s) k')"
      using ih by simp
    also have "\<dots> = (if \<exists>q \<in> set (p # ps). find s k' = Some q then None else find s k')"
      by (cases "find s k' = Some p") (simp_all add: after)
    finally show ?thesis .
  qed
  moreover have "ok (fold remove (p # ps) s)"
    using ih by simp
  ultimately show ?case by blast
qed simp

definition ensure :: "'c \<Rightarrow> 'k \<Rightarrow> 's \<Rightarrow> 's" where
  "ensure c k s = (if find s k = None then add c k s else s)"

lemma ensure_ok: "ok s \<Longrightarrow> ok (ensure c k s)"
  by (simp add: ensure_def add_ok)

lemma ensure_found: "find (ensure c k s) k \<noteq> None"
  using add_find [of c k s k] by (simp add: ensure_def)

lemma ensure_keeps: "find s k' = Some p \<Longrightarrow> find (ensure c k s) k' = Some p"
  by (simp add: ensure_def add_keeps)

lemma ensure_all:
  assumes "ok s"
  shows "ok (fold (\<lambda>x. if want x then ensure (snd x) (fst x) else id) xs s) \<and>
    (\<forall>k p. find s k = Some p \<longrightarrow> find (fold (\<lambda>x. if want x then ensure (snd x) (fst x) else id) xs s) k = Some p) \<and>
    (\<forall>x \<in> set xs. want x \<longrightarrow> find (fold (\<lambda>x. if want x then ensure (snd x) (fst x) else id) xs s) (fst x) \<noteq> None)"
  using assms
proof (induction xs arbitrary: s)
  case (Cons x xs)
  let ?s = "(if want x then ensure (snd x) (fst x) else id) s"
  have s: "ok ?s"
    using Cons.prems ensure_ok by simp
  have keep: "find ?s k = Some p" if "find s k = Some p" for k p
    using that ensure_keeps by simp
  have found: "find ?s (fst x) \<noteq> None" if "want x"
    using that ensure_found by simp
  from Cons.IH [OF s] keep found show ?case
    by (auto split: option.splits)
qed simp

end


section \<open>The invariant of the tables\<close>

text \<open>
  A path is in the table of the paths under its name, and in the table of its configuration under the name of that; the
  lists of the second table are not empty.
\<close>

definition path_of :: "manager \<Rightarrow> string \<Rightarrow> nat option" where
  "path_of pm = map_of (pm_paths pm)"

definition path_registered :: "manager \<Rightarrow> nat \<Rightarrow> bool" where
  "path_registered pm pa =
     (pa < pm_next pm \<and> path_of pm (pr_name (pm_ref pm pa)) = Some pa \<and>
      pa \<in> set (paths_of_conf (Name (pr_conf (pm_ref pm pa))) pm))"

definition tables_ok :: "manager \<Rightarrow> bool" where
  "tables_ok pm =
     ((\<forall>nm pa. path_of pm nm = Some pa \<longrightarrow> path_registered pm pa \<and> pr_name (pm_ref pm pa) = nm) \<and>
      (\<forall>k pa. pa \<in> set (paths_of_conf k pm) \<longrightarrow> path_registered pm pa \<and> Name (pr_conf (pm_ref pm pa)) = k) \<and>
      (\<forall>k. map_of (pm_pathsByConf pm) k \<noteq> Some []) \<and>
      (\<forall>k. distinct (paths_of_conf k pm)))"

lemma tables_okI:
  assumes "\<And>nm pa. path_of pm nm = Some pa \<Longrightarrow> path_registered pm pa \<and> pr_name (pm_ref pm pa) = nm"
    and "\<And>k pa. pa \<in> set (paths_of_conf k pm) \<Longrightarrow> path_registered pm pa \<and> Name (pr_conf (pm_ref pm pa)) = k"
    and "\<And>k. map_of (pm_pathsByConf pm) k \<noteq> Some []" and "\<And>k. distinct (paths_of_conf k pm)"
  shows "tables_ok pm"
  using assms by (simp add: tables_ok_def)

lemma tables_okD:
  assumes "tables_ok pm"
  shows "path_of pm nm = Some pa \<Longrightarrow> path_registered pm pa \<and> pr_name (pm_ref pm pa) = nm"
    "pa \<in> set (paths_of_conf k pm) \<Longrightarrow> path_registered pm pa \<and> Name (pr_conf (pm_ref pm pa)) = k"
    "map_of (pm_pathsByConf pm) k \<noteq> Some []" "distinct (paths_of_conf k pm)"
  using assms by (simp_all add: tables_ok_def)

lemma say_simps [simp]:
  "pm_pathConfs (say effs pm) = pm_pathConfs pm" "pm_hls (say effs pm) = pm_hls pm" "pm_paths (say effs pm) = pm_paths pm"
  "pm_pathsByConf (say effs pm) = pm_pathsByConf pm" "pm_ref (say effs pm) = pm_ref pm" "pm_next (say effs pm) = pm_next pm"
  "paths_of_conf k (say effs pm) = paths_of_conf k pm" "tables_ok (say effs pm) = tables_ok pm"
  "path_of (say effs pm) = path_of pm" "path_registered (say effs pm) = path_registered pm"
  by (auto simp: say_def paths_of_conf_def tables_ok_def path_registered_def path_of_def fun_eq_iff)

lemma createPath_fields [simp]:
  "pm_pathConfs (createPath c nm ms pm) = pm_pathConfs pm" "pm_hls (createPath c nm ms pm) = pm_hls pm"
  "pm_next (createPath c nm ms pm) = Suc (pm_next pm)"
  "pm_ref (createPath c nm ms pm) = (pm_ref pm)(pm_next pm := \<lparr>pr_name = nm, pr_conf = c\<rparr>)"
  "path_of (createPath c nm ms pm) = (path_of pm)(nm \<mapsto> pm_next pm)"
  "paths_of_conf k (createPath c nm ms pm) =
     (if k = Name c then paths_of_conf k pm @ [pm_next pm] else paths_of_conf k pm)"
  "map_of (pm_pathsByConf (createPath c nm ms pm)) =
     (map_of (pm_pathsByConf pm))(Name c \<mapsto> paths_of_conf (Name c) pm @ [pm_next pm])"
  by (simp_all add: createPath_def Let_def update_conv' paths_of_conf_def path_of_def say_def)

lemma createPath_ok:
  assumes ok: "tables_ok pm" and free: "path_of pm nm = None"
  shows "tables_ok (createPath c nm ms pm)"
proof (rule tables_okI)
  let ?pm = "createPath c nm ms pm"
  have new: "path_registered ?pm (pm_next pm)"
    by (simp add: path_registered_def)
  have old: "path_registered ?pm pa \<and> pa \<noteq> pm_next pm" if "path_registered pm pa" for pa
    using that free by (auto simp: path_registered_def)
  show "path_registered ?pm pa \<and> pr_name (pm_ref ?pm pa) = n" if "path_of ?pm n = Some pa" for n pa
  proof (cases "n = nm")
    case True
    with that new show ?thesis by simp
  next
    case False
    with that tables_okD(1) [OF ok, of n pa] old show ?thesis by simp
  qed
  show "path_registered ?pm pa \<and> Name (pr_conf (pm_ref ?pm pa)) = k" if "pa \<in> set (paths_of_conf k ?pm)" for k pa
  proof (cases "pa = pm_next pm")
    case True
    have "k = Name c"
      using that True tables_okD(2) [OF ok, of pa k] old by (auto split: if_splits)
    with True new show ?thesis by simp
  next
    case False
    with that have "pa \<in> set (paths_of_conf k pm)"
      by (auto split: if_splits)
    with False tables_okD(2) [OF ok, of pa k] old show ?thesis by simp
  qed
  show "map_of (pm_pathsByConf ?pm) k \<noteq> Some []" for k
    using tables_okD(3) [OF ok, of k] by simp
  show "distinct (paths_of_conf k ?pm)" for k
    using tables_okD(2) [OF ok, of "pm_next pm" k] tables_okD(4) [OF ok, of k] old by auto
qed

lemma removePath_fields [simp]:
  "pm_pathConfs (removePath pa pm) = pm_pathConfs pm" "pm_hls (removePath pa pm) = pm_hls pm"
  "pm_next (removePath pa pm) = pm_next pm" "pm_ref (removePath pa pm) = pm_ref pm"
  "path_of (removePath pa pm) = (path_of pm)(pr_name (pm_ref pm pa) := None)"
  "paths_of_conf k (removePath pa pm) =
     (if k = Name (pr_conf (pm_ref pm pa)) then removeAll pa (paths_of_conf k pm) else paths_of_conf k pm)"
  by (simp_all add: removePath_def Let_def update_conv' delete_conv' paths_of_conf_def path_of_def)

lemma removePath_no_empty:
  assumes "map_of (pm_pathsByConf pm) k \<noteq> Some []"
  shows "map_of (pm_pathsByConf (removePath pa pm)) k \<noteq> Some []"
  using assms by (simp add: removePath_def Let_def update_conv' delete_conv')

lemma removePath_ok:
  assumes ok: "tables_ok pm" and found: "path_of pm nm = Some pa"
  shows "tables_ok (removePath pa pm)"
proof (rule tables_okI)
  let ?pm = "removePath pa pm"
  have pa: "path_registered pm pa" "pr_name (pm_ref pm pa) = nm"
    using tables_okD(1) [OF ok found] by simp_all
  have left: "path_registered ?pm p" if "path_registered pm p" "p \<noteq> pa" for p
    using that found pa(2) by (auto simp: path_registered_def)
  show "path_registered ?pm p \<and> pr_name (pm_ref ?pm p) = n" if "path_of ?pm n = Some p" for n p
  proof -
    from that have n: "path_of pm n = Some p" "n \<noteq> nm"
      using pa(2) by (auto split: if_splits)
    then have "p \<noteq> pa"
      using tables_okD(1) [OF ok n(1)] pa(2) by auto
    with n(1) tables_okD(1) [OF ok n(1)] left show ?thesis by simp
  qed
  show "path_registered ?pm p \<and> Name (pr_conf (pm_ref ?pm p)) = k" if "p \<in> set (paths_of_conf k ?pm)" for k p
  proof -
    from that have k: "p \<in> set (paths_of_conf k pm)"
      by (auto split: if_splits)
    then have "p \<noteq> pa"
      using that tables_okD(2) [OF ok k] by (auto split: if_splits)
    with tables_okD(2) [OF ok k] left show ?thesis by simp
  qed
  show "map_of (pm_pathsByConf ?pm) k \<noteq> Some []" for k
    using tables_okD(3) [OF ok, of k] by (rule removePath_no_empty)
  show "distinct (paths_of_conf k ?pm)" for k
    using tables_okD(4) [OF ok] by (simp add: distinct_removeAll)
qed

interpretation paths: registry tables_ok path_of "\<lambda>c nm. createPath c nm ms" close_path
proof (unfold_locales, goal_cases)
  case (1 s k c)
  then show ?case by (rule createPath_ok)
next
  case (2 c k s k')
  then show ?case by simp
next
  case (3 s k k' p c)
  then show ?case by auto
next
  case (4 s k p)
  then show ?case by (simp add: close_path_def removePath_ok)
next
  case (5 s k p k')
  with tables_okD(1) [of s k p] show ?case by (simp add: close_path_def)
next
  case (6 s k p k')
  with tables_okD(1) [of s k p] tables_okD(1) [of s k' p] show ?case by simp
qed

end
