(* ===== verification/ManagerReload.thy ===== *)
theory ManagerReload
  imports PathManager
begin

text \<open>
  What the path manager promises: the effect of a reload of the configuration on the paths, the invariant of its tables
  in every reachable state, and the answers to the requests for a path.
\<close>

section \<open>A reload\<close>

text \<open>The configuration that a path with the configuration \<open>c\<close> goes on with, if it is kept.\<close>

definition next_conf :: "(string \<times> path_conf) list \<Rightarrow> path_conf \<Rightarrow> path_conf option" where
  "next_conf new c =
     (case map_of new (Name c) of
        None \<Rightarrow> None
      | Some n \<Rightarrow> if n = c \<or> pathConfCanBeUpdated c n then Some n else None)"

definition confs_ok :: "(string \<times> path_conf) list \<Rightarrow> bool" where
  "confs_ok cs = (distinct (map fst cs) \<and> (\<forall>kc \<in> set cs. Name (snd kc) = fst kc))"

lemma confs_ok_name: "confs_ok cs \<Longrightarrow> map_of cs k = Some c \<Longrightarrow> Name c = k"
  by (auto simp: confs_ok_def dest!: map_of_SomeD)

lemma update_path_fields [simp]:
  "pm_pathConfs (update_path c pa pm) = pm_pathConfs pm" "pm_paths (update_path c pa pm) = pm_paths pm"
  "pm_next (update_path c pa pm) = pm_next pm" "pm_pathsByConf (update_path c pa pm) = pm_pathsByConf pm"
  "path_of (update_path c pa pm) = path_of pm" "paths_of_conf k (update_path c pa pm) = paths_of_conf k pm"
  "pm_ref (update_path c pa pm) = (pm_ref pm)(pa := (pm_ref pm pa)\<lparr>pr_conf := c\<rparr>)"
  by (auto simp: update_path_def say_def path_of_def paths_of_conf_def)

lemma update_all:
  "pm_pathConfs (fold (update_path c) ps pm) = pm_pathConfs pm" "pm_paths (fold (update_path c) ps pm) = pm_paths pm"
  "pm_next (fold (update_path c) ps pm) = pm_next pm"
  "path_of (fold (update_path c) ps pm) = path_of pm" "paths_of_conf k (fold (update_path c) ps pm) = paths_of_conf k pm"
  "pm_pathsByConf (fold (update_path c) ps pm) = pm_pathsByConf pm"
  "pm_ref (fold (update_path c) ps pm) =
     (\<lambda>pa. if pa \<in> set ps then (pm_ref pm pa)\<lparr>pr_conf := c\<rparr> else pm_ref pm pa)"
  by (induction ps arbitrary: pm) (auto simp: fun_eq_iff)

lemma close_path_fields [simp]:
  "pm_pathConfs (close_path pa pm) = pm_pathConfs pm" "pm_next (close_path pa pm) = pm_next pm"
  "pm_ref (close_path pa pm) = pm_ref pm"
  by (simp_all add: close_path_def)

lemma close_all:
  "pm_pathConfs (fold close_path ps pm) = pm_pathConfs pm" "pm_next (fold close_path ps pm) = pm_next pm"
  "pm_ref (fold close_path ps pm) = pm_ref pm"
  by (induction ps arbitrary: pm) auto

text \<open>The paths of a configuration are those that have it.\<close>

lemma paths_of_conf_iff:
  assumes "tables_ok pm"
  shows "pa \<in> set (paths_of_conf k pm) \<longleftrightarrow> (\<exists>nm. path_of pm nm = Some pa) \<and> Name (pr_conf (pm_ref pm pa)) = k"
  using tables_okD(1,2) [OF assms] unfolding path_registered_def by blast

lemma close_all_spec:
  assumes ok: "tables_ok pm"
  shows "tables_ok (fold close_path (paths_of_conf k pm) pm)"
    "path_of (fold close_path (paths_of_conf k pm) pm) nm =
      (case path_of pm nm of None \<Rightarrow> None
       | Some pa \<Rightarrow> if Name (pr_conf (pm_ref pm pa)) = k then None else Some pa)"
proof -
  have "\<forall>pa \<in> set (paths_of_conf k pm). \<exists>nm. path_of pm nm = Some pa"
    using paths_of_conf_iff [OF ok] by blast
  note closed = paths.remove_all [OF ok tables_okD(4) [OF ok] this]
  show "tables_ok (fold close_path (paths_of_conf k pm) pm)"
    using closed by blast
  have "(\<exists>pa \<in> set (paths_of_conf k pm). path_of pm nm = Some pa) =
      (\<exists>pa. path_of pm nm = Some pa \<and> Name (pr_conf (pm_ref pm pa)) = k)"
    using paths_of_conf_iff [OF ok] by blast
  with closed show "path_of (fold close_path (paths_of_conf k pm) pm) nm =
      (case path_of pm nm of None \<Rightarrow> None
       | Some pa \<Rightarrow> if Name (pr_conf (pm_ref pm pa)) = k then None else Some pa)"
    by (auto split: option.split)
qed

lemma update_all_ok:
  assumes ok: "tables_ok pm" and name: "Name c = k"
  shows "tables_ok (fold (update_path c) (paths_of_conf k pm) pm)"
proof (rule tables_okI)
  let ?pm = "fold (update_path c) (paths_of_conf k pm) pm"
  have ref: "pr_name (pm_ref ?pm pa) = pr_name (pm_ref pm pa)"
    "path_registered pm pa \<Longrightarrow> Name (pr_conf (pm_ref ?pm pa)) = Name (pr_conf (pm_ref pm pa))" for pa
    using tables_okD(2) [OF ok, of pa k] name by (auto simp: update_all)
  have reg: "path_registered ?pm pa" if "path_registered pm pa" for pa
    using that ref(2) [OF that] by (simp add: path_registered_def update_all(3-5) ref(1))
  show "path_registered ?pm pa \<and> pr_name (pm_ref ?pm pa) = nm" if "path_of ?pm nm = Some pa" for nm pa
    using that tables_okD(1) [OF ok, of nm pa] reg by (simp add: update_all(4) ref(1))
  show "path_registered ?pm pa \<and> Name (pr_conf (pm_ref ?pm pa)) = l" if "pa \<in> set (paths_of_conf l ?pm)" for l pa
  proof -
    have "path_registered pm pa \<and> Name (pr_conf (pm_ref pm pa)) = l"
      using that tables_okD(2) [OF ok, of pa l] by (simp add: update_all(5))
    with reg ref(2) show ?thesis by simp
  qed
  show "map_of (pm_pathsByConf ?pm) l \<noteq> Some []" for l
    using tables_okD(3) [OF ok, of l] by (simp add: update_all(6))
  show "distinct (paths_of_conf l ?pm)" for l
    using tables_okD(4) [OF ok, of l] by (simp add: update_all(5))
qed

text \<open>
  What one entry of the old table does to the paths: those of its configuration go on with the configuration
  that they are given, or are closed.
\<close>

definition conf_after :: "(string \<times> path_conf) list \<Rightarrow> string set \<Rightarrow> path_conf \<Rightarrow> path_conf option" where
  "conf_after new ks c = (if Name c \<in> ks then next_conf new c else Some c)"

definition paths_after :: "(string \<times> path_conf) list \<Rightarrow> string set \<Rightarrow> manager \<Rightarrow> manager \<Rightarrow> bool" where
  "paths_after new ks pm pm' =
     (\<forall>nm. path_of pm' nm =
        (case path_of pm nm of None \<Rightarrow> None
         | Some pa \<Rightarrow> if conf_after new ks (pr_conf (pm_ref pm pa)) = None then None else Some pa) \<and>
      (\<forall>pa c. path_of pm nm = Some pa \<longrightarrow> conf_after new ks (pr_conf (pm_ref pm pa)) = Some c \<longrightarrow>
         pr_conf (pm_ref pm' pa) = c))"

lemma paths_afterI:
  assumes "\<And>nm. path_of pm nm = None \<Longrightarrow> path_of pm' nm = None"
    and "\<And>nm pa. path_of pm nm = Some pa \<Longrightarrow> conf_after new ks (pr_conf (pm_ref pm pa)) = None \<Longrightarrow> path_of pm' nm = None"
    and "\<And>nm pa c. path_of pm nm = Some pa \<Longrightarrow> conf_after new ks (pr_conf (pm_ref pm pa)) = Some c \<Longrightarrow>
      path_of pm' nm = Some pa \<and> pr_conf (pm_ref pm' pa) = c"
  shows "paths_after new ks pm pm'"
  using assms by (auto simp: paths_after_def split: option.split)

lemma paths_afterD:
  assumes "paths_after new ks pm pm'"
  shows "path_of pm nm = None \<Longrightarrow> path_of pm' nm = None"
    "path_of pm nm = Some pa \<Longrightarrow> conf_after new ks (pr_conf (pm_ref pm pa)) = None \<Longrightarrow> path_of pm' nm = None"
    "path_of pm nm = Some pa \<Longrightarrow> conf_after new ks (pr_conf (pm_ref pm pa)) = Some c \<Longrightarrow>
      path_of pm' nm = Some pa \<and> pr_conf (pm_ref pm' pa) = c"
  using assms by (auto simp: paths_after_def)

lemma next_conf_name:
  assumes "confs_ok new" "next_conf new c = Some c'"
  shows "Name c' = Name c"
  using assms confs_ok_name by (auto simp: next_conf_def split: option.splits if_splits)

lemma paths_after_trans:
  assumes first: "paths_after new {k} pm pm1" and rest: "paths_after new ks pm1 pm2" and new: "confs_ok new" "k \<notin> ks"
  shows "paths_after new (insert k ks) pm pm2"
proof (rule paths_afterI)
  show "path_of pm2 nm = None" if "path_of pm nm = None" for nm
    using that first rest by (blast dest: paths_afterD(1))
next
  fix nm pa
  assume pa: "path_of pm nm = Some pa"
  let ?c = "pr_conf (pm_ref pm pa)"
  show "path_of pm2 nm = None" if gone: "conf_after new (insert k ks) ?c = None"
  proof (cases "Name ?c = k")
    case True
    with gone have "conf_after new {k} ?c = None"
      by (simp add: conf_after_def)
    with pa first rest show ?thesis
      by (blast dest: paths_afterD)
  next
    case False
    with gone have "conf_after new {k} ?c = Some ?c" "conf_after new ks ?c = None"
      by (auto simp: conf_after_def)
    with paths_afterD(3) [OF first pa] paths_afterD(2) [OF rest, of nm pa] show ?thesis by simp
  qed
  show "path_of pm2 nm = Some pa \<and> pr_conf (pm_ref pm2 pa) = c" if kept: "conf_after new (insert k ks) ?c = Some c" for c
  proof (cases "Name ?c = k")
    case True
    with kept have c: "conf_after new {k} ?c = Some c" "Name c = k"
      using next_conf_name [OF new(1)] by (auto simp: conf_after_def)
    then have "conf_after new ks c = Some c"
      using new(2) by (simp add: conf_after_def)
    with paths_afterD(3) [OF first pa c(1)] paths_afterD(3) [OF rest, of nm pa] show ?thesis by simp
  next
    case False
    with kept have "conf_after new {k} ?c = Some ?c" "conf_after new ks ?c = Some c"
      by (auto simp: conf_after_def)
    with paths_afterD(3) [OF first pa] paths_afterD(3) [OF rest, of nm pa] show ?thesis by simp
  qed
qed

text \<open>The cases of an entry: closed, kept as it is, updated.\<close>

lemma reload_entry_cases:
  assumes "kc = (k, c)" "Name c = k"
  shows "reload_entry new kc pm =
     (case next_conf new c of
        None \<Rightarrow> fold close_path (paths_of_conf k pm) pm
      | Some n \<Rightarrow> if n = c then pm else fold (update_path n) (paths_of_conf k pm) pm)"
  using assms by (auto simp: reload_entry_def next_conf_def conf_Equal_def Let_def split: option.split)

lemma reload_entry_spec:
  assumes ok: "tables_ok pm" and new: "confs_ok new" and kc: "kc = (k, c)" "Name c = k"
    and same: "\<And>nm pa. path_of pm nm = Some pa \<Longrightarrow> Name (pr_conf (pm_ref pm pa)) = k \<Longrightarrow> pr_conf (pm_ref pm pa) = c"
  shows "tables_ok (reload_entry new kc pm) \<and> paths_after new {k} pm (reload_entry new kc pm)"
proof (cases "next_conf new c")
  case None
  have "paths_after new {k} pm (fold close_path (paths_of_conf k pm) pm)"
    using same None close_all_spec(2) [OF ok, of k]
    by (intro paths_afterI) (auto simp: conf_after_def close_all split: if_splits)
  with None show ?thesis
    using close_all_spec(1) [OF ok] by (simp add: reload_entry_cases [OF kc])
next
  case (Some n)
  note same_name = next_conf_name [OF new Some]
  have "paths_after new {k} pm (reload_entry new kc pm)"
  proof (cases "n = c")
    case True
    have "paths_after new {k} pm pm"
      using same Some True by (intro paths_afterI) (auto simp: conf_after_def split: if_splits)
    with Some True show ?thesis by (simp add: reload_entry_cases [OF kc])
  next
    case False
    have "paths_after new {k} pm (fold (update_path n) (paths_of_conf k pm) pm)"
    proof (rule paths_afterI)
      fix nm pa c'
      assume pa: "path_of pm nm = Some pa" and kept: "conf_after new {k} (pr_conf (pm_ref pm pa)) = Some c'"
      show "path_of (fold (update_path n) (paths_of_conf k pm) pm) nm = Some pa \<and>
          pr_conf (pm_ref (fold (update_path n) (paths_of_conf k pm) pm) pa) = c'"
        using pa kept same [OF pa] Some paths_of_conf_iff [OF ok, of pa k]
        by (auto simp: update_all conf_after_def split: if_splits)
    qed (use same Some in \<open>auto simp: update_all conf_after_def split: if_splits\<close>)
    with Some False show ?thesis by (simp add: reload_entry_cases [OF kc])
  qed
  with Some same_name kc(2) show ?thesis
    using ok update_all_ok [OF ok, of n k] by (simp add: reload_entry_cases [OF kc])
qed

text \<open>The paths of a table have the configuration that the table has under its name.\<close>

definition confs_current :: "(string \<times> path_conf) list \<Rightarrow> string set \<Rightarrow> manager \<Rightarrow> bool" where
  "confs_current cs ks pm =
     (\<forall>nm pa. path_of pm nm = Some pa \<longrightarrow> Name (pr_conf (pm_ref pm pa)) \<in> ks \<longrightarrow>
        map_of cs (Name (pr_conf (pm_ref pm pa))) = Some (pr_conf (pm_ref pm pa)))"

lemma confs_currentD:
  assumes "confs_current cs ks pm" "path_of pm nm = Some pa" "Name (pr_conf (pm_ref pm pa)) \<in> ks"
  shows "map_of cs (Name (pr_conf (pm_ref pm pa))) = Some (pr_conf (pm_ref pm pa))"
  using assms by (simp add: confs_current_def)

lemma paths_after_old:
  assumes "paths_after new {k} pm pm'" "confs_ok new" "path_of pm' nm = Some pa" "Name (pr_conf (pm_ref pm' pa)) \<noteq> k"
  shows "path_of pm nm = Some pa \<and> pr_conf (pm_ref pm' pa) = pr_conf (pm_ref pm pa)"
proof (cases "path_of pm nm")
  case None
  with paths_afterD(1) [OF assms(1) None] assms(3) show ?thesis by simp
next
  case (Some pa')
  show ?thesis
  proof (cases "conf_after new {k} (pr_conf (pm_ref pm pa'))")
    case None
    with paths_afterD(2) [OF assms(1) Some] assms(3) show ?thesis by simp
  next
    case kept: (Some c)
    note after = paths_afterD(3) [OF assms(1) Some kept]
    with assms(3) have "pa' = pa" by simp
    with after kept assms(4) next_conf_name [OF assms(2), of "pr_conf (pm_ref pm pa)"] Some show ?thesis
      by (auto simp: conf_after_def split: if_splits)
  qed
qed

lemma reload_entries:
  assumes "tables_ok pm" "confs_ok new" "confs_ok cs" "confs_current cs (fst ` set cs) pm"
  shows "tables_ok (fold (reload_entry new) cs pm) \<and>
    paths_after new (fst ` set cs) pm (fold (reload_entry new) cs pm)"
  using assms
proof (induction cs arbitrary: pm)
  case Nil
  have "paths_after new {} pm pm"
    by (intro paths_afterI) (auto simp: conf_after_def)
  with Nil show ?case by simp
next
  case (Cons kc cs)
  obtain k c where kc: "kc = (k, c)" by (cases kc)
  have name: "Name c = k" "k \<notin> fst ` set cs" and cs: "confs_ok cs"
    using Cons.prems(3) kc by (auto simp: confs_ok_def)
  have same: "pr_conf (pm_ref pm pa) = c" if "path_of pm nm = Some pa" "Name (pr_conf (pm_ref pm pa)) = k" for nm pa
    using confs_currentD [OF Cons.prems(4) that(1)] that(2) kc by simp
  have "tables_ok (reload_entry new kc pm) \<and> paths_after new {k} pm (reload_entry new kc pm)"
    using same by (rule reload_entry_spec [OF Cons.prems(1,2) kc name(1)])
  then have ok: "tables_ok (reload_entry new kc pm)" and after: "paths_after new {k} pm (reload_entry new kc pm)"
    by blast+
  have "confs_current cs (fst ` set cs) (reload_entry new kc pm)"
  proof (unfold confs_current_def, intro allI impI)
    fix nm pa
    assume pa: "path_of (reload_entry new kc pm) nm = Some pa"
      and k': "Name (pr_conf (pm_ref (reload_entry new kc pm) pa)) \<in> fst ` set cs"
    have "Name (pr_conf (pm_ref (reload_entry new kc pm) pa)) \<noteq> k"
      using k' name(2) by metis
    note old = paths_after_old [OF after Cons.prems(2) pa this]
    with k' confs_currentD [OF Cons.prems(4), of nm pa] name(2) kc
    show "map_of cs (Name (pr_conf (pm_ref (reload_entry new kc pm) pa))) = Some (pr_conf (pm_ref (reload_entry new kc pm) pa))"
      by (auto split: if_splits)
  qed
  from Cons.IH [OF ok Cons.prems(2) cs this] paths_after_trans [OF after _ Cons.prems(2) name(2)] kc show ?case
    by simp
qed

lemma reload_entry_next: "pm_next (reload_entry new kc pm) = pm_next pm"
  by (simp add: reload_entry_def Let_def close_all update_all split: option.split)

text \<open>The second half of a reload, which creates the paths that are missing.\<close>

definition plain :: "string \<times> path_conf \<Rightarrow> bool" where
  "plain kc = (Regexp (snd kc) = None)"

lemma create_missing_ensure:
  "create_missing = (\<lambda>kc. if plain kc then paths.ensure [] (snd kc) (fst kc) else id)"
  by (auto simp: fun_eq_iff create_missing_def paths.ensure_def plain_def path_of_def)

lemma create_all:
  assumes "tables_ok pm"
  shows "tables_ok (fold create_missing cs pm)"
    "path_of pm nm = Some pa \<Longrightarrow> path_of (fold create_missing cs pm) nm = Some pa"
    "kc \<in> set cs \<Longrightarrow> plain kc \<Longrightarrow> path_of (fold create_missing cs pm) (fst kc) \<noteq> None"
  using paths.ensure_all [OF assms, of plain "[]" cs] unfolding create_missing_ensure by blast+

lemma create_all_new:
  assumes "tables_ok pm" "confs_ok cs" "path_of (fold create_missing cs pm) nm = Some pa"
  shows "path_of pm nm = Some pa \<and> pm_ref (fold create_missing cs pm) pa = pm_ref pm pa \<or>
    path_of pm nm = None \<and> (nm, pr_conf (pm_ref (fold create_missing cs pm) pa)) \<in> set cs \<and>
      plain (nm, pr_conf (pm_ref (fold create_missing cs pm) pa)) \<and> pm_next pm \<le> pa"
  using assms
proof (induction cs arbitrary: pm)
  case (Cons kc cs)
  obtain k c where kc: "kc = (k, c)" by (cases kc)
  let ?pm = "create_missing kc pm"
  let ?done = "fold create_missing cs ?pm"
  have ok: "tables_ok ?pm" and cs: "confs_ok cs"
    using create_all(1) [OF Cons.prems(1), of "[kc]"] Cons.prems(2) by (auto simp: confs_ok_def)
  have pa: "path_of ?done nm = Some pa"
    using Cons.prems(3) by simp
  note ih = Cons.IH [OF ok cs pa]
  show ?case
  proof (cases "path_of pm k = None \<and> plain kc")
    case True
    then have pm': "?pm = createPath c k [] pm"
      using kc by (simp add: create_missing_def path_of_def plain_def)
    from ih show ?thesis
    proof (elim disjE conjE)
      assume old: "path_of ?pm nm = Some pa" "pm_ref ?done pa = pm_ref ?pm pa"
      show ?thesis
      proof (cases "nm = k")
        case nm: True
        from old nm have "pa = pm_next pm" "pr_conf (pm_ref ?done pa) = c"
          by (simp_all add: pm')
        with True nm kc show ?thesis
          by (simp add: plain_def)
      next
        case False
        with old(1) have "path_of pm nm = Some pa"
          by (simp add: pm')
        moreover from this have "pa \<noteq> pm_next pm"
          using tables_okD(1) [OF Cons.prems(1), of nm pa] by (auto simp: path_registered_def)
        ultimately show ?thesis
          using old(2) by (simp add: pm')
      qed
    next
      assume "path_of ?pm nm = None" "(nm, pr_conf (pm_ref ?done pa)) \<in> set cs"
        "plain (nm, pr_conf (pm_ref ?done pa))" "pm_next ?pm \<le> pa"
      then show ?thesis
        by (auto simp: pm' split: if_splits)
    qed
  next
    case False
    then have "?pm = pm"
      using kc by (auto simp: create_missing_def path_of_def plain_def)
    with ih show ?thesis by auto
  qed
qed auto

lemma create_missing_confs: "pm_pathConfs (create_missing kc pm) = pm_pathConfs pm"
  by (simp add: create_missing_def)

lemma fold_keeps:
  assumes "\<And>x s. g (f x s) = g s"
  shows "g (fold f xs s) = g s"
  using assms by (induction xs arbitrary: s) auto

lemma next_conf_current: "confs_ok new \<Longrightarrow> next_conf new c = Some n \<Longrightarrow> map_of new (Name n) = Some n"
  using confs_ok_name by (auto simp: next_conf_def split: option.splits if_splits)

section \<open>The invariant\<close>

definition manager_ok :: "manager \<Rightarrow> bool" where
  "manager_ok pm =
     (tables_ok pm \<and> distinct (map fst (pm_paths pm)) \<and> confs_ok (pm_pathConfs pm) \<and>
      confs_current (pm_pathConfs pm) UNIV pm)"

lemma confs_current_subset: "confs_current cs UNIV pm \<Longrightarrow> confs_current cs ks pm"
  by (simp add: confs_current_def)

text \<open>A reload, all of it.\<close>

lemma doReloadConf_spec:
  assumes ok: "manager_ok pm" and new: "confs_ok new"
  defines "pm' \<equiv> manager_doReloadConf new pm"
  shows "tables_ok pm'" "pm_pathConfs pm' = new"
    "path_of pm nm = Some pa \<Longrightarrow> next_conf new (pr_conf (pm_ref pm pa)) = Some c \<Longrightarrow>
      path_of pm' nm = Some pa \<and> pr_conf (pm_ref pm' pa) = c"
    "path_of pm nm = Some pa \<Longrightarrow> next_conf new (pr_conf (pm_ref pm pa)) = None \<Longrightarrow> path_of pm' nm \<noteq> Some pa"
    "path_of pm' nm = Some pa \<Longrightarrow> path_of pm nm \<noteq> Some pa \<Longrightarrow> map_of new nm = Some (pr_conf (pm_ref pm' pa))"
    "path_of pm' nm = Some pa \<Longrightarrow> map_of new (Name (pr_conf (pm_ref pm' pa))) = Some (pr_conf (pm_ref pm' pa))"
    "kc \<in> set new \<Longrightarrow> plain kc \<Longrightarrow> path_of pm' (fst kc) \<noteq> None"
proof -
  let ?old = "pm_pathConfs pm"
  define pm1 where "pm1 = fold (reload_entry new) ?old pm"
  define pm2 where "pm2 = pm1\<lparr>pm_pathConfs := new\<rparr>"
  have pm': "pm' = fold create_missing new pm2"
    by (simp add: pm'_def manager_doReloadConf_def pm1_def pm2_def Let_def)
  have ok': "tables_ok pm" "confs_ok ?old" "confs_current ?old (fst ` set ?old) pm"
    using ok confs_current_subset by (auto simp: manager_ok_def)
  from reload_entries [OF ok'(1) new ok'(2,3)]
  have ok1: "tables_ok pm1" and after: "paths_after new (fst ` set ?old) pm pm1"
    by (simp_all add: pm1_def)
  have same2: "path_of pm2 = path_of pm1" "pm_ref pm2 = pm_ref pm1" "pm_next pm2 = pm_next pm1"
    "paths_of_conf k pm2 = paths_of_conf k pm1" "pm_pathsByConf pm2 = pm_pathsByConf pm1" for k
    by (simp_all add: pm2_def path_of_def paths_of_conf_def)
  have ok2: "tables_ok pm2"
    using ok1 by (simp add: tables_ok_def path_registered_def same2)
  have known: "conf_after new (fst ` set ?old) (pr_conf (pm_ref pm pa)) = next_conf new (pr_conf (pm_ref pm pa))"
    if pa: "path_of pm nm = Some pa" for nm pa
  proof -
    have "map_of ?old (Name (pr_conf (pm_ref pm pa))) = Some (pr_conf (pm_ref pm pa))"
      using ok pa by (simp add: manager_ok_def confs_current_def)
    then show ?thesis
      by (auto simp: conf_after_def dest!: map_of_SomeD intro!: rev_image_eqI)
  qed
  have kept: "path_of pm2 nm = Some pa \<and> pr_conf (pm_ref pm2 pa) = c"
    if "path_of pm nm = Some pa" "next_conf new (pr_conf (pm_ref pm pa)) = Some c" for nm pa c
    using paths_afterD(3) [OF after that(1)] known that by (simp add: same2)
  have gone: "path_of pm2 nm = None" if "path_of pm nm = None \<or>
      (\<exists>pa. path_of pm nm = Some pa \<and> next_conf new (pr_conf (pm_ref pm pa)) = None)" for nm
    using paths_afterD(1,2) [OF after, of nm] known that by (auto simp: same2)
  show "tables_ok pm'" "kc \<in> set new \<Longrightarrow> plain kc \<Longrightarrow> path_of pm' (fst kc) \<noteq> None"
    using create_all(1,3) [OF ok2] by (simp_all add: pm')
  show "pm_pathConfs pm' = new"
    unfolding pm' fold_keeps [of pm_pathConfs create_missing, OF create_missing_confs] by (simp add: pm2_def)
  show keep: "path_of pm' nm = Some pa \<and> pr_conf (pm_ref pm' pa) = c"
    if "path_of pm nm = Some pa" "next_conf new (pr_conf (pm_ref pm pa)) = Some c" for nm pa c
  proof -
    have "path_of pm' nm = Some pa"
      using kept [OF that] create_all(2) [OF ok2] by (simp add: pm')
    with create_all_new [OF ok2 new, of nm pa] kept [OF that] show ?thesis by (simp add: pm')
  qed
  have next2: "pm_next pm2 = pm_next pm"
    using fold_keeps [of pm_next "reload_entry new", OF reload_entry_next] by (simp add: same2 pm1_def)
  have old: "path_of pm nm = Some pa \<and> (\<exists>c. next_conf new (pr_conf (pm_ref pm pa)) = Some c)"
    if "path_of pm2 nm = Some pa" for nm pa
  proof (cases "path_of pm nm")
    case None
    with gone that show ?thesis by simp
  next
    case (Some pa')
    with gone that obtain c where c: "next_conf new (pr_conf (pm_ref pm pa')) = Some c"
      by (cases "next_conf new (pr_conf (pm_ref pm pa'))") auto
    with kept [OF Some c] that Some show ?thesis by simp
  qed
  note made = create_all_new [OF ok2 new, folded pm']
  show "path_of pm' nm \<noteq> Some pa"
    if "path_of pm nm = Some pa" "next_conf new (pr_conf (pm_ref pm pa)) = None"
  proof
    assume "path_of pm' nm = Some pa"
    moreover have "pa < pm_next pm"
      using tables_okD(1) [OF ok'(1) that(1)] by (simp add: path_registered_def)
    ultimately show False
      using made [of nm pa] gone [of nm] that next2 by auto
  qed
  show "map_of new nm = Some (pr_conf (pm_ref pm' pa))" if "path_of pm' nm = Some pa" "path_of pm nm \<noteq> Some pa"
    using made [OF that(1)] old [of nm pa] that(2) new by (auto simp: confs_ok_def)
  show "map_of new (Name (pr_conf (pm_ref pm' pa))) = Some (pr_conf (pm_ref pm' pa))" if pa: "path_of pm' nm = Some pa"
    using made [OF pa]
  proof (elim disjE conjE)
    assume "path_of pm2 nm = Some pa"
    with old obtain c where c: "path_of pm nm = Some pa" "next_conf new (pr_conf (pm_ref pm pa)) = Some c"
      by blast
    with keep [OF c] next_conf_current [OF new c(2)] show ?thesis by simp
  next
    assume "(nm, pr_conf (pm_ref pm' pa)) \<in> set new"
    with new show ?thesis by (auto simp: confs_ok_def)
  qed
qed

text \<open>The keys of the table of the paths.\<close>

lemma keys_distinct:
  "distinct (map fst (pm_paths pm)) \<Longrightarrow> distinct (map fst (pm_paths (createPath c nm ms pm)))"
  "distinct (map fst (pm_paths pm)) \<Longrightarrow> distinct (map fst (pm_paths (removePath pa pm)))"
  "distinct (map fst (pm_paths pm)) \<Longrightarrow> distinct (map fst (pm_paths (close_path pa pm)))"
  "distinct (map fst (pm_paths pm)) \<Longrightarrow> distinct (map fst (pm_paths (create_missing kc pm)))"
  by (simp_all add: createPath_def Let_def distinct_update removePath_def distinct_delete close_path_def create_missing_def)

lemma fold_inv:
  assumes "P s" "\<And>x s. P s \<Longrightarrow> P (f x s)"
  shows "P (fold f xs s)"
  using assms by (induction xs arbitrary: s) auto

lemma keys_reload:
  assumes "distinct (map fst (pm_paths pm))"
  shows "distinct (map fst (pm_paths (manager_doReloadConf new pm)))"
proof -
  let ?P = "\<lambda>pm. distinct (map fst (pm_paths pm))"
  have "?P (reload_entry new kc pm)" if "?P pm" for kc pm
    using that fold_inv [where P = ?P and f = close_path, OF _ keys_distinct(3)]
    by (simp add: reload_entry_def Let_def update_all split: option.split)
  then have "?P (fold (reload_entry new) (pm_pathConfs pm) pm)"
    by (intro fold_inv [where P = ?P] assms)
  then show ?thesis
    using fold_inv [where P = ?P and f = create_missing, OF _ keys_distinct(4)]
    by (simp add: manager_doReloadConf_def Let_def)
qed

lemma manager_ok_say [simp]: "manager_ok (say effs pm) = manager_ok pm"
  by (simp add: manager_ok_def confs_current_def)

lemma manager_ok_hls: "manager_ok pm \<Longrightarrow> manager_ok (doSetHLSServer b pm)"
  by (simp add: manager_ok_def confs_current_def doSetHLSServer_def tables_ok_def path_registered_def path_of_def
      paths_of_conf_def)

lemma manager_ok_create:
  assumes ok: "manager_ok pm" and free: "path_of pm nm = None" and c: "map_of (pm_pathConfs pm) (Name c) = Some c"
  shows "manager_ok (createPath c nm ms pm)"
proof -
  have "confs_current (pm_pathConfs pm) UNIV (createPath c nm ms pm)"
    unfolding confs_current_def
  proof (intro allI impI)
    fix n pa
    assume pa: "path_of (createPath c nm ms pm) n = Some pa"
    let ?c = "pr_conf (pm_ref (createPath c nm ms pm) pa)"
    show "map_of (pm_pathConfs pm) (Name ?c) = Some ?c"
    proof (cases "pa = pm_next pm")
      case True
      with c show ?thesis by simp
    next
      case False
      with pa have "path_of pm n = Some pa"
        by (auto split: if_splits)
      with ok False show ?thesis
        by (simp add: manager_ok_def confs_current_def)
    qed
  qed
  with ok free show ?thesis
    by (simp add: manager_ok_def createPath_ok keys_distinct)
qed

lemma manager_ok_remove:
  assumes ok: "manager_ok pm" and found: "path_of pm nm = Some pa"
  shows "manager_ok (removePath pa pm)"
proof -
  have "confs_current (pm_pathConfs pm) UNIV (removePath pa pm)"
    using ok by (auto simp: manager_ok_def confs_current_def)
  with ok found show ?thesis
    by (simp add: manager_ok_def removePath_ok [of pm nm] keys_distinct)
qed

lemma manager_ok_reload:
  assumes "manager_ok pm" "confs_ok new"
  shows "manager_ok (manager_doReloadConf new pm)"
  unfolding manager_ok_def confs_current_def
  using doReloadConf_spec(1,2,6) [OF assms] keys_reload assms by (simp add: manager_ok_def)

lemma FindPathConf_conf:
  assumes "confs_ok cs" "FindPathConf env cs nm = Inr (c, ms)"
  shows "map_of cs (Name c) = Some c"
proof -
  consider "map_of cs nm = Some c" | "find_regexp env cs nm = Some (c, ms)" | "find_all_others env cs nm = Inr (Some (c, ms))"
    using assms(2) by (auto simp: FindPathConf_def bindE_eq_Inr split: sum.splits option.splits)
  then have "\<exists>k. (k, c) \<in> set cs"
    by cases (auto dest: map_of_SomeD find_regexp_Some find_all_others_Some)
  with assms(1) show ?thesis
    by (auto simp: confs_ok_def)
qed

text \<open>Requests. The three handlers that return a path differ in whether the authentication may be skipped.\<close>

definition auth_of :: "manager_event \<Rightarrow> (access_request \<times> go_error option) option" where
  "auth_of ev =
     (case ev of
        ManagerDescribe req auth \<Rightarrow> Some (req, auth)
      | ManagerAddReader req auth \<Rightarrow> Some (req, if ar_skipAuth req then None else auth)
      | ManagerAddPublisher req auth \<Rightarrow> Some (req, if ar_skipAuth req then None else auth)
      | _ \<Rightarrow> None)"

lemma handle_request:
  assumes "auth_of ev = Some (req, auth)"
  shows "manager_handle env ev pm =
    (case FindPathConf env (pm_pathConfs pm) (ar_name req) of
       Inl e \<Rightarrow> say [ManagerReply (ar_id req) (ManagerErr e)] pm
     | Inr (c, ms) \<Rightarrow>
         (case auth of
            Some e \<Rightarrow> say [ManagerReply (ar_id req) (ManagerErr e)] pm
          | None \<Rightarrow> reply_path req (ensure_path c ms (ar_name req) pm)))"
  using assms
  by (cases ev) (auto simp: auth_of_def manager_doDescribe_def manager_doAddReader_def manager_doAddPublisher_def)

lemma manager_ok_ensure:
  assumes "manager_ok pm" "FindPathConf env (pm_pathConfs pm) nm = Inr (c, ms)"
  shows "manager_ok (ensure_path c ms nm pm)"
  using assms manager_ok_create [of pm nm c ms] FindPathConf_conf [of "pm_pathConfs pm" env nm c ms]
  by (auto simp: ensure_path_def path_of_def manager_ok_def)

lemma manager_ok_request:
  assumes ok: "manager_ok pm" and req: "auth_of ev = Some (req, auth)"
  shows "manager_ok (manager_handle env ev pm)"
proof (cases "FindPathConf env (pm_pathConfs pm) (ar_name req)")
  case (Inr r)
  then obtain c ms where r: "FindPathConf env (pm_pathConfs pm) (ar_name req) = Inr (c, ms)"
    by (cases r) auto
  with ok manager_ok_ensure [OF ok r] show ?thesis
    by (cases auth) (simp_all add: handle_request [OF req] reply_path_def)
qed (simp add: handle_request [OF req] ok)

definition event_fits :: "manager_event \<Rightarrow> bool" where
  "event_fits ev = (case ev of ManagerReloadConf cs \<Rightarrow> confs_ok cs | _ \<Rightarrow> True)"

lemma manager_handle_ok:
  assumes ok: "manager_ok pm" and fits: "event_fits ev"
  shows "manager_ok (manager_handle env ev pm)"
proof (cases "auth_of ev")
  case (Some r)
  then show ?thesis
    using manager_ok_request [OF ok] by (cases r) simp
next
  case None
  show ?thesis
  proof (cases ev)
    case (PathCloses pa)
    with ok manager_ok_remove [OF ok, of "pr_name (pm_ref pm pa)" pa] show ?thesis
      by (simp add: doClosePath_def path_of_def)
  qed (use None ok fits in \<open>simp_all add: auth_of_def event_fits_def manager_ok_reload manager_ok_hls doPathReady_def
    doPathNotReady_def doFindPathConf_def doAPIPathsList_def manager_doAPIPathsGet_def\<close>)
qed

lemma manager_initialize_ok:
  assumes "confs_ok cs"
  shows "manager_ok (manager_initialize cs)"
proof -
  let ?step = "\<lambda>(k, c) pm. if Regexp c = None then createPath c (Name c) [] pm else pm"
  let ?start = "\<lparr>pm_pathConfs = cs, pm_hls = False, pm_paths = [], pm_pathsByConf = [],
    pm_ref = (\<lambda>_. \<lparr>pr_name = [], pr_conf = zero_conf\<rparr>), pm_next = 0, pm_out = []\<rparr>"
  have "manager_ok (fold ?step xs pm)"
    if "manager_ok pm" "pm_pathConfs pm = cs" "set xs \<subseteq> set cs" "distinct (map fst xs)"
      "\<forall>kc \<in> set xs. path_of pm (fst kc) = None" for xs pm
    using that
  proof (induction xs arbitrary: pm)
    case (Cons kc xs)
    obtain k c where kc: "kc = (k, c)" by (cases kc)
    with Cons.prems(3) assms have c: "Name c = k" "map_of cs k = Some c"
      by (auto simp: confs_ok_def)
    have "manager_ok (?step kc pm)"
      using Cons.prems manager_ok_create [of pm k c "[]"] kc c by simp
    moreover have "\<forall>kc' \<in> set xs. path_of (?step kc pm) (fst kc') = None"
      using Cons.prems(4,5) kc c by (auto simp: rev_image_eqI)
    ultimately show ?case
      using Cons.prems kc by (simp add: Cons.IH)
  qed simp
  moreover have "manager_ok ?start"
    using assms by (simp add: manager_ok_def tables_ok_def confs_current_def path_of_def paths_of_conf_def)
  ultimately show ?thesis
    using assms unfolding manager_initialize_def by (simp add: path_of_def confs_ok_def)
qed

section \<open>Properties\<close>

inductive manager_reach :: "conf_env \<Rightarrow> manager \<Rightarrow> bool" for env where
  manager_start: "confs_ok cs \<Longrightarrow> manager_reach env (manager_initialize cs)"
| manager_step: "manager_reach env pm \<Longrightarrow> event_fits ev \<Longrightarrow> manager_reach env (manager_handle env ev pm)"

lemma manager_reach_ok: "manager_reach env pm \<Longrightarrow> manager_ok pm"
  by (induction rule: manager_reach.induct) (simp_all add: manager_initialize_ok manager_handle_ok)

text \<open>A configuration with one source, one for all other names, and a manager that a publisher has asked for a path.\<close>

definition cam_conf :: path_conf where
  "cam_conf = (setDefaults zero_conf)\<lparr>Name := ''cam'', Source := ''rtsp://10.0.0.2/cam''\<rparr>"

definition sample_confs :: "(string \<times> path_conf) list" where
  "sample_confs = [(''all_others'', catch_all_conf)]"

definition sample_request :: access_request where
  "sample_request = \<lparr>ar_id = 7, ar_name = ''cam'', ar_skipAuth = False\<rparr>"

definition sample_manager :: manager where
  "sample_manager = manager_handle sample_env (ManagerAddPublisher sample_request None) (manager_initialize sample_confs)"

lemma sample_confs_ok: "confs_ok sample_confs" "confs_ok (sample_confs @ [(''cam'', cam_conf)])"
  by (simp_all add: confs_ok_def sample_confs_def cam_conf_def catch_all_conf_def)

lemma sample_manager_reach: "manager_reach sample_env sample_manager"
  unfolding sample_manager_def
  by (intro manager_step manager_start sample_confs_ok) (simp add: event_fits_def)

lemma sample_manager_start: "manager_initialize sample_confs =
    \<lparr>pm_pathConfs = sample_confs, pm_hls = False, pm_paths = [], pm_pathsByConf = [],
     pm_ref = (\<lambda>_. \<lparr>pr_name = [], pr_conf = zero_conf\<rparr>), pm_next = 0, pm_out = []\<rparr>"
  by (simp add: manager_initialize_def sample_confs_def catch_all_conf_def)

lemma sample_lookup:
  "FindPathConf sample_env sample_confs ''cam'' = Inr (catch_all_conf, [''cam''])"
  "FindPathConf sample_env (sample_confs @ [(''cam'', cam_conf)]) ''cam'' = Inr (cam_conf, [])"
  by (simp_all add: FindPathConf_def isValidPathName_def name_char_def slash_def sample_confs_def sample_env_def
      catch_all_conf_def is_catch_all_def bindE_def)

lemma sample_manager_fields:
  "pm_pathConfs sample_manager = sample_confs" "path_of sample_manager = [''cam'' \<mapsto> 0]"
  "pr_conf (pm_ref sample_manager 0) = catch_all_conf" "pr_name (pm_ref sample_manager 0) = ''cam''"
  "pm_next sample_manager = 1" "paths_of_conf ''all_others'' sample_manager = [0]"
  using sample_lookup(1)
  by (simp_all add: sample_manager_def sample_manager_start manager_doAddPublisher_def sample_request_def ensure_path_def
      reply_path_def path_of_def createPath_def Let_def say_def paths_of_conf_def catch_all_conf_def fun_eq_iff)





text \<open>
  A reload leaves a path that an expression created with the expression's configuration, even when the new table has
  an entry for its very name. A publisher has made the path \<open>cam\<close> exist under \<open>all_others\<close>; the reload adds a configuration
  \<open>cam\<close> with a source. The path goes on with \<open>all_others\<close> although \<open>FindPathConf\<close> now returns the entry \<open>cam\<close>, and the
  path of that entry is not created. When the old path closes, no path is left, and the source is never started.
\<close>

theorem reload_shadowed_by_dynamic_path:
  defines "pm1 \<equiv> manager_handle sample_env (ManagerReloadConf (sample_confs @ [(''cam'', cam_conf)])) sample_manager"
    and "pm2 \<equiv> manager_handle sample_env (PathCloses 0)
      (manager_handle sample_env (ManagerReloadConf (sample_confs @ [(''cam'', cam_conf)])) sample_manager)"
  shows "FindPathConf sample_env (pm_pathConfs pm1) ''cam'' = Inr (cam_conf, []) \<and>
     path_of pm1 ''cam'' = Some 0 \<and> pr_conf (pm_ref pm1 0) = catch_all_conf \<and>
     map_of (pm_pathConfs pm2) ''cam'' = Some cam_conf \<and> Regexp cam_conf = None \<and> HasStaticSource cam_conf \<and>
     \<not> SourceOnDemand cam_conf \<and> path_of pm2 ''cam'' = None"
proof -
  note reload = doReloadConf_spec [OF manager_reach_ok [OF sample_manager_reach] sample_confs_ok(2)]
  have kept: "next_conf (sample_confs @ [(''cam'', cam_conf)]) catch_all_conf = Some catch_all_conf"
    by (simp add: next_conf_def sample_confs_def catch_all_conf_def)
  have pm1: "path_of pm1 ''cam'' = Some 0 \<and> pr_conf (pm_ref pm1 0) = catch_all_conf"
    "tables_ok pm1" "pm_pathConfs pm1 = sample_confs @ [(''cam'', cam_conf)]"
    using reload(3) [of "''cam''" 0 catch_all_conf] kept reload(1,2) by (simp_all add: pm1_def sample_manager_fields)
  then have found: "FindPathConf sample_env (pm_pathConfs pm1) ''cam'' = Inr (cam_conf, [])"
    using sample_lookup(2) by simp
  have "pr_name (pm_ref pm1 0) = ''cam''"
    using tables_okD(1) [OF pm1(2), of "''cam''" 0] pm1(1) by simp
  moreover have "pm2 = doClosePath 0 pm1"
    by (simp add: pm2_def pm1_def)
  ultimately have "path_of pm2 ''cam'' = None" "pm_pathConfs pm2 = pm_pathConfs pm1"
    using pm1(1) by (simp_all add: doClosePath_def path_of_def [symmetric])
  with pm1(1,3) found show ?thesis
    by (simp add: sample_confs_def cam_conf_def setDefaults_def zero_conf_def HasStaticSource_def HasPrefix_def)
qed

text \<open>What a request that is not refused does: it returns the path of that name, which it may create.\<close>

definition request_served :: "access_request \<Rightarrow> path_conf \<Rightarrow> string list \<Rightarrow> manager \<Rightarrow> manager \<Rightarrow> bool" where
  "request_served req c ms pm pm' =
     (\<exists>pa. path_of pm' = (path_of pm)(ar_name req \<mapsto> pa) \<and> pr_name (pm_ref pm' pa) = ar_name req \<and>
        pm_out pm' = pm_out pm @ (if path_of pm (ar_name req) = None then [CreatePath pa ms] else []) @
          [ManagerReply (ar_id req) (ManagerPath pa)] \<and>
        (if path_of pm (ar_name req) = None
         then pr_conf (pm_ref pm' pa) = c \<and> (\<forall>nm. path_of pm nm \<noteq> Some pa)
         else pm_ref pm' = pm_ref pm))"

lemma reply_served:
  assumes tables: "tables_ok pm"
  shows "request_served req c ms pm (reply_path req (ensure_path c ms (ar_name req) pm))"
proof (cases "path_of pm (ar_name req)")
  case None
  have fresh: "path_of pm nm \<noteq> Some (pm_next pm)" for nm
    using tables_okD(1) [OF tables, of nm "pm_next pm"] by (auto simp: path_registered_def)
  with None show ?thesis
    unfolding request_served_def by (intro exI [of _ "pm_next pm"])
      (simp add: reply_path_def ensure_path_def path_of_def createPath_def Let_def say_def update_conv')
next
  case (Some pa)
  with tables_okD(1) [OF tables Some] show ?thesis
    unfolding request_served_def
    by (intro exI [of _ pa]) (auto simp: reply_path_def ensure_path_def path_of_def say_def)
qed

text \<open>
  C10. A request for a path: to describe it, read from it or publish to it. The error of the lookup and the one of the authentication
  are what is replied, and then nothing is created. Else the reply is the path that has the requested name: the one that exists, or
  a new one with the configuration and the groups that the lookup found. No other name is touched.
\<close>

theorem path_request_served:
  assumes "manager_reach env pm" "auth_of ev = Some (req, auth)"
  defines "pm' \<equiv> manager_handle env ev pm"
  shows "case FindPathConf env (pm_pathConfs pm) (ar_name req) of
      Inl e \<Rightarrow> pm' = say [ManagerReply (ar_id req) (ManagerErr e)] pm
    | Inr (c, ms) \<Rightarrow>
        (case auth of
           Some e \<Rightarrow> pm' = say [ManagerReply (ar_id req) (ManagerErr e)] pm
         | None \<Rightarrow> request_served req c ms pm pm')"
proof -
  have tables: "tables_ok pm"
    using manager_reach_ok [OF assms(1)] by (simp add: manager_ok_def)
  show ?thesis
    using reply_served [OF tables] handle_request [OF assms(2), of env pm]
    by (simp add: pm'_def split: sum.split prod.split option.split)
qed

lemma path_request_served_witness:
  "\<exists>pa. path_of (manager_handle sample_env (ManagerDescribe sample_request None) sample_manager) = [''cam'' \<mapsto> pa]"
proof -
  have "auth_of (ManagerDescribe sample_request None) = Some (sample_request, None)"
    by (simp add: auth_of_def)
  from path_request_served [OF sample_manager_reach this] show ?thesis
    by (auto simp: sample_manager_fields sample_lookup sample_request_def request_served_def)
qed

end
