(* ===== verification/AuthManager.thy ===== *)
theory AuthManager
  imports AuthUser GoUrl
begin

text \<open>
  The authentication manager, \<open>internal/auth/manager.go\<close> and \<open>request.go\<close>: internal users, an external HTTP server, and
  JSON web tokens, of which the keys are kept for an hour.

  Parameters, in the record \<open>auth_env\<close>: the regular expressions, the HTTP client, the JSON decoder, and the libraries that
  read the RTSP header \<open>Authorization\<close>, validate a digest, build a key set and parse a token. The type \<open>'q\<close> stands for an RTSP
  request and \<open>'k\<close> for a key set. A time counts nanoseconds.
\<close>

section \<open>Data\<close>

record 'q auth_request =
  rq_User :: string
  rq_Pass :: string
  rq_IP :: ip
  rq_Action :: auth_action
  rq_Path :: string
  rq_Protocol :: string
  rq_ID :: "string option"
  rq_Query :: string
  rq_RTSPRequest :: "'q option"
  rq_RTSPNonce :: string

text \<open>The body of the request to an external server, of which the JSON form is sent.\<close>

record auth_body =
  ab_IP :: ip
  ab_User :: string
  ab_Password :: string
  ab_Action :: string
  ab_Path :: string
  ab_Protocol :: string
  ab_ID :: "string option"
  ab_Query :: string

text \<open>The status and the body of a reply, the body being absent when it cannot be read.\<close>

record http_reply =
  StatusCode :: int
  Body :: "string option"

datatype rtsp_method = AuthMethodBasic | AuthMethodDigest

record rtsp_authorization =
  ra_Method :: rtsp_method
  ra_BasicUser :: string
  ra_BasicPass :: string
  ra_Username :: string

record ('q, 'k) auth_env =
  ae_hash :: hash_env
  regexp_Compile :: "string \<Rightarrow> bool"
  regexp_MatchString :: "string \<Rightarrow> string \<Rightarrow> bool"
  rtsp_Authorization :: "'q \<Rightarrow> rtsp_authorization option"
  rtsp_Validate :: "'q \<Rightarrow> string \<Rightarrow> string \<Rightarrow> nat list \<Rightarrow> string \<Rightarrow> string \<Rightarrow> go_error option"
  http_Post :: "string \<Rightarrow> auth_body \<Rightarrow> http_reply result"
  http_Get :: "string \<Rightarrow> string result"
  json_Raw :: "string \<Rightarrow> string result"
  json_RegisteredClaims :: "string \<Rightarrow> unit result"
  json_Map :: "string \<Rightarrow> (string \<times> string) list result"
  json_Permissions :: "string \<Rightarrow> permission list result"
  NewJWKSetJSON :: "string \<Rightarrow> 'k result"
  jwt_ParseWithClaims :: "(string \<Rightarrow> permission list result) \<Rightarrow> 'k \<Rightarrow> string \<Rightarrow> permission list result"

datatype auth_method = AuthMethodInternal | AuthMethodHTTP | AuthMethodJWT

record 'k auth_manager =
  am_Method :: auth_method
  am_InternalUsers :: "auth_internal_user list"
  am_HTTPAddress :: string
  am_HTTPExclude :: "permission list"
  am_JWTJWKS :: string
  am_JWTClaimKey :: string
  am_RTSPAuthMethods :: "nat list"
  am_jwtLastRefresh :: "int option"
  am_jwtKeyFunc :: "'k option"

text \<open>\<open>auth.Error\<close>: the error whose text is the message, and whether credentials are to be asked for.\<close>

record auth_error =
  Message :: go_error
  AskCredentials :: bool

section \<open>Permissions\<close>

definition path_action :: "auth_action \<Rightarrow> bool" where
  "path_action a = (a = AuthActionPublish \<or> a = AuthActionRead \<or> a = AuthActionPlayback)"

definition path_granted :: "('q, 'k) auth_env \<Rightarrow> string \<Rightarrow> string \<Rightarrow> bool" where
  "path_granted env perm p =
     (if perm = [] then True
      else if HasPrefix perm ''~'' then regexp_Compile env (tl perm) \<and> regexp_MatchString env (tl perm) p
      else perm = p)"

fun matchesPermission :: "('q, 'k) auth_env \<Rightarrow> permission list \<Rightarrow> 'q auth_request \<Rightarrow> bool" where
  "matchesPermission env [] req = False"
| "matchesPermission env (perm # perms) req =
     (if PermAction perm = rq_Action req then
        (if path_action (PermAction perm) then
           (if path_granted env (PermPath perm) (rq_Path req) then True else matchesPermission env perms req)
         else True)
      else matchesPermission env perms req)"

section \<open>Internal users\<close>

definition rtspAuthRealm :: string where
  "rtspAuthRealm = ''IPCAM''"

definition failed :: "string \<Rightarrow> go_error option" where
  "failed msg = Some (Errorf msg [])"

definition authenticateWithUser ::
    "('q, 'k) auth_env \<Rightarrow> 'k auth_manager \<Rightarrow> 'q auth_request \<Rightarrow> rtsp_authorization option \<Rightarrow> auth_internal_user \<Rightarrow>
     go_error option" where
  "authenticateWithUser env m req header u =
     (if User u \<noteq> ''any'' \<and> \<not> Credential_Check (ae_hash env) (User u) (rq_User req) then failed ''wrong user''
      else if IPs u \<noteq> [] \<and> \<not> IPNetworks_Contains (IPs u) (rq_IP req) then failed ''IP not allowed''
      else if \<not> matchesPermission env (Permissions u) req then
        failed ''user doesn't have permission to perform action''
      else if User u \<noteq> ''any'' then
        (case (rq_RTSPRequest req, header) of
           (Some rtsp, Some h) \<Rightarrow>
             if ra_Method h = AuthMethodDigest then
               rtsp_Validate env rtsp (User u) (Pass u) (am_RTSPAuthMethods m) rtspAuthRealm (rq_RTSPNonce req)
             else if \<not> Credential_Check (ae_hash env) (Pass u) (rq_Pass req) then failed ''invalid credentials''
             else None
         | _ \<Rightarrow> if \<not> Credential_Check (ae_hash env) (Pass u) (rq_Pass req) then failed ''invalid credentials'' else None)
      else None)"

definition rtsp_header :: "('q, 'k) auth_env \<Rightarrow> 'q auth_request \<Rightarrow> rtsp_authorization option" where
  "rtsp_header env req = (case rq_RTSPRequest req of None \<Rightarrow> None | Some rtsp \<Rightarrow> rtsp_Authorization env rtsp)"

definition authenticateInternal ::
    "('q, 'k) auth_env \<Rightarrow> 'k auth_manager \<Rightarrow> 'q auth_request \<Rightarrow> go_error option" where
  "authenticateInternal env m req =
     (if list_ex (\<lambda>u. authenticateWithUser env m req (rtsp_header env req) u = None) (am_InternalUsers m) then None
      else failed ''authentication failed'')"

section \<open>An external server\<close>

definition body_of :: "'q auth_request \<Rightarrow> auth_body" where
  "body_of req =
     \<lparr>ab_IP = rq_IP req, ab_User = rq_User req, ab_Password = rq_Pass req, ab_Action = action_text (rq_Action req),
      ab_Path = rq_Path req, ab_Protocol = rq_Protocol req, ab_ID = rq_ID req, ab_Query = rq_Query req\<rparr>"

definition authenticateHTTP ::
    "('q, 'k) auth_env \<Rightarrow> 'k auth_manager \<Rightarrow> 'q auth_request \<Rightarrow> go_error option" where
  "authenticateHTTP env m req =
     (if matchesPermission env (am_HTTPExclude m) req then None
      else
        (case http_Post env (am_HTTPAddress m) (body_of req) of
           Inl e \<Rightarrow> Some (Wrapped ''HTTP request failed: %w'' e)
         | Inr res \<Rightarrow>
             if StatusCode res < 200 \<or> StatusCode res > 299 then
               (case Body res of
                  Some b \<Rightarrow> if b \<noteq> [] then Some (Errorf (''server replied with code %d: '' @ b) [StatusCode res])
                            else Some (Errorf ''server replied with code %d'' [StatusCode res])
                | None \<Rightarrow> Some (Errorf ''server replied with code %d'' [StatusCode res]))
             else None))"

section \<open>Tokens\<close>

definition customClaims_UnmarshalJSON :: "('q, 'k) auth_env \<Rightarrow> string \<Rightarrow> string \<Rightarrow> permission list result" where
  "customClaims_UnmarshalJSON env permissionsKey b =
     bindE (json_RegisteredClaims env b) (\<lambda>_.
     bindE (json_Map env b) (\<lambda>claimMap.
     case map_of claimMap permissionsKey of
       None \<Rightarrow> Inl (Errorf (''claim '' @ quoted permissionsKey @ '' not found inside JWT'') [])
     | Some raw \<Rightarrow> json_Permissions env raw))"

definition jwtRefreshPeriod :: int where
  "jwtRefreshPeriod = 60 * 60 * second"

text \<open>The zero time is longer ago than any period. A key function that is absent is a nil interface, and calling it is a panic.\<close>

definition pullJWTJWKS ::
    "('q, 'k) auth_env \<Rightarrow> int \<Rightarrow> 'k auth_manager \<Rightarrow> 'k auth_manager \<times> 'k result" where
  "pullJWTJWKS env now m =
     (if (case am_jwtLastRefresh m of None \<Rightarrow> True | Some t \<Rightarrow> now - t \<ge> jwtRefreshPeriod) then
        (case bindE (http_Get env (am_JWTJWKS m)) (\<lambda>body. bindE (json_Raw env body) (NewJWKSetJSON env)) of
           Inl e \<Rightarrow> (m, Inl e)
         | Inr k \<Rightarrow> (m\<lparr>am_jwtKeyFunc := Some k, am_jwtLastRefresh := Some now\<rparr>, Inr k))
      else (m, case am_jwtKeyFunc m of None \<Rightarrow> Inl Panic | Some k \<Rightarrow> Inr k))"

definition query_token :: "string \<Rightarrow> string result" where
  "query_token q =
     (case ParseQuery q of
        (_, Some e) \<Rightarrow> Inl e
      | (v, None) \<Rightarrow>
          (case values_of v ''jwt'' of
             [t] \<Rightarrow> Inr t
           | _ \<Rightarrow> Inl (Errorf ''JWT not provided'' [])))"

definition authenticateJWT ::
    "('q, 'k) auth_env \<Rightarrow> int \<Rightarrow> 'k auth_manager \<Rightarrow> 'q auth_request \<Rightarrow> 'k auth_manager \<times> go_error option" where
  "authenticateJWT env now m req =
     (let (m', key) = pullJWTJWKS env now m in
      (m', case bindE key (\<lambda>k. bindE (query_token (rq_Query req)) (\<lambda>t.
               jwt_ParseWithClaims env (customClaims_UnmarshalJSON env (am_JWTClaimKey m')) k t)) of
             Inl e \<Rightarrow> Some e
           | Inr perms \<Rightarrow>
               if \<not> matchesPermission env perms req then failed ''user doesn't have permission to perform action''
               else None))"

section \<open>The manager\<close>

definition ReloadInternalUsers :: "auth_internal_user list \<Rightarrow> 'k auth_manager \<Rightarrow> 'k auth_manager" where
  "ReloadInternalUsers us m = m\<lparr>am_InternalUsers := us\<rparr>"

definition Authenticate ::
    "('q, 'k) auth_env \<Rightarrow> int \<Rightarrow> 'k auth_manager \<Rightarrow> 'q auth_request \<Rightarrow> 'k auth_manager \<times> auth_error option" where
  "Authenticate env now m req =
     (let (m', err) =
        (case am_Method m of
           AuthMethodInternal \<Rightarrow> (m, authenticateInternal env m req)
         | AuthMethodHTTP \<Rightarrow> (m, authenticateHTTP env m req)
         | AuthMethodJWT \<Rightarrow> authenticateJWT env now m req)
      in (m', case err of
                None \<Rightarrow> None
              | Some e \<Rightarrow> Some \<lparr>Message = e, AskCredentials = (rq_User req = [] \<and> rq_Pass req = [])\<rparr>))"

section \<open>Filling a request\<close>

definition addJWTFromAuthorization :: "string \<Rightarrow> string \<Rightarrow> string" where
  "addJWTFromAuthorization rawQuery auth =
     (let jwt = (if HasPrefix auth ''Bearer '' then drop (length ''Bearer '') auth else auth);
      (v, err) = ParseQuery rawQuery
      in if rawQuery \<noteq> [] \<and> err = None \<and> values_get v ''jwt'' = [] then Values_Encode (values_set ''jwt'' jwt v)
         else Values_Encode [(''jwt'', [jwt])])"

text \<open>An HTTP request: its raw query, what \<open>BasicAuth\<close> returns, and the header \<open>Authorization\<close>.\<close>

record http_request =
  RawQuery :: string
  BasicAuth :: "string \<times> string"
  AuthorizationHeader :: string

definition FillFromHTTPRequest :: "http_request \<Rightarrow> 'q auth_request \<Rightarrow> 'q auth_request" where
  "FillFromHTTPRequest h r =
     (let r1 = r\<lparr>rq_Query := RawQuery h, rq_User := fst (BasicAuth h), rq_Pass := snd (BasicAuth h)\<rparr>;
          auth = AuthorizationHeader h in
      if HasPrefix auth ''Bearer '' then
        (case Split (drop (length ''Bearer '') auth) CHR '':'' of
           [u, p] \<Rightarrow> r1\<lparr>rq_User := u, rq_Pass := p\<rparr>
         | _ \<Rightarrow> r1\<lparr>rq_Query := addJWTFromAuthorization (rq_Query r1) auth\<rparr>)
      else r1)"

definition FillFromRTSPRequest :: "('q, 'k) auth_env \<Rightarrow> 'q \<Rightarrow> 'q auth_request \<Rightarrow> 'q auth_request" where
  "FillFromRTSPRequest env rt r =
     (case rtsp_Authorization env rt of
        None \<Rightarrow> r
      | Some h \<Rightarrow>
          if ra_Method h = AuthMethodBasic then r\<lparr>rq_User := ra_BasicUser h, rq_Pass := ra_BasicPass h\<rparr>
          else r\<lparr>rq_User := ra_Username h\<rparr>)"


section \<open>What an accepted request says\<close>

text \<open>
  A user admits a request if the name of the user, the address, the permission and the password all fit; whoever the
  name \<open>any\<close> stands for needs no password.
\<close>

definition permission_for :: "('q, 'k) auth_env \<Rightarrow> 'q auth_request \<Rightarrow> permission \<Rightarrow> bool" where
  "permission_for env req p =
     (PermAction p = rq_Action req \<and> (path_action (rq_Action req) \<longrightarrow> path_granted env (PermPath p) (rq_Path req)))"

definition digest_used :: "('q, 'k) auth_env \<Rightarrow> 'q auth_request \<Rightarrow> bool" where
  "digest_used env req = (\<exists>h. rtsp_header env req = Some h \<and> ra_Method h = AuthMethodDigest)"

definition password_fits :: "('q, 'k) auth_env \<Rightarrow> 'k auth_manager \<Rightarrow> 'q auth_request \<Rightarrow> auth_internal_user \<Rightarrow> bool" where
  "password_fits env m req u =
     (if digest_used env req
      then \<exists>rtsp. rq_RTSPRequest req = Some rtsp \<and>
        rtsp_Validate env rtsp (User u) (Pass u) (am_RTSPAuthMethods m) rtspAuthRealm (rq_RTSPNonce req) = None
      else Credential_Check (ae_hash env) (Pass u) (rq_Pass req))"

definition user_admits :: "('q, 'k) auth_env \<Rightarrow> 'k auth_manager \<Rightarrow> 'q auth_request \<Rightarrow> auth_internal_user \<Rightarrow> bool" where
  "user_admits env m req u =
     ((User u = ''any'' \<or> Credential_Check (ae_hash env) (User u) (rq_User req) \<and> password_fits env m req u) \<and>
      (IPs u = [] \<or> (\<exists>n \<in> set (IPs u). IPNet_Contains n (rq_IP req))) \<and>
      (\<exists>p \<in> set (Permissions u). permission_for env req p))"

lemma matchesPermission_iff:
  "matchesPermission env perms req \<longleftrightarrow> (\<exists>p \<in> set perms. permission_for env req p)"
  by (induction perms) (auto simp: permission_for_def)

lemma authenticateWithUser_iff:
  "authenticateWithUser env m req (rtsp_header env req) u = None \<longleftrightarrow> user_admits env m req u"
proof -
  have digest: "rq_RTSPRequest req = None \<Longrightarrow> \<not> digest_used env req"
    "rq_RTSPRequest req = Some rtsp \<Longrightarrow> rtsp_Authorization env rtsp = None \<Longrightarrow> \<not> digest_used env req"
    "rq_RTSPRequest req = Some rtsp \<Longrightarrow> rtsp_Authorization env rtsp = Some h \<Longrightarrow>
      digest_used env req = (ra_Method h = AuthMethodDigest)" for rtsp h
    by (simp_all add: digest_used_def rtsp_header_def)
  have networks: "IPNetworks_Contains (IPs u) (rq_IP req) = (\<exists>n \<in> set (IPs u). IPNet_Contains n (rq_IP req))"
    by (simp add: IPNetworks_Contains_def list_ex_iff)
  show ?thesis
    unfolding authenticateWithUser_def user_admits_def matchesPermission_iff networks
    by (cases "rq_RTSPRequest req"; cases "rtsp_header env req")
      (auto simp: failed_def password_fits_def digest rtsp_header_def)
qed

lemma authenticateInternal_iff:
  "authenticateInternal env m req = None \<longleftrightarrow> (\<exists>u \<in> set (am_InternalUsers m). user_admits env m req u)"
  by (simp add: authenticateInternal_def list_ex_iff authenticateWithUser_iff failed_def)

text \<open>
  C25. With internal users a request is accepted exactly if one of the users admits it: the name matches the credential
  or is \<open>any\<close>, the address is in one of the networks if there are any, a permission has the action and, for the actions that concern a
  path, covers the path, and the password or the digest is right. The order of the users and of their permissions makes no difference.
\<close>

theorem authenticate_internal_iff:
  assumes "am_Method m = AuthMethodInternal"
  shows "snd (Authenticate env now m req) = None \<longleftrightarrow> (\<exists>u \<in> set (am_InternalUsers m). user_admits env m req u)"
  using authenticateInternal_iff [of env m req] assms
  by (auto simp: Authenticate_def split: option.splits)

text \<open>A manager with one user, who may read the paths below \<open>live/\<close> and publish to one of them.\<close>

definition sample_hash :: hash_env where
  "sample_hash = \<lparr>sha256 = \<lambda>s. s, argon2_VerifyEncoded = \<lambda>_ _. Inr False, argon2_Decode = \<lambda>_. Inr ()\<rparr>"

lemma sample_digest: "sha256Base64 sample_hash ''pw'' = ''cHc=''"
  by code_simp

definition sample_auth_env :: "(unit, string) auth_env" where
  "sample_auth_env =
     \<lparr>ae_hash = sample_hash,
      regexp_Compile = \<lambda>_. True, regexp_MatchString = \<lambda>rx p. HasPrefix p ''live/'',
      rtsp_Authorization = \<lambda>_. None, rtsp_Validate = \<lambda>_ _ _ _ _ _. None,
      http_Post = \<lambda>_ _. Inr \<lparr>StatusCode = 401, Body = None\<rparr>, http_Get = \<lambda>_. Inr ''keys'', json_Raw = Inr,
      json_RegisteredClaims = \<lambda>_. Inr (), json_Map = \<lambda>b. Inr [(''permissions'', b)],
      json_Permissions = \<lambda>_. Inr [\<lparr>PermAction = AuthActionRead, PermPath = ''live/cam''\<rparr>],
      NewJWKSetJSON = Inr, jwt_ParseWithClaims = \<lambda>claims k t. if t = ''signed'' then claims t else Inl (External 0)\<rparr>"

definition sample_user :: auth_internal_user where
  "sample_user =
     \<lparr>User = ''alice'', Pass = ''sha256:cHc='', IPs = [\<lparr>net_IP = [10, 0, 0, 0], net_Mask = [255, 0, 0, 0]\<rparr>],
      Permissions = [\<lparr>PermAction = AuthActionRead, PermPath = ''~^live/''\<rparr>, \<lparr>PermAction = AuthActionPublish, PermPath = ''live/cam''\<rparr>]\<rparr>"

definition sample_auth_manager :: "auth_method \<Rightarrow> string auth_manager" where
  "sample_auth_manager method =
     \<lparr>am_Method = method, am_InternalUsers = [sample_user], am_HTTPAddress = [], am_HTTPExclude = [],
      am_JWTJWKS = ''http://keys'', am_JWTClaimKey = ''permissions'', am_RTSPAuthMethods = [],
      am_jwtLastRefresh = None, am_jwtKeyFunc = None\<rparr>"

definition sample_auth_request :: "auth_action \<Rightarrow> string \<Rightarrow> string \<Rightarrow> unit auth_request" where
  "sample_auth_request a p q =
     \<lparr>rq_User = ''alice'', rq_Pass = ''pw'', rq_IP = [10, 1, 2, 3], rq_Action = a, rq_Path = p, rq_Protocol = ''rtmp'',
      rq_ID = None, rq_Query = q, rq_RTSPRequest = None, rq_RTSPNonce = []\<rparr>"

lemma sample_user_admits:
  "user_admits sample_auth_env m (sample_auth_request AuthActionRead ''live/cam'' q) sample_user"
  "\<not> user_admits sample_auth_env m (sample_auth_request AuthActionPublish ''live/door'' q) sample_user"
  by (simp_all add: user_admits_def password_fits_def digest_used_def rtsp_header_def permission_for_def path_granted_def
      Credential_Check_def IsSha256_def IsArgon2_def sample_digest IPNet_Contains_def To4_def
      networkNumberAndMask_def sample_auth_env_def sample_auth_request_def sample_user_def path_action_def Let_def)

lemma authenticate_internal_iff_witness:
  "snd (Authenticate sample_auth_env 0 (sample_auth_manager AuthMethodInternal)
      (sample_auth_request AuthActionRead ''live/cam'' [])) = None \<and>
   snd (Authenticate sample_auth_env 0 (sample_auth_manager AuthMethodInternal)
      (sample_auth_request AuthActionPublish ''live/door'' [])) \<noteq> None"
proof -
  have "am_Method (sample_auth_manager AuthMethodInternal) = AuthMethodInternal"
    by (simp add: sample_auth_manager_def)
  note iff = authenticate_internal_iff [OF this]
  have "am_InternalUsers (sample_auth_manager AuthMethodInternal) = [sample_user]"
    by (simp add: sample_auth_manager_def)
  then show ?thesis
    unfolding iff by (simp add: sample_user_admits)
qed


text \<open>
  The states that the manager gets into: the network may answer differently at every request. A key set is there as soon
  as a refresh has succeeded.
\<close>

datatype ('q, 'k) auth_event = AuthRequest "('q, 'k) auth_env" int "'q auth_request" | AuthReload "auth_internal_user list"

fun auth_step :: "('q, 'k) auth_event \<Rightarrow> 'k auth_manager \<Rightarrow> 'k auth_manager" where
  "auth_step (AuthRequest env now req) m = fst (Authenticate env now m req)"
| "auth_step (AuthReload us) m = ReloadInternalUsers us m"

definition auth_fresh :: "'k auth_manager \<Rightarrow> bool" where
  "auth_fresh m = (am_jwtLastRefresh m = None \<and> am_jwtKeyFunc m = None)"

definition keys_ok :: "'k auth_manager \<Rightarrow> bool" where
  "keys_ok m = (am_jwtLastRefresh m \<noteq> None \<longrightarrow> am_jwtKeyFunc m \<noteq> None)"

lemma pullJWTJWKS_spec:
  assumes "pullJWTJWKS env now m = (m', r)" "keys_ok m"
  shows "keys_ok m'" "am_JWTClaimKey m' = am_JWTClaimKey m" "am_Method m' = am_Method m"
    "am_InternalUsers m' = am_InternalUsers m"
    "r = Inr k \<Longrightarrow> am_jwtKeyFunc m' = Some k \<and> (\<exists>t. am_jwtLastRefresh m' = Some t \<and> (t = now \<or> now - t < jwtRefreshPeriod))"
    "r = Inl e \<Longrightarrow> bindE (http_Get env (am_JWTJWKS m)) (\<lambda>body. bindE (json_Raw env body) (NewJWKSetJSON env)) = Inl e"
  using assms by (auto simp: pullJWTJWKS_def keys_ok_def split: if_splits sum.splits option.splits)

lemma authenticateJWT_fst: "fst (authenticateJWT env now m req) = fst (pullJWTJWKS env now m)"
  by (simp add: authenticateJWT_def case_prod_unfold Let_def)

lemma Authenticate_keys:
  assumes "keys_ok m"
  shows "keys_ok (fst (Authenticate env now m req))"
  using assms pullJWTJWKS_spec(1) [of env now m "fst (pullJWTJWKS env now m)" "snd (pullJWTJWKS env now m)"]
  by (cases "am_Method m") (simp_all add: Authenticate_def case_prod_unfold Let_def authenticateJWT_fst)

lemma auth_step_keys: "keys_ok m \<Longrightarrow> keys_ok (auth_step ev m)"
proof (cases ev)
  case (AuthRequest env now req)
  then show "keys_ok m \<Longrightarrow> keys_ok (auth_step ev m)"
    by (simp add: Authenticate_keys)
next
  case (AuthReload us)
  then show "keys_ok m \<Longrightarrow> keys_ok (auth_step ev m)"
    by (simp add: keys_ok_def ReloadInternalUsers_def)
qed

lemma auth_run_keys: "auth_fresh m \<Longrightarrow> keys_ok (fold auth_step evs m)"
proof -
  have "keys_ok m \<Longrightarrow> keys_ok (fold auth_step evs m)"
    by (induction evs arbitrary: m) (simp_all add: auth_step_keys)
  then show "auth_fresh m \<Longrightarrow> keys_ok (fold auth_step evs m)"
    by (simp add: auth_fresh_def keys_ok_def)
qed

lemma query_token_eq:
  "query_token q = Inr t \<longleftrightarrow> snd (ParseQuery q) = None \<and> values_of (fst (ParseQuery q)) ''jwt'' = [t]"
  by (auto simp: query_token_def split: prod.splits option.splits list.splits)

text \<open>
  With tokens a request is accepted only if its query can be read and holds one value \<open>jwt\<close>, the library accepts this token under
  a key set that is at most an hour old, and the claim that is named in the configuration grants the action.
  A key function that is absent is never called.
\<close>

theorem authenticate_token:
  assumes "auth_fresh m0" "m = fold auth_step evs m0" "am_Method m = AuthMethodJWT" "Authenticate env now m req = (m', err)"
  shows "(err = None \<longrightarrow>
      (\<exists>t k refreshed perms.
         snd (ParseQuery (rq_Query req)) = None \<and> values_of (fst (ParseQuery (rq_Query req))) ''jwt'' = [t] \<and>
         am_jwtKeyFunc m' = Some k \<and> am_jwtLastRefresh m' = Some refreshed \<and>
         (refreshed = now \<or> now - refreshed < jwtRefreshPeriod) \<and>
         jwt_ParseWithClaims env (customClaims_UnmarshalJSON env (am_JWTClaimKey m)) k t = Inr perms \<and>
         (\<exists>p \<in> set perms. permission_for env req p))) \<and>
    (am_jwtLastRefresh m \<noteq> None \<longrightarrow> am_jwtKeyFunc m \<noteq> None)"
proof -
  have keys: "keys_ok m"
    using auth_run_keys [OF assms(1), of evs] assms(2) by simp
  obtain m1 r where pull: "pullJWTJWKS env now m = (m1, r)"
    by (cases "pullJWTJWKS env now m")
  note spec = pullJWTJWKS_spec [OF pull keys]
  have m': "m' = m1" and err: "err = None \<longleftrightarrow> snd (authenticateJWT env now m req) = None"
    using assms(3,4) pull by (auto simp: Authenticate_def authenticateJWT_def split: option.splits)
  have "\<exists>t k perms. r = Inr k \<and> query_token (rq_Query req) = Inr t \<and>
      jwt_ParseWithClaims env (customClaims_UnmarshalJSON env (am_JWTClaimKey m)) k t = Inr perms \<and>
      matchesPermission env perms req" if "err = None"
    using that err pull spec(2)
    by (auto simp: authenticateJWT_def failed_def bindE_eq_Inr split: sum.splits if_splits)
  with spec(5) keys show ?thesis
    unfolding m' by (fastforce simp: query_token_eq matchesPermission_iff keys_ok_def)
qed

lemma sample_token: "ParseQuery ''jwt=signed'' = ([(''jwt'', [''signed''])], None)"
  by code_simp

lemma authenticate_token_witness:
  "\<exists>m'. Authenticate sample_auth_env 7 (sample_auth_manager AuthMethodJWT)
      (sample_auth_request AuthActionRead ''live/cam'' ''jwt=signed'') = (m', None) \<and> am_jwtLastRefresh m' = Some 7"
proof -
  let ?m = "sample_auth_manager AuthMethodJWT"
  let ?req = "sample_auth_request AuthActionRead ''live/cam'' ''jwt=signed''"
  have start: "auth_fresh ?m" "?m = fold auth_step ([] :: (unit, string) auth_event list) ?m" "am_Method ?m = AuthMethodJWT"
    by (simp_all add: sample_auth_manager_def auth_fresh_def)
  obtain m' err where run: "Authenticate sample_auth_env 7 ?m ?req = (m', err)"
    by (cases "Authenticate sample_auth_env 7 ?m ?req")
  have "err = None" "am_jwtLastRefresh m' = Some 7"
    using run by (auto simp: Authenticate_def authenticateJWT_def pullJWTJWKS_def query_token_def sample_auth_manager_def
        sample_auth_request_def sample_auth_env_def customClaims_UnmarshalJSON_def values_of_def sample_token
        path_action_def path_granted_def failed_def)
  with authenticate_token [OF start run] run show ?thesis by blast
qed

text \<open>
  A token in the header \<open>Authorization\<close> of an HTTP request arrives. If the header is \<open>Bearer\<close> and something that
  is not a user and a password, then the query that the manager reads gives exactly that token, whatever the original query
  was; and if the original query could be read and had no token, all its other values are still there.
\<close>

theorem bearer_token_arrives:
  assumes "AuthorizationHeader h = ''Bearer '' @ tok" "length (Split tok CHR '':'') \<noteq> 2"
  shows "query_token (rq_Query (FillFromHTTPRequest h r)) = Inr tok \<and>
    (RawQuery h \<noteq> [] \<longrightarrow> snd (ParseQuery (RawQuery h)) = None \<longrightarrow> values_get (fst (ParseQuery (RawQuery h))) ''jwt'' = [] \<longrightarrow>
      (\<forall>k. k \<noteq> ''jwt'' \<longrightarrow> values_of (fst (ParseQuery (rq_Query (FillFromHTTPRequest h r)))) k =
        values_of (fst (ParseQuery (RawQuery h))) k))"
proof -
  obtain v err where v: "ParseQuery (RawQuery h) = (v, err)"
    by (cases "ParseQuery (RawQuery h)")
  have query: "rq_Query (FillFromHTTPRequest h r) = addJWTFromAuthorization (RawQuery h) (''Bearer '' @ tok)"
    using assms by (auto simp: FillFromHTTPRequest_def Let_def split: list.split)
  have set: "values_of (values_set ''jwt'' tok v) k = (if k = ''jwt'' then [tok] else values_of v k)" for k
    by (simp add: values_set_def values_of_def update_conv')
  have one: "values_of [(''jwt'', [tok])] ''jwt'' = [tok]"
    by (simp add: values_of_def)
  show ?thesis
    unfolding query query_token_eq
    by (auto simp: addJWTFromAuthorization_def v Encode_values Encode_no_error set one)
qed

lemma bearer_token_arrives_witness:
  "query_token (rq_Query (FillFromHTTPRequest
      \<lparr>RawQuery = ''a=1'', BasicAuth = ([], []), AuthorizationHeader = ''Bearer eyJ.x+y''\<rparr>
      (sample_auth_request AuthActionRead ''live/cam'' []))) = Inr ''eyJ.x+y''"
proof -
  let ?h = "\<lparr>RawQuery = ''a=1'', BasicAuth = ([], []), AuthorizationHeader = ''Bearer eyJ.x+y''\<rparr>"
  have "AuthorizationHeader ?h = ''Bearer '' @ ''eyJ.x+y''" "length (Split ''eyJ.x+y'' CHR '':'') \<noteq> 2"
    by simp_all
  from bearer_token_arrives [OF this] show ?thesis by blast
qed

end
