(* ===== verification/ManagerAuth.thy ===== *)
theory ManagerAuth
  imports ManagerReload AuthManager
begin

text \<open>
  Requests for a path and their authentication: \<open>internal/defs/path_access_request.go\<close>, and the path manager together with the
  authentication manager.

  A request extends the part of it that the path manager reads. What \<open>Authenticate\<close> returns is the error that the path manager
  replies with.
\<close>

section \<open>Requests\<close>

record 'q path_access_request = access_request +
  par_Query :: string
  par_Publish :: bool
  par_User :: string
  par_Pass :: string
  par_IP :: ip
  par_Proto :: string
  par_ID :: "string option"
  par_RTSPRequest :: "'q option"
  par_RTSPNonce :: string

definition ToAuthRequest :: "'q path_access_request \<Rightarrow> 'q auth_request" where
  "ToAuthRequest r =
     \<lparr>rq_User = par_User r, rq_Pass = par_Pass r, rq_IP = par_IP r,
      rq_Action = (if par_Publish r then AuthActionPublish else AuthActionRead),
      rq_Path = ar_name r, rq_Protocol = par_Proto r, rq_ID = par_ID r, rq_Query = par_Query r,
      rq_RTSPRequest = par_RTSPRequest r, rq_RTSPNonce = par_RTSPNonce r\<rparr>"

definition access_FillFromRTSPRequest ::
    "('q, 'k) auth_env \<Rightarrow> 'q \<Rightarrow> 'q path_access_request \<Rightarrow> 'q path_access_request" where
  "access_FillFromRTSPRequest env rt r =
     (case rtsp_Authorization env rt of
        None \<Rightarrow> r
      | Some h \<Rightarrow>
          if ra_Method h = AuthMethodBasic then r\<lparr>par_User := ra_BasicUser h, par_Pass := ra_BasicPass h\<rparr>
          else r\<lparr>par_User := ra_Username h\<rparr>)"

definition access_FillFromHTTPRequest :: "http_request \<Rightarrow> 'q path_access_request \<Rightarrow> 'q path_access_request" where
  "access_FillFromHTTPRequest h r =
     (let r1 = r\<lparr>par_Query := RawQuery h, par_User := fst (BasicAuth h), par_Pass := snd (BasicAuth h)\<rparr>;
          auth = AuthorizationHeader h in
      if HasPrefix auth ''Bearer '' then
        (case Split (drop (length ''Bearer '') auth) CHR '':'' of
           [u, p] \<Rightarrow> r1\<lparr>par_User := u, par_Pass := p\<rparr>
         | _ \<Rightarrow> r1\<lparr>par_Query := addJWTFromAuthorization (par_Query r1) auth\<rparr>)
      else r1)"

text \<open>Both kinds of request are filled alike.\<close>

lemma fill_then_authenticate:
  "ToAuthRequest (access_FillFromHTTPRequest h r) = FillFromHTTPRequest h (ToAuthRequest r)"
  "ToAuthRequest (access_FillFromRTSPRequest env rt r) = FillFromRTSPRequest env rt (ToAuthRequest r)"
  by (auto simp: ToAuthRequest_def access_FillFromHTTPRequest_def FillFromHTTPRequest_def Let_def
      access_FillFromRTSPRequest_def FillFromRTSPRequest_def split: list.split option.split)

section \<open>Both managers\<close>

definition auth_outcome ::
    "('q, 'k) auth_env \<Rightarrow> int \<Rightarrow> 'k auth_manager \<Rightarrow> 'q path_access_request \<Rightarrow> go_error option" where
  "auth_outcome env now m r =
     map_option (\<lambda>e. Wrapped ''authentication failed: %w'' (Message e)) (snd (Authenticate env now m (ToAuthRequest r)))"

text \<open>The events by which the request \<open>r\<close> reaches the path manager, with what the authentication manager says of it.\<close>

definition request_events ::
    "('q, 'k) auth_env \<Rightarrow> int \<Rightarrow> 'k auth_manager \<Rightarrow> 'q path_access_request \<Rightarrow> manager_event list" where
  "request_events env now m r =
     (let req = access_request.truncate r; auth = auth_outcome env now m r in
      [ManagerDescribe req auth, ManagerAddReader req auth, ManagerAddPublisher req auth])"

lemma truncate_fields [simp]:
  "ar_id (access_request.truncate r) = ar_id r" "ar_name (access_request.truncate r) = ar_name r"
  "ar_skipAuth (access_request.truncate r) = ar_skipAuth r"
  by (simp_all add: access_request.truncate_def)

lemma request_events_auth:
  assumes "ev \<in> set (request_events env now m r)" "\<not> ar_skipAuth r"
  shows "auth_of ev = Some (access_request.truncate r, auth_outcome env now m r)"
  using assms by (auto simp: request_events_def auth_of_def Let_def)

lemma refused_unchanged:
  assumes "auth_of ev = Some (req, Some e)"
  shows "\<exists>e'. manager_handle cenv ev pm = say [ManagerReply (ar_id req) (ManagerErr e')] pm"
  using handle_request [OF assms, of cenv pm]
  by (cases "FindPathConf cenv (pm_pathConfs pm) (ar_name req)") auto

text \<open>
  C11. No path without permission. With internal users, a request that does not skip the authentication and that no
  user admits, for the action that it asks for on the very name that it asks for, changes no table and is
  answered with an error; so a path is created or handed out only to someone whom a user admits.
\<close>

theorem unauthorised_request_refused:
  assumes "am_Method m = AuthMethodInternal" "\<not> ar_skipAuth r" "ev \<in> set (request_events env now m r)"
    and "\<forall>u \<in> set (am_InternalUsers m). \<not> user_admits env m (ToAuthRequest r) u"
  shows "\<exists>e. manager_handle cenv ev pm = say [ManagerReply (ar_id r) (ManagerErr e)] pm"
proof -
  have "authenticateInternal env m (ToAuthRequest r) \<noteq> None"
    using assms(4) by (auto simp: authenticateInternal_iff)
  then have "auth_outcome env now m r \<noteq> None"
    using assms(1) by (auto simp: auth_outcome_def Authenticate_def)
  then obtain e where "auth_outcome env now m r = Some e"
    by blast
  with request_events_auth [OF assms(3,2)] have "auth_of ev = Some (access_request.truncate r, Some e)"
    by simp
  from refused_unchanged [OF this] show ?thesis by simp
qed

definition sample_access :: "unit path_access_request" where
  "sample_access =
     \<lparr>ar_id = 3, ar_name = ''live/door'', ar_skipAuth = False, par_Query = [], par_Publish = True, par_User = ''alice'',
      par_Pass = ''pw'', par_IP = [10, 1, 2, 3], par_Proto = ''rtmp'', par_ID = None, par_RTSPRequest = None,
      par_RTSPNonce = []\<rparr>"

lemma unauthorised_request_refused_witness:
  "\<exists>e. manager_handle sample_env
      (ManagerAddPublisher (access_request.truncate sample_access)
        (auth_outcome sample_auth_env 0 (sample_auth_manager AuthMethodInternal) sample_access)) sample_manager =
    say [ManagerReply 3 (ManagerErr e)] sample_manager"
proof -
  let ?m = "sample_auth_manager AuthMethodInternal"
  have parts: "am_Method ?m = AuthMethodInternal" "\<not> ar_skipAuth sample_access"
    by (simp_all add: sample_auth_manager_def sample_access_def)
  have "ToAuthRequest sample_access = sample_auth_request AuthActionPublish ''live/door'' []"
    by (simp add: ToAuthRequest_def sample_access_def sample_auth_request_def)
  then have none: "\<forall>u \<in> set (am_InternalUsers ?m). \<not> user_admits sample_auth_env ?m (ToAuthRequest sample_access) u"
    using sample_user_admits(2) by (simp add: sample_auth_manager_def)
  have "ManagerAddPublisher (access_request.truncate sample_access) (auth_outcome sample_auth_env 0 ?m sample_access)
      \<in> set (request_events sample_auth_env 0 ?m sample_access)"
    by (simp add: request_events_def Let_def)
  from unauthorised_request_refused [OF parts this none] show ?thesis
    by (simp add: sample_access_def)
qed

end
