(* ===== verification/GoTime.thy ===== *)
theory GoTime
  imports Main
begin

text \<open>
  Instants and dates as Go's package \<open>time\<close> has them. An instant is a number of nanoseconds since 1970 in UTC; a
  duration is a number of nanoseconds. The local time zone is a function that gives, for a second, the offset from UTC
  in force and the seconds between which it is in force.
\<close>

type_synonym instant = int

definition second_ns :: int where
  [simp]: "second_ns = 1000000000"

definition time_Unix :: "int \<Rightarrow> int \<Rightarrow> instant" where
  "time_Unix sec ns = sec * second_ns + ns"

definition unix_of :: "instant \<Rightarrow> int" where
  "unix_of t = t div second_ns"

definition nanosecond_of :: "instant \<Rightarrow> int" where
  "nanosecond_of t = t mod second_ns"

section \<open>The calendar\<close>

definition leap :: "int \<Rightarrow> bool" where
  "leap y \<longleftrightarrow> y mod 4 = 0 \<and> (y mod 100 \<noteq> 0 \<or> y mod 400 = 0)"

text \<open>The days from 1970-01-01 to the first day of a year, and from there to the first of a month.\<close>

definition days_of_year :: "int \<Rightarrow> int" where
  "days_of_year y = 365 * (y - 1970) + ((y - 1) div 4 - (y - 1) div 100 + (y - 1) div 400) - 477"

definition days_before :: "int \<Rightarrow> int \<Rightarrow> int" where
  "days_before y m =
     [0, 31, 59, 90, 120, 151, 181, 212, 243, 273, 304, 334] ! nat (m - 1) + (if leap y \<and> 3 \<le> m then 1 else 0)"

lemma div_step:
  fixes y n :: int
  assumes "0 < n"
  shows "y div n = (y - 1) div n + (if y mod n = 0 then 1 else 0)"
proof -
  obtain q r where y: "y = n * q + r" "0 \<le> r" "r < n"
    using assms pos_mod_sign [of n y] pos_mod_bound [of n y] mult_div_mod_eq [of n y] by metis
  then have div: "y div n = q" "y mod n = r" by (auto intro: int_div_pos_eq int_mod_pos_eq)
  show ?thesis
  proof (cases "r = 0")
    case True
    have "y - 1 = n * (q - 1) + (n - 1)" using y(1) True by (simp add: right_diff_distrib)
    then have "(y - 1) div n = q - 1" by (rule int_div_pos_eq) (use assms in simp_all)
    with True div show ?thesis by simp
  next
    case False
    have "y - 1 = n * q + (r - 1)" using y(1) by simp
    then have "(y - 1) div n = q" by (rule int_div_pos_eq) (use y False in simp_all)
    with False div show ?thesis by simp
  qed
qed

lemma step_sum:
  fixes a b c y i j k :: int
  assumes "a' = a + i" "b' = b + j" "c' = c + k"
  shows "365 * (y + 1 - 1970) + (a' - b' + c') - 477 - (365 * (y - 1970) + (a - b + c) - 477) = 365 + i - j + k"
  using assms by simp

lemma leap_days:
  "(if leap y then 366 else 365) =
    365 + (if y mod 4 = 0 then 1 else 0) - (if y mod 100 = 0 then 1 else 0) + (if y mod 400 = 0 then 1 else (0::int))"
proof -
  have split: "(if a \<and> (\<not> b \<or> c) then 366 else 365) = 365 + (if a then 1 else 0) - (if b then 1 else 0) + (if c then 1 else (0::int))"
    if "b \<longrightarrow> a" "c \<longrightarrow> b" for a b c
    using that by (cases a; cases b; cases c) simp_all
  have dvd: "(4::int) dvd 100" "(100::int) dvd 400" by simp_all
  show ?thesis
    unfolding leap_def mod_eq_0_iff_dvd
  proof (rule split)
    show "100 dvd y \<longrightarrow> 4 dvd y" using dvd_trans [OF dvd(1), of y] by iprover
    show "400 dvd y \<longrightarrow> 100 dvd y" using dvd_trans [OF dvd(2), of y] by iprover
  qed
qed

lemma days_of_year_step: "days_of_year (y + 1) - days_of_year y = (if leap y then 366 else 365)"
  unfolding days_of_year_def leap_days add_diff_cancel_right'
  by (rule step_sum; rule div_step; simp)

lemma days_of_year_mono: "y \<le> z \<Longrightarrow> days_of_year y \<le> days_of_year z"
proof (induction "nat (z - y)" arbitrary: z)
  case (Suc n)
  then have "days_of_year y \<le> days_of_year (z - 1)" by simp
  with days_of_year_step [of "z - 1"] show ?case by (simp split: if_splits)
qed simp

text \<open>The year of a day, found from a year that is not too early.\<close>

function year_from :: "int \<Rightarrow> int \<Rightarrow> int" where
  "year_from y d = (if days_of_year y \<le> d then y else year_from (y - 1) d)"
  by pat_completeness auto
termination
proof (relation "measure (\<lambda>(y, d). nat (days_of_year y - d))")
  fix y d
  assume "\<not> days_of_year y \<le> d"
  with days_of_year_step [of "y - 1"] show "((y - 1, d), y, d) \<in> measure (\<lambda>(y, d). nat (days_of_year y - d))"
    by (auto split: if_splits)
qed simp

declare year_from.simps [simp del]

definition year_of_day :: "int \<Rightarrow> int" where
  "year_of_day d = year_from (if d < 0 then 1969 else 1970 + d div 365) d"

definition month_of_day :: "int \<Rightarrow> int \<Rightarrow> int" where
  "month_of_day y yday = last (filter (\<lambda>m. days_before y m \<le> yday) [1, 2, 3, 4, 5, 6, 7, 8, 9, 10, 11, 12])"

record civil =
  ct_year :: int
  ct_month :: int
  ct_day :: int
  ct_hour :: int
  ct_minute :: int
  ct_second :: int

definition civil_of :: "int \<Rightarrow> civil" where
  "civil_of sec =
     (let d = sec div 86400; s = sec mod 86400; y = year_of_day d; yday = d - days_of_year y; m = month_of_day y yday
      in \<lparr>ct_year = y, ct_month = m, ct_day = yday - days_before y m + 1,
          ct_hour = s div 3600, ct_minute = s div 60 mod 60, ct_second = s mod 60\<rparr>)"

text \<open>The second of a date in UTC, with a month that may be out of range.\<close>

definition second_of :: "int \<Rightarrow> int \<Rightarrow> int \<Rightarrow> int \<Rightarrow> int \<Rightarrow> int \<Rightarrow> int" where
  "second_of year month day hour minute sec =
     (let y = year + (month - 1) div 12; m = (month - 1) mod 12 + 1
      in (days_of_year y + days_before y m + (day - 1)) * 86400 + hour * 3600 + minute * 60 + sec)"

section \<open>Local time\<close>

type_synonym zone = "int \<Rightarrow> int \<times> int \<times> int"

definition zone_offset :: "zone \<Rightarrow> int \<Rightarrow> int" where
  "zone_offset tz sec = fst (tz sec)"

definition local_civil :: "zone \<Rightarrow> instant \<Rightarrow> civil" where
  "local_civil tz t = civil_of (unix_of t + zone_offset tz (unix_of t))"

definition time_Date :: "zone \<Rightarrow> int \<Rightarrow> int \<Rightarrow> int \<Rightarrow> int \<Rightarrow> int \<Rightarrow> int \<Rightarrow> int \<Rightarrow> instant" where
  "time_Date tz year month day hour minute sec ns =
     (let unix = second_of year month day hour minute (sec + ns div second_ns);
          (offset, start, until) = tz unix; utc = unix - offset;
          offset' = (if offset \<noteq> 0 \<and> (utc < start \<or> until \<le> utc) then zone_offset tz utc else offset)
      in time_Unix (unix - offset') (ns mod second_ns))"

section \<open>A date gives its second back\<close>

lemma year_from_spec:
  "days_of_year (y + 1) > d \<Longrightarrow> days_of_year (year_from y d) \<le> d \<and> d < days_of_year (year_from y d + 1)"
proof (induction y d rule: year_from.induct)
  case (1 y d)
  then show ?case by (cases "days_of_year y \<le> d") (simp_all add: year_from.simps [of y d])
qed

lemma quarter_centuries: "1970 \<le> x \<Longrightarrow> 473 \<le> x div 4 - x div 100" for x :: int
proof -
  assume "1970 \<le> x"
  then have "492 \<le> x div 4" using zdiv_mono1 [of 1970 x 4] by simp
  moreover have "x div 100 = x div 4 div 25" using zdiv_zmult2_eq [of 25 x 4] by simp
  moreover have "25 * (x div 4 div 25) \<le> x div 4"
    using mult_div_mod_eq [of 25 "x div 4"] pos_mod_sign [of 25 "x div 4"] by linarith
  ultimately show ?thesis by linarith
qed

lemma days_of_year_upper:
  assumes "0 \<le> d"
  shows "d < days_of_year (1970 + d div 365 + 1)"
proof -
  let ?x = "1970 + d div 365"
  have x: "1970 \<le> ?x" using assms by (simp add: pos_imp_zdiv_nonneg_iff)
  have "4 \<le> ?x div 400" using zdiv_mono1 [OF x, of 400] by simp
  moreover have "d < 365 * (?x - 1970) + 365"
  proof -
    have "d < 365 * (d div 365) + 365" by presburger
    then show ?thesis by simp
  qed
  moreover have "days_of_year (?x + 1) = 365 * (?x - 1970) + 365 + (?x div 4 - ?x div 100 + ?x div 400) - 477"
    by (simp add: days_of_year_def)
  ultimately show ?thesis using quarter_centuries [OF x] by linarith
qed

lemma year_of_day_spec: "days_of_year (year_of_day d) \<le> d" "d < days_of_year (year_of_day d + 1)"
proof -
  have "days_of_year ((if d < 0 then 1969 else 1970 + d div 365) + 1) > d"
    using days_of_year_upper [of d] by (simp add: days_of_year_def)
  from year_from_spec [OF this] show "days_of_year (year_of_day d) \<le> d" "d < days_of_year (year_of_day d + 1)"
    by (simp_all add: year_of_day_def)
qed

lemma last_filter:
  assumes "sorted xs" "x \<in> set xs" "P x"
  shows "last (filter P xs) \<in> set xs" "P (last (filter P xs))" "x \<le> last (filter P xs)"
proof -
  let ?ys = "filter P xs"
  have ys: "sorted ?ys" "x \<in> set ?ys" "?ys \<noteq> []" using assms by (auto simp: filter_empty_conv intro: sorted_wrt_filter)
  from last_in_set [OF ys(3)] have "last ?ys \<in> {x \<in> set xs. P x}" by (simp only: set_filter)
  then show "last ?ys \<in> set xs" "P (last ?ys)" by blast+
  have "\<forall>z\<in>set (butlast ?ys). z \<le> last ?ys"
    using ys(1,3) sorted_append [of "butlast ?ys" "[last ?ys]"] by simp
  then show "x \<le> last ?ys"
    using ys(2,3) append_butlast_last_id [of ?ys] by (metis Un_iff empty_iff empty_set order_refl set_ConsD set_append)
qed

lemma days_before_step: "m \<in> {1, 2, 3, 4, 5, 6, 7, 8, 9, 10, 11} \<Longrightarrow> days_before y (m + 1) \<le> days_before y m + 31"
  by (auto simp: days_before_def)

lemma months_spec:
  assumes "0 \<le> yday" "yday < (if leap y then 366 else 365)" "m = month_of_day y yday"
  shows "1 \<le> m \<and> m \<le> 12 \<and> days_before y m \<le> yday \<and> yday < days_before y m + 31"
proof -
  let ?ms = "[1, 2, 3, 4, 5, 6, 7, 8, 9, 10, 11, 12] :: int list"
  have first: "days_before y 1 \<le> yday" using assms(1) by (simp add: days_before_def)
  have ms: "sorted ?ms" "1 \<in> set ?ms" by simp_all
  note last = last_filter [of ?ms 1 "\<lambda>m. days_before y m \<le> yday", OF ms first, folded month_of_day_def assms(3)]
  have m: "m \<in> set ?ms" "days_before y m \<le> yday" by (fact last(1), fact last(2))
  have "yday < days_before y m + 31"
  proof (cases "m = 12")
    case True
    with assms(2) show ?thesis by (simp add: days_before_def split: if_splits)
  next
    case False
    with m(1) have step: "m \<in> {1, 2, 3, 4, 5, 6, 7, 8, 9, 10, 11}" by simp
    have "\<not> days_before y (m + 1) \<le> yday"
    proof
      assume "days_before y (m + 1) \<le> yday"
      moreover have "m + 1 \<in> set ?ms" using step by auto
      ultimately have "m + 1 \<le> m"
        using last_filter(3) [OF ms(1), of "m + 1" "\<lambda>m. days_before y m \<le> yday", folded month_of_day_def assms(3)]
        by blast
      then show False by simp
    qed
    with days_before_step [OF step, of y] show ?thesis by linarith
  qed
  with m show ?thesis by auto
qed

lemma clock:
  fixes s :: int
  assumes "0 \<le> s" "s < 86400"
  shows "s div 3600 * 3600 + s div 60 mod 60 * 60 + s mod 60 = s" "0 \<le> s div 3600 \<and> s div 3600 < 24"
proof -
  have "s div 3600 = s div 60 div 60" using zdiv_zmult2_eq [of 60 s 60] by simp
  then show "s div 3600 * 3600 + s div 60 mod 60 * 60 + s mod 60 = s"
    using div_mult_mod_eq [of "s div 60" 60] div_mult_mod_eq [of s 60] by linarith
  show "0 \<le> s div 3600 \<and> s div 3600 < 24"
    using assms zdiv_mono1 [of s 86399 3600] by (simp add: pos_imp_zdiv_nonneg_iff)
qed

lemma second_of_civil:
  assumes "c = civil_of sec"
  shows "second_of (ct_year c) (ct_month c) (ct_day c) (ct_hour c) (ct_minute c) (ct_second c) = sec"
    "1 \<le> ct_month c" "ct_month c \<le> 12" "1 \<le> ct_day c" "ct_day c \<le> 31" "0 \<le> ct_hour c" "ct_hour c < 24"
    "0 \<le> ct_minute c" "ct_minute c < 60" "0 \<le> ct_second c" "ct_second c < 60"
proof -
  let ?d = "sec div 86400" and ?s = "sec mod 86400"
  let ?y = "year_of_day ?d"
  let ?yday = "?d - days_of_year ?y"
  let ?m = "month_of_day ?y ?yday"
  have yd: "0 \<le> ?yday" "?yday < (if leap ?y then 366 else 365)"
    using year_of_day_spec [of ?d] days_of_year_step [of ?y] by (simp_all split: if_splits)
  note m = months_spec [OF yd refl]
  have c: "ct_year c = ?y" "ct_month c = ?m" "ct_day c = ?yday - days_before ?y ?m + 1"
    "ct_hour c = ?s div 3600" "ct_minute c = ?s div 60 mod 60" "ct_second c = ?s mod 60"
    by (simp_all add: assms civil_of_def Let_def)
  have norm: "(?m - 1) div 12 = 0" "(?m - 1) mod 12 = ?m - 1"
    using m by (simp_all add: div_pos_pos_trivial mod_pos_pos_trivial)
  have range: "0 \<le> ?s" "?s < 86400" by simp_all
  note s = clock [OF range]
  show "second_of (ct_year c) (ct_month c) (ct_day c) (ct_hour c) (ct_minute c) (ct_second c) = sec"
  proof -
    have "days_of_year ?y + days_before ?y ?m + (?yday - days_before ?y ?m + 1 - 1) = ?d" by simp
    then show ?thesis
      unfolding c second_of_def Let_def norm by (simp, use s(1) div_mult_mod_eq [of sec 86400] in linarith)
  qed
  show "1 \<le> ct_month c" "ct_month c \<le> 12" "1 \<le> ct_day c" "ct_day c \<le> 31"
    using m by (simp_all add: c)
  show "0 \<le> ct_hour c" "ct_hour c < 24" "0 \<le> ct_minute c" "ct_minute c < 60" "0 \<le> ct_second c" "ct_second c < 60"
    using s(2) by (simp_all add: c)
qed

text \<open>A zone that does not change its offset within a day of a second.\<close>

definition steady :: "zone \<Rightarrow> int \<Rightarrow> bool" where
  "steady tz sec \<longleftrightarrow> \<bar>zone_offset tz sec\<bar> \<le> 86400 \<and> (\<forall>u. \<bar>u - sec\<bar> \<le> 86400 \<longrightarrow> zone_offset tz u = zone_offset tz sec)"

lemma time_Date_local:
  assumes "steady tz (unix_of t)" "c = local_civil tz t" "0 \<le> ns" "ns < second_ns"
  shows "time_Date tz (ct_year c) (ct_month c) (ct_day c) (ct_hour c) (ct_minute c) (ct_second c) ns =
    time_Unix (unix_of t) ns"
proof -
  let ?o = "zone_offset tz (unix_of t)"
  have ns: "ns div second_ns = 0" "ns mod second_ns = ns" using assms(3,4) by simp_all
  have small: "\<bar>?o\<bar> \<le> 86400" and near: "\<And>u. \<bar>u - unix_of t\<bar> \<le> 86400 \<Longrightarrow> zone_offset tz u = ?o"
    using assms(1) unfolding steady_def by blast+
  have o: "zone_offset tz (unix_of t + ?o) = ?o"
    by (rule near) (use small in linarith)
  have c: "c = civil_of (unix_of t + ?o)" using assms(2) unfolding local_civil_def .
  obtain x a b where tz: "tz (unix_of t + ?o) = (x, a, b)" by (cases "tz (unix_of t + ?o)")
  then have "x = ?o" using o by (simp only: zone_offset_def fst_conv)
  then show ?thesis
    unfolding time_Date_def ns add_0_right second_of_civil(1) [OF c] Let_def tz prod.case
    by (simp only: add_diff_cancel_right' if_cancel)
qed

end
