(* ===== verification/RecordPath.thy ===== *)
theory RecordPath
  imports GoString GoTime
begin

text \<open>
  The names of recording segments (internal/recordstore/path.go): how a name is made of a format, a start time and a
  path name, and how it is read back.

  \<open>Decode\<close> turns the format into a regular expression. Since every character that is special in an expression is
  escaped, the expression is a sequence of characters, groups of a fixed number of digits and lazy groups
  \<open>(.*?)\<close>: the model is that sequence of tokens, and the matching of Go's package \<open>regexp\<close> on it, which finds
  the leftmost match and, in it, the shortest text for the first lazy group that lets the rest match.
\<close>

section \<open>Formats\<close>

datatype record_token =
    RChar char
  | RPath
  | RYear
  | RMonth
  | RDay
  | RHour
  | RMinute
  | RSecond
  | RMicros
  | RUnix

fun token_text :: "record_token \<Rightarrow> string" where
  "token_text (RChar c) = [c]"
| "token_text RPath = ''%path''"
| "token_text RYear = ''%Y''"
| "token_text RMonth = ''%m''"
| "token_text RDay = ''%d''"
| "token_text RHour = ''%H''"
| "token_text RMinute = ''%M''"
| "token_text RSecond = ''%S''"
| "token_text RMicros = ''%f''"
| "token_text RUnix = ''%s''"

definition record_variables :: "record_token list" where
  "record_variables = [RPath, RYear, RMonth, RDay, RHour, RMinute, RSecond, RMicros, RUnix]"

text \<open>The first variable at the head of a format, if there is one.\<close>

definition variable_at :: "string \<Rightarrow> record_token option" where
  "variable_at s = List.find (\<lambda>tk. HasPrefix s (token_text tk)) record_variables"

lemma variable_at_Some: "variable_at s = Some tk \<Longrightarrow> HasPrefix s (token_text tk) \<and> tk \<in> set record_variables"
  by (auto simp: variable_at_def find_Some_iff)

function record_tokens :: "string \<Rightarrow> record_token list" where
  "record_tokens [] = []"
| "record_tokens (c # s) =
     (case variable_at (c # s) of
        Some tk \<Rightarrow> tk # record_tokens (drop (length (token_text tk)) (c # s))
      | None \<Rightarrow> RChar c # record_tokens s)"
  by pat_completeness auto
termination
proof (relation "measure length")
  fix c s tk
  assume "variable_at (c # s) = Some tk"
  then have "token_text tk \<noteq> []" by (cases tk) simp_all
  then show "(drop (length (token_text tk)) (c # s), c # s) \<in> measure length" by simp
qed auto

definition token_digits :: "record_token \<Rightarrow> nat" where
  "token_digits tk =
     (case tk of RYear \<Rightarrow> 4 | RMonth \<Rightarrow> 2 | RDay \<Rightarrow> 2 | RHour \<Rightarrow> 2 | RMinute \<Rightarrow> 2 | RSecond \<Rightarrow> 2 | RMicros \<Rightarrow> 6 | RUnix \<Rightarrow> 10 | _ \<Rightarrow> 0)"

section \<open>Matching\<close>

definition ascii_digit :: "char \<Rightarrow> bool" where
  "ascii_digit c = (48 \<le> (of_char c :: nat) \<and> (of_char c :: nat) \<le> 57)"

text \<open>\<open>lazy_match m seen s\<close>: the shortest extension of \<open>seen\<close> after which \<open>m\<close> matches; no newline is passed.\<close>

fun lazy_match ::
  "(string \<Rightarrow> (record_token \<times> string) list option) \<Rightarrow> string \<Rightarrow> string \<Rightarrow> (record_token \<times> string) list option" where
  "lazy_match m seen [] = map_option (Cons (RPath, seen)) (m [])"
| "lazy_match m seen (c # s) =
     (case m (c # s) of
        Some caps \<Rightarrow> Some ((RPath, seen) # caps)
      | None \<Rightarrow> if of_char c = (10 :: nat) then None else lazy_match m (seen @ [c]) s)"

fun match_at :: "record_token list \<Rightarrow> string \<Rightarrow> (record_token \<times> string) list option" where
  "match_at [] s = Some []"
| "match_at (RChar c # tks) s = (case s of d # r \<Rightarrow> if d = c then match_at tks r else None | [] \<Rightarrow> None)"
| "match_at (RPath # tks) s = lazy_match (match_at tks) [] s"
| "match_at (tk # tks) s =
     (let n = token_digits tk in
      if n \<le> length s \<and> list_all ascii_digit (take n s)
      then map_option (Cons (tk, take n s)) (match_at tks (drop n s)) else None)"

text \<open>\<open>FindStringSubmatch\<close>: the leftmost match, with the groups.\<close>

fun find_submatch :: "record_token list \<Rightarrow> string \<Rightarrow> (record_token \<times> string) list option" where
  "find_submatch tks s =
     (case match_at tks s of
        Some caps \<Rightarrow> Some caps
      | None \<Rightarrow> (case s of [] \<Rightarrow> None | _ # r \<Rightarrow> find_submatch tks r))"

declare find_submatch.simps [simp del]

section \<open>Names and segments\<close>

definition FormatInt64 :: "int \<Rightarrow> string" where
  "FormatInt64 n = (if n < 0 then CHR ''-'' # FormatInt (nat (- n)) else FormatInt (nat n))"

definition leadingZeros :: "int \<Rightarrow> nat \<Rightarrow> string" where
  "leadingZeros v sz =
     (let out = FormatInt64 v in
      if sz \<le> length out then out else replicate (sz - length out) (CHR ''0'') @ out)"

definition path_sep :: "char \<Rightarrow> bool" where
  "path_sep c = (c = CHR 0x5C \<or> c = slash)"

text \<open>The loop of \<open>CommonPath\<close>: the parts that end in a separator, up to the first with a variable.\<close>

function common_parts :: "string \<Rightarrow> string" where
  "common_parts remaining =
     (case dropWhile (\<lambda>c. \<not> path_sep c) remaining of
        [] \<Rightarrow> []
      | sep # rest \<Rightarrow>
          let part = takeWhile (\<lambda>c. \<not> path_sep c) remaining @ [sep] in
          if CHR ''%'' \<in> set part then [] else part @ common_parts rest)"
  by pat_completeness auto
termination
proof (relation "measure length")
  fix remaining sep :: string and x rest
  assume "dropWhile (\<lambda>c. \<not> path_sep c) remaining = x # rest"
  then have "length (x # rest) \<le> length remaining" by (metis length_dropWhile_le)
  then show "(rest, remaining) \<in> measure length" by simp
qed auto

declare common_parts.simps [simp del]

definition CommonPath :: "string \<Rightarrow> string" where
  "CommonPath v = butlast (common_parts v)"

record record_path =
  rp_Start :: instant
  rp_Path :: string

text \<open>The value of a variable: the text of its last group.\<close>

definition group_of :: "(record_token \<times> string) list \<Rightarrow> record_token \<Rightarrow> string option" where
  "group_of caps tk = map_of (rev caps) tk"

definition digits_value :: "string \<Rightarrow> int" where
  "digits_value s = fold (\<lambda>c v. v * 10 + (int (of_char c) - 48)) s 0"

definition number_of :: "(record_token \<times> string) list \<Rightarrow> record_token \<Rightarrow> int \<Rightarrow> int" where
  "number_of caps tk d = (case group_of caps tk of None \<Rightarrow> d | Some s \<Rightarrow> digits_value s)"

definition Decode :: "zone \<Rightarrow> string \<Rightarrow> string \<Rightarrow> record_path option" where
  "Decode tz format v =
     (case find_submatch (record_tokens format) v of
        None \<Rightarrow> None
      | Some caps \<Rightarrow>
          let unixSec = number_of caps RUnix (- 1) in
          Some
            \<lparr>rp_Start =
               (if unixSec > 0 then time_Unix unixSec 0
                else time_Date tz (number_of caps RYear 0) (number_of caps RMonth 1) (number_of caps RDay 1)
                  (number_of caps RHour 0) (number_of caps RMinute 0) (number_of caps RSecond 0)
                  (number_of caps RMicros 0 * 1000)),
             rp_Path = (case group_of caps RPath of None \<Rightarrow> [] | Some s \<Rightarrow> s)\<rparr>)"

text \<open>What \<open>Encode\<close> puts in place of each variable.\<close>

definition field_text :: "zone \<Rightarrow> record_path \<Rightarrow> record_token \<Rightarrow> string" where
  "field_text tz p tk =
     (let c = local_civil tz (rp_Start p) in
      case tk of
        RChar ch \<Rightarrow> [ch]
      | RPath \<Rightarrow> rp_Path p
      | RYear \<Rightarrow> FormatInt64 (ct_year c)
      | RMonth \<Rightarrow> leadingZeros (ct_month c) 2
      | RDay \<Rightarrow> leadingZeros (ct_day c) 2
      | RHour \<Rightarrow> leadingZeros (ct_hour c) 2
      | RMinute \<Rightarrow> leadingZeros (ct_minute c) 2
      | RSecond \<Rightarrow> leadingZeros (ct_second c) 2
      | RMicros \<Rightarrow> leadingZeros (nanosecond_of (rp_Start p) div 1000) 6
      | RUnix \<Rightarrow> FormatInt64 (unix_of (rp_Start p)))"

definition Encode :: "zone \<Rightarrow> record_path \<Rightarrow> string \<Rightarrow> string" where
  "Encode tz p format = fold (\<lambda>tk f. ReplaceAll f (token_text tk) (field_text tz p tk)) record_variables format"

section \<open>Encoding replaces the variables\<close>

text \<open>A format in which a percent sign only occurs in a variable.\<close>

definition plain_token :: "record_token \<Rightarrow> bool" where
  "plain_token tk \<longleftrightarrow> tk \<noteq> RChar CHR ''%''"

definition format_text :: "record_token list \<Rightarrow> string" where
  "format_text tks = concat (map token_text tks)"

lemma variable_at_text: "tk \<in> set record_variables \<Longrightarrow> variable_at (token_text tk @ s) = Some tk"
  by (cases tk) (simp_all add: record_variables_def variable_at_def)

lemma variable_at_char: "c \<noteq> CHR ''%'' \<Longrightarrow> variable_at (c # s) = None"
  by (simp add: record_variables_def variable_at_def)

lemma token_cases: "tk \<in> set record_variables \<or> (\<exists>c. tk = RChar c)"
  by (cases tk) (simp_all add: record_variables_def)

lemma token_text_head: "tk \<in> set record_variables \<Longrightarrow> \<exists>x xs. token_text tk = CHR ''%'' # x # xs"
  by (auto simp: record_variables_def)

lemma record_tokens_text: "\<forall>tk\<in>set tks. plain_token tk \<Longrightarrow> record_tokens (format_text tks) = tks"
proof (induction tks)
  case (Cons tk tks)
  show ?case
  proof (cases "tk \<in> set record_variables")
    case True
    then obtain x xs where tx: "token_text tk = CHR ''%'' # x # xs" using token_text_head by blast
    have "variable_at (CHR ''%'' # x # xs @ format_text tks) = Some tk"
      using variable_at_text [OF True] by (simp add: tx)
    with Cons tx show ?thesis by (simp add: format_text_def)
  next
    case False
    then obtain c where "tk = RChar c" using token_cases by blast
    with Cons show ?thesis by (simp add: format_text_def plain_token_def variable_at_char)
  qed
qed (simp add: format_text_def)

text \<open>A text on which a replacement has no effect, whatever follows.\<close>

definition inert :: "string \<Rightarrow> string \<Rightarrow> bool" where
  "inert old piece \<longleftrightarrow> (\<forall>new rest. ReplaceAll (piece @ rest) old new = piece @ ReplaceAll rest old new)"

lemma inert_no_percent: "CHR ''%'' \<notin> set piece \<Longrightarrow> inert (CHR ''%'' # old) piece"
  unfolding inert_def by (induction piece) auto

lemma inert_variable:
  assumes "tk \<in> set record_variables" "tk' \<in> set record_variables" "tk' \<noteq> tk"
  shows "inert (token_text tk) (token_text tk')"
  using assms by (auto simp: record_variables_def inert_def)

lemma replace_pieces:
  assumes "f tk = token_text tk" "tk \<in> set record_variables" "\<forall>tk'\<in>set tks. tk' \<noteq> tk \<longrightarrow> inert (token_text tk) (f tk')"
  shows "ReplaceAll (concat (map f tks)) (token_text tk) new = concat (map (f(tk := new)) tks)"
  using assms(3)
proof (induction tks)
  case (Cons tk' tks)
  show ?case
  proof (cases "tk' = tk")
    case True
    with Cons show ?thesis
      using ReplaceAll_head [of "token_text tk"] token_text_head [OF assms(2)] by (auto simp: assms(1))
  next
    case False
    with Cons show ?thesis by (simp add: inert_def)
  qed
qed simp

text \<open>After the replacements for some variables, those have their values and the others are still there.\<close>

lemma replace_all_pieces:
  assumes "\<forall>tk\<in>set tks. plain_token tk" "\<forall>tk\<in>set record_variables. CHR ''%'' \<notin> set (val tk)" "distinct vs"
    "set vs \<subseteq> set record_variables"
  shows "fold (\<lambda>tk f. ReplaceAll f (token_text tk) (val tk)) vs (format_text tks) =
    concat (map (\<lambda>tk. if tk \<in> set vs then val tk else token_text tk) tks)"
  using assms(3,4)
proof (induction vs rule: rev_induct)
  case (snoc v vs)
  let ?f = "\<lambda>tk. if tk \<in> set vs then val tk else token_text tk"
  have v: "v \<in> set record_variables" "v \<notin> set vs" using snoc.prems by auto
  obtain x xs where tx: "token_text v = CHR ''%'' # x # xs" using token_text_head [OF v(1)] by blast
  have "inert (token_text v) (?f tk)" if "tk \<in> set tks" "tk \<noteq> v" for tk
  proof (cases "tk \<in> set vs")
    case True
    with assms(2) snoc.prems show ?thesis unfolding tx by (auto intro: inert_no_percent)
  next
    case False
    show ?thesis
    proof (cases "tk \<in> set record_variables")
      case True
      with False show ?thesis using inert_variable [OF v(1) True that(2)] by simp
    next
      case notvar: False
      then obtain c where "tk = RChar c" using token_cases by blast
      with assms(1) that(1) have "c \<noteq> CHR ''%''" by (auto simp: plain_token_def)
      then have "inert (token_text v) [c]" unfolding tx by (intro inert_no_percent) auto
      with False \<open>tk = RChar c\<close> show ?thesis by simp
    qed
  qed
  then have "ReplaceAll (concat (map ?f tks)) (token_text v) (val v) = concat (map (?f(v := val v)) tks)"
    using v by (intro replace_pieces) auto
  moreover have "?f(v := val v) = (\<lambda>tk. if tk \<in> set (vs @ [v]) then val tk else token_text tk)"
    by auto
  ultimately show ?case using snoc by simp
qed (simp add: format_text_def)

lemma FormatInt_digits: "c \<in> set (FormatInt n) \<Longrightarrow> ascii_digit c"
proof (induction n rule: FormatInt.induct)
  case (1 n)
  have "ascii_digit (digit (n mod 10))"
    by (simp add: ascii_digit_def digit_def)
  with 1 show ?case
    by (subst (asm) FormatInt.simps) (auto split: if_splits)
qed

lemma percent_no_digit: "\<not> ascii_digit CHR ''%''"
  by (simp add: ascii_digit_def)

lemma FormatInt64_no_percent: "CHR ''%'' \<notin> set (FormatInt64 n)"
  using FormatInt_digits percent_no_digit by (auto simp: FormatInt64_def)

lemma leadingZeros_no_percent: "CHR ''%'' \<notin> set (leadingZeros v n)"
  using FormatInt64_no_percent by (auto simp: leadingZeros_def Let_def)

lemma Encode_text:
  assumes "\<forall>tk\<in>set tks. plain_token tk" "CHR ''%'' \<notin> set (rp_Path p)"
  shows "Encode tz p (format_text tks) = concat (map (field_text tz p) tks)"
proof -
  have "\<forall>tk\<in>set record_variables. CHR ''%'' \<notin> set (field_text tz p tk)"
    using assms(2) by (simp add: record_variables_def field_text_def FormatInt64_no_percent leadingZeros_no_percent Let_def)
  moreover have "distinct record_variables" by (simp add: record_variables_def)
  ultimately have "Encode tz p (format_text tks) =
      concat (map (\<lambda>tk. if tk \<in> set record_variables then field_text tz p tk else token_text tk) tks)"
    unfolding Encode_def by (intro replace_all_pieces assms(1)) auto
  moreover have "(if tk \<in> set record_variables then field_text tz p tk else token_text tk) = field_text tz p tk" for tk
    using token_cases [of tk] by (auto simp: field_text_def)
  ultimately show ?thesis by simp
qed

section \<open>Decoding what was encoded\<close>

lemma format_text_tokens: "format_text (record_tokens f) = f"
proof (induction f rule: record_tokens.induct)
  case (2 c s)
  show ?case
  proof (cases "variable_at (c # s)")
    case None
    with 2 show ?thesis by (simp add: format_text_def)
  next
    case (Some tk)
    then have "take (length (token_text tk)) (c # s) = token_text tk"
      using variable_at_Some [OF Some] by (simp add: HasPrefix_def)
    then have "token_text tk @ drop (length (token_text tk)) (c # s) = c # s"
      by (metis append_take_drop_id)
    with 2(2) [OF Some] Some show ?thesis by (simp add: format_text_def)
  qed
qed (simp add: format_text_def)

definition fixed_field :: "(record_token \<Rightarrow> string) \<Rightarrow> record_token \<Rightarrow> bool" where
  "fixed_field val tk \<longleftrightarrow>
     (case tk of
        RChar c \<Rightarrow> val tk = [c]
      | RPath \<Rightarrow> False
      | _ \<Rightarrow> length (val tk) = token_digits tk \<and> list_all ascii_digit (val tk))"

lemma match_at_fields:
  "\<forall>tk\<in>set tks. fixed_field val tk \<Longrightarrow>
    match_at tks (concat (map val tks) @ rest) =
      Some (map (\<lambda>tk. (tk, val tk)) (filter (\<lambda>tk. tk \<in> set record_variables) tks))"
proof (induction tks)
  case (Cons tk tks)
  then show ?case
    by (cases tk) (simp_all add: fixed_field_def record_variables_def)
qed simp

lemma digits_value_append: "digits_value (s @ [c]) = digits_value s * 10 + (int (of_char c) - 48)"
  by (simp add: digits_value_def)

lemma digits_value_FormatInt: "digits_value (FormatInt n) = int n"
proof (induction n rule: FormatInt.induct)
  case (1 n)
  have d: "int (of_char (digit (n mod 10))) - 48 = int (n mod 10)"
    by (simp add: digit_def)
  show ?case
  proof (cases "n < 10")
    case True
    with d show ?thesis by (subst FormatInt.simps) (simp add: digits_value_def)
  next
    case False
    then have "digits_value (FormatInt n) = int (n div 10) * 10 + int (n mod 10)"
      using 1 d by (subst FormatInt.simps) (simp add: digits_value_append)
    then show ?thesis by (metis div_mult_mod_eq of_nat_add of_nat_mult of_nat_numeral)
  qed
qed

lemma digits_value_zeros: "digits_value (replicate n CHR ''0'' @ s) = digits_value s"
  by (induction n) (simp_all add: digits_value_def)

lemma digits_value_leadingZeros: "0 \<le> v \<Longrightarrow> digits_value (leadingZeros v n) = v"
  by (simp add: leadingZeros_def FormatInt64_def Let_def digits_value_zeros digits_value_FormatInt)

lemma length_FormatInt: "0 < k \<Longrightarrow> n < 10 ^ k \<Longrightarrow> length (FormatInt n) \<le> k"
proof (induction k arbitrary: n)
  case (Suc k)
  show ?case
  proof (cases "n < 10")
    case True
    then show ?thesis by (subst FormatInt.simps) simp
  next
    case False
    then have "0 < k" using Suc.prems by (cases k) auto
    moreover have "n div 10 < 10 ^ k" using Suc.prems by (simp add: less_mult_imp_div_less mult.commute)
    ultimately show ?thesis using Suc.IH [of "n div 10"] False by (subst FormatInt.simps) simp
  qed
qed simp

lemma length_FormatInt_4: "1000 \<le> n \<Longrightarrow> n < 10000 \<Longrightarrow> length (FormatInt n) = 4"
  by (simp add: FormatInt.simps [of n] FormatInt.simps [of "n div 10"] FormatInt.simps [of "n div 10 div 10"]
      FormatInt.simps [of "n div 10 div 10 div 10"]) linarith

lemma leadingZeros_field:
  assumes "0 \<le> v" "v < 10 ^ n" "0 < n"
  shows "length (leadingZeros v n) = n" "list_all ascii_digit (leadingZeros v n)"
proof -
  have "nat v < 10 ^ n" using assms by (simp add: nat_less_iff)
  from length_FormatInt [OF assms(3) this] assms show "length (leadingZeros v n) = n"
    by (simp add: leadingZeros_def FormatInt64_def Let_def)
  show "list_all ascii_digit (leadingZeros v n)"
    using assms(1) FormatInt_digits by (auto simp: leadingZeros_def FormatInt64_def Let_def list_all_iff ascii_digit_def)
qed

text \<open>A format that has all the elements of a date and a time, and no path name or time in seconds.\<close>

definition dated_format :: "string \<Rightarrow> bool" where
  "dated_format f \<longleftrightarrow>
     (let tks = record_tokens f in
      list_all plain_token tks \<and> RPath \<notin> set tks \<and> RUnix \<notin> set tks \<and>
      list_all (\<lambda>tk. tk \<in> set tks) [RYear, RMonth, RDay, RHour, RMinute, RSecond, RMicros])"

definition four_digit_year :: "zone \<Rightarrow> instant \<Rightarrow> bool" where
  "four_digit_year tz t \<longleftrightarrow> 1000 \<le> ct_year (local_civil tz t) \<and> ct_year (local_civil tz t) < 10000"

lemma local_fields:
  assumes "four_digit_year tz (rp_Start p)" "tk \<noteq> RPath" "tk \<noteq> RUnix"
  shows "fixed_field (field_text tz p) tk"
proof -
  have c: "local_civil tz (rp_Start p) = civil_of (unix_of (rp_Start p) + zone_offset tz (unix_of (rp_Start p)))"
    by (simp add: local_civil_def)
  note b = second_of_civil [OF c]
  have "0 \<le> nanosecond_of (rp_Start p) div 1000" "nanosecond_of (rp_Start p) div 1000 < 10 ^ 6"
    by (simp_all add: nanosecond_of_def pos_imp_zdiv_nonneg_iff div_less_iff_less_mult)
  moreover have "length (FormatInt64 (ct_year (local_civil tz (rp_Start p)))) = 4"
    "list_all ascii_digit (FormatInt64 (ct_year (local_civil tz (rp_Start p))))"
    using assms(1) length_FormatInt_4 FormatInt_digits
    by (auto simp: four_digit_year_def FormatInt64_def list_all_iff nat_less_iff)
  ultimately show ?thesis
    using assms(2,3) b leadingZeros_field [of _ 2] leadingZeros_field [of _ 6]
    by (cases tk) (simp_all add: fixed_field_def field_text_def token_digits_def Let_def)
qed

lemma decode_groups:
  assumes "caps = map (\<lambda>tk. (tk, val tk)) xs"
  shows "group_of caps tk = (if tk \<in> set xs then Some (val tk) else None)"
  unfolding assms group_of_def rev_map map_of_map_restrict by (simp add: restrict_map_def)

lemma micros:
  "nanosecond_of t div 1000 * 1000 = nanosecond_of t - t mod 1000" "0 \<le> nanosecond_of t div 1000"
  "nanosecond_of t div 1000 * 1000 < second_ns" "time_Unix (unix_of t) (nanosecond_of t div 1000 * 1000) = t - t mod 1000"
proof -
  have m: "t mod 1000000000 mod 1000 = t mod 1000" by (rule mod_mod_cancel) simp
  have r: "0 \<le> t mod 1000000000" "t mod 1000000000 < 1000000000" "0 \<le> t mod 1000" by simp_all
  show eq: "nanosecond_of t div 1000 * 1000 = nanosecond_of t - t mod 1000"
    unfolding nanosecond_of_def second_ns_def by (simp only: minus_mod_eq_div_mult [symmetric] m)
  show "0 \<le> nanosecond_of t div 1000"
    using r by (simp add: nanosecond_of_def pos_imp_zdiv_nonneg_iff)
  show "nanosecond_of t div 1000 * 1000 < second_ns"
    unfolding eq unfolding nanosecond_of_def second_ns_def using r by linarith
  show "time_Unix (unix_of t) (nanosecond_of t div 1000 * 1000) = t - t mod 1000"
    unfolding eq unfolding time_Unix_def unix_of_def nanosecond_of_def second_ns_def
    using div_mult_mod_eq [of t 1000000000] by simp
qed

lemma Decode_Encode:
  assumes "dated_format f" "four_digit_year tz t" "steady tz (unix_of t)"
  shows "Decode tz f (Encode tz \<lparr>rp_Start = t, rp_Path = []\<rparr> f @ rest) = Some \<lparr>rp_Start = t - t mod 1000, rp_Path = []\<rparr>"
proof -
  let ?tks = "record_tokens f" and ?p = "\<lparr>rp_Start = t, rp_Path = []\<rparr>"
  let ?val = "field_text tz ?p" and ?c = "local_civil tz t" and ?us = "nanosecond_of t div 1000"
  let ?xs = "filter (\<lambda>tk. tk \<in> set record_variables) ?tks"
  have plain: "\<forall>tk\<in>set ?tks. plain_token tk" and no: "RPath \<notin> set ?tks" "RUnix \<notin> set ?tks"
    and all: "{RYear, RMonth, RDay, RHour, RMinute, RSecond, RMicros} \<subseteq> set ?tks"
    using assms(1) by (auto simp: dated_format_def Let_def list_all_iff)
  have enc: "Encode tz ?p f = concat (map ?val ?tks)"
    using Encode_text [OF plain, of ?p tz] by (simp add: format_text_tokens)
  have "\<forall>tk\<in>set ?tks. fixed_field ?val tk"
    using local_fields [of tz ?p] assms(2) no by (metis record_path.select_convs(1))
  then have "find_submatch ?tks (Encode tz ?p f @ rest) = Some (map (\<lambda>tk. (tk, ?val tk)) ?xs)"
    unfolding enc by (simp add: find_submatch.simps [of ?tks] match_at_fields)
  moreover have num: "number_of (map (\<lambda>tk. (tk, ?val tk)) ?xs) tk d = (if tk \<in> set ?xs then digits_value (?val tk) else d)" for tk d
    by (simp add: number_of_def decode_groups [OF refl])
  moreover have xs: "set ?xs = set ?tks \<inter> set record_variables" by auto
  ultimately have dec: "Decode tz f (Encode tz ?p f @ rest) =
      Some \<lparr>rp_Start = time_Date tz (digits_value (?val RYear)) (digits_value (?val RMonth)) (digits_value (?val RDay))
          (digits_value (?val RHour)) (digits_value (?val RMinute)) (digits_value (?val RSecond))
          (digits_value (?val RMicros) * 1000), rp_Path = []\<rparr>"
    using no all by (simp add: Decode_def xs decode_groups [OF refl] record_variables_def)
  have c: "?c = civil_of (unix_of t + zone_offset tz (unix_of t))" by (simp add: local_civil_def)
  note b = second_of_civil [OF c]
  note us = micros(2,3) [of t]
  have year: "digits_value (FormatInt64 (ct_year ?c)) = ct_year ?c"
    using assms(2) by (simp add: four_digit_year_def FormatInt64_def digits_value_FormatInt)
  have "Decode tz f (Encode tz ?p f @ rest) =
      Some \<lparr>rp_Start = time_Date tz (ct_year ?c) (ct_month ?c) (ct_day ?c) (ct_hour ?c) (ct_minute ?c) (ct_second ?c) (?us * 1000),
        rp_Path = []\<rparr>"
    unfolding dec using b us(1) year by (simp add: field_text_def Let_def digits_value_leadingZeros)
  also have "\<dots> = Some \<lparr>rp_Start = time_Unix (unix_of t) (?us * 1000), rp_Path = []\<rparr>"
    using time_Date_local [OF assms(3) refl, of "?us * 1000"] us by (simp only: mult_nonneg_nonneg zero_le_numeral)
  also have "time_Unix (unix_of t) (?us * 1000) = t - t mod 1000" by (rule micros(4))
  finally show ?thesis .
qed

text \<open>The example of the documentation, a recording of the first seconds of 2024.\<close>

definition sample_format :: string where
  "sample_format = ''/rec/cam/%Y-%m-%d_%H-%M-%S-%f.mp4''"

definition utc_zone :: zone where
  "utc_zone s = (0, - 10000000000, 10000000000)"



end
