(* ===== verification/RecordSegments.thy ===== *)
theory RecordSegments
  imports RecordPath PathConf "HOL-Library.Multiset" "HOL-Library.List_Lexorder" "HOL-Library.Char_ord"
begin

text \<open>
  The search of recording segments on the disk (internal/recordstore/segment.go).

  The file system is the parameter \<open>walk_dir\<close>: for a root, the calls that \<open>filepath.WalkDir\<close> makes as long as
  every call returns nil, each with the path and whether it is a directory, or with an error. \<open>sort.Slice\<close> is not
  stable, so the sorting of segments is a parameter too, with the hypothesis that its result is sorted and has the
  same segments.
\<close>

section \<open>The file system\<close>

datatype visit = Visit string bool | VisitError string go_error

record segment =
  sg_Fpath :: string
  sg_Start :: instant

record store_env =
  abs_path :: "string \<Rightarrow> string"
  walk_dir :: "string \<Rightarrow> visit list"
  local_zone :: zone
  sort_segments :: "segment list \<Rightarrow> segment list"

definition sorts :: "store_env \<Rightarrow> bool" where
  "sorts env \<longleftrightarrow> (\<forall>segs. mset (sort_segments env segs) = mset segs \<and> sorted (map sg_Start (sort_segments env segs)))"

text \<open>
  A walk whose function returns the error it is given, ignores directories, and calls \<open>f\<close> on the path of a file and
  the state that the function captures. An error ends the walk.
\<close>

fun WalkDir :: "visit list \<Rightarrow> (string \<Rightarrow> 's \<Rightarrow> go_error option \<times> 's) \<Rightarrow> 's \<Rightarrow> go_error option \<times> 's" where
  "WalkDir [] f s = (None, s)"
| "WalkDir (VisitError p e # vs) f s = (Some e, s)"
| "WalkDir (Visit p isdir # vs) f s =
     (if isdir then WalkDir vs f s
      else case f p s of
          (None, s') \<Rightarrow> WalkDir vs f s'
        | (Some e, s') \<Rightarrow> (Some e, s'))"

text \<open>The files that a walk reaches before its first error, and that error.\<close>

fun walked :: "visit list \<Rightarrow> string list" where
  "walked [] = []"
| "walked (VisitError p e # vs) = []"
| "walked (Visit p isdir # vs) = (if isdir then walked vs else p # walked vs)"

fun walk_error :: "visit list \<Rightarrow> go_error option" where
  "walk_error [] = None"
| "walk_error (VisitError p e # vs) = Some e"
| "walk_error (Visit p isdir # vs) = walk_error vs"

lemma WalkDir_fold:
  "(\<And>p s. fst (f p s) = None) \<Longrightarrow> WalkDir vs f s = (walk_error vs, fold (\<lambda>p s. snd (f p s)) (walked vs) s)"
proof (induction vs f s rule: WalkDir.induct)
  case (3 p isdir vs f s)
  show ?case
  proof (cases isdir)
    case True
    with 3 show ?thesis by simp
  next
    case False
    obtain s' where "f p s = (None, s')" using 3(3) [of p s] by (cases "f p s") auto
    with 3 False show ?thesis by simp
  qed
qed simp_all

lemma WalkDir_find:
  "WalkDir vs (\<lambda>p _. (if P p then Some e else None, ())) () =
    (if \<exists>p\<in>set (walked vs). P p then Some e else walk_error vs, ())"
proof (induction vs)
  case (Cons v vs)
  then show ?case by (cases v) auto
qed simp

section \<open>The operations\<close>

definition ErrNoSegmentsFound :: go_error where
  "ErrNoSegmentsFound = Errorf ''no recording segments found'' []"

definition errFound :: go_error where
  "errFound = Errorf ''found'' []"

definition PathAddExtension :: "string \<Rightarrow> record_format \<Rightarrow> string" where
  "PathAddExtension path format =
     (case format of
        RecordFormatMPEGTS \<Rightarrow> path @ ''.ts''
      | _ \<Rightarrow> path @ ''.mp4'')"

text \<open>The format of the names of the segments of one path.\<close>

definition segment_format :: "store_env \<Rightarrow> path_conf \<Rightarrow> string \<Rightarrow> string" where
  "segment_format env pathConf pathName =
     abs_path env (PathAddExtension (ReplaceAll (RecordPath pathConf) ''%path'' pathName) (RecordFormat pathConf))"

definition fixedPathHasSegments :: "store_env \<Rightarrow> path_conf \<Rightarrow> bool" where
  "fixedPathHasSegments env pathConf =
     (let recordPath = segment_format env pathConf (Name pathConf);
          commonPath = CommonPath recordPath;
          err = fst (WalkDir (walk_dir env commonPath)
            (\<lambda>fpath _. (if Decode (local_zone env) recordPath fpath \<noteq> None then Some errFound else None, ())) ())
      in if err \<noteq> None \<and> err \<noteq> Some errFound then False else err = Some errFound)"

definition regexpPathFindPathsWithSegments :: "conf_env \<Rightarrow> store_env \<Rightarrow> path_conf \<Rightarrow> string \<Rightarrow> string list" where
  "regexpPathFindPathsWithSegments cenv env pathConf rx =
     (let recordPath = abs_path env (PathAddExtension (RecordPath pathConf) (RecordFormat pathConf));
          commonPath = CommonPath recordPath
      in snd (WalkDir (walk_dir env commonPath)
           (\<lambda>fpath ret.
              (None,
               case Decode (local_zone env) recordPath fpath of
                 Some pa \<Rightarrow> if rx_match cenv rx (rp_Path pa) \<noteq> None then List.insert (rp_Path pa) ret else ret
               | None \<Rightarrow> ret)) []))"

text \<open>The map of configurations is a list of pairs; the names that are collected are a list without repetitions.\<close>

definition add_names :: "conf_env \<Rightarrow> store_env \<Rightarrow> path_conf \<Rightarrow> string list \<Rightarrow> string list" where
  "add_names cenv env pathConf pathNames =
     (case Regexp pathConf of
        None \<Rightarrow> if fixedPathHasSegments env pathConf then List.insert (Name pathConf) pathNames else pathNames
      | Some rx \<Rightarrow> fold List.insert (regexpPathFindPathsWithSegments cenv env pathConf rx) pathNames)"

definition FindAllPathsWithSegments :: "conf_env \<Rightarrow> store_env \<Rightarrow> (string \<times> path_conf) list \<Rightarrow> string list" where
  "FindAllPathsWithSegments cenv env pathConfs =
     (let pathNames = fold (\<lambda>(_, pathConf). add_names cenv env pathConf) pathConfs []
      in sort pathNames)"

text \<open>The loop that looks for the segment that may contain the start.\<close>

fun find_start :: "instant \<Rightarrow> segment list \<Rightarrow> segment list option" where
  "find_start t (a # b # r) =
     (if \<not> t < sg_Start a \<and> t < sg_Start b then Some (a # b # r) else find_start t (b # r))"
| "find_start t _ = None"

definition gather :: "store_env \<Rightarrow> string \<Rightarrow> instant option \<Rightarrow> string \<Rightarrow> segment list \<Rightarrow> segment list" where
  "gather env recordPath until fpath segments =
     (case Decode (local_zone env) recordPath fpath of
        Some pa \<Rightarrow>
          if (case until of None \<Rightarrow> True | Some e \<Rightarrow> \<not> e < rp_Start pa)
          then segments @ [\<lparr>sg_Fpath = fpath, sg_Start = rp_Start pa\<rparr>] else segments
      | None \<Rightarrow> segments)"

definition FindSegments ::
  "store_env \<Rightarrow> path_conf \<Rightarrow> string \<Rightarrow> instant option \<Rightarrow> instant option \<Rightarrow> segment list result" where
  "FindSegments env pathConf pathName start until =
     (let recordPath = segment_format env pathConf pathName;
          commonPath = CommonPath recordPath
      in case WalkDir (walk_dir env commonPath) (\<lambda>fpath segments. (None, gather env recordPath until fpath segments)) [] of
           (Some err, _) \<Rightarrow> Inl err
         | (None, segments) \<Rightarrow>
             if segments = [] then Inl ErrNoSegmentsFound
             else
               let segments = sort_segments env segments in
               case start of
                 None \<Rightarrow> Inr segments
               | Some t \<Rightarrow>
                   if t < sg_Start (hd segments) then Inr segments
                   else
                     case find_start t segments of
                       Some segments \<Rightarrow> Inr segments
                     | None \<Rightarrow>
                         let segments = [last segments] in
                         if t < sg_Start (last segments) then Inl ErrNoSegmentsFound else Inr segments)"

section \<open>What is found\<close>

text \<open>The segment of a file, when its name has the format.\<close>

definition segment_of :: "store_env \<Rightarrow> string \<Rightarrow> string \<Rightarrow> segment option" where
  "segment_of env recordPath fpath =
     map_option (\<lambda>pa. \<lparr>sg_Fpath = fpath, sg_Start = rp_Start pa\<rparr>) (Decode (local_zone env) recordPath fpath)"

definition ends_after :: "instant option \<Rightarrow> segment \<Rightarrow> bool" where
  "ends_after until seg = (case until of None \<Rightarrow> True | Some e \<Rightarrow> sg_Start seg \<le> e)"

text \<open>The segments of a path that are on the disk and start no later than the end, in the order of the walk.\<close>

definition segments_until :: "store_env \<Rightarrow> path_conf \<Rightarrow> string \<Rightarrow> instant option \<Rightarrow> segment list" where
  "segments_until env c nm until =
     filter (ends_after until) (List.map_filter (segment_of env (segment_format env c nm))
       (walked (walk_dir env (CommonPath (segment_format env c nm)))))"

definition walk_fails :: "store_env \<Rightarrow> path_conf \<Rightarrow> string \<Rightarrow> go_error option" where
  "walk_fails env c nm = walk_error (walk_dir env (CommonPath (segment_format env c nm)))"

lemma gather_fold:
  "fold (gather env rp until) ps acc = acc @ filter (ends_after until) (List.map_filter (segment_of env rp) ps)"
proof (induction ps arbitrary: acc)
  case (Cons p ps)
  then show ?case
    by (cases "Decode (local_zone env) rp p"; cases until)
      (simp_all add: gather_def segment_of_def ends_after_def not_less)
qed simp

lemma FindSegments_walk:
  "FindSegments env c nm start until =
    (case walk_fails env c nm of
       Some err \<Rightarrow> Inl err
     | None \<Rightarrow>
         let segments = segments_until env c nm until in
         if segments = [] then Inl ErrNoSegmentsFound
         else
           let segments = sort_segments env segments in
           case start of
             None \<Rightarrow> Inr segments
           | Some t \<Rightarrow>
               if t < sg_Start (hd segments) then Inr segments
               else
                 case find_start t segments of
                   Some segments \<Rightarrow> Inr segments
                 | None \<Rightarrow> if t < sg_Start (last segments) then Inl ErrNoSegmentsFound else Inr [last segments])"
  unfolding FindSegments_def Let_def
  by (subst WalkDir_fold)
    (simp_all add: gather_fold walk_fails_def segments_until_def Let_def split: option.split)

text \<open>The loop finds the last segment that starts no later than the start, unless that is the last one.\<close>

lemma find_start_Some:
  "find_start t segs = Some rest \<Longrightarrow> sorted (map sg_Start segs) \<Longrightarrow>
    \<exists>dropped a b r. segs = dropped @ rest \<and> rest = a # b # r \<and> sg_Start a \<le> t \<and> (\<forall>s\<in>set (b # r). t < sg_Start s)"
proof (induction t segs rule: find_start.induct)
  case (1 t a b r)
  show ?case
  proof (cases "\<not> t < sg_Start a \<and> t < sg_Start b")
    case True
    with 1 have "rest = a # b # r" "\<forall>s\<in>set (b # r). t < sg_Start s" by (auto intro: order_less_le_trans)
    with True show ?thesis by (intro exI [of _ "[]"] exI [of _ a] exI [of _ b] exI [of _ r]) auto
  next
    case False
    with 1 obtain dropped x y z where "b # r = dropped @ rest" "rest = x # y # z" "sg_Start x \<le> t"
      "\<forall>s\<in>set (y # z). t < sg_Start s" by auto
    then show ?thesis by (intro exI [of _ "a # dropped"] exI [of _ x] exI [of _ y] exI [of _ z]) auto
  qed
qed simp_all

lemma find_start_None:
  "find_start t segs = None \<Longrightarrow> segs \<noteq> [] \<Longrightarrow> \<not> t < sg_Start (hd segs) \<Longrightarrow> sg_Start (last segs) \<le> t"
  by (induction t segs rule: find_start.induct) (auto split: if_splits)

text \<open>
  What a search from a start gives: of all the segments, sorted, those from the last one that starts no later than the
  start.
\<close>

definition from_start :: "instant option \<Rightarrow> segment list \<Rightarrow> segment list \<Rightarrow> bool" where
  "from_start start all segs \<longleftrightarrow>
     segs \<noteq> [] \<and> sorted (map sg_Start segs) \<and>
     (\<exists>dropped. mset all = mset dropped + mset segs \<and>
        (case start of
           None \<Rightarrow> dropped = []
         | Some t \<Rightarrow>
             (\<forall>d\<in>set dropped. sg_Start d \<le> sg_Start (hd segs)) \<and> (dropped \<noteq> [] \<longrightarrow> sg_Start (hd segs) \<le> t) \<and>
             (\<forall>s\<in>set (tl segs). t < sg_Start s)))"

lemma from_start_cut:
  assumes "sorted (map sg_Start (dropped @ a # r))" "mset all = mset (dropped @ a # r)" "sg_Start a \<le> t"
    "\<forall>s\<in>set r. t < sg_Start s"
  shows "from_start (Some t) all (a # r)"
proof -
  have "\<forall>d\<in>set dropped. sg_Start d \<le> sg_Start a" "sorted (map sg_Start (a # r))"
    using assms(1) by (auto simp: sorted_append)
  moreover have "mset all = mset dropped + mset (a # r)" using assms(2) by simp
  ultimately show ?thesis
    unfolding from_start_def using assms(3,4) by (intro conjI exI [of _ dropped]) simp_all
qed

lemma from_start_all:
  assumes "sorted (map sg_Start segs)" "mset all = mset segs" "segs \<noteq> []" "\<forall>t. start = Some t \<longrightarrow> t < sg_Start (hd segs)"
  shows "from_start start all segs"
proof -
  have "\<forall>s\<in>set (tl segs). t < sg_Start s" if "start = Some t" for t
    using that assms(1,3,4) by (cases segs) auto
  with assms show ?thesis unfolding from_start_def by (auto split: option.split)
qed

lemma FindSegments_found:
  assumes "sorts env" "walk_fails env c nm = None" "segments_until env c nm until \<noteq> []"
  shows "\<exists>segs. FindSegments env c nm start until = Inr segs \<and> from_start start (segments_until env c nm until) segs"
proof -
  define all where "all = segments_until env c nm until"
  define segs where "segs = sort_segments env all"
  have s: "sorted (map sg_Start segs)" "mset all = mset segs" using assms(1) by (simp_all add: sorts_def segs_def)
  have ne: "segs \<noteq> []" using s(2) assms(3) unfolding all_def by (metis mset_zero_iff)
  have F: "FindSegments env c nm start until =
      (case start of
         None \<Rightarrow> Inr segs
       | Some t \<Rightarrow>
           if t < sg_Start (hd segs) then Inr segs
           else
             case find_start t segs of
               Some segs \<Rightarrow> Inr segs
             | None \<Rightarrow> if t < sg_Start (last segs) then Inl ErrNoSegmentsFound else Inr [last segs])"
    using assms(3) unfolding segs_def all_def by (simp add: FindSegments_walk assms(2) Let_def cong: option.case_cong)
  show ?thesis
  proof (cases start)
    case None
    with s ne show ?thesis unfolding F all_def [symmetric] by (auto intro: from_start_all)
  next
    case (Some t)
    consider (before) "t < sg_Start (hd segs)"
      | (middle) rest where "\<not> t < sg_Start (hd segs)" "find_start t segs = Some rest"
      | (last) "\<not> t < sg_Start (hd segs)" "find_start t segs = None" by fastforce
    then show ?thesis
    proof cases
      case before
      with s ne Some show ?thesis unfolding F all_def [symmetric] by (auto intro: from_start_all)
    next
      case middle
      from find_start_Some [OF middle(2) s(1)] obtain dropped a b r where
        cut: "segs = dropped @ a # b # r" "rest = a # b # r" "sg_Start a \<le> t" "\<forall>s\<in>set (b # r). t < sg_Start s"
        by auto
      with middle Some s show ?thesis
        unfolding F all_def [symmetric] by (auto intro!: from_start_cut [of dropped a "b # r"])
    next
      case last
      have "sg_Start (last segs) \<le> t" using find_start_None [OF last(2) ne last(1)] .
      moreover have "segs = butlast segs @ [last segs]" using ne by simp
      ultimately have "from_start (Some t) all [last segs]" using s by (intro from_start_cut [of "butlast segs"]) simp_all
      with last \<open>sg_Start (last segs) \<le> t\<close> Some show ?thesis unfolding F all_def [symmetric] by simp
    qed
  qed
qed

lemma FindSegments_result:
  assumes "sorts env" "FindSegments env c nm start until = Inr segs"
  shows "from_start start (segments_until env c nm until) segs"
proof -
  have ok: "walk_fails env c nm = None" "segments_until env c nm until \<noteq> []"
    using assms(2) by (auto simp: FindSegments_walk Let_def split: option.splits if_splits)
  from FindSegments_found [OF assms(1) this, of start] assms(2) show ?thesis by auto
qed

section \<open>The paths that have segments\<close>

definition files_of :: "store_env \<Rightarrow> string \<Rightarrow> string list" where
  "files_of env recordPath = walked (walk_dir env (CommonPath recordPath))"

lemma fixedPathHasSegments_iff:
  assumes "walk_fails env c (Name c) \<noteq> Some errFound"
  shows "fixedPathHasSegments env c \<longleftrightarrow>
    (\<exists>f\<in>set (files_of env (segment_format env c (Name c))).
       Decode (local_zone env) (segment_format env c (Name c)) f \<noteq> None)"
  using assms unfolding fixedPathHasSegments_def Let_def WalkDir_find
  by (auto simp: walk_fails_def files_of_def)

lemma segments_until_Nil_iff:
  "segments_until env c nm None = [] \<longleftrightarrow>
    (\<forall>f\<in>set (files_of env (segment_format env c nm)). Decode (local_zone env) (segment_format env c nm) f = None)"
  by (auto simp: segments_until_def files_of_def ends_after_def map_filter_def segment_of_def filter_empty_conv split: option.splits)

definition regexp_format :: "store_env \<Rightarrow> path_conf \<Rightarrow> string" where
  "regexp_format env c = abs_path env (PathAddExtension (RecordPath c) (RecordFormat c))"

lemma insert_names_fold:
  "nm \<in> set (fold (\<lambda>p ret. case d p of Some pa \<Rightarrow> if ok pa then List.insert (n pa) ret else ret | None \<Rightarrow> ret) ps acc) \<longleftrightarrow>
    nm \<in> set acc \<or> (\<exists>p\<in>set ps. \<exists>pa. d p = Some pa \<and> ok pa \<and> nm = n pa)"
  by (induction ps arbitrary: acc) (auto split: option.split)

lemma regexp_names:
  "nm \<in> set (regexpPathFindPathsWithSegments cenv env c rx) \<longleftrightarrow>
    (\<exists>f\<in>set (files_of env (regexp_format env c)). \<exists>pa.
       Decode (local_zone env) (regexp_format env c) f = Some pa \<and> rx_match cenv rx (rp_Path pa) \<noteq> None \<and>
       nm = rp_Path pa)"
  unfolding regexpPathFindPathsWithSegments_def Let_def
  by (subst WalkDir_fold) (auto simp: insert_names_fold files_of_def regexp_format_def)

text \<open>Whether a configuration has segments of a path.\<close>

definition has_segments :: "conf_env \<Rightarrow> store_env \<Rightarrow> path_conf \<Rightarrow> string \<Rightarrow> bool" where
  "has_segments cenv env c nm \<longleftrightarrow>
     (case Regexp c of
        None \<Rightarrow> nm = Name c \<and> fixedPathHasSegments env c
      | Some rx \<Rightarrow> nm \<in> set (regexpPathFindPathsWithSegments cenv env c rx))"

lemma fold_insert_distinct: "distinct acc \<Longrightarrow> distinct (fold List.insert xs acc)"
  by (induction xs arbitrary: acc) auto

lemma fold_insert_set: "set (fold List.insert xs acc) = set xs \<union> set acc"
  by (induction xs arbitrary: acc) auto

lemma add_names_spec:
  "set (add_names cenv env c acc) = {nm. has_segments cenv env c nm} \<union> set acc"
  "distinct acc \<Longrightarrow> distinct (add_names cenv env c acc)"
  by (auto simp: add_names_def has_segments_def fold_insert_set fold_insert_distinct split: option.split)

lemma all_names_spec:
  "set (fold (\<lambda>(_, c). add_names cenv env c) confs acc) = {nm. \<exists>c\<in>snd ` set confs. has_segments cenv env c nm} \<union> set acc"
  "distinct acc \<Longrightarrow> distinct (fold (\<lambda>(_, c). add_names cenv env c) confs acc)"
  by (induction confs arbitrary: acc) (auto simp: add_names_spec)

lemma FindAllPathsWithSegments_spec:
  "set (FindAllPathsWithSegments cenv env confs) = {nm. \<exists>c\<in>snd ` set confs. has_segments cenv env c nm}"
  "distinct (FindAllPathsWithSegments cenv env confs)" "sorted (FindAllPathsWithSegments cenv env confs)"
  using all_names_spec [where acc = "[]"] by (simp_all add: FindAllPathsWithSegments_def)

section \<open>Properties\<close>

definition store_sample :: store_env where
  "store_sample =
     \<lparr>abs_path = (\<lambda>p. ''/'' @ p),
      walk_dir = (\<lambda>root.
        if root = ''/rec/cam''
        then [Visit ''/rec/cam'' True, Visit ''/rec/cam/2024-01-01_00-00-00-000000.mp4'' False,
              Visit ''/rec/cam/2024-01-01_01-00-00-000000.mp4'' False, Visit ''/rec/cam/notes.txt'' False]
        else [VisitError root (External 2)]),
      local_zone = utc_zone, sort_segments = sort_key sg_Start\<rparr>"

definition store_conf :: path_conf where
  "store_conf = (setDefaults zero_conf)\<lparr>Name := ''cam'', RecordPath := ''rec/%path/%Y-%m-%d_%H-%M-%S-%f''\<rparr>"

lemma store_sample_sorts: "sorts store_sample"
  by (simp add: sorts_def store_sample_def)

lemma store_sample_walk:
  "walk_fails store_sample store_conf ''cam'' = None" "segments_until store_sample store_conf ''cam'' None \<noteq> []"
  by code_simp+

text \<open>
  C29. The search for segments. When the walk fails its error is returned; when no file on the disk is a segment that
  starts by the end, the result is that nothing was found; otherwise the result is the sorted list of those segments, from the
  last one that starts no later than the start, or from the first: a search with a start never loses the segment that
  may contain the start, and never fails when there is a segment.
\<close>

theorem segments_searched:
  assumes "sorts env"
  shows "case walk_fails env c nm of
      Some err \<Rightarrow> FindSegments env c nm start until = Inl err
    | None \<Rightarrow>
        if segments_until env c nm until = [] then FindSegments env c nm start until = Inl ErrNoSegmentsFound
        else \<exists>segs. FindSegments env c nm start until = Inr segs \<and> from_start start (segments_until env c nm until) segs"
  using FindSegments_found [OF assms] by (auto simp: FindSegments_walk Let_def split: option.split)

lemma segments_searched_witness:
  "\<exists>segs. FindSegments store_sample store_conf ''cam'' (Some 1704069000000000000) None = Inr segs \<and>
    from_start (Some 1704069000000000000) (segments_until store_sample store_conf ''cam'' None) segs"
  using segments_searched [OF store_sample_sorts, where c = store_conf and nm = "''cam''" and until = None
      and start = "Some 1704069000000000000"] store_sample_walk
  by simp

lemma fixed_found:
  assumes "walk_fails env c (Name c) = None"
  shows "fixedPathHasSegments env c \<longleftrightarrow> (\<exists>segs. FindSegments env c (Name c) None None = Inr segs)"
proof -
  have "(\<exists>segs. FindSegments env c (Name c) None None = Inr segs) \<longleftrightarrow> segments_until env c (Name c) None \<noteq> []"
    by (simp add: FindSegments_walk assms Let_def)
  also have "\<dots> \<longleftrightarrow> fixedPathHasSegments env c"
    by (subst fixedPathHasSegments_iff) (simp_all add: assms segments_until_Nil_iff)
  finally show ?thesis by (rule sym)
qed

text \<open>
  The list of the paths that have segments. It is sorted and has no repetitions. When the directories of the paths
  with a fixed name can be read, it has a path exactly when a configuration with that name has segments, so that the
  search without bounds finds some, or when a configuration with an expression that matches the name finds the name in
  a file on the disk.
\<close>

theorem listed_paths_have_segments:
  assumes "sorts env" "\<forall>c\<in>snd ` set confs. Regexp c = None \<longrightarrow> walk_fails env c (Name c) = None"
  shows "sorted (FindAllPathsWithSegments cenv env confs) \<and> distinct (FindAllPathsWithSegments cenv env confs) \<and>
    (nm \<in> set (FindAllPathsWithSegments cenv env confs) \<longleftrightarrow>
      (\<exists>c\<in>snd ` set confs.
         case Regexp c of
           None \<Rightarrow> Name c = nm \<and> (\<exists>segs. FindSegments env c nm None None = Inr segs)
         | Some rx \<Rightarrow> rx_match cenv rx nm \<noteq> None \<and> (\<exists>f\<in>set (files_of env (regexp_format env c)).
             map_option rp_Path (Decode (local_zone env) (regexp_format env c) f) = Some nm)))"
proof -
  have each: "has_segments cenv env c nm \<longleftrightarrow>
      (case Regexp c of
         None \<Rightarrow> Name c = nm \<and> (\<exists>segs. FindSegments env c nm None None = Inr segs)
       | Some rx \<Rightarrow> rx_match cenv rx nm \<noteq> None \<and> (\<exists>f\<in>set (files_of env (regexp_format env c)).
           map_option rp_Path (Decode (local_zone env) (regexp_format env c) f) = Some nm))"
    if c: "c \<in> snd ` set confs" for c
  proof (cases "Regexp c")
    case None
    with bspec [OF assms(2) c] have "walk_fails env c (Name c) = None" by simp
    from fixed_found [OF this] None show ?thesis by (auto simp: has_segments_def)
  next
    case (Some rx)
    then show ?thesis unfolding has_segments_def option.case regexp_names by auto
  qed
  show ?thesis
    by (intro conjI FindAllPathsWithSegments_spec, unfold FindAllPathsWithSegments_spec(1) mem_Collect_eq)
      (rule bex_cong [OF refl], rule each)
qed

lemma listed_paths_have_segments_witness:
  "''cam'' \<in> set (FindAllPathsWithSegments sample_env store_sample [(''cam'', store_conf)])"
proof -
  have conf: "Regexp store_conf = None" "Name store_conf = ''cam''" by code_simp+
  have "\<exists>segs. FindSegments store_sample store_conf ''cam'' None None = Inr segs"
    using store_sample_walk by (simp add: FindSegments_walk Let_def)
  with listed_paths_have_segments
    [OF store_sample_sorts, of "[(''cam'', store_conf)]" sample_env "''cam''"] store_sample_walk(1) conf
  show ?thesis by simp
qed

end
