(* ===== verification/RecordCleaner.thy ===== *)
theory RecordCleaner
  imports RecordSegments
begin

text \<open>
  The cleaner of recordings (internal/recordcleaner/cleaner.go), that removes from the disk the segments that are older
  than the time for which they are kept.

  The disk is the file system of the search. Removing a file takes it out of every walk, or fails, which the cleaner
  ignores: which files can be removed is the parameter \<open>ok\<close>.
\<close>

section \<open>The state\<close>

type_synonym path_confs = "(string \<times> path_conf) list"

record cleaner =
  cl_PathConfs :: path_confs
  cl_disk :: store_env
  cl_removed :: "(instant \<times> string) list"

definition os_Remove :: "(string \<Rightarrow> bool) \<Rightarrow> string \<Rightarrow> store_env \<Rightarrow> store_env" where
  "os_Remove ok f env =
     (if ok f then env\<lparr>walk_dir := (\<lambda>root. filter (\<lambda>v. v \<noteq> Visit f False) (walk_dir env root))\<rparr> else env)"

section \<open>The operations\<close>

definition atLeastOneRecordDeleteAfter :: "path_confs \<Rightarrow> bool" where
  "atLeastOneRecordDeleteAfter confs = list_ex (\<lambda>(_, e). RecordDeleteAfter e \<noteq> 0) confs"

definition cleanInterval :: "path_confs \<Rightarrow> duration" where
  "cleanInterval confs =
     (if \<not> atLeastOneRecordDeleteAfter confs then 365 * 24 * 3600 * second
      else
        fold (\<lambda>(_, e) interval.
          if RecordDeleteAfter e \<noteq> 0 \<and> interval > go_div (RecordDeleteAfter e) 2
          then go_div (RecordDeleteAfter e) 2 else interval) confs (30 * 60 * second))"

definition expiry :: "instant \<Rightarrow> path_conf \<Rightarrow> instant" where
  "expiry now pathConf = now - RecordDeleteAfter pathConf"

text \<open>The error or nothing, the files that were to be removed in their order, and the disk.\<close>

definition processPath ::
  "conf_env \<Rightarrow> (string \<Rightarrow> bool) \<Rightarrow> path_confs \<Rightarrow> instant \<Rightarrow> string \<Rightarrow> store_env \<Rightarrow> unit result \<times> string list \<times> store_env" where
  "processPath cenv ok confs now pathName env =
     (case FindPathConf cenv confs pathName of
        Inl err \<Rightarrow> (Inl err, [], env)
      | Inr (pathConf, _) \<Rightarrow>
          if RecordDeleteAfter pathConf = 0 then (Inr (), [], env)
          else
            case FindSegments env pathConf pathName None (Some (expiry now pathConf)) of
              Inl err \<Rightarrow> (Inl err, [], env)
            | Inr segments \<Rightarrow>
                let fs = map sg_Fpath segments in (Inr (), fs, fold (os_Remove ok) fs env))"

fun process_paths ::
  "conf_env \<Rightarrow> (string \<Rightarrow> bool) \<Rightarrow> path_confs \<Rightarrow> instant \<Rightarrow> string list \<Rightarrow> store_env \<Rightarrow> string list \<times> store_env" where
  "process_paths cenv ok confs now [] env = ([], env)"
| "process_paths cenv ok confs now (pathName # pathNames) env =
     (let (_, removed, env') = processPath cenv ok confs now pathName env;
          (removed', env'') = process_paths cenv ok confs now pathNames env'
      in (removed @ removed', env''))"

definition doRun ::
  "conf_env \<Rightarrow> (string \<Rightarrow> bool) \<Rightarrow> path_confs \<Rightarrow> instant \<Rightarrow> store_env \<Rightarrow> string list \<times> store_env" where
  "doRun cenv ok confs now env = process_paths cenv ok confs now (FindAllPathsWithSegments cenv env confs) env"

text \<open>
  The loop of \<open>run\<close>: the interval has passed, or a new configuration has come. Between two of these the recorders and
  others change the disk.
\<close>

datatype cleaner_event = Interval instant | ReloadPathConfs path_confs | Disk "string \<Rightarrow> visit list"

definition run_at :: "conf_env \<Rightarrow> (string \<Rightarrow> bool) \<Rightarrow> instant \<Rightarrow> cleaner \<Rightarrow> cleaner" where
  "run_at cenv ok now c =
     (let (removed, env) = doRun cenv ok (cl_PathConfs c) now (cl_disk c)
      in c\<lparr>cl_disk := env, cl_removed := cl_removed c @ map (Pair now) removed\<rparr>)"

fun cleaner_handle :: "conf_env \<Rightarrow> (string \<Rightarrow> bool) \<Rightarrow> cleaner_event \<Rightarrow> cleaner \<Rightarrow> cleaner" where
  "cleaner_handle cenv ok (Interval now) c = run_at cenv ok now c"
| "cleaner_handle cenv ok (ReloadPathConfs cnf) c = c\<lparr>cl_PathConfs := cnf\<rparr>"
| "cleaner_handle cenv ok (Disk w) c = c\<lparr>cl_disk := (cl_disk c)\<lparr>walk_dir := w\<rparr>\<rparr>"

definition cleaner_run :: "conf_env \<Rightarrow> (string \<Rightarrow> bool) \<Rightarrow> instant \<Rightarrow> cleaner_event list \<Rightarrow> cleaner \<Rightarrow> cleaner" where
  "cleaner_run cenv ok now events c = fold (cleaner_handle cenv ok) events (run_at cenv ok now c)"

section \<open>The disk\<close>

lemma walked_filter: "set (walked (filter (\<lambda>v. v \<noteq> Visit f False) vs)) = set (walked vs) - {f}"
proof (induction vs)
  case (Cons v vs)
  then show ?case by (cases v) auto
qed simp

lemma walk_error_filter: "walk_error (filter (\<lambda>v. v \<noteq> Visit f False) vs) = walk_error vs"
proof (induction vs)
  case (Cons v vs)
  then show ?case by (cases v) auto
qed simp

text \<open>What removing files keeps: all but the files.\<close>

definition same_disk :: "string set \<Rightarrow> store_env \<Rightarrow> store_env \<Rightarrow> bool" where
  "same_disk gone env env' \<longleftrightarrow>
     abs_path env' = abs_path env \<and> local_zone env' = local_zone env \<and> sort_segments env' = sort_segments env \<and>
     (\<forall>root. walk_error (walk_dir env' root) = walk_error (walk_dir env root) \<and>
        set (walked (walk_dir env' root)) \<subseteq> set (walked (walk_dir env root)) \<and>
        set (walked (walk_dir env root)) \<subseteq> set (walked (walk_dir env' root)) \<union> gone)"

lemma same_disk_refl: "same_disk {} env env"
  by (simp add: same_disk_def)

lemma same_disk_trans: "same_disk a env env' \<Longrightarrow> same_disk b env' env'' \<Longrightarrow> same_disk (a \<union> b) env env''"
  unfolding same_disk_def by (simp, blast)

lemma same_disk_Remove: "same_disk {f} env (os_Remove ok f env)"
  by (auto simp: same_disk_def os_Remove_def walked_filter walk_error_filter)

lemma same_disk_removes: "same_disk (set fs) env (fold (os_Remove ok) fs env)"
proof (induction fs arbitrary: env)
  case (Cons f fs)
  from same_disk_trans [OF same_disk_Remove Cons] show ?case by simp
qed (simp add: same_disk_refl)

lemma same_disk_sorts: "same_disk a env env' \<Longrightarrow> sorts env' = sorts env"
  by (simp add: same_disk_def sorts_def)

lemma same_disk_format: "same_disk a env env' \<Longrightarrow> segment_format env' c nm = segment_format env c nm"
  by (simp add: same_disk_def segment_format_def)

section \<open>What a run removes\<close>

text \<open>A file is an expired segment of a path on the disk.\<close>

definition expired ::
  "conf_env \<Rightarrow> path_confs \<Rightarrow> instant \<Rightarrow> store_env \<Rightarrow> string \<Rightarrow> string \<Rightarrow> bool" where
  "expired cenv confs now env nm f \<longleftrightarrow>
     (\<exists>c m pa. FindPathConf cenv confs nm = Inr (c, m) \<and> RecordDeleteAfter c \<noteq> 0 \<and>
        Decode (local_zone env) (segment_format env c nm) f = Some pa \<and> rp_Start pa + RecordDeleteAfter c \<le> now \<and>
        walk_fails env c nm = None \<and> f \<in> set (files_of env (segment_format env c nm)))"

lemma segments_until_files:
  "f \<in> sg_Fpath ` set (segments_until env c nm (Some t)) \<longleftrightarrow>
    f \<in> set (files_of env (segment_format env c nm)) \<and>
    (\<exists>pa. Decode (local_zone env) (segment_format env c nm) f = Some pa \<and> rp_Start pa \<le> t)"
  by (force simp: segments_until_def files_of_def ends_after_def map_filter_def segment_of_def)

lemma processPath_removed:
  assumes "sorts env" "processPath cenv ok confs now nm env = (r, removed, env')"
  shows "set removed = {f. expired cenv confs now env nm f}" "same_disk (set removed) env env'"
proof -
  have "set removed = {f. expired cenv confs now env nm f} \<and> same_disk (set removed) env env'"
  proof (cases "FindPathConf cenv confs nm")
    case (Inl err)
    with assms(2) show ?thesis by (simp add: processPath_def expired_def same_disk_refl)
  next
    case (Inr cm)
    obtain c m where cm: "FindPathConf cenv confs nm = Inr (c, m)" using Inr by (cases cm) auto
    show ?thesis
    proof (cases "RecordDeleteAfter c = 0")
      case True
      with assms(2) cm show ?thesis by (simp add: processPath_def expired_def same_disk_refl)
    next
      case False
      let ?all = "segments_until env c nm (Some (expiry now c))"
      have exp: "{f. expired cenv confs now env nm f} =
          (if walk_fails env c nm = None then sg_Fpath ` set ?all else {})"
      proof (rule set_eqI)
        show "f \<in> {f. expired cenv confs now env nm f} \<longleftrightarrow>
            f \<in> (if walk_fails env c nm = None then sg_Fpath ` set ?all else {})" for f
          using False unfolding expired_def cm if_split_mem2 segments_until_files expiry_def le_diff_eq by auto
      qed
      have "FindSegments env c nm None (Some (expiry now c)) =
          (case walk_fails env c nm of
             Some err \<Rightarrow> Inl err
           | None \<Rightarrow> if ?all = [] then Inl ErrNoSegmentsFound else Inr (sort_segments env ?all))"
        by (cases "walk_fails env c nm") (simp_all add: FindSegments_walk Let_def)
      moreover have "set (sort_segments env ?all) = set ?all"
        using assms(1) unfolding sorts_def by (metis set_mset_mset)
      moreover from this have "same_disk (sg_Fpath ` set ?all) env
          (fold (os_Remove ok) (map sg_Fpath (sort_segments env ?all)) env)"
        using same_disk_removes [of "map sg_Fpath (sort_segments env ?all)" env ok] by simp
      ultimately show ?thesis
        using assms(2) cm False unfolding exp processPath_def
        by (auto simp: same_disk_refl Let_def split: option.splits if_splits)
    qed
  qed
  then show "set removed = {f. expired cenv confs now env nm f}" "same_disk (set removed) env env'" by auto
qed

text \<open>A file that a removal has not taken is expired after it when it was before.\<close>

lemma expired_later:
  assumes "same_disk gone env env'"
  shows "expired cenv confs now env' nm f \<Longrightarrow> expired cenv confs now env nm f"
    "expired cenv confs now env nm f \<Longrightarrow> expired cenv confs now env' nm f \<or> f \<in> gone"
  using assms same_disk_format [OF assms]
  unfolding expired_def files_of_def walk_fails_def same_disk_def by (simp, blast)+

lemma process_paths_removed:
  assumes "sorts env" "process_paths cenv ok confs now nms env = (removed, env')"
  shows "set removed = {f. \<exists>nm\<in>set nms. expired cenv confs now env nm f} \<and> same_disk (set removed) env env'"
  using assms
proof (induction nms arbitrary: env removed)
  case Nil
  then show ?case by (simp add: same_disk_refl)
next
  case (Cons nm nms)
  obtain r fs env1 where p: "processPath cenv ok confs now nm env = (r, fs, env1)" by (cases "processPath cenv ok confs now nm env") auto
  obtain fs' where ps: "process_paths cenv ok confs now nms env1 = (fs', env')" "removed = fs @ fs'"
    using Cons.prems(2) by (auto simp: p split: prod.splits)
  note one = processPath_removed [OF Cons.prems(1) p]
  have "sorts env1" using same_disk_sorts [OF one(2)] Cons.prems(1) by simp
  note more = Cons.IH [OF this ps(1)]
  have "set removed = {f. \<exists>nm\<in>set (nm # nms). expired cenv confs now env nm f}"
    using one(1) conjunct1 [OF more] expired_later [OF one(2), of cenv confs now]
    unfolding ps(2) set_append list.set(2) by blast
  with same_disk_trans [OF one(2) conjunct2 [OF more]] show ?case by (simp add: ps(2))
qed

lemma doRun_removed:
  assumes "sorts env"
  shows "set (fst (doRun cenv ok confs now env)) =
    {f. \<exists>nm\<in>set (FindAllPathsWithSegments cenv env confs). expired cenv confs now env nm f}"
    "same_disk (set (fst (doRun cenv ok confs now env))) env (snd (doRun cenv ok confs now env))"
  using process_paths_removed [OF assms] unfolding doRun_def by (metis prod.collapse)+

section \<open>Properties\<close>

text \<open>
  C30. A run removes exactly the expired segments. The files that a run sets out to remove are those files of the disk
  whose name decodes, under the configuration of a path that has segments, to a start from which the time that the
  configuration keeps segments has passed. A configuration that keeps segments for ever loses none, and when files
  are removed for one path while those of the next are looked up, none is missed.
\<close>

theorem cleaner_removes_expired:
  assumes "sorts env"
  shows "f \<in> set (fst (doRun cenv ok confs now env)) \<longleftrightarrow>
    (\<exists>nm\<in>set (FindAllPathsWithSegments cenv env confs). expired cenv confs now env nm f)"
  using doRun_removed(1) [OF assms] by simp

definition cleaner_conf :: path_conf where
  "cleaner_conf = store_conf\<lparr>RecordDeleteAfter := 3600 * second\<rparr>"

lemma cleaner_removes_expired_witness:
  "''/rec/cam/2024-01-01_00-00-00-000000.mp4''
    \<in> set (fst (doRun sample_env (\<lambda>_. True) [(''cam'', cleaner_conf)] 1704072600000000000 store_sample))"
proof -
  have "''cam'' \<in> set (FindAllPathsWithSegments sample_env store_sample [(''cam'', cleaner_conf)])" by code_simp
  moreover have "expired sample_env [(''cam'', cleaner_conf)] 1704072600000000000 store_sample ''cam''
      ''/rec/cam/2024-01-01_00-00-00-000000.mp4''"
  proof -
    have "FindPathConf sample_env [(''cam'', cleaner_conf)] ''cam'' = Inr (cleaner_conf, [])"
      "RecordDeleteAfter cleaner_conf \<noteq> 0" "walk_fails store_sample cleaner_conf ''cam'' = None"
      "''/rec/cam/2024-01-01_00-00-00-000000.mp4'' \<in> set (files_of store_sample (segment_format store_sample cleaner_conf ''cam''))"
      "Decode (local_zone store_sample) (segment_format store_sample cleaner_conf ''cam'')
        ''/rec/cam/2024-01-01_00-00-00-000000.mp4'' = Some \<lparr>rp_Start = 1704067200000000000, rp_Path = []\<rparr>"
      "1704067200000000000 + RecordDeleteAfter cleaner_conf \<le> 1704072600000000000"
      by code_simp+
    then show ?thesis unfolding expired_def by (metis record_path.select_convs(1))
  qed
  ultimately show ?thesis
    by (intro iffD2 [OF cleaner_removes_expired [OF store_sample_sorts]]) blast
qed

text \<open>The interval is at most half an hour, and at most half of every time for which segments are kept.\<close>

lemma interval_fold:
  fixes half :: "'a \<Rightarrow> int"
  shows "fold (\<lambda>e i. if on e \<and> i > half e then half e else i) es i \<le> i"
    "e \<in> set es \<Longrightarrow> on e \<Longrightarrow> fold (\<lambda>e i. if on e \<and> i > half e then half e else i) es i \<le> half e"
proof -
  show le: "fold (\<lambda>e i. if on e \<and> i > half e then half e else i) es i \<le> i" for es i
  proof (induction es arbitrary: i)
    case (Cons e es)
    from Cons [of "half e"] Cons [of i] show ?case by simp
  qed simp
  assume "e \<in> set es" "on e"
  then show "fold (\<lambda>e i. if on e \<and> i > half e then half e else i) es i \<le> half e"
  proof (induction es arbitrary: i)
    case (Cons e' es)
    show ?case
    proof (cases "e = e'")
      case True
      with le [of es "half e"] le [of es i] Cons.prems show ?thesis by (simp split: if_splits)
    next
      case False
      with Cons show ?thesis by simp
    qed
  qed simp
qed

lemma cleanInterval_small:
  assumes "(k, e) \<in> set confs" "RecordDeleteAfter e \<noteq> 0"
  shows "cleanInterval confs \<le> 30 * 60 * second" "cleanInterval confs \<le> go_div (RecordDeleteAfter e) 2"
proof -
  let ?on = "\<lambda>ke. RecordDeleteAfter (snd ke) \<noteq> 0" and ?half = "\<lambda>ke. go_div (RecordDeleteAfter (snd ke)) 2"
  have "atLeastOneRecordDeleteAfter confs"
    using assms by (force simp: atLeastOneRecordDeleteAfter_def list_ex_iff)
  then have I: "cleanInterval confs = fold (\<lambda>e i. if ?on e \<and> i > ?half e then ?half e else i) confs (30 * 60 * second)"
    by (simp add: cleanInterval_def split_def)
  show "cleanInterval confs \<le> 30 * 60 * second" unfolding I by (rule interval_fold)
  show "cleanInterval confs \<le> go_div (RecordDeleteAfter e) 2"
    unfolding I using interval_fold(2) [of "(k, e)" confs ?on ?half] assms by simp
qed

text \<open>The configurations that a cleaner had.\<close>

definition given_confs :: "cleaner \<Rightarrow> cleaner_event list \<Rightarrow> path_confs set" where
  "given_confs c events = insert (cl_PathConfs c) {cnf. ReloadPathConfs cnf \<in> set events}"

text \<open>Every entry of the log is a file that was an expired segment under a configuration.\<close>

definition log_safe :: "conf_env \<Rightarrow> path_confs set \<Rightarrow> cleaner \<Rightarrow> bool" where
  "log_safe cenv confs c \<longleftrightarrow>
     (\<forall>(now, f)\<in>set (cl_removed c). \<exists>cnf\<in>confs. \<exists>nm pc m pa.
        FindPathConf cenv cnf nm = Inr (pc, m) \<and> RecordDeleteAfter pc \<noteq> 0 \<and>
        Decode (local_zone (cl_disk c)) (segment_format (cl_disk c) pc nm) f = Some pa \<and>
        rp_Start pa + RecordDeleteAfter pc \<le> now)"

lemma log_safe_disk:
  assumes "cl_removed c' = cl_removed c" "local_zone (cl_disk c') = local_zone (cl_disk c)"
    "abs_path (cl_disk c') = abs_path (cl_disk c)" "log_safe cenv confs c"
  shows "log_safe cenv confs c'"
  using assms by (simp add: log_safe_def segment_format_def)

lemma log_safe_run:
  assumes "log_safe cenv confs c" "cl_PathConfs c \<in> confs" "sorts (cl_disk c)"
  shows "log_safe cenv confs (run_at cenv ok now c)" "sorts (cl_disk (run_at cenv ok now c))"
    "cl_PathConfs (run_at cenv ok now c) = cl_PathConfs c"
proof -
  obtain removed env where d: "doRun cenv ok (cl_PathConfs c) now (cl_disk c) = (removed, env)" by force
  note r = doRun_removed [OF assms(3), of cenv ok "cl_PathConfs c" now, unfolded d fst_conv snd_conv]
  have run: "run_at cenv ok now c = c\<lparr>cl_disk := env, cl_removed := cl_removed c @ map (Pair now) removed\<rparr>"
    by (simp add: run_at_def d)
  have same: "local_zone env = local_zone (cl_disk c)" "segment_format env = segment_format (cl_disk c)"
    using r(2) same_disk_format [OF r(2)] by (auto simp: same_disk_def)
  have "\<exists>cnf\<in>confs. \<exists>nm pc m pa. FindPathConf cenv cnf nm = Inr (pc, m) \<and> RecordDeleteAfter pc \<noteq> 0 \<and>
      Decode (local_zone (cl_disk c)) (segment_format (cl_disk c) pc nm) f = Some pa \<and>
      rp_Start pa + RecordDeleteAfter pc \<le> now" if "f \<in> set removed" for f
    using that assms(2) unfolding r(1) expired_def by blast
  with assms(1) show "log_safe cenv confs (run_at cenv ok now c)"
    unfolding run log_safe_def by (auto simp: same)
  show "sorts (cl_disk (run_at cenv ok now c))"
    using same_disk_sorts [OF r(2)] assms(3) by (simp add: run)
  show "cl_PathConfs (run_at cenv ok now c) = cl_PathConfs c" by (simp add: run)
qed

lemma log_safe_handle:
  assumes "log_safe cenv confs c" "cl_PathConfs c \<in> confs" "sorts (cl_disk c)"
    "\<forall>cnf. e = ReloadPathConfs cnf \<longrightarrow> cnf \<in> confs"
  shows "log_safe cenv confs (cleaner_handle cenv ok e c) \<and> cl_PathConfs (cleaner_handle cenv ok e c) \<in> confs \<and>
    sorts (cl_disk (cleaner_handle cenv ok e c))"
proof (cases e)
  case (Interval now)
  with log_safe_run [OF assms(1-3)] assms(2) show ?thesis by simp
next
  case (ReloadPathConfs cnf)
  with assms show ?thesis by (simp add: log_safe_def)
next
  case (Disk w)
  with assms log_safe_disk [OF _ _ _ assms(1), of "c\<lparr>cl_disk := (cl_disk c)\<lparr>walk_dir := w\<rparr>\<rparr>"] show ?thesis
    by (simp add: sorts_def)
qed

lemma cleaner_run_safe:
  assumes "sorts (cl_disk c)" "cl_removed c = []"
  shows "log_safe cenv (given_confs c events) (cleaner_run cenv ok now events c)"
proof -
  let ?G = "given_confs c events"
  have step: "log_safe cenv ?G c' \<and> cl_PathConfs c' \<in> ?G \<and> sorts (cl_disk c') \<Longrightarrow> set es \<subseteq> set events \<Longrightarrow>
      log_safe cenv ?G (fold (cleaner_handle cenv ok) es c')" for c' es
  proof (induction es arbitrary: c')
    case (Cons e es)
    have "\<forall>cnf. e = ReloadPathConfs cnf \<longrightarrow> cnf \<in> ?G" using Cons.prems(2) by (auto simp: given_confs_def)
    with Cons.prems log_safe_handle [of cenv ?G c' e ok] show ?case by (simp add: Cons.IH)
  qed simp
  have "log_safe cenv ?G c" "cl_PathConfs c \<in> ?G" by (simp_all add: log_safe_def assms(2) given_confs_def)
  from log_safe_run [OF this assms(1)] \<open>cl_PathConfs c \<in> ?G\<close> show ?thesis
    unfolding cleaner_run_def by (intro step) simp_all
qed

text \<open>
  Whatever configurations it is given and whatever others do to the disk, every file that the cleaner ever set out to
  remove was, when it did, a segment of a path under one of the configurations that it was given, whose start was
  older than the time that the configuration keeps segments.
\<close>
theorem cleaner_keeps_recent:
  assumes "sorts (cl_disk c)" "cl_removed c = []" "(t, f) \<in> set (cl_removed (cleaner_run cenv ok now events c))"
  shows "\<exists>cnf\<in>given_confs c events. \<exists>nm pc m pa.
    FindPathConf cenv cnf nm = Inr (pc, m) \<and> RecordDeleteAfter pc \<noteq> 0 \<and>
    Decode (local_zone (cl_disk (cleaner_run cenv ok now events c)))
      (segment_format (cl_disk (cleaner_run cenv ok now events c)) pc nm) f = Some pa \<and>
    rp_Start pa + RecordDeleteAfter pc \<le> t"
  using cleaner_run_safe [OF assms(1,2), of cenv events ok now] assms(3) unfolding log_safe_def by fast

definition sample_cleaner :: cleaner where
  "sample_cleaner = \<lparr>cl_PathConfs = [(''cam'', cleaner_conf)], cl_disk = store_sample, cl_removed = []\<rparr>"

lemma cleaner_keeps_recent_witness:
  "\<exists>cnf\<in>given_confs sample_cleaner [ReloadPathConfs []]. \<exists>nm pc m pa.
    FindPathConf sample_env cnf nm = Inr (pc, m) \<and> RecordDeleteAfter pc \<noteq> 0 \<and>
    Decode (local_zone (cl_disk (cleaner_run sample_env (\<lambda>_. True) 1704072600000000000 [ReloadPathConfs []] sample_cleaner)))
      (segment_format (cl_disk (cleaner_run sample_env (\<lambda>_. True) 1704072600000000000 [ReloadPathConfs []] sample_cleaner)) pc nm)
      ''/rec/cam/2024-01-01_00-00-00-000000.mp4'' = Some pa \<and>
    rp_Start pa + RecordDeleteAfter pc \<le> 1704072600000000000"
proof (rule cleaner_keeps_recent)
  show "sorts (cl_disk sample_cleaner)" "cl_removed sample_cleaner = []"
    by (simp_all add: sample_cleaner_def store_sample_sorts)
  show "(1704072600000000000, ''/rec/cam/2024-01-01_00-00-00-000000.mp4'')
      \<in> set (cl_removed (cleaner_run sample_env (\<lambda>_. True) 1704072600000000000 [ReloadPathConfs []] sample_cleaner))"
    by code_simp
qed

end
