(* ===== verification/Mp4Time.thy ===== *)
theory Mp4Time
  imports Prelude
begin

text \<open>
  The conversions between durations in nanoseconds and in the units of a track, as the playback server
  (internal/playback/segment_fmp4.go) and the recorder (internal/recorder/recorder_instance.go) have them. They are computed on
  64-bit integers, in two parts so that the products stay small.
\<close>

section \<open>64-bit integers\<close>

definition int64 :: "int \<Rightarrow> int" where
  "int64 = signed_take_bit 63"

definition fits64 :: "int \<Rightarrow> bool" where
  "fits64 x \<longleftrightarrow> - 9223372036854775808 \<le> x \<and> x < 9223372036854775808"

lemma int64_fits [simp]: "fits64 x \<Longrightarrow> int64 x = x"
  by (simp add: int64_def fits64_def signed_take_bit_int_eq_self)

lemma fits64_int64 [simp]: "fits64 (int64 x)"
  using signed_take_bit_int_greater_eq_minus_exp [of 63 x] signed_take_bit_int_less_exp [of 63 x]
  by (simp add: int64_def fits64_def)

definition go_mod :: "int \<Rightarrow> int \<Rightarrow> int" where
  "go_mod a b = a - go_div a b * b"

text \<open>A division by zero is a panic.\<close>

definition div64 :: "int \<Rightarrow> int \<Rightarrow> int result" where
  "div64 a b = (if b = 0 then Inl Panic else Inr (int64 (go_div a b)))"

section \<open>The conversions\<close>

definition durationGoToMp4 :: "duration \<Rightarrow> u32 \<Rightarrow> int" where
  "durationGoToMp4 v timeScale =
     (let timeScale64 = uint timeScale; secs = go_div v second; dec = go_mod v second
      in int64 (int64 (secs * timeScale64) + go_div (int64 (dec * timeScale64)) second))"

definition durationMp4ToGo :: "int \<Rightarrow> u32 \<Rightarrow> duration result" where
  "durationMp4ToGo v timeScale =
     (let timeScale64 = uint timeScale in
      bindE (div64 v timeScale64) (\<lambda>secs.
      let dec = go_mod v timeScale64 in
      bindE (div64 (int64 (dec * second)) timeScale64) (\<lambda>frac.
      Inr (int64 (int64 (secs * second) + frac)))))"

text \<open>\<open>multiplyAndDivide\<close> and \<open>timestampToDuration\<close> of the recorder.\<close>

definition multiplyAndDivide :: "int \<Rightarrow> int \<Rightarrow> int \<Rightarrow> int result" where
  "multiplyAndDivide v m d =
     bindE (div64 v d) (\<lambda>secs.
     let dec = go_mod v d in
     bindE (div64 (int64 (dec * m)) d) (\<lambda>frac.
     Inr (int64 (int64 (secs * m) + frac))))"

section \<open>The two parts give the quotient\<close>

lemma go_div_neg: "go_div (- a) b = - go_div a b"
  by (simp add: go_div_def sgn_minus)

lemma go_mod_neg: "go_mod (- a) b = - go_mod a b"
  by (simp add: go_mod_def go_div_neg)

lemma go_mod_nonneg: "0 \<le> a \<Longrightarrow> 0 < b \<Longrightarrow> go_mod a b = a mod b"
  by (simp add: go_mod_def go_div_nonneg minus_div_mult_eq_mod)

lemma split_quotient_nonneg:
  assumes "0 \<le> v" "0 \<le> m" "0 < d"
  shows "go_div v d * m + go_div (go_mod v d * m) d = go_div (v * m) d"
proof -
  have "v * m = (v mod d) * m + (v div d * m) * d"
    by (metis (no_types) add.commute div_mult_mod_eq distrib_right mult.assoc mult.commute)
  then have "(v * m) div d = v div d * m + ((v mod d) * m) div d"
    using assms(3) by (simp add: div_mult_self1)
  moreover have "0 \<le> (v mod d) * m" "0 \<le> v * m" using assms by simp_all
  ultimately show ?thesis using assms by (simp add: go_div_nonneg go_mod_nonneg)
qed

lemma split_quotient:
  assumes "0 \<le> m" "0 < d"
  shows "go_div v d * m + go_div (go_mod v d * m) d = go_div (v * m) d"
proof (cases "0 \<le> v")
  case True
  then show ?thesis using split_quotient_nonneg assms by blast
next
  case False
  from split_quotient_nonneg [of "- v", OF _ assms] False have
    "- (go_div v d * m + go_div (go_mod v d * m) d) = - go_div (v * m) d"
    by (simp add: go_div_neg go_mod_neg)
  then show ?thesis by (simp only: neg_equal_iff_equal)
qed

lemma go_div_between:
  assumes "0 < b"
  shows "0 \<le> a \<Longrightarrow> 0 \<le> go_div a b \<and> go_div a b \<le> a" "a \<le> 0 \<Longrightarrow> a \<le> go_div a b \<and> go_div a b \<le> 0"
proof -
  have nonneg: "0 \<le> go_div x b \<and> go_div x b \<le> x" if "0 \<le> x" for x
    using that assms div_le_dividend [of "nat x" "nat b"]
    by (simp add: go_div_nonneg pos_imp_zdiv_nonneg_iff flip: nat_div_distrib)
  then show "0 \<le> a \<Longrightarrow> 0 \<le> go_div a b \<and> go_div a b \<le> a" .
  show "a \<le> 0 \<Longrightarrow> a \<le> go_div a b \<and> go_div a b \<le> 0"
    using nonneg [of "- a"] by (simp add: go_div_neg)
qed

lemma go_mod_between:
  assumes "0 < b"
  shows "0 \<le> a \<Longrightarrow> 0 \<le> go_mod a b \<and> go_mod a b < b" "a \<le> 0 \<Longrightarrow> - b < go_mod a b \<and> go_mod a b \<le> 0"
proof -
  have nonneg: "0 \<le> go_mod x b \<and> go_mod x b < b" if "0 \<le> x" for x
    using that assms by (simp add: go_mod_nonneg)
  then show "0 \<le> a \<Longrightarrow> 0 \<le> go_mod a b \<and> go_mod a b < b" .
  show "a \<le> 0 \<Longrightarrow> - b < go_mod a b \<and> go_mod a b \<le> 0"
    using nonneg [of "- a"] by (simp add: go_mod_neg)
qed

lemma go_div_fits [simp]: "fits64 a \<Longrightarrow> 0 < b \<Longrightarrow> fits64 (go_div a b)"
  using go_div_between [of b a] by (cases "0 \<le> a") (auto simp: fits64_def)

lemma abs_fits: "\<bar>x\<bar> < 9223372036854775808 \<Longrightarrow> fits64 x"
  unfolding fits64_def by linarith

lemma div64_pos: "fits64 a \<Longrightarrow> 0 < b \<Longrightarrow> div64 a b = Inr (go_div a b)"
  by (simp add: div64_def)

text \<open>When the quotient fits in 64 bits, the first part does: both parts have its sign.\<close>

lemma split_fits:
  assumes "0 \<le> m" "0 < d" "fits64 (go_div (v * m) d)"
  shows "fits64 (go_div v d * m)"
proof (cases "0 \<le> v")
  case True
  with assms have "0 \<le> go_div v d * m" "0 \<le> go_div (go_mod v d * m) d"
    by (simp_all add: go_div_between go_mod_between)
  with split_quotient [OF assms(1,2), of v] assms(3) show ?thesis unfolding fits64_def by linarith
next
  case False
  then have v: "v \<le> 0" by simp
  have "go_div v d * m \<le> 0" using go_div_between(2) [OF assms(2) v] assms(1) by (simp add: mult_nonpos_nonneg)
  moreover have "go_div (go_mod v d * m) d \<le> 0"
    using go_mod_between(2) [OF assms(2) v] assms(1,2) by (simp add: go_div_between(2) mult_nonpos_nonneg)
  ultimately show ?thesis using split_quotient [OF assms(1,2), of v] assms(3) unfolding fits64_def by linarith
qed

lemma product_fits:
  assumes "0 < d" "0 \<le> m" "d * m < 9223372036854775808"
  shows "fits64 (go_mod v d * m)"
proof -
  have "\<bar>go_mod v d\<bar> \<le> d" using go_mod_between [OF assms(1), of v] by (cases "0 \<le> v") auto
  then have "\<bar>go_mod v d * m\<bar> \<le> d * m" using assms(2) by (simp add: abs_mult mult_right_mono)
  with assms(3) show ?thesis unfolding fits64_def by linarith
qed

text \<open>
  The conversions compute the quotient, truncated towards zero, whenever it fits in 64 bits: no intermediate product
  overflows, for any time scale.
\<close>

lemma time_scale_product: "0 \<le> uint (ts :: u32)" "second * uint ts < 9223372036854775808" "uint ts * second < 9223372036854775808"
  using uint_lt2p [of ts] by simp_all

lemma durationGoToMp4_exact:
  assumes "fits64 (go_div (v * uint ts) second)"
  shows "durationGoToMp4 v ts = go_div (v * uint ts) second"
  using split_fits [OF time_scale_product(1) _ assms] product_fits [of second "uint ts" v] time_scale_product
    split_quotient [of "uint ts" second v] assms
  by (simp add: durationGoToMp4_def Let_def)

lemma durationMp4ToGo_exact:
  assumes "fits64 v" "fits64 (go_div (v * second) (uint ts))" "ts \<noteq> 0"
  shows "durationMp4ToGo v ts = Inr (go_div (v * second) (uint ts))"
proof -
  have ts: "0 < uint ts" using assms(3) by (simp add: word_gt_0 word_less_def [symmetric] uint_0_iff less_le)
  then show ?thesis
    using split_fits [OF _ ts assms(2)] product_fits [OF ts, of second v] time_scale_product [of ts]
      split_quotient [OF _ ts, of second v] assms(1,2)
    by (simp add: durationMp4ToGo_def Let_def div64_pos)
qed

lemma durationMp4ToGo_zero: "durationMp4ToGo v 0 = Inl Panic"
  by (simp add: durationMp4ToGo_def div64_def)

lemma durationMp4ToGo_total: "ts \<noteq> 0 \<Longrightarrow> \<exists>d. durationMp4ToGo v ts = Inr d"
  by (simp add: durationMp4ToGo_def div64_def uint_0_iff Let_def)

text \<open>Truncation loses at most one unit of a time scale that is not finer than a nanosecond.\<close>

lemma floor_back:
  fixes x t s :: int
  assumes "0 < t" "t \<le> s"
  shows "x * s div t * t div s = x \<or> x * s div t * t div s = x - 1"
proof -
  let ?d = "x * s div t"
  have s: "0 < s" using assms by simp
  have up: "?d * t \<le> x * s" using pos_mod_sign [OF assms(1), of "x * s"] div_mult_mod_eq [of "x * s" t] by linarith
  have "x * s < ?d * t + t" using pos_mod_bound [OF assms(1), of "x * s"] div_mult_mod_eq [of "x * s" t] by linarith
  with assms(2) have low: "(x - 1) * s \<le> ?d * t" by (simp add: left_diff_distrib)
  have "?d * t div s \<le> x" using zdiv_mono1 [OF up s] s by simp
  moreover have "x - 1 \<le> ?d * t div s" using zdiv_mono1 [OF low s] s by simp
  ultimately show ?thesis by linarith
qed

text \<open>
  A time in the units of a track that is converted to a duration and back, for a track with a positive time scale
  of at most a nanosecond, is itself or one unit less, and no step of the computation overflows when the duration fits
  in 64 bits; a track with the time scale zero makes the conversion panic.
\<close>
theorem mp4_time_roundtrip:
  assumes "0 \<le> x" "x * second div uint ts < 9223372036854775808" "x < 9223372036854775808" "uint ts \<le> second"
  shows "if ts = 0 then durationMp4ToGo x ts = Inl Panic
    else durationMp4ToGo x ts = Inr (x * second div uint ts) \<and>
      durationGoToMp4 (x * second div uint ts) ts \<in> {x - 1, x}"
proof (cases "ts = 0")
  case False
  then have ts: "0 < uint ts" by (simp add: uint_0_iff less_le)
  let ?d = "x * second div uint ts"
  have d: "0 \<le> ?d" "fits64 x" "go_div (x * second) (uint ts) = ?d"
    using assms(1,3) ts by (simp_all add: fits64_def go_div_nonneg pos_imp_zdiv_nonneg_iff)
  then have go: "durationMp4ToGo x ts = Inr ?d"
    using durationMp4ToGo_exact [of x ts] assms(2) False by (simp add: fits64_def)
  have ret: "go_div (?d * uint ts) second = ?d * uint ts div second"
    using d(1) ts by (intro go_div_nonneg) simp_all
  from floor_back [OF ts assms(4), of x] d(2) assms(1) have "fits64 (?d * uint ts div second)"
    unfolding fits64_def by linarith
  with ret durationGoToMp4_exact [of ?d ts] floor_back [OF ts assms(4), of x] False go show ?thesis by auto
qed (simp add: durationMp4ToGo_zero)

lemma mp4_time_roundtrip_witness:
  "durationMp4ToGo 3003 90000 = Inr 33366666 \<and> durationGoToMp4 33366666 90000 \<in> {3002, 3003}"
  using mp4_time_roundtrip [of 3003 90000] by simp

end
