(* ===== verification/PlaybackSegment.thy ===== *)
theory PlaybackSegment
  imports Mp4Time
begin

text \<open>
  The reading of a recorded file (internal/playback/segment_fmp4.go): the initialization and duration in its header, and the
  duration of a file whose header has none, because the recorder did not close it, from its last part.

  A file is its bytes and a position. The decoders of single boxes of package go-mp4, and that of the initialization of
  package fmp4, are parameters, collected in \<open>mp4_lib\<close>; the framing of boxes is read by the code itself.
\<close>

section \<open>Files\<close>

record seeker =
  sk_data :: bytes
  sk_pos :: nat

type_synonym 'a reader = "seeker \<Rightarrow> 'a result \<times> seeker"

definition rret :: "'a \<Rightarrow> 'a reader" where
  "rret v f = (Inr v, f)"

definition rfail :: "go_error \<Rightarrow> 'a reader" where
  "rfail e f = (Inl e, f)"

definition rbind :: "'a reader \<Rightarrow> ('a \<Rightarrow> 'b reader) \<Rightarrow> 'b reader" where
  "rbind x k f = bindS (x f) k"

definition lift_result :: "'a result \<Rightarrow> 'a reader" where
  "lift_result r f = (r, f)"

definition io_ReadFull :: "nat \<Rightarrow> bytes reader" where
  "io_ReadFull n f =
     (case read_full n (drop (sk_pos f) (sk_data f)) of
        (r, rest) \<Rightarrow> (r, f\<lparr>sk_pos := sk_pos f + (length (drop (sk_pos f) (sk_data f)) - length rest)\<rparr>))"

definition seek_to :: "int \<Rightarrow> int reader" where
  "seek_to p f = (if p < 0 then (Inl (External 22), f) else (Inr p, f\<lparr>sk_pos := nat p\<rparr>))"

definition SeekStart :: "int \<Rightarrow> int reader" where
  "SeekStart off = seek_to off"

definition SeekCurrent :: "int \<Rightarrow> int reader" where
  "SeekCurrent off f = seek_to (int (sk_pos f) + off) f"

section \<open>Boxes\<close>

type_synonym box_type = "byte list"

definition ftyp :: box_type where "ftyp = [0x66, 0x74, 0x79, 0x70]"
definition moov :: box_type where "moov = [0x6D, 0x6F, 0x6F, 0x76]"
definition moof :: box_type where "moof = [0x6D, 0x6F, 0x6F, 0x66]"
definition mfhd :: box_type where "mfhd = [0x6D, 0x66, 0x68, 0x64]"
definition mdat :: box_type where "mdat = [0x6D, 0x64, 0x61, 0x74]"
definition traf :: box_type where "traf = [0x74, 0x72, 0x61, 0x66]"
definition tfhd :: box_type where "tfhd = [0x74, 0x66, 0x68, 0x64]"
definition tfdt :: box_type where "tfdt = [0x74, 0x66, 0x64, 0x74]"
definition trun :: box_type where "trun = [0x74, 0x72, 0x75, 0x6E]"

lemmas box_types = ftyp_def moov_def moof_def mfhd_def mdat_def traf_def tfhd_def tfdt_def trun_def

definition box_size :: "bytes \<Rightarrow> u32" where
  "box_size buf = be32 (buf ! 0) (buf ! 1) (buf ! 2) (buf ! 3)"

record 'c init_track =
  it_ID :: int
  it_TimeScale :: u32
  it_Codec :: 'c

record trun_entry =
  te_Duration :: u32
  te_Size :: u32
  te_Flags :: u32
  te_Offset :: int

text \<open>\<open>mvhd\<close>: the bytes it takes, the duration and the time scale. The payload of \<open>tfhd\<close> is the track, that of \<open>tfdt\<close> the base time.\<close>

record 'c mp4_lib =
  Unmarshal_mvhd :: "u64 \<Rightarrow> (u64 \<times> u32 \<times> u32) reader"
  init_Unmarshal :: "bytes \<Rightarrow> 'c init_track list result"
  Unmarshal_tfhd :: "bytes \<Rightarrow> u32 result"
  Unmarshal_tfdt :: "bytes \<Rightarrow> u64 result"
  Unmarshal_trun :: "bytes \<Rightarrow> trun_entry list result"

definition findInitTrack :: "'c init_track list \<Rightarrow> int \<Rightarrow> 'c init_track option" where
  "findInitTrack tracks trackID = List.find (\<lambda>track. it_ID track = trackID) tracks"

definition not_found :: "string \<Rightarrow> go_error" where
  "not_found nm = Errorf (nm @ '' box not found'') []"

text \<open>A header of eight bytes that has the given type; its size.\<close>

definition expect_box :: "box_type \<Rightarrow> string \<Rightarrow> u32 reader" where
  "expect_box ty nm =
     rbind (io_ReadFull 8) (\<lambda>buf. if drop 4 buf \<noteq> ty then rfail (not_found nm) else rret (box_size buf))"

definition segmentFMP4ReadHeader :: "'c mp4_lib \<Rightarrow> ('c init_track list \<times> duration) reader" where
  "segmentFMP4ReadHeader lib =
     rbind (expect_box ftyp ''ftyp'') (\<lambda>ftypSize.
     rbind (SeekStart (uint ftypSize)) (\<lambda>_.
     rbind (expect_box moov ''moov'') (\<lambda>moovSize.
     rbind (SeekCurrent 8) (\<lambda>_.
     rbind (Unmarshal_mvhd lib (ucast (moovSize - 8))) (\<lambda>(mvhdSize, durationV0, timescale).
     let mvhdSize = mvhdSize + 8; moovSize = moovSize - (8 + ucast mvhdSize) in
     rbind (lift_result (div64 (int64 (uint durationV0 * second)) (uint timescale))) (\<lambda>d.
     rbind (io_ReadFull (unat moovSize)) (\<lambda>buf.
     rbind (lift_result (init_Unmarshal lib buf)) (\<lambda>init.
     rret (init, d)))))))))"

text \<open>A round of the loop that looks for the last part: it ends the loop, fails, or has passed a part.\<close>

datatype moof_step = MoofBreak | MoofError go_error | MoofNext seeker

definition moof_round :: "seeker \<Rightarrow> moof_step" where
  "moof_round f =
     (case io_ReadFull 8 f of
        (Inl _, _) \<Rightarrow> MoofBreak
      | (Inr buf, f1) \<Rightarrow>
          if drop 4 buf \<noteq> moof then MoofError (not_found ''moof'')
          else
            case SeekCurrent (uint (box_size buf) - 8) f1 of
              (Inl _, _) \<Rightarrow> MoofBreak
            | (Inr _, f2) \<Rightarrow>
                case io_ReadFull 8 f2 of
                  (Inl _, _) \<Rightarrow> MoofBreak
                | (Inr buf, f3) \<Rightarrow>
                    if drop 4 buf \<noteq> mdat then MoofError (not_found ''mdat'')
                    else
                      case SeekCurrent (uint (box_size buf) - 8) f3 of
                        (Inl _, _) \<Rightarrow> MoofBreak
                      | (Inr _, f4) \<Rightarrow> MoofNext f4)"

lemma io_ReadFull_Inr:
  "io_ReadFull n f = (Inr buf, f') \<longleftrightarrow>
    sk_pos f + n \<le> max (length (sk_data f)) (sk_pos f) \<and> buf = take n (drop (sk_pos f) (sk_data f)) \<and> f' = f\<lparr>sk_pos := sk_pos f + n\<rparr>"
proof (cases "n \<le> length (drop (sk_pos f) (sk_data f))")
  case True
  then show ?thesis by (auto simp: io_ReadFull_def read_full_def)
next
  case False
  then show ?thesis by (auto simp: io_ReadFull_def read_full_def split: if_splits)
qed

lemma seek_Inr: "SeekCurrent off f = (Inr p, f') \<longleftrightarrow> 0 \<le> int (sk_pos f) + off \<and> p = int (sk_pos f) + off \<and> f' = f\<lparr>sk_pos := nat p\<rparr>"
  by (auto simp: SeekCurrent_def seek_to_def)

lemma header_read:
  assumes "io_ReadFull 8 f = (Inr buf, f')"
  shows "sk_pos f + 8 \<le> length (sk_data f)" "sk_data f' = sk_data f" "sk_pos f' = sk_pos f + 8"
    "buf = take 8 (drop (sk_pos f) (sk_data f))"
  using assms by (simp_all add: io_ReadFull_Inr max_def split: if_splits)

lemma skip_rest:
  "sk_pos f' = sk_pos f + 8 \<Longrightarrow> SeekCurrent (uint (sz :: u32) - 8) f' = (Inr p, f'') \<longleftrightarrow>
    p = int (sk_pos f) + uint sz \<and> f'' = f'\<lparr>sk_pos := sk_pos f + unat sz\<rparr>"
  by (auto simp: seek_Inr nat_add_distrib)

text \<open>A round passes at least one byte: with a size of zero the header of the next box would be the same one.\<close>

lemma moof_round_next:
  assumes "moof_round f = MoofNext f'"
  shows "sk_data f' = sk_data f \<and> sk_pos f < length (sk_data f) \<and> sk_pos f < sk_pos f'"
proof -
  obtain buf f1 where 1: "io_ReadFull 8 f = (Inr buf, f1)" "drop 4 buf = moof"
    using assms by (auto simp: moof_round_def split: prod.splits sum.splits if_splits)
  obtain p f2 where 2: "SeekCurrent (uint (box_size buf) - 8) f1 = (Inr p, f2)"
    using assms 1 by (auto simp: moof_round_def split: prod.splits sum.splits if_splits)
  obtain buf' f3 where 3: "io_ReadFull 8 f2 = (Inr buf', f3)" "drop 4 buf' = mdat"
    using assms 1 2 by (auto simp: moof_round_def split: prod.splits sum.splits if_splits)
  obtain q where 4: "SeekCurrent (uint (box_size buf') - 8) f3 = (Inr q, f')"
    using assms 1 2 3 by (auto simp: moof_round_def split: prod.splits sum.splits if_splits)
  note f1 = header_read [OF 1(1)] and f3 = header_read [OF 3(1)]
  have f2: "sk_data f2 = sk_data f" "sk_pos f2 = sk_pos f + unat (box_size buf)"
    using iffD1 [OF skip_rest [OF f1(3)] 2] f1 by simp_all
  have f4: "sk_data f' = sk_data f" "sk_pos f' = sk_pos f2 + unat (box_size buf')"
    using iffD1 [OF skip_rest [OF f3(3)] 4] f3 f2 by simp_all
  have "unat (box_size buf) \<noteq> 0"
  proof
    assume "unat (box_size buf) = 0"
    then have "buf' = buf" using f1(4) f3(4) f2 by simp
    with 1(2) 3(2) show False by (simp add: box_types)
  qed
  with f1(1) f2 f4 show ?thesis by simp
qed

function last_moof :: "seeker \<Rightarrow> nat option \<Rightarrow> nat option result" where
  "last_moof f lastMoofPos =
     (case moof_round f of
        MoofBreak \<Rightarrow> Inr lastMoofPos
      | MoofError e \<Rightarrow> Inl e
      | MoofNext f' \<Rightarrow> last_moof f' (Some (sk_pos f)))"
  by pat_completeness auto
termination
proof (relation "measure (\<lambda>(f, _). length (sk_data f) - sk_pos f)")
  fix f f' :: seeker and last :: "nat option"
  assume "moof_round f = MoofNext f'"
  from moof_round_next [OF this]
  show "((f', Some (sk_pos f)), f, last) \<in> measure (\<lambda>(f, _). length (sk_data f) - sk_pos f)" by auto
qed simp

declare last_moof.simps [simp del]

text \<open>A box in a track fragment: its payload.\<close>

definition sub_box :: "box_type \<Rightarrow> string \<Rightarrow> bytes reader" where
  "sub_box ty nm = rbind (expect_box ty nm) (\<lambda>sz. io_ReadFull (unat (sz - 8)))"

definition invalid_box :: "string \<Rightarrow> 'a result \<Rightarrow> 'a reader" where
  "invalid_box nm r =
     lift_result (case r of Inl e \<Rightarrow> Inl (Wrapped (''invalid '' @ nm @ '' box: %w'') e) | Inr v \<Rightarrow> Inr v)"

text \<open>A track fragment: the time at which its last sample ends; nothing when the parts are over.\<close>

definition read_traf :: "'c mp4_lib \<Rightarrow> 'c init_track list \<Rightarrow> duration option reader" where
  "read_traf lib init =
     rbind (io_ReadFull 8) (\<lambda>buf.
     if drop 4 buf = mdat then rret None
     else if drop 4 buf \<noteq> traf then rfail (Errorf ''unexpected box %x'' (map uint (drop 4 buf)))
     else
       rbind (sub_box tfhd ''tfhd'') (\<lambda>buf2.
       rbind (invalid_box ''tfhd'' (Unmarshal_tfhd lib buf2)) (\<lambda>trackID.
       case findInitTrack init (uint trackID) of
         None \<Rightarrow> rfail (Errorf ''invalid track ID: %v'' [uint trackID])
       | Some track \<Rightarrow>
           rbind (sub_box tfdt ''tfdt'') (\<lambda>buf2.
           rbind (invalid_box ''tfdt'' (Unmarshal_tfdt lib buf2)) (\<lambda>base.
           rbind (sub_box trun ''trun'') (\<lambda>buf2.
           rbind (invalid_box ''trun'' (Unmarshal_trun lib buf2)) (\<lambda>entries.
           let elapsed = fold (\<lambda>e t. int64 (t + uint (te_Duration e))) entries (int64 (uint base)) in
           rbind (lift_result (durationMp4ToGo elapsed (it_TimeScale track))) (\<lambda>elapsedGo.
           rret (Some elapsedGo)))))))))"

text \<open>Readers that only move forward.\<close>

definition forward :: "nat \<Rightarrow> 'a reader \<Rightarrow> bool" where
  "forward n x \<longleftrightarrow>
     (\<forall>f r f'. x f = (r, f') \<longrightarrow> sk_data f' = sk_data f \<and> sk_pos f \<le> sk_pos f' \<and>
        (\<forall>v. r = Inr v \<longrightarrow> sk_pos f + n \<le> sk_pos f' \<and> sk_pos f + n \<le> max (length (sk_data f)) (sk_pos f)))"

lemma forward_ReadFull [intro]: "forward n (io_ReadFull n)"
  unfolding forward_def
proof (intro allI impI)
  fix f r f'
  assume "io_ReadFull n f = (r, f')"
  then show "sk_data f' = sk_data f \<and> sk_pos f \<le> sk_pos f' \<and>
      (\<forall>v. r = Inr v \<longrightarrow> sk_pos f + n \<le> sk_pos f' \<and> sk_pos f + n \<le> max (length (sk_data f)) (sk_pos f))"
    by (cases r) (auto simp: io_ReadFull_Inr, auto simp: io_ReadFull_def split: prod.splits)
qed

lemma forward_const [intro]: "forward 0 (rret v)" "forward 0 (rfail e)" "forward 0 (lift_result r)" "forward 0 (invalid_box nm r)"
  by (auto simp: forward_def rret_def rfail_def lift_result_def invalid_box_def)

lemma forward_weaken: "forward n x \<Longrightarrow> m \<le> n \<Longrightarrow> forward m x"
  unfolding forward_def by fastforce

lemma forward_bind:
  assumes "forward n x" "\<And>v. forward 0 (k v)"
  shows "forward n (rbind x k)"
  unfolding forward_def
proof (intro allI impI)
  fix f r f'
  assume r: "rbind x k f = (r, f')"
  obtain r1 f1 where x: "x f = (r1, f1)" by force
  note a = assms(1) [unfolded forward_def, rule_format, OF x]
  show "sk_data f' = sk_data f \<and> sk_pos f \<le> sk_pos f' \<and>
      (\<forall>v. r = Inr v \<longrightarrow> sk_pos f + n \<le> sk_pos f' \<and> sk_pos f + n \<le> max (length (sk_data f)) (sk_pos f))"
  proof (cases r1)
    case (Inl e)
    with r x a show ?thesis by (auto simp: rbind_def)
  next
    case (Inr v)
    with r x have "k v f1 = (r, f')" by (simp add: rbind_def)
    with assms(2) [of v] a Inr show ?thesis unfolding forward_def by (metis le_trans)
  qed
qed

lemma forward_sub_box: "forward 0 (sub_box ty nm)"
  unfolding sub_box_def expect_box_def
  by (intro forward_bind forward_weaken [OF forward_ReadFull]) (auto intro: forward_weaken [OF forward_ReadFull])

lemma forward_traf: "forward 8 (read_traf lib init)"
  unfolding read_traf_def
  by (intro forward_bind forward_ReadFull)
    (auto intro!: forward_bind forward_sub_box split: option.split simp: Let_def)

lemma traf_progress:
  assumes "read_traf lib init f = (Inr v, f')"
  shows "length (sk_data f') - sk_pos f' < length (sk_data f) - sk_pos f"
  using forward_traf [of lib init, unfolded forward_def, rule_format, OF assms] by (auto simp: max_def split: if_splits)

function traf_loop :: "'c mp4_lib \<Rightarrow> 'c init_track list \<Rightarrow> duration \<Rightarrow> seeker \<Rightarrow> duration result" where
  "traf_loop lib init maxElapsed f =
     (case read_traf lib init f of
        (Inl e, _) \<Rightarrow> Inl e
      | (Inr None, _) \<Rightarrow> Inr maxElapsed
      | (Inr (Some elapsedGo), f') \<Rightarrow> traf_loop lib init (if elapsedGo > maxElapsed then elapsedGo else maxElapsed) f')"
  by pat_completeness auto
termination
  by (relation "measure (\<lambda>(_, _, _, f). length (sk_data f) - sk_pos f)") (auto dest!: traf_progress [OF sym])

declare traf_loop.simps [simp del]

definition segmentFMP4ReadDurationFromParts :: "'c mp4_lib \<Rightarrow> 'c init_track list \<Rightarrow> seeker \<Rightarrow> duration result" where
  "segmentFMP4ReadDurationFromParts lib init f =
     fst (rbind (SeekStart 0) (\<lambda>_.
          rbind (expect_box ftyp ''ftyp'') (\<lambda>ftypSize.
          rbind (SeekStart (uint ftypSize)) (\<lambda>_.
          rbind (expect_box moov ''moov'') (\<lambda>moovSize.
          rbind (SeekCurrent (uint moovSize - 8)) (\<lambda>_.
          rbind (\<lambda>f. (last_moof f None, f)) (\<lambda>lastMoofPos.
          case lastMoofPos of
            None \<Rightarrow> rfail (Errorf ''no moof boxes found'' [])
          | Some p \<Rightarrow>
              rbind (SeekStart (int p + 8)) (\<lambda>_.
              rbind (expect_box mfhd ''mfhd'') (\<lambda>_.
              rbind (SeekCurrent 8) (\<lambda>_ f. (traf_loop lib init 0 f, f)))))))))) f)"

section \<open>Reading what was written\<close>

text \<open>A file at a position: what is before it and what is after.\<close>

definition at :: "bytes \<Rightarrow> bytes \<Rightarrow> seeker" where
  "at pre rest = \<lparr>sk_data = pre @ rest, sk_pos = length pre\<rparr>"

definition box_head :: "box_type \<Rightarrow> bytes \<Rightarrow> bytes" where
  "box_head ty payload = put32 (of_nat (8 + length payload)) @ ty"

definition box :: "box_type \<Rightarrow> bytes \<Rightarrow> bytes" where
  "box ty payload = box_head ty payload @ payload"

definition box_fits :: "bytes \<Rightarrow> bool" where
  "box_fits payload \<longleftrightarrow> length payload + 8 < 4294967296"

record fragment =
  fr_tfhd :: bytes
  fr_tfdt :: bytes
  fr_trun :: bytes

record file_part =
  fp_mfhd :: bytes
  fp_trafs :: "fragment list"
  fp_mdat :: bytes

definition traf_bytes :: "fragment \<Rightarrow> bytes" where
  "traf_bytes t = box traf (box tfhd (fr_tfhd t) @ box tfdt (fr_tfdt t) @ box trun (fr_trun t))"

definition moof_bytes :: "file_part \<Rightarrow> bytes" where
  "moof_bytes p = box moof (box mfhd (fp_mfhd p) @ concat (map traf_bytes (fp_trafs p)))"

definition part_bytes :: "file_part \<Rightarrow> bytes" where
  "part_bytes p = moof_bytes p @ box mdat (fp_mdat p)"

definition part_fits :: "file_part \<Rightarrow> bool" where
  "part_fits p \<longleftrightarrow>
     length (fp_mfhd p) = 8 \<and> length (moof_bytes p) < 4294967296 \<and> box_fits (fp_mdat p)"

lemma type_lengths [simp]:
  "length ftyp = 4" "length moov = 4" "length moof = 4" "length mfhd = 4" "length mdat = 4" "length traf = 4"
  "length tfhd = 4" "length tfdt = 4" "length trun = 4"
  by (simp_all add: box_types)

lemma types_differ [simp]:
  "moof \<noteq> mdat" "mdat \<noteq> moof" "traf \<noteq> mdat" "mdat \<noteq> traf"
  by (simp_all add: box_types)

lemma box_head_fields [simp]:
  "length ty = 4 \<Longrightarrow> length (box_head ty payload) = 8" "drop 4 (box_head ty payload) = ty"
  "box_size (box_head ty payload) = of_nat (8 + length payload)"
  by (simp_all add: box_head_def put32_def box_size_def be32_put32 [unfolded put32_def])

lemma length_box: "length ty = 4 \<Longrightarrow> length (box ty payload) = 8 + length payload"
  by (simp add: box_def)

lemma at_data [simp]: "sk_data (at pre rest) = pre @ rest" "sk_pos (at pre rest) = length pre"
  by (simp_all add: at_def)

lemma read_at: "n = length xs \<Longrightarrow> io_ReadFull n (at pre (xs @ rest)) = (Inr xs, at (pre @ xs) rest)"
  by (simp add: io_ReadFull_Inr at_def)

lemma read_at_short: "length rest < n \<Longrightarrow> \<exists>e f. io_ReadFull n (at pre rest) = (Inl e, f)"
  by (simp add: io_ReadFull_def at_def read_full_def)

lemma skip_at: "n = int (length xs) \<Longrightarrow> SeekCurrent n (at pre (xs @ rest)) = (Inr (int (length (pre @ xs))), at (pre @ xs) rest)"
  by (simp add: seek_Inr at_def)

lemma read_box_header:
  "length ty = 4 \<Longrightarrow> io_ReadFull 8 (at pre (box ty payload @ rest)) =
    (Inr (box_head ty payload), at (pre @ box_head ty payload) (payload @ rest))"
  unfolding box_def append_assoc by (rule read_at) simp

lemma expect_box_at:
  "length ty = 4 \<Longrightarrow> expect_box ty nm (at pre (box ty payload @ rest)) =
    (Inr (of_nat (8 + length payload)), at (pre @ box_head ty payload) (payload @ rest))"
  by (simp add: expect_box_def rbind_def read_box_header rret_def del: of_nat_add)

lemma box_fits_size:
  assumes "box_fits payload"
  shows "uint (of_nat (8 + length payload) :: u32) = 8 + int (length payload)"
    "unat (of_nat (8 + length payload) - 8 :: u32) = length payload"
proof -
  show "uint (of_nat (8 + length payload) :: u32) = 8 + int (length payload)"
    using assms by (simp only: uint_nat unat_of_nat) (simp add: box_fits_def)
  have "(of_nat (8 + length payload) - 8 :: u32) = of_nat (length payload)" by simp
  then show "unat (of_nat (8 + length payload) - 8 :: u32) = length payload"
    using assms by (simp only: unat_of_nat) (simp add: box_fits_def)
qed

lemma sub_box_at:
  assumes "length ty = 4" "box_fits payload"
  shows "sub_box ty nm (at pre (box ty payload @ rest)) = (Inr payload, at (pre @ box ty payload) rest)"
  unfolding sub_box_def rbind_def expect_box_at [OF assms(1)] bindS_simps box_fits_size(2) [OF assms(2)]
  by (subst read_at [OF refl]) (simp add: box_def)

text \<open>The end of the last sample of a fragment.\<close>

definition fragment_end :: "'c mp4_lib \<Rightarrow> 'c init_track list \<Rightarrow> fragment \<Rightarrow> duration \<Rightarrow> bool" where
  "fragment_end lib init t d \<longleftrightarrow>
     (\<exists>trackID track base entries.
        Unmarshal_tfhd lib (fr_tfhd t) = Inr trackID \<and> findInitTrack init (uint trackID) = Some track \<and>
        Unmarshal_tfdt lib (fr_tfdt t) = Inr base \<and> Unmarshal_trun lib (fr_trun t) = Inr entries \<and>
        uint base + (\<Sum>e\<leftarrow>entries. uint (te_Duration e)) < 9223372036854775808 \<and>
        durationMp4ToGo (uint base + (\<Sum>e\<leftarrow>entries. uint (te_Duration e))) (it_TimeScale track) = Inr d)"

lemma elapsed_sum:
  "0 \<le> t \<Longrightarrow> t + (\<Sum>e\<leftarrow>entries. uint (te_Duration e)) < 9223372036854775808 \<Longrightarrow>
    fold (\<lambda>e t. int64 (t + uint (te_Duration e))) entries t = t + (\<Sum>e\<leftarrow>entries. uint (te_Duration e))"
proof (induction entries arbitrary: t)
  case (Cons e es)
  have "0 \<le> (\<Sum>e\<leftarrow>es. uint (te_Duration e))" by (intro sum_list_nonneg) auto
  with Cons.prems uint_ge_0 [of "te_Duration e"] have "fits64 (t + uint (te_Duration e))"
    unfolding fits64_def list.map sum_list.Cons by linarith
  with Cons show ?case by simp
qed simp

lemma read_traf_at:
  assumes "box_fits (fr_tfhd t)" "box_fits (fr_tfdt t)" "box_fits (fr_trun t)" "fragment_end lib init t d"
  shows "read_traf lib init (at pre (traf_bytes t @ rest)) = (Inr (Some d), at (pre @ traf_bytes t) rest)"
proof -
  obtain trackID track base entries where d: "Unmarshal_tfhd lib (fr_tfhd t) = Inr trackID"
    "findInitTrack init (uint trackID) = Some track" "Unmarshal_tfdt lib (fr_tfdt t) = Inr base"
    "Unmarshal_trun lib (fr_trun t) = Inr entries"
    "uint base + (\<Sum>e\<leftarrow>entries. uint (te_Duration e)) < 9223372036854775808"
    "durationMp4ToGo (uint base + (\<Sum>e\<leftarrow>entries. uint (te_Duration e))) (it_TimeScale track) = Inr d"
    using assms(4) by (auto simp: fragment_end_def)
  have "0 \<le> (\<Sum>e\<leftarrow>entries. uint (te_Duration e))" by (intro sum_list_nonneg) auto
  with d(5) uint_ge_0 [of base] have "fits64 (uint base)" unfolding fits64_def by linarith
  with elapsed_sum [OF _ d(5)] have e: "fold (\<lambda>e t. int64 (t + uint (te_Duration e))) entries (int64 (uint base)) =
      uint base + (\<Sum>e\<leftarrow>entries. uint (te_Duration e))" by simp
  let ?sub = "box tfhd (fr_tfhd t) @ box tfdt (fr_tfdt t) @ box trun (fr_trun t)"
  show ?thesis
    unfolding read_traf_def rbind_def traf_bytes_def
    by (subst read_box_header)
      (simp_all add: assms(1-3) sub_box_at d(1-4) invalid_box_def lift_result_def rret_def Let_def e d(6) rbind_def box_def [of traf])
qed

lemma read_traf_mdat: "fst (read_traf lib init (at pre (box mdat x @ rest))) = Inr None"
  unfolding read_traf_def rbind_def
  by (subst read_box_header) (simp_all add: rret_def)

lemma traf_loop_at:
  assumes "\<forall>t\<in>set ts. box_fits (fr_tfhd t) \<and> box_fits (fr_tfdt t) \<and> box_fits (fr_trun t)"
    "list_all2 (fragment_end lib init) ts ds"
  shows "traf_loop lib init m (at pre (concat (map traf_bytes ts) @ box mdat x @ rest)) = Inr (fold max ds m)"
  using assms(2,1)
proof (induction ts ds arbitrary: m pre rule: list_all2_induct)
  case Nil
  obtain f where "read_traf lib init (at pre (box mdat x @ rest)) = (Inr None, f)"
    using read_traf_mdat [of lib init pre x rest] by (metis prod.collapse)
  then show ?case by (simp add: traf_loop.simps [of lib init m])
next
  case (Cons t ts d ds)
  have "read_traf lib init (at pre (traf_bytes t @ concat (map traf_bytes ts) @ box mdat x @ rest)) =
      (Inr (Some d), at (pre @ traf_bytes t) (concat (map traf_bytes ts) @ box mdat x @ rest))"
    using Cons by (intro read_traf_at) simp_all
  with Cons show ?case by (simp add: traf_loop.simps [of lib init m] max_def)
qed

text \<open>The search for the last part passes every complete one.\<close>

lemma moof_fits:
  assumes "part_fits p" "body = box mfhd (fp_mfhd p) @ concat (map traf_bytes (fp_trafs p))"
  shows "box_fits body" "part_bytes p = box moof body @ box mdat (fp_mdat p)" "length (moof_bytes p) = 8 + length body"
  using assms by (simp_all add: part_fits_def part_bytes_def moof_bytes_def length_box box_fits_def)

lemma moof_round_at:
  assumes "part_fits p"
  shows "moof_round (at pre (part_bytes p @ rest)) = MoofNext (at (pre @ part_bytes p) rest)"
proof -
  obtain body where body: "body = box mfhd (fp_mfhd p) @ concat (map traf_bytes (fp_trafs p))" by simp
  note m = moof_fits [OF assms body]
  have mdat: "box_fits (fp_mdat p)" using assms by (simp add: part_fits_def)
  have skip: "SeekCurrent (uint (of_nat (8 + length xs) :: u32) - 8) (at pre' (xs @ rest')) =
      (Inr (int (length (pre' @ xs))), at (pre' @ xs) rest')" if "box_fits xs" for xs pre' rest'
    unfolding box_fits_size(1) [OF that] by (rule skip_at) simp
  show ?thesis
    unfolding moof_round_def m(2) append_assoc
    by (simp add: read_box_header skip [OF m(1)] skip [OF mdat] del: of_nat_add) (simp add: box_def)
qed

definition cut_part :: "file_part \<Rightarrow> bytes \<Rightarrow> bool" where
  "cut_part q tail \<longleftrightarrow> (\<exists>k < length (moof_bytes q) + 8. tail = take k (part_bytes q))"

lemma moof_round_cut:
  assumes "part_fits q" "cut_part q tail"
  shows "moof_round (at pre tail) = MoofBreak"
proof (cases "length tail < 8")
  case True
  then obtain e f where "io_ReadFull 8 (at pre tail) = (Inl e, f)" using read_at_short by blast
  then show ?thesis by (simp add: moof_round_def)
next
  case False
  obtain body where body: "body = box mfhd (fp_mfhd q) @ concat (map traf_bytes (fp_trafs q))" by simp
  note m = moof_fits [OF assms(1) body]
  obtain k where k: "k < 8 + length body + 8" "tail = take k (part_bytes q)" using assms(2) by (auto simp: cut_part_def m(3))
  define rest where "rest = take (k - 8) (body @ box mdat (fp_mdat q))"
  have "8 \<le> k" using False k(2) by simp
  then have tail: "tail = box_head moof body @ rest"
    unfolding k(2) m(2) box_def [of moof] append_assoc rest_def by (subst take_append) simp
  define f2 where "f2 = (at (pre @ box_head moof body) rest)\<lparr>sk_pos := length pre + 8 + length body\<rparr>"
  have 1: "io_ReadFull 8 (at pre tail) = (Inr (box_head moof body), at (pre @ box_head moof body) rest)"
    unfolding tail by (rule read_at) simp
  have 2: "SeekCurrent (uint (of_nat (8 + length body) :: u32) - 8) (at (pre @ box_head moof body) rest) =
      (Inr (int (length pre + 8 + length body)), f2)"
    unfolding box_fits_size(1) [OF m(1)] seek_Inr f2_def by (simp add: nat_add_distrib)
  have "length (drop (sk_pos f2) (sk_data f2)) < 8" using k(1) by (simp add: f2_def rest_def)
  then obtain e f where 3: "io_ReadFull 8 f2 = (Inl e, f)" unfolding io_ReadFull_def read_full_def by auto
  show ?thesis unfolding moof_round_def by (simp add: 1 2 3 del: of_nat_add)
qed

lemma last_moof_at:
  assumes "\<forall>p\<in>set ps. part_fits p" "part_fits q" "cut_part q tail"
  shows "last_moof (at pre (concat (map part_bytes ps) @ tail)) before =
    Inr (if ps = [] then before else Some (length (pre @ concat (map part_bytes (butlast ps)))))"
  using assms(1)
proof (induction ps arbitrary: pre before)
  case Nil
  with moof_round_cut [OF assms(2,3)] show ?case by (simp add: last_moof.simps)
next
  case (Cons p ps)
  then have "moof_round (at pre (part_bytes p @ concat (map part_bytes ps) @ tail)) =
      MoofNext (at (pre @ part_bytes p) (concat (map part_bytes ps) @ tail))"
    by (intro moof_round_at) simp
  with Cons show ?case by (simp add: last_moof.simps [of "at pre _"])
qed

text \<open>The file of a recording: its two first boxes, parts, and what the recorder had written of the next one.\<close>

definition recording :: "bytes \<Rightarrow> bytes \<Rightarrow> file_part list \<Rightarrow> bytes \<Rightarrow> bytes" where
  "recording a b ps tail = box ftyp a @ box moov b @ concat (map part_bytes ps) @ tail"

lemma traf_boxes_fit:
  assumes "part_fits p" "t \<in> set (fp_trafs p)"
  shows "box_fits (fr_tfhd t)" "box_fits (fr_tfdt t)" "box_fits (fr_trun t)"
proof -
  have "length (traf_bytes t) \<le> length (concat (map traf_bytes (fp_trafs p)))"
    using assms(2) by (auto simp: length_concat intro: member_le_sum_list)
  also have "\<dots> + 24 = length (moof_bytes p)"
    using assms(1) by (simp add: moof_bytes_def length_box part_fits_def)
  finally have "length (traf_bytes t) + 24 < 4294967296" using assms(1) by (simp add: part_fits_def)
  then show "box_fits (fr_tfhd t)" "box_fits (fr_tfdt t)" "box_fits (fr_trun t)"
    by (simp_all add: traf_bytes_def length_box box_fits_def)
qed

lemma duration_of_last_part:
  assumes "box_fits a" "box_fits b" "ps \<noteq> []" "\<forall>p\<in>set ps. part_fits p" "part_fits q" "cut_part q tail"
    "list_all2 (fragment_end lib init) (fp_trafs (last ps)) ds"
  shows "segmentFMP4ReadDurationFromParts lib init \<lparr>sk_data = recording a b ps tail, sk_pos = pos\<rparr> = Inr (fold max ds 0)"
proof -
  let ?parts = "concat (map part_bytes ps) @ tail"
  let ?f = "\<lparr>sk_data = recording a b ps tail, sk_pos = pos\<rparr>"
  let ?p = "last ps"
  let ?before = "box ftyp a @ box moov b @ concat (map part_bytes (butlast ps))"
  let ?ts = "concat (map traf_bytes (fp_trafs ?p))"
  have fits: "part_fits ?p" "length (fp_mfhd ?p) = 8" using assms(3,4) by (auto simp: part_fits_def)
  have start: "SeekStart 0 ?f = (Inr 0, at [] (box ftyp a @ box moov b @ ?parts))"
    by (simp add: SeekStart_def seek_to_def at_def recording_def)
  have moov: "SeekStart (uint (of_nat (8 + length a) :: u32)) (at (box_head ftyp a) (a @ box moov b @ ?parts)) =
      (Inr (8 + int (length a)), at (box ftyp a) (box moov b @ ?parts))"
    unfolding box_fits_size(1) [OF assms(1)]
    by (simp add: SeekStart_def seek_to_def at_def box_def nat_add_distrib)
  have skip: "SeekCurrent (uint (of_nat (8 + length b) :: u32) - 8) (at (box ftyp a @ box_head moov b) (b @ ?parts)) =
      (Inr (int (length (box ftyp a @ box moov b))), at (box ftyp a @ box moov b) ?parts)"
    unfolding box_fits_size(1) [OF assms(2)] using skip_at [of "int (length b)" b "box ftyp a @ box_head moov b" ?parts]
    by (simp add: box_def [of moov])
  have "concat (map part_bytes ps) = concat (map part_bytes (butlast ps)) @ part_bytes ?p"
    using assms(3) by (cases ps rule: rev_cases) simp_all
  then have data: "box ftyp a @ box moov b @ ?parts =
      (?before @ box_head moof (box mfhd (fp_mfhd ?p) @ ?ts)) @ box mfhd (fp_mfhd ?p) @ ?ts @ box mdat (fp_mdat ?p) @ tail"
    by (simp add: part_bytes_def moof_bytes_def box_def [of moof])
  obtain n where n: "n = length ?before" by simp
  have last: "last_moof (at (box ftyp a @ box moov b) ?parts) None = Inr (Some n)"
    using last_moof_at [OF assms(4-6), of "box ftyp a @ box moov b" None] assms(3) n by simp
  have open_last: "SeekStart (int n + 8) (at (box ftyp a @ box moov b) ?parts) =
      (Inr (int n + 8), at (?before @ box_head moof (box mfhd (fp_mfhd ?p) @ ?ts))
         (box mfhd (fp_mfhd ?p) @ ?ts @ box mdat (fp_mdat ?p) @ tail))"
    using data n by (simp add: SeekStart_def seek_to_def at_def nat_add_distrib)
  have mfhd: "SeekCurrent 8 (at pre (fp_mfhd ?p @ rest)) = (Inr (int (length (pre @ fp_mfhd ?p))), at (pre @ fp_mfhd ?p) rest)" for pre rest
    by (rule skip_at) (simp add: fits)
  have trafs: "traf_loop lib init 0 (at pre (?ts @ box mdat (fp_mdat ?p) @ tail)) = Inr (fold max ds 0)" for pre
    using traf_boxes_fit [OF fits(1)] assms(7) by (intro traf_loop_at) auto
  show ?thesis
    unfolding segmentFMP4ReadDurationFromParts_def rbind_def start bindS_simps
    by (simp add: expect_box_at moov skip del: of_nat_add append_assoc)
      (simp add: last open_last expect_box_at mfhd trafs)
qed

section \<open>Properties\<close>

text \<open>
  The duration of a recording that was not closed. For a file with an initialization, at least one complete part and
  whatever the recorder had written of the header of the next one when it was stopped, the duration is the latest end of a
  sample of the last complete part, of any track.
\<close>

theorem cut_recording_duration:
  assumes "box_fits a" "box_fits b" "ps \<noteq> []" "\<forall>p\<in>set ps. part_fits p" "part_fits q" "cut_part q tail"
    "list_all2 (fragment_end lib init) (fp_trafs (last ps)) ds"
  shows "segmentFMP4ReadDurationFromParts lib init \<lparr>sk_data = recording a b ps tail, sk_pos = pos\<rparr> = Inr (fold max ds 0)"
  by (rule duration_of_last_part [OF assms])

definition sample_lib :: "unit mp4_lib" where
  "sample_lib =
     \<lparr>Unmarshal_mvhd = (\<lambda>_ f. rbind (io_ReadFull 4) (\<lambda>buf. rret (4, 5000, be32 (buf ! 0) (buf ! 1) (buf ! 2) (buf ! 3))) f),
      init_Unmarshal = (\<lambda>_. Inr [\<lparr>it_ID = 1, it_TimeScale = 90000, it_Codec = ()\<rparr>]),
      Unmarshal_tfhd = (\<lambda>_. Inr 1), Unmarshal_tfdt = (\<lambda>_. Inr 90000),
      Unmarshal_trun = (\<lambda>_. Inr [\<lparr>te_Duration = 3000, te_Size = 3, te_Flags = 0, te_Offset = 0\<rparr>])\<rparr>"

definition sample_tracks :: "unit init_track list" where
  "sample_tracks = [\<lparr>it_ID = 1, it_TimeScale = 90000, it_Codec = ()\<rparr>]"

definition sample_part :: file_part where
  "sample_part = \<lparr>fp_mfhd = replicate 8 0, fp_trafs = [\<lparr>fr_tfhd = [], fr_tfdt = [], fr_trun = []\<rparr>], fp_mdat = [1, 2, 3]\<rparr>"

lemma cut_recording_duration_witness:
  "segmentFMP4ReadDurationFromParts sample_lib sample_tracks
    \<lparr>sk_data = recording [] [] [sample_part] (take 20 (part_bytes sample_part)), sk_pos = 0\<rparr> = Inr 1033333333"
proof -
  have fits: "part_fits sample_part"
    by (simp add: part_fits_def sample_part_def box_fits_def moof_bytes_def length_box traf_bytes_def)
  have cut: "cut_part sample_part (take 20 (part_bytes sample_part))"
    unfolding cut_part_def by (intro exI [of _ 20]) (simp add: sample_part_def moof_bytes_def length_box traf_bytes_def)
  have "durationMp4ToGo 93000 90000 = Inr 1033333333" by code_simp
  then have "list_all2 (fragment_end sample_lib sample_tracks) (fp_trafs sample_part) [1033333333]"
    by (simp add: fragment_end_def sample_part_def sample_lib_def sample_tracks_def findInitTrack_def)
  with fits cut show ?thesis
    using cut_recording_duration [of "[]" "[]" "[sample_part]" sample_part _ sample_lib sample_tracks "[1033333333]"]
    by (simp add: box_fits_def)
qed

definition mvhd :: box_type where "mvhd = [0x6D, 0x76, 0x68, 0x64]"

text \<open>
  The header of a recording. When the decoder of the movie header reads the payload that it is given, the header gives
  the initialization of the tracks that follow and the duration in seconds of the time scale; a movie header with the
  time scale zero makes the reading panic, which nothing recovers.
\<close>
theorem recording_header:
  assumes "length mv = n" "n + length tracks < 4294967272" "box_fits a"
    "\<And>pre rest sz. Unmarshal_mvhd lib sz (at pre (mv @ rest)) = (Inr (of_nat n, dur, ts), at (pre @ mv) rest)"
    "init_Unmarshal lib tracks = Inr init"
  shows "fst (segmentFMP4ReadHeader lib (at [] (box ftyp a @ box moov (box mvhd mv @ tracks) @ rest))) =
    (if ts = 0 then Inl Panic else Inr (init, uint dur * second div uint ts))"
proof -
  let ?moov = "box mvhd mv @ tracks"
  have moov: "SeekStart (uint (of_nat (8 + length a) :: u32)) (at (box_head ftyp a) (a @ box moov ?moov @ rest)) =
      (Inr (8 + int (length a)), at (box ftyp a) (box moov ?moov @ rest))"
    unfolding box_fits_size(1) [OF assms(3)]
    by (simp add: SeekStart_def seek_to_def at_def box_def nat_add_distrib)
  have skip: "SeekCurrent 8 (at pre ((box mvhd mv @ tracks) @ rest)) =
      (Inr (int (length (pre @ box_head mvhd mv))), at (pre @ box_head mvhd mv) (mv @ tracks @ rest))" for pre
    unfolding box_def append_assoc by (rule skip_at) (simp add: mvhd_def)
  have "(of_nat (8 + length ?moov) - (8 + ucast (of_nat n + 8 :: u64)) :: u32) = of_nat (length tracks)"
  proof -
    have "ucast (of_nat n + 8 :: u64) = (of_nat n + 8 :: u32)"
    proof -
      have "unat (of_nat (n + 8) :: u64) = n + 8" using assms(2) by (simp only: unat_of_nat) simp
      then have "ucast (of_nat (n + 8) :: u64) = (of_nat (n + 8) :: u32)" by (metis of_nat_unat)
      then show ?thesis by simp
    qed
    then show ?thesis using assms(1) by (simp add: length_box mvhd_def)
  qed
  then have size: "unat (of_nat (8 + length ?moov) - (8 + ucast (of_nat n + 8 :: u64)) :: u32) = length tracks"
    using assms(2) by (simp only: unat_of_nat) simp
  have d: "fits64 (uint dur * second)" using uint_lt2p [of dur] uint_ge_0 [of dur] by (intro abs_fits) simp
  have q: "ts \<noteq> 0 \<Longrightarrow> 0 < uint ts" by (simp add: uint_0_iff less_le)
  have div: "div64 (int64 (uint dur * second)) (uint ts) =
      (if ts = 0 then Inl Panic else Inr (uint dur * second div uint ts))"
    using d q div64_pos [OF d q] by (cases "ts = 0") (simp_all add: div64_def go_div_nonneg)
  show ?thesis
    unfolding segmentFMP4ReadHeader_def rbind_def Let_def
    by (simp add: expect_box_at moov skip assms(4) size [unfolded length_append] div lift_result_def read_at assms(5) rret_def del: of_nat_add append_assoc)
qed

lemma recording_header_witness:
  "fst (segmentFMP4ReadHeader sample_lib
      (at [] (box ftyp [] @ box moov (box mvhd [0, 0, 3, 0xE8] @ []) @ []))) =
    (if (1000 :: u32) = 0 then Inl Panic else Inr (sample_tracks, uint (5000 :: u32) * second div uint (1000 :: u32)))"
proof (rule recording_header)
  have "be32 0 0 3 0xE8 = 1000" by code_simp
  then show "Unmarshal_mvhd sample_lib sz (at pre ([0, 0, 3, 0xE8] @ rest)) =
      (Inr (of_nat 4, 5000, 1000), at (pre @ [0, 0, 3, 0xE8]) rest)" for pre rest sz
    using read_at [of 4 "[0, 0, 3, 0xE8]" pre rest] by (simp add: sample_lib_def rbind_def rret_def)
qed (simp_all add: box_fits_def sample_lib_def sample_tracks_def)

end
