(* ===== verification/PlaybackParts.thy ===== *)
theory PlaybackParts
  imports PlaybackSegment RecordSegments
begin

text \<open>
  The playback of recorded segments through a muxer (\<open>segmentFMP4SeekAndMuxParts\<close> and \<open>segmentFMP4MuxParts\<close> of
  internal/playback/segment_fmp4.go, \<open>seekAndMux\<close> of internal/playback/on_get.go).

  Package go-mp4 walks the boxes of a file and calls a function on each: the parameter is the sequence of these calls, as
  long as the function returns nil. The interface \<open>muxer\<close> is a record of operations; the locale states what its
  implementations promise, and what follows for the playback with any of them.
\<close>

section \<open>Boxes and muxers\<close>

datatype box_event =
    BoxMoof u64
  | BoxTraf
  | BoxTfhd u32
  | BoxTfdt u64
  | BoxTrun int "trun_entry list"
  | BoxMdat
  | BoxOther
  | BoxError go_error

record ('m, 'c) muxer =
  mx_writeInit :: "'c init_track list \<Rightarrow> 'm \<Rightarrow> 'm"
  mx_setTrack :: "int \<Rightarrow> 'm \<Rightarrow> 'm"
  mx_writeSample :: "int \<Rightarrow> int \<Rightarrow> bool \<Rightarrow> u32 \<Rightarrow> bytes result \<Rightarrow> 'm \<Rightarrow> unit result \<times> 'm"
  mx_writeFinalDTS :: "int \<Rightarrow> 'm \<Rightarrow> unit result \<times> 'm"
  mx_flush :: "'m \<Rightarrow> unit result \<times> 'm"

definition errTerminated :: go_error where
  "errTerminated = Errorf ''terminated'' []"

definition sampleFlagIsNonSyncSample :: u32 where
  "sampleFlagIsNonSyncSample = push_bit 16 1"

text \<open>\<open>ReadAt\<close> of a file: all the bytes that were asked for, or an error. An offset may be negative as a signed integer.\<close>

definition ReadAt :: "bytes \<Rightarrow> u64 \<Rightarrow> u32 \<Rightarrow> bytes result" where
  "ReadAt file off n =
     (if sint off < 0 then Inl (Errorf ''negative offset'' [])
      else if unat n = 0 then Inr []
      else if nat (sint off) + unat n \<le> length file then Inr (take (unat n) (drop (nat (sint off)) file))
      else Inl EOF)"

section \<open>The samples of a run\<close>

record 'm sample_run =
  run_dts :: int
  run_offset :: u64
  run_any :: bool
  run_part :: bool
  run_break :: bool
  run_muxer :: 'm

fun write_samples ::
  "('m, 'c) muxer \<Rightarrow> bytes \<Rightarrow> int \<Rightarrow> trun_entry list \<Rightarrow> 'm sample_run \<Rightarrow> unit result \<times> 'm sample_run" where
  "write_samples mx file durationMP4 [] r = (Inr (), r)"
| "write_samples mx file durationMP4 (e # es) r =
     (if run_dts r \<ge> durationMP4 then (Inr (), r\<lparr>run_break := True\<rparr>)
      else
        let (res, m) = mx_writeSample mx (run_dts r) (te_Offset e) (te_Flags e AND sampleFlagIsNonSyncSample \<noteq> 0)
              (te_Size e) (ReadAt file (run_offset r) (te_Size e)) (run_muxer r);
            r' = r\<lparr>run_part := run_part r \<or> 0 \<le> run_dts r, run_muxer := m\<rparr>
        in case res of
             Inl err \<Rightarrow> (Inl err, r')
           | Inr _ \<Rightarrow>
               write_samples mx file durationMP4 es
                 (r'\<lparr>run_any := True, run_offset := run_offset r + ucast (te_Size e),
                    run_dts := int64 (run_dts r + uint (te_Duration e))\<rparr>))"

section \<open>The function that is called on every box\<close>

record 'm parts =
  pm_moofOffset :: u64
  pm_tfhd :: "u32 option"
  pm_tfdt :: "u64 option"
  pm_startOffset :: int
  pm_duration :: int
  pm_timeScale :: u32
  pm_maxDTS :: duration
  pm_break :: bool
  pm_written :: bool
  pm_muxer :: 'm

definition parts_init :: "'m \<Rightarrow> 'm parts" where
  "parts_init m =
     \<lparr>pm_moofOffset = 0, pm_tfhd = None, pm_tfdt = None, pm_startOffset = 0, pm_duration = 0, pm_timeScale = 0,
      pm_maxDTS = 0, pm_break = False, pm_written = False, pm_muxer = m\<rparr>"

text \<open>The two functions differ in the sign of the offset of the segment, and in the use of \<open>pm_written\<close>.\<close>

datatype shift = Backward | Forward

definition shift_dts :: "shift \<Rightarrow> u64 \<Rightarrow> int \<Rightarrow> int" where
  "shift_dts sh base offset =
     (case sh of Backward \<Rightarrow> int64 (sint base - offset) | Forward \<Rightarrow> int64 (sint base + offset))"

definition mux_tfdt ::
  "('m, 'c) muxer \<Rightarrow> 'c init_track list \<Rightarrow> duration \<Rightarrow> duration \<Rightarrow> u64 \<Rightarrow> 'm parts \<Rightarrow> unit result \<times> 'm parts" where
  "mux_tfdt mx init segmentStartOffset duration base st =
     (case pm_tfhd st of
        None \<Rightarrow> (Inl Panic, st)
      | Some trackID \<Rightarrow>
          case findInitTrack init (uint trackID) of
            None \<Rightarrow> (Inl (Errorf ''invalid track ID: %v'' [uint trackID]), st\<lparr>pm_tfdt := Some base\<rparr>)
          | Some track \<Rightarrow>
              (Inr (),
               st\<lparr>pm_tfdt := Some base, pm_muxer := mx_setTrack mx (uint trackID) (pm_muxer st),
                  pm_timeScale := it_TimeScale track,
                  pm_startOffset := durationGoToMp4 segmentStartOffset (it_TimeScale track),
                  pm_duration := durationGoToMp4 duration (it_TimeScale track)\<rparr>))"

definition mux_trun ::
  "('m, 'c) muxer \<Rightarrow> bytes \<Rightarrow> shift \<Rightarrow> int \<Rightarrow> trun_entry list \<Rightarrow> 'm parts \<Rightarrow> unit result \<times> 'm parts" where
  "mux_trun mx file sh dataOffset entries st =
     (case pm_tfdt st of
        None \<Rightarrow> (Inl Panic, st)
      | Some base \<Rightarrow>
          let (res, r) = write_samples mx file (pm_duration st) entries
                \<lparr>run_dts = shift_dts sh base (pm_startOffset st), run_offset = pm_moofOffset st + of_int dataOffset,
                 run_any = False, run_part = pm_written st, run_break = pm_break st, run_muxer = pm_muxer st\<rparr>;
              st' = st\<lparr>pm_written := run_part r, pm_break := run_break r, pm_muxer := run_muxer r\<rparr>
          in case res of
               Inl err \<Rightarrow> (Inl err, st')
             | Inr _ \<Rightarrow>
                 let (res', m) = (if run_any r then mx_writeFinalDTS mx (run_dts r) (run_muxer r) else (Inr (), run_muxer r));
                     st'' = st'\<lparr>pm_muxer := m\<rparr>
                 in case bindE res' (\<lambda>_. durationMp4ToGo (run_dts r) (pm_timeScale st)) of
                      Inl err \<Rightarrow> (Inl err, st'')
                    | Inr dts \<Rightarrow> (Inr (), st''\<lparr>pm_maxDTS := (if dts > pm_maxDTS st then dts else pm_maxDTS st)\<rparr>))"

fun mux_box ::
  "('m, 'c) muxer \<Rightarrow> bytes \<Rightarrow> 'c init_track list \<Rightarrow> shift \<Rightarrow> duration \<Rightarrow> duration \<Rightarrow> box_event \<Rightarrow> 'm parts \<Rightarrow>
   unit result \<times> 'm parts" where
  "mux_box mx file init sh off dur (BoxMoof p) st = (Inr (), st\<lparr>pm_moofOffset := p\<rparr>)"
| "mux_box mx file init sh off dur BoxTraf st = (Inr (), st)"
| "mux_box mx file init sh off dur (BoxTfhd trackID) st = (Inr (), st\<lparr>pm_tfhd := Some trackID\<rparr>)"
| "mux_box mx file init sh off dur (BoxTfdt base) st = mux_tfdt mx init off dur base st"
| "mux_box mx file init sh off dur (BoxTrun dataOffset entries) st = mux_trun mx file sh dataOffset entries st"
| "mux_box mx file init sh off dur BoxMdat st = (if pm_break st then Inl errTerminated else Inr (), st)"
| "mux_box mx file init sh off dur BoxOther st = (Inr (), st)"
| "mux_box mx file init sh off dur (BoxError err) st = (Inl err, st)"

fun mux_boxes ::
  "('m, 'c) muxer \<Rightarrow> bytes \<Rightarrow> 'c init_track list \<Rightarrow> shift \<Rightarrow> duration \<Rightarrow> duration \<Rightarrow> box_event list \<Rightarrow> 'm parts \<Rightarrow>
   unit result \<times> 'm parts" where
  "mux_boxes mx file init sh off dur [] st = (Inr (), st)"
| "mux_boxes mx file init sh off dur (e # es) st =
     bindS (mux_box mx file init sh off dur e st) (\<lambda>_. mux_boxes mx file init sh off dur es)"

definition segmentFMP4SeekAndMuxParts ::
  "('m, 'c) muxer \<Rightarrow> bytes \<Rightarrow> box_event list \<Rightarrow> duration \<Rightarrow> duration \<Rightarrow> 'c init_track list \<Rightarrow> 'm \<Rightarrow> duration result \<times> 'm" where
  "segmentFMP4SeekAndMuxParts mx file boxes segmentStartOffset duration init m =
     (let (res, st) = mux_boxes mx file init Backward segmentStartOffset duration boxes (parts_init m)
      in (if res \<noteq> Inr () \<and> res \<noteq> Inl errTerminated then map_sum id (\<lambda>_. 0) res
          else if \<not> pm_written st then Inl ErrNoSegmentsFound
          else Inr (pm_maxDTS st), pm_muxer st))"

definition segmentFMP4MuxParts ::
  "('m, 'c) muxer \<Rightarrow> bytes \<Rightarrow> box_event list \<Rightarrow> duration \<Rightarrow> duration \<Rightarrow> 'c init_track list \<Rightarrow> 'm \<Rightarrow> duration result \<times> 'm" where
  "segmentFMP4MuxParts mx file boxes segmentStartOffset duration init m =
     (let (res, st) = mux_boxes mx file init Forward segmentStartOffset duration boxes (parts_init m)
      in (if res \<noteq> Inr () \<and> res \<noteq> Inl errTerminated then map_sum id (\<lambda>_. 0) res else Inr (pm_maxDTS st), pm_muxer st))"

section \<open>Several segments\<close>

record 'c play_env =
  pe_open :: "string \<Rightarrow> bytes result"
  pe_boxes :: "bytes \<Rightarrow> box_event list"
  pe_lib :: "'c mp4_lib"

definition concatenationTolerance :: duration where
  "concatenationTolerance = 500 * millisecond"

definition segmentFMP4CanBeConcatenated ::
  "'c init_track list \<Rightarrow> instant \<Rightarrow> 'c init_track list \<Rightarrow> instant \<Rightarrow> bool" where
  "segmentFMP4CanBeConcatenated prevInit prevEnd curInit curStart \<longleftrightarrow>
     prevInit = curInit \<and> \<not> curStart < prevEnd + (- concatenationTolerance) \<and> \<not> curStart > prevEnd + concatenationTolerance"

text \<open>The difference of two instants is saturated.\<close>

definition time_Sub :: "instant \<Rightarrow> instant \<Rightarrow> duration" where
  "time_Sub a b = max (- 9223372036854775808) (min 9223372036854775807 (a - b))"

definition read_header :: "'c play_env \<Rightarrow> bytes \<Rightarrow> ('c init_track list \<times> duration) result" where
  "read_header pe file = fst (segmentFMP4ReadHeader (pe_lib pe) \<lparr>sk_data = file, sk_pos = 0\<rparr>)"

fun mux_next ::
  "('m, 'c) muxer \<Rightarrow> 'c play_env \<Rightarrow> 'c init_track list \<Rightarrow> instant \<Rightarrow> duration \<Rightarrow> segment list \<Rightarrow> instant \<Rightarrow> 'm \<Rightarrow>
   unit result \<times> 'm" where
  "mux_next mx pe firstInit start duration [] segmentEnd m = (Inr (), m)"
| "mux_next mx pe firstInit start duration (seg # segs) segmentEnd m =
     bindS (pe_open pe (sg_Fpath seg), m) (\<lambda>file m.
     bindS (read_header pe file, m) (\<lambda>(init, _) m.
     if \<not> segmentFMP4CanBeConcatenated firstInit segmentEnd init (sg_Start seg) then (Inr (), m)
     else
       bindS (segmentFMP4MuxParts mx file (pe_boxes pe file) (time_Sub (sg_Start seg) start) duration firstInit m)
         (\<lambda>segmentDuration m. mux_next mx pe firstInit start duration segs (start + segmentDuration) m)))"

definition seekAndMux ::
  "('m, 'c) muxer \<Rightarrow> 'c play_env \<Rightarrow> record_format \<Rightarrow> segment list \<Rightarrow> instant \<Rightarrow> duration \<Rightarrow> 'm \<Rightarrow> unit result \<times> 'm" where
  "seekAndMux mx pe recordFormat segments start duration m =
     (case recordFormat of
        RecordFormatFMP4 \<Rightarrow>
          (case segments of
             [] \<Rightarrow> (Inl Panic, m)
           | seg # segs \<Rightarrow>
               bindS (pe_open pe (sg_Fpath seg), m) (\<lambda>file m.
               bindS (read_header pe file, m) (\<lambda>(firstInit, _) m.
               let m = mx_writeInit mx firstInit m; segmentStartOffset = time_Sub start (sg_Start seg) in
               bindS (segmentFMP4SeekAndMuxParts mx file (pe_boxes pe file) segmentStartOffset duration firstInit m)
                 (\<lambda>segmentDuration m.
               bindS (mux_next mx pe firstInit start duration segs (start + segmentDuration) m) (\<lambda>_ m. mx_flush mx m)))))
      | _ \<Rightarrow> (Inl (Errorf ''MPEG-TS format is not supported yet'' []), m))"

section \<open>What a muxer promises\<close>

text \<open>
  A muxer that is \<open>fresh\<close> and is given an initialization is \<open>ready\<close> for its tracks. It never panics when a track is chosen before
  samples are written, and a sample before the final time stamp.
\<close>

locale playback_muxer =
  fixes mx :: "('m, 'c) muxer"
    and fresh :: "'m \<Rightarrow> bool"
    and ready :: "'c init_track list \<Rightarrow> 'm \<Rightarrow> bool"
    and on_track :: "'m \<Rightarrow> bool"
    and has_sample :: "'m \<Rightarrow> bool"
  assumes ready_init: "fresh m \<Longrightarrow> ready init (mx_writeInit mx init m)"
    and ready_track: "ready init m \<Longrightarrow> findInitTrack init trackID \<noteq> None \<Longrightarrow>
      ready init (mx_setTrack mx trackID m) \<and> on_track (mx_setTrack mx trackID m)"
    and ready_sample: "ready init m \<Longrightarrow> on_track m \<Longrightarrow> pl \<noteq> Inl Panic \<Longrightarrow>
      mx_writeSample mx dts ptsOffset nonSync sz pl m = (res, m') \<Longrightarrow>
      res \<noteq> Inl Panic \<and> ready init m' \<and> on_track m' \<and> (res = Inr () \<longrightarrow> has_sample m')"
    and ready_final: "ready init m \<Longrightarrow> on_track m \<Longrightarrow> has_sample m \<Longrightarrow>
      \<exists>m'. mx_writeFinalDTS mx dts m = (Inr (), m') \<and> ready init m' \<and> on_track m'"
    and ready_flush: "ready init m \<Longrightarrow> fst (mx_flush mx m) \<noteq> Inl Panic"

lemma mux_trun_frame: "pm_tfhd (snd (mux_trun mx file sh off entries st)) = pm_tfhd st"
  by (cases "pm_tfdt st") (simp_all add: mux_trun_def split_def Let_def split: sum.split)

text \<open>The order of boxes that the walk of a file has: a header before the base time, and that before the samples.\<close>

fun boxes_ordered :: "bool \<Rightarrow> bool \<Rightarrow> box_event list \<Rightarrow> bool" where
  "boxes_ordered head base [] = True"
| "boxes_ordered head base (BoxTfhd trackID # es) = boxes_ordered True base es"
| "boxes_ordered head base (BoxTfdt t # es) = (head \<and> boxes_ordered head True es)"
| "boxes_ordered head base (BoxTrun off entries # es) = (base \<and> boxes_ordered head base es)"
| "boxes_ordered head base (BoxError err # es) = (err \<noteq> Panic)"
| "boxes_ordered head base (e # es) = boxes_ordered head base es"

definition scaled :: "'c init_track list \<Rightarrow> bool" where
  "scaled init \<longleftrightarrow> (\<forall>t\<in>set init. it_TimeScale t \<noteq> 0)"

lemma findInitTrack_scaled: "scaled init \<Longrightarrow> findInitTrack init i = Some t \<Longrightarrow> it_TimeScale t \<noteq> 0"
  unfolding findInitTrack_def scaled_def by (metis find_Some_iff nth_mem)

lemma ReadAt_no_panic: "ReadAt file off n \<noteq> Inl Panic"
  by (simp add: ReadAt_def)

text \<open>The files that a playback opens: no error is a panic, the boxes are in order and the tracks have a time scale.\<close>

definition playable :: "'c play_env \<Rightarrow> bool" where
  "playable pe \<longleftrightarrow>
     (\<forall>f. pe_open pe f \<noteq> Inl Panic) \<and>
     (\<forall>f file. pe_open pe f = Inr file \<longrightarrow>
        boxes_ordered False False (pe_boxes pe file) \<and> read_header pe file \<noteq> Inl Panic \<and>
        (\<forall>init d. read_header pe file = Inr (init, d) \<longrightarrow> scaled init))"

lemma playable_file:
  assumes "playable pe"
  shows "pe_open pe f \<noteq> Inl Panic"
    "pe_open pe f = Inr file \<Longrightarrow> boxes_ordered False False (pe_boxes pe file)"
    "pe_open pe f = Inr file \<Longrightarrow> read_header pe file \<noteq> Inl Panic"
    "pe_open pe f = Inr file \<Longrightarrow> read_header pe file = Inr (init, d) \<Longrightarrow> scaled init"
  using assms unfolding playable_def by blast+

context playback_muxer
begin

definition parts_ok :: "'c init_track list \<Rightarrow> 'm parts \<Rightarrow> bool" where
  "parts_ok init st \<longleftrightarrow> ready init (pm_muxer st) \<and> (pm_tfdt st \<noteq> None \<longrightarrow> on_track (pm_muxer st) \<and> pm_timeScale st \<noteq> 0)"

lemma write_samples_ok:
  assumes "ready init (run_muxer r)" "on_track (run_muxer r)" "run_any r \<longrightarrow> has_sample (run_muxer r)"
    "write_samples mx file dur entries r = (res, r')"
  shows "res \<noteq> Inl Panic \<and> ready init (run_muxer r') \<and> on_track (run_muxer r') \<and>
    (res = Inr () \<longrightarrow> run_any r' \<longrightarrow> has_sample (run_muxer r'))"
  using assms
proof (induction entries arbitrary: r)
  case (Cons e es)
  show ?case
  proof (cases "run_dts r \<ge> dur")
    case True
    with Cons.prems show ?thesis by auto
  next
    case False
    obtain w m where w: "mx_writeSample mx (run_dts r) (te_Offset e) (te_Flags e AND sampleFlagIsNonSyncSample \<noteq> 0)
        (te_Size e) (ReadAt file (run_offset r) (te_Size e)) (run_muxer r) = (w, m)" by force
    from ready_sample [OF Cons.prems(1,2) ReadAt_no_panic w]
    have ok: "w \<noteq> Inl Panic" "ready init m" "on_track m" "w = Inr () \<longrightarrow> has_sample m" by auto
    show ?thesis
    proof (cases w)
      case (Inl err)
      with Cons.prems(4) False w ok show ?thesis by auto
    next
      case (Inr u)
      with Cons.prems(4) False w have "write_samples mx file dur es
        (r\<lparr>run_part := run_part r \<or> 0 \<le> run_dts r, run_muxer := m, run_any := True,
           run_offset := run_offset r + ucast (te_Size e), run_dts := int64 (run_dts r + uint (te_Duration e))\<rparr>) = (res, r')"
        by simp
      from Cons.IH [OF _ _ _ this] ok Inr show ?thesis by simp
    qed
  qed
qed auto

lemma mux_tfdt_ok:
  assumes "parts_ok init st" "scaled init" "pm_tfhd st \<noteq> None" "mux_tfdt mx init off dur base st = (res, st')"
  shows "res \<noteq> Inl Panic \<and> ready init (pm_muxer st') \<and> (res = Inr () \<longrightarrow> parts_ok init st' \<and> pm_tfdt st' \<noteq> None)"
proof -
  obtain trackID where t: "pm_tfhd st = Some trackID" using assms(3) by blast
  show ?thesis
  proof (cases "findInitTrack init (uint trackID)")
    case None
    with assms(1,4) t show ?thesis by (auto simp: mux_tfdt_def parts_ok_def)
  next
    case (Some track)
    have "ready init (pm_muxer st)" using assms(1) by (simp add: parts_ok_def)
    with ready_track Some findInitTrack_scaled [OF assms(2) Some] assms(4) t show ?thesis
      by (auto simp: mux_tfdt_def parts_ok_def)
  qed
qed

lemma mux_trun_ok:
  assumes "parts_ok init st" "pm_tfdt st \<noteq> None" "mux_trun mx file sh dataOffset entries st = (res, st')"
  shows "res \<noteq> Inl Panic \<and> ready init (pm_muxer st') \<and> (res = Inr () \<longrightarrow> parts_ok init st' \<and> pm_tfdt st' = pm_tfdt st)"
proof -
  obtain base where b: "pm_tfdt st = Some base" using assms(2) by blast
  with assms(1) have st: "ready init (pm_muxer st)" "on_track (pm_muxer st)" "pm_timeScale st \<noteq> 0" by (auto simp: parts_ok_def)
  let ?r = "\<lparr>run_dts = shift_dts sh base (pm_startOffset st), run_offset = pm_moofOffset st + of_int dataOffset,
      run_any = False, run_part = pm_written st, run_break = pm_break st, run_muxer = pm_muxer st\<rparr>"
  obtain w r where w: "write_samples mx file (pm_duration st) entries ?r = (w, r)" by force
  from write_samples_ok [OF _ _ _ w] st
  have ok: "w \<noteq> Inl Panic" "ready init (run_muxer r)" "on_track (run_muxer r)" "w = Inr () \<longrightarrow> run_any r \<longrightarrow> has_sample (run_muxer r)"
    by simp_all
  obtain d where d: "durationMp4ToGo (run_dts r) (pm_timeScale st) = Inr d" using durationMp4ToGo_total [OF st(3)] by blast
  show ?thesis
  proof (cases w)
    case (Inl err)
    with assms(3) b w ok show ?thesis by (auto simp: mux_trun_def Let_def)
  next
    case (Inr u)
    obtain m where m: "(if run_any r then mx_writeFinalDTS mx (run_dts r) (run_muxer r) else (Inr (), run_muxer r)) = (Inr (), m)"
      "ready init m" "on_track m"
    proof (cases "run_any r")
      case True
      with ready_final [OF ok(2,3)] ok(4) Inr that show thesis by auto
    next
      case False
      with ok(2,3) that show thesis by simp
    qed
    from assms(3) b w Inr m(1) d have "res = Inr ()" "st' = st\<lparr>pm_written := run_part r, pm_break := run_break r, pm_muxer := m,
        pm_maxDTS := (if d > pm_maxDTS st then d else pm_maxDTS st)\<rparr>"
      by (simp_all add: mux_trun_def split: if_splits)
    with m st b show ?thesis by (simp add: parts_ok_def)
  qed
qed

lemma mux_boxes_ok:
  assumes "parts_ok init st" "scaled init" "boxes_ordered (pm_tfhd st \<noteq> None) (pm_tfdt st \<noteq> None) boxes"
    "mux_boxes mx file init sh off dur boxes st = (res, st')"
  shows "res \<noteq> Inl Panic \<and> ready init (pm_muxer st')"
  using assms
proof (induction boxes arbitrary: st)
  case (Cons e es)
  obtain r st1 where one: "mux_box mx file init sh off dur e st = (r, st1)" by force
  have "r \<noteq> Inl Panic \<and> ready init (pm_muxer st1) \<and> (r = Inr () \<longrightarrow> parts_ok init st1 \<and> boxes_ordered (pm_tfhd st1 \<noteq> None) (pm_tfdt st1 \<noteq> None) es)"
  proof (cases e)
    case (BoxTfdt base)
    with one Cons.prems(3) have f: "mux_tfdt mx init off dur base st = (r, st1)" "pm_tfhd st \<noteq> None" by simp_all
    have "pm_tfhd st1 = pm_tfhd st" using f(1) by (auto simp: mux_tfdt_def split: option.splits)
    with mux_tfdt_ok [OF Cons.prems(1,2) f(2,1)] Cons.prems(3) BoxTfdt f(2) show ?thesis by simp
  next
    case (BoxTrun off entries)
    with one Cons.prems(3) have f: "mux_trun mx file sh off entries st = (r, st1)" "pm_tfdt st \<noteq> None" by simp_all
    have "pm_tfhd st1 = pm_tfhd st" using f(1) mux_trun_frame [where st = st] by (metis snd_conv)
    with mux_trun_ok [OF Cons.prems(1) f(2,1)] Cons.prems(3) BoxTrun f(2) show ?thesis by simp
  qed (use one Cons.prems in \<open>auto simp: parts_ok_def errTerminated_def split: if_splits\<close>)
  with Cons one show ?case by (cases r) auto
qed (auto simp: parts_ok_def)

lemma mux_boxes_start:
  assumes "ready init m" "scaled init" "boxes_ordered False False boxes"
    "mux_boxes mx file init sh off dur boxes (parts_init m) = (res, st)"
  shows "res \<noteq> Inl Panic" "ready init (pm_muxer st)"
  using mux_boxes_ok [OF _ assms(2) _ assms(4)] assms(1,3) by (simp_all add: parts_ok_def parts_init_def)

lemma SeekAndMuxParts_ok:
  assumes "ready init m" "scaled init" "boxes_ordered False False boxes"
    "segmentFMP4SeekAndMuxParts mx file boxes off dur init m = (res, m')"
  shows "res \<noteq> Inl Panic" "ready init m'"
proof -
  obtain r st where b: "mux_boxes mx file init Backward off dur boxes (parts_init m) = (r, st)" by force
  note ok = mux_boxes_start [OF assms(1-3) b]
  show "res \<noteq> Inl Panic" "ready init m'"
    using assms(4) ok unfolding segmentFMP4SeekAndMuxParts_def b prod.case Let_def
    by (auto simp: ErrNoSegmentsFound_def split: if_splits)
qed

lemma MuxParts_ok:
  assumes "ready init m" "scaled init" "boxes_ordered False False boxes"
    "segmentFMP4MuxParts mx file boxes off dur init m = (res, m')"
  shows "res \<noteq> Inl Panic" "ready init m'"
proof -
  obtain r st where b: "mux_boxes mx file init Forward off dur boxes (parts_init m) = (r, st)" by force
  note ok = mux_boxes_start [OF assms(1-3) b]
  show "res \<noteq> Inl Panic" "ready init m'"
    using assms(4) ok unfolding segmentFMP4MuxParts_def b prod.case Let_def
    by (auto split: if_splits)
qed

lemma mux_next_ok:
  assumes "playable pe" "scaled init" "ready init m" "mux_next mx pe init start dur segs segmentEnd m = (res, m')"
  shows "res \<noteq> Inl Panic \<and> ready init m'"
  using assms
proof (induction segs arbitrary: segmentEnd m)
  case (Cons seg segs)
  show ?case
  proof (cases "pe_open pe (sg_Fpath seg)")
    case (Inl e)
    with Cons.prems(3,4) playable_file(1) [OF Cons.prems(1), of "sg_Fpath seg"] show ?thesis by auto
  next
    case opened: (Inr dat)
    note pl = playable_file(2-4) [OF Cons.prems(1) opened]
    show ?thesis
    proof (cases "read_header pe dat")
      case (Inl e)
      with opened pl(2) Cons.prems(3,4) show ?thesis by auto
    next
      case head: (Inr h)
      obtain r m1 where p: "segmentFMP4MuxParts mx dat (pe_boxes pe dat) (time_Sub (sg_Start seg) start) dur init m = (r, m1)"
        by force
      note ok = MuxParts_ok [OF Cons.prems(3,2) pl(1) p]
      show ?thesis
      proof (cases r)
        case (Inl e)
        with opened head p ok Cons.prems(3,4) show ?thesis by (cases h) (auto split: if_splits)
      next
        case (Inr d)
        with opened head p ok Cons.prems(3,4) Cons.IH [OF Cons.prems(1,2) ok(2)] show ?thesis
          by (cases h) (auto split: if_splits)
      qed
    qed
  qed
qed auto

lemma seekAndMux_ok:
  assumes "playable pe" "segments \<noteq> []" "fresh m"
  shows "fst (seekAndMux mx pe fmt segments start dur m) \<noteq> Inl Panic"
proof (cases fmt)
  case RecordFormatMPEGTS
  then show ?thesis by (simp add: seekAndMux_def)
next
  case fmp4: RecordFormatFMP4
  obtain seg segs where segs: "segments = seg # segs" using assms(2) by (cases segments) auto
  show ?thesis
  proof (cases "pe_open pe (sg_Fpath seg)")
    case (Inl e)
    with fmp4 segs playable_file(1) [OF assms(1), of "sg_Fpath seg"] show ?thesis by (simp add: seekAndMux_def)
  next
    case opened: (Inr dat)
    note pl = playable_file(2-4) [OF assms(1) opened]
    show ?thesis
    proof (cases "read_header pe dat")
      case (Inl e)
      with fmp4 segs opened pl(2) show ?thesis by (simp add: seekAndMux_def)
    next
      case head: (Inr h)
      obtain init d where h: "h = (init, d)" by force
      have scaled: "scaled init" using pl(3) head h by blast
      obtain r m1 where p: "segmentFMP4SeekAndMuxParts mx dat (pe_boxes pe dat) (time_Sub start (sg_Start seg)) dur init
          (mx_writeInit mx init m) = (r, m1)" by force
      note ok = SeekAndMuxParts_ok [OF ready_init [OF assms(3)] scaled pl(1) p]
      show ?thesis
      proof (cases r)
        case (Inl e)
        with fmp4 segs opened head h p ok show ?thesis by (simp add: seekAndMux_def Let_def)
      next
        case dur: (Inr d)
        obtain r2 m2 where rest: "mux_next mx pe init start dur segs (start + d) m1 = (r2, m2)" by force
        from mux_next_ok [OF assms(1) scaled ok(2) this] have "r2 \<noteq> Inl Panic" "ready init m2" by auto
        with fmp4 segs opened head h p dur rest ready_flush show ?thesis
          by (cases r2) (simp_all add: seekAndMux_def Let_def)
      qed
    qed
  qed
qed

end

end
