(* ===== verification/PlaybackMuxers.thy ===== *)
theory PlaybackMuxers
  imports PlaybackParts
begin

text \<open>
  The two muxers of the playback server (internal/playback/muxer_fmp4.go, muxer_mp4.go) and the proof that they keep the
  promises of the interface. The encoders of packages fmp4 and pmp4, and the connection that is written to, are a
  parameter: what has been written, with the piece that comes next, gives the number of an error or nothing.
\<close>

section \<open>The fragmented muxer\<close>

record part_sample =
  ps_Duration :: u32
  ps_PTSOffset :: int
  ps_IsNonSyncSample :: bool
  ps_Payload :: bytes

record fmp4_track =
  ft_id :: int
  ft_timeScale :: u32
  ft_firstDTS :: int
  ft_lastDTS :: int
  ft_samples :: "part_sample list"

record part_track =
  pt_ID :: int
  pt_BaseTime :: u64
  pt_Samples :: "part_sample list"

datatype 'c mux_out = OutInit "'c init_track list" | OutPart u32 "part_track list"

text \<open>The current track is a pointer into the list of tracks: a position, or nil.\<close>

record 'c muxer_fmp4 =
  mf_init :: "'c init_track list option"
  mf_nextSequenceNumber :: u32
  mf_tracks :: "fmp4_track list"
  mf_curTrack :: "nat option"
  mf_out :: "'c mux_out list"

type_synonym 'c sink = "'c mux_out list \<Rightarrow> nat option"

fun index_of :: "('a \<Rightarrow> bool) \<Rightarrow> 'a list \<Rightarrow> nat option" where
  "index_of P [] = None"
| "index_of P (x # xs) = (if P x then Some 0 else map_option Suc (index_of P xs))"

definition partDuration :: duration where
  "partDuration = 1 * second"

definition fmp4_writeInit :: "'c init_track list \<Rightarrow> 'c muxer_fmp4 \<Rightarrow> 'c muxer_fmp4" where
  "fmp4_writeInit init m = m\<lparr>mf_init := Some init,
     mf_tracks := map (\<lambda>t. \<lparr>ft_id = it_ID t, ft_timeScale = it_TimeScale t, ft_firstDTS = - 1, ft_lastDTS = 0, ft_samples = []\<rparr>) init\<rparr>"

definition findTrack :: "fmp4_track list \<Rightarrow> int \<Rightarrow> nat option" where
  "findTrack tracks trackID = index_of (\<lambda>t. ft_id t = trackID) tracks"

definition fmp4_setTrack :: "int \<Rightarrow> 'c muxer_fmp4 \<Rightarrow> 'c muxer_fmp4" where
  "fmp4_setTrack trackID m = m\<lparr>mf_curTrack := findTrack (mf_tracks m) trackID\<rparr>"

definition emit :: "'c sink \<Rightarrow> 'c mux_out \<Rightarrow> 'c muxer_fmp4 \<Rightarrow> unit result \<times> 'c muxer_fmp4" where
  "emit sink x m =
     (case sink (mf_out m @ [x]) of
        None \<Rightarrow> (Inr (), m\<lparr>mf_out := mf_out m @ [x]\<rparr>)
      | Some n \<Rightarrow> (Inl (External n), m))"

text \<open>A flush takes all the samples of a track but the last, whose duration is not known yet, or all at the end.\<close>

definition flush_track :: "bool \<Rightarrow> fmp4_track \<Rightarrow> part_track option \<times> fmp4_track" where
  "flush_track final t =
     (if 0 \<le> ft_firstDTS t \<and> (1 < length (ft_samples t) \<or> final \<and> length (ft_samples t) \<noteq> 0)
      then
        (Some \<lparr>pt_ID = ft_id t, pt_BaseTime = of_int (ft_firstDTS t),
               pt_Samples = (if \<not> final then butlast (ft_samples t) else ft_samples t)\<rparr>,
         if \<not> final then t\<lparr>ft_samples := [last (ft_samples t)], ft_firstDTS := ft_lastDTS t\<rparr> else t)
      else (None, t))"

definition flush_parts :: "bool \<Rightarrow> fmp4_track list \<Rightarrow> part_track list" where
  "flush_parts final tracks = List.map_filter (\<lambda>t. fst (flush_track final t)) tracks"

definition write_head :: "'c sink \<Rightarrow> 'c muxer_fmp4 \<Rightarrow> unit result \<times> 'c muxer_fmp4" where
  "write_head sink m =
     (case mf_init m of
        None \<Rightarrow> (Inr (), m)
      | Some init \<Rightarrow> bindS (emit sink (OutInit init) m) (\<lambda>_ m. (Inr (), m\<lparr>mf_init := None\<rparr>)))"

definition innerFlush :: "'c sink \<Rightarrow> bool \<Rightarrow> 'c muxer_fmp4 \<Rightarrow> unit result \<times> 'c muxer_fmp4" where
  "innerFlush sink final m =
     (let part = flush_parts final (mf_tracks m);
          m' = m\<lparr>mf_tracks := map (\<lambda>t. snd (flush_track final t)) (mf_tracks m)\<rparr>
      in if part = [] then (Inr (), m')
         else
           let sequenceNumber = mf_nextSequenceNumber m' in
           bindS (write_head sink (m'\<lparr>mf_nextSequenceNumber := sequenceNumber + 1\<rparr>)) (\<lambda>_.
             emit sink (OutPart sequenceNumber part)))"

definition set_last_duration :: "int \<Rightarrow> part_sample list \<Rightarrow> part_sample list" where
  "set_last_duration diff samples =
     butlast samples @ [(last samples)\<lparr>ps_Duration := of_int (if diff < 0 then 0 else diff)\<rparr>]"

text \<open>The track after a sample, or a panic.\<close>

definition track_sample :: "int \<Rightarrow> int \<Rightarrow> bool \<Rightarrow> bytes \<Rightarrow> fmp4_track \<Rightarrow> fmp4_track result" where
  "track_sample dts ptsOffset isNonSyncSample pl t =
     (if dts \<ge> 0 then
        bindE
          (if ft_firstDTS t < 0 then
             Inr (t\<lparr>ft_firstDTS := dts, ft_samples := (if \<not> isNonSyncSample then [] else ft_samples t)\<rparr>)
           else if ft_samples t = [] then Inl Panic
           else Inr (t\<lparr>ft_samples := set_last_duration (int64 (dts - ft_lastDTS t)) (ft_samples t)\<rparr>))
          (\<lambda>t. Inr (t\<lparr>ft_samples := ft_samples t @
                 [\<lparr>ps_Duration = 0, ps_PTSOffset = ptsOffset, ps_IsNonSyncSample = isNonSyncSample, ps_Payload = pl\<rparr>],
                 ft_lastDTS := dts\<rparr>))
      else
        let s = \<lparr>ps_Duration = 0, ps_PTSOffset = 0, ps_IsNonSyncSample = isNonSyncSample, ps_Payload = pl\<rparr> in
        if \<not> isNonSyncSample then Inr (t\<lparr>ft_samples := [s]\<rparr>) else Inr (t\<lparr>ft_samples := ft_samples t @ [s]\<rparr>))"

definition part_full :: "fmp4_track \<Rightarrow> bool" where
  "part_full t \<longleftrightarrow> int64 (ft_lastDTS t - ft_firstDTS t) \<ge> durationGoToMp4 partDuration (ft_timeScale t)"

definition fmp4_writeSample ::
  "'c sink \<Rightarrow> int \<Rightarrow> int \<Rightarrow> bool \<Rightarrow> u32 \<Rightarrow> bytes result \<Rightarrow> 'c muxer_fmp4 \<Rightarrow> unit result \<times> 'c muxer_fmp4" where
  "fmp4_writeSample sink dts ptsOffset isNonSyncSample _ payload m =
     bindS (payload, m) (\<lambda>pl m.
     case mf_curTrack m of
       None \<Rightarrow> (Inl Panic, m)
     | Some i \<Rightarrow>
         bindS (track_sample dts ptsOffset isNonSyncSample pl (mf_tracks m ! i), m) (\<lambda>t m.
         let m = m\<lparr>mf_tracks := (mf_tracks m)[i := t]\<rparr> in
         if dts \<ge> 0 \<and> part_full t then innerFlush sink False m else (Inr (), m)))"

definition fmp4_writeFinalDTS :: "int \<Rightarrow> 'c muxer_fmp4 \<Rightarrow> unit result \<times> 'c muxer_fmp4" where
  "fmp4_writeFinalDTS dts m =
     (case mf_curTrack m of
        None \<Rightarrow> (Inl Panic, m)
      | Some i \<Rightarrow>
          let t = mf_tracks m ! i in
          if ft_firstDTS t \<ge> 0 then
            if ft_samples t = [] then (Inl Panic, m)
            else (Inr (), m\<lparr>mf_tracks := (mf_tracks m)[i := t\<lparr>ft_samples :=
                    set_last_duration (int64 (dts - ft_lastDTS t)) (ft_samples t)\<rparr>]\<rparr>)
          else (Inr (), m))"

definition fmp4_flush :: "'c sink \<Rightarrow> 'c muxer_fmp4 \<Rightarrow> unit result \<times> 'c muxer_fmp4" where
  "fmp4_flush sink m = innerFlush sink True m"

definition muxerFMP4 :: "'c sink \<Rightarrow> ('c muxer_fmp4, 'c) muxer" where
  "muxerFMP4 sink =
     \<lparr>mx_writeInit = fmp4_writeInit, mx_setTrack = fmp4_setTrack, mx_writeSample = fmp4_writeSample sink,
      mx_writeFinalDTS = fmp4_writeFinalDTS, mx_flush = fmp4_flush sink\<rparr>"

section \<open>The plain muxer\<close>

record mp4_sample =
  ms_Duration :: u32
  ms_PTSOffset :: int
  ms_IsNonSyncSample :: bool
  ms_PayloadSize :: u32
  ms_GetPayload :: "bytes result"

record 'c mp4_track =
  mt_ID :: int
  mt_TimeScale :: u32
  mt_Codec :: 'c
  mt_TimeOffset :: int
  mt_Samples :: "mp4_sample list"
  mt_lastDTS :: int

record 'c muxer_mp4 =
  mm_tracks :: "'c mp4_track list"
  mm_curTrack :: "nat option"
  mm_out :: "'c mp4_track list option"

definition mp4_writeInit :: "'c init_track list \<Rightarrow> 'c muxer_mp4 \<Rightarrow> 'c muxer_mp4" where
  "mp4_writeInit init m = m\<lparr>mm_tracks :=
     map (\<lambda>t. \<lparr>mt_ID = it_ID t, mt_TimeScale = it_TimeScale t, mt_Codec = it_Codec t, mt_TimeOffset = 0, mt_Samples = [],
               mt_lastDTS = 0\<rparr>) init\<rparr>"

definition findTrackMP4 :: "'c mp4_track list \<Rightarrow> int \<Rightarrow> nat option" where
  "findTrackMP4 tracks trackID = index_of (\<lambda>t. mt_ID t = trackID) tracks"

definition mp4_setTrack :: "int \<Rightarrow> 'c muxer_mp4 \<Rightarrow> 'c muxer_mp4" where
  "mp4_setTrack trackID m = m\<lparr>mm_curTrack := findTrackMP4 (mm_tracks m) trackID\<rparr>"

definition set_last_mp4 :: "int \<Rightarrow> mp4_sample list \<Rightarrow> mp4_sample list" where
  "set_last_mp4 diff samples =
     butlast samples @ [(last samples)\<lparr>ms_Duration := of_int (if diff < 0 then 0 else diff)\<rparr>]"

definition mp4_track_sample :: "int \<Rightarrow> int \<Rightarrow> bool \<Rightarrow> u32 \<Rightarrow> bytes result \<Rightarrow> 'c mp4_track \<Rightarrow> 'c mp4_track" where
  "mp4_track_sample dts ptsOffset isNonSyncSample payloadSize getPayload t =
     (let samples = (if (dts < 0 \<or> (dts \<ge> 0 \<and> mt_lastDTS t < 0)) \<and> \<not> isNonSyncSample then [] else mt_Samples t);
          offset = (if samples = [] then signed_take_bit 31 dts else mt_TimeOffset t);
          samples = (if samples = [] then [] else set_last_mp4 (int64 (dts - mt_lastDTS t)) samples);
          ptsOffset = (if \<not> isNonSyncSample then 0 else ptsOffset)
      in t\<lparr>mt_TimeOffset := offset,
           mt_Samples := samples @ [\<lparr>ms_Duration = 0, ms_PTSOffset = ptsOffset, ms_IsNonSyncSample = isNonSyncSample,
                                     ms_PayloadSize = payloadSize, ms_GetPayload = getPayload\<rparr>],
           mt_lastDTS := dts\<rparr>)"

definition mp4_writeSample ::
  "int \<Rightarrow> int \<Rightarrow> bool \<Rightarrow> u32 \<Rightarrow> bytes result \<Rightarrow> 'c muxer_mp4 \<Rightarrow> unit result \<times> 'c muxer_mp4" where
  "mp4_writeSample dts ptsOffset isNonSyncSample payloadSize getPayload m =
     (case mm_curTrack m of
        None \<Rightarrow> (Inl Panic, m)
      | Some i \<Rightarrow>
          (Inr (), m\<lparr>mm_tracks := (mm_tracks m)[i :=
             mp4_track_sample dts ptsOffset isNonSyncSample payloadSize getPayload (mm_tracks m ! i)]\<rparr>))"

definition mp4_writeFinalDTS :: "int \<Rightarrow> 'c muxer_mp4 \<Rightarrow> unit result \<times> 'c muxer_mp4" where
  "mp4_writeFinalDTS dts m =
     (case mm_curTrack m of
        None \<Rightarrow> (Inl Panic, m)
      | Some i \<Rightarrow>
          let t = mm_tracks m ! i in
          if mt_Samples t = [] then (Inl Panic, m)
          else (Inr (), m\<lparr>mm_tracks := (mm_tracks m)[i :=
                  t\<lparr>mt_Samples := set_last_mp4 (int64 (dts - mt_lastDTS t)) (mt_Samples t)\<rparr>]\<rparr>))"

definition mp4_flush :: "('c mp4_track list \<Rightarrow> nat option) \<Rightarrow> 'c muxer_mp4 \<Rightarrow> unit result \<times> 'c muxer_mp4" where
  "mp4_flush marshal m =
     (case marshal (mm_tracks m) of
        None \<Rightarrow> (Inr (), m\<lparr>mm_out := Some (mm_tracks m)\<rparr>)
      | Some n \<Rightarrow> (Inl (External n), m))"

definition muxerMP4 :: "('c mp4_track list \<Rightarrow> nat option) \<Rightarrow> ('c muxer_mp4, 'c) muxer" where
  "muxerMP4 marshal =
     \<lparr>mx_writeInit = mp4_writeInit, mx_setTrack = mp4_setTrack, mx_writeSample = mp4_writeSample,
      mx_writeFinalDTS = mp4_writeFinalDTS, mx_flush = mp4_flush marshal\<rparr>"

section \<open>They keep the promises\<close>

lemma index_of_Some: "index_of P xs = Some i \<Longrightarrow> i < length xs \<and> P (xs ! i) \<and> (\<forall>j<i. \<not> P (xs ! j))"
proof (induction xs arbitrary: i)
  case (Cons x xs)
  then show ?case by (auto split: if_splits simp: less_Suc_eq_0_disj)
qed simp

lemma index_of_None: "index_of P xs = None \<longleftrightarrow> (\<forall>x\<in>set xs. \<not> P x)"
  by (induction xs) auto

lemma index_of_found:
  assumes "findInitTrack init trackID \<noteq> None" "map f ts = map it_ID init"
  shows "\<exists>i. index_of (\<lambda>t. f t = trackID) ts = Some i"
proof (rule ccontr)
  assume "\<nexists>i. index_of (\<lambda>t. f t = trackID) ts = Some i"
  then have "trackID \<notin> set (map f ts)" by (auto simp: index_of_None)
  with assms show False by (auto simp: findInitTrack_def find_None_iff)
qed

definition track_sound :: "fmp4_track \<Rightarrow> bool" where
  "track_sound t \<longleftrightarrow> (0 \<le> ft_firstDTS t \<longrightarrow> ft_samples t \<noteq> [])"

definition fmp4_ready :: "'c init_track list \<Rightarrow> 'c muxer_fmp4 \<Rightarrow> bool" where
  "fmp4_ready init m \<longleftrightarrow>
     map ft_id (mf_tracks m) = map it_ID init \<and> (\<forall>t\<in>set (mf_tracks m). track_sound t) \<and>
     (\<forall>i. mf_curTrack m = Some i \<longrightarrow> i < length (mf_tracks m))"

definition mp4_ready :: "'c init_track list \<Rightarrow> 'c muxer_mp4 \<Rightarrow> bool" where
  "mp4_ready init m \<longleftrightarrow>
     map mt_ID (mm_tracks m) = map it_ID init \<and> (\<forall>i. mm_curTrack m = Some i \<longrightarrow> i < length (mm_tracks m))"

lemma flush_track_sound: "track_sound t \<Longrightarrow> track_sound (snd (flush_track final t))"
  by (auto simp: flush_track_def track_sound_def)

lemma flush_track_id [simp]: "ft_id (snd (flush_track final t)) = ft_id t"
  by (simp add: flush_track_def)

lemma emit_frame:
  assumes "emit sink x m = (res, m')"
  shows "res \<noteq> Inl Panic" "mf_tracks m' = mf_tracks m" "mf_curTrack m' = mf_curTrack m"
  using assms by (auto simp: emit_def split: option.splits)

lemma write_head_frame:
  assumes "write_head sink m = (res, m')"
  shows "res \<noteq> Inl Panic \<and> mf_tracks m' = mf_tracks m \<and> mf_curTrack m' = mf_curTrack m"
  using assms by (auto simp: write_head_def emit_def split: option.splits)

lemma innerFlush_frame:
  assumes "innerFlush sink final m = (res, m')"
  shows "res \<noteq> Inl Panic" "mf_tracks m' = map (\<lambda>t. snd (flush_track final t)) (mf_tracks m)" "mf_curTrack m' = mf_curTrack m"
proof -
  obtain r m1 where h: "write_head sink (m\<lparr>mf_tracks := map (\<lambda>t. snd (flush_track final t)) (mf_tracks m),
      mf_nextSequenceNumber := mf_nextSequenceNumber m + 1\<rparr>) = (r, m1)" by force
  note w = write_head_frame [OF h]
  show "res \<noteq> Inl Panic" "mf_tracks m' = map (\<lambda>t. snd (flush_track final t)) (mf_tracks m)" "mf_curTrack m' = mf_curTrack m"
    using assms h w by (auto simp: innerFlush_def Let_def dest: emit_frame split: if_splits sum.splits) (cases r; auto dest: emit_frame)+
qed

lemma innerFlush_ready:
  assumes "fmp4_ready init m" "innerFlush sink final m = (res, m')"
  shows "fmp4_ready init m'"
  using assms(1) innerFlush_frame [OF assms(2)] by (auto simp: fmp4_ready_def flush_track_sound comp_def)

lemma track_sample_sound:
  assumes "track_sound t"
  shows "\<exists>t'. track_sample dts ptsOffset ns pl t = Inr t' \<and> track_sound t' \<and> ft_id t' = ft_id t"
  using assms by (auto simp: track_sample_def track_sound_def Let_def)

lemma set_last_duration_not_Nil [simp]: "set_last_duration d xs \<noteq> []"
  by (simp add: set_last_duration_def)

lemma fmp4_current:
  assumes "fmp4_ready init m" "mf_curTrack m = Some i"
  shows "i < length (mf_tracks m)" "track_sound (mf_tracks m ! i)"
  using assms by (auto simp: fmp4_ready_def)

lemma fmp4_ready_update:
  assumes "fmp4_ready init m" "mf_curTrack m = Some i" "track_sound t" "ft_id t = ft_id (mf_tracks m ! i)"
  shows "fmp4_ready init (m\<lparr>mf_tracks := (mf_tracks m)[i := t]\<rparr>)"
proof -
  have "map ft_id ((mf_tracks m)[i := t]) = map ft_id (mf_tracks m)"
    using fmp4_current(1) [OF assms(1,2)] assms(4) by (simp add: map_update list_update_same_conv)
  moreover have "\<forall>t'\<in>set ((mf_tracks m)[i := t]). track_sound t'"
    using assms(1,3) set_update_subset_insert [of "mf_tracks m" i t] by (auto simp: fmp4_ready_def)
  ultimately show ?thesis using assms(1) by (simp add: fmp4_ready_def)
qed

lemma fmp4_sample_ready:
  assumes "fmp4_ready init m" "mf_curTrack m \<noteq> None" "pl \<noteq> Inl Panic"
    "fmp4_writeSample sink dts ptsOffset ns sz pl m = (res, m')"
  shows "res \<noteq> Inl Panic \<and> fmp4_ready init m' \<and> mf_curTrack m' \<noteq> None"
proof (cases pl)
  case (Inl e)
  with assms show ?thesis by (auto simp: fmp4_writeSample_def)
next
  case (Inr bs)
  obtain i where i: "mf_curTrack m = Some i" using assms(2) by blast
  note cur = fmp4_current [OF assms(1) i]
  obtain t where t: "track_sample dts ptsOffset ns bs (mf_tracks m ! i) = Inr t" "track_sound t" "ft_id t = ft_id (mf_tracks m ! i)"
    using track_sample_sound [OF cur(2)] by blast
  let ?m = "m\<lparr>mf_tracks := (mf_tracks m)[i := t]\<rparr>"
  have ready: "fmp4_ready init ?m" by (rule fmp4_ready_update [OF assms(1) i t(2,3)])
  show ?thesis
  proof (cases "dts \<ge> 0 \<and> part_full t")
    case True
    with assms(4) Inr i t(1) have "innerFlush sink False ?m = (res, m')" by (simp add: fmp4_writeSample_def)
    from innerFlush_frame(1,3) [OF this] innerFlush_ready [OF ready this] show ?thesis by (simp add: i)
  next
    case False
    with assms(4) Inr i t(1) ready show ?thesis by (auto simp: fmp4_writeSample_def)
  qed
qed

lemma fmp4_final_ready:
  assumes "fmp4_ready init m" "mf_curTrack m \<noteq> None"
  shows "\<exists>m'. fmp4_writeFinalDTS dts m = (Inr (), m') \<and> fmp4_ready init m' \<and> mf_curTrack m' \<noteq> None"
proof -
  obtain i where i: "mf_curTrack m = Some i" using assms(2) by blast
  note cur = fmp4_current [OF assms(1) i]
  let ?t = "mf_tracks m ! i"
  show ?thesis
  proof (cases "ft_firstDTS ?t \<ge> 0")
    case True
    with cur(2) have "ft_samples ?t \<noteq> []" by (simp add: track_sound_def)
    moreover have "fmp4_ready init (m\<lparr>mf_tracks := (mf_tracks m)[i := ?t\<lparr>ft_samples := set_last_duration d (ft_samples ?t)\<rparr>]\<rparr>)" for d
      by (rule fmp4_ready_update [OF assms(1) i]) (simp_all add: track_sound_def)
    ultimately show ?thesis using True i by (simp add: fmp4_writeFinalDTS_def Let_def)
  next
    case False
    with assms i show ?thesis by (simp add: fmp4_writeFinalDTS_def Let_def)
  qed
qed

interpretation fmp4: playback_muxer "muxerFMP4 sink" "\<lambda>m. mf_curTrack m = None" fmp4_ready "\<lambda>m. mf_curTrack m \<noteq> None" "\<lambda>_. True"
proof (unfold_locales, goal_cases)
  case (1 m init)
  then show ?case
    by (simp add: muxerFMP4_def fmp4_writeInit_def fmp4_ready_def track_sound_def comp_def)
next
  case (2 init m trackID)
  then obtain i where "findTrack (mf_tracks m) trackID = Some i"
    using index_of_found [of init trackID ft_id "mf_tracks m"] by (auto simp: fmp4_ready_def findTrack_def)
  with 2(1) index_of_Some [of _ "mf_tracks m" i] show ?case
    by (simp add: muxerFMP4_def fmp4_setTrack_def fmp4_ready_def findTrack_def)
next
  case (3 init m pl dts ptsOffset nonSync sz res m')
  then show ?case using fmp4_sample_ready [of init m pl sink dts] by (simp add: muxerFMP4_def)
next
  case (4 init m dts)
  then show ?case using fmp4_final_ready [of init m dts] by (simp add: muxerFMP4_def)
next
  case (5 init m)
  then show ?case
    using innerFlush_frame(1) [of sink True m] by (cases "innerFlush sink True m") (simp add: muxerFMP4_def fmp4_flush_def)
qed

lemma mp4_update:
  assumes "mp4_ready init m" "mm_curTrack m = Some i" "mt_ID t = mt_ID (mm_tracks m ! i)"
  shows "mp4_ready init (m\<lparr>mm_tracks := (mm_tracks m)[i := t]\<rparr>)" "i < length (mm_tracks m)"
proof -
  show i: "i < length (mm_tracks m)" using assms(1,2) by (simp add: mp4_ready_def)
  have "map mt_ID ((mm_tracks m)[i := t]) = map mt_ID (mm_tracks m)"
    using i assms(3) by (simp add: map_update list_update_same_conv)
  with assms(1,2) show "mp4_ready init (m\<lparr>mm_tracks := (mm_tracks m)[i := t]\<rparr>)" by (simp add: mp4_ready_def)
qed

definition mp4_has_sample :: "'c muxer_mp4 \<Rightarrow> bool" where
  "mp4_has_sample m \<longleftrightarrow> (\<exists>i. mm_curTrack m = Some i \<and> mt_Samples (mm_tracks m ! i) \<noteq> [])"

interpretation mp4: playback_muxer "muxerMP4 marshal" "\<lambda>m. mm_curTrack m = None" mp4_ready "\<lambda>m. mm_curTrack m \<noteq> None" mp4_has_sample
proof (unfold_locales, goal_cases)
  case (1 m init)
  then show ?case by (simp add: muxerMP4_def mp4_writeInit_def mp4_ready_def comp_def)
next
  case (2 init m trackID)
  then obtain i where "findTrackMP4 (mm_tracks m) trackID = Some i"
    using index_of_found [of init trackID mt_ID "mm_tracks m"] by (auto simp: mp4_ready_def findTrackMP4_def)
  with 2(1) index_of_Some [of _ "mm_tracks m" i] show ?case
    by (simp add: muxerMP4_def mp4_setTrack_def mp4_ready_def findTrackMP4_def)
next
  case (3 init m pl dts ptsOffset nonSync sz res m')
  then obtain i where i: "mm_curTrack m = Some i" by blast
  let ?t = "mp4_track_sample dts ptsOffset nonSync sz pl (mm_tracks m ! i)"
  have t: "mt_ID ?t = mt_ID (mm_tracks m ! i)" "mt_Samples ?t \<noteq> []" by (simp_all add: mp4_track_sample_def Let_def)
  from 3(4) i have "res = Inr ()" "m' = m\<lparr>mm_tracks := (mm_tracks m)[i := ?t]\<rparr>"
    by (simp_all add: muxerMP4_def mp4_writeSample_def)
  with mp4_update [OF 3(1) i t(1)] t(2) i show ?case by (simp add: mp4_has_sample_def)
next
  case (4 init m dts)
  then obtain i where i: "mm_curTrack m = Some i" "mt_Samples (mm_tracks m ! i) \<noteq> []" by (auto simp: mp4_has_sample_def)
  with mp4_update(1) [OF 4(1) i(1)] show ?case by (simp add: muxerMP4_def mp4_writeFinalDTS_def Let_def)
next
  case (5 init m)
  then show ?case by (simp add: muxerMP4_def mp4_flush_def split: option.split)
qed


definition sample_file :: bytes where
  "sample_file = box ftyp [] @ box moov (box mvhd [0, 0, 3, 0xE8]) @ [1, 2, 3, 4, 5, 6]"

definition sample_play :: "unit play_env" where
  "sample_play =
     \<lparr>pe_open = (\<lambda>f. if f = ''/rec/a.mp4'' then Inr sample_file else Inl (External 2)),
      pe_boxes = (\<lambda>file. [BoxOther, BoxOther, BoxMoof 0, BoxTraf, BoxTfhd 1, BoxTfdt 0,
        BoxTrun 36 [\<lparr>te_Duration = 3000, te_Size = 3, te_Flags = 0, te_Offset = 0\<rparr>,
                    \<lparr>te_Duration = 3000, te_Size = 3, te_Flags = 65536, te_Offset = 0\<rparr>], BoxMdat]),
      pe_lib = sample_lib\<rparr>"

definition new_muxerFMP4 :: "'c muxer_fmp4" where
  "new_muxerFMP4 = \<lparr>mf_init = None, mf_nextSequenceNumber = 0, mf_tracks = [], mf_curTrack = None, mf_out = []\<rparr>"

definition new_muxerMP4 :: "'c muxer_mp4" where
  "new_muxerMP4 = \<lparr>mm_tracks = [], mm_curTrack = None, mm_out = None\<rparr>"

lemma sample_header: "read_header sample_play sample_file = Inr (sample_tracks, 5000000000)"
  by code_simp

lemma sample_playable: "playable sample_play"
  unfolding playable_def using sample_header
  by (auto simp: sample_play_def sample_tracks_def scaled_def)


end
