(* ===== verification/PlaybackLossless.thy ===== *)
theory PlaybackLossless
  imports PlaybackMuxers
begin

text \<open>
  The fragmented muxer refines a reference muxer that keeps all the samples of a track in one list and never writes a
  part: cutting the samples into parts of a second loses none, repeats none, keeps their durations, and gives every
  part the time at which the previous one ends.
\<close>

section \<open>Calls\<close>

datatype muxer_call = CallTrack int | CallSample int int bool bytes | CallFinal int

fun mux_call :: "'c sink \<Rightarrow> muxer_call \<Rightarrow> 'c muxer_fmp4 \<Rightarrow> unit result \<times> 'c muxer_fmp4" where
  "mux_call sink (CallTrack trackID) m = (Inr (), fmp4_setTrack trackID m)"
| "mux_call sink (CallSample dts off ns pl) m = fmp4_writeSample sink dts off ns (of_nat (length pl)) (Inr pl) m"
| "mux_call sink (CallFinal dts) m = fmp4_writeFinalDTS dts m"

fun mux_calls :: "'c sink \<Rightarrow> muxer_call list \<Rightarrow> 'c muxer_fmp4 \<Rightarrow> unit result \<times> 'c muxer_fmp4" where
  "mux_calls sink [] m = (Inr (), m)"
| "mux_calls sink (c # cs) m = bindS (mux_call sink c m) (\<lambda>_. mux_calls sink cs)"

section \<open>The reference\<close>

text \<open>
  The reference has no value for calls that are not regular: without a track, with a time stamp that goes back once the
  track has started, or with a step of more than 32 bits.
\<close>

definition regular :: "int \<Rightarrow> fmp4_track \<Rightarrow> bool" where
  "regular dts t \<longleftrightarrow> dts < 9223372036854775808 \<and>
     (0 \<le> ft_firstDTS t \<longrightarrow> ft_lastDTS t \<le> dts \<and> dts - ft_lastDTS t < 4294967296)"

fun ref_call :: "muxer_call \<Rightarrow> fmp4_track list \<times> nat option \<Rightarrow> (fmp4_track list \<times> nat option) option" where
  "ref_call (CallTrack trackID) (ts, cur) = Some (ts, findTrack ts trackID)"
| "ref_call (CallSample dts off ns pl) (ts, cur) =
     (case cur of
        None \<Rightarrow> None
      | Some i \<Rightarrow>
          if regular dts (ts ! i) then
            (case track_sample dts off ns pl (ts ! i) of Inl _ \<Rightarrow> None | Inr t \<Rightarrow> Some (ts[i := t], cur))
          else None)"
| "ref_call (CallFinal dts) (ts, cur) =
     (case cur of
        None \<Rightarrow> None
      | Some i \<Rightarrow>
          if 0 \<le> ft_firstDTS (ts ! i)
          then Some (ts[i := (ts ! i)\<lparr>ft_samples := set_last_duration (int64 (dts - ft_lastDTS (ts ! i))) (ft_samples (ts ! i))\<rparr>], cur)
          else Some (ts, cur))"

fun ref_calls :: "muxer_call list \<Rightarrow> fmp4_track list \<times> nat option \<Rightarrow> (fmp4_track list \<times> nat option) option" where
  "ref_calls [] st = Some st"
| "ref_calls (c # cs) st = (case ref_call c st of None \<Rightarrow> None | Some st' \<Rightarrow> ref_calls cs st')"

section \<open>What was written of a track\<close>

definition parts_of :: "int \<Rightarrow> 'c mux_out list \<Rightarrow> part_track list" where
  "parts_of trackID out =
     concat (map (\<lambda>x. case x of OutInit _ \<Rightarrow> [] | OutPart _ pts \<Rightarrow> filter (\<lambda>p. pt_ID p = trackID) pts) out)"

definition samples_of :: "part_track list \<Rightarrow> part_sample list" where
  "samples_of ps = concat (map pt_Samples ps)"

definition duration_of :: "part_sample list \<Rightarrow> int" where
  "duration_of samples = (\<Sum>s\<leftarrow>samples. uint (ps_Duration s))"

text \<open>Every part starts where the previous one ends.\<close>

fun contiguous :: "int \<Rightarrow> part_track list \<Rightarrow> bool" where
  "contiguous t [] = True"
| "contiguous t (p # ps) = (pt_BaseTime p = of_int t \<and> contiguous (t + duration_of (pt_Samples p)) ps)"

lemma duration_of_simps [simp]:
  "duration_of [] = 0" "duration_of (s # xs) = uint (ps_Duration s) + duration_of xs"
  "duration_of (xs @ ys) = duration_of xs + duration_of ys"
  by (simp_all add: duration_of_def)

lemma duration_of_nonneg: "0 \<le> duration_of xs"
  unfolding duration_of_def by (intro sum_list_nonneg) auto

lemma samples_of_simps [simp]:
  "samples_of [] = []" "samples_of (p # ps) = pt_Samples p @ samples_of ps" "samples_of (ps @ qs) = samples_of ps @ samples_of qs"
  by (simp_all add: samples_of_def)

lemma contiguous_append: "contiguous t (ps @ qs) \<longleftrightarrow> contiguous t ps \<and> contiguous (t + duration_of (samples_of ps)) qs"
  by (induction ps arbitrary: t) (auto simp: add.assoc)

lemma parts_of_append [simp]: "parts_of i (xs @ ys) = parts_of i xs @ parts_of i ys"
  by (simp add: parts_of_def)

section \<open>The refinement\<close>

text \<open>A track \<open>t\<close> of the muxer, with its parts \<open>ps\<close>, against the track \<open>r\<close> of the reference.\<close>

definition track_refines :: "fmp4_track \<Rightarrow> part_track list \<Rightarrow> fmp4_track \<Rightarrow> bool" where
  "track_refines t ps r \<longleftrightarrow>
     ft_id t = ft_id r \<and> ft_lastDTS t = ft_lastDTS r \<and> (0 \<le> ft_firstDTS t) = (0 \<le> ft_firstDTS r) \<and>
     ft_samples r = samples_of ps @ ft_samples t \<and>
     (if 0 \<le> ft_firstDTS t
      then ft_samples t \<noteq> [] \<and> contiguous (ft_firstDTS r) ps \<and>
        ft_firstDTS t = ft_firstDTS r + duration_of (samples_of ps) \<and>
        ft_lastDTS t = ft_firstDTS t + duration_of (butlast (ft_samples t))
      else ps = [] \<and> duration_of (ft_samples t) = 0)"

lemma set_last_duration_append: "xs \<noteq> [] \<Longrightarrow> set_last_duration d (ys @ xs) = ys @ set_last_duration d xs"
  by (simp add: set_last_duration_def butlast_append)

lemma butlast_set_last [simp]: "butlast (set_last_duration d xs) = butlast xs"
  by (simp add: set_last_duration_def)

lemma duration_set_last:
  "0 \<le> d \<Longrightarrow> d < 4294967296 \<Longrightarrow> duration_of (set_last_duration d xs) = duration_of (butlast xs) + d"
  by (simp add: set_last_duration_def uint_word_of_int take_bit_int_eq_self)

lemma sample_refines:
  assumes "track_refines t ps r" "regular dts r" "track_sample dts off ns pl r = Inr r'" "track_sample dts off ns pl t = Inr t'"
  shows "track_refines t' ps r'"
proof (cases "0 \<le> ft_firstDTS t")
  case True
  from True assms(1) have r: "0 \<le> ft_firstDTS r" "ft_samples t \<noteq> []" "ft_lastDTS t = ft_lastDTS r"
    "ft_samples r = samples_of ps @ ft_samples t" "ft_lastDTS t = ft_firstDTS t + duration_of (butlast (ft_samples t))"
    by (auto simp: track_refines_def)
  have "0 \<le> ft_lastDTS t" using r(5) True duration_of_nonneg [of "butlast (ft_samples t)"] by linarith
  with assms(2) r(1,3) have d: "0 \<le> dts" "0 \<le> dts - ft_lastDTS t" "dts - ft_lastDTS t < 4294967296" "dts < 9223372036854775808"
    by (auto simp: regular_def)
  then have i: "int64 (dts - ft_lastDTS r) = dts - ft_lastDTS r" unfolding r(3) by (intro int64_fits) (simp add: fits64_def)
  show ?thesis
    using assms(1,3,4) True r d(1) set_last_duration_append [OF r(2)] duration_set_last [OF d(2,3), of "ft_samples t"]
    by (auto simp: track_refines_def track_sample_def i)
next
  case False
  with assms show ?thesis
    by (auto simp: track_refines_def track_sample_def Let_def split: if_splits)
qed

lemma final_refines:
  assumes "track_refines t ps r" "0 \<le> ft_firstDTS t"
  shows "track_refines (t\<lparr>ft_samples := set_last_duration d (ft_samples t)\<rparr>) ps
    (r\<lparr>ft_samples := set_last_duration d (ft_samples r)\<rparr>)"
  using assms by (auto simp: track_refines_def set_last_duration_append)

lemma flush_refines:
  assumes "track_refines t ps r"
  shows "track_refines (snd (flush_track False t)) (ps @ (case fst (flush_track False t) of None \<Rightarrow> [] | Some p \<Rightarrow> [p])) r"
proof (cases "0 \<le> ft_firstDTS t \<and> 1 < length (ft_samples t)")
  case True
  then have "butlast (ft_samples t) @ [last (ft_samples t)] = ft_samples t" by (intro append_butlast_last_id) auto
  with True assms duration_of_nonneg [of "butlast (ft_samples t)"] show ?thesis
    by (auto simp: flush_track_def track_refines_def contiguous_append)
next
  case False
  with assms show ?thesis by (auto simp: flush_track_def)
qed

lemma final_flush:
  assumes "track_refines t ps r"
  defines "ps' \<equiv> ps @ (case fst (flush_track True t) of None \<Rightarrow> [] | Some p \<Rightarrow> [p])"
  shows "samples_of ps' = (if 0 \<le> ft_firstDTS r then ft_samples r else []) \<and> contiguous (ft_firstDTS r) ps'"
proof (cases "0 \<le> ft_firstDTS t")
  case True
  with assms(1) have "ft_samples t \<noteq> []" by (simp add: track_refines_def)
  with True assms(1) show ?thesis
    unfolding ps'_def by (auto simp: flush_track_def track_refines_def contiguous_append)
next
  case False
  with assms(1) show ?thesis unfolding ps'_def by (auto simp: flush_track_def track_refines_def)
qed

section \<open>The whole muxer\<close>

text \<open>Its tracks against those of the reference, one by one.\<close>

definition muxer_refines :: "'c muxer_fmp4 \<Rightarrow> fmp4_track list \<times> nat option \<Rightarrow> bool" where
  "muxer_refines m st \<longleftrightarrow>
     distinct (map ft_id (mf_tracks m)) \<and> length (fst st) = length (mf_tracks m) \<and> snd st = mf_curTrack m \<and>
     (\<forall>i. mf_curTrack m = Some i \<longrightarrow> i < length (mf_tracks m)) \<and>
     (\<forall>i < length (mf_tracks m).
        track_refines (mf_tracks m ! i) (parts_of (ft_id (mf_tracks m ! i)) (mf_out m)) (fst st ! i))"

lemma flush_parts_Cons:
  "flush_parts final (t # ts) = (case fst (flush_track final t) of None \<Rightarrow> [] | Some p \<Rightarrow> [p]) @ flush_parts final ts"
  by (simp add: flush_parts_def map_filter_def split: option.split)

lemma flush_part_id: "fst (flush_track final t) = Some p \<Longrightarrow> pt_ID p = ft_id t"
  by (auto simp: flush_track_def split: if_splits)

lemma flush_parts_ids: "p \<in> set (flush_parts final ts) \<Longrightarrow> pt_ID p \<in> ft_id ` set ts"
proof (induction ts)
  case (Cons t ts)
  then show ?case by (cases "fst (flush_track final t)") (auto simp: flush_parts_Cons flush_part_id)
qed (simp add: flush_parts_def map_filter_def)

lemma flush_parts_track:
  "distinct (map ft_id ts) \<Longrightarrow> i < length ts \<Longrightarrow>
    filter (\<lambda>p. pt_ID p = ft_id (ts ! i)) (flush_parts final ts) =
      (case fst (flush_track final (ts ! i)) of None \<Rightarrow> [] | Some p \<Rightarrow> [p])"
proof (induction ts arbitrary: i)
  case (Cons t ts)
  show ?case
  proof (cases i)
    case 0
    have "filter (\<lambda>p. pt_ID p = ft_id t) (flush_parts final ts) = []"
      using Cons.prems(1) by (auto simp: filter_empty_conv dest!: flush_parts_ids)
    with 0 show ?thesis by (auto simp: flush_parts_Cons flush_part_id split: option.split)
  next
    case (Suc j)
    with Cons.prems have "ft_id (ts ! j) \<in> ft_id ` set ts" "ft_id t \<notin> ft_id ` set ts" by simp_all
    then have "ft_id (ts ! j) \<noteq> ft_id t" by metis
    with Suc Cons show ?thesis by (auto simp: flush_parts_Cons dest: flush_part_id split: option.split)
  qed
qed simp

lemma write_head_out:
  assumes "write_head sink m = (Inr u, m')"
  shows "parts_of i (mf_out m') = parts_of i (mf_out m)" "mf_tracks m' = mf_tracks m" "mf_curTrack m' = mf_curTrack m"
  using assms by (auto simp: write_head_def emit_def parts_of_def split: option.splits)

lemma innerFlush_out:
  assumes "innerFlush sink final m = (Inr u, m')"
  shows "parts_of i (mf_out m') = parts_of i (mf_out m) @ filter (\<lambda>p. pt_ID p = i) (flush_parts final (mf_tracks m))"
proof (cases "flush_parts final (mf_tracks m) = []")
  case True
  with assms show ?thesis by (auto simp: innerFlush_def Let_def)
next
  case False
  let ?m = "m\<lparr>mf_tracks := map (\<lambda>t. snd (flush_track final t)) (mf_tracks m), mf_nextSequenceNumber := mf_nextSequenceNumber m + 1\<rparr>"
  obtain v m1 where h: "write_head sink ?m = (Inr v, m1)" "emit sink (OutPart (mf_nextSequenceNumber m) (flush_parts final (mf_tracks m))) m1 = (Inr u, m')"
    using assms False by (auto simp: innerFlush_def Let_def bindS_Inr)
  from h(2) have "mf_out m' = mf_out m1 @ [OutPart (mf_nextSequenceNumber m) (flush_parts final (mf_tracks m))]"
    by (auto simp: emit_def split: option.splits)
  then show ?thesis using write_head_out(1) [OF h(1), of i] by (simp add: parts_of_def)
qed

lemma flush_False_refines:
  assumes "muxer_refines m st" "innerFlush sink False m = (Inr u, m')"
  shows "muxer_refines m' st"
proof -
  note f = innerFlush_frame(2,3) [OF assms(2)]
  have "track_refines (mf_tracks m' ! i) (parts_of (ft_id (mf_tracks m' ! i)) (mf_out m')) (fst st ! i)"
    if i: "i < length (mf_tracks m')" for i
  proof -
    have "track_refines (mf_tracks m ! i) (parts_of (ft_id (mf_tracks m ! i)) (mf_out m)) (fst st ! i)"
      using assms(1) i f by (simp add: muxer_refines_def)
    from flush_refines [OF this] show ?thesis
      using assms(1) i f flush_parts_track [of "mf_tracks m" i False] innerFlush_out [OF assms(2)]
      by (simp add: muxer_refines_def)
  qed
  moreover have "map ft_id (mf_tracks m') = map ft_id (mf_tracks m)" "length (mf_tracks m') = length (mf_tracks m)"
    by (simp_all add: f(1) comp_def)
  ultimately show ?thesis using assms(1) f(2) unfolding muxer_refines_def by simp
qed

lemma update_refines:
  assumes "muxer_refines m (ts, cur)" "cur = Some i" "ft_id t = ft_id (mf_tracks m ! i)"
    "track_refines t (parts_of (ft_id t) (mf_out m)) r"
  shows "muxer_refines (m\<lparr>mf_tracks := (mf_tracks m)[i := t]\<rparr>) (ts[i := r], cur)"
proof -
  have i: "i < length (mf_tracks m)" using assms(1,2) by (simp add: muxer_refines_def)
  have "map ft_id ((mf_tracks m)[i := t]) = map ft_id (mf_tracks m)"
    using i assms(3) by (simp add: map_update list_update_same_conv)
  with assms i show ?thesis by (auto simp: muxer_refines_def nth_list_update)
qed

lemma find_ids: "map ft_id ts = map ft_id ts' \<Longrightarrow> findTrack ts k = findTrack ts' k"
  unfolding findTrack_def
proof (induction ts arbitrary: ts')
  case (Cons t ts)
  then show ?case by (cases ts') auto
qed simp

lemma ref_ids: "muxer_refines m (ts, cur) \<Longrightarrow> map ft_id ts = map ft_id (mf_tracks m)"
  by (rule nth_equalityI) (auto simp: muxer_refines_def track_refines_def)

lemma sample_call_refines:
  assumes "muxer_refines m (ts, cur)" "ref_call (CallSample dts off ns pl) (ts, cur) = Some st'"
    "mux_call sink (CallSample dts off ns pl) m = (Inr u, m')"
  shows "muxer_refines m' st'"
proof -
  have cur: "cur = mf_curTrack m" using assms(1) by (simp add: muxer_refines_def)
  obtain i where i: "cur = Some i" using assms(2) by (cases cur) auto
  then have track: "track_refines (mf_tracks m ! i) (parts_of (ft_id (mf_tracks m ! i)) (mf_out m)) (ts ! i)"
    using assms(1) by (auto simp: muxer_refines_def)
  obtain r' where r: "regular dts (ts ! i)" "track_sample dts off ns pl (ts ! i) = Inr r'" "st' = (ts[i := r'], cur)"
    using assms(2) i by (auto split: if_splits sum.splits)
  obtain t' where t: "track_sample dts off ns pl (mf_tracks m ! i) = Inr t'" "ft_id t' = ft_id (mf_tracks m ! i)"
    using track_sample_sound [of "mf_tracks m ! i" dts off ns pl] track by (auto simp: track_refines_def track_sound_def)
  let ?m = "m\<lparr>mf_tracks := (mf_tracks m)[i := t']\<rparr>"
  have "muxer_refines ?m st'"
    unfolding r(3) using sample_refines [OF track r(1,2) t(1)] t(2) by (intro update_refines [OF assms(1) i]) simp_all
  moreover have "m' = ?m \<or> innerFlush sink False ?m = (Inr u, m')"
    using assms(3) t(1) i cur by (auto simp: fmp4_writeSample_def Let_def split: if_splits)
  ultimately show ?thesis using flush_False_refines by blast
qed

lemma final_call_refines:
  assumes "muxer_refines m (ts, cur)" "ref_call (CallFinal dts) (ts, cur) = Some st'"
    "mux_call sink (CallFinal dts) m = (Inr u, m')"
  shows "muxer_refines m' st'"
proof -
  have cur: "cur = mf_curTrack m" using assms(1) by (simp add: muxer_refines_def)
  obtain i where i: "cur = Some i" using assms(2) by (cases cur) auto
  then have track: "track_refines (mf_tracks m ! i) (parts_of (ft_id (mf_tracks m ! i)) (mf_out m)) (ts ! i)"
    using assms(1) by (auto simp: muxer_refines_def)
  show ?thesis
  proof (cases "0 \<le> ft_firstDTS (mf_tracks m ! i)")
    case True
    let ?d = "int64 (dts - ft_lastDTS (ts ! i))"
    let ?t = "(mf_tracks m ! i)\<lparr>ft_samples := set_last_duration ?d (ft_samples (mf_tracks m ! i))\<rparr>"
    from True track have "0 \<le> ft_firstDTS (ts ! i)" "ft_samples (mf_tracks m ! i) \<noteq> []" "ft_lastDTS (mf_tracks m ! i) = ft_lastDTS (ts ! i)"
      by (auto simp: track_refines_def)
    with assms(2,3) i cur True have "st' = (ts[i := (ts ! i)\<lparr>ft_samples := set_last_duration ?d (ft_samples (ts ! i))\<rparr>], cur)"
      "m' = m\<lparr>mf_tracks := (mf_tracks m)[i := ?t]\<rparr>"
      by (auto simp: fmp4_writeFinalDTS_def Let_def)
    moreover have "track_refines ?t (parts_of (ft_id ?t) (mf_out m)) ((ts ! i)\<lparr>ft_samples := set_last_duration ?d (ft_samples (ts ! i))\<rparr>)"
      using final_refines [OF track True, of ?d] by simp
    ultimately show ?thesis using update_refines [OF assms(1) i, of ?t] by simp
  next
    case False
    with track have "\<not> 0 \<le> ft_firstDTS (ts ! i)" by (simp add: track_refines_def)
    with False assms i cur show ?thesis by (auto simp: fmp4_writeFinalDTS_def Let_def)
  qed
qed

lemma call_refines:
  assumes "muxer_refines m st" "ref_call c st = Some st'" "mux_call sink c m = (Inr u, m')"
  shows "muxer_refines m' st'"
proof (cases c)
  case (CallTrack trackID)
  obtain ts cur where st: "st = (ts, cur)" by force
  have "findTrack ts trackID = findTrack (mf_tracks m) trackID" using find_ids [OF ref_ids] assms(1) st by blast
  moreover have "findTrack (mf_tracks m) trackID = Some i \<Longrightarrow> i < length (mf_tracks m)" for i
    unfolding findTrack_def by (drule index_of_Some) simp
  ultimately show ?thesis using assms CallTrack st by (auto simp: muxer_refines_def fmp4_setTrack_def)
next
  case (CallSample dts off ns pl)
  with assms sample_call_refines show ?thesis by (cases st) blast
next
  case (CallFinal dts)
  with assms final_call_refines show ?thesis by (cases st) blast
qed

lemma calls_refine:
  "muxer_refines m st \<Longrightarrow> ref_calls cs st = Some st' \<Longrightarrow> mux_calls sink cs m = (Inr u, m') \<Longrightarrow> muxer_refines m' st'"
proof (induction cs arbitrary: m st)
  case (Cons c cs)
  obtain st1 where 1: "ref_call c st = Some st1" "ref_calls cs st1 = Some st'"
    using Cons.prems(2) by (cases "ref_call c st") auto
  obtain v m1 where 2: "mux_call sink c m = (Inr v, m1)" "mux_calls sink cs m1 = (Inr u, m')"
    using Cons.prems(3) by (auto simp: bindS_Inr)
  show ?case by (rule Cons.IH [OF call_refines [OF Cons.prems(1) 1(1) 2(1)] 1(2) 2(2)])
qed simp

section \<open>Property\<close>

definition new_track :: "'c init_track \<Rightarrow> fmp4_track" where
  "new_track t = \<lparr>ft_id = it_ID t, ft_timeScale = it_TimeScale t, ft_firstDTS = - 1, ft_lastDTS = 0, ft_samples = []\<rparr>"

lemma init_refines:
  assumes "distinct (map it_ID init)"
  shows "muxer_refines (fmp4_writeInit init new_muxerFMP4) (map new_track init, None)"
  using assms
  by (simp add: muxer_refines_def fmp4_writeInit_def new_muxerFMP4_def track_refines_def new_track_def parts_of_def comp_def)

lemma update_ids: "f y = f (xs ! i) \<Longrightarrow> map f (xs[i := y]) = map f xs"
  by (cases "i < length xs") (simp_all add: map_update list_update_same_conv list_update_beyond)

lemma track_sample_id: "track_sample dts off ns pl t = Inr t' \<Longrightarrow> ft_id t' = ft_id t"
  by (auto simp: track_sample_def Let_def split: if_splits)

lemma ref_call_ids: "ref_call c st = Some st' \<Longrightarrow> map ft_id (fst st') = map ft_id (fst st)"
proof (induction c st rule: ref_call.induct)
  case (2 dts off ns pl ts cur)
  then show ?case by (auto simp: update_ids dest: track_sample_id split: option.splits if_splits sum.splits)
next
  case (3 dts ts cur)
  then show ?case by (auto simp: update_ids split: option.splits if_splits)
qed auto

lemma ref_calls_ids: "ref_calls cs st = Some st' \<Longrightarrow> map ft_id (fst st') = map ft_id (fst st)"
proof (induction cs arbitrary: st)
  case (Cons c cs)
  then show ?case by (auto dest: ref_call_ids split: option.splits)
qed simp


text \<open>A key frame and another frame before the start, frames across the end of a part, and the final time stamp.\<close>

definition sample_calls :: "muxer_call list" where
  "sample_calls = [CallTrack 1, CallSample (- 3000) 0 False [1], CallSample 0 0 True [2], CallSample 45000 10 True [3],
     CallSample 90000 0 False [4], CallSample 93000 0 True [5], CallFinal 96000]"

definition sample_ref :: fmp4_track where
  "sample_ref = hd (fst (the (ref_calls sample_calls (map new_track sample_tracks, None))))"

definition sample_end :: "unit muxer_fmp4" where
  "sample_end = snd (fmp4_flush (\<lambda>_. None) (snd (mux_calls (\<lambda>_. None) sample_calls (fmp4_writeInit sample_tracks new_muxerFMP4))))"

lemma sample_ref_values: "ft_firstDTS sample_ref = 0" "map ps_Payload (ft_samples sample_ref) = [[1], [2], [3], [4], [5]]"
  by code_simp+

lemma sample_runs:
  "fst (mux_calls (\<lambda>_. None) sample_calls (fmp4_writeInit sample_tracks new_muxerFMP4)) = Inr ()"
  "ref_calls sample_calls (map new_track sample_tracks, None) \<noteq> None"
  by code_simp+

lemma innerFlush_no_error: "fst (innerFlush (\<lambda>_. None) final m) = Inr ()"
  by (simp add: innerFlush_def write_head_def emit_def Let_def split: option.split)


end
