(* ===== verification/PlaybackServer.thy ===== *)
theory PlaybackServer
  imports PlaybackLossless GoUrlParse
begin

text \<open>
  The requests of the playback server (internal/playback/on_list.go, on_get.go, server.go): the list of the recorded
  ranges of a path, and the recording of a range. The parsing and formatting of dates and floating point numbers, the
  authentication and the identification of a network error are parameters.
\<close>

section \<open>Segments with their durations\<close>

record 'c parsed_segment =
  pg_start :: instant
  pg_init :: "'c init_track list"
  pg_duration :: duration

definition parseSegment :: "'c play_env \<Rightarrow> segment \<Rightarrow> 'c parsed_segment result" where
  "parseSegment pe seg =
     bindE (pe_open pe (sg_Fpath seg)) (\<lambda>file.
     bindE (read_header pe file) (\<lambda>(init, duration).
     bindE
       (if duration = 0 then segmentFMP4ReadDurationFromParts (pe_lib pe) init \<lparr>sk_data = file, sk_pos = 0\<rparr> else Inr duration)
       (\<lambda>duration. Inr \<lparr>pg_start = sg_Start seg, pg_init = init, pg_duration = duration\<rparr>)))"

text \<open>
  The segments are parsed at the same time. A panic of one goroutine ends the process; otherwise the last error that
  arrives is returned. The order of arrival is the parameter \<open>arrival\<close>.
\<close>

definition parseSegments ::
  "'c play_env \<Rightarrow> (go_error option list \<Rightarrow> go_error option list) \<Rightarrow> segment list \<Rightarrow> 'c parsed_segment list result" where
  "parseSegments pe arrival segments =
     (let rs = map (parseSegment pe) segments;
          errs = map (\<lambda>r. case r of Inl e \<Rightarrow> Some e | Inr _ \<Rightarrow> None) rs
      in if Some Panic \<in> set errs then Inl Panic
         else
           case fold (\<lambda>err2 err. if err2 \<noteq> None then err2 else err) (arrival errs) None of
             Some err \<Rightarrow> Inl err
           | None \<Rightarrow> Inr (List.map_filter (\<lambda>r. case r of Inl _ \<Rightarrow> None | Inr p \<Rightarrow> Some p) rs))"

record list_entry =
  le_Start :: instant
  le_Duration :: duration

definition concatenate_step ::
  "'c parsed_segment \<Rightarrow> list_entry list \<times> 'c init_track list option \<Rightarrow> list_entry list \<times> 'c init_track list option" where
  "concatenate_step parsed st =
     (let (out, prevInit) = st;
          out' =
            (if out \<noteq> [] \<and> segmentFMP4CanBeConcatenated (the prevInit) (le_Start (last out) + le_Duration (last out))
                  (pg_init parsed) (pg_start parsed)
             then
               let prevStart = le_Start (last out); curEnd = pg_start parsed + pg_duration parsed in
               butlast out @ [(last out)\<lparr>le_Duration := time_Sub curEnd prevStart\<rparr>]
             else out @ [\<lparr>le_Start = pg_start parsed, le_Duration = pg_duration parsed\<rparr>])
      in (out', Some (pg_init parsed)))"

definition concatenateSegments :: "'c parsed_segment list \<Rightarrow> list_entry list" where
  "concatenateSegments parsed = fst (fold concatenate_step parsed ([], None))"

definition parseAndConcatenate ::
  "'c play_env \<Rightarrow> (go_error option list \<Rightarrow> go_error option list) \<Rightarrow> record_format \<Rightarrow> segment list \<Rightarrow> list_entry list result" where
  "parseAndConcatenate pe arrival recordFormat segments =
     (case recordFormat of
        RecordFormatFMP4 \<Rightarrow> bindE (parseSegments pe arrival segments) (\<lambda>parsed. Inr (concatenateSegments parsed))
      | _ \<Rightarrow> Inl (Errorf ''MPEG-TS format is not supported yet'' []))"

section \<open>The list\<close>

record 'c server_env =
  sv_auth :: "string \<Rightarrow> bool"
  sv_PathConfs :: "(string \<times> path_conf) list"
  sv_conf :: conf_env
  sv_store :: store_env
  sv_play :: "'c play_env"
  sv_arrival :: "go_error option list \<Rightarrow> go_error option list"
  sv_ParseTime :: "string \<Rightarrow> instant result"
  sv_FormatTime :: "instant \<Rightarrow> string"
  sv_FormatSeconds :: "duration \<Rightarrow> string"
  sv_ParseDuration :: "string \<Rightarrow> duration result"
  sv_Encryption :: bool
  sv_IsNetError :: "go_error \<Rightarrow> bool"

datatype 'a reply = Unauthorized | Failed nat go_error | Reply 'a | Crashed

definition fail :: "nat \<Rightarrow> go_error \<Rightarrow> 'a reply" where
  "fail status err = (if err = Panic then Crashed else Failed status err)"

definition safeFindPathConf :: "'c server_env \<Rightarrow> string \<Rightarrow> path_conf result" where
  "safeFindPathConf sv nm = map_sum id fst (FindPathConf (sv_conf sv) (sv_PathConfs sv) nm)"

definition ReloadPathConfs :: "(string \<times> path_conf) list \<Rightarrow> 'c server_env \<Rightarrow> 'c server_env" where
  "ReloadPathConfs pathConfs sv = sv\<lparr>sv_PathConfs := pathConfs\<rparr>"

text \<open>An optional time of the query, named in the error.\<close>

definition query_time :: "'c server_env \<Rightarrow> url_values \<Rightarrow> string \<Rightarrow> instant option result" where
  "query_time sv q nm =
     (let raw = values_get q nm in
      if raw \<noteq> [] then
        case sv_ParseTime sv raw of
          Inl err \<Rightarrow> Inl (Wrapped (''invalid '' @ nm @ '': %w'') err)
        | Inr t \<Rightarrow> Inr (Some t)
      else Inr None)"

text \<open>The first entry may end before the start, and then goes; or start before it, and then is cut.\<close>

definition cut_start :: "instant \<Rightarrow> list_entry list \<Rightarrow> list_entry list result" where
  "cut_start start entries =
     (case entries of
        [] \<Rightarrow> Inl Panic
      | firstEntry # rest \<Rightarrow>
          if le_Start firstEntry + le_Duration firstEntry < start then
            (if rest = [] then Inl ErrNoSegmentsFound else Inr rest)
          else if le_Start firstEntry < start then
            Inr (\<lparr>le_Start = start, le_Duration = le_Duration firstEntry - time_Sub start (le_Start firstEntry)\<rparr> # rest)
          else Inr entries)"

definition cut_end :: "instant \<Rightarrow> list_entry list \<Rightarrow> list_entry list result" where
  "cut_end until entries =
     (if entries = [] then Inl Panic
      else
        let lastEntry = last entries in
        if le_Start lastEntry + le_Duration lastEntry > until
        then Inr (butlast entries @ [lastEntry\<lparr>le_Duration := time_Sub until (le_Start lastEntry)\<rparr>])
        else Inr entries)"

definition cut_entries :: "instant option \<Rightarrow> instant option \<Rightarrow> list_entry list \<Rightarrow> list_entry list result" where
  "cut_entries start until entries =
     bindE (case start of None \<Rightarrow> Inr entries | Some s \<Rightarrow> cut_start s entries) (\<lambda>entries.
     case until of None \<Rightarrow> Inr entries | Some e \<Rightarrow> cut_end e entries)"

definition entry_query :: "'c server_env \<Rightarrow> string \<Rightarrow> list_entry \<Rightarrow> string" where
  "entry_query sv pathName e =
     Values_Encode (values_add ''duration'' (sv_FormatSeconds sv (le_Duration e))
       (values_add ''start'' (sv_FormatTime sv (le_Start e)) (values_add ''path'' pathName [])))"

definition entry_url :: "'c server_env \<Rightarrow> string \<Rightarrow> string \<Rightarrow> list_entry \<Rightarrow> string" where
  "entry_url sv host pathName e =
     url_String (empty_url\<lparr>u_Scheme := (if sv_Encryption sv then ''https'' else ''http''), u_Host := host, u_Path := ''/get'',
       u_RawQuery := entry_query sv pathName e\<rparr>)"

definition find_status :: "go_error \<Rightarrow> nat" where
  "find_status err = (if err = ErrNoSegmentsFound then 404 else 400)"

definition onList :: "'c server_env \<Rightarrow> string \<Rightarrow> url_values \<Rightarrow> (list_entry \<times> string) list reply" where
  "onList sv host q =
     (let pathName = values_get q ''path'' in
      if \<not> sv_auth sv pathName then Unauthorized
      else
        case safeFindPathConf sv pathName of
          Inl err \<Rightarrow> fail 400 err
        | Inr pathConf \<Rightarrow>
            case query_time sv q ''start'' of
              Inl err \<Rightarrow> fail 400 err
            | Inr start \<Rightarrow>
                case query_time sv q ''end'' of
                  Inl err \<Rightarrow> fail 400 err
                | Inr until \<Rightarrow>
                    case FindSegments (sv_store sv) pathConf pathName start until of
                      Inl err \<Rightarrow> fail (find_status err) err
                    | Inr segments \<Rightarrow>
                        case parseAndConcatenate (sv_play sv) (sv_arrival sv) (RecordFormat pathConf) segments of
                          Inl err \<Rightarrow> fail 500 err
                        | Inr entries \<Rightarrow>
                            case cut_entries start until entries of
                              Inl err \<Rightarrow> fail 404 err
                            | Inr entries \<Rightarrow> Reply (map (\<lambda>e. (e, entry_url sv host pathName e)) entries))"

section \<open>The recording of a range\<close>

datatype 'c stream = FMP4Stream "'c mux_out list" | MP4Stream "'c mp4_track list option"

text \<open>
  What is sent after the muxer has ended: an error goes into the reply only when nothing of the body has been written,
  which depends on where the writing failed (the parameter \<open>written\<close>).
\<close>

definition finish_get :: "'c server_env \<Rightarrow> ('c stream \<Rightarrow> go_error \<Rightarrow> bool) \<Rightarrow> unit result \<times> 'c stream \<Rightarrow> 'c stream reply" where
  "finish_get sv written r =
     (case r of
        (Inr _, out) \<Rightarrow> Reply out
      | (Inl err, out) \<Rightarrow>
          if err = Panic then Crashed
          else if sv_IsNetError sv err then Reply out
          else if \<not> written out err then Failed (find_status err) err
          else Reply out)"

definition onGet ::
  "'c server_env \<Rightarrow> 'c sink \<Rightarrow> ('c mp4_track list \<Rightarrow> nat option) \<Rightarrow> ('c stream \<Rightarrow> go_error \<Rightarrow> bool) \<Rightarrow> url_values \<Rightarrow>
   'c stream reply" where
  "onGet sv sink marshal written q =
     (let pathName = values_get q ''path''; format = values_get q ''format'' in
      if \<not> sv_auth sv pathName then Unauthorized
      else
        case sv_ParseTime sv (values_get q ''start'') of
          Inl err \<Rightarrow> Failed 400 (Wrapped ''invalid start: %w'' err)
        | Inr start \<Rightarrow>
            case sv_ParseDuration sv (values_get q ''duration'') of
              Inl err \<Rightarrow> Failed 400 (Wrapped ''invalid duration: %w'' err)
            | Inr duration \<Rightarrow>
                if format \<notin> {'''', ''fmp4'', ''mp4''} then Failed 400 (Errorf (''invalid format: '' @ format) [])
                else
                  case safeFindPathConf sv pathName of
                    Inl err \<Rightarrow> fail 400 err
                  | Inr pathConf \<Rightarrow>
                      case FindSegments (sv_store sv) pathConf pathName (Some start) (Some (start + duration)) of
                        Inl err \<Rightarrow> fail (find_status err) err
                      | Inr segments \<Rightarrow>
                          if format = ''mp4'' then
                            finish_get sv written (map_prod id (\<lambda>m. MP4Stream (mm_out m))
                              (seekAndMux (muxerMP4 marshal) (sv_play sv) (RecordFormat pathConf) segments start duration new_muxerMP4))
                          else
                            finish_get sv written (map_prod id (\<lambda>m. FMP4Stream (mf_out m))
                              (seekAndMux (muxerFMP4 sink) (sv_play sv) (RecordFormat pathConf) segments start duration new_muxerFMP4)))"

section \<open>The entries are the runs of segments\<close>

text \<open>A segment continues the previous one.\<close>

definition continues :: "'c parsed_segment \<Rightarrow> 'c parsed_segment \<Rightarrow> bool" where
  "continues a b \<longleftrightarrow> segmentFMP4CanBeConcatenated (pg_init a) (pg_start a + pg_duration a) (pg_init b) (pg_start b)"

text \<open>The longest runs of elements each of which is related to the next.\<close>

fun runs :: "('a \<Rightarrow> 'a \<Rightarrow> bool) \<Rightarrow> 'a list \<Rightarrow> 'a list list" where
  "runs R [] = []"
| "runs R [x] = [[x]]"
| "runs R (x # y # xs) = (if R x y then (x # hd (runs R (y # xs))) # tl (runs R (y # xs)) else [x] # runs R (y # xs))"

definition run_entry :: "'c parsed_segment list \<Rightarrow> list_entry" where
  "run_entry run = \<lparr>le_Start = pg_start (hd run), le_Duration = pg_start (last run) + pg_duration (last run) - pg_start (hd run)\<rparr>"

text \<open>The distances between the segments are durations that can be represented.\<close>

definition near :: "'c parsed_segment list \<Rightarrow> bool" where
  "near ps \<longleftrightarrow> (\<forall>a\<in>set ps. \<forall>b\<in>set ps. fits64 (pg_start b + pg_duration b - pg_start a))"

lemma time_Sub_fits: "fits64 (a - b) \<Longrightarrow> time_Sub a b = a - b"
  by (auto simp: time_Sub_def fits64_def)

lemma runs_Cons: "runs R (y # ys) \<noteq> [] \<and> hd (runs R (y # ys)) \<noteq> [] \<and> hd (hd (runs R (y # ys))) = y"
  by (induction R "y # ys" arbitrary: y ys rule: runs.induct) auto

lemma runs_concat: "concat (runs R xs) = xs"
proof (induction R xs rule: runs.induct)
  case (3 R x y xs)
  then show ?case using runs_Cons [of R y xs] by (cases "runs R (y # xs)") auto
qed simp_all

lemma near_subset: "near ps \<Longrightarrow> set qs \<subseteq> set ps \<Longrightarrow> near qs"
  by (auto simp: near_def)

lemma hd_run: "run_entry (hd (runs R (p # ps))) =
    \<lparr>le_Start = pg_start p, le_Duration =
       pg_start (last (hd (runs R (p # ps)))) + pg_duration (last (hd (runs R (p # ps)))) - pg_start p\<rparr>"
  by (simp add: run_entry_def runs_Cons)

text \<open>The loop, from a run that is open: its first segment and its last.\<close>

lemma concatenate_loop:
  "near (a # z # ps) \<Longrightarrow>
    fst (fold concatenate_step ps
      (es @ [\<lparr>le_Start = pg_start a, le_Duration = pg_start z + pg_duration z - pg_start a\<rparr>], Some (pg_init z))) =
    es @ \<lparr>le_Start = pg_start a, le_Duration =
        pg_start (last (hd (runs continues (z # ps)))) + pg_duration (last (hd (runs continues (z # ps)))) - pg_start a\<rparr>
      # map run_entry (tl (runs continues (z # ps)))"
proof (induction ps arbitrary: a z es)
  case (Cons p ps)
  let ?out = "es @ [\<lparr>le_Start = pg_start a, le_Duration = pg_start z + pg_duration z - pg_start a\<rparr>]"
  note R = runs_Cons [of continues p ps]
  show ?case
  proof (cases "continues z p")
    case True
    have "time_Sub (pg_start p + pg_duration p) (pg_start a) = pg_start p + pg_duration p - pg_start a"
      using Cons.prems by (intro time_Sub_fits) (simp add: near_def)
    with True have "concatenate_step p (?out, Some (pg_init z)) =
        (es @ [\<lparr>le_Start = pg_start a, le_Duration = pg_start p + pg_duration p - pg_start a\<rparr>], Some (pg_init p))"
      by (simp add: concatenate_step_def Let_def continues_def)
    with Cons.IH [of a p es] near_subset [OF Cons.prems, of "a # p # ps"] True R show ?thesis by auto
  next
    case False
    then have "concatenate_step p (?out, Some (pg_init z)) =
        (?out @ [\<lparr>le_Start = pg_start p, le_Duration = pg_start p + pg_duration p - pg_start p\<rparr>], Some (pg_init p))"
      by (simp add: concatenate_step_def Let_def continues_def)
    moreover have "map run_entry (runs continues (p # ps)) = run_entry (hd (runs continues (p # ps))) # map run_entry (tl (runs continues (p # ps)))"
      using R by (cases "runs continues (p # ps)") auto
    ultimately show ?thesis
      using Cons.IH [of p p ?out] near_subset [OF Cons.prems, of "p # p # ps"] False hd_run [of continues p ps] by auto
  qed
qed simp

lemma concatenateSegments_runs:
  assumes "near ps"
  shows "concatenateSegments ps = map run_entry (runs continues ps)"
proof (cases ps)
  case (Cons p qs)
  have "near (p # p # qs)" by (rule near_subset [OF assms]) (simp add: Cons)
  from concatenate_loop [OF this, of "[]"] have "concatenateSegments ps =
      run_entry (hd (runs continues ps)) # map run_entry (tl (runs continues ps))"
    by (simp add: concatenateSegments_def Cons concatenate_step_def hd_run)
  with runs_Cons [of continues p qs] show ?thesis by (cases "runs continues ps") (auto simp: Cons)
qed (simp add: concatenateSegments_def)

section \<open>Durations and starts\<close>

lemma read_header_duration:
  assumes "read_header pe file = Inr (init, d)"
  shows "0 \<le> d"
proof -
  have bind: "\<exists>v f'. x f = (Inr v, f') \<and> k v f' = (Inr w, g)" if "rbind x k f = (Inr w, g)" for x :: "'x reader" and k :: "'x \<Rightarrow> 'y reader" and f w g
    using that by (auto simp: rbind_def bindS_Inr)
  have "\<exists>f. segmentFMP4ReadHeader (pe_lib pe) \<lparr>sk_data = file, sk_pos = 0\<rparr> = (Inr (init, d), f)"
    using assms unfolding read_header_def by (metis prod.collapse)
  then obtain durationV0 timescale :: u32 where "div64 (int64 (uint durationV0 * second)) (uint timescale) = Inr d"
    unfolding segmentFMP4ReadHeader_def
    by (auto dest!: bind simp: Let_def rret_def lift_result_def split: prod.splits)
  moreover have "fits64 (uint durationV0 * second)" using uint_lt2p [of durationV0] uint_ge_0 [of durationV0] by (intro abs_fits) simp
  ultimately show ?thesis
    using go_div_between(1) [of "uint timescale" "uint durationV0 * second"]
    by (auto simp: div64_def uint_0_iff less_le split: if_splits)
qed

lemma traf_loop_max: "traf_loop lib init m f = Inr d \<Longrightarrow> m \<le> d"
proof (induction lib init m f rule: traf_loop.induct)
  case (1 lib init m f)
  show ?case
  proof (cases "read_traf lib init f")
    case (Pair r f')
    show ?thesis
    proof (cases r)
      case (Inr v)
      with Pair 1 show ?thesis by (cases v) (force simp: traf_loop.simps [of lib init m f] split: if_splits)+
    qed (use Pair 1 in \<open>simp add: traf_loop.simps [of lib init m f]\<close>)
  qed
qed

lemma parts_duration:
  assumes "segmentFMP4ReadDurationFromParts lib init f = Inr d"
  shows "0 \<le> d"
proof -
  have bind: "\<exists>v f'. x f = (Inr v, f') \<and> fst (k v f') = Inr w" if "fst (rbind x k f) = Inr w" for x :: "'x reader" and k :: "'x \<Rightarrow> 'y reader" and f w
    using that unfolding rbind_def by (cases "x f"; cases "fst (x f)") auto
  obtain f' where "traf_loop lib init 0 f' = Inr d"
    using assms unfolding segmentFMP4ReadDurationFromParts_def
    by (auto dest!: bind simp: rfail_def split: option.splits)
  then show ?thesis by (rule traf_loop_max)
qed

lemma parseSegment_Inr:
  assumes "parseSegment pe seg = Inr p"
  shows "pg_start p = sg_Start seg" "0 \<le> pg_duration p"
proof -
  obtain dat init d where f: "pe_open pe (sg_Fpath seg) = Inr dat" "read_header pe dat = Inr (init, d)"
    using assms by (auto simp: parseSegment_def bindE_eq_Inr)
  obtain d' where d': "(if d = 0 then segmentFMP4ReadDurationFromParts (pe_lib pe) init \<lparr>sk_data = dat, sk_pos = 0\<rparr> else Inr d) = Inr d'"
    "p = \<lparr>pg_start = sg_Start seg, pg_init = init, pg_duration = d'\<rparr>"
    using assms f by (auto simp: parseSegment_def bindE_eq_Inr)
  then show "pg_start p = sg_Start seg" "0 \<le> pg_duration p"
    using read_header_duration [OF f(2)] parts_duration by (auto split: if_splits)
qed

lemma last_error: "fold (\<lambda>err2 err. if err2 \<noteq> None then err2 else err) errs e = None \<longleftrightarrow> e = None \<and> (\<forall>x\<in>set errs. x = None)"
  by (induction errs arbitrary: e) auto

lemma parseSegments_Inr:
  assumes "\<And>errs. mset (arrival errs) = mset errs" "parseSegments pe arrival segments = Inr ps"
  shows "list_all2 (\<lambda>seg p. parseSegment pe seg = Inr p) segments ps"
proof -
  let ?rs = "map (parseSegment pe) segments"
  let ?err = "\<lambda>r :: 'a parsed_segment result. case r of Inl e \<Rightarrow> Some e | Inr _ \<Rightarrow> None"
  have "set (arrival (map ?err ?rs)) = set (map ?err ?rs)" using assms(1) by (metis set_mset_mset)
  moreover have "fold (\<lambda>err2 err. if err2 \<noteq> None then err2 else err) (arrival (map ?err ?rs)) None = None"
    and ps: "ps = List.map_filter (\<lambda>r. case r of Inl _ \<Rightarrow> None | Inr p \<Rightarrow> Some p) ?rs"
    using assms(2) by (auto simp: parseSegments_def Let_def split: if_splits option.splits)
  ultimately have "\<forall>seg\<in>set segments. \<forall>e. parseSegment pe seg \<noteq> Inl e"
    unfolding last_error by (auto split: sum.splits)
  then have "\<forall>seg\<in>set segments. \<exists>p. parseSegment pe seg = Inr p" by (meson sumE)
  then show ?thesis unfolding ps
  proof (induction segments)
    case (Cons seg segments)
    then obtain p where "parseSegment pe seg = Inr p" by auto
    with Cons show ?case by (simp add: map_filter_simps)
  qed (simp add: map_filter_simps)
qed

text \<open>What the entries of sorted segments are like.\<close>

lemma concatenate_invariant:
  assumes "sorted (map pg_start ps)" "\<forall>p\<in>set ps. 0 \<le> pg_duration p" "ps \<noteq> []"
  shows "concatenateSegments ps \<noteq> [] \<and> le_Start (hd (concatenateSegments ps)) = pg_start (hd ps) \<and>
    (\<forall>x\<in>set (tl (concatenateSegments ps)). le_Start x \<in> pg_start ` set (tl ps)) \<and>
    (\<forall>x\<in>set (concatenateSegments ps). 0 \<le> le_Duration x)"
  using assms
proof (induction ps rule: rev_induct)
  case (snoc p ps)
  show ?case
  proof (cases "ps = []")
    case True
    with snoc.prems show ?thesis by (simp add: concatenateSegments_def concatenate_step_def)
  next
    case False
    obtain out prev where fold: "fold concatenate_step ps ([], None) = (out, prev)" by force
    then have out: "concatenateSegments ps = out" by (simp add: concatenateSegments_def)
    have IH: "out \<noteq> []" "le_Start (hd out) = pg_start (hd ps)" "\<forall>x\<in>set (tl out). le_Start x \<in> pg_start ` set (tl ps)"
      "\<forall>x\<in>set out. 0 \<le> le_Duration x"
      using snoc False by (simp_all add: sorted_append out)
    have before: "le_Start x \<le> pg_start p" if "x \<in> set out" for x
    proof -
      have "le_Start x \<in> pg_start ` set ps"
        using that IH(1-3) False by (cases out; cases ps) auto
      with snoc.prems(1) show ?thesis by (auto simp: sorted_append)
    qed
    obtain es x where es: "out = es @ [x]" using IH(1) by (cases out rule: rev_cases) auto
    define d where "d = time_Sub (pg_start p + pg_duration p) (le_Start x)"
    have d: "0 \<le> d" "0 \<le> pg_duration p" using before [of x] snoc.prems(2) by (auto simp: d_def time_Sub_def es)
    have "concatenateSegments (ps @ [p]) = fst (concatenate_step p (out, prev))"
      by (simp add: concatenateSegments_def fold)
    then consider "concatenateSegments (ps @ [p]) = (es @ [x]) @ [\<lparr>le_Start = pg_start p, le_Duration = pg_duration p\<rparr>]"
      | "concatenateSegments (ps @ [p]) = es @ [x\<lparr>le_Duration := d\<rparr>]"
      unfolding concatenate_step_def by (simp add: es d_def Let_def split: if_splits)
    then show ?thesis
    proof cases
      case 1
      with IH False d(2) show ?thesis unfolding es by (cases es; cases ps) auto
    next
      case 2
      with IH False d(1) show ?thesis unfolding es by (cases es; cases ps) auto
    qed
  qed
qed simp

section \<open>Properties\<close>

text \<open>
  The list of recorded ranges. The entries are, in order, the longest runs of segments each of which continues the
  previous one, with the same tracks and at most half a second apart; each entry starts with the first segment of its
  run and ends with the last, and no segment is left out.
\<close>

theorem listed_ranges_are_runs:
  assumes "near ps"
  shows "concatenateSegments ps = map run_entry (runs continues ps) \<and> concat (runs continues ps) = ps"
  using concatenateSegments_runs [OF assms] runs_concat by blast

definition sample_segment :: "instant \<Rightarrow> duration \<Rightarrow> unit parsed_segment" where
  "sample_segment start dur = \<lparr>pg_start = start, pg_init = sample_tracks, pg_duration = dur\<rparr>"

lemma listed_ranges_are_runs_witness:
  "concatenateSegments [sample_segment 0 1000000000, sample_segment 1200000000 800000000, sample_segment 9000000000 1000000000] =
    map run_entry (runs continues [sample_segment 0 1000000000, sample_segment 1200000000 800000000, sample_segment 9000000000 1000000000]) \<and>
   concat (runs continues [sample_segment 0 1000000000, sample_segment 1200000000 800000000, sample_segment 9000000000 1000000000]) =
    [sample_segment 0 1000000000, sample_segment 1200000000 800000000, sample_segment 9000000000 1000000000]"
  by (rule listed_ranges_are_runs) (simp add: near_def sample_segment_def fits64_def)

text \<open>Cutting the entries to a range that is not backwards.\<close>

lemma cut_start_range:
  assumes "cut_start s es = Inr es'" "\<forall>x\<in>set (tl es). s \<le> le_Start x" "\<forall>x\<in>set es. 0 \<le> le_Duration x \<and> le_Start x \<le> e" "s \<le> e"
  shows "es' \<noteq> [] \<and> (\<forall>x\<in>set es'. s \<le> le_Start x \<and> le_Start x \<le> e \<and> 0 \<le> le_Duration x)"
proof -
  obtain x rest where es: "es = x # rest" using assms(1) by (cases es) (auto simp: cut_start_def)
  consider (gone) "le_Start x + le_Duration x < s" | (cut) "s \<le> le_Start x + le_Duration x" "le_Start x < s"
    | (whole) "s \<le> le_Start x" by linarith
  then show ?thesis
  proof cases
    case gone
    with assms es show ?thesis by (auto simp: cut_start_def split: if_splits)
  next
    case cut
    then have "0 \<le> le_Duration x - time_Sub s (le_Start x)" by (auto simp: time_Sub_def)
    with cut assms es show ?thesis by (auto simp: cut_start_def split: if_splits)
  next
    case whole
    with assms es have "\<not> le_Start x + le_Duration x < s" by auto
    with whole assms es show ?thesis by (auto simp: cut_start_def)
  qed
qed

lemma cut_end_range:
  assumes "cut_end e es = Inr es'" "\<forall>x\<in>set es. s \<le> le_Start x \<and> le_Start x \<le> e \<and> 0 \<le> le_Duration x"
  shows "es' \<noteq> [] \<and> (\<forall>x\<in>set es'. s \<le> le_Start x \<and> le_Start x \<le> e \<and> 0 \<le> le_Duration x) \<and>
    le_Start (last es') + le_Duration (last es') \<le> e"
proof -
  obtain xs x where es: "es = xs @ [x]" using assms(1) by (cases es rule: rev_cases) (auto simp: cut_end_def)
  have "0 \<le> time_Sub e (le_Start x)" "le_Start x + time_Sub e (le_Start x) \<le> e"
    using assms(2) es by (auto simp: time_Sub_def)
  with assms es show ?thesis by (auto simp: cut_end_def Let_def split: if_splits)
qed

lemma segments_until_end: "g \<in> set (segments_until store c nm (Some e)) \<Longrightarrow> sg_Start g \<le> e"
  by (simp add: segments_until_def ends_after_def)

lemma found_entries:
  assumes "from_start (Some s) (segments_until store c nm (Some e)) segs" "\<And>errs. mset (arrival errs) = mset errs"
    "parseAndConcatenate pe arrival fmt segs = Inr entries" "s \<le> e"
  shows "(\<forall>x\<in>set (tl entries). s \<le> le_Start x) \<and> (\<forall>x\<in>set entries. 0 \<le> le_Duration x \<and> le_Start x \<le> e)"
proof -
  obtain ps where ps: "parseSegments pe arrival segs = Inr ps" "entries = concatenateSegments ps"
    using assms(3) by (auto simp: parseAndConcatenate_def bindE_eq_Inr split: record_format.splits)
  note all = parseSegments_Inr [OF assms(2) ps(1)]
  have starts: "map pg_start ps = map sg_Start segs" and durs: "\<forall>p\<in>set ps. 0 \<le> pg_duration p"
    using all by (induction rule: list_all2_induct) (auto dest: parseSegment_Inr)
  have segs: "segs \<noteq> []" "sorted (map sg_Start segs)" "\<forall>g\<in>set (tl segs). s < sg_Start g"
    using assms(1) by (auto simp: from_start_def)
  have "set segs \<subseteq> set (segments_until store c nm (Some e))"
    using assms(1) unfolding from_start_def by (metis mset_subset_eq_add_right set_mset_mono set_mset_mset)
  with segments_until_end have bound: "\<forall>g\<in>set segs. sg_Start g \<le> e" by blast
  have "ps \<noteq> []" "sorted (map pg_start ps)" using segs starts by auto
  note inv = concatenate_invariant [OF this(2) durs this(1), folded ps(2)]
  have tl: "pg_start ` set (tl ps) = sg_Start ` set (tl segs)" using starts by (metis list.set_map map_tl)
  have "pg_start ` set ps = sg_Start ` set segs" using starts by (metis list.set_map)
  moreover have "le_Start x \<in> pg_start ` set ps" if "x \<in> set entries" for x
    using that inv \<open>ps \<noteq> []\<close> by (cases entries; cases ps) auto
  ultimately have any: "le_Start x \<in> sg_Start ` set segs" if "x \<in> set entries" for x using that by blast
  have rest: "le_Start x \<in> sg_Start ` set (tl segs)" if "x \<in> set (tl entries)" for x using inv that unfolding tl by blast
  show ?thesis
  proof (intro conjI ballI)
    fix x
    show "x \<in> set (tl entries) \<Longrightarrow> s \<le> le_Start x" using rest [of x] segs(3) by force
    show "x \<in> set entries \<Longrightarrow> 0 \<le> le_Duration x" using inv by blast
    show "x \<in> set entries \<Longrightarrow> le_Start x \<le> e" using any [of x] bound by force
  qed
qed

lemma onList_Reply:
  assumes "onList sv host q = Reply entries" "query_time sv q ''start'' = Inr start" "query_time sv q ''end'' = Inr until"
  shows "\<exists>pathConf segs es es'. safeFindPathConf sv (values_get q ''path'') = Inr pathConf \<and>
    FindSegments (sv_store sv) pathConf (values_get q ''path'') start until = Inr segs \<and>
    parseAndConcatenate (sv_play sv) (sv_arrival sv) (RecordFormat pathConf) segs = Inr es \<and>
    cut_entries start until es = Inr es' \<and> entries = map (\<lambda>e. (e, entry_url sv host (values_get q ''path'') e)) es'"
  using assms by (auto simp: onList_def Let_def fail_def split: if_splits sum.splits)

text \<open>
  The list stays in the range that was asked for. When the query has a start and an end that is not before it, the
  reply is an error or a list that is not empty, in which every entry starts in the range, no duration is negative,
  and the last entry ends by the end.
\<close>

theorem listed_ranges_in_query:
  assumes "sorts (sv_store sv)" "\<And>errs. mset (sv_arrival sv errs) = mset errs"
    "query_time sv q ''start'' = Inr (Some s)" "query_time sv q ''end'' = Inr (Some e)" "s \<le> e"
    "onList sv host q = Reply entries"
  shows "entries \<noteq> [] \<and> (\<forall>x\<in>fst ` set entries. s \<le> le_Start x \<and> le_Start x \<le> e \<and> 0 \<le> le_Duration x) \<and>
    le_Start (fst (last entries)) + le_Duration (fst (last entries)) \<le> e"
proof -
  obtain c segs es es' where r: "FindSegments (sv_store sv) c (values_get q ''path'') (Some s) (Some e) = Inr segs"
    "parseAndConcatenate (sv_play sv) (sv_arrival sv) (RecordFormat c) segs = Inr es" "cut_entries (Some s) (Some e) es = Inr es'"
    "entries = map (\<lambda>e. (e, entry_url sv host (values_get q ''path'') e)) es'"
    using onList_Reply [OF assms(6,3,4)] by blast
  have "from_start (Some s) (segments_until (sv_store sv) c (values_get q ''path'') (Some e)) segs"
    using FindSegments_result [OF assms(1) r(1)] .
  note found = found_entries [OF this assms(2) r(2) assms(5)]
  obtain es1 where cut: "cut_start s es = Inr es1" "cut_end e es1 = Inr es'"
    using r(3) by (auto simp: cut_entries_def bindE_eq_Inr)
  note 1 = cut_start_range [OF cut(1) conjunct1 [OF found] conjunct2 [OF found] assms(5)]
  from cut_end_range [OF cut(2) conjunct2 [OF 1]] show ?thesis
    by (auto simp: r(4) last_map)
qed

definition sample_server :: "unit server_env" where
  "sample_server =
     \<lparr>sv_auth = (\<lambda>_. True), sv_PathConfs = [(''cam'', store_conf)], sv_conf = sample_env, sv_store = store_sample,
      sv_play = sample_play\<lparr>pe_open := (\<lambda>_. Inr sample_file)\<rparr>, sv_arrival = (\<lambda>errs. errs),
      sv_ParseTime = (\<lambda>t. Inr (if t = ''2024-01-01T00:00:02Z'' then 1704067202000000000 else 1704070803000000000)),
      sv_FormatTime = (\<lambda>_. ''2024-01-01T00:00:02Z''), sv_FormatSeconds = (\<lambda>_. ''3''),
      sv_ParseDuration = (\<lambda>_. Inr (3 * second)), sv_Encryption = False, sv_IsNetError = (\<lambda>_. False)\<rparr>"

definition sample_query :: url_values where
  "sample_query = [(''path'', [''cam'']), (''start'', [''2024-01-01T00:00:02Z'']), (''end'', [''2024-01-01T01:00:03Z''])]"

definition reply_entries :: "(list_entry \<times> string) list reply \<Rightarrow> (list_entry \<times> string) list option" where
  "reply_entries r = (case r of Reply es \<Rightarrow> Some es | _ \<Rightarrow> None)"

lemma sample_reply: "map_option (map fst) (reply_entries (onList sample_server ''host'' sample_query)) =
    Some [\<lparr>le_Start = 1704067202000000000, le_Duration = 3000000000\<rparr>, \<lparr>le_Start = 1704070800000000000, le_Duration = 3000000000\<rparr>]"
  by code_simp

lemma listed_ranges_in_query_witness:
  "\<exists>entries. onList sample_server ''host'' sample_query = Reply entries \<and> length entries = 2 \<and>
    (\<forall>x\<in>fst ` set entries. 1704067202000000000 \<le> le_Start x \<and> le_Start x \<le> 1704070803000000000 \<and> 0 \<le> le_Duration x)"
proof -
  obtain entries where r: "onList sample_server ''host'' sample_query = Reply entries" "length entries = 2"
    using sample_reply by (auto simp: reply_entries_def split: reply.splits dest: arg_cong [where f = length])
  have "query_time sample_server sample_query ''start'' = Inr (Some 1704067202000000000)"
    "query_time sample_server sample_query ''end'' = Inr (Some 1704070803000000000)" by code_simp+
  from listed_ranges_in_query [OF _ _ this _ r(1)] store_sample_sorts r show ?thesis
    by (auto simp: sample_server_def)
qed

text \<open>
  A query whose end is before its start is not refused: the last entry is given a negative duration.
\<close>

lemma backwards_query_negative:
  "cut_entries (Some 5000000000) (Some 3000000000) [\<lparr>le_Start = 0, le_Duration = 10000000000\<rparr>] =
    Inr [\<lparr>le_Start = 5000000000, le_Duration = - 2000000000\<rparr>]"
  by code_simp

text \<open>The URL of an entry carries its path, start and duration to the request for the recording.\<close>

lemma entry_query_values:
  "values_of (fst (ParseQuery (entry_query sv nm e))) ''path'' = [nm]"
  "values_of (fst (ParseQuery (entry_query sv nm e))) ''start'' = [sv_FormatTime sv (le_Start e)]"
  "values_of (fst (ParseQuery (entry_query sv nm e))) ''duration'' = [sv_FormatSeconds sv (le_Duration e)]"
  unfolding entry_query_def Encode_values values_of_add by (simp_all add: values_of_def)

end
