(* ===== verification/OptionalConf.thy ===== *)
theory OptionalConf
  imports PathConf
begin

text \<open>
  Configurations of paths whose values are optional (internal/conf/optional_path.go), and the copying of their fields
  (\<open>copyStructFields\<close> of internal/conf/conf.go), which the source does by reflection: a field of the source that is a nil
  pointer is skipped, any other is assigned to the field of the same name.

  \<open>optionalPathValuesType\<close> is \<open>Path\<close> with a pointer in place of every field, but for those that are pointers
  already, and without the fields that have no JSON form: a nil pointer is \<open>None\<close>. The fields of the camera and the deprecated ones
  are records of their own, as in \<open>PathConf\<close>.
\<close>

section \<open>Optional values\<close>

record optional_camera =
  oRPICameraCamID :: "u64 option"
  oRPICameraWidth :: "u64 option"
  oRPICameraHeight :: "u64 option"
  oRPICameraHFlip :: "bool option"
  oRPICameraVFlip :: "bool option"
  oRPICameraBrightness :: "u64 option"
  oRPICameraContrast :: "u64 option"
  oRPICameraSaturation :: "u64 option"
  oRPICameraSharpness :: "u64 option"
  oRPICameraExposure :: "string option"
  oRPICameraAWB :: "string option"
  oRPICameraAWBGains :: "u64 list option"
  oRPICameraDenoise :: "string option"
  oRPICameraShutter :: "u64 option"
  oRPICameraMetering :: "string option"
  oRPICameraGain :: "u64 option"
  oRPICameraEV :: "u64 option"
  oRPICameraROI :: "string option"
  oRPICameraHDR :: "bool option"
  oRPICameraTuningFile :: "string option"
  oRPICameraMode :: "string option"
  oRPICameraFPS :: "u64 option"
  oRPICameraAfMode :: "string option"
  oRPICameraAfRange :: "string option"
  oRPICameraAfSpeed :: "string option"
  oRPICameraLensPosition :: "u64 option"
  oRPICameraAfWindow :: "string option"
  oRPICameraFlickerPeriod :: "u64 option"
  oRPICameraTextOverlayEnable :: "bool option"
  oRPICameraTextOverlay :: "string option"
  oRPICameraCodec :: "string option"
  oRPICameraIDRPeriod :: "u64 option"
  oRPICameraBitrate :: "u64 option"
  oRPICameraProfile :: "string option"
  oRPICameraLevel :: "string option"

record optional_path =
  oName :: "string option"
  oSource :: "string option"
  oSourceFingerprint :: "string option"
  oSourceOnDemand :: "bool option"
  oSourceOnDemandStartTimeout :: "duration option"
  oSourceOnDemandCloseAfter :: "duration option"
  oMaxReaders :: "int option"
  oSRTReadPassphrase :: "string option"
  oFallback :: "string option"
  oRecord :: "bool option"
  oRecordPath :: "string option"
  oRecordFormat :: "record_format option"
  oRecordPartDuration :: "duration option"
  oRecordSegmentDuration :: "duration option"
  oRecordDeleteAfter :: "duration option"
  oOverridePublisher :: "bool option"
  oSRTPublishPassphrase :: "string option"
  oRTSPTransport :: "rtsp_transport option"
  oRTSPAnyPort :: "bool option"
  oRTSPRangeType :: "rtsp_range_type option"
  oRTSPRangeStart :: "string option"
  oSourceRedirect :: "string option"
  oRunOnInit :: "string option"
  oRunOnInitRestart :: "bool option"
  oRunOnDemand :: "string option"
  oRunOnDemandRestart :: "bool option"
  oRunOnDemandStartTimeout :: "duration option"
  oRunOnDemandCloseAfter :: "duration option"
  oRunOnUnDemand :: "string option"
  oRunOnReady :: "string option"
  oRunOnReadyRestart :: "bool option"
  oRunOnNotReady :: "string option"
  oRunOnRead :: "string option"
  oRunOnReadRestart :: "bool option"
  oRunOnUnread :: "string option"
  oRunOnRecordSegmentCreate :: "string option"
  oRunOnRecordSegmentComplete :: "string option"
  oRPICamera :: optional_camera
  oDeprecated :: deprecated_conf

definition no_camera :: optional_camera where
  "no_camera =
     \<lparr>oRPICameraCamID = None, oRPICameraWidth = None, oRPICameraHeight = None, oRPICameraHFlip = None,
      oRPICameraVFlip = None, oRPICameraBrightness = None, oRPICameraContrast = None,
      oRPICameraSaturation = None, oRPICameraSharpness = None, oRPICameraExposure = None, oRPICameraAWB = None,
      oRPICameraAWBGains = None, oRPICameraDenoise = None, oRPICameraShutter = None, oRPICameraMetering = None,
      oRPICameraGain = None, oRPICameraEV = None, oRPICameraROI = None, oRPICameraHDR = None,
      oRPICameraTuningFile = None, oRPICameraMode = None, oRPICameraFPS = None, oRPICameraAfMode = None,
      oRPICameraAfRange = None, oRPICameraAfSpeed = None, oRPICameraLensPosition = None,
      oRPICameraAfWindow = None, oRPICameraFlickerPeriod = None, oRPICameraTextOverlayEnable = None,
      oRPICameraTextOverlay = None, oRPICameraCodec = None, oRPICameraIDRPeriod = None,
      oRPICameraBitrate = None, oRPICameraProfile = None, oRPICameraLevel = None\<rparr>"

definition newOptionalPathValues :: optional_path where
  "newOptionalPathValues =
     \<lparr>oName = None, oSource = None, oSourceFingerprint = None, oSourceOnDemand = None,
      oSourceOnDemandStartTimeout = None, oSourceOnDemandCloseAfter = None, oMaxReaders = None,
      oSRTReadPassphrase = None, oFallback = None, oRecord = None, oRecordPath = None, oRecordFormat = None,
      oRecordPartDuration = None, oRecordSegmentDuration = None, oRecordDeleteAfter = None,
      oOverridePublisher = None, oSRTPublishPassphrase = None, oRTSPTransport = None, oRTSPAnyPort = None,
      oRTSPRangeType = None, oRTSPRangeStart = None, oSourceRedirect = None, oRunOnInit = None,
      oRunOnInitRestart = None, oRunOnDemand = None, oRunOnDemandRestart = None,
      oRunOnDemandStartTimeout = None, oRunOnDemandCloseAfter = None, oRunOnUnDemand = None,
      oRunOnReady = None, oRunOnReadyRestart = None, oRunOnNotReady = None, oRunOnRead = None,
      oRunOnReadRestart = None, oRunOnUnread = None, oRunOnRecordSegmentCreate = None,
      oRunOnRecordSegmentComplete = None, oRPICamera = no_camera, oDeprecated = no_deprecated\<rparr>"

section \<open>Copying\<close>

text \<open>A field that is not a pointer takes the value that is pointed to; one that is a pointer takes the pointer.\<close>

definition set_value :: "'a option \<Rightarrow> 'a \<Rightarrow> 'a" where
  "set_value new old = (case new of Some v \<Rightarrow> v | None \<Rightarrow> old)"

definition set_pointer :: "'a option \<Rightarrow> 'a option \<Rightarrow> 'a option" where
  "set_pointer new old = (case new of Some v \<Rightarrow> Some v | None \<Rightarrow> old)"

definition copy_camera :: "optional_camera \<Rightarrow> rpi_camera \<Rightarrow> rpi_camera" where
  "copy_camera p c =
     \<lparr>RPICameraCamID = set_value (oRPICameraCamID p) (RPICameraCamID c),
      RPICameraWidth = set_value (oRPICameraWidth p) (RPICameraWidth c),
      RPICameraHeight = set_value (oRPICameraHeight p) (RPICameraHeight c),
      RPICameraHFlip = set_value (oRPICameraHFlip p) (RPICameraHFlip c),
      RPICameraVFlip = set_value (oRPICameraVFlip p) (RPICameraVFlip c),
      RPICameraBrightness = set_value (oRPICameraBrightness p) (RPICameraBrightness c),
      RPICameraContrast = set_value (oRPICameraContrast p) (RPICameraContrast c),
      RPICameraSaturation = set_value (oRPICameraSaturation p) (RPICameraSaturation c),
      RPICameraSharpness = set_value (oRPICameraSharpness p) (RPICameraSharpness c),
      RPICameraExposure = set_value (oRPICameraExposure p) (RPICameraExposure c),
      RPICameraAWB = set_value (oRPICameraAWB p) (RPICameraAWB c),
      RPICameraAWBGains = set_value (oRPICameraAWBGains p) (RPICameraAWBGains c),
      RPICameraDenoise = set_value (oRPICameraDenoise p) (RPICameraDenoise c),
      RPICameraShutter = set_value (oRPICameraShutter p) (RPICameraShutter c),
      RPICameraMetering = set_value (oRPICameraMetering p) (RPICameraMetering c),
      RPICameraGain = set_value (oRPICameraGain p) (RPICameraGain c),
      RPICameraEV = set_value (oRPICameraEV p) (RPICameraEV c),
      RPICameraROI = set_value (oRPICameraROI p) (RPICameraROI c),
      RPICameraHDR = set_value (oRPICameraHDR p) (RPICameraHDR c),
      RPICameraTuningFile = set_value (oRPICameraTuningFile p) (RPICameraTuningFile c),
      RPICameraMode = set_value (oRPICameraMode p) (RPICameraMode c),
      RPICameraFPS = set_value (oRPICameraFPS p) (RPICameraFPS c),
      RPICameraAfMode = set_value (oRPICameraAfMode p) (RPICameraAfMode c),
      RPICameraAfRange = set_value (oRPICameraAfRange p) (RPICameraAfRange c),
      RPICameraAfSpeed = set_value (oRPICameraAfSpeed p) (RPICameraAfSpeed c),
      RPICameraLensPosition = set_value (oRPICameraLensPosition p) (RPICameraLensPosition c),
      RPICameraAfWindow = set_value (oRPICameraAfWindow p) (RPICameraAfWindow c),
      RPICameraFlickerPeriod = set_value (oRPICameraFlickerPeriod p) (RPICameraFlickerPeriod c),
      RPICameraTextOverlayEnable = set_value (oRPICameraTextOverlayEnable p) (RPICameraTextOverlayEnable c),
      RPICameraTextOverlay = set_value (oRPICameraTextOverlay p) (RPICameraTextOverlay c),
      RPICameraCodec = set_value (oRPICameraCodec p) (RPICameraCodec c),
      RPICameraIDRPeriod = set_value (oRPICameraIDRPeriod p) (RPICameraIDRPeriod c),
      RPICameraBitrate = set_value (oRPICameraBitrate p) (RPICameraBitrate c),
      RPICameraProfile = set_value (oRPICameraProfile p) (RPICameraProfile c),
      RPICameraLevel = set_value (oRPICameraLevel p) (RPICameraLevel c)\<rparr>"

definition copy_deprecated :: "deprecated_conf \<Rightarrow> deprecated_conf \<Rightarrow> deprecated_conf" where
  "copy_deprecated p c =
     \<lparr>Playback = set_pointer (Playback p) (Playback c),
      PublishUser = set_pointer (PublishUser p) (PublishUser c),
      PublishPass = set_pointer (PublishPass p) (PublishPass c),
      PublishIPs = set_pointer (PublishIPs p) (PublishIPs c), ReadUser = set_pointer (ReadUser p) (ReadUser c),
      ReadPass = set_pointer (ReadPass p) (ReadPass c), ReadIPs = set_pointer (ReadIPs p) (ReadIPs c),
      DisablePublisherOverride = set_pointer (DisablePublisherOverride p) (DisablePublisherOverride c),
      SourceProtocol = set_pointer (SourceProtocol p) (SourceProtocol c),
      SourceAnyPortEnable = set_pointer (SourceAnyPortEnable p) (SourceAnyPortEnable c)\<rparr>"

definition copy_path :: "optional_path \<Rightarrow> path_conf \<Rightarrow> path_conf" where
  "copy_path p c = c
     \<lparr>Name := set_value (oName p) (Name c), Source := set_value (oSource p) (Source c),
      SourceFingerprint := set_value (oSourceFingerprint p) (SourceFingerprint c),
      SourceOnDemand := set_value (oSourceOnDemand p) (SourceOnDemand c),
      SourceOnDemandStartTimeout := set_value (oSourceOnDemandStartTimeout p) (SourceOnDemandStartTimeout c),
      SourceOnDemandCloseAfter := set_value (oSourceOnDemandCloseAfter p) (SourceOnDemandCloseAfter c),
      MaxReaders := set_value (oMaxReaders p) (MaxReaders c),
      SRTReadPassphrase := set_value (oSRTReadPassphrase p) (SRTReadPassphrase c),
      Fallback := set_value (oFallback p) (Fallback c), Record := set_value (oRecord p) (Record c),
      RecordPath := set_value (oRecordPath p) (RecordPath c),
      RecordFormat := set_value (oRecordFormat p) (RecordFormat c),
      RecordPartDuration := set_value (oRecordPartDuration p) (RecordPartDuration c),
      RecordSegmentDuration := set_value (oRecordSegmentDuration p) (RecordSegmentDuration c),
      RecordDeleteAfter := set_value (oRecordDeleteAfter p) (RecordDeleteAfter c),
      OverridePublisher := set_value (oOverridePublisher p) (OverridePublisher c),
      SRTPublishPassphrase := set_value (oSRTPublishPassphrase p) (SRTPublishPassphrase c),
      RTSPTransport := set_value (oRTSPTransport p) (RTSPTransport c),
      RTSPAnyPort := set_value (oRTSPAnyPort p) (RTSPAnyPort c),
      RTSPRangeType := set_value (oRTSPRangeType p) (RTSPRangeType c),
      RTSPRangeStart := set_value (oRTSPRangeStart p) (RTSPRangeStart c),
      SourceRedirect := set_value (oSourceRedirect p) (SourceRedirect c),
      RunOnInit := set_value (oRunOnInit p) (RunOnInit c),
      RunOnInitRestart := set_value (oRunOnInitRestart p) (RunOnInitRestart c),
      RunOnDemand := set_value (oRunOnDemand p) (RunOnDemand c),
      RunOnDemandRestart := set_value (oRunOnDemandRestart p) (RunOnDemandRestart c),
      RunOnDemandStartTimeout := set_value (oRunOnDemandStartTimeout p) (RunOnDemandStartTimeout c),
      RunOnDemandCloseAfter := set_value (oRunOnDemandCloseAfter p) (RunOnDemandCloseAfter c),
      RunOnUnDemand := set_value (oRunOnUnDemand p) (RunOnUnDemand c),
      RunOnReady := set_value (oRunOnReady p) (RunOnReady c),
      RunOnReadyRestart := set_value (oRunOnReadyRestart p) (RunOnReadyRestart c),
      RunOnNotReady := set_value (oRunOnNotReady p) (RunOnNotReady c),
      RunOnRead := set_value (oRunOnRead p) (RunOnRead c),
      RunOnReadRestart := set_value (oRunOnReadRestart p) (RunOnReadRestart c),
      RunOnUnread := set_value (oRunOnUnread p) (RunOnUnread c),
      RunOnRecordSegmentCreate := set_value (oRunOnRecordSegmentCreate p) (RunOnRecordSegmentCreate c),
      RunOnRecordSegmentComplete := set_value (oRunOnRecordSegmentComplete p) (RunOnRecordSegmentComplete c),
      RPICamera := copy_camera (oRPICamera p) (RPICamera c),
      Deprecated := copy_deprecated (oDeprecated p) (Deprecated c)\<rparr>"

definition copy_optional_camera :: "optional_camera \<Rightarrow> optional_camera \<Rightarrow> optional_camera" where
  "copy_optional_camera p c =
     \<lparr>oRPICameraCamID = set_pointer (oRPICameraCamID p) (oRPICameraCamID c),
      oRPICameraWidth = set_pointer (oRPICameraWidth p) (oRPICameraWidth c),
      oRPICameraHeight = set_pointer (oRPICameraHeight p) (oRPICameraHeight c),
      oRPICameraHFlip = set_pointer (oRPICameraHFlip p) (oRPICameraHFlip c),
      oRPICameraVFlip = set_pointer (oRPICameraVFlip p) (oRPICameraVFlip c),
      oRPICameraBrightness = set_pointer (oRPICameraBrightness p) (oRPICameraBrightness c),
      oRPICameraContrast = set_pointer (oRPICameraContrast p) (oRPICameraContrast c),
      oRPICameraSaturation = set_pointer (oRPICameraSaturation p) (oRPICameraSaturation c),
      oRPICameraSharpness = set_pointer (oRPICameraSharpness p) (oRPICameraSharpness c),
      oRPICameraExposure = set_pointer (oRPICameraExposure p) (oRPICameraExposure c),
      oRPICameraAWB = set_pointer (oRPICameraAWB p) (oRPICameraAWB c),
      oRPICameraAWBGains = set_pointer (oRPICameraAWBGains p) (oRPICameraAWBGains c),
      oRPICameraDenoise = set_pointer (oRPICameraDenoise p) (oRPICameraDenoise c),
      oRPICameraShutter = set_pointer (oRPICameraShutter p) (oRPICameraShutter c),
      oRPICameraMetering = set_pointer (oRPICameraMetering p) (oRPICameraMetering c),
      oRPICameraGain = set_pointer (oRPICameraGain p) (oRPICameraGain c),
      oRPICameraEV = set_pointer (oRPICameraEV p) (oRPICameraEV c),
      oRPICameraROI = set_pointer (oRPICameraROI p) (oRPICameraROI c),
      oRPICameraHDR = set_pointer (oRPICameraHDR p) (oRPICameraHDR c),
      oRPICameraTuningFile = set_pointer (oRPICameraTuningFile p) (oRPICameraTuningFile c),
      oRPICameraMode = set_pointer (oRPICameraMode p) (oRPICameraMode c),
      oRPICameraFPS = set_pointer (oRPICameraFPS p) (oRPICameraFPS c),
      oRPICameraAfMode = set_pointer (oRPICameraAfMode p) (oRPICameraAfMode c),
      oRPICameraAfRange = set_pointer (oRPICameraAfRange p) (oRPICameraAfRange c),
      oRPICameraAfSpeed = set_pointer (oRPICameraAfSpeed p) (oRPICameraAfSpeed c),
      oRPICameraLensPosition = set_pointer (oRPICameraLensPosition p) (oRPICameraLensPosition c),
      oRPICameraAfWindow = set_pointer (oRPICameraAfWindow p) (oRPICameraAfWindow c),
      oRPICameraFlickerPeriod = set_pointer (oRPICameraFlickerPeriod p) (oRPICameraFlickerPeriod c),
      oRPICameraTextOverlayEnable = set_pointer (oRPICameraTextOverlayEnable p) (oRPICameraTextOverlayEnable c),
      oRPICameraTextOverlay = set_pointer (oRPICameraTextOverlay p) (oRPICameraTextOverlay c),
      oRPICameraCodec = set_pointer (oRPICameraCodec p) (oRPICameraCodec c),
      oRPICameraIDRPeriod = set_pointer (oRPICameraIDRPeriod p) (oRPICameraIDRPeriod c),
      oRPICameraBitrate = set_pointer (oRPICameraBitrate p) (oRPICameraBitrate c),
      oRPICameraProfile = set_pointer (oRPICameraProfile p) (oRPICameraProfile c),
      oRPICameraLevel = set_pointer (oRPICameraLevel p) (oRPICameraLevel c)\<rparr>"

definition copy_optional :: "optional_path \<Rightarrow> optional_path \<Rightarrow> optional_path" where
  "copy_optional p c =
     \<lparr>oName = set_pointer (oName p) (oName c), oSource = set_pointer (oSource p) (oSource c),
      oSourceFingerprint = set_pointer (oSourceFingerprint p) (oSourceFingerprint c),
      oSourceOnDemand = set_pointer (oSourceOnDemand p) (oSourceOnDemand c),
      oSourceOnDemandStartTimeout = set_pointer (oSourceOnDemandStartTimeout p) (oSourceOnDemandStartTimeout c),
      oSourceOnDemandCloseAfter = set_pointer (oSourceOnDemandCloseAfter p) (oSourceOnDemandCloseAfter c),
      oMaxReaders = set_pointer (oMaxReaders p) (oMaxReaders c),
      oSRTReadPassphrase = set_pointer (oSRTReadPassphrase p) (oSRTReadPassphrase c),
      oFallback = set_pointer (oFallback p) (oFallback c), oRecord = set_pointer (oRecord p) (oRecord c),
      oRecordPath = set_pointer (oRecordPath p) (oRecordPath c),
      oRecordFormat = set_pointer (oRecordFormat p) (oRecordFormat c),
      oRecordPartDuration = set_pointer (oRecordPartDuration p) (oRecordPartDuration c),
      oRecordSegmentDuration = set_pointer (oRecordSegmentDuration p) (oRecordSegmentDuration c),
      oRecordDeleteAfter = set_pointer (oRecordDeleteAfter p) (oRecordDeleteAfter c),
      oOverridePublisher = set_pointer (oOverridePublisher p) (oOverridePublisher c),
      oSRTPublishPassphrase = set_pointer (oSRTPublishPassphrase p) (oSRTPublishPassphrase c),
      oRTSPTransport = set_pointer (oRTSPTransport p) (oRTSPTransport c),
      oRTSPAnyPort = set_pointer (oRTSPAnyPort p) (oRTSPAnyPort c),
      oRTSPRangeType = set_pointer (oRTSPRangeType p) (oRTSPRangeType c),
      oRTSPRangeStart = set_pointer (oRTSPRangeStart p) (oRTSPRangeStart c),
      oSourceRedirect = set_pointer (oSourceRedirect p) (oSourceRedirect c),
      oRunOnInit = set_pointer (oRunOnInit p) (oRunOnInit c),
      oRunOnInitRestart = set_pointer (oRunOnInitRestart p) (oRunOnInitRestart c),
      oRunOnDemand = set_pointer (oRunOnDemand p) (oRunOnDemand c),
      oRunOnDemandRestart = set_pointer (oRunOnDemandRestart p) (oRunOnDemandRestart c),
      oRunOnDemandStartTimeout = set_pointer (oRunOnDemandStartTimeout p) (oRunOnDemandStartTimeout c),
      oRunOnDemandCloseAfter = set_pointer (oRunOnDemandCloseAfter p) (oRunOnDemandCloseAfter c),
      oRunOnUnDemand = set_pointer (oRunOnUnDemand p) (oRunOnUnDemand c),
      oRunOnReady = set_pointer (oRunOnReady p) (oRunOnReady c),
      oRunOnReadyRestart = set_pointer (oRunOnReadyRestart p) (oRunOnReadyRestart c),
      oRunOnNotReady = set_pointer (oRunOnNotReady p) (oRunOnNotReady c),
      oRunOnRead = set_pointer (oRunOnRead p) (oRunOnRead c),
      oRunOnReadRestart = set_pointer (oRunOnReadRestart p) (oRunOnReadRestart c),
      oRunOnUnread = set_pointer (oRunOnUnread p) (oRunOnUnread c),
      oRunOnRecordSegmentCreate = set_pointer (oRunOnRecordSegmentCreate p) (oRunOnRecordSegmentCreate c),
      oRunOnRecordSegmentComplete = set_pointer (oRunOnRecordSegmentComplete p) (oRunOnRecordSegmentComplete c),
      oRPICamera = copy_optional_camera (oRPICamera p) (oRPICamera c),
      oDeprecated = copy_deprecated (oDeprecated p) (oDeprecated c)\<rparr>"

text \<open>
  \<open>newPath\<close>: the defaults, all of whose fields are copied into an empty configuration, and over them the values
  that are given.
\<close>

definition newPath :: "path_conf \<Rightarrow> optional_path \<Rightarrow> path_conf" where
  "newPath defaults partial = copy_path partial defaults"

section \<open>Laws of copying\<close>

lemma set_value_simps [simp]:
  "set_value None x = x" "set_value (Some v) x = v"
  "set_value (set_pointer a b) x = set_value a (set_value b x)"
  by (cases a; simp add: set_value_def set_pointer_def)+

lemma set_pointer_simps [simp]:
  "set_pointer None x = x" "set_pointer (Some v) x = Some v" "set_pointer a None = a"
  "set_pointer (set_pointer a b) x = set_pointer a (set_pointer b x)"
  by (cases a; simp add: set_pointer_def)+

lemma set_value_idem [simp]: "set_value a (set_value a x) = set_value a x"
  by (cases a) simp_all

lemma set_pointer_idem [simp]: "set_pointer a (set_pointer a x) = set_pointer a x"
  by (cases a) simp_all

lemma copy_camera_nothing [simp]: "copy_camera no_camera c = c"
  by (simp add: copy_camera_def no_camera_def)

lemma copy_camera_twice: "copy_camera (copy_optional_camera p q) c = copy_camera p (copy_camera q c)"
  by (simp add: copy_camera_def copy_optional_camera_def)

lemma copy_deprecated_nothing [simp]: "copy_deprecated no_deprecated c = c"
  by (simp add: copy_deprecated_def no_deprecated_def)

lemma copy_deprecated_twice: "copy_deprecated (copy_deprecated p q) c = copy_deprecated p (copy_deprecated q c)"
  by (simp add: copy_deprecated_def)

lemma copy_path_nothing [simp]: "copy_path newOptionalPathValues c = c"
  by (simp add: copy_path_def newOptionalPathValues_def)

lemma copy_path_twice: "copy_path (copy_optional p q) c = copy_path p (copy_path q c)"
  by (simp add: copy_path_def copy_optional_def copy_camera_twice copy_deprecated_twice)

end
