(* ===== verification/ConfData.thy ===== *)
theory ConfData
  imports OptionalConf AuthManager "HOL-Library.AList"
begin

text \<open>
  The configuration of the server (internal/conf/conf.go): the structure \<open>Conf\<close>, its defaults, its optional form
  (internal/conf/optional_global.go) and the operations that change it.

  The sections of the structure are records of their own. The seven fields that the API, the metrics, the profiler,
  the playback server, the HLS server and the WebRTC server each have (whether it is enabled, address, encryption, key, certificate,
  origin, trusted proxies) are one record. A nil slice is an empty list, but for the internal users, where the code tells
  them apart.
\<close>

section \<open>The record\<close>

datatype log_level = LogDebug | LogInfo | LogWarn | LogError
datatype log_destination = DestinationStdout | DestinationFile | DestinationSyslog
datatype encryption = EncryptionNo | EncryptionOptional | EncryptionStrict
datatype hls_variant = VariantMPEGTS | VariantFMP4 | VariantLowLatency
datatype rtsp_proto = ProtoUDP | ProtoUDPMulticast | ProtoTCP

text \<open>\<open>auth.ValidateMethodBasic\<close> and \<open>auth.ValidateMethodDigestMD5\<close>.\<close>

abbreviation ValidateMethodBasic :: nat where
  "ValidateMethodBasic \<equiv> 0"

abbreviation ValidateMethodDigestMD5 :: nat where
  "ValidateMethodDigestMD5 \<equiv> 1"

record ice_server =
  ice_URL :: string
  ice_Username :: string
  ice_Password :: string
  ice_ClientOnly :: bool

record http_conf =
  hc_Enabled :: bool
  hc_Address :: string
  hc_Encryption :: bool
  hc_ServerKey :: string
  hc_ServerCert :: string
  hc_AllowOrigin :: string
  hc_TrustedProxies :: "ip_net list"

record rtsp_conf =
  rs_RTSP :: bool
  rs_Transports :: "rtsp_proto set"
  rs_Encryption :: encryption
  rs_Address :: string
  rs_SAddress :: string
  rs_RTPAddress :: string
  rs_RTCPAddress :: string
  rs_MulticastIPRange :: string
  rs_MulticastRTPPort :: int
  rs_MulticastRTCPPort :: int
  rs_ServerKey :: string
  rs_ServerCert :: string
  rs_AuthMethods :: "nat list"

record rtmp_conf =
  rm_RTMP :: bool
  rm_Address :: string
  rm_Encryption :: encryption
  rm_SAddress :: string
  rm_ServerKey :: string
  rm_ServerCert :: string

record hls_conf =
  hl_AlwaysRemux :: bool
  hl_Variant :: hls_variant
  hl_SegmentCount :: int
  hl_SegmentDuration :: duration
  hl_PartDuration :: duration
  hl_SegmentMaxSize :: nat
  hl_Directory :: string
  hl_MuxerCloseAfter :: duration
  hl_http :: http_conf

record webrtc_conf =
  wr_LocalUDPAddress :: string
  wr_LocalTCPAddress :: string
  wr_IPsFromInterfaces :: bool
  wr_IPsFromInterfacesList :: "string list"
  wr_AdditionalHosts :: "string list"
  wr_ICEServers2 :: "ice_server list"
  wr_HandshakeTimeout :: duration
  wr_TrackGatherTimeout :: duration
  wr_http :: http_conf

text \<open>The deprecated fields; a nil pointer is \<open>None\<close>.\<close>

record deprecated_global =
  dReadBufferCount :: "int option"
  dExternalAuthenticationURL :: "string option"
  dRTSPDisable :: "bool option"
  dProtocols :: "rtsp_proto set option"
  dGEncryption :: "encryption option"
  dServerKey :: "string option"
  dServerCert :: "string option"
  dAuthMethods :: "nat list option"
  dRTMPDisable :: "bool option"
  dHLSDisable :: "bool option"
  dWebRTCDisable :: "bool option"
  dWebRTCICEUDPMuxAddress :: "string option"
  dWebRTCICETCPMuxAddress :: "string option"
  dWebRTCICEHostNAT1To1IPs :: "string list option"
  dWebRTCICEServers :: "string list option"
  dGRecord :: "bool option"
  dGRecordPath :: "string option"
  dGRecordFormat :: "record_format option"
  dGRecordPartDuration :: "duration option"
  dGRecordSegmentDuration :: "duration option"
  dGRecordDeleteAfter :: "duration option"

record conf =
  cf_LogLevel :: log_level
  cf_LogDestinations :: "log_destination list"
  cf_LogFile :: string
  cf_ReadTimeout :: duration
  cf_WriteTimeout :: duration
  cf_WriteQueueSize :: int
  cf_UDPMaxPayloadSize :: int
  cf_RunOnConnect :: string
  cf_RunOnConnectRestart :: bool
  cf_RunOnDisconnect :: string
  cf_AuthMethod :: auth_method
  cf_AuthInternalUsers :: "auth_internal_user list option"
  cf_AuthHTTPAddress :: string
  cf_AuthHTTPExclude :: "permission list"
  cf_AuthJWTJWKS :: string
  cf_AuthJWTClaimKey :: string
  cf_SRT :: bool
  cf_SRTAddress :: string
  cf_API :: http_conf
  cf_Metrics :: http_conf
  cf_PPROF :: http_conf
  cf_Playback :: http_conf
  cf_RTSP :: rtsp_conf
  cf_RTMP :: rtmp_conf
  cf_HLS :: hls_conf
  cf_WebRTC :: webrtc_conf
  cf_Deprecated :: deprecated_global
  cf_PathDefaults :: path_conf
  cf_OptionalPaths :: "(string \<times> optional_path option) list"
  cf_Paths :: "(string \<times> path_conf) list"

section \<open>Optional values\<close>

text \<open>\<open>OptionalGlobal\<close>: a pointer for every field but the path defaults and the paths.\<close>

record optional_http =
  ohc_Enabled :: "bool option"
  ohc_Address :: "string option"
  ohc_Encryption :: "bool option"
  ohc_ServerKey :: "string option"
  ohc_ServerCert :: "string option"
  ohc_AllowOrigin :: "string option"
  ohc_TrustedProxies :: "ip_net list option"

record optional_rtsp =
  ors_RTSP :: "bool option"
  ors_Transports :: "rtsp_proto set option"
  ors_Encryption :: "encryption option"
  ors_Address :: "string option"
  ors_SAddress :: "string option"
  ors_RTPAddress :: "string option"
  ors_RTCPAddress :: "string option"
  ors_MulticastIPRange :: "string option"
  ors_MulticastRTPPort :: "int option"
  ors_MulticastRTCPPort :: "int option"
  ors_ServerKey :: "string option"
  ors_ServerCert :: "string option"
  ors_AuthMethods :: "nat list option"

record optional_rtmp =
  orm_RTMP :: "bool option"
  orm_Address :: "string option"
  orm_Encryption :: "encryption option"
  orm_SAddress :: "string option"
  orm_ServerKey :: "string option"
  orm_ServerCert :: "string option"

record optional_hls =
  ohl_AlwaysRemux :: "bool option"
  ohl_Variant :: "hls_variant option"
  ohl_SegmentCount :: "int option"
  ohl_SegmentDuration :: "duration option"
  ohl_PartDuration :: "duration option"
  ohl_SegmentMaxSize :: "nat option"
  ohl_Directory :: "string option"
  ohl_MuxerCloseAfter :: "duration option"
  ohl_http :: optional_http

record optional_webrtc =
  owr_LocalUDPAddress :: "string option"
  owr_LocalTCPAddress :: "string option"
  owr_IPsFromInterfaces :: "bool option"
  owr_IPsFromInterfacesList :: "string list option"
  owr_AdditionalHosts :: "string list option"
  owr_ICEServers2 :: "ice_server list option"
  owr_HandshakeTimeout :: "duration option"
  owr_TrackGatherTimeout :: "duration option"
  owr_http :: optional_http

record optional_global =
  ocf_LogLevel :: "log_level option"
  ocf_LogDestinations :: "log_destination list option"
  ocf_LogFile :: "string option"
  ocf_ReadTimeout :: "duration option"
  ocf_WriteTimeout :: "duration option"
  ocf_WriteQueueSize :: "int option"
  ocf_UDPMaxPayloadSize :: "int option"
  ocf_RunOnConnect :: "string option"
  ocf_RunOnConnectRestart :: "bool option"
  ocf_RunOnDisconnect :: "string option"
  ocf_AuthMethod :: "auth_method option"
  ocf_AuthInternalUsers :: "auth_internal_user list option option"
  ocf_AuthHTTPAddress :: "string option"
  ocf_AuthHTTPExclude :: "permission list option"
  ocf_AuthJWTJWKS :: "string option"
  ocf_AuthJWTClaimKey :: "string option"
  ocf_SRT :: "bool option"
  ocf_SRTAddress :: "string option"
  ocf_API :: optional_http
  ocf_Metrics :: optional_http
  ocf_PPROF :: optional_http
  ocf_Playback :: optional_http
  ocf_RTSP :: optional_rtsp
  ocf_RTMP :: optional_rtmp
  ocf_HLS :: optional_hls
  ocf_WebRTC :: optional_webrtc
  oDeprecatedGlobal :: deprecated_global

definition copy_http :: "optional_http \<Rightarrow> http_conf \<Rightarrow> http_conf" where
  "copy_http p c =
     \<lparr>hc_Enabled = set_value (ohc_Enabled p) (hc_Enabled c),
      hc_Address = set_value (ohc_Address p) (hc_Address c),
      hc_Encryption = set_value (ohc_Encryption p) (hc_Encryption c),
      hc_ServerKey = set_value (ohc_ServerKey p) (hc_ServerKey c),
      hc_ServerCert = set_value (ohc_ServerCert p) (hc_ServerCert c),
      hc_AllowOrigin = set_value (ohc_AllowOrigin p) (hc_AllowOrigin c),
      hc_TrustedProxies = set_value (ohc_TrustedProxies p) (hc_TrustedProxies c)\<rparr>"

definition copy_rtsp :: "optional_rtsp \<Rightarrow> rtsp_conf \<Rightarrow> rtsp_conf" where
  "copy_rtsp p c =
     \<lparr>rs_RTSP = set_value (ors_RTSP p) (rs_RTSP c),
      rs_Transports = set_value (ors_Transports p) (rs_Transports c),
      rs_Encryption = set_value (ors_Encryption p) (rs_Encryption c),
      rs_Address = set_value (ors_Address p) (rs_Address c),
      rs_SAddress = set_value (ors_SAddress p) (rs_SAddress c),
      rs_RTPAddress = set_value (ors_RTPAddress p) (rs_RTPAddress c),
      rs_RTCPAddress = set_value (ors_RTCPAddress p) (rs_RTCPAddress c),
      rs_MulticastIPRange = set_value (ors_MulticastIPRange p) (rs_MulticastIPRange c),
      rs_MulticastRTPPort = set_value (ors_MulticastRTPPort p) (rs_MulticastRTPPort c),
      rs_MulticastRTCPPort = set_value (ors_MulticastRTCPPort p) (rs_MulticastRTCPPort c),
      rs_ServerKey = set_value (ors_ServerKey p) (rs_ServerKey c),
      rs_ServerCert = set_value (ors_ServerCert p) (rs_ServerCert c),
      rs_AuthMethods = set_value (ors_AuthMethods p) (rs_AuthMethods c)\<rparr>"

definition copy_rtmp :: "optional_rtmp \<Rightarrow> rtmp_conf \<Rightarrow> rtmp_conf" where
  "copy_rtmp p c =
     \<lparr>rm_RTMP = set_value (orm_RTMP p) (rm_RTMP c), rm_Address = set_value (orm_Address p) (rm_Address c),
      rm_Encryption = set_value (orm_Encryption p) (rm_Encryption c),
      rm_SAddress = set_value (orm_SAddress p) (rm_SAddress c),
      rm_ServerKey = set_value (orm_ServerKey p) (rm_ServerKey c),
      rm_ServerCert = set_value (orm_ServerCert p) (rm_ServerCert c)\<rparr>"

definition copy_hls :: "optional_hls \<Rightarrow> hls_conf \<Rightarrow> hls_conf" where
  "copy_hls p c =
     \<lparr>hl_AlwaysRemux = set_value (ohl_AlwaysRemux p) (hl_AlwaysRemux c),
      hl_Variant = set_value (ohl_Variant p) (hl_Variant c),
      hl_SegmentCount = set_value (ohl_SegmentCount p) (hl_SegmentCount c),
      hl_SegmentDuration = set_value (ohl_SegmentDuration p) (hl_SegmentDuration c),
      hl_PartDuration = set_value (ohl_PartDuration p) (hl_PartDuration c),
      hl_SegmentMaxSize = set_value (ohl_SegmentMaxSize p) (hl_SegmentMaxSize c),
      hl_Directory = set_value (ohl_Directory p) (hl_Directory c),
      hl_MuxerCloseAfter = set_value (ohl_MuxerCloseAfter p) (hl_MuxerCloseAfter c),
      hl_http = copy_http (ohl_http p) (hl_http c)\<rparr>"

definition copy_webrtc :: "optional_webrtc \<Rightarrow> webrtc_conf \<Rightarrow> webrtc_conf" where
  "copy_webrtc p c =
     \<lparr>wr_LocalUDPAddress = set_value (owr_LocalUDPAddress p) (wr_LocalUDPAddress c),
      wr_LocalTCPAddress = set_value (owr_LocalTCPAddress p) (wr_LocalTCPAddress c),
      wr_IPsFromInterfaces = set_value (owr_IPsFromInterfaces p) (wr_IPsFromInterfaces c),
      wr_IPsFromInterfacesList = set_value (owr_IPsFromInterfacesList p) (wr_IPsFromInterfacesList c),
      wr_AdditionalHosts = set_value (owr_AdditionalHosts p) (wr_AdditionalHosts c),
      wr_ICEServers2 = set_value (owr_ICEServers2 p) (wr_ICEServers2 c),
      wr_HandshakeTimeout = set_value (owr_HandshakeTimeout p) (wr_HandshakeTimeout c),
      wr_TrackGatherTimeout = set_value (owr_TrackGatherTimeout p) (wr_TrackGatherTimeout c),
      wr_http = copy_http (owr_http p) (wr_http c)\<rparr>"

definition copy_deprecated_global :: "deprecated_global \<Rightarrow> deprecated_global \<Rightarrow> deprecated_global" where
  "copy_deprecated_global p c =
     \<lparr>dReadBufferCount = set_pointer (dReadBufferCount p) (dReadBufferCount c),
      dExternalAuthenticationURL = set_pointer (dExternalAuthenticationURL p) (dExternalAuthenticationURL c),
      dRTSPDisable = set_pointer (dRTSPDisable p) (dRTSPDisable c),
      dProtocols = set_pointer (dProtocols p) (dProtocols c),
      dGEncryption = set_pointer (dGEncryption p) (dGEncryption c),
      dServerKey = set_pointer (dServerKey p) (dServerKey c),
      dServerCert = set_pointer (dServerCert p) (dServerCert c),
      dAuthMethods = set_pointer (dAuthMethods p) (dAuthMethods c),
      dRTMPDisable = set_pointer (dRTMPDisable p) (dRTMPDisable c),
      dHLSDisable = set_pointer (dHLSDisable p) (dHLSDisable c),
      dWebRTCDisable = set_pointer (dWebRTCDisable p) (dWebRTCDisable c),
      dWebRTCICEUDPMuxAddress = set_pointer (dWebRTCICEUDPMuxAddress p) (dWebRTCICEUDPMuxAddress c),
      dWebRTCICETCPMuxAddress = set_pointer (dWebRTCICETCPMuxAddress p) (dWebRTCICETCPMuxAddress c),
      dWebRTCICEHostNAT1To1IPs = set_pointer (dWebRTCICEHostNAT1To1IPs p) (dWebRTCICEHostNAT1To1IPs c),
      dWebRTCICEServers = set_pointer (dWebRTCICEServers p) (dWebRTCICEServers c),
      dGRecord = set_pointer (dGRecord p) (dGRecord c),
      dGRecordPath = set_pointer (dGRecordPath p) (dGRecordPath c),
      dGRecordFormat = set_pointer (dGRecordFormat p) (dGRecordFormat c),
      dGRecordPartDuration = set_pointer (dGRecordPartDuration p) (dGRecordPartDuration c),
      dGRecordSegmentDuration = set_pointer (dGRecordSegmentDuration p) (dGRecordSegmentDuration c),
      dGRecordDeleteAfter = set_pointer (dGRecordDeleteAfter p) (dGRecordDeleteAfter c)\<rparr>"

text \<open>\<open>copyStructFields\<close> from an optional global configuration; a nil list of users is never pointed to.\<close>

definition copy_global :: "optional_global \<Rightarrow> conf \<Rightarrow> conf" where
  "copy_global p c = c
     \<lparr>cf_LogLevel := set_value (ocf_LogLevel p) (cf_LogLevel c),
      cf_LogDestinations := set_value (ocf_LogDestinations p) (cf_LogDestinations c),
      cf_LogFile := set_value (ocf_LogFile p) (cf_LogFile c),
      cf_ReadTimeout := set_value (ocf_ReadTimeout p) (cf_ReadTimeout c),
      cf_WriteTimeout := set_value (ocf_WriteTimeout p) (cf_WriteTimeout c),
      cf_WriteQueueSize := set_value (ocf_WriteQueueSize p) (cf_WriteQueueSize c),
      cf_UDPMaxPayloadSize := set_value (ocf_UDPMaxPayloadSize p) (cf_UDPMaxPayloadSize c),
      cf_RunOnConnect := set_value (ocf_RunOnConnect p) (cf_RunOnConnect c),
      cf_RunOnConnectRestart := set_value (ocf_RunOnConnectRestart p) (cf_RunOnConnectRestart c),
      cf_RunOnDisconnect := set_value (ocf_RunOnDisconnect p) (cf_RunOnDisconnect c),
      cf_AuthMethod := set_value (ocf_AuthMethod p) (cf_AuthMethod c),
      cf_AuthInternalUsers := set_value (ocf_AuthInternalUsers p) (cf_AuthInternalUsers c),
      cf_AuthHTTPAddress := set_value (ocf_AuthHTTPAddress p) (cf_AuthHTTPAddress c),
      cf_AuthHTTPExclude := set_value (ocf_AuthHTTPExclude p) (cf_AuthHTTPExclude c),
      cf_AuthJWTJWKS := set_value (ocf_AuthJWTJWKS p) (cf_AuthJWTJWKS c),
      cf_AuthJWTClaimKey := set_value (ocf_AuthJWTClaimKey p) (cf_AuthJWTClaimKey c),
      cf_SRT := set_value (ocf_SRT p) (cf_SRT c),
      cf_SRTAddress := set_value (ocf_SRTAddress p) (cf_SRTAddress c),
      cf_API := copy_http (ocf_API p) (cf_API c), cf_Metrics := copy_http (ocf_Metrics p) (cf_Metrics c),
      cf_PPROF := copy_http (ocf_PPROF p) (cf_PPROF c),
      cf_Playback := copy_http (ocf_Playback p) (cf_Playback c), cf_RTSP := copy_rtsp (ocf_RTSP p) (cf_RTSP c),
      cf_RTMP := copy_rtmp (ocf_RTMP p) (cf_RTMP c), cf_HLS := copy_hls (ocf_HLS p) (cf_HLS c),
      cf_WebRTC := copy_webrtc (ocf_WebRTC p) (cf_WebRTC c),
      cf_Deprecated := copy_deprecated_global (oDeprecatedGlobal p) (cf_Deprecated c)\<rparr>"

definition no_deprecated_global :: deprecated_global where
  "no_deprecated_global =
     \<lparr>dReadBufferCount = None, dExternalAuthenticationURL = None, dRTSPDisable = None, dProtocols = None,
      dGEncryption = None, dServerKey = None, dServerCert = None, dAuthMethods = None, dRTMPDisable = None,
      dHLSDisable = None, dWebRTCDisable = None, dWebRTCICEUDPMuxAddress = None,
      dWebRTCICETCPMuxAddress = None, dWebRTCICEHostNAT1To1IPs = None, dWebRTCICEServers = None,
      dGRecord = None, dGRecordPath = None, dGRecordFormat = None, dGRecordPartDuration = None,
      dGRecordSegmentDuration = None, dGRecordDeleteAfter = None\<rparr>"

definition no_http :: optional_http where
  "no_http =
     \<lparr>ohc_Enabled = None, ohc_Address = None, ohc_Encryption = None, ohc_ServerKey = None,
      ohc_ServerCert = None, ohc_AllowOrigin = None, ohc_TrustedProxies = None\<rparr>"

definition no_rtsp :: optional_rtsp where
  "no_rtsp =
     \<lparr>ors_RTSP = None, ors_Transports = None, ors_Encryption = None, ors_Address = None, ors_SAddress = None,
      ors_RTPAddress = None, ors_RTCPAddress = None, ors_MulticastIPRange = None, ors_MulticastRTPPort = None,
      ors_MulticastRTCPPort = None, ors_ServerKey = None, ors_ServerCert = None, ors_AuthMethods = None\<rparr>"

definition no_rtmp :: optional_rtmp where
  "no_rtmp =
     \<lparr>orm_RTMP = None, orm_Address = None, orm_Encryption = None, orm_SAddress = None, orm_ServerKey = None,
      orm_ServerCert = None\<rparr>"

definition no_hls :: optional_hls where
  "no_hls =
     \<lparr>ohl_AlwaysRemux = None, ohl_Variant = None, ohl_SegmentCount = None, ohl_SegmentDuration = None,
      ohl_PartDuration = None, ohl_SegmentMaxSize = None, ohl_Directory = None, ohl_MuxerCloseAfter = None,
      ohl_http = no_http\<rparr>"

definition no_webrtc :: optional_webrtc where
  "no_webrtc =
     \<lparr>owr_LocalUDPAddress = None, owr_LocalTCPAddress = None, owr_IPsFromInterfaces = None,
      owr_IPsFromInterfacesList = None, owr_AdditionalHosts = None, owr_ICEServers2 = None,
      owr_HandshakeTimeout = None, owr_TrackGatherTimeout = None, owr_http = no_http\<rparr>"

definition newOptionalGlobal :: optional_global where
  "newOptionalGlobal =
     \<lparr>ocf_LogLevel = None, ocf_LogDestinations = None, ocf_LogFile = None, ocf_ReadTimeout = None,
      ocf_WriteTimeout = None, ocf_WriteQueueSize = None, ocf_UDPMaxPayloadSize = None,
      ocf_RunOnConnect = None, ocf_RunOnConnectRestart = None, ocf_RunOnDisconnect = None,
      ocf_AuthMethod = None, ocf_AuthInternalUsers = None, ocf_AuthHTTPAddress = None,
      ocf_AuthHTTPExclude = None, ocf_AuthJWTJWKS = None, ocf_AuthJWTClaimKey = None, ocf_SRT = None,
      ocf_SRTAddress = None, ocf_API = no_http, ocf_Metrics = no_http, ocf_PPROF = no_http,
      ocf_Playback = no_http, ocf_RTSP = no_rtsp, ocf_RTMP = no_rtmp, ocf_HLS = no_hls, ocf_WebRTC = no_webrtc,
      oDeprecatedGlobal = no_deprecated_global\<rparr>"

text \<open>\<open>Global\<close>: the structure without the path defaults and the paths, here with empty ones.\<close>

definition Global :: "conf \<Rightarrow> conf" where
  "Global c = c\<lparr>cf_PathDefaults := zero_conf, cf_OptionalPaths := [], cf_Paths := []\<rparr>"

section \<open>Defaults\<close>

definition localhost :: "ip_net list" where
  "localhost =
     [\<lparr>net_IP = [127, 0, 0, 1], net_Mask = [255, 255, 255, 255]\<rparr>,
      \<lparr>net_IP = replicate 15 0 @ [1], net_Mask = replicate 16 255\<rparr>]"

definition grant :: "auth_action \<Rightarrow> permission" where
  "grant a = \<lparr>PermAction = a, PermPath = []\<rparr>"

definition defaultAuthInternalUsers :: "auth_internal_user list" where
  "defaultAuthInternalUsers =
     [\<lparr>User = ''any'', Pass = [], IPs = [],
       Permissions = [grant AuthActionPublish, grant AuthActionRead, grant AuthActionPlayback]\<rparr>,
      \<lparr>User = ''any'', Pass = [], IPs = localhost,
       Permissions = [grant AuthActionAPI, grant AuthActionMetrics, grant AuthActionPprof]\<rparr>]"

text \<open>The zero value of the structure.\<close>

definition zero_http :: http_conf where
  "zero_http =
     \<lparr>hc_Enabled = False, hc_Address = [], hc_Encryption = False, hc_ServerKey = [], hc_ServerCert = [],
      hc_AllowOrigin = [], hc_TrustedProxies = []\<rparr>"

definition zero_global :: conf where
  "zero_global =
     \<lparr>cf_LogLevel = LogDebug, cf_LogDestinations = [], cf_LogFile = [], cf_ReadTimeout = 0, cf_WriteTimeout = 0,
      cf_WriteQueueSize = 0, cf_UDPMaxPayloadSize = 0, cf_RunOnConnect = [], cf_RunOnConnectRestart = False,
      cf_RunOnDisconnect = [], cf_AuthMethod = AuthMethodInternal, cf_AuthInternalUsers = None,
      cf_AuthHTTPAddress = [], cf_AuthHTTPExclude = [], cf_AuthJWTJWKS = [], cf_AuthJWTClaimKey = [],
      cf_SRT = False, cf_SRTAddress = [], cf_API = zero_http, cf_Metrics = zero_http, cf_PPROF = zero_http,
      cf_Playback = zero_http,
      cf_RTSP =
        \<lparr>rs_RTSP = False, rs_Transports = {}, rs_Encryption = EncryptionNo, rs_Address = [], rs_SAddress = [],
         rs_RTPAddress = [], rs_RTCPAddress = [], rs_MulticastIPRange = [], rs_MulticastRTPPort = 0,
         rs_MulticastRTCPPort = 0, rs_ServerKey = [], rs_ServerCert = [], rs_AuthMethods = []\<rparr>,
      cf_RTMP =
        \<lparr>rm_RTMP = False, rm_Address = [], rm_Encryption = EncryptionNo, rm_SAddress = [], rm_ServerKey = [],
         rm_ServerCert = []\<rparr>,
      cf_HLS =
        \<lparr>hl_AlwaysRemux = False, hl_Variant = VariantMPEGTS, hl_SegmentCount = 0, hl_SegmentDuration = 0,
         hl_PartDuration = 0, hl_SegmentMaxSize = 0, hl_Directory = [], hl_MuxerCloseAfter = 0, hl_http = zero_http\<rparr>,
      cf_WebRTC =
        \<lparr>wr_LocalUDPAddress = [], wr_LocalTCPAddress = [], wr_IPsFromInterfaces = False,
         wr_IPsFromInterfacesList = [], wr_AdditionalHosts = [], wr_ICEServers2 = [], wr_HandshakeTimeout = 0,
         wr_TrackGatherTimeout = 0, wr_http = zero_http\<rparr>,
      cf_Deprecated = no_deprecated_global, cf_PathDefaults = zero_conf, cf_OptionalPaths = [], cf_Paths = []\<rparr>"

definition http_defaults :: "string \<Rightarrow> http_conf \<Rightarrow> http_conf" where
  "http_defaults address h = h
     \<lparr>hc_Address := address, hc_ServerKey := ''server.key'', hc_ServerCert := ''server.crt'', hc_AllowOrigin := ''*''\<rparr>"

definition conf_setDefaults :: "conf \<Rightarrow> conf" where
  "conf_setDefaults c = c
     \<lparr>cf_LogLevel := LogInfo, cf_LogDestinations := [DestinationStdout], cf_LogFile := ''mediamtx.log'',
      cf_ReadTimeout := 10 * second, cf_WriteTimeout := 10 * second, cf_WriteQueueSize := 512,
      cf_UDPMaxPayloadSize := 1472,
      cf_AuthInternalUsers := Some defaultAuthInternalUsers,
      cf_AuthHTTPExclude := [grant AuthActionAPI, grant AuthActionMetrics, grant AuthActionPprof],
      cf_AuthJWTClaimKey := ''mediamtx_permissions'',
      cf_API := http_defaults '':9997'' (cf_API c),
      cf_Metrics := http_defaults '':9998'' (cf_Metrics c),
      cf_PPROF := http_defaults '':9999'' (cf_PPROF c),
      cf_Playback := http_defaults '':9996'' (cf_Playback c),
      cf_RTSP := (cf_RTSP c)
        \<lparr>rs_RTSP := True, rs_Transports := {ProtoUDP, ProtoUDPMulticast, ProtoTCP}, rs_Address := '':8554'',
         rs_SAddress := '':8322'', rs_RTPAddress := '':8000'', rs_RTCPAddress := '':8001'',
         rs_MulticastIPRange := ''224.1.0.0/16'', rs_MulticastRTPPort := 8002, rs_MulticastRTCPPort := 8003,
         rs_ServerKey := ''server.key'', rs_ServerCert := ''server.crt'', rs_AuthMethods := [ValidateMethodBasic]\<rparr>,
      cf_RTMP := (cf_RTMP c)
        \<lparr>rm_RTMP := True, rm_Address := '':1935'', rm_SAddress := '':1936'', rm_ServerKey := ''server.key'',
         rm_ServerCert := ''server.crt''\<rparr>,
      cf_HLS := (cf_HLS c)
        \<lparr>hl_http := (http_defaults '':8888'' (hl_http (cf_HLS c)))\<lparr>hc_Enabled := True\<rparr>,
         hl_Variant := VariantLowLatency, hl_SegmentCount := 7, hl_SegmentDuration := 1 * second,
         hl_PartDuration := 200 * millisecond, hl_SegmentMaxSize := 50 * 1024 * 1024,
         hl_MuxerCloseAfter := 60 * second\<rparr>,
      cf_WebRTC := (cf_WebRTC c)
        \<lparr>wr_http := (http_defaults '':8889'' (wr_http (cf_WebRTC c)))\<lparr>hc_Enabled := True\<rparr>,
         wr_LocalUDPAddress := '':8189'', wr_IPsFromInterfaces := True, wr_IPsFromInterfacesList := [],
         wr_AdditionalHosts := [], wr_ICEServers2 := [], wr_HandshakeTimeout := 10 * second,
         wr_TrackGatherTimeout := 2 * second\<rparr>,
      cf_SRT := True, cf_SRTAddress := '':8890'',
      cf_PathDefaults := setDefaults (cf_PathDefaults c)\<rparr>"

section \<open>Changes\<close>

definition PatchGlobal :: "optional_global \<Rightarrow> conf \<Rightarrow> conf" where
  "PatchGlobal optional c = copy_global optional c"

definition PatchPathDefaults :: "optional_path \<Rightarrow> conf \<Rightarrow> conf" where
  "PatchPathDefaults optional c = c\<lparr>cf_PathDefaults := copy_path optional (cf_PathDefaults c)\<rparr>"

definition ErrPathNotFound :: go_error where
  "ErrPathNotFound = Errorf ''path not found'' []"

definition AddPath :: "string \<Rightarrow> optional_path \<Rightarrow> conf \<Rightarrow> conf result" where
  "AddPath nm p c =
     (if nm \<in> fst ` set (cf_OptionalPaths c) then Inl (Errorf ''path already exists'' [])
      else Inr (c\<lparr>cf_OptionalPaths := AList.update nm (Some p) (cf_OptionalPaths c)\<rparr>))"

text \<open>A nil entry of the table is dereferenced by \<open>PatchPath\<close>.\<close>

definition PatchPath :: "string \<Rightarrow> optional_path \<Rightarrow> conf \<Rightarrow> conf result" where
  "PatchPath nm optional2 c =
     (case map_of (cf_OptionalPaths c) nm of
        None \<Rightarrow> Inl ErrPathNotFound
      | Some None \<Rightarrow> Inl Panic
      | Some (Some optional) \<Rightarrow>
          Inr (c\<lparr>cf_OptionalPaths := AList.update nm (Some (copy_optional optional2 optional)) (cf_OptionalPaths c)\<rparr>))"

definition ReplacePath :: "string \<Rightarrow> optional_path \<Rightarrow> conf \<Rightarrow> conf result" where
  "ReplacePath nm optional2 c = Inr (c\<lparr>cf_OptionalPaths := AList.update nm (Some optional2) (cf_OptionalPaths c)\<rparr>)"

definition RemovePath :: "string \<Rightarrow> conf \<Rightarrow> conf result" where
  "RemovePath nm c =
     (if nm \<notin> fst ` set (cf_OptionalPaths c) then Inl ErrPathNotFound
      else Inr (c\<lparr>cf_OptionalPaths := AList.delete nm (cf_OptionalPaths c)\<rparr>))"

section \<open>Laws of copying\<close>

lemma copy_global_nothing: "copy_global newOptionalGlobal c = c"
  by (simp add: copy_global_def newOptionalGlobal_def copy_http_def no_http_def copy_rtsp_def no_rtsp_def
      copy_rtmp_def no_rtmp_def copy_hls_def no_hls_def copy_webrtc_def no_webrtc_def
      copy_deprecated_global_def no_deprecated_global_def)

end
