(* ===== verification/GoStrconv.thy ===== *)
theory GoStrconv
  imports RecordPath GoUrlParse
begin

text \<open>
  The parsers of numbers of Go's package \<open>strconv\<close>, in base ten.
\<close>

definition ErrSyntax :: go_error where
  "ErrSyntax = Errorf ''invalid syntax'' []"

definition ErrRange :: go_error where
  "ErrRange = Errorf ''value out of range'' []"

text \<open>The value and the error: a number that is too large gives the largest one, with an error.\<close>

definition parse_uint :: "string \<Rightarrow> nat \<Rightarrow> int \<times> go_error option" where
  "parse_uint s bits =
     (if s = [] \<or> \<not> list_all is_digit s then (0, Some ErrSyntax)
      else if 2 ^ bits \<le> digits_value s then (2 ^ bits - 1, Some ErrRange)
      else (digits_value s, None))"

definition parse_int :: "string \<Rightarrow> nat \<Rightarrow> int \<times> go_error option" where
  "parse_int s bits =
     (let neg = (s \<noteq> [] \<and> hd s = CHR ''-'');
          signed = (s \<noteq> [] \<and> (hd s = CHR ''-'' \<or> hd s = CHR ''+''));
          t = (if signed then tl s else s);
          limit = 2 ^ (bits - 1)
      in if t = [] \<or> \<not> list_all is_digit t then (0, Some ErrSyntax)
         else
           let v = digits_value t in
           if \<not> neg \<and> limit \<le> v then (limit - 1, Some ErrRange)
           else if neg \<and> limit < v then (- limit, Some ErrRange)
           else (if neg then - v else v, None))"

definition ParseUint :: "string \<Rightarrow> nat \<Rightarrow> int result" where
  "ParseUint s bits = (case parse_uint s bits of (v, None) \<Rightarrow> Inr v | (_, Some e) \<Rightarrow> Inl e)"

definition ParseInt :: "string \<Rightarrow> nat \<Rightarrow> int result" where
  "ParseInt s bits = (case parse_int s bits of (v, None) \<Rightarrow> Inr v | (_, Some e) \<Rightarrow> Inl e)"

lemma is_digit_digit [simp]: "d < 10 \<Longrightarrow> is_digit (digit d)"
  by (simp add: digit_def is_digit_def Let_def)

lemma FormatInt_all_digits: "FormatInt n \<noteq> [] \<and> list_all is_digit (FormatInt n)"
proof (induction n rule: FormatInt.induct)
  case (1 n)
  show ?case
    using 1 by (cases "n < 10") (simp_all add: FormatInt.simps [of n])
qed

lemma ParseUint_FormatInt: "int n < 2 ^ bits \<Longrightarrow> ParseUint (FormatInt n) bits = Inr (int n)"
  using FormatInt_all_digits [of n] by (simp add: ParseUint_def parse_uint_def digits_value_FormatInt)

lemma digits_value_nonneg: "list_all is_digit s \<Longrightarrow> 0 \<le> digits_value s"
  by (induction s rule: rev_induct) (auto simp: digits_value_append is_digit_def Let_def digits_value_def)

lemma ParseUint_bounds: "ParseUint s bits = Inr v \<Longrightarrow> 0 \<le> v \<and> v < 2 ^ bits"
  using digits_value_nonneg [of s]
  by (auto simp: ParseUint_def parse_uint_def split: if_splits)

end
