(* ===== verification/ConfJson.thy ===== *)
theory ConfJson
  imports ConfData GoStrconv Mp4Time "HOL-Library.Multiset" "HOL-Library.List_Lexorder" "HOL-Library.Char_ord"
begin

text \<open>
  The JSON forms of the values of a configuration (the files of internal/conf that define one type each) and the
  interface that they have in common. A JSON string stands for its text and a JSON array of strings for the list of
  their texts: the encoder and decoder of package encoding/json, which the forms call, are left out.

  \<open>net.ParseCIDR\<close>, \<open>net.ParseIP\<close> and the printing of a network, the printing and parsing of a standard duration, and the two functions
  of package bytefmt are parameters.
\<close>

section \<open>The interface\<close>

text \<open>
  A form gives a value back, or a canonical variant of it that has the same form: what a configuration is turned
  into when it is cloned.
\<close>

locale json_form =
  fixes marshal :: "'a \<Rightarrow> 'j" and unmarshal :: "'j \<Rightarrow> 'a result"
    and canon :: "'a \<Rightarrow> 'a" and ok :: "'a \<Rightarrow> bool"
  assumes gives_back: "ok a \<Longrightarrow> unmarshal (marshal a) = Inr (canon a)"
    and canon_ok: "ok a \<Longrightarrow> ok (canon a)"
    and canon_marshal: "ok a \<Longrightarrow> marshal (canon a) = marshal a"
begin

lemma canon_idem: "ok a \<Longrightarrow> canon (canon a) = canon a"
  using gives_back [of "canon a"] gives_back [of a] canon_ok canon_marshal by simp

lemma same_text: "ok a \<Longrightarrow> ok b \<Longrightarrow> marshal a = marshal b \<longleftrightarrow> canon a = canon b"
  using gives_back [of a] gives_back [of b] canon_marshal [of a] canon_marshal [of b] by auto

lemma twice: "ok a \<Longrightarrow> bindE (unmarshal (marshal a)) (\<lambda>b. unmarshal (marshal b)) = unmarshal (marshal a)"
  by (simp add: gives_back canon_ok canon_idem)

end

section \<open>Enumerations\<close>

definition enum_UnmarshalJSON :: "(string \<Rightarrow> string) \<Rightarrow> (string \<times> 'a) list \<Rightarrow> string \<Rightarrow> 'a result" where
  "enum_UnmarshalJSON msg values s =
     (case map_of values s of Some v \<Rightarrow> Inr v | None \<Rightarrow> Inl (Errorf (msg s) []))"

fun LogLevel_MarshalJSON :: "log_level \<Rightarrow> string" where
  "LogLevel_MarshalJSON LogError = ''error''"
| "LogLevel_MarshalJSON LogWarn = ''warn''"
| "LogLevel_MarshalJSON LogInfo = ''info''"
| "LogLevel_MarshalJSON LogDebug = ''debug''"

definition LogLevel_UnmarshalJSON :: "string \<Rightarrow> log_level result" where
  "LogLevel_UnmarshalJSON =
     enum_UnmarshalJSON (\<lambda>s. ''invalid log level: '' @ quoted s)
       [(''error'', LogError), (''warn'', LogWarn), (''info'', LogInfo), (''debug'', LogDebug)]"

fun HLSVariant_MarshalJSON :: "hls_variant \<Rightarrow> string" where
  "HLSVariant_MarshalJSON VariantMPEGTS = ''mpegts''"
| "HLSVariant_MarshalJSON VariantFMP4 = ''fmp4''"
| "HLSVariant_MarshalJSON VariantLowLatency = ''lowLatency''"

definition HLSVariant_UnmarshalJSON :: "string \<Rightarrow> hls_variant result" where
  "HLSVariant_UnmarshalJSON =
     enum_UnmarshalJSON (\<lambda>s. ''invalid HLS variant: '' @ quoted s)
       [(''mpegts'', VariantMPEGTS), (''fmp4'', VariantFMP4), (''lowLatency'', VariantLowLatency)]"

fun Encryption_MarshalJSON :: "encryption \<Rightarrow> string" where
  "Encryption_MarshalJSON EncryptionNo = ''no''"
| "Encryption_MarshalJSON EncryptionOptional = ''optional''"
| "Encryption_MarshalJSON EncryptionStrict = ''strict''"

definition Encryption_UnmarshalJSON :: "string \<Rightarrow> encryption result" where
  "Encryption_UnmarshalJSON =
     enum_UnmarshalJSON (\<lambda>s. ''invalid encryption: '' @ quoted s)
       [(''no'', EncryptionNo), (''false'', EncryptionNo), (''optional'', EncryptionOptional),
        (''strict'', EncryptionStrict), (''yes'', EncryptionStrict), (''true'', EncryptionStrict)]"

fun AuthMethod_MarshalJSON :: "auth_method \<Rightarrow> string" where
  "AuthMethod_MarshalJSON AuthMethodInternal = ''internal''"
| "AuthMethod_MarshalJSON AuthMethodHTTP = ''http''"
| "AuthMethod_MarshalJSON AuthMethodJWT = ''jwt''"

definition AuthMethod_UnmarshalJSON :: "string \<Rightarrow> auth_method result" where
  "AuthMethod_UnmarshalJSON =
     enum_UnmarshalJSON (\<lambda>s. ''invalid authMethod: '' @ quoted s)
       [(''internal'', AuthMethodInternal), (''http'', AuthMethodHTTP), (''jwt'', AuthMethodJWT)]"

fun RecordFormat_MarshalJSON :: "record_format \<Rightarrow> string" where
  "RecordFormat_MarshalJSON RecordFormatMPEGTS = ''mpegts''"
| "RecordFormat_MarshalJSON RecordFormatFMP4 = ''fmp4''"

definition RecordFormat_UnmarshalJSON :: "string \<Rightarrow> record_format result" where
  "RecordFormat_UnmarshalJSON =
     enum_UnmarshalJSON (\<lambda>s. ''invalid record format '' @ quoted s)
       [(''mpegts'', RecordFormatMPEGTS), (''fmp4'', RecordFormatFMP4)]"

fun RTSPRangeType_MarshalJSON :: "rtsp_range_type \<Rightarrow> string" where
  "RTSPRangeType_MarshalJSON RTSPRangeTypeClock = ''clock''"
| "RTSPRangeType_MarshalJSON RTSPRangeTypeNPT = ''npt''"
| "RTSPRangeType_MarshalJSON RTSPRangeTypeSMPTE = ''smpte''"
| "RTSPRangeType_MarshalJSON RTSPRangeTypeUndefined = []"

definition RTSPRangeType_UnmarshalJSON :: "string \<Rightarrow> rtsp_range_type result" where
  "RTSPRangeType_UnmarshalJSON =
     enum_UnmarshalJSON (\<lambda>s. ''invalid rtsp range type: '' @ quoted s)
       [(''clock'', RTSPRangeTypeClock), (''npt'', RTSPRangeTypeNPT), (''smpte'', RTSPRangeTypeSMPTE),
        ([], RTSPRangeTypeUndefined)]"

fun RTSPTransport_MarshalJSON :: "rtsp_transport \<Rightarrow> string" where
  "RTSPTransport_MarshalJSON TransportAutomatic = ''automatic''"
| "RTSPTransport_MarshalJSON TransportUDP = ''udp''"
| "RTSPTransport_MarshalJSON TransportMulticast = ''multicast''"
| "RTSPTransport_MarshalJSON TransportTCP = ''tcp''"

definition RTSPTransport_UnmarshalJSON :: "string \<Rightarrow> rtsp_transport result" where
  "RTSPTransport_UnmarshalJSON =
     enum_UnmarshalJSON (\<lambda>s. ''invalid transport '' @ quoted s)
       [(''udp'', TransportUDP), (''multicast'', TransportMulticast), (''tcp'', TransportTCP),
        (''automatic'', TransportAutomatic)]"

interpretation log_level: json_form LogLevel_MarshalJSON LogLevel_UnmarshalJSON id "\<lambda>_. True"
  by unfold_locales (case_tac a; simp add: LogLevel_UnmarshalJSON_def enum_UnmarshalJSON_def)+

interpretation hls_variant: json_form HLSVariant_MarshalJSON HLSVariant_UnmarshalJSON id "\<lambda>_. True"
  by unfold_locales (case_tac a; simp add: HLSVariant_UnmarshalJSON_def enum_UnmarshalJSON_def)+

interpretation encryption: json_form Encryption_MarshalJSON Encryption_UnmarshalJSON id "\<lambda>_. True"
  by unfold_locales (case_tac a; simp add: Encryption_UnmarshalJSON_def enum_UnmarshalJSON_def)+

interpretation auth_method: json_form AuthMethod_MarshalJSON AuthMethod_UnmarshalJSON id "\<lambda>_. True"
  by unfold_locales (case_tac a; simp add: AuthMethod_UnmarshalJSON_def enum_UnmarshalJSON_def)+

interpretation record_format: json_form RecordFormat_MarshalJSON RecordFormat_UnmarshalJSON id "\<lambda>_. True"
  by unfold_locales (case_tac a; simp add: RecordFormat_UnmarshalJSON_def enum_UnmarshalJSON_def)+

interpretation range_type: json_form RTSPRangeType_MarshalJSON RTSPRangeType_UnmarshalJSON id "\<lambda>_. True"
  by unfold_locales (case_tac a; simp add: RTSPRangeType_UnmarshalJSON_def enum_UnmarshalJSON_def)+

interpretation rtsp_transport: json_form RTSPTransport_MarshalJSON RTSPTransport_UnmarshalJSON id "\<lambda>_. True"
  by unfold_locales (case_tac a; simp add: RTSPTransport_UnmarshalJSON_def enum_UnmarshalJSON_def)+

interpretation auth_action: json_form action_text AuthAction_UnmarshalJSON id "\<lambda>_. True"
  by unfold_locales (case_tac a; simp add: AuthAction_UnmarshalJSON_def)+

section \<open>Lists of enumerations\<close>

fun destination_text :: "log_destination \<Rightarrow> string" where
  "destination_text DestinationStdout = ''stdout''"
| "destination_text DestinationFile = ''file''"
| "destination_text DestinationSyslog = ''syslog''"

definition LogDestinations_MarshalJSON :: "log_destination list \<Rightarrow> string list" where
  "LogDestinations_MarshalJSON d = map destination_text d"

text \<open>The loop over the texts; the destinations so far are the accumulator.\<close>

fun add_destinations :: "string list \<Rightarrow> log_destination list \<Rightarrow> log_destination list result" where
  "add_destinations [] d = Inr d"
| "add_destinations (s # ss) d =
     bindE (enum_UnmarshalJSON (\<lambda>s. ''invalid log destination: '' @ s)
              [(''stdout'', DestinationStdout), (''file'', DestinationFile), (''syslog'', DestinationSyslog)] s) (\<lambda>v.
     if v \<in> set d then Inl (Errorf ''log destination set twice'' []) else add_destinations ss (d @ [v]))"

definition LogDestinations_UnmarshalJSON :: "string list \<Rightarrow> log_destination list result" where
  "LogDestinations_UnmarshalJSON ss = add_destinations ss []"

fun proto_text :: "rtsp_proto \<Rightarrow> string" where
  "proto_text ProtoUDP = ''udp''"
| "proto_text ProtoUDPMulticast = ''multicast''"
| "proto_text ProtoTCP = ''tcp''"

text \<open>The texts are sorted, so the order in which Go iterates over the map does not matter.\<close>

definition RTSPTransports_MarshalJSON :: "rtsp_proto set \<Rightarrow> string list" where
  "RTSPTransports_MarshalJSON d = sort (map proto_text (filter (\<lambda>p. p \<in> d) [ProtoUDP, ProtoUDPMulticast, ProtoTCP]))"

fun add_protos :: "string list \<Rightarrow> rtsp_proto set \<Rightarrow> rtsp_proto set result" where
  "add_protos [] d = Inr d"
| "add_protos (s # ss) d =
     bindE (enum_UnmarshalJSON (\<lambda>s. ''invalid transport: '' @ s)
              [(''udp'', ProtoUDP), (''multicast'', ProtoUDPMulticast), (''tcp'', ProtoTCP)] s) (\<lambda>v.
     add_protos ss (insert v d))"

definition RTSPTransports_UnmarshalJSON :: "string list \<Rightarrow> rtsp_proto set result" where
  "RTSPTransports_UnmarshalJSON ss = add_protos ss {}"

definition method_text :: "nat \<Rightarrow> string" where
  "method_text v = (if v = ValidateMethodBasic then ''basic'' else ''digest'')"

definition RTSPAuthMethods_MarshalJSON :: "nat list \<Rightarrow> string list" where
  "RTSPAuthMethods_MarshalJSON d = sort (map method_text d)"

fun add_methods :: "string list \<Rightarrow> nat list \<Rightarrow> nat list result" where
  "add_methods [] d = Inr d"
| "add_methods (s # ss) d =
     bindE (enum_UnmarshalJSON (\<lambda>s. ''invalid authentication method: '' @ quoted s)
              [(''basic'', ValidateMethodBasic), (''digest'', ValidateMethodDigestMD5)] s) (\<lambda>v.
     add_methods ss (d @ [v]))"

definition RTSPAuthMethods_UnmarshalJSON :: "string list \<Rightarrow> nat list result" where
  "RTSPAuthMethods_UnmarshalJSON ss = add_methods ss []"

lemma add_destinations_back:
  "distinct (d @ e) \<Longrightarrow> add_destinations (map destination_text e) d = Inr (d @ e)"
proof (induction e arbitrary: d)
  case (Cons v e)
  then show ?case
    using Cons.IH [of "d @ [v]"] by (cases v) (simp_all add: enum_UnmarshalJSON_def)
qed simp

interpretation log_destinations:
  json_form LogDestinations_MarshalJSON LogDestinations_UnmarshalJSON id distinct
  by unfold_locales
    (simp_all add: LogDestinations_MarshalJSON_def LogDestinations_UnmarshalJSON_def add_destinations_back)

lemma add_protos_texts: "set ss \<subseteq> range proto_text \<Longrightarrow> add_protos ss d = Inr (d \<union> {p. proto_text p \<in> set ss})"
proof (induction ss arbitrary: d)
  case (Cons s ss)
  then obtain p where p: "s = proto_text p" by auto
  have inj: "proto_text q = proto_text p \<longleftrightarrow> q = p" for q by (cases q; cases p) simp_all
  have "{q. proto_text q \<in> set (s # ss)} = insert p {q. proto_text q \<in> set ss}"
    by (auto simp: p inj)
  then show ?case
    using Cons by (cases p) (auto simp: p enum_UnmarshalJSON_def)
qed simp

interpretation rtsp_transports:
  json_form RTSPTransports_MarshalJSON RTSPTransports_UnmarshalJSON id "\<lambda>_. True"
proof unfold_locales
  fix d :: "rtsp_proto set"
  let ?ss = "RTSPTransports_MarshalJSON d"
  have texts: "set ?ss = proto_text ` d"
  proof -
    have "set [ProtoUDP, ProtoUDPMulticast, ProtoTCP] = UNIV"
      using rtsp_proto.exhaust by auto
    then show ?thesis by (auto simp: RTSPTransports_MarshalJSON_def simp del: filter.simps)
  qed
  have "inj proto_text"
    by (rule injI; case_tac x; case_tac y; simp)
  then have "{p. proto_text p \<in> set ?ss} = d"
    unfolding texts by (auto dest: injD)
  then show "RTSPTransports_UnmarshalJSON ?ss = Inr (id d)"
    by (simp add: RTSPTransports_UnmarshalJSON_def add_protos_texts texts image_mono)
qed simp_all

text \<open>The methods come back sorted, with any method that is not basic as digest.\<close>

definition sorted_methods :: "nat list \<Rightarrow> nat list" where
  "sorted_methods d = sort (map (\<lambda>v. if v = ValidateMethodBasic then v else ValidateMethodDigestMD5) d)"

lemma add_methods_texts: "list_all (\<lambda>v. v \<le> 1) e \<Longrightarrow> add_methods (map method_text e) d = Inr (d @ e)"
proof (induction e arbitrary: d)
  case (Cons v e)
  then have "v = 0 \<or> v = 1" by auto
  then show ?case
    using Cons by (auto simp: method_text_def enum_UnmarshalJSON_def)
qed simp

lemma sort_methods: "sort (map method_text d) = map method_text (sorted_methods d)"
proof -
  define e where "e = map (\<lambda>v. if v = ValidateMethodBasic then v else ValidateMethodDigestMD5) d"
  have same: "map method_text d = map method_text e"
    by (simp add: method_text_def e_def)
  have e: "sorted_methods d = sort e"
    by (simp add: sorted_methods_def e_def)
  have mono: "v \<le> w \<Longrightarrow> method_text v \<le> method_text w" for v w
    by (auto simp: method_text_def less_eq_char_def)
  have "sorted_wrt (\<lambda>v w. method_text v \<le> method_text w) (sorted_methods d)"
    unfolding e by (rule sorted_wrt_mono_rel [OF _ sorted_sort]) (rule mono)
  then have "sorted (map method_text (sorted_methods d))"
    by (simp add: sorted_map)
  then show ?thesis
    unfolding same by (intro properties_for_sort) (simp_all add: e)
qed

lemma sorted_methods_small: "list_all (\<lambda>v. v \<le> 1) (sorted_methods d)"
  by (auto simp: sorted_methods_def list_all_iff)

interpretation auth_methods:
  json_form RTSPAuthMethods_MarshalJSON RTSPAuthMethods_UnmarshalJSON sorted_methods "\<lambda>_. True"
proof unfold_locales
  fix d :: "nat list"
  show "RTSPAuthMethods_UnmarshalJSON (RTSPAuthMethods_MarshalJSON d) = Inr (sorted_methods d)"
    by (simp add: RTSPAuthMethods_MarshalJSON_def RTSPAuthMethods_UnmarshalJSON_def sort_methods
        add_methods_texts [OF sorted_methods_small])
  have "map method_text (sorted_methods d) = sort (map method_text d)"
    by (simp add: sort_methods)
  then show "RTSPAuthMethods_MarshalJSON (sorted_methods d) = RTSPAuthMethods_MarshalJSON d"
    by (simp add: RTSPAuthMethods_MarshalJSON_def sorted_sort_id)
qed simp_all

section \<open>Networks\<close>

record net_text =
  net_ParseCIDR :: "string \<Rightarrow> ip_net option"
  net_ParseIP :: "string \<Rightarrow> ip option"
  net_String :: "ip_net \<Rightarrow> string"

definition IPNetworks_MarshalJSON :: "net_text \<Rightarrow> ip_net list \<Rightarrow> string list" where
  "IPNetworks_MarshalJSON nt d = sort (map (net_String nt) d)"

definition parse_network :: "net_text \<Rightarrow> string \<Rightarrow> ip_net result" where
  "parse_network nt t =
     (case net_ParseCIDR nt t of
        Some n \<Rightarrow>
          (case To4 (net_IP n) of
             Some a \<Rightarrow> Inr \<lparr>net_IP = a, net_Mask = drop (length (net_Mask n) - 4) (net_Mask n)\<rparr>
           | None \<Rightarrow> Inr n)
      | None \<Rightarrow>
          (case net_ParseIP nt t of
             Some a \<Rightarrow>
               (case To4 a of
                  Some a4 \<Rightarrow> Inr \<lparr>net_IP = a4, net_Mask = replicate 4 0xFF\<rparr>
                | None \<Rightarrow> Inr \<lparr>net_IP = a, net_Mask = replicate 16 0xFF\<rparr>)
           | None \<Rightarrow> Inl (Errorf (''unable to parse IP/CIDR '' @ quoted t) [])))"

fun parse_networks :: "net_text \<Rightarrow> string list \<Rightarrow> ip_net list result" where
  "parse_networks nt [] = Inr []"
| "parse_networks nt (t # ts) =
     bindE (parse_network nt t) (\<lambda>n. bindE (parse_networks nt ts) (\<lambda>d. Inr (n # d)))"

definition IPNetworks_UnmarshalJSON :: "net_text \<Rightarrow> string list \<Rightarrow> ip_net list result" where
  "IPNetworks_UnmarshalJSON nt ts = parse_networks nt ts"

definition ToTrustedProxies :: "net_text \<Rightarrow> ip_net list \<Rightarrow> string list" where
  "ToTrustedProxies nt d = map (net_String nt) d"

text \<open>
  A network in the form that the decoder gives it, whose text is read as that network: the address has four bytes if it
  is one of IPv4.
\<close>

definition plain_net :: "net_text \<Rightarrow> ip_net \<Rightarrow> bool" where
  "plain_net nt n =
     (net_ParseCIDR nt (net_String nt n) = Some n \<and>
      (case To4 (net_IP n) of Some a \<Rightarrow> a = net_IP n \<and> length (net_Mask n) = 4 | None \<Rightarrow> True))"

definition sorted_nets :: "net_text \<Rightarrow> ip_net list \<Rightarrow> ip_net list" where
  "sorted_nets nt d = sort_key (net_String nt) d"

lemma parse_plain_net: "plain_net nt n \<Longrightarrow> parse_network nt (net_String nt n) = Inr n"
  by (cases n) (auto simp: plain_net_def parse_network_def split: option.splits)

lemma parse_plain_nets: "list_all (plain_net nt) d \<Longrightarrow> parse_networks nt (map (net_String nt) d) = Inr d"
  by (induction d) (simp_all add: parse_plain_net)

lemma sort_nets: "sort (map (net_String nt) d) = map (net_String nt) (sorted_nets nt d)"
  by (intro properties_for_sort) (simp_all add: sorted_nets_def)

lemma sorted_nets_plain [simp]: "list_all (plain_net nt) (sorted_nets nt d) = list_all (plain_net nt) d"
  by (simp add: sorted_nets_def list_all_iff)

lemma networks_back:
  "list_all (plain_net nt) d \<Longrightarrow>
   IPNetworks_UnmarshalJSON nt (IPNetworks_MarshalJSON nt d) = Inr (sorted_nets nt d)"
  by (simp add: IPNetworks_UnmarshalJSON_def IPNetworks_MarshalJSON_def sort_nets parse_plain_nets)

interpretation ip_networks:
  json_form "IPNetworks_MarshalJSON nt" "IPNetworks_UnmarshalJSON nt" "sorted_nets nt" "list_all (plain_net nt)"
  for nt
proof unfold_locales
  fix d
  have "map (net_String nt) (sorted_nets nt d) = sort (map (net_String nt) d)"
    by (simp add: sort_nets)
  then show "IPNetworks_MarshalJSON nt (sorted_nets nt d) = IPNetworks_MarshalJSON nt d"
    by (simp add: IPNetworks_MarshalJSON_def sorted_sort_id)
qed (simp_all add: networks_back)

section \<open>Sizes\<close>

record size_text =
  ByteSize :: "nat \<Rightarrow> string"
  ToBytes :: "string \<Rightarrow> nat result"

definition StringSize_MarshalJSON :: "size_text \<Rightarrow> nat \<Rightarrow> string" where
  "StringSize_MarshalJSON st s = ByteSize st s"

definition StringSize_UnmarshalJSON :: "size_text \<Rightarrow> string \<Rightarrow> nat result" where
  "StringSize_UnmarshalJSON st s = ToBytes st s"

section \<open>Durations\<close>

text \<open>The printing and the parsing of \<open>time.Duration\<close>.\<close>

record time_text =
  time_String :: "duration \<Rightarrow> string"
  time_ParseDuration :: "string \<Rightarrow> duration result"

abbreviation one_day :: duration where
  "one_day \<equiv> 86400 * second"

text \<open>The arithmetic is that of 64 bits: the negative of the smallest duration is itself.\<close>

definition Duration_MarshalJSON :: "time_text \<Rightarrow> duration \<Rightarrow> string" where
  "Duration_MarshalJSON tt d0 =
     (let negative = d0 < 0;
          d = (if negative then int64 (- d0) else d0);
          days = go_div d one_day;
          nonDays = go_mod d one_day
      in (if negative then ''-'' else []) @
         (if days > 0 then FormatInt (nat days) @ ''d'' else []) @
         (if nonDays \<noteq> 0 then time_String tt nonDays else []))"

text \<open>The expression \<open>^(-?[0-9]+)d\<close>: the text of the group and what follows the match.\<close>

definition reDays :: "string \<Rightarrow> (string \<times> string) option" where
  "reDays s =
     (let sign = (if HasPrefix s ''-'' then ''-'' else []);
          t = drop (length sign) s;
          ds = takeWhile is_digit t;
          rest = dropWhile is_digit t
      in if ds \<noteq> [] \<and> HasPrefix rest ''d'' then Some (sign @ ds, tl rest) else None)"

definition Duration_UnmarshalJSON :: "time_text \<Rightarrow> string \<Rightarrow> duration result" where
  "Duration_UnmarshalJSON tt s =
     (let (negative, days, rest) =
        (case reDays s of
           None \<Rightarrow> (False, 0, s)
         | Some (m, rest) \<Rightarrow>
             (let days = fst (parse_int m 64) in
              if days < 0 then (True, int64 (- days), rest) else (False, days, rest)))
      in bindE (if rest \<noteq> [] then time_ParseDuration tt rest else Inr 0) (\<lambda>nonDays.
         let nonDays = int64 (nonDays + int64 (int64 (days * 24) * (3600 * second)))
         in Inr (if negative then int64 (- nonDays) else nonDays)))"

text \<open>
  What \<open>time.Duration\<close> promises of one duration between zero and a day: its text, with a sign or without, is read as it, and
  does not begin with a number of days.
\<close>

definition plain_time :: "time_text \<Rightarrow> duration \<Rightarrow> bool" where
  "plain_time tt n =
     (time_String tt n \<noteq> [] \<and> time_ParseDuration tt (time_String tt n) = Inr n \<and>
      time_ParseDuration tt (''-'' @ time_String tt n) = Inr (- n) \<and>
      reDays (time_String tt n) = None \<and> reDays (''-'' @ time_String tt n) = None)"

text \<open>A duration that has an opposite, and whose part below a day is one that is printed and read back.\<close>

definition plain_duration :: "time_text \<Rightarrow> duration \<Rightarrow> bool" where
  "plain_duration tt d =
     (\<bar>d\<bar> < 9223372036854775808 \<and> (\<bar>d\<bar> mod one_day \<noteq> 0 \<longrightarrow> plain_time tt (\<bar>d\<bar> mod one_day)))"

lemma takeWhile_digits: "list_all is_digit ds \<Longrightarrow> takeWhile is_digit (ds @ CHR ''d'' # t) = ds"
  by (induction ds) (simp_all add: is_digit_def)

lemma dropWhile_digits: "list_all is_digit ds \<Longrightarrow> dropWhile is_digit (ds @ CHR ''d'' # t) = CHR ''d'' # t"
  by (induction ds) (simp_all add: is_digit_def)

lemma digits_no_sign: "ds \<noteq> [] \<Longrightarrow> list_all is_digit ds \<Longrightarrow> hd ds \<noteq> CHR ''-'' \<and> hd ds \<noteq> CHR ''+''"
  by (cases ds) (auto simp: is_digit_def)

lemma reDays_days: "reDays (FormatInt n @ CHR ''d'' # t) = Some (FormatInt n, t)"
  using FormatInt_all_digits [of n] digits_no_sign [of "FormatInt n"]
  by (cases "FormatInt n") (simp_all add: reDays_def Let_def takeWhile_digits dropWhile_digits)

lemma reDays_minus_days: "reDays (CHR ''-'' # FormatInt n @ CHR ''d'' # t) = Some (CHR ''-'' # FormatInt n, t)"
  using FormatInt_all_digits [of n] by (simp add: reDays_def Let_def takeWhile_digits dropWhile_digits)

lemma parse_int_FormatInt:
  assumes "n < 9223372036854775808"
  shows "parse_int (FormatInt n) 64 = (int n, None)" "parse_int (CHR ''-'' # FormatInt n) 64 = (- int n, None)"
  using assms FormatInt_all_digits [of n] digits_no_sign [of "FormatInt n"]
  by (simp_all add: parse_int_def Let_def digits_value_FormatInt)

lemma int64_zero [simp]: "int64 0 = 0"
  by (simp add: abs_fits)

lemma reDays_Nil [simp]: "reDays [] = None"
  by (simp add: reDays_def)

lemma duration_days_fit:
  assumes "0 \<le> a" "a < 9223372036854775808"
  shows "int64 (a mod one_day + int64 (int64 (a div one_day * 24) * (3600 * second))) = a"
    "int64 (- (a div one_day)) = - (a div one_day)" "int64 (- a) = - a" "int64 a = a"
proof -
  have parts: "a div one_day * one_day + a mod one_day = a" by simp
  have mod_nonneg: "0 \<le> a mod one_day" by simp
  have quot: "0 \<le> a div one_day" "a div one_day \<le> 106751"
    using assms by (simp_all add: pos_imp_zdiv_nonneg_iff zdiv_mono1 [of a 9223372036854775807, simplified])
  have fit: "fits64 (a div one_day * 24)" "fits64 (a div one_day * 24 * (3600 * second))"
    using parts mod_nonneg quot assms by (auto intro!: abs_fits)
  have "a mod one_day + a div one_day * 24 * (3600 * second) = a"
    using parts by simp
  then show "int64 (a mod one_day + int64 (int64 (a div one_day * 24) * (3600 * second))) = a"
    using fit assms by (simp add: abs_fits)
  show "int64 (- (a div one_day)) = - (a div one_day)" "int64 (- a) = - a" "int64 a = a"
    using quot assms by (simp_all add: abs_fits)
qed

lemma duration_text:
  assumes "\<bar>d\<bar> < 9223372036854775808"
  shows "Duration_MarshalJSON tt d =
     (if d < 0 then ''-'' else []) @
     (if \<bar>d\<bar> div one_day > 0 then FormatInt (nat (\<bar>d\<bar> div one_day)) @ ''d'' else []) @
     (if \<bar>d\<bar> mod one_day \<noteq> 0 then time_String tt (\<bar>d\<bar> mod one_day) else [])"
proof -
  have "(if d < 0 then int64 (- d) else d) = \<bar>d\<bar>"
    using assms duration_days_fit(4) [of "\<bar>d\<bar>"] by (cases "d < 0") simp_all
  then show ?thesis
    by (simp add: Duration_MarshalJSON_def Let_def go_div_nonneg go_mod_nonneg)
qed

lemma duration_back:
  assumes "plain_duration tt d"
  shows "Duration_UnmarshalJSON tt (Duration_MarshalJSON tt d) = Inr d"
proof -
  define a where "a = \<bar>d\<bar>"
  define q where "q = a div one_day"
  define r where "r = a mod one_day"
  have a: "0 \<le> a" "a < 9223372036854775808" and d: "d = (if d < 0 then - a else a)"
    and tm: "r \<noteq> 0 \<Longrightarrow> plain_time tt r"
    using assms by (auto simp: plain_duration_def a_def r_def)
  have q: "0 \<le> q" "q < 9223372036854775808"
    using a by (auto simp: q_def pos_imp_zdiv_nonneg_iff intro: le_less_trans [OF zdiv_mono1 [of a 9223372036854775807]])
  have fit: "int64 (r + int64 (int64 (q * 24) * (3600 * second))) = a" "int64 (- q) = - q" "int64 (- a) = - a"
    using duration_days_fit [OF a] by (simp_all add: q_def r_def)
  have printed: "Duration_MarshalJSON tt d =
     (if d < 0 then ''-'' else []) @ (if q > 0 then FormatInt (nat q) @ ''d'' else []) @
     (if r \<noteq> 0 then time_String tt r else [])"
    using duration_text [of d tt] a by (simp add: a_def q_def r_def)
  have small: "nat q < 9223372036854775808" using q by linarith
  have whole: "q = 0 \<Longrightarrow> int64 r = a \<and> int64 (- r) = - a"
    using fit(3) a duration_days_fit(4) [OF a] by (auto simp: q_def r_def)
  show ?thesis
  proof (cases "q > 0")
    case True
    then show ?thesis
      unfolding printed using fit d tm q duration_days_fit(4) [OF q] parse_int_FormatInt [OF small]
      by (cases "d < 0"; cases "r = 0")
        (simp_all add: Duration_UnmarshalJSON_def reDays_days reDays_minus_days plain_time_def Let_def)
  next
    case False
    then have "q = 0" using q by simp
    with whole have r: "int64 r = a" "int64 (- r) = - a" by simp_all
    show ?thesis
      unfolding printed using r d tm False \<open>q = 0\<close> a
      by (cases "d < 0"; cases "r = 0")
        (auto simp: Duration_UnmarshalJSON_def plain_time_def Let_def)
  qed
qed

interpretation durations:
  json_form "Duration_MarshalJSON tt" "Duration_UnmarshalJSON tt" id "plain_duration tt" for tt
  by unfold_locales (simp_all add: duration_back)

section \<open>The forms together\<close>


text \<open>Two networks in the wrong order, and a day and two hours.\<close>

definition sample_net :: "u8 \<Rightarrow> ip_net" where
  "sample_net b = \<lparr>net_IP = [10, 0, 0, b], net_Mask = [255, 255, 255, 255]\<rparr>"

definition sample_net_text :: net_text where
  "sample_net_text =
     \<lparr>net_ParseCIDR = map_of [(''10.0.0.1/32'', sample_net 1), (''10.0.0.2/32'', sample_net 2)],
      net_ParseIP = \<lambda>_. None,
      net_String = \<lambda>n. if n = sample_net 1 then ''10.0.0.1/32'' else ''10.0.0.2/32''\<rparr>"

definition sample_time_text :: time_text where
  "sample_time_text =
     \<lparr>time_String = \<lambda>_. ''2h0m0s'',
      time_ParseDuration =
        \<lambda>s. if s = ''2h0m0s'' then Inr (7200 * second) else if s = ''-2h0m0s'' then Inr (- 7200 * second)
            else Inl (Errorf ''time: invalid duration'' [])\<rparr>"

lemma sample_net_neq [simp]: "sample_net 2 \<noteq> sample_net 1"
  by (simp add: sample_net_def)


end
