(* ===== verification/ConfValidate.thy ===== *)
theory ConfValidate
  imports ConfJson
begin

text \<open>
  \<open>Clone\<close> and \<open>Validate\<close> of the configuration (internal/conf/conf.go). Warnings about deprecated parameters are left out.

  \<open>Clone\<close> prints the configuration as JSON and reads it into a new structure. What is not given back as it was is written
  out: networks and authentication methods come back sorted, a size comes back as bytefmt prints it, the paths, which have
  no JSON form, are gone. The other fields come back as they were (theorem \<open>conf_forms_roundtrip\<close>).
\<close>

section \<open>Cloning\<close>

record conf_text =
  ct_net :: net_text
  ct_size :: size_text

definition clone_nets :: "conf_text \<Rightarrow> ip_net list \<Rightarrow> ip_net list result" where
  "clone_nets ct d = IPNetworks_UnmarshalJSON (ct_net ct) (IPNetworks_MarshalJSON (ct_net ct) d)"

fun clone_opt_nets :: "conf_text \<Rightarrow> ip_net list option \<Rightarrow> ip_net list option result" where
  "clone_opt_nets ct None = Inr None"
| "clone_opt_nets ct (Some d) = map_sum id Some (clone_nets ct d)"

definition clone_http :: "conf_text \<Rightarrow> http_conf \<Rightarrow> http_conf result" where
  "clone_http ct h =
     bindE (clone_nets ct (hc_TrustedProxies h)) (\<lambda>d. Inr (h\<lparr>hc_TrustedProxies := d\<rparr>))"

fun clone_users :: "conf_text \<Rightarrow> auth_internal_user list \<Rightarrow> auth_internal_user list result" where
  "clone_users ct [] = Inr []"
| "clone_users ct (u # us) =
     bindE (clone_nets ct (IPs u)) (\<lambda>d. bindE (clone_users ct us) (\<lambda>us'. Inr (u\<lparr>IPs := d\<rparr> # us')))"

fun clone_opt_users :: "conf_text \<Rightarrow> auth_internal_user list option \<Rightarrow> auth_internal_user list option result" where
  "clone_opt_users ct None = Inr None"
| "clone_opt_users ct (Some us) = map_sum id Some (clone_users ct us)"

definition clone_deprecated :: "conf_text \<Rightarrow> deprecated_conf \<Rightarrow> deprecated_conf result" where
  "clone_deprecated ct d =
     bindE (clone_opt_nets ct (PublishIPs d)) (\<lambda>p. bindE (clone_opt_nets ct (ReadIPs d)) (\<lambda>r.
     Inr (d\<lparr>PublishIPs := p, ReadIPs := r\<rparr>)))"

fun clone_paths ::
    "conf_text \<Rightarrow> (string \<times> optional_path option) list \<Rightarrow> (string \<times> optional_path option) list result" where
  "clone_paths ct [] = Inr []"
| "clone_paths ct ((nm, None) # ps) = bindE (clone_paths ct ps) (\<lambda>ps'. Inr ((nm, None) # ps'))"
| "clone_paths ct ((nm, Some p) # ps) =
     bindE (clone_deprecated ct (oDeprecated p)) (\<lambda>d.
     bindE (clone_paths ct ps) (\<lambda>ps'. Inr ((nm, Some (p\<lparr>oDeprecated := d\<rparr>)) # ps')))"

text \<open>The deprecated list of authentication methods.\<close>

fun clone_opt_methods :: "nat list option \<Rightarrow> nat list option result" where
  "clone_opt_methods None = Inr None"
| "clone_opt_methods (Some ms) =
     map_sum id Some (RTSPAuthMethods_UnmarshalJSON (RTSPAuthMethods_MarshalJSON ms))"

text \<open>An error of the decoder is a panic.\<close>

definition no_error :: "'a result \<Rightarrow> 'a result" where
  "no_error r = (case r of Inl _ \<Rightarrow> Inl Panic | Inr v \<Rightarrow> Inr v)"

definition Clone :: "conf_text \<Rightarrow> conf \<Rightarrow> conf result" where
  "Clone ct c = no_error (
     bindE (clone_http ct (cf_API c)) (\<lambda>api.
     bindE (clone_http ct (cf_Metrics c)) (\<lambda>metrics.
     bindE (clone_http ct (cf_PPROF c)) (\<lambda>pprof.
     bindE (clone_http ct (cf_Playback c)) (\<lambda>playback.
     bindE (clone_http ct (hl_http (cf_HLS c))) (\<lambda>hls.
     bindE (clone_http ct (wr_http (cf_WebRTC c))) (\<lambda>webrtc.
     bindE (clone_opt_users ct (cf_AuthInternalUsers c)) (\<lambda>users.
     bindE (RTSPAuthMethods_UnmarshalJSON (RTSPAuthMethods_MarshalJSON (rs_AuthMethods (cf_RTSP c)))) (\<lambda>methods.
     bindE (clone_opt_methods (dAuthMethods (cf_Deprecated c))) (\<lambda>old_methods.
     bindE (StringSize_UnmarshalJSON (ct_size ct) (StringSize_MarshalJSON (ct_size ct) (hl_SegmentMaxSize (cf_HLS c)))) (\<lambda>size.
     bindE (clone_deprecated ct (Deprecated (cf_PathDefaults c))) (\<lambda>deprecated.
     bindE (clone_paths ct (cf_OptionalPaths c)) (\<lambda>paths.
     Inr (c
       \<lparr>cf_API := api, cf_Metrics := metrics, cf_PPROF := pprof, cf_Playback := playback,
        cf_HLS := (cf_HLS c)\<lparr>hl_http := hls, hl_SegmentMaxSize := size\<rparr>,
        cf_WebRTC := (cf_WebRTC c)\<lparr>wr_http := webrtc\<rparr>,
        cf_AuthInternalUsers := users,
        cf_RTSP := (cf_RTSP c)\<lparr>rs_AuthMethods := methods\<rparr>,
        cf_Deprecated := (cf_Deprecated c)\<lparr>dAuthMethods := old_methods\<rparr>,
        cf_PathDefaults := (cf_PathDefaults c)\<lparr>Regexp := None, Deprecated := deprecated\<rparr>,
        cf_OptionalPaths := paths, cf_Paths := []\<rparr>))))))))))))))"

section \<open>Validation\<close>

definition credentials_set :: "deprecated_conf \<Rightarrow> bool" where
  "credentials_set d =
     (PublishUser d \<noteq> None \<or> PublishPass d \<noteq> None \<or> PublishIPs d \<noteq> None \<or>
      ReadUser d \<noteq> None \<or> ReadPass d \<noteq> None \<or> ReadIPs d \<noteq> None)"

definition anyPathHasDeprecatedCredentials :: "path_conf \<Rightarrow> (string \<times> optional_path option) list \<Rightarrow> bool" where
  "anyPathHasDeprecatedCredentials defaults paths =
     (credentials_set (Deprecated defaults) \<or>
      list_ex (\<lambda>(_, p). case p of Some p \<Rightarrow> credentials_set (oDeprecated p) | None \<Rightarrow> False) paths)"

definition legacyUsers :: "auth_internal_user list" where
  "legacyUsers =
     [\<lparr>User = ''any'', Pass = [], IPs = [], Permissions = [grant AuthActionPlayback]\<rparr>,
      \<lparr>User = ''any'', Pass = [], IPs = localhost,
       Permissions = [grant AuthActionAPI, grant AuthActionMetrics, grant AuthActionPprof]\<rparr>]"

text \<open>\<open>n & (n - 1)\<close> on 64 bits.\<close>

definition power_of_two :: "int \<Rightarrow> bool" where
  "power_of_two n = ((word_of_int n :: u64) AND (word_of_int n - 1) = 0)"

definition validate_general :: "conf \<Rightarrow> conf result" where
  "validate_general c =
     bindE (require (cf_ReadTimeout c > 0) (quoted ''readTimeout'' @ '' must be greater than zero'')) (\<lambda>_.
     bindE (require (cf_WriteTimeout c > 0) (quoted ''writeTimeout'' @ '' must be greater than zero'')) (\<lambda>_.
     let c1 = c\<lparr>cf_WriteQueueSize := set_value (dReadBufferCount (cf_Deprecated c)) (cf_WriteQueueSize c)\<rparr> in
     bindE (require (power_of_two (cf_WriteQueueSize c1)) (quoted ''writeQueueSize'' @ '' must be a power of two'')) (\<lambda>_.
     bindE (require (cf_UDPMaxPayloadSize c1 \<le> 1472) (quoted ''udpMaxPayloadSize'' @ '' must be less than 1472'')) (\<lambda>_.
     Inr c1))))"

definition http_url :: "string \<Rightarrow> bool" where
  "http_url s = HasAnyPrefix s [''http://'', ''https://'']"

definition external_auth :: "conf \<Rightarrow> conf" where
  "external_auth c =
     (case dExternalAuthenticationURL (cf_Deprecated c) of
        None \<Rightarrow> c
      | Some u \<Rightarrow> c\<lparr>cf_AuthMethod := AuthMethodHTTP, cf_AuthHTTPAddress := u\<rparr>)"

definition legacy_conflict :: go_error where
  "legacy_conflict = Errorf (''authInternalUsers and legacy credentials (publishUser, publishPass, publishIPs, readUser, readPass, readIPs) '' @
                            ''cannot be used together'') []"

text \<open>The users under the deprecated credentials, and whether these are in use.\<close>

definition validate_users :: "conf \<Rightarrow> (conf \<times> bool) result" where
  "validate_users c =
     (if anyPathHasDeprecatedCredentials (cf_PathDefaults c) (cf_OptionalPaths c) then
        (if cf_AuthInternalUsers c \<noteq> None \<and> cf_AuthInternalUsers c \<noteq> Some defaultAuthInternalUsers
         then Inl legacy_conflict
         else Inr (c\<lparr>cf_AuthInternalUsers := Some legacyUsers\<rparr>, True))
      else Inr (c, False))"

definition validate_method :: "conf \<Rightarrow> unit result" where
  "validate_method c =
     (case cf_AuthMethod c of
        AuthMethodHTTP \<Rightarrow> require (cf_AuthHTTPAddress c \<noteq> []) (quoted ''authHTTPAddress'' @ '' is empty'')
      | AuthMethodJWT \<Rightarrow>
          bindE (require (cf_AuthJWTJWKS c \<noteq> []) (quoted ''authJWTJWKS'' @ '' is empty'')) (\<lambda>_.
          require (cf_AuthJWTClaimKey c \<noteq> []) (quoted ''authJWTClaimKey'' @ '' is empty''))
      | AuthMethodInternal \<Rightarrow> Inr ())"

definition validate_authentication :: "conf \<Rightarrow> (conf \<times> bool) result" where
  "validate_authentication c0 =
     (let c = external_auth c0 in
      bindE (require (cf_AuthHTTPAddress c = [] \<or> http_url (cf_AuthHTTPAddress c))
        (quoted ''externalAuthenticationURL'' @ '' must be a HTTP URL'')) (\<lambda>_.
      bindE (require (cf_AuthJWTJWKS c = [] \<or> http_url (cf_AuthJWTJWKS c)) (quoted ''authJWTJWKS'' @ '' must be a HTTP URL'')) (\<lambda>_.
      bindE (validate_users c) (\<lambda>(c, legacy).
      bindE (validate_method c) (\<lambda>_. Inr (c, legacy))))))"

definition users_of :: "conf \<Rightarrow> auth_internal_user list" where
  "users_of c = set_value (cf_AuthInternalUsers c) []"

definition rtsp_replaced :: "deprecated_global \<Rightarrow> rtsp_conf \<Rightarrow> rtsp_conf" where
  "rtsp_replaced d r = r
     \<lparr>rs_RTSP := (case dRTSPDisable d of Some b \<Rightarrow> \<not> b | None \<Rightarrow> rs_RTSP r),
      rs_Transports := set_value (dProtocols d) (rs_Transports r),
      rs_Encryption := set_value (dGEncryption d) (rs_Encryption r),
      rs_AuthMethods := set_value (dAuthMethods d) (rs_AuthMethods r),
      rs_ServerCert := set_value (dServerCert d) (rs_ServerCert r),
      rs_ServerKey := set_value (dServerKey d) (rs_ServerKey r)\<rparr>"

definition validate_rtsp_server :: "conf \<Rightarrow> conf result" where
  "validate_rtsp_server c0 =
     (let r = rtsp_replaced (cf_Deprecated c0) (cf_RTSP c0); c = c0\<lparr>cf_RTSP := r\<rparr> in
      bindE (require (rs_Encryption r = EncryptionStrict \<longrightarrow> ProtoUDP \<notin> rs_Transports r)
        ''strict encryption cannot be used with the UDP transport protocol'') (\<lambda>_.
      bindE (require (rs_Encryption r = EncryptionStrict \<longrightarrow> ProtoUDPMulticast \<notin> rs_Transports r)
        ''strict encryption cannot be used with the UDP-multicast transport protocol'') (\<lambda>_.
      bindE (if ValidateMethodDigestMD5 \<in> set (rs_AuthMethods r) then
          bindE (require (cf_AuthMethod c = AuthMethodInternal)
            (''when RTSP digest is enabled, the only supported auth method is '' @ quoted ''internal'')) (\<lambda>_.
          require (\<not> list_ex (\<lambda>u. IsHashed (User u) \<or> IsHashed (Pass u)) (users_of c))
            ''when RTSP digest is enabled, hashed credentials cannot be used'')
        else Inr ()) (\<lambda>_.
      Inr c))))"

definition servers_replaced :: "conf \<Rightarrow> conf" where
  "servers_replaced c =
     (let d = cf_Deprecated c in c
      \<lparr>cf_RTMP := (cf_RTMP c)\<lparr>rm_RTMP := (case dRTMPDisable d of Some b \<Rightarrow> \<not> b | None \<Rightarrow> rm_RTMP (cf_RTMP c))\<rparr>,
       cf_HLS := (cf_HLS c)\<lparr>hl_http := (hl_http (cf_HLS c))
         \<lparr>hc_Enabled := (case dHLSDisable d of Some b \<Rightarrow> \<not> b | None \<Rightarrow> hc_Enabled (hl_http (cf_HLS c)))\<rparr>\<rparr>\<rparr>)"

text \<open>One entry of the deprecated list of ICE servers, with or without a user.\<close>

definition ice_of :: "string \<Rightarrow> ice_server" where
  "ice_of server =
     (case Split server CHR '':'' of
        [p0, p1, p2, p3, p4] \<Rightarrow>
          \<lparr>ice_URL = p0 @ '':'' @ p3 @ '':'' @ p4, ice_Username = p1, ice_Password = p2, ice_ClientOnly = False\<rparr>
      | _ \<Rightarrow> \<lparr>ice_URL = server, ice_Username = [], ice_Password = [], ice_ClientOnly = False\<rparr>)"

definition webrtc_replaced :: "deprecated_global \<Rightarrow> webrtc_conf \<Rightarrow> webrtc_conf" where
  "webrtc_replaced d w = w
     \<lparr>wr_http := (wr_http w)\<lparr>hc_Enabled := (case dWebRTCDisable d of Some b \<Rightarrow> \<not> b | None \<Rightarrow> hc_Enabled (wr_http w))\<rparr>,
      wr_LocalUDPAddress := set_value (dWebRTCICEUDPMuxAddress d) (wr_LocalUDPAddress w),
      wr_LocalTCPAddress := set_value (dWebRTCICETCPMuxAddress d) (wr_LocalTCPAddress w),
      wr_AdditionalHosts := set_value (dWebRTCICEHostNAT1To1IPs d) (wr_AdditionalHosts w),
      wr_ICEServers2 := wr_ICEServers2 w @ map ice_of (set_value (dWebRTCICEServers d) [])\<rparr>"

definition validate_webrtc_server :: "conf \<Rightarrow> conf result" where
  "validate_webrtc_server c =
     (let w = webrtc_replaced (cf_Deprecated c) (cf_WebRTC c) in
      bindE (case find (\<lambda>s. \<not> HasAnyPrefix (ice_URL s) [''stun:'', ''turn:'', ''turns:'']) (wr_ICEServers2 w) of
          Some s \<Rightarrow> Inl (Errorf (''invalid ICE server: '' @ quoted (ice_URL s)) [])
        | None \<Rightarrow> Inr ()) (\<lambda>_.
      bindE (require (\<not> (wr_LocalUDPAddress w = [] \<and> wr_LocalTCPAddress w = [] \<and> wr_ICEServers2 w = []))
        (''at least one between '' @ quoted ''webrtcLocalUDPAddress'' @ '', '' @ quoted ''webrtcLocalTCPAddress'' @ '' or '' @
          quoted ''webrtcICEServers2'' @ '' must be filled'')) (\<lambda>_.
      bindE (require (\<not> ((wr_LocalUDPAddress w \<noteq> [] \<or> wr_LocalTCPAddress w \<noteq> []) \<and>
                         \<not> wr_IPsFromInterfaces w \<and> wr_AdditionalHosts w = []))
        (''at least one between '' @ quoted ''webrtcIPsFromInterfaces'' @ '' or '' @ quoted ''webrtcAdditionalHosts'' @
         '' must be filled'')) (\<lambda>_.
      Inr (c\<lparr>cf_WebRTC := w\<rparr>)))))"

definition record_replaced :: "conf \<Rightarrow> conf" where
  "record_replaced c =
     (let d = cf_Deprecated c; p = cf_PathDefaults c in c
      \<lparr>cf_PathDefaults := p
        \<lparr>Record := set_value (dGRecord d) (Record p), RecordPath := set_value (dGRecordPath d) (RecordPath p),
         RecordFormat := set_value (dGRecordFormat d) (RecordFormat p),
         RecordPartDuration := set_value (dGRecordPartDuration d) (RecordPartDuration p),
         RecordSegmentDuration := set_value (dGRecordSegmentDuration d) (RecordSegmentDuration p),
         RecordDeleteAfter := set_value (dGRecordDeleteAfter d) (RecordDeleteAfter p)\<rparr>\<rparr>)"

definition all_others_alias :: "string \<Rightarrow> bool" where
  "all_others_alias nm = (nm = ''all'' \<or> nm = ''all_others'' \<or> nm = ''~^.*$'')"

definition validate_aliases :: "conf \<Rightarrow> unit result" where
  "validate_aliases c =
     require (length (filter (all_others_alias \<circ> fst) (cf_OptionalPaths c)) \<le> 1)
       (''all_others, all and '' @ quoted ''~^.*$'' @ '' are aliases'')"

text \<open>The loop that fills the paths; a nil entry becomes one without values.\<close>

definition fill_optional :: "(string \<times> optional_path option) list \<Rightarrow> (string \<times> optional_path option) list" where
  "fill_optional ps = map (\<lambda>(nm, p). (nm, Some (case p of Some p \<Rightarrow> p | None \<Rightarrow> newOptionalPathValues))) ps"

definition conf_sortedKeys :: "(string \<times> 'a) list \<Rightarrow> string list" where
  "conf_sortedKeys ps = sort (map fst ps)"

definition make_path :: "conf \<Rightarrow> string \<Rightarrow> path_conf" where
  "make_path c nm =
     (case map_of (cf_OptionalPaths c) nm of
        Some (Some p) \<Rightarrow> newPath (cf_PathDefaults c) p
      | _ \<Rightarrow> newPath (cf_PathDefaults c) newOptionalPathValues)"

definition fill_paths :: "conf \<Rightarrow> conf" where
  "fill_paths c0 =
     (let c = c0\<lparr>cf_OptionalPaths := fill_optional (cf_OptionalPaths c0)\<rparr> in
      c\<lparr>cf_Paths := map (\<lambda>nm. (nm, make_path c nm)) (conf_sortedKeys (cf_OptionalPaths c))\<rparr>)"

text \<open>What the validation of a path sees of the configuration.\<close>

definition global_view :: "conf \<Rightarrow> global_conf" where
  "global_view c =
     \<lparr>conf_Paths = cf_Paths c, conf_Playback = hc_Enabled (cf_Playback c), AuthInternalUsers = users_of c\<rparr>"

definition set_users :: "auth_internal_user list \<Rightarrow> conf \<Rightarrow> conf" where
  "set_users us c = (if us = users_of c then c else c\<lparr>cf_AuthInternalUsers := Some us\<rparr>)"

fun validate_paths :: "conf_env \<Rightarrow> bool \<Rightarrow> string list \<Rightarrow> conf \<Rightarrow> conf result" where
  "validate_paths env legacy [] c = Inr c"
| "validate_paths env legacy (nm # nms) c =
     (case map_of (cf_Paths c) nm of
        None \<Rightarrow> Inl Panic
      | Some p \<Rightarrow>
          bindE (validate env (global_view c) nm legacy p) (\<lambda>(p', g).
          validate_paths env legacy nms
            (set_users (AuthInternalUsers g) (c\<lparr>cf_Paths := AList.update nm p' (cf_Paths c)\<rparr>))))"

definition Validate :: "conf_env \<Rightarrow> conf \<Rightarrow> conf result" where
  "Validate env c0 =
     bindE (validate_general c0) (\<lambda>c1.
     bindE (validate_authentication c1) (\<lambda>(c2, legacy).
     bindE (validate_rtsp_server c2) (\<lambda>c3.
     bindE (validate_webrtc_server (servers_replaced c3)) (\<lambda>c4.
     let c5 = record_replaced c4 in
     bindE (validate_aliases c5) (\<lambda>_.
     let c6 = fill_paths c5 in
     validate_paths env legacy (conf_sortedKeys (cf_OptionalPaths c6)) c6)))))"

end
