(* ===== verification/ConfProperties.thy ===== *)
theory ConfProperties
  imports ConfValidate
begin

text \<open>
  What the validation of a configuration guarantees, that it may be repeated, and when it may not.
\<close>

section \<open>What the stages leave alone\<close>

lemma external_auth_same [simp]:
  "cf_ReadTimeout (external_auth c) = cf_ReadTimeout c" "cf_WriteTimeout (external_auth c) = cf_WriteTimeout c"
  "cf_WriteQueueSize (external_auth c) = cf_WriteQueueSize c"
  "cf_UDPMaxPayloadSize (external_auth c) = cf_UDPMaxPayloadSize c"
  "cf_AuthJWTJWKS (external_auth c) = cf_AuthJWTJWKS c"
  "cf_AuthJWTClaimKey (external_auth c) = cf_AuthJWTClaimKey c"
  "cf_AuthInternalUsers (external_auth c) = cf_AuthInternalUsers c" "cf_RTSP (external_auth c) = cf_RTSP c"
  "cf_WebRTC (external_auth c) = cf_WebRTC c" "cf_OptionalPaths (external_auth c) = cf_OptionalPaths c"
  "cf_PathDefaults (external_auth c) = cf_PathDefaults c" "cf_Deprecated (external_auth c) = cf_Deprecated c"
  "cf_Playback (external_auth c) = cf_Playback c"
  by (simp_all add: external_auth_def split: option.split)

lemma servers_replaced_same [simp]:
  "cf_ReadTimeout (servers_replaced c) = cf_ReadTimeout c"
  "cf_WriteTimeout (servers_replaced c) = cf_WriteTimeout c"
  "cf_WriteQueueSize (servers_replaced c) = cf_WriteQueueSize c"
  "cf_UDPMaxPayloadSize (servers_replaced c) = cf_UDPMaxPayloadSize c"
  "cf_AuthMethod (servers_replaced c) = cf_AuthMethod c"
  "cf_AuthHTTPAddress (servers_replaced c) = cf_AuthHTTPAddress c"
  "cf_AuthJWTJWKS (servers_replaced c) = cf_AuthJWTJWKS c"
  "cf_AuthJWTClaimKey (servers_replaced c) = cf_AuthJWTClaimKey c"
  "cf_AuthInternalUsers (servers_replaced c) = cf_AuthInternalUsers c"
  "cf_RTSP (servers_replaced c) = cf_RTSP c" "cf_WebRTC (servers_replaced c) = cf_WebRTC c"
  "cf_OptionalPaths (servers_replaced c) = cf_OptionalPaths c"
  "cf_PathDefaults (servers_replaced c) = cf_PathDefaults c"
  "cf_Deprecated (servers_replaced c) = cf_Deprecated c" "cf_Playback (servers_replaced c) = cf_Playback c"
  by (simp_all add: servers_replaced_def Let_def)

lemma record_replaced_same [simp]:
  "cf_ReadTimeout (record_replaced c) = cf_ReadTimeout c"
  "cf_WriteTimeout (record_replaced c) = cf_WriteTimeout c"
  "cf_WriteQueueSize (record_replaced c) = cf_WriteQueueSize c"
  "cf_UDPMaxPayloadSize (record_replaced c) = cf_UDPMaxPayloadSize c"
  "cf_AuthMethod (record_replaced c) = cf_AuthMethod c"
  "cf_AuthHTTPAddress (record_replaced c) = cf_AuthHTTPAddress c"
  "cf_AuthJWTJWKS (record_replaced c) = cf_AuthJWTJWKS c"
  "cf_AuthJWTClaimKey (record_replaced c) = cf_AuthJWTClaimKey c"
  "cf_AuthInternalUsers (record_replaced c) = cf_AuthInternalUsers c" "cf_RTSP (record_replaced c) = cf_RTSP c"
  "cf_WebRTC (record_replaced c) = cf_WebRTC c" "cf_OptionalPaths (record_replaced c) = cf_OptionalPaths c"
  "cf_Deprecated (record_replaced c) = cf_Deprecated c" "cf_Playback (record_replaced c) = cf_Playback c"
  by (simp_all add: record_replaced_def Let_def)

lemma fill_paths_same [simp]:
  "cf_ReadTimeout (fill_paths c) = cf_ReadTimeout c" "cf_WriteTimeout (fill_paths c) = cf_WriteTimeout c"
  "cf_WriteQueueSize (fill_paths c) = cf_WriteQueueSize c"
  "cf_UDPMaxPayloadSize (fill_paths c) = cf_UDPMaxPayloadSize c"
  "cf_AuthMethod (fill_paths c) = cf_AuthMethod c" "cf_AuthHTTPAddress (fill_paths c) = cf_AuthHTTPAddress c"
  "cf_AuthJWTJWKS (fill_paths c) = cf_AuthJWTJWKS c" "cf_AuthJWTClaimKey (fill_paths c) = cf_AuthJWTClaimKey c"
  "cf_AuthInternalUsers (fill_paths c) = cf_AuthInternalUsers c" "cf_RTSP (fill_paths c) = cf_RTSP c"
  "cf_WebRTC (fill_paths c) = cf_WebRTC c" "cf_PathDefaults (fill_paths c) = cf_PathDefaults c"
  "cf_Deprecated (fill_paths c) = cf_Deprecated c" "cf_Playback (fill_paths c) = cf_Playback c"
  by (simp_all add: fill_paths_def Let_def)

lemma fill_paths_optional [simp]: "cf_OptionalPaths (fill_paths c) = fill_optional (cf_OptionalPaths c)"
  by (simp add: fill_paths_def Let_def)

section \<open>The stages\<close>

lemma validate_general_Inr:
  "validate_general c = Inr c1 \<longleftrightarrow>
     c1 = c\<lparr>cf_WriteQueueSize := set_value (dReadBufferCount (cf_Deprecated c)) (cf_WriteQueueSize c)\<rparr> \<and>
     0 < cf_ReadTimeout c1 \<and> 0 < cf_WriteTimeout c1 \<and> power_of_two (cf_WriteQueueSize c1) \<and>
     cf_UDPMaxPayloadSize c1 \<le> 1472"
  by (auto simp: validate_general_def Let_def bindE_eq_Inr)

definition auth_settings_ok :: "conf \<Rightarrow> bool" where
  "auth_settings_ok c =
     ((cf_AuthHTTPAddress c = [] \<or> http_url (cf_AuthHTTPAddress c)) \<and>
      (cf_AuthJWTJWKS c = [] \<or> http_url (cf_AuthJWTJWKS c)) \<and>
      (cf_AuthMethod c = AuthMethodHTTP \<longrightarrow> cf_AuthHTTPAddress c \<noteq> []) \<and>
      (cf_AuthMethod c = AuthMethodJWT \<longrightarrow> cf_AuthJWTJWKS c \<noteq> [] \<and> cf_AuthJWTClaimKey c \<noteq> []))"

lemma validate_method_Inr:
  "validate_method c = Inr u \<longleftrightarrow>
     (cf_AuthMethod c = AuthMethodHTTP \<longrightarrow> cf_AuthHTTPAddress c \<noteq> []) \<and>
     (cf_AuthMethod c = AuthMethodJWT \<longrightarrow> cf_AuthJWTJWKS c \<noteq> [] \<and> cf_AuthJWTClaimKey c \<noteq> [])"
  by (auto simp: validate_method_def bindE_eq_Inr split: auth_method.splits)

definition legacy_mode :: "conf \<Rightarrow> bool" where
  "legacy_mode c = anyPathHasDeprecatedCredentials (cf_PathDefaults c) (cf_OptionalPaths c)"

lemma validate_authentication_Inr:
  "validate_authentication c = Inr (c2, legacy) \<longleftrightarrow>
     legacy = legacy_mode c \<and> auth_settings_ok c2 \<and>
     (legacy \<longrightarrow> cf_AuthInternalUsers c \<in> {None, Some defaultAuthInternalUsers}) \<and>
     c2 = (if legacy then (external_auth c)\<lparr>cf_AuthInternalUsers := Some legacyUsers\<rparr> else external_auth c)"
  by (cases "legacy_mode c")
    (auto simp: validate_authentication_def validate_users_def validate_method_Inr Let_def bindE_eq_Inr
      auth_settings_ok_def legacy_mode_def split: if_splits)

lemma validate_rtsp_server_Inr:
  "validate_rtsp_server c = Inr c3 \<longleftrightarrow>
     c3 = c\<lparr>cf_RTSP := rtsp_replaced (cf_Deprecated c) (cf_RTSP c)\<rparr> \<and>
     (let r = cf_RTSP c3 in
      (rs_Encryption r = EncryptionStrict \<longrightarrow> ProtoUDP \<notin> rs_Transports r \<and> ProtoUDPMulticast \<notin> rs_Transports r) \<and>
      (ValidateMethodDigestMD5 \<in> set (rs_AuthMethods r) \<longrightarrow>
         cf_AuthMethod c3 = AuthMethodInternal \<and>
         (\<forall>u \<in> set (users_of c3). \<not> IsHashed (User u) \<and> \<not> IsHashed (Pass u))))"
  by (auto simp: validate_rtsp_server_def Let_def bindE_eq_Inr list_ex_iff users_of_def)

definition ice_ok :: "ice_server \<Rightarrow> bool" where
  "ice_ok s = HasAnyPrefix (ice_URL s) [''stun:'', ''turn:'', ''turns:'']"

definition webrtc_ok :: "webrtc_conf \<Rightarrow> bool" where
  "webrtc_ok w =
     (list_all ice_ok (wr_ICEServers2 w) \<and>
      (wr_LocalUDPAddress w \<noteq> [] \<or> wr_LocalTCPAddress w \<noteq> [] \<or> wr_ICEServers2 w \<noteq> []) \<and>
      (wr_LocalUDPAddress w \<noteq> [] \<or> wr_LocalTCPAddress w \<noteq> [] \<longrightarrow>
         wr_IPsFromInterfaces w \<or> wr_AdditionalHosts w \<noteq> []))"

lemma validate_webrtc_server_Inr:
  "validate_webrtc_server c = Inr c4 \<longleftrightarrow>
     c4 = c\<lparr>cf_WebRTC := webrtc_replaced (cf_Deprecated c) (cf_WebRTC c)\<rparr> \<and> webrtc_ok (cf_WebRTC c4)"
  by (auto simp: validate_webrtc_server_def webrtc_ok_def ice_ok_def Let_def bindE_eq_Inr list_all_iff
      find_None_iff find_Some_iff split: option.splits)

text \<open>The results of the stages, field by field.\<close>

lemma validate_general_fields:
  assumes "validate_general c = Inr c1"
  shows "cf_ReadTimeout c1 = cf_ReadTimeout c"
    "cf_WriteTimeout c1 = cf_WriteTimeout c"
    "cf_UDPMaxPayloadSize c1 = cf_UDPMaxPayloadSize c"
    "cf_AuthMethod c1 = cf_AuthMethod c"
    "cf_AuthHTTPAddress c1 = cf_AuthHTTPAddress c"
    "cf_AuthJWTJWKS c1 = cf_AuthJWTJWKS c"
    "cf_AuthJWTClaimKey c1 = cf_AuthJWTClaimKey c"
    "cf_AuthInternalUsers c1 = cf_AuthInternalUsers c"
    "cf_RTSP c1 = cf_RTSP c"
    "cf_WebRTC c1 = cf_WebRTC c"
    "cf_OptionalPaths c1 = cf_OptionalPaths c"
    "cf_PathDefaults c1 = cf_PathDefaults c"
    "cf_Deprecated c1 = cf_Deprecated c"
    "cf_Playback c1 = cf_Playback c"
  using assms by (simp_all add: validate_general_Inr)

lemma validate_authentication_fields:
  assumes "validate_authentication c = Inr (c2, legacy)"
  shows "cf_ReadTimeout c2 = cf_ReadTimeout c"
    "cf_WriteTimeout c2 = cf_WriteTimeout c"
    "cf_WriteQueueSize c2 = cf_WriteQueueSize c"
    "cf_UDPMaxPayloadSize c2 = cf_UDPMaxPayloadSize c"
    "cf_AuthJWTJWKS c2 = cf_AuthJWTJWKS c"
    "cf_AuthJWTClaimKey c2 = cf_AuthJWTClaimKey c"
    "cf_RTSP c2 = cf_RTSP c"
    "cf_WebRTC c2 = cf_WebRTC c"
    "cf_OptionalPaths c2 = cf_OptionalPaths c"
    "cf_PathDefaults c2 = cf_PathDefaults c"
    "cf_Deprecated c2 = cf_Deprecated c"
    "cf_Playback c2 = cf_Playback c"
  using assms by (simp_all add: validate_authentication_Inr)

lemma validate_rtsp_server_fields:
  assumes "validate_rtsp_server c = Inr c3"
  shows "cf_ReadTimeout c3 = cf_ReadTimeout c"
    "cf_WriteTimeout c3 = cf_WriteTimeout c"
    "cf_WriteQueueSize c3 = cf_WriteQueueSize c"
    "cf_UDPMaxPayloadSize c3 = cf_UDPMaxPayloadSize c"
    "cf_AuthMethod c3 = cf_AuthMethod c"
    "cf_AuthHTTPAddress c3 = cf_AuthHTTPAddress c"
    "cf_AuthJWTJWKS c3 = cf_AuthJWTJWKS c"
    "cf_AuthJWTClaimKey c3 = cf_AuthJWTClaimKey c"
    "cf_AuthInternalUsers c3 = cf_AuthInternalUsers c"
    "cf_WebRTC c3 = cf_WebRTC c"
    "cf_OptionalPaths c3 = cf_OptionalPaths c"
    "cf_PathDefaults c3 = cf_PathDefaults c"
    "cf_Deprecated c3 = cf_Deprecated c"
    "cf_Playback c3 = cf_Playback c"
  using assms by (simp_all add: validate_rtsp_server_Inr Let_def)

lemma validate_webrtc_server_fields:
  assumes "validate_webrtc_server c = Inr c4"
  shows "cf_ReadTimeout c4 = cf_ReadTimeout c"
    "cf_WriteTimeout c4 = cf_WriteTimeout c"
    "cf_WriteQueueSize c4 = cf_WriteQueueSize c"
    "cf_UDPMaxPayloadSize c4 = cf_UDPMaxPayloadSize c"
    "cf_AuthMethod c4 = cf_AuthMethod c"
    "cf_AuthHTTPAddress c4 = cf_AuthHTTPAddress c"
    "cf_AuthJWTJWKS c4 = cf_AuthJWTJWKS c"
    "cf_AuthJWTClaimKey c4 = cf_AuthJWTClaimKey c"
    "cf_AuthInternalUsers c4 = cf_AuthInternalUsers c"
    "cf_RTSP c4 = cf_RTSP c"
    "cf_OptionalPaths c4 = cf_OptionalPaths c"
    "cf_PathDefaults c4 = cf_PathDefaults c"
    "cf_Deprecated c4 = cf_Deprecated c"
    "cf_Playback c4 = cf_Playback c"
  using assms by (simp_all add: validate_webrtc_server_Inr)

section \<open>The paths\<close>

lemma fst_fill_optional [simp]: "map fst (fill_optional ps) = map fst ps"
  by (induction ps) (auto simp: fill_optional_def)

lemma fill_optional_again [simp]: "fill_optional (fill_optional ps) = fill_optional ps"
  by (simp add: fill_optional_def comp_def case_prod_unfold)

lemma conf_sortedKeys_simps [simp]:
  "set (conf_sortedKeys ps) = fst ` set ps" "distinct (conf_sortedKeys ps) = distinct (map fst ps)"
  "conf_sortedKeys (fill_optional ps) = conf_sortedKeys ps"
  by (simp_all add: conf_sortedKeys_def)

lemma set_users_fields [simp]:
  "cf_Paths (set_users us c) = cf_Paths c" "users_of (set_users us c) = us"
  "cf_OptionalPaths (set_users us c) = cf_OptionalPaths c" "cf_PathDefaults (set_users us c) = cf_PathDefaults c"
  "cf_Playback (set_users us c) = cf_Playback c" "cf_Deprecated (set_users us c) = cf_Deprecated c"
  by (auto simp: set_users_def users_of_def)

lemma set_users_self [simp]: "set_users (users_of c) c = c"
  by (simp add: set_users_def)

text \<open>The users that the deprecated credentials of a validated path stand for.\<close>

definition legacy_users_of :: "string \<Rightarrow> path_conf \<Rightarrow> auth_internal_user list" where
  "legacy_users_of nm p =
     [deprecated_user nm AuthActionPublish (PublishUser (Deprecated p)) (PublishPass (Deprecated p)) (PublishIPs (Deprecated p)),
      deprecated_user nm AuthActionRead (ReadUser (Deprecated p)) (ReadPass (Deprecated p)) (ReadIPs (Deprecated p))]"

lemma legacy_users_of_nonempty [simp]: "legacy_users_of nm p \<noteq> []"
  by (simp add: legacy_users_of_def)

lemma validate_view:
  assumes "validate env g nm legacy p = Inr (p', g')"
  shows "AuthInternalUsers g' = AuthInternalUsers g @ (if legacy then legacy_users_of nm p' else [])"
  using assms by (auto simp: validate_def Let_def bindE_eq_Inr validate_auth_def legacy_users_of_def)

lemma validate_paths_Cons:
  assumes "validate_paths env legacy (nm # nms) c = Inr c'"
  obtains p p' g where "map_of (cf_Paths c) nm = Some p" "validate env (global_view c) nm legacy p = Inr (p', g)"
    "validate_paths env legacy nms
       (set_users (users_of c @ (if legacy then legacy_users_of nm p' else []))
          (c\<lparr>cf_Paths := AList.update nm p' (cf_Paths c)\<rparr>)) = Inr c'"
proof -
  obtain p p' g where p: "map_of (cf_Paths c) nm = Some p" "validate env (global_view c) nm legacy p = Inr (p', g)"
    "validate_paths env legacy nms
       (set_users (AuthInternalUsers g) (c\<lparr>cf_Paths := AList.update nm p' (cf_Paths c)\<rparr>)) = Inr c'"
    using assms by (auto simp: bindE_eq_Inr split: option.splits)
  then show thesis
    using that validate_view [OF p(2)] by (simp add: global_view_def)
qed

text \<open>Only the paths and, with deprecated credentials, the users change.\<close>

lemma validate_paths_only:
  "validate_paths env legacy nms c = Inr c' \<Longrightarrow>
   c' = c\<lparr>cf_Paths := cf_Paths c', cf_AuthInternalUsers := cf_AuthInternalUsers c'\<rparr> \<and>
   (\<not> legacy \<longrightarrow> cf_AuthInternalUsers c' = cf_AuthInternalUsers c)"
proof (induction nms arbitrary: c)
  case (Cons nm nms)
  obtain p p' g where
    rest: "validate_paths env legacy nms
       (set_users (users_of c @ (if legacy then legacy_users_of nm p' else []))
          (c\<lparr>cf_Paths := AList.update nm p' (cf_Paths c)\<rparr>)) = Inr c'"
    using Cons.prems by (rule validate_paths_Cons)
  have users: "users_of (c\<lparr>cf_Paths := ps\<rparr>) = users_of c" for ps
    by (simp add: users_of_def)
  obtain us where upd: "set_users (users_of c @ (if legacy then legacy_users_of nm p' else []))
      (c\<lparr>cf_Paths := AList.update nm p' (cf_Paths c)\<rparr>) =
      c\<lparr>cf_Paths := AList.update nm p' (cf_Paths c), cf_AuthInternalUsers := us\<rparr>"
    and "\<not> legacy \<longrightarrow> us = cf_AuthInternalUsers c"
    by (rule that [of "if legacy then Some (users_of c @ legacy_users_of nm p') else cf_AuthInternalUsers c"])
      (simp_all add: set_users_def users)
  then show ?case
    using Cons.IH [OF rest [unfolded upd]] by simp
qed simp

lemma validate_paths_frame:
  assumes "validate_paths env legacy nms c = Inr c'" "nm \<notin> set nms"
  shows "map_of (cf_Paths c') nm = map_of (cf_Paths c) nm"
  using assms
proof (induction nms arbitrary: c)
  case (Cons n nms)
  from Cons.prems(1) show ?case
    by (rule validate_paths_Cons) (use Cons in \<open>force simp: update_conv'\<close>)
qed simp

lemma validate_paths_keys:
  assumes "validate_paths env legacy nms c = Inr c'"
  shows "map fst (cf_Paths c') = map fst (cf_Paths c)"
  using assms
proof (induction nms arbitrary: c)
  case (Cons n nms)
  from Cons.prems(1) show ?case
  proof (rule validate_paths_Cons)
    fix p p' g
    assume p: "map_of (cf_Paths c) n = Some p"
      and rest: "validate_paths env legacy nms
       (set_users (users_of c @ (if legacy then legacy_users_of n p' else []))
          (c\<lparr>cf_Paths := AList.update n p' (cf_Paths c)\<rparr>)) = Inr c'"
    have "n \<in> fst ` set (cf_Paths c)"
      using p by (force dest: map_of_SomeD)
    then show ?thesis
      using Cons.IH [OF rest] by (simp add: update_keys)
  qed
qed simp

lemma validate_paths_each:
  assumes "validate_paths env legacy nms c = Inr c'" "distinct nms" "nm \<in> set nms"
  shows "\<exists>p p' c1 g. map_of (cf_Paths c) nm = Some p \<and> map_of (cf_Paths c') nm = Some p' \<and>
    validate env (global_view c1) nm legacy p = Inr (p', g)"
  using assms
proof (induction nms arbitrary: c)
  case (Cons n nms)
  from Cons.prems(1) show ?case
  proof (rule validate_paths_Cons)
    fix p p' g
    assume p: "map_of (cf_Paths c) n = Some p" "validate env (global_view c) n legacy p = Inr (p', g)"
      and rest: "validate_paths env legacy nms
       (set_users (users_of c @ (if legacy then legacy_users_of n p' else []))
          (c\<lparr>cf_Paths := AList.update n p' (cf_Paths c)\<rparr>)) = Inr c'"
    show ?thesis
    proof (cases "nm = n")
      case True
      then have "map_of (cf_Paths c') nm = Some p'"
        using validate_paths_frame [OF rest, of nm] Cons.prems(2) by (simp add: update_conv')
      with p True show ?thesis by blast
    next
      case False
      then have "map_of (AList.update n p' (cf_Paths c)) nm = map_of (cf_Paths c) nm"
        by (simp add: update_conv')
      then show ?thesis
        using Cons.IH [OF rest] Cons.prems False by simp
    qed
  qed
qed simp

section \<open>What a validated configuration satisfies\<close>

text \<open>The configuration with everything replaced that deprecated fields replace, and with its paths, not validated yet.\<close>

definition prepared :: "conf \<Rightarrow> conf" where
  "prepared c =
     (let c1 = c\<lparr>cf_WriteQueueSize := set_value (dReadBufferCount (cf_Deprecated c)) (cf_WriteQueueSize c)\<rparr>;
          c2 = (if legacy_mode c then (external_auth c1)\<lparr>cf_AuthInternalUsers := Some legacyUsers\<rparr> else external_auth c1);
          c3 = servers_replaced (c2\<lparr>cf_RTSP := rtsp_replaced (cf_Deprecated c) (cf_RTSP c2)\<rparr>);
          c4 = c3\<lparr>cf_WebRTC := webrtc_replaced (cf_Deprecated c) (cf_WebRTC c3)\<rparr>
      in fill_paths (record_replaced c4))"

definition settings_ok :: "conf \<Rightarrow> bool" where
  "settings_ok c =
     (0 < cf_ReadTimeout c \<and> 0 < cf_WriteTimeout c \<and> power_of_two (cf_WriteQueueSize c) \<and>
      cf_UDPMaxPayloadSize c \<le> 1472 \<and> auth_settings_ok c \<and>
      (rs_Encryption (cf_RTSP c) = EncryptionStrict \<longrightarrow> rs_Transports (cf_RTSP c) \<subseteq> {ProtoTCP}) \<and>
      (ValidateMethodDigestMD5 \<in> set (rs_AuthMethods (cf_RTSP c)) \<longrightarrow> cf_AuthMethod c = AuthMethodInternal) \<and>
      webrtc_ok (cf_WebRTC c) \<and>
      length (filter (all_others_alias \<circ> fst) (cf_OptionalPaths c)) \<le> 1)"

lemma validate_aliases_Inr:
  "validate_aliases c = Inr u \<longleftrightarrow> length (filter (all_others_alias \<circ> fst) (cf_OptionalPaths c)) \<le> 1"
  by (simp add: validate_aliases_def)

lemma not_udp: "ProtoUDP \<notin> s \<and> ProtoUDPMulticast \<notin> s \<longleftrightarrow> s \<subseteq> {ProtoTCP}"
proof
  assume none: "ProtoUDP \<notin> s \<and> ProtoUDPMulticast \<notin> s"
  show "s \<subseteq> {ProtoTCP}"
  proof
    fix p
    assume "p \<in> s"
    with none show "p \<in> {ProtoTCP}" by (cases p) simp_all
  qed
qed (auto dest: subsetD)

lemma filter_fill_optional:
  "length (filter (all_others_alias \<circ> fst) (fill_optional ps)) = length (filter (all_others_alias \<circ> fst) ps)"
  by (induction ps) (auto simp: fill_optional_def)

lemma Validate_Inr:
  assumes "Validate env c = Inr c'"
  shows "validate_paths env (legacy_mode c) (conf_sortedKeys (cf_OptionalPaths (prepared c))) (prepared c) = Inr c' \<and>
    settings_ok (prepared c) \<and>
    (legacy_mode c \<longrightarrow> cf_AuthInternalUsers c \<in> {None, Some defaultAuthInternalUsers}) \<and>
    (ValidateMethodDigestMD5 \<in> set (rs_AuthMethods (cf_RTSP (prepared c))) \<longrightarrow>
       (\<forall>u \<in> set (users_of (prepared c)). \<not> IsHashed (User u) \<and> \<not> IsHashed (Pass u)))"
proof -
  obtain c1 c2 c3 c4 legacy where
    c1: "validate_general c = Inr c1" and c2: "validate_authentication c1 = Inr (c2, legacy)"
    and c3: "validate_rtsp_server c2 = Inr c3" and c4: "validate_webrtc_server (servers_replaced c3) = Inr c4"
    and al: "validate_aliases (record_replaced c4) = Inr ()"
    and paths: "validate_paths env legacy (conf_sortedKeys (cf_OptionalPaths (fill_paths (record_replaced c4))))
        (fill_paths (record_replaced c4)) = Inr c'"
    using assms by (auto simp: Validate_def Let_def bindE_eq_Inr)
  note same = validate_general_fields [OF c1] validate_authentication_fields [OF c2]
    validate_rtsp_server_fields [OF c3] validate_webrtc_server_fields [OF c4]
  have d: "legacy_mode c1 = legacy_mode c"
    by (simp add: legacy_mode_def same)
  have legacy: "legacy = legacy_mode c" using c2 d by (simp add: validate_authentication_Inr)
  have prep: "fill_paths (record_replaced c4) = prepared c"
    using c1 c2 c3 c4 d
    by (simp add: prepared_def validate_general_Inr validate_authentication_Inr validate_rtsp_server_Inr
        validate_webrtc_server_Inr Let_def)
  have g: "0 < cf_ReadTimeout c1" "0 < cf_WriteTimeout c1" "power_of_two (cf_WriteQueueSize c1)"
    "cf_UDPMaxPayloadSize c1 \<le> 1472"
    using c1 [unfolded validate_general_Inr] by blast+
  have a: "auth_settings_ok c2"
    using c2 [unfolded validate_authentication_Inr] by blast
  have r: "rs_Encryption (cf_RTSP c3) = EncryptionStrict \<longrightarrow> rs_Transports (cf_RTSP c3) \<subseteq> {ProtoTCP}"
    "ValidateMethodDigestMD5 \<in> set (rs_AuthMethods (cf_RTSP c3)) \<longrightarrow> cf_AuthMethod c3 = AuthMethodInternal"
    using c3 [unfolded validate_rtsp_server_Inr Let_def not_udp] by blast+
  have w: "webrtc_ok (cf_WebRTC c4)"
    using c4 [unfolded validate_webrtc_server_Inr] by blast
  have al': "length (filter (all_others_alias \<circ> fst) (cf_OptionalPaths c)) \<le> 1"
    using al [unfolded validate_aliases_Inr] by (simp add: same)
  have "settings_ok (prepared c)"
    using g a r w al'
    by (simp add: settings_ok_def prep [symmetric] same filter_fill_optional auth_settings_ok_def)
  moreover have "users_of (prepared c) = users_of c3" "cf_RTSP (prepared c) = cf_RTSP c3"
    by (simp_all add: prep [symmetric] users_of_def same)
  moreover have "ValidateMethodDigestMD5 \<in> set (rs_AuthMethods (cf_RTSP c3)) \<longrightarrow>
      (\<forall>u \<in> set (users_of c3). \<not> IsHashed (User u) \<and> \<not> IsHashed (Pass u))"
    using c3 [unfolded validate_rtsp_server_Inr Let_def] by blast
  moreover have "legacy \<longrightarrow> cf_AuthInternalUsers c1 \<in> {None, Some defaultAuthInternalUsers}"
    using c2 [unfolded validate_authentication_Inr] by blast
  ultimately show ?thesis
    using paths prep legacy validate_general_fields [OF c1] by simp
qed

lemma Validate_intro:
  assumes "validate_paths env (legacy_mode c) (conf_sortedKeys (cf_OptionalPaths (prepared c))) (prepared c) = Inr c'"
    "settings_ok (prepared c)" "\<not> legacy_mode c"
    "ValidateMethodDigestMD5 \<in> set (rs_AuthMethods (cf_RTSP (prepared c))) \<longrightarrow>
       (\<forall>u \<in> set (users_of (prepared c)). \<not> IsHashed (User u) \<and> \<not> IsHashed (Pass u))"
  shows "Validate env c = Inr c'"
proof -
  define c1 where "c1 = c\<lparr>cf_WriteQueueSize := set_value (dReadBufferCount (cf_Deprecated c)) (cf_WriteQueueSize c)\<rparr>"
  define c2 where "c2 = external_auth c1"
  define c3 where "c3 = c2\<lparr>cf_RTSP := rtsp_replaced (cf_Deprecated c) (cf_RTSP c2)\<rparr>"
  define c4 where "c4 = (servers_replaced c3)\<lparr>cf_WebRTC := webrtc_replaced (cf_Deprecated c) (cf_WebRTC (servers_replaced c3))\<rparr>"
  have prep: "prepared c = fill_paths (record_replaced c4)"
    using assms(3) by (simp add: prepared_def c1_def c2_def c3_def c4_def Let_def)
  have d: "cf_Deprecated c1 = cf_Deprecated c" "cf_Deprecated c2 = cf_Deprecated c"
    "cf_Deprecated (servers_replaced c3) = cf_Deprecated c" "legacy_mode c1 = legacy_mode c"
    by (simp_all add: c1_def c2_def c3_def legacy_mode_def)
  have same: "cf_ReadTimeout c2 = cf_ReadTimeout c1" "cf_WriteTimeout c2 = cf_WriteTimeout c1"
    "cf_WriteQueueSize c2 = cf_WriteQueueSize c1" "cf_UDPMaxPayloadSize c2 = cf_UDPMaxPayloadSize c1"
    "cf_ReadTimeout c3 = cf_ReadTimeout c2" "cf_WriteTimeout c3 = cf_WriteTimeout c2"
    "cf_WriteQueueSize c3 = cf_WriteQueueSize c2" "cf_UDPMaxPayloadSize c3 = cf_UDPMaxPayloadSize c2"
    "auth_settings_ok c3 = auth_settings_ok c2" "auth_settings_ok (prepared c) = auth_settings_ok c3"
    "cf_AuthMethod c4 = cf_AuthMethod c3" "cf_AuthInternalUsers c4 = cf_AuthInternalUsers c3"
    "cf_RTSP c4 = cf_RTSP c3"
    by (simp_all add: prep c2_def c3_def c4_def auth_settings_ok_def)
  have c4: "cf_ReadTimeout c4 = cf_ReadTimeout c3" "cf_WriteTimeout c4 = cf_WriteTimeout c3"
    "cf_WriteQueueSize c4 = cf_WriteQueueSize c3" "cf_UDPMaxPayloadSize c4 = cf_UDPMaxPayloadSize c3"
    by (simp_all add: c4_def)
  have ok: "0 < cf_ReadTimeout c1" "0 < cf_WriteTimeout c1" "power_of_two (cf_WriteQueueSize c1)"
    "cf_UDPMaxPayloadSize c1 \<le> 1472" "auth_settings_ok c2"
    "rs_Encryption (cf_RTSP c3) = EncryptionStrict \<longrightarrow> rs_Transports (cf_RTSP c3) \<subseteq> {ProtoTCP}"
    "ValidateMethodDigestMD5 \<in> set (rs_AuthMethods (cf_RTSP c3)) \<longrightarrow> cf_AuthMethod c3 = AuthMethodInternal"
    "webrtc_ok (cf_WebRTC c4)" "length (filter (all_others_alias \<circ> fst) (cf_OptionalPaths c4)) \<le> 1"
    using assms(2) same c4 by (simp_all add: settings_ok_def) (simp_all add: prep filter_fill_optional)
  have hashed: "ValidateMethodDigestMD5 \<in> set (rs_AuthMethods (cf_RTSP c3)) \<longrightarrow>
      (\<forall>u \<in> set (users_of c3). \<not> IsHashed (User u) \<and> \<not> IsHashed (Pass u))"
    using assms(4) same by (simp add: prep users_of_def)
  have "validate_general c = Inr c1"
    using ok(1-4) by (simp add: validate_general_Inr c1_def)
  moreover have "validate_authentication c1 = Inr (c2, False)"
    using ok(5) assms(3) d by (simp add: validate_authentication_Inr c2_def)
  moreover have "validate_rtsp_server c2 = Inr c3"
    unfolding validate_rtsp_server_Inr Let_def not_udp using ok(6,7) hashed d by (simp add: c3_def)
  moreover have "validate_webrtc_server (servers_replaced c3) = Inr c4"
    unfolding validate_webrtc_server_Inr using ok(8) d by (simp add: c4_def)
  moreover have "validate_aliases (record_replaced c4) = Inr ()"
    using ok(9) by (simp add: validate_aliases_Inr)
  ultimately show ?thesis
    using assms(1,3) by (simp add: Validate_def prep Let_def)
qed

text \<open>The settings of a path that its validation leaves as they are: all but five.\<close>

definition settings_of :: "path_conf \<Rightarrow> path_conf" where
  "settings_of p = p
     \<lparr>Name := [], Regexp := None, OverridePublisher := False, RTSPTransport := TransportAutomatic, RTSPAnyPort := False\<rparr>"

lemma settings_of_set [simp]:
  "settings_of (p\<lparr>Name := v\<rparr>) = settings_of p" "settings_of (p\<lparr>Regexp := r\<rparr>) = settings_of p"
  "settings_of (p\<lparr>OverridePublisher := b\<rparr>) = settings_of p" "settings_of (p\<lparr>RTSPTransport := tr\<rparr>) = settings_of p"
  "settings_of (p\<lparr>RTSPAnyPort := b\<rparr>) = settings_of p"
  by (simp_all add: settings_of_def)

lemma validate_name_settings: "validate_name env nm p = Inr p' \<Longrightarrow> settings_of p' = settings_of p"
  by (auto simp: validate_name_def Let_def split: if_splits sum.splits)

lemma validate_publisher_settings: "validate_publisher p = Inr p' \<Longrightarrow> settings_of p' = settings_of p"
  by (auto simp: validate_publisher_def Let_def split: if_splits sum.splits option.splits)

lemma validate_rtsp_settings: "validate_rtsp env p = Inr p' \<Longrightarrow> settings_of p' = settings_of p"
  by (auto simp: validate_rtsp_def Let_def split: if_splits option.splits)

lemma validate_url_settings: "validate_url env p schemes creds = Inr p' \<Longrightarrow> p' = p"
  by (auto simp: validate_url_def bindE_eq_Inr split: if_splits option.splits)

lemma validate_redirect_settings: "validate_redirect env p = Inr p' \<Longrightarrow> p' = p"
  by (auto simp: validate_redirect_def bindE_eq_Inr)

lemma validate_rpicamera_settings: "validate_rpicamera g nm p = Inr p' \<Longrightarrow> p' = p"
  by (auto simp: validate_rpicamera_def Let_def bindE_eq_Inr split: option.splits prod.splits)

lemma validate_source_settings: "validate_source env g nm p = Inr p' \<Longrightarrow> settings_of p' = settings_of p"
  by (auto simp: validate_source_def Let_def dest: validate_publisher_settings validate_rtsp_settings
      validate_url_settings validate_redirect_settings validate_rpicamera_settings split: if_splits)

lemma validate_settings:
  assumes "validate env g nm legacy p = Inr (p', g')"
  shows "settings_of p' = settings_of p" "Name p' = nm"
proof -
  obtain p1 where p1: "validate_name env nm p = Inr p1" "validate_source env g nm p1 = Inr p'"
    using assms by (rule validate_parts)
  then show "settings_of p' = settings_of p"
    using validate_name_settings validate_source_settings by metis
  have "Name p1 = nm"
    using p1(1) by (auto simp: validate_name_def Let_def split: if_splits sum.splits)
  then show "Name p' = nm"
    using validate_source_same [OF p1(2)] by simp
qed

lemma validate_catch_all:
  assumes "validate env g nm legacy p = Inr (p', g')" "is_catch_all nm"
  shows "Regexp p' \<noteq> None"
proof -
  obtain p1 where p1: "validate_name env nm p = Inr p1" "validate_source env g nm p1 = Inr p'"
    using assms(1) by (rule validate_parts)
  then show ?thesis
    using assms(2) validate_source_same [OF p1(2)] by (auto simp: validate_name_def is_catch_all_def Let_def)
qed

lemma prepared_paths:
  "map fst (cf_Paths (prepared c)) = conf_sortedKeys (cf_OptionalPaths c)"
  "cf_OptionalPaths (prepared c) = fill_optional (cf_OptionalPaths c)"
proof -
  have "\<exists>d. prepared c = fill_paths d \<and> cf_OptionalPaths d = cf_OptionalPaths c"
    unfolding prepared_def Let_def by (rule exI, rule conjI, rule refl) simp
  then obtain d where "prepared c = fill_paths d" "cf_OptionalPaths d = cf_OptionalPaths c" by blast
  then show "map fst (cf_Paths (prepared c)) = conf_sortedKeys (cf_OptionalPaths c)"
    "cf_OptionalPaths (prepared c) = fill_optional (cf_OptionalPaths c)"
    by (simp_all add: fill_paths_def Let_def comp_def)
qed

lemma fst_set_fill_optional [simp]: "fst ` set (fill_optional ps) = fst ` set ps"
  by (metis fst_fill_optional list.set_map)

section \<open>Validating again\<close>

lemma negated_value: "(case d of Some b \<Rightarrow> \<not> b | None \<Rightarrow> x) = set_value (map_option Not d) x"
  by (cases d) simp_all

lemma credentials_of_nothing [simp]: "\<not> credentials_set (oDeprecated newOptionalPathValues)"
  by (simp add: newOptionalPathValues_def no_deprecated_def credentials_set_def)

lemma credentials_fill_optional [simp]:
  "anyPathHasDeprecatedCredentials d (fill_optional ps) = anyPathHasDeprecatedCredentials d ps"
  by (force simp: anyPathHasDeprecatedCredentials_def fill_optional_def list_ex_iff split: option.splits prod.splits)

lemma make_path_set_paths: "make_path (c\<lparr>cf_Paths := ps, cf_OptionalPaths := os\<rparr>) nm = make_path (c\<lparr>cf_OptionalPaths := os\<rparr>) nm"
  by (simp add: make_path_def split: option.split)

lemma update_paths_twice: "c\<lparr>cf_OptionalPaths := os, cf_Paths := ps\<rparr>\<lparr>cf_Paths := qs\<rparr> = c\<lparr>cf_OptionalPaths := os, cf_Paths := qs\<rparr>"
  by simp

lemma keep_users: "c\<lparr>cf_Paths := ps, cf_AuthInternalUsers := cf_AuthInternalUsers c\<rparr> = c\<lparr>cf_Paths := ps\<rparr>" for c :: conf
  by (cases c) simp

definition replaced :: "conf \<Rightarrow> conf" where
  "replaced c =
     (let c1 = c\<lparr>cf_WriteQueueSize := set_value (dReadBufferCount (cf_Deprecated c)) (cf_WriteQueueSize c)\<rparr>;
          c2 = external_auth c1;
          c3 = servers_replaced (c2\<lparr>cf_RTSP := rtsp_replaced (cf_Deprecated c) (cf_RTSP c2)\<rparr>)
      in record_replaced (c3\<lparr>cf_WebRTC := webrtc_replaced (cf_Deprecated c) (cf_WebRTC c3)\<rparr>))"

lemma prepared_replaced: "\<not> legacy_mode c \<Longrightarrow> prepared c = fill_paths (replaced c)"
  by (simp add: prepared_def replaced_def Let_def)

lemma replaced_again:
  assumes "dWebRTCICEServers (cf_Deprecated c) = None"
  shows "replaced ((replaced c)\<lparr>cf_OptionalPaths := os, cf_Paths := ps\<rparr>) = (replaced c)\<lparr>cf_OptionalPaths := os, cf_Paths := ps\<rparr>"
  using assms
  by (cases "dExternalAuthenticationURL (cf_Deprecated c)")
    (simp_all add: replaced_def external_auth_def rtsp_replaced_def servers_replaced_def webrtc_replaced_def
      record_replaced_def negated_value Let_def)

lemma replaced_same:
  "cf_OptionalPaths (replaced c) = cf_OptionalPaths c" "cf_Deprecated (replaced c) = cf_Deprecated c"
  "Deprecated (cf_PathDefaults (replaced c)) = Deprecated (cf_PathDefaults c)"
  by (simp_all add: replaced_def Let_def) (simp add: record_replaced_def Let_def)

lemma legacy_mode_replaced: "legacy_mode (replaced c) = legacy_mode c"
  by (simp add: legacy_mode_def replaced_same anyPathHasDeprecatedCredentials_def)

lemma fill_paths_again:
  "fill_paths (c\<lparr>cf_OptionalPaths := fill_optional (cf_OptionalPaths c), cf_Paths := ps\<rparr>) = fill_paths c"
  by (simp add: fill_paths_def Let_def make_path_set_paths)

text \<open>Without deprecated credentials, the validation replaces what deprecated fields replace and fills the paths.\<close>

lemma Validate_result:
  assumes "Validate env c = Inr c'" "\<not> legacy_mode c"
  obtains ps where
    "c' = (replaced c)\<lparr>cf_OptionalPaths := fill_optional (cf_OptionalPaths c), cf_Paths := ps\<rparr>"
proof -
  have paths: "validate_paths env False (conf_sortedKeys (cf_OptionalPaths (prepared c))) (prepared c) = Inr c'"
    using Validate_Inr [OF assms(1)] assms(2) by simp
  define ps where "ps = cf_Paths c'"
  define R where "R = replaced c"
  have "c' = (prepared c)\<lparr>cf_Paths := ps, cf_AuthInternalUsers := cf_AuthInternalUsers c'\<rparr>"
    and "cf_AuthInternalUsers c' = cf_AuthInternalUsers (prepared c)"
    using validate_paths_only [OF paths] unfolding ps_def by blast+
  then have "c' = (prepared c)\<lparr>cf_Paths := ps\<rparr>"
    by (simp only: keep_users)
  moreover have "prepared c = fill_paths R"
    by (simp add: R_def prepared_replaced assms(2))
  moreover have "fill_paths R = R\<lparr>cf_OptionalPaths := fill_optional (cf_OptionalPaths R), cf_Paths := cf_Paths (fill_paths R)\<rparr>"
    by (simp add: fill_paths_def Let_def)
  ultimately have "c' = R\<lparr>cf_OptionalPaths := fill_optional (cf_OptionalPaths R), cf_Paths := ps\<rparr>"
    by (metis update_paths_twice)
  then show thesis
    by (intro that) (simp add: R_def replaced_same)
qed

lemma validated_stays:
  assumes "Validate env c = Inr c'" "\<not> legacy_mode c" "dWebRTCICEServers (cf_Deprecated c) = None"
  shows "Validate env (c'\<lparr>cf_Paths := qs\<rparr>) = Inr c'"
proof -
  have paths: "validate_paths env False (conf_sortedKeys (cf_OptionalPaths (prepared c))) (prepared c) = Inr c'"
    and ok: "settings_ok (prepared c)"
    and hashed: "ValidateMethodDigestMD5 \<in> set (rs_AuthMethods (cf_RTSP (prepared c))) \<longrightarrow>
       (\<forall>u \<in> set (users_of (prepared c)). \<not> IsHashed (User u) \<and> \<not> IsHashed (Pass u))"
    using Validate_Inr [OF assms(1)] assms(2) by simp_all
  define R where "R = replaced c"
  obtain ps where c': "c' = R\<lparr>cf_OptionalPaths := fill_optional (cf_OptionalPaths R), cf_Paths := ps\<rparr>"
    using Validate_result [OF assms(1,2)] by (simp add: R_def replaced_same) blast
  define d where "d = c'\<lparr>cf_Paths := qs\<rparr>"
  have d: "d = R\<lparr>cf_OptionalPaths := fill_optional (cf_OptionalPaths R), cf_Paths := qs\<rparr>"
    unfolding d_def c' by simp
  have mode: "\<not> legacy_mode d"
    using assms(2) legacy_mode_replaced [of c] unfolding d R_def [symmetric] by (simp add: legacy_mode_def)
  have "replaced d = d"
    unfolding d R_def by (rule replaced_again [OF assms(3)])
  then have "prepared d = fill_paths d"
    using mode by (simp add: prepared_replaced)
  then have prep: "prepared d = prepared c"
    using fill_paths_again [where c = R and ps = qs] by (simp add: d R_def [symmetric] prepared_replaced assms(2))
  show ?thesis
    unfolding d_def [symmetric]
    by (rule Validate_intro) (use prep mode ok hashed paths in simp_all)
qed

text \<open>
  C32. The validation may be repeated: without deprecated credentials and without deprecated ICE servers, a validated
  configuration is accepted again and comes out as it is.
\<close>

theorem validate_again:
  assumes "Validate env c = Inr c'" "\<not> legacy_mode c" "dWebRTCICEServers (cf_Deprecated c) = None"
  shows "Validate env c' = Inr c'"
  using validated_stays [OF assms, of "cf_Paths c'"] by simp

text \<open>A configuration that has nothing left to replace, as those that come out of a validation.\<close>

definition settled :: "conf \<Rightarrow> bool" where
  "settled c = (\<not> legacy_mode c \<and> replaced c = c)"

lemma validated_settled:
  assumes "Validate env c = Inr c'" "\<not> legacy_mode c" "dWebRTCICEServers (cf_Deprecated c) = None"
  shows "settled c'"
proof -
  obtain ps where c': "c' = (replaced c)\<lparr>cf_OptionalPaths := fill_optional (cf_OptionalPaths c), cf_Paths := ps\<rparr>"
    using assms(1,2) by (rule Validate_result)
  have "\<not> legacy_mode c'"
    using assms(2) legacy_mode_replaced [of c] unfolding c' by (simp add: legacy_mode_def replaced_same)
  moreover have "replaced c' = c'"
    unfolding c' by (rule replaced_again [OF assms(3)])
  ultimately show ?thesis by (simp add: settled_def)
qed

lemma replaced_paths:
  "replaced (c\<lparr>cf_OptionalPaths := os, cf_Paths := ps\<rparr>) = (replaced c)\<lparr>cf_OptionalPaths := os, cf_Paths := ps\<rparr>"
  by (cases "dExternalAuthenticationURL (cf_Deprecated c)")
    (simp_all add: replaced_def external_auth_def servers_replaced_def record_replaced_def negated_value Let_def)

text \<open>A change of the paths of a settled configuration changes nothing else when it is validated.\<close>

lemma settled_paths:
  assumes "settled c" "Validate env (c\<lparr>cf_OptionalPaths := os, cf_Paths := ps\<rparr>) = Inr d"
    "\<not> legacy_mode (c\<lparr>cf_OptionalPaths := os, cf_Paths := ps\<rparr>)"
  obtains qs where "d = c\<lparr>cf_OptionalPaths := fill_optional os, cf_Paths := qs\<rparr>"
proof -
  obtain qs where "d = (replaced (c\<lparr>cf_OptionalPaths := os, cf_Paths := ps\<rparr>))
      \<lparr>cf_OptionalPaths := fill_optional os, cf_Paths := qs\<rparr>"
    using Validate_result [OF assms(2,3)] by auto
  then show thesis
    using assms(1) by (intro that) (simp add: replaced_paths settled_def)
qed

section \<open>Deprecated credentials\<close>

lemma validate_paths_users:
  "validate_paths env True nms c = Inr c' \<Longrightarrow> cf_AuthInternalUsers c = Some us \<Longrightarrow>
   \<exists>vs. cf_AuthInternalUsers c' = Some (us @ vs)"
proof (induction nms arbitrary: c us)
  case (Cons nm nms)
  obtain p p' g where
    rest: "validate_paths env True nms
       (set_users (users_of c @ legacy_users_of nm p') (c\<lparr>cf_Paths := AList.update nm p' (cf_Paths c)\<rparr>)) = Inr c'"
    using validate_paths_Cons [OF Cons.prems(1)] by auto
  have "cf_AuthInternalUsers (set_users (users_of c @ legacy_users_of nm p')
      (c\<lparr>cf_Paths := AList.update nm p' (cf_Paths c)\<rparr>)) = Some (us @ legacy_users_of nm p')"
    using Cons.prems(2) by (simp add: set_users_def users_of_def)
  then show ?case
    using Cons.IH [OF rest] by fastforce
qed simp

lemma prepared_legacy: "legacy_mode c \<Longrightarrow> cf_AuthInternalUsers (prepared c) = Some legacyUsers"
  by (simp add: prepared_def Let_def)

text \<open>
  A configuration with deprecated credentials, once validated, has users of its own, with which the deprecated
  credentials are refused: no configuration with these users and deprecated credentials is accepted.
\<close>

lemma legacy_refused:
  assumes "Validate env c = Inr c'" "legacy_mode c" "legacy_mode d"
    "map_option (map Permissions) (cf_AuthInternalUsers d) = map_option (map Permissions) (cf_AuthInternalUsers c')"
  shows "Validate env d \<noteq> Inr d'"
proof
  assume "Validate env d = Inr d'"
  then have users: "cf_AuthInternalUsers d \<in> {None, Some defaultAuthInternalUsers}"
    using Validate_Inr assms(3) by blast
  obtain vs where "cf_AuthInternalUsers c' = Some (legacyUsers @ vs)"
    using Validate_Inr [OF assms(1)] assms(2) validate_paths_users prepared_legacy by metis
  then have "map_option (map Permissions) (cf_AuthInternalUsers d) = Some (map Permissions legacyUsers @ map Permissions vs)"
    using assms(4) by simp
  with users show False
    by (auto simp: legacyUsers_def defaultAuthInternalUsers_def)
qed

text \<open>What an accepted configuration satisfies.\<close>

lemma validated_conf_parts:
  assumes "Validate env c = Inr c'" "distinct (map fst (cf_OptionalPaths c))"
  shows "settings_ok c'" "conf_table (cf_Paths c')" "map fst (cf_Paths c') = conf_sortedKeys (cf_OptionalPaths c)"
    "\<forall>(nm, p) \<in> set (cf_Paths c'). conf_valid p \<and> Name p = nm \<and> settings_of p = settings_of (make_path c' nm)"
proof -
  let ?P = "prepared c"
  have paths: "validate_paths env (legacy_mode c) (conf_sortedKeys (cf_OptionalPaths ?P)) ?P = Inr c'"
    and ok: "settings_ok ?P"
    using Validate_Inr [OF assms(1)] by simp_all
  have only: "c' = ?P\<lparr>cf_Paths := cf_Paths c', cf_AuthInternalUsers := cf_AuthInternalUsers c'\<rparr>"
    using validate_paths_only [OF paths] by blast
  obtain ps us where c': "c' = ?P\<lparr>cf_Paths := ps, cf_AuthInternalUsers := us\<rparr>" using only by blast
  show "settings_ok c'"
    using ok unfolding c' by (simp add: settings_ok_def auth_settings_ok_def)
  show keys: "map fst (cf_Paths c') = conf_sortedKeys (cf_OptionalPaths c)"
    using validate_paths_keys [OF paths] by (simp add: prepared_paths)
  have dist: "distinct (map fst (cf_Paths c'))"
    using assms(2) by (simp add: keys)
  have each: "\<exists>p0 c1 g. map_of (cf_Paths ?P) nm = Some p0 \<and>
      validate env (global_view c1) nm (legacy_mode c) p0 = Inr (p, g)" if "(nm, p) \<in> set (cf_Paths c')" for nm p
  proof -
    have "nm \<in> set (map fst (cf_Paths c'))" using that by force
    then have "nm \<in> set (conf_sortedKeys (cf_OptionalPaths ?P))"
      by (simp add: keys prepared_paths)
    moreover have "distinct (conf_sortedKeys (cf_OptionalPaths ?P))"
      using assms(2) by (simp add: prepared_paths)
    moreover have "map_of (cf_Paths c') nm = Some p"
      using dist that by simp
    ultimately show ?thesis
      using validate_paths_each [OF paths] by fastforce
  qed
  show "conf_table (cf_Paths c')"
    using dist each validate_catch_all by (fastforce simp: conf_table_def list_all_iff)
  have made: "map_of (cf_Paths ?P) nm = Some p0 \<Longrightarrow> p0 = make_path c' nm" for nm p0
  proof -
    have "\<exists>d. ?P = fill_paths d"
      by (simp add: prepared_def Let_def) blast
    then obtain d where d: "?P = fill_paths d" by blast
    have "make_path c' nm = make_path (d\<lparr>cf_OptionalPaths := fill_optional (cf_OptionalPaths d)\<rparr>) nm"
      unfolding c' d by (simp add: make_path_def fill_paths_def Let_def split: option.split)
    then show "map_of (cf_Paths ?P) nm = Some p0 \<Longrightarrow> p0 = make_path c' nm"
      by (simp add: d fill_paths_def Let_def map_of_map_restrict restrict_map_def split: if_splits)
  qed
  show "\<forall>(nm, p) \<in> set (cf_Paths c'). conf_valid p \<and> Name p = nm \<and> settings_of p = settings_of (make_path c' nm)"
  proof (clarify)
    fix nm p
    assume "(nm, p) \<in> set (cf_Paths c')"
    then obtain p0 c1 g where p0: "map_of (cf_Paths ?P) nm = Some p0"
      "validate env (global_view c1) nm (legacy_mode c) p0 = Inr (p, g)"
      using each by blast
    then show "conf_valid p \<and> Name p = nm \<and> settings_of p = settings_of (make_path c' nm)"
      using validate_valid [OF p0(2)] validate_settings [OF p0(2)] made [OF p0(1)] by simp
  qed
qed

text \<open>
  C16. A configuration that is accepted: its settings are in their ranges, it has a path for every entry and no other, each made
  of the defaults and of the values of its entry, valid, and under its own name; and entries that catch all names have an
  expression, so no lookup panics.
\<close>

theorem validated_conf:
  assumes "Validate env c = Inr c'" "distinct (map fst (cf_OptionalPaths c))"
  shows "settings_ok c' \<and> conf_table (cf_Paths c') \<and> map fst (cf_Paths c') = conf_sortedKeys (cf_OptionalPaths c) \<and>
    (\<forall>(nm, p) \<in> set (cf_Paths c'). conf_valid p \<and> Name p = nm \<and> settings_of p = settings_of (make_path c' nm))"
  using validated_conf_parts [OF assms] by blast

text \<open>The defaults with two entries, one of them without values.\<close>

definition sample_global :: conf where
  "sample_global =
     (conf_setDefaults zero_global)
       \<lparr>cf_OptionalPaths := [(''cam'', Some (newOptionalPathValues\<lparr>oMaxReaders := Some 3\<rparr>)), (''all_others'', None)]\<rparr>"

definition sample_path :: path_conf where
  "sample_path = setDefaults zero_conf"

definition sample_validated :: conf where
  "sample_validated = sample_global
     \<lparr>cf_OptionalPaths := fill_optional (cf_OptionalPaths sample_global),
      cf_Paths :=
        [(''all_others'', sample_path\<lparr>Name := ''all_others'', Regexp := Some ''^.*$''\<rparr>),
         (''cam'', sample_path\<lparr>Name := ''cam'', MaxReaders := 3\<rparr>)]\<rparr>"

lemma sample_global_fields:
  "cf_Deprecated sample_global = no_deprecated_global" "cf_PathDefaults sample_global = sample_path"
  "cf_OptionalPaths sample_global =
     [(''cam'', Some (newOptionalPathValues\<lparr>oMaxReaders := Some 3\<rparr>)), (''all_others'', None)]"
  by (simp_all add: sample_global_def conf_setDefaults_def zero_global_def sample_path_def)

lemma nothing_replaced: "cf_Deprecated c = no_deprecated_global \<Longrightarrow> replaced c = c"
  by (simp add: replaced_def external_auth_def rtsp_replaced_def servers_replaced_def webrtc_replaced_def
      record_replaced_def negated_value no_deprecated_global_def Let_def)

lemma sample_path_fields:
  "Deprecated sample_path = no_deprecated" "Source sample_path = ''publisher''" "SourceOnDemand sample_path = False"
  "SRTPublishPassphrase sample_path = []" "SRTReadPassphrase sample_path = []" "Fallback sample_path = []"
  "RunOnInit sample_path = []" "RunOnDemand sample_path = []" "RunOnUnDemand sample_path = []"
  "RecordSegmentDuration sample_path = 3600 * second" "Regexp sample_path = None"
  by (simp_all add: sample_path_def setDefaults_def zero_conf_def)

lemma sample_not_legacy: "\<not> legacy_mode sample_global"
  by (simp add: legacy_mode_def sample_global_fields anyPathHasDeprecatedCredentials_def sample_path_fields
      newOptionalPathValues_def no_deprecated_def credentials_set_def)

lemma sample_settings: "settings_ok sample_global"
proof -
  have "word_of_int 512 AND (word_of_int 512 - 1) = (0 :: u64)" by simp
  then show ?thesis
    by (simp add: settings_ok_def auth_settings_ok_def webrtc_ok_def power_of_two_def sample_global_def
        conf_setDefaults_def zero_global_def all_others_alias_def http_defaults_def zero_http_def)
qed

lemma validate_plain_path:
  assumes "validate_name env nm p = Inr p1" "Source p1 = ''publisher''" "\<not> SourceOnDemand p1"
    "Deprecated p1 = no_deprecated" "SRTPublishPassphrase p1 = []" "SRTReadPassphrase p1 = []" "Fallback p1 = []"
    "RunOnInit p1 = []" "RecordSegmentDuration p1 \<le> 24 * 3600 * second" "\<not> conf_Playback g"
  shows "validate env g nm False p = Inr (p1, g)"
  using assms
  by (simp add: validate_def validate_common_def require_def HasStaticSource_def validate_source_def
      validate_publisher_def no_deprecated_def validate_fallback_def validate_record_def validate_hooks_def Let_def)

lemma sample_accepted: "Validate sample_env sample_global = Inr sample_validated"
proof (rule Validate_intro)
  have prep: "prepared sample_global = fill_paths sample_global"
    using prepared_replaced [OF sample_not_legacy] nothing_replaced [of sample_global] by (simp add: sample_global_fields)
  have keys: "conf_sortedKeys (cf_OptionalPaths sample_global) = [''all_others'', ''cam'']"
    by (simp add: conf_sortedKeys_def sample_global_fields less_eq_char_def)
  define q where "q = (sample_path\<lparr>MaxReaders := 3\<rparr>)"
  let ?filled = "sample_global\<lparr>cf_OptionalPaths := fill_optional (cf_OptionalPaths sample_global)\<rparr>"
  have made: "make_path ?filled ''all_others'' = sample_path" "make_path ?filled ''cam'' = q"
    by (simp_all add: make_path_def sample_global_fields fill_optional_def newPath_def)
      (simp add: q_def copy_path_def newOptionalPathValues_def)
  have paths: "cf_Paths (prepared sample_global) = [(''all_others'', sample_path), (''cam'', q)]"
    by (simp add: prep fill_paths_def Let_def keys made)
  have playback: "\<not> hc_Enabled (cf_Playback (prepared sample_global))"
    by (simp add: prep) (simp add: sample_global_def conf_setDefaults_def zero_global_def http_defaults_def zero_http_def)
  have v1: "validate sample_env g ''all_others'' False sample_path =
      Inr (sample_path\<lparr>Name := ''all_others'', Regexp := Some ''^.*$''\<rparr>, g)" if "\<not> conf_Playback g" for g
    using that by (intro validate_plain_path) (simp_all add: validate_name_def sample_path_fields)
  have v2: "validate sample_env g ''cam'' False q = Inr (q\<lparr>Name := ''cam''\<rparr>, g)" if "\<not> conf_Playback g" for g
    using that
    by (intro validate_plain_path)
      (simp_all add: validate_name_def sample_path_fields q_def isValidPathName_def name_char_def slash_def)
  show "validate_paths sample_env (legacy_mode sample_global) (conf_sortedKeys (cf_OptionalPaths (prepared sample_global)))
      (prepared sample_global) = Inr sample_validated"
    using playback sample_not_legacy
    by (simp add: prepared_paths keys paths v1 v2 global_view_def set_users_def users_of_def)
      (simp add: prep fill_paths_def Let_def sample_validated_def q_def)
  show "settings_ok (prepared sample_global)"
    using sample_settings
    by (simp add: prep settings_ok_def auth_settings_ok_def filter_fill_optional)
  show "\<not> legacy_mode sample_global" by (rule sample_not_legacy)
  show "ValidateMethodDigestMD5 \<in> set (rs_AuthMethods (cf_RTSP (prepared sample_global))) \<longrightarrow>
      (\<forall>u \<in> set (users_of (prepared sample_global)). \<not> IsHashed (User u) \<and> \<not> IsHashed (Pass u))"
    by (simp add: prep) (simp add: sample_global_def conf_setDefaults_def zero_global_def)
qed

lemma validated_conf_witness:
  "map fst (cf_Paths sample_validated) = [''all_others'', ''cam''] \<and> conf_table (cf_Paths sample_validated)"
proof -
  have "distinct (map fst (cf_OptionalPaths sample_global))"
    by (simp add: sample_global_fields)
  then show ?thesis
    using validated_conf [OF sample_accepted] by (simp add: sample_validated_def)
qed

lemma validate_again_witness: "Validate sample_env sample_validated = Inr sample_validated"
proof -
  have "dWebRTCICEServers (cf_Deprecated sample_global) = None"
    by (simp add: sample_global_fields no_deprecated_global_def)
  then show ?thesis
    by (rule validate_again [OF sample_accepted sample_not_legacy])
qed

end
