(* ===== verification/CoreResources.thy ===== *)
theory CoreResources
  imports ConfProperties
begin

text \<open>
  The resources of the server (internal/core/core.go): which components run under a configuration, with which parameters and
  with references to which others, how they are created, and which of them a reload of the configuration closes.

  A component is one of those that \<open>Core\<close> holds a pointer to. An instance of it has a number of its own, the parameters that it was
  created with, the references to other instances that it was given then or later, and what it can be told while it runs:
  the internal users, the paths, the configuration. Whether the creation of an instance succeeds is a
  parameter. The pool of external commands and the watcher of the configuration file are flags.
\<close>

section \<open>Components\<close>

datatype component =
    CLogger | CAuthManager | CMetrics | CPPROF | CRecordCleaner | CPlayback | CPathManager | CRTSP | CRTSPS
  | CRTMP | CRTMPS | CHLS | CWebRTC | CSRT | CAPI

record rtsp_server =
  rv_Address :: string
  rv_AuthMethods :: "nat list"
  rv_ReadTimeout :: duration
  rv_WriteTimeout :: duration
  rv_WriteQueueSize :: int
  rv_UseUDP :: bool
  rv_UseMulticast :: bool
  rv_RTPAddress :: string
  rv_RTCPAddress :: string
  rv_MulticastIPRange :: string
  rv_MulticastRTPPort :: int
  rv_MulticastRTCPPort :: int
  rv_IsTLS :: bool
  rv_ServerCert :: string
  rv_ServerKey :: string
  rv_RTSPAddress :: string
  rv_Transports :: "rtsp_proto set"
  rv_RunOnConnect :: string
  rv_RunOnConnectRestart :: bool
  rv_RunOnDisconnect :: string

record rtmp_server =
  mv_Address :: string
  mv_ReadTimeout :: duration
  mv_WriteTimeout :: duration
  mv_IsTLS :: bool
  mv_ServerCert :: string
  mv_ServerKey :: string
  mv_RTSPAddress :: string
  mv_RunOnConnect :: string
  mv_RunOnConnectRestart :: bool
  mv_RunOnDisconnect :: string

record srt_server =
  sv_Address :: string
  sv_RTSPAddress :: string
  sv_ReadTimeout :: duration
  sv_WriteTimeout :: duration
  sv_UDPMaxPayloadSize :: int
  sv_RunOnConnect :: string
  sv_RunOnConnectRestart :: bool
  sv_RunOnDisconnect :: string

text \<open>The parameters of an instance, without what it can be told later.\<close>

datatype params =
    PLogger log_level "log_destination list" string
  | PAuthManager auth_method string "permission list" string string duration "nat list"
  | PHttp http_conf duration
  | PRecordCleaner
  | PPathManager log_level string duration duration int int
  | PRTSP rtsp_server
  | PRTMP rtmp_server
  | PHLS hls_conf duration
  | PWebRTC webrtc_conf duration
  | PSRT srt_server

record inst =
  in_id :: nat
  in_params :: params
  in_refs :: "component \<Rightarrow> nat option"
  in_users :: "auth_internal_user list option"
  in_paths :: "(string \<times> path_conf) list"
  in_conf :: "conf option"

datatype core_effect =
    Started component nat
  | Stopped component nat
  | HooksAwaited

record core =
  co_conf :: conf
  co_confPath :: string
  co_comps :: "component \<Rightarrow> inst option"
  co_pool :: bool
  co_watcher :: bool
  co_count :: nat
  co_out :: "core_effect list"

section \<open>Creation\<close>

text \<open>The condition of each block of \<open>createResources\<close> on the configuration.\<close>

fun wanted :: "component \<Rightarrow> conf \<Rightarrow> bool" where
  "wanted CMetrics c = hc_Enabled (cf_Metrics c)"
| "wanted CPPROF c = hc_Enabled (cf_PPROF c)"
| "wanted CPlayback c = hc_Enabled (cf_Playback c)"
| "wanted CRTSP c = (rs_RTSP (cf_RTSP c) \<and>
     (rs_Encryption (cf_RTSP c) = EncryptionNo \<or> rs_Encryption (cf_RTSP c) = EncryptionOptional))"
| "wanted CRTSPS c = (rs_RTSP (cf_RTSP c) \<and>
     (rs_Encryption (cf_RTSP c) = EncryptionStrict \<or> rs_Encryption (cf_RTSP c) = EncryptionOptional))"
| "wanted CRTMP c = (rm_RTMP (cf_RTMP c) \<and>
     (rm_Encryption (cf_RTMP c) = EncryptionNo \<or> rm_Encryption (cf_RTMP c) = EncryptionOptional))"
| "wanted CRTMPS c = (rm_RTMP (cf_RTMP c) \<and>
     (rm_Encryption (cf_RTMP c) = EncryptionStrict \<or> rm_Encryption (cf_RTMP c) = EncryptionOptional))"
| "wanted CHLS c = hc_Enabled (hl_http (cf_HLS c))"
| "wanted CWebRTC c = hc_Enabled (wr_http (cf_WebRTC c))"
| "wanted CSRT c = cf_SRT c"
| "wanted CAPI c = hc_Enabled (cf_API c)"
| "wanted _ c = True"

definition rtsp_params :: "conf \<Rightarrow> rtsp_server" where
  "rtsp_params c =
     (let r = cf_RTSP c in
      \<lparr>rv_Address = rs_Address r, rv_AuthMethods = rs_AuthMethods r, rv_ReadTimeout = cf_ReadTimeout c,
       rv_WriteTimeout = cf_WriteTimeout c, rv_WriteQueueSize = cf_WriteQueueSize c,
       rv_UseUDP = ProtoUDP \<in> rs_Transports r, rv_UseMulticast = ProtoUDPMulticast \<in> rs_Transports r,
       rv_RTPAddress = rs_RTPAddress r, rv_RTCPAddress = rs_RTCPAddress r,
       rv_MulticastIPRange = rs_MulticastIPRange r, rv_MulticastRTPPort = rs_MulticastRTPPort r,
       rv_MulticastRTCPPort = rs_MulticastRTCPPort r, rv_IsTLS = False, rv_ServerCert = [], rv_ServerKey = [],
       rv_RTSPAddress = rs_Address r, rv_Transports = rs_Transports r, rv_RunOnConnect = cf_RunOnConnect c,
       rv_RunOnConnectRestart = cf_RunOnConnectRestart c, rv_RunOnDisconnect = cf_RunOnDisconnect c\<rparr>)"

definition rtsps_params :: "conf \<Rightarrow> rtsp_server" where
  "rtsps_params c =
     (let r = cf_RTSP c in
      \<lparr>rv_Address = rs_SAddress r, rv_AuthMethods = rs_AuthMethods r, rv_ReadTimeout = cf_ReadTimeout c,
       rv_WriteTimeout = cf_WriteTimeout c, rv_WriteQueueSize = cf_WriteQueueSize c,
       rv_UseUDP = False, rv_UseMulticast = False, rv_RTPAddress = [], rv_RTCPAddress = [],
       rv_MulticastIPRange = [], rv_MulticastRTPPort = 0, rv_MulticastRTCPPort = 0, rv_IsTLS = True,
       rv_ServerCert = rs_ServerCert r, rv_ServerKey = rs_ServerKey r,
       rv_RTSPAddress = rs_Address r, rv_Transports = rs_Transports r, rv_RunOnConnect = cf_RunOnConnect c,
       rv_RunOnConnectRestart = cf_RunOnConnectRestart c, rv_RunOnDisconnect = cf_RunOnDisconnect c\<rparr>)"

definition rtmp_params :: "conf \<Rightarrow> rtmp_server" where
  "rtmp_params c =
     \<lparr>mv_Address = rm_Address (cf_RTMP c), mv_ReadTimeout = cf_ReadTimeout c, mv_WriteTimeout = cf_WriteTimeout c,
      mv_IsTLS = False, mv_ServerCert = [], mv_ServerKey = [], mv_RTSPAddress = rs_Address (cf_RTSP c),
      mv_RunOnConnect = cf_RunOnConnect c, mv_RunOnConnectRestart = cf_RunOnConnectRestart c,
      mv_RunOnDisconnect = cf_RunOnDisconnect c\<rparr>"

definition rtmps_params :: "conf \<Rightarrow> rtmp_server" where
  "rtmps_params c =
     \<lparr>mv_Address = rm_SAddress (cf_RTMP c), mv_ReadTimeout = cf_ReadTimeout c, mv_WriteTimeout = cf_WriteTimeout c,
      mv_IsTLS = True, mv_ServerCert = rm_ServerCert (cf_RTMP c), mv_ServerKey = rm_ServerKey (cf_RTMP c),
      mv_RTSPAddress = rs_Address (cf_RTSP c),
      mv_RunOnConnect = cf_RunOnConnect c, mv_RunOnConnectRestart = cf_RunOnConnectRestart c,
      mv_RunOnDisconnect = cf_RunOnDisconnect c\<rparr>"

definition srt_params :: "conf \<Rightarrow> srt_server" where
  "srt_params c =
     \<lparr>sv_Address = cf_SRTAddress c, sv_RTSPAddress = rs_Address (cf_RTSP c), sv_ReadTimeout = cf_ReadTimeout c,
      sv_WriteTimeout = cf_WriteTimeout c, sv_UDPMaxPayloadSize = cf_UDPMaxPayloadSize c,
      sv_RunOnConnect = cf_RunOnConnect c, sv_RunOnConnectRestart = cf_RunOnConnectRestart c,
      sv_RunOnDisconnect = cf_RunOnDisconnect c\<rparr>"

fun params_of :: "component \<Rightarrow> conf \<Rightarrow> params" where
  "params_of CLogger c = PLogger (cf_LogLevel c) (cf_LogDestinations c) (cf_LogFile c)"
| "params_of CAuthManager c =
     PAuthManager (cf_AuthMethod c) (cf_AuthHTTPAddress c) (cf_AuthHTTPExclude c) (cf_AuthJWTJWKS c)
       (cf_AuthJWTClaimKey c) (cf_ReadTimeout c) (rs_AuthMethods (cf_RTSP c))"
| "params_of CMetrics c = PHttp (cf_Metrics c) (cf_ReadTimeout c)"
| "params_of CPPROF c = PHttp (cf_PPROF c) (cf_ReadTimeout c)"
| "params_of CRecordCleaner c = PRecordCleaner"
| "params_of CPlayback c = PHttp (cf_Playback c) (cf_ReadTimeout c)"
| "params_of CPathManager c =
     PPathManager (cf_LogLevel c) (rs_Address (cf_RTSP c)) (cf_ReadTimeout c) (cf_WriteTimeout c)
       (cf_WriteQueueSize c) (cf_UDPMaxPayloadSize c)"
| "params_of CRTSP c = PRTSP (rtsp_params c)"
| "params_of CRTSPS c = PRTSP (rtsps_params c)"
| "params_of CRTMP c = PRTMP (rtmp_params c)"
| "params_of CRTMPS c = PRTMP (rtmps_params c)"
| "params_of CHLS c = PHLS (cf_HLS c) (cf_ReadTimeout c)"
| "params_of CWebRTC c = PWebRTC (cf_WebRTC c) (cf_ReadTimeout c)"
| "params_of CSRT c = PSRT (srt_params c)"
| "params_of CAPI c = PHttp (cf_API c) (cf_ReadTimeout c)"

text \<open>The pointers to other instances that are in the literal of each block.\<close>

fun literal_refs :: "component \<Rightarrow> component list" where
  "literal_refs CMetrics = [CAuthManager]"
| "literal_refs CPPROF = [CAuthManager]"
| "literal_refs CPlayback = [CAuthManager]"
| "literal_refs CPathManager = [CAuthManager]"
| "literal_refs CRTSP = [CPathManager]"
| "literal_refs CRTSPS = [CPathManager]"
| "literal_refs CRTMP = [CPathManager]"
| "literal_refs CRTMPS = [CPathManager]"
| "literal_refs CHLS = [CPathManager]"
| "literal_refs CWebRTC = [CPathManager]"
| "literal_refs CSRT = [CPathManager]"
| "literal_refs CAPI = [CAuthManager, CPathManager, CRTSP, CRTSPS, CRTMP, CRTMPS, CHLS, CWebRTC, CSRT]"
| "literal_refs _ = []"

text \<open>The setters of the metrics, and the components whose creation can fail.\<close>

definition metrics_knows :: "component list" where
  "metrics_knows = [CPathManager, CRTSP, CRTSPS, CRTMP, CRTMPS, CHLS, CWebRTC, CSRT]"

definition can_fail :: "component \<Rightarrow> bool" where
  "can_fail c = (c \<notin> {CAuthManager, CRecordCleaner, CPathManager})"

definition id_of :: "core \<Rightarrow> component \<Rightarrow> nat option" where
  "id_of co c = map_option in_id (co_comps co c)"

definition new_instance :: "core \<Rightarrow> component \<Rightarrow> inst" where
  "new_instance co c =
     \<lparr>in_id = co_count co, in_params = params_of c (co_conf co),
      in_refs = (\<lambda>d. if d \<in> set (literal_refs c) then id_of co d else None),
      in_users = (if c = CAuthManager then cf_AuthInternalUsers (co_conf co) else None),
      in_paths = (if c \<in> {CRecordCleaner, CPlayback, CPathManager} then cf_Paths (co_conf co) else []),
      in_conf = (if c = CAPI then Some (co_conf co) else None)\<rparr>"

definition upd_comp :: "component \<Rightarrow> (inst \<Rightarrow> inst) \<Rightarrow> core \<Rightarrow> core" where
  "upd_comp c f co = co\<lparr>co_comps := (co_comps co)(c := map_option f (co_comps co c))\<rparr>"

text \<open>\<open>setHLSServer\<close> of the path manager and the setters of the metrics; the metrics may be absent.\<close>

definition tell :: "component \<Rightarrow> component \<Rightarrow> nat option \<Rightarrow> core \<Rightarrow> core" where
  "tell c d v co = upd_comp c (\<lambda>i. i\<lparr>in_refs := (in_refs i)(d := v)\<rparr>) co"

definition register :: "component \<Rightarrow> nat option \<Rightarrow> core \<Rightarrow> core result" where
  "register c v co =
     bindE (if c = CHLS then
              (if co_comps co CPathManager = None then Inl Panic else Inr (tell CPathManager CHLS v co))
            else Inr co) (\<lambda>co1.
     Inr (if c \<in> set metrics_knows then tell CMetrics c v co1 else co1))"

text \<open>One block of \<open>createResources\<close>; the outcomes of the creations are \<open>start\<close>.\<close>

definition create :: "(component \<Rightarrow> nat \<Rightarrow> go_error option) \<Rightarrow> component \<Rightarrow> core \<Rightarrow> core result \<times> core" where
  "create start c co =
     (if wanted c (co_conf co) \<and> co_comps co c = None then
        (case (if can_fail c then start c (co_count co) else None) of
           Some e \<Rightarrow> (Inl e, co\<lparr>co_count := Suc (co_count co)\<rparr>)
         | None \<Rightarrow>
             let i = new_instance co c;
                 co1 = co\<lparr>co_comps := (co_comps co)(c \<mapsto> i), co_count := Suc (co_count co),
                          co_out := co_out co @ [Started c (in_id i)]\<rparr>
             in (case register c (Some (in_id i)) co1 of Inl e \<Rightarrow> (Inl e, co1) | Inr co2 \<Rightarrow> (Inr co2, co2)))
      else (Inr co, co))"

fun create_list ::
    "(component \<Rightarrow> nat \<Rightarrow> go_error option) \<Rightarrow> component list \<Rightarrow> core \<Rightarrow> core result \<times> core" where
  "create_list start [] co = (Inr co, co)"
| "create_list start (c # cs) co =
     (case create start c co of
        (Inl e, co1) \<Rightarrow> (Inl e, co1)
      | (Inr co1, _) \<Rightarrow> create_list start cs co1)"

definition creation_order :: "component list" where
  "creation_order =
     [CAuthManager, CMetrics, CPPROF, CRecordCleaner, CPlayback, CPathManager, CRTSP, CRTSPS, CRTMP, CRTMPS, CHLS,
      CWebRTC, CSRT, CAPI]"

text \<open>The result and, also after an error, the state; \<open>watch\<close> is the outcome of the creation of the watcher.\<close>

definition createResources ::
    "(component \<Rightarrow> nat \<Rightarrow> go_error option) \<Rightarrow> go_error option \<Rightarrow> bool \<Rightarrow> core \<Rightarrow> go_error option \<times> core" where
  "createResources start watch initial co =
     (case create start CLogger co of
        (Inl e, co1) \<Rightarrow> (Some e, co1)
      | (Inr co1, _) \<Rightarrow>
          (case create_list start creation_order (if initial then co1\<lparr>co_pool := True\<rparr> else co1) of
             (Inl e, co2) \<Rightarrow> (Some e, co2)
           | (Inr co2, _) \<Rightarrow>
               (if initial \<and> co_confPath co2 \<noteq> [] then
                  (case watch of Some e \<Rightarrow> (Some e, co2) | None \<Rightarrow> (None, co2\<lparr>co_watcher := True\<rparr>))
                else (None, co2))))"

section \<open>Closing\<close>

text \<open>
  Which components a new configuration closes, \<open>None\<close> standing for the shutdown. Each definition is one of the conditions at the
  top of \<open>closeResources\<close>; the comparisons of the section that six components share are one definition.
\<close>

definition http_changed :: "http_conf \<Rightarrow> http_conf \<Rightarrow> bool" where
  "http_changed n p =
     (hc_Enabled n \<noteq> hc_Enabled p \<or> hc_Address n \<noteq> hc_Address p \<or> hc_Encryption n \<noteq> hc_Encryption p \<or>
      hc_ServerKey n \<noteq> hc_ServerKey p \<or> hc_ServerCert n \<noteq> hc_ServerCert p \<or>
      hc_AllowOrigin n \<noteq> hc_AllowOrigin p \<or> hc_TrustedProxies n \<noteq> hc_TrustedProxies p)"

definition hooks_changed :: "conf \<Rightarrow> conf \<Rightarrow> bool" where
  "hooks_changed n p =
     (cf_RunOnConnect n \<noteq> cf_RunOnConnect p \<or> cf_RunOnConnectRestart n \<noteq> cf_RunOnConnectRestart p \<or>
      cf_RunOnDisconnect n \<noteq> cf_RunOnDisconnect p)"

definition if_new :: "(conf \<Rightarrow> bool) \<Rightarrow> conf option \<Rightarrow> bool" where
  "if_new f new = (case new of None \<Rightarrow> True | Some n \<Rightarrow> f n)"

definition closeLogger :: "conf option \<Rightarrow> conf \<Rightarrow> bool" where
  "closeLogger new p = if_new (\<lambda>n.
     cf_LogLevel n \<noteq> cf_LogLevel p \<or> cf_LogDestinations n \<noteq> cf_LogDestinations p \<or> cf_LogFile n \<noteq> cf_LogFile p) new"

definition closeAuthManager :: "conf option \<Rightarrow> conf \<Rightarrow> bool" where
  "closeAuthManager new p = if_new (\<lambda>n.
     cf_AuthMethod n \<noteq> cf_AuthMethod p \<or> cf_AuthHTTPAddress n \<noteq> cf_AuthHTTPAddress p \<or>
     cf_AuthHTTPExclude n \<noteq> cf_AuthHTTPExclude p \<or> cf_AuthJWTJWKS n \<noteq> cf_AuthJWTJWKS p \<or>
     cf_AuthJWTClaimKey n \<noteq> cf_AuthJWTClaimKey p \<or> cf_ReadTimeout n \<noteq> cf_ReadTimeout p \<or>
     rs_AuthMethods (cf_RTSP n) \<noteq> rs_AuthMethods (cf_RTSP p)) new"

definition closeMetrics :: "conf option \<Rightarrow> conf \<Rightarrow> bool" where
  "closeMetrics new p =
     (if_new (\<lambda>n. http_changed (cf_Metrics n) (cf_Metrics p) \<or> cf_ReadTimeout n \<noteq> cf_ReadTimeout p) new \<or>
      closeAuthManager new p \<or> closeLogger new p)"

definition closePPROF :: "conf option \<Rightarrow> conf \<Rightarrow> bool" where
  "closePPROF new p =
     (if_new (\<lambda>n. http_changed (cf_PPROF n) (cf_PPROF p) \<or> cf_ReadTimeout n \<noteq> cf_ReadTimeout p) new \<or>
      closeAuthManager new p \<or> closeLogger new p)"

definition closeRecorderCleaner :: "conf option \<Rightarrow> conf \<Rightarrow> bool" where
  "closeRecorderCleaner new p = (new = None \<or> closeLogger new p)"

definition closePlaybackServer :: "conf option \<Rightarrow> conf \<Rightarrow> bool" where
  "closePlaybackServer new p =
     (if_new (\<lambda>n. http_changed (cf_Playback n) (cf_Playback p) \<or> cf_ReadTimeout n \<noteq> cf_ReadTimeout p) new \<or>
      closeAuthManager new p \<or> closeLogger new p)"

definition closePathManager :: "conf option \<Rightarrow> conf \<Rightarrow> bool" where
  "closePathManager new p =
     (if_new (\<lambda>n.
        cf_LogLevel n \<noteq> cf_LogLevel p \<or> rs_Address (cf_RTSP n) \<noteq> rs_Address (cf_RTSP p) \<or>
        rs_AuthMethods (cf_RTSP n) \<noteq> rs_AuthMethods (cf_RTSP p) \<or> cf_ReadTimeout n \<noteq> cf_ReadTimeout p \<or>
        cf_WriteTimeout n \<noteq> cf_WriteTimeout p \<or> cf_WriteQueueSize n \<noteq> cf_WriteQueueSize p \<or>
        cf_UDPMaxPayloadSize n \<noteq> cf_UDPMaxPayloadSize p) new \<or>
      closeMetrics new p \<or> closeAuthManager new p \<or> closeLogger new p)"

definition closeRTSPServer :: "conf option \<Rightarrow> conf \<Rightarrow> bool" where
  "closeRTSPServer new p =
     (if_new (\<lambda>n. let r = cf_RTSP n; q = cf_RTSP p in
        rs_RTSP r \<noteq> rs_RTSP q \<or> rs_Encryption r \<noteq> rs_Encryption q \<or> rs_Address r \<noteq> rs_Address q \<or>
        rs_AuthMethods r \<noteq> rs_AuthMethods q \<or> cf_ReadTimeout n \<noteq> cf_ReadTimeout p \<or>
        cf_WriteTimeout n \<noteq> cf_WriteTimeout p \<or> cf_WriteQueueSize n \<noteq> cf_WriteQueueSize p \<or>
        rs_RTPAddress r \<noteq> rs_RTPAddress q \<or> rs_RTCPAddress r \<noteq> rs_RTCPAddress q \<or>
        rs_MulticastIPRange r \<noteq> rs_MulticastIPRange q \<or> rs_MulticastRTPPort r \<noteq> rs_MulticastRTPPort q \<or>
        rs_MulticastRTCPPort r \<noteq> rs_MulticastRTCPPort q \<or> rs_Transports r \<noteq> rs_Transports q \<or>
        hooks_changed n p) new \<or>
      closeMetrics new p \<or> closePathManager new p \<or> closeLogger new p)"

definition closeRTSPSServer :: "conf option \<Rightarrow> conf \<Rightarrow> bool" where
  "closeRTSPSServer new p =
     (if_new (\<lambda>n. let r = cf_RTSP n; q = cf_RTSP p in
        rs_RTSP r \<noteq> rs_RTSP q \<or> rs_Encryption r \<noteq> rs_Encryption q \<or> rs_SAddress r \<noteq> rs_SAddress q \<or>
        rs_AuthMethods r \<noteq> rs_AuthMethods q \<or> cf_ReadTimeout n \<noteq> cf_ReadTimeout p \<or>
        cf_WriteTimeout n \<noteq> cf_WriteTimeout p \<or> cf_WriteQueueSize n \<noteq> cf_WriteQueueSize p \<or>
        rs_ServerCert r \<noteq> rs_ServerCert q \<or> rs_ServerKey r \<noteq> rs_ServerKey q \<or> rs_Address r \<noteq> rs_Address q \<or>
        rs_Transports r \<noteq> rs_Transports q \<or> hooks_changed n p) new \<or>
      closeMetrics new p \<or> closePathManager new p \<or> closeLogger new p)"

definition closeRTMPServer :: "conf option \<Rightarrow> conf \<Rightarrow> bool" where
  "closeRTMPServer new p =
     (if_new (\<lambda>n. let r = cf_RTMP n; q = cf_RTMP p in
        rm_RTMP r \<noteq> rm_RTMP q \<or> rm_Encryption r \<noteq> rm_Encryption q \<or> rm_Address r \<noteq> rm_Address q \<or>
        cf_ReadTimeout n \<noteq> cf_ReadTimeout p \<or> cf_WriteTimeout n \<noteq> cf_WriteTimeout p \<or>
        rs_Address (cf_RTSP n) \<noteq> rs_Address (cf_RTSP p) \<or> hooks_changed n p) new \<or>
      closeMetrics new p \<or> closePathManager new p \<or> closeLogger new p)"

definition closeRTMPSServer :: "conf option \<Rightarrow> conf \<Rightarrow> bool" where
  "closeRTMPSServer new p =
     (if_new (\<lambda>n. let r = cf_RTMP n; q = cf_RTMP p in
        rm_RTMP r \<noteq> rm_RTMP q \<or> rm_Encryption r \<noteq> rm_Encryption q \<or> rm_SAddress r \<noteq> rm_SAddress q \<or>
        cf_ReadTimeout n \<noteq> cf_ReadTimeout p \<or> cf_WriteTimeout n \<noteq> cf_WriteTimeout p \<or>
        rm_ServerCert r \<noteq> rm_ServerCert q \<or> rm_ServerKey r \<noteq> rm_ServerKey q \<or>
        rs_Address (cf_RTSP n) \<noteq> rs_Address (cf_RTSP p) \<or> hooks_changed n p) new \<or>
      closeMetrics new p \<or> closePathManager new p \<or> closeLogger new p)"

definition closeHLSServer :: "conf option \<Rightarrow> conf \<Rightarrow> bool" where
  "closeHLSServer new p =
     (if_new (\<lambda>n. let h = cf_HLS n; q = cf_HLS p in
        http_changed (hl_http h) (hl_http q) \<or> hl_AlwaysRemux h \<noteq> hl_AlwaysRemux q \<or> hl_Variant h \<noteq> hl_Variant q \<or>
        hl_SegmentCount h \<noteq> hl_SegmentCount q \<or> hl_SegmentDuration h \<noteq> hl_SegmentDuration q \<or>
        hl_PartDuration h \<noteq> hl_PartDuration q \<or> hl_SegmentMaxSize h \<noteq> hl_SegmentMaxSize q \<or>
        hl_Directory h \<noteq> hl_Directory q \<or> cf_ReadTimeout n \<noteq> cf_ReadTimeout p \<or>
        hl_MuxerCloseAfter h \<noteq> hl_MuxerCloseAfter q) new \<or>
      closePathManager new p \<or> closeMetrics new p \<or> closeLogger new p)"

definition closeWebRTCServer :: "conf option \<Rightarrow> conf \<Rightarrow> bool" where
  "closeWebRTCServer new p =
     (if_new (\<lambda>n. let w = cf_WebRTC n; q = cf_WebRTC p in
        http_changed (wr_http w) (wr_http q) \<or> cf_ReadTimeout n \<noteq> cf_ReadTimeout p \<or>
        wr_LocalUDPAddress w \<noteq> wr_LocalUDPAddress q \<or> wr_LocalTCPAddress w \<noteq> wr_LocalTCPAddress q \<or>
        wr_IPsFromInterfaces w \<noteq> wr_IPsFromInterfaces q \<or>
        wr_IPsFromInterfacesList w \<noteq> wr_IPsFromInterfacesList q \<or>
        wr_AdditionalHosts w \<noteq> wr_AdditionalHosts q \<or> wr_ICEServers2 w \<noteq> wr_ICEServers2 q \<or>
        wr_HandshakeTimeout w \<noteq> wr_HandshakeTimeout q \<or> wr_TrackGatherTimeout w \<noteq> wr_TrackGatherTimeout q) new \<or>
      closeMetrics new p \<or> closePathManager new p \<or> closeLogger new p)"

definition closeSRTServer :: "conf option \<Rightarrow> conf \<Rightarrow> bool" where
  "closeSRTServer new p =
     (if_new (\<lambda>n.
        cf_SRT n \<noteq> cf_SRT p \<or> cf_SRTAddress n \<noteq> cf_SRTAddress p \<or>
        rs_Address (cf_RTSP n) \<noteq> rs_Address (cf_RTSP p) \<or> cf_ReadTimeout n \<noteq> cf_ReadTimeout p \<or>
        cf_WriteTimeout n \<noteq> cf_WriteTimeout p \<or> cf_UDPMaxPayloadSize n \<noteq> cf_UDPMaxPayloadSize p \<or>
        hooks_changed n p) new \<or>
      closePathManager new p \<or> closeLogger new p)"

text \<open>The server of encrypted RTMP is not among the conditions of the API.\<close>

definition closeAPI :: "conf option \<Rightarrow> conf \<Rightarrow> bool" where
  "closeAPI new p =
     (if_new (\<lambda>n. http_changed (cf_API n) (cf_API p) \<or> cf_ReadTimeout n \<noteq> cf_ReadTimeout p) new \<or>
      closeAuthManager new p \<or> closePathManager new p \<or> closeRTSPServer new p \<or> closeRTSPSServer new p \<or>
      closeRTMPServer new p \<or> closeHLSServer new p \<or> closeWebRTCServer new p \<or> closeSRTServer new p \<or>
      closeLogger new p)"

fun closing :: "component \<Rightarrow> conf option \<Rightarrow> conf \<Rightarrow> bool" where
  "closing CLogger = closeLogger"
| "closing CAuthManager = closeAuthManager"
| "closing CMetrics = closeMetrics"
| "closing CPPROF = closePPROF"
| "closing CRecordCleaner = closeRecorderCleaner"
| "closing CPlayback = closePlaybackServer"
| "closing CPathManager = closePathManager"
| "closing CRTSP = closeRTSPServer"
| "closing CRTSPS = closeRTSPSServer"
| "closing CRTMP = closeRTMPServer"
| "closing CRTMPS = closeRTMPSServer"
| "closing CHLS = closeHLSServer"
| "closing CWebRTC = closeWebRTCServer"
| "closing CSRT = closeSRTServer"
| "closing CAPI = closeAPI"

text \<open>What components that stay are told: the internal users, the paths. Those that always run are not tested for nil.\<close>

definition tell_users :: "conf \<Rightarrow> core \<Rightarrow> core result" where
  "tell_users n co =
     (if \<not> closeAuthManager (Some n) (co_conf co) \<and> cf_AuthInternalUsers n \<noteq> cf_AuthInternalUsers (co_conf co) then
        (if co_comps co CAuthManager = None then Inl Panic
         else Inr (upd_comp CAuthManager (\<lambda>i. i\<lparr>in_users := cf_AuthInternalUsers n\<rparr>) co))
      else Inr co)"

definition tell_paths :: "component \<Rightarrow> conf \<Rightarrow> core \<Rightarrow> core result" where
  "tell_paths c n co =
     (if \<not> closing c (Some n) (co_conf co) \<and> cf_Paths n \<noteq> cf_Paths (co_conf co) then
        (if co_comps co c = None then (if c = CPlayback then Inr co else Inl Panic)
         else Inr (upd_comp c (\<lambda>i. i\<lparr>in_paths := cf_Paths n\<rparr>) co))
      else Inr co)"

definition tell_all :: "conf option \<Rightarrow> core \<Rightarrow> core result" where
  "tell_all new co =
     (case new of
        None \<Rightarrow> Inr co
      | Some n \<Rightarrow>
          bindE (tell_users n co) (\<lambda>co1.
          bindE (tell_paths CRecordCleaner n co1) (\<lambda>co2.
          bindE (tell_paths CPlayback n co2) (\<lambda>co3.
          tell_paths CPathManager n co3))))"

definition stop :: "component \<Rightarrow> core \<Rightarrow> core" where
  "stop c co =
     (case co_comps co c of
        None \<Rightarrow> co
      | Some i \<Rightarrow> co\<lparr>co_comps := (co_comps co)(c := None), co_out := co_out co @ [Stopped c (in_id i)]\<rparr>)"

definition stop_api :: "conf option \<Rightarrow> bool \<Rightarrow> core \<Rightarrow> core" where
  "stop_api new calledByAPI co =
     (if co_comps co CAPI = None then co
      else if closeAPI new (co_conf co) then stop CAPI co
      else if \<not> calledByAPI then upd_comp CAPI (\<lambda>i. i\<lparr>in_conf := new\<rparr>) co
      else co)"

text \<open>One block that closes a component, after it has been taken out of the metrics and of the path manager.\<close>

definition close_one :: "conf option \<Rightarrow> component \<Rightarrow> core \<Rightarrow> core result" where
  "close_one new c co =
     (if closing c new (co_conf co) \<and> co_comps co c \<noteq> None then
        bindE (register c None co) (\<lambda>co1. Inr (stop c co1))
      else Inr co)"

fun close_list :: "conf option \<Rightarrow> component list \<Rightarrow> core \<Rightarrow> core result" where
  "close_list new [] co = Inr co"
| "close_list new (c # cs) co = bindE (close_one new c co) (\<lambda>co1. close_list new cs co1)"

definition closing_order :: "component list" where
  "closing_order =
     [CSRT, CWebRTC, CHLS, CRTMPS, CRTMP, CRTSPS, CRTSP, CPathManager, CPlayback, CRecordCleaner, CPPROF, CMetrics,
      CAuthManager]"

text \<open>Waiting for the hooks logs a line first, through the pointer to the logger.\<close>

definition await_hooks :: "conf option \<Rightarrow> core \<Rightarrow> core result" where
  "await_hooks new co =
     (if new = None \<and> co_pool co then
        (if co_comps co CLogger = None then Inl Panic else Inr (co\<lparr>co_out := co_out co @ [HooksAwaited]\<rparr>))
      else Inr co)"

definition closeResources :: "conf option \<Rightarrow> bool \<Rightarrow> core \<Rightarrow> core result" where
  "closeResources new calledByAPI co =
     bindE (tell_all new co) (\<lambda>co1.
     let co2 = (if new = None then co1\<lparr>co_watcher := False\<rparr> else co1) in
     bindE (close_list new closing_order (stop_api new calledByAPI co2)) (\<lambda>co3.
     bindE (await_hooks new co3) (\<lambda>co4.
     close_one new CLogger co4)))"

section \<open>The loop\<close>

text \<open>The error is that of the creation; a panic is an error of the result.\<close>

definition reloadConf ::
    "(component \<Rightarrow> nat \<Rightarrow> go_error option) \<Rightarrow> conf \<Rightarrow> bool \<Rightarrow> core \<Rightarrow> (go_error option \<times> core) result" where
  "reloadConf start new calledByAPI co =
     bindE (closeResources (Some new) calledByAPI co) (\<lambda>co1.
     Inr (createResources start None False (co1\<lparr>co_conf := new\<rparr>)))"

datatype core_event =
    FileChanged "conf result"
  | APISet conf
  | Interrupt
  | CtxDone

text \<open>A line of the log: a nil logger is a panic.\<close>

definition core_Log :: "core \<Rightarrow> unit result" where
  "core_Log co = (if co_comps co CLogger = None then Inl Panic else Inr ())"

text \<open>One turn of the loop: whether the loop goes on, and the state.\<close>

definition core_turn ::
    "(component \<Rightarrow> nat \<Rightarrow> go_error option) \<Rightarrow> core_event \<Rightarrow> core \<Rightarrow> (bool \<times> core) result" where
  "core_turn start ev co =
     (case ev of
        FileChanged (Inl e) \<Rightarrow> bindE (core_Log co) (\<lambda>_. Inr (False, co))
      | FileChanged (Inr new) \<Rightarrow>
          bindE (core_Log co) (\<lambda>_.
          bindE (reloadConf start new False co) (\<lambda>(err, co1).
          case err of None \<Rightarrow> Inr (True, co1) | Some e \<Rightarrow> bindE (core_Log co1) (\<lambda>_. Inr (False, co1))))
      | APISet new \<Rightarrow>
          bindE (core_Log co) (\<lambda>_.
          bindE (reloadConf start new True co) (\<lambda>(err, co1).
          case err of None \<Rightarrow> Inr (True, co1) | Some e \<Rightarrow> bindE (core_Log co1) (\<lambda>_. Inr (False, co1))))
      | Interrupt \<Rightarrow> bindE (core_Log co) (\<lambda>_. Inr (False, co))
      | CtxDone \<Rightarrow> Inr (False, co))"

text \<open>The loop over the events, and the end of the goroutine; a finite list of events may leave the loop running.\<close>

fun core_run ::
    "(component \<Rightarrow> nat \<Rightarrow> go_error option) \<Rightarrow> core_event list \<Rightarrow> core \<Rightarrow> (bool \<times> core) result" where
  "core_run start [] co = Inr (True, co)"
| "core_run start (ev # evs) co =
     bindE (core_turn start ev co) (\<lambda>(go_on, co1).
     if go_on then core_run start evs co1
     else bindE (closeResources None False co1) (\<lambda>co2. Inr (False, co2)))"

text \<open>\<open>New\<close> with a configuration that was loaded: an error is printed without the logger when there is none.\<close>

definition core_New ::
    "(component \<Rightarrow> nat \<Rightarrow> go_error option) \<Rightarrow> go_error option \<Rightarrow> string \<Rightarrow> conf \<Rightarrow> (bool \<times> core) result" where
  "core_New start watch confPath c =
     (let co = \<lparr>co_conf = c, co_confPath = confPath, co_comps = (\<lambda>_. None), co_pool = False, co_watcher = False,
                co_count = 0, co_out = []\<rparr>
      in case createResources start watch True co of
           (None, co1) \<Rightarrow> Inr (True, co1)
         | (Some e, co1) \<Rightarrow> bindE (closeResources None False co1) (\<lambda>co2. Inr (False, co2)))"

end
