(* ===== verification/CoreInvariant.thy ===== *)
theory CoreInvariant
  imports CoreResources
begin

text \<open>
  The invariant of the core: what runs is what the configuration asks for, with the parameters of the configuration, and
  every reference to another component is to the instance that runs; and the same of every moment of a reload, as far as references
  go. The one exception is the reference of the API to the server of encrypted RTMP.
\<close>

section \<open>What the conditions say\<close>

lemma http_changed_iff: "http_changed n p \<longleftrightarrow> n \<noteq> p"
  by (cases n; cases p) (auto simp: http_changed_def)

lemma unchanged_hls:
  assumes "\<not> closeHLSServer (Some n) p"
  shows "cf_HLS n = cf_HLS p" "cf_ReadTimeout n = cf_ReadTimeout p"
proof -
  show "cf_HLS n = cf_HLS p"
    using assms by (intro hls_conf.equality) (simp_all add: closeHLSServer_def if_new_def Let_def http_changed_iff)
  show "cf_ReadTimeout n = cf_ReadTimeout p"
    using assms by (simp add: closeHLSServer_def if_new_def Let_def)
qed

lemma unchanged_webrtc:
  assumes "\<not> closeWebRTCServer (Some n) p"
  shows "cf_WebRTC n = cf_WebRTC p" "cf_ReadTimeout n = cf_ReadTimeout p"
proof -
  show "cf_WebRTC n = cf_WebRTC p"
    using assms by (intro webrtc_conf.equality) (simp_all add: closeWebRTCServer_def if_new_def Let_def http_changed_iff)
  show "cf_ReadTimeout n = cf_ReadTimeout p"
    using assms by (simp add: closeWebRTCServer_def if_new_def Let_def)
qed

text \<open>A component that is not closed has the parameters of the new configuration, and is wanted if it was.\<close>

lemma kept_params:
  assumes "\<not> closing c (Some n) p"
  shows "params_of c n = params_of c p \<and> wanted c n = wanted c p"
proof (cases c)
  case CHLS
  then show ?thesis
    using unchanged_hls [of n p] assms by simp
next
  case CWebRTC
  then show ?thesis
    using unchanged_webrtc [of n p] assms by simp
next
  case CLogger
  then show ?thesis using assms by (simp add: if_new_def Let_def http_changed_iff closeLogger_def)
next
  case CAuthManager
  then show ?thesis using assms by (simp add: if_new_def Let_def http_changed_iff closeAuthManager_def)
next
  case CMetrics
  then show ?thesis using assms by (simp add: if_new_def Let_def http_changed_iff closeMetrics_def)
next
  case CPPROF
  then show ?thesis using assms by (simp add: if_new_def Let_def http_changed_iff closePPROF_def)
next
  case CRecordCleaner
  then show ?thesis using assms by (simp add: if_new_def Let_def http_changed_iff )
next
  case CPlayback
  then show ?thesis using assms by (simp add: if_new_def Let_def http_changed_iff closePlaybackServer_def)
next
  case CPathManager
  then show ?thesis using assms by (simp add: if_new_def Let_def http_changed_iff closePathManager_def)
next
  case CRTSP
  then show ?thesis using assms by (simp add: if_new_def Let_def http_changed_iff closeRTSPServer_def rtsp_params_def hooks_changed_def)
next
  case CRTSPS
  then show ?thesis using assms by (simp add: if_new_def Let_def http_changed_iff closeRTSPSServer_def rtsps_params_def hooks_changed_def)
next
  case CRTMP
  then show ?thesis using assms by (simp add: if_new_def Let_def http_changed_iff closeRTMPServer_def rtmp_params_def hooks_changed_def)
next
  case CRTMPS
  then show ?thesis using assms by (simp add: if_new_def Let_def http_changed_iff closeRTMPSServer_def rtmps_params_def hooks_changed_def)
next
  case CSRT
  then show ?thesis using assms by (simp add: if_new_def Let_def http_changed_iff closeSRTServer_def srt_params_def hooks_changed_def)
next
  case CAPI
  then show ?thesis using assms by (simp add: if_new_def Let_def http_changed_iff closeAPI_def)
qed

text \<open>Who refers to a component that is closed is closed, but for the API and encrypted RTMP.\<close>

definition refers :: "component \<Rightarrow> component \<Rightarrow> bool" where
  "refers c d = (d \<in> set (literal_refs c) \<and> \<not> (c = CAPI \<and> d = CRTMPS))"

lemma closing_refers:
  assumes "closing d new p" "refers c d"
  shows "closing c new p"
proof (cases c)
  case CMetrics
  then show ?thesis using assms by (auto simp: refers_def closeMetrics_def [of new p])
next
  case CPPROF
  then show ?thesis using assms by (auto simp: refers_def closePPROF_def [of new p])
next
  case CPlayback
  then show ?thesis using assms by (auto simp: refers_def closePlaybackServer_def [of new p])
next
  case CPathManager
  then show ?thesis using assms by (auto simp: refers_def closePathManager_def [of new p])
next
  case CRTSP
  then show ?thesis using assms by (auto simp: refers_def closeRTSPServer_def [of new p])
next
  case CRTSPS
  then show ?thesis using assms by (auto simp: refers_def closeRTSPSServer_def [of new p])
next
  case CRTMP
  then show ?thesis using assms by (auto simp: refers_def closeRTMPServer_def [of new p])
next
  case CRTMPS
  then show ?thesis using assms by (auto simp: refers_def closeRTMPSServer_def [of new p])
next
  case CHLS
  then show ?thesis using assms by (auto simp: refers_def closeHLSServer_def [of new p])
next
  case CWebRTC
  then show ?thesis using assms by (auto simp: refers_def closeWebRTCServer_def [of new p])
next
  case CSRT
  then show ?thesis using assms by (auto simp: refers_def closeSRTServer_def [of new p])
next
  case CAPI
  then show ?thesis using assms by (auto simp: refers_def closeAPI_def [of new p])
qed (use assms in \<open>simp_all add: refers_def\<close>)

lemma closing_logger:
  assumes "closeLogger new p" "c \<noteq> CAuthManager"
  shows "closing c new p"
proof (cases c)
  case CMetrics
  then show ?thesis using assms by (simp add: closeMetrics_def [of new p])
next
  case CPPROF
  then show ?thesis using assms by (simp add: closePPROF_def [of new p])
next
  case CPlayback
  then show ?thesis using assms by (simp add: closePlaybackServer_def [of new p])
next
  case CPathManager
  then show ?thesis using assms by (simp add: closePathManager_def [of new p])
next
  case CRTSP
  then show ?thesis using assms by (simp add: closeRTSPServer_def [of new p])
next
  case CRTSPS
  then show ?thesis using assms by (simp add: closeRTSPSServer_def [of new p])
next
  case CRTMP
  then show ?thesis using assms by (simp add: closeRTMPServer_def [of new p])
next
  case CRTMPS
  then show ?thesis using assms by (simp add: closeRTMPSServer_def [of new p])
next
  case CHLS
  then show ?thesis using assms by (simp add: closeHLSServer_def [of new p])
next
  case CWebRTC
  then show ?thesis using assms by (simp add: closeWebRTCServer_def [of new p])
next
  case CSRT
  then show ?thesis using assms by (simp add: closeSRTServer_def [of new p])
next
  case CAPI
  then show ?thesis using assms by (simp add: closeAPI_def [of new p])
qed (use assms in \<open>simp_all add: closeRecorderCleaner_def\<close>)

lemma closing_None [simp]: "closing c None p"
  by (cases c)
    (simp_all add: if_new_def closeLogger_def closeAuthManager_def closeMetrics_def closePPROF_def
      closeRecorderCleaner_def closePlaybackServer_def closePathManager_def closeRTSPServer_def closeRTSPSServer_def
      closeRTMPServer_def closeRTMPSServer_def closeHLSServer_def closeWebRTCServer_def closeSRTServer_def closeAPI_def)

section \<open>References\<close>

definition knows :: "component \<Rightarrow> component \<Rightarrow> bool" where
  "knows c d = (refers c d \<or> c = CMetrics \<and> d \<in> set metrics_knows \<or> c = CPathManager \<and> d = CHLS)"

text \<open>Every reference is to what runs: to the instance, or nil if there is none.\<close>

definition linked :: "core \<Rightarrow> bool" where
  "linked co = (\<forall>c i d. co_comps co c = Some i \<longrightarrow> knows c d \<longrightarrow> in_refs i d = id_of co d)"

lemma linkedD: "linked co \<Longrightarrow> co_comps co c = Some i \<Longrightarrow> knows c d \<Longrightarrow> in_refs i d = id_of co d"
  by (auto simp: linked_def)

lemma upd_comp_simps [simp]:
  "co_conf (upd_comp c f co) = co_conf co" "co_pool (upd_comp c f co) = co_pool co"
  "co_count (upd_comp c f co) = co_count co" "co_out (upd_comp c f co) = co_out co"
  "co_confPath (upd_comp c f co) = co_confPath co" "co_watcher (upd_comp c f co) = co_watcher co"
  "co_comps (upd_comp c f co) d = (if d = c then map_option f (co_comps co c) else co_comps co d)"
  by (simp_all add: upd_comp_def)

lemma id_upd_comp [simp]: "(\<And>i. in_id (f i) = in_id i) \<Longrightarrow> id_of (upd_comp c f co) d = id_of co d"
  by (simp add: id_of_def option.map_comp comp_def)

lemma tell_simps [simp]:
  "co_conf (tell c d v co) = co_conf co" "co_pool (tell c d v co) = co_pool co"
  "co_count (tell c d v co) = co_count co" "co_out (tell c d v co) = co_out co"
  "co_confPath (tell c d v co) = co_confPath co" "co_watcher (tell c d v co) = co_watcher co"
  "id_of (tell c d v co) e = id_of co e"
  "co_comps (tell c d v co) e =
     (if e = c then map_option (\<lambda>i. i\<lparr>in_refs := (in_refs i)(d := v)\<rparr>) (co_comps co c) else co_comps co e)"
  by (simp_all add: tell_def)

text \<open>Two states that differ in references at most.\<close>

definition same_but_refs :: "core \<Rightarrow> core \<Rightarrow> bool" where
  "same_but_refs co co' =
     (co_conf co' = co_conf co \<and> co_pool co' = co_pool co \<and> co_count co' = co_count co \<and> co_out co' = co_out co \<and>
      co_confPath co' = co_confPath co \<and> co_watcher co' = co_watcher co \<and>
      (\<forall>c. rel_option (\<lambda>i i'. \<exists>r. i' = i\<lparr>in_refs := r\<rparr>) (co_comps co c) (co_comps co' c)))"

lemma same_but_refs_refl: "same_but_refs co co"
proof -
  have "\<exists>r. i = i\<lparr>in_refs := r\<rparr>" for i :: inst
    by (rule exI [of _ "in_refs i"]) simp
  then show ?thesis by (simp add: same_but_refs_def option.rel_refl)
qed

lemma same_but_refs_tell: "same_but_refs co co' \<Longrightarrow> same_but_refs co (tell c d v co')"
proof -
  assume same: "same_but_refs co co'"
  have "rel_option (\<lambda>i i'. \<exists>r. i' = i\<lparr>in_refs := r\<rparr>) (co_comps co e) (co_comps (tell c d v co') e)" for e
  proof -
    have "rel_option (\<lambda>i i'. \<exists>r. i' = i\<lparr>in_refs := r\<rparr>) (co_comps co e) (co_comps co' e)"
      using same by (simp add: same_but_refs_def)
    then show ?thesis
      by (cases "co_comps co e"; cases "co_comps co' e") auto
  qed
  then show ?thesis using same by (simp add: same_but_refs_def)
qed

lemma register_same: "register c v co = Inr co' \<Longrightarrow> same_but_refs co co'"
  by (auto simp: register_def bindE_eq_Inr intro!: same_but_refs_tell same_but_refs_refl split: if_splits)

lemma register_total: "c = CHLS \<Longrightarrow> co_comps co CPathManager \<noteq> None \<Longrightarrow> \<exists>co'. register c v co = Inr co'"
  "c \<noteq> CHLS \<Longrightarrow> \<exists>co'. register c v co = Inr co'"
  by (auto simp: register_def)

lemma same_ids: "same_but_refs co co' \<Longrightarrow> id_of co' c = id_of co c"
proof -
  assume "same_but_refs co co'"
  then have "rel_option (\<lambda>i i'. \<exists>r. i' = i\<lparr>in_refs := r\<rparr>) (co_comps co c) (co_comps co' c)"
    by (simp add: same_but_refs_def)
  then show ?thesis
    by (cases "co_comps co c"; cases "co_comps co' c") (auto simp: id_of_def)
qed

text \<open>After a registration the metrics and the path manager know the new reference, and no other reference has changed.\<close>

lemma register_refs:
  assumes "register c v co = Inr co'" "co_comps co' u = Some i'"
  obtains i where "co_comps co u = Some i"
    "\<And>d. in_refs i' d =
       (if d = c \<and> (u = CMetrics \<and> c \<in> set metrics_knows \<or> u = CPathManager \<and> c = CHLS) then v else in_refs i d)"
proof -
  have "\<exists>i. co_comps co u = Some i \<and> (\<forall>d. in_refs i' d =
       (if d = c \<and> (u = CMetrics \<and> c \<in> set metrics_knows \<or> u = CPathManager \<and> c = CHLS) then v else in_refs i d))"
    using assms by (cases "co_comps co u") (auto simp: register_def bindE_eq_Inr split: if_splits)
  then show thesis using that by blast
qed

section \<open>Closing\<close>

text \<open>What an instance keeps of another state: all but its references.\<close>

definition keeps :: "inst \<Rightarrow> inst \<Rightarrow> bool" where
  "keeps i i' = (\<exists>r. i' = i\<lparr>in_refs := r\<rparr>)"

lemma keeps_refl [simp]: "keeps i i"
  unfolding keeps_def by (rule exI [of _ "in_refs i"]) simp

lemma keeps_trans: "keeps i j \<Longrightarrow> keeps j k \<Longrightarrow> keeps i k"
  by (auto simp: keeps_def)

lemma keeps_fields:
  "keeps i i' \<Longrightarrow> in_id i' = in_id i" "keeps i i' \<Longrightarrow> in_params i' = in_params i" "keeps i i' \<Longrightarrow> in_users i' = in_users i"
  "keeps i i' \<Longrightarrow> in_paths i' = in_paths i" "keeps i i' \<Longrightarrow> in_conf i' = in_conf i"
  by (auto simp: keeps_def)

text \<open>The state after those of a set that are to be closed have been, from a state before.\<close>

definition closed_from :: "core \<Rightarrow> conf option \<Rightarrow> component set \<Rightarrow> core \<Rightarrow> bool" where
  "closed_from co0 new S co =
     (co_conf co = co_conf co0 \<and> co_pool co = co_pool co0 \<and> co_count co = co_count co0 \<and>
      co_confPath co = co_confPath co0 \<and> linked co \<and>
      (\<forall>c. if c \<in> S \<and> closing c new (co_conf co0) then co_comps co c = None
           else rel_option keeps (co_comps co0 c) (co_comps co c)))"

lemma closed_from_parts:
  assumes "closed_from co0 new S co"
  shows "co_conf co = co_conf co0" "co_pool co = co_pool co0" "co_count co = co_count co0"
    "co_confPath co = co_confPath co0" "linked co"
    "if c \<in> S \<and> closing c new (co_conf co0) then co_comps co c = None
     else rel_option keeps (co_comps co0 c) (co_comps co c)"
  using assms unfolding closed_from_def by blast+

lemma closed_from_present:
  "closed_from co0 new S co \<Longrightarrow> co_comps co c = Some i \<Longrightarrow>
   \<not> (c \<in> S \<and> closing c new (co_conf co0)) \<and> (\<exists>i0. co_comps co0 c = Some i0 \<and> keeps i0 i)"
proof -
  assume c: "closed_from co0 new S co" "co_comps co c = Some i"
  have "if c \<in> S \<and> closing c new (co_conf co0) then co_comps co c = None
      else rel_option keeps (co_comps co0 c) (co_comps co c)"
    using c(1) by (simp add: closed_from_def)
  then show ?thesis
    using c(2) by (cases "co_comps co0 c") (auto split: if_splits)
qed

lemma closed_from_absent:
  assumes "closed_from co0 new S co" "co_comps co c = None"
  shows "co_comps co0 c = None \<or> c \<in> S \<and> closing c new (co_conf co0)"
proof -
  have "if c \<in> S \<and> closing c new (co_conf co0) then co_comps co c = None
      else rel_option keeps (co_comps co0 c) (co_comps co c)"
    using assms(1) by (simp add: closed_from_def)
  then show ?thesis
    using assms(2) by (cases "co_comps co0 c") (auto split: if_splits)
qed

lemma closed_from_closed:
  assumes "closed_from co0 new S co" "c \<in> S" "closing c new (co_conf co0)"
  shows "co_comps co c = None"
proof -
  have "if c \<in> S \<and> closing c new (co_conf co0) then co_comps co c = None
      else rel_option keeps (co_comps co0 c) (co_comps co c)"
    using assms(1) by (simp add: closed_from_def)
  then show ?thesis using assms(2,3) by simp
qed

lemma register_linked:
  assumes "linked co" "register c None co = Inr co1"
    "\<And>u. refers u c \<Longrightarrow> co_comps co u = None"
  shows "linked (stop c co1)"
  unfolding linked_def
proof (intro allI impI)
  fix u i d
  assume u: "co_comps (stop c co1) u = Some i" and k: "knows u d"
  have uc: "co_comps co1 u = Some i" and neq: "u \<noteq> c \<or> co_comps co1 c = None"
    using u by (auto simp: stop_def split: option.splits if_splits)
  then have neq: "u \<noteq> c" by auto
  obtain i0 where i0: "co_comps co u = Some i0"
    and refs: "\<And>d. in_refs i d =
       (if d = c \<and> (u = CMetrics \<and> c \<in> set metrics_knows \<or> u = CPathManager \<and> c = CHLS) then None else in_refs i0 d)"
    using register_refs [OF assms(2) uc] by metis
  have ids: "id_of (stop c co1) e = (if e = c then None else id_of co e)" for e
    using same_ids [OF register_same [OF assms(2)]]
    by (auto simp: stop_def id_of_def split: option.splits)
  show "in_refs i d = id_of (stop c co1) d"
  proof (cases "d = c")
    case True
    have "\<not> refers u c" using assms(3) i0 by auto
    then show ?thesis using k True by (auto simp: ids refs knows_def)
  next
    case False
    then show ?thesis using linkedD [OF assms(1) i0 k] by (simp add: ids refs)
  qed
qed

lemma rel_option_keeps_trans:
  "rel_option keeps a b \<Longrightarrow> rel_option keeps b c \<Longrightarrow> rel_option keeps a c"
  by (cases a; cases b; cases c) (auto intro: keeps_trans)

lemma same_but_refs_keeps: "same_but_refs co co' \<Longrightarrow> rel_option keeps (co_comps co c) (co_comps co' c)"
  by (simp add: same_but_refs_def keeps_def [abs_def])

lemma close_one_closed:
  assumes inv: "closed_from co0 new S co"
    and users: "\<And>u. refers u c \<Longrightarrow> closing c new (co_conf co0) \<Longrightarrow> co_comps co u = None"
    and hls: "c = CHLS \<Longrightarrow> co_comps co c \<noteq> None \<Longrightarrow> co_comps co CPathManager \<noteq> None"
  obtains co' where "close_one new c co = Inr co'" "closed_from co0 new (insert c S) co'"
    "\<And>d. d \<noteq> c \<Longrightarrow> co_comps co' d = None \<longleftrightarrow> co_comps co d = None"
proof (cases "closing c new (co_conf co) \<and> co_comps co c \<noteq> None")
  case False
  have comp: "if d \<in> insert c S \<and> closing d new (co_conf co0) then co_comps co d = None
      else rel_option keeps (co_comps co0 d) (co_comps co d)" for d
    using closed_from_parts(6) [OF inv, of d] closed_from_parts(1) [OF inv] False by (cases "d = c") auto
  have closed: "closed_from co0 new (insert c S) co"
    unfolding closed_from_def using comp closed_from_parts(1-5) [OF inv] by simp
  have "close_one new c co = Inr co" using False by (auto simp: close_one_def)
  then show thesis by (rule that) (use closed in simp_all)
next
  case True
  note conf = closed_from_parts(1) [OF inv]
  have "\<exists>co1. register c None co = Inr co1"
  proof (cases "c = CHLS")
    case True
    with \<open>closing c new (co_conf co) \<and> co_comps co c \<noteq> None\<close> show ?thesis
      using register_total(1) [OF True hls [OF True]] by simp
  qed (rule register_total(2))
  then obtain co1 where co1: "register c None co = Inr co1" ..
  note same = register_same [OF co1]
  have lk: "linked (stop c co1)"
    by (rule register_linked [OF closed_from_parts(5) [OF inv] co1]) (use users True conf in simp)
  have comps: "co_comps (stop c co1) d = (if d = c then None else co_comps co1 d)" for d
    by (auto simp: stop_def split: option.split)
  have fields: "co_conf (stop c co1) = co_conf co1" "co_pool (stop c co1) = co_pool co1"
    "co_count (stop c co1) = co_count co1" "co_confPath (stop c co1) = co_confPath co1"
    by (auto simp: stop_def split: option.split)
  have closed: "closed_from co0 new (insert c S) (stop c co1)"
    unfolding closed_from_def
  proof (intro conjI allI)
    fix d
    have before: "if d \<in> S \<and> closing d new (co_conf co0) then co_comps co d = None
        else rel_option keeps (co_comps co0 d) (co_comps co d)"
      by (rule closed_from_parts(6) [OF inv])
    have change: "rel_option keeps (co_comps co d) (co_comps co1 d)"
      by (rule same_but_refs_keeps [OF same])
    show "if d \<in> insert c S \<and> closing d new (co_conf co0) then co_comps (stop c co1) d = None
        else rel_option keeps (co_comps co0 d) (co_comps (stop c co1) d)"
    proof (cases "d = c")
      case True
      then show ?thesis using \<open>closing c new (co_conf co) \<and> co_comps co c \<noteq> None\<close> conf by (simp add: comps)
    next
      case False
      then show ?thesis
        using before change rel_option_keeps_trans [OF _ change] by (cases "d \<in> S \<and> closing d new (co_conf co0)") (auto simp: comps)
    qed
  qed (use closed_from_parts [OF inv] same lk in \<open>simp_all add: fields same_but_refs_def\<close>)
  have frame: "co_comps (stop c co1) d = None \<longleftrightarrow> co_comps co d = None" if "d \<noteq> c" for d
    using that same_but_refs_keeps [OF same, of d]
    by (cases "co_comps co d"; cases "co_comps co1 d") (simp_all add: comps)
  have "close_one new c co = Inr (stop c co1)"
    using True co1 by (simp add: close_one_def)
  then show thesis by (rule that) (use closed frame in simp_all)
qed

text \<open>
  The order of the blocks: who refers to a component comes before it, and the path manager after the HLS server. All
  prefixes of the closing are linked.
\<close>

fun closing_ok :: "component set \<Rightarrow> component list \<Rightarrow> bool" where
  "closing_ok S [] = True"
| "closing_ok S (c # cs) =
     ((\<forall>u. refers u c \<longrightarrow> u \<in> S) \<and> (c = CHLS \<longrightarrow> CPathManager \<notin> S) \<and> c \<notin> S \<and> closing_ok (insert c S) cs)"

lemma close_list_closed:
  assumes "closed_from co0 new S co" "closing_ok S cs"
    "co_comps co0 CHLS \<noteq> None \<longrightarrow> co_comps co0 CPathManager \<noteq> None"
  shows "\<exists>co'. close_list new cs co = Inr co' \<and> closed_from co0 new (S \<union> set cs) co'"
  using assms
proof (induction cs arbitrary: S co)
  case (Cons c cs)
  have users: "co_comps co u = None" if "refers u c" "closing c new (co_conf co0)" for u
  proof -
    have "u \<in> S" using Cons.prems(2) that by simp
    moreover have "closing u new (co_conf co0)" by (rule closing_refers [OF that(2,1)])
    ultimately show ?thesis by (rule closed_from_closed [OF Cons.prems(1)])
  qed
  have hls: "co_comps co CPathManager \<noteq> None" if "c = CHLS" "co_comps co c \<noteq> None"
  proof -
    have "CPathManager \<notin> S" using Cons.prems(2) that by simp
    moreover have "co_comps co0 CHLS \<noteq> None"
      using closed_from_present [OF Cons.prems(1), of CHLS] that by auto
    ultimately show ?thesis
      using closed_from_absent [OF Cons.prems(1), of CPathManager] Cons.prems(3) by auto
  qed
  obtain co1 where co1: "close_one new c co = Inr co1" "closed_from co0 new (insert c S) co1"
    by (rule close_one_closed [OF Cons.prems(1) users hls])
  have "\<exists>co'. close_list new cs co1 = Inr co' \<and> closed_from co0 new (insert c S \<union> set cs) co'"
    using co1(2) Cons.prems by (intro Cons.IH) simp_all
  then show ?case using co1(1) by auto
qed simp

lemma all_components:
  "(\<forall>u. P u) \<longleftrightarrow> P CLogger \<and> P CAuthManager \<and> P CMetrics \<and> P CPPROF \<and> P CRecordCleaner \<and> P CPlayback \<and>
     P CPathManager \<and> P CRTSP \<and> P CRTSPS \<and> P CRTMP \<and> P CRTMPS \<and> P CHLS \<and> P CWebRTC \<and> P CSRT \<and> P CAPI"
proof (intro iffI allI)
  fix u
  assume "P CLogger \<and> P CAuthManager \<and> P CMetrics \<and> P CPPROF \<and> P CRecordCleaner \<and> P CPlayback \<and>
     P CPathManager \<and> P CRTSP \<and> P CRTSPS \<and> P CRTMP \<and> P CRTMPS \<and> P CHLS \<and> P CWebRTC \<and> P CSRT \<and> P CAPI"
  then show "P u" by (cases u) simp_all
qed simp

lemma closing_order_ok: "closing_ok {CAPI} closing_order"
  by (simp add: closing_order_def all_components refers_def)

end
