(* ===== verification/CoreReload.thy ===== *)
theory CoreReload
  imports CoreInvariant
begin

text \<open>
  The creation of the components, the reload of the configuration as a whole, and what follows: what runs after a reload, what a
  reload leaves running, the end of the core, and the two defects of the code.
\<close>

section \<open>Creation\<close>

definition live_ok :: "component \<Rightarrow> inst \<Rightarrow> conf \<Rightarrow> bool" where
  "live_ok c i cf =
     ((c = CAuthManager \<longrightarrow> in_users i = cf_AuthInternalUsers cf) \<and>
      (c \<in> {CRecordCleaner, CPlayback, CPathManager} \<longrightarrow> in_paths i = cf_Paths cf))"

definition fits :: "component \<Rightarrow> inst \<Rightarrow> conf \<Rightarrow> bool" where
  "fits c i cf = (in_params i = params_of c cf \<and> wanted c cf \<and> live_ok c i cf)"

text \<open>The first is not created before the second.\<close>

definition depends :: "component \<Rightarrow> component \<Rightarrow> bool" where
  "depends u c = (refers u c \<or> c = CMetrics \<and> u \<in> set metrics_knows)"

lemma closing_depends: "closing c new p \<Longrightarrow> depends u c \<Longrightarrow> closing u new p"
  using closing_refers [of c new p u] closing_refers [of CPathManager new p u]
  by (auto simp: depends_def metrics_knows_def refers_def closePathManager_def)

text \<open>While the components of a set have been created, and the others may run from before.\<close>

definition open_inv :: "component set \<Rightarrow> core \<Rightarrow> bool" where
  "open_inv T co =
     (linked co \<and> (\<forall>c i. co_comps co c = Some i \<longrightarrow> fits c i (co_conf co)) \<and>
      (\<forall>c \<in> T. wanted c (co_conf co) \<longrightarrow> co_comps co c \<noteq> None) \<and>
      (\<forall>c u. c \<notin> T \<longrightarrow> wanted c (co_conf co) \<longrightarrow> co_comps co c = None \<longrightarrow> depends u c \<longrightarrow> co_comps co u = None))"

lemma open_inv_parts:
  assumes "open_inv T co"
  shows "linked co" "co_comps co c = Some i \<Longrightarrow> fits c i (co_conf co)"
    "c \<in> T \<Longrightarrow> wanted c (co_conf co) \<Longrightarrow> co_comps co c \<noteq> None"
    "c \<notin> T \<Longrightarrow> wanted c (co_conf co) \<Longrightarrow> co_comps co c = None \<Longrightarrow> depends u c \<Longrightarrow> co_comps co u = None"
  using assms unfolding open_inv_def by blast+

text \<open>What creation leaves of the instances before it.\<close>

definition extends :: "core \<Rightarrow> core \<Rightarrow> bool" where
  "extends co co' =
     (co_conf co' = co_conf co \<and> (co_pool co \<longrightarrow> co_pool co') \<and> co_confPath co' = co_confPath co \<and>
      co_count co \<le> co_count co' \<and>
      (\<forall>c i. co_comps co c = Some i \<longrightarrow> (\<exists>i'. co_comps co' c = Some i' \<and> keeps i i')) \<and>
      (\<forall>c i. co_comps co c = None \<longrightarrow> co_comps co' c = Some i \<longrightarrow> co_count co \<le> in_id i))"

lemma extends_parts:
  assumes "extends co co'"
  shows "co_conf co' = co_conf co" "co_pool co \<Longrightarrow> co_pool co'" "co_confPath co' = co_confPath co" "co_count co \<le> co_count co'"
    "co_comps co c = Some i \<Longrightarrow> \<exists>i'. co_comps co' c = Some i' \<and> keeps i i'"
    "co_comps co c = None \<Longrightarrow> co_comps co' c = Some i \<Longrightarrow> co_count co \<le> in_id i"
  using assms unfolding extends_def by blast+

lemma extends_refl [simp]: "extends co co"
  by (auto simp: extends_def intro: keeps_refl)

lemma extends_trans:
  assumes "extends a b" "extends b c"
  shows "extends a c"
proof -
  have "\<exists>i'. co_comps c d = Some i' \<and> keeps i i'" if i: "co_comps a d = Some i" for d i
  proof -
    obtain j where j: "co_comps b d = Some j" "keeps i j"
      using extends_parts(5) [OF assms(1) i] by blast
    obtain k where "co_comps c d = Some k" "keeps j k"
      using extends_parts(5) [OF assms(2) j(1)] by blast
    then show ?thesis using keeps_trans [OF j(2)] by simp
  qed
  moreover have "co_count a \<le> in_id i" if i: "co_comps a d = None" "co_comps c d = Some i" for d i
  proof (cases "co_comps b d")
    case None
    then show ?thesis
      using extends_parts(6) [OF assms(2) None i(2)] extends_parts(4) [OF assms(1)] by simp
  next
    case (Some j)
    obtain k where "co_comps c d = Some k" "keeps j k"
      using extends_parts(5) [OF assms(2) Some] by blast
    then show ?thesis
      using extends_parts(6) [OF assms(1) i(1) Some] i(2) by (simp add: keeps_fields)
  qed
  ultimately show ?thesis
    using extends_parts(1-4) [OF assms(1)] extends_parts(1-4) [OF assms(2)] by (simp add: extends_def)
qed

lemma fits_keeps: "keeps i i' \<Longrightarrow> fits c i cf \<Longrightarrow> fits c i' cf"
  by (simp add: fits_def live_ok_def keeps_fields)

lemma fits_new: "wanted c (co_conf co) \<Longrightarrow> fits c (new_instance co c) (co_conf co)"
  by (auto simp: fits_def live_ok_def new_instance_def)

lemma created_linked:
  assumes inv: "open_inv T co" and new: "c \<notin> T" "wanted c (co_conf co)" "co_comps co c = None" "\<And>d. depends c d \<Longrightarrow> d \<in> T"
    and co1: "co_comps co1 = (co_comps co)(c \<mapsto> new_instance co c)"
    and reg: "register c (Some (in_id (new_instance co c))) co1 = Inr co2"
  shows "linked co2"
  unfolding linked_def
proof (intro allI impI)
  fix u i' d
  assume u: "co_comps co2 u = Some i'" and k: "knows u d"
  let ?tells = "\<lambda>d. d = c \<and> (u = CMetrics \<and> c \<in> set metrics_knows \<or> u = CPathManager \<and> c = CHLS)"
  obtain i where i: "co_comps co1 u = Some i"
    and refs: "\<And>d. in_refs i' d = (if ?tells d then Some (in_id (new_instance co c)) else in_refs i d)"
    using register_refs [OF reg u] by metis
  have ids: "id_of co2 e = (if e = c then Some (in_id (new_instance co c)) else id_of co e)" for e
    using same_ids [OF register_same [OF reg], of e] by (simp add: id_of_def co1)
  have self: "\<not> refers c c" using new(1,4) by (auto simp: depends_def)
  show "in_refs i' d = id_of co2 d"
  proof (cases "u = c")
    case True
    have d: "d \<noteq> c" using k True self by (auto simp: knows_def metrics_knows_def)
    have i: "i = new_instance co c" using i True by (simp add: co1)
    have "in_refs i d = id_of co d"
    proof (cases "d \<in> set (literal_refs c)")
      case False
      then have "co_comps co d = None"
        using k True open_inv_parts(4) [OF inv new(1-3), of d] by (auto simp: knows_def refers_def depends_def)
      then show ?thesis using False by (simp add: i new_instance_def id_of_def)
    qed (simp add: i new_instance_def)
    then show ?thesis using d by (simp add: refs ids)
  next
    case False
    then have old: "co_comps co u = Some i" using i by (simp add: co1)
    show ?thesis
    proof (cases "d = c")
      case True
      have "\<not> refers u c"
        using open_inv_parts(4) [OF inv new(1-3), of u] old by (auto simp: depends_def)
      then show ?thesis using k True by (auto simp: refs ids knows_def)
    next
      case False
      then show ?thesis using linkedD [OF open_inv_parts(1) [OF inv] old k] by (simp add: refs ids)
    qed
  qed
qed

lemma register_keeps: "register c v co = Inr co' \<Longrightarrow> co_comps co d = Some i \<Longrightarrow> \<exists>i'. co_comps co' d = Some i' \<and> keeps i i'"
  using same_but_refs_keeps [OF register_same, of c v co co' d] by (cases "co_comps co' d") auto

lemma register_absent: "register c v co = Inr co' \<Longrightarrow> co_comps co' d = None \<longleftrightarrow> co_comps co d = None"
  using same_but_refs_keeps [OF register_same, of c v co co' d]
  by (cases "co_comps co' d"; cases "co_comps co d") auto

lemma create_open:
  assumes inv: "open_inv T co" and c: "c \<notin> T" "\<And>d. depends c d \<Longrightarrow> d \<in> T" "c = CHLS \<Longrightarrow> CPathManager \<in> T"
  obtains (ok) co' where "create start c co = (Inr co', co')" "open_inv (insert c T) co'" "extends co co'"
    "co_count co \<le> co_count co'"
  | (failed) e where "create start c co = (Inl e, co\<lparr>co_count := Suc (co_count co)\<rparr>)"
    "start c (co_count co) = Some e" "can_fail c" "wanted c (co_conf co)" "co_comps co c = None"
proof (cases "wanted c (co_conf co) \<and> co_comps co c = None")
  case False
  have "open_inv (insert c T) co"
    unfolding open_inv_def
  proof (intro conjI allI ballI impI)
    fix d
    assume d: "d \<in> insert c T" "wanted d (co_conf co)"
    then show "co_comps co d \<noteq> None"
      using False open_inv_parts(3) [OF inv, of d] by (cases "d = c") simp_all
  qed (use open_inv_parts [OF inv] in auto)
  moreover have "create start c co = (Inr co, co)" using False by (auto simp: create_def)
  ultimately show thesis using ok [of co] by simp
next
  case True
  show thesis
  proof (cases "if can_fail c then start c (co_count co) else None")
    case (Some e)
    then have "can_fail c" "start c (co_count co) = Some e" by (auto split: if_splits)
    then show thesis using failed [of e] True Some by (simp add: create_def)
  next
    case None
    define i where "i = new_instance co c"
    define co1 where "co1 = co\<lparr>co_comps := (co_comps co)(c \<mapsto> i), co_count := Suc (co_count co),
      co_out := co_out co @ [Started c (in_id i)]\<rparr>"
    have comps1: "co_comps co1 = (co_comps co)(c \<mapsto> new_instance co c)" by (simp add: co1_def i_def)
    have "\<exists>co2. register c (Some (in_id i)) co1 = Inr co2"
    proof (cases "c = CHLS")
      case True
      have "wanted CPathManager (co_conf co)" by simp
      then have "co_comps co1 CPathManager \<noteq> None"
        using open_inv_parts(3) [OF inv c(3) [OF True]] True by (simp add: co1_def)
      then show ?thesis by (rule register_total(1) [OF True])
    qed (rule register_total(2))
    then obtain co2 where co2: "register c (Some (in_id i)) co1 = Inr co2" ..
    have created: "create start c co = (Inr co2, co2)"
      using True None co2 by (simp add: create_def co1_def i_def Let_def)
    note same = register_same [OF co2, unfolded same_but_refs_def]
    have conf: "co_conf co2 = co_conf co" and count: "co_count co2 = Suc (co_count co)"
      using same by (simp_all add: co1_def)
    have lk: "linked co2"
      using True c co2 by (intro created_linked [OF inv c(1) _ _ c(2) comps1]) (simp_all add: i_def)
    have old: "\<exists>i'. co_comps co2 d = Some i' \<and> keeps j i'" if "co_comps co d = Some j" for d j
      using register_keeps [OF co2, of d j] that True by (cases "d = c") (simp_all add: comps1)
    have "open_inv (insert c T) co2"
      unfolding open_inv_def
    proof (intro conjI allI ballI impI)
      fix d j
      assume j: "co_comps co2 d = Some j"
      obtain j0 where j0: "co_comps co1 d = Some j0" using register_absent [OF co2, of d] j by (cases "co_comps co1 d") auto
      have "keeps j0 j" using register_keeps [OF co2 j0] j by simp
      moreover have "fits d j0 (co_conf co)"
        using j0 True fits_new [of c co] open_inv_parts(2) [OF inv, of d j0] by (cases "d = c") (simp_all add: comps1)
      ultimately show "fits d j (co_conf co2)" by (simp add: conf fits_keeps)
    next
      fix d
      assume "d \<in> insert c T" "wanted d (co_conf co2)"
      then show "co_comps co2 d \<noteq> None"
        using open_inv_parts(3) [OF inv, of d] by (cases "d = c") (simp_all add: register_absent [OF co2] comps1 conf)
    next
      fix d u
      assume d: "d \<notin> insert c T" "wanted d (co_conf co2)" "co_comps co2 d = None" "depends u d"
      then have "co_comps co d = None" by (simp add: register_absent [OF co2] comps1)
      then have "co_comps co u = None" using open_inv_parts(4) [OF inv, of d u] d conf by simp
      moreover have "u \<noteq> c" using c(2) [of d] d by auto
      ultimately show "co_comps co2 u = None" by (simp add: register_absent [OF co2] comps1)
    qed (rule lk)
    moreover have "extends co co2"
    proof -
      have "co_count co \<le> in_id i'" if n: "co_comps co d = None" "co_comps co2 d = Some i'" for d i'
      proof -
        obtain j where j: "co_comps co1 d = Some j" using register_absent [OF co2, of d] n(2) by (cases "co_comps co1 d") auto
        have "keeps j i'" using register_keeps [OF co2 j] n(2) by simp
        moreover have "j = new_instance co c" using j n(1) by (simp add: comps1 split: if_splits)
        ultimately show ?thesis by (simp add: keeps_fields new_instance_def)
      qed
      then show ?thesis using old same by (simp add: extends_def conf co1_def)
    qed
    ultimately show thesis using ok [of co2] created count by simp
  qed
qed

text \<open>The order of the blocks: what a component depends on comes before it.\<close>

fun creation_ok :: "component set \<Rightarrow> component list \<Rightarrow> bool" where
  "creation_ok T [] = True"
| "creation_ok T (c # cs) =
     (c \<notin> T \<and> (\<forall>d. depends c d \<longrightarrow> d \<in> T) \<and> (c = CHLS \<longrightarrow> CPathManager \<in> T) \<and> creation_ok (insert c T) cs)"

lemma creation_order_ok: "creation_ok {CLogger} creation_order"
  by (simp add: creation_order_def all_components depends_def refers_def metrics_knows_def)

lemma create_list_open:
  assumes "open_inv T co" "creation_ok T cs"
  obtains (ok) co' where "create_list start cs co = (Inr co', co')" "open_inv (T \<union> set cs) co'" "extends co co'"
    "co_count co \<le> co_count co'"
  | (failed) e co' S where "create_list start cs co = (Inl e, co')" "open_inv S co'" "T \<subseteq> S" "extends co co'"
    "\<exists>c n. start c n = Some e"
  using assms
proof (induction cs arbitrary: T co thesis)
  case Nil
  then show ?case by simp
next
  case (Cons c cs)
  have c: "c \<notin> T" "\<And>d. depends c d \<Longrightarrow> d \<in> T" "c = CHLS \<Longrightarrow> CPathManager \<in> T" and cs: "creation_ok (insert c T) cs"
    using Cons.prems(4) by simp_all
  show ?case
  proof (rule create_open [OF Cons.prems(3) c, of start])
    fix co1
    assume co1: "create start c co = (Inr co1, co1)" "open_inv (insert c T) co1" "extends co co1" "co_count co \<le> co_count co1"
    show ?thesis
    proof (rule Cons.IH [OF _ _ co1(2) cs])
      fix co'
      assume "create_list start cs co1 = (Inr co', co')" "open_inv (insert c T \<union> set cs) co'" "extends co1 co'"
        "co_count co1 \<le> co_count co'"
      then show ?thesis
        using Cons.prems(1) [of co'] co1 extends_trans [OF co1(3), of co'] by simp
    next
      fix e co' S
      assume "create_list start cs co1 = (Inl e, co')" "open_inv S co'" "insert c T \<subseteq> S" "extends co1 co'"
        "\<exists>c n. start c n = Some e"
      then show ?thesis
        using Cons.prems(2) [of e co' S] co1 extends_trans [OF co1(3), of co'] by simp
    qed
  next
    fix e
    assume e: "create start c co = (Inl e, co\<lparr>co_count := Suc (co_count co)\<rparr>)" "start c (co_count co) = Some e"
    have "open_inv T (co\<lparr>co_count := Suc (co_count co)\<rparr>)"
      using Cons.prems(3) by (simp add: open_inv_def linked_def id_of_def)
    moreover have "extends co (co\<lparr>co_count := Suc (co_count co)\<rparr>)"
      by (auto simp: extends_def)
    moreover have "create_list start (c # cs) co = (Inl e, co\<lparr>co_count := Suc (co_count co)\<rparr>)"
      using e(1) by simp
    ultimately show ?thesis using Cons.prems(2) e(2) by blast
  qed
qed

section \<open>The core that runs\<close>

text \<open>Everything that is wanted runs, and nothing else.\<close>

definition core_ok :: "core \<Rightarrow> bool" where
  "core_ok co = (open_inv UNIV co \<and> co_pool co)"

lemma core_ok_present: "core_ok co \<Longrightarrow> co_comps co c \<noteq> None \<longleftrightarrow> wanted c (co_conf co)"
proof -
  assume "core_ok co"
  then have inv: "open_inv UNIV co" by (simp add: core_ok_def)
  show ?thesis
    using open_inv_parts(2) [OF inv, of c] open_inv_parts(3) [OF inv, of c] by (cases "co_comps co c") (auto simp: fits_def)
qed

lemma creation_order_all: "{CLogger} \<union> set creation_order = UNIV"
proof -
  have "c \<in> {CLogger} \<union> set creation_order" for c
    by (cases c) (simp_all add: creation_order_def)
  then show ?thesis by blast
qed

text \<open>Creation from a state that a reload or the start leaves.\<close>

lemma createResources_cases:
  assumes inv: "open_inv {} co" and pool: "initial \<or> co_pool co"
  obtains (logger) e where "createResources start watch initial co = (Some e, co\<lparr>co_count := Suc (co_count co)\<rparr>)"
    "start CLogger (co_count co) = Some e" "co_comps co CLogger = None"
  | (failed) e co' T where "createResources start watch initial co = (Some e, co')" "open_inv T co'" "CLogger \<in> T"
    "co_pool co'" "(\<exists>c n. start c n = Some e) \<or> watch = Some e"
  | (ok) co' where "createResources start watch initial co = (None, co')" "core_ok co'" "co_conf co' = co_conf co"
    "\<And>c i. co_comps co c = Some i \<Longrightarrow> \<exists>i'. co_comps co' c = Some i' \<and> keeps i i'"
    "\<And>c i. co_comps co c = None \<Longrightarrow> co_comps co' c = Some i \<Longrightarrow> co_count co \<le> in_id i"
proof -
  have no_deps: "\<And>d. depends CLogger d \<Longrightarrow> d \<in> {}"
    by (simp add: depends_def refers_def metrics_knows_def)
  have c1: "CLogger \<notin> {}" by simp
  have c3: "CLogger = CHLS \<Longrightarrow> CPathManager \<in> {}" by simp
  show thesis
  proof (rule create_open [OF inv c1 no_deps c3, of start])
    fix e
    assume "create start CLogger co = (Inl e, co\<lparr>co_count := Suc (co_count co)\<rparr>)" "start CLogger (co_count co) = Some e"
      "co_comps co CLogger = None"
    then show thesis using logger [of e] by (simp add: createResources_def)
  next
    fix co1
    assume co1: "create start CLogger co = (Inr co1, co1)" "open_inv (insert CLogger {}) co1" "extends co co1"
    define co2 where "co2 = (if initial then co1\<lparr>co_pool := True\<rparr> else co1)"
    have inv2: "open_inv {CLogger} co2"
      using co1(2) by (simp add: co2_def open_inv_def linked_def id_of_def)
    have pool2: "co_pool co2" and conf2: "co_conf co2 = co_conf co" "co_comps co2 = co_comps co1"
      using pool co1(3) by (auto simp: co2_def extends_def)
    have unfold: "createResources start watch initial co =
        (case create_list start creation_order co2 of
           (Inl e, co3) \<Rightarrow> (Some e, co3)
         | (Inr co3, _) \<Rightarrow>
             (if initial \<and> co_confPath co3 \<noteq> [] then
                (case watch of Some e \<Rightarrow> (Some e, co3) | None \<Rightarrow> (None, co3\<lparr>co_watcher := True\<rparr>))
              else (None, co3)))"
      using co1(1) by (simp add: createResources_def co2_def)
    show thesis
    proof (rule create_list_open [OF inv2 creation_order_ok, of start])
      fix e co' S
      assume c: "create_list start creation_order co2 = (Inl e, co')" "open_inv S co'" "{CLogger} \<subseteq> S" "extends co2 co'"
        "\<exists>c n. start c n = Some e"
      then have "co_pool co'" using pool2 by (simp add: extends_def)
      then show thesis using failed [of e co' S] c by (simp add: unfold)
    next
      fix co3
      assume c: "create_list start creation_order co2 = (Inr co3, co3)" "open_inv ({CLogger} \<union> set creation_order) co3"
        "extends co2 co3"
      have all: "open_inv UNIV co3" using c(2) by (simp only: creation_order_all)
      have okc: "core_ok (co3\<lparr>co_watcher := w\<rparr>)" for w
        using all c(3) pool2 by (simp add: core_ok_def open_inv_def linked_def id_of_def extends_def)
      have same: "co3\<lparr>co_watcher := co_watcher co3\<rparr> = co3" by simp
      have ok3: "core_ok co3" using okc [of "co_watcher co3"] same by simp
      have conf3: "co_conf co3 = co_conf co" using c(3) conf2 by (simp add: extends_def)
      have "extends co1 co2" by (simp add: co2_def extends_def)
      then have ext: "extends co co3" using extends_trans [OF co1(3)] extends_trans [OF _ c(3)] by blast
      note keep = extends_parts(5) [OF ext] and fresh = extends_parts(6) [OF ext]
      show thesis
      proof (cases "initial \<and> co_confPath co3 \<noteq> []")
        case True
        show thesis
        proof (cases watch)
          case None
          have "createResources start watch initial co = (None, co3\<lparr>co_watcher := True\<rparr>)"
            by (simp only: unfold c(1)) (simp add: True None)
          then show thesis by (rule ok) (use okc conf3 keep fresh in simp_all)
        next
          case (Some e)
          have "createResources start watch initial co = (Some e, co3)"
            by (simp only: unfold c(1)) (simp add: True Some)
          then show thesis by (rule failed [OF _ all]) (use ok3 Some in \<open>simp_all add: core_ok_def\<close>)
        qed
      next
        case False
        then have "createResources start watch initial co = (None, co3)" by (simp only: unfold c(1)) auto
        then show thesis using ok [of co3] ok3 conf3 keep fresh by simp
      qed
    qed
  qed
qed

section \<open>Closing the resources\<close>

text \<open>What the components that stay are told, and what they keep.\<close>

definition told :: "core \<Rightarrow> conf option \<Rightarrow> core \<Rightarrow> bool" where
  "told co new co' =
     (co_conf co' = co_conf co \<and> co_pool co' = co_pool co \<and> co_count co' = co_count co \<and>
      co_confPath co' = co_confPath co \<and> (linked co \<longrightarrow> linked co') \<and>
      (\<forall>c. rel_option (\<lambda>i i'. in_id i' = in_id i \<and> in_params i' = in_params i \<and>
         (\<forall>n. new = Some n \<longrightarrow> \<not> closing c new (co_conf co) \<longrightarrow> live_ok c i (co_conf co) \<longrightarrow> live_ok c i' n))
         (co_comps co c) (co_comps co' c)))"

lemma told_parts:
  assumes "told co new co'"
  shows "co_conf co' = co_conf co" "co_pool co' = co_pool co" "co_count co' = co_count co"
    "co_confPath co' = co_confPath co" "linked co \<Longrightarrow> linked co'"
    "rel_option (\<lambda>i i'. in_id i' = in_id i \<and> in_params i' = in_params i \<and>
         (\<forall>n. new = Some n \<longrightarrow> \<not> closing c new (co_conf co) \<longrightarrow> live_ok c i (co_conf co) \<longrightarrow> live_ok c i' n))
         (co_comps co c) (co_comps co' c)"
  using assms unfolding told_def by blast+

lemma linked_upd:
  assumes "linked co" "\<And>i. in_refs (f i) = in_refs i" "\<And>i. in_id (f i) = in_id i"
  shows "linked (upd_comp c f co)"
  unfolding linked_def
proof (intro allI impI)
  fix u i d
  assume u: "co_comps (upd_comp c f co) u = Some i" and k: "knows u d"
  obtain i0 where i0: "co_comps co u = Some i0" "in_refs i = in_refs i0"
    using u assms(2) by (auto split: if_splits)
  show "in_refs i d = id_of (upd_comp c f co) d"
    using linkedD [OF assms(1) i0(1) k] i0(2) assms(3) by simp
qed

lemma upd_comp_absent: "co_comps co c = None \<Longrightarrow> upd_comp c f co = co"
  by (simp add: upd_comp_def fun_upd_idem)

lemma tell_users_result:
  assumes "co_comps co CAuthManager \<noteq> None"
  shows "tell_users n co = Inr
     (if \<not> closing CAuthManager (Some n) (co_conf co) \<and> cf_AuthInternalUsers n \<noteq> cf_AuthInternalUsers (co_conf co)
      then upd_comp CAuthManager (\<lambda>i. i\<lparr>in_users := cf_AuthInternalUsers n\<rparr>) co else co)"
  using assms by (auto simp: tell_users_def)

lemma tell_paths_result:
  assumes "co_comps co c \<noteq> None \<or> c = CPlayback"
  shows "tell_paths c n co = Inr
     (if \<not> closing c (Some n) (co_conf co) \<and> cf_Paths n \<noteq> cf_Paths (co_conf co)
      then upd_comp c (\<lambda>i. i\<lparr>in_paths := cf_Paths n\<rparr>) co else co)"
  using assms upd_comp_absent by (auto simp: tell_paths_def)

lemma told_refl: "new = None \<or> co_conf co = the new \<Longrightarrow> told co new co"
  by (auto simp: told_def option.rel_refl)

lemma linked_if_upd:
  "linked co \<Longrightarrow> linked (if b then upd_comp CAuthManager (\<lambda>i. i\<lparr>in_users := us\<rparr>) co else co)"
  "linked co \<Longrightarrow> linked (if b then upd_comp c (\<lambda>i. i\<lparr>in_paths := ps\<rparr>) co else co)"
  by (simp_all add: linked_upd)

lemma tell_all_told:
  assumes ok: "core_ok co"
  obtains co' where "tell_all new co = Inr co'" "told co new co'"
proof (cases new)
  case None
  then show thesis using that [of co] told_refl by (simp add: tell_all_def)
next
  case (Some n)
  define p where "p = co_conf co"
  define co1 where "co1 = (if \<not> closing CAuthManager (Some n) p \<and> cf_AuthInternalUsers n \<noteq> cf_AuthInternalUsers p
      then upd_comp CAuthManager (\<lambda>i. i\<lparr>in_users := cf_AuthInternalUsers n\<rparr>) co else co)"
  define step where "step = (\<lambda>c co. if \<not> closing c (Some n) p \<and> cf_Paths n \<noteq> cf_Paths p
      then upd_comp c (\<lambda>i. i\<lparr>in_paths := cf_Paths n\<rparr>) co else co)"
  have step: "co_conf (step c co) = co_conf co" "co_pool (step c co) = co_pool co" "co_count (step c co) = co_count co"
    "co_confPath (step c co) = co_confPath co" "linked co \<Longrightarrow> linked (step c co)"
    "co_comps (step c co) d =
       (if d = c \<and> \<not> closing c (Some n) p \<and> cf_Paths n \<noteq> cf_Paths p
        then map_option (\<lambda>i. i\<lparr>in_paths := cf_Paths n\<rparr>) (co_comps co c) else co_comps co d)" for c d co
    by (simp_all add: step_def linked_upd)
  have one: "co_conf co1 = p" "co_pool co1 = co_pool co" "co_count co1 = co_count co"
    "co_confPath co1 = co_confPath co" "linked co \<Longrightarrow> linked co1"
    "co_comps co1 d =
       (if d = CAuthManager \<and> \<not> closing CAuthManager (Some n) p \<and> cf_AuthInternalUsers n \<noteq> cf_AuthInternalUsers p
        then map_option (\<lambda>i. i\<lparr>in_users := cf_AuthInternalUsers n\<rparr>) (co_comps co CAuthManager)
        else co_comps co d)" for d
    by (simp_all add: co1_def p_def linked_upd)
  have runs: "co_comps co CAuthManager \<noteq> None" "co_comps co CRecordCleaner \<noteq> None \<longleftrightarrow> wanted CRecordCleaner p"
    "co_comps co CPathManager \<noteq> None"
    using core_ok_present [OF ok] by (simp_all add: p_def)
  have users: "tell_users n co = Inr co1"
    unfolding co1_def p_def by (rule tell_users_result [OF runs(1)])
  have paths: "tell_paths c n co' = Inr (step c co')" if "co_conf co' = p" "co_comps co' c \<noteq> None \<or> c = CPlayback" for c co'
    using tell_paths_result [OF that(2)] that(1) by (simp add: step_def)
  define co4 where "co4 = step CPathManager (step CPlayback (step CRecordCleaner co1))"
  have tell: "tell_all new co = Inr co4"
    using runs by (simp add: tell_all_def Some users paths one step co4_def)
  have four: "co_comps co4 c =
      (if c \<in> {CRecordCleaner, CPlayback, CPathManager} \<and> \<not> closing c (Some n) p \<and> cf_Paths n \<noteq> cf_Paths p
       then map_option (\<lambda>i. i\<lparr>in_paths := cf_Paths n\<rparr>) (co_comps co1 c) else co_comps co1 c)" for c
    by (cases c) (simp_all only: co4_def step component.distinct simp_thms insert_iff empty_iff if_cancel if_True if_False)
  have comps: "rel_option (\<lambda>i i'. in_id i' = in_id i \<and> in_params i' = in_params i \<and>
      (\<forall>m. new = Some m \<longrightarrow> \<not> closing c new p \<longrightarrow> live_ok c i p \<longrightarrow> live_ok c i' m))
      (co_comps co c) (co_comps co4 c)" for c
  proof (cases "co_comps co c")
    case None
    then have "co_comps co1 c = None" by (cases "c = CAuthManager") (simp_all add: one)
    then have "co_comps co4 c = None" by (simp add: four)
    then show ?thesis using None by simp
  next
    case (Some i)
    let ?u = "c = CAuthManager \<and> \<not> closing c (Some n) p \<and> cf_AuthInternalUsers n \<noteq> cf_AuthInternalUsers p"
    let ?q = "c \<in> {CRecordCleaner, CPlayback, CPathManager} \<and> \<not> closing c (Some n) p \<and> cf_Paths n \<noteq> cf_Paths p"
    define j where "j = (if ?u then i\<lparr>in_users := cf_AuthInternalUsers n\<rparr> else i)"
    define k where "k = (if ?q then j\<lparr>in_paths := cf_Paths n\<rparr> else j)"
    have "co_comps co1 c = Some j" using Some by (cases "c = CAuthManager") (simp_all add: one j_def)
    then have c4: "co_comps co4 c = Some k" by (simp add: four k_def)
    have ids: "in_id k = in_id i" "in_params k = in_params i" by (simp_all add: k_def j_def)
    have live: "live_ok c k n" if "\<not> closing c (Some n) p" "live_ok c i p"
      using that by (auto simp: live_ok_def k_def j_def simp del: closing.simps)
    show ?thesis using Some c4 ids live \<open>new = Some n\<close> by simp
  qed
  have "told co new co4"
    unfolding told_def using comps one(2-5) step(2-5) by (simp add: co4_def step(1) one(1) p_def)
  with tell show thesis by (rule that)
qed

text \<open>The API is stopped, or is told the new configuration, before the other blocks.\<close>

lemma never_referred [simp]: "\<not> refers u CAPI" "\<not> refers u CLogger"
  by (cases u; simp add: refers_def)+

lemma live_api: "live_ok CAPI i cf"
  by (simp add: live_ok_def)

lemma stop_api_closed:
  assumes "told co0 new co" "linked co0"
  obtains base where "told co0 new base" "closed_from base new {CAPI} (stop_api new byAPI co)"
proof -
  define base where "base = (if co_comps co CAPI \<noteq> None \<and> \<not> closing CAPI new (co_conf co) \<and> \<not> byAPI
    then upd_comp CAPI (\<lambda>i. i\<lparr>in_conf := new\<rparr>) co else co)"
  have fields: "co_conf base = co_conf co" "co_pool base = co_pool co" "co_count base = co_count co"
    "co_confPath base = co_confPath co" "\<And>d. d \<noteq> CAPI \<Longrightarrow> co_comps base d = co_comps co d"
    by (simp_all add: base_def)
  have lk: "linked base" using told_parts(5) [OF assms] by (simp add: base_def linked_upd)
  have rel: "rel_option (\<lambda>i i'. in_id i' = in_id i \<and> in_params i' = in_params i \<and>
      (\<forall>n. new = Some n \<longrightarrow> \<not> closing c new (co_conf co0) \<longrightarrow> live_ok c i (co_conf co0) \<longrightarrow> live_ok c i' n))
      (co_comps co0 c) (co_comps base c)" for c
  proof (cases "c = CAPI")
    case True
    show ?thesis
      using told_parts(6) [OF assms(1), of CAPI]
      by (cases "co_comps co0 CAPI"; cases "co_comps co CAPI")
        (simp_all add: True base_def live_api del: closing.simps)
  next
    case False
    then show ?thesis using told_parts(6) [OF assms(1), of c] fields(5) by simp
  qed
  have told: "told co0 new base"
    unfolding told_def using rel fields(1-4) told_parts(1-4) [OF assms(1)] lk by simp
  have self: "closed_from base new {} base"
    using lk by (simp add: closed_from_def option.rel_refl)
  have api: "close_one new CAPI base = Inr (stop_api new byAPI co)"
    by (cases "co_comps co CAPI")
      (simp_all add: close_one_def register_def metrics_knows_def stop_api_def base_def)
  have "closed_from base new {CAPI} (stop_api new byAPI co)"
    by (rule close_one_closed [OF self, of CAPI]) (use api in simp_all)
  with told show thesis by (rule that)
qed

text \<open>\<open>closeResources\<close> as a whole, from a state in which the components that stay are told.\<close>

lemma closeResources_closed:
  assumes tell: "tell_all new co = Inr co1" "told co new co1" and lk: "linked co"
    and hls: "co_comps co CHLS \<noteq> None \<Longrightarrow> co_comps co CPathManager \<noteq> None"
    and logger: "new = None \<Longrightarrow> co_pool co \<Longrightarrow> co_comps co CLogger \<noteq> None"
  obtains base co' where "closeResources new byAPI co = Inr co'" "told co new base" "closed_from base new UNIV co'"
proof -
  define co2 where "co2 = (if new = None then co1\<lparr>co_watcher := False\<rparr> else co1)"
  have same: "co_conf co2 = co_conf co1" "co_pool co2 = co_pool co1" "co_count co2 = co_count co1"
    "co_confPath co2 = co_confPath co1" "co_comps co2 = co_comps co1" "linked co2 = linked co1"
    by (simp_all add: co2_def linked_def id_of_def)
  have "told co new co2"
    using tell(2) unfolding told_def same .
  then obtain base where base: "told co new base" "closed_from base new {CAPI} (stop_api new byAPI co2)"
    by (rule stop_api_closed [OF _ lk])
  have present: "co_comps base c = None \<longleftrightarrow> co_comps co c = None" for c
    using told_parts(6) [OF base(1), of c] by (cases "co_comps co c"; cases "co_comps base c") simp_all
  have hls': "co_comps base CHLS \<noteq> None \<longrightarrow> co_comps base CPathManager \<noteq> None"
    using hls by (simp add: present)
  obtain co3 where co3: "close_list new closing_order (stop_api new byAPI co2) = Inr co3"
    "closed_from base new ({CAPI} \<union> set closing_order) co3"
    using close_list_closed [OF base(2) closing_order_ok hls'] by blast
  have lgr: "CLogger \<notin> {CAPI} \<union> set closing_order" by (simp add: closing_order_def)
  define co4 where "co4 = (if new = None \<and> co_pool co3 then co3\<lparr>co_out := co_out co3 @ [HooksAwaited]\<rparr> else co3)"
  have "co_comps co3 CLogger \<noteq> None" if "new = None" "co_pool co3"
  proof -
    have "co_pool co" using that(2) closed_from_parts(2) [OF co3(2)] told_parts(2) [OF base(1)] by simp
    then have "co_comps base CLogger \<noteq> None" using logger [OF that(1)] by (simp add: present)
    then show ?thesis using closed_from_absent [OF co3(2), of CLogger] lgr by (cases "co_comps co3 CLogger") simp_all
  qed
  then have await: "await_hooks new co3 = Inr co4" by (auto simp: await_hooks_def co4_def)
  have closed4: "closed_from base new ({CAPI} \<union> set closing_order) co4"
    using co3(2) by (simp add: co4_def closed_from_def linked_def id_of_def)
  obtain co5 where co5: "close_one new CLogger co4 = Inr co5"
    "closed_from base new (insert CLogger ({CAPI} \<union> set closing_order)) co5"
    by (rule close_one_closed [OF closed4, of CLogger]) simp_all
  have "c \<in> insert CLogger ({CAPI} \<union> set closing_order)" for c
    by (cases c) (simp_all add: closing_order_def)
  then have "insert CLogger ({CAPI} \<union> set closing_order) = UNIV" by blast
  then have closed: "closed_from base new UNIV co5" using co5(2) by simp
  have "closeResources new byAPI co = Inr co5"
    by (simp add: closeResources_def tell(1) Let_def co2_def [symmetric] co3(1) await co5(1))
  then show thesis by (rule that [OF _ base(1) closed])
qed

section \<open>Reloading\<close>

lemma reload_open:
  assumes ok: "core_ok co" and told: "told co (Some n) base" and closed: "closed_from base (Some n) UNIV co'"
  shows "open_inv {} (co'\<lparr>co_conf := n\<rparr>)"
proof -
  note conf = told_parts(1) [OF told]
  have inv: "open_inv UNIV co" using ok by (simp add: core_ok_def)
  have present: "\<not> closing c (Some n) (co_conf co) \<and> fits c i n" if i: "co_comps co' c = Some i" for c i
  proof -
    obtain j where not: "\<not> closing c (Some n) (co_conf co)" and j: "co_comps base c = Some j" "keeps j i"
      using closed_from_present [OF closed i] conf by auto
    obtain k where k: "co_comps co c = Some k"
      using told_parts(6) [OF told, of c] j(1) by (cases "co_comps co c") simp_all
    have kj: "in_params j = in_params k" "live_ok c k (co_conf co) \<Longrightarrow> live_ok c j n"
      using told_parts(6) [OF told, of c] j(1) k not by simp_all
    have "fits c k (co_conf co)" by (rule open_inv_parts(2) [OF inv k])
    then have "fits c j n" using kj kept_params [OF not] by (simp add: fits_def)
    then show ?thesis using fits_keeps [OF j(2)] not by simp
  qed
  have absent: "co_comps co' u = None" if "wanted c n" "co_comps co' c = None" "depends u c" for c u
  proof -
    have "closing c (Some n) (co_conf co)"
    proof (rule ccontr)
      assume not: "\<not> closing c (Some n) (co_conf co)"
      then have "wanted c (co_conf co)" using kept_params [OF not] that(1) by simp
      then have "co_comps co c \<noteq> None" using core_ok_present [OF ok] by simp
      then have "co_comps base c \<noteq> None"
        using told_parts(6) [OF told, of c] by (cases "co_comps co c"; cases "co_comps base c") simp_all
      then show False using closed_from_absent [OF closed that(2)] not conf by simp
    qed
    then have "closing u (Some n) (co_conf co)" by (rule closing_depends [OF _ that(3)])
    then show ?thesis using closed_from_closed [OF closed, of u] conf by simp
  qed
  have "linked (co'\<lparr>co_conf := n\<rparr>)"
    using closed_from_parts(5) [OF closed] by (simp add: linked_def id_of_def)
  moreover have "\<forall>c i. co_comps co' c = Some i \<longrightarrow> fits c i n"
    using present by blast
  moreover have "\<forall>c u. wanted c n \<longrightarrow> co_comps co' c = None \<longrightarrow> depends u c \<longrightarrow> co_comps co' u = None"
    using absent by blast
  ultimately show ?thesis
    unfolding open_inv_def by simp
qed

text \<open>What a reload does to a state that is right: the components that are not closed go on.\<close>

lemma reload_cases:
  assumes ok: "core_ok co"
  obtains co1 base where "reloadConf start n byAPI co = Inr (createResources start None False (co1\<lparr>co_conf := n\<rparr>))"
    "open_inv {} (co1\<lparr>co_conf := n\<rparr>)" "co_pool co1" "co_count co1 = co_count co"
    "told co (Some n) base" "closed_from base (Some n) UNIV co1"
proof -
  have inv: "open_inv UNIV co" and pool: "co_pool co" using ok by (simp_all add: core_ok_def)
  obtain co0 where tell: "tell_all (Some n) co = Inr co0" "told co (Some n) co0"
    by (rule tell_all_told [OF ok])
  have "co_comps co CPathManager \<noteq> None" using core_ok_present [OF ok] by simp
  then obtain base co1 where co1: "closeResources (Some n) byAPI co = Inr co1" "told co (Some n) base"
    "closed_from base (Some n) UNIV co1"
    using closeResources_closed [OF tell open_inv_parts(1) [OF inv], where byAPI = byAPI] by blast
  have "reloadConf start n byAPI co = Inr (createResources start None False (co1\<lparr>co_conf := n\<rparr>))"
    by (simp add: reloadConf_def co1(1))
  then show thesis
    by (rule that) (use reload_open [OF ok co1(2,3)] co1(2,3) pool in
      \<open>simp_all add: closed_from_parts(2,3) [OF co1(3)] told_parts(2,3) [OF co1(2)]\<close>)
qed

text \<open>The end: everything is closed.\<close>

lemma shutdown:
  assumes inv: "open_inv T co" and logger: "CLogger \<in> T"
  obtains co' where "closeResources None byAPI co = Inr co'" "\<And>c. co_comps co' c = None"
proof -
  have tell: "tell_all None co = Inr co" by (simp add: tell_all_def)
  have told: "told co None co" by (simp add: told_refl)
  have lgr: "co_comps co CLogger \<noteq> None" using open_inv_parts(3) [OF inv logger] by simp
  have hls: "co_comps co CPathManager \<noteq> None" if "co_comps co CHLS \<noteq> None"
  proof (cases "CPathManager \<in> T")
    case True
    then show ?thesis using open_inv_parts(3) [OF inv True] by simp
  next
    case False
    then show ?thesis
      using open_inv_parts(4) [OF inv False, of CHLS] that by (auto simp: depends_def refers_def)
  qed
  obtain base co' where co': "closeResources None byAPI co = Inr co'" "closed_from base None UNIV co'"
    using closeResources_closed [OF tell told open_inv_parts(1) [OF inv] hls lgr, where byAPI = byAPI] by blast
  have "co_comps co' c = None" for c
    using closed_from_closed [OF co'(2), of c] by simp
  then show thesis by (rule that [OF co'(1)])
qed

end
