(* ===== verification/CoreProperties.thy ===== *)
theory CoreProperties
  imports CoreReload
begin

text \<open>
  The properties of the core: what runs follows the configuration, a reload leaves alone what it need not touch, the end of the
  core closes everything, and the panic of a reload that cannot open the log again.
\<close>

section \<open>Start and turns\<close>

lemma core_New_ok:
  assumes "core_New start watch path c = Inr (True, co)"
  shows "core_ok co \<and> co_conf co = c"
proof -
  define co0 where "co0 = \<lparr>co_conf = c, co_confPath = path, co_comps = (\<lambda>_. None), co_pool = False, co_watcher = False,
    co_count = 0, co_out = []\<rparr>"
  have inv: "open_inv {} co0" by (simp add: open_inv_def linked_def co0_def)
  have new: "core_New start watch path c =
      (case createResources start watch True co0 of
         (None, co1) \<Rightarrow> Inr (True, co1)
       | (Some e, co1) \<Rightarrow> bindE (closeResources None False co1) (\<lambda>co2. Inr (False, co2)))"
    by (simp add: core_New_def co0_def)
  have "createResources start watch True co0 = (None, co)"
    using assms unfolding new by (auto simp: bindE_eq_Inr split: prod.splits option.splits)
  then show ?thesis
    by (cases rule: createResources_cases [OF inv, of True start watch]) (simp_all add: co0_def)
qed

lemma core_log: "core_ok co \<Longrightarrow> core_Log co = Inr ()"
  using core_ok_present [of co CLogger] by (simp add: core_Log_def)

text \<open>A reload that the loop goes on after.\<close>

definition reload_turn ::
    "(component \<Rightarrow> nat \<Rightarrow> go_error option) \<Rightarrow> conf \<Rightarrow> bool \<Rightarrow> core \<Rightarrow> (bool \<times> core) result" where
  "reload_turn start n byAPI co =
     bindE (core_Log co) (\<lambda>_.
     bindE (reloadConf start n byAPI co) (\<lambda>(err, co1).
     case err of None \<Rightarrow> Inr (True, co1) | Some e \<Rightarrow> bindE (core_Log co1) (\<lambda>_. Inr (False, co1))))"

definition conf_of_event :: "core_event \<Rightarrow> (conf \<times> bool) option" where
  "conf_of_event ev = (case ev of FileChanged (Inr n) \<Rightarrow> Some (n, False) | APISet n \<Rightarrow> Some (n, True) | _ \<Rightarrow> None)"

lemma core_turn_cases:
  assumes "core_ok co"
  shows "core_turn start ev co =
    (case conf_of_event ev of Some (n, byAPI) \<Rightarrow> reload_turn start n byAPI co | None \<Rightarrow> Inr (False, co))"
  using core_log [OF assms]
  by (auto simp: core_turn_def conf_of_event_def reload_turn_def split: core_event.split sum.split)

text \<open>The three ends of a reload.\<close>

lemma reload_turn_cases:
  assumes right: "core_ok co"
  obtains (logger) e where "reload_turn start n byAPI co = Inl Panic"
    "closing CLogger (Some n) (co_conf co)" "start CLogger (co_count co) = Some e"
  | (failed) co' T where "reload_turn start n byAPI co = Inr (False, co')" "open_inv T co'" "CLogger \<in> T"
    "\<exists>c m e. start c m = Some e"
  | (ok) co' where "reload_turn start n byAPI co = Inr (True, co')" "core_ok co'" "co_conf co' = n"
    "reloadConf start n byAPI co = Inr (None, co')"
proof -
  obtain co1 base where rel: "reloadConf start n byAPI co = Inr (createResources start None False (co1\<lparr>co_conf := n\<rparr>))"
    and inv: "open_inv {} (co1\<lparr>co_conf := n\<rparr>)" and pool: "co_pool co1" and count: "co_count co1 = co_count co"
    and told: "told co (Some n) base" and closed: "closed_from base (Some n) UNIV co1"
    by (rule reload_cases [OF right])
  have pool': "False \<or> co_pool (co1\<lparr>co_conf := n\<rparr>)" using pool by simp
  show thesis
  proof (rule createResources_cases [OF inv pool', of start None])
    fix e
    assume e: "createResources start None False (co1\<lparr>co_conf := n\<rparr>) =
        (Some e, co1\<lparr>co_conf := n\<rparr>\<lparr>co_count := Suc (co_count (co1\<lparr>co_conf := n\<rparr>))\<rparr>)"
      "start CLogger (co_count (co1\<lparr>co_conf := n\<rparr>)) = Some e" "co_comps (co1\<lparr>co_conf := n\<rparr>) CLogger = None"
    have "co_comps base CLogger \<noteq> None"
      using told_parts(6) [OF told, of CLogger] core_ok_present [OF right, of CLogger]
      by (cases "co_comps co CLogger"; cases "co_comps base CLogger") simp_all
    then have "closing CLogger (Some n) (co_conf co)"
      using closed_from_absent [OF closed, of CLogger] e(3) told_parts(1) [OF told] by auto
    moreover have "reload_turn start n byAPI co = Inl Panic"
      using e by (simp add: reload_turn_def core_log [OF right] rel core_Log_def)
    ultimately show thesis using logger e(2) count by simp
  next
    fix e co' T
    assume e: "createResources start None False (co1\<lparr>co_conf := n\<rparr>) = (Some e, co')" "open_inv T co'" "CLogger \<in> T"
      "(\<exists>c n. start c n = Some e) \<or> None = Some e"
    have "co_comps co' CLogger \<noteq> None" using open_inv_parts(3) [OF e(2,3)] by simp
    then have "core_Log co' = Inr ()" by (simp add: core_Log_def)
    then have "reload_turn start n byAPI co = Inr (False, co')"
      by (simp add: reload_turn_def core_log [OF right] rel e(1))
    then show thesis using failed e by blast
  next
    fix co'
    assume c: "createResources start None False (co1\<lparr>co_conf := n\<rparr>) = (None, co')" "core_ok co'"
      "co_conf co' = co_conf (co1\<lparr>co_conf := n\<rparr>)"
    then show thesis using ok [of co'] by (simp add: reload_turn_def core_log [OF right] rel)
  qed
qed

text \<open>The configuration that holds after some events.\<close>

fun last_conf :: "conf \<Rightarrow> core_event list \<Rightarrow> conf" where
  "last_conf c [] = c"
| "last_conf c (ev # evs) = last_conf (case conf_of_event ev of Some (n, _) \<Rightarrow> n | None \<Rightarrow> c) evs"

lemma core_run_ok:
  "core_ok co \<Longrightarrow> core_run start evs co = Inr (True, co') \<Longrightarrow> core_ok co' \<and> co_conf co' = last_conf (co_conf co) evs"
proof (induction evs arbitrary: co)
  case (Cons ev evs)
  show ?case
  proof (cases "conf_of_event ev")
    case None
    then show ?thesis
      using Cons.prems core_turn_cases [OF Cons.prems(1), of start ev] by (auto simp: bindE_eq_Inr)
  next
    case (Some nb)
    obtain n b where nb: "nb = (n, b)" by (cases nb)
    have turn: "core_turn start ev co = reload_turn start n b co"
      using core_turn_cases [OF Cons.prems(1), of start ev] Some nb by simp
    show ?thesis
    proof (cases rule: reload_turn_cases [OF Cons.prems(1), of start n b])
      case (1 e)
      then show ?thesis using Cons.prems(2) turn by simp
    next
      case (2 co1 T)
      then show ?thesis using Cons.prems(2) turn by (auto simp: bindE_eq_Inr)
    next
      case (3 co1)
      then show ?thesis using Cons.IH [OF 3(2)] Cons.prems(2) turn Some nb by simp
    qed
  qed
qed simp

text \<open>With a log that can always be opened the loop never panics, and leaves nothing behind.\<close>

lemma core_run_safe:
  assumes logger: "\<And>n. start CLogger n = None"
  shows "core_ok co \<Longrightarrow> \<exists>go co'. core_run start evs co = Inr (go, co') \<and> (\<not> go \<longrightarrow> (\<forall>c. co_comps co' c = None))"
proof (induction evs arbitrary: co)
  case (Cons ev evs)
  have stop: "\<exists>go co'. core_run start (ev # evs) co = Inr (go, co') \<and> (\<not> go \<longrightarrow> (\<forall>c. co_comps co' c = None))"
    if turn: "core_turn start ev co = Inr (False, co1)" and inv: "open_inv T co1" "CLogger \<in> T" for co1 T
  proof -
    obtain co' where co': "closeResources None False co1 = Inr co'" "\<And>c. co_comps co' c = None"
      using shutdown [OF inv, of False] by blast
    then have "core_run start (ev # evs) co = Inr (False, co')" by (simp add: turn)
    then show ?thesis using co'(2) by blast
  qed
  show ?case
  proof (cases "conf_of_event ev")
    case None
    then show ?thesis
      using core_turn_cases [OF Cons.prems, of start ev] Cons.prems by (intro stop [of co UNIV]) (simp_all add: core_ok_def)
  next
    case (Some nb)
    obtain n b where nb: "nb = (n, b)" by (cases nb)
    have turn: "core_turn start ev co = reload_turn start n b co"
      using core_turn_cases [OF Cons.prems, of start ev] Some nb by simp
    show ?thesis
    proof (cases rule: reload_turn_cases [OF Cons.prems, of start n b])
      case (1 e)
      then show ?thesis using assms by simp
    next
      case (2 co1 T)
      then show ?thesis using turn by (intro stop [of co1 T]) simp_all
    next
      case (3 co1)
      then show ?thesis using Cons.IH [OF 3(2)] turn by simp
    qed
  qed
qed auto

section \<open>A reload leaves alone what it need not touch\<close>

lemma reload_leaves:
  assumes ok: "core_ok co" and fin: "reloadConf start n byAPI co = Inr (None, co')"
  shows "(\<not> closing c (Some n) (co_conf co) \<and> co_comps co c = Some i \<longrightarrow>
            (\<exists>i'. co_comps co' c = Some i' \<and> in_id i' = in_id i)) \<and>
         (closing c (Some n) (co_conf co) \<and> co_comps co' c = Some i' \<longrightarrow> co_count co \<le> in_id i')"
proof -
  obtain co1 base where rel: "reloadConf start n byAPI co = Inr (createResources start None False (co1\<lparr>co_conf := n\<rparr>))"
    and inv: "open_inv {} (co1\<lparr>co_conf := n\<rparr>)" and pool: "co_pool co1" and count: "co_count co1 = co_count co"
    and told: "told co (Some n) base" and closed: "closed_from base (Some n) UNIV co1"
    by (rule reload_cases [OF ok])
  note conf = told_parts(1) [OF told]
  have pool': "False \<or> co_pool (co1\<lparr>co_conf := n\<rparr>)" using pool by simp
  have created: "createResources start None False (co1\<lparr>co_conf := n\<rparr>) = (None, co')"
    using rel fin by simp
  have ext: "(\<forall>c i. co_comps co1 c = Some i \<longrightarrow> (\<exists>i'. co_comps co' c = Some i' \<and> keeps i i')) \<and>
      (\<forall>c i. co_comps co1 c = None \<longrightarrow> co_comps co' c = Some i \<longrightarrow> co_count co1 \<le> in_id i)"
    by (rule createResources_cases [OF inv pool', of start None]) (use created in \<open>simp_all\<close>)
  show ?thesis
  proof (intro conjI impI; elim conjE)
    assume not: "\<not> closing c (Some n) (co_conf co)" and i: "co_comps co c = Some i"
    obtain j where j: "co_comps base c = Some j" "in_id j = in_id i"
      using told_parts(6) [OF told, of c] i by (cases "co_comps base c") simp_all
    have "co_comps co1 c \<noteq> None"
      using closed_from_absent [OF closed, of c] not j(1) conf by auto
    then obtain k where k: "co_comps co1 c = Some k" by blast
    have "keeps j k" using closed_from_present [OF closed k] j(1) by simp
    moreover obtain i' where "co_comps co' c = Some i'" "keeps k i'" using ext k by blast
    ultimately show "\<exists>i'. co_comps co' c = Some i' \<and> in_id i' = in_id i"
      using j(2) by (simp add: keeps_fields)
  next
    assume "closing c (Some n) (co_conf co)" "co_comps co' c = Some i'"
    then show "co_count co \<le> in_id i'"
      using ext closed_from_closed [OF closed, of c] conf count by simp
  qed
qed

section \<open>Properties\<close>

lemma closing_ok_take: "closing_ok S cs \<Longrightarrow> closing_ok S (take k cs)"
  by (induction cs arbitrary: S k) (auto simp: take_Cons split: nat.split)


text \<open>
  C14. The core ends cleanly: when the log can always be opened, the loop never panics over a nil component, whatever else cannot
  be created and whatever the order of the events, and when it ends every component has been closed.
\<close>

theorem core_ends_cleanly:
  assumes "\<And>n. start CLogger n = None" "core_New start watch path c = Inr (True, co0)"
  shows "\<exists>go co. core_run start evs co0 = Inr (go, co) \<and> (\<not> go \<longrightarrow> (\<forall>d. co_comps co d = None))"
  by (rule core_run_safe) (use assms core_New_ok [OF assms(2)] in auto)

text \<open>
  C15. A reload leaves alone what it need not touch: a component whose closing condition does not hold is the same instance after
  the reload, while one whose closing condition holds is, if it runs, an instance made after the reload began.
\<close>

theorem reload_keeps_instances:
  assumes "core_New start watch path c = Inr (True, co0)" "core_run start evs co0 = Inr (True, co)"
    "reloadConf start n byAPI co = Inr (None, co')"
  shows "(\<not> closing d (Some n) (co_conf co) \<and> co_comps co d = Some i \<longrightarrow>
            (\<exists>i'. co_comps co' d = Some i' \<and> in_id i' = in_id i)) \<and>
         (closing d (Some n) (co_conf co) \<and> co_comps co' d = Some j \<longrightarrow> co_count co \<le> in_id j)"
  by (rule reload_leaves [OF _ assms(3)]) (use core_run_ok [of co0 start evs co] core_New_ok [OF assms(1)] assms(2) in simp)

text \<open>
  Nothing that runs refers to what is closed: at every moment of the closing (after any number of its blocks), for
  a reload and for the shutdown alike, each reference of a running component is to an instance that runs, or nil.
\<close>

theorem closing_never_dangles:
  assumes "core_New start watch path c = Inr (True, co0)" "core_run start evs co0 = Inr (True, co)"
  shows "\<exists>co1 co2. tell_all new co = Inr co1 \<and>
    close_list new (take k closing_order) (stop_api new byAPI co1) = Inr co2 \<and>
    (\<forall>d i e. co_comps co2 d = Some i \<longrightarrow> knows d e \<longrightarrow> in_refs i e = id_of co2 e)"
proof -
  have ok: "core_ok co"
    using core_run_ok [of co0 start evs co] core_New_ok [OF assms(1)] assms(2) by simp
  have lk: "linked co" using ok open_inv_parts(1) by (auto simp: core_ok_def)
  obtain co1 where tell: "tell_all new co = Inr co1" "told co new co1"
    by (rule tell_all_told [OF ok])
  obtain base where base: "told co new base" "closed_from base new {CAPI} (stop_api new byAPI co1)"
    by (rule stop_api_closed [OF tell(2) lk])
  have "co_comps co CPathManager \<noteq> None" using core_ok_present [OF ok] by simp
  then have "co_comps base CPathManager \<noteq> None"
    using told_parts(6) [OF base(1), of CPathManager] by (cases "co_comps base CPathManager") auto
  then obtain co2 where "close_list new (take k closing_order) (stop_api new byAPI co1) = Inr co2"
    "closed_from base new ({CAPI} \<union> set (take k closing_order)) co2"
    using close_list_closed [OF base(2) closing_ok_take [OF closing_order_ok]] by blast
  then show ?thesis
    using tell(1) linkedD [OF closed_from_parts(5)] by blast
qed

text \<open>
  A reload that has to open the log again and cannot ends the process by a panic: the error of the reload is logged
  through the logger that has just been closed.
\<close>

theorem reload_without_logger_panics:
  assumes "core_New start watch path c = Inr (True, co0)" "core_run start evs co0 = Inr (True, co)"
    "closing CLogger (Some n) (co_conf co)" "start CLogger (co_count co) = Some e"
  shows "core_turn start (APISet n) co = Inl Panic \<and> core_turn start (FileChanged (Inr n)) co = Inl Panic"
proof -
  have ok: "core_ok co"
    using core_run_ok [of co0 start evs co] core_New_ok [OF assms(1)] assms(2) by simp
  have "reload_turn start n byAPI co = Inl Panic" for byAPI
  proof -
    obtain co1 base where rel: "reloadConf start n byAPI co = Inr (createResources start None False (co1\<lparr>co_conf := n\<rparr>))"
      and count: "co_count co1 = co_count co" and told: "told co (Some n) base" and closed: "closed_from base (Some n) UNIV co1"
      using reload_cases [OF ok] by metis
    have "co_comps co1 CLogger = None"
      using closed_from_closed [OF closed, of CLogger] assms(3) told_parts(1) [OF told] by simp
    then show ?thesis
      using assms(4) count by (simp add: reload_turn_def core_log [OF ok] rel createResources_def create_def can_fail_def core_Log_def)
  qed
  then show ?thesis
    by (simp add: core_turn_cases [OF ok] conf_of_event_def)
qed

section \<open>Witnesses\<close>

definition sample_start :: "component \<Rightarrow> nat \<Rightarrow> go_error option" where
  "sample_start c n = (if c = CLogger \<and> 0 < n then Some (Errorf ''permission denied'' []) else None)"

definition sample_change :: conf where
  "sample_change = zero_global\<lparr>cf_SRT := True, cf_LogLevel := LogError\<rparr>"

lemma start_plain:
  "\<exists>co. core_New sample_start None [] zero_global = Inr (True, co) \<and> co_count co = 4 \<and> co_conf co = zero_global"
  by (simp add: core_New_def createResources_def create_def creation_order_def sample_start_def zero_global_def
      zero_http_def register_def metrics_knows_def can_fail_def new_instance_def Let_def)

lemma start_change:
  "\<exists>co0 co. core_New (\<lambda>_ _. None) None [] zero_global = Inr (True, co0) \<and>
     core_run (\<lambda>_ _. None) [APISet sample_change] co0 = Inr (True, co) \<and> co_conf co = sample_change \<and>
     reloadConf (\<lambda>_ _. None) sample_change True co0 = Inr (None, co) \<and> co_conf co0 = zero_global"
proof -
  have "\<exists>co. core_New (\<lambda>_ _. None) None [] zero_global = Inr (True, co)"
    by (simp add: core_New_def createResources_def create_def creation_order_def zero_global_def
        zero_http_def register_def metrics_knows_def can_fail_def new_instance_def Let_def)
  then obtain co0 where co0: "core_New (\<lambda>_ _. None) None [] zero_global = Inr (True, co0)" ..
  have ok: "core_ok co0" "co_conf co0 = zero_global" using core_New_ok [OF co0] by simp_all
  show ?thesis
  proof (rule reload_turn_cases [OF ok(1), of "\<lambda>_ _. None" sample_change True])
    fix co
    assume "reload_turn (\<lambda>_ _. None) sample_change True co0 = Inr (True, co)" "co_conf co = sample_change"
      "reloadConf (\<lambda>_ _. None) sample_change True co0 = Inr (None, co)"
    then show ?thesis using co0 ok(2) by (simp add: core_turn_cases [OF ok(1)] conf_of_event_def)
  qed simp_all
qed


lemma core_ends_cleanly_witness:
  "\<exists>go co. core_run (\<lambda>c n. if c = CSRT then Some (Errorf ''address in use'' []) else None) [APISet sample_change, Interrupt]
      (snd (projr (core_New (\<lambda>c n. if c = CSRT then Some (Errorf ''address in use'' []) else None) None [] zero_global))) =
        Inr (go, co) \<and> (\<not> go \<longrightarrow> (\<forall>d. co_comps co d = None))"
proof -
  have "\<exists>co0. core_New (\<lambda>c n. if c = CSRT then Some (Errorf ''address in use'' []) else None) None [] zero_global = Inr (True, co0)"
    by (simp add: core_New_def createResources_def create_def creation_order_def zero_global_def
        zero_http_def register_def metrics_knows_def can_fail_def new_instance_def Let_def)
  then obtain co0 where
    co0: "core_New (\<lambda>c n. if c = CSRT then Some (Errorf ''address in use'' []) else None) None [] zero_global = Inr (True, co0)" ..
  show ?thesis
    using core_ends_cleanly [OF _ co0, of "[APISet sample_change, Interrupt]"] co0 by simp
qed

lemma reload_keeps_instances_witness:
  "\<exists>co0 co i'. core_New (\<lambda>_ _. None) None [] zero_global = Inr (True, co0) \<and>
     reloadConf (\<lambda>_ _. None) sample_change True co0 = Inr (None, co) \<and> co_comps co CAuthManager = Some i' \<and>
     in_id i' = in_id (the (co_comps co0 CAuthManager)) \<and> co_count co0 \<le> in_id (the (co_comps co CLogger))"
proof -
  obtain co0 co where co: "core_New (\<lambda>_ _. None) None [] zero_global = Inr (True, co0)"
    "reloadConf (\<lambda>_ _. None) sample_change True co0 = Inr (None, co)" "co_conf co0 = zero_global" "co_conf co = sample_change"
    "core_run (\<lambda>_ _. None) [APISet sample_change] co0 = Inr (True, co)"
    using start_change by blast
  have run: "core_run (\<lambda>_ _. None) [] co0 = Inr (True, co0)" by simp
  have "co_comps co0 CAuthManager \<noteq> None"
    using core_ok_present [of co0 CAuthManager] core_New_ok [OF co(1)] by simp
  then obtain i where i: "co_comps co0 CAuthManager = Some i" by blast
  have "co_comps co CLogger \<noteq> None"
    using core_run_ok [of co0 "\<lambda>_ _. None" "[APISet sample_change]" co] core_New_ok [OF co(1)] co(5)
      core_ok_present [of co CLogger] by simp
  then obtain j where j: "co_comps co CLogger = Some j" by blast
  have not: "\<not> closing CAuthManager (Some sample_change) (co_conf co0)"
    and yes: "closing CLogger (Some sample_change) (co_conf co0)"
    by (simp_all add: closeAuthManager_def closeLogger_def if_new_def sample_change_def co(3) zero_global_def)
  have "\<exists>i'. co_comps co CAuthManager = Some i' \<and> in_id i' = in_id i"
    using reload_keeps_instances [OF co(1) run co(2), of CAuthManager i] not i by blast
  moreover have "co_count co0 \<le> in_id j"
    using reload_keeps_instances [OF co(1) run co(2), where d = CLogger] yes j by blast
  ultimately show ?thesis using co(1,2) i j by auto
qed

lemma closing_never_dangles_witness:
  "\<exists>co0 co1 co2. core_New (\<lambda>_ _. None) None [] zero_global = Inr (True, co0) \<and> tell_all None co0 = Inr co1 \<and>
     close_list None (take 8 closing_order) (stop_api None False co1) = Inr co2 \<and>
     (\<forall>d i e. co_comps co2 d = Some i \<longrightarrow> knows d e \<longrightarrow> in_refs i e = id_of co2 e)"
proof -
  obtain co0 where co0: "core_New (\<lambda>_ _. None) None [] zero_global = Inr (True, co0)"
    using start_change by blast
  have run: "core_run (\<lambda>_ _. None) [] co0 = Inr (True, co0)" by simp
  show ?thesis using closing_never_dangles [OF co0 run, of None 8 False] co0 by blast
qed

lemma reload_without_logger_panics_witness:
  "\<exists>co0. core_New sample_start None [] zero_global = Inr (True, co0) \<and> core_turn sample_start (APISet sample_change) co0 = Inl Panic"
proof -
  obtain co0 where co0: "core_New sample_start None [] zero_global = Inr (True, co0)" "co_count co0 = 4" "co_conf co0 = zero_global"
    using start_plain by blast
  have run: "core_run sample_start [] co0 = Inr (True, co0)" by simp
  have yes: "closing CLogger (Some sample_change) (co_conf co0)"
    by (simp add: closeLogger_def if_new_def sample_change_def co0(3) zero_global_def)
  have "sample_start CLogger (co_count co0) = Some (Errorf ''permission denied'' [])"
    by (simp add: sample_start_def co0(2))
  then show ?thesis
    using reload_without_logger_panics [OF co0(1) run yes] co0(1) by blast
qed

end
