(* ===== verification/ServerTables.thy ===== *)
theory ServerTables
  imports GoString GoTime "HOL-Library.Multiset"
begin

text \<open>
  The tables of connections and sessions of the servers (internal/servers/rtmp/server.go, srt/server.go, rtsp/server.go, and
  the listeners), and what the API asks of them: list, get and kick.

  A server is a goroutine that serves one event at a time; a table is a Go map whose keys are pointers, so a list without
  two entries of one pointer. The order of an iteration over a map and the result of \<open>sort.Slice\<close>, which is not
  stable, are parameters. What a connection reports about itself changes while it runs: the event \<open>ConnData\<close>.
\<close>

section \<open>Tables\<close>

type_synonym uuid = bytes

record 'd entry =
  en_ptr :: nat
  en_uuid :: uuid
  en_created :: instant
  en_data :: 'd

record 'd api_item =
  it_ID :: uuid
  it_Created :: instant
  it_Data :: 'd

definition apiItem :: "'d entry \<Rightarrow> 'd api_item" where
  "apiItem c = \<lparr>it_ID = en_uuid c, it_Created = en_created c, it_Data = en_data c\<rparr>"

record 'd table_env =
  te_range :: "'d entry list \<Rightarrow> 'd entry list"
  te_sort :: "'d api_item list \<Rightarrow> 'd api_item list"

definition faithful :: "'d table_env \<Rightarrow> bool" where
  "faithful env \<longleftrightarrow>
     (\<forall>xs. mset (te_range env xs) = mset xs) \<and>
     (\<forall>xs. mset (te_sort env xs) = mset xs \<and> sorted (map it_Created (te_sort env xs)))"

definition entries_ok :: "'d entry list \<Rightarrow> bool" where
  "entries_ok es \<longleftrightarrow> distinct (map en_ptr es) \<and> distinct (map en_uuid es)"

definition items_of :: "'d table_env \<Rightarrow> 'd entry list \<Rightarrow> 'd api_item list" where
  "items_of env es = te_sort env (map apiItem (te_range env es))"

definition find_uuid :: "'d table_env \<Rightarrow> uuid \<Rightarrow> 'd entry list \<Rightarrow> 'd entry option" where
  "find_uuid env u es = List.find (\<lambda>c. en_uuid c = u) (te_range env es)"

definition drop_entry :: "nat \<Rightarrow> 'd entry list \<Rightarrow> 'd entry list" where
  "drop_entry p es = filter (\<lambda>c. en_ptr c \<noteq> p) es"

definition set_data :: "nat \<Rightarrow> 'd \<Rightarrow> 'd entry list \<Rightarrow> 'd entry list" where
  "set_data p d es = map (\<lambda>c. if en_ptr c = p then c\<lparr>en_data := d\<rparr> else c) es"

definition terminated :: go_error where
  "terminated = Errorf ''terminated'' []"

definition ErrConnNotFound :: go_error where
  "ErrConnNotFound = Errorf ''connection not found'' []"

definition ErrSessionNotFound :: go_error where
  "ErrSessionNotFound = Errorf ''session not found'' []"

lemma set_range [simp]: "faithful env \<Longrightarrow> set (te_range env es) = set es"
  by (metis faithful_def set_mset_mset)

lemma set_items [simp]: "faithful env \<Longrightarrow> set (items_of env es) = apiItem ` set es"
proof -
  assume env: "faithful env"
  then have "set (items_of env es) = set (map apiItem (te_range env es))"
    unfolding items_of_def faithful_def by (metis set_mset_mset)
  then show ?thesis using env by simp
qed

lemma sorted_items: "faithful env \<Longrightarrow> sorted (map it_Created (items_of env es))"
  by (simp add: items_of_def faithful_def)

lemma find_uuid_Some: "faithful env \<Longrightarrow> find_uuid env u es = Some c \<Longrightarrow> c \<in> set es \<and> en_uuid c = u"
  using set_range [of env es] nth_mem by (fastforce simp: find_uuid_def find_Some_iff)

lemma find_uuid_None: "faithful env \<Longrightarrow> find_uuid env u es = None \<longleftrightarrow> u \<notin> en_uuid ` set es"
  by (auto simp: find_uuid_def find_None_iff)

lemma same_entry: "entries_ok es \<Longrightarrow> c \<in> set es \<Longrightarrow> d \<in> set es \<Longrightarrow> en_uuid c = en_uuid d \<or> en_ptr c = en_ptr d \<Longrightarrow> c = d"
  by (auto simp: entries_ok_def distinct_map inj_on_def)

lemma find_uuid_iff:
  assumes "faithful env" "entries_ok es"
  shows "find_uuid env u es = Some c \<longleftrightarrow> c \<in> set es \<and> en_uuid c = u"
proof
  assume "c \<in> set es \<and> en_uuid c = u"
  then obtain d where "find_uuid env u es = Some d"
    using find_uuid_None [OF assms(1), of u es] by (cases "find_uuid env u es") auto
  then show "find_uuid env u es = Some c"
    using find_uuid_Some [OF assms(1)] same_entry [OF assms(2)] \<open>c \<in> set es \<and> en_uuid c = u\<close> by blast
qed (rule find_uuid_Some [OF assms(1)])

lemma set_drop_entry: "entries_ok es \<Longrightarrow> c \<in> set es \<Longrightarrow> set (drop_entry (en_ptr c) es) = {d \<in> set es. en_uuid d \<noteq> en_uuid c}"
  unfolding drop_entry_def using same_entry [of es c] by fastforce

lemma entries_ok_filter [simp]: "entries_ok es \<Longrightarrow> entries_ok (drop_entry p es)"
  by (simp add: entries_ok_def drop_entry_def distinct_map_filter)

lemma keys_set_data [simp]: "map en_ptr (set_data p d es) = map en_ptr es" "map en_uuid (set_data p d es) = map en_uuid es"
  by (simp_all add: set_data_def comp_def cong: if_cong)

lemma entries_ok_set_data [simp]: "entries_ok (set_data p d es) = entries_ok es"
  by (simp add: entries_ok_def)

lemma entries_ok_new: "entries_ok es \<Longrightarrow> en_ptr c \<notin> en_ptr ` set es \<Longrightarrow> en_uuid c \<notin> en_uuid ` set es \<Longrightarrow> entries_ok (es @ [c])"
  by (simp add: entries_ok_def)

section \<open>What the API is promised\<close>

text \<open>
  The contract of a server with the API: \<open>list\<close> is sorted by date and has one item for each of the connections, \<open>get\<close> finds
  exactly these, and \<open>kick\<close> removes one of them, or fails and changes nothing.
\<close>

locale conn_api =
  fixes ok :: "'s \<Rightarrow> bool"
    and list_conns :: "'s \<Rightarrow> 'd api_item list result"
    and get_conn :: "uuid \<Rightarrow> 's \<Rightarrow> 'd api_item result"
    and kick_conn :: "uuid \<Rightarrow> 's \<Rightarrow> unit result \<times> 's"
    and not_found :: go_error
  assumes list_sorted: "ok s \<Longrightarrow> list_conns s = Inr xs \<Longrightarrow> sorted (map it_Created xs)"
    and list_unique: "ok s \<Longrightarrow> list_conns s = Inr xs \<Longrightarrow> x \<in> set xs \<Longrightarrow> y \<in> set xs \<Longrightarrow> it_ID x = it_ID y \<Longrightarrow> x = y"
    and get_listed: "ok s \<Longrightarrow> list_conns s = Inr xs \<Longrightarrow> x \<in> set xs \<Longrightarrow> get_conn (it_ID x) s = Inr x"
    and get_unlisted: "ok s \<Longrightarrow> list_conns s = Inr xs \<Longrightarrow> u \<notin> it_ID ` set xs \<Longrightarrow> get_conn u s = Inl not_found"
    and kick_listed: "ok s \<Longrightarrow> list_conns s = Inr xs \<Longrightarrow> u \<in> it_ID ` set xs \<Longrightarrow>
      fst (kick_conn u s) = Inr () \<and> ok (snd (kick_conn u s)) \<and>
      (\<exists>ys. list_conns (snd (kick_conn u s)) = Inr ys \<and> set ys = {x \<in> set xs. it_ID x \<noteq> u})"
    and kick_unlisted: "ok s \<Longrightarrow> list_conns s = Inr xs \<Longrightarrow> u \<notin> it_ID ` set xs \<Longrightarrow> kick_conn u s = (Inl not_found, s)"
begin

text \<open>A connection that has been kicked is gone for \<open>get\<close> and for a second \<open>kick\<close>, and the others are as before.\<close>

lemma kicked:
  assumes "ok s" "list_conns s = Inr xs" "kick_conn u s = (Inr (), s')"
  shows "get_conn u s' = Inl not_found" "kick_conn u s' = (Inl not_found, s')"
    "x \<in> set xs \<Longrightarrow> it_ID x \<noteq> u \<Longrightarrow> get_conn (it_ID x) s' = Inr x" "ok s'"
proof -
  have u: "u \<in> it_ID ` set xs" using kick_unlisted [OF assms(1,2), of u] assms(3) by force
  obtain ys where ys: "ok s'" "list_conns s' = Inr ys" "set ys = {x \<in> set xs. it_ID x \<noteq> u}"
    using kick_listed [OF assms(1,2) u] assms(3) by auto
  have "u \<notin> it_ID ` set ys" using ys(3) by auto
  then show "get_conn u s' = Inl not_found" "kick_conn u s' = (Inl not_found, s')"
    using get_unlisted [OF ys(1,2)] kick_unlisted [OF ys(1,2)] by blast+
  show "x \<in> set xs \<Longrightarrow> it_ID x \<noteq> u \<Longrightarrow> get_conn (it_ID x) s' = Inr x"
    using get_listed [OF ys(1,2)] ys(3) by simp
  show "ok s'" by (rule ys(1))
qed

text \<open>Two kicks give the same in either order.\<close>

lemma kick_twice:
  assumes "ok s" "list_conns s = Inr xs" "u \<in> it_ID ` set xs" "v \<in> it_ID ` set xs" "u \<noteq> v"
  shows "\<exists>ys zs. list_conns (snd (kick_conn v (snd (kick_conn u s)))) = Inr ys \<and>
    list_conns (snd (kick_conn u (snd (kick_conn v s)))) = Inr zs \<and> set ys = set zs"
proof -
  have two: "\<exists>ys. list_conns (snd (kick_conn b (snd (kick_conn a s)))) = Inr ys \<and> set ys = {x \<in> set xs. it_ID x \<notin> {a, b}}"
    if ab: "a \<in> it_ID ` set xs" "b \<in> it_ID ` set xs" "a \<noteq> b" for a b
  proof -
    obtain ys where ys: "ok (snd (kick_conn a s))" "list_conns (snd (kick_conn a s)) = Inr ys"
      "set ys = {x \<in> set xs. it_ID x \<noteq> a}"
      using kick_listed [OF assms(1,2) ab(1)] by blast
    have "b \<in> it_ID ` set ys" using ab ys(3) by auto
    then obtain zs where "list_conns (snd (kick_conn b (snd (kick_conn a s)))) = Inr zs" "set zs = {x \<in> set ys. it_ID x \<noteq> b}"
      using kick_listed [OF ys(1,2)] by blast
    then show ?thesis using ys(3) by (intro exI [of _ zs]) auto
  qed
  show ?thesis using two [OF assms(3,4,5)] two [OF assms(4,3)] assms(5) by (auto simp: insert_commute)
qed

end

text \<open>The laws of any table that is listed, searched and cut in this way.\<close>

lemma it_ID_apiItem [simp]: "it_ID (apiItem c) = en_uuid c"
  by (simp add: apiItem_def)

lemma items_unique:
  assumes "faithful env" "entries_ok es" "x \<in> set (items_of env es)" "y \<in> set (items_of env es)" "it_ID x = it_ID y"
  shows "x = y"
proof -
  obtain c d where cd: "c \<in> set es" "x = apiItem c" "d \<in> set es" "y = apiItem d"
    using assms(1,3,4) by auto
  then have "c = d" using same_entry [OF assms(2) cd(1,3)] assms(5) by simp
  then show ?thesis using cd by simp
qed

lemma listed_found:
  assumes "faithful env" "entries_ok es" "x \<in> set (items_of env es)"
  shows "\<exists>c. find_uuid env (it_ID x) es = Some c \<and> apiItem c = x"
proof -
  obtain c where "c \<in> set es" "x = apiItem c" using assms(1,3) by auto
  then show ?thesis using find_uuid_iff [OF assms(1,2), of "it_ID x" c] by auto
qed

lemma unlisted_lost: "faithful env \<Longrightarrow> u \<notin> it_ID ` set (items_of env es) \<Longrightarrow> find_uuid env u es = None"
  using find_uuid_None [of env u es] by (auto simp: image_image)

lemma listed_dropped:
  assumes env: "faithful env" and ok: "entries_ok es" and u: "u \<in> it_ID ` set (items_of env es)"
  obtains c where "find_uuid env u es = Some c" "c \<in> set es" "en_uuid c = u" "entries_ok (drop_entry (en_ptr c) es)"
    "set (items_of env (drop_entry (en_ptr c) es)) = {x \<in> set (items_of env es). it_ID x \<noteq> u}"
proof -
  obtain c where c: "c \<in> set es" "en_uuid c = u" using u env by auto
  have "set (items_of env (drop_entry (en_ptr c) es)) = apiItem ` {d \<in> set es. en_uuid d \<noteq> u}"
    by (simp add: env set_drop_entry [OF ok c(1)] c(2))
  also have "\<dots> = {x \<in> apiItem ` set es. it_ID x \<noteq> u}" by auto
  finally have "set (items_of env (drop_entry (en_ptr c) es)) = {x \<in> set (items_of env es). it_ID x \<noteq> u}"
    using env by simp
  then show thesis using that [of c] find_uuid_iff [OF env ok] c ok by simp
qed

text \<open>The contract of a server whose answers come from a table.\<close>

lemma conn_api_of_table:
  assumes env: "faithful env" and ok: "\<And>s. ok s \<Longrightarrow> entries_ok (tab s)"
    and list_conns: "\<And>s. list_conns s = (if run s then Inr (items_of env (tab s)) else Inl terminated)"
    and get: "\<And>u s. get u s =
      (if run s then case find_uuid env u (tab s) of None \<Rightarrow> Inl nf | Some c \<Rightarrow> Inr (apiItem c) else Inl terminated)"
    and kick: "\<And>u s. kick u s =
      (if run s then case find_uuid env u (tab s) of None \<Rightarrow> (Inl nf, s) | Some c \<Rightarrow> (Inr (), upd c s) else (Inl terminated, s))"
    and upd: "\<And>c s. tab (upd c s) = drop_entry (en_ptr c) (tab s)" "\<And>c s. run (upd c s) = run s"
      "\<And>c s. ok s \<Longrightarrow> c \<in> set (tab s) \<Longrightarrow> ok (upd c s)"
  shows "conn_api ok list_conns get kick nf"
proof
  fix s xs u
  assume s: "ok s" "list_conns s = Inr xs"
  note ents = ok [OF s(1)]
  have run: "run s" and xs: "xs = items_of env (tab s)"
    using s(2) by (auto simp: list_conns split: if_splits)
  show "sorted (map it_Created xs)" unfolding xs by (rule sorted_items [OF env])
  show "x \<in> set xs \<Longrightarrow> y \<in> set xs \<Longrightarrow> it_ID x = it_ID y \<Longrightarrow> x = y" for x y
    unfolding xs by (rule items_unique [OF env ents])
  show "x \<in> set xs \<Longrightarrow> get (it_ID x) s = Inr x" for x
    using listed_found [OF env ents, of x] run by (auto simp: get xs)
  show "u \<notin> it_ID ` set xs \<Longrightarrow> get u s = Inl nf" "u \<notin> it_ID ` set xs \<Longrightarrow> kick u s = (Inl nf, s)"
    using unlisted_lost [OF env, of u "tab s"] run by (simp_all add: get kick xs del: set_items)
  show "fst (kick u s) = Inr () \<and> ok (snd (kick u s)) \<and>
      (\<exists>ys. list_conns (snd (kick u s)) = Inr ys \<and> set ys = {x \<in> set xs. it_ID x \<noteq> u})"
    if u: "u \<in> it_ID ` set xs"
  proof (rule listed_dropped [OF env ents, of u])
    show "u \<in> it_ID ` set (items_of env (tab s))" using u by (simp only: xs)
    fix c
    assume "find_uuid env u (tab s) = Some c" "c \<in> set (tab s)"
      "set (items_of env (drop_entry (en_ptr c) (tab s))) = {x \<in> set (items_of env (tab s)). it_ID x \<noteq> u}"
    then show ?thesis using run upd(3) [OF s(1)] by (simp add: kick list_conns xs upd(1,2) del: set_items)
  qed
qed

section \<open>The RTMP server\<close>

text \<open>\<open>rt_cancelled\<close> are the connections whose \<open>Close\<close> has been called, \<open>rt_refused\<close> those that came when the server was closing.\<close>

record 'd rtmp_server =
  rt_conns :: "'d entry list"
  rt_running :: bool
  rt_ln_open :: bool
  rt_cancelled :: "nat list"
  rt_refused :: "nat list"

datatype 'd server_event =
    AcceptErr go_error
  | NewConn "'d entry"
  | CloseConn nat
  | ConnData nat 'd
  | ServerDone

definition rtmp_Initialize :: "'d rtmp_server" where
  "rtmp_Initialize = \<lparr>rt_conns = [], rt_running = True, rt_ln_open = True, rt_cancelled = [], rt_refused = []\<rparr>"

text \<open>The end of the loop cancels the context, which all connections watch, and closes the listener.\<close>

definition rtmp_end :: "'d rtmp_server \<Rightarrow> 'd rtmp_server" where
  "rtmp_end s = s\<lparr>rt_running := False, rt_ln_open := False\<rparr>"

definition rtmp_run :: "'d server_event \<Rightarrow> 'd rtmp_server \<Rightarrow> 'd rtmp_server" where
  "rtmp_run ev s =
     (if rt_running s then
        (case ev of
           AcceptErr e \<Rightarrow> rtmp_end s
         | NewConn c \<Rightarrow> s\<lparr>rt_conns := rt_conns s @ [c]\<rparr>
         | CloseConn p \<Rightarrow> s\<lparr>rt_conns := drop_entry p (rt_conns s)\<rparr>
         | ConnData p d \<Rightarrow> s\<lparr>rt_conns := set_data p d (rt_conns s)\<rparr>
         | ServerDone \<Rightarrow> rtmp_end s)
      else
        (case ev of
           NewConn c \<Rightarrow> s\<lparr>rt_refused := rt_refused s @ [en_ptr c]\<rparr>
         | ConnData p d \<Rightarrow> s\<lparr>rt_conns := set_data p d (rt_conns s)\<rparr>
         | _ \<Rightarrow> s))"

definition rtmp_APIConnsList :: "'d table_env \<Rightarrow> 'd rtmp_server \<Rightarrow> 'd api_item list result" where
  "rtmp_APIConnsList env s = (if rt_running s then Inr (items_of env (rt_conns s)) else Inl terminated)"

definition rtmp_APIConnsGet :: "'d table_env \<Rightarrow> uuid \<Rightarrow> 'd rtmp_server \<Rightarrow> 'd api_item result" where
  "rtmp_APIConnsGet env u s =
     (if rt_running s then
        (case find_uuid env u (rt_conns s) of None \<Rightarrow> Inl ErrConnNotFound | Some c \<Rightarrow> Inr (apiItem c))
      else Inl terminated)"

definition rtmp_APIConnsKick :: "'d table_env \<Rightarrow> uuid \<Rightarrow> 'd rtmp_server \<Rightarrow> unit result \<times> 'd rtmp_server" where
  "rtmp_APIConnsKick env u s =
     (if rt_running s then
        (case find_uuid env u (rt_conns s) of
           None \<Rightarrow> (Inl ErrConnNotFound, s)
         | Some c \<Rightarrow> (Inr (), s\<lparr>rt_conns := drop_entry (en_ptr c) (rt_conns s), rt_cancelled := rt_cancelled s @ [en_ptr c]\<rparr>))
      else (Inl terminated, s))"

text \<open>The goroutine of the listener: what it tells the server, for what \<open>Accept\<close> returns.\<close>

fun rtmp_listener :: "'d entry result list \<Rightarrow> 'd server_event list" where
  "rtmp_listener [] = []"
| "rtmp_listener (Inl e # rs) = [AcceptErr e]"
| "rtmp_listener (Inr c # rs) = NewConn c # rtmp_listener rs"

lemma rtmp_conn_api:
  "faithful env \<Longrightarrow>
   conn_api (\<lambda>s. entries_ok (rt_conns s)) (rtmp_APIConnsList env) (rtmp_APIConnsGet env) (rtmp_APIConnsKick env) ErrConnNotFound"
  by (rule conn_api_of_table
      [where tab = rt_conns and run = rt_running and
        upd = "\<lambda>c s. s\<lparr>rt_conns := drop_entry (en_ptr c) (rt_conns s), rt_cancelled := rt_cancelled s @ [en_ptr c]\<rparr>"])
    (simp_all add: rtmp_APIConnsList_def rtmp_APIConnsGet_def rtmp_APIConnsKick_def)

section \<open>The SRT server\<close>

definition srtMaxPayloadSize :: "int \<Rightarrow> int" where
  "srtMaxPayloadSize u = go_div (u - 16) 188 * 188"

text \<open>A request that comes when the server is closing is rejected.\<close>

record 'd srt_server =
  sr_conns :: "'d entry list"
  sr_running :: bool
  sr_ln_open :: bool
  sr_cancelled :: "nat list"
  sr_rejected :: "nat list"

definition srt_Initialize :: "'d srt_server" where
  "srt_Initialize = \<lparr>sr_conns = [], sr_running = True, sr_ln_open = True, sr_cancelled = [], sr_rejected = []\<rparr>"

definition srt_run :: "'d server_event \<Rightarrow> 'd srt_server \<Rightarrow> 'd srt_server" where
  "srt_run ev s =
     (let ended = s\<lparr>sr_running := False, sr_ln_open := False\<rparr> in
      if sr_running s then
        (case ev of
           AcceptErr e \<Rightarrow> ended
         | NewConn c \<Rightarrow> s\<lparr>sr_conns := sr_conns s @ [c]\<rparr>
         | CloseConn p \<Rightarrow> s\<lparr>sr_conns := drop_entry p (sr_conns s)\<rparr>
         | ConnData p d \<Rightarrow> s\<lparr>sr_conns := set_data p d (sr_conns s)\<rparr>
         | ServerDone \<Rightarrow> ended)
      else
        (case ev of
           NewConn c \<Rightarrow> s\<lparr>sr_rejected := sr_rejected s @ [en_ptr c]\<rparr>
         | ConnData p d \<Rightarrow> s\<lparr>sr_conns := set_data p d (sr_conns s)\<rparr>
         | _ \<Rightarrow> s))"

definition srt_APIConnsList :: "'d table_env \<Rightarrow> 'd srt_server \<Rightarrow> 'd api_item list result" where
  "srt_APIConnsList env s = (if sr_running s then Inr (items_of env (sr_conns s)) else Inl terminated)"

definition srt_APIConnsGet :: "'d table_env \<Rightarrow> uuid \<Rightarrow> 'd srt_server \<Rightarrow> 'd api_item result" where
  "srt_APIConnsGet env u s =
     (if sr_running s then
        (case find_uuid env u (sr_conns s) of None \<Rightarrow> Inl ErrConnNotFound | Some c \<Rightarrow> Inr (apiItem c))
      else Inl terminated)"

definition srt_APIConnsKick :: "'d table_env \<Rightarrow> uuid \<Rightarrow> 'd srt_server \<Rightarrow> unit result \<times> 'd srt_server" where
  "srt_APIConnsKick env u s =
     (if sr_running s then
        (case find_uuid env u (sr_conns s) of
           None \<Rightarrow> (Inl ErrConnNotFound, s)
         | Some c \<Rightarrow> (Inr (), s\<lparr>sr_conns := drop_entry (en_ptr c) (sr_conns s), sr_cancelled := sr_cancelled s @ [en_ptr c]\<rparr>))
      else (Inl terminated, s))"

fun srt_listener :: "'d entry result list \<Rightarrow> 'd server_event list" where
  "srt_listener [] = []"
| "srt_listener (Inl e # rs) = [AcceptErr e]"
| "srt_listener (Inr c # rs) = NewConn c # srt_listener rs"

lemma srt_conn_api:
  "faithful env \<Longrightarrow>
   conn_api (\<lambda>s. entries_ok (sr_conns s)) (srt_APIConnsList env) (srt_APIConnsGet env) (srt_APIConnsKick env) ErrConnNotFound"
  by (rule conn_api_of_table
      [where tab = sr_conns and run = sr_running and
        upd = "\<lambda>c s. s\<lparr>sr_conns := drop_entry (en_ptr c) (sr_conns s), sr_cancelled := sr_cancelled s @ [en_ptr c]\<rparr>"])
    (simp_all add: srt_APIConnsList_def srt_APIConnsGet_def srt_APIConnsKick_def)

section \<open>The RTSP server\<close>

text \<open>
  Connections and sessions belong to the library; the maps are keyed by its pointers. The handlers are called by the
  library, the functions of the API by the API, under the mutex of the server. \<open>rp_conn_closed\<close> and \<open>rp_session_closed\<close> are
  the calls of \<open>onClose\<close>, \<open>rp_cancelled\<close> the calls of the \<open>Close\<close> of a session of the library.
\<close>

record ('c, 'd) rtsp_server =
  rp_conns :: "'c entry list"
  rp_sessions :: "'d entry list"
  rp_running :: bool
  rp_conn_closed :: "nat list"
  rp_session_closed :: "nat list"
  rp_cancelled :: "nat list"

definition rtsp_Initialize :: "('c, 'd) rtsp_server" where
  "rtsp_Initialize =
     \<lparr>rp_conns = [], rp_sessions = [], rp_running = True, rp_conn_closed = [], rp_session_closed = [], rp_cancelled = []\<rparr>"

definition rtsp_OnConnOpen :: "'c entry \<Rightarrow> ('c, 'd) rtsp_server \<Rightarrow> ('c, 'd) rtsp_server" where
  "rtsp_OnConnOpen c s = s\<lparr>rp_conns := rp_conns s @ [c]\<rparr>"

text \<open>A connection that is not in the map is nil: a panic.\<close>

definition rtsp_OnConnClose :: "nat \<Rightarrow> ('c, 'd) rtsp_server \<Rightarrow> ('c, 'd) rtsp_server result" where
  "rtsp_OnConnClose p s =
     (if p \<in> en_ptr ` set (rp_conns s) then
        Inr (s\<lparr>rp_conns := drop_entry p (rp_conns s), rp_conn_closed := rp_conn_closed s @ [p]\<rparr>)
      else Inl Panic)"

definition rtsp_OnSessionOpen :: "'d entry \<Rightarrow> ('c, 'd) rtsp_server \<Rightarrow> ('c, 'd) rtsp_server" where
  "rtsp_OnSessionOpen c s = s\<lparr>rp_sessions := rp_sessions s @ [c]\<rparr>"

definition rtsp_OnSessionClose :: "nat \<Rightarrow> ('c, 'd) rtsp_server \<Rightarrow> ('c, 'd) rtsp_server" where
  "rtsp_OnSessionClose p s =
     (let s1 = s\<lparr>rp_sessions := drop_entry p (rp_sessions s)\<rparr> in
      if p \<in> en_ptr ` set (rp_sessions s) then s1\<lparr>rp_session_closed := rp_session_closed s @ [p]\<rparr> else s1)"

definition findSessionByRSession :: "nat \<Rightarrow> ('c, 'd) rtsp_server \<Rightarrow> 'd entry option" where
  "findSessionByRSession p s = List.find (\<lambda>c. en_ptr c = p) (rp_sessions s)"

definition rtsp_APIConnsList :: "'c table_env \<Rightarrow> ('c, 'd) rtsp_server \<Rightarrow> 'c api_item list result" where
  "rtsp_APIConnsList env s = (if rp_running s then Inr (items_of env (rp_conns s)) else Inl terminated)"

definition rtsp_APIConnsGet :: "'c table_env \<Rightarrow> uuid \<Rightarrow> ('c, 'd) rtsp_server \<Rightarrow> 'c api_item result" where
  "rtsp_APIConnsGet env u s =
     (if rp_running s then
        (case find_uuid env u (rp_conns s) of None \<Rightarrow> Inl ErrConnNotFound | Some c \<Rightarrow> Inr (apiItem c))
      else Inl terminated)"

definition rtsp_APISessionsList :: "'d table_env \<Rightarrow> ('c, 'd) rtsp_server \<Rightarrow> 'd api_item list result" where
  "rtsp_APISessionsList env s = (if rp_running s then Inr (items_of env (rp_sessions s)) else Inl terminated)"

definition rtsp_APISessionsGet :: "'d table_env \<Rightarrow> uuid \<Rightarrow> ('c, 'd) rtsp_server \<Rightarrow> 'd api_item result" where
  "rtsp_APISessionsGet env u s =
     (if rp_running s then
        (case find_uuid env u (rp_sessions s) of None \<Rightarrow> Inl ErrSessionNotFound | Some c \<Rightarrow> Inr (apiItem c))
      else Inl terminated)"

definition rtsp_APISessionsKick :: "'d table_env \<Rightarrow> uuid \<Rightarrow> ('c, 'd) rtsp_server \<Rightarrow> unit result \<times> ('c, 'd) rtsp_server" where
  "rtsp_APISessionsKick env u s =
     (if rp_running s then
        (case find_uuid env u (rp_sessions s) of
           None \<Rightarrow> (Inl ErrSessionNotFound, s)
         | Some c \<Rightarrow>
             (Inr (), s\<lparr>rp_cancelled := rp_cancelled s @ [en_ptr c], rp_sessions := drop_entry (en_ptr c) (rp_sessions s),
                        rp_session_closed := rp_session_closed s @ [en_ptr c]\<rparr>))
      else (Inl terminated, s))"

definition rtsp_stop :: "('c, 'd) rtsp_server \<Rightarrow> ('c, 'd) rtsp_server" where
  "rtsp_stop s = s\<lparr>rp_running := False\<rparr>"

lemma rtsp_conn_api:
  "faithful env \<Longrightarrow>
   conn_api (\<lambda>s. entries_ok (rp_sessions s)) (rtsp_APISessionsList env) (rtsp_APISessionsGet env) (rtsp_APISessionsKick env)
     ErrSessionNotFound"
  by (rule conn_api_of_table
      [where tab = rp_sessions and run = rp_running and
        upd = "\<lambda>c s. s\<lparr>rp_cancelled := rp_cancelled s @ [en_ptr c], rp_sessions := drop_entry (en_ptr c) (rp_sessions s),
                        rp_session_closed := rp_session_closed s @ [en_ptr c]\<rparr>"])
    (simp_all add: rtsp_APISessionsList_def rtsp_APISessionsGet_def rtsp_APISessionsKick_def)

section \<open>Sequences of events\<close>

definition sorted_env :: "'d table_env" where
  "sorted_env = \<lparr>te_range = (\<lambda>es. es), te_sort = sort_key it_Created\<rparr>"

lemma faithful_sorted_env: "faithful sorted_env"
  by (simp add: faithful_def sorted_env_def)

interpretation rtmp_api: conn_api "\<lambda>s. entries_ok (rt_conns s)" "rtmp_APIConnsList sorted_env" "rtmp_APIConnsGet sorted_env"
  "rtmp_APIConnsKick sorted_env" ErrConnNotFound
  by (rule rtmp_conn_api [OF faithful_sorted_env])

interpretation srt_api: conn_api "\<lambda>s. entries_ok (sr_conns s)" "srt_APIConnsList sorted_env" "srt_APIConnsGet sorted_env"
  "srt_APIConnsKick sorted_env" ErrConnNotFound
  by (rule srt_conn_api [OF faithful_sorted_env])

interpretation rtsp_api: conn_api "\<lambda>s. entries_ok (rp_sessions s)" "rtsp_APISessionsList sorted_env" "rtsp_APISessionsGet sorted_env"
  "rtsp_APISessionsKick sorted_env" ErrSessionNotFound
  by (rule rtsp_conn_api [OF faithful_sorted_env])

text \<open>What happens to a server of RTMP, with the pointers and the identifiers that are new when a connection comes.\<close>

datatype 'd table_op = ServerEvent "'d server_event" | KickRequest uuid

definition rtmp_op :: "'d table_env \<Rightarrow> 'd table_op \<Rightarrow> 'd rtmp_server \<Rightarrow> 'd rtmp_server" where
  "rtmp_op env x s = (case x of ServerEvent ev \<Rightarrow> rtmp_run ev s | KickRequest u \<Rightarrow> snd (rtmp_APIConnsKick env u s))"

fun rtmp_ops :: "'d table_env \<Rightarrow> 'd table_op list \<Rightarrow> 'd rtmp_server \<Rightarrow> 'd rtmp_server" where
  "rtmp_ops env [] s = s"
| "rtmp_ops env (x # xs) s = rtmp_ops env xs (rtmp_op env x s)"

fun new_entries :: "'d table_op list \<Rightarrow> 'd entry list" where
  "new_entries [] = []"
| "new_entries (ServerEvent (NewConn c) # xs) = c # new_entries xs"
| "new_entries (_ # xs) = new_entries xs"

lemma drop_entry_subset: "set (drop_entry p es) \<subseteq> set es"
  by (auto simp: drop_entry_def)

lemma entries_ok_sub: "entries_ok (es @ ns) \<Longrightarrow> entries_ok (drop_entry p es @ ns)"
  by (auto simp: entries_ok_def drop_entry_def distinct_map_filter)

lemma entries_ok_data: "entries_ok (set_data p d es @ ns) = entries_ok (es @ ns)"
proof -
  have "en_ptr ` set (set_data p d es) = en_ptr ` set es" "en_uuid ` set (set_data p d es) = en_uuid ` set es"
    by (metis keys_set_data set_map)+
  then show ?thesis by (simp add: entries_ok_def)
qed

lemma rtmp_ops_ok: "entries_ok (rt_conns s @ new_entries xs) \<Longrightarrow> entries_ok (rt_conns (rtmp_ops env xs s))"
proof (induction xs arbitrary: s)
  case (Cons x xs)
  have "entries_ok (rt_conns (rtmp_op env x s) @ new_entries xs)"
  proof (cases x)
    case (KickRequest u)
    then show ?thesis
      using Cons.prems by (auto simp: rtmp_op_def rtmp_APIConnsKick_def entries_ok_sub split: option.split)
  next
    case (ServerEvent ev)
    have skip: "entries_ok (es @ c # ns) \<Longrightarrow> entries_ok (es @ ns)" for es ns :: "'a entry list" and c
      by (simp add: entries_ok_def)
    show ?thesis
      using Cons.prems ServerEvent
      by (cases ev) (auto simp: rtmp_op_def rtmp_run_def rtmp_end_def entries_ok_sub entries_ok_data intro: skip)
  qed
  then show ?case using Cons.IH by simp
qed (simp add: entries_ok_def)

text \<open>The sessions of an RTSP server: every end of a session is reported once, whoever ends it.\<close>

datatype 'd session_op = SessionOpened "'d entry" | SessionClosed nat | SessionKicked uuid

definition rtsp_op :: "'d table_env \<Rightarrow> 'd session_op \<Rightarrow> ('c, 'd) rtsp_server \<Rightarrow> ('c, 'd) rtsp_server" where
  "rtsp_op env x s =
     (case x of
        SessionOpened c \<Rightarrow> rtsp_OnSessionOpen c s
      | SessionClosed p \<Rightarrow> rtsp_OnSessionClose p s
      | SessionKicked u \<Rightarrow> snd (rtsp_APISessionsKick env u s))"

definition opened :: "'d session_op list \<Rightarrow> nat list" where
  "opened xs = List.map_filter (\<lambda>x. case x of SessionOpened c \<Rightarrow> Some (en_ptr c) | _ \<Rightarrow> None) xs"

definition closed_in :: "'d session_op list \<Rightarrow> nat set" where
  "closed_in xs = {p. SessionClosed p \<in> set xs}"

lemma opened_simps [simp]: "opened [] = []" "opened (SessionOpened c # xs) = en_ptr c # opened xs"
  "opened (SessionClosed p # xs) = opened xs" "opened (SessionKicked u # xs) = opened xs"
  by (simp_all add: opened_def List.map_filter_def)

lemma closed_in_simps [simp]: "closed_in [] = {}" "closed_in (SessionOpened c # xs) = closed_in xs"
  "closed_in (SessionClosed p # xs) = insert p (closed_in xs)" "closed_in (SessionKicked u # xs) = closed_in xs"
  by (auto simp: closed_in_def)

lemma ptrs_drop: "map en_ptr (drop_entry p es) = filter (\<lambda>q. q \<noteq> p) (map en_ptr es)"
  by (induction es) (auto simp: drop_entry_def)

lemma move_one:
  assumes "distinct (A @ B @ C)" "p \<in> set A"
  shows "distinct (filter (\<lambda>q. q \<noteq> p) A @ (B @ [p]) @ C)" "set (filter (\<lambda>q. q \<noteq> p) A @ (B @ [p]) @ C) = set (A @ B @ C)"
    "set A \<subseteq> set (filter (\<lambda>q. q \<noteq> p) A) \<union> set (B @ [p])"
  using assms by auto

lemma filter_absent: "p \<notin> set A \<Longrightarrow> filter (\<lambda>q. q \<noteq> p) A = A"
  by (rule filter_True) auto

lemma rtsp_op_step:
  assumes env: "faithful env" and dist: "distinct (map en_ptr (rp_sessions s) @ rp_session_closed s @ opened (x # xs))"
  shows "distinct (map en_ptr (rp_sessions (rtsp_op env x s)) @ rp_session_closed (rtsp_op env x s) @ opened xs) \<and>
    set (map en_ptr (rp_sessions (rtsp_op env x s)) @ rp_session_closed (rtsp_op env x s) @ opened xs) =
      set (map en_ptr (rp_sessions s) @ rp_session_closed s @ opened (x # xs)) \<and>
    set (rp_session_closed s) \<subseteq> set (rp_session_closed (rtsp_op env x s)) \<and>
    set (map en_ptr (rp_sessions s)) \<subseteq>
      set (map en_ptr (rp_sessions (rtsp_op env x s))) \<union> set (rp_session_closed (rtsp_op env x s)) \<and>
    (\<forall>p. x = SessionClosed p \<longrightarrow> p \<in> set (map en_ptr (rp_sessions s)) \<longrightarrow> p \<in> set (rp_session_closed (rtsp_op env x s)))"
proof (cases x)
  case (SessionOpened c)
  then show ?thesis using dist by (auto simp: rtsp_op_def rtsp_OnSessionOpen_def)
next
  case (SessionClosed p)
  have d: "distinct (map en_ptr (rp_sessions s) @ rp_session_closed s @ opened xs)" using dist SessionClosed by simp
  show ?thesis
  proof (cases "p \<in> set (map en_ptr (rp_sessions s))")
    case True
    then have t: "map en_ptr (rp_sessions (rtsp_op env x s)) = filter (\<lambda>q. q \<noteq> p) (map en_ptr (rp_sessions s))"
      "rp_session_closed (rtsp_op env x s) = rp_session_closed s @ [p]"
      by (simp_all add: SessionClosed rtsp_op_def rtsp_OnSessionClose_def Let_def ptrs_drop)
    show ?thesis
      unfolding t unfolding SessionClosed opened_simps
      by (intro conjI allI impI; (rule move_one [OF d True] | auto))
  next
    case False
    then have t: "map en_ptr (rp_sessions (rtsp_op env x s)) = map en_ptr (rp_sessions s)"
      "rp_session_closed (rtsp_op env x s) = rp_session_closed s"
      using filter_absent [OF False] by (simp_all add: SessionClosed rtsp_op_def rtsp_OnSessionClose_def Let_def ptrs_drop)
    show ?thesis unfolding t unfolding SessionClosed opened_simps using d False by auto
  qed
next
  case (SessionKicked u)
  have d: "distinct (map en_ptr (rp_sessions s) @ rp_session_closed s @ opened xs)" using dist SessionKicked by simp
  show ?thesis
  proof (cases "rp_running s \<and> find_uuid env u (rp_sessions s) \<noteq> None")
    case True
    then obtain c where c: "find_uuid env u (rp_sessions s) = Some c" by auto
    have p: "en_ptr c \<in> set (map en_ptr (rp_sessions s))" using find_uuid_Some [OF env c] by simp
    have t: "map en_ptr (rp_sessions (rtsp_op env x s)) = filter (\<lambda>q. q \<noteq> en_ptr c) (map en_ptr (rp_sessions s))"
      "rp_session_closed (rtsp_op env x s) = rp_session_closed s @ [en_ptr c]"
      using True c by (simp_all add: SessionKicked rtsp_op_def rtsp_APISessionsKick_def ptrs_drop)
    show ?thesis
      unfolding t unfolding SessionKicked opened_simps
      by (intro conjI allI impI; (rule move_one [OF d p] | auto))
  next
    case False
    then have t: "rtsp_op env x s = s"
      by (auto simp: SessionKicked rtsp_op_def rtsp_APISessionsKick_def split: option.split)
    show ?thesis unfolding t unfolding SessionKicked opened_simps using d by simp
  qed
qed

lemma rtsp_sessions_once:
  assumes "faithful env"
  shows "distinct (map en_ptr (rp_sessions s) @ rp_session_closed s @ opened xs) \<Longrightarrow>
    s' = fold (rtsp_op env) xs s \<Longrightarrow>
    distinct (map en_ptr (rp_sessions s') @ rp_session_closed s') \<and>
    set (map en_ptr (rp_sessions s') @ rp_session_closed s') =
      set (map en_ptr (rp_sessions s) @ rp_session_closed s @ opened xs) \<and>
    (set (rp_session_closed s) \<union> closed_in xs \<inter> set (map en_ptr (rp_sessions s))) \<subseteq> set (rp_session_closed s')"
proof (induction xs arbitrary: s)
  case (Cons x xs)
  let ?t = "rtsp_op env x s"
  have step: "distinct (map en_ptr (rp_sessions ?t) @ rp_session_closed ?t @ opened xs) \<and>
      set (map en_ptr (rp_sessions ?t) @ rp_session_closed ?t @ opened xs) =
        set (map en_ptr (rp_sessions s) @ rp_session_closed s @ opened (x # xs)) \<and>
      set (rp_session_closed s) \<subseteq> set (rp_session_closed ?t) \<and>
      set (map en_ptr (rp_sessions s)) \<subseteq> set (map en_ptr (rp_sessions ?t)) \<union> set (rp_session_closed ?t) \<and>
      (\<forall>p. x = SessionClosed p \<longrightarrow> p \<in> set (map en_ptr (rp_sessions s)) \<longrightarrow> p \<in> set (rp_session_closed ?t))"
    by (rule rtsp_op_step [OF assms Cons.prems(1)])
  have IH: "distinct (map en_ptr (rp_sessions s') @ rp_session_closed s') \<and>
    set (map en_ptr (rp_sessions s') @ rp_session_closed s') =
      set (map en_ptr (rp_sessions ?t) @ rp_session_closed ?t @ opened xs) \<and>
    (set (rp_session_closed ?t) \<union> closed_in xs \<inter> set (map en_ptr (rp_sessions ?t))) \<subseteq> set (rp_session_closed s')"
    by (rule Cons.IH) (use step Cons.prems(2) in simp_all)
  have closed: "closed_in (x # xs) = closed_in xs \<union> {p. x = SessionClosed p}"
    by (auto simp: closed_in_def)
  show ?case using IH step unfolding closed by blast
qed simp

end
