(* ===== verification/ServerWebRTC.thy ===== *)
theory ServerWebRTC
  imports ServerTables ConfData
begin

text \<open>
  The WebRTC server (internal/servers/webrtc/server.go): the table of sessions, which are also found by their secret, the
  credentials of the ICE servers that clients are given, and the opening of its listeners.

  Random bytes are the argument \<open>rand\<close>: a list of the bytes that the generator will give, whose end stands for an error.
\<close>

section \<open>Random users\<close>

definition randInt63 :: "bytes \<Rightarrow> (u64 \<times> bytes) result" where
  "randInt63 rand =
     (case rand of
        a # b # c # d # e # f # g # h # rest \<Rightarrow> Inr (be64 (a AND 0x7F) b c d e f g h, rest)
      | _ \<Rightarrow> Inl (External 0))"

text \<open>The loop draws again as long as the value is above the last multiple of \<open>n\<close>; each draw consumes bytes.\<close>

function draw_below :: "u64 \<Rightarrow> bytes \<Rightarrow> (u64 \<times> bytes) result" where
  "draw_below maxVal rand =
     (case randInt63 rand of
        Inl e \<Rightarrow> Inl e
      | Inr (v, rest) \<Rightarrow> if maxVal < v then draw_below maxVal rest else Inr (v, rest))"
  by pat_completeness auto
termination
  by (relation "measure (\<lambda>(_, r). length r)") (auto simp: randInt63_def split: list.splits)

declare draw_below.simps [simp del]

definition rand_max :: "u64 \<Rightarrow> u64" where
  "rand_max n = 0x7FFFFFFFFFFFFFFF - 0x8000000000000000 mod n"

definition randInt63n :: "u64 \<Rightarrow> bytes \<Rightarrow> (u64 \<times> bytes) result" where
  "randInt63n n rand =
     (if n AND (n - 1) = 0 then bindE (randInt63 rand) (\<lambda>(r, rest). Inr (r AND (n - 1), rest))
      else bindE (draw_below (rand_max n) rand) (\<lambda>(v, rest). Inr (v mod n, rest)))"

definition turn_charset :: string where
  "turn_charset = ''abcdefghijklmnopqrstuvwxyz1234567890''"

text \<open>An index out of the range is a panic.\<close>

fun random_chars :: "nat \<Rightarrow> bytes \<Rightarrow> (string \<times> bytes) result" where
  "random_chars 0 rand = Inr ([], rand)"
| "random_chars (Suc k) rand =
     bindE (randInt63n (of_nat (length turn_charset)) rand) (\<lambda>(j, rest).
     if unat j < length turn_charset then
       bindE (random_chars k rest) (\<lambda>(s, rest). Inr (turn_charset ! unat j # s, rest))
     else Inl Panic)"

definition randomTurnUser :: "bytes \<Rightarrow> (string \<times> bytes) result" where
  "randomTurnUser rand = random_chars 20 rand"

section \<open>ICE servers\<close>

record pion_server =
  pi_URL :: string
  pi_Username :: string
  pi_Credential :: string

text \<open>\<open>hmac key text\<close> is the base 64 of the HMAC; \<open>now\<close> is in seconds.\<close>

fun ice_servers ::
    "(string \<Rightarrow> string \<Rightarrow> string) \<Rightarrow> nat \<Rightarrow> bool \<Rightarrow> ice_server list \<Rightarrow> bytes \<Rightarrow> (pion_server list \<times> bytes) result" where
  "ice_servers hmac now clientConfig [] rand = Inr ([], rand)"
| "ice_servers hmac now clientConfig (s # ss) rand =
     (if \<not> ice_ClientOnly s \<or> clientConfig then
        bindE
          (if ice_Username s = ''AUTH_SECRET'' then
             bindE (randomTurnUser rand) (\<lambda>(user, rest).
             let username = FormatInt (now + 24 * 3600) @ '':'' @ user in
             Inr (s\<lparr>ice_Username := username, ice_Password := hmac (ice_Password s) username\<rparr>, rest))
           else Inr (s, rand)) (\<lambda>(s1, rest).
        bindE (ice_servers hmac now clientConfig ss rest) (\<lambda>(r, rest).
        Inr (\<lparr>pi_URL = ice_URL s1, pi_Username = ice_Username s1, pi_Credential = ice_Password s1\<rparr> # r, rest)))
      else ice_servers hmac now clientConfig ss rand)"

section \<open>Listeners\<close>

text \<open>
  What is open after an attempt to open the listeners, the errors of which are parameters. The UDP listener is nil when
  it has no address, and closing nil is a panic.
\<close>

record webrtc_listeners =
  wl_http :: bool
  wl_udp :: bool
  wl_tcp :: bool

definition webrtc_Initialize ::
    "string \<Rightarrow> string \<Rightarrow> go_error option \<Rightarrow> go_error option \<Rightarrow> go_error option \<Rightarrow> unit result \<times> webrtc_listeners" where
  "webrtc_Initialize localUDP localTCP http_err udp_err tcp_err =
     (let none = \<lparr>wl_http = False, wl_udp = False, wl_tcp = False\<rparr> in
      case http_err of
        Some e \<Rightarrow> (Inl e, none)
      | None \<Rightarrow>
          (let http = none\<lparr>wl_http := True\<rparr> in
           case (if localUDP \<noteq> [] then udp_err else None) of
             Some e \<Rightarrow> (Inl e, http\<lparr>wl_http := False\<rparr>)
           | None \<Rightarrow>
               (let udp = http\<lparr>wl_udp := (localUDP \<noteq> [])\<rparr> in
                case (if localTCP \<noteq> [] then tcp_err else None) of
                  Some e \<Rightarrow>
                    if \<not> wl_udp udp then (Inl Panic, udp)
                    else (Inl e, udp\<lparr>wl_udp := False, wl_http := False\<rparr>)
                | None \<Rightarrow> (Inr (), udp\<lparr>wl_tcp := (localTCP \<noteq> [])\<rparr>))))"

section \<open>Sessions\<close>

record 'd webrtc_data =
  ws_secret :: uuid
  ws_path :: string
  ws_info :: 'd

record 'd webrtc_server =
  wb_sessions :: "'d webrtc_data entry list"
  wb_by_secret :: "uuid \<Rightarrow> (nat \<times> string) option"
  wb_running :: bool
  wb_cancelled :: "nat list"

definition webrtc_new_server :: "'d webrtc_server" where
  "webrtc_new_server = \<lparr>wb_sessions = [], wb_by_secret = (\<lambda>_. None), wb_running = True, wb_cancelled = []\<rparr>"

definition add_session :: "'d webrtc_data entry \<Rightarrow> 'd webrtc_server \<Rightarrow> 'd webrtc_server" where
  "add_session c s =
     s\<lparr>wb_sessions := wb_sessions s @ [c],
       wb_by_secret := (wb_by_secret s)(ws_secret (en_data c) \<mapsto> (en_ptr c, ws_path (en_data c)))\<rparr>"

text \<open>The pointer and the secret of the session that is removed.\<close>

definition remove_session :: "nat \<Rightarrow> uuid \<Rightarrow> 'd webrtc_server \<Rightarrow> 'd webrtc_server" where
  "remove_session p secret s =
     s\<lparr>wb_sessions := drop_entry p (wb_sessions s), wb_by_secret := (wb_by_secret s)(secret := None)\<rparr>"

definition cancel_session :: "nat \<Rightarrow> 'd webrtc_server \<Rightarrow> 'd webrtc_server" where
  "cancel_session p s = s\<lparr>wb_cancelled := wb_cancelled s @ [p]\<rparr>"

text \<open>The session of a secret, if it is of the path; the pointer and the result of the request.\<close>

definition session_of_secret :: "uuid \<Rightarrow> string \<Rightarrow> 'd webrtc_server \<Rightarrow> nat result" where
  "session_of_secret secret path s =
     (case wb_by_secret s secret of
        None \<Rightarrow> Inl ErrSessionNotFound
      | Some (p, path') \<Rightarrow> if path' \<noteq> path then Inl ErrSessionNotFound else Inr p)"

definition addSessionCandidates :: "uuid \<Rightarrow> string \<Rightarrow> 'd webrtc_server \<Rightarrow> nat result" where
  "addSessionCandidates secret path s = (if wb_running s then session_of_secret secret path s else Inl terminated)"

definition deleteSession :: "uuid \<Rightarrow> string \<Rightarrow> 'd webrtc_server \<Rightarrow> unit result \<times> 'd webrtc_server" where
  "deleteSession secret path s =
     (if wb_running s then
        (case session_of_secret secret path s of
           Inl e \<Rightarrow> (Inl e, s)
         | Inr p \<Rightarrow> (Inr (), cancel_session p (remove_session p secret s)))
      else (Inl terminated, s))"

definition newSession :: "'d webrtc_data entry \<Rightarrow> 'd webrtc_server \<Rightarrow> unit result \<times> 'd webrtc_server" where
  "newSession c s = (if wb_running s then (Inr (), add_session c s) else (Inl terminated, s))"

definition closeSession :: "nat \<Rightarrow> uuid \<Rightarrow> 'd webrtc_server \<Rightarrow> 'd webrtc_server" where
  "closeSession p secret s = (if wb_running s then remove_session p secret s else s)"

definition webrtc_APISessionsList :: "'d webrtc_data table_env \<Rightarrow> 'd webrtc_server \<Rightarrow> 'd webrtc_data api_item list result" where
  "webrtc_APISessionsList env s = (if wb_running s then Inr (items_of env (wb_sessions s)) else Inl terminated)"

definition webrtc_APISessionsGet :: "'d webrtc_data table_env \<Rightarrow> uuid \<Rightarrow> 'd webrtc_server \<Rightarrow> 'd webrtc_data api_item result" where
  "webrtc_APISessionsGet env u s =
     (if wb_running s then
        (case find_uuid env u (wb_sessions s) of None \<Rightarrow> Inl ErrSessionNotFound | Some c \<Rightarrow> Inr (apiItem c))
      else Inl terminated)"

definition webrtc_APISessionsKick ::
    "'d webrtc_data table_env \<Rightarrow> uuid \<Rightarrow> 'd webrtc_server \<Rightarrow> unit result \<times> 'd webrtc_server" where
  "webrtc_APISessionsKick env u s =
     (if wb_running s then
        (case find_uuid env u (wb_sessions s) of
           None \<Rightarrow> (Inl ErrSessionNotFound, s)
         | Some c \<Rightarrow> (Inr (), cancel_session (en_ptr c) (remove_session (en_ptr c) (ws_secret (en_data c)) s)))
      else (Inl terminated, s))"

definition webrtc_stop :: "'d webrtc_server \<Rightarrow> 'd webrtc_server" where
  "webrtc_stop s = s\<lparr>wb_running := False\<rparr>"

text \<open>What a session reports changes while it runs; its secret and its path do not.\<close>

definition session_info :: "nat \<Rightarrow> 'd \<Rightarrow> 'd webrtc_server \<Rightarrow> 'd webrtc_server" where
  "session_info p i s =
     s\<lparr>wb_sessions := map (\<lambda>c. if en_ptr c = p then c\<lparr>en_data := (en_data c)\<lparr>ws_info := i\<rparr>\<rparr> else c) (wb_sessions s)\<rparr>"

section \<open>Draws\<close>

lemma unat_rand_max:
  assumes "0 < n" "unat n < 2 ^ 63"
  shows "unat (rand_max n) = 2 ^ 63 - 1 - 2 ^ 63 mod unat n"
proof -
  have m: "unat ((0x8000000000000000 :: u64) mod n) = 2 ^ 63 mod unat n"
    by (simp add: unat_mod_distrib)
  have "(2 ^ 63 :: nat) mod unat n < unat n"
    using assms(1) by (simp add: word_gt_0 unat_gt_0)
  then have "(2 ^ 63 :: nat) mod unat n \<le> 2 ^ 63 - 1" using assms(2) by simp
  then have le: "0x8000000000000000 mod n \<le> (0x7FFFFFFFFFFFFFFF :: u64)"
    using m by (simp add: word_le_nat_alt)
  show ?thesis using m by (simp add: rand_max_def unat_sub [OF le])
qed

text \<open>The accepted draws are the first whole multiples of \<open>n\<close>: each remainder is left by the same number of them.\<close>

lemma residues: "0 < n \<Longrightarrow> r < n \<Longrightarrow> card {v::nat. v < q * n \<and> v mod n = r} = q"
proof -
  assume n: "0 < n" "r < n"
  have "{v::nat. v < q * n \<and> v mod n = r} = (\<lambda>k. k * n + r) ` {..<q}"
  proof (intro equalityI subsetI)
    fix v
    assume v: "v \<in> {v. v < q * n \<and> v mod n = r}"
    then have "v div n < q" using n by (simp add: less_mult_imp_div_less)
    moreover have "v = v div n * n + r" using v div_mult_mod_eq [of v n] by simp
    ultimately show "v \<in> (\<lambda>k. k * n + r) ` {..<q}" by blast
  next
    fix v
    assume "v \<in> (\<lambda>k. k * n + r) ` {..<q}"
    then obtain k where k: "k < q" "v = k * n + r" by auto
    then have "v < Suc k * n" using n by simp
    also have "\<dots> \<le> q * n" using k(1) by (intro mult_right_mono) simp_all
    finally show "v \<in> {v. v < q * n \<and> v mod n = r}" using k n by simp
  qed
  moreover have "inj_on (\<lambda>k. k * n + r) {..<q}" using n by (auto simp: inj_on_def)
  ultimately show ?thesis by (simp add: card_image)
qed

lemma draw_below_max: "draw_below m rand = Inr (v, rest) \<Longrightarrow> v \<le> m"
proof (induction m rand rule: draw_below.induct)
  case (1 m rand)
  then show ?case
    by (subst (asm) (2) draw_below.simps) (auto split: sum.splits prod.splits if_splits)
qed

lemma and_decrement: "0 < n \<Longrightarrow> unat (x AND (n - 1)) < unat n" for n x :: u64
proof -
  assume n: "0 < n"
  have "unat (x AND (n - 1)) \<le> unat (n - 1)"
    by (rule word_le_nat_alt [THEN iffD1]) (simp add: word_and_le1)
  also have "\<dots> < unat n" using n by (simp add: unat_minus_one word_gt_0 unat_gt_0)
  finally show ?thesis .
qed

lemma randInt63n_below: "0 < n \<Longrightarrow> randInt63n n rand = Inr (v, rest) \<Longrightarrow> unat v < unat n"
  by (auto simp: randInt63n_def bindE_eq_Inr unat_mod_distrib and_decrement word_gt_0 unat_gt_0 split: if_splits)

lemma fair_draws:
  assumes "0 < n" "unat n < 2 ^ 63" "r < unat n"
  shows "card {v. v \<le> unat (rand_max n) \<and> v mod unat n = r} = 2 ^ 63 div unat n"
proof -
  define q x where "q = (2 ^ 63 div unat n) * unat n" and "x = (2 ^ 63 :: nat) mod unat n"
  have sum: "q + x = 2 ^ 63" by (simp add: q_def x_def)
  have "0 < q"
    using assms(1,2) by (simp add: q_def div_greater_zero_iff word_gt_0 unat_gt_0)
  then have "v \<le> 2 ^ 63 - 1 - x \<longleftrightarrow> v < q" for v
    using sum by linarith
  then have "v \<le> unat (rand_max n) \<longleftrightarrow> v < (2 ^ 63 div unat n) * unat n" for v
    by (simp only: unat_rand_max [OF assms(1,2)] x_def q_def)
  then show ?thesis using residues [of "unat n" r "2 ^ 63 div unat n"] assms(3) by simp
qed

lemma random_chars_ok:
  "(case random_chars k rand of
      Inl e \<Rightarrow> e = External 0
    | Inr (s, rest) \<Rightarrow> length s = k \<and> set s \<subseteq> set turn_charset)"
proof (induction k arbitrary: rand)
  case (Suc k)
  have n: "unat (of_nat (length turn_charset) :: u64) = length turn_charset" "(0 :: u64) < of_nat (length turn_charset)"
    by (simp_all add: turn_charset_def)
  have err: "randInt63n m r = Inl e \<Longrightarrow> e = External 0" for m r e
  proof -
    have draw: "draw_below mx r = Inl e \<Longrightarrow> e = External 0" for mx r e
    proof (induction mx r rule: draw_below.induct)
      case (1 m r)
      then show ?case
        by (subst (asm) (2) draw_below.simps)
          (auto simp: randInt63_def split: list.splits prod.splits if_splits)
    qed
    show "randInt63n m r = Inl e \<Longrightarrow> e = External 0"
      using draw by (auto simp: randInt63n_def randInt63_def bindE_def split: if_splits sum.splits list.splits)
  qed
  show ?case
  proof (cases "randInt63n (of_nat (length turn_charset)) rand")
    case (Inl e)
    then show ?thesis using err by simp
  next
    case (Inr jr)
    obtain j rest where jr: "jr = (j, rest)" by (cases jr)
    have j: "unat j < length turn_charset" using randInt63n_below [OF n(2)] Inr jr n(1) by simp
    have "turn_charset ! unat j \<in> set turn_charset" using j by simp
    then show ?thesis using Inr jr j Suc.IH [of rest] by (auto simp: bindE_def split: sum.splits prod.splits)
  qed
qed simp

section \<open>The table and the secrets\<close>

text \<open>What a session never changes.\<close>

definition session_key :: "'d webrtc_data entry \<Rightarrow> nat \<times> uuid \<times> uuid \<times> string" where
  "session_key c = (en_ptr c, en_uuid c, ws_secret (en_data c), ws_path (en_data c))"

text \<open>The pointers, identifiers and secrets of all the sessions that there ever are: no two share one.\<close>

definition unique_keys :: "(nat \<times> uuid \<times> uuid \<times> string) set \<Rightarrow> bool" where
  "unique_keys K \<longleftrightarrow>
     (\<forall>a \<in> K. \<forall>b \<in> K. fst a = fst b \<or> fst (snd a) = fst (snd b) \<or> fst (snd (snd a)) = fst (snd (snd b)) \<longrightarrow> a = b)"

lemma unique_secret: "unique_keys K \<Longrightarrow> (p, u, x, a) \<in> K \<Longrightarrow> (q, v, x, b) \<in> K \<Longrightarrow> (p, u, x, a) = (q, v, x, b)"
  by (drule unique_keys_def [THEN iffD1], drule bspec, assumption, drule bspec, assumption) simp

lemma unique_pointer: "unique_keys K \<Longrightarrow> (p, u, x, a) \<in> K \<Longrightarrow> (p, v, y, b) \<in> K \<Longrightarrow> (p, u, x, a) = (p, v, y, b)"
  by (drule unique_keys_def [THEN iffD1], drule bspec, assumption, drule bspec, assumption) simp

definition keys_of :: "'d webrtc_server \<Rightarrow> (nat \<times> uuid \<times> uuid \<times> string) list" where
  "keys_of s = map session_key (wb_sessions s)"

text \<open>The states that a server with these sessions comes through, in any order of its events.\<close>

inductive webrtc_reach ::
    "(nat \<times> uuid \<times> uuid \<times> string) set \<Rightarrow> 'd webrtc_data table_env \<Rightarrow> 'd webrtc_server \<Rightarrow> bool" for K env where
  start: "webrtc_reach K env webrtc_new_server"
| opens: "webrtc_reach K env s \<Longrightarrow> session_key c \<in> K \<Longrightarrow> session_key c \<notin> set (keys_of s) \<Longrightarrow>
    webrtc_reach K env (snd (newSession c s))"
| closes: "webrtc_reach K env s \<Longrightarrow> (p, u, secret, path) \<in> K \<Longrightarrow> webrtc_reach K env (closeSession p secret s)"
| deletes: "webrtc_reach K env s \<Longrightarrow> webrtc_reach K env (snd (deleteSession secret path s))"
| kicks: "webrtc_reach K env s \<Longrightarrow> webrtc_reach K env (snd (webrtc_APISessionsKick env u s))"
| informs: "webrtc_reach K env s \<Longrightarrow> webrtc_reach K env (session_info p i s)"
| stops: "webrtc_reach K env s \<Longrightarrow> webrtc_reach K env (webrtc_stop s)"

definition webrtc_ok :: "(nat \<times> uuid \<times> uuid \<times> string) set \<Rightarrow> 'd webrtc_server \<Rightarrow> bool" where
  "webrtc_ok K s \<longleftrightarrow>
     distinct (keys_of s) \<and> set (keys_of s) \<subseteq> K \<and>
     (\<forall>secret p path. wb_by_secret s secret = Some (p, path) \<longleftrightarrow> (\<exists>u. (p, u, secret, path) \<in> set (keys_of s)))"

lemma webrtc_ok_parts:
  assumes "webrtc_ok K s"
  shows "distinct (keys_of s)" "set (keys_of s) \<subseteq> K"
    "wb_by_secret s secret = Some (p, path) \<longleftrightarrow> (\<exists>u. (p, u, secret, path) \<in> set (keys_of s))"
  using assms unfolding webrtc_ok_def by blast+

lemma keys_remove: "keys_of (remove_session p secret s) = filter (\<lambda>k. fst k \<noteq> p) (keys_of s)"
proof -
  have "map session_key (drop_entry p es) = filter (\<lambda>k. fst k \<noteq> p) (map session_key es)" for es :: "'a webrtc_data entry list"
    by (induction es) (auto simp: drop_entry_def session_key_def)
  then show ?thesis by (simp add: keys_of_def remove_session_def)
qed

lemma remove_ok:
  assumes ok: "webrtc_ok K s" and K: "unique_keys K" and key: "(p, u, secret, path) \<in> K"
  shows "webrtc_ok K (remove_session p secret s)"
proof -
  have "(\<exists>u'. (q, u', sec, pa) \<in> set (filter (\<lambda>k. fst k \<noteq> p) (keys_of s))) \<longleftrightarrow>
      sec \<noteq> secret \<and> (\<exists>u'. (q, u', sec, pa) \<in> set (keys_of s))" for q sec pa
  proof -
    have "(q = p) = (sec = secret)" if k: "(q, u', sec, pa) \<in> set (keys_of s)" for u'
    proof -
      have "(q, u', sec, pa) \<in> K" using webrtc_ok_parts(2) [OF ok] k by blast
      then show ?thesis
        using unique_secret [OF K _ key] unique_pointer [OF K _ key] by blast
    qed
    then show ?thesis by auto
  qed
  moreover have "wb_by_secret (remove_session p secret s) sec = (if sec = secret then None else wb_by_secret s sec)" for sec
    by (simp add: remove_session_def)
  ultimately show ?thesis
    using webrtc_ok_parts(1,2) [OF ok] webrtc_ok_parts(3) [OF ok] unfolding webrtc_ok_def keys_remove by auto
qed

lemma cancel_ok [simp]: "webrtc_ok K (cancel_session p s) = webrtc_ok K s"
  by (simp add: webrtc_ok_def cancel_session_def keys_of_def)

lemma session_of_secret_iff:
  assumes "webrtc_ok K s"
  shows "session_of_secret secret path s = Inr p \<longleftrightarrow> (\<exists>u. (p, u, secret, path) \<in> set (keys_of s))"
  using webrtc_ok_parts(3) [OF assms, of secret p path]
  by (auto simp: session_of_secret_def split: option.split prod.split)

lemma webrtc_entries:
  assumes ok: "webrtc_ok K s" and K: "unique_keys K"
  shows "entries_ok (wb_sessions s)"
proof -
  have same: "session_key c = session_key d"
    if "c \<in> set (wb_sessions s)" "d \<in> set (wb_sessions s)" "en_ptr c = en_ptr d \<or> en_uuid c = en_uuid d" for c d
  proof -
    have "session_key c \<in> K" "session_key d \<in> K"
      using that(1,2) webrtc_ok_parts(2) [OF ok] by (auto simp: keys_of_def)
    moreover have "fst (session_key c) = fst (session_key d) \<or> fst (snd (session_key c)) = fst (snd (session_key d))"
      using that(3) by (simp add: session_key_def)
    ultimately show ?thesis using K unfolding unique_keys_def by blast
  qed
  have dist: "distinct (wb_sessions s)" and inj: "inj_on session_key (set (wb_sessions s))"
    using webrtc_ok_parts(1) [OF ok] by (simp_all add: keys_of_def distinct_map)
  have "inj_on en_ptr (set (wb_sessions s))" "inj_on en_uuid (set (wb_sessions s))"
    by (rule inj_onI, rule inj_onD [OF inj], rule same, simp_all)+
  then show ?thesis
    using dist by (simp add: entries_ok_def distinct_map)
qed

lemma kick_ok:
  assumes "webrtc_ok K s" "unique_keys K" "c \<in> set (wb_sessions s)"
  shows "webrtc_ok K (cancel_session (en_ptr c) (remove_session (en_ptr c) (ws_secret (en_data c)) s))"
proof -
  have "session_key c \<in> K" using assms(3) webrtc_ok_parts(2) [OF assms(1)] by (auto simp: keys_of_def)
  then show ?thesis using remove_ok [OF assms(1,2)] by (simp add: session_key_def)
qed

lemma webrtc_reach_ok:
  assumes "unique_keys K" "faithful env"
  shows "webrtc_reach K env s \<Longrightarrow> webrtc_ok K s"
proof (induction rule: webrtc_reach.induct)
  case start
  show ?case by (simp add: webrtc_ok_def webrtc_new_server_def keys_of_def)
next
  case (opens s c)
  obtain p u sec pa where c: "session_key c = (p, u, sec, pa)" by (cases "session_key c") auto
  have keys: "keys_of (add_session c s) = keys_of s @ [session_key c]"
    by (simp add: keys_of_def add_session_def)
  have other: "sec' \<noteq> sec" if k: "(q, u', sec', pa') \<in> set (keys_of s)" for q u' sec' pa'
  proof
    assume sec: "sec' = sec"
    have "(q, u', sec, pa') \<in> K" using webrtc_ok_parts(2) [OF opens.IH] k sec by blast
    then have "(q, u', sec, pa') = (p, u, sec, pa)"
      using unique_secret [OF assms(1)] opens.hyps(2) c by simp
    then show False using k opens.hyps(3) c sec by simp
  qed
  have by_secret: "wb_by_secret (add_session c s) = (wb_by_secret s)(sec \<mapsto> (p, pa))"
    using c by (simp add: add_session_def session_key_def)
  have table: "wb_by_secret (add_session c s) sec' = Some (q, pa') \<longleftrightarrow> (\<exists>u'. (q, u', sec', pa') \<in> set (keys_of (add_session c s)))"
    for sec' q pa'
  proof (cases "sec' = sec")
    case True
    then have "(q, u', sec', pa') \<notin> set (keys_of s)" for u' using other by blast
    then show ?thesis using True by (auto simp: keys by_secret c)
  next
    case False
    then show ?thesis using webrtc_ok_parts(3) [OF opens.IH, of sec' q pa'] by (auto simp: keys by_secret c)
  qed
  have "distinct (keys_of (add_session c s))" "set (keys_of (add_session c s)) \<subseteq> K"
    using webrtc_ok_parts(1,2) [OF opens.IH] opens.hyps(2,3) by (simp_all add: keys)
  then have "webrtc_ok K (add_session c s)"
    using table by (simp add: webrtc_ok_def)
  then show ?case using opens.IH by (simp add: newSession_def)
next
  case (closes s p u secret path)
  then show ?case using remove_ok [OF closes.IH assms(1)] by (auto simp: closeSession_def)
next
  case (deletes s secret path)
  show ?case
  proof (cases "session_of_secret secret path s")
    case (Inr p)
    then obtain u where "(p, u, secret, path) \<in> set (keys_of s)" using session_of_secret_iff [OF deletes.IH] by blast
    then have "(p, u, secret, path) \<in> K" using webrtc_ok_parts(2) [OF deletes.IH] by blast
    then show ?thesis using remove_ok [OF deletes.IH assms(1)] deletes.IH Inr by (simp add: deleteSession_def)
  qed (simp add: deleteSession_def deletes.IH)
next
  case (kicks s u)
  show ?case
  proof (cases "wb_running s \<and> find_uuid env u (wb_sessions s) \<noteq> None")
    case True
    then obtain c where c: "find_uuid env u (wb_sessions s) = Some c" by auto
    have "c \<in> set (wb_sessions s)" using find_uuid_Some [OF assms(2) c] by simp
    then show ?thesis using kick_ok [OF kicks.IH assms(1)] True c by (simp add: webrtc_APISessionsKick_def)
  next
    case False
    then have "snd (webrtc_APISessionsKick env u s) = s"
      by (auto simp: webrtc_APISessionsKick_def split: option.split)
    then show ?thesis using kicks.IH by simp
  qed
next
  case (informs s p i)
  have "keys_of (session_info p i s) = keys_of s"
    by (simp add: keys_of_def session_info_def session_key_def)
  then show ?case using informs.IH by (simp add: webrtc_ok_def session_info_def)
next
  case (stops s)
  then show ?case by (simp add: webrtc_ok_def webrtc_stop_def keys_of_def)
qed

lemma webrtc_conn_api:
  assumes "faithful env" "unique_keys K"
  shows "conn_api (webrtc_ok K) (webrtc_APISessionsList env) (webrtc_APISessionsGet env) (webrtc_APISessionsKick env) ErrSessionNotFound"
  by (rule conn_api_of_table
      [where tab = wb_sessions and run = wb_running and
        upd = "\<lambda>c s. cancel_session (en_ptr c) (remove_session (en_ptr c) (ws_secret (en_data c)) s)"])
    (use assms webrtc_entries kick_ok in \<open>auto simp: webrtc_APISessionsList_def webrtc_APISessionsGet_def
       webrtc_APISessionsKick_def cancel_session_def remove_session_def\<close>)

end
