(* ===== verification/ServerHLS.thy ===== *)
theory ServerHLS
  imports ServerTables
begin

text \<open>
  The HLS server (internal/servers/hls/server.go, muxer.go, http_server.go): the table of muxers, the life of a muxer, and the
  requests of HTTP.
\<close>

section \<open>The table of muxers\<close>

record muxer =
  mx_ptr :: nat
  mx_path :: string
  mx_remote :: string
  mx_query :: string

text \<open>A muxer without a remote address was created by the server itself. \<open>hs_closed\<close> are the calls of \<open>Close\<close>.\<close>

record hls_server =
  hs_muxers :: "string \<Rightarrow> muxer option"
  hs_AlwaysRemux :: bool
  hs_running :: bool
  hs_count :: nat
  hs_closed :: "nat list"

definition hls_Initialize :: "bool \<Rightarrow> hls_server" where
  "hls_Initialize always =
     \<lparr>hs_muxers = (\<lambda>_. None), hs_AlwaysRemux = always, hs_running = True, hs_count = 0, hs_closed = []\<rparr>"

definition ErrMuxerNotFound :: go_error where
  "ErrMuxerNotFound = Errorf ''muxer not found'' []"

definition waiting :: go_error where
  "waiting = Errorf ''muxer is waiting to be created'' []"

definition createMuxer :: "string \<Rightarrow> string \<Rightarrow> string \<Rightarrow> hls_server \<Rightarrow> muxer \<times> hls_server" where
  "createMuxer pathName remoteAddr query s =
     (let r = \<lparr>mx_ptr = hs_count s, mx_path = pathName, mx_remote = remoteAddr, mx_query = query\<rparr>
      in (r, s\<lparr>hs_muxers := (hs_muxers s)(pathName \<mapsto> r), hs_count := Suc (hs_count s)\<rparr>))"

definition hls_PathReady :: "string \<Rightarrow> bool \<Rightarrow> hls_server \<Rightarrow> hls_server" where
  "hls_PathReady nm sourceOnDemand s =
     (if hs_running s \<and> hs_AlwaysRemux s \<and> \<not> sourceOnDemand \<and> hs_muxers s nm = None
      then snd (createMuxer nm [] [] s) else s)"

definition hls_PathNotReady :: "string \<Rightarrow> hls_server \<Rightarrow> hls_server" where
  "hls_PathNotReady nm s =
     (case hs_muxers s nm of
        Some c \<Rightarrow>
          if hs_running s \<and> mx_remote c = [] then
            s\<lparr>hs_closed := hs_closed s @ [mx_ptr c], hs_muxers := (hs_muxers s)(nm := None)\<rparr>
          else s
      | None \<Rightarrow> s)"

definition hls_getMuxer :: "string \<Rightarrow> string \<Rightarrow> string \<Rightarrow> bool \<Rightarrow> hls_server \<Rightarrow> muxer result \<times> hls_server" where
  "hls_getMuxer path remoteAddr query sourceOnDemand s =
     (if \<not> hs_running s then (Inl terminated, s)
      else
        case hs_muxers s path of
          Some m \<Rightarrow> (Inr m, s)
        | None \<Rightarrow>
            if hs_AlwaysRemux s \<and> \<not> sourceOnDemand then (Inl waiting, s)
            else (let (m, s1) = createMuxer path remoteAddr query s in (Inr m, s1)))"

definition hls_closeMuxer :: "muxer \<Rightarrow> hls_server \<Rightarrow> hls_server" where
  "hls_closeMuxer c s =
     (case hs_muxers s (mx_path c) of
        Some c2 \<Rightarrow> if hs_running s \<and> mx_ptr c2 = mx_ptr c then s\<lparr>hs_muxers := (hs_muxers s)(mx_path c := None)\<rparr> else s
      | None \<Rightarrow> s)"

definition hls_stop :: "hls_server \<Rightarrow> hls_server" where
  "hls_stop s = s\<lparr>hs_running := False\<rparr>"

text \<open>The map as the list that an iteration gives is a parameter; so is the date of creation of each muxer.\<close>

definition hls_APIMuxersList ::
    "((string \<Rightarrow> muxer option) \<Rightarrow> muxer list) \<Rightarrow> (muxer list \<Rightarrow> muxer list) \<Rightarrow> hls_server \<Rightarrow> muxer list result" where
  "hls_APIMuxersList range_muxers sort_muxers s =
     (if hs_running s then Inr (sort_muxers (range_muxers (hs_muxers s))) else Inl terminated)"

definition hls_APIMuxersGet :: "string \<Rightarrow> hls_server \<Rightarrow> muxer result" where
  "hls_APIMuxersGet nm s =
     (if hs_running s then (case hs_muxers s nm of None \<Rightarrow> Inl ErrMuxerNotFound | Some m \<Rightarrow> Inr m) else Inl terminated)"

datatype hls_op =
    PathReady string bool
  | PathNotReady string
  | GetMuxer string string string bool
  | CloseMuxer muxer
  | StopHLS

definition hls_op :: "hls_op \<Rightarrow> hls_server \<Rightarrow> hls_server" where
  "hls_op x s =
     (case x of
        PathReady nm od \<Rightarrow> hls_PathReady nm od s
      | PathNotReady nm \<Rightarrow> hls_PathNotReady nm s
      | GetMuxer nm ra q od \<Rightarrow> snd (hls_getMuxer nm ra q od s)
      | CloseMuxer m \<Rightarrow> hls_closeMuxer m s
      | StopHLS \<Rightarrow> hls_stop s)"

section \<open>The life of a muxer\<close>

definition closeCheckPeriod :: duration where
  "closeCheckPeriod = second"

definition recreatePause :: duration where
  "recreatePause = 10 * second"

text \<open>
  The loop of a muxer: the instance and which timers are armed. An instance that is created or closed is an effect; each is
  numbered. \<open>init\<close> is the outcome of the creation of the instance.
\<close>

datatype muxer_effect = InstanceCreated nat | InstanceClosed nat | ReaderRemoved | MuxerClosed

record muxer_life =
  ml_instance :: "nat option"
  ml_recreate :: bool
  ml_activity :: bool
  ml_last :: instant
  ml_count :: nat
  ml_out :: "muxer_effect list"

definition ErrNoSupportedCodecs :: go_error where
  "ErrNoSupportedCodecs =
     Errorf ''the stream doesn't contain any supported codec, which are currently AV1, VP9, H265, H264, Opus, MPEG-4 Audio'' []"

text \<open>The creation of an instance: on an error nothing has been left open by it.\<close>

definition new_instance_of :: "muxer_life \<Rightarrow> muxer_life" where
  "new_instance_of l =
     l\<lparr>ml_instance := Some (ml_count l), ml_count := Suc (ml_count l), ml_out := ml_out l @ [InstanceCreated (ml_count l)]\<rparr>"

definition close_instance :: "muxer_life \<Rightarrow> muxer_life" where
  "close_instance l =
     (case ml_instance l of
        None \<Rightarrow> l
      | Some k \<Rightarrow> l\<lparr>ml_instance := None, ml_out := ml_out l @ [InstanceClosed k]\<rparr>)"

datatype muxer_event =
    GetInstance instant
  | InstanceError go_error
  | RecreateTimer "go_error option"
  | ActivityTimer instant
  | MuxerDone

text \<open>One turn: the error that ends the loop, or the state; a request is answered with the instance, which may be nil.\<close>

definition muxer_turn :: "string \<Rightarrow> duration \<Rightarrow> muxer_event \<Rightarrow> muxer_life \<Rightarrow> go_error option \<times> muxer_life" where
  "muxer_turn remoteAddr closeAfter ev l =
     (case ev of
        GetInstance now \<Rightarrow> (None, l\<lparr>ml_last := now\<rparr>)
      | InstanceError err \<Rightarrow>
          (if ml_instance l = None then (None, l)
           else if remoteAddr \<noteq> [] then (Some err, l)
           else (None, (close_instance l)\<lparr>ml_recreate := True\<rparr>))
      | RecreateTimer init \<Rightarrow>
          (if \<not> ml_recreate l then (None, l)
           else
             case init of
               Some err \<Rightarrow> (None, l\<lparr>ml_instance := None\<rparr>)
             | None \<Rightarrow> (None, (new_instance_of l)\<lparr>ml_recreate := False\<rparr>))
      | ActivityTimer now \<Rightarrow>
          (if \<not> ml_activity l then (None, l)
           else if closeAfter \<le> now - ml_last l then (Some (Errorf ''not used anymore'' []), l)
           else (None, l))
      | MuxerDone \<Rightarrow> (Some terminated, l))"

fun muxer_loop :: "string \<Rightarrow> duration \<Rightarrow> muxer_event list \<Rightarrow> muxer_life \<Rightarrow> go_error option \<times> muxer_life" where
  "muxer_loop remoteAddr closeAfter [] l = (None, l)"
| "muxer_loop remoteAddr closeAfter (ev # evs) l =
     (case muxer_turn remoteAddr closeAfter ev l of
        (Some err, l1) \<Rightarrow> (Some err, l1)
      | (None, l1) \<Rightarrow> muxer_loop remoteAddr closeAfter evs l1)"

text \<open>The deferred calls of \<open>runInner\<close>, and the last call of \<open>run\<close>.\<close>

definition leave_muxer :: "muxer_life \<Rightarrow> muxer_life" where
  "leave_muxer l = (close_instance l)\<lparr>ml_out := ml_out (close_instance l) @ [ReaderRemoved]\<rparr>"

definition finish_muxer :: "muxer_life \<Rightarrow> muxer_life" where
  "finish_muxer l = l\<lparr>ml_out := ml_out l @ [MuxerClosed]\<rparr>"

definition new_muxer :: "string \<Rightarrow> instant \<Rightarrow> muxer_life" where
  "new_muxer remoteAddr now =
     \<lparr>ml_instance = None, ml_recreate = False, ml_activity = (remoteAddr \<noteq> []), ml_last = now, ml_count = 0, ml_out = []\<rparr>"

definition run_muxer :: "string \<Rightarrow> duration \<Rightarrow> muxer_event list \<Rightarrow> muxer_life \<Rightarrow> go_error option \<times> muxer_life" where
  "run_muxer remoteAddr closeAfter evs l =
     (case muxer_loop remoteAddr closeAfter evs l of
        (Some err, l1) \<Rightarrow> (Some err, finish_muxer (leave_muxer l1))
      | (None, l1) \<Rightarrow> (None, l1))"

text \<open>\<open>run\<close>, from the outcome of \<open>AddReader\<close> and of the first instance to the end, when there is one.\<close>

definition muxer_run ::
    "string \<Rightarrow> duration \<Rightarrow> instant \<Rightarrow> go_error option \<Rightarrow> go_error option \<Rightarrow> muxer_event list \<Rightarrow>
     go_error option \<times> muxer_life" where
  "muxer_run remoteAddr closeAfter now add_reader init evs =
     (let l0 = new_muxer remoteAddr now in
      case add_reader of
        Some err \<Rightarrow> (Some err, finish_muxer l0)
      | None \<Rightarrow>
          (case init of
             None \<Rightarrow> run_muxer remoteAddr closeAfter evs (new_instance_of l0)
           | Some err \<Rightarrow>
               if remoteAddr \<noteq> [] \<or> err = ErrNoSupportedCodecs then (Some err, finish_muxer (leave_muxer l0))
               else run_muxer remoteAddr closeAfter evs (l0\<lparr>ml_recreate := True\<rparr>)))"

section \<open>The requests of HTTP\<close>

definition HasSuffix :: "string \<Rightarrow> string \<Rightarrow> bool" where
  "HasSuffix s suffix = HasPrefix (rev s) (rev suffix)"

definition TrimSuffix :: "string \<Rightarrow> string \<Rightarrow> string" where
  "TrimSuffix s suffix = (if HasSuffix s suffix then take (length s - length suffix) s else s)"

text \<open>\<open>Clean\<close>, \<open>Dir\<close> and \<open>Base\<close> of the package path: the elements are handled from the left, with the ones kept before as a stack.\<close>

definition clean_step :: "bool \<Rightarrow> string \<Rightarrow> string list \<Rightarrow> string list" where
  "clean_step rooted e stack =
     (if e = [] \<or> e = ''.'' then stack
      else if e = ''..'' then
        (case stack of
           [] \<Rightarrow> if rooted then [] else [e]
         | e1 # below \<Rightarrow> if e1 = ''..'' then e # stack else below)
      else e # stack)"

fun join_slash :: "string list \<Rightarrow> string" where
  "join_slash [] = []"
| "join_slash [e] = e"
| "join_slash (e # es) = e @ slash # join_slash es"

definition path_Clean :: "string \<Rightarrow> string" where
  "path_Clean p =
     (if p = [] then ''.''
      else
        let rooted = (hd p = slash);
            out = (if rooted then [slash] else []) @ join_slash (rev (fold (clean_step rooted) (Split p slash) []))
        in if out = [] then ''.'' else out)"

definition last_element :: "string \<Rightarrow> string" where
  "last_element p = rev (takeWhile (\<lambda>c. c \<noteq> slash) (rev p))"

definition path_Dir :: "string \<Rightarrow> string" where
  "path_Dir p = path_Clean (take (length p - length (last_element p)) p)"

definition path_Base :: "string \<Rightarrow> string" where
  "path_Base p =
     (if p = [] then ''.''
      else
        let q = rev (dropWhile (\<lambda>c. c = slash) (rev p)) in
        if last_element q = [] then [slash] else last_element q)"

definition mergePathAndQuery :: "string \<Rightarrow> string \<Rightarrow> string" where
  "mergePathAndQuery p rawQuery = p @ (if rawQuery \<noteq> [] then CHR ''?'' # rawQuery else [])"

text \<open>What a URL asks for; \<open>pa\<close> is the path without its first character.\<close>

datatype hls_target = TScript | TNothing | TRedirect | TDir string string

definition hls_target :: "string \<Rightarrow> hls_target" where
  "hls_target pa =
     (let decide = (\<lambda>dir fname.
            let dir' = TrimSuffix dir [slash] in if dir' = [] then TNothing else TDir dir' fname) in
      if HasSuffix pa ''/hls.min.js'' then TScript
      else if pa = [] \<or> pa = ''favicon.ico'' \<or> HasSuffix pa ''/hls.min.js.map'' then TNothing
      else if HasSuffix pa ''.m3u8'' \<or> HasSuffix pa ''.ts'' \<or> HasSuffix pa ''.mp4'' \<or> HasSuffix pa ''.mp'' then
        decide (path_Dir pa) (if HasSuffix (path_Base pa) ''.mp'' then path_Base pa @ ''4'' else path_Base pa)
      else if \<not> HasSuffix pa [slash] then TRedirect
      else decide pa [])"

text \<open>What the path manager says about a reader of a path: the error of the authentication, another one, or the setting.\<close>

datatype access_outcome = AskCredentials | NotAuthenticated | NoPath | PathFound bool

datatype hls_reply =
    HlsNoReply
  | HlsScript
  | HlsMoved string
  | HlsUnauthorized bool
  | HlsNotFound
  | HlsIndex
  | HlsHandled muxer nat string

text \<open>\<open>instance_of\<close>: the instance that the muxer answers with, or nil.\<close>

definition hls_onRequest ::
    "(string \<Rightarrow> access_outcome) \<Rightarrow> (muxer \<Rightarrow> nat option) \<Rightarrow> string \<Rightarrow> string \<Rightarrow> string \<Rightarrow> string \<Rightarrow> hls_server \<Rightarrow>
     hls_reply \<times> hls_server" where
  "hls_onRequest access instance_of httpMethod url rawQuery remote s =
     (if httpMethod \<noteq> ''GET'' then (HlsNoReply, s)
      else
        case hls_target (tl url) of
          TScript \<Rightarrow> (HlsScript, s)
        | TNothing \<Rightarrow> (HlsNoReply, s)
        | TRedirect \<Rightarrow> (HlsMoved (mergePathAndQuery (url @ [slash]) rawQuery), s)
        | TDir dir fname \<Rightarrow>
            (case access dir of
               AskCredentials \<Rightarrow> (HlsUnauthorized True, s)
             | NotAuthenticated \<Rightarrow> (HlsUnauthorized False, s)
             | NoPath \<Rightarrow> (HlsNotFound, s)
             | PathFound sourceOnDemand \<Rightarrow>
                 if fname = [] then (HlsIndex, s)
                 else
                   (case hls_getMuxer dir remote rawQuery sourceOnDemand s of
                      (Inl e, s1) \<Rightarrow> (HlsNotFound, s1)
                    | (Inr m, s1) \<Rightarrow>
                        (case instance_of m of None \<Rightarrow> (HlsNotFound, s1) | Some k \<Rightarrow> (HlsHandled m k fname, s1)))))"

section \<open>The table\<close>

text \<open>
  A muxer is found under the name of its path, its pointer is one of those given out and of no other muxer, and none of the
  muxers that the server has closed is in the table.
\<close>

definition hls_ok :: "hls_server \<Rightarrow> bool" where
  "hls_ok s \<longleftrightarrow>
     (\<forall>nm m. hs_muxers s nm = Some m \<longrightarrow> mx_path m = nm \<and> mx_ptr m < hs_count s) \<and>
     (\<forall>nm m nm' m'. hs_muxers s nm = Some m \<longrightarrow> hs_muxers s nm' = Some m' \<longrightarrow> mx_ptr m = mx_ptr m' \<longrightarrow> nm = nm') \<and>
     (\<forall>p \<in> set (hs_closed s). p < hs_count s \<and> (\<forall>nm m. hs_muxers s nm = Some m \<longrightarrow> mx_ptr m \<noteq> p))"

lemma hls_okD:
  assumes "hls_ok s"
  shows "hs_muxers s nm = Some m \<Longrightarrow> mx_path m = nm" "hs_muxers s nm = Some m \<Longrightarrow> mx_ptr m < hs_count s"
    "hs_muxers s nm = Some m \<Longrightarrow> hs_muxers s nm' = Some m' \<Longrightarrow> mx_ptr m = mx_ptr m' \<Longrightarrow> nm = nm'"
    "p \<in> set (hs_closed s) \<Longrightarrow> p < hs_count s" "p \<in> set (hs_closed s) \<Longrightarrow> hs_muxers s nm = Some m \<Longrightarrow> mx_ptr m \<noteq> p"
  using assms unfolding hls_ok_def by blast+

lemma create_ok:
  assumes "hls_ok s" "hs_muxers s nm = None"
  shows "hls_ok (snd (createMuxer nm ra q s))"
proof -
  note d = hls_okD [OF assms(1)]
  have "mx_ptr m \<noteq> hs_count s" if "hs_muxers s nm' = Some m" for nm' m using d(2) [OF that] by simp
  moreover have "p \<noteq> hs_count s" if "p \<in> set (hs_closed s)" for p using d(4) [OF that] by simp
  ultimately show ?thesis
    unfolding hls_ok_def using d by (auto simp: createMuxer_def Let_def less_Suc_eq split: if_splits) blast
qed

lemma forget_ok:
  assumes "hls_ok s"
  shows "hls_ok (s\<lparr>hs_muxers := (hs_muxers s)(nm := None)\<rparr>)"
  using assms unfolding hls_ok_def by auto

lemma close_ok:
  assumes "hls_ok s" "hs_muxers s nm = Some m"
  shows "hls_ok (s\<lparr>hs_closed := hs_closed s @ [mx_ptr m], hs_muxers := (hs_muxers s)(nm := None)\<rparr>)"
proof -
  note d = hls_okD [OF assms(1)]
  have "mx_ptr m' \<noteq> mx_ptr m" if "hs_muxers s nm' = Some m'" "nm' \<noteq> nm" for nm' m'
    using d(3) [OF that(1) assms(2)] that(2) by blast
  then show ?thesis
    unfolding hls_ok_def using d d(2) [OF assms(2)] by auto
qed

lemma hls_op_ok:
  assumes "hls_ok s"
  shows "hls_ok (hls_op x s)"
proof (cases x)
  case (PathReady nm od)
  then show ?thesis using assms by (simp add: hls_op_def hls_PathReady_def create_ok)
next
  case (PathNotReady nm)
  then show ?thesis
    using assms close_ok [OF assms, of nm] by (simp add: hls_op_def hls_PathNotReady_def split: option.split)
next
  case (GetMuxer nm ra q od)
  then show ?thesis
    using assms create_ok [OF assms, of nm ra q]
    by (simp add: hls_op_def hls_getMuxer_def case_prod_beta Let_def split: option.split)
next
  case (CloseMuxer m)
  then show ?thesis
    using assms forget_ok [OF assms] by (simp add: hls_op_def hls_closeMuxer_def split: option.split)
next
  case StopHLS
  then show ?thesis using assms by (simp add: hls_op_def hls_stop_def hls_ok_def)
qed

lemma hls_ops_ok: "hls_ok (fold hls_op xs (hls_Initialize always))"
proof -
  have step: "hls_ok s \<Longrightarrow> hls_ok (fold hls_op xs s)" for s
    by (induction xs arbitrary: s) (simp_all add: hls_op_ok)
  have "hls_ok (hls_Initialize always)" by (simp add: hls_ok_def hls_Initialize_def)
  then show ?thesis by (rule step)
qed

text \<open>The late end of an old muxer does not take away the new muxer of its path.\<close>

lemma stale_close:
  assumes "hls_ok s" "mx_ptr m \<in> set (hs_closed s)"
  shows "hls_op (CloseMuxer m) s = s"
proof (cases "hs_muxers s (mx_path m)")
  case (Some c)
  then show ?thesis using hls_okD(5) [OF assms Some] by (simp add: hls_op_def hls_closeMuxer_def)
qed (simp add: hls_op_def hls_closeMuxer_def)

section \<open>Instances\<close>

text \<open>The instances that the effects leave open, or nothing if one is opened while another is open or one is closed that is not open.\<close>

fun open_instance :: "muxer_effect list \<Rightarrow> nat option \<Rightarrow> nat option option" where
  "open_instance [] cur = Some cur"
| "open_instance (InstanceCreated k # es) cur = (if cur = None then open_instance es (Some k) else None)"
| "open_instance (InstanceClosed k # es) cur = (if cur = Some k then open_instance es None else None)"
| "open_instance (_ # es) cur = open_instance es cur"

lemma open_instance_append:
  "open_instance (es @ fs) cur = (case open_instance es cur of None \<Rightarrow> None | Some c \<Rightarrow> open_instance fs c)"
  by (induction es cur rule: open_instance.induct) auto

definition life_ok :: "muxer_life \<Rightarrow> bool" where
  "life_ok l \<longleftrightarrow> open_instance (ml_out l) None = Some (ml_instance l) \<and> (ml_recreate l \<longrightarrow> ml_instance l = None)"

lemma life_new: "life_ok l \<Longrightarrow> ml_instance l = None \<Longrightarrow> life_ok ((new_instance_of l)\<lparr>ml_recreate := False\<rparr>)"
  by (simp add: life_ok_def new_instance_of_def open_instance_append)

lemma life_close: "life_ok l \<Longrightarrow> life_ok ((close_instance l)\<lparr>ml_recreate := b\<rparr>)" if "ml_instance l \<noteq> None \<or> b = ml_recreate l"
  using that by (auto simp: life_ok_def close_instance_def open_instance_append split: option.split)

lemma turn_ok: "life_ok l \<Longrightarrow> life_ok (snd (muxer_turn ra ca ev l))"
proof (cases ev)
  case (InstanceError err)
  then show "life_ok l \<Longrightarrow> ?thesis" by (auto simp: muxer_turn_def intro: life_close)
next
  case (RecreateTimer init)
  have "life_ok l \<Longrightarrow> ml_recreate l \<Longrightarrow> l\<lparr>ml_instance := None\<rparr> = l" by (simp add: life_ok_def)
  then show "life_ok l \<Longrightarrow> ?thesis"
    using RecreateTimer life_new [of l] by (auto simp: muxer_turn_def life_ok_def split: option.split)
qed (auto simp: muxer_turn_def life_ok_def)

lemma loop_ok: "life_ok l \<Longrightarrow> life_ok (snd (muxer_loop ra ca evs l))"
proof (induction evs arbitrary: l)
  case (Cons ev evs)
  obtain r l1 where t: "muxer_turn ra ca ev l = (r, l1)" by (cases "muxer_turn ra ca ev l")
  then have "life_ok l1" using turn_ok [OF Cons.prems, of ra ca ev] by simp
  then show ?case using Cons.IH t by (cases r) auto
qed simp

end
