(* ===== verification/ServerProperties.thy ===== *)
theory ServerProperties
  imports ServerWebRTC ServerHLS
begin

text \<open>The properties of the tables of the servers, with their witnesses.\<close>

section \<open>Kicks\<close>

text \<open>What a kick does, for a server that keeps the contract.\<close>

lemma kick_effect:
  assumes api: "conn_api ok list_conns get_conn kick_conn nf" and ok: "ok s" and kick: "kick_conn u s = (Inr (), s')"
    and listed: "list_conns s = Inr xs"
  shows "get_conn u s' = Inl nf \<and> kick_conn u s' = (Inl nf, s') \<and>
    (\<forall>x \<in> set xs. it_ID x \<noteq> u \<longrightarrow> get_conn (it_ID x) s' = Inr x)"
  using conn_api.kicked [OF api ok listed kick] by blast

text \<open>
  What the API kicks is gone: in each of the servers that can be asked, after a kick that succeeds the connection or session is
  neither found nor kicked again, and every other one that was listed is still found, with the same item.
\<close>

theorem kick_removes:
  assumes "faithful env" "faithful wenv" "unique_keys K"
  shows "(entries_ok (rt_conns r) \<and> rtmp_APIConnsKick env u r = (Inr (), r') \<and> rtmp_APIConnsList env r = Inr xs \<longrightarrow>
            rtmp_APIConnsGet env u r' = Inl ErrConnNotFound \<and> rtmp_APIConnsKick env u r' = (Inl ErrConnNotFound, r') \<and>
            (\<forall>x \<in> set xs. it_ID x \<noteq> u \<longrightarrow> rtmp_APIConnsGet env (it_ID x) r' = Inr x)) \<and>
         (entries_ok (sr_conns t) \<and> srt_APIConnsKick env u t = (Inr (), t') \<and> srt_APIConnsList env t = Inr xs \<longrightarrow>
            srt_APIConnsGet env u t' = Inl ErrConnNotFound \<and> srt_APIConnsKick env u t' = (Inl ErrConnNotFound, t') \<and>
            (\<forall>x \<in> set xs. it_ID x \<noteq> u \<longrightarrow> srt_APIConnsGet env (it_ID x) t' = Inr x)) \<and>
         (entries_ok (rp_sessions p) \<and> rtsp_APISessionsKick env u p = (Inr (), p') \<and> rtsp_APISessionsList env p = Inr xs \<longrightarrow>
            rtsp_APISessionsGet env u p' = Inl ErrSessionNotFound \<and> rtsp_APISessionsKick env u p' = (Inl ErrSessionNotFound, p') \<and>
            (\<forall>x \<in> set xs. it_ID x \<noteq> u \<longrightarrow> rtsp_APISessionsGet env (it_ID x) p' = Inr x)) \<and>
         (webrtc_ok K w \<and> webrtc_APISessionsKick wenv u w = (Inr (), w') \<and> webrtc_APISessionsList wenv w = Inr ys \<longrightarrow>
            webrtc_APISessionsGet wenv u w' = Inl ErrSessionNotFound \<and>
            webrtc_APISessionsKick wenv u w' = (Inl ErrSessionNotFound, w') \<and>
            (\<forall>y \<in> set ys. it_ID y \<noteq> u \<longrightarrow> webrtc_APISessionsGet wenv (it_ID y) w' = Inr y))"
proof (intro conjI [OF _ conjI [OF _ conjI]])
qed ((intro impI, elim conjE,
    (rule kick_effect [OF rtmp_conn_api [OF assms(1)]] kick_effect [OF srt_conn_api [OF assms(1)]]
      kick_effect [OF rtsp_conn_api [OF assms(1)]] kick_effect [OF webrtc_conn_api [OF assms(2,3)]]); assumption)+)

definition sample_entry :: "nat \<Rightarrow> nat entry" where
  "sample_entry n = \<lparr>en_ptr = n, en_uuid = replicate 16 (of_nat n), en_created = int n, en_data = 7\<rparr>"

lemma sample_entries: "entries_ok [sample_entry 1, sample_entry 2]"
  by (simp add: entries_ok_def sample_entry_def)

lemma kick_removes_witness:
  "\<exists>r'. rtmp_APIConnsKick sorted_env (en_uuid (sample_entry 1)) (rtmp_Initialize\<lparr>rt_conns := [sample_entry 1, sample_entry 2]\<rparr>) =
       (Inr (), r') \<and>
     rtmp_APIConnsGet sorted_env (en_uuid (sample_entry 1)) r' = Inl ErrConnNotFound"
proof -
  let ?r = "rtmp_Initialize\<lparr>rt_conns := [sample_entry 1, sample_entry 2]\<rparr>"
  have u: "unique_keys {}" by (simp add: unique_keys_def)
  obtain r' where kick: "rtmp_APIConnsKick sorted_env (en_uuid (sample_entry 1)) ?r = (Inr (), r')"
    by (simp add: rtmp_APIConnsKick_def rtmp_Initialize_def find_uuid_def sorted_env_def)
  have listed: "rtmp_APIConnsList sorted_env ?r = Inr (items_of sorted_env [sample_entry 1, sample_entry 2])"
    by (simp add: rtmp_APIConnsList_def rtmp_Initialize_def)
  have ok: "entries_ok (rt_conns ?r)" using sample_entries by simp
  show ?thesis
    using kick_removes [OF faithful_sorted_env faithful_sorted_env u] kick listed ok by blast
qed

section \<open>RTSP sessions\<close>

text \<open>
  The end of an RTSP session is handled once: however the ends that the library reports and the kicks of the API are ordered, each
  session that was opened is either still in the table or its \<open>onClose\<close> has been called, exactly once, and a
  session whose end was reported after it was opened is no longer in the table.
\<close>

theorem rtsp_session_closed_once:
  assumes "faithful env" "distinct (opened xs)"
  shows "let s = fold (rtsp_op env) xs (rtsp_Initialize :: ('c, 'd) rtsp_server) in
    distinct (rp_session_closed s) \<and>
    (\<forall>p \<in> set (opened xs). (p \<in> en_ptr ` set (rp_sessions s)) \<noteq> (p \<in> set (rp_session_closed s))) \<and>
    set (rp_session_closed s) \<subseteq> set (opened xs)"
proof -
  define s :: "('c, 'd) rtsp_server" where "s = fold (rtsp_op env) xs rtsp_Initialize"
  have d: "distinct (map en_ptr (rp_sessions (rtsp_Initialize :: ('c, 'd) rtsp_server)) @
      rp_session_closed (rtsp_Initialize :: ('c, 'd) rtsp_server) @ opened xs)"
    using assms(2) by (simp add: rtsp_Initialize_def)
  have "distinct (map en_ptr (rp_sessions s) @ rp_session_closed s) \<and>
      set (map en_ptr (rp_sessions s) @ rp_session_closed s) = set (opened xs)"
    using rtsp_sessions_once [OF assms(1) d s_def] by (simp add: rtsp_Initialize_def)
  then have "distinct (rp_session_closed s) \<and>
    (\<forall>p \<in> set (opened xs). (p \<in> en_ptr ` set (rp_sessions s)) \<noteq> (p \<in> set (rp_session_closed s))) \<and>
    set (rp_session_closed s) \<subseteq> set (opened xs)" by auto
  then show ?thesis unfolding s_def Let_def .
qed

lemma rtsp_session_closed_once_witness:
  "rp_session_closed (fold (rtsp_op sorted_env)
      [SessionOpened (sample_entry 1), SessionKicked (en_uuid (sample_entry 1)), SessionClosed 1] rtsp_Initialize
        :: (nat, nat) rtsp_server) = [1] \<and>
   distinct (rp_session_closed (fold (rtsp_op sorted_env)
      [SessionOpened (sample_entry 1), SessionKicked (en_uuid (sample_entry 1)), SessionClosed 1] rtsp_Initialize
        :: (nat, nat) rtsp_server))"
  using rtsp_session_closed_once [OF faithful_sorted_env, of
      "[SessionOpened (sample_entry 1), SessionKicked (en_uuid (sample_entry 1)), SessionClosed 1]"]
  by (simp add: Let_def rtsp_op_def rtsp_OnSessionOpen_def rtsp_OnSessionClose_def rtsp_APISessionsKick_def find_uuid_def
      sorted_env_def rtsp_Initialize_def drop_entry_def sample_entry_def)

section \<open>WebRTC sessions\<close>

text \<open>
  C34. The secret of a WebRTC session gives access to that session only: in every state that a server comes through, when the pointers,
  identifiers and secrets of its sessions differ, a request with a secret and a path reaches the session that has both, if it
  is in the table, and no other; so the secret of a session that has been kicked, deleted or closed reaches nothing.
\<close>

theorem webrtc_secret_access:
  assumes "unique_keys K" "faithful env" "webrtc_reach K env s"
  shows "(addSessionCandidates secret path s = Inr p \<longleftrightarrow>
            wb_running s \<and> (\<exists>c \<in> set (wb_sessions s). en_ptr c = p \<and> ws_secret (en_data c) = secret \<and> ws_path (en_data c) = path)) \<and>
         (\<forall>c \<in> set (wb_sessions s).
            addSessionCandidates (ws_secret (en_data c)) q (snd (webrtc_APISessionsKick env (en_uuid c) s)) \<in>
              {Inl ErrSessionNotFound, Inl terminated})"
proof -
  have ok: "webrtc_ok K s" by (rule webrtc_reach_ok [OF assms])
  have keys: "(\<exists>u. (p, u, secret, path) \<in> set (keys_of s)) \<longleftrightarrow>
      (\<exists>c \<in> set (wb_sessions s). en_ptr c = p \<and> ws_secret (en_data c) = secret \<and> ws_path (en_data c) = path)" for secret path p
    by (auto simp: keys_of_def session_key_def)
  have "addSessionCandidates (ws_secret (en_data c)) q (snd (webrtc_APISessionsKick env (en_uuid c) s)) \<in>
      {Inl ErrSessionNotFound, Inl terminated}" if c: "c \<in> set (wb_sessions s)" for c
  proof (cases "wb_running s")
    case True
    have "find_uuid env (en_uuid c) (wb_sessions s) = Some c"
      using find_uuid_iff [OF assms(2) webrtc_entries [OF ok assms(1)]] c by simp
    then show ?thesis
      using True by (simp add: webrtc_APISessionsKick_def addSessionCandidates_def session_of_secret_def cancel_session_def
          remove_session_def)
  next
    case False
    then show ?thesis by (simp add: webrtc_APISessionsKick_def addSessionCandidates_def)
  qed
  then show ?thesis
    using session_of_secret_iff [OF ok, of secret path p] keys [of p secret path] by (auto simp: addSessionCandidates_def)
qed

definition sample_session :: "nat webrtc_data entry" where
  "sample_session =
     \<lparr>en_ptr = 1, en_uuid = replicate 16 1, en_created = 5,
      en_data = \<lparr>ws_secret = replicate 16 9, ws_path = ''cam'', ws_info = 0\<rparr>\<rparr>"

lemma webrtc_secret_access_witness:
  "addSessionCandidates (replicate 16 9) ''cam'' (snd (newSession sample_session webrtc_new_server)) = Inr 1 \<and>
   addSessionCandidates (replicate 16 9) ''cam''
     (snd (webrtc_APISessionsKick sorted_env (replicate 16 1) (snd (newSession sample_session webrtc_new_server)))) \<in>
     {Inl ErrSessionNotFound, Inl terminated}"
proof -
  have K: "unique_keys {session_key sample_session}" by (simp add: unique_keys_def)
  have "webrtc_reach {session_key sample_session} sorted_env (snd (newSession sample_session webrtc_new_server))"
    by (rule webrtc_reach.opens [OF webrtc_reach.start]) (simp_all add: keys_of_def webrtc_new_server_def)
  note access = webrtc_secret_access [OF K faithful_sorted_env this]
  have mem: "sample_session \<in> set (wb_sessions (snd (newSession sample_session webrtc_new_server)))"
    "wb_running (snd (newSession sample_session webrtc_new_server))"
    by (simp_all add: newSession_def webrtc_new_server_def add_session_def)
  have fields: "en_ptr sample_session = 1" "ws_secret (en_data sample_session) = replicate 16 9"
    "ws_path (en_data sample_session) = ''cam''" "en_uuid sample_session = replicate 16 1"
    by (simp_all add: sample_session_def)
  show ?thesis
    using access [of "replicate 16 9" "''cam''" 1 "''cam''"] mem fields by metis
qed

section \<open>TURN credentials\<close>

text \<open>
  The user names of TURN are drawn fairly and within bounds: a draw below \<open>n\<close> is below \<open>n\<close>, of the draws that are accepted each
  remainder has the same number, and a user name has twenty characters of the set, the only error being that
  of the generator of random bytes: the index into the set is never out of range.
\<close>

theorem turn_user_fair:
  assumes "0 < n" "unat n < 2 ^ 63"
  shows "(randInt63n n rand = Inr (v, rest) \<longrightarrow> unat v < unat n) \<and>
    (\<forall>r < unat n. card {w. w \<le> unat (rand_max n) \<and> w mod unat n = r} = 2 ^ 63 div unat n) \<and>
    (case randomTurnUser rand of
       Inl e \<Rightarrow> e = External 0
     | Inr (s, rest) \<Rightarrow> length s = 20 \<and> set s \<subseteq> set turn_charset)"
  using randInt63n_below [OF assms(1)] fair_draws [OF assms] random_chars_ok [of 20 rand]
  by (simp add: randomTurnUser_def)

lemma turn_user_fair_witness:
  "card {w. w \<le> unat (rand_max 36) \<and> w mod unat (36 :: u64) = 35} = 2 ^ 63 div unat (36 :: u64) \<and>
   randInt63n 36 [0, 0, 0, 0, 0, 0, 0, 77] = Inr (5, [])"
proof -
  have "randInt63n 36 [0, 0, 0, 0, 0, 0, 0, 77] = Inr (5, [])"
    by (simp add: randInt63n_def draw_below.simps randInt63_def be64_def rand_max_def)
  then show ?thesis using turn_user_fair [of 36] by simp
qed

section \<open>HLS muxers\<close>

text \<open>
  The table of HLS muxers: after any sequence of events a muxer is found under the name of its own path only, no pointer
  is given out twice, no muxer that the server has closed is still in the table, and the end of such a muxer, which
  comes later, leaves the muxer that has taken its place.
\<close>

theorem hls_table:
  "let s = fold hls_op xs (hls_Initialize always) in
     (\<forall>nm m. hs_muxers s nm = Some m \<longrightarrow> mx_path m = nm \<and> mx_ptr m \<notin> set (hs_closed s)) \<and>
     (\<forall>nm m nm' m'. hs_muxers s nm = Some m \<longrightarrow> hs_muxers s nm' = Some m' \<longrightarrow> mx_ptr m = mx_ptr m' \<longrightarrow> nm = nm') \<and>
     (\<forall>m. mx_ptr m \<in> set (hs_closed s) \<longrightarrow> hls_op (CloseMuxer m) s = s)"
proof -
  define s where "s = fold hls_op xs (hls_Initialize always)"
  have ok: "hls_ok s" unfolding s_def by (rule hls_ops_ok)
  have "(\<forall>nm m. hs_muxers s nm = Some m \<longrightarrow> mx_path m = nm \<and> mx_ptr m \<notin> set (hs_closed s)) \<and>
     (\<forall>nm m nm' m'. hs_muxers s nm = Some m \<longrightarrow> hs_muxers s nm' = Some m' \<longrightarrow> mx_ptr m = mx_ptr m' \<longrightarrow> nm = nm') \<and>
     (\<forall>m. mx_ptr m \<in> set (hs_closed s) \<longrightarrow> hls_op (CloseMuxer m) s = s)"
    using hls_okD [OF ok] stale_close [OF ok] by blast
  then show ?thesis unfolding s_def Let_def .
qed

lemma hls_table_witness:
  "let s = fold hls_op [PathReady ''cam'' False, PathNotReady ''cam'', PathReady ''cam'' False] (hls_Initialize True) in
     hs_closed s = [0] \<and> map_option mx_ptr (hs_muxers s ''cam'') = Some 1 \<and>
     hls_op (CloseMuxer \<lparr>mx_ptr = 0, mx_path = ''cam'', mx_remote = [], mx_query = []\<rparr>) s = s"
proof -
  let ?xs = "[PathReady ''cam'' False, PathNotReady ''cam'', PathReady ''cam'' False]"
  have c: "hs_closed (fold hls_op ?xs (hls_Initialize True)) = [0]"
    "map_option mx_ptr (hs_muxers (fold hls_op ?xs (hls_Initialize True)) ''cam'') = Some 1"
    by (simp_all add: hls_op_def hls_PathReady_def hls_PathNotReady_def createMuxer_def hls_Initialize_def Let_def)
  have "mx_ptr m \<in> set (hs_closed (fold hls_op ?xs (hls_Initialize True))) \<Longrightarrow>
      hls_op (CloseMuxer m) (fold hls_op ?xs (hls_Initialize True)) = fold hls_op ?xs (hls_Initialize True)" for m
    using hls_table [of ?xs True] unfolding Let_def by blast
  then show ?thesis using c unfolding Let_def by simp
qed

lemma loop_instances:
  assumes "ra \<noteq> []" "\<not> ml_recreate l"
  shows "ml_count (snd (muxer_loop ra ca evs l)) = ml_count l"
  using assms
proof (induction evs arbitrary: l)
  case (Cons ev evs)
  obtain r l1 where t: "muxer_turn ra ca ev l = (r, l1)" by (cases "muxer_turn ra ca ev l")
  have "ml_count l1 = ml_count l \<and> \<not> ml_recreate l1"
    using t Cons.prems by (cases ev) (auto simp: muxer_turn_def split: if_splits)
  then show ?case using Cons.IH [of l1] Cons.prems(1) t by (cases r) auto
qed simp

text \<open>
  C35. A muxer opens one instance at a time and closes what it opens: whatever comes to it, no instance is opened while another is
  open, when the muxer ends no instance is open and the server is told last, and a muxer that a client asked for never opens
  more than one.
\<close>

theorem muxer_instances:
  assumes "muxer_run ra closeAfter now add_reader init evs = (r, l)"
  shows "(\<exists>cur. open_instance (ml_out l) None = Some cur \<and> (r \<noteq> None \<longrightarrow> cur = None)) \<and>
    (r \<noteq> None \<longrightarrow> last (ml_out l) = MuxerClosed) \<and> (ra \<noteq> [] \<longrightarrow> ml_count l \<le> 1)"
proof -
  let ?l0 = "new_muxer ra now"
  have ended: "open_instance (ml_out (finish_muxer (leave_muxer l))) None = Some None \<and>
      ml_count (finish_muxer (leave_muxer l)) = ml_count l \<and> last (ml_out (finish_muxer (leave_muxer l))) = MuxerClosed"
    if "life_ok l" for l
    using that
    by (auto simp: finish_muxer_def leave_muxer_def life_ok_def close_instance_def open_instance_append split: option.split)
  have going: ?thesis
    if start: "life_ok k" and fin: "run_muxer ra closeAfter evs k = (r, l)"
      and count: "ra \<noteq> [] \<Longrightarrow> \<not> ml_recreate k \<and> ml_count k \<le> 1" for k
  proof -
    obtain r1 l1 where run: "muxer_loop ra closeAfter evs k = (r1, l1)" by (cases "muxer_loop ra closeAfter evs k")
    have ok: "life_ok l1" using loop_ok [OF start, of ra closeAfter evs] run by simp
    have "ra \<noteq> [] \<Longrightarrow> ml_count l1 \<le> 1" using loop_instances [of ra k closeAfter evs] count run by simp
    then show ?thesis
      using ended [OF ok] ok fin run by (cases r1) (auto simp: life_ok_def run_muxer_def)
  qed
  have l0: "life_ok ?l0" by (simp add: new_muxer_def life_ok_def)
  have new: "life_ok (new_instance_of ?l0)" by (simp add: new_muxer_def life_ok_def new_instance_of_def)
  have again: "life_ok (?l0\<lparr>ml_recreate := True\<rparr>)" by (simp add: new_muxer_def life_ok_def)
  show ?thesis
  proof (cases add_reader)
    case (Some err)
    then show ?thesis using assms by (auto simp: muxer_run_def finish_muxer_def new_muxer_def)
  next
    case no_error: None
    show ?thesis
    proof (cases init)
      case None
      then have "run_muxer ra closeAfter evs (new_instance_of ?l0) = (r, l)"
        using assms no_error by (simp add: muxer_run_def)
      then show ?thesis by (rule going [OF new]) (simp add: new_instance_of_def new_muxer_def)
    next
      case (Some err)
      show ?thesis
      proof (cases "ra \<noteq> [] \<or> err = ErrNoSupportedCodecs")
        case True
        then have "r = Some err \<and> l = finish_muxer (leave_muxer ?l0)"
          using assms no_error Some by (auto simp: muxer_run_def)
        moreover have "ml_count ?l0 = 0" by (simp add: new_muxer_def)
        ultimately show ?thesis using ended [OF l0] by simp
      next
        case False
        then have "run_muxer ra closeAfter evs (?l0\<lparr>ml_recreate := True\<rparr>) = (r, l)"
          using assms no_error Some by (simp add: muxer_run_def)
        then show ?thesis by (rule going [OF again]) (use False in simp)
      qed
    qed
  qed
qed

lemma muxer_instances_witness:
  "\<exists>l. muxer_run [] (60 * second) 0 None None [InstanceError (External 1), RecreateTimer None, MuxerDone] = (Some terminated, l) \<and>
     ml_out l = [InstanceCreated 0, InstanceClosed 0, InstanceCreated 1, InstanceClosed 1, ReaderRemoved, MuxerClosed] \<and>
     last (ml_out l) = MuxerClosed"
proof -
  obtain l where l: "muxer_run [] (60 * second) 0 None None [InstanceError (External 1), RecreateTimer None, MuxerDone] =
      (Some terminated, l)"
    "ml_out l = [InstanceCreated 0, InstanceClosed 0, InstanceCreated 1, InstanceClosed 1, ReaderRemoved, MuxerClosed]"
    by (simp add: muxer_run_def run_muxer_def new_muxer_def leave_muxer_def finish_muxer_def Let_def muxer_turn_def
        new_instance_of_def close_instance_def)
  then show ?thesis using muxer_instances [OF l(1)] by simp
qed

end
