(* ===== verification/ServerSessions.thy ===== *)
theory ServerSessions
  imports ServerProperties GoUrlParse
begin

text \<open>
  The sessions and connections of the servers: internal/servers/rtsp/session.go and conn.go, srt/conn.go and streamid.go,
  webrtc/session.go, rtmp/conn.go.

  What the path manager, a path, a stream, a library or the network answers is an argument; what the code does to them is
  a list of effects. Hooks and logs of a connection are left out; the hooks of a reader are effects.
\<close>

section \<open>RTSP\<close>

text \<open>The states of a session of the library; the library hands its own state to each handler.\<close>

datatype rtsp_state = RInitial | RPrePlay | RPlay | RPreRecord | RRecord

record rtsp_session =
  se_path :: bool
  se_state :: rtsp_state
  se_pathName :: string
  se_query :: string
  se_reader :: bool
  se_publisher :: bool
  se_started :: bool
  se_hooks :: int
  se_closed :: bool

record rtsp_conn =
  rc_nonce :: bool
  rc_failures :: nat

definition new_rtsp_session :: rtsp_session where
  "new_rtsp_session =
     \<lparr>se_path = False, se_state = RInitial, se_pathName = [], se_query = [], se_reader = False, se_publisher = False,
      se_started = False, se_hooks = 0, se_closed = False\<rparr>"

text \<open>What a request for a path is answered with.\<close>

datatype path_outcome = PathAdded | PathAuthError | PathNoOnePublishing | PathOtherError

text \<open>A response: the status, whether it asks for credentials, and whether an error is returned with it.\<close>

record rtsp_response =
  rr_status :: nat
  rr_asks :: bool
  rr_error :: bool

definition rtsp_answer :: "nat \<Rightarrow> bool \<Rightarrow> rtsp_response" where
  "rtsp_answer status err = \<lparr>rr_status = status, rr_asks = False, rr_error = err\<rparr>"

definition handleAuthError :: "rtsp_conn \<Rightarrow> rtsp_response \<times> rtsp_conn" where
  "handleAuthError c =
     (let c1 = c\<lparr>rc_failures := Suc (rc_failures c)\<rparr> in
      if rc_failures c1 \<le> 3 then (\<lparr>rr_status = 401, rr_asks = True, rr_error = False\<rparr>, c1)
      else (rtsp_answer 401 True, c1))"

definition bad_rtsp_path :: "string \<Rightarrow> bool" where
  "bad_rtsp_path p \<longleftrightarrow> p = [] \<or> hd p \<noteq> slash"

text \<open>The nonce of a connection is generated once; \<open>nonce_ok\<close> is whether that succeeds.\<close>

definition with_nonce :: "bool \<Rightarrow> rtsp_conn \<Rightarrow> rtsp_conn option" where
  "with_nonce nonce_ok c = (if rc_nonce c then Some c else if nonce_ok then Some (c\<lparr>rc_nonce := True\<rparr>) else None)"

definition rtsp_onDescribe :: "bool \<Rightarrow> path_outcome \<Rightarrow> string option \<Rightarrow> string \<Rightarrow> rtsp_conn \<Rightarrow> rtsp_response \<times> rtsp_conn" where
  "rtsp_onDescribe nonce_ok outcome redirect path c =
     (if bad_rtsp_path path then (rtsp_answer 400 True, c)
      else
        case with_nonce nonce_ok c of
          None \<Rightarrow> (rtsp_answer 500 True, c)
        | Some c1 \<Rightarrow>
            (case outcome of
               PathAuthError \<Rightarrow> handleAuthError c1
             | PathNoOnePublishing \<Rightarrow> (rtsp_answer 404 True, c1)
             | PathOtherError \<Rightarrow> (rtsp_answer 400 True, c1)
             | PathAdded \<Rightarrow> (rtsp_answer (if redirect \<noteq> None then 301 else 200) False, c1)))"

definition rtsp_onAnnounce ::
    "bool \<Rightarrow> path_outcome \<Rightarrow> string \<Rightarrow> string \<Rightarrow> rtsp_conn \<Rightarrow> rtsp_session \<Rightarrow> rtsp_response \<times> rtsp_conn \<times> rtsp_session" where
  "rtsp_onAnnounce nonce_ok outcome path query c s =
     (if bad_rtsp_path path then (rtsp_answer 400 True, c, s)
      else
        case with_nonce nonce_ok c of
          None \<Rightarrow> (rtsp_answer 500 True, c, s)
        | Some c1 \<Rightarrow>
            (case outcome of
               PathAdded \<Rightarrow>
                 (rtsp_answer 200 False, c1,
                  s\<lparr>se_path := True, se_publisher := True, se_state := RPreRecord, se_pathName := tl path, se_query := query\<rparr>)
             | PathAuthError \<Rightarrow> (let (r, c2) = handleAuthError c1 in (r, c2, s))
             | _ \<Rightarrow> (rtsp_answer 400 True, c1, s)))"

definition rtsp_onSetup ::
    "bool \<Rightarrow> bool \<Rightarrow> bool \<Rightarrow> path_outcome \<Rightarrow> rtsp_state \<Rightarrow> string \<Rightarrow> string \<Rightarrow> rtsp_conn \<Rightarrow> rtsp_session \<Rightarrow>
     rtsp_response \<times> rtsp_conn \<times> rtsp_session" where
  "rtsp_onSetup tcp tcp_allowed nonce_ok outcome st path query c s =
     (if bad_rtsp_path path then (rtsp_answer 400 True, c, s)
      else if tcp \<and> \<not> tcp_allowed then (rtsp_answer 461 False, c, s)
      else if st = RInitial \<or> st = RPrePlay then
        (case with_nonce nonce_ok c of
           None \<Rightarrow> (rtsp_answer 500 True, c, s)
         | Some c1 \<Rightarrow>
             (case outcome of
                PathAdded \<Rightarrow>
                  (rtsp_answer 200 False, c1,
                   s\<lparr>se_path := True, se_reader := True, se_state := RPrePlay, se_pathName := tl path, se_query := query\<rparr>)
              | PathAuthError \<Rightarrow> (let (r, c2) = handleAuthError c1 in (r, c2, s))
              | PathNoOnePublishing \<Rightarrow> (rtsp_answer 404 True, c1, s)
              | PathOtherError \<Rightarrow> (rtsp_answer 400 True, c1, s)))
      else (rtsp_answer 200 False, c, s))"

text \<open>A call through a nil path is a panic.\<close>

definition rtsp_onPlay :: "rtsp_state \<Rightarrow> rtsp_session \<Rightarrow> (rtsp_response \<times> rtsp_session) result" where
  "rtsp_onPlay st s =
     (if st = RPrePlay then
        (if \<not> se_path s then Inl Panic
         else Inr (rtsp_answer 200 False, s\<lparr>se_hooks := se_hooks s + 1, se_state := RPlay\<rparr>))
      else Inr (rtsp_answer 200 False, s))"

definition rtsp_onRecord :: "bool \<Rightarrow> rtsp_session \<Rightarrow> (rtsp_response \<times> rtsp_session) result" where
  "rtsp_onRecord start_ok s =
     (if \<not> se_path s then Inl Panic
      else if \<not> start_ok then Inr (rtsp_answer 400 True, s)
      else Inr (rtsp_answer 200 False, s\<lparr>se_started := True, se_state := RRecord\<rparr>))"

definition rtsp_onPause :: "rtsp_state \<Rightarrow> rtsp_session \<Rightarrow> (rtsp_response \<times> rtsp_session) result" where
  "rtsp_onPause st s =
     (if st = RPlay then Inr (rtsp_answer 200 False, s\<lparr>se_hooks := se_hooks s - 1, se_state := RPrePlay\<rparr>)
      else if st = RRecord then
        (if \<not> se_path s then Inl Panic
         else Inr (rtsp_answer 200 False, s\<lparr>se_started := False, se_state := RPreRecord\<rparr>))
      else Inr (rtsp_answer 200 False, s))"

text \<open>\<open>RemovePublisher\<close> of a path also ends the publication.\<close>

definition rtsp_onClose :: "rtsp_state \<Rightarrow> rtsp_session \<Rightarrow> rtsp_session result" where
  "rtsp_onClose st s =
     (let s1 = (if st = RPlay then s\<lparr>se_hooks := se_hooks s - 1\<rparr> else s);
          fin = (\<lambda>t. Inr (t\<lparr>se_path := False, se_closed := True\<rparr>)) in
      if st = RPrePlay \<or> st = RPlay then (if \<not> se_path s then Inl Panic else fin (s1\<lparr>se_reader := False\<rparr>))
      else if st = RPreRecord \<or> st = RRecord then
        (if \<not> se_path s then Inl Panic else fin (s1\<lparr>se_publisher := False, se_started := False\<rparr>))
      else fin s1)"

text \<open>What the API shows of the state.\<close>

datatype api_state = ApiIdle | ApiRead | ApiPublish

definition rtsp_api_state :: "rtsp_session \<Rightarrow> api_state" where
  "rtsp_api_state s =
     (case se_state s of
        RInitial \<Rightarrow> ApiIdle | RPrePlay \<Rightarrow> ApiRead | RPlay \<Rightarrow> ApiRead | RPreRecord \<Rightarrow> ApiPublish | RRecord \<Rightarrow> ApiPublish)"

section \<open>SRT\<close>

datatype stream_mode = ModeRead | ModePublish

record stream_id =
  si_mode :: stream_mode
  si_path :: string
  si_query :: string
  si_user :: string
  si_pass :: string

definition zero_stream_id :: stream_id where
  "zero_stream_id = \<lparr>si_mode = ModeRead, si_path = [], si_query = [], si_user = [], si_pass = []\<rparr>"

definition stream_id_syntax :: go_error where
  "stream_id_syntax =
     Errorf (''stream ID must be '' @ quoted ''action:pathname[:query]'' @ '' or '' @ quoted ''action:pathname:user:pass[:query]'' @
       '', where action is either read or publish, pathname is the path name, user and pass are the credentials, '' @
       ''query is an optional token containing additional information'') []"

text \<open>One pair of the standard syntax; \<open>SplitN\<close> of two leaves further signs in the value.\<close>

definition stream_id_pair :: "string \<Rightarrow> stream_id \<Rightarrow> stream_id result" where
  "stream_id_pair kv s =
     (if CHR ''='' \<notin> set kv then Inl (Errorf ''invalid value'' [])
      else
        let (key, val) = Cut kv (CHR ''='') in
        if key = ''u'' then Inr (s\<lparr>si_user := val\<rparr>)
        else if key = ''r'' then Inr (s\<lparr>si_path := val\<rparr>)
        else if key = ''s'' then Inr (s\<lparr>si_pass := val\<rparr>)
        else if key = ''m'' then
          (if val = ''request'' then Inr (s\<lparr>si_mode := ModeRead\<rparr>)
           else if val = ''publish'' then Inr (s\<lparr>si_mode := ModePublish\<rparr>)
           else Inl (Errorf (''unsupported mode '' @ quoted val) []))
        else Inr s)"

fun stream_id_pairs :: "string list \<Rightarrow> stream_id \<Rightarrow> stream_id result" where
  "stream_id_pairs [] s = Inr s"
| "stream_id_pairs (kv # kvs) s = bindE (stream_id_pair kv s) (stream_id_pairs kvs)"

definition stream_id_unmarshal :: "string \<Rightarrow> stream_id result" where
  "stream_id_unmarshal raw =
     (if HasPrefix raw ''#!::'' then stream_id_pairs (Split (drop 4 raw) (CHR '','')) zero_stream_id
      else
        let parts = Split raw (CHR '':'') in
        if length parts < 2 \<or> length parts > 5 then Inl stream_id_syntax
        else
          case (if parts ! 0 = ''read'' then Some ModeRead else if parts ! 0 = ''publish'' then Some ModePublish else None) of
            None \<Rightarrow> Inl stream_id_syntax
          | Some mode \<Rightarrow>
              let s1 = zero_stream_id\<lparr>si_mode := mode, si_path := parts ! 1\<rparr>;
                  s2 = (if length parts = 4 \<or> length parts = 5 then s1\<lparr>si_user := parts ! 2, si_pass := parts ! 3\<rparr> else s1) in
              Inr (if length parts = 3 then s2\<lparr>si_query := parts ! 2\<rparr>
                   else if length parts = 5 then s2\<lparr>si_query := parts ! 4\<rparr> else s2))"

text \<open>The passphrase of a connection; the library says whether it is encrypted and whether it accepts the passphrase.\<close>

definition srtCheckPassphrase :: "bool \<Rightarrow> bool \<Rightarrow> string \<Rightarrow> unit result" where
  "srtCheckPassphrase encrypted accepted passphrase =
     (if passphrase = [] then Inr ()
      else if \<not> encrypted then Inl (Errorf ''connection is encrypted, but not passphrase is defined in configuration'' [])
      else if \<not> accepted then Inl (Errorf ''invalid passphrase'' [])
      else Inr ())"

text \<open>What a connection does to its request, its socket, the path and the stream.\<close>

datatype conn_effect =
    Rejected
  | Accepted
  | SocketClosed
  | PublisherAdded
  | PublisherRemoved
  | ReaderAdded
  | ReaderLeft
  | Published
  | StreamReaderStarted
  | StreamReaderRemoved
  | HookStarted
  | HookStopped
  | Paused

record srt_outcomes =
  so_path :: path_outcome
  so_encrypted :: bool
  so_phrase_ok :: bool
  so_phrase :: string
  so_accept :: "go_error option"
  so_stream :: "go_error option"
  so_end :: go_error

text \<open>\<open>so_stream\<close> is the error of what comes before the publication or the reading, \<open>so_end\<close> the error that ends it.\<close>

definition path_refused :: "path_outcome \<Rightarrow> conn_effect list" where
  "path_refused o1 = (if o1 = PathAuthError then [Paused] else [])"

definition srt_runPublish :: "srt_outcomes \<Rightarrow> conn_effect list" where
  "srt_runPublish t =
     (if so_path t \<noteq> PathAdded then path_refused (so_path t) @ [Rejected]
      else
        [PublisherAdded] @
        (case srtCheckPassphrase (so_encrypted t) (so_phrase_ok t) (so_phrase t) of
           Inl e \<Rightarrow> [Rejected]
         | Inr _ \<Rightarrow>
             (if so_accept t \<noteq> None then []
              else [Accepted] @ (if so_stream t \<noteq> None then [] else [Published]) @ [SocketClosed])) @
        [PublisherRemoved])"

definition srt_runRead :: "srt_outcomes \<Rightarrow> conn_effect list" where
  "srt_runRead t =
     (if so_path t \<noteq> PathAdded then path_refused (so_path t) @ [Rejected]
      else
        [ReaderAdded] @
        (case srtCheckPassphrase (so_encrypted t) (so_phrase_ok t) (so_phrase t) of
           Inl e \<Rightarrow> [Rejected]
         | Inr _ \<Rightarrow>
             (if so_accept t \<noteq> None then []
              else [Accepted] @
                (if so_stream t \<noteq> None then [] else [HookStarted, StreamReaderStarted, StreamReaderRemoved, HookStopped]) @
                [SocketClosed])) @
        [ReaderLeft])"

definition srt_runInner :: "string \<Rightarrow> srt_outcomes \<Rightarrow> conn_effect list" where
  "srt_runInner streamId t =
     (case stream_id_unmarshal streamId of
        Inl e \<Rightarrow> [Rejected]
      | Inr s \<Rightarrow> if si_mode s = ModePublish then srt_runPublish t else srt_runRead t)"

section \<open>RTMP\<close>

text \<open>The part of a URL that names the path: the URL is printed, without its last slashes, and parsed again; a nil URL is a panic.\<close>

definition trim_right :: "char \<Rightarrow> string \<Rightarrow> string" where
  "trim_right c s = rev (dropWhile (\<lambda>x. x = c) (rev s))"

definition trim_left :: "char \<Rightarrow> string \<Rightarrow> string" where
  "trim_left c s = dropWhile (\<lambda>x. x = c) s"

definition pathNameAndQuery :: "url \<Rightarrow> (string \<times> url_values \<times> string) result" where
  "pathNameAndQuery inURL =
     (case url_Parse (trim_right slash (url_String inURL)) of
        Inl _ \<Rightarrow> Inl Panic
      | Inr u \<Rightarrow> Inr (trim_left slash (u_Path u), fst (ParseQuery (u_RawQuery u)), u_RawQuery u))"

record rtmp_outcomes =
  ro_path :: path_outcome
  ro_stream :: "go_error option"
  ro_end :: go_error

definition rtmp_runRead :: "rtmp_outcomes \<Rightarrow> conn_effect list" where
  "rtmp_runRead t =
     (if ro_path t \<noteq> PathAdded then path_refused (ro_path t)
      else
        [ReaderAdded] @
        (if ro_stream t \<noteq> None then [] else [HookStarted, StreamReaderStarted, StreamReaderRemoved, HookStopped]) @
        [ReaderLeft])"

definition rtmp_runPublish :: "rtmp_outcomes \<Rightarrow> conn_effect list" where
  "rtmp_runPublish t =
     (if ro_path t \<noteq> PathAdded then path_refused (ro_path t)
      else [PublisherAdded] @ (if ro_stream t \<noteq> None then [] else [Published]) @ [PublisherRemoved])"

text \<open>\<open>handshake\<close>: what \<open>NewServerConn\<close> returns, whether the client publishes. The socket is closed in every case.\<close>

definition rtmp_runInner :: "bool result \<Rightarrow> rtmp_outcomes \<Rightarrow> conn_effect list" where
  "rtmp_runInner handshake t =
     (case handshake of
        Inl e \<Rightarrow> []
      | Inr publish \<Rightarrow> if publish then rtmp_runPublish t else rtmp_runRead t) @ [SocketClosed]"

section \<open>WebRTC\<close>

record webrtc_outcomes =
  wo_path :: path_outcome
  wo_ice :: bool
  wo_from_stream :: bool
  wo_start :: bool
  wo_sdp :: bool
  wo_tracks :: bool
  wo_answer :: bool
  wo_ready :: bool
  wo_stream :: bool

text \<open>
  The session: the effects, and the answers that it sends to the request that made it, an error with its status or the answer
  of the peer connection. \<open>Accepted\<close> and \<open>SocketClosed\<close> are the start and the end of the peer connection.
\<close>

datatype session_answer = AnswerError nat | AnswerSDP

definition webrtc_runPublish :: "webrtc_outcomes \<Rightarrow> nat \<times> session_answer list \<times> conn_effect list" where
  "webrtc_runPublish t =
     (if wo_path t \<noteq> PathAdded then (400, [], [])
      else
        (let (code, answers, effects) =
           (if \<not> wo_ice t then (500, [], [])
            else if \<not> wo_start t then (400, [], [])
            else
              (let (code, answers, effects) =
                 (if \<not> wo_sdp t then (400, [], [])
                  else if \<not> wo_tracks t then (406, [], [])
                  else if \<not> wo_answer t then (400, [], [])
                  else if \<not> wo_ready t \<or> \<not> wo_stream t then (0, [AnswerSDP], [])
                  else (0, [AnswerSDP], [Published]))
               in (code, answers, Accepted # effects @ [SocketClosed])))
         in (code, answers, PublisherAdded # effects @ [PublisherRemoved])))"

text \<open>The stream may have the session as a reader from \<open>FromStream\<close> on.\<close>

definition webrtc_runRead :: "webrtc_outcomes \<Rightarrow> nat \<times> session_answer list \<times> conn_effect list" where
  "webrtc_runRead t =
     (if wo_path t = PathNoOnePublishing then (404, [], [])
      else if wo_path t \<noteq> PathAdded then (400, [], [])
      else
        (let (code, answers, effects) =
           (if \<not> wo_ice t then (500, [], [])
            else if \<not> wo_from_stream t then (400, [], [])
            else if \<not> wo_start t then (400, [], [StreamReaderRemoved])
            else
              (let (code, answers, effects) =
                 (if \<not> wo_answer t then (400, [], [StreamReaderRemoved])
                  else if \<not> wo_ready t then (0, [AnswerSDP], [StreamReaderRemoved])
                  else (0, [AnswerSDP], [HookStarted, StreamReaderStarted, StreamReaderRemoved, HookStopped]))
               in (code, answers, Accepted # effects @ [SocketClosed])))
         in (code, answers, ReaderAdded # effects @ [ReaderLeft])))"

definition webrtc_runInner :: "bool \<Rightarrow> webrtc_outcomes \<Rightarrow> session_answer list \<times> conn_effect list" where
  "webrtc_runInner publish t =
     (let (code, answers, effects) = (if publish then webrtc_runPublish t else webrtc_runRead t)
      in (answers @ (if code \<noteq> 0 then [AnswerError code] else []), effects))"

text \<open>
  Candidates of the peer: the answers that one request is sent, for the outcomes of its candidates. The channel is not buffered and
  the request receives one answer: a goroutine that sends a second one never goes on.
\<close>

definition candidate_answers :: "bool list \<Rightarrow> bool list" where
  "candidate_answers added = map (\<lambda>_. False) (filter (\<lambda>ok. \<not> ok) added) @ [True]"

text \<open>The goroutine over a list of requests: the answer that each gets, or nothing for those that it never comes to.\<close>

fun readRemoteCandidates :: "bool list list \<Rightarrow> bool option list" where
  "readRemoteCandidates [] = []"
| "readRemoteCandidates (added # reqs) =
     (case candidate_answers added of
        [a] \<Rightarrow> Some a # readRemoteCandidates reqs
      | a # _ \<Rightarrow> Some a # map (\<lambda>_. None) reqs
      | [] \<Rightarrow> map (\<lambda>_. None) (added # reqs))"

section \<open>Properties\<close>

text \<open>The session agrees with the state of the library.\<close>

definition session_ok :: "rtsp_state \<Rightarrow> rtsp_session \<Rightarrow> bool" where
  "session_ok st s \<longleftrightarrow>
     se_state s = st \<and> \<not> se_closed s \<and> (se_path s \<longleftrightarrow> st \<noteq> RInitial) \<and>
     (se_reader s \<longleftrightarrow> st \<in> {RPrePlay, RPlay}) \<and> (se_publisher s \<longleftrightarrow> st \<in> {RPreRecord, RRecord}) \<and>
     (se_started s \<longleftrightarrow> st = RRecord) \<and> se_hooks s = (if st = RPlay then 1 else 0)"

lemma announce_follows:
  assumes "session_ok RInitial s"
  shows "(case rtsp_onAnnounce nonce_ok outcome path query c s of
    (r, c', s') \<Rightarrow> if rr_status r = 200 then session_ok RPreRecord s' else s' = s)"
proof (cases "bad_rtsp_path path \<or> with_nonce nonce_ok c = None \<or> outcome \<noteq> PathAdded")
  case True
  then show ?thesis
    by (cases outcome)
      (auto simp: rtsp_onAnnounce_def rtsp_answer_def handleAuthError_def Let_def split: option.split)
next
  case False
  then show ?thesis using assms by (auto simp: rtsp_onAnnounce_def rtsp_answer_def session_ok_def)
qed

lemma setup_follows:
  assumes "session_ok st s"
  shows "(case rtsp_onSetup tcp tcp_allowed nonce_ok outcome st path query c s of
    (r, c', s') \<Rightarrow> if rr_status r = 200 then session_ok (if st = RInitial then RPrePlay else st) s' else s' = s)"
proof (cases "bad_rtsp_path path \<or> tcp \<and> \<not> tcp_allowed \<or> st \<notin> {RInitial, RPrePlay}")
  case True
  then show ?thesis using assms by (auto simp: rtsp_onSetup_def rtsp_answer_def)
next
  case False
  then show ?thesis
    using assms
    by (cases "with_nonce nonce_ok c"; cases outcome)
      (auto simp: rtsp_onSetup_def rtsp_answer_def handleAuthError_def Let_def session_ok_def)
qed

lemma play_follows:
  "session_ok st s \<Longrightarrow> st \<in> {RPrePlay, RPlay} \<Longrightarrow>
   \<exists>r s'. rtsp_onPlay st s = Inr (r, s') \<and> rr_status r = 200 \<and> session_ok RPlay s'"
  by (cases st) (simp_all add: rtsp_onPlay_def rtsp_answer_def session_ok_def)

lemma record_follows:
  "session_ok RPreRecord s \<Longrightarrow>
   \<exists>r s'. rtsp_onRecord start_ok s = Inr (r, s') \<and> (if rr_status r = 200 then session_ok RRecord s' else s' = s)"
  by (cases start_ok) (simp_all add: rtsp_onRecord_def rtsp_answer_def session_ok_def)

lemma pause_follows:
  "session_ok st s \<Longrightarrow> \<exists>r s'. rtsp_onPause st s = Inr (r, s') \<and>
   session_ok (if st = RPlay then RPrePlay else if st = RRecord then RPreRecord else st) s'"
  by (cases st) (simp_all add: rtsp_onPause_def rtsp_answer_def session_ok_def)

lemma close_follows:
  "session_ok st s \<Longrightarrow>
   \<exists>s'. rtsp_onClose st s = Inr s' \<and> se_closed s' \<and> \<not> se_reader s' \<and> \<not> se_publisher s' \<and> \<not> se_started s' \<and> se_hooks s' = 0"
  by (cases st) (simp_all add: rtsp_onClose_def session_ok_def)



text \<open>
  A kick races with the session: the API calls \<open>onClose\<close> of a session whose goroutine may have a request left to
  handle; a \<open>PLAY\<close> or a \<open>RECORD\<close> that it then handles calls a method of a nil path, which ends the process, and a \<open>PAUSE\<close> stops the
  read hook a second time.
\<close>

theorem rtsp_kick_race:
  assumes "session_ok st s" "rtsp_onClose st s = Inr s'"
  shows "(st = RPrePlay \<longrightarrow> rtsp_onPlay st s' = Inl Panic) \<and>
    (st = RPreRecord \<longrightarrow> rtsp_onRecord start_ok s' = Inl Panic) \<and>
    (st = RPlay \<longrightarrow> (\<exists>r t. rtsp_onPause st s' = Inr (r, t) \<and> se_hooks t = - 1))"
  using assms
  by (cases st) (auto simp: session_ok_def rtsp_onClose_def rtsp_onPlay_def rtsp_onRecord_def rtsp_onPause_def Let_def
      split: if_splits)

lemma rtsp_kick_race_witness:
  "\<exists>s s'. session_ok RPrePlay s \<and> rtsp_onClose RPrePlay s = Inr s' \<and> rtsp_onPlay RPrePlay s' = Inl Panic"
proof -
  let ?s = "new_rtsp_session\<lparr>se_path := True, se_reader := True, se_state := RPrePlay\<rparr>"
  have ok: "session_ok RPrePlay ?s" by (simp add: session_ok_def new_rtsp_session_def)
  obtain s' where s': "rtsp_onClose RPrePlay ?s = Inr s'" by (simp add: rtsp_onClose_def)
  show ?thesis using rtsp_kick_race [OF ok s'] ok s' by blast
qed

text \<open>How often an effect occurs.\<close>

definition times :: "conn_effect \<Rightarrow> conn_effect list \<Rightarrow> nat" where
  "times e es = length (filter (\<lambda>x. x = e) es)"

definition released :: "conn_effect list \<Rightarrow> bool" where
  "released es \<longleftrightarrow>
     times PublisherAdded es = times PublisherRemoved es \<and> times ReaderAdded es = times ReaderLeft es \<and>
     times HookStarted es = times HookStopped es \<and>
     times StreamReaderStarted es \<le> times StreamReaderRemoved es \<and>
     (Published \<in> set es \<longrightarrow> PublisherAdded \<in> set es) \<and> (StreamReaderStarted \<in> set es \<longrightarrow> ReaderAdded \<in> set es)"

lemma times_simps [simp]:
  "times e [] = 0" "times e (x # es) = (if x = e then Suc (times e es) else times e es)"
  "times e (es @ fs) = times e es + times e fs"
  by (simp_all add: times_def)

lemma srt_release:
  "released (srt_runInner streamId t) \<and>
   times Accepted (srt_runInner streamId t) = times SocketClosed (srt_runInner streamId t) \<and>
   times Rejected (srt_runInner streamId t) + times Accepted (srt_runInner streamId t) \<le> 1 \<and>
   (so_accept t = None \<longrightarrow> times Rejected (srt_runInner streamId t) + times Accepted (srt_runInner streamId t) = 1)"
proof (cases "stream_id_unmarshal streamId")
  case (Inl e)
  then show ?thesis by (simp add: srt_runInner_def released_def)
next
  case (Inr s)
  have publish: "released (srt_runPublish t) \<and> times Accepted (srt_runPublish t) = times SocketClosed (srt_runPublish t) \<and>
      times Rejected (srt_runPublish t) + times Accepted (srt_runPublish t) \<le> 1 \<and>
      (so_accept t = None \<longrightarrow> times Rejected (srt_runPublish t) + times Accepted (srt_runPublish t) = 1)"
    by (cases "so_path t = PathAdded"; cases "srtCheckPassphrase (so_encrypted t) (so_phrase_ok t) (so_phrase t)";
        cases "so_accept t"; cases "so_stream t"; simp add: srt_runPublish_def released_def path_refused_def)
  have read: "released (srt_runRead t) \<and> times Accepted (srt_runRead t) = times SocketClosed (srt_runRead t) \<and>
      times Rejected (srt_runRead t) + times Accepted (srt_runRead t) \<le> 1 \<and>
      (so_accept t = None \<longrightarrow> times Rejected (srt_runRead t) + times Accepted (srt_runRead t) = 1)"
    by (cases "so_path t = PathAdded"; cases "srtCheckPassphrase (so_encrypted t) (so_phrase_ok t) (so_phrase t)";
        cases "so_accept t"; cases "so_stream t"; simp add: srt_runRead_def released_def path_refused_def)
  have "srt_runInner streamId t = srt_runPublish t \<or> srt_runInner streamId t = srt_runRead t"
    using Inr by (simp add: srt_runInner_def)
  then show ?thesis
  proof
    assume e: "srt_runInner streamId t = srt_runPublish t"
    show ?thesis unfolding e by (rule publish)
  next
    assume e: "srt_runInner streamId t = srt_runRead t"
    show ?thesis unfolding e by (rule read)
  qed
qed

lemma rtmp_release: "released (rtmp_runInner handshake u) \<and> times SocketClosed (rtmp_runInner handshake u) = 1"
proof (cases handshake)
  case (Inl e)
  then show ?thesis by (simp add: rtmp_runInner_def released_def)
next
  case (Inr publish)
  then show ?thesis
    by (cases publish; cases "ro_path u = PathAdded"; cases "ro_stream u";
        simp add: rtmp_runInner_def rtmp_runPublish_def rtmp_runRead_def released_def path_refused_def)
qed

lemma webrtc_release:
  "released (snd (webrtc_runInner publish w)) \<and>
   times Accepted (snd (webrtc_runInner publish w)) = times SocketClosed (snd (webrtc_runInner publish w)) \<and>
   length (fst (webrtc_runInner publish w)) = 1 \<and>
   (Published \<in> set (snd (webrtc_runInner publish w)) \<longrightarrow> fst (webrtc_runInner publish w) = [AnswerSDP])"
proof (cases publish)
  case True
  then show ?thesis
    by (cases "wo_path w = PathAdded"; cases "wo_ice w"; cases "wo_start w"; cases "wo_sdp w"; cases "wo_tracks w";
        cases "wo_answer w"; cases "wo_ready w \<and> wo_stream w";
        simp add: webrtc_runInner_def webrtc_runPublish_def released_def)
next
  case False
  then show ?thesis
    by (cases "wo_path w"; cases "wo_ice w"; cases "wo_from_stream w"; cases "wo_start w"; cases "wo_answer w"; cases "wo_ready w";
        simp add: webrtc_runInner_def webrtc_runRead_def released_def)
qed



text \<open>
  One bad candidate ends trickle ICE: when a candidate of a request is refused, the request is answered with the error and the
  goroutine then waits for ever to send a second answer, so that no later request of the session is ever answered; as long as all
  candidates are added every request is answered.
\<close>

theorem bad_candidate_blocks:
  "(False \<in> set added \<longrightarrow> readRemoteCandidates (added # reqs) = Some False # map (\<lambda>_. None) reqs) \<and>
   ((\<forall>a \<in> set reqs. False \<notin> set a) \<longrightarrow> readRemoteCandidates reqs = map (\<lambda>_. Some True) reqs)"
proof -
  have good: "(\<forall>a \<in> set reqs. False \<notin> set a) \<longrightarrow> readRemoteCandidates reqs = map (\<lambda>_. Some True) reqs"
  proof (induction reqs)
    case (Cons a reqs)
    have "False \<notin> set a \<Longrightarrow> filter (\<lambda>ok. \<not> ok) a = []" by (auto simp: filter_empty_conv) (metis (full_types))
    then show ?case using Cons by (auto simp: candidate_answers_def)
  qed simp
  have "readRemoteCandidates (added # reqs) = Some False # map (\<lambda>_. None) reqs" if "False \<in> set added"
  proof -
    obtain b bs where "filter (\<lambda>ok. \<not> ok) added = b # bs"
      using \<open>False \<in> set added\<close> by (cases "filter (\<lambda>ok. \<not> ok) added") (auto simp: filter_empty_conv)
    then show ?thesis by (cases bs) (simp_all add: candidate_answers_def)
  qed
  with good show ?thesis by blast
qed

lemma bad_candidate_blocks_witness:
  "readRemoteCandidates [[True, False, True], [True]] = [Some False, None]"
proof -
  have "False \<in> set [True, False, True]" by simp
  then show ?thesis using bad_candidate_blocks [of "[True, False, True]" "[[True]]"] by simp
qed

section \<open>Stream identifiers\<close>

text \<open>The two ways a client writes a stream identifier; only the plain one carries a query.\<close>

definition mode_text :: "stream_mode \<Rightarrow> string" where
  "mode_text m = (case m of ModeRead \<Rightarrow> ''read'' | ModePublish \<Rightarrow> ''publish'')"

definition standard_mode :: "stream_mode \<Rightarrow> string" where
  "standard_mode m = (case m of ModeRead \<Rightarrow> ''request'' | ModePublish \<Rightarrow> ''publish'')"

definition plain_stream_id :: "stream_id \<Rightarrow> string" where
  "plain_stream_id s =
     mode_text (si_mode s) @ CHR '':'' # si_path s @ CHR '':'' # si_user s @ CHR '':'' # si_pass s @ CHR '':'' # si_query s"

definition standard_stream_id :: "stream_id \<Rightarrow> string" where
  "standard_stream_id s =
     ''#!::'' @ (''u='' @ si_user s) @ CHR '','' # (''r='' @ si_path s) @ CHR '','' # (''s='' @ si_pass s) @ CHR '','' #
       ''m='' @ standard_mode (si_mode s)"

lemma stream_id_pair_simps:
  "stream_id_pair (''u='' @ x) s = Inr (s\<lparr>si_user := x\<rparr>)"
  "stream_id_pair (''r='' @ x) s = Inr (s\<lparr>si_path := x\<rparr>)"
  "stream_id_pair (''s='' @ x) s = Inr (s\<lparr>si_pass := x\<rparr>)"
  "stream_id_pair (''m='' @ standard_mode m) s = Inr (s\<lparr>si_mode := m\<rparr>)"
  by (simp_all add: stream_id_pair_def standard_mode_def split: stream_mode.split)

lemma plain_stream_id_read:
  assumes "CHR '':'' \<notin> set (si_path s) \<union> set (si_user s) \<union> set (si_pass s) \<union> set (si_query s)"
  shows "stream_id_unmarshal (plain_stream_id s) = Inr s"
proof -
  have "Split (plain_stream_id s) CHR '':'' = [mode_text (si_mode s), si_path s, si_user s, si_pass s, si_query s]"
    using assms
    by (cases "si_mode s") (simp_all add: plain_stream_id_def mode_text_def Split_append Split_no_sep del: Split.simps append_Cons)
  moreover have "\<not> HasPrefix (plain_stream_id s) ''#!::''"
    by (cases "si_mode s") (simp_all add: plain_stream_id_def mode_text_def HasPrefix_def)
  ultimately show ?thesis
    by (cases "si_mode s") (simp_all add: stream_id_unmarshal_def mode_text_def zero_stream_id_def Let_def)
qed

lemma standard_stream_id_read:
  assumes "CHR '','' \<notin> set (si_path s) \<union> set (si_user s) \<union> set (si_pass s)"
  shows "stream_id_unmarshal (standard_stream_id s) = Inr (s\<lparr>si_query := []\<rparr>)"
proof -
  let ?ps = "[''u='' @ si_user s, ''r='' @ si_path s, ''s='' @ si_pass s, ''m='' @ standard_mode (si_mode s)]"
  have m: "CHR '','' \<notin> set (''m='' @ standard_mode (si_mode s))"
    by (simp add: standard_mode_def split: stream_mode.split)
  have "Split (drop 4 (standard_stream_id s)) CHR '','' =
      Split ((''u='' @ si_user s) @ CHR '','' # (''r='' @ si_path s) @ CHR '','' # (''s='' @ si_pass s) @ CHR '','' #
        ''m='' @ standard_mode (si_mode s)) CHR '',''"
    by (simp add: standard_stream_id_def del: Split.simps)
  also have "\<dots> = ?ps"
  proof -
    have u: "CHR '','' \<notin> set (''u='' @ si_user s)" and r: "CHR '','' \<notin> set (''r='' @ si_path s)"
      and q: "CHR '','' \<notin> set (''s='' @ si_pass s)" using assms by simp_all
    show ?thesis unfolding Split_append [OF u] Split_append [OF r] Split_append [OF q] Split_no_sep [OF m] ..
  qed
  finally have "stream_id_unmarshal (standard_stream_id s) = stream_id_pairs ?ps zero_stream_id"
    by (simp add: stream_id_unmarshal_def standard_stream_id_def HasPrefix_def del: Split.simps stream_id_pairs.simps)
  also have "\<dots> = Inr (s\<lparr>si_query := []\<rparr>)"
    by (simp add: stream_id_pair_simps zero_stream_id_def del: append_Cons)
  finally show ?thesis .
qed

text \<open>
  Stream identifiers of SRT are read back: what a client writes in the plain syntax with all five parts is read as it is when no field
  contains a colon, and what it writes in the standard syntax is read as it is, without the query that this syntax cannot
  carry, when no field contains a comma.
\<close>

theorem stream_id_roundtrip:
  "(CHR '':'' \<notin> set (si_path s) \<union> set (si_user s) \<union> set (si_pass s) \<union> set (si_query s) \<longrightarrow>
     stream_id_unmarshal (plain_stream_id s) = Inr s) \<and>
   (CHR '','' \<notin> set (si_path s) \<union> set (si_user s) \<union> set (si_pass s) \<longrightarrow>
     stream_id_unmarshal (standard_stream_id s) = Inr (s\<lparr>si_query := []\<rparr>))"
  using plain_stream_id_read [of s] standard_stream_id_read [of s] by blast

lemma stream_id_roundtrip_witness:
  "stream_id_unmarshal ''publish:live:me:a=b:x'' =
     Inr \<lparr>si_mode = ModePublish, si_path = ''live'', si_query = ''x'', si_user = ''me'', si_pass = ''a=b''\<rparr>"
proof -
  let ?s = "\<lparr>si_mode = ModePublish, si_path = ''live'', si_query = ''x'', si_user = ''me'', si_pass = ''a=b''\<rparr>"
  have t: "plain_stream_id ?s = ''publish:live:me:a=b:x''" by (simp add: plain_stream_id_def mode_text_def)
  have "stream_id_unmarshal (plain_stream_id ?s) = Inr ?s" by (rule stream_id_roundtrip [THEN conjunct1, THEN mp]) simp
  then show ?thesis unfolding t .
qed

end
