(* ===== verification/ApiServer.thy ===== *)
theory ApiServer
  imports CoreProperties ServerProperties RecordSegments
begin

text \<open>
  The control API (internal/api/api.go, paginate.go): the middlewares, the routes, the handlers of the configuration, of the
  servers and of the recordings, and the pages of a list.

  A handler is a function from the request and the state to a reply and a new state; a panic in a handler ends the process
  (httpp.Server exits on it), so it is the result of the handler. The body of a request is given as the result of the decoder;
  \<open>uuid.Parse\<close>, \<open>time.Parse\<close> and \<open>os.Remove\<close> are parameters, and so is what the path manager answers.
\<close>

section \<open>Requests and replies\<close>

record api_request =
  aq_Method :: string
  aq_RequestMethod :: string
  aq_Query :: "string \<Rightarrow> string"
  aq_Param :: "string \<Rightarrow> string"
  aq_IP :: ip
  aq_HTTP :: http_request

datatype 'd api_reply = ApiStatus nat | ApiJSON nat 'd | ApiError nat go_error

fun reply_status :: "'d api_reply \<Rightarrow> nat" where
  "reply_status (ApiStatus n) = n"
| "reply_status (ApiJSON n d) = n"
| "reply_status (ApiError n e) = n"

record 'd api_page =
  pg_ItemCount :: int
  pg_PageCount :: int
  pg_Items :: "'d list"

record api_env =
  ae_conf :: conf_env
  ae_text :: conf_text
  ae_store :: store_env
  ae_uuid :: "string \<Rightarrow> uuid result"
  ae_time :: "string \<Rightarrow> (instant \<times> zone) result"
  ae_remove :: "string \<Rightarrow> go_error option"

section \<open>Pages\<close>

text \<open>Go's int has 64 bits. \<open>Slice\<close> panics when the bounds are not in order or go past the end.\<close>

definition go_slice :: "'a list \<Rightarrow> int \<Rightarrow> int \<Rightarrow> 'a list result" where
  "go_slice xs a b =
     (if 0 \<le> a \<and> a \<le> b \<and> b \<le> int (length xs) then Inr (take (nat b - nat a) (drop (nat a) xs)) else Inl Panic)"

definition paginate2 :: "'a list \<Rightarrow> int \<Rightarrow> int \<Rightarrow> ('a list \<times> int) result" where
  "paginate2 items itemsPerPage page =
     (let itemsLen = int (length items) in
      if itemsLen = 0 then Inr (items, 0)
      else if itemsPerPage = 0 then Inl Panic
      else
        let pageCount0 = go_div itemsLen itemsPerPage;
            pageCount = (if go_mod itemsLen itemsPerPage \<noteq> 0 then int64 (pageCount0 + 1) else pageCount0);
            minVal0 = int64 (page * itemsPerPage);
            minVal = (if minVal0 > itemsLen then itemsLen else minVal0);
            maxVal0 = int64 (int64 (page + 1) * itemsPerPage);
            maxVal = (if maxVal0 > itemsLen then itemsLen else maxVal0)
        in bindE (go_slice items minVal maxVal) (\<lambda>s. Inr (s, pageCount)))"

definition paginate :: "'a list \<Rightarrow> string \<Rightarrow> string \<Rightarrow> ('a list \<times> int) result" where
  "paginate items itemsPerPageStr pageStr =
     bindE (if itemsPerPageStr \<noteq> []
            then bindE (ParseUint itemsPerPageStr 31)
              (\<lambda>tmp. if tmp = 0 then Inl (Errorf ''invalid items per page'' []) else Inr tmp)
            else Inr 100)
       (\<lambda>itemsPerPage.
          bindE (if pageStr \<noteq> [] then ParseUint pageStr 31 else Inr 0)
            (\<lambda>page. paginate2 items itemsPerPage page))"

section \<open>Routes and middlewares\<close>

text \<open>The interface of a server that is not there holds no pointer, or a nil one.\<close>

datatype 'p interface = NoInterface | Pointer "'p option"

definition interfaceIsEmpty :: "'p interface \<Rightarrow> bool" where
  "interfaceIsEmpty i = (case i of NoInterface \<Rightarrow> True | Pointer p \<Rightarrow> p = None)"

definition table_routes :: "string \<Rightarrow> bool \<Rightarrow> (string \<times> string) list" where
  "table_routes nm kick =
     [(''GET'', nm @ ''/list''), (''GET'', nm @ ''/get/:id'')] @ (if kick then [(''POST'', nm @ ''/kick/:id'')] else [])"

definition rtsp_routes :: "string \<Rightarrow> string \<Rightarrow> (string \<times> string) list" where
  "rtsp_routes conns sessions = table_routes conns False @ table_routes sessions True"

definition api_routes :: "(component \<Rightarrow> 'p interface) \<Rightarrow> (string \<times> string) list" where
  "api_routes server =
     [(''GET'', ''config/global/get''), (''PATCH'', ''config/global/patch''), (''GET'', ''config/pathdefaults/get''),
      (''PATCH'', ''config/pathdefaults/patch''), (''GET'', ''config/paths/list''), (''GET'', ''config/paths/get/*name''),
      (''POST'', ''config/paths/add/*name''), (''PATCH'', ''config/paths/patch/*name''),
      (''POST'', ''config/paths/replace/*name''), (''DELETE'', ''config/paths/delete/*name''),
      (''GET'', ''paths/list''), (''GET'', ''paths/get/*name'')] @
     (if interfaceIsEmpty (server CHLS) then [] else [(''GET'', ''hlsmuxers/list''), (''GET'', ''hlsmuxers/get/*name'')]) @
     (if interfaceIsEmpty (server CRTSP) then [] else rtsp_routes ''rtspconns'' ''rtspsessions'') @
     (if interfaceIsEmpty (server CRTSPS) then [] else rtsp_routes ''rtspsconns'' ''rtspssessions'') @
     (if interfaceIsEmpty (server CRTMP) then [] else table_routes ''rtmpconns'' True) @
     (if interfaceIsEmpty (server CRTMPS) then [] else table_routes ''rtmpsconns'' True) @
     (if interfaceIsEmpty (server CWebRTC) then [] else table_routes ''webrtcsessions'' True) @
     (if interfaceIsEmpty (server CSRT) then [] else table_routes ''srtconns'' True) @
     [(''GET'', ''recordings/list''), (''GET'', ''recordings/get/*name''), (''DELETE'', ''recordings/deletesegment'')]"

text \<open>A middleware gives headers, and a status when it aborts the request.\<close>

definition middlewareOrigin :: "string \<Rightarrow> api_request \<Rightarrow> (string \<times> string) list \<times> nat option" where
  "middlewareOrigin allowOrigin q =
     (let hs = [(''Access-Control-Allow-Origin'', allowOrigin), (''Access-Control-Allow-Credentials'', ''true'')] in
      if aq_Method q = ''OPTIONS'' \<and> aq_RequestMethod q \<noteq> [] then
        (hs @ [(''Access-Control-Allow-Methods'', ''OPTIONS, GET, POST, PATCH, DELETE''),
               (''Access-Control-Allow-Headers'', ''Authorization, Content-Type'')], Some 204)
      else (hs, None))"

definition api_auth_request :: "api_request \<Rightarrow> 'q auth_request" where
  "api_auth_request q =
     FillFromHTTPRequest (aq_HTTP q)
       \<lparr>rq_User = [], rq_Pass = [], rq_IP = aq_IP q, rq_Action = AuthActionAPI, rq_Path = [], rq_Protocol = [], rq_ID = None,
        rq_Query = [], rq_RTSPRequest = None, rq_RTSPNonce = []\<rparr>"

definition middlewareAuth ::
    "('q, 'k) auth_env \<Rightarrow> int \<Rightarrow> 'k auth_manager \<Rightarrow> api_request \<Rightarrow> 'k auth_manager \<times> (string \<times> string) list \<times> nat option" where
  "middlewareAuth env now m q =
     (case Authenticate env now m (api_auth_request q) of
        (m', None) \<Rightarrow> (m', [], None)
      | (m', Some err) \<Rightarrow>
          (m', if AuthManager.AskCredentials err then [(''WWW-Authenticate'', ''Basic realm='' @ [CHR 0x22] @ ''mediamtx'' @ [CHR 0x22])] else [], Some 401))"

text \<open>A request runs its handler when no middleware aborts it.\<close>

definition api_serve ::
    "('q, 'k) auth_env \<Rightarrow> int \<Rightarrow> string \<Rightarrow> (api_request \<Rightarrow> 's \<Rightarrow> ('d api_reply \<times> 's) result) \<Rightarrow> 'k auth_manager \<Rightarrow> api_request \<Rightarrow>
     's \<Rightarrow> ('d api_reply \<times> 's) result \<times> 'k auth_manager" where
  "api_serve env now origin handler m q s =
     (case snd (middlewareOrigin origin q) of
        Some status \<Rightarrow> (Inr (ApiStatus status, s), m)
      | None \<Rightarrow>
          (case middlewareAuth env now m q of
             (m', _, Some status) \<Rightarrow> (Inr (ApiStatus status, s), m')
           | (m', _, None) \<Rightarrow> (handler q s, m')))"

section \<open>The configuration\<close>

text \<open>
  The configuration that the API holds, and those that it hands to the core, with whether a goroutine of its own does that, after
  which nothing is known about the order, or the handler itself, while it holds the lock.
\<close>

record api_state =
  ap_conf :: conf
  ap_sent :: "(bool \<times> conf) list"

definition paramName :: "api_request \<Rightarrow> string option" where
  "paramName q = (let nm = aq_Param q ''name'' in if length nm < 2 \<or> nm ! 0 \<noteq> slash then None else Some (drop 1 nm))"

definition invalid_name :: go_error where
  "invalid_name = Errorf ''invalid name'' []"

text \<open>What the handlers that change the configuration have in common: clone, change, validate, keep, hand to the core.\<close>

definition refuse :: "(go_error \<Rightarrow> nat) \<Rightarrow> go_error \<Rightarrow> api_state \<Rightarrow> (unit api_reply \<times> api_state) result" where
  "refuse status e a = (if e = Panic then Inl Panic else Inr (ApiError (status e) e, a))"

definition set_conf ::
    "api_env \<Rightarrow> bool \<Rightarrow> (go_error \<Rightarrow> nat) \<Rightarrow> (conf \<Rightarrow> conf result) \<Rightarrow> api_state \<Rightarrow> (unit api_reply \<times> api_state) result" where
  "set_conf env async status change a =
     bindE (Clone (ae_text env) (ap_conf a)) (\<lambda>c0.
       case change c0 of
         Inl e \<Rightarrow> refuse status e a
       | Inr c1 \<Rightarrow>
           (case Validate (ae_conf env) c1 of
              Inl e \<Rightarrow> refuse (\<lambda>_. 400) e a
            | Inr newConf \<Rightarrow> Inr (ApiStatus 200, a\<lparr>ap_conf := newConf, ap_sent := ap_sent a @ [(async, newConf)]\<rparr>)))"

definition bad_request :: "go_error \<Rightarrow> nat" where
  "bad_request e = 400"

definition not_found_or :: "go_error \<Rightarrow> nat \<Rightarrow> go_error \<Rightarrow> nat" where
  "not_found_or sentinel status e = (if e = sentinel then 404 else status)"

definition onConfigGlobalGet :: "api_state \<Rightarrow> conf api_reply" where
  "onConfigGlobalGet a = ApiJSON 200 (Global (ap_conf a))"

definition onConfigGlobalPatch ::
    "api_env \<Rightarrow> optional_global result \<Rightarrow> api_state \<Rightarrow> (unit api_reply \<times> api_state) result" where
  "onConfigGlobalPatch env body a =
     (case body of
        Inl e \<Rightarrow> Inr (ApiError 400 e, a)
      | Inr g \<Rightarrow> set_conf env True bad_request (\<lambda>c. Inr (PatchGlobal g c)) a)"

definition onConfigPathDefaultsGet :: "api_state \<Rightarrow> path_conf api_reply" where
  "onConfigPathDefaultsGet a = ApiJSON 200 (cf_PathDefaults (ap_conf a))"

definition onConfigPathDefaultsPatch ::
    "api_env \<Rightarrow> optional_path result \<Rightarrow> api_state \<Rightarrow> (unit api_reply \<times> api_state) result" where
  "onConfigPathDefaultsPatch env body a =
     (case body of
        Inl e \<Rightarrow> Inr (ApiError 400 e, a)
      | Inr p \<Rightarrow> set_conf env False bad_request (\<lambda>c. Inr (PatchPathDefaults p c)) a)"

text \<open>A list in pages: what is common to all the handlers that list something.\<close>

definition api_pages :: "api_request \<Rightarrow> 'a list \<Rightarrow> 'a api_page api_reply result" where
  "api_pages q items =
     (case paginate items (aq_Query q ''itemsPerPage'') (aq_Query q ''page'') of
        Inl e \<Rightarrow> if e = Panic then Inl Panic else Inr (ApiError 400 e)
      | Inr (s, pageCount) \<Rightarrow>
          Inr (ApiJSON 200 \<lparr>pg_ItemCount = int (length items), pg_PageCount = pageCount, pg_Items = s\<rparr>))"

definition api_sortedKeys :: "(string \<times> path_conf) list \<Rightarrow> string list" where
  "api_sortedKeys paths = sort (map fst paths)"

definition onConfigPathsList :: "api_request \<Rightarrow> api_state \<Rightarrow> path_conf option api_page api_reply result" where
  "onConfigPathsList q a =
     (let paths = cf_Paths (ap_conf a) in api_pages q (map (map_of paths) (api_sortedKeys paths)))"

definition onConfigPathsGet :: "api_request \<Rightarrow> api_state \<Rightarrow> path_conf api_reply" where
  "onConfigPathsGet q a =
     (case paramName q of
        None \<Rightarrow> ApiError 400 invalid_name
      | Some nm \<Rightarrow>
          (case map_of (cf_Paths (ap_conf a)) nm of
             None \<Rightarrow> ApiError 404 (Errorf ''path configuration not found'' [])
           | Some p \<Rightarrow> ApiJSON 200 p))"

definition onConfigPathsAdd ::
    "api_env \<Rightarrow> optional_path result \<Rightarrow> api_request \<Rightarrow> api_state \<Rightarrow> (unit api_reply \<times> api_state) result" where
  "onConfigPathsAdd env body q a =
     (case paramName q of
        None \<Rightarrow> Inr (ApiError 400 invalid_name, a)
      | Some confName \<Rightarrow>
          (case body of
             Inl e \<Rightarrow> Inr (ApiError 400 e, a)
           | Inr p \<Rightarrow> set_conf env False bad_request (AddPath confName p) a))"

definition onConfigPathsPatch ::
    "api_env \<Rightarrow> optional_path result \<Rightarrow> api_request \<Rightarrow> api_state \<Rightarrow> (unit api_reply \<times> api_state) result" where
  "onConfigPathsPatch env body q a =
     (case paramName q of
        None \<Rightarrow> Inr (ApiError 400 invalid_name, a)
      | Some confName \<Rightarrow>
          (case body of
             Inl e \<Rightarrow> Inr (ApiError 400 e, a)
           | Inr p \<Rightarrow> set_conf env False (not_found_or ErrPathNotFound 400) (PatchPath confName p) a))"

definition onConfigPathsReplace ::
    "api_env \<Rightarrow> optional_path result \<Rightarrow> api_request \<Rightarrow> api_state \<Rightarrow> (unit api_reply \<times> api_state) result" where
  "onConfigPathsReplace env body q a =
     (case paramName q of
        None \<Rightarrow> Inr (ApiError 400 invalid_name, a)
      | Some confName \<Rightarrow>
          (case body of
             Inl e \<Rightarrow> Inr (ApiError 400 e, a)
           | Inr p \<Rightarrow> set_conf env False (not_found_or ErrPathNotFound 400) (ReplacePath confName p) a))"

definition onConfigPathsDelete :: "api_env \<Rightarrow> api_request \<Rightarrow> api_state \<Rightarrow> (unit api_reply \<times> api_state) result" where
  "onConfigPathsDelete env q a =
     (case paramName q of
        None \<Rightarrow> Inr (ApiError 400 invalid_name, a)
      | Some confName \<Rightarrow> set_conf env False (not_found_or ErrPathNotFound 400) (RemovePath confName) a)"

text \<open>\<open>ReloadConf\<close> is called by the core.\<close>

definition api_ReloadConf :: "conf \<Rightarrow> api_state \<Rightarrow> api_state" where
  "api_ReloadConf c a = a\<lparr>ap_conf := c\<rparr>"

section \<open>The servers\<close>

text \<open>What the handlers of the servers have in common: a list in pages, an entry by its name or identifier, and a kick.\<close>

definition api_list :: "api_request \<Rightarrow> 'a list result \<Rightarrow> 'a api_page api_reply result" where
  "api_list q data = (case data of Inl e \<Rightarrow> Inr (ApiError 500 e) | Inr items \<Rightarrow> api_pages q items)"

definition api_answer :: "go_error \<Rightarrow> 'a result \<Rightarrow> 'a api_reply" where
  "api_answer sentinel data =
     (case data of Inl e \<Rightarrow> ApiError (not_found_or sentinel 500 e) e | Inr d \<Rightarrow> ApiJSON 200 d)"

definition api_get :: "api_env \<Rightarrow> api_request \<Rightarrow> go_error \<Rightarrow> (uuid \<Rightarrow> 'a result) \<Rightarrow> 'a api_reply" where
  "api_get env q sentinel get =
     (case ae_uuid env (aq_Param q ''id'') of Inl e \<Rightarrow> ApiError 400 e | Inr u \<Rightarrow> api_answer sentinel (get u))"

definition api_get_named :: "api_request \<Rightarrow> go_error \<Rightarrow> (string \<Rightarrow> 'a result) \<Rightarrow> 'a api_reply" where
  "api_get_named q sentinel get =
     (case paramName q of None \<Rightarrow> ApiError 400 invalid_name | Some nm \<Rightarrow> api_answer sentinel (get nm))"

definition api_kick ::
    "api_env \<Rightarrow> api_request \<Rightarrow> go_error \<Rightarrow> (uuid \<Rightarrow> 's \<Rightarrow> unit result \<times> 's) \<Rightarrow> 's \<Rightarrow> unit api_reply \<times> 's" where
  "api_kick env q sentinel kick s =
     (case ae_uuid env (aq_Param q ''id'') of
        Inl e \<Rightarrow> (ApiError 400 e, s)
      | Inr u \<Rightarrow>
          (case kick u s of
             (Inl e, s') \<Rightarrow> (ApiError (not_found_or sentinel 500 e) e, s')
           | (Inr _, s') \<Rightarrow> (ApiStatus 200, s')))"

definition onPathsList :: "api_request \<Rightarrow> 'p list result \<Rightarrow> 'p api_page api_reply result" where
  "onPathsList q data = api_list q data"

definition onPathsGet :: "api_request \<Rightarrow> (string \<Rightarrow> 'p result) \<Rightarrow> 'p api_reply" where
  "onPathsGet q APIPathsGet = api_get_named q ErrPathNotFound APIPathsGet"

definition onRTSPConnsList ::
    "api_request \<Rightarrow> 'c table_env \<Rightarrow> ('c, 'd) ServerTables.rtsp_server \<Rightarrow> 'c api_item api_page api_reply result" where
  "onRTSPConnsList q te s = api_list q (rtsp_APIConnsList te s)"

definition onRTSPConnsGet ::
    "api_env \<Rightarrow> api_request \<Rightarrow> 'c table_env \<Rightarrow> ('c, 'd) ServerTables.rtsp_server \<Rightarrow> 'c api_item api_reply" where
  "onRTSPConnsGet env q te s = api_get env q ErrConnNotFound (\<lambda>u. rtsp_APIConnsGet te u s)"

definition onRTSPSessionsList ::
    "api_request \<Rightarrow> 'd table_env \<Rightarrow> ('c, 'd) ServerTables.rtsp_server \<Rightarrow> 'd api_item api_page api_reply result" where
  "onRTSPSessionsList q te s = api_list q (rtsp_APISessionsList te s)"

definition onRTSPSessionsGet ::
    "api_env \<Rightarrow> api_request \<Rightarrow> 'd table_env \<Rightarrow> ('c, 'd) ServerTables.rtsp_server \<Rightarrow> 'd api_item api_reply" where
  "onRTSPSessionsGet env q te s = api_get env q ErrSessionNotFound (\<lambda>u. rtsp_APISessionsGet te u s)"

definition onRTSPSessionsKick ::
    "api_env \<Rightarrow> api_request \<Rightarrow> 'd table_env \<Rightarrow> ('c, 'd) ServerTables.rtsp_server \<Rightarrow>
     unit api_reply \<times> ('c, 'd) ServerTables.rtsp_server" where
  "onRTSPSessionsKick env q te s = api_kick env q ErrSessionNotFound (rtsp_APISessionsKick te) s"

text \<open>The handlers of the servers with encryption do the same on the state of their own server.\<close>

definition onRTSPSConnsList ::
    "api_request \<Rightarrow> 'c table_env \<Rightarrow> ('c, 'd) ServerTables.rtsp_server \<Rightarrow> 'c api_item api_page api_reply result" where
  "onRTSPSConnsList q te s = api_list q (rtsp_APIConnsList te s)"

definition onRTSPSConnsGet ::
    "api_env \<Rightarrow> api_request \<Rightarrow> 'c table_env \<Rightarrow> ('c, 'd) ServerTables.rtsp_server \<Rightarrow> 'c api_item api_reply" where
  "onRTSPSConnsGet env q te s = api_get env q ErrConnNotFound (\<lambda>u. rtsp_APIConnsGet te u s)"

definition onRTSPSSessionsList ::
    "api_request \<Rightarrow> 'd table_env \<Rightarrow> ('c, 'd) ServerTables.rtsp_server \<Rightarrow> 'd api_item api_page api_reply result" where
  "onRTSPSSessionsList q te s = api_list q (rtsp_APISessionsList te s)"

definition onRTSPSSessionsGet ::
    "api_env \<Rightarrow> api_request \<Rightarrow> 'd table_env \<Rightarrow> ('c, 'd) ServerTables.rtsp_server \<Rightarrow> 'd api_item api_reply" where
  "onRTSPSSessionsGet env q te s = api_get env q ErrSessionNotFound (\<lambda>u. rtsp_APISessionsGet te u s)"

definition onRTSPSSessionsKick ::
    "api_env \<Rightarrow> api_request \<Rightarrow> 'd table_env \<Rightarrow> ('c, 'd) ServerTables.rtsp_server \<Rightarrow>
     unit api_reply \<times> ('c, 'd) ServerTables.rtsp_server" where
  "onRTSPSSessionsKick env q te s = api_kick env q ErrSessionNotFound (rtsp_APISessionsKick te) s"

definition onRTMPConnsList :: "api_request \<Rightarrow> 'd table_env \<Rightarrow> 'd rtmp_server \<Rightarrow> 'd api_item api_page api_reply result" where
  "onRTMPConnsList q te s = api_list q (rtmp_APIConnsList te s)"

definition onRTMPConnsGet :: "api_env \<Rightarrow> api_request \<Rightarrow> 'd table_env \<Rightarrow> 'd rtmp_server \<Rightarrow> 'd api_item api_reply" where
  "onRTMPConnsGet env q te s = api_get env q ErrConnNotFound (\<lambda>u. rtmp_APIConnsGet te u s)"

definition onRTMPConnsKick ::
    "api_env \<Rightarrow> api_request \<Rightarrow> 'd table_env \<Rightarrow> 'd rtmp_server \<Rightarrow> unit api_reply \<times> 'd rtmp_server" where
  "onRTMPConnsKick env q te s = api_kick env q ErrConnNotFound (rtmp_APIConnsKick te) s"

definition onRTMPSConnsList :: "api_request \<Rightarrow> 'd table_env \<Rightarrow> 'd rtmp_server \<Rightarrow> 'd api_item api_page api_reply result" where
  "onRTMPSConnsList q te s = api_list q (rtmp_APIConnsList te s)"

definition onRTMPSConnsGet :: "api_env \<Rightarrow> api_request \<Rightarrow> 'd table_env \<Rightarrow> 'd rtmp_server \<Rightarrow> 'd api_item api_reply" where
  "onRTMPSConnsGet env q te s = api_get env q ErrConnNotFound (\<lambda>u. rtmp_APIConnsGet te u s)"

definition onRTMPSConnsKick ::
    "api_env \<Rightarrow> api_request \<Rightarrow> 'd table_env \<Rightarrow> 'd rtmp_server \<Rightarrow> unit api_reply \<times> 'd rtmp_server" where
  "onRTMPSConnsKick env q te s = api_kick env q ErrConnNotFound (rtmp_APIConnsKick te) s"

definition onHLSMuxersList ::
    "api_request \<Rightarrow> ((string \<Rightarrow> muxer option) \<Rightarrow> muxer list) \<Rightarrow> (muxer list \<Rightarrow> muxer list) \<Rightarrow> hls_server \<Rightarrow>
     muxer api_page api_reply result" where
  "onHLSMuxersList q range_muxers sort_muxers s = api_list q (hls_APIMuxersList range_muxers sort_muxers s)"

definition onHLSMuxersGet :: "api_request \<Rightarrow> hls_server \<Rightarrow> muxer api_reply" where
  "onHLSMuxersGet q s = api_get_named q ErrMuxerNotFound (\<lambda>nm. hls_APIMuxersGet nm s)"

definition onWebRTCSessionsList ::
    "api_request \<Rightarrow> 'd webrtc_data table_env \<Rightarrow> 'd webrtc_server \<Rightarrow> 'd webrtc_data api_item api_page api_reply result" where
  "onWebRTCSessionsList q te s = api_list q (webrtc_APISessionsList te s)"

definition onWebRTCSessionsGet ::
    "api_env \<Rightarrow> api_request \<Rightarrow> 'd webrtc_data table_env \<Rightarrow> 'd webrtc_server \<Rightarrow> 'd webrtc_data api_item api_reply" where
  "onWebRTCSessionsGet env q te s = api_get env q ErrSessionNotFound (\<lambda>u. webrtc_APISessionsGet te u s)"

definition onWebRTCSessionsKick ::
    "api_env \<Rightarrow> api_request \<Rightarrow> 'd webrtc_data table_env \<Rightarrow> 'd webrtc_server \<Rightarrow> unit api_reply \<times> 'd webrtc_server" where
  "onWebRTCSessionsKick env q te s = api_kick env q ErrSessionNotFound (webrtc_APISessionsKick te) s"

definition onSRTConnsList :: "api_request \<Rightarrow> 'd table_env \<Rightarrow> 'd srt_server \<Rightarrow> 'd api_item api_page api_reply result" where
  "onSRTConnsList q te s = api_list q (srt_APIConnsList te s)"

definition onSRTConnsGet :: "api_env \<Rightarrow> api_request \<Rightarrow> 'd table_env \<Rightarrow> 'd srt_server \<Rightarrow> 'd api_item api_reply" where
  "onSRTConnsGet env q te s = api_get env q ErrConnNotFound (\<lambda>u. srt_APIConnsGet te u s)"

definition onSRTConnsKick ::
    "api_env \<Rightarrow> api_request \<Rightarrow> 'd table_env \<Rightarrow> 'd srt_server \<Rightarrow> unit api_reply \<times> 'd srt_server" where
  "onSRTConnsKick env q te s = api_kick env q ErrConnNotFound (srt_APIConnsKick te) s"

section \<open>The recordings\<close>

record api_recording =
  ar_Name :: string
  ar_Segments :: "instant list"

text \<open>An error of \<open>FindSegments\<close> is ignored; a nil configuration, which stands for an error of \<open>FindPathConf\<close>, is a panic.\<close>

definition recordingsOfPath :: "api_env \<Rightarrow> path_conf option \<Rightarrow> string \<Rightarrow> api_recording result" where
  "recordingsOfPath env pathConf pathName =
     (case pathConf of
        None \<Rightarrow> Inl Panic
      | Some c \<Rightarrow>
          Inr \<lparr>ar_Name = pathName,
               ar_Segments = (case FindSegments (ae_store env) c pathName None None of
                                Inl _ \<Rightarrow> [] | Inr segments \<Rightarrow> map sg_Start segments)\<rparr>)"

fun all_results :: "'a result list \<Rightarrow> 'a list result" where
  "all_results [] = Inr []"
| "all_results (x # xs) = bindE x (\<lambda>v. bindE (all_results xs) (\<lambda>vs. Inr (v # vs)))"

definition conf_found :: "api_env \<Rightarrow> conf \<Rightarrow> string \<Rightarrow> path_conf option" where
  "conf_found env c pathName =
     (case FindPathConf (ae_conf env) (cf_Paths c) pathName of Inl _ \<Rightarrow> None | Inr (p, _) \<Rightarrow> Some p)"

definition onRecordingsList :: "api_env \<Rightarrow> api_request \<Rightarrow> api_state \<Rightarrow> api_recording api_page api_reply result" where
  "onRecordingsList env q a =
     (let c = ap_conf a; pathNames = FindAllPathsWithSegments (ae_conf env) (ae_store env) (cf_Paths c) in
      case paginate pathNames (aq_Query q ''itemsPerPage'') (aq_Query q ''page'') of
        Inl e \<Rightarrow> if e = Panic then Inl Panic else Inr (ApiError 400 e)
      | Inr (names, pageCount) \<Rightarrow>
          bindE (all_results (map (\<lambda>nm. recordingsOfPath env (conf_found env c nm) nm) names)) (\<lambda>items.
          Inr (ApiJSON 200 \<lparr>pg_ItemCount = int (length pathNames), pg_PageCount = pageCount, pg_Items = items\<rparr>)))"

definition onRecordingsGet :: "api_env \<Rightarrow> api_request \<Rightarrow> api_state \<Rightarrow> api_recording api_reply result" where
  "onRecordingsGet env q a =
     (case paramName q of
        None \<Rightarrow> Inr (ApiError 400 invalid_name)
      | Some nm \<Rightarrow>
          (case FindPathConf (ae_conf env) (cf_Paths (ap_conf a)) nm of
             Inl e \<Rightarrow> Inr (ApiError 400 e)
           | Inr (p, _) \<Rightarrow> map_sum id (ApiJSON 200) (recordingsOfPath env (Some p) nm)))"

text \<open>The file that is removed; the start is encoded in the zone of the request.\<close>

definition segment_to_delete :: "path_conf \<Rightarrow> string \<Rightarrow> instant \<times> zone \<Rightarrow> string" where
  "segment_to_delete p pathName start =
     Encode (snd start) \<lparr>rp_Start = fst start, rp_Path = []\<rparr>
       (PathAddExtension (ReplaceAll (RecordPath p) ''%path'' pathName) (RecordFormat p))"

definition onRecordingDeleteSegment :: "api_env \<Rightarrow> api_request \<Rightarrow> api_state \<Rightarrow> unit api_reply \<times> string option" where
  "onRecordingDeleteSegment env q a =
     (let pathName = aq_Query q ''path'' in
      case ae_time env (aq_Query q ''start'') of
        Inl e \<Rightarrow> (ApiError 400 (Wrapped ''invalid 'start' parameter: %w'' e), None)
      | Inr start \<Rightarrow>
          (case FindPathConf (ae_conf env) (cf_Paths (ap_conf a)) pathName of
             Inl e \<Rightarrow> (ApiError 400 e, None)
           | Inr (p, _) \<Rightarrow>
               let segmentPath = segment_to_delete p pathName start in
               (case ae_remove env segmentPath of
                  Some e \<Rightarrow> (ApiError 400 e, None)
                | None \<Rightarrow> (ApiStatus 200, Some segmentPath))))"

end
