(* ===== verification/ApiProperties.thy ===== *)
theory ApiProperties
  imports ApiServer
begin

text \<open>
  What the API guarantees: the pages of a list, the configuration that it keeps and hands to the core, what a change of a
  path costs, and where it fails.
\<close>

section \<open>Pages\<close>

lemma go_slice_page:
  fixes xs :: "'a list"
  assumes "0 < k"
  shows "go_slice xs (if int (p * k) > int (length xs) then int (length xs) else int (p * k))
      (if int (Suc p * k) > int (length xs) then int (length xs) else int (Suc p * k)) = Inr (take k (drop (p * k) xs))"
proof -
  let ?a = "min (p * k) (length xs)" and ?b = "min (Suc p * k) (length xs)"
  have a: "(if int (p * k) > int (length xs) then int (length xs) else int (p * k)) = int ?a"
    and b: "(if int (Suc p * k) > int (length xs) then int (length xs) else int (Suc p * k)) = int ?b"
    by (simp_all add: min_def del: of_nat_mult of_nat_Suc)
  have le: "?a \<le> ?b" "?b \<le> length xs" by (auto simp: min_def)
  have "take (?b - ?a) (drop ?a xs) = take k (drop (p * k) xs)"
  proof (cases "p * k \<le> length xs")
    case True
    then show ?thesis
      by (cases "Suc p * k \<le> length xs") (simp_all add: min_def)
  next
    case False
    then show ?thesis by (simp add: min_def)
  qed
  then show ?thesis
    using le unfolding a b go_slice_def by (simp add: nat_int del: of_nat_min)
qed

lemma page_numbers:
  assumes "k < 2 ^ 31" "p < 2 ^ 31"
  shows "int64 (int p * int k) = int (p * k)" "int64 (int64 (int p + 1) * int k) = int (Suc p * k)"
proof -
  have k: "int k \<le> 2147483647" and p: "int p + 1 \<le> 2147483648" using assms by auto
  have "(int p + 1) * int k \<le> 2147483648 * 2147483647"
    using k p by (intro mult_mono) auto
  moreover have "int p * int k \<le> (int p + 1) * int k" by (simp add: algebra_simps)
  ultimately have f: "fits64 (int p + 1)" "fits64 (int p * int k)" "fits64 ((int p + 1) * int k)"
    using p by (simp_all add: fits64_def order.trans [of "- 9223372036854775808" 0])
  show "int64 (int p * int k) = int (p * k)" "int64 (int64 (int p + 1) * int k) = int (Suc p * k)"
    using f by (simp_all add: algebra_simps)
qed

definition page_count :: "nat \<Rightarrow> nat \<Rightarrow> nat" where
  "page_count l k = l div k + (if l mod k = 0 then 0 else 1)"

lemma page_count_bounds:
  assumes "0 < k"
  shows "l \<le> page_count l k * k" "page_count l k * k < l + k"
proof -
  define q where "q = l div k"
  define r where "r = l mod k"
  have l: "l = k * q + r" and m: "r < k" using assms by (simp_all add: q_def r_def)
  show "l \<le> page_count l k * k" "page_count l k * k < l + k"
    unfolding page_count_def q_def [symmetric] r_def [symmetric]
    using l m by (auto simp: algebra_simps)
qed

lemma go_mod_nat: "0 < k \<Longrightarrow> go_mod (int l) (int k) = int (l mod k)"
  by (simp add: go_mod_def go_div_nonneg zmod_int [symmetric] minus_div_mult_eq_mod)

lemma paginate2_page:
  fixes xs :: "'a list"
  assumes "0 < k" "k < 2 ^ 31" "p < 2 ^ 31" "length xs < 2 ^ 62"
  shows "paginate2 xs (int k) (int p) = Inr (take k (drop (p * k) xs), int (page_count (length xs) k))"
proof (cases "xs = []")
  case True
  then show ?thesis by (simp add: paginate2_def page_count_def)
next
  case False
  have "length xs div k \<le> length xs" by simp
  then have "length xs div k < 2 ^ 62" using assms(4) by (rule order.strict_trans1)
  then have f: "fits64 (int (length xs) div int k + 1)"
    by (simp add: fits64_def zdiv_int [symmetric])
  have count: "(if go_mod (int (length xs)) (int k) \<noteq> 0 then int64 (go_div (int (length xs)) (int k) + 1)
      else go_div (int (length xs)) (int k)) = int (page_count (length xs) k)"
    using assms(1) f by (simp add: go_div_nonneg go_mod_nat page_count_def zdiv_int)
  show ?thesis
    unfolding paginate2_def Let_def page_numbers [OF assms(2,3)] go_slice_page [OF assms(1)] count
    using False assms(1) by simp
qed

lemma pages_concat: "concat (map (\<lambda>p. take k (drop (p * k) xs)) [0..<n]) = take (n * k) xs"
  by (induction n) (simp_all add: take_add [symmetric] add.commute)

text \<open>
  C37. The pages of a list: with any number of items per page that the API accepts, every page that can be asked for is the
  part of the list it stands for, without an overflow or a panic, the pages up to the page count give the whole list, in
  order and once, and none of them but the last is short; and whatever the parameters are, the request does not panic.
\<close>

theorem pages_cover:
  fixes xs :: "'a list"
  assumes "0 < k" "k < 2 ^ 31" "length xs < 2 ^ 62"
  shows "\<exists>n. (\<forall>p < 2 ^ 31. paginate xs (FormatInt k) (FormatInt p) = Inr (take k (drop (p * k) xs), int n)) \<and>
    concat (map (\<lambda>p. take k (drop (p * k) xs)) [0..<n]) = xs \<and> n * k < length xs + k \<and>
    (\<forall>s t. paginate xs s t \<noteq> Inl Panic)"
proof (intro exI conjI allI impI)
  let ?n = "page_count (length xs) k"
  show "paginate xs (FormatInt k) (FormatInt p) = Inr (take k (drop (p * k) xs), int ?n)" if p: "p < 2 ^ 31" for p
    using assms p paginate2_page [OF assms(1,2) p assms(3)] FormatInt_all_digits [of k] FormatInt_all_digits [of p]
    by (simp add: paginate_def ParseUint_FormatInt)
  show "concat (map (\<lambda>p. take k (drop (p * k) xs)) [0..<?n]) = xs"
    using page_count_bounds(1) [OF assms(1), of "length xs"] by (simp add: pages_concat)
  show "?n * k < length xs + k" by (rule page_count_bounds(2) [OF assms(1)])
  show "paginate xs s t \<noteq> Inl Panic" for s t
  proof -
    have no: "ParseUint s b \<noteq> Inl Panic" for s b
      by (auto simp: ParseUint_def parse_uint_def ErrSyntax_def ErrRange_def split: if_splits)
    have page: "paginate2 xs i p \<noteq> Inl Panic" if "0 < i" "i < 2 ^ 31" "0 \<le> p" "p < 2 ^ 31" for i p :: int
      using paginate2_page [of "nat i" "nat p" xs] that assms(3) by (simp add: nat_less_iff)
    show ?thesis
      using no ParseUint_bounds [of s 31] ParseUint_bounds [of t 31]
      by (cases "ParseUint s 31"; cases "ParseUint t 31")
        (auto simp: paginate_def bindE_def page split: if_splits)
  qed
qed

lemma pages_cover_witness:
  "paginate ''abcde'' ''2'' ''1'' = Inr (''cd'', 3) \<and> (\<forall>s t. paginate ''abcde'' s t \<noteq> Inl Panic)"
proof -
  have "\<forall>s t. paginate ''abcde'' s t \<noteq> Inl Panic"
    using pages_cover [of 2 "''abcde''"] by auto
  moreover have "paginate ''abcde'' ''2'' ''1'' = Inr (''cd'', 3)" by code_simp
  ultimately show ?thesis by blast
qed

section \<open>The configuration that the API keeps\<close>

lemma set_conf_outcome:
  assumes "set_conf env async status change a = Inr (r, a')"
  shows "(r = ApiStatus 200 \<and> (\<exists>c0 c1. Clone (ae_text env) (ap_conf a) = Inr c0 \<and> change c0 = Inr c1 \<and>
            Validate (ae_conf env) c1 = Inr (ap_conf a') \<and> ap_sent a' = ap_sent a @ [(async, ap_conf a')])) \<or>
         (a' = a \<and> (\<exists>n e. r = ApiError n e \<and> (n = 400 \<or> (\<exists>c0. Clone (ae_text env) (ap_conf a) = Inr c0 \<and> change c0 = Inl e \<and> n = status e))))"
proof -
  obtain c0 where c0: "Clone (ae_text env) (ap_conf a) = Inr c0"
    using assms by (auto simp: set_conf_def bindE_eq_Inr)
  show ?thesis
  proof (cases "change c0")
    case (Inl e)
    then show ?thesis using assms c0 by (auto simp: set_conf_def refuse_def split: if_splits)
  next
    case (Inr c1)
    then show ?thesis
      using assms c0
      by (cases "Validate (ae_conf env) c1") (auto simp: set_conf_def refuse_def split: if_splits)
  qed
qed

text \<open>The calls that change the configuration of the API.\<close>

datatype config_call =
    GlobalPatch "optional_global result"
  | PathDefaultsPatch "optional_path result"
  | PathsAdd "optional_path result" api_request
  | PathsPatch "optional_path result" api_request
  | PathsReplace "optional_path result" api_request
  | PathsDelete api_request

fun config_step :: "api_env \<Rightarrow> config_call \<Rightarrow> api_state \<Rightarrow> (unit api_reply \<times> api_state) result" where
  "config_step env (GlobalPatch body) a = onConfigGlobalPatch env body a"
| "config_step env (PathDefaultsPatch body) a = onConfigPathDefaultsPatch env body a"
| "config_step env (PathsAdd body q) a = onConfigPathsAdd env body q a"
| "config_step env (PathsPatch body q) a = onConfigPathsPatch env body q a"
| "config_step env (PathsReplace body q) a = onConfigPathsReplace env body q a"
| "config_step env (PathsDelete q) a = onConfigPathsDelete env q a"

text \<open>What a call does to the clone of the configuration.\<close>

inductive changed_by :: "config_call \<Rightarrow> conf \<Rightarrow> conf result \<Rightarrow> bool" where
  "changed_by (GlobalPatch (Inr g)) c (Inr (PatchGlobal g c))"
| "changed_by (PathDefaultsPatch (Inr p)) c (Inr (PatchPathDefaults p c))"
| "paramName q = Some nm \<Longrightarrow> changed_by (PathsAdd (Inr p) q) c (AddPath nm p c)"
| "paramName q = Some nm \<Longrightarrow> changed_by (PathsPatch (Inr p) q) c (PatchPath nm p c)"
| "paramName q = Some nm \<Longrightarrow> changed_by (PathsReplace (Inr p) q) c (ReplacePath nm p c)"
| "paramName q = Some nm \<Longrightarrow> changed_by (PathsDelete q) c (RemovePath nm c)"

text \<open>Whether a call leaves the sending to a goroutine.\<close>

definition sends_later :: "config_call \<Rightarrow> bool" where
  "sends_later k = (case k of GlobalPatch _ \<Rightarrow> True | _ \<Rightarrow> False)"

definition call_outcome :: "api_env \<Rightarrow> config_call \<Rightarrow> api_state \<Rightarrow> unit api_reply \<Rightarrow> api_state \<Rightarrow> bool" where
  "call_outcome env k a r a' \<longleftrightarrow>
     (r = ApiStatus 200 \<and> (\<exists>c0 c1. Clone (ae_text env) (ap_conf a) = Inr c0 \<and> changed_by k c0 (Inr c1) \<and>
        Validate (ae_conf env) c1 = Inr (ap_conf a') \<and> ap_sent a' = ap_sent a @ [(sends_later k, ap_conf a')])) \<or>
     (a' = a \<and> (\<exists>n e. r = ApiError n e \<and> (n = 400 \<or>
        (n = 404 \<and> e = ErrPathNotFound \<and> (\<exists>c0. Clone (ae_text env) (ap_conf a) = Inr c0 \<and> changed_by k c0 (Inl e))))))"

lemma set_conf_call:
  assumes "set_conf env async status change a = Inr (r, a')" "\<And>c. changed_by k c (change c)" "async = sends_later k"
    "\<And>e. status e = 400 \<or> (status e = 404 \<and> e = ErrPathNotFound)"
  shows "call_outcome env k a r a'"
  using set_conf_outcome [OF assms(1)]
proof (elim disjE conjE exE)
  fix c0 c1
  assume c: "r = ApiStatus 200" "Clone (ae_text env) (ap_conf a) = Inr c0" "change c0 = Inr c1"
    "Validate (ae_conf env) c1 = Inr (ap_conf a')" "ap_sent a' = ap_sent a @ [(async, ap_conf a')]"
  have "changed_by k c0 (Inr c1)" using assms(2) [of c0] c(3) by simp
  then show ?thesis using c assms(3) unfolding call_outcome_def by blast
next
  fix n e c0
  assume c: "a' = a" "r = ApiError n e" "Clone (ae_text env) (ap_conf a) = Inr c0" "change c0 = Inl e" "n = status e"
  have "changed_by k c0 (Inl e)" using assms(2) [of c0] c(4) by simp
  then show ?thesis using c assms(4) [of e] unfolding call_outcome_def by blast
qed (auto simp: call_outcome_def)

lemma refused_call: "call_outcome env k a (ApiError 400 e) a"
  by (simp add: call_outcome_def)

lemma status_cases: "bad_request e = 400" "not_found_or ErrPathNotFound 400 e = 400 \<or> (not_found_or ErrPathNotFound 400 e = 404 \<and> e = ErrPathNotFound)"
  by (simp_all add: bad_request_def not_found_or_def)

lemma config_call_outcome:
  assumes "config_step env k a = Inr (r, a')"
  shows "call_outcome env k a r a'"
proof (cases k)
  case (GlobalPatch body)
  show ?thesis
  proof (cases body)
    case (Inr g)
    have "set_conf env True bad_request (\<lambda>c. Inr (PatchGlobal g c)) a = Inr (r, a')"
      using assms GlobalPatch Inr by (simp add: onConfigGlobalPatch_def)
    then show ?thesis
      unfolding GlobalPatch Inr by (rule set_conf_call) (simp_all add: sends_later_def status_cases changed_by.intros)
  qed (use assms GlobalPatch in \<open>auto simp: onConfigGlobalPatch_def refused_call\<close>)
next
  case (PathDefaultsPatch body)
  show ?thesis
  proof (cases body)
    case (Inr p)
    have "set_conf env False bad_request (\<lambda>c. Inr (PatchPathDefaults p c)) a = Inr (r, a')"
      using assms PathDefaultsPatch Inr by (simp add: onConfigPathDefaultsPatch_def)
    then show ?thesis
      unfolding PathDefaultsPatch Inr by (rule set_conf_call) (simp_all add: sends_later_def status_cases changed_by.intros)
  qed (use assms PathDefaultsPatch in \<open>auto simp: onConfigPathDefaultsPatch_def refused_call\<close>)
next
  case (PathsAdd body q)
  show ?thesis
  proof (cases "paramName q"; cases body)
    fix nm p
    assume q: "paramName q = Some nm" "body = Inr p"
    have "set_conf env False bad_request (AddPath nm p) a = Inr (r, a')"
      using assms PathsAdd q by (simp add: onConfigPathsAdd_def)
    then show ?thesis
      unfolding PathsAdd q(2) by (rule set_conf_call) (simp_all add: sends_later_def status_cases changed_by.intros(3) [OF q(1)])
  qed (use assms PathsAdd in \<open>auto simp: onConfigPathsAdd_def refused_call\<close>)
next
  case (PathsPatch body q)
  show ?thesis
  proof (cases "paramName q"; cases body)
    fix nm p
    assume q: "paramName q = Some nm" "body = Inr p"
    have "set_conf env False (not_found_or ErrPathNotFound 400) (PatchPath nm p) a = Inr (r, a')"
      using assms PathsPatch q by (simp add: onConfigPathsPatch_def)
    then show ?thesis
      unfolding PathsPatch q(2)
      by (rule set_conf_call) (simp_all add: sends_later_def status_cases changed_by.intros(4) [OF q(1)])
  qed (use assms PathsPatch in \<open>auto simp: onConfigPathsPatch_def refused_call\<close>)
next
  case (PathsReplace body q)
  show ?thesis
  proof (cases "paramName q"; cases body)
    fix nm p
    assume q: "paramName q = Some nm" "body = Inr p"
    have "set_conf env False (not_found_or ErrPathNotFound 400) (ReplacePath nm p) a = Inr (r, a')"
      using assms PathsReplace q by (simp add: onConfigPathsReplace_def)
    then show ?thesis
      unfolding PathsReplace q(2)
      by (rule set_conf_call) (simp_all add: sends_later_def status_cases changed_by.intros(5) [OF q(1)])
  qed (use assms PathsReplace in \<open>auto simp: onConfigPathsReplace_def refused_call\<close>)
next
  case (PathsDelete q)
  show ?thesis
  proof (cases "paramName q")
    case (Some nm)
    have "set_conf env False (not_found_or ErrPathNotFound 400) (RemovePath nm) a = Inr (r, a')"
      using assms PathsDelete Some by (simp add: onConfigPathsDelete_def)
    then show ?thesis
      unfolding PathsDelete
      by (rule set_conf_call) (simp_all add: sends_later_def status_cases changed_by.intros(6) [OF Some])
  qed (use assms PathsDelete in \<open>auto simp: onConfigPathsDelete_def refused_call\<close>)
qed

text \<open>A configuration as the validation leaves it.\<close>

definition conf_good :: "conf \<Rightarrow> bool" where
  "conf_good c \<longleftrightarrow>
     distinct (map fst (cf_OptionalPaths c)) \<and> settings_ok c \<and> conf_table (cf_Paths c) \<and>
     map fst (cf_Paths c) = conf_sortedKeys (cf_OptionalPaths c) \<and>
     (\<forall>(nm, p) \<in> set (cf_Paths c). conf_valid p \<and> Name p = nm)"

lemma validated_good:
  assumes "Validate env c = Inr c'" "distinct (map fst (cf_OptionalPaths c))"
  shows "conf_good c'"
proof -
  have "validate_paths env (legacy_mode c) (conf_sortedKeys (cf_OptionalPaths (prepared c))) (prepared c) = Inr c'"
    using Validate_Inr [OF assms(1)] by blast
  then obtain ps us where "c' = (prepared c)\<lparr>cf_Paths := ps, cf_AuthInternalUsers := us\<rparr>"
    using validate_paths_only by blast
  then have "map fst (cf_OptionalPaths c') = map fst (cf_OptionalPaths c)"
    by (simp add: prepared_paths)
  then show ?thesis
    using validated_conf_parts [OF assms] assms(2) by (auto simp: conf_good_def conf_sortedKeys_def)
qed

lemma clone_paths_names: "clone_paths ct ps = Inr qs \<Longrightarrow> map fst qs = map fst ps"
  by (induction ct ps arbitrary: qs rule: clone_paths.induct) (auto simp: bindE_eq_Inr)

lemma Clone_OptionalPaths: "Clone ct c = Inr d \<Longrightarrow> clone_paths ct (cf_OptionalPaths c) = Inr (cf_OptionalPaths d)"
  by (auto simp: Clone_def no_error_def bindE_eq_Inr split: sum.splits)

lemma changed_names:
  assumes "changed_by k c (Inr d)" "distinct (map fst (cf_OptionalPaths c))"
  shows "distinct (map fst (cf_OptionalPaths d))"
  using assms
  by (cases rule: changed_by.cases)
    (auto simp: PatchGlobal_def copy_global_def PatchPathDefaults_def AddPath_def PatchPath_def ReplacePath_def RemovePath_def
      distinct_update distinct_delete split: if_splits option.splits)

lemma call_sends: "call_outcome env k a r a' \<Longrightarrow> a' = a \<or> ap_sent a' = ap_sent a @ [(sends_later k, ap_conf a')]"
  unfolding call_outcome_def by blast

lemma config_call_good:
  assumes "config_step env k a = Inr (r, a')" "conf_good (ap_conf a)"
  shows "conf_good (ap_conf a')"
proof -
  from config_call_outcome [OF assms(1), unfolded call_outcome_def] show ?thesis
  proof (elim disjE conjE exE)
    fix c0 c1
    assume c: "Clone (ae_text env) (ap_conf a) = Inr c0" "changed_by k c0 (Inr c1)" "Validate (ae_conf env) c1 = Inr (ap_conf a')"
    have "map fst (cf_OptionalPaths c0) = map fst (cf_OptionalPaths (ap_conf a))"
      by (rule clone_paths_names [OF Clone_OptionalPaths [OF c(1)]])
    then have "distinct (map fst (cf_OptionalPaths c1))"
      using changed_names [OF c(2)] assms(2) by (simp add: conf_good_def)
    then show ?thesis by (rule validated_good [OF c(3)])
  qed (use assms(2) in simp_all)
qed

text \<open>Any number of calls, and reloads by the core.\<close>

datatype api_event = Call config_call | CoreReload conf

fun api_run :: "api_env \<Rightarrow> api_event list \<Rightarrow> api_state \<Rightarrow> api_state result" where
  "api_run env [] a = Inr a"
| "api_run env (Call k # es) a = bindE (config_step env k a) (\<lambda>(_, a1). api_run env es a1)"
| "api_run env (CoreReload c # es) a = api_run env es (api_ReloadConf c a)"

text \<open>
  C7. The configuration that the API keeps is always one that the validation accepted: whatever calls are made, in whatever order
  and with whatever contents, mixed with reloads by the core, what the API holds and everything it hands to the core is in its
  ranges, has one valid path for each entry, under its own name, and no repeated entries; and as long as the core does not
  reload, the core is handed exactly what is kept: the last configuration sent is the one that the API holds.
\<close>

theorem api_conf_valid:
  assumes "api_run env es a = Inr a'" "conf_good (ap_conf a)" "\<forall>c. CoreReload c \<in> set es \<longrightarrow> conf_good c"
  shows "conf_good (ap_conf a') \<and>
    (\<exists>sent. ap_sent a' = ap_sent a @ sent \<and> (\<forall>(_, c) \<in> set sent. conf_good c) \<and>
       ((\<forall>c. CoreReload c \<notin> set es) \<longrightarrow> ap_conf a' = (if sent = [] then ap_conf a else snd (last sent))))"
  using assms
proof (induction es arbitrary: a)
  case (Cons e es)
  show ?case
  proof (cases e)
    case (Call k)
    then obtain r a1 where k: "config_step env k a = Inr (r, a1)" and run: "api_run env es a1 = Inr a'"
      using Cons.prems(1) by (auto simp: bindE_eq_Inr)
    have good: "conf_good (ap_conf a1)" by (rule config_call_good [OF k Cons.prems(2)])
    have "conf_good (ap_conf a') \<and>
      (\<exists>sent. ap_sent a' = ap_sent a1 @ sent \<and> (\<forall>(_, c) \<in> set sent. conf_good c) \<and>
         ((\<forall>c. CoreReload c \<notin> set es) \<longrightarrow> ap_conf a' = (if sent = [] then ap_conf a1 else snd (last sent))))"
      by (rule Cons.IH [OF run good]) (use Cons.prems(3) in simp)
    then obtain sent where last: "conf_good (ap_conf a')" and sent: "ap_sent a' = ap_sent a1 @ sent" "\<forall>(_, c) \<in> set sent. conf_good c"
      "(\<forall>c. CoreReload c \<notin> set es) \<longrightarrow> ap_conf a' = (if sent = [] then ap_conf a1 else snd (last sent))"
      by (elim conjE exE)
    have same: "(\<forall>c. CoreReload c \<notin> set (e # es)) \<longleftrightarrow> (\<forall>c. CoreReload c \<notin> set es)" using Call by simp
    note call_sends [OF config_call_outcome [OF k]]
    then show ?thesis
    proof
      assume "a1 = a"
      then show ?thesis unfolding same using sent last by (intro conjI exI [of _ sent]) simp_all
    next
      assume "ap_sent a1 = ap_sent a @ [(sends_later k, ap_conf a1)]"
      then have all: "ap_sent a' = ap_sent a @ (sends_later k, ap_conf a1) # sent" using sent(1) by simp
      show ?thesis
        unfolding same using sent(2,3) last good all
        by (intro conjI exI [of _ "(sends_later k, ap_conf a1) # sent"]) simp_all
    qed
  next
    case (CoreReload c)
    then have run: "api_run env es (api_ReloadConf c a) = Inr a'" using Cons.prems(1) by simp
    have good: "conf_good (ap_conf (api_ReloadConf c a))" using Cons.prems(3) CoreReload by (simp add: api_ReloadConf_def)
    have "conf_good (ap_conf a') \<and>
      (\<exists>sent. ap_sent a' = ap_sent (api_ReloadConf c a) @ sent \<and> (\<forall>(_, c) \<in> set sent. conf_good c) \<and>
         ((\<forall>c. CoreReload c \<notin> set es) \<longrightarrow>
            ap_conf a' = (if sent = [] then ap_conf (api_ReloadConf c a) else snd (last sent))))"
      by (rule Cons.IH [OF run good]) (use Cons.prems(3) in simp)
    then obtain sent where sent: "conf_good (ap_conf a')" "ap_sent a' = ap_sent (api_ReloadConf c a) @ sent"
      "\<forall>(_, c) \<in> set sent. conf_good c"
      by (elim conjE exE)
    have no: "(\<forall>d. CoreReload d \<notin> set (e # es)) \<longleftrightarrow> False" using CoreReload by auto
    show ?thesis
      unfolding no using sent by (intro conjI exI [of _ sent]) (simp_all add: api_ReloadConf_def)
  qed
qed simp

text \<open>
  The replies to a change of the configuration: 200 exactly when the change was applied to a clone of the configuration, was accepted by the
  validation, is kept and was handed to the core, once; otherwise 400, or 404 when the path that is to be patched or deleted
  has no entry, and nothing at all has changed.
\<close>

theorem api_config_replies:
  assumes "config_step env k a = Inr (r, a')"
  shows "if reply_status r = 200 then
      \<exists>c0 c1. Clone (ae_text env) (ap_conf a) = Inr c0 \<and> changed_by k c0 (Inr c1) \<and>
        Validate (ae_conf env) c1 = Inr (ap_conf a') \<and> ap_sent a' = ap_sent a @ [(sends_later k, ap_conf a')]
    else a' = a \<and> (reply_status r = 400 \<or>
      (reply_status r = 404 \<and> (\<exists>nm q c0. Clone (ae_text env) (ap_conf a) = Inr c0 \<and> nm \<notin> fst ` set (cf_OptionalPaths c0) \<and>
         paramName q = Some nm \<and> ((\<exists>p. k = PathsPatch p q) \<or> k = PathsDelete q))))"
proof -
  have missing: "\<exists>nm q. nm \<notin> fst ` set (cf_OptionalPaths c0) \<and> paramName q = Some nm \<and> ((\<exists>p. k = PathsPatch p q) \<or> k = PathsDelete q)"
    if "changed_by k c0 (Inl ErrPathNotFound)" for c0
  proof -
    have "AddPath nm p c0 \<noteq> Inl ErrPathNotFound" "ReplacePath nm p c0 \<noteq> Inl ErrPathNotFound" for nm p
      by (simp_all add: AddPath_def ReplacePath_def ErrPathNotFound_def)
    moreover have "PatchPath nm p c0 = Inl ErrPathNotFound \<Longrightarrow> nm \<notin> fst ` set (cf_OptionalPaths c0)" for nm p
      by (simp add: PatchPath_def map_of_eq_None_iff ErrPathNotFound_def split: option.splits)
    moreover have "RemovePath nm c0 = Inl ErrPathNotFound \<Longrightarrow> nm \<notin> fst ` set (cf_OptionalPaths c0)" for nm
      by (simp add: RemovePath_def split: if_splits)
    ultimately show ?thesis
      by (cases rule: changed_by.cases [OF that]) (simp_all, metis+)
  qed
  from config_call_outcome [OF assms, unfolded call_outcome_def] show ?thesis
  proof (elim disjE conjE exE)
    fix n e c0
    assume "a' = a" "r = ApiError n e" "n = 404" "e = ErrPathNotFound" "Clone (ae_text env) (ap_conf a) = Inr c0" "changed_by k c0 (Inl e)"
    then show ?thesis using missing [of c0] by auto
  qed auto
qed

section \<open>What a change of a path costs\<close>

text \<open>A configuration that comes back from a clone as it was, but for the paths, which are made again.\<close>

definition clone_stable :: "conf_text \<Rightarrow> conf \<Rightarrow> bool" where
  "clone_stable ct c \<longleftrightarrow> Clone ct c = Inr (c\<lparr>cf_Paths := []\<rparr>)"

lemma same_but_paths_closes_nothing:
  "\<not> closing d (Some (c\<lparr>cf_OptionalPaths := os, cf_Paths := ps\<rparr>)) c"
  by (cases d)
    (simp_all add: closeLogger_def closeAuthManager_def closeMetrics_def closePPROF_def closeRecorderCleaner_def
      closePlaybackServer_def closePathManager_def closeRTSPServer_def closeRTSPSServer_def closeRTMPServer_def
      closeRTMPSServer_def closeHLSServer_def closeWebRTCServer_def closeSRTServer_def closeAPI_def if_new_def
      http_changed_def hooks_changed_def)

text \<open>The calls that change the paths.\<close>

definition edits_paths :: "config_call \<Rightarrow> bool" where
  "edits_paths k = (case k of GlobalPatch _ \<Rightarrow> False | PathDefaultsPatch _ \<Rightarrow> False | _ \<Rightarrow> True)"

lemma edits_paths_only:
  assumes "changed_by k c (Inr d)" "edits_paths k"
  shows "\<exists>os. d = c\<lparr>cf_OptionalPaths := os\<rparr>"
proof -
  have "AddPath nm p c = Inr d \<Longrightarrow> \<exists>os. d = c\<lparr>cf_OptionalPaths := os\<rparr>" for nm p
    by (cases "nm \<in> fst ` set (cf_OptionalPaths c)") (simp_all add: AddPath_def, rule exI, erule sym)
  moreover have "PatchPath nm p c = Inr d \<Longrightarrow> \<exists>os. d = c\<lparr>cf_OptionalPaths := os\<rparr>" for nm p
    by (simp add: PatchPath_def split: option.splits) (rule exI, erule sym)
  moreover have "ReplacePath nm p c = Inr d \<Longrightarrow> \<exists>os. d = c\<lparr>cf_OptionalPaths := os\<rparr>" for nm p
    by (simp add: ReplacePath_def) (rule exI, erule sym)
  moreover have "RemovePath nm c = Inr d \<Longrightarrow> \<exists>os. d = c\<lparr>cf_OptionalPaths := os\<rparr>" for nm
    by (cases "nm \<in> fst ` set (cf_OptionalPaths c)") (simp_all add: RemovePath_def, rule exI, erule sym)
  moreover note assms(2)
  ultimately show ?thesis
    by (cases rule: changed_by.cases [OF assms(1)]) (simp_all add: edits_paths_def)
qed

lemma validated_legacy:
  assumes "Validate env c = Inr c'"
  shows "legacy_mode c' = legacy_mode c"
proof -
  have "validate_paths env (legacy_mode c) (conf_sortedKeys (cf_OptionalPaths (prepared c))) (prepared c) = Inr c'"
    using Validate_Inr [OF assms] by blast
  then obtain ps us where c': "c' = (prepared c)\<lparr>cf_Paths := ps, cf_AuthInternalUsers := us\<rparr>"
    using validate_paths_only by blast
  have "Deprecated (cf_PathDefaults (prepared c)) = Deprecated (cf_PathDefaults c)"
    unfolding prepared_def Let_def by (simp add: record_replaced_def Let_def)
  then have "anyPathHasDeprecatedCredentials (cf_PathDefaults (prepared c)) ps = anyPathHasDeprecatedCredentials (cf_PathDefaults c) ps" for ps
    by (simp add: anyPathHasDeprecatedCredentials_def)
  then show ?thesis
    unfolding c' by (simp add: legacy_mode_def prepared_paths)
qed


section \<open>Deprecated credentials\<close>

lemma clone_deprecated_set: "clone_deprecated ct d = Inr e \<Longrightarrow> credentials_set e = credentials_set d"
  by (cases "PublishIPs d"; cases "ReadIPs d") (auto simp: clone_deprecated_def bindE_eq_Inr credentials_set_def)

lemma clone_paths_credentials:
  "clone_paths ct ps = Inr qs \<Longrightarrow>
   list_ex (\<lambda>(_, p). case p of Some p \<Rightarrow> credentials_set (oDeprecated p) | None \<Rightarrow> False) qs =
   list_ex (\<lambda>(_, p). case p of Some p \<Rightarrow> credentials_set (oDeprecated p) | None \<Rightarrow> False) ps"
  by (induction ct ps arbitrary: qs rule: clone_paths.induct) (auto simp: bindE_eq_Inr clone_deprecated_set)

lemma clone_users_permissions: "clone_users ct us = Inr vs \<Longrightarrow> map Permissions vs = map Permissions us"
  by (induction us arbitrary: vs) (auto simp: bindE_eq_Inr)

lemma clone_legacy:
  assumes "Clone ct c = Inr d"
  shows "legacy_mode d = legacy_mode c"
    "map_option (map Permissions) (cf_AuthInternalUsers d) = map_option (map Permissions) (cf_AuthInternalUsers c)"
proof -
  have "clone_deprecated ct (Deprecated (cf_PathDefaults c)) = Inr (Deprecated (cf_PathDefaults d))"
    and users: "clone_opt_users ct (cf_AuthInternalUsers c) = Inr (cf_AuthInternalUsers d)"
    using assms by (auto simp: Clone_def no_error_def bindE_eq_Inr split: sum.splits)
  then show "legacy_mode d = legacy_mode c"
    using clone_deprecated_set clone_paths_credentials [OF Clone_OptionalPaths [OF assms]]
    by (simp add: legacy_mode_def anyPathHasDeprecatedCredentials_def)
  show "map_option (map Permissions) (cf_AuthInternalUsers d) = map_option (map Permissions) (cf_AuthInternalUsers c)"
    using users clone_users_permissions by (cases "cf_AuthInternalUsers c") auto
qed

lemma copy_credentials: "credentials_set d \<Longrightarrow> credentials_set (copy_deprecated o' d)"
  by (auto simp: credentials_set_def copy_deprecated_def set_pointer_def split: option.split)

lemma list_ex_update:
  assumes "map_of ps nm = Some v" "P (nm, v) \<Longrightarrow> P (nm, w)"
  shows "list_ex P ps \<Longrightarrow> list_ex P (AList.update nm w ps)"
  using assms by (induction ps) auto

lemma changed_keeps_credentials:
  assumes "changed_by k c (Inr d)" "legacy_mode c" "case k of PathDefaultsPatch _ \<Rightarrow> True | PathsAdd _ _ \<Rightarrow> True | PathsPatch _ _ \<Rightarrow> True | _ \<Rightarrow> False"
  shows "legacy_mode d \<and> cf_AuthInternalUsers d = cf_AuthInternalUsers c"
proof -
  let ?P = "\<lambda>(_, p). case p of Some p \<Rightarrow> credentials_set (oDeprecated p) | None \<Rightarrow> False"
  have mode: "credentials_set (Deprecated (cf_PathDefaults c)) \<or> list_ex ?P (cf_OptionalPaths c)"
    using assms(2) by (simp add: legacy_mode_def anyPathHasDeprecatedCredentials_def)
  have copied: "credentials_set (Deprecated (cf_PathDefaults c)) \<Longrightarrow>
      credentials_set (Deprecated (copy_path p (cf_PathDefaults c)))" for p
    by (simp add: copy_path_def copy_credentials)
  have defaults: "legacy_mode (c\<lparr>cf_PathDefaults := copy_path p (cf_PathDefaults c)\<rparr>)" for p
    using mode copied [of p] by (auto simp: legacy_mode_def anyPathHasDeprecatedCredentials_def)
  have add: "legacy_mode d \<and> cf_AuthInternalUsers d = cf_AuthInternalUsers c" if "AddPath nm p c = Inr d" for nm p
  proof -
    have new: "nm \<notin> fst ` set (cf_OptionalPaths c)" and d: "d = c\<lparr>cf_OptionalPaths := AList.update nm (Some p) (cf_OptionalPaths c)\<rparr>"
      using that by (simp_all add: AddPath_def split: if_splits)
    have "nm \<notin> fst ` set ps \<Longrightarrow> AList.update nm (Some p) ps = ps @ [(nm, Some p)]" for ps
      by (induction ps) auto
    then have "d = c\<lparr>cf_OptionalPaths := cf_OptionalPaths c @ [(nm, Some p)]\<rparr>"
      using new d by simp
    then show ?thesis
      using mode by (auto simp: legacy_mode_def anyPathHasDeprecatedCredentials_def)
  qed
  have patch: "legacy_mode d \<and> cf_AuthInternalUsers d = cf_AuthInternalUsers c" if patched: "PatchPath nm p c = Inr d" for nm p
  proof -
    obtain q where q: "map_of (cf_OptionalPaths c) nm = Some (Some q)"
      and d: "d = c\<lparr>cf_OptionalPaths := AList.update nm (Some (copy_optional p q)) (cf_OptionalPaths c)\<rparr>"
      using patched by (auto simp: PatchPath_def split: option.splits)
    have "list_ex ?P (cf_OptionalPaths c) \<Longrightarrow> list_ex ?P (AList.update nm (Some (copy_optional p q)) (cf_OptionalPaths c))"
      by (rule list_ex_update [OF q]) (simp_all add: copy_optional_def copy_credentials)
    then show ?thesis
      using mode unfolding d by (auto simp: legacy_mode_def anyPathHasDeprecatedCredentials_def)
  qed
  show ?thesis
    using assms(3) defaults add patch
    by (cases rule: changed_by.cases [OF assms(1)]) (simp_all add: PatchPathDefaults_def)
qed


section \<open>The recordings\<close>

lemma all_results_panic:
  "(\<And>x. x \<in> set xs \<Longrightarrow> f x = Inl Panic \<or> (\<exists>v. f x = Inr v)) \<Longrightarrow>
   (if \<exists>x\<in>set xs. f x = Inl Panic then all_results (map f xs) = Inl Panic else \<exists>vs. all_results (map f xs) = Inr vs \<and> map f xs = map Inr vs)"
proof (induction xs)
  case (Cons x xs)
  have IH: "if \<exists>x\<in>set xs. f x = Inl Panic then all_results (map f xs) = Inl Panic
      else \<exists>vs. all_results (map f xs) = Inr vs \<and> map f xs = map Inr vs"
    using Cons by simp
  have "f x = Inl Panic \<or> (\<exists>v. f x = Inr v)" using Cons.prems by simp
  then show ?case using IH by (elim disjE exE) (auto split: if_splits intro: exI [of _ "_ # _"])
qed simp

text \<open>
  C40. A file can end the process: the list of the recordings, asked for without parameters, panics, and with it the whole server,
  exactly when among the first hundred names that the disk gives there is one for which no configuration is found, such as a name
  that is not a valid path name; otherwise it answers with a recording for every one of them.
\<close>

theorem recordings_list_crash:
  assumes "aq_Query q ''itemsPerPage'' = []" "aq_Query q ''page'' = []"
    "length (FindAllPathsWithSegments (ae_conf env) (ae_store env) (cf_Paths (ap_conf a))) < 2 ^ 62"
  shows "if \<exists>nm \<in> set (take 100 (FindAllPathsWithSegments (ae_conf env) (ae_store env) (cf_Paths (ap_conf a)))).
        conf_found env (ap_conf a) nm = None
    then onRecordingsList env q a = Inl Panic
    else \<exists>page. onRecordingsList env q a = Inr (ApiJSON 200 page) \<and>
      map ar_Name (pg_Items page) = take 100 (FindAllPathsWithSegments (ae_conf env) (ae_store env) (cf_Paths (ap_conf a)))"
proof -
  let ?names = "FindAllPathsWithSegments (ae_conf env) (ae_store env) (cf_Paths (ap_conf a))"
  let ?f = "\<lambda>nm. recordingsOfPath env (conf_found env (ap_conf a) nm) nm"
  have page: "paginate ?names [] [] = Inr (take 100 ?names, int (page_count (length ?names) 100))"
    using paginate2_page [of 100 0 ?names] assms(3) by (simp add: paginate_def)
  have none: "?f nm = Inl Panic \<longleftrightarrow> conf_found env (ap_conf a) nm = None" for nm
    by (simp add: recordingsOfPath_def split: option.split)
  have named: "?f nm = Inr v \<Longrightarrow> ar_Name v = nm" for nm v
    by (auto simp: recordingsOfPath_def split: option.splits)
  have all: "if \<exists>nm\<in>set (take 100 ?names). ?f nm = Inl Panic then all_results (map ?f (take 100 ?names)) = Inl Panic
      else \<exists>vs. all_results (map ?f (take 100 ?names)) = Inr vs \<and> map ?f (take 100 ?names) = map Inr vs"
    by (rule all_results_panic) (auto simp: recordingsOfPath_def split: option.split)
  have names: "map ar_Name vs = xs" if "map ?f xs = map Inr vs" for vs xs
    using that by (induction xs arbitrary: vs) (auto dest: named)
  show ?thesis
    using all names unfolding none onRecordingsList_def Let_def assms(1,2) page by (auto split: if_splits)
qed

end
