(* ===== verification/ApiSamples.thy ===== *)
theory ApiSamples
  imports ApiProperties
begin

text \<open>
  An API with a small configuration, on which the properties of the calls that change the configuration are applied.
\<close>

section \<open>An example\<close>

text \<open>A small API: the defaults with two paths, whose two local networks and whose size are printed and read back.\<close>

definition sample_text :: conf_text where
  "sample_text =
     \<lparr>ct_net =
        \<lparr>net_ParseCIDR = map_of [(''127.0.0.1/32'', localhost ! 0), (''::1/128'', localhost ! 1)],
         net_ParseIP = \<lambda>_. None,
         net_String = \<lambda>n. if n = localhost ! 0 then ''127.0.0.1/32'' else ''::1/128''\<rparr>,
      ct_size = \<lparr>ByteSize = \<lambda>_. ''50M'', ToBytes = \<lambda>_. Inr (50 * 1024 * 1024)\<rparr>\<rparr>"

definition sample_api :: api_env where
  "sample_api =
     \<lparr>ae_conf = sample_env, ae_text = sample_text, ae_store = store_sample, ae_uuid = \<lambda>_. Inr [],
      ae_time = \<lambda>_. Inr (0, utc_zone), ae_remove = \<lambda>_. None\<rparr>"

lemma localhost_back: "clone_nets sample_text localhost = Inr localhost"
proof -
  have "To4 (replicate 15 0 @ [1]) = None" by (simp add: To4_def) code_simp
  then have "list_all (plain_net (ct_net sample_text)) localhost"
    by (simp add: plain_net_def sample_text_def localhost_def To4_def [of "[127, 0, 0, 1]"])
  moreover have "sorted_nets (ct_net sample_text) localhost = localhost"
    by (simp add: sorted_nets_def sample_text_def localhost_def less_eq_char_def)
  ultimately show ?thesis by (simp add: clone_nets_def networks_back)
qed

lemma no_nets_back [simp]: "clone_nets ct [] = Inr []"
  by (simp add: clone_nets_def IPNetworks_MarshalJSON_def IPNetworks_UnmarshalJSON_def)

lemma sample_fields:
  "cf_Deprecated sample_validated = no_deprecated_global" "cf_AuthInternalUsers sample_validated = Some defaultAuthInternalUsers"
  "rs_AuthMethods (cf_RTSP sample_validated) = [ValidateMethodBasic]" "hl_SegmentMaxSize (cf_HLS sample_validated) = 50 * 1024 * 1024"
  "cf_PathDefaults sample_validated = sample_path" "hc_TrustedProxies (cf_API sample_validated) = []"
  "hc_TrustedProxies (cf_Metrics sample_validated) = []" "hc_TrustedProxies (cf_PPROF sample_validated) = []"
  "hc_TrustedProxies (cf_Playback sample_validated) = []" "hc_TrustedProxies (hl_http (cf_HLS sample_validated)) = []"
  "hc_TrustedProxies (wr_http (cf_WebRTC sample_validated)) = []"
  "cf_OptionalPaths sample_validated =
     [(''cam'', Some (newOptionalPathValues\<lparr>oMaxReaders := Some 3\<rparr>)), (''all_others'', Some newOptionalPathValues)]"
  by (simp_all add: sample_validated_def sample_global_fields fill_optional_def)
    (simp_all add: sample_global_def conf_setDefaults_def zero_global_def http_defaults_def zero_http_def sample_path_def)

lemma users_back: "clone_opt_users sample_text (Some defaultAuthInternalUsers) = Inr (Some defaultAuthInternalUsers)"
  by (simp add: defaultAuthInternalUsers_def localhost_back)

lemma size_back: "StringSize_UnmarshalJSON (ct_size sample_text) (StringSize_MarshalJSON (ct_size sample_text) n) = Inr (50 * 1024 * 1024)"
  by (simp add: StringSize_UnmarshalJSON_def sample_text_def)

lemma methods_back: "RTSPAuthMethods_UnmarshalJSON (RTSPAuthMethods_MarshalJSON [ValidateMethodBasic]) = Inr [ValidateMethodBasic]"
  by code_simp

lemma no_deprecated_back [simp]: "clone_deprecated ct no_deprecated = Inr no_deprecated"
  by (simp add: clone_deprecated_def no_deprecated_def)

lemma Clone_stable:
  assumes "list_all (\<lambda>h. clone_http ct h = Inr h)
      [cf_API c, cf_Metrics c, cf_PPROF c, cf_Playback c, hl_http (cf_HLS c), wr_http (cf_WebRTC c)]"
    "clone_opt_users ct (cf_AuthInternalUsers c) = Inr (cf_AuthInternalUsers c)"
    "RTSPAuthMethods_UnmarshalJSON (RTSPAuthMethods_MarshalJSON (rs_AuthMethods (cf_RTSP c))) = Inr (rs_AuthMethods (cf_RTSP c))"
    "clone_opt_methods (dAuthMethods (cf_Deprecated c)) = Inr (dAuthMethods (cf_Deprecated c))"
    "StringSize_UnmarshalJSON (ct_size ct) (StringSize_MarshalJSON (ct_size ct) (hl_SegmentMaxSize (cf_HLS c))) = Inr (hl_SegmentMaxSize (cf_HLS c))"
    "clone_deprecated ct (Deprecated (cf_PathDefaults c)) = Inr (Deprecated (cf_PathDefaults c))"
    "clone_paths ct (cf_OptionalPaths c) = Inr (cf_OptionalPaths c)" "Regexp (cf_PathDefaults c) = None"
  shows "Clone ct c = Inr (c\<lparr>cf_Paths := []\<rparr>)"
proof -
  have "(cf_PathDefaults c)\<lparr>Regexp := None, Deprecated := Deprecated (cf_PathDefaults c)\<rparr> =
      (cf_PathDefaults c)\<lparr>Regexp := Regexp (cf_PathDefaults c)\<rparr>"
    using assms(8) by simp
  then show ?thesis using assms(1-7) by (simp add: Clone_def no_error_def)
qed

lemma sample_clone:
  assumes "clone_paths sample_text os = Inr os"
  shows "Clone sample_text (sample_validated\<lparr>cf_OptionalPaths := os, cf_Paths := ps\<rparr>) =
    Inr (sample_validated\<lparr>cf_OptionalPaths := os, cf_Paths := []\<rparr>)"
proof -
  have h: "hc_TrustedProxies h = [] \<Longrightarrow> clone_http sample_text h = Inr h" for h
    by (cases h) (simp add: clone_http_def)
  have none: "dAuthMethods no_deprecated_global = None" by (simp add: no_deprecated_global_def)
  show ?thesis
    by (subst Clone_stable) (simp_all add: assms h sample_fields none users_back size_back methods_back sample_path_fields
        del: clone_opt_users.simps)
qed

lemma sample_replaced: "replaced (sample_validated\<lparr>cf_OptionalPaths := os, cf_Paths := ps\<rparr>) = sample_validated\<lparr>cf_OptionalPaths := os, cf_Paths := ps\<rparr>"
  by (rule nothing_replaced) (simp add: sample_fields)

lemma sample_mode: "legacy_mode (sample_validated\<lparr>cf_OptionalPaths := os, cf_Paths := ps\<rparr>) = anyPathHasDeprecatedCredentials sample_path os"
  by (simp add: legacy_mode_def sample_fields)

lemma sample_no_credentials:
  "\<not> anyPathHasDeprecatedCredentials sample_path []"
  "anyPathHasDeprecatedCredentials sample_path ((nm, Some newOptionalPathValues) # os) = anyPathHasDeprecatedCredentials sample_path os"
  "anyPathHasDeprecatedCredentials sample_path (cf_OptionalPaths sample_validated) = False"
  by (simp_all add: anyPathHasDeprecatedCredentials_def sample_path_fields sample_fields)
    (simp_all add: credentials_set_def no_deprecated_def newOptionalPathValues_def)

lemma sample_paths_back:
  "clone_paths sample_text (cf_OptionalPaths sample_validated) = Inr (cf_OptionalPaths sample_validated)"
  "clone_paths sample_text ((nm, Some newOptionalPathValues) # cf_OptionalPaths sample_validated) =
     Inr ((nm, Some newOptionalPathValues) # cf_OptionalPaths sample_validated)"
proof -
  have d: "oDeprecated newOptionalPathValues = no_deprecated" by (simp add: newOptionalPathValues_def)
  have keep: "oDeprecated p = x \<Longrightarrow> p\<lparr>oDeprecated := x\<rparr> = p" for p :: optional_path and x by auto
  have u: "newOptionalPathValues\<lparr>oDeprecated := no_deprecated\<rparr> = newOptionalPathValues"
    by (rule keep) (rule d)
  have m: "newOptionalPathValues\<lparr>oMaxReaders := v, oDeprecated := no_deprecated\<rparr> = newOptionalPathValues\<lparr>oMaxReaders := v\<rparr>" for v
    by (rule keep) (simp add: d)
  show "clone_paths sample_text (cf_OptionalPaths sample_validated) = Inr (cf_OptionalPaths sample_validated)"
    by (simp add: sample_fields d m u)
  then show "clone_paths sample_text ((nm, Some newOptionalPathValues) # cf_OptionalPaths sample_validated) =
     Inr ((nm, Some newOptionalPathValues) # cf_OptionalPaths sample_validated)"
    by (simp add: d u)
qed

section \<open>Calls\<close>

definition sample_request :: "string \<Rightarrow> api_request" where
  "sample_request nm =
     \<lparr>aq_Method = [], aq_RequestMethod = [], aq_Query = \<lambda>_. [], aq_Param = \<lambda>_. slash # nm, aq_IP = [],
      aq_HTTP = \<lparr>RawQuery = [], BasicAuth = ([], []), AuthorizationHeader = []\<rparr>\<rparr>"

lemma sample_name: "nm \<noteq> [] \<Longrightarrow> paramName (sample_request nm) = Some nm"
  by (cases nm) (simp_all add: paramName_def sample_request_def Let_def)

definition sample_state :: api_state where
  "sample_state = \<lparr>ap_conf = sample_validated, ap_sent = []\<rparr>"

text \<open>The same configuration with one more path.\<close>

definition sample_before :: conf where
  "sample_before = sample_validated
     \<lparr>cf_OptionalPaths := (''old'', Some newOptionalPathValues) # cf_OptionalPaths sample_validated, cf_Paths := []\<rparr>"

definition cam_values :: optional_path where
  "cam_values = newOptionalPathValues\<lparr>oMaxReaders := Some 3\<rparr>"

lemma sample_stays: "Validate sample_env (sample_validated\<lparr>cf_Paths := qs\<rparr>) = Inr sample_validated"
  by (rule validated_stays [OF sample_accepted sample_not_legacy]) (simp add: sample_global_fields no_deprecated_global_def)

lemma sample_good: "conf_good sample_validated"
  by (rule validated_good [OF sample_accepted]) (simp add: sample_global_fields)

lemma sample_replace:
  "config_step sample_api (PathsReplace (Inr cam_values) (sample_request ''cam'')) sample_state =
     Inr (ApiStatus 200, \<lparr>ap_conf = sample_validated, ap_sent = [(False, sample_validated)]\<rparr>)"
proof -
  have c: "Clone sample_text sample_validated = Inr (sample_validated\<lparr>cf_Paths := []\<rparr>)"
    using sample_clone [OF sample_paths_back(1), of "cf_Paths sample_validated"] by simp
  have "AList.update ''cam'' (Some cam_values) (cf_OptionalPaths sample_validated) = cf_OptionalPaths sample_validated"
    by (simp add: sample_fields cam_values_def)
  then have "ReplacePath ''cam'' cam_values (sample_validated\<lparr>cf_Paths := []\<rparr>) = Inr (sample_validated\<lparr>cf_Paths := []\<rparr>)"
    by (simp add: ReplacePath_def)
  then show ?thesis
    by (simp add: onConfigPathsReplace_def sample_name set_conf_def sample_api_def sample_state_def c sample_stays)
qed

lemma sample_delete:
  "config_step sample_api (PathsDelete (sample_request ''old'')) \<lparr>ap_conf = sample_before, ap_sent = []\<rparr> =
     Inr (ApiStatus 200, \<lparr>ap_conf = sample_validated, ap_sent = [(False, sample_validated)]\<rparr>)"
proof -
  have c: "Clone sample_text sample_before = Inr sample_before"
    using sample_clone [OF sample_paths_back(2), of "[]" "''old''"] by (simp add: sample_before_def)
  have "AList.delete ''old'' ((''old'', v) # cf_OptionalPaths sample_validated) = cf_OptionalPaths sample_validated" for v
    by (simp add: sample_fields)
  then have "RemovePath ''old'' sample_before = Inr (sample_validated\<lparr>cf_Paths := []\<rparr>)"
    by (simp add: RemovePath_def sample_before_def)
  then show ?thesis
    by (simp add: onConfigPathsDelete_def sample_name set_conf_def sample_api_def c sample_stays)
qed

lemma api_conf_valid_witness:
  "\<exists>a'. api_run sample_api [Call (PathsReplace (Inr cam_values) (sample_request ''cam''))] sample_state = Inr a' \<and>
     conf_good (ap_conf a') \<and> ap_sent a' = [(False, ap_conf a')]"
proof -
  have run: "api_run sample_api [Call (PathsReplace (Inr cam_values) (sample_request ''cam''))] sample_state =
      Inr \<lparr>ap_conf = sample_validated, ap_sent = [(False, sample_validated)]\<rparr>"
    using sample_replace by simp
  show ?thesis
    using api_conf_valid [OF run] sample_good run by (simp add: sample_state_def)
qed

lemma api_config_replies_witness:
  "reply_status (ApiStatus 200 :: unit api_reply) = 200 \<and>
   (\<exists>c0 c1. Clone sample_text sample_before = Inr c0 \<and> changed_by (PathsDelete (sample_request ''old'')) c0 (Inr c1) \<and>
      Validate sample_env c1 = Inr sample_validated)"
  using api_config_replies [OF sample_delete] by (auto simp: sample_api_def)


section \<open>A file that ends the process\<close>

definition crash_conf :: path_conf where
  "crash_conf = store_conf\<lparr>Name := ''all_others'', Regexp := Some ''^.*$''\<rparr>"

definition crash_store :: store_env where
  "crash_store = store_sample
     \<lparr>walk_dir := \<lambda>root. [Visit ''/rec'' True, Visit ''/rec/a b/2024-01-01_00-00-00-000000.mp4'' False]\<rparr>"

lemma crash_names:
  "FindAllPathsWithSegments sample_env crash_store [(''all_others'', crash_conf)] = [''a b'']"
  by code_simp

lemma crash_found: "\<not> isl (isValidPathName ''live'') \<and> isl (isValidPathName ''a b'')"
  by code_simp

lemma recordings_list_crash_witness:
  "onRecordingsList (sample_api\<lparr>ae_store := crash_store\<rparr>) (sample_request [])
     \<lparr>ap_conf = zero_global\<lparr>cf_Paths := [(''all_others'', crash_conf)]\<rparr>, ap_sent = []\<rparr> = Inl Panic"
proof -
  let ?a = "\<lparr>ap_conf = zero_global\<lparr>cf_Paths := [(''all_others'', crash_conf)]\<rparr>, ap_sent = []\<rparr>"
  let ?env = "sample_api\<lparr>ae_store := crash_store\<rparr>"
  have "conf_found ?env (ap_conf ?a) ''a b'' = None"
    using crash_found by (simp add: conf_found_def FindPathConf_def isl_def split: sum.splits) auto
  then show ?thesis
    using recordings_list_crash [of "sample_request []" ?env ?a]
    by (simp add: sample_request_def sample_api_def crash_names)
qed

section \<open>Deprecated credentials\<close>

definition frozen_before :: conf where
  "frozen_before = (conf_setDefaults zero_global)
     \<lparr>cf_PathDefaults := sample_path\<lparr>Deprecated := no_deprecated\<lparr>PublishUser := Some ''me''\<rparr>\<rparr>\<rparr>"

definition frozen :: conf where
  "frozen = frozen_before\<lparr>cf_AuthInternalUsers := Some legacyUsers\<rparr>"


lemma frozen_fields:
  "cf_Deprecated frozen_before = no_deprecated_global" "cf_OptionalPaths frozen_before = []" "cf_Paths frozen_before = []"
  "cf_PathDefaults frozen_before = sample_path\<lparr>Deprecated := no_deprecated\<lparr>PublishUser := Some ''me''\<rparr>\<rparr>"
  "cf_AuthInternalUsers frozen_before = Some defaultAuthInternalUsers" "cf_AuthMethod frozen_before = AuthMethodInternal"
  "cf_AuthHTTPAddress frozen_before = []" "cf_AuthJWTJWKS frozen_before = []"
  "cf_RTSP frozen_before = cf_RTSP sample_validated" "cf_WebRTC frozen_before = cf_WebRTC sample_validated"
  "cf_API frozen_before = cf_API sample_validated" "cf_Metrics frozen_before = cf_Metrics sample_validated"
  "cf_PPROF frozen_before = cf_PPROF sample_validated" "cf_Playback frozen_before = cf_Playback sample_validated"
  "cf_HLS frozen_before = cf_HLS sample_validated"
  by (simp_all add: frozen_before_def sample_validated_def sample_global_def)
    (simp_all add: conf_setDefaults_def zero_global_def)

lemma frozen_mode: "legacy_mode (frozen_before\<lparr>cf_AuthInternalUsers := us, cf_OptionalPaths := os\<rparr>)"
  by (simp add: legacy_mode_def anyPathHasDeprecatedCredentials_def frozen_fields credentials_set_def)

lemma frozen_general: "validate_general (frozen_before\<lparr>cf_AuthInternalUsers := us, cf_OptionalPaths := os\<rparr>) =
    Inr (frozen_before\<lparr>cf_AuthInternalUsers := us, cf_OptionalPaths := os\<rparr>)"
proof -
  have "word_of_int 512 AND (word_of_int 512 - 1) = (0 :: u64)" by simp
  moreover have "cf_ReadTimeout frozen_before = 10 * second" "cf_WriteTimeout frozen_before = 10 * second"
    "cf_WriteQueueSize frozen_before = 512" "cf_UDPMaxPayloadSize frozen_before = 1472"
    by (simp_all add: frozen_before_def conf_setDefaults_def)
  ultimately show ?thesis
    by (simp add: validate_general_def require_def frozen_fields no_deprecated_global_def power_of_two_def Let_def)
qed

lemma frozen_unchanged: "replaced frozen = frozen"
  by (rule nothing_replaced) (simp add: frozen_def frozen_fields)

lemma frozen_accepted: "Validate sample_env frozen_before = Inr frozen"
proof -
  have general: "validate_general frozen_before = Inr frozen_before"
    using frozen_general [where us = "cf_AuthInternalUsers frozen_before" and os = "cf_OptionalPaths frozen_before"] by simp
  have mode: "anyPathHasDeprecatedCredentials (cf_PathDefaults frozen_before) []"
    using frozen_mode [where us = "cf_AuthInternalUsers frozen_before" and os = "[]"] by (simp add: legacy_mode_def)
  have d: "cf_Deprecated frozen = no_deprecated_global" by (simp add: frozen_def frozen_fields)
  have authentication: "validate_authentication frozen_before = Inr (frozen, True)"
    using mode by (simp add: validate_authentication_def external_auth_def frozen_fields(1,2,5-8) no_deprecated_global_def require_def
        validate_users_def validate_method_def frozen_def Let_def)
  have w: "webrtc_replaced no_deprecated_global v = v" "rtsp_replaced no_deprecated_global r = r" for v r
    by (simp_all add: webrtc_replaced_def rtsp_replaced_def no_deprecated_global_def)
  have s: "servers_replaced frozen = frozen" "record_replaced frozen = frozen"
    by (simp_all add: servers_replaced_def record_replaced_def d no_deprecated_global_def Let_def)
  have f: "cf_RTSP frozen = cf_RTSP sample_validated" "cf_WebRTC frozen = cf_WebRTC sample_validated" "cf_OptionalPaths frozen = []" "cf_Paths frozen = []"
    by (simp_all add: frozen_def frozen_fields)
  have e: "rs_Encryption (cf_RTSP sample_validated) = EncryptionNo" "wr_ICEServers2 (cf_WebRTC sample_validated) = []"
    "wr_LocalUDPAddress (cf_WebRTC sample_validated) = '':8189''" "wr_IPsFromInterfaces (cf_WebRTC sample_validated)"
    by (simp_all add: sample_validated_def sample_global_def) (simp_all add: conf_setDefaults_def zero_global_def)
  have rtsp: "validate_rtsp_server frozen = Inr frozen"
    by (simp add: validate_rtsp_server_def d w f e require_def sample_fields)
  have webrtc: "validate_webrtc_server frozen = Inr frozen"
    by (simp add: validate_webrtc_server_def d w f e require_def)
  have fill: "fill_paths frozen = frozen"
    using f(3,4) by (simp add: fill_paths_def fill_optional_def conf_sortedKeys_def)
  show ?thesis
    by (simp add: Validate_def general authentication rtsp webrtc s fill f conf_sortedKeys_def validate_aliases_def require_def)
qed

lemma legacyUsers_back: "clone_opt_users sample_text (Some legacyUsers) = Inr (Some legacyUsers)"
  by (simp add: legacyUsers_def localhost_back)

lemma frozen_clone: "Clone sample_text frozen = Inr frozen"
proof -
  have h: "hc_TrustedProxies h = [] \<Longrightarrow> clone_http sample_text h = Inr h" for h
    by (cases h) (simp add: clone_http_def)
  have none: "dAuthMethods no_deprecated_global = None" by (simp add: no_deprecated_global_def)
  have dep: "clone_deprecated sample_text (no_deprecated\<lparr>PublishUser := Some u\<rparr>) = Inr (no_deprecated\<lparr>PublishUser := Some u\<rparr>)" for u
    by (simp add: clone_deprecated_def no_deprecated_def)
  have "Clone sample_text frozen = Inr (frozen\<lparr>cf_Paths := []\<rparr>)"
    by (rule Clone_stable)
      (simp_all add: frozen_def frozen_fields h sample_fields none dep legacyUsers_back size_back methods_back sample_path_fields
        del: clone_opt_users.simps)
  moreover have "frozen\<lparr>cf_Paths := []\<rparr> = frozen" using frozen_fields(3) by (simp add: frozen_def)
  ultimately show ?thesis by simp
qed

lemma frozen_add:
  "config_step sample_api (PathsAdd (Inr newOptionalPathValues) (sample_request ''cam'')) \<lparr>ap_conf = frozen, ap_sent = []\<rparr> =
     Inr (ApiError 400 legacy_conflict, \<lparr>ap_conf = frozen, ap_sent = []\<rparr>)"
proof -
  let ?os = "[(''cam'', Some newOptionalPathValues)]"
  let ?c = "frozen_before\<lparr>cf_AuthInternalUsers := Some legacyUsers, cf_OptionalPaths := ?os\<rparr>"
  have add: "AddPath ''cam'' newOptionalPathValues frozen = Inr ?c"
    by (simp add: AddPath_def frozen_def frozen_fields)
  have mode: "anyPathHasDeprecatedCredentials (cf_PathDefaults frozen_before) ?os"
    using frozen_mode [where us = None and os = ?os] by (simp add: legacy_mode_def)
  have neq: "legacyUsers \<noteq> defaultAuthInternalUsers" by (simp add: legacyUsers_def defaultAuthInternalUsers_def)
  have "validate_authentication ?c = Inl legacy_conflict"
    using mode neq by (simp add: validate_authentication_def external_auth_def frozen_fields(1,6-8) no_deprecated_global_def require_def
        validate_users_def)
  then have "Validate sample_env ?c = Inl legacy_conflict"
    by (simp add: Validate_def frozen_general)
  then show ?thesis
    by (simp add: onConfigPathsAdd_def sample_name set_conf_def sample_api_def frozen_clone add refuse_def legacy_conflict_def)
qed


end
