(* ===== verification/Spec2Isabelle.thy ===== *)
theory Spec2Isabelle
  imports ConnSession PathRefinement ManagerAuth RecordCleaner PlaybackServer CoreProperties ServerSessions ApiSamples
begin

text \<open>
  A verification library for the media server under src/mediamtx.

  Theories: Prelude (machine integers, errors, byte conversions), Amf0, Chunk, RawReader, RawWriter.
\<close>

end
